(* ===== verification/Rust_Base.thy ===== *)
theory Rust_Base
  imports Main "HOL-Library.Word" "HOL-Library.Multiset"
begin

text \<open>
  The vocabulary every component shares: Rust's results, its checked, saturating and
  wrapping integer operations on fixed-width words, \<open>Ordering\<close> with a stable
  \<open>sort_by\<close>, the laws a comparison must have (locale \<open>comparison\<close>), and the contract
  of a component whose operations keep an invariant and a budget (locales \<open>machine\<close>
  and \<open>bounded_machine\<close>).

  A value of a machine integer type is a word, so it cannot leave its range; unchecked
  \<open>+\<close> and \<open>-\<close> on words wrap, as they do in the release profile of the repository's
  \<open>Cargo.toml\<close>, which does not turn overflow checks on. A \<open>usize\<close> that only ever
  holds the length of a collection is a \<open>nat\<close>.
\<close>

section \<open>Machine integers\<close>

type_synonym u8 = "8 word"
type_synonym u16 = "16 word"
type_synonym u32 = "32 word"
type_synonym u64 = "64 word"
type_synonym u128 = "128 word"

named_theorems checked_arith "what a successful checked operation computes"

definition checked_add :: "'a::len word \<Rightarrow> 'a word \<Rightarrow> 'a word option" where
  "checked_add a b = (if unat a + unat b < 2 ^ LENGTH('a) then Some (a + b) else None)"

definition checked_sub :: "'a::len word \<Rightarrow> 'a word \<Rightarrow> 'a word option" where
  "checked_sub a b = (if b \<le> a then Some (a - b) else None)"

definition checked_mul :: "'a::len word \<Rightarrow> 'a word \<Rightarrow> 'a word option" where
  "checked_mul a b = (if unat a * unat b < 2 ^ LENGTH('a) then Some (a * b) else None)"

definition checked_div :: "'a::len word \<Rightarrow> 'a word \<Rightarrow> 'a word option" where
  "checked_div a b = (if b = 0 then None else Some (a div b))"

definition saturating_add :: "'a::len word \<Rightarrow> 'a word \<Rightarrow> 'a word" where
  "saturating_add a b = (case checked_add a b of Some c \<Rightarrow> c | None \<Rightarrow> - 1)"

definition saturating_sub :: "'a::len word \<Rightarrow> 'a word \<Rightarrow> 'a word" where
  "saturating_sub a b = (if b \<le> a then a - b else 0)"

definition saturating_mul :: "'a::len word \<Rightarrow> 'a word \<Rightarrow> 'a word" where
  "saturating_mul a b = (case checked_mul a b of Some c \<Rightarrow> c | None \<Rightarrow> - 1)"

definition div_ceil :: "'a::len word \<Rightarrow> 'a word \<Rightarrow> 'a word" where
  "div_ceil a b = (if a mod b = 0 then a div b else a div b + 1)"

definition try_from_word :: "'a::len word \<Rightarrow> 'b::len word option" where
  "try_from_word w = (if unat w < 2 ^ LENGTH('b) then Some (ucast w) else None)"

definition word_of_usize :: "nat \<Rightarrow> 'a::len word" where
  "word_of_usize n = (if n < 2 ^ LENGTH('a) then of_nat n else - 1)"

text \<open>A \<open>usize\<close> of a 64-bit target held as a natural number.\<close>

abbreviation usize_limit :: nat where
  "usize_limit \<equiv> 2 ^ 64"

definition usize_add :: "nat \<Rightarrow> nat \<Rightarrow> nat" where
  "usize_add a b = (a + b) mod usize_limit"

definition usize_checked_add :: "nat \<Rightarrow> nat \<Rightarrow> nat option" where
  "usize_checked_add a b = (if a + b < usize_limit then Some (a + b) else None)"

definition usize_checked_mul :: "nat \<Rightarrow> nat \<Rightarrow> nat option" where
  "usize_checked_mul a b = (if a * b < usize_limit then Some (a * b) else None)"

definition usize_checked_sub :: "nat \<Rightarrow> nat \<Rightarrow> nat option" where
  "usize_checked_sub a b = (if b \<le> a then Some (a - b) else None)"

lemma checked_add_unat [checked_arith]:
  "checked_add a b = Some c \<Longrightarrow> unat c = unat a + unat b"
  for a :: "'a::len word"
  by (auto simp: checked_add_def unat_word_ariths take_bit_nat_eq_self split: if_splits)

lemma checked_sub_unat [checked_arith]:
  "checked_sub a b = Some c \<Longrightarrow> unat c = unat a - unat b \<and> unat b \<le> unat a"
  for a :: "'a::len word"
  by (auto simp: checked_sub_def unat_sub word_le_nat_alt split: if_splits)

lemma checked_mul_unat [checked_arith]:
  "checked_mul a b = Some c \<Longrightarrow> unat c = unat a * unat b"
  for a :: "'a::len word"
  by (auto simp: checked_mul_def unat_word_ariths take_bit_nat_eq_self split: if_splits)

lemma checked_div_unat [checked_arith]:
  "checked_div a b = Some c \<Longrightarrow> unat c = unat a div unat b"
  for a :: "'a::len word"
  by (auto simp: checked_div_def unat_div split: if_splits)

lemma checked_add_None: "checked_add a b = None \<longleftrightarrow> 2 ^ LENGTH('a) \<le> unat a + unat b"
  for a :: "'a::len word"
  by (auto simp: checked_add_def)

lemma unat_wrap_sub: "b \<le> a \<Longrightarrow> unat (a - b) = unat a - unat b"
  for a :: "'a::len word"
  by (simp add: unat_sub word_le_nat_alt)

lemma unat_saturating_sub: "unat (saturating_sub a b) = unat a - unat b"
  for a :: "'a::len word"
  by (auto simp: saturating_sub_def unat_sub word_le_nat_alt not_le)

lemma unat_min: "unat (min a b) = min (unat a) (unat b)"
  for a :: "'a::len word"
  by (auto simp: min_def word_le_nat_alt)

lemma unat_max: "unat (max a b) = max (unat a) (unat b)"
  for a :: "'a::len word"
  by (auto simp: max_def word_le_nat_alt)

lemma unat_gt_0_iff: "0 < unat a \<longleftrightarrow> a \<noteq> 0"
  for a :: "'a::len word"
  by (simp add: unat_gt_0)

lemma unat_lt_2p: "unat a < 2 ^ LENGTH('a)"
  for a :: "'a::len word"
  by (rule unsigned_less)

lemma unat_ucast_widen: "LENGTH('a) \<le> LENGTH('b) \<Longrightarrow> unat (ucast a :: 'b::len word) = unat a"
  for a :: "'a::len word"
  by (simp add: unsigned_ucast_eq take_bit_nat_eq_self order_less_le_trans [OF unsigned_less])

lemma unat_u32_to_u64 [simp]: "unat (ucast (a :: u32) :: u64) = unat a"
  by (rule unat_ucast_widen) simp

lemma unat_u32_to_u128 [simp]: "unat (ucast (a :: u32) :: u128) = unat a"
  by (rule unat_ucast_widen) simp

lemma unat_u64_to_u128 [simp]: "unat (ucast (a :: u64) :: u128) = unat a"
  by (rule unat_ucast_widen) simp

lemma unat_u16_to_u128 [simp]: "unat (ucast (a :: u16) :: u128) = unat a"
  by (rule unat_ucast_widen) simp

lemma try_from_word_unat [checked_arith]:
  "(try_from_word w :: 'b::len word option) = Some v \<Longrightarrow> unat v = unat w"
  for w :: "'a::len word"
  by (auto simp: try_from_word_def unsigned_ucast_eq take_bit_nat_eq_self split: if_splits)

lemma unat_word_of_usize_le: "unat (word_of_usize n :: 'a::len word) \<le> n"
proof (cases "n < 2 ^ LENGTH('a)")
  case True
  then show ?thesis by (simp add: word_of_usize_def unsigned_of_nat take_bit_nat_eq_self)
next
  case False
  have "unat (- 1 :: 'a word) < 2 ^ LENGTH('a)" by (rule unsigned_less)
  with False have "unat (- 1 :: 'a word) \<le> n" by linarith
  then show ?thesis by (simp only: word_of_usize_def False if_False)
qed

section \<open>Results\<close>

text \<open>
  A call returns a value, returns an error, or panics (an \<open>expect\<close> on nothing, an index
  out of range, an \<open>unreachable!\<close>). \<open>and_then\<close> is \<open>?\<close> on a value that carries no
  state; \<open>try_pure\<close> and \<open>try_st\<close> are \<open>?\<close> inside a method with \<open>&mut self\<close>: the
  state reached when the error occurs is the state the caller sees.
\<close>

datatype ('a, 'e) outcome = Ok 'a | Err 'e | Panic

definition ok_or :: "'a option \<Rightarrow> 'e \<Rightarrow> ('a, 'e) outcome" where
  "ok_or v e = (case v of Some a \<Rightarrow> Ok a | None \<Rightarrow> Err e)"

definition expect :: "'a option \<Rightarrow> ('a, 'e) outcome" where
  "expect v = (case v of Some a \<Rightarrow> Ok a | None \<Rightarrow> Panic)"

fun and_then :: "('a, 'e) outcome \<Rightarrow> ('a \<Rightarrow> ('b, 'e) outcome) \<Rightarrow> ('b, 'e) outcome" where
  "and_then (Ok a) f = f a"
| "and_then (Err e) f = Err e"
| "and_then Panic f = Panic"

fun map_err :: "('e \<Rightarrow> 'f) \<Rightarrow> ('a, 'e) outcome \<Rightarrow> ('a, 'f) outcome" where
  "map_err f (Ok a) = Ok a"
| "map_err f (Err e) = Err (f e)"
| "map_err f Panic = Panic"

fun try_pure :: "('a, 'e) outcome \<Rightarrow> 's \<Rightarrow> ('a \<Rightarrow> ('b, 'e) outcome \<times> 's) \<Rightarrow> ('b, 'e) outcome \<times> 's" where
  "try_pure (Ok a) s f = f a"
| "try_pure (Err e) s f = (Err e, s)"
| "try_pure Panic s f = (Panic, s)"

fun try_st :: "('a, 'e) outcome \<times> 's \<Rightarrow> ('a \<Rightarrow> 's \<Rightarrow> ('b, 'e) outcome \<times> 's) \<Rightarrow> ('b, 'e) outcome \<times> 's" where
  "try_st (Ok a, s) f = f a s"
| "try_st (Err e, s) f = (Err e, s)"
| "try_st (Panic, s) f = (Panic, s)"

text \<open>
  A call on a field of the caller's state: the callee's error is converted (\<open>From\<close>) and
  its new state is put back into the caller's.
\<close>

definition lift_call :: "('e \<Rightarrow> 'f) \<Rightarrow> ('s \<Rightarrow> 't) \<Rightarrow> ('a, 'e) outcome \<times> 's \<Rightarrow> ('a, 'f) outcome \<times> 't" where
  "lift_call h g m = (map_err h (fst m), g (snd m))"

text \<open>\<open>collect()\<close> of an iterator of results: the first failure ends it.\<close>

fun collect_results :: "('a, 'e) outcome list \<Rightarrow> ('a list, 'e) outcome" where
  "collect_results [] = Ok []"
| "collect_results (r # rs) = and_then r (\<lambda>a. and_then (collect_results rs) (\<lambda>as. Ok (a # as)))"

text \<open>\<open>&xs[from..to]\<close> and \<open>xs[i]\<close>: a range that is inverted or leaves the slice panics.\<close>

definition slice :: "'a list \<Rightarrow> nat \<Rightarrow> nat \<Rightarrow> ('a list, 'e) outcome" where
  "slice xs from to = (if from \<le> to \<and> to \<le> length xs then Ok (take (to - from) (drop from xs)) else Panic)"

definition at_index :: "'a list \<Rightarrow> nat \<Rightarrow> ('a, 'e) outcome" where
  "at_index xs i = (if i < length xs then Ok (xs ! i) else Panic)"

text \<open>\<open>Iterator::find_map\<close>.\<close>

fun find_map_some :: "('a \<Rightarrow> 'b option) \<Rightarrow> 'a list \<Rightarrow> 'b option" where
  "find_map_some f [] = None"
| "find_map_some f (x # xs) = (case f x of Some y \<Rightarrow> Some y | None \<Rightarrow> find_map_some f xs)"

lemma ok_or_eq_Ok [simp]: "ok_or v e = Ok a \<longleftrightarrow> v = Some a"
  by (cases v) (auto simp: ok_or_def)

lemma ok_or_eq_Err [simp]: "ok_or v e = Err e' \<longleftrightarrow> v = None \<and> e' = e"
  by (cases v) (auto simp: ok_or_def)

lemma ok_or_no_panic [simp]: "ok_or v e \<noteq> Panic"
  by (cases v) (auto simp: ok_or_def)

lemma ok_or_simps [simp]: "ok_or (Some a) e = Ok a" "ok_or None e = Err e"
  by (simp_all add: ok_or_def)

lemma expect_simps [simp]: "expect (Some a) = Ok a" "expect None = Panic"
  by (simp_all add: expect_def)

lemma and_then_eq_Ok: "and_then r f = Ok b \<longleftrightarrow> (\<exists>a. r = Ok a \<and> f a = Ok b)"
  by (cases r) auto

lemma and_then_no_panic: "r \<noteq> Panic \<Longrightarrow> (\<And>a. r = Ok a \<Longrightarrow> f a \<noteq> Panic) \<Longrightarrow> and_then r f \<noteq> Panic"
  by (cases r) auto

lemma collect_results_Ok: "collect_results (map (\<lambda>x. Ok (f x)) xs) = Ok (map f xs)"
  by (induction xs) auto

lemma collect_results_map: "(\<And>x. x \<in> set xs \<Longrightarrow> g x = Ok (f x)) \<Longrightarrow> collect_results (map g xs) = Ok (map f xs)"
  by (induction xs) auto

lemma try_pure_cases:
  "try_pure r s f = (case r of Ok a \<Rightarrow> f a | Err e \<Rightarrow> (Err e, s) | Panic \<Rightarrow> (Panic, s))"
  by (cases r) auto

lemma try_st_cases:
  "try_st m f = (case m of (Ok a, s) \<Rightarrow> f a s | (Err e, s) \<Rightarrow> (Err e, s) | (Panic, s) \<Rightarrow> (Panic, s))"
  by (cases m; cases "fst m") auto

lemma try_st_Ok_iff: "try_st m f = (Ok b, t) \<longleftrightarrow> (\<exists>a s. m = (Ok a, s) \<and> f a s = (Ok b, t))"
  by (cases m; cases "fst m") auto

lemma try_pure_Ok_iff: "try_pure r s f = (Ok b, t) \<longleftrightarrow> (\<exists>a. r = Ok a \<and> f a = (Ok b, t))"
  by (cases r) auto

lemma try_st_no_panic: "fst m \<noteq> Panic \<Longrightarrow> (\<And>a s. m = (Ok a, s) \<Longrightarrow> fst (f a s) \<noteq> Panic) \<Longrightarrow> fst (try_st m f) \<noteq> Panic"
  by (cases m; cases "fst m") auto

lemma try_pure_no_panic: "r \<noteq> Panic \<Longrightarrow> (\<And>a. r = Ok a \<Longrightarrow> fst (f a) \<noteq> Panic) \<Longrightarrow> fst (try_pure r s f) \<noteq> Panic"
  by (cases r) auto

section \<open>Ordering and a stable sort\<close>

datatype ordering = Less | Equal | Greater

definition cmp :: "'a::linorder \<Rightarrow> 'a \<Rightarrow> ordering" where
  "cmp a b = (if a < b then Less else if a = b then Equal else Greater)"

fun then_with :: "ordering \<Rightarrow> ordering \<Rightarrow> ordering" where
  "then_with Equal o2 = o2"
| "then_with o1 o2 = o1"

fun cmp_option :: "'a::linorder option \<Rightarrow> 'a option \<Rightarrow> ordering" where
  "cmp_option None None = Equal"
| "cmp_option None (Some b) = Less"
| "cmp_option (Some a) None = Greater"
| "cmp_option (Some a) (Some b) = cmp a b"

lemma cmp_simps [simp]:
  "cmp a b = Less \<longleftrightarrow> a < b" "cmp a b = Equal \<longleftrightarrow> a = b" "cmp a b = Greater \<longleftrightarrow> b < a"
  for a :: "'a::linorder"
  by (auto simp: cmp_def)

lemma then_with_Greater: "then_with o1 o2 = Greater \<longleftrightarrow> o1 = Greater \<or> o1 = Equal \<and> o2 = Greater"
  by (cases o1) auto

lemma then_with_Less: "then_with o1 o2 = Less \<longleftrightarrow> o1 = Less \<or> o1 = Equal \<and> o2 = Less"
  by (cases o1) auto

lemma then_with_Equal: "then_with o1 o2 = Equal \<longleftrightarrow> o1 = Equal \<and> o2 = Equal"
  by (cases o1) auto

text \<open>
  The insertion puts an element before the first one it does not exceed; folding it from
  the right keeps equal elements in their input order, which is the promise of
  \<open>sort_by\<close> and \<open>sort_by_key\<close>.
\<close>

fun insort_by :: "('a \<Rightarrow> 'a \<Rightarrow> ordering) \<Rightarrow> 'a \<Rightarrow> 'a list \<Rightarrow> 'a list" where
  "insort_by c x [] = [x]"
| "insort_by c x (y # ys) = (if c x y = Greater then y # insort_by c x ys else x # y # ys)"

fun sort_by :: "('a \<Rightarrow> 'a \<Rightarrow> ordering) \<Rightarrow> 'a list \<Rightarrow> 'a list" where
  "sort_by c [] = []"
| "sort_by c (x # xs) = insort_by c x (sort_by c xs)"

lemma mset_insort_by [simp]: "mset (insort_by c x xs) = add_mset x (mset xs)"
  by (induction xs) auto

lemma mset_sort_by [simp]: "mset (sort_by c xs) = mset xs"
  by (induction xs) auto

lemma set_sort_by [simp]: "set (sort_by c xs) = set xs"
  using mset_sort_by [of c xs] by (metis set_mset_mset)

lemma length_sort_by [simp]: "length (sort_by c xs) = length xs"
  using mset_sort_by [of c xs] by (metis size_mset)

lemma distinct_map_sort_by: "distinct (map f (sort_by c xs)) = distinct (map f xs)"
  by (metis mset_sort_by mset_map mset_eq_imp_distinct_iff)

text \<open>
  The laws a comparison passed to \<open>sort_by\<close> must have, on the elements it is applied to.
\<close>

locale comparison =
  fixes c :: "'a \<Rightarrow> 'a \<Rightarrow> ordering" and A :: "'a set"
  assumes antisym: "x \<in> A \<Longrightarrow> y \<in> A \<Longrightarrow> c x y = Greater \<longleftrightarrow> c y x = Less"
    and trans_le: "x \<in> A \<Longrightarrow> y \<in> A \<Longrightarrow> z \<in> A \<Longrightarrow>
      c x y \<noteq> Greater \<Longrightarrow> c y z \<noteq> Greater \<Longrightarrow> c x z \<noteq> Greater"
begin

lemma not_greater_flip: "x \<in> A \<Longrightarrow> y \<in> A \<Longrightarrow> c x y = Greater \<Longrightarrow> c y x \<noteq> Greater"
  using antisym [of x y] by auto

lemma sorted_insort_by:
  "x \<in> A \<Longrightarrow> set xs \<subseteq> A \<Longrightarrow> sorted_wrt (\<lambda>a b. c a b \<noteq> Greater) xs \<Longrightarrow>
   sorted_wrt (\<lambda>a b. c a b \<noteq> Greater) (insort_by c x xs)"
proof (induction xs)
  case Nil
  then show ?case by simp
next
  case (Cons y ys)
  have set_eq: "set (insort_by c x ys) = insert x (set ys)"
    by (metis mset_insort_by set_mset_add_mset_insert set_mset_mset)
  show ?case
  proof (cases "c x y = Greater")
    case True
    then have "c y x \<noteq> Greater" using Cons.prems not_greater_flip by simp
    with Cons True set_eq show ?thesis by auto
  next
    case False
    then have "\<forall>z\<in>set ys. c x z \<noteq> Greater"
      using Cons.prems trans_le [of x y] by auto
    with Cons.prems False show ?thesis by auto
  qed
qed

lemma sorted_sort_by: "set xs \<subseteq> A \<Longrightarrow> sorted_wrt (\<lambda>a b. c a b \<noteq> Greater) (sort_by c xs)"
proof (induction xs)
  case (Cons x xs)
  then show ?case using sorted_insort_by [of x "sort_by c xs"] by simp
qed simp

text \<open>Taking a prefix of the sorted list leaves out nothing that is strictly preferred.\<close>

lemma take_sort_by_preferred:
  assumes "set xs \<subseteq> A" and "x \<in> set (take n (sort_by c xs))" and "y \<in> set (drop n (sort_by c xs))"
  shows "c x y \<noteq> Greater"
proof -
  have "sorted_wrt (\<lambda>a b. c a b \<noteq> Greater) (take n (sort_by c xs) @ drop n (sort_by c xs))"
    using sorted_sort_by [OF assms(1)] by simp
  then show ?thesis using assms(2,3) by (auto simp only: sorted_wrt_append)
qed

end

text \<open>\<open>Iterator::max_by\<close>: of several greatest elements the last one is returned.\<close>

definition max_by :: "('a \<Rightarrow> 'a \<Rightarrow> ordering) \<Rightarrow> 'a list \<Rightarrow> 'a option" where
  "max_by c xs = (case xs of [] \<Rightarrow> None
     | x # ys \<Rightarrow> Some (fold (\<lambda>y best. if c best y = Greater then best else y) ys x))"

lemma max_by_None [simp]: "max_by c xs = None \<longleftrightarrow> xs = []"
  by (simp add: max_by_def split: list.splits)

lemma max_by_fold_member:
  "fold (\<lambda>y best. if c best y = Greater then best else y) ys x \<in> insert x (set ys)"
  by (induction ys arbitrary: x) (auto split: if_splits)

lemma max_by_member: "max_by c xs = Some m \<Longrightarrow> m \<in> set xs"
  using max_by_fold_member [of c] by (auto simp: max_by_def split: list.splits)

context comparison
begin

lemma refl_le: "x \<in> A \<Longrightarrow> c x x \<noteq> Greater"
  using antisym [of x x] by auto

lemma max_by_greatest:
  assumes "max_by c xs = Some m" and "set xs \<subseteq> A" and "y \<in> set xs"
  shows "c y m \<noteq> Greater"
proof -
  let ?f = "\<lambda>y best. if c best y = Greater then best else y"
  have "\<forall>y\<in>insert x (set ys). c y (fold ?f ys x) \<noteq> Greater" if "insert x (set ys) \<subseteq> A" for x ys
    using that
  proof (induction ys arbitrary: x)
    case (Cons z zs)
    let ?b = "?f z x"
    have b: "?b \<in> A" using Cons.prems by auto
    have ge: "c x ?b \<noteq> Greater" "c z ?b \<noteq> Greater"
      using Cons.prems refl_le [of x] refl_le [of z] not_greater_flip [of x z] by auto
    have ih: "\<forall>y\<in>insert ?b (set zs). c y (fold ?f zs ?b) \<noteq> Greater"
      by (rule Cons.IH) (use Cons.prems b in auto)
    have top: "fold ?f zs ?b \<in> A" using max_by_fold_member [of c zs ?b] Cons.prems b by auto
    have "c x (fold ?f zs ?b) \<noteq> Greater" "c z (fold ?f zs ?b) \<noteq> Greater"
      using trans_le [OF _ b top] ge ih Cons.prems by auto
    then show ?case using ih by simp
  qed (simp add: refl_le)
  then show ?thesis using assms by (auto simp: max_by_def split: list.splits)
qed

end

text \<open>How lawful comparisons are built: by a key, by a second criterion, by a case split.\<close>

lemma comparison_map:
  assumes "comparison c UNIV"
  shows "comparison (\<lambda>x y. c (f x) (f y)) A"
proof unfold_locales
  fix x y z
  show "c (f x) (f y) = Greater \<longleftrightarrow> c (f y) (f x) = Less"
    by (rule comparison.antisym [OF assms]) simp_all
  show "c (f x) (f y) \<noteq> Greater \<Longrightarrow> c (f y) (f z) \<noteq> Greater \<Longrightarrow> c (f x) (f z) \<noteq> Greater"
    by (rule comparison.trans_le [OF assms]) simp_all
qed

lemma comparison_key: "comparison (\<lambda>x y. cmp (f x) (f y)) A"
  for f :: "'a \<Rightarrow> 'b::linorder"
  by unfold_locales (auto simp: cmp_def split: if_splits)

lemma comparison_key_desc: "comparison (\<lambda>x y. cmp (f y) (f x)) A"
  for f :: "'a \<Rightarrow> 'b::linorder"
  by unfold_locales (auto simp: cmp_def split: if_splits)

lemma cmp_option_iff:
  "cmp_option a b = Greater \<longleftrightarrow> (\<exists>x. a = Some x \<and> (\<forall>y. b = Some y \<longrightarrow> y < x))"
  "cmp_option a b = Less \<longleftrightarrow> (\<exists>y. b = Some y \<and> (\<forall>x. a = Some x \<longrightarrow> x < y))"
  for a b :: "'b::linorder option"
  by (cases a; cases b; auto)+

lemma comparison_key_option: "comparison (\<lambda>x y. cmp_option (f x) (f y)) A"
  for f :: "'a \<Rightarrow> 'b::linorder option"
proof unfold_locales
  fix x y z
  show "cmp_option (f x) (f y) = Greater \<longleftrightarrow> cmp_option (f y) (f x) = Less"
    by (auto simp: cmp_option_iff)
  show "cmp_option (f x) (f y) \<noteq> Greater \<Longrightarrow> cmp_option (f y) (f z) \<noteq> Greater \<Longrightarrow> cmp_option (f x) (f z) \<noteq> Greater"
    by (cases "f x"; cases "f y"; cases "f z") auto
qed

lemma comparison_Equal:
  assumes "comparison c A" and "x \<in> A" "y \<in> A"
  shows "c x y = Equal \<longleftrightarrow> c x y \<noteq> Greater \<and> c y x \<noteq> Greater"
  using comparison.antisym [OF assms] comparison.antisym [OF assms(1,3,2)] by (cases "c x y") auto

lemma comparison_then_with:
  assumes "comparison c1 A" and "comparison c2 A"
  shows "comparison (\<lambda>x y. then_with (c1 x y) (c2 x y)) A"
proof unfold_locales
  fix x y z
  assume xy: "x \<in> A" "y \<in> A"
  have eq: "c1 x y = Equal \<longleftrightarrow> c1 y x = Equal" if "x \<in> A" "y \<in> A" for x y
    using comparison_Equal [OF assms(1) that] comparison_Equal [OF assms(1) that(2,1)] by auto
  show "then_with (c1 x y) (c2 x y) = Greater \<longleftrightarrow> then_with (c1 y x) (c2 y x) = Less"
    using comparison.antisym [OF assms(1) xy] comparison.antisym [OF assms(2) xy] eq [OF xy]
    by (auto simp: then_with_Greater then_with_Less)
  assume z: "z \<in> A" and le: "then_with (c1 x y) (c2 x y) \<noteq> Greater" "then_with (c1 y z) (c2 y z) \<noteq> Greater"
  have t1: "c1 x z \<noteq> Greater"
    using le comparison.trans_le [OF assms(1) xy z] by (auto simp: then_with_Greater)
  have "c2 x z \<noteq> Greater" if "c1 x z = Equal"
  proof -
    have "c1 z x \<noteq> Greater" using that comparison_Equal [OF assms(1) xy(1) z] by simp
    then have "c1 y x \<noteq> Greater" "c1 z y \<noteq> Greater"
      using le comparison.trans_le [OF assms(1) xy(2) z xy(1)] comparison.trans_le [OF assms(1) z xy]
      by (auto simp: then_with_Greater)
    then have "c1 x y = Equal" "c1 y z = Equal"
      using le comparison_Equal [OF assms(1) xy] comparison_Equal [OF assms(1) xy(2) z]
      by (auto simp: then_with_Greater)
    with le show ?thesis
      using comparison.trans_le [OF assms(2) xy z] by (auto simp: then_with_Greater)
  qed
  with t1 show "then_with (c1 x z) (c2 x z) \<noteq> Greater" by (auto simp: then_with_Greater)
qed

lemma comparison_split:
  assumes "comparison c1 {x \<in> A. P x}" and "comparison c2 {x \<in> A. \<not> P x}"
  shows "comparison (\<lambda>x y. then_with (cmp (P y) (P x)) (if P x \<and> P y then c1 x y else c2 x y)) A"
proof unfold_locales
  fix x y z
  assume xy: "x \<in> A" "y \<in> A"
  show "then_with (cmp (P y) (P x)) (if P x \<and> P y then c1 x y else c2 x y) = Greater \<longleftrightarrow>
    then_with (cmp (P x) (P y)) (if P y \<and> P x then c1 y x else c2 y x) = Less"
    using comparison.antisym [OF assms(1), of x y] comparison.antisym [OF assms(2), of x y] xy
    by (auto simp: then_with_Greater then_with_Less)
  assume z: "z \<in> A"
    and le: "then_with (cmp (P y) (P x)) (if P x \<and> P y then c1 x y else c2 x y) \<noteq> Greater"
      "then_with (cmp (P z) (P y)) (if P y \<and> P z then c1 y z else c2 y z) \<noteq> Greater"
  then show "then_with (cmp (P z) (P x)) (if P x \<and> P z then c1 x z else c2 x z) \<noteq> Greater"
    using comparison.trans_le [OF assms(1), of x y z] comparison.trans_le [OF assms(2), of x y z] xy
    by (cases "P x"; cases "P y"; cases "P z") (auto simp: then_with_Greater)
qed

section \<open>Machines with an invariant and a budget\<close>

text \<open>
  A component is a step relation between states. The contract: the invariant holds at
  the start and no step loses it, so it holds in every reachable state. A bounded machine
  also promises that what it has in use fits its capacity, which no step changes.
\<close>

locale machine =
  fixes start :: "'s \<Rightarrow> bool" and step :: "'s \<Rightarrow> 's \<Rightarrow> bool" and inv :: "'s \<Rightarrow> bool"
  assumes inv_start: "start s \<Longrightarrow> inv s"
    and inv_step: "inv s \<Longrightarrow> step s t \<Longrightarrow> inv t"
begin

lemma inv_steps: "step\<^sup>*\<^sup>* s t \<Longrightarrow> inv s \<Longrightarrow> inv t"
  by (induction rule: rtranclp_induct) (auto intro: inv_step)

lemma inv_reachable: "start s \<Longrightarrow> step\<^sup>*\<^sup>* s t \<Longrightarrow> inv t"
  by (blast intro: inv_start inv_steps)

end

locale bounded_machine = machine +
  fixes used :: "'s \<Rightarrow> nat" and capacity :: "'s \<Rightarrow> nat"
  assumes inv_bound: "inv s \<Longrightarrow> used s \<le> capacity s"
    and capacity_step: "step s t \<Longrightarrow> capacity t = capacity s"
begin

lemma capacity_steps: "step\<^sup>*\<^sup>* s t \<Longrightarrow> capacity t = capacity s"
  by (induction rule: rtranclp_induct) (auto simp: capacity_step)

lemma reachable_within: "start s \<Longrightarrow> step\<^sup>*\<^sup>* s t \<Longrightarrow> used t \<le> capacity s"
  using inv_bound [of t] inv_reachable [of s t] capacity_steps [of s t] by simp

end

end
