(* ===== verification/BTree_Map.thy ===== *)
theory BTree_Map
  imports Rust_Base
begin

text \<open>
  \<open>std::collections::BTreeMap\<close> and \<open>BTreeSet\<close>: entries in strictly increasing key
  order, so that \<open>values()\<close>, \<open>keys()\<close> and \<open>iter()\<close> have a definite order. The locale
  \<open>ordered_map\<close> states what the components rely on; the ledger lemmas (how a sum over
  the values moves under an insert, a replacement, a removal) are proved once inside it
  and reach the components through the interpretation \<open>bt\<close>.
\<close>

type_synonym ('k, 'v) btree_map = "('k \<times> 'v) list"

definition bt_get :: "('k, 'v) btree_map \<Rightarrow> 'k \<Rightarrow> 'v option" where
  "bt_get m k = map_of m k"

fun bt_insert :: "'k::linorder \<Rightarrow> 'v \<Rightarrow> ('k, 'v) btree_map \<Rightarrow> ('k, 'v) btree_map" where
  "bt_insert k v [] = [(k, v)]"
| "bt_insert k v ((k', v') # m) =
     (if k < k' then (k, v) # (k', v') # m
      else if k = k' then (k, v) # m
      else (k', v') # bt_insert k v m)"

definition bt_remove :: "'k \<Rightarrow> ('k, 'v) btree_map \<Rightarrow> ('k, 'v) btree_map" where
  "bt_remove k m = filter (\<lambda>e. fst e \<noteq> k) m"

definition bt_retain :: "('k \<Rightarrow> 'v \<Rightarrow> bool) \<Rightarrow> ('k, 'v) btree_map \<Rightarrow> ('k, 'v) btree_map" where
  "bt_retain p m = filter (\<lambda>e. p (fst e) (snd e)) m"

definition bt_map_values :: "('v \<Rightarrow> 'w) \<Rightarrow> ('k, 'v) btree_map \<Rightarrow> ('k, 'w) btree_map" where
  "bt_map_values f m = map (\<lambda>e. (fst e, f (snd e))) m"

definition bt_contains :: "('k, 'v) btree_map \<Rightarrow> 'k \<Rightarrow> bool" where
  "bt_contains m k \<longleftrightarrow> bt_get m k \<noteq> None"

definition bt_values :: "('k, 'v) btree_map \<Rightarrow> 'v list" where
  "bt_values m = map snd m"

definition bt_keys :: "('k, 'v) btree_map \<Rightarrow> 'k list" where
  "bt_keys m = map fst m"

definition bt_entries :: "('k, 'v) btree_map \<Rightarrow> ('k \<times> 'v) list" where
  "bt_entries m = m"

definition bt_ok :: "('k::linorder, 'v) btree_map \<Rightarrow> bool" where
  "bt_ok m \<longleftrightarrow> sorted_wrt (<) (map fst m)"

text \<open>\<open>collect()\<close> into a map: later entries replace earlier ones of the same key.\<close>

definition bt_collect :: "('k::linorder \<times> 'v) list \<Rightarrow> ('k, 'v) btree_map" where
  "bt_collect xs = fold (\<lambda>e m. bt_insert (fst e) (snd e) m) xs []"

definition total :: "('v \<Rightarrow> nat) \<Rightarrow> ('k \<times> 'v) list \<Rightarrow> nat" where
  "total f es = sum_list (map (\<lambda>e. f (snd e)) es)"

section \<open>The interface\<close>

locale ordered_map =
  fixes get :: "'m \<Rightarrow> 'k \<Rightarrow> 'v option"
    and insert :: "'k \<Rightarrow> 'v \<Rightarrow> 'm \<Rightarrow> 'm"
    and remove :: "'k \<Rightarrow> 'm \<Rightarrow> 'm"
    and retain :: "('k \<Rightarrow> 'v \<Rightarrow> bool) \<Rightarrow> 'm \<Rightarrow> 'm"
    and entries :: "'m \<Rightarrow> ('k \<times> 'v) list"
    and ok :: "'m \<Rightarrow> bool"
  assumes get_entries: "ok m \<Longrightarrow> get m = map_of (entries m)"
    and distinct_entries: "ok m \<Longrightarrow> distinct (map fst (entries m))"
    and get_insert: "ok m \<Longrightarrow> get (insert k v m) = (get m)(k \<mapsto> v)"
    and get_remove: "ok m \<Longrightarrow> get (remove k m) = (get m)(k := None)"
    and get_retain: "ok m \<Longrightarrow>
      get (retain p m) k = (case get m k of None \<Rightarrow> None | Some v \<Rightarrow> if p k v then Some v else None)"
    and ok_insert: "ok m \<Longrightarrow> ok (insert k v m)"
    and ok_remove: "ok m \<Longrightarrow> ok (remove k m)"
    and ok_retain: "ok m \<Longrightarrow> ok (retain p m)"
begin

lemma finite_dom_get: "ok m \<Longrightarrow> finite (dom (get m))"
  by (simp add: get_entries finite_dom_map_of)

lemma entries_iff: "ok m \<Longrightarrow> (k, v) \<in> set (entries m) \<longleftrightarrow> get m k = Some v"
  by (simp add: get_entries distinct_entries)

text \<open>The sum over the entries is the sum over the domain of the map.\<close>

lemma total_dom:
  assumes "ok m"
  shows "total f (entries m) = (\<Sum>k\<in>dom (get m). f (the (get m k)))"
proof -
  have d: "distinct (map fst (entries m))" by (rule distinct_entries [OF assms])
  have "total f (entries m) = (\<Sum>e\<in>set (entries m). f (snd e))"
    unfolding total_def using d by (simp add: sum_list_distinct_conv_sum_set distinct_map)
  also have "\<dots> = (\<Sum>k\<in>fst ` set (entries m). f (the (get m k)))"
    using d entries_iff [OF assms]
    by (intro sum.reindex_cong [where l = "\<lambda>k. (k, the (get m k))"] inj_onI) force+
  also have "fst ` set (entries m) = dom (get m)"
    by (simp add: get_entries [OF assms] dom_map_of_conv_image_fst)
  finally show ?thesis .
qed

lemma total_insert_new:
  assumes "ok m" and "get m k = None"
  shows "total f (entries (insert k v m)) = total f (entries m) + f v"
proof -
  have k: "k \<notin> dom (get m)" using assms(2) by auto
  have "(\<Sum>i\<in>dom (get m). f (the (((get m)(k \<mapsto> v)) i))) = (\<Sum>i\<in>dom (get m). f (the (get m i)))"
    using k by (intro sum.cong) auto
  with k finite_dom_get [OF assms(1)] show ?thesis
    by (simp add: total_dom ok_insert assms(1) get_insert)
qed

lemma total_remove:
  assumes "ok m" and "get m k = Some v"
  shows "total f (entries m) = total f (entries (remove k m)) + f v"
proof -
  let ?D = "dom (get m) - {k}"
  have "dom (get m) = Set.insert k ?D" using assms(2) by auto
  then have "(\<Sum>i\<in>dom (get m). f (the (get m i))) = f v + (\<Sum>i\<in>?D. f (the (get m i)))"
    using finite_dom_get [OF assms(1)] assms(2) by (simp add: sum.remove [where x = k] domI)
  also have "(\<Sum>i\<in>?D. f (the (get m i))) = (\<Sum>i\<in>?D. f (the (((get m)(k := None)) i)))"
    by (intro sum.cong) auto
  finally show ?thesis
    by (simp add: total_dom ok_remove assms(1) get_remove)
qed

lemma total_replace:
  assumes "ok m" and "get m k = Some w"
  shows "total f (entries (insert k v m)) + f w = total f (entries m) + f v"
proof -
  let ?r = "remove k m"
  have r: "ok ?r" "get ?r k = None" by (simp_all add: ok_remove get_remove assms(1))
  have "dom (get (insert k v m)) = dom (get (insert k v ?r))"
    and "\<And>i. get (insert k v m) i = get (insert k v ?r) i"
    by (auto simp: get_insert r(1) assms(1) get_remove split: if_splits)
  then have "total f (entries (insert k v m)) = total f (entries (insert k v ?r))"
    by (simp add: total_dom ok_insert r(1) assms(1))
  then show ?thesis
    using total_insert_new [OF r, of f v] total_remove [OF assms, of f] by simp
qed

lemma total_member: "ok m \<Longrightarrow> get m k = Some v \<Longrightarrow> f v \<le> total f (entries m)"
  using total_remove [of m k v f] by simp

text \<open>Dropping entries that weigh nothing does not move the sum.\<close>

lemma total_retain:
  assumes "ok m" and "\<And>k v. get m k = Some v \<Longrightarrow> \<not> p k v \<Longrightarrow> f v = 0"
  shows "total f (entries (retain p m)) = total f (entries m)"
proof -
  have sub: "dom (get (retain p m)) \<subseteq> dom (get m)"
    by (auto simp: get_retain assms(1) split: option.splits if_splits)
  have "(\<Sum>i\<in>dom (get (retain p m)). f (the (get (retain p m) i))) = (\<Sum>i\<in>dom (get m). f (the (get m i)))"
  proof (rule sum.mono_neutral_cong_left [OF finite_dom_get [OF assms(1)] sub])
    show "\<forall>i\<in>dom (get m) - dom (get (retain p m)). f (the (get m i)) = 0"
      using assms(2) by (fastforce simp: get_retain assms(1) split: if_splits)
  qed (auto simp: get_retain assms(1) split: option.splits if_splits)
  then show ?thesis by (simp add: total_dom ok_retain assms(1))
qed

end

section \<open>The implementation\<close>

lemma set_keys_bt_insert: "fst ` set (bt_insert k v m) = insert k (fst ` set m)"
  by (induction k v m rule: bt_insert.induct) (simp_all add: insert_commute)

lemma bt_get_eq: "bt_get m = map_of m"
  by (simp add: bt_get_def fun_eq_iff)

lemma bt_ok_insert [simp]: "bt_ok m \<Longrightarrow> bt_ok (bt_insert k v m)"
proof (induction m)
  case (Cons e m)
  obtain k' v' where e: "e = (k', v')" by (cases e)
  have keys: "set (map fst (bt_insert k v m)) = insert k (fst ` set m)"
    by (simp add: set_keys_bt_insert)
  show ?case
    using Cons e keys by (auto simp: bt_ok_def not_less)
qed (simp add: bt_ok_def)

lemma bt_ok_remove [simp]: "bt_ok m \<Longrightarrow> bt_ok (bt_remove k m)"
  unfolding bt_ok_def bt_remove_def by (induction m) auto

lemma bt_ok_retain [simp]: "bt_ok m \<Longrightarrow> bt_ok (bt_retain p m)"
  unfolding bt_ok_def bt_retain_def by (induction m) auto

lemma bt_ok_Nil [simp]: "bt_ok []"
  by (simp add: bt_ok_def)

lemma bt_get_Nil [simp]: "bt_get [] k = None"
  by (simp add: bt_get_def)

lemma bt_distinct: "bt_ok m \<Longrightarrow> distinct (map fst m)"
  unfolding bt_ok_def by (induction m) auto

lemma bt_get_insert [simp]: "bt_get (bt_insert k v m) = (bt_get m)(k \<mapsto> v)"
  unfolding bt_get_def by (rule ext, induction m) auto

lemma bt_get_remove [simp]: "bt_get (bt_remove k m) = (bt_get m)(k := None)"
  unfolding bt_get_def bt_remove_def by (rule ext, induction m) auto

lemma bt_get_retain:
  "bt_ok m \<Longrightarrow> bt_get (bt_retain p m) k =
     (case bt_get m k of None \<Rightarrow> None | Some v \<Rightarrow> if p k v then Some v else None)"
proof (induction m)
  case (Cons e m)
  then have "bt_ok m" and "fst e \<notin> fst ` set m" by (auto simp: bt_ok_def)
  with Cons show ?case
    by (cases e) (auto simp: bt_get_def bt_retain_def map_of_eq_None_iff split: option.splits)
qed (simp add: bt_retain_def)

interpretation bt: ordered_map bt_get bt_insert bt_remove bt_retain bt_entries bt_ok
  by unfold_locales (simp_all add: bt_get_retain bt_distinct bt_entries_def bt_get_eq [symmetric])

lemma bt_get_in_set: "bt_ok m \<Longrightarrow> (k, v) \<in> set m \<longleftrightarrow> bt_get m k = Some v"
  using bt.entries_iff [of m k v] by (simp add: bt_entries_def)

lemma bt_in_values: "bt_ok m \<Longrightarrow> v \<in> set (bt_values m) \<longleftrightarrow> (\<exists>k. bt_get m k = Some v)"
  by (auto simp: bt_values_def image_iff bt_get_in_set [symmetric] Bex_def)

lemma bt_keys_dom: "bt_ok m \<Longrightarrow> set (bt_keys m) = dom (bt_get m)"
  by (simp add: bt_keys_def bt_get_eq dom_map_of_conv_image_fst)

lemma bt_ok_collect [simp]: "bt_ok (bt_collect xs)"
proof -
  have "bt_ok m \<Longrightarrow> bt_ok (fold (\<lambda>e m. bt_insert (fst e) (snd e) m) xs m)" for m
    by (induction xs arbitrary: m) auto
  then show ?thesis by (simp add: bt_collect_def)
qed

lemma bt_get_collect: "bt_get (bt_collect xs) k = map_of (rev xs) k"
proof -
  have "bt_get (fold (\<lambda>e m. bt_insert (fst e) (snd e) m) xs m) k =
      (case map_of (rev xs) k of None \<Rightarrow> bt_get m k | Some v \<Rightarrow> Some v)" for m
    by (induction xs arbitrary: m) (auto simp: map_add_def split: option.splits)
  then show ?thesis by (auto simp: bt_collect_def split: option.splits)
qed

lemma bt_insert_twice [simp]: "bt_insert k v (bt_insert k w m) = bt_insert k v m"
  by (induction k w m rule: bt_insert.induct) auto

lemma length_bt_insert: "length (bt_insert k v m) \<le> Suc (length m)"
  by (induction m) auto

lemma length_bt_remove: "length (bt_remove k m) \<le> length m"
  by (simp add: bt_remove_def)

lemma length_bt_insert_old: "bt_get m k = Some w \<Longrightarrow> bt_ok m \<Longrightarrow> length (bt_insert k v m) = length m"
  by (induction k v m rule: bt_insert.induct) (auto simp: bt_get_def bt_ok_def dest!: map_of_SomeD split: if_splits)

lemma length_filter_total: "length (filter p (bt_values m)) = total (\<lambda>v. if p v then 1 else 0) m"
  by (induction m) (auto simp: bt_values_def total_def)

lemma total_mono: "(\<And>k v. (k, v) \<in> set es \<Longrightarrow> f v \<le> g v) \<Longrightarrow> total f es \<le> total g es"
  by (induction es) (fastforce simp: total_def intro!: add_mono)+

lemma bt_get_map_values [simp]: "bt_get (bt_map_values f m) k = map_option f (bt_get m k)"
  unfolding bt_get_def bt_map_values_def by (induction m) auto

lemma bt_ok_map_values [simp]: "bt_ok (bt_map_values f m) = bt_ok m"
  unfolding bt_ok_def bt_map_values_def by (simp add: comp_def)

lemma total_map_values: "(\<And>v. f (g v) = f v) \<Longrightarrow> total f (bt_entries (bt_map_values g m)) = total f (bt_entries m)"
  unfolding total_def bt_entries_def bt_map_values_def by (simp add: comp_def)

text \<open>A map is its lookup function.\<close>

lemma bt_extensional:
  assumes "bt_ok m" and "bt_ok n" and "bt_get m = bt_get n"
  shows "m = n"
proof -
  have "set m = set n"
    using bt_get_in_set [OF assms(1)] bt_get_in_set [OF assms(2)] assms(3) by auto
  moreover have "sorted (map fst m)" "sorted (map fst n)"
    using assms(1,2) unfolding bt_ok_def by (auto intro: strict_sorted_imp_sorted)
  moreover have "inj_on fst (set m \<union> set n)"
    using calculation(1) bt_distinct [OF assms(1)] by (simp add: distinct_map)
  ultimately show ?thesis
    using bt_distinct [OF assms(1)] bt_distinct [OF assms(2)] by (intro map_sorted_distinct_set_unique [of fst m n])
qed

end
