(* ===== verification/Scheduler.thy ===== *)
theory Scheduler
  imports BTree_Map
begin

text \<open>
  The continuous scheduler of \<open>crates/leone/src/scheduler.rs\<close> (lines 1 to 857 and the
  quantum bookkeeping of lines 1267 to 1381): policy validation, admission with
  page-rounded KV reservations, batch selection by urgency and virtual runtime, dispatch,
  quantum completion, abort, cancellation, deadline expiry and pruning. Record fields
  carry a short prefix for their struct (\<open>sp_\<close> SchedulerPolicy, \<open>sx_\<close> RequestSpec,
  \<open>rs_\<close> RequestState, \<open>dp_\<close> Dispatch, \<open>qc_\<close> QuantumCompletion, \<open>st_\<close> SchedulerStats,
  \<open>cs_\<close> ContinuousScheduler) and otherwise keep the source's names. A method with
  \<open>&mut self\<close> takes the scheduler last and returns it beside its result.
\<close>

section \<open>Data\<close>

datatype RequestId = RequestId u64

primrec id_word :: "RequestId \<Rightarrow> u64" where
  "id_word (RequestId n) = n"

lemma id_word_inject: "id_word a = id_word b \<longleftrightarrow> a = b"
  by (cases a; cases b) auto

instantiation RequestId :: linorder
begin

definition less_eq_RequestId :: "RequestId \<Rightarrow> RequestId \<Rightarrow> bool" where
  "less_eq_RequestId a b \<longleftrightarrow> id_word a \<le> id_word b"

definition less_RequestId :: "RequestId \<Rightarrow> RequestId \<Rightarrow> bool" where
  "less_RequestId a b \<longleftrightarrow> id_word a < id_word b"

instance
  by standard (auto simp: less_eq_RequestId_def less_RequestId_def simp flip: id_word_inject)

end

lemma RequestId_less [simp]: "RequestId a < RequestId b \<longleftrightarrow> a < b" "RequestId a \<le> RequestId b \<longleftrightarrow> a \<le> b"
  by (simp_all add: less_RequestId_def less_eq_RequestId_def)

record SchedulerPolicy =
  sp_max_active_requests :: u32
  sp_max_queued_requests :: u32
  sp_max_batch_requests :: u32
  sp_max_reserved_kv_bytes :: u64
  sp_kv_bytes_per_token :: u64
  sp_kv_page_tokens :: u64
  sp_max_prompt_tokens :: u64
  sp_max_output_tokens :: u64
  sp_service_quantum_tokens :: u32
  sp_prefill_chunk_tokens :: u32
  sp_urgent_window_ns :: u64
  sp_max_prefix_credit_tokens :: u64

record RequestSpec =
  sx_id :: RequestId
  sx_arrival_ns :: u64
  sx_prompt_tokens :: u64
  sx_prefix_reused_tokens :: u64
  sx_max_output_tokens :: u64
  sx_priority :: u16
  sx_deadline_ns :: "u64 option"

datatype AdmissionReject =
    ActiveLimit | QueueLimit | KvCapacity | PromptLimit | OutputLimit
  | InvalidPrefix | InvalidPriority | ExpiredDeadline

datatype AdmissionOutcome = Admitted u64 | RejectedFor AdmissionReject

datatype RequestStatus = Queued | Running | Finished | Cancelled | DeadlineExpired | Rejected

fun is_terminal :: "RequestStatus \<Rightarrow> bool" where
  "is_terminal Finished = True"
| "is_terminal Cancelled = True"
| "is_terminal DeadlineExpired = True"
| "is_terminal Rejected = True"
| "is_terminal Queued = False"
| "is_terminal Running = False"

datatype DispatchKind = Prefill | Decode

record Dispatch =
  dp_request_id :: RequestId
  dp_token_budget :: u32
  dp_dispatch_ns :: u64
  dp_kind :: DispatchKind

record QuantumCompletion =
  qc_request_id :: RequestId
  qc_emitted_tokens :: u32
  qc_status :: RequestStatus

record SchedulerStats =
  st_admission_attempts :: u64
  st_admitted_requests :: u64
  st_rejected_requests :: u64
  st_dispatched_quanta :: u64
  st_dispatched_batches :: u64
  st_prefill_chunks :: u64
  st_prefill_tokens :: u64
  st_decode_quanta :: u64
  st_emitted_tokens :: u64
  st_completed_requests :: u64
  st_cancelled_requests :: u64
  st_expired_requests :: u64
  st_max_queue_depth :: u32
  st_max_batch_width :: u32
  st_max_reserved_kv_bytes :: u64
  st_max_cancellation_overshoot_tokens :: u32

definition default_stats :: SchedulerStats where
  "default_stats = \<lparr>st_admission_attempts = 0, st_admitted_requests = 0, st_rejected_requests = 0,
     st_dispatched_quanta = 0, st_dispatched_batches = 0, st_prefill_chunks = 0,
     st_prefill_tokens = 0, st_decode_quanta = 0, st_emitted_tokens = 0,
     st_completed_requests = 0, st_cancelled_requests = 0, st_expired_requests = 0,
     st_max_queue_depth = 0, st_max_batch_width = 0, st_max_reserved_kv_bytes = 0,
     st_max_cancellation_overshoot_tokens = 0\<rparr>"

datatype SchedulerError =
    InvalidPolicy string
  | DuplicateRequest RequestId
  | UnknownRequest RequestId
  | FutureArrival RequestId
  | NotRunning RequestId
  | QuantumExceeded RequestId u32 u32
  | PrefillEmittedTokens RequestId
  | PrefillProgressRequired RequestId
  | DispatchInFlight
  | AccountingOverflow
  | TraceSchema u32
  | InvalidTrace string
  | Json string

record RequestState =
  rs_spec :: RequestSpec
  rs_status :: RequestStatus
  rs_reserved_kv_bytes :: u64
  rs_remaining_prefill_tokens :: u64
  rs_remaining_tokens :: u64
  rs_emitted_tokens :: u64
  rs_virtual_runtime :: u128
  rs_sequence :: u64
  rs_cancellation_requested :: bool

record ContinuousScheduler =
  cs_policy :: SchedulerPolicy
  cs_requests :: "(RequestId, RequestState) btree_map"
  cs_running :: "(RequestId, Dispatch) btree_map"
  cs_expired :: "RequestId list"
  cs_reserved_kv_bytes :: u64
  cs_next_sequence :: u64
  cs_stats :: SchedulerStats

section \<open>Policy validation\<close>

definition validate_request_limits :: "SchedulerPolicy \<Rightarrow> (unit, SchedulerError) outcome" where
  "validate_request_limits p =
     (if sp_max_active_requests p = 0 \<or> sp_max_queued_requests p = 0 \<or> sp_max_batch_requests p = 0
      then Err (InvalidPolicy ''request limits must be nonzero'') else Ok ())"

definition validate_memory_limits :: "SchedulerPolicy \<Rightarrow> (unit, SchedulerError) outcome" where
  "validate_memory_limits p =
     (if sp_max_reserved_kv_bytes p = 0 \<or> sp_kv_bytes_per_token p = 0 \<or> sp_kv_page_tokens p = 0
      then Err (InvalidPolicy ''KV byte limits must be nonzero'') else Ok ())"

definition validate_token_limits :: "SchedulerPolicy \<Rightarrow> (unit, SchedulerError) outcome" where
  "validate_token_limits p =
     (if sp_max_prompt_tokens p = 0 \<or> sp_max_output_tokens p = 0
      then Err (InvalidPolicy ''token limits must be nonzero'') else Ok ())"

definition validate_quantum_limits :: "SchedulerPolicy \<Rightarrow> (unit, SchedulerError) outcome" where
  "validate_quantum_limits p =
     (if sp_service_quantum_tokens p = 0 \<or> sp_prefill_chunk_tokens p = 0
      then Err (InvalidPolicy ''service and prefill quanta must be nonzero'') else Ok ())"

definition policy_validate :: "SchedulerPolicy \<Rightarrow> (SchedulerPolicy, SchedulerError) outcome" where
  "policy_validate p =
     and_then (validate_request_limits p) (\<lambda>_.
     and_then (validate_memory_limits p) (\<lambda>_.
     and_then (validate_token_limits p) (\<lambda>_.
     and_then (validate_quantum_limits p) (\<lambda>_. Ok p))))"

definition scheduler_new :: "SchedulerPolicy \<Rightarrow> (ContinuousScheduler, SchedulerError) outcome" where
  "scheduler_new p = and_then (policy_validate p) (\<lambda>p.
     Ok \<lparr>cs_policy = p, cs_requests = [], cs_running = [], cs_expired = [],
         cs_reserved_kv_bytes = 0, cs_next_sequence = 0, cs_stats = default_stats\<rparr>)"

section \<open>Admission\<close>

definition request_counts :: "ContinuousScheduler \<Rightarrow> nat \<times> nat" where
  "request_counts s =
     (length (filter (\<lambda>r. \<not> is_terminal (rs_status r)) (bt_values (cs_requests s))),
      length (filter (\<lambda>r. rs_status r = Queued) (bt_values (cs_requests s))))"

definition reservation_bytes :: "SchedulerPolicy \<Rightarrow> RequestSpec \<Rightarrow> (u64, SchedulerError) outcome" where
  "reservation_bytes p sx =
     and_then (ok_or (Option.bind (checked_sub (sx_prompt_tokens sx) (sx_prefix_reused_tokens sx))
                        (\<lambda>tokens. checked_add tokens (sx_max_output_tokens sx))) AccountingOverflow) (\<lambda>tokens.
     and_then (ok_or (Option.bind (checked_add tokens (sp_kv_page_tokens p - 1))
                        (\<lambda>tokens. checked_div tokens (sp_kv_page_tokens p))) AccountingOverflow) (\<lambda>pages.
     ok_or (Option.bind (checked_mul pages (sp_kv_page_tokens p))
              (\<lambda>tokens. checked_mul tokens (sp_kv_bytes_per_token p))) AccountingOverflow))"

definition basic_admission_rejection ::
  "SchedulerPolicy \<Rightarrow> RequestSpec \<Rightarrow> u64 \<Rightarrow> AdmissionReject option" where
  "basic_admission_rejection p sx now_ns =
     (if sx_prompt_tokens sx < sx_prefix_reused_tokens sx then Some InvalidPrefix
      else if sp_max_prompt_tokens p < sx_prompt_tokens sx then Some PromptLimit
      else if sx_max_output_tokens sx = 0 \<or> sp_max_output_tokens p < sx_max_output_tokens sx
        then Some OutputLimit
      else if sx_priority sx = 0 \<or> 100 < sx_priority sx then Some InvalidPriority
      else (case sx_deadline_ns sx of
              Some deadline \<Rightarrow> if deadline \<le> now_ns then Some ExpiredDeadline else None
            | None \<Rightarrow> None))"

definition admission_rejection ::
  "ContinuousScheduler \<Rightarrow> RequestSpec \<Rightarrow> u64 \<Rightarrow> (AdmissionReject option, SchedulerError) outcome" where
  "admission_rejection s sx now_ns =
     (case basic_admission_rejection (cs_policy s) sx now_ns of
        Some reason \<Rightarrow> Ok (Some reason)
      | None \<Rightarrow>
          (let (active, queued) = request_counts s in
           if unat (sp_max_active_requests (cs_policy s)) \<le> active then Ok (Some ActiveLimit)
           else if unat (sp_max_queued_requests (cs_policy s)) \<le> queued then Ok (Some QueueLimit)
           else
             and_then (reservation_bytes (cs_policy s) sx) (\<lambda>reservation.
             and_then (ok_or (checked_add (cs_reserved_kv_bytes s) reservation) AccountingOverflow) (\<lambda>sum.
             if sp_max_reserved_kv_bytes (cs_policy s) < sum then Ok (Some KvCapacity) else Ok None))))"

definition base_runtime :: "ContinuousScheduler \<Rightarrow> u128" where
  "base_runtime s =
     (case map rs_virtual_runtime (filter (\<lambda>r. \<not> is_terminal (rs_status r)) (bt_values (cs_requests s))) of
        [] \<Rightarrow> 0
      | v # vs \<Rightarrow> fold min vs v)"

definition prefix_credit :: "SchedulerPolicy \<Rightarrow> RequestSpec \<Rightarrow> u128" where
  "prefix_credit p sx =
     (case checked_div
             (saturating_mul (ucast (min (sx_prefix_reused_tokens sx) (sp_max_prefix_credit_tokens p))) 1024)
             (ucast (max (sx_priority sx) 1)) of
        Some credit \<Rightarrow> credit | None \<Rightarrow> 0)"

definition insert_request ::
  "RequestSpec \<Rightarrow> AdmissionReject option \<Rightarrow> ContinuousScheduler
    \<Rightarrow> (u64, SchedulerError) outcome \<times> ContinuousScheduler" where
  "insert_request sx rejection s =
     try_pure (if rejection = None then reservation_bytes (cs_policy s) sx else Ok 0) s (\<lambda>reservation.
     try_pure (if rejection = None
               then ok_or (checked_sub (sx_prompt_tokens sx) (sx_prefix_reused_tokens sx)) AccountingOverflow
               else Ok 0) s (\<lambda>remaining_prefill_tokens.
     let s1 = s\<lparr>cs_requests := bt_insert (sx_id sx)
                 \<lparr>rs_spec = sx,
                  rs_status = (if rejection = None then Queued else Rejected),
                  rs_reserved_kv_bytes = reservation,
                  rs_remaining_prefill_tokens = remaining_prefill_tokens,
                  rs_remaining_tokens = sx_max_output_tokens sx,
                  rs_emitted_tokens = 0,
                  rs_virtual_runtime = saturating_sub (base_runtime s) (prefix_credit (cs_policy s) sx),
                  rs_sequence = cs_next_sequence s,
                  rs_cancellation_requested = False\<rparr> (cs_requests s)\<rparr>
     in try_pure (ok_or (checked_add (cs_next_sequence s) 1) AccountingOverflow) s1 (\<lambda>next.
        (Ok reservation, s1\<lparr>cs_next_sequence := next\<rparr>))))"

definition update_high_watermarks :: "ContinuousScheduler \<Rightarrow> ContinuousScheduler" where
  "update_high_watermarks s =
     (let depth = length (filter (\<lambda>r. rs_status r = Queued) (bt_values (cs_requests s)));
          st = cs_stats s
      in s\<lparr>cs_stats := st\<lparr>
             st_max_queue_depth := max (st_max_queue_depth st) (word_of_usize depth),
             st_max_reserved_kv_bytes := max (st_max_reserved_kv_bytes st) (cs_reserved_kv_bytes s)\<rparr>\<rparr>)"

definition admit ::
  "RequestSpec \<Rightarrow> u64 \<Rightarrow> ContinuousScheduler
    \<Rightarrow> (AdmissionOutcome, SchedulerError) outcome \<times> ContinuousScheduler" where
  "admit sx now_ns s =
     (if bt_contains (cs_requests s) (sx_id sx) then (Err (DuplicateRequest (sx_id sx)), s)
      else if now_ns < sx_arrival_ns sx then (Err (FutureArrival (sx_id sx)), s)
      else
        let s1 = s\<lparr>cs_stats := (cs_stats s)\<lparr>st_admission_attempts := st_admission_attempts (cs_stats s) + 1\<rparr>\<rparr>
        in try_pure (admission_rejection s1 sx now_ns) s1 (\<lambda>rejection.
           try_st (insert_request sx rejection s1) (\<lambda>reservation s2.
           case rejection of
             Some reason \<Rightarrow>
               (Ok (RejectedFor reason),
                s2\<lparr>cs_stats := (cs_stats s2)\<lparr>st_rejected_requests := st_rejected_requests (cs_stats s2) + 1\<rparr>\<rparr>)
           | None \<Rightarrow>
               try_pure (ok_or (checked_add (cs_reserved_kv_bytes s2) reservation) AccountingOverflow) s2 (\<lambda>reserved.
               let s3 = s2\<lparr>cs_reserved_kv_bytes := reserved,
                           cs_stats := (cs_stats s2)\<lparr>st_admitted_requests := st_admitted_requests (cs_stats s2) + 1\<rparr>\<rparr>
               in (Ok (Admitted reservation), update_high_watermarks s3)))))"

section \<open>Batch selection\<close>

text \<open>Deadlines inside the urgent window preempt virtual-runtime order.\<close>

definition is_urgent :: "RequestState \<Rightarrow> u64 \<Rightarrow> bool" where
  "is_urgent r limit =
     (case sx_deadline_ns (rs_spec r) of Some deadline \<Rightarrow> deadline \<le> limit | None \<Rightarrow> False)"

definition compare_requests ::
  "u64 \<Rightarrow> SchedulerPolicy \<Rightarrow> RequestState \<Rightarrow> RequestState \<Rightarrow> ordering" where
  "compare_requests now_ns p left right =
     (let limit = saturating_add now_ns (sp_urgent_window_ns p);
          left_urgent = is_urgent left limit;
          right_urgent = is_urgent right limit
      in then_with (cmp right_urgent left_urgent)
           (if left_urgent \<and> right_urgent
            then then_with (then_with
                   (cmp_option (sx_deadline_ns (rs_spec left)) (sx_deadline_ns (rs_spec right)))
                   (cmp (rs_virtual_runtime left) (rs_virtual_runtime right)))
                   (cmp (rs_sequence left) (rs_sequence right))
            else then_with (then_with
                   (cmp (rs_virtual_runtime left) (rs_virtual_runtime right))
                   (cmp (sx_priority (rs_spec right)) (sx_priority (rs_spec left))))
                   (cmp (rs_sequence left) (rs_sequence right))))"

definition queued_requests :: "ContinuousScheduler \<Rightarrow> RequestState list" where
  "queued_requests s = filter (\<lambda>r. rs_status r = Queued) (bt_values (cs_requests s))"

definition select_batch_ids :: "u64 \<Rightarrow> u32 \<Rightarrow> ContinuousScheduler \<Rightarrow> RequestId list" where
  "select_batch_ids now_ns limit s =
     map (\<lambda>r. sx_id (rs_spec r))
       (take (unat limit) (sort_by (compare_requests now_ns (cs_policy s)) (queued_requests s)))"

definition check_dispatch_state :: "u32 \<Rightarrow> ContinuousScheduler \<Rightarrow> (unit, SchedulerError) outcome" where
  "check_dispatch_state limit s =
     (if cs_running s \<noteq> [] then Err DispatchInFlight
      else if limit = 0 then Err (InvalidPolicy ''dispatch batch limit must be nonzero'')
      else Ok ())"

section \<open>Deadline expiry\<close>

definition deadline_passed :: "u64 \<Rightarrow> RequestState \<Rightarrow> bool" where
  "deadline_passed now_ns r \<longleftrightarrow> rs_status r = Queued \<and> is_urgent r now_ns"

fun expire_ids ::
  "RequestId list \<Rightarrow> ContinuousScheduler \<Rightarrow> (unit, SchedulerError) outcome \<times> ContinuousScheduler" where
  "expire_ids [] s = (Ok (), s)"
| "expire_ids (i # ids) s =
     try_pure (expect (bt_get (cs_requests s) i)) s (\<lambda>r.
     expire_ids ids
       (s\<lparr>cs_requests := bt_insert i (r\<lparr>rs_status := DeadlineExpired, rs_reserved_kv_bytes := 0\<rparr>) (cs_requests s),
          cs_reserved_kv_bytes := cs_reserved_kv_bytes s - rs_reserved_kv_bytes r,
          cs_stats := (cs_stats s)\<lparr>st_expired_requests := st_expired_requests (cs_stats s) + 1\<rparr>,
          cs_expired := cs_expired s @ [i]\<rparr>))"

definition expire_deadlines ::
  "u64 \<Rightarrow> ContinuousScheduler \<Rightarrow> (unit, SchedulerError) outcome \<times> ContinuousScheduler" where
  "expire_deadlines now_ns s =
     expire_ids (map (\<lambda>r. sx_id (rs_spec r)) (filter (deadline_passed now_ns) (bt_values (cs_requests s)))) s"

section \<open>Dispatch\<close>

definition quantum_kind :: "RequestState \<Rightarrow> DispatchKind" where
  "quantum_kind r = (if 0 < rs_remaining_prefill_tokens r then Prefill else Decode)"

definition quantum_tokens :: "SchedulerPolicy \<Rightarrow> RequestState \<Rightarrow> u64" where
  "quantum_tokens p r =
     (if 0 < rs_remaining_prefill_tokens r
      then min (rs_remaining_prefill_tokens r) (ucast (sp_prefill_chunk_tokens p))
      else min (rs_remaining_tokens r) (ucast (sp_service_quantum_tokens p)))"

fun start_batch ::
  "RequestId list \<Rightarrow> u64 \<Rightarrow> ContinuousScheduler
    \<Rightarrow> (Dispatch list, SchedulerError) outcome \<times> ContinuousScheduler" where
  "start_batch [] now_ns s = (Ok [], s)"
| "start_batch (i # ids) now_ns s =
     try_pure (expect (bt_get (cs_requests s) i)) s (\<lambda>r.
     try_pure (ok_or (try_from_word (quantum_tokens (cs_policy s) r)) AccountingOverflow) s (\<lambda>token_budget.
     let dispatch = \<lparr>dp_request_id = i, dp_token_budget = token_budget,
                     dp_dispatch_ns = now_ns, dp_kind = quantum_kind r\<rparr>;
         s1 = s\<lparr>cs_requests := bt_insert i (r\<lparr>rs_status := Running\<rparr>) (cs_requests s),
                cs_running := bt_insert i dispatch (cs_running s)\<rparr>
     in try_st (start_batch ids now_ns s1) (\<lambda>dispatches s2. (Ok (dispatch # dispatches), s2))))"

definition record_batch_dispatch ::
  "Dispatch list \<Rightarrow> ContinuousScheduler \<Rightarrow> (unit, SchedulerError) outcome \<times> ContinuousScheduler" where
  "record_batch_dispatch dispatches s =
     (if dispatches = [] then (Ok (), s)
      else
        let s1 = s\<lparr>cs_stats := (cs_stats s)\<lparr>st_dispatched_batches := st_dispatched_batches (cs_stats s) + 1\<rparr>\<rparr>
        in try_pure (ok_or (checked_add (st_dispatched_quanta (cs_stats s1)) (word_of_usize (length dispatches)))
                       AccountingOverflow) s1 (\<lambda>quanta.
           (Ok (), s1\<lparr>cs_stats := (cs_stats s1)\<lparr>
              st_dispatched_quanta := quanta,
              st_max_batch_width := max (st_max_batch_width (cs_stats s1)) (word_of_usize (length dispatches))\<rparr>\<rparr>)))"

definition dispatch_batch ::
  "u64 \<Rightarrow> u32 \<Rightarrow> ContinuousScheduler
    \<Rightarrow> (Dispatch list, SchedulerError) outcome \<times> ContinuousScheduler" where
  "dispatch_batch now_ns limit s =
     try_pure (check_dispatch_state limit s) s (\<lambda>_.
     try_st (expire_deadlines now_ns s) (\<lambda>_ s1.
     let request_ids = select_batch_ids now_ns (min limit (sp_max_batch_requests (cs_policy s1))) s1
     in try_st (start_batch request_ids now_ns s1) (\<lambda>dispatches s2.
        try_st (record_batch_dispatch dispatches s2) (\<lambda>_ s3. (Ok dispatches, s3)))))"

definition dispatch_one ::
  "u64 \<Rightarrow> ContinuousScheduler \<Rightarrow> (Dispatch option, SchedulerError) outcome \<times> ContinuousScheduler" where
  "dispatch_one now_ns s =
     try_st (dispatch_batch now_ns 1 s) (\<lambda>ds s1.
       (Ok (case ds of [] \<Rightarrow> None | d # _ \<Rightarrow> Some d), s1))"

section \<open>Quantum completion\<close>

definition validate_quantum_completion ::
  "Dispatch \<Rightarrow> RequestId \<Rightarrow> u32 \<Rightarrow> u32 \<Rightarrow> (unit, SchedulerError) outcome" where
  "validate_quantum_completion d i emitted progress =
     (if dp_token_budget d < emitted \<or> dp_token_budget d < progress
        then Err (QuantumExceeded i (max emitted progress) (dp_token_budget d))
      else if dp_kind d = Prefill \<and> emitted \<noteq> 0 then Err (PrefillEmittedTokens i)
      else if dp_kind d = Decode \<and> progress \<noteq> emitted
        then Err (QuantumExceeded i progress (dp_token_budget d))
      else Ok ())"

type_synonym quantum_books = "RequestState \<times> SchedulerStats"

definition apply_prefill_progress ::
  "u32 \<Rightarrow> bool \<Rightarrow> quantum_books \<Rightarrow> (u64, SchedulerError) outcome \<times> quantum_books" where
  "apply_prefill_progress progress ready b =
     (case b of (r, st) \<Rightarrow>
        try_pure (if ready then Ok 0
                  else ok_or (checked_sub (rs_remaining_prefill_tokens r) (ucast progress)) AccountingOverflow)
                 (r, st) (\<lambda>remaining.
        let r1 = r\<lparr>rs_remaining_prefill_tokens := remaining\<rparr> in
        try_pure (ok_or (checked_add (st_prefill_chunks st) 1) AccountingOverflow) (r1, st) (\<lambda>chunks.
        let st1 = st\<lparr>st_prefill_chunks := chunks\<rparr> in
        try_pure (ok_or (checked_add (st_prefill_tokens st1) (ucast progress)) AccountingOverflow) (r1, st1) (\<lambda>tokens.
        (Ok (ucast progress), (r1, st1\<lparr>st_prefill_tokens := tokens\<rparr>))))))"

definition apply_decode_progress ::
  "u32 \<Rightarrow> quantum_books \<Rightarrow> (u64, SchedulerError) outcome \<times> quantum_books" where
  "apply_decode_progress emitted b =
     (case b of (r, st) \<Rightarrow>
        let r1 = r\<lparr>rs_remaining_tokens := rs_remaining_tokens r - ucast emitted\<rparr> in
        try_pure (ok_or (checked_add (st_decode_quanta st) 1) AccountingOverflow) (r1, st) (\<lambda>quanta.
        let st1 = st\<lparr>st_decode_quanta := quanta\<rparr> in
        try_pure (ok_or (checked_add (rs_emitted_tokens r1) (ucast emitted)) AccountingOverflow) (r1, st1) (\<lambda>total.
        (Ok (ucast emitted), (r1\<lparr>rs_emitted_tokens := total\<rparr>, st1)))))"

definition apply_quantum_status ::
  "DispatchKind \<Rightarrow> u32 \<Rightarrow> bool \<Rightarrow> quantum_books \<Rightarrow> quantum_books" where
  "apply_quantum_status kind emitted eos b =
     (case b of (r, st) \<Rightarrow>
        if rs_cancellation_requested r then
          (r\<lparr>rs_status := Cancelled\<rparr>,
           st\<lparr>st_cancelled_requests := st_cancelled_requests st + 1,
              st_max_cancellation_overshoot_tokens := max (st_max_cancellation_overshoot_tokens st) emitted\<rparr>)
        else if kind = Prefill then (r\<lparr>rs_status := Queued\<rparr>, st)
        else if eos \<or> rs_remaining_tokens r = 0 then
          (r\<lparr>rs_status := Finished\<rparr>, st\<lparr>st_completed_requests := st_completed_requests st + 1\<rparr>)
        else (r\<lparr>rs_status := Queued\<rparr>, st))"

text \<open>\<open>u128::div_ceil\<close> panics on a zero divisor.\<close>

definition runtime_charge :: "u64 \<Rightarrow> u16 \<Rightarrow> (u128, SchedulerError) outcome" where
  "runtime_charge progress priority =
     (if priority = 0 then Panic
      else Ok (div_ceil (saturating_mul (ucast progress) 1024) (ucast priority)))"

definition apply_quantum_state ::
  "Dispatch \<Rightarrow> u32 \<Rightarrow> u32 \<Rightarrow> bool \<Rightarrow> bool \<Rightarrow> quantum_books
    \<Rightarrow> (unit, SchedulerError) outcome \<times> quantum_books" where
  "apply_quantum_state d emitted progress prefill_ready eos b =
     try_st (case dp_kind d of
               Prefill \<Rightarrow> apply_prefill_progress progress prefill_ready b
             | Decode \<Rightarrow> apply_decode_progress emitted b) (\<lambda>progress b1.
     case b1 of (r, st) \<Rightarrow>
     try_pure (and_then (runtime_charge progress (sx_priority (rs_spec r))) (\<lambda>charge.
                 ok_or (checked_add (rs_virtual_runtime r) charge) AccountingOverflow)) (r, st) (\<lambda>runtime.
     let r1 = r\<lparr>rs_virtual_runtime := runtime\<rparr> in
     try_pure (ok_or (checked_add (st_emitted_tokens st) (ucast emitted)) AccountingOverflow) (r1, st) (\<lambda>total.
     (Ok (), apply_quantum_status (dp_kind d) emitted eos (r1, st\<lparr>st_emitted_tokens := total\<rparr>)))))"

definition complete_quantum_with_progress ::
  "RequestId \<Rightarrow> u32 \<Rightarrow> u32 \<Rightarrow> bool \<Rightarrow> bool \<Rightarrow> ContinuousScheduler
    \<Rightarrow> (QuantumCompletion, SchedulerError) outcome \<times> ContinuousScheduler" where
  "complete_quantum_with_progress i emitted progress prefill_ready eos s =
     try_pure (ok_or (bt_get (cs_running s) i) (NotRunning i)) s (\<lambda>d.
     try_pure (validate_quantum_completion d i emitted progress) s (\<lambda>_.
     try_pure (ok_or (bt_get (cs_requests s) i) (UnknownRequest i)) s (\<lambda>r.
     let (res, r1, st) = apply_quantum_state d emitted progress prefill_ready eos (r, cs_stats s);
         s1 = s\<lparr>cs_requests := bt_insert i r1 (cs_requests s), cs_stats := st\<rparr>
     in try_pure res s1 (\<lambda>_.
        let s2 = (if is_terminal (rs_status r1)
                  then s1\<lparr>cs_reserved_kv_bytes := cs_reserved_kv_bytes s1 - rs_reserved_kv_bytes r1,
                          cs_requests := bt_insert i (r1\<lparr>rs_reserved_kv_bytes := 0\<rparr>) (cs_requests s1)\<rparr>
                  else s1)
        in (Ok \<lparr>qc_request_id = i, qc_emitted_tokens = emitted, qc_status = rs_status r1\<rparr>,
            s2\<lparr>cs_running := bt_remove i (cs_running s2)\<rparr>)))))"

definition complete_quantum ::
  "RequestId \<Rightarrow> u32 \<Rightarrow> bool \<Rightarrow> ContinuousScheduler
    \<Rightarrow> (QuantumCompletion, SchedulerError) outcome \<times> ContinuousScheduler" where
  "complete_quantum i emitted eos s =
     try_pure (ok_or (bt_get (cs_running s) i) (NotRunning i)) s (\<lambda>d.
     if dp_kind d = Prefill then (Err (PrefillProgressRequired i), s)
     else complete_quantum_with_progress i emitted emitted False eos s)"

section \<open>Abort, cancellation, pruning and queries\<close>

definition abort_quantum ::
  "RequestId \<Rightarrow> ContinuousScheduler \<Rightarrow> (RequestStatus, SchedulerError) outcome \<times> ContinuousScheduler" where
  "abort_quantum i s =
     try_pure (ok_or (bt_get (cs_running s) i) (NotRunning i)) s (\<lambda>_.
     try_pure (ok_or (bt_get (cs_requests s) i) (UnknownRequest i)) s (\<lambda>r.
     (Ok Cancelled,
      s\<lparr>cs_requests := bt_insert i (r\<lparr>rs_status := Cancelled, rs_cancellation_requested := False,
                                     rs_reserved_kv_bytes := 0\<rparr>) (cs_requests s),
        cs_reserved_kv_bytes := cs_reserved_kv_bytes s - rs_reserved_kv_bytes r,
        cs_stats := (cs_stats s)\<lparr>st_cancelled_requests := st_cancelled_requests (cs_stats s) + 1\<rparr>,
        cs_running := bt_remove i (cs_running s)\<rparr>)))"

definition cancel ::
  "RequestId \<Rightarrow> ContinuousScheduler \<Rightarrow> (RequestStatus, SchedulerError) outcome \<times> ContinuousScheduler" where
  "cancel i s =
     try_pure (ok_or (bt_get (cs_requests s) i) (UnknownRequest i)) s (\<lambda>r.
     if rs_status r = Queued then
       (Ok Cancelled,
        s\<lparr>cs_requests := bt_insert i (r\<lparr>rs_status := Cancelled, rs_reserved_kv_bytes := 0\<rparr>) (cs_requests s),
          cs_reserved_kv_bytes := cs_reserved_kv_bytes s - rs_reserved_kv_bytes r,
          cs_stats := (cs_stats s)\<lparr>st_cancelled_requests := st_cancelled_requests (cs_stats s) + 1\<rparr>\<rparr>)
     else if rs_status r = Running then
       (Ok Running,
        s\<lparr>cs_requests := bt_insert i (r\<lparr>rs_cancellation_requested := True\<rparr>) (cs_requests s)\<rparr>)
     else (Ok (rs_status r), s))"

definition prune_terminal :: "ContinuousScheduler \<Rightarrow> ContinuousScheduler" where
  "prune_terminal s =
     s\<lparr>cs_requests := bt_retain (\<lambda>_ r. \<not> is_terminal (rs_status r)) (cs_requests s)\<rparr>"

definition status_of :: "ContinuousScheduler \<Rightarrow> RequestId \<Rightarrow> RequestStatus option" where
  "status_of s i = map_option rs_status (bt_get (cs_requests s) i)"

definition emitted_tokens_of :: "ContinuousScheduler \<Rightarrow> RequestId \<Rightarrow> u64 option" where
  "emitted_tokens_of s i = map_option rs_emitted_tokens (bt_get (cs_requests s) i)"

definition take_expired_deadlines :: "ContinuousScheduler \<Rightarrow> RequestId list \<times> ContinuousScheduler" where
  "take_expired_deadlines s = (cs_expired s, s\<lparr>cs_expired := []\<rparr>)"

definition has_runnable_requests :: "ContinuousScheduler \<Rightarrow> bool" where
  "has_runnable_requests s \<longleftrightarrow>
     (\<exists>r\<in>set (bt_values (cs_requests s)). rs_status r = Queued \<or> rs_status r = Running)"

end
