(* ===== verification/Scheduler_Inv.thy ===== *)
theory Scheduler_Inv
  imports Scheduler
begin

text \<open>
  The invariant of the continuous scheduler and the proof that every operation keeps it.
  \<open>request_ok\<close> is what holds of one request against its entry in the running set;
  \<open>sched_ok\<close> adds the ledger (the reserved bytes are the sum of the requests'
  reservations and fit the policy), the active and batch limits and the uniqueness of
  sequence numbers. \<open>sched_ok_update\<close> is the one lemma about replacing a request that
  every operation's proof goes through.
\<close>

section \<open>The invariant\<close>

definition policy_ok :: "SchedulerPolicy \<Rightarrow> bool" where
  "policy_ok p \<longleftrightarrow>
     sp_max_active_requests p \<noteq> 0 \<and> sp_max_queued_requests p \<noteq> 0 \<and> sp_max_batch_requests p \<noteq> 0 \<and>
     sp_max_reserved_kv_bytes p \<noteq> 0 \<and> sp_kv_bytes_per_token p \<noteq> 0 \<and> sp_kv_page_tokens p \<noteq> 0 \<and>
     sp_max_prompt_tokens p \<noteq> 0 \<and> sp_max_output_tokens p \<noteq> 0 \<and>
     sp_service_quantum_tokens p \<noteq> 0 \<and> sp_prefill_chunk_tokens p \<noteq> 0"

lemma policy_validate_cases:
  "policy_validate p = (if policy_ok p then Ok p else
     (case policy_validate p of Err e \<Rightarrow> Err e | _ \<Rightarrow> Panic))"
  by (auto simp: policy_validate_def validate_request_limits_def validate_memory_limits_def
      validate_token_limits_def validate_quantum_limits_def policy_ok_def)

lemma policy_validate_Ok: "policy_validate p = Ok q \<longleftrightarrow> policy_ok p \<and> q = p"
  by (auto simp: policy_validate_def validate_request_limits_def validate_memory_limits_def
      validate_token_limits_def validate_quantum_limits_def policy_ok_def)

definition dispatch_ok :: "SchedulerPolicy \<Rightarrow> Dispatch \<Rightarrow> RequestId \<Rightarrow> RequestState \<Rightarrow> bool" where
  "dispatch_ok p d i r \<longleftrightarrow>
     dp_request_id d = i \<and> 0 < unat (dp_token_budget d) \<and>
     (case dp_kind d of
        Prefill \<Rightarrow> unat (dp_token_budget d) \<le> unat (rs_remaining_prefill_tokens r) \<and>
                   dp_token_budget d \<le> sp_prefill_chunk_tokens p
      | Decode \<Rightarrow> rs_remaining_prefill_tokens r = 0 \<and>
                  unat (dp_token_budget d) \<le> unat (rs_remaining_tokens r) \<and>
                  dp_token_budget d \<le> sp_service_quantum_tokens p)"

definition tokens_ok :: "SchedulerPolicy \<Rightarrow> RequestState \<Rightarrow> bool" where
  "tokens_ok p r \<longleftrightarrow>
     unat (rs_emitted_tokens r) + unat (rs_remaining_tokens r) = unat (sx_max_output_tokens (rs_spec r)) \<and>
     (is_terminal (rs_status r) \<longrightarrow> rs_reserved_kv_bytes r = 0) \<and>
     (\<not> is_terminal (rs_status r) \<longrightarrow>
        sx_priority (rs_spec r) \<noteq> 0 \<and> 0 < unat (rs_remaining_tokens r) \<and>
        (unat (rs_remaining_prefill_tokens r) + unat (rs_remaining_tokens r)) * unat (sp_kv_bytes_per_token p)
          \<le> unat (rs_reserved_kv_bytes r))"

definition phase_ok :: "SchedulerPolicy \<Rightarrow> Dispatch option \<Rightarrow> RequestId \<Rightarrow> RequestState \<Rightarrow> bool" where
  "phase_ok p d i r \<longleftrightarrow>
     (rs_cancellation_requested r \<longrightarrow> rs_status r = Running \<or> rs_status r = Cancelled) \<and>
     (case d of None \<Rightarrow> rs_status r \<noteq> Running | Some d \<Rightarrow> rs_status r = Running \<and> dispatch_ok p d i r)"

definition request_ok ::
  "SchedulerPolicy \<Rightarrow> u64 \<Rightarrow> Dispatch option \<Rightarrow> RequestId \<Rightarrow> RequestState \<Rightarrow> bool" where
  "request_ok p next d i r \<longleftrightarrow>
     sx_id (rs_spec r) = i \<and> rs_sequence r < next \<and> tokens_ok p r \<and> phase_ok p d i r"

definition active_weight :: "RequestState \<Rightarrow> nat" where
  "active_weight r = (if is_terminal (rs_status r) then 0 else 1)"

definition reserved_weight :: "RequestState \<Rightarrow> nat" where
  "reserved_weight r = unat (rs_reserved_kv_bytes r)"

definition sched_ok :: "ContinuousScheduler \<Rightarrow> bool" where
  "sched_ok s \<longleftrightarrow>
     policy_ok (cs_policy s) \<and> bt_ok (cs_requests s) \<and> bt_ok (cs_running s) \<and>
     dom (bt_get (cs_running s)) \<subseteq> dom (bt_get (cs_requests s)) \<and>
     (\<forall>i r. bt_get (cs_requests s) i = Some r \<longrightarrow>
        request_ok (cs_policy s) (cs_next_sequence s) (bt_get (cs_running s) i) i r) \<and>
     (\<forall>i j r q. bt_get (cs_requests s) i = Some r \<longrightarrow> bt_get (cs_requests s) j = Some q \<longrightarrow>
        rs_sequence r = rs_sequence q \<longrightarrow> i = j) \<and>
     unat (cs_reserved_kv_bytes s) = total reserved_weight (bt_entries (cs_requests s)) \<and>
     cs_reserved_kv_bytes s \<le> sp_max_reserved_kv_bytes (cs_policy s) \<and>
     total active_weight (bt_entries (cs_requests s)) \<le> unat (sp_max_active_requests (cs_policy s)) \<and>
     length (cs_running s) \<le> unat (sp_max_batch_requests (cs_policy s))"

lemma sched_okD:
  assumes "sched_ok s"
  shows "policy_ok (cs_policy s)" "bt_ok (cs_requests s)" "bt_ok (cs_running s)"
    "dom (bt_get (cs_running s)) \<subseteq> dom (bt_get (cs_requests s))"
    "bt_get (cs_requests s) i = Some r \<Longrightarrow>
       request_ok (cs_policy s) (cs_next_sequence s) (bt_get (cs_running s) i) i r"
    "unat (cs_reserved_kv_bytes s) = total reserved_weight (bt_entries (cs_requests s))"
    "cs_reserved_kv_bytes s \<le> sp_max_reserved_kv_bytes (cs_policy s)"
    "total active_weight (bt_entries (cs_requests s)) \<le> unat (sp_max_active_requests (cs_policy s))"
    "length (cs_running s) \<le> unat (sp_max_batch_requests (cs_policy s))"
  using assms by (auto simp: sched_ok_def)

lemma sched_ok_distinct_sequences:
  "sched_ok s \<Longrightarrow> bt_get (cs_requests s) i = Some r \<Longrightarrow> bt_get (cs_requests s) j = Some q \<Longrightarrow>
   rs_sequence r = rs_sequence q \<Longrightarrow> i = j"
  by (auto simp: sched_ok_def)

text \<open>Fields the invariant does not mention may change freely.\<close>

lemma sched_ok_frame [simp]:
  "sched_ok (s\<lparr>cs_stats := st\<rparr>) = sched_ok s"
  "sched_ok (s\<lparr>cs_expired := xs\<rparr>) = sched_ok s"
  by (simp_all add: sched_ok_def)

lemma scheduler_new_ok: "scheduler_new p = Ok s \<Longrightarrow> sched_ok s"
  by (auto simp: scheduler_new_def and_then_eq_Ok policy_validate_Ok sched_ok_def total_def bt_entries_def)

section \<open>Replacing one request\<close>

lemma reserved_weight_le:
  "sched_ok s \<Longrightarrow> bt_get (cs_requests s) i = Some r \<Longrightarrow> rs_reserved_kv_bytes r \<le> cs_reserved_kv_bytes s"
  using bt.total_member [of "cs_requests s" i r reserved_weight] sched_okD(2,6) [of s]
  by (simp add: reserved_weight_def word_le_nat_alt)

lemma sched_ok_update:
  assumes ok: "sched_ok s" and r: "bt_get (cs_requests s) i = Some r"
    and r': "request_ok (cs_policy s) (cs_next_sequence s) d i r'"
    and seq: "rs_sequence r' = rs_sequence r"
    and act: "is_terminal (rs_status r) \<Longrightarrow> is_terminal (rs_status r')"
    and le: "rs_reserved_kv_bytes r' \<le> rs_reserved_kv_bytes r"
    and run: "bt_ok (cs_running t)" "bt_get (cs_running t) = (bt_get (cs_running s))(i := d)"
      "length (cs_running t) \<le> unat (sp_max_batch_requests (cs_policy s))"
    and t: "cs_policy t = cs_policy s" "cs_next_sequence t = cs_next_sequence s"
      "cs_requests t = bt_insert i r' (cs_requests s)"
      "cs_reserved_kv_bytes t = cs_reserved_kv_bytes s - (rs_reserved_kv_bytes r - rs_reserved_kv_bytes r')"
  shows "sched_ok t"
proof -
  note D = sched_okD [OF ok]
  have freed: "unat (rs_reserved_kv_bytes r - rs_reserved_kv_bytes r')
      = unat (rs_reserved_kv_bytes r) - unat (rs_reserved_kv_bytes r')"
    by (rule unat_wrap_sub [OF le])
  have held: "unat (rs_reserved_kv_bytes r) \<le> unat (cs_reserved_kv_bytes s)"
    and le': "unat (rs_reserved_kv_bytes r') \<le> unat (rs_reserved_kv_bytes r)"
    using reserved_weight_le [OF ok r] le by (simp_all only: word_le_nat_alt)
  have "rs_reserved_kv_bytes r - rs_reserved_kv_bytes r' \<le> cs_reserved_kv_bytes s"
    using freed held by (simp only: word_le_nat_alt)
  then have left: "unat (cs_reserved_kv_bytes t)
      = unat (cs_reserved_kv_bytes s) - (unat (rs_reserved_kv_bytes r) - unat (rs_reserved_kv_bytes r'))"
    by (simp only: t(4) unat_wrap_sub freed)
  then have "unat (cs_reserved_kv_bytes t) + unat (rs_reserved_kv_bytes r)
      = unat (cs_reserved_kv_bytes s) + unat (rs_reserved_kv_bytes r')"
    using held le' by linarith
  moreover have "total reserved_weight (bt_entries (cs_requests t)) + unat (rs_reserved_kv_bytes r)
      = total reserved_weight (bt_entries (cs_requests s)) + unat (rs_reserved_kv_bytes r')"
    using bt.total_replace [OF D(2) r, of reserved_weight r'] by (simp add: t reserved_weight_def)
  ultimately have ledger: "unat (cs_reserved_kv_bytes t) = total reserved_weight (bt_entries (cs_requests t))"
    using D(6) by simp
  have bound: "cs_reserved_kv_bytes t \<le> sp_max_reserved_kv_bytes (cs_policy t)"
    using D(7) left unfolding t(1) word_le_nat_alt by linarith
  have "total active_weight (bt_entries (cs_requests t)) + active_weight r
      = total active_weight (bt_entries (cs_requests s)) + active_weight r'"
    using bt.total_replace [OF D(2) r, of active_weight r'] by (simp add: t)
  then have active: "total active_weight (bt_entries (cs_requests t)) \<le> unat (sp_max_active_requests (cs_policy t))"
    using D(8) act by (auto simp: t active_weight_def split: if_splits)
  have each: "\<forall>j q. bt_get (cs_requests t) j = Some q \<longrightarrow>
      request_ok (cs_policy t) (cs_next_sequence t) (bt_get (cs_running t) j) j q"
    using D(5) r' by (auto simp: t run(2))
  have seqs: "\<forall>j k q u. bt_get (cs_requests t) j = Some q \<longrightarrow> bt_get (cs_requests t) k = Some u \<longrightarrow>
      rs_sequence q = rs_sequence u \<longrightarrow> j = k"
    using sched_ok_distinct_sequences [OF ok] r seq by (auto simp: t split: if_splits)
  have dom: "dom (bt_get (cs_running t)) \<subseteq> dom (bt_get (cs_requests t))"
    using D(4) by (auto simp: t run(2) split: if_splits)
  have maps: "policy_ok (cs_policy t)" "bt_ok (cs_requests t)"
    using D(1,2) by (simp_all add: t)
  have len: "length (cs_running t) \<le> unat (sp_max_batch_requests (cs_policy t))"
    using run(3) by (simp add: t)
  show ?thesis
    unfolding sched_ok_def
    by (intro conjI maps run(1) dom each seqs ledger bound active len)
qed

text \<open>Replacing a request without touching the running set or the ledger.\<close>

lemma sched_ok_update_same:
  assumes "sched_ok s" and "bt_get (cs_requests s) i = Some r"
    and "request_ok (cs_policy s) (cs_next_sequence s) (bt_get (cs_running s) i) i r'"
    and "rs_sequence r' = rs_sequence r" and "rs_reserved_kv_bytes r' = rs_reserved_kv_bytes r"
    and "is_terminal (rs_status r) \<Longrightarrow> is_terminal (rs_status r')"
  shows "sched_ok (s\<lparr>cs_requests := bt_insert i r' (cs_requests s)\<rparr>)"
  using assms sched_okD(3,9) [OF assms(1)] by (intro sched_ok_update [OF assms(1-3)]) auto

section \<open>Releasing a request\<close>

text \<open>
  A request that ends (cancelled, aborted, expired) gives its reservation back and leaves
  the running set.
\<close>

lemma request_ok_release:
  assumes "request_ok p n d i r" and "is_terminal S" and "c \<Longrightarrow> S = Cancelled"
  shows "request_ok p n None i (r\<lparr>rs_status := S, rs_cancellation_requested := c, rs_reserved_kv_bytes := 0\<rparr>)"
  using assms by (cases S) (auto simp: request_ok_def tokens_ok_def phase_ok_def)

lemma not_running_without_dispatch:
  "sched_ok s \<Longrightarrow> bt_get (cs_requests s) i = Some r \<Longrightarrow> rs_status r \<noteq> Running \<Longrightarrow> bt_get (cs_running s) i = None"
  using sched_okD(5) [of s i r] by (auto simp: request_ok_def phase_ok_def split: option.splits)

lemma running_request:
  assumes "sched_ok s" and "bt_get (cs_running s) i = Some d"
  obtains r where "bt_get (cs_requests s) i = Some r" and "rs_status r = Running"
    and "dispatch_ok (cs_policy s) d i r"
proof -
  obtain r where r: "bt_get (cs_requests s) i = Some r"
    using assms sched_okD(4) [OF assms(1)] by auto
  with sched_okD(5) [OF assms(1) r] assms(2) that show thesis
    by (auto simp: request_ok_def phase_ok_def)
qed

lemma queued_flag_clear:
  "sched_ok s \<Longrightarrow> bt_get (cs_requests s) i = Some r \<Longrightarrow> rs_status r = Queued \<Longrightarrow> \<not> rs_cancellation_requested r"
  using sched_okD(5) [of s i r] by (auto simp: request_ok_def phase_ok_def)

lemma release_idle_ok:
  assumes ok: "sched_ok s" and r: "bt_get (cs_requests s) i = Some r"
    and q: "rs_status r = Queued" and S: "is_terminal S"
    and t: "cs_policy t = cs_policy s" "cs_next_sequence t = cs_next_sequence s"
      "cs_requests t = bt_insert i (r\<lparr>rs_status := S, rs_reserved_kv_bytes := 0\<rparr>) (cs_requests s)"
      "cs_reserved_kv_bytes t = cs_reserved_kv_bytes s - rs_reserved_kv_bytes r"
      "cs_running t = cs_running s"
  shows "sched_ok t"
proof (rule sched_ok_update [OF ok r, where d = None])
  have flag: "\<not> rs_cancellation_requested r" by (rule queued_flag_clear [OF ok r q])
  then have "r\<lparr>rs_status := S, rs_reserved_kv_bytes := 0\<rparr>
      = r\<lparr>rs_status := S, rs_cancellation_requested := False, rs_reserved_kv_bytes := 0\<rparr>"
    by simp
  then show "request_ok (cs_policy s) (cs_next_sequence s) None i (r\<lparr>rs_status := S, rs_reserved_kv_bytes := 0\<rparr>)"
    using request_ok_release [OF sched_okD(5) [OF ok r] S] by simp
  show "bt_get (cs_running t) = (bt_get (cs_running s))(i := None)"
    using not_running_without_dispatch [OF ok r] q by (simp add: t(5) fun_upd_idem)
qed (use S sched_okD(3,9) [OF ok] in \<open>simp_all add: t\<close>)

lemma cancel_ok:
  assumes "sched_ok s" and "cancel i s = (res, t)"
  shows "sched_ok t \<and> res \<noteq> Panic"
proof (cases "bt_get (cs_requests s) i")
  case None
  then show ?thesis using assms by (auto simp: cancel_def)
next
  case (Some r)
  have "request_ok (cs_policy s) (cs_next_sequence s) (bt_get (cs_running s) i) i
      (r\<lparr>rs_cancellation_requested := True\<rparr>)" if "rs_status r = Running"
    using sched_okD(5) [OF assms(1) Some] that
    by (auto simp: request_ok_def phase_ok_def tokens_ok_def dispatch_ok_def split: option.splits DispatchKind.splits)
  then have running: "sched_ok (s\<lparr>cs_requests := bt_insert i (r\<lparr>rs_cancellation_requested := True\<rparr>) (cs_requests s)\<rparr>)"
    if "rs_status r = Running"
    using that by (intro sched_ok_update_same [OF assms(1) Some]) auto
  show ?thesis
  proof (cases "rs_status r = Queued")
    case True
    then show ?thesis
      using assms(2) Some by (auto simp: cancel_def intro: release_idle_ok [OF assms(1) Some True, of Cancelled])
  next
    case False
    then show ?thesis
      using assms Some running by (auto simp: cancel_def split: if_splits)
  qed
qed

lemma abort_quantum_ok:
  assumes "sched_ok s" and "abort_quantum i s = (res, t)"
  shows "sched_ok t \<and> res \<noteq> Panic"
proof (cases "bt_get (cs_running s) i")
  case None
  then show ?thesis using assms by (auto simp: abort_quantum_def)
next
  case (Some d)
  obtain r where r: "bt_get (cs_requests s) i = Some r"
    using running_request [OF assms(1) Some] by blast
  have t: "t = snd (abort_quantum i s)" and res: "res = Ok Cancelled"
    using assms(2) Some r by (auto simp: abort_quantum_def)
  have "sched_ok t"
  proof (rule sched_ok_update [OF assms(1) r, where d = None])
    show "request_ok (cs_policy s) (cs_next_sequence s) None i
        (r\<lparr>rs_status := Cancelled, rs_cancellation_requested := False, rs_reserved_kv_bytes := 0\<rparr>)"
      by (rule request_ok_release [OF sched_okD(5) [OF assms(1) r]]) auto
  qed (use Some r sched_okD(3,9) [OF assms(1)] in
        \<open>auto simp: t abort_quantum_def intro: order_trans [OF length_bt_remove]\<close>)
  with res show ?thesis by simp
qed

lemma prune_terminal_ok:
  assumes "sched_ok s"
  shows "sched_ok (prune_terminal s)"
proof -
  note D = sched_okD [OF assms]
  let ?p = "\<lambda>_ r. \<not> is_terminal (rs_status r)"
  let ?m = "bt_retain ?p (cs_requests s)"
  have get: "bt_get ?m i = Some r \<longleftrightarrow> bt_get (cs_requests s) i = Some r \<and> \<not> is_terminal (rs_status r)" for i r
    by (auto simp: bt_get_retain [OF D(2)] split: option.splits)
  have zero: "reserved_weight r = 0" if "bt_get (cs_requests s) i = Some r" "\<not> ?p i r" for i r
    using D(5) [OF that(1)] that(2) by (simp add: request_ok_def tokens_ok_def reserved_weight_def)
  have ledger: "total reserved_weight (bt_entries ?m) = total reserved_weight (bt_entries (cs_requests s))"
    by (rule bt.total_retain [OF D(2) zero])
  have active: "total active_weight (bt_entries ?m) = total active_weight (bt_entries (cs_requests s))"
    by (rule bt.total_retain [OF D(2)]) (simp add: active_weight_def)
  have dom: "dom (bt_get (cs_running s)) \<subseteq> dom (bt_get ?m)"
  proof
    fix i
    assume "i \<in> dom (bt_get (cs_running s))"
    then obtain d where "bt_get (cs_running s) i = Some d" by auto
    then obtain r where "bt_get (cs_requests s) i = Some r" "rs_status r = Running"
      using running_request [OF assms] by blast
    then have "bt_get ?m i = Some r" by (simp add: get)
    then show "i \<in> dom (bt_get ?m)" by (rule domI)
  qed
  have seqs: "\<forall>i j r q. bt_get ?m i = Some r \<longrightarrow> bt_get ?m j = Some q \<longrightarrow> rs_sequence r = rs_sequence q \<longrightarrow> i = j"
    using sched_ok_distinct_sequences [OF assms] by (auto simp: get)
  have each: "\<forall>i r. bt_get ?m i = Some r \<longrightarrow>
      request_ok (cs_policy s) (cs_next_sequence s) (bt_get (cs_running s) i) i r"
    using D(5) by (auto simp: get)
  show ?thesis
    unfolding sched_ok_def prune_terminal_def
    using D(1,3,6-9) each seqs dom ledger active bt_ok_retain [OF D(2)] by auto
qed

section \<open>Expiry and dispatch\<close>

definition all_queued :: "ContinuousScheduler \<Rightarrow> RequestId list \<Rightarrow> bool" where
  "all_queued s ids \<longleftrightarrow> distinct ids \<and>
     (\<forall>i\<in>set ids. \<exists>r. bt_get (cs_requests s) i = Some r \<and> rs_status r = Queued)"

definition expire_record :: "RequestState \<Rightarrow> RequestState" where
  "expire_record r = r\<lparr>rs_status := DeadlineExpired, rs_reserved_kv_bytes := 0\<rparr>"

lemma expire_ids_run:
  assumes "sched_ok s" and "all_queued s ids"
  shows "\<exists>t. expire_ids ids s = (Ok (), t) \<and> sched_ok t \<and> cs_policy t = cs_policy s \<and>
    cs_running t = cs_running s \<and> cs_next_sequence t = cs_next_sequence s \<and>
    cs_expired t = cs_expired s @ ids \<and>
    st_dispatched_quanta (cs_stats t) = st_dispatched_quanta (cs_stats s) \<and>
    (\<forall>j. bt_get (cs_requests t) j =
       (if j \<in> set ids then map_option expire_record (bt_get (cs_requests s) j) else bt_get (cs_requests s) j))"
  using assms
proof (induction ids arbitrary: s)
  case Nil
  then show ?case by simp
next
  case (Cons i ids)
  obtain r where r: "bt_get (cs_requests s) i = Some r" "rs_status r = Queued"
    using Cons.prems(2) by (auto simp: all_queued_def)
  let ?s = "s\<lparr>cs_requests := bt_insert i (r\<lparr>rs_status := DeadlineExpired, rs_reserved_kv_bytes := 0\<rparr>) (cs_requests s),
          cs_reserved_kv_bytes := cs_reserved_kv_bytes s - rs_reserved_kv_bytes r,
          cs_stats := (cs_stats s)\<lparr>st_expired_requests := st_expired_requests (cs_stats s) + 1\<rparr>,
          cs_expired := cs_expired s @ [i]\<rparr>"
  have ok: "sched_ok ?s"
    by (rule release_idle_ok [OF Cons.prems(1) r, of DeadlineExpired]) simp_all
  have queued: "all_queued ?s ids"
    using Cons.prems(2) by (auto simp: all_queued_def)
  have notin: "i \<notin> set ids" using Cons.prems(2) by (simp add: all_queued_def)
  have step: "expire_ids (i # ids) s = expire_ids ids ?s" by (simp add: r)
  from Cons.IH [OF ok queued] obtain t where t: "expire_ids ids ?s = (Ok (), t)" "sched_ok t"
    "cs_policy t = cs_policy s" "cs_running t = cs_running s" "cs_next_sequence t = cs_next_sequence s"
    "cs_expired t = cs_expired s @ i # ids"
    "st_dispatched_quanta (cs_stats t) = st_dispatched_quanta (cs_stats s)"
    "\<And>j. bt_get (cs_requests t) j = (if j \<in> set ids then map_option expire_record (bt_get (cs_requests ?s) j)
       else bt_get (cs_requests ?s) j)"
    by auto
  show ?case
    using t notin r by (intro exI [of _ t]) (auto simp: step expire_record_def)
qed

lemma request_ids_of_filter:
  assumes "sched_ok s" and "\<And>r. p r \<Longrightarrow> rs_status r = Queued"
  shows "all_queued s (map (\<lambda>r. sx_id (rs_spec r)) (filter p (bt_values (cs_requests s))))"
proof -
  note D = sched_okD [OF assms(1)]
  have key: "sx_id (rs_spec r) = i" if "(i, r) \<in> set (cs_requests s)" for i r
    using D(5) that by (auto simp: bt_get_in_set [OF D(2)] request_ok_def)
  have ids: "map (\<lambda>r. sx_id (rs_spec r)) (bt_values (cs_requests s)) = map fst (cs_requests s)"
    using key by (auto simp: bt_values_def)
  have "distinct (map (\<lambda>r. sx_id (rs_spec r)) (bt_values (cs_requests s)))"
    unfolding ids by (rule bt_distinct [OF D(2)])
  then have "distinct (map (\<lambda>r. sx_id (rs_spec r)) (filter p (bt_values (cs_requests s))))"
    by (rule distinct_map_filter)
  moreover have "\<exists>r'. bt_get (cs_requests s) (sx_id (rs_spec r)) = Some r' \<and> rs_status r' = Queued"
    if "r \<in> set (bt_values (cs_requests s))" "p r" for r
    using that assms(2) D(5) by (auto simp: bt_in_values [OF D(2)] request_ok_def)
  ultimately show ?thesis by (auto simp: all_queued_def)
qed

lemma expire_deadlines_run:
  assumes "sched_ok s"
  obtains t where "expire_deadlines now s = (Ok (), t)" and "sched_ok t" and "cs_policy t = cs_policy s"
    and "cs_running t = cs_running s" and "cs_next_sequence t = cs_next_sequence s"
    and "st_dispatched_quanta (cs_stats t) = st_dispatched_quanta (cs_stats s)"
    and "\<forall>j. bt_get (cs_requests t) j = (case bt_get (cs_requests s) j of None \<Rightarrow> None
           | Some r \<Rightarrow> Some (if deadline_passed now r then expire_record r else r))"
    and "cs_expired t = cs_expired s @ map (\<lambda>r. sx_id (rs_spec r)) (filter (deadline_passed now) (bt_values (cs_requests s)))"
proof -
  note D = sched_okD [OF assms]
  let ?ids = "map (\<lambda>r. sx_id (rs_spec r)) (filter (deadline_passed now) (bt_values (cs_requests s)))"
  have "all_queued s ?ids"
    by (rule request_ids_of_filter [OF assms]) (simp add: deadline_passed_def)
  from expire_ids_run [OF assms this] obtain t where t: "expire_ids ?ids s = (Ok (), t)" "sched_ok t"
    "cs_policy t = cs_policy s" "cs_running t = cs_running s" "cs_next_sequence t = cs_next_sequence s"
    "cs_expired t = cs_expired s @ ?ids" "st_dispatched_quanta (cs_stats t) = st_dispatched_quanta (cs_stats s)"
    "\<And>j. bt_get (cs_requests t) j = (if j \<in> set ?ids then map_option expire_record (bt_get (cs_requests s) j)
       else bt_get (cs_requests s) j)"
    by auto
  have mem: "j \<in> set ?ids \<longleftrightarrow> deadline_passed now r" if "bt_get (cs_requests s) j = Some r" for j r
    using that D(5) by (auto simp: bt_in_values [OF D(2)] request_ok_def image_iff)
  have "bt_get (cs_requests t) j = (case bt_get (cs_requests s) j of None \<Rightarrow> None
       | Some r \<Rightarrow> Some (if deadline_passed now r then expire_record r else r))" for j
    unfolding t(8) using mem [of j] by (auto split: option.splits)
  with t that show thesis by (simp add: expire_deadlines_def)
qed

lemma unat_quantum_tokens:
  "unat (quantum_tokens p r) =
     (if rs_remaining_prefill_tokens r = 0
      then min (unat (rs_remaining_tokens r)) (unat (sp_service_quantum_tokens p))
      else min (unat (rs_remaining_prefill_tokens r)) (unat (sp_prefill_chunk_tokens p)))"
  by (simp add: quantum_tokens_def unat_min word_greater_zero_iff)

lemma quantum_budget_fits:
  "\<exists>b. try_from_word (quantum_tokens p r) = Some (b :: u32) \<and> unat b = unat (quantum_tokens p r)"
proof -
  have "unat (sp_prefill_chunk_tokens p) < 2 ^ 32" "unat (sp_service_quantum_tokens p) < 2 ^ 32"
    using unat_lt_2p [of "sp_prefill_chunk_tokens p"] unat_lt_2p [of "sp_service_quantum_tokens p"] by simp_all
  then have "unat (quantum_tokens p r) < 2 ^ 32"
    by (auto simp: unat_quantum_tokens)
  then have "\<exists>b. try_from_word (quantum_tokens p r) = Some (b :: u32)"
    by (simp add: try_from_word_def)
  then show ?thesis using try_from_word_unat by blast
qed

lemma start_one_ok:
  assumes ok: "sched_ok s" and r: "bt_get (cs_requests s) i = Some r" and q: "rs_status r = Queued"
    and room: "length (cs_running s) < unat (sp_max_batch_requests (cs_policy s))"
    and b: "unat (b :: u32) = unat (quantum_tokens (cs_policy s) r)"
    and d: "d = \<lparr>dp_request_id = i, dp_token_budget = b, dp_dispatch_ns = now, dp_kind = quantum_kind r\<rparr>"
  shows "sched_ok (s\<lparr>cs_requests := bt_insert i (r\<lparr>rs_status := Running\<rparr>) (cs_requests s),
                     cs_running := bt_insert i d (cs_running s)\<rparr>)" (is "sched_ok ?t")
    and "dispatch_ok (cs_policy s) d i r"
proof -
  have rok: "request_ok (cs_policy s) (cs_next_sequence s) (bt_get (cs_running s) i) i r"
    by (rule sched_okD(5) [OF ok r])
  have quanta: "0 < unat (sp_service_quantum_tokens (cs_policy s))" "0 < unat (sp_prefill_chunk_tokens (cs_policy s))"
    using sched_okD(1) [OF ok] by (auto simp: policy_ok_def unat_gt_0_iff)
  have "0 < unat (rs_remaining_tokens r)"
    using rok q by (auto simp: request_ok_def tokens_ok_def)
  then show dok: "dispatch_ok (cs_policy s) d i r"
    using quanta b by (simp add: dispatch_ok_def d quantum_kind_def unat_quantum_tokens
        word_le_nat_alt word_greater_zero_iff unat_gt_0)
  have "\<not> rs_cancellation_requested r" by (rule queued_flag_clear [OF ok r q])
  then have "request_ok (cs_policy s) (cs_next_sequence s) (Some d) i (r\<lparr>rs_status := Running\<rparr>)"
    using rok q dok by (auto simp: request_ok_def tokens_ok_def phase_ok_def dispatch_ok_def split: DispatchKind.splits)
  then show "sched_ok ?t"
    using q room sched_okD(3) [OF ok]
    by (intro sched_ok_update [OF ok r, where d = "Some d" and r' = "r\<lparr>rs_status := Running\<rparr>"])
       (auto intro: order_trans [OF length_bt_insert])
qed

end
