(* ===== verification/Scheduler_Ops.thy ===== *)
theory Scheduler_Ops
  imports Scheduler_Inv
begin

text \<open>
  The scheduler's compound operations against the invariant: a batch dispatch (no
  \<open>expect\<close> fires, every selected request gets a positive budget within its quantum),
  quantum completion on every branch, and admission. The section on the comparison shows
  that \<open>compare_requests\<close> is a lawful order, so the batch is the front of a sorted queue.
\<close>

section \<open>Starting a batch\<close>

definition started :: "ContinuousScheduler \<Rightarrow> u64 \<Rightarrow> Dispatch \<Rightarrow> bool" where
  "started s now d \<longleftrightarrow> (\<exists>r. bt_get (cs_requests s) (dp_request_id d) = Some r \<and>
     dispatch_ok (cs_policy s) d (dp_request_id d) r \<and>
     dp_kind d = quantum_kind r \<and> unat (dp_token_budget d) = unat (quantum_tokens (cs_policy s) r) \<and>
     dp_dispatch_ns d = now)"

lemma start_batch_run:
  assumes "sched_ok s" and "all_queued s ids"
    and "length (cs_running s) + length ids \<le> unat (sp_max_batch_requests (cs_policy s))"
  shows "\<exists>ds t. start_batch ids now s = (Ok ds, t) \<and> sched_ok t \<and> cs_policy t = cs_policy s \<and>
    cs_next_sequence t = cs_next_sequence s \<and> cs_reserved_kv_bytes t = cs_reserved_kv_bytes s \<and>
    cs_stats t = cs_stats s \<and> cs_expired t = cs_expired s \<and>
    map dp_request_id ds = ids \<and> (\<forall>d\<in>set ds. started s now d) \<and>
    (\<forall>d\<in>set ds. bt_get (cs_running t) (dp_request_id d) = Some d) \<and>
    (\<forall>j. bt_get (cs_requests t) j = (if j \<in> set ids
       then map_option (\<lambda>r. r\<lparr>rs_status := Running\<rparr>) (bt_get (cs_requests s) j) else bt_get (cs_requests s) j)) \<and>
    (\<forall>j. j \<notin> set ids \<longrightarrow> bt_get (cs_running t) j = bt_get (cs_running s) j)"
  using assms
proof (induction ids arbitrary: s)
  case Nil
  then show ?case by simp
next
  case (Cons i ids)
  obtain r where r: "bt_get (cs_requests s) i = Some r" "rs_status r = Queued"
    using Cons.prems(2) by (auto simp: all_queued_def)
  have notin: "i \<notin> set ids" using Cons.prems(2) by (simp add: all_queued_def)
  obtain b :: u32 where b: "try_from_word (quantum_tokens (cs_policy s) r) = Some b"
      "unat b = unat (quantum_tokens (cs_policy s) r)"
    using quantum_budget_fits by blast
  define d where "d = \<lparr>dp_request_id = i, dp_token_budget = b, dp_dispatch_ns = now, dp_kind = quantum_kind r\<rparr>"
  define s1 where "s1 = s\<lparr>cs_requests := bt_insert i (r\<lparr>rs_status := Running\<rparr>) (cs_requests s),
                cs_running := bt_insert i d (cs_running s)\<rparr>"
  have room: "length (cs_running s) < unat (sp_max_batch_requests (cs_policy s))"
    using Cons.prems(3) by simp
  note one = start_one_ok [OF Cons.prems(1) r room b(2) d_def]
  have ok1: "sched_ok s1" using one(1) by (simp add: s1_def)
  have queued1: "all_queued s1 ids" using Cons.prems(2) by (auto simp: all_queued_def s1_def)
  have "length (cs_running s1) + length ids \<le> unat (sp_max_batch_requests (cs_policy s1))"
    using Cons.prems(3) length_bt_insert [of i d "cs_running s"] by (simp add: s1_def)
  from Cons.IH [OF ok1 queued1 this] obtain ds t where t: "start_batch ids now s1 = (Ok ds, t)" "sched_ok t"
    "cs_policy t = cs_policy s1" "cs_next_sequence t = cs_next_sequence s1"
    "cs_reserved_kv_bytes t = cs_reserved_kv_bytes s1" "cs_stats t = cs_stats s1" "cs_expired t = cs_expired s1"
    "map dp_request_id ds = ids" "\<forall>d\<in>set ds. started s1 now d"
    "\<forall>d\<in>set ds. bt_get (cs_running t) (dp_request_id d) = Some d"
    "\<forall>j. bt_get (cs_requests t) j = (if j \<in> set ids
       then map_option (\<lambda>r. r\<lparr>rs_status := Running\<rparr>) (bt_get (cs_requests s1) j) else bt_get (cs_requests s1) j)"
    "\<forall>j. j \<notin> set ids \<longrightarrow> bt_get (cs_running t) j = bt_get (cs_running s1) j"
    by blast
  have "start_batch (i # ids) now s = (Ok (d # ds), t)"
    using r b(1) t(1) by (simp add: d_def [symmetric] s1_def [symmetric] Let_def)
  moreover have "started s now d"
    using one(2) r b(2) by (auto simp: started_def d_def)
  moreover have "\<forall>e\<in>set ds. started s now e"
  proof
    fix e assume e: "e \<in> set ds"
    then have "dp_request_id e \<noteq> i" using t(8) notin by auto
    with e t(9) show "started s now e" by (auto simp: started_def s1_def)
  qed
  moreover have "bt_get (cs_running t) i = Some d" using t(12) notin by (simp add: s1_def)
  moreover have "dp_request_id d = i" by (simp add: d_def)
  ultimately show ?case
    using t notin r by (intro exI [of _ "d # ds"] exI [of _ t]) (auto simp: s1_def)
qed

section \<open>Batch dispatch\<close>

definition batch_ids :: "u64 \<Rightarrow> u32 \<Rightarrow> ContinuousScheduler \<Rightarrow> RequestId list" where
  "batch_ids now limit s = select_batch_ids now (min limit (sp_max_batch_requests (cs_policy s))) s"

lemma batch_ids_queued:
  assumes "sched_ok s"
  shows "all_queued s (batch_ids now limit s)"
    and "length (batch_ids now limit s) \<le> unat (min limit (sp_max_batch_requests (cs_policy s)))"
proof -
  let ?c = "compare_requests now (cs_policy s)" and ?f = "\<lambda>r. sx_id (rs_spec r)"
  have q: "all_queued s (map ?f (queued_requests s))"
    unfolding queued_requests_def by (rule request_ids_of_filter [OF assms]) simp
  then have d: "distinct (map ?f (sort_by ?c (queued_requests s)))"
    by (simp add: distinct_map_sort_by all_queued_def)
  have sub: "set (batch_ids now limit s) \<subseteq> set (map ?f (queued_requests s))"
    by (auto simp: batch_ids_def select_batch_ids_def dest!: in_set_takeD)
  show "all_queued s (batch_ids now limit s)"
    using q d sub by (auto simp: all_queued_def batch_ids_def select_batch_ids_def take_map [symmetric])
  show "length (batch_ids now limit s) \<le> unat (min limit (sp_max_batch_requests (cs_policy s)))"
    by (simp add: batch_ids_def select_batch_ids_def)
qed

lemma dispatch_batch_run:
  assumes ok: "sched_ok s" and idle: "cs_running s = []" and limit: "limit \<noteq> 0"
  obtains e ds t where "expire_deadlines now s = (Ok (), e)" and "sched_ok e"
    and "start_batch (batch_ids now limit e) now e = (Ok ds, t)" and "sched_ok t"
    and "dispatch_batch now limit s =
      (case record_batch_dispatch ds t of (r, u) \<Rightarrow> (and_then r (\<lambda>_. Ok ds), u))"
    and "map dp_request_id ds = batch_ids now limit e" and "\<forall>d\<in>set ds. started e now d"
    and "\<forall>d\<in>set ds. bt_get (cs_running t) (dp_request_id d) = Some d"
    and "length ds \<le> unat (min limit (sp_max_batch_requests (cs_policy s)))"
    and "cs_policy e = cs_policy s" and "cs_policy t = cs_policy s"
proof -
  obtain e where e: "expire_deadlines now s = (Ok (), e)" "sched_ok e" "cs_policy e = cs_policy s"
    "cs_running e = []"
    using expire_deadlines_run [OF ok, of now] idle by metis
  note ids = batch_ids_queued [OF e(2), of now limit]
  have "length (cs_running e) + length (batch_ids now limit e) \<le> unat (sp_max_batch_requests (cs_policy e))"
    using ids(2) e(4) by (simp add: unat_min)
  from start_batch_run [OF e(2) ids(1) this, of now] obtain ds t where
    t: "start_batch (batch_ids now limit e) now e = (Ok ds, t)" "sched_ok t" "cs_policy t = cs_policy e"
    "map dp_request_id ds = batch_ids now limit e" "\<forall>d\<in>set ds. started e now d"
    "\<forall>d\<in>set ds. bt_get (cs_running t) (dp_request_id d) = Some d"
    by blast
  have "dispatch_batch now limit s =
      (case record_batch_dispatch ds t of (r, u) \<Rightarrow> (and_then r (\<lambda>_. Ok ds), u))"
    using e t idle limit
    by (cases "record_batch_dispatch ds t"; cases "fst (record_batch_dispatch ds t)")
       (auto simp: dispatch_batch_def check_dispatch_state_def batch_ids_def Let_def)
  moreover have "length ds \<le> unat (min limit (sp_max_batch_requests (cs_policy s)))"
    using ids(2) t(4) e(3) by (metis length_map)
  ultimately show thesis using that e t by simp
qed

lemma record_batch_dispatch_ok:
  "record_batch_dispatch ds t = (r, u) \<Longrightarrow> sched_ok t \<Longrightarrow> sched_ok u \<and> r \<noteq> Panic"
  by (cases "checked_add (st_dispatched_quanta (cs_stats t)) (word_of_usize (length ds) :: u64)")
     (auto simp: record_batch_dispatch_def Let_def split: if_splits)

lemma record_batch_dispatch_frame:
  "record_batch_dispatch ds t = (r, u) \<Longrightarrow> cs_running u = cs_running t \<and> cs_requests u = cs_requests t \<and>
     cs_policy u = cs_policy t \<and> cs_expired u = cs_expired t \<and> cs_reserved_kv_bytes u = cs_reserved_kv_bytes t"
  by (cases "checked_add (st_dispatched_quanta (cs_stats t)) (word_of_usize (length ds) :: u64)")
     (auto simp: record_batch_dispatch_def Let_def split: if_splits)

lemma dispatch_batch_ok:
  assumes "sched_ok s" and "dispatch_batch now limit s = (res, t)"
  shows "sched_ok t \<and> res \<noteq> Panic"
proof (cases "cs_running s = [] \<and> limit \<noteq> 0")
  case True
  then obtain ds u where u: "sched_ok u" "dispatch_batch now limit s =
      (case record_batch_dispatch ds u of (r, u) \<Rightarrow> (and_then r (\<lambda>_. Ok ds), u))"
    using dispatch_batch_run [OF assms(1), of limit now] by metis
  obtain r v where v: "record_batch_dispatch ds u = (r, v)" by fastforce
  then show ?thesis
    using u assms(2) record_batch_dispatch_ok [OF v u(1)] by (cases r) auto
next
  case False
  then show ?thesis
    using assms by (auto simp: dispatch_batch_def check_dispatch_state_def split: if_splits)
qed

section \<open>Completing a quantum\<close>

definition quantum_valid :: "Dispatch \<Rightarrow> u32 \<Rightarrow> u32 \<Rightarrow> bool" where
  "quantum_valid d emitted progress \<longleftrightarrow>
     emitted \<le> dp_token_budget d \<and> progress \<le> dp_token_budget d \<and>
     (dp_kind d = Prefill \<longrightarrow> emitted = 0) \<and> (dp_kind d = Decode \<longrightarrow> progress = emitted)"

lemma validate_quantum_Ok: "validate_quantum_completion d i emitted progress = Ok () \<longleftrightarrow> quantum_valid d emitted progress"
  by (auto simp: validate_quantum_completion_def quantum_valid_def not_less)

lemma validate_quantum_no_panic: "validate_quantum_completion d i emitted progress \<noteq> Panic"
  by (simp add: validate_quantum_completion_def)

definition status_after :: "DispatchKind \<Rightarrow> bool \<Rightarrow> bool \<Rightarrow> u64 \<Rightarrow> RequestStatus" where
  "status_after kind flag eos remaining =
     (if flag then Cancelled else if kind = Prefill then Queued
      else if eos \<or> remaining = 0 then Finished else Queued)"

lemma apply_quantum_status_simps:
  "rs_status (fst (apply_quantum_status kind emitted eos (r, st)))
     = status_after kind (rs_cancellation_requested r) eos (rs_remaining_tokens r)"
  "fst (apply_quantum_status kind emitted eos (r, st))
     = r\<lparr>rs_status := status_after kind (rs_cancellation_requested r) eos (rs_remaining_tokens r)\<rparr>"
  by (simp_all add: apply_quantum_status_def status_after_def)

definition progressed :: "Dispatch \<Rightarrow> u32 \<Rightarrow> u32 \<Rightarrow> bool \<Rightarrow> RequestState \<Rightarrow> RequestState \<Rightarrow> bool" where
  "progressed d emitted progress ready r q \<longleftrightarrow>
     rs_spec q = rs_spec r \<and> rs_sequence q = rs_sequence r \<and>
     rs_reserved_kv_bytes q = rs_reserved_kv_bytes r \<and>
     rs_cancellation_requested q = rs_cancellation_requested r \<and>
     (case dp_kind d of
        Prefill \<Rightarrow> rs_remaining_tokens q = rs_remaining_tokens r \<and> rs_emitted_tokens q = rs_emitted_tokens r \<and>
          unat (rs_remaining_prefill_tokens q)
            = (if ready then 0 else unat (rs_remaining_prefill_tokens r) - unat progress)
      | Decode \<Rightarrow> rs_remaining_prefill_tokens q = rs_remaining_prefill_tokens r \<and>
          rs_remaining_tokens q = rs_remaining_tokens r - ucast emitted \<and>
          unat (rs_emitted_tokens q) = unat (rs_emitted_tokens r) + unat emitted)"

lemma apply_quantum_state_Ok:
  assumes "apply_quantum_state d emitted progress ready eos (r, st) = (Ok (), q, st')"
  shows "progressed d emitted progress ready r q"
    and "rs_status q = status_after (dp_kind d) (rs_cancellation_requested r) eos (rs_remaining_tokens q)"
    and "unat (st_emitted_tokens st') = unat (st_emitted_tokens st) + unat emitted"
    and "unat (rs_virtual_runtime q) \<ge> unat (rs_virtual_runtime r)"
  using assms
  by (auto simp: apply_quantum_state_def apply_prefill_progress_def apply_decode_progress_def
      try_pure_cases try_st_cases Let_def progressed_def apply_quantum_status_def status_after_def
      ok_or_def and_then_eq_Ok dest!: checked_add_unat checked_sub_unat
      split: outcome.splits option.splits if_splits DispatchKind.splits)

lemma apply_quantum_state_errors:
  assumes "apply_quantum_state d emitted progress ready eos (r, st) = (res, b)"
    and "sx_priority (rs_spec r) \<noteq> 0"
  shows "res = Ok () \<or> res = Err AccountingOverflow"
  using assms
  by (auto simp: apply_quantum_state_def apply_prefill_progress_def apply_decode_progress_def
      runtime_charge_def try_pure_cases try_st_cases Let_def ok_or_def
      split: outcome.splits option.splits if_splits DispatchKind.splits)

definition settle :: "RequestState \<Rightarrow> RequestState" where
  "settle q = (if is_terminal (rs_status q) then q\<lparr>rs_reserved_kv_bytes := 0\<rparr> else q)"

lemma progressed_bounds:
  assumes p: "progressed d emitted progress ready r q" and v: "quantum_valid d emitted progress"
    and dok: "dispatch_ok p d i r"
  shows "unat (rs_emitted_tokens q) + unat (rs_remaining_tokens q)
      = unat (rs_emitted_tokens r) + unat (rs_remaining_tokens r)"
    and "unat (rs_remaining_tokens q) \<le> unat (rs_remaining_tokens r)"
    and "unat (rs_remaining_prefill_tokens q) \<le> unat (rs_remaining_prefill_tokens r)"
    and "dp_kind d = Prefill \<Longrightarrow> rs_remaining_tokens q = rs_remaining_tokens r"
proof -
  have fit: "unat emitted \<le> unat (rs_remaining_tokens r)" if "dp_kind d = Decode"
    using v dok that unfolding quantum_valid_def dispatch_ok_def word_le_nat_alt by auto
  then have rem: "unat (rs_remaining_tokens q) = unat (rs_remaining_tokens r) - unat emitted" if "dp_kind d = Decode"
    using p that by (simp add: progressed_def unat_wrap_sub word_le_nat_alt)
  show "unat (rs_emitted_tokens q) + unat (rs_remaining_tokens q)
      = unat (rs_emitted_tokens r) + unat (rs_remaining_tokens r)"
    using p fit rem by (cases "dp_kind d") (auto simp: progressed_def)
  show "unat (rs_remaining_tokens q) \<le> unat (rs_remaining_tokens r)"
    using p rem by (cases "dp_kind d") (auto simp: progressed_def)
  show "unat (rs_remaining_prefill_tokens q) \<le> unat (rs_remaining_prefill_tokens r)"
    using p by (cases "dp_kind d") (auto simp: progressed_def)
  show "dp_kind d = Prefill \<Longrightarrow> rs_remaining_tokens q = rs_remaining_tokens r"
    using p by (simp add: progressed_def)
qed

lemma status_after_cases:
  "status_after k f eos n \<in> {Cancelled, Queued, Finished}"
  "f \<Longrightarrow> status_after k f eos n = Cancelled"
  "\<not> is_terminal (status_after k f eos n) \<Longrightarrow> k = Decode \<Longrightarrow> n \<noteq> 0"
  by (auto simp: status_after_def split: if_splits)

lemma settle_request_ok:
  assumes rok: "request_ok p n (Some d) i r" and act: "rs_status r = Running"
    and pr: "progressed d emitted progress ready r q" and v: "quantum_valid d emitted progress"
    and st: "rs_status q = status_after (dp_kind d) (rs_cancellation_requested r) eos (rs_remaining_tokens q)"
  shows "request_ok p n None i (settle q)"
proof -
  have dok: "dispatch_ok p d i r" using rok by (simp add: request_ok_def phase_ok_def)
  note B = progressed_bounds [OF pr v dok]
  have same: "rs_spec q = rs_spec r" "rs_sequence q = rs_sequence r"
    "rs_reserved_kv_bytes q = rs_reserved_kv_bytes r" "rs_cancellation_requested q = rs_cancellation_requested r"
    using pr by (auto simp: progressed_def)
  have tr: "unat (rs_emitted_tokens r) + unat (rs_remaining_tokens r) = unat (sx_max_output_tokens (rs_spec r))"
    "sx_priority (rs_spec r) \<noteq> 0" "0 < unat (rs_remaining_tokens r)"
    "(unat (rs_remaining_prefill_tokens r) + unat (rs_remaining_tokens r)) * unat (sp_kv_bytes_per_token p)
       \<le> unat (rs_reserved_kv_bytes r)"
    using rok act by (auto simp: request_ok_def tokens_ok_def)
  have left: "0 < unat (rs_remaining_tokens q)" if "\<not> is_terminal (rs_status q)"
  proof (cases "dp_kind d")
    case Prefill
    then show ?thesis using B(4) tr(3) by simp
  next
    case Decode
    then show ?thesis using that st status_after_cases(3) by (metis unat_gt_0_iff)
  qed
  have "(unat (rs_remaining_prefill_tokens q) + unat (rs_remaining_tokens q)) * unat (sp_kv_bytes_per_token p)
      \<le> unat (rs_reserved_kv_bytes q)"
    unfolding same(3) by (rule order_trans [OF mult_le_mono1 tr(4)]) (use B(2,3) in linarith)
  then have tokens: "tokens_ok p (settle q)"
    using B(1) tr(1,2) same left by (simp add: tokens_ok_def settle_def)
  have "rs_status q \<noteq> Running" and "rs_cancellation_requested q \<Longrightarrow> rs_status q = Cancelled"
    by (auto simp: st same status_after_def)
  then have "phase_ok p None i (settle q)" by (simp add: phase_ok_def settle_def)
  with tokens rok same show ?thesis by (simp add: request_ok_def settle_def)
qed

lemma complete_quantum_run:
  assumes run: "bt_get (cs_running s) i = Some d" and req: "bt_get (cs_requests s) i = Some r"
    and v: "quantum_valid d emitted progress"
    and q: "apply_quantum_state d emitted progress ready eos (r, cs_stats s) = (Ok (), q, st)"
  shows "complete_quantum_with_progress i emitted progress ready eos s =
    (Ok \<lparr>qc_request_id = i, qc_emitted_tokens = emitted, qc_status = rs_status q\<rparr>,
     s\<lparr>cs_requests := bt_insert i (settle q) (cs_requests s),
       cs_reserved_kv_bytes := (if is_terminal (rs_status q) then cs_reserved_kv_bytes s - rs_reserved_kv_bytes q
                                else cs_reserved_kv_bytes s),
       cs_running := bt_remove i (cs_running s), cs_stats := st\<rparr>)"
proof -
  have "validate_quantum_completion d i emitted progress = Ok ()"
    using v by (simp only: validate_quantum_Ok)
  then show ?thesis
    using run req q by (simp add: complete_quantum_with_progress_def Let_def settle_def)
qed

lemma complete_quantum_cases:
  assumes ok: "sched_ok s" and c: "complete_quantum_with_progress i emitted progress ready eos s = (res, t)"
    and noflow: "res \<noteq> Err AccountingOverflow"
  obtains (unchanged) e where "res = Err e" "t = s"
  | (committed) d r q st where "bt_get (cs_running s) i = Some d" "bt_get (cs_requests s) i = Some r"
      "rs_status r = Running" "quantum_valid d emitted progress" "dispatch_ok (cs_policy s) d i r"
      "apply_quantum_state d emitted progress ready eos (r, cs_stats s) = (Ok (), q, st)"
proof (cases "bt_get (cs_running s) i")
  case None
  then show thesis using c by (intro unchanged [of "NotRunning i"]) (auto simp: complete_quantum_with_progress_def)
next
  case (Some d)
  obtain r where r: "bt_get (cs_requests s) i = Some r" "rs_status r = Running" "dispatch_ok (cs_policy s) d i r"
    using running_request [OF ok Some] by blast
  show thesis
  proof (cases "quantum_valid d emitted progress")
    case False
    then obtain e where "validate_quantum_completion d i emitted progress = Err e"
      using validate_quantum_Ok [of d i emitted progress] validate_quantum_no_panic
      by (cases "validate_quantum_completion d i emitted progress") auto
    then show thesis using c Some by (intro unchanged [of e]) (auto simp: complete_quantum_with_progress_def)
  next
    case True
    obtain ar q st where a: "apply_quantum_state d emitted progress ready eos (r, cs_stats s) = (ar, q, st)"
      by (metis prod_cases3)
    have "sx_priority (rs_spec r) \<noteq> 0"
      using sched_okD(5) [OF ok r(1)] r(2) by (simp add: request_ok_def tokens_ok_def)
    then have "ar = Ok () \<or> ar = Err AccountingOverflow"
      by (rule apply_quantum_state_errors [OF a])
    moreover have "validate_quantum_completion d i emitted progress = Ok ()"
      using True by (simp only: validate_quantum_Ok)
    then have "ar \<noteq> Err AccountingOverflow"
      using c noflow Some r a by (auto simp: complete_quantum_with_progress_def Let_def)
    ultimately show thesis using committed Some r True a by blast
  qed
qed

lemma complete_quantum_ok:
  assumes "sched_ok s" and "complete_quantum_with_progress i emitted progress ready eos s = (res, t)"
    and "res \<noteq> Err AccountingOverflow"
  shows "sched_ok t \<and> res \<noteq> Panic"
  using assms
proof (cases rule: complete_quantum_cases)
  case (committed d r q st)
  note eq = complete_quantum_run [OF committed(1,2,4,6)]
  have t: "t = snd (complete_quantum_with_progress i emitted progress ready eos s)" and "res \<noteq> Panic"
    using assms(2) eq by auto
  note P = apply_quantum_state_Ok(1,2) [OF committed(6)]
  have rok: "request_ok (cs_policy s) (cs_next_sequence s) (Some d) i r"
    using sched_okD(5) [OF assms(1) committed(2)] committed(1) by simp
  have same: "rs_sequence q = rs_sequence r" "rs_reserved_kv_bytes q = rs_reserved_kv_bytes r"
    using P(1) by (auto simp: progressed_def)
  have "sched_ok t"
    by (rule sched_ok_update [OF assms(1) committed(2) settle_request_ok [OF rok committed(3) P(1) committed(4) P(2)]])
       (use committed(3) same sched_okD(3,9) [OF assms(1)] in
         \<open>auto simp: t eq settle_def intro: order_trans [OF length_bt_remove]\<close>)
  with \<open>res \<noteq> Panic\<close> show ?thesis by simp
qed (use assms(1) in simp)

end
