(* ===== verification/Scheduler_Admission.thy ===== *)
theory Scheduler_Admission
  imports Scheduler_Ops
begin

text \<open>
  Admission: what the page-rounded reservation is, when a request is accepted, and that
  every branch of \<open>admit\<close> keeps the invariant.
\<close>

section \<open>The reservation\<close>

definition reserved_tokens :: "RequestSpec \<Rightarrow> nat" where
  "reserved_tokens sx =
     unat (sx_prompt_tokens sx) - unat (sx_prefix_reused_tokens sx) + unat (sx_max_output_tokens sx)"

definition page_rounded :: "nat \<Rightarrow> nat \<Rightarrow> nat" where
  "page_rounded page n = (n + page - 1) div page * page"

lemma page_rounded_ge: "0 < page \<Longrightarrow> n \<le> page_rounded page n"
proof -
  assume "0 < page"
  then have "n + page - 1 = (n + page - 1) div page * page + (n + page - 1) mod page"
    and "(n + page - 1) mod page < page" by simp_all
  then show ?thesis unfolding page_rounded_def by linarith
qed

lemma page_rounded_lt: "0 < page \<Longrightarrow> page_rounded page n < n + page"
  unfolding page_rounded_def by (rule le_less_trans [OF div_times_less_eq_dividend]) simp

lemma page_rounded_dvd: "page dvd page_rounded page n"
  by (simp add: page_rounded_def)

lemma unat_pred: "p \<noteq> 0 \<Longrightarrow> unat (p - 1) = unat p - 1"
  for p :: "'a::len word"
  using unat_wrap_sub [of 1 p] by (cases "LENGTH('a) = 0") (auto simp: word_le_nat_alt unat_gt_0 Suc_le_eq)

lemma reservation_bytes_Ok:
  assumes "reservation_bytes p sx = Ok b" and "sp_kv_page_tokens p \<noteq> 0"
  shows "unat b = page_rounded (unat (sp_kv_page_tokens p)) (reserved_tokens sx) * unat (sp_kv_bytes_per_token p)"
    and "sx_prefix_reused_tokens sx \<le> sx_prompt_tokens sx"
proof -
  from assms(1) obtain t0 t1 t2 pages t3 where
    t0: "checked_sub (sx_prompt_tokens sx) (sx_prefix_reused_tokens sx) = Some t0" and
    t1: "checked_add t0 (sx_max_output_tokens sx) = Some t1" and
    t2: "checked_add t1 (sp_kv_page_tokens p - 1) = Some t2" and
    pages: "checked_div t2 (sp_kv_page_tokens p) = Some pages" and
    t3: "checked_mul pages (sp_kv_page_tokens p) = Some t3" and
    b: "checked_mul t3 (sp_kv_bytes_per_token p) = Some b"
    by (auto simp: reservation_bytes_def and_then_eq_Ok bind_eq_Some_conv)
  have n: "unat t1 = reserved_tokens sx"
    using checked_sub_unat [OF t0] checked_add_unat [OF t1] by (simp add: reserved_tokens_def)
  have "0 < unat (sp_kv_page_tokens p)" using assms(2) by (simp add: unat_gt_0_iff)
  then have "unat t2 = reserved_tokens sx + unat (sp_kv_page_tokens p) - 1"
    using checked_add_unat [OF t2] n unat_pred [OF assms(2)] by simp
  then show "unat b = page_rounded (unat (sp_kv_page_tokens p)) (reserved_tokens sx) * unat (sp_kv_bytes_per_token p)"
    using checked_div_unat [OF pages] checked_mul_unat [OF t3] checked_mul_unat [OF b]
    by (simp add: page_rounded_def)
  show "sx_prefix_reused_tokens sx \<le> sx_prompt_tokens sx"
    using t0 by (simp add: checked_sub_def split: if_splits)
qed

lemma reservation_bytes_fits:
  assumes "sp_kv_page_tokens p \<noteq> 0" and "sp_kv_bytes_per_token p \<noteq> 0"
    and "sx_prefix_reused_tokens sx \<le> sx_prompt_tokens sx"
    and "reserved_tokens sx + unat (sp_kv_page_tokens p) \<le> 2 ^ 64"
    and "page_rounded (unat (sp_kv_page_tokens p)) (reserved_tokens sx) * unat (sp_kv_bytes_per_token p) < 2 ^ 64"
  shows "\<exists>b. reservation_bytes p sx = Ok b"
proof -
  let ?page = "sp_kv_page_tokens p"
  have page: "0 < unat ?page" using assms(1) by (simp add: unat_gt_0_iff)
  obtain t0 where t0: "checked_sub (sx_prompt_tokens sx) (sx_prefix_reused_tokens sx) = Some t0"
    using assms(3) by (simp add: checked_sub_def)
  have "unat t0 + unat (sx_max_output_tokens sx) < 2 ^ 64"
    using assms(4) page checked_sub_unat [OF t0] by (simp add: reserved_tokens_def)
  then obtain t1 where t1: "checked_add t0 (sx_max_output_tokens sx) = Some t1"
    by (simp add: checked_add_def)
  have n: "unat t1 = reserved_tokens sx"
    using checked_sub_unat [OF t0] checked_add_unat [OF t1] by (simp add: reserved_tokens_def)
  have "unat t1 + unat (?page - 1) < 2 ^ 64"
    using assms(4) page unat_pred [OF assms(1)] n by simp
  then obtain t2 where t2: "checked_add t1 (?page - 1) = Some t2" by (simp add: checked_add_def)
  have n2: "unat t2 = reserved_tokens sx + unat ?page - 1"
    using checked_add_unat [OF t2] n unat_pred [OF assms(1)] page by simp
  obtain pages where pages: "checked_div t2 ?page = Some pages" using assms(1) by (simp add: checked_div_def)
  have n3: "unat pages * unat ?page = page_rounded (unat ?page) (reserved_tokens sx)"
    using checked_div_unat [OF pages] n2 by (simp add: page_rounded_def)
  have "1 \<le> unat (sp_kv_bytes_per_token p)" using assms(2) by (simp add: unat_gt_0_iff Suc_le_eq)
  then have "page_rounded (unat ?page) (reserved_tokens sx) < 2 ^ 64"
    using assms(5) mult_le_mono2 [of 1 "unat (sp_kv_bytes_per_token p)" "page_rounded (unat ?page) (reserved_tokens sx)"]
    by linarith
  then obtain t3 where t3: "checked_mul pages ?page = Some t3" using n3 by (simp add: checked_mul_def)
  have "unat t3 * unat (sp_kv_bytes_per_token p) < 2 ^ 64"
    using assms(5) n3 checked_mul_unat [OF t3] by simp
  then obtain b where "checked_mul t3 (sp_kv_bytes_per_token p) = Some b" by (simp add: checked_mul_def)
  then show ?thesis using t0 t1 t2 pages t3 by (simp add: reservation_bytes_def)
qed

lemma reservation_bytes_sum:
  assumes "reservation_bytes p sx = Ok b" and "sp_kv_page_tokens p \<noteq> 0"
  shows "reserved_tokens sx + unat (sp_kv_page_tokens p) \<le> 2 ^ 64"
proof -
  from assms(1) obtain t0 t1 t2 where
    t0: "checked_sub (sx_prompt_tokens sx) (sx_prefix_reused_tokens sx) = Some t0" and
    t1: "checked_add t0 (sx_max_output_tokens sx) = Some t1" and
    t2: "checked_add t1 (sp_kv_page_tokens p - 1) = Some t2"
    by (auto simp: reservation_bytes_def and_then_eq_Ok bind_eq_Some_conv)
  have "unat t1 + unat (sp_kv_page_tokens p - 1) < 2 ^ 64"
    using checked_add_unat [OF t2] unat_lt_2p [of t2] by simp
  then show ?thesis
    using checked_sub_unat [OF t0] checked_add_unat [OF t1] unat_pred [OF assms(2)]
    by (simp add: reserved_tokens_def)
qed

lemma reservation_bytes_no_panic: "reservation_bytes p sx \<noteq> Panic"
  unfolding reservation_bytes_def by (intro and_then_no_panic) auto

lemma reservation_bytes_errors: "reservation_bytes p sx = Err e \<Longrightarrow> e = AccountingOverflow"
  unfolding reservation_bytes_def
  by (auto simp: ok_or_def and_then_eq_Ok split: option.splits)

section \<open>The decision\<close>

definition admissible :: "ContinuousScheduler \<Rightarrow> RequestSpec \<Rightarrow> u64 \<Rightarrow> u64 \<Rightarrow> bool" where
  "admissible s sx now b \<longleftrightarrow>
     basic_admission_rejection (cs_policy s) sx now = None \<and>
     fst (request_counts s) < unat (sp_max_active_requests (cs_policy s)) \<and>
     snd (request_counts s) < unat (sp_max_queued_requests (cs_policy s)) \<and>
     reservation_bytes (cs_policy s) sx = Ok b \<and>
     unat (cs_reserved_kv_bytes s) + unat b \<le> unat (sp_max_reserved_kv_bytes (cs_policy s))"

lemma admission_rejection_None:
  "admission_rejection s sx now = Ok None \<longleftrightarrow> (\<exists>b. admissible s sx now b)"
proof
  assume "admission_rejection s sx now = Ok None"
  then obtain b c where "basic_admission_rejection (cs_policy s) sx now = None"
    "fst (request_counts s) < unat (sp_max_active_requests (cs_policy s))"
    "snd (request_counts s) < unat (sp_max_queued_requests (cs_policy s))"
    "reservation_bytes (cs_policy s) sx = Ok b" "checked_add (cs_reserved_kv_bytes s) b = Some c"
    "c \<le> sp_max_reserved_kv_bytes (cs_policy s)"
    by (auto simp: admission_rejection_def and_then_eq_Ok Let_def not_less not_le
        split: option.splits prod.splits if_splits)
  then show "\<exists>b. admissible s sx now b"
    using checked_add_unat by (fastforce simp: admissible_def word_le_nat_alt)
next
  assume "\<exists>b. admissible s sx now b"
  then obtain b where b: "admissible s sx now b" by blast
  then have fit: "unat (cs_reserved_kv_bytes s) + unat b < 2 ^ 64"
    using unat_lt_2p [of "sp_max_reserved_kv_bytes (cs_policy s)"] by (simp add: admissible_def)
  then have add: "checked_add (cs_reserved_kv_bytes s) b = Some (cs_reserved_kv_bytes s + b)"
    by (simp add: checked_add_def)
  have "cs_reserved_kv_bytes s + b \<le> sp_max_reserved_kv_bytes (cs_policy s)"
    using b checked_add_unat [OF add] unfolding word_le_nat_alt by (simp add: admissible_def)
  then show "admission_rejection s sx now = Ok None"
    using b add by (auto simp: admission_rejection_def admissible_def Let_def not_le split: prod.splits)
qed

lemma admission_rejection_no_panic: "admission_rejection s sx now \<noteq> Panic"
  using reservation_bytes_no_panic [of "cs_policy s" sx]
  by (cases "reservation_bytes (cs_policy s) sx")
     (auto simp: admission_rejection_def Let_def ok_or_def split: option.splits prod.splits)

lemma basic_admission_None:
  "basic_admission_rejection p sx now = None \<longleftrightarrow>
     sx_prefix_reused_tokens sx \<le> sx_prompt_tokens sx \<and> sx_prompt_tokens sx \<le> sp_max_prompt_tokens p \<and>
     sx_max_output_tokens sx \<noteq> 0 \<and> sx_max_output_tokens sx \<le> sp_max_output_tokens p \<and>
     sx_priority sx \<noteq> 0 \<and> sx_priority sx \<le> 100 \<and>
     (\<forall>d. sx_deadline_ns sx = Some d \<longrightarrow> now < d)"
  by (auto simp: basic_admission_rejection_def not_less not_le split: option.splits if_splits)

section \<open>Inserting a request\<close>

lemma sched_ok_insert:
  assumes ok: "sched_ok s" and fresh: "bt_get (cs_requests s) i = None"
    and seq: "rs_sequence r = cs_next_sequence s" and id: "sx_id (rs_spec r) = i"
    and nxt: "unat (cs_next_sequence t) = unat (cs_next_sequence s) + 1"
    and tok: "tokens_ok (cs_policy s) r" and st: "rs_status r \<noteq> Running" "\<not> rs_cancellation_requested r"
    and res: "unat (cs_reserved_kv_bytes t) = unat (cs_reserved_kv_bytes s) + unat (rs_reserved_kv_bytes r)"
      "cs_reserved_kv_bytes t \<le> sp_max_reserved_kv_bytes (cs_policy s)"
    and act: "total active_weight (bt_entries (cs_requests s)) + active_weight r
      \<le> unat (sp_max_active_requests (cs_policy s))"
    and t: "cs_policy t = cs_policy s" "cs_running t = cs_running s"
      "cs_requests t = bt_insert i r (cs_requests s)"
  shows "sched_ok t"
proof -
  note D = sched_okD [OF ok]
  have older: "cs_next_sequence s < cs_next_sequence t"
    using nxt by (simp add: word_less_nat_alt)
  have idle: "bt_get (cs_running s) i = None"
    using D(4) fresh by (auto simp: dom_def)
  have new: "request_ok (cs_policy s) (cs_next_sequence t) None i r"
    using older tok st id seq by (simp add: request_ok_def phase_ok_def)
  have each: "\<forall>j q. bt_get (cs_requests t) j = Some q \<longrightarrow>
      request_ok (cs_policy t) (cs_next_sequence t) (bt_get (cs_running t) j) j q"
    using D(5) new idle older by (auto simp: t request_ok_def intro: less_trans)
  have below: "rs_sequence q < cs_next_sequence s" if "bt_get (cs_requests s) j = Some q" for j q
    using D(5) [OF that] by (simp add: request_ok_def)
  have seqs: "\<forall>j k q u. bt_get (cs_requests t) j = Some q \<longrightarrow> bt_get (cs_requests t) k = Some u \<longrightarrow>
      rs_sequence q = rs_sequence u \<longrightarrow> j = k"
    using sched_ok_distinct_sequences [OF ok] below seq
    by (auto simp: t split: if_splits) (metis order_less_irrefl)+
  have ledger: "unat (cs_reserved_kv_bytes t) = total reserved_weight (bt_entries (cs_requests t))"
    using bt.total_insert_new [OF D(2) fresh, of reserved_weight r] D(6) res(1)
    by (simp add: t reserved_weight_def)
  have bound: "cs_reserved_kv_bytes t \<le> sp_max_reserved_kv_bytes (cs_policy t)" using res(2) t by simp
  have active: "total active_weight (bt_entries (cs_requests t)) \<le> unat (sp_max_active_requests (cs_policy t))"
    using bt.total_insert_new [OF D(2) fresh, of active_weight r] act by (simp add: t)
  have dom: "dom (bt_get (cs_running t)) \<subseteq> dom (bt_get (cs_requests t))" using D(4) by (auto simp: t)
  have maps: "policy_ok (cs_policy t)" "bt_ok (cs_requests t)" "bt_ok (cs_running t)"
    "length (cs_running t) \<le> unat (sp_max_batch_requests (cs_policy t))"
    using D(1,2,3,9) by (simp_all add: t)
  show ?thesis
    unfolding sched_ok_def by (intro conjI maps dom each seqs ledger bound active)
qed

lemma request_counts_totals:
  "request_counts s = (total active_weight (bt_entries (cs_requests s)),
     length (queued_requests s))"
proof -
  have "(\<lambda>r. if \<not> is_terminal (rs_status r) then 1 else 0) = active_weight"
    by (simp add: active_weight_def fun_eq_iff)
  then show ?thesis
    by (simp add: request_counts_def queued_requests_def length_filter_total bt_entries_def)
qed

section \<open>Every branch of admit\<close>

definition new_request :: "ContinuousScheduler \<Rightarrow> RequestSpec \<Rightarrow> RequestStatus \<Rightarrow> u64 \<Rightarrow> u64 \<Rightarrow> RequestState" where
  "new_request s sx status b prefill =
     \<lparr>rs_spec = sx, rs_status = status, rs_reserved_kv_bytes = b, rs_remaining_prefill_tokens = prefill,
      rs_remaining_tokens = sx_max_output_tokens sx, rs_emitted_tokens = 0,
      rs_virtual_runtime = saturating_sub (base_runtime s) (prefix_credit (cs_policy s) sx),
      rs_sequence = cs_next_sequence s, rs_cancellation_requested = False\<rparr>"

definition attempted :: "ContinuousScheduler \<Rightarrow> ContinuousScheduler" where
  "attempted s = s\<lparr>cs_stats := (cs_stats s)\<lparr>st_admission_attempts := st_admission_attempts (cs_stats s) + 1\<rparr>\<rparr>"

lemma attempted_simps [simp]:
  "cs_policy (attempted s) = cs_policy s" "cs_requests (attempted s) = cs_requests s"
  "cs_running (attempted s) = cs_running s" "cs_reserved_kv_bytes (attempted s) = cs_reserved_kv_bytes s"
  "cs_next_sequence (attempted s) = cs_next_sequence s" "cs_expired (attempted s) = cs_expired s"
  "sched_ok (attempted s) = sched_ok s" "admissible (attempted s) sx now b = admissible s sx now b"
  "new_request (attempted s) = new_request s" "admission_rejection (attempted s) = admission_rejection s"
  by (auto simp: attempted_def admissible_def request_counts_def new_request_def base_runtime_def
      admission_rejection_def fun_eq_iff cong: option.case_cong)

lemma insert_request_unfold:
  "insert_request sx (Some reason) s =
     (let s1 = s\<lparr>cs_requests := bt_insert (sx_id sx) (new_request s sx Rejected 0 0) (cs_requests s)\<rparr>
      in try_pure (ok_or (checked_add (cs_next_sequence s) 1) AccountingOverflow) s1 (\<lambda>n.
         (Ok 0, s1\<lparr>cs_next_sequence := n\<rparr>)))"
  "insert_request sx None s =
     try_pure (reservation_bytes (cs_policy s) sx) s (\<lambda>b.
     try_pure (ok_or (checked_sub (sx_prompt_tokens sx) (sx_prefix_reused_tokens sx)) AccountingOverflow) s (\<lambda>prefill.
     let s1 = s\<lparr>cs_requests := bt_insert (sx_id sx) (new_request s sx Queued b prefill) (cs_requests s)\<rparr>
     in try_pure (ok_or (checked_add (cs_next_sequence s) 1) AccountingOverflow) s1 (\<lambda>n.
        (Ok b, s1\<lparr>cs_next_sequence := n\<rparr>))))"
  by (simp_all add: insert_request_def new_request_def)

lemma admit_cases:
  assumes "admit sx now s = (res, t)" and "res \<noteq> Err AccountingOverflow"
  obtains (known) "bt_contains (cs_requests s) (sx_id sx)" "res = Err (DuplicateRequest (sx_id sx))" "t = s"
  | (future) "now < sx_arrival_ns sx" "res = Err (FutureArrival (sx_id sx))" "t = s"
  | (refused) reason n where "bt_get (cs_requests s) (sx_id sx) = None" "res = Ok (RejectedFor reason)"
      "admission_rejection s sx now = Ok (Some reason)" "checked_add (cs_next_sequence s) 1 = Some n"
      "cs_requests t = bt_insert (sx_id sx) (new_request s sx Rejected 0 0) (cs_requests s)"
      "cs_next_sequence t = n" "cs_policy t = cs_policy s" "cs_running t = cs_running s"
      "cs_reserved_kv_bytes t = cs_reserved_kv_bytes s" "cs_expired t = cs_expired s"
  | (admitted) b n p where "bt_get (cs_requests s) (sx_id sx) = None" "res = Ok (Admitted b)"
      "admissible s sx now b" "checked_add (cs_next_sequence s) 1 = Some n"
      "checked_sub (sx_prompt_tokens sx) (sx_prefix_reused_tokens sx) = Some p"
      "cs_requests t = bt_insert (sx_id sx) (new_request s sx Queued b p) (cs_requests s)"
      "cs_next_sequence t = n" "cs_policy t = cs_policy s" "cs_running t = cs_running s"
      "checked_add (cs_reserved_kv_bytes s) b = Some (cs_reserved_kv_bytes t)" "cs_expired t = cs_expired s"
proof (cases "bt_contains (cs_requests s) (sx_id sx) \<or> now < sx_arrival_ns sx")
  case True
  then show thesis using assms known future by (auto simp: admit_def split: if_splits)
next
  case False
  then have fresh: "bt_get (cs_requests s) (sx_id sx) = None" by (simp add: bt_contains_def)
  have eq: "admit sx now s = try_pure (admission_rejection s sx now) (attempted s) (\<lambda>rejection.
     try_st (insert_request sx rejection (attempted s)) (\<lambda>b s2. case rejection of
       Some reason \<Rightarrow> (Ok (RejectedFor reason),
         s2\<lparr>cs_stats := (cs_stats s2)\<lparr>st_rejected_requests := st_rejected_requests (cs_stats s2) + 1\<rparr>\<rparr>)
     | None \<Rightarrow> try_pure (ok_or (checked_add (cs_reserved_kv_bytes s2) b) AccountingOverflow) s2 (\<lambda>reserved.
         (Ok (Admitted b), update_high_watermarks (s2\<lparr>cs_reserved_kv_bytes := reserved,
            cs_stats := (cs_stats s2)\<lparr>st_admitted_requests := st_admitted_requests (cs_stats s2) + 1\<rparr>\<rparr>)))))"
    using False unfolding admit_def Let_def attempted_def [symmetric] by simp
  show thesis
  proof (cases "admission_rejection s sx now")
    case (Ok rejection)
    show thesis
    proof (cases rejection)
      case (Some reason)
      then obtain n where n: "checked_add (cs_next_sequence s) 1 = Some n"
        using assms Ok by (cases "checked_add (cs_next_sequence s) 1") (auto simp: eq insert_request_unfold Let_def)
      show thesis
        by (rule refused [of reason n]) (use assms Ok Some n fresh in \<open>auto simp: eq insert_request_unfold Let_def\<close>)
    next
      case None
      then obtain b where b: "admissible s sx now b" "reservation_bytes (cs_policy s) sx = Ok b"
        using Ok admission_rejection_None [of s sx now] by (auto simp: admissible_def)
      obtain n where n: "checked_add (cs_next_sequence s) 1 = Some n"
        using assms Ok None b by (cases "checked_add (cs_next_sequence s) 1")
          (auto simp: eq insert_request_unfold Let_def try_pure_cases ok_or_def split: option.splits)
      obtain p where p: "checked_sub (sx_prompt_tokens sx) (sx_prefix_reused_tokens sx) = Some p"
        using assms Ok None b by (cases "checked_sub (sx_prompt_tokens sx) (sx_prefix_reused_tokens sx)")
          (auto simp: eq insert_request_unfold Let_def)
      obtain c where c: "checked_add (cs_reserved_kv_bytes s) b = Some c"
        using assms Ok None b n p by (cases "checked_add (cs_reserved_kv_bytes s) b")
          (auto simp: eq insert_request_unfold Let_def)
      show thesis
        by (rule admitted [of b n p])
           (use assms Ok None b n p c fresh in \<open>auto simp: eq insert_request_unfold update_high_watermarks_def Let_def\<close>)
    qed
  next
    case (Err e)
    then have "e = AccountingOverflow"
      using reservation_bytes_errors by (cases "reservation_bytes (cs_policy s) sx")
        (auto simp: admission_rejection_def Let_def ok_or_def split: option.splits prod.splits if_splits)
    then show thesis using assms Err by (auto simp: eq)
  next
    case Panic
    then show thesis using admission_rejection_no_panic by blast
  qed
qed

lemma admit_admissible:
  assumes "bt_get (cs_requests s) (sx_id sx) = None" and "sx_arrival_ns sx \<le> now" and a: "admissible s sx now b"
    and "unat (cs_next_sequence s) + 1 < 2 ^ 64"
  shows "fst (admit sx now s) = Ok (Admitted b)"
proof -
  have r: "admission_rejection s sx now = Ok None" "reservation_bytes (cs_policy s) sx = Ok b"
    using a admission_rejection_None [of s sx now] by (auto simp: admissible_def)
  have "sx_prefix_reused_tokens sx \<le> sx_prompt_tokens sx"
    using a by (simp add: admissible_def basic_admission_None)
  then obtain p where p: "checked_sub (sx_prompt_tokens sx) (sx_prefix_reused_tokens sx) = Some p"
    by (simp add: checked_sub_def)
  obtain n where n: "checked_add (cs_next_sequence s) 1 = Some n"
    using assms(4) by (simp add: checked_add_def)
  have "unat (cs_reserved_kv_bytes s) + unat b < 2 ^ 64"
    using a unat_lt_2p [of "sp_max_reserved_kv_bytes (cs_policy s)"] by (simp add: admissible_def)
  then obtain c where c: "checked_add (cs_reserved_kv_bytes s) b = Some c" by (simp add: checked_add_def)
  show ?thesis
    unfolding admit_def attempted_def [symmetric] Let_def
    using assms(1,2) r p n c by (simp add: bt_contains_def insert_request_unfold)
qed

lemma new_sequence: "checked_add (n :: u64) 1 = Some m \<Longrightarrow> unat m = unat n + 1"
  using checked_add_unat [of n 1 m] by simp

lemma admitted_tokens_ok:
  assumes "policy_ok (cs_policy s)" and "admissible s sx now b"
    and "checked_sub (sx_prompt_tokens sx) (sx_prefix_reused_tokens sx) = Some p"
  shows "tokens_ok (cs_policy s) (new_request s sx Queued b p)"
proof -
  have page: "sp_kv_page_tokens (cs_policy s) \<noteq> 0" and res: "reservation_bytes (cs_policy s) sx = Ok b"
    using assms(1,2) by (auto simp: policy_ok_def admissible_def)
  have n: "reserved_tokens sx = unat p + unat (sx_max_output_tokens sx)"
    using checked_sub_unat [OF assms(3)] by (simp add: reserved_tokens_def)
  have "reserved_tokens sx \<le> page_rounded (unat (sp_kv_page_tokens (cs_policy s))) (reserved_tokens sx)"
    using page by (intro page_rounded_ge) (simp add: unat_gt_0_iff)
  then have "(unat p + unat (sx_max_output_tokens sx)) * unat (sp_kv_bytes_per_token (cs_policy s)) \<le> unat b"
    unfolding reservation_bytes_Ok(1) [OF res page] n by (rule mult_le_mono1)
  then show ?thesis
    using assms(2) by (simp add: tokens_ok_def new_request_def admissible_def basic_admission_None unat_gt_0)
qed

lemma admit_ok:
  assumes "sched_ok s" and "admit sx now s = (res, t)" and "res \<noteq> Err AccountingOverflow"
  shows "sched_ok t \<and> res \<noteq> Panic"
  using assms(2,3)
proof (cases rule: admit_cases)
  case (refused reason n)
  have "sched_ok t"
    by (rule sched_ok_insert [OF assms(1) refused(1), where r = "new_request s sx Rejected 0 0"])
       (use refused new_sequence [OF refused(4)] sched_okD(7,8) [OF assms(1)] in
         \<open>simp_all add: new_request_def tokens_ok_def active_weight_def\<close>)
  with refused(2) show ?thesis by simp
next
  case (admitted b n p)
  have "cs_reserved_kv_bytes t \<le> sp_max_reserved_kv_bytes (cs_policy s)"
    using admitted(3) checked_add_unat [OF admitted(10)] unfolding word_le_nat_alt by (simp add: admissible_def)
  moreover have "total active_weight (bt_entries (cs_requests s)) < unat (sp_max_active_requests (cs_policy s))"
    using admitted(3) by (simp add: admissible_def request_counts_totals)
  ultimately have "sched_ok t"
    using admitted admitted_tokens_ok [OF sched_okD(1) [OF assms(1)] admitted(3,5)]
      new_sequence [OF admitted(4)] checked_add_unat [OF admitted(10)]
    by (intro sched_ok_insert [OF assms(1) admitted(1), where r = "new_request s sx Queued b p"])
       (simp_all add: new_request_def active_weight_def)
  with admitted(2) show ?thesis by simp
qed (use assms(1) in simp_all)

end
