(* ===== verification/Scheduler_Machine.thy ===== *)
theory Scheduler_Machine
  imports Scheduler_Admission
begin

text \<open>
  The scheduler as a whole: the comparison is a lawful order (interpretation \<open>cr\<close>), the
  public operations form one step relation, and that relation is a bounded machine
  (interpretation \<open>sched\<close>): reserved KV bytes never exceed the policy. A step is any
  public call that does not report \<open>AccountingOverflow\<close>; a caller that continues after
  that error continues from a state the code itself declares unaccounted.
\<close>

section \<open>The order of the queue\<close>

lemma compare_requests_lawful: "comparison (compare_requests now p) A"
  unfolding compare_requests_def Let_def
  by (rule comparison_split) (intro comparison_then_with comparison_key comparison_key_desc comparison_key_option)+

interpretation cr: comparison "compare_requests now p" UNIV for now p
  by (rule compare_requests_lawful)

lemma compare_requests_Equal: "compare_requests now p x y = Equal \<Longrightarrow> rs_sequence x = rs_sequence y"
  by (auto simp: compare_requests_def Let_def then_with_Equal split: if_splits)

section \<open>The operations as one step relation\<close>

definition sched_start :: "ContinuousScheduler \<Rightarrow> bool" where
  "sched_start s \<longleftrightarrow> scheduler_new (cs_policy s) = Ok s"

inductive sched_step :: "ContinuousScheduler \<Rightarrow> ContinuousScheduler \<Rightarrow> bool" where
  step_admit: "admit sx now s = (res, t) \<Longrightarrow> res \<noteq> Err AccountingOverflow \<Longrightarrow> sched_step s t"
| step_dispatch: "dispatch_batch now limit s = (dres, t) \<Longrightarrow> dres \<noteq> Err AccountingOverflow \<Longrightarrow> sched_step s t"
| step_progress: "complete_quantum_with_progress i emitted progress ready eos s = (cres, t) \<Longrightarrow>
    cres \<noteq> Err AccountingOverflow \<Longrightarrow> sched_step s t"
| step_abort: "abort_quantum i s = (ares, t) \<Longrightarrow> sched_step s t"
| step_cancel: "cancel i s = (ares, t) \<Longrightarrow> sched_step s t"
| step_prune: "sched_step s (prune_terminal s)"
| step_take: "sched_step s (snd (take_expired_deadlines s))"

inductive_cases sched_stepE: "sched_step s t"

lemma step_dispatch_one: "dispatch_one now s = (res, t) \<Longrightarrow> res \<noteq> Err AccountingOverflow \<Longrightarrow> sched_step s t"
  by (cases "dispatch_batch now 1 s"; cases "fst (dispatch_batch now 1 s)")
     (auto simp: dispatch_one_def intro!: step_dispatch [of now 1])

lemma step_complete: "complete_quantum i emitted eos s = (res, t) \<Longrightarrow> res \<noteq> Err AccountingOverflow \<Longrightarrow>
    sched_step\<^sup>*\<^sup>* s t"
  by (auto simp: complete_quantum_def try_pure_cases split: outcome.splits if_splits
      intro: r_into_rtranclp step_progress)

lemma expire_ids_policy: "expire_ids ids s = (res, t) \<Longrightarrow> cs_policy t = cs_policy s"
  by (induction ids s rule: expire_ids.induct) (auto simp: try_pure_cases expect_def split: outcome.splits option.splits)

lemma start_batch_policy: "start_batch ids now s = (res, t) \<Longrightarrow> cs_policy t = cs_policy s"
proof (induction ids arbitrary: s res t)
  case (Cons i ids)
  then show ?case
    by (fastforce simp: try_pure_cases try_st_cases Let_def split: outcome.splits prod.splits)
qed simp

lemma dispatch_batch_policy:
  assumes "dispatch_batch now limit s = (res, t)"
  shows "cs_policy t = cs_policy s"
proof -
  obtain r1 u1 where e: "expire_deadlines now s = (r1, u1)" by fastforce
  obtain r2 u2 where st: "start_batch (batch_ids now limit u1) now u1 = (r2, u2)" by fastforce
  obtain r3 u3 where rec: "record_batch_dispatch (case r2 of Ok ds \<Rightarrow> ds | _ \<Rightarrow> []) u2 = (r3, u3)" by fastforce
  have "cs_policy u1 = cs_policy s" "cs_policy u2 = cs_policy u1" "cs_policy u3 = cs_policy u2"
    using e expire_ids_policy start_batch_policy [OF st] record_batch_dispatch_frame [OF rec]
    by (auto simp: expire_deadlines_def)
  moreover have "t \<in> {s, u1, u2, u3}"
    using assms e st rec unfolding dispatch_batch_def batch_ids_def [symmetric] Let_def
    by (cases "check_dispatch_state limit s"; cases r1; cases r2; cases r3) auto
  ultimately show ?thesis by auto
qed

lemma complete_quantum_policy:
  "complete_quantum_with_progress i emitted progress ready eos s = (res, t) \<Longrightarrow> cs_policy t = cs_policy s"
  by (auto simp: complete_quantum_with_progress_def try_pure_cases Let_def split: outcome.splits prod.splits if_splits)

lemma admit_policy:
  assumes "admit sx now s = (res, t)" and "res \<noteq> Err AccountingOverflow"
  shows "cs_policy t = cs_policy s"
  using assms by (cases rule: admit_cases) auto

lemma sched_step_policy: "sched_step s t \<Longrightarrow> cs_policy t = cs_policy s"
proof (induction rule: sched_step.induct)
  case (step_abort i s res t)
  then show ?case by (auto simp: abort_quantum_def try_pure_cases split: outcome.splits)
next
  case (step_cancel i s res t)
  then show ?case by (auto simp: cancel_def try_pure_cases split: outcome.splits if_splits)
qed (auto simp: admit_policy dispatch_batch_policy complete_quantum_policy prune_terminal_def take_expired_deadlines_def)

lemma sched_step_ok: "sched_step s t \<Longrightarrow> sched_ok s \<Longrightarrow> sched_ok t"
  by (induction rule: sched_step.induct)
     (auto dest: admit_ok dispatch_batch_ok complete_quantum_ok abort_quantum_ok cancel_ok
       simp: prune_terminal_ok take_expired_deadlines_def)

interpretation sched: bounded_machine sched_start sched_step sched_ok
    "\<lambda>s. unat (cs_reserved_kv_bytes s)" "\<lambda>s. unat (sp_max_reserved_kv_bytes (cs_policy s))"
proof unfold_locales
  fix s t
  show "sched_start s \<Longrightarrow> sched_ok s" by (auto simp: sched_start_def dest: scheduler_new_ok)
  show "sched_ok s \<Longrightarrow> sched_step s t \<Longrightarrow> sched_ok t" by (rule sched_step_ok)
  show "sched_ok s \<Longrightarrow> unat (cs_reserved_kv_bytes s) \<le> unat (sp_max_reserved_kv_bytes (cs_policy s))"
    using sched_okD(7) by (simp only: word_le_nat_alt)
  show "sched_step s t \<Longrightarrow> unat (sp_max_reserved_kv_bytes (cs_policy t)) = unat (sp_max_reserved_kv_bytes (cs_policy s))"
    by (simp add: sched_step_policy)
qed

section \<open>What a successful batch dispatch did\<close>

lemma dispatch_batch_Ok_guard: "dispatch_batch now limit s = (Ok ds, t) \<Longrightarrow> cs_running s = [] \<and> limit \<noteq> 0"
  by (auto simp: dispatch_batch_def check_dispatch_state_def split: if_splits)

lemma expired_not_queued [simp]: "rs_status (expire_record r) = DeadlineExpired"
  "rs_reserved_kv_bytes (expire_record r) = 0"
  by (simp_all add: expire_record_def)

lemma dispatch_batch_Ok:
  assumes ok: "sched_ok s" and d: "dispatch_batch now limit s = (Ok ds, t)"
  obtains e where "expire_deadlines now s = (Ok (), e)" and "sched_ok e" and "cs_policy e = cs_policy s"
    and "map dp_request_id ds = batch_ids now limit e" and "\<forall>d\<in>set ds. started e now d"
    and "\<forall>d\<in>set ds. bt_get (cs_running t) (dp_request_id d) = Some d"
    and "length ds \<le> unat (min limit (sp_max_batch_requests (cs_policy s)))"
    and "\<forall>i. bt_get (cs_requests e) i = (case bt_get (cs_requests s) i of None \<Rightarrow> None
           | Some r \<Rightarrow> Some (if deadline_passed now r then expire_record r else r))"
    and "\<forall>i. bt_get (cs_requests t) i = (if i \<in> dp_request_id ` set ds
           then map_option (\<lambda>r. r\<lparr>rs_status := Running\<rparr>) (bt_get (cs_requests e) i) else bt_get (cs_requests e) i)"
    and "cs_expired t = cs_expired e" and "cs_reserved_kv_bytes t = cs_reserved_kv_bytes e"
proof -
  have g: "cs_running s = []" "limit \<noteq> 0" using dispatch_batch_Ok_guard [OF d] by auto
  obtain e fs u where run: "expire_deadlines now s = (Ok (), e)" "sched_ok e"
    "start_batch (batch_ids now limit e) now e = (Ok fs, u)" "sched_ok u"
    "dispatch_batch now limit s = (case record_batch_dispatch fs u of (r, v) \<Rightarrow> (and_then r (\<lambda>_. Ok fs), v))"
    "map dp_request_id fs = batch_ids now limit e" "\<forall>d\<in>set fs. started e now d"
    "\<forall>d\<in>set fs. bt_get (cs_running u) (dp_request_id d) = Some d"
    "length fs \<le> unat (min limit (sp_max_batch_requests (cs_policy s)))"
    "cs_policy e = cs_policy s" "cs_policy u = cs_policy s"
    by (rule dispatch_batch_run [OF ok g, of now])
  obtain r v where v: "record_batch_dispatch fs u = (r, v)" by fastforce
  have both: "(Ok ds, t) = (and_then r (\<lambda>_. Ok fs), v)" using run(5) unfolding d v by simp
  have fs: "fs = ds" "t = v" using both by (cases r; simp)+
  note frame = record_batch_dispatch_frame [OF v]
  obtain e' where E: "expire_deadlines now s = (Ok (), e')" "sched_ok e'" "cs_policy e' = cs_policy s"
    "cs_running e' = cs_running s" "cs_next_sequence e' = cs_next_sequence s"
    "st_dispatched_quanta (cs_stats e') = st_dispatched_quanta (cs_stats s)"
    "\<forall>i. bt_get (cs_requests e') i = (case bt_get (cs_requests s) i of None \<Rightarrow> None
           | Some r \<Rightarrow> Some (if deadline_passed now r then expire_record r else r))"
    "cs_expired e' = cs_expired s @ map (\<lambda>r. sx_id (rs_spec r)) (filter (deadline_passed now) (bt_values (cs_requests s)))"
    by (rule expire_deadlines_run [OF ok, of now])
  have ee: "e' = e" using run(1) E(1) by simp
  note e' = E(1) E(4) [unfolded g(1)] E(7)
  have "length (cs_running e) + length (batch_ids now limit e) \<le> unat (sp_max_batch_requests (cs_policy e))"
    using batch_ids_queued(2) [OF run(2), of now limit] e'(2) by (simp add: ee unat_min)
  from start_batch_run [OF run(2) batch_ids_queued(1) [OF run(2)] this, of now] run(3)
  have u: "\<forall>i. bt_get (cs_requests u) i = (if i \<in> set (batch_ids now limit e)
       then map_option (\<lambda>r. r\<lparr>rs_status := Running\<rparr>) (bt_get (cs_requests e) i) else bt_get (cs_requests e) i)"
    "cs_expired u = cs_expired e" "cs_reserved_kv_bytes u = cs_reserved_kv_bytes e"
    by auto
  have ids: "set (batch_ids now limit e) = dp_request_id ` set ds"
    using run(6) unfolding fs(1) by (metis set_map)
  note R = run(6-9) [unfolded fs(1)]
  have run_t: "\<forall>d\<in>set ds. bt_get (cs_running t) (dp_request_id d) = Some d"
    using R(3) frame by (simp add: fs(2))
  have req_t: "\<forall>i. bt_get (cs_requests t) i = (if i \<in> dp_request_id ` set ds
       then map_option (\<lambda>r. r\<lparr>rs_status := Running\<rparr>) (bt_get (cs_requests e) i) else bt_get (cs_requests e) i)"
    using u(1) frame unfolding ids by (simp add: fs(2))
  have rest: "cs_expired t = cs_expired e" "cs_reserved_kv_bytes t = cs_reserved_kv_bytes e"
    using u(2,3) frame by (simp_all add: fs(2))
  show thesis
    by (rule that [OF run(1,2,10) R(1,2) run_t R(4) e'(3) [unfolded ee] req_t rest])
qed

end
