(* ===== verification/Scheduler_Life.thy ===== *)
theory Scheduler_Life
  imports Scheduler_Machine
begin

text \<open>
  The life of one request. \<open>life r q\<close> relates the record of a request before and after
  a public call: its status follows an edge of the state diagram, its spec and sequence
  number stay, its counters move one way, a terminal record is final, and a cancellation
  asked of a running request is not forgotten. \<open>sched_step_life\<close> shows it of every step.
  \<open>work_left\<close> is the number of tokens a scheduler still owes; every completed quantum
  that made progress lowers it.
\<close>

section \<open>One step of one request\<close>

fun follows :: "RequestStatus \<Rightarrow> RequestStatus \<Rightarrow> bool" where
  "follows Queued b \<longleftrightarrow> b \<in> {Queued, Running, Cancelled, DeadlineExpired}"
| "follows Running b \<longleftrightarrow> b \<in> {Running, Queued, Finished, Cancelled}"
| "follows a b \<longleftrightarrow> a = b"

definition life :: "RequestState \<Rightarrow> RequestState \<Rightarrow> bool" where
  "life r q \<longleftrightarrow>
     follows (rs_status r) (rs_status q) \<and> rs_spec q = rs_spec r \<and> rs_sequence q = rs_sequence r \<and>
     unat (rs_emitted_tokens r) \<le> unat (rs_emitted_tokens q) \<and>
     unat (rs_remaining_tokens q) \<le> unat (rs_remaining_tokens r) \<and>
     unat (rs_remaining_prefill_tokens q) \<le> unat (rs_remaining_prefill_tokens r) \<and>
     unat (rs_virtual_runtime r) \<le> unat (rs_virtual_runtime q) \<and>
     (is_terminal (rs_status r) \<longrightarrow> q = r) \<and>
     (rs_status r = Running \<longrightarrow> rs_cancellation_requested r \<longrightarrow>
        rs_status q = Cancelled \<or> rs_status q = Running \<and> rs_cancellation_requested q)"

lemma follows_refl [simp]: "follows a a"
  by (cases a) auto

lemma life_refl [simp]: "life r r"
  by (simp add: life_def)

lemma life_expire: "deadline_passed now r \<Longrightarrow> life r (expire_record r)"
  by (simp add: life_def expire_record_def deadline_passed_def)

lemma life_start: "rs_status r = Queued \<Longrightarrow> life r (r\<lparr>rs_status := Running\<rparr>)"
  by (simp add: life_def)

lemma life_cancel_queued: "rs_status r = Queued \<Longrightarrow> life r (r\<lparr>rs_status := Cancelled, rs_reserved_kv_bytes := 0\<rparr>)"
  by (simp add: life_def)

lemma life_abort: "rs_status r = Running \<Longrightarrow>
    life r (r\<lparr>rs_status := Cancelled, rs_cancellation_requested := False, rs_reserved_kv_bytes := 0\<rparr>)"
  by (simp add: life_def)

lemma life_flag: "rs_status r = Running \<Longrightarrow> life r (r\<lparr>rs_cancellation_requested := True\<rparr>)"
  by (simp add: life_def)

lemma life_progress:
  assumes "rs_status r = Running" and "dispatch_ok p d i r" and "quantum_valid d emitted progress"
    and "apply_quantum_state d emitted progress ready eos (r, st) = (Ok (), q, st')"
  shows "life r (settle q)"
proof -
  note P = apply_quantum_state_Ok [OF assms(4)]
  note B = progressed_bounds [OF P(1) assms(3,2)]
  have "unat (rs_emitted_tokens r) \<le> unat (rs_emitted_tokens q)" using B(1,2) by linarith
  moreover have "rs_status q \<in> {Cancelled, Queued, Finished}"
    "rs_cancellation_requested r \<Longrightarrow> rs_status q = Cancelled"
    unfolding P(2) by (rule status_after_cases(1), rule status_after_cases(2))
  ultimately show ?thesis
    using assms(1) P(1,4) B(2,3) by (auto simp: life_def settle_def progressed_def)
qed

section \<open>The step relation\<close>

lemma dispatch_batch_refused:
  assumes "sched_ok s" and "dispatch_batch now limit s = (Err e, t)" and "e \<noteq> AccountingOverflow"
  shows "t = s"
proof (cases "cs_running s = [] \<and> limit \<noteq> 0")
  case True
  then obtain ds u where u: "dispatch_batch now limit s =
      (case record_batch_dispatch ds u of (r, u) \<Rightarrow> (and_then r (\<lambda>_. Ok ds), u))"
    using dispatch_batch_run [OF assms(1), of limit now] by metis
  have "fst (record_batch_dispatch ds u) \<in> {Ok (), Err AccountingOverflow}"
    by (cases "checked_add (st_dispatched_quanta (cs_stats u)) (word_of_usize (length ds) :: u64)")
       (auto simp: record_batch_dispatch_def Let_def)
  then show ?thesis
    using u assms(2,3) by (cases "record_batch_dispatch ds u") auto
next
  case False
  then show ?thesis
    using assms(2) by (auto simp: dispatch_batch_def check_dispatch_state_def split: if_splits)
qed

lemma dispatch_life:
  assumes ok: "sched_ok s" and d: "dispatch_batch now limit s = (Ok ds, t)"
    and r: "bt_get (cs_requests s) i = Some r" and q: "bt_get (cs_requests t) i = Some q"
  shows "life r q"
proof -
  obtain e where e: "expire_deadlines now s = (Ok (), e)" "sched_ok e" "cs_policy e = cs_policy s"
    "map dp_request_id ds = batch_ids now limit e" "\<forall>d\<in>set ds. started e now d"
    "\<forall>d\<in>set ds. bt_get (cs_running t) (dp_request_id d) = Some d"
    "length ds \<le> unat (min limit (sp_max_batch_requests (cs_policy s)))"
    "\<forall>i. bt_get (cs_requests e) i = (case bt_get (cs_requests s) i of None \<Rightarrow> None
           | Some r \<Rightarrow> Some (if deadline_passed now r then expire_record r else r))"
    "\<forall>i. bt_get (cs_requests t) i = (if i \<in> dp_request_id ` set ds
           then map_option (\<lambda>r. r\<lparr>rs_status := Running\<rparr>) (bt_get (cs_requests e) i) else bt_get (cs_requests e) i)"
    "cs_expired t = cs_expired e" "cs_reserved_kv_bytes t = cs_reserved_kv_bytes e"
    by (rule dispatch_batch_Ok [OF ok d])
  have re: "bt_get (cs_requests e) i = Some (if deadline_passed now r then expire_record r else r)"
    using r by (simp add: e(8))
  show ?thesis
  proof (cases "i \<in> dp_request_id ` set ds")
    case True
    then have "i \<in> set (batch_ids now limit e)" by (simp flip: e(4))
    moreover have "\<forall>i\<in>set (batch_ids now limit e). \<exists>r. bt_get (cs_requests e) i = Some r \<and> rs_status r = Queued"
      using batch_ids_queued(1) [OF e(2), of now limit] unfolding all_queued_def by (rule conjunct2)
    ultimately have "rs_status (if deadline_passed now r then expire_record r else r) = Queued"
      using re by fastforce
    then have "\<not> deadline_passed now r" "rs_status r = Queued"
      by (auto split: if_splits)
    then show ?thesis using q True re by (auto simp: e(9) intro: life_start)
  next
    case False
    then show ?thesis using q re by (auto simp: e(9) intro: life_expire split: if_splits)
  qed
qed

lemma complete_life:
  assumes ok: "sched_ok s" and c: "complete_quantum_with_progress j emitted progress ready eos s = (res, t)"
    and n: "res \<noteq> Err AccountingOverflow"
    and r: "bt_get (cs_requests s) i = Some r" and q: "bt_get (cs_requests t) i = Some q"
  shows "life r q"
  using ok c n
proof (cases rule: complete_quantum_cases)
  case (unchanged e)
  then show ?thesis using r q by simp
next
  case (committed d r' q' st)
  have "bt_get (cs_requests t) = (bt_get (cs_requests s))(j \<mapsto> settle q')"
    using c complete_quantum_run [OF committed(1,2,4,6)] by auto
  moreover have "life r' (settle q')" by (rule life_progress [OF committed(3,5,4,6)])
  ultimately show ?thesis using r q committed(2) by (auto split: if_splits)
qed

lemma admit_life:
  assumes "admit sx now s = (res, t)" and "res \<noteq> Err AccountingOverflow"
    and "bt_get (cs_requests s) i = Some r"
  shows "bt_get (cs_requests t) i = Some r"
  using assms(1,2) by (cases rule: admit_cases) (use assms(3) in auto)

lemma sched_step_life:
  assumes "sched_step s t" and ok: "sched_ok s"
    and r: "bt_get (cs_requests s) i = Some r" and q: "bt_get (cs_requests t) i = Some q"
  shows "life r q"
  using assms(1)
proof cases
  case (step_admit sx now res)
  then show ?thesis using admit_life [OF step_admit r] q by simp
next
  case (step_dispatch now limit dres)
  show ?thesis
  proof (cases dres)
    case (Ok ds)
    with step_dispatch(1) show ?thesis using dispatch_life [OF ok _ r q] by blast
  next
    case (Err e)
    then have "t = s" using step_dispatch dispatch_batch_refused [OF ok, of now limit e t] by simp
    then show ?thesis using r q by simp
  next
    case Panic
    then show ?thesis using dispatch_batch_ok [OF ok step_dispatch(1)] by simp
  qed
next
  case (step_progress j emitted progress ready eos cres)
  then show ?thesis using complete_life [OF ok step_progress r q] by simp
next
  case (step_abort j ares)
  show ?thesis
  proof (cases "bt_get (cs_running s) j")
    case None
    then show ?thesis using step_abort r q by (simp add: abort_quantum_def)
  next
    case (Some d)
    then obtain r' where "bt_get (cs_requests s) j = Some r'" "rs_status r' = Running"
      using running_request [OF ok Some] by blast
    then show ?thesis
      using step_abort Some r q life_abort by (cases "i = j") (auto simp: abort_quantum_def)
  qed
next
  case (step_cancel j ares)
  then show ?thesis
    using r q by (auto simp: cancel_def try_pure_cases ok_or_def intro: life_cancel_queued life_flag
        split: outcome.splits option.splits if_splits)
next
  case step_prune
  then show ?thesis
    using r q by (auto simp: prune_terminal_def bt_get_retain [OF sched_okD(2) [OF ok]] split: if_splits)
next
  case step_take
  then show ?thesis using r q by (simp add: take_expired_deadlines_def)
qed

section \<open>The work a scheduler owes\<close>

definition owed :: "RequestState \<Rightarrow> nat" where
  "owed r = (if is_terminal (rs_status r) then 0
             else unat (rs_remaining_prefill_tokens r) + unat (rs_remaining_tokens r))"

definition work_left :: "ContinuousScheduler \<Rightarrow> nat" where
  "work_left s = total owed (bt_entries (cs_requests s))"

lemma owed_progress:
  assumes "rs_status r = Running" and "dispatch_ok p d i r" and v: "quantum_valid d emitted progress"
    and "apply_quantum_state d emitted progress ready eos (r, st) = (Ok (), q, st')"
  shows "owed (settle q) + unat progress \<le> owed r"
proof -
  note P = apply_quantum_state_Ok [OF assms(4)]
  note B = progressed_bounds [OF P(1) v assms(2)]
  have o: "owed (settle q) \<le> unat (rs_remaining_prefill_tokens q) + unat (rs_remaining_tokens q)"
    by (simp add: owed_def settle_def)
  have w: "owed r = unat (rs_remaining_prefill_tokens r) + unat (rs_remaining_tokens r)"
    using assms(1) by (simp add: owed_def)
  show ?thesis
  proof (cases "dp_kind d")
    case Prefill
    have "unat progress \<le> unat (rs_remaining_prefill_tokens r)"
      using assms(2) v Prefill unfolding dispatch_ok_def quantum_valid_def word_le_nat_alt by auto
    moreover have "unat (rs_remaining_prefill_tokens q) \<le> unat (rs_remaining_prefill_tokens r) - unat progress"
      using P(1) Prefill by (simp add: progressed_def)
    ultimately show ?thesis using o w B(2) by linarith
  next
    case Decode
    then have "unat progress = unat emitted" using v by (simp add: quantum_valid_def)
    moreover have "unat (rs_emitted_tokens q) = unat (rs_emitted_tokens r) + unat emitted"
      using P(1) Decode by (simp add: progressed_def)
    ultimately show ?thesis using o w B(1,3) by linarith
  qed
qed

lemma complete_work:
  assumes ok: "sched_ok s" and c: "complete_quantum_with_progress i emitted progress ready eos s = (Ok qc, t)"
  shows "work_left t + unat progress \<le> work_left s"
proof (cases rule: complete_quantum_cases [OF ok c])
  case (3 d r q st)
  note committed = 3
  have t: "cs_requests t = bt_insert i (settle q) (cs_requests s)"
    using c complete_quantum_run [OF committed(1,2,4,6)] by auto
  show ?thesis
    using bt.total_replace [OF sched_okD(2) [OF ok] committed(2), of owed "settle q"]
      owed_progress [OF committed(3,5,4,6)]
    by (simp add: work_left_def t)
qed simp_all

text \<open>A weight that \<open>life\<close> never raises is not raised by a step that adds no request.\<close>

lemma step_weight:
  fixes f :: "RequestState \<Rightarrow> nat"
  assumes "sched_ok s" and "sched_step s t" and sub: "dom (bt_get (cs_requests t)) \<subseteq> dom (bt_get (cs_requests s))"
    and mono: "\<And>r q. life r q \<Longrightarrow> f q \<le> f r"
  shows "total f (bt_entries (cs_requests t)) \<le> total f (bt_entries (cs_requests s))"
proof -
  have ok: "bt_ok (cs_requests s)" "bt_ok (cs_requests t)"
    using assms(1) sched_step_ok [OF assms(2,1)] by (auto simp: sched_ok_def)
  have "f (the (bt_get (cs_requests t) i)) \<le> f (the (bt_get (cs_requests s) i))"
    if i: "i \<in> dom (bt_get (cs_requests t))" for i
  proof -
    obtain q where q: "bt_get (cs_requests t) i = Some q" using i by (auto simp: dom_def)
    obtain r where r: "bt_get (cs_requests s) i = Some r" using subsetD [OF sub i] by (auto simp: dom_def)
    show ?thesis using mono [OF sched_step_life [OF assms(2,1) r q]] q r by simp
  qed
  then have "(\<Sum>i\<in>dom (bt_get (cs_requests t)). f (the (bt_get (cs_requests t) i)))
      \<le> (\<Sum>i\<in>dom (bt_get (cs_requests t)). f (the (bt_get (cs_requests s) i)))"
    by (rule sum_mono)
  also have "\<dots> \<le> (\<Sum>i\<in>dom (bt_get (cs_requests s)). f (the (bt_get (cs_requests s) i)))"
    by (rule sum_mono2 [OF bt.finite_dom_get [OF ok(1)] sub]) simp
  finally show ?thesis by (simp add: bt.total_dom ok)
qed

lemma owed_life: "life r q \<Longrightarrow> owed q \<le> owed r"
  by (cases "rs_status r") (auto simp: life_def owed_def)

lemma step_work:
  "sched_ok s \<Longrightarrow> sched_step s t \<Longrightarrow> dom (bt_get (cs_requests t)) \<subseteq> dom (bt_get (cs_requests s)) \<Longrightarrow>
   work_left t \<le> work_left s"
  unfolding work_left_def by (rule step_weight) (auto intro: owed_life)

section \<open>Sequence numbers\<close>

text \<open>A request that appears in a step is new: it carries the sequence number the
  scheduler was about to give, and those numbers only grow.\<close>

lemma dispatch_dom:
  assumes ok: "sched_ok s" and d: "dispatch_batch now limit s = (res, t)" and n: "res \<noteq> Err AccountingOverflow"
  shows "dom (bt_get (cs_requests t)) = dom (bt_get (cs_requests s))" and "cs_next_sequence t = cs_next_sequence s"
proof -
  obtain e where e: "expire_deadlines now s = (Ok (), e)" "sched_ok e" "cs_policy e = cs_policy s"
    "cs_running e = cs_running s" "cs_next_sequence e = cs_next_sequence s"
    "st_dispatched_quanta (cs_stats e) = st_dispatched_quanta (cs_stats s)"
    "\<forall>j. bt_get (cs_requests e) j = (case bt_get (cs_requests s) j of None \<Rightarrow> None
           | Some r \<Rightarrow> Some (if deadline_passed now r then expire_record r else r))"
    "cs_expired e = cs_expired s @ map (\<lambda>r. sx_id (rs_spec r)) (filter (deadline_passed now) (bt_values (cs_requests s)))"
    by (rule expire_deadlines_run [OF ok, of now])
  have de: "dom (bt_get (cs_requests e)) = dom (bt_get (cs_requests s))"
    using e(7) by (auto simp: dom_def split: option.splits)
  have "dom (bt_get (cs_requests t)) = dom (bt_get (cs_requests s)) \<and> cs_next_sequence t = cs_next_sequence s"
  proof (cases "cs_running s = [] \<and> limit \<noteq> 0")
    case True
    have "length (cs_running e) + length (batch_ids now limit e) \<le> unat (sp_max_batch_requests (cs_policy e))"
      using batch_ids_queued(2) [OF e(2), of now limit] e(4) True by (simp add: unat_min)
    from start_batch_run [OF e(2) batch_ids_queued(1) [OF e(2)] this, of now]
    obtain ds u where u: "start_batch (batch_ids now limit e) now e = (Ok ds, u)"
      "cs_next_sequence u = cs_next_sequence e"
      "\<forall>j. bt_get (cs_requests u) j = (if j \<in> set (batch_ids now limit e)
       then map_option (\<lambda>r. r\<lparr>rs_status := Running\<rparr>) (bt_get (cs_requests e) j) else bt_get (cs_requests e) j)"
      by blast
    have du: "dom (bt_get (cs_requests u)) = dom (bt_get (cs_requests e))"
      using u(3) by (auto simp: dom_def split: if_splits)
    obtain r v where v: "record_batch_dispatch ds u = (r, v)" by fastforce
    have "cs_next_sequence v = cs_next_sequence u"
      using v by (cases "checked_add (st_dispatched_quanta (cs_stats u)) (word_of_usize (length ds) :: u64)")
        (auto simp: record_batch_dispatch_def Let_def split: if_splits)
    moreover have "t = v"
      using d e(1) u(1) v True unfolding dispatch_batch_def batch_ids_def [symmetric]
      by (cases r) (auto simp: check_dispatch_state_def Let_def)
    ultimately show ?thesis using record_batch_dispatch_frame [OF v] de du u(2) e(5) by simp
  next
    case False
    then show ?thesis
      using d by (auto simp: dispatch_batch_def check_dispatch_state_def split: if_splits)
  qed
  then show "dom (bt_get (cs_requests t)) = dom (bt_get (cs_requests s))" "cs_next_sequence t = cs_next_sequence s"
    by auto
qed

lemma complete_frame:
  "complete_quantum_with_progress i emitted progress ready eos s = (res, t) \<Longrightarrow>
     cs_next_sequence t = cs_next_sequence s \<and> dom (bt_get (cs_requests t)) = dom (bt_get (cs_requests s))"
  by (cases "bt_get (cs_requests s) i")
     (auto simp: complete_quantum_with_progress_def try_pure_cases ok_or_def Let_def
       split: outcome.splits prod.splits if_splits option.splits)

lemma sched_step_fresh:
  assumes "sched_step s t" and ok: "sched_ok s"
  shows "bt_get (cs_requests s) i = None \<Longrightarrow> bt_get (cs_requests t) i = Some q \<Longrightarrow> rs_sequence q = cs_next_sequence s"
    and "cs_next_sequence s \<le> cs_next_sequence t"
proof -
  have "(bt_get (cs_requests s) i = None \<longrightarrow> bt_get (cs_requests t) i = Some q \<longrightarrow> rs_sequence q = cs_next_sequence s) \<and>
    cs_next_sequence s \<le> cs_next_sequence t"
    using assms(1)
  proof cases
    case (step_admit sx now res)
    then show ?thesis
      by (cases rule: admit_cases) (auto simp: new_request_def word_le_nat_alt dest: new_sequence)
  next
    case (step_dispatch now limit dres)
    have "i \<in> dom (bt_get (cs_requests t)) \<longleftrightarrow> i \<in> dom (bt_get (cs_requests s))"
      by (simp only: dispatch_dom(1) [OF ok step_dispatch])
    then show ?thesis by (auto simp: dispatch_dom(2) [OF ok step_dispatch])
  next
    case (step_progress j emitted progress ready eos cres)
    note F = complete_frame [OF step_progress(1)]
    then have "i \<in> dom (bt_get (cs_requests t)) \<longleftrightarrow> i \<in> dom (bt_get (cs_requests s))" by simp
    then show ?thesis using F by auto
  next
    case (step_abort j ares)
    then show ?thesis
      by (auto simp: abort_quantum_def try_pure_cases ok_or_def split: outcome.splits option.splits if_splits)
  next
    case (step_cancel j ares)
    then show ?thesis
      by (auto simp: cancel_def try_pure_cases ok_or_def split: outcome.splits option.splits if_splits)
  qed (auto simp: prune_terminal_def take_expired_deadlines_def bt_get_retain [OF sched_okD(2) [OF ok]])
  then show "bt_get (cs_requests s) i = None \<Longrightarrow> bt_get (cs_requests t) i = Some q \<Longrightarrow> rs_sequence q = cs_next_sequence s"
    and "cs_next_sequence s \<le> cs_next_sequence t" by auto
qed

text \<open>A property of one record that \<open>life\<close> keeps holds for as long as the record is kept.\<close>

lemma kept_along_steps:
  assumes "sched_step\<^sup>*\<^sup>* s t" and ok: "sched_ok s" and r: "bt_get (cs_requests s) i = Some r" and P: "P r"
    and keep: "\<And>r q. P r \<Longrightarrow> life r q \<Longrightarrow> P q"
    and q: "bt_get (cs_requests t) i = Some q" "rs_sequence q = rs_sequence r"
  shows "P q"
proof -
  have "sched_ok t \<and> rs_sequence r < cs_next_sequence t \<and>
    (\<forall>q. bt_get (cs_requests t) i = Some q \<longrightarrow> rs_sequence q = rs_sequence r \<longrightarrow> P q)"
    using assms(1)
  proof (induction rule: rtranclp_induct)
    case base
    then show ?case using ok r P sched_okD(5) [OF ok r] by (simp add: request_ok_def)
  next
    case (step t u)
    have t: "sched_ok t" "rs_sequence r < cs_next_sequence t" using step.IH by auto
    note F = sched_step_fresh [OF step.hyps(2) t(1)]
    have "P q" if q: "bt_get (cs_requests u) i = Some q" "rs_sequence q = rs_sequence r" for q
    proof (cases "bt_get (cs_requests t) i")
      case None
      then show ?thesis using F(1) [OF None q(1)] q(2) t(2) by simp
    next
      case (Some q')
      have l: "life q' q" by (rule sched_step_life [OF step.hyps(2) t(1) Some q(1)])
      then have "rs_sequence q' = rs_sequence r" using q(2) by (simp add: life_def)
      then show ?thesis using keep [OF _ l] step.IH Some by blast
    qed
    then show ?case using sched_step_ok [OF step.hyps(2) t(1)] t(2) F(2) by auto
  qed
  then show ?thesis using q by blast
qed

section \<open>Cancellation overshoot\<close>

abbreviation overshoot :: "ContinuousScheduler \<Rightarrow> u32" where
  "overshoot s \<equiv> st_max_cancellation_overshoot_tokens (cs_stats s)"

definition overshoot_ok :: "ContinuousScheduler \<Rightarrow> bool" where
  "overshoot_ok s \<longleftrightarrow> sched_ok s \<and> overshoot s \<le> sp_service_quantum_tokens (cs_policy s)"

lemma apply_quantum_overshoot:
  "apply_quantum_state d emitted progress ready eos (r, st) = (Ok (), q, st') \<Longrightarrow>
   st_max_cancellation_overshoot_tokens st' \<in> {st_max_cancellation_overshoot_tokens st,
     max (st_max_cancellation_overshoot_tokens st) emitted}"
  by (auto simp: apply_quantum_state_def apply_prefill_progress_def apply_decode_progress_def
      try_pure_cases try_st_cases Let_def apply_quantum_status_def ok_or_def and_then_eq_Ok
      split: outcome.splits option.splits if_splits DispatchKind.splits)

lemma complete_overshoot:
  assumes "overshoot_ok s" and "complete_quantum_with_progress i emitted progress ready eos s = (res, t)"
    and "res \<noteq> Err AccountingOverflow"
  shows "overshoot t \<le> sp_service_quantum_tokens (cs_policy s)"
proof -
  have ok: "sched_ok s" "overshoot s \<le> sp_service_quantum_tokens (cs_policy s)"
    using assms(1) by (auto simp: overshoot_ok_def)
  from ok(1) assms(2,3) show ?thesis
  proof (cases rule: complete_quantum_cases)
    case (committed d r q st)
    have "emitted \<le> sp_service_quantum_tokens (cs_policy s)"
      using committed(4,5) by (cases "dp_kind d") (auto simp: quantum_valid_def dispatch_ok_def)
    moreover have "cs_stats t = st"
      using assms(2) complete_quantum_run [OF committed(1,2,4,6)] by auto
    ultimately show ?thesis
      using apply_quantum_overshoot [OF committed(6)] ok(2) by auto
  qed (use ok in simp)
qed

lemma expire_ids_overshoot: "expire_ids ids s = (res, t) \<Longrightarrow> overshoot t = overshoot s"
  by (induction ids s rule: expire_ids.induct) (auto simp: try_pure_cases expect_def split: outcome.splits option.splits)

lemma start_batch_stats: "start_batch ids now s = (res, t) \<Longrightarrow> cs_stats t = cs_stats s"
proof (induction ids arbitrary: s res t)
  case (Cons i ids)
  then show ?case
    by (fastforce simp: try_pure_cases try_st_cases Let_def split: outcome.splits prod.splits)
qed simp

lemma dispatch_overshoot:
  assumes "dispatch_batch now limit s = (res, t)"
  shows "overshoot t = overshoot s"
proof -
  obtain r1 u1 where e: "expire_deadlines now s = (r1, u1)" by fastforce
  obtain r2 u2 where st: "start_batch (batch_ids now limit u1) now u1 = (r2, u2)" by fastforce
  obtain r3 u3 where rec: "record_batch_dispatch (case r2 of Ok ds \<Rightarrow> ds | _ \<Rightarrow> []) u2 = (r3, u3)" by fastforce
  have "overshoot u3 = overshoot u2"
    using rec by (cases "checked_add (st_dispatched_quanta (cs_stats u2))
        (word_of_usize (length (case r2 of Ok ds \<Rightarrow> ds | _ \<Rightarrow> [])) :: u64)")
      (auto simp: record_batch_dispatch_def Let_def split: if_splits)
  moreover have "overshoot u1 = overshoot s" "overshoot u2 = overshoot u1"
    using e expire_ids_overshoot start_batch_stats [OF st] by (auto simp: expire_deadlines_def)
  moreover have "t \<in> {s, u1, u2, u3}"
    using assms e st rec unfolding dispatch_batch_def batch_ids_def [symmetric] Let_def
    by (cases "check_dispatch_state limit s"; cases r1; cases r2; cases r3) auto
  ultimately show ?thesis by auto
qed

lemma insert_request_stats: "insert_request sx rejection s = (res, t) \<Longrightarrow> cs_stats t = cs_stats s"
  by (auto simp: insert_request_def try_pure_cases Let_def split: outcome.splits)

lemma admit_overshoot: "admit sx now s = (res, t) \<Longrightarrow> overshoot t = overshoot s"
  by (auto simp: admit_def try_pure_cases try_st_cases Let_def update_high_watermarks_def
      split: outcome.splits prod.splits if_splits option.splits dest!: insert_request_stats)

lemma step_overshoot:
  assumes "overshoot_ok s" and "sched_step s t"
  shows "overshoot_ok t"
proof -
  have ok: "sched_ok s" "overshoot s \<le> sp_service_quantum_tokens (cs_policy s)"
    using assms(1) by (auto simp: overshoot_ok_def)
  have "overshoot t \<le> sp_service_quantum_tokens (cs_policy s)"
    using assms(2)
  proof cases
    case (step_progress i emitted progress ready eos cres)
    then show ?thesis using complete_overshoot [OF assms(1)] by blast
  next
    case (step_abort i ares)
    then show ?thesis using ok(2) by (auto simp: abort_quantum_def try_pure_cases split: outcome.splits)
  next
    case (step_cancel i ares)
    then show ?thesis using ok(2) by (auto simp: cancel_def try_pure_cases split: outcome.splits if_splits)
  qed (use ok(2) admit_overshoot dispatch_overshoot in \<open>auto simp: prune_terminal_def take_expired_deadlines_def\<close>)
  then show ?thesis
    using sched_step_ok [OF assms(2) ok(1)] sched_step_policy [OF assms(2)] by (simp add: overshoot_ok_def)
qed

lemma start_overshoot: "sched_start s \<Longrightarrow> overshoot_ok s"
  by (auto simp: overshoot_ok_def sched_start_def dest: scheduler_new_ok)
     (auto simp: scheduler_new_def and_then_eq_Ok default_stats_def)

interpretation overshoot: machine sched_start sched_step overshoot_ok
  by unfold_locales (rule start_overshoot, assumption, rule step_overshoot)

end
