(* ===== verification/Scheduler_Demo.thy ===== *)
theory Scheduler_Demo
  imports Scheduler_Life
begin

text \<open>
  One concrete run of the scheduler: two requests are admitted, the one with the urgent
  deadline is dispatched, its prefill quantum is completed, and (in the other branch) it
  is cancelled while it runs. The states are reachable; the properties are applied to them.
\<close>

definition demo_policy :: SchedulerPolicy where
  "demo_policy = \<lparr>sp_max_active_requests = 8, sp_max_queued_requests = 8, sp_max_batch_requests = 4,
     sp_max_reserved_kv_bytes = 1048576, sp_kv_bytes_per_token = 64, sp_kv_page_tokens = 16,
     sp_max_prompt_tokens = 1024, sp_max_output_tokens = 128, sp_service_quantum_tokens = 4,
     sp_prefill_chunk_tokens = 8, sp_urgent_window_ns = 10000, sp_max_prefix_credit_tokens = 256\<rparr>"

definition demo_spec :: "u64 \<Rightarrow> u64 option \<Rightarrow> RequestSpec" where
  "demo_spec n deadline = \<lparr>sx_id = RequestId n, sx_arrival_ns = 0, sx_prompt_tokens = 6, sx_prefix_reused_tokens = 0,
     sx_max_output_tokens = 20, sx_priority = 1, sx_deadline_ns = deadline\<rparr>"

definition demo_request :: "u64 \<Rightarrow> u64 option \<Rightarrow> RequestState" where
  "demo_request n deadline = \<lparr>rs_spec = demo_spec n deadline, rs_status = Queued, rs_reserved_kv_bytes = 2048,
     rs_remaining_prefill_tokens = 6, rs_remaining_tokens = 20, rs_emitted_tokens = 0,
     rs_virtual_runtime = 0, rs_sequence = n, rs_cancellation_requested = False\<rparr>"

definition demo_new :: ContinuousScheduler where
  "demo_new = \<lparr>cs_policy = demo_policy, cs_requests = [], cs_running = [], cs_expired = [],
     cs_reserved_kv_bytes = 0, cs_next_sequence = 0, cs_stats = default_stats\<rparr>"

definition demo_one :: ContinuousScheduler where
  "demo_one = \<lparr>cs_policy = demo_policy, cs_requests = [(RequestId 0, demo_request 0 None)], cs_running = [], cs_expired = [],
     cs_reserved_kv_bytes = 2048, cs_next_sequence = 1,
     cs_stats = default_stats\<lparr>st_admission_attempts := 1, st_admitted_requests := 1, st_max_queue_depth := 1,
       st_max_reserved_kv_bytes := 2048\<rparr>\<rparr>"

definition demo_two :: ContinuousScheduler where
  "demo_two = \<lparr>cs_policy = demo_policy,
     cs_requests = [(RequestId 0, demo_request 0 None), (RequestId 1, demo_request 1 (Some 5000))],
     cs_running = [], cs_expired = [], cs_reserved_kv_bytes = 4096, cs_next_sequence = 2,
     cs_stats = default_stats\<lparr>st_admission_attempts := 2, st_admitted_requests := 2, st_max_queue_depth := 2,
       st_max_reserved_kv_bytes := 4096\<rparr>\<rparr>"

definition demo_dispatch :: Dispatch where
  "demo_dispatch = \<lparr>dp_request_id = RequestId 1, dp_token_budget = 6, dp_dispatch_ns = 7, dp_kind = Prefill\<rparr>"

definition demo_busy :: ContinuousScheduler where
  "demo_busy = demo_two\<lparr>cs_requests := [(RequestId 0, demo_request 0 None),
       (RequestId 1, (demo_request 1 (Some 5000))\<lparr>rs_status := Running\<rparr>)],
     cs_running := [(RequestId 1, demo_dispatch)],
     cs_stats := (cs_stats demo_two)\<lparr>st_dispatched_batches := 1, st_dispatched_quanta := 1, st_max_batch_width := 1\<rparr>\<rparr>"

definition demo_flagged :: ContinuousScheduler where
  "demo_flagged = demo_busy\<lparr>cs_requests := [(RequestId 0, demo_request 0 None),
     (RequestId 1, (demo_request 1 (Some 5000))\<lparr>rs_status := Running, rs_cancellation_requested := True\<rparr>)]\<rparr>"

definition demo_back :: ContinuousScheduler where
  "demo_back = demo_two\<lparr>cs_requests := [(RequestId 0, demo_request 0 None),
       (RequestId 1, (demo_request 1 (Some 5000))\<lparr>rs_remaining_prefill_tokens := 0, rs_virtual_runtime := 6144\<rparr>)],
     cs_stats := (cs_stats demo_busy)\<lparr>st_prefill_chunks := 1, st_prefill_tokens := 6\<rparr>\<rparr>"

definition demo_cancelled :: ContinuousScheduler where
  "demo_cancelled = demo_two\<lparr>cs_requests := [(RequestId 0, demo_request 0 None),
       (RequestId 1, (demo_request 1 (Some 5000))\<lparr>rs_status := Cancelled, rs_reserved_kv_bytes := 0,
          rs_remaining_prefill_tokens := 0, rs_virtual_runtime := 6144, rs_cancellation_requested := True\<rparr>)],
     cs_reserved_kv_bytes := 2048,
     cs_stats := (cs_stats demo_busy)\<lparr>st_prefill_chunks := 1, st_prefill_tokens := 6, st_cancelled_requests := 1\<rparr>\<rparr>"

lemmas admit_eval = admit_def bt_contains_def admission_rejection_def basic_admission_rejection_def
  request_counts_def reservation_bytes_def insert_request_def update_high_watermarks_def
  checked_add_def checked_sub_def checked_mul_def checked_div_def saturating_mul_def
  saturating_sub_def saturating_add_def base_runtime_def prefix_credit_def word_of_usize_def
  bt_values_def bt_get_def Let_def

lemmas dispatch_eval = dispatch_batch_def check_dispatch_state_def expire_deadlines_def
  deadline_passed_def select_batch_ids_def queued_requests_def compare_requests_def cmp_def
  is_urgent_def quantum_tokens_def quantum_kind_def try_from_word_def record_batch_dispatch_def
  expire_record_def

lemmas complete_eval = complete_quantum_with_progress_def validate_quantum_completion_def
  apply_quantum_state_def apply_prefill_progress_def apply_decode_progress_def
  runtime_charge_def div_ceil_def apply_quantum_status_def bt_remove_def

lemmas demo_eval = demo_policy_def demo_spec_def demo_request_def default_stats_def demo_new_def
  demo_one_def demo_two_def demo_busy_def demo_flagged_def demo_back_def demo_cancelled_def
  demo_dispatch_def

lemma demo_new: "scheduler_new demo_policy = Ok demo_new"
  by (simp add: scheduler_new_def policy_validate_def validate_request_limits_def
      validate_memory_limits_def validate_token_limits_def validate_quantum_limits_def demo_eval)

lemma demo_admit_one: "admit (demo_spec 0 None) 0 demo_new = (Ok (Admitted 2048), demo_one)"
  by (simp add: admit_eval demo_eval)

lemma demo_admit_two: "admit (demo_spec 1 (Some 5000)) 0 demo_one = (Ok (Admitted 2048), demo_two)"
  by (simp add: admit_eval demo_eval)

lemma demo_dispatch: "dispatch_batch 7 1 demo_two = (Ok [demo_dispatch], demo_busy)"
  by (simp add: dispatch_eval admit_eval demo_eval)

lemma demo_cancel: "cancel (RequestId 1) demo_busy = (Ok Running, demo_flagged)"
  by (simp add: cancel_def admit_eval demo_eval)

lemma demo_complete: "complete_quantum_with_progress (RequestId 1) 0 6 False False demo_busy =
    (Ok \<lparr>qc_request_id = RequestId 1, qc_emitted_tokens = 0, qc_status = Queued\<rparr>, demo_back)"
  by (simp add: complete_eval admit_eval demo_eval)

lemma demo_complete_flagged: "complete_quantum_with_progress (RequestId 1) 0 6 False False demo_flagged =
    (Ok \<lparr>qc_request_id = RequestId 1, qc_emitted_tokens = 0, qc_status = Cancelled\<rparr>, demo_cancelled)"
  by (simp add: complete_eval admit_eval demo_eval)

section \<open>Reachable states\<close>

definition sched_reachable :: "SchedulerPolicy \<Rightarrow> ContinuousScheduler \<Rightarrow> bool" where
  "sched_reachable p s \<longleftrightarrow> (\<exists>s0. scheduler_new p = Ok s0 \<and> sched_step\<^sup>*\<^sup>* s0 s)"

lemma scheduler_new_policy: "scheduler_new p = Ok s \<Longrightarrow> cs_policy s = p"
  by (auto simp: scheduler_new_def and_then_eq_Ok policy_validate_Ok)

lemma reachable_start: "scheduler_new p = Ok s \<Longrightarrow> sched_start s"
  by (simp add: sched_start_def scheduler_new_policy)

lemma reachable_ok: "sched_reachable p s \<Longrightarrow> sched_ok s"
  by (auto simp: sched_reachable_def dest: reachable_start intro: sched.inv_reachable)

lemma reachable_policy: "sched_reachable p s \<Longrightarrow> cs_policy s = p"
proof -
  assume "sched_reachable p s"
  then obtain s0 where "scheduler_new p = Ok s0" "sched_step\<^sup>*\<^sup>* s0 s" by (auto simp: sched_reachable_def)
  moreover from this(2) have "cs_policy s = cs_policy s0"
    by (induction rule: rtranclp_induct) (auto simp: sched_step_policy)
  ultimately show ?thesis by (simp add: scheduler_new_policy)
qed

lemma reachable_new: "scheduler_new p = Ok s \<Longrightarrow> sched_reachable p s"
  by (auto simp: sched_reachable_def)

lemma reachable_step: "sched_reachable p s \<Longrightarrow> sched_step s t \<Longrightarrow> sched_reachable p t"
  by (auto simp: sched_reachable_def intro: rtranclp.rtrancl_into_rtrancl)

lemma reachable_overshoot: "sched_reachable p s \<Longrightarrow> overshoot_ok s"
  by (auto simp: sched_reachable_def dest: reachable_start intro: overshoot.inv_reachable)

lemma demo_reachable:
  "sched_reachable demo_policy demo_new" "sched_reachable demo_policy demo_one"
  "sched_reachable demo_policy demo_two" "sched_reachable demo_policy demo_busy"
  "sched_reachable demo_policy demo_flagged" "sched_reachable demo_policy demo_back"
proof -
  show n: "sched_reachable demo_policy demo_new" by (rule reachable_new [OF demo_new])
  show o: "sched_reachable demo_policy demo_one"
    by (rule reachable_step [OF n step_admit [OF demo_admit_one]]) simp
  show t: "sched_reachable demo_policy demo_two"
    by (rule reachable_step [OF o step_admit [OF demo_admit_two]]) simp
  show b: "sched_reachable demo_policy demo_busy"
    by (rule reachable_step [OF t step_dispatch [OF demo_dispatch]]) simp
  show "sched_reachable demo_policy demo_flagged"
    by (rule reachable_step [OF b step_cancel [OF demo_cancel]])
  show "sched_reachable demo_policy demo_back"
    by (rule reachable_step [OF b step_progress [OF demo_complete]]) simp
qed

end
