(* ===== verification/Scheduler_Props.thy ===== *)
theory Scheduler_Props
  imports Scheduler_Demo
begin

text \<open>
  What the continuous scheduler promises its callers, stated of every reachable state
  (\<open>sched_reachable p s\<close>: some sequence of public calls on a scheduler of policy \<open>p\<close>,
  none of which reports \<open>AccountingOverflow\<close>, ends in \<open>s\<close>). Each property is applied to the run of \<open>Scheduler_Demo\<close> right after it.
\<close>

section \<open>The ledger\<close>

text \<open>C1: In every reachable state the reserved KV bytes are exactly the sum of the
  reservations of the known requests and never exceed the policy; the active requests and
  the dispatches in flight stay within their limits as well.\<close>

theorem reserved_ledger:
  assumes "sched_reachable p s"
  shows "unat (cs_reserved_kv_bytes s) = (\<Sum>r\<leftarrow>bt_values (cs_requests s). unat (rs_reserved_kv_bytes r)) \<and>
    cs_reserved_kv_bytes s \<le> sp_max_reserved_kv_bytes p \<and>
    length (filter (\<lambda>r. \<not> is_terminal (rs_status r)) (bt_values (cs_requests s))) \<le> unat (sp_max_active_requests p) \<and>
    length (cs_running s) \<le> unat (sp_max_batch_requests p)"
proof -
  note D = sched_okD [OF reachable_ok [OF assms]] and P = reachable_policy [OF assms]
  have "total reserved_weight (bt_entries (cs_requests s)) = (\<Sum>r\<leftarrow>bt_values (cs_requests s). unat (rs_reserved_kv_bytes r))"
    by (simp add: total_def bt_entries_def bt_values_def reserved_weight_def comp_def)
  moreover have "length (filter (\<lambda>r. \<not> is_terminal (rs_status r)) (bt_values (cs_requests s)))
      = total active_weight (bt_entries (cs_requests s))"
    using request_counts_totals [of s] by (simp add: request_counts_def)
  ultimately show ?thesis using D(6-9) P by simp
qed

theorem reserved_ledger_witness:
  "unat (cs_reserved_kv_bytes demo_busy) = 4096 \<and> cs_reserved_kv_bytes demo_busy \<le> 1048576"
  using reserved_ledger [OF demo_reachable(4)] by (simp add: demo_eval bt_values_def)

text \<open>C2: In every reachable state a live request's reservation still pays for every token
  it may yet place in the KV cache, a finished one holds nothing, the tokens it emitted
  and those it may still emit add up to what it asked for, and it is running exactly when
  a dispatch for it is in flight.\<close>

theorem reservation_covers_work:
  assumes "sched_reachable p s" and "bt_get (cs_requests s) i = Some r"
  shows "sx_id (rs_spec r) = i \<and>
    unat (rs_emitted_tokens r) + unat (rs_remaining_tokens r) = unat (sx_max_output_tokens (rs_spec r)) \<and>
    (if is_terminal (rs_status r) then rs_reserved_kv_bytes r = 0
     else (unat (rs_remaining_prefill_tokens r) + unat (rs_remaining_tokens r)) * unat (sp_kv_bytes_per_token p)
            \<le> unat (rs_reserved_kv_bytes r)) \<and>
    (rs_status r = Running \<longleftrightarrow> bt_get (cs_running s) i \<noteq> None)"
  using sched_okD(5) [OF reachable_ok [OF assms(1)] assms(2)] reachable_policy [OF assms(1)]
  by (auto simp: request_ok_def tokens_ok_def phase_ok_def split: option.splits)

theorem reservation_covers_work_witness: "(6 + 20) * 64 \<le> unat (rs_reserved_kv_bytes (demo_request 0 None))"
  using reservation_covers_work [OF demo_reachable(4), of "RequestId 0" "demo_request 0 None"]
  by (simp add: demo_eval bt_get_def)

section \<open>Admission\<close>

text \<open>C4: A request that is new and has arrived is admitted exactly when it passes every
  limit of the policy and the scheduler can still number it: prefix within the prompt, prompt
  and output within bounds, priority 1 to 100, deadline ahead, room among active and queued
  requests, a page-rounded reservation that fits the bytes still free without overflowing
  64 bits, and a sequence counter below its largest value.\<close>

theorem admit_accepts_exactly:
  assumes "sched_reachable p s" and "bt_get (cs_requests s) (sx_id sx) = None"
    and "sx_arrival_ns sx \<le> now"
  shows "(\<exists>b. fst (admit sx now s) = Ok (Admitted b)) \<longleftrightarrow>
    sx_prefix_reused_tokens sx \<le> sx_prompt_tokens sx \<and> sx_prompt_tokens sx \<le> sp_max_prompt_tokens p \<and>
    sx_max_output_tokens sx \<noteq> 0 \<and> sx_max_output_tokens sx \<le> sp_max_output_tokens p \<and>
    sx_priority sx \<noteq> 0 \<and> sx_priority sx \<le> 100 \<and> (\<forall>d. sx_deadline_ns sx = Some d \<longrightarrow> now < d) \<and>
    length (filter (\<lambda>r. \<not> is_terminal (rs_status r)) (bt_values (cs_requests s))) < unat (sp_max_active_requests p) \<and>
    length (filter (\<lambda>r. rs_status r = Queued) (bt_values (cs_requests s))) < unat (sp_max_queued_requests p) \<and>
    reserved_tokens sx + unat (sp_kv_page_tokens p) \<le> 2 ^ 64 \<and>
    unat (cs_reserved_kv_bytes s) +
      page_rounded (unat (sp_kv_page_tokens p)) (reserved_tokens sx) * unat (sp_kv_bytes_per_token p)
      \<le> unat (sp_max_reserved_kv_bytes p) \<and>
    unat (cs_next_sequence s) + 1 < 2 ^ 64" (is "?L \<longleftrightarrow> ?R")
proof -
  note P = reachable_policy [OF assms(1)]
  have pol: "sp_kv_page_tokens p \<noteq> 0" "sp_kv_bytes_per_token p \<noteq> 0"
    using sched_okD(1) [OF reachable_ok [OF assms(1)]] P by (auto simp: policy_ok_def)
  have "?L \<longleftrightarrow> (\<exists>b. admissible s sx now b) \<and> unat (cs_next_sequence s) + 1 < 2 ^ 64"
  proof
    assume ?L
    then obtain b where "fst (admit sx now s) = Ok (Admitted b)" ..
    then have "admit sx now s = (Ok (Admitted b), snd (admit sx now s))" by (metis prod.collapse)
    then show "(\<exists>b. admissible s sx now b) \<and> unat (cs_next_sequence s) + 1 < 2 ^ 64"
      by (cases rule: admit_cases) (auto simp: checked_add_def split: if_splits)
  qed (use admit_admissible [OF assms(2,3)] in blast)
  also have "\<dots> \<longleftrightarrow> ?R"
  proof
    assume number: "(\<exists>b. admissible s sx now b) \<and> unat (cs_next_sequence s) + 1 < 2 ^ 64"
    then obtain b where b: "admissible s sx now b" by blast
    then have "reservation_bytes p sx = Ok b" using P by (simp add: admissible_def)
    then show ?R
      using b number reservation_bytes_Ok(1) [of p sx b] reservation_bytes_sum [of p sx b] pol P
      by (simp add: admissible_def basic_admission_None request_counts_def)
  next
    assume R: ?R
    then have "page_rounded (unat (sp_kv_page_tokens p)) (reserved_tokens sx) * unat (sp_kv_bytes_per_token p) < 2 ^ 64"
      using unat_lt_2p [of "sp_max_reserved_kv_bytes p"] by simp
    then obtain b where b: "reservation_bytes p sx = Ok b"
      using reservation_bytes_fits [OF pol] R by blast
    then have "admissible s sx now b"
      using R reservation_bytes_Ok(1) [OF b pol(1)] P
      by (simp add: admissible_def basic_admission_None request_counts_def)
    then show "(\<exists>b. admissible s sx now b) \<and> unat (cs_next_sequence s) + 1 < 2 ^ 64" using R by blast
  qed
  finally show ?thesis .
qed

theorem admit_accepts_exactly_witness: "\<exists>b. fst (admit (demo_spec 1 (Some 5000)) 0 demo_one) = Ok (Admitted b)"
  by (rule admit_accepts_exactly [OF demo_reachable(2), THEN iffD2])
     (simp_all add: demo_eval bt_get_def bt_values_def reserved_tokens_def page_rounded_def)

text \<open>An admitted request costs the least whole number of pages that holds its tokens:
  the bytes returned are added to the ledger and stored with the request, which waits in
  the queue with nothing emitted and its whole uncached prompt to prefill; nothing else in
  the table changes.\<close>

theorem admit_reserves_pages:
  assumes "sched_reachable p s" and "admit sx now s = (Ok (Admitted b), t)"
  shows "unat b = page_rounded (unat (sp_kv_page_tokens p)) (reserved_tokens sx) * unat (sp_kv_bytes_per_token p) \<and>
    unat (cs_reserved_kv_bytes t) = unat (cs_reserved_kv_bytes s) + unat b \<and>
    (\<exists>r. bt_get (cs_requests t) = (bt_get (cs_requests s))(sx_id sx \<mapsto> r) \<and>
       bt_get (cs_requests s) (sx_id sx) = None \<and>
       rs_spec r = sx \<and> rs_status r = Queued \<and> rs_reserved_kv_bytes r = b \<and> rs_emitted_tokens r = 0 \<and>
       rs_remaining_tokens r = sx_max_output_tokens sx \<and>
       unat (rs_remaining_prefill_tokens r) = unat (sx_prompt_tokens sx) - unat (sx_prefix_reused_tokens sx) \<and>
       rs_sequence r = cs_next_sequence s)"
  using assms(2) outcome.distinct(1)
proof (cases rule: admit_cases)
  case (admitted b' n q)
  note P = reachable_policy [OF assms(1)]
  have page: "sp_kv_page_tokens p \<noteq> 0"
    using sched_okD(1) [OF reachable_ok [OF assms(1)]] P by (auto simp: policy_ok_def)
  have "reservation_bytes p sx = Ok b" using admitted(2,3) P by (simp add: admissible_def)
  from reservation_bytes_Ok(1) [OF this page] show ?thesis
    using admitted checked_add_unat [OF admitted(10)] checked_sub_unat [OF admitted(5)]
    by (intro conjI exI [of _ "new_request s sx Queued b q"]) (simp_all add: new_request_def)
qed simp_all

theorem admit_reserves_pages_witness: "unat (2048 :: u64) = page_rounded 16 26 * 64"
  using admit_reserves_pages [OF demo_reachable(2) demo_admit_two] by (simp add: demo_eval reserved_tokens_def)

text \<open>A refused request changes nothing but the books: it is recorded as rejected under
  its id, holds no bytes, and the reason returned names a limit it really failed.\<close>

theorem admit_refusal_is_justified:
  assumes "sched_reachable p s" and "admit sx now s = (Ok (RejectedFor reason), t)"
  shows "cs_reserved_kv_bytes t = cs_reserved_kv_bytes s \<and> cs_running t = cs_running s \<and>
    (\<forall>i. i \<noteq> sx_id sx \<longrightarrow> bt_get (cs_requests t) i = bt_get (cs_requests s) i) \<and>
    status_of t (sx_id sx) = Some Rejected \<and>
    (case reason of
       InvalidPrefix \<Rightarrow> sx_prompt_tokens sx < sx_prefix_reused_tokens sx
     | PromptLimit \<Rightarrow> sp_max_prompt_tokens p < sx_prompt_tokens sx
     | OutputLimit \<Rightarrow> sx_max_output_tokens sx = 0 \<or> sp_max_output_tokens p < sx_max_output_tokens sx
     | InvalidPriority \<Rightarrow> sx_priority sx = 0 \<or> 100 < sx_priority sx
     | ExpiredDeadline \<Rightarrow> (\<exists>d. sx_deadline_ns sx = Some d \<and> d \<le> now)
     | ActiveLimit \<Rightarrow> length (filter (\<lambda>r. \<not> is_terminal (rs_status r)) (bt_values (cs_requests s)))
         = unat (sp_max_active_requests p)
     | QueueLimit \<Rightarrow> unat (sp_max_queued_requests p)
         \<le> length (filter (\<lambda>r. rs_status r = Queued) (bt_values (cs_requests s)))
     | KvCapacity \<Rightarrow> unat (sp_max_reserved_kv_bytes p) < unat (cs_reserved_kv_bytes s) +
         page_rounded (unat (sp_kv_page_tokens p)) (reserved_tokens sx) * unat (sp_kv_bytes_per_token p))"
  using assms(2) outcome.distinct(1)
proof (cases rule: admit_cases)
  case (refused reason' n)
  note P = reachable_policy [OF assms(1)] and D = sched_okD [OF reachable_ok [OF assms(1)]]
  have page: "sp_kv_page_tokens p \<noteq> 0" using D(1) P by (auto simp: policy_ok_def)
  have active: "length (filter (\<lambda>r. \<not> is_terminal (rs_status r)) (bt_values (cs_requests s)))
      \<le> unat (sp_max_active_requests p)"
    using D(8) P request_counts_totals [of s] by (simp add: request_counts_def)
  have why: "admission_rejection s sx now = Ok (Some reason)" using refused(2,3) by simp
  have kv: "unat (sp_max_reserved_kv_bytes p) < unat (cs_reserved_kv_bytes s) +
         page_rounded (unat (sp_kv_page_tokens p)) (reserved_tokens sx) * unat (sp_kv_bytes_per_token p)"
    if k: "reason = KvCapacity"
  proof -
    obtain b c where "reservation_bytes p sx = Ok b" "checked_add (cs_reserved_kv_bytes s) b = Some c"
      "sp_max_reserved_kv_bytes p < c"
      using why [unfolded k] P by (auto simp: admission_rejection_def basic_admission_rejection_def Let_def and_then_eq_Ok
          split: option.splits prod.splits if_splits)
    then show ?thesis
      using reservation_bytes_Ok(1) [OF _ page] checked_add_unat by (fastforce simp: word_less_nat_alt)
  qed
  have "case reason of
       InvalidPrefix \<Rightarrow> sx_prompt_tokens sx < sx_prefix_reused_tokens sx
     | PromptLimit \<Rightarrow> sp_max_prompt_tokens p < sx_prompt_tokens sx
     | OutputLimit \<Rightarrow> sx_max_output_tokens sx = 0 \<or> sp_max_output_tokens p < sx_max_output_tokens sx
     | InvalidPriority \<Rightarrow> sx_priority sx = 0 \<or> 100 < sx_priority sx
     | ExpiredDeadline \<Rightarrow> (\<exists>d. sx_deadline_ns sx = Some d \<and> d \<le> now)
     | ActiveLimit \<Rightarrow> length (filter (\<lambda>r. \<not> is_terminal (rs_status r)) (bt_values (cs_requests s)))
         = unat (sp_max_active_requests p)
     | QueueLimit \<Rightarrow> unat (sp_max_queued_requests p)
         \<le> length (filter (\<lambda>r. rs_status r = Queued) (bt_values (cs_requests s)))
     | KvCapacity \<Rightarrow> True"
    using why P active
    by (auto simp: admission_rejection_def basic_admission_rejection_def request_counts_def Let_def and_then_eq_Ok
        split: option.splits prod.splits if_splits)
  then show ?thesis
    using refused kv by (auto simp: status_of_def new_request_def split: AdmissionReject.splits)
qed simp_all

lemma demo_refused: "admit ((demo_spec 9 None)\<lparr>sx_priority := 101\<rparr>) 0 demo_two =
    (Ok (RejectedFor InvalidPriority), snd (admit ((demo_spec 9 None)\<lparr>sx_priority := 101\<rparr>) 0 demo_two))"
  by (simp add: admit_eval demo_eval)

theorem admit_refusal_is_justified_witness: "(101 :: u16) = 0 \<or> 100 < (101 :: u16)"
  using admit_refusal_is_justified [OF demo_reachable(3) demo_refused] by (simp add: demo_eval)

end
