(* ===== verification/Scheduler_Flow.thy ===== *)
theory Scheduler_Flow
  imports Scheduler_Demo
begin

text \<open>
  What a dispatch and a completion do, and how a request lives from admission to its end,
  in every reachable state.
\<close>

section \<open>Dispatch\<close>

lemma deadline_passed_iff:
  "deadline_passed now r \<longleftrightarrow> rs_status r = Queued \<and> (\<exists>d. sx_deadline_ns (rs_spec r) = Some d \<and> d \<le> now)"
  by (auto simp: deadline_passed_def is_urgent_def split: option.splits)

text \<open>What \<open>dispatch_batch_Ok\<close> says, read off for one dispatched request.\<close>

lemma dispatched_request:
  assumes ok: "sched_ok s" and b: "dispatch_batch now limit s = (Ok ds, t)" and d: "d \<in> set ds"
  obtains r where "bt_get (cs_requests s) (dp_request_id d) = Some r" and "rs_status r = Queued"
    and "\<not> deadline_passed now r" and "dispatch_ok (cs_policy s) d (dp_request_id d) r"
    and "dp_kind d = quantum_kind r" and "unat (dp_token_budget d) = unat (quantum_tokens (cs_policy s) r)"
    and "dp_dispatch_ns d = now" and "bt_get (cs_running t) (dp_request_id d) = Some d"
    and "bt_get (cs_requests t) (dp_request_id d) = Some (r\<lparr>rs_status := Running\<rparr>)"
proof -
  obtain e where e: "expire_deadlines now s = (Ok (), e)" "sched_ok e" "cs_policy e = cs_policy s"
    "map dp_request_id ds = batch_ids now limit e" "\<forall>d\<in>set ds. started e now d"
    "\<forall>d\<in>set ds. bt_get (cs_running t) (dp_request_id d) = Some d"
    "length ds \<le> unat (min limit (sp_max_batch_requests (cs_policy s)))"
    "\<forall>i. bt_get (cs_requests e) i = (case bt_get (cs_requests s) i of None \<Rightarrow> None
           | Some r \<Rightarrow> Some (if deadline_passed now r then expire_record r else r))"
    "\<forall>i. bt_get (cs_requests t) i = (if i \<in> dp_request_id ` set ds
           then map_option (\<lambda>r. r\<lparr>rs_status := Running\<rparr>) (bt_get (cs_requests e) i) else bt_get (cs_requests e) i)"
    "cs_expired t = cs_expired e" "cs_reserved_kv_bytes t = cs_reserved_kv_bytes e"
    by (rule dispatch_batch_Ok [OF ok b])
  let ?i = "dp_request_id d"
  have "?i \<in> set (map dp_request_id ds)" using d by simp
  then have "?i \<in> set (batch_ids now limit e)" unfolding e(4) .
  moreover have "\<forall>i\<in>set (batch_ids now limit e). \<exists>r. bt_get (cs_requests e) i = Some r \<and> rs_status r = Queued"
    using batch_ids_queued(1) [OF e(2), of now limit] unfolding all_queued_def by (rule conjunct2)
  ultimately obtain q where q: "bt_get (cs_requests e) ?i = Some q" "rs_status q = Queued" by blast
  obtain r where r: "bt_get (cs_requests s) ?i = Some r"
    "q = (if deadline_passed now r then expire_record r else r)"
    using q(1) e(8) by (auto split: option.splits)
  have rq: "\<not> deadline_passed now r" "q = r" using r(2) q(2) by (auto split: if_splits)
  obtain q' where "bt_get (cs_requests e) ?i = Some q'" "dispatch_ok (cs_policy e) d ?i q'"
    "dp_kind d = quantum_kind q'" "unat (dp_token_budget d) = unat (quantum_tokens (cs_policy e) q')"
    "dp_dispatch_ns d = now"
    using bspec [OF e(5) d] by (auto simp: started_def)
  then have st: "dispatch_ok (cs_policy s) d ?i r" "dp_kind d = quantum_kind r"
    "unat (dp_token_budget d) = unat (quantum_tokens (cs_policy s) r)" "dp_dispatch_ns d = now"
    using q(1) rq(2) e(3) by auto
  have "bt_get (cs_requests t) ?i = Some (r\<lparr>rs_status := Running\<rparr>)"
    using e(9) d q(1) rq(2) by simp
  moreover have "rs_status r = Queued" using q(2) rq(2) by simp
  ultimately show thesis
    using that [OF r(1) _ rq(1) st] bspec [OF e(6) d] by blast
qed

text \<open>The queue left behind by a dispatch is what the selection did not take.\<close>

lemma take_or_drop:
  assumes "x \<in> set (sort_by c xs)" and "f x \<notin> set (map f (take n (sort_by c xs)))"
  shows "x \<in> set (drop n (sort_by c xs))"
  using assms set_append [of "take n (sort_by c xs)" "drop n (sort_by c xs)"] by auto

lemma selected_preferred:
  assumes ok: "sched_ok e" and x: "bt_get (cs_requests e) i = Some x" "i \<in> set (batch_ids now limit e)"
    and y: "bt_get (cs_requests e) j = Some y" "rs_status y = Queued" "j \<notin> set (batch_ids now limit e)"
  shows "compare_requests now (cs_policy e) x y = Less"
proof -
  let ?c = "compare_requests now (cs_policy e)" and ?f = "\<lambda>r. sx_id (rs_spec r)"
  let ?n = "unat (min limit (sp_max_batch_requests (cs_policy e)))"
  let ?l = "sort_by ?c (queued_requests e)"
  note D = sched_okD [OF ok]
  have id: "?f r = k" if "bt_get (cs_requests e) k = Some r" for k r
    using D(5) [OF that] by (simp add: request_ok_def)
  have ids: "batch_ids now limit e = map ?f (take ?n ?l)" by (simp add: batch_ids_def select_batch_ids_def)
  have queued: "set ?l = {r. rs_status r = Queued \<and> (\<exists>k. bt_get (cs_requests e) k = Some r)}"
    by (auto simp: queued_requests_def bt_in_values [OF D(2)])
  obtain x' where x': "x' \<in> set (take ?n ?l)" "?f x' = i" using x(2) unfolding ids by auto
  then have "x' \<in> set ?l" by (meson in_set_takeD)
  then obtain k where "bt_get (cs_requests e) k = Some x'" unfolding queued by blast
  then have xx: "x' = x" using id x(1) x'(2) by force
  have "y \<in> set ?l" unfolding queued using y by blast
  moreover have "?f y \<notin> set (map ?f (take ?n ?l))" using y(3) id [OF y(1)] unfolding ids by simp
  ultimately have "y \<in> set (drop ?n ?l)" by (rule take_or_drop)
  then have "?c x y \<noteq> Greater" using cr.take_sort_by_preferred x'(1) xx by blast
  moreover have "?c x y \<noteq> Equal"
  proof
    assume "?c x y = Equal"
    then have "i = j" using compare_requests_Equal sched_ok_distinct_sequences [OF ok x(1) y(1)] by blast
    then show False using x(2) y(3) by simp
  qed
  ultimately show ?thesis by (cases "?c x y") auto
qed

lemma dispatched_before:
  assumes ok: "sched_ok s" and P: "cs_policy s = p" and b: "dispatch_batch now limit s = (Ok ds, t)" and "d \<in> set ds"
    and "bt_get (cs_requests s) (dp_request_id d) = Some x"
    and "bt_get (cs_requests t) j = Some y" and "rs_status y = Queued"
  shows "compare_requests now p x y = Less"
proof -
  obtain e where e: "expire_deadlines now s = (Ok (), e)" "sched_ok e" "cs_policy e = cs_policy s"
    "map dp_request_id ds = batch_ids now limit e" "\<forall>d\<in>set ds. started e now d"
    "\<forall>d\<in>set ds. bt_get (cs_running t) (dp_request_id d) = Some d"
    "length ds \<le> unat (min limit (sp_max_batch_requests (cs_policy s)))"
    "\<forall>i. bt_get (cs_requests e) i = (case bt_get (cs_requests s) i of None \<Rightarrow> None
           | Some r \<Rightarrow> Some (if deadline_passed now r then expire_record r else r))"
    "\<forall>i. bt_get (cs_requests t) i = (if i \<in> dp_request_id ` set ds
           then map_option (\<lambda>r. r\<lparr>rs_status := Running\<rparr>) (bt_get (cs_requests e) i) else bt_get (cs_requests e) i)"
    "cs_expired t = cs_expired e" "cs_reserved_kv_bytes t = cs_reserved_kv_bytes e"
    by (rule dispatch_batch_Ok [OF ok b])
  obtain r where r: "bt_get (cs_requests s) (dp_request_id d) = Some r" "\<not> deadline_passed now r"
    by (rule dispatched_request [OF ok b assms(4)]) blast
  have x: "bt_get (cs_requests e) (dp_request_id d) = Some x" using r assms(5) e(8) by simp
  have ids: "set (batch_ids now limit e) = dp_request_id ` set ds" by (simp flip: e(4))
  have jn: "j \<notin> dp_request_id ` set ds" using assms(6,7) e(9) by auto
  then have y: "bt_get (cs_requests e) j = Some y" using assms(6) e(9) by simp
  have "dp_request_id d \<in> set (batch_ids now limit e)" "j \<notin> set (batch_ids now limit e)"
    using assms(4) jn unfolding ids by auto
  from selected_preferred [OF e(2) x this(1) y assms(7) this(2)] show ?thesis using e(3) P by simp
qed

text \<open>The order of the queue, said without the comparator: a deadline is urgent when it is no
  further away than the urgent window.\<close>

definition urgent_deadline :: "u64 \<Rightarrow> SchedulerPolicy \<Rightarrow> RequestState \<Rightarrow> nat option" where
  "urgent_deadline now p r =
     (case sx_deadline_ns (rs_spec r) of
        Some d \<Rightarrow> if unat d \<le> unat now + unat (sp_urgent_window_ns p) then Some (unat d) else None
      | None \<Rightarrow> None)"

lemma is_urgent_deadline:
  "is_urgent r (saturating_add now (sp_urgent_window_ns p)) \<longleftrightarrow> urgent_deadline now p r \<noteq> None"
  "is_urgent r (saturating_add now (sp_urgent_window_ns p)) \<Longrightarrow>
    \<exists>d. sx_deadline_ns (rs_spec r) = Some d \<and> urgent_deadline now p r = Some (unat d)"
proof -
  have "d \<le> saturating_add now (sp_urgent_window_ns p) \<longleftrightarrow> unat d \<le> unat now + unat (sp_urgent_window_ns p)" for d :: u64
    using unat_lt_2p [of d]
    by (auto simp: saturating_add_def checked_add_def word_le_nat_alt unat_word_ariths take_bit_nat_eq_self unsigned_minus_1_eq_mask mask_eq_exp_minus_1)
  then show "is_urgent r (saturating_add now (sp_urgent_window_ns p)) \<longleftrightarrow> urgent_deadline now p r \<noteq> None"
    "is_urgent r (saturating_add now (sp_urgent_window_ns p)) \<Longrightarrow>
      \<exists>d. sx_deadline_ns (rs_spec r) = Some d \<and> urgent_deadline now p r = Some (unat d)"
    by (auto simp: is_urgent_def urgent_deadline_def split: option.splits)
qed

text \<open>C5: A dispatched batch holds the most preferred requests. Against every request still queued
  afterwards, a dispatched one whose deadline is urgent either faces a request with no urgent
  deadline, or has the earlier deadline, or on equal deadlines the smaller virtual runtime, or on
  equal runtimes the earlier arrival number; priority plays no part between urgent requests. A
  dispatched one without an urgent deadline leaves only requests without one behind, and has the
  smaller virtual runtime, or on equal runtimes the higher priority, or on equal priorities the
  earlier arrival number.\<close>

theorem dispatch_prefers:
  assumes "sched_reachable p s" and "dispatch_batch now limit s = (Ok ds, t)" and "d \<in> set ds"
    and "bt_get (cs_requests s) (dp_request_id d) = Some x"
    and "bt_get (cs_requests t) j = Some y" and "rs_status y = Queued"
  shows "case urgent_deadline now p x of
      Some a \<Rightarrow> (case urgent_deadline now p y of
          None \<Rightarrow> True
        | Some b \<Rightarrow> a < b \<or> a = b \<and> (rs_virtual_runtime x < rs_virtual_runtime y \<or>
            rs_virtual_runtime x = rs_virtual_runtime y \<and> rs_sequence x < rs_sequence y))
    | None \<Rightarrow> urgent_deadline now p y = None \<and>
        (rs_virtual_runtime x < rs_virtual_runtime y \<or>
         rs_virtual_runtime x = rs_virtual_runtime y \<and> (sx_priority (rs_spec y) < sx_priority (rs_spec x) \<or>
           sx_priority (rs_spec x) = sx_priority (rs_spec y) \<and> rs_sequence x < rs_sequence y))"
proof -
  have less: "compare_requests now p x y = Less"
    by (rule dispatched_before [OF reachable_ok [OF assms(1)] reachable_policy [OF assms(1)] assms(2-6)])
  show ?thesis
  proof (cases "urgent_deadline now p x")
    case None
    then show ?thesis using less
      by (auto simp: compare_requests_def Let_def is_urgent_deadline(1) then_with_Less then_with_Equal split: if_splits)
  next
    case (Some a)
    then obtain dx where dx: "sx_deadline_ns (rs_spec x) = Some dx" "a = unat dx"
      using is_urgent_deadline [of x now p] by auto
    show ?thesis
    proof (cases "urgent_deadline now p y")
      case (Some b)
      then obtain dy where "sx_deadline_ns (rs_spec y) = Some dy" "b = unat dy"
        using is_urgent_deadline [of y now p] by auto
      then show ?thesis using less Some \<open>urgent_deadline now p x = Some a\<close> dx
        by (auto simp: compare_requests_def Let_def is_urgent_deadline(1) then_with_Less then_with_Equal word_less_nat_alt)
    qed (simp add: Some)
  qed
qed

theorem dispatch_prefers_witness:
  "urgent_deadline 7 demo_policy (demo_request 1 (Some 5000)) = Some 5000 \<and>
   urgent_deadline 7 demo_policy (demo_request 0 None) = None"
  using dispatch_prefers [OF demo_reachable(3) demo_dispatch, of demo_dispatch "demo_request 1 (Some 5000)" "RequestId 0" "demo_request 0 None"]
  by (simp add: demo_eval bt_get_def urgent_deadline_def)

text \<open>A batch is no wider than the caller's limit and the policy's; each dispatch is for
  a request that was queued with its deadline still ahead and is now running, its budget
  is positive and is the smaller of the tokens the request still needs in its phase and
  the phase's chunk, prefill coming before decode.\<close>

theorem dispatch_budgets:
  assumes "sched_reachable p s" and "dispatch_batch now limit s = (Ok ds, t)"
  shows "length ds \<le> unat limit \<and> length ds \<le> unat (sp_max_batch_requests p) \<and>
    (\<forall>d\<in>set ds. \<exists>r. bt_get (cs_requests s) (dp_request_id d) = Some r \<and> rs_status r = Queued \<and>
       (\<forall>deadline. sx_deadline_ns (rs_spec r) = Some deadline \<longrightarrow> now < deadline) \<and>
       0 < unat (dp_token_budget d) \<and>
       (if rs_remaining_prefill_tokens r = 0
        then dp_kind d = Decode \<and> unat (dp_token_budget d)
               = min (unat (rs_remaining_tokens r)) (unat (sp_service_quantum_tokens p))
        else dp_kind d = Prefill \<and> unat (dp_token_budget d)
               = min (unat (rs_remaining_prefill_tokens r)) (unat (sp_prefill_chunk_tokens p))) \<and>
       bt_get (cs_requests t) (dp_request_id d) = Some (r\<lparr>rs_status := Running\<rparr>) \<and>
       bt_get (cs_running t) (dp_request_id d) = Some d)"
proof -
  note ok = reachable_ok [OF assms(1)] and P = reachable_policy [OF assms(1)]
  have "length ds \<le> unat (min limit (sp_max_batch_requests p))"
    by (rule dispatch_batch_Ok [OF ok assms(2)]) (simp add: P)
  then have len: "length ds \<le> unat limit" "length ds \<le> unat (sp_max_batch_requests p)"
    by (simp_all add: unat_min)
  have each: "\<exists>r. bt_get (cs_requests s) (dp_request_id d) = Some r \<and> rs_status r = Queued \<and>
       (\<forall>deadline. sx_deadline_ns (rs_spec r) = Some deadline \<longrightarrow> now < deadline) \<and>
       0 < unat (dp_token_budget d) \<and>
       (if rs_remaining_prefill_tokens r = 0
        then dp_kind d = Decode \<and> unat (dp_token_budget d)
               = min (unat (rs_remaining_tokens r)) (unat (sp_service_quantum_tokens p))
        else dp_kind d = Prefill \<and> unat (dp_token_budget d)
               = min (unat (rs_remaining_prefill_tokens r)) (unat (sp_prefill_chunk_tokens p))) \<and>
       bt_get (cs_requests t) (dp_request_id d) = Some (r\<lparr>rs_status := Running\<rparr>) \<and>
       bt_get (cs_running t) (dp_request_id d) = Some d" if d: "d \<in> set ds" for d
  proof (rule dispatched_request [OF ok assms(2) d])
    fix r
    assume r: "bt_get (cs_requests s) (dp_request_id d) = Some r" "rs_status r = Queued" "\<not> deadline_passed now r"
      "dispatch_ok (cs_policy s) d (dp_request_id d) r" "dp_kind d = quantum_kind r"
      "unat (dp_token_budget d) = unat (quantum_tokens (cs_policy s) r)"
      "bt_get (cs_running t) (dp_request_id d) = Some d"
      "bt_get (cs_requests t) (dp_request_id d) = Some (r\<lparr>rs_status := Running\<rparr>)"
    have "\<forall>deadline. sx_deadline_ns (rs_spec r) = Some deadline \<longrightarrow> now < deadline"
      using r(2,3) by (auto simp: deadline_passed_def is_urgent_def not_le)
    moreover have "0 < unat (dp_token_budget d)" using r(4) by (simp add: dispatch_ok_def)
    moreover have "if rs_remaining_prefill_tokens r = 0
        then dp_kind d = Decode \<and> unat (dp_token_budget d)
               = min (unat (rs_remaining_tokens r)) (unat (sp_service_quantum_tokens p))
        else dp_kind d = Prefill \<and> unat (dp_token_budget d)
               = min (unat (rs_remaining_prefill_tokens r)) (unat (sp_prefill_chunk_tokens p))"
      using r(5,6) P by (simp add: unat_quantum_tokens quantum_kind_def word_greater_zero_iff)
    ultimately show ?thesis using r by blast
  qed
  show ?thesis by (intro conjI len ballI each)
qed

theorem dispatch_budgets_witness: "length [demo_dispatch] \<le> unat (1 :: u32) \<and> 0 < unat (dp_token_budget demo_dispatch)"
  using dispatch_budgets [OF demo_reachable(3) demo_dispatch] by auto

text \<open>A successful dispatch expires every queued request whose deadline has come: it is
  marked, its reservation is returned and it is reported in the expired list, in key
  order; afterwards no queued request has a deadline at or before the dispatch time.\<close>

theorem dispatch_expires:
  assumes "sched_reachable p s" and "dispatch_batch now limit s = (Ok ds, t)"
  shows "cs_expired t = cs_expired s @
      map (\<lambda>r. sx_id (rs_spec r)) (filter (\<lambda>r. rs_status r = Queued \<and>
        (\<exists>d. sx_deadline_ns (rs_spec r) = Some d \<and> d \<le> now)) (bt_values (cs_requests s))) \<and>
    (\<forall>i r d. bt_get (cs_requests s) i = Some r \<longrightarrow> rs_status r = Queued \<longrightarrow>
       sx_deadline_ns (rs_spec r) = Some d \<longrightarrow> d \<le> now \<longrightarrow>
       bt_get (cs_requests t) i = Some (r\<lparr>rs_status := DeadlineExpired, rs_reserved_kv_bytes := 0\<rparr>)) \<and>
    (\<forall>i r d. bt_get (cs_requests t) i = Some r \<longrightarrow> rs_status r = Queued \<longrightarrow>
       sx_deadline_ns (rs_spec r) = Some d \<longrightarrow> now < d)"
proof -
  note ok = reachable_ok [OF assms(1)]
  obtain e where e: "expire_deadlines now s = (Ok (), e)" "sched_ok e" "cs_policy e = cs_policy s"
    "map dp_request_id ds = batch_ids now limit e" "\<forall>d\<in>set ds. started e now d"
    "\<forall>d\<in>set ds. bt_get (cs_running t) (dp_request_id d) = Some d"
    "length ds \<le> unat (min limit (sp_max_batch_requests (cs_policy s)))"
    "\<forall>i. bt_get (cs_requests e) i = (case bt_get (cs_requests s) i of None \<Rightarrow> None
           | Some r \<Rightarrow> Some (if deadline_passed now r then expire_record r else r))"
    "\<forall>i. bt_get (cs_requests t) i = (if i \<in> dp_request_id ` set ds
           then map_option (\<lambda>r. r\<lparr>rs_status := Running\<rparr>) (bt_get (cs_requests e) i) else bt_get (cs_requests e) i)"
    "cs_expired t = cs_expired e" "cs_reserved_kv_bytes t = cs_reserved_kv_bytes e"
    by (rule dispatch_batch_Ok [OF ok assms(2)])
  have passed: "deadline_passed now = (\<lambda>r. rs_status r = Queued \<and> (\<exists>d. sx_deadline_ns (rs_spec r) = Some d \<and> d \<le> now))"
    by (simp add: deadline_passed_iff fun_eq_iff)
  have "cs_expired t = cs_expired s @ map (\<lambda>r. sx_id (rs_spec r)) (filter (deadline_passed now) (bt_values (cs_requests s)))"
    by (rule expire_deadlines_run [OF ok, of now]) (use e(1,10) in simp)
  moreover have "bt_get (cs_requests t) i = Some (expire_record r)"
    if r: "bt_get (cs_requests s) i = Some r" "deadline_passed now r" for i r
  proof -
    have "i \<notin> dp_request_id ` set ds"
    proof
      assume "i \<in> dp_request_id ` set ds"
      then obtain d where d: "d \<in> set ds" "i = dp_request_id d" by blast
      show False by (rule dispatched_request [OF ok assms(2) d(1)]) (use r d(2) in simp)
    qed
    then show ?thesis using e(8,9) r by simp
  qed
  moreover have "now < d" if t: "bt_get (cs_requests t) i = Some r" "rs_status r = Queued"
    "sx_deadline_ns (rs_spec r) = Some d" for i r d
  proof -
    have "i \<notin> dp_request_id ` set ds" using t e(9) by auto
    then have "bt_get (cs_requests e) i = Some r" using t(1) e(9) by simp
    then have "bt_get (cs_requests s) i = Some r" "\<not> deadline_passed now r"
      using e(8) t(2) by (auto split: option.splits if_splits)
    then show ?thesis using t(2,3) by (auto simp: passed not_le)
  qed
  ultimately show ?thesis by (auto simp: passed expire_record_def)
qed

lemma demo_late: "dispatch_batch 6000 1 demo_two =
    (Ok [demo_dispatch\<lparr>dp_request_id := RequestId 0, dp_dispatch_ns := 6000\<rparr>], snd (dispatch_batch 6000 1 demo_two))"
  by (simp add: dispatch_eval admit_eval demo_eval)

theorem dispatch_expires_witness: "cs_expired (snd (dispatch_batch 6000 1 demo_two)) = [RequestId 1]"
  using dispatch_expires [OF demo_reachable(3) demo_late] by (simp add: demo_eval bt_values_def)

text \<open>C11: Dispatch never starves an idle scheduler: with nothing in flight, a nonzero limit
  and room in the quantum counter, a dispatch succeeds, and it returns at least one
  request whenever one is queued whose deadline is still ahead.\<close>

theorem dispatch_makes_progress:
  assumes "sched_reachable p s" and "cs_running s = []" and "limit \<noteq> 0"
    and "unat (st_dispatched_quanta (cs_stats s)) + unat limit < 2 ^ 64"
  shows "\<exists>ds t. dispatch_batch now limit s = (Ok ds, t) \<and>
    (ds = [] \<longleftrightarrow> (\<forall>i r. bt_get (cs_requests s) i = Some r \<longrightarrow> rs_status r = Queued \<longrightarrow>
       (\<exists>d. sx_deadline_ns (rs_spec r) = Some d \<and> d \<le> now)))"
proof -
  note ok = reachable_ok [OF assms(1)] and P = reachable_policy [OF assms(1)]
  obtain e fs u where run: "expire_deadlines now s = (Ok (), e)" "sched_ok e"
    "start_batch (batch_ids now limit e) now e = (Ok fs, u)" "sched_ok u"
    "dispatch_batch now limit s = (case record_batch_dispatch fs u of (r, v) \<Rightarrow> (and_then r (\<lambda>_. Ok fs), v))"
    "map dp_request_id fs = batch_ids now limit e" "\<forall>d\<in>set fs. started e now d"
    "\<forall>d\<in>set fs. bt_get (cs_running u) (dp_request_id d) = Some d"
    "length fs \<le> unat (min limit (sp_max_batch_requests (cs_policy s)))"
    "cs_policy e = cs_policy s" "cs_policy u = cs_policy s"
    by (rule dispatch_batch_run [OF ok assms(2,3), of now])
  obtain e' where E: "expire_deadlines now s = (Ok (), e')" "sched_ok e'" "cs_policy e' = cs_policy s"
    "cs_running e' = cs_running s" "cs_next_sequence e' = cs_next_sequence s"
    "st_dispatched_quanta (cs_stats e') = st_dispatched_quanta (cs_stats s)"
    "\<forall>i. bt_get (cs_requests e') i = (case bt_get (cs_requests s) i of None \<Rightarrow> None
           | Some r \<Rightarrow> Some (if deadline_passed now r then expire_record r else r))"
    "cs_expired e' = cs_expired s @ map (\<lambda>r. sx_id (rs_spec r)) (filter (deadline_passed now) (bt_values (cs_requests s)))"
    by (rule expire_deadlines_run [OF ok, of now])
  have ee: "e' = e" using run(1) E(1) by simp
  have stats: "st_dispatched_quanta (cs_stats u) = st_dispatched_quanta (cs_stats s)"
    using start_batch_stats [OF run(3)] E(6) ee by simp
  have "length fs \<le> unat limit" using run(9) by (simp add: unat_min)
  moreover have "unat (word_of_usize (length fs) :: u64) \<le> length fs" by (rule unat_word_of_usize_le)
  ultimately have "unat (st_dispatched_quanta (cs_stats u)) + unat (word_of_usize (length fs) :: u64) < 2 ^ 64"
    using assms(4) stats by simp
  then have "fst (record_batch_dispatch fs u) = Ok ()"
    by (simp add: record_batch_dispatch_def Let_def checked_add_def)
  then have d: "dispatch_batch now limit s = (Ok fs, snd (record_batch_dispatch fs u))"
    unfolding run(5) by (cases "record_batch_dispatch fs u") simp
  have pos: "0 < unat (min limit (sp_max_batch_requests (cs_policy e)))"
    using assms(3) sched_okD(1) [OF run(2)] by (simp add: policy_ok_def unat_gt_0_iff unat_min)
  have "fs = [] \<longleftrightarrow> batch_ids now limit e = []" by (simp flip: run(6))
  also have "\<dots> \<longleftrightarrow> sort_by (compare_requests now (cs_policy e)) (queued_requests e) = []"
    using pos by (simp add: batch_ids_def select_batch_ids_def)
  also have "\<dots> \<longleftrightarrow> set (queued_requests e) = {}"
    using set_sort_by [of "compare_requests now (cs_policy e)" "queued_requests e"] by (metis set_empty)
  also have "\<dots> \<longleftrightarrow> (\<forall>i r. bt_get (cs_requests e) i = Some r \<longrightarrow> rs_status r \<noteq> Queued)"
    by (auto simp: queued_requests_def bt_in_values [OF sched_okD(2) [OF run(2)]])
  also have "\<dots> \<longleftrightarrow> (\<forall>i r. bt_get (cs_requests s) i = Some r \<longrightarrow> rs_status r = Queued \<longrightarrow> deadline_passed now r)"
    unfolding E(7) [rule_format, unfolded ee] by (auto split: option.splits)
  also have "\<dots> \<longleftrightarrow> (\<forall>i r. bt_get (cs_requests s) i = Some r \<longrightarrow> rs_status r = Queued \<longrightarrow>
       (\<exists>d. sx_deadline_ns (rs_spec r) = Some d \<and> d \<le> now))"
    by (simp add: deadline_passed_iff)
  finally show ?thesis using d by blast
qed

theorem dispatch_makes_progress_witness: "\<exists>ds t. dispatch_batch 6000 1 demo_two = (Ok ds, t) \<and> ds \<noteq> []"
proof -
  have "bt_get (cs_requests demo_two) (RequestId 0) = Some (demo_request 0 None)"
    "rs_status (demo_request 0 None) = Queued" "sx_deadline_ns (rs_spec (demo_request 0 None)) = None"
    by (simp_all add: demo_eval bt_get_def)
  moreover have "\<exists>ds t. dispatch_batch 6000 1 demo_two = (Ok ds, t) \<and>
    (ds = [] \<longleftrightarrow> (\<forall>i r. bt_get (cs_requests demo_two) i = Some r \<longrightarrow> rs_status r = Queued \<longrightarrow>
       (\<exists>d. sx_deadline_ns (rs_spec r) = Some d \<and> d \<le> 6000)))"
    by (rule dispatch_makes_progress [OF demo_reachable(3)]) (simp_all add: demo_eval)
  ultimately show ?thesis by (metis option.distinct(1))
qed

section \<open>Completion\<close>

text \<open>C6: Completing a quantum takes the request out of flight and leaves every other one
  alone. A request that was asked to cancel ends cancelled; otherwise a prefill quantum
  puts it back in the queue, and a decode quantum finishes it when the model stopped or no
  token is left. Emitted tokens are counted once, and exactly the reservation of a request
  that ended is returned to the ledger.\<close>

theorem completion_effect:
  assumes "sched_reachable p s" and "complete_quantum_with_progress i emitted progress ready eos s = (Ok qc, t)"
  shows "\<exists>d r q. bt_get (cs_running s) i = Some d \<and> bt_get (cs_requests s) i = Some r \<and>
    bt_get (cs_requests t) = (bt_get (cs_requests s))(i \<mapsto> q) \<and>
    bt_get (cs_running t) = (bt_get (cs_running s))(i := None) \<and>
    emitted \<le> dp_token_budget d \<and> progress \<le> dp_token_budget d \<and> qc_status qc = rs_status q \<and>
    rs_status q = (if rs_cancellation_requested r then Cancelled else if dp_kind d = Prefill then Queued
       else if eos \<or> unat (rs_remaining_tokens r) = unat emitted then Finished else Queued) \<and>
    unat (rs_emitted_tokens q) = unat (rs_emitted_tokens r) + unat emitted \<and>
    unat (cs_reserved_kv_bytes s) = unat (cs_reserved_kv_bytes t) +
      (if is_terminal (rs_status q) then unat (rs_reserved_kv_bytes r) else 0) \<and>
    (is_terminal (rs_status q) \<longrightarrow> rs_reserved_kv_bytes q = 0)"
  using reachable_ok [OF assms(1)] assms(2) outcome.distinct(1)
proof (cases rule: complete_quantum_cases)
  case (committed d r q st)
  note P = apply_quantum_state_Ok [OF committed(6)] and ok = reachable_ok [OF assms(1)]
  note B = progressed_bounds [OF P(1) committed(4,5)]
  have run: "(Ok qc, t) = (Ok \<lparr>qc_request_id = i, qc_emitted_tokens = emitted, qc_status = rs_status q\<rparr>,
     s\<lparr>cs_requests := bt_insert i (settle q) (cs_requests s),
       cs_reserved_kv_bytes := (if is_terminal (rs_status q) then cs_reserved_kv_bytes s - rs_reserved_kv_bytes q
                                else cs_reserved_kv_bytes s),
       cs_running := bt_remove i (cs_running s), cs_stats := st\<rparr>)"
    using complete_quantum_run [OF committed(1,2,4,6)] assms(2) by simp
  have same: "rs_reserved_kv_bytes q = rs_reserved_kv_bytes r" "rs_cancellation_requested q = rs_cancellation_requested r"
    using P(1) by (auto simp: progressed_def)
  have em: "unat (rs_emitted_tokens q) = unat (rs_emitted_tokens r) + unat emitted"
    using P(1) committed(4) by (cases "dp_kind d") (auto simp: progressed_def quantum_valid_def)
  then have "unat (rs_remaining_tokens q) = 0 \<longleftrightarrow> unat (rs_remaining_tokens r) = unat emitted"
    using B(1) by linarith
  then have rem: "rs_remaining_tokens q = 0 \<longleftrightarrow> unat (rs_remaining_tokens r) = unat emitted"
    by (simp add: unat_eq_0)
  have freed: "unat (cs_reserved_kv_bytes s) = unat (cs_reserved_kv_bytes s - rs_reserved_kv_bytes r) + unat (rs_reserved_kv_bytes r)"
    using reserved_weight_le [OF ok committed(2)] by (simp add: unat_wrap_sub word_le_nat_alt)
  show ?thesis
    using run committed(1,2,4) P(2) same em rem freed
    by (intro exI [of _ d] exI [of _ r] exI [of _ "settle q"])
       (simp add: settle_def status_after_def quantum_valid_def)
qed simp_all

theorem completion_effect_witness:
  "unat (cs_reserved_kv_bytes demo_flagged) = unat (cs_reserved_kv_bytes demo_cancelled) + 2048"
  using completion_effect [OF demo_reachable(5) demo_complete_flagged] by (auto simp: demo_eval bt_get_def)

end
