(* ===== verification/Scheduler_Lifecycle.thy ===== *)
theory Scheduler_Lifecycle
  imports Scheduler_Demo
begin

text \<open>
  Properties that span calls: no public operation panics, the state diagram of a request,
  cancellation across any later history, the fair-share charge of a quantum, the number of
  quanta a workload can still take, and the one place where the ledger can be left wrong.
\<close>

section \<open>Panics\<close>

text \<open>C3: In every reachable state no public operation of the scheduler panics: no
  \<open>expect\<close> finds its request missing and no division by a zero priority happens.\<close>

theorem scheduler_never_panics:
  assumes "sched_reachable p s"
  shows "fst (admit sx now s) \<noteq> Panic \<and> fst (dispatch_batch now limit s) \<noteq> Panic \<and>
    fst (dispatch_one now s) \<noteq> Panic \<and>
    fst (complete_quantum_with_progress i emitted progress ready eos s) \<noteq> Panic \<and>
    fst (complete_quantum i emitted eos s) \<noteq> Panic \<and>
    fst (abort_quantum i s) \<noteq> Panic \<and> fst (cancel i s) \<noteq> Panic"
proof -
  note ok = reachable_ok [OF assms]
  have batch: "fst (dispatch_batch now limit s) \<noteq> Panic" for limit
    using dispatch_batch_ok [OF ok, of now limit "fst (dispatch_batch now limit s)" "snd (dispatch_batch now limit s)"]
    by simp
  have progress: "fst (complete_quantum_with_progress i emitted progress ready eos s) \<noteq> Panic" for progress ready
    using complete_quantum_ok [OF ok, of i emitted progress ready eos]
    by (cases "complete_quantum_with_progress i emitted progress ready eos s") fastforce
  have "fst (admit sx now s) \<noteq> Panic"
    using admit_ok [OF ok, of sx now] by (cases "admit sx now s") fastforce
  moreover have "fst (dispatch_one now s) \<noteq> Panic"
    using batch [of 1] by (cases "dispatch_batch now 1 s"; cases "fst (dispatch_batch now 1 s)") (auto simp: dispatch_one_def)
  moreover have "fst (complete_quantum i emitted eos s) \<noteq> Panic"
    using progress by (cases "bt_get (cs_running s) i") (auto simp: complete_quantum_def)
  moreover have "fst (abort_quantum i s) \<noteq> Panic"
    using abort_quantum_ok [OF ok, of i "fst (abort_quantum i s)" "snd (abort_quantum i s)"] by simp
  moreover have "fst (cancel i s) \<noteq> Panic"
    using cancel_ok [OF ok, of i "fst (cancel i s)" "snd (cancel i s)"] by simp
  ultimately show ?thesis using batch progress by blast
qed

theorem scheduler_never_panics_witness:
  "fst (complete_quantum_with_progress (RequestId 1) 9 9 True True demo_busy) \<noteq> Panic"
  using scheduler_never_panics [OF demo_reachable(4)] by blast

section \<open>The state diagram\<close>

text \<open>C7: Across any public call the record of a request follows the state diagram: queued
  to running, cancelled or expired; running to queued, finished or cancelled; terminal
  records never change. Its spec and sequence number stay, its emitted tokens and virtual
  runtime never fall, and what it has left to do never grows.\<close>

theorem status_lifecycle:
  assumes "sched_reachable p s" and "sched_step s t"
    and "bt_get (cs_requests s) i = Some r" and "bt_get (cs_requests t) i = Some q"
  shows "(case rs_status r of
       Queued \<Rightarrow> rs_status q \<in> {Queued, Running, Cancelled, DeadlineExpired}
     | Running \<Rightarrow> rs_status q \<in> {Running, Queued, Finished, Cancelled}
     | _ \<Rightarrow> q = r) \<and>
    rs_spec q = rs_spec r \<and> rs_sequence q = rs_sequence r \<and>
    rs_emitted_tokens r \<le> rs_emitted_tokens q \<and> rs_virtual_runtime r \<le> rs_virtual_runtime q \<and>
    rs_remaining_tokens q \<le> rs_remaining_tokens r \<and>
    rs_remaining_prefill_tokens q \<le> rs_remaining_prefill_tokens r"
  using sched_step_life [OF assms(2) reachable_ok [OF assms(1)] assms(3,4)]
  by (auto simp: life_def word_le_nat_alt split: RequestStatus.splits)

theorem status_lifecycle_witness: "(0 :: u128) \<le> 6144 \<and> Queued \<in> {Running, Queued, Finished, Cancelled}"
  using status_lifecycle [OF demo_reachable(4) step_progress [OF demo_complete], of "RequestId 1"]
  by (simp add: demo_eval bt_get_def)

text \<open>C8: A cancellation asked of a running request is never lost: whatever calls follow,
  as long as that request's record is kept it is either still in its quantum with the
  request noted, or cancelled. It cannot finish, run again or go back to the queue.\<close>

theorem cancellation_is_honoured:
  assumes "sched_reachable p s" and "cancel i s = (Ok Running, t)" and "sched_step\<^sup>*\<^sup>* t u"
    and "bt_get (cs_requests t) i = Some r" and "bt_get (cs_requests u) i = Some q"
    and "rs_sequence q = rs_sequence r"
  shows "rs_status q = Cancelled \<or> rs_status q = Running \<and> rs_cancellation_requested q"
proof -
  have t: "sched_ok t" using cancel_ok [OF reachable_ok [OF assms(1)] assms(2)] by simp
  have r: "rs_status r = Running \<and> rs_cancellation_requested r"
    using assms(2,4) sched_okD(5) [OF reachable_ok [OF assms(1)]]
    by (cases "bt_get (cs_requests s) i") (auto simp: cancel_def split: if_splits)
  show ?thesis
    by (rule kept_along_steps [OF assms(3) t assms(4) _ _ assms(5,6),
        where P = "\<lambda>q. rs_status q = Cancelled \<or> rs_status q = Running \<and> rs_cancellation_requested q"])
       (use r in \<open>auto simp: life_def\<close>)
qed

theorem cancellation_is_honoured_witness: "rs_status (the (bt_get (cs_requests demo_cancelled) (RequestId 1))) = Cancelled"
proof -
  have "sched_step\<^sup>*\<^sup>* demo_flagged demo_cancelled"
    using step_progress [OF demo_complete_flagged] by (simp add: r_into_rtranclp)
  from cancellation_is_honoured [OF demo_reachable(4) demo_cancel this] show ?thesis
    by (simp add: demo_eval bt_get_def)
qed

text \<open>The largest number of tokens ever emitted after a cancellation was asked, which
  the statistics record, never exceeds one service quantum.\<close>

theorem overshoot_within_quantum:
  assumes "sched_reachable p s"
  shows "st_max_cancellation_overshoot_tokens (cs_stats s) \<le> sp_service_quantum_tokens p"
  using reachable_overshoot [OF assms] reachable_policy [OF assms] by (simp add: overshoot_ok_def)

theorem overshoot_within_quantum_witness: "st_max_cancellation_overshoot_tokens (cs_stats demo_flagged) \<le> 4"
  using overshoot_within_quantum [OF demo_reachable(5)] by (simp add: demo_eval)

section \<open>Fair shares\<close>

lemma unat_div_ceil:
  fixes a :: "'a::len word"
  assumes "b \<noteq> 0" and "unat a + unat b < 2 ^ LENGTH('a)"
  shows "unat (div_ceil a b) = (unat a + unat b - 1) div unat b"
proof -
  have b: "0 < unat b" using assms(1) by (simp add: unat_gt_0_iff)
  have m: "a mod b = 0 \<longleftrightarrow> unat a mod unat b = 0"
    using unat_mod [of a b] by (metis unat_eq_0)
  have ceil: "(n + k - 1) div k = (if n mod k = 0 then n div k else n div k + 1)" if "0 < k" for n k :: nat
  proof (cases "n mod k = 0")
    case True
    then have "n + k - 1 = n div k * k + (k - 1)" using that by (metis Nat.add_diff_assoc One_nat_def Suc_leI div_mult_mod_eq add.right_neutral)
    then have "(n + k - 1) div k = n div k + (k - 1) div k" using that by (metis div_mult_self3 less_not_refl)
    then show ?thesis using True that by simp
  next
    case False
    have e: "(n div k + 1) * k = n div k * k + k" by (simp add: algebra_simps)
    have "n div k * k + n mod k = n" by (rule div_mult_mod_eq)
    then have "n + k - 1 = (n mod k - 1) + (n div k + 1) * k"
      using False unfolding e by linarith
    then have "(n + k - 1) div k = (n mod k - 1) div k + (n div k + 1)" using that by (metis add.commute div_mult_self3 less_not_refl)
    moreover have "n mod k - 1 < k" using that by (metis less_imp_diff_less mod_less_divisor)
    ultimately show ?thesis using False by simp
  qed
  have "unat a div unat b \<le> unat a" by (rule div_le_dividend)
  then have "unat a div unat b + 1 < 2 ^ LENGTH('a)" using assms(2) b by linarith
  then have "unat (a div b + 1) = unat a div unat b + 1"
    by (simp add: unat_word_ariths unat_div take_bit_nat_eq_self)
  then show ?thesis using ceil [OF b] m by (simp add: div_ceil_def unat_div)
qed

lemma unat_runtime_charge:
  assumes "runtime_charge n w = Ok c"
  shows "unat c = (unat n * 1024 + unat w - 1) div unat w"
proof -
  have w: "w \<noteq> 0" and c: "c = div_ceil (saturating_mul (ucast n) 1024) (ucast w)"
    using assms by (auto simp: runtime_charge_def split: if_splits)
  have n: "unat n < 2 ^ 64" and w16: "unat w < 2 ^ 16"
    using unat_lt_2p [of n] unat_lt_2p [of w] by simp_all
  then have m: "checked_mul (ucast n :: u128) 1024 = Some (ucast n * 1024)" by (simp add: checked_mul_def)
  have "unat (ucast n * 1024 :: u128) = unat n * 1024" using checked_mul_unat [OF m] by simp
  moreover have "(ucast w :: u128) \<noteq> 0" using w by (metis unat_eq_0 unat_u16_to_u128)
  ultimately show ?thesis
    using n w16 unat_div_ceil [of "ucast w" "ucast n * 1024 :: u128"] by (simp add: c saturating_mul_def m)
qed

lemma apply_quantum_runtime:
  assumes "apply_quantum_state d emitted progress ready eos (r, st) = (Ok (), q, st')"
  shows "\<exists>c. runtime_charge (ucast (case dp_kind d of Prefill \<Rightarrow> progress | Decode \<Rightarrow> emitted)) (sx_priority (rs_spec r)) = Ok c \<and>
    checked_add (rs_virtual_runtime r) c = Some (rs_virtual_runtime q)"
  using assms
  by (auto simp: apply_quantum_state_def apply_prefill_progress_def apply_decode_progress_def
      try_pure_cases try_st_cases Let_def apply_quantum_status_def and_then_eq_Ok
      split: outcome.splits if_splits DispatchKind.splits)

text \<open>A completed quantum advances the request's virtual runtime by 1024 units per
  token processed, divided by its priority and rounded up, so a request of twice the
  priority is charged half; no other request's clock moves.\<close>

theorem completion_charges_runtime:
  assumes "sched_reachable p s" and "complete_quantum_with_progress i emitted progress ready eos s = (Ok qc, t)"
    and "bt_get (cs_requests s) i = Some r" and "bt_get (cs_running s) i = Some d"
  shows "\<exists>q. bt_get (cs_requests t) = (bt_get (cs_requests s))(i \<mapsto> q) \<and>
    unat (rs_virtual_runtime q) = unat (rs_virtual_runtime r) +
      (unat (if dp_kind d = Prefill then progress else emitted) * 1024 + unat (sx_priority (rs_spec r)) - 1)
        div unat (sx_priority (rs_spec r))"
  using reachable_ok [OF assms(1)] assms(2) outcome.distinct(1)
proof (cases rule: complete_quantum_cases)
  case (committed d' r' q st)
  have same: "d' = d" "r' = r" using committed(1,2) assms(3,4) by auto
  obtain c where c: "runtime_charge (ucast (case dp_kind d of Prefill \<Rightarrow> progress | Decode \<Rightarrow> emitted)) (sx_priority (rs_spec r)) = Ok c"
    "checked_add (rs_virtual_runtime r) c = Some (rs_virtual_runtime q)"
    using apply_quantum_runtime [OF committed(6)] same by blast
  have "bt_get (cs_requests t) = (bt_get (cs_requests s))(i \<mapsto> settle q)"
    using complete_quantum_run [OF committed(1,2,4,6)] assms(2) by simp
  moreover have "rs_virtual_runtime (settle q) = rs_virtual_runtime q" by (simp add: settle_def)
  ultimately show ?thesis
    using unat_runtime_charge [OF c(1)] checked_add_unat [OF c(2)]
    by (intro exI [of _ "settle q"]) (cases "dp_kind d"; simp)
qed simp_all

theorem completion_charges_runtime_witness: "unat (6144 :: u128) = (6 * 1024 + 1 - 1) div 1"
  using completion_charges_runtime [OF demo_reachable(4) demo_complete,
      of "(demo_request 1 (Some 5000))\<lparr>rs_status := Running\<rparr>" demo_dispatch]
  by (auto simp: demo_eval bt_get_def fun_eq_iff)

section \<open>Work and its end\<close>

text \<open>The tokens the scheduler still owes bound the quanta it can still run: a
  completed quantum lowers that number by the progress it reports, and no call raises it
  unless it adds a request.\<close>

theorem work_runs_out:
  assumes "sched_reachable p s"
  shows "(complete_quantum_with_progress i emitted progress ready eos s = (Ok qc, t) \<longrightarrow>
      work_left t + unat progress \<le> work_left s) \<and>
    (sched_step s t \<longrightarrow> dom (bt_get (cs_requests t)) \<subseteq> dom (bt_get (cs_requests s)) \<longrightarrow> work_left t \<le> work_left s)"
  using complete_work step_work reachable_ok [OF assms] by blast

theorem work_runs_out_witness: "work_left demo_back + 6 \<le> work_left demo_busy"
  using work_runs_out [OF demo_reachable(4)] demo_complete by fastforce

section \<open>Where the ledger can be left wrong\<close>

text \<open>C39: When the sequence counter is exhausted, admitting an acceptable request reports
  an overflow but leaves the request queued with a reservation that was never added to the
  ledger; cancelling it later subtracts those bytes all the same.\<close>

theorem sequence_exhaustion_strands_request:
  assumes "bt_get (cs_requests s) (sx_id sx) = None" and "sx_arrival_ns sx \<le> now"
    and "admissible s sx now b" and "cs_next_sequence s = - 1"
  shows "fst (admit sx now s) = Err AccountingOverflow \<and>
    status_of (snd (admit sx now s)) (sx_id sx) = Some Queued \<and>
    cs_reserved_kv_bytes (snd (admit sx now s)) = cs_reserved_kv_bytes s \<and>
    cs_reserved_kv_bytes (snd (cancel (sx_id sx) (snd (admit sx now s)))) = cs_reserved_kv_bytes s - b"
proof -
  have r: "admission_rejection s sx now = Ok None" "reservation_bytes (cs_policy s) sx = Ok b"
    using assms(3) admission_rejection_None [of s sx now] by (auto simp: admissible_def)
  have "sx_prefix_reused_tokens sx \<le> sx_prompt_tokens sx"
    using assms(3) by (simp add: admissible_def basic_admission_None)
  then obtain n where n: "checked_sub (sx_prompt_tokens sx) (sx_prefix_reused_tokens sx) = Some n"
    by (simp add: checked_sub_def)
  have full: "checked_add (- 1 :: u64) 1 = None"
    by (simp add: checked_add_def unsigned_minus_1_eq_mask mask_eq_exp_minus_1)
  have "admit sx now s = (Err AccountingOverflow,
      (attempted s)\<lparr>cs_requests := bt_insert (sx_id sx) (new_request s sx Queued b n) (cs_requests s)\<rparr>)"
    unfolding admit_def attempted_def [symmetric] Let_def
    using assms(1,2,4) r n full by (simp add: bt_contains_def insert_request_unfold)
  then show ?thesis by (simp add: status_of_def cancel_def new_request_def)
qed

lemma demo_exhausted: "admissible (demo_new\<lparr>cs_next_sequence := - 1\<rparr>) (demo_spec 3 None) 0 2048"
  by (simp add: admissible_def demo_eval basic_admission_rejection_def request_counts_def bt_values_def
      reservation_bytes_def checked_add_def checked_sub_def checked_mul_def checked_div_def)

theorem sequence_exhaustion_strands_request_witness:
  "fst (admit (demo_spec 3 None) 0 (demo_new\<lparr>cs_next_sequence := - 1\<rparr>)) = Err AccountingOverflow"
  using sequence_exhaustion_strands_request [OF _ _ demo_exhausted] by (simp add: demo_new_def demo_spec_def)

end
