(* ===== verification/State_Allocator.thy ===== *)
theory State_Allocator
  imports BTree_Map
begin

text \<open>
  The state allocator of \<open>crates/leone/src/state.rs\<close>: byte accounting for runtime state
  with a hard capacity and transactions whose allocations are committed or rolled back as
  one. Fields of \<open>StateAllocation\<close> carry the prefix \<open>al_\<close>, those of \<open>StateAllocator\<close> the
  prefix \<open>sa_\<close>; a \<open>BTreeSet\<close> is a map to unit. The invariant \<open>alloc_ok\<close> says that the
  bytes in use are the sum over the allocations, fit the capacity, and that no
  transactional allocation outlives its transaction.
\<close>

section \<open>Data\<close>

datatype StateKind = Kv

datatype AllocationId = AllocationId u64

datatype TransactionId = TransactionId u64

primrec allocation_word :: "AllocationId \<Rightarrow> u64" where
  "allocation_word (AllocationId n) = n"

primrec transaction_word :: "TransactionId \<Rightarrow> u64" where
  "transaction_word (TransactionId n) = n"

lemma allocation_word_inject: "allocation_word a = allocation_word b \<longleftrightarrow> a = b"
  by (cases a; cases b) auto

lemma transaction_word_inject: "transaction_word a = transaction_word b \<longleftrightarrow> a = b"
  by (cases a; cases b) auto

instantiation AllocationId :: linorder
begin

definition less_eq_AllocationId :: "AllocationId \<Rightarrow> AllocationId \<Rightarrow> bool" where
  "less_eq_AllocationId a b \<longleftrightarrow> allocation_word a \<le> allocation_word b"

definition less_AllocationId :: "AllocationId \<Rightarrow> AllocationId \<Rightarrow> bool" where
  "less_AllocationId a b \<longleftrightarrow> allocation_word a < allocation_word b"

instance
  by standard (auto simp: less_eq_AllocationId_def less_AllocationId_def simp flip: allocation_word_inject)

end

instantiation TransactionId :: linorder
begin

definition less_eq_TransactionId :: "TransactionId \<Rightarrow> TransactionId \<Rightarrow> bool" where
  "less_eq_TransactionId a b \<longleftrightarrow> transaction_word a \<le> transaction_word b"

definition less_TransactionId :: "TransactionId \<Rightarrow> TransactionId \<Rightarrow> bool" where
  "less_TransactionId a b \<longleftrightarrow> transaction_word a < transaction_word b"

instance
  by standard (auto simp: less_eq_TransactionId_def less_TransactionId_def simp flip: transaction_word_inject)

end

datatype StateLifetime = Committed | Transactional TransactionId

record StateAllocation =
  al_id :: AllocationId
  al_kind :: StateKind
  al_bytes :: u64
  al_lifetime :: StateLifetime

datatype StateError =
    ZeroAllocation
  | CapacityExceeded u64 u64 u64
  | StateSizeOverflow
  | UnknownAllocation AllocationId
  | InactiveTransaction TransactionId
  | IdentifierExhausted

record StateAllocator =
  sa_capacity_bytes :: u64
  sa_used_bytes :: u64
  sa_next_allocation :: u64
  sa_next_transaction :: u64
  sa_allocations :: "(AllocationId, StateAllocation) btree_map"
  sa_active_transactions :: "(TransactionId, unit) btree_map"

section \<open>Operations\<close>

definition allocator_new :: "u64 \<Rightarrow> StateAllocator" where
  "allocator_new capacity_bytes =
     \<lparr>sa_capacity_bytes = capacity_bytes, sa_used_bytes = 0, sa_next_allocation = 0,
      sa_next_transaction = 0, sa_allocations = [], sa_active_transactions = []\<rparr>"

definition require_active :: "TransactionId \<Rightarrow> StateAllocator \<Rightarrow> (unit, StateError) outcome" where
  "require_active tx s =
     (if bt_contains (sa_active_transactions s) tx then Ok () else Err (InactiveTransaction tx))"

definition begin_transaction ::
  "StateAllocator \<Rightarrow> (TransactionId, StateError) outcome \<times> StateAllocator" where
  "begin_transaction s =
     (let i = TransactionId (sa_next_transaction s) in
      try_pure (ok_or (checked_add (sa_next_transaction s) 1) IdentifierExhausted) s (\<lambda>next.
      (Ok i, s\<lparr>sa_next_transaction := next,
                sa_active_transactions := bt_insert i () (sa_active_transactions s)\<rparr>)))"

definition allocate ::
  "StateKind \<Rightarrow> u64 \<Rightarrow> StateLifetime \<Rightarrow> StateAllocator
    \<Rightarrow> (StateAllocation, StateError) outcome \<times> StateAllocator" where
  "allocate kind bytes lifetime s =
     (if bytes = 0 then (Err ZeroAllocation, s)
      else
        try_pure (case lifetime of Transactional tx \<Rightarrow> require_active tx s | Committed \<Rightarrow> Ok ()) s (\<lambda>_.
        try_pure (ok_or (checked_add (sa_used_bytes s) bytes) StateSizeOverflow) s (\<lambda>next_used.
        if sa_capacity_bytes s < next_used
        then (Err (CapacityExceeded (sa_capacity_bytes s) (sa_used_bytes s) bytes), s)
        else
          let i = AllocationId (sa_next_allocation s) in
          try_pure (ok_or (checked_add (sa_next_allocation s) 1) IdentifierExhausted) s (\<lambda>next.
          let allocation = \<lparr>al_id = i, al_kind = kind, al_bytes = bytes, al_lifetime = lifetime\<rparr>
          in (Ok allocation,
              s\<lparr>sa_next_allocation := next,
                sa_allocations := bt_insert i allocation (sa_allocations s),
                sa_used_bytes := next_used\<rparr>)))))"

definition free_allocation ::
  "AllocationId \<Rightarrow> StateAllocator \<Rightarrow> (StateAllocation, StateError) outcome \<times> StateAllocator" where
  "free_allocation i s =
     try_pure (ok_or (bt_get (sa_allocations s) i) (UnknownAllocation i)) s (\<lambda>allocation.
     (Ok allocation,
      s\<lparr>sa_allocations := bt_remove i (sa_allocations s),
        sa_used_bytes := sa_used_bytes s - al_bytes allocation\<rparr>))"

definition commit :: "TransactionId \<Rightarrow> StateAllocator \<Rightarrow> (unit, StateError) outcome \<times> StateAllocator" where
  "commit tx s =
     try_pure (require_active tx s) s (\<lambda>_.
     (Ok (),
      s\<lparr>sa_allocations := bt_map_values (\<lambda>a. if al_lifetime a = Transactional tx
                                              then a\<lparr>al_lifetime := Committed\<rparr> else a) (sa_allocations s),
        sa_active_transactions := bt_remove tx (sa_active_transactions s)\<rparr>))"

fun free_all ::
  "AllocationId list \<Rightarrow> StateAllocator \<Rightarrow> (StateAllocation list, StateError) outcome \<times> StateAllocator" where
  "free_all [] s = (Ok [], s)"
| "free_all (i # ids) s =
     try_st (free_allocation i s) (\<lambda>a s1.
     try_st (free_all ids s1) (\<lambda>as s2. (Ok (a # as), s2)))"

definition rollback ::
  "TransactionId \<Rightarrow> StateAllocator \<Rightarrow> (StateAllocation list, StateError) outcome \<times> StateAllocator" where
  "rollback tx s =
     try_pure (require_active tx s) s (\<lambda>_.
     let ids = map al_id (filter (\<lambda>a. al_lifetime a = Transactional tx) (bt_values (sa_allocations s)))
     in try_st (free_all ids s) (\<lambda>removed s1.
        (Ok removed, s1\<lparr>sa_active_transactions := bt_remove tx (sa_active_transactions s1)\<rparr>)))"

definition reset :: "StateAllocator \<Rightarrow> StateAllocator" where
  "reset s = s\<lparr>sa_used_bytes := 0, sa_allocations := [], sa_active_transactions := []\<rparr>"

section \<open>The invariant\<close>

abbreviation byte_weight :: "StateAllocation \<Rightarrow> nat" where
  "byte_weight a \<equiv> unat (al_bytes a)"

definition allocation_ok :: "StateAllocator \<Rightarrow> AllocationId \<Rightarrow> StateAllocation \<Rightarrow> bool" where
  "allocation_ok s i a \<longleftrightarrow>
     al_id a = i \<and> allocation_word i < sa_next_allocation s \<and> al_bytes a \<noteq> 0 \<and>
     (\<forall>tx. al_lifetime a = Transactional tx \<longrightarrow> bt_contains (sa_active_transactions s) tx)"

definition alloc_ok :: "StateAllocator \<Rightarrow> bool" where
  "alloc_ok s \<longleftrightarrow>
     bt_ok (sa_allocations s) \<and> bt_ok (sa_active_transactions s) \<and>
     (\<forall>i a. bt_get (sa_allocations s) i = Some a \<longrightarrow> allocation_ok s i a) \<and>
     (\<forall>tx. bt_contains (sa_active_transactions s) tx \<longrightarrow> transaction_word tx < sa_next_transaction s) \<and>
     unat (sa_used_bytes s) = total byte_weight (bt_entries (sa_allocations s)) \<and>
     sa_used_bytes s \<le> sa_capacity_bytes s"

lemma alloc_okD:
  assumes "alloc_ok s"
  shows "bt_ok (sa_allocations s)" "bt_ok (sa_active_transactions s)"
    "bt_get (sa_allocations s) i = Some a \<Longrightarrow> allocation_ok s i a"
    "bt_contains (sa_active_transactions s) tx \<Longrightarrow> transaction_word tx < sa_next_transaction s"
    "unat (sa_used_bytes s) = total byte_weight (bt_entries (sa_allocations s))"
    "sa_used_bytes s \<le> sa_capacity_bytes s"
  using assms by (auto simp: alloc_ok_def)

lemma require_active_iff: "require_active tx s = Ok () \<longleftrightarrow> bt_contains (sa_active_transactions s) tx"
  by (simp add: require_active_def)

lemma checked_inc: "checked_add (n :: u64) 1 = Some m \<Longrightarrow> n < m \<and> unat m = unat n + 1"
  using checked_add_unat [of n 1 m] by (simp add: word_less_nat_alt)

lemma allocator_new_ok: "alloc_ok (allocator_new capacity)"
  by (simp add: alloc_ok_def allocator_new_def total_def bt_entries_def bt_contains_def)

lemma begin_transaction_ok:
  assumes "alloc_ok s" and "begin_transaction s = (r, t)"
  shows "alloc_ok t"
proof (cases "checked_add (sa_next_transaction s) 1")
  case None
  then show ?thesis using assms by (simp add: begin_transaction_def Let_def)
next
  case (Some n)
  have t: "t = s\<lparr>sa_next_transaction := n,
      sa_active_transactions := bt_insert (TransactionId (sa_next_transaction s)) () (sa_active_transactions s)\<rparr>"
    using assms(2) Some by (simp add: begin_transaction_def Let_def)
  have n: "sa_next_transaction s < n" using checked_inc [OF Some] by simp
  show ?thesis
    using assms(1) n unfolding t alloc_ok_def
    by (auto simp: allocation_ok_def bt_contains_def dest: less_trans)
qed

text \<open>Every way to call \<open>allocate\<close>: a refusal that changes nothing, or one new record.\<close>

lemma allocate_cases:
  assumes "allocate kind bytes lifetime s = (r, t)"
  obtains (refused) e where "r = Err e" "t = s"
  | (granted) a n where "r = Ok a" "a = \<lparr>al_id = AllocationId (sa_next_allocation s), al_kind = kind,
        al_bytes = bytes, al_lifetime = lifetime\<rparr>" "bytes \<noteq> 0"
      "\<forall>tx. lifetime = Transactional tx \<longrightarrow> bt_contains (sa_active_transactions s) tx"
      "checked_add (sa_used_bytes s) bytes = Some (sa_used_bytes t)" "sa_used_bytes t \<le> sa_capacity_bytes s"
      "checked_add (sa_next_allocation s) 1 = Some n"
      "t = s\<lparr>sa_next_allocation := n, sa_allocations := bt_insert (AllocationId (sa_next_allocation s)) a (sa_allocations s),
        sa_used_bytes := sa_used_bytes t\<rparr>"
proof (cases "\<exists>e. r = Err e \<and> t = s")
  case True
  then show thesis using refused by blast
next
  case False
  have life: "(case lifetime of Transactional tx \<Rightarrow> require_active tx s | Committed \<Rightarrow> Ok ()) = Ok ()"
    using False assms by (auto simp: allocate_def require_active_def split: StateLifetime.splits if_splits)
  obtain u where u: "checked_add (sa_used_bytes s) bytes = Some u"
    using False assms life by (cases "checked_add (sa_used_bytes s) bytes") (auto simp: allocate_def split: if_splits)
  obtain n where n: "checked_add (sa_next_allocation s) 1 = Some n"
    using False assms life u by (cases "checked_add (sa_next_allocation s) 1") (auto simp: allocate_def split: if_splits)
  show thesis
    by (rule granted [of "\<lparr>al_id = AllocationId (sa_next_allocation s), al_kind = kind,
        al_bytes = bytes, al_lifetime = lifetime\<rparr>" n])
       (use False assms life u n in \<open>auto simp: allocate_def require_active_def Let_def not_less split: if_splits\<close>)
qed

lemma allocate_ok:
  assumes "alloc_ok s" and "allocate kind bytes lifetime s = (r, t)"
  shows "alloc_ok t"
  using assms(2)
proof (cases rule: allocate_cases)
  case (granted a n)
  note D = alloc_okD [OF assms(1)]
  let ?i = "AllocationId (sa_next_allocation s)"
  have n: "sa_next_allocation s < n" using checked_inc [OF granted(7)] by simp
  have new: "bt_get (sa_allocations s) ?i = None"
  proof (rule ccontr)
    assume "bt_get (sa_allocations s) ?i \<noteq> None"
    then obtain b where "bt_get (sa_allocations s) ?i = Some b" by auto
    from D(3) [OF this] show False by (simp add: allocation_ok_def)
  qed
  have t: "sa_allocations t = bt_insert ?i a (sa_allocations s)" "sa_next_allocation t = n"
    "sa_active_transactions t = sa_active_transactions s" "sa_capacity_bytes t = sa_capacity_bytes s"
    "sa_next_transaction t = sa_next_transaction s"
    by (subst granted(8), simp)+
  have "unat (sa_used_bytes t) = total byte_weight (bt_entries (sa_allocations t))"
    unfolding t(1) bt.total_insert_new [OF D(1) new] using D(5) checked_add_unat [OF granted(5)] granted(2) by simp
  moreover have "allocation_ok t i b" if "bt_get (sa_allocations t) i = Some b" for i b
  proof (cases "i = ?i")
    case True
    then have "b = a" using that by (simp add: t)
    then show ?thesis using True granted(3,4) n by (simp add: granted(2) t(2,3) allocation_ok_def)
  next
    case False
    then have "allocation_ok s i b" using that D(3) by (simp add: t)
    then show ?thesis using n by (auto simp: allocation_ok_def t)
  qed
  ultimately show ?thesis
    using granted(6) D(1,2,4) by (auto simp: alloc_ok_def t)
qed (use assms(1) in simp)

lemma free_allocation_run:
  assumes "alloc_ok s" and "bt_get (sa_allocations s) i = Some a"
  obtains t where "free_allocation i s = (Ok a, t)" and "alloc_ok t"
    and "sa_allocations t = bt_remove i (sa_allocations s)"
    and "sa_active_transactions t = sa_active_transactions s" and "sa_capacity_bytes t = sa_capacity_bytes s"
    and "unat (sa_used_bytes t) + unat (al_bytes a) = unat (sa_used_bytes s)"
proof -
  let ?t = "s\<lparr>sa_allocations := bt_remove i (sa_allocations s), sa_used_bytes := sa_used_bytes s - al_bytes a\<rparr>"
  note D = alloc_okD [OF assms(1)]
  have le: "al_bytes a \<le> sa_used_bytes s"
    using bt.total_member [OF D(1) assms(2), of byte_weight] D(5) by (simp add: word_le_nat_alt)
  have used: "unat (sa_used_bytes s - al_bytes a) = unat (sa_used_bytes s) - unat (al_bytes a)"
    by (rule unat_wrap_sub [OF le])
  have ledger: "unat (sa_used_bytes s - al_bytes a) = total byte_weight (bt_entries (bt_remove i (sa_allocations s)))"
    using bt.total_remove [OF D(1) assms(2), of byte_weight] D(5) used by simp
  have "sa_used_bytes s - al_bytes a \<le> sa_capacity_bytes s"
    using D(6) used unfolding word_le_nat_alt by simp
  then have ok: "alloc_ok ?t"
    using D ledger unfolding alloc_ok_def by (auto simp: allocation_ok_def split: if_splits)
  show thesis
    by (rule that [OF _ ok]) (use assms(2) le used in \<open>simp_all add: free_allocation_def word_le_nat_alt\<close>)
qed

lemma free_allocation_ok: "alloc_ok s \<Longrightarrow> free_allocation i s = (r, t) \<Longrightarrow> alloc_ok t"
  by (cases "bt_get (sa_allocations s) i")
     (force simp: free_allocation_def, metis free_allocation_run prod.inject)

lemma free_all_run:
  assumes "alloc_ok s" and "distinct ids" and "\<forall>i\<in>set ids. bt_get (sa_allocations s) i \<noteq> None"
  shows "\<exists>t. free_all ids s = (Ok (map (\<lambda>i. the (bt_get (sa_allocations s) i)) ids), t) \<and> alloc_ok t \<and>
    (\<forall>j. bt_get (sa_allocations t) j = (if j \<in> set ids then None else bt_get (sa_allocations s) j)) \<and>
    sa_active_transactions t = sa_active_transactions s \<and> sa_capacity_bytes t = sa_capacity_bytes s"
  using assms
proof (induction ids arbitrary: s)
  case (Cons i ids)
  obtain a where a: "bt_get (sa_allocations s) i = Some a" using Cons.prems(3) by auto
  obtain u where u: "free_allocation i s = (Ok a, u)" "alloc_ok u" "sa_allocations u = bt_remove i (sa_allocations s)"
    "sa_active_transactions u = sa_active_transactions s" "sa_capacity_bytes u = sa_capacity_bytes s"
    by (rule free_allocation_run [OF Cons.prems(1) a])
  have get: "bt_get (sa_allocations u) = (bt_get (sa_allocations s))(i := None)" by (simp add: u(3))
  have "distinct ids" "\<forall>j\<in>set ids. bt_get (sa_allocations u) j \<noteq> None"
    using Cons.prems by (auto simp: get)
  from Cons.IH [OF u(2) this] obtain t where t:
    "free_all ids u = (Ok (map (\<lambda>i. the (bt_get (sa_allocations u) i)) ids), t)" "alloc_ok t"
    "\<forall>j. bt_get (sa_allocations t) j = (if j \<in> set ids then None else bt_get (sa_allocations u) j)"
    "sa_active_transactions t = sa_active_transactions u" "sa_capacity_bytes t = sa_capacity_bytes u"
    by blast
  have "map (\<lambda>i. the (bt_get (sa_allocations u) i)) ids = map (\<lambda>i. the (bt_get (sa_allocations s) i)) ids"
    using Cons.prems(2) by (auto simp: get)
  then show ?case
    using t u(1,4,5) a Cons.prems(2) by (intro exI [of _ t]) (auto simp: get)
qed simp

section \<open>Transactions\<close>

definition owned_by :: "TransactionId \<Rightarrow> StateAllocation \<Rightarrow> bool" where
  "owned_by tx a \<longleftrightarrow> al_lifetime a = Transactional tx"

definition settle_allocation :: "TransactionId \<Rightarrow> StateAllocation \<Rightarrow> StateAllocation" where
  "settle_allocation tx a = (if owned_by tx a then a\<lparr>al_lifetime := Committed\<rparr> else a)"

lemma commit_run:
  assumes "bt_contains (sa_active_transactions s) tx"
  shows "commit tx s = (Ok (), s\<lparr>sa_allocations := bt_map_values (settle_allocation tx) (sa_allocations s),
    sa_active_transactions := bt_remove tx (sa_active_transactions s)\<rparr>)"
proof -
  have "settle_allocation tx = (\<lambda>a. if al_lifetime a = Transactional tx then a\<lparr>al_lifetime := Committed\<rparr> else a)"
    by (simp add: settle_allocation_def owned_by_def fun_eq_iff)
  then show ?thesis using assms by (simp add: commit_def require_active_def)
qed

lemma commit_ok:
  assumes "alloc_ok s" and "commit tx s = (r, t)"
  shows "alloc_ok t"
proof (cases "bt_contains (sa_active_transactions s) tx")
  case True
  note D = alloc_okD [OF assms(1)]
  have t: "t = s\<lparr>sa_allocations := bt_map_values (settle_allocation tx) (sa_allocations s),
    sa_active_transactions := bt_remove tx (sa_active_transactions s)\<rparr>"
    using commit_run [OF True] assms(2) by simp
  have "total byte_weight (bt_entries (bt_map_values (settle_allocation tx) (sa_allocations s)))
      = total byte_weight (bt_entries (sa_allocations s))"
    by (rule total_map_values) (simp add: settle_allocation_def)
  moreover have "allocation_ok t i (settle_allocation tx a)" if "bt_get (sa_allocations s) i = Some a" for i a
    using D(3) [OF that] by (auto simp: allocation_ok_def t settle_allocation_def owned_by_def bt_contains_def)
  ultimately show ?thesis
    using D by (auto simp: alloc_ok_def t bt_contains_def)
qed (use assms in \<open>simp add: commit_def require_active_def\<close>)

definition owned_ids :: "TransactionId \<Rightarrow> StateAllocator \<Rightarrow> AllocationId list" where
  "owned_ids tx s = map al_id (filter (owned_by tx) (bt_values (sa_allocations s)))"

lemma owned_ids_facts:
  assumes "alloc_ok s"
  shows "distinct (owned_ids tx s)"
    and "set (owned_ids tx s) = {i. \<exists>a. bt_get (sa_allocations s) i = Some a \<and> owned_by tx a}"
    and "map (\<lambda>i. the (bt_get (sa_allocations s) i)) (owned_ids tx s) = filter (owned_by tx) (bt_values (sa_allocations s))"
proof -
  note D = alloc_okD [OF assms]
  have key: "bt_get (sa_allocations s) (al_id a) = Some a" if "a \<in> set (bt_values (sa_allocations s))" for a
    using that D(3) by (auto simp: bt_in_values [OF D(1)] allocation_ok_def)
  have "map al_id (bt_values (sa_allocations s)) = map fst (sa_allocations s)"
    using D(3) by (auto simp: bt_values_def bt_get_in_set [OF D(1)] allocation_ok_def)
  then have "distinct (map al_id (bt_values (sa_allocations s)))" using bt_distinct [OF D(1)] by simp
  then show "distinct (owned_ids tx s)" unfolding owned_ids_def by (rule distinct_map_filter)
  show "set (owned_ids tx s) = {i. \<exists>a. bt_get (sa_allocations s) i = Some a \<and> owned_by tx a}"
    using D(3) by (auto simp: owned_ids_def bt_in_values [OF D(1)] allocation_ok_def image_iff)
  show "map (\<lambda>i. the (bt_get (sa_allocations s) i)) (owned_ids tx s) = filter (owned_by tx) (bt_values (sa_allocations s))"
    using key by (auto simp: owned_ids_def intro!: map_idI)
qed

lemma rollback_run:
  assumes ok: "alloc_ok s" and tx: "bt_contains (sa_active_transactions s) tx"
  obtains t where "rollback tx s = (Ok (filter (owned_by tx) (bt_values (sa_allocations s))), t)" and "alloc_ok t"
    and "\<forall>i. bt_get (sa_allocations t) i = (case bt_get (sa_allocations s) i of None \<Rightarrow> None
           | Some a \<Rightarrow> if owned_by tx a then None else Some a)"
    and "sa_active_transactions t = bt_remove tx (sa_active_transactions s)"
    and "sa_capacity_bytes t = sa_capacity_bytes s"
proof -
  note F = owned_ids_facts [OF ok, of tx]
  have "\<forall>i\<in>set (owned_ids tx s). bt_get (sa_allocations s) i \<noteq> None" unfolding F(2) by auto
  from free_all_run [OF ok F(1) this] obtain u where u:
    "free_all (owned_ids tx s) s = (Ok (filter (owned_by tx) (bt_values (sa_allocations s))), u)" "alloc_ok u"
    "\<forall>j. bt_get (sa_allocations u) j = (if j \<in> set (owned_ids tx s) then None else bt_get (sa_allocations s) j)"
    "sa_active_transactions u = sa_active_transactions s" "sa_capacity_bytes u = sa_capacity_bytes s"
    unfolding F(3) by blast
  let ?t = "u\<lparr>sa_active_transactions := bt_remove tx (sa_active_transactions u)\<rparr>"
  have run: "rollback tx s = (Ok (filter (owned_by tx) (bt_values (sa_allocations s))), ?t)"
    using u(1) tx by (simp add: rollback_def require_active_def owned_ids_def owned_by_def [abs_def] Let_def)
  have left: "\<not> owned_by tx a" if "bt_get (sa_allocations u) i = Some a" for i a
    using that u(3) unfolding F(2) by (auto split: if_splits)
  have ok_t: "alloc_ok ?t"
    using u(2) left unfolding alloc_ok_def by (auto simp: allocation_ok_def bt_contains_def owned_by_def split: if_splits)
  have "bt_get (sa_allocations ?t) i = (case bt_get (sa_allocations s) i of None \<Rightarrow> None
           | Some a \<Rightarrow> if owned_by tx a then None else Some a)" for i
    using u(3) unfolding F(2) by (auto split: option.splits)
  then show thesis using that [OF run ok_t] u(4,5) by simp
qed

lemma rollback_ok:
  assumes "alloc_ok s" and "rollback tx s = (r, t)"
  shows "alloc_ok t"
proof (cases "bt_contains (sa_active_transactions s) tx")
  case True
  show ?thesis by (rule rollback_run [OF assms(1) True]) (use assms(2) in simp)
qed (use assms in \<open>simp add: rollback_def require_active_def\<close>)

lemma reset_ok: "alloc_ok (reset s)"
  by (simp add: alloc_ok_def reset_def total_def bt_entries_def bt_contains_def)

section \<open>The allocator as a machine\<close>

definition alloc_start :: "StateAllocator \<Rightarrow> bool" where
  "alloc_start s \<longleftrightarrow> s = allocator_new (sa_capacity_bytes s)"

inductive alloc_step :: "StateAllocator \<Rightarrow> StateAllocator \<Rightarrow> bool" where
  step_begin: "begin_transaction s = (tres, t) \<Longrightarrow> alloc_step s t"
| step_allocate: "allocate kind bytes lifetime s = (ares, t) \<Longrightarrow> alloc_step s t"
| step_free: "free_allocation i s = (ares, t) \<Longrightarrow> alloc_step s t"
| step_commit: "commit tx s = (ures, t) \<Longrightarrow> alloc_step s t"
| step_rollback: "rollback tx s = (lres, t) \<Longrightarrow> alloc_step s t"
| step_reset: "alloc_step s (reset s)"

lemma alloc_step_ok: "alloc_step s t \<Longrightarrow> alloc_ok s \<Longrightarrow> alloc_ok t"
  by (induction rule: alloc_step.induct)
     (auto intro: begin_transaction_ok allocate_ok free_allocation_ok commit_ok rollback_ok reset_ok)

lemma free_all_capacity: "free_all ids s = (r, t) \<Longrightarrow> sa_capacity_bytes t = sa_capacity_bytes s"
  by (induction ids arbitrary: s r t)
     (fastforce simp: free_allocation_def try_pure_cases try_st_cases split: outcome.splits prod.splits)+

lemma alloc_step_capacity: "alloc_step s t \<Longrightarrow> sa_capacity_bytes t = sa_capacity_bytes s"
proof (induction rule: alloc_step.induct)
  case (step_rollback tx s r t)
  then show ?case
    using free_all_capacity by (fastforce simp: rollback_def try_pure_cases try_st_cases Let_def split: outcome.splits prod.splits)
qed (auto simp: begin_transaction_def allocate_def free_allocation_def commit_def reset_def try_pure_cases Let_def
       split: outcome.splits if_splits)

interpretation allocator: bounded_machine alloc_start alloc_step alloc_ok
    "\<lambda>s. unat (sa_used_bytes s)" "\<lambda>s. unat (sa_capacity_bytes s)"
proof unfold_locales
  fix s t
  show "alloc_start s \<Longrightarrow> alloc_ok s" using allocator_new_ok [of "sa_capacity_bytes s"] by (simp add: alloc_start_def)
  show "alloc_ok s \<Longrightarrow> alloc_step s t \<Longrightarrow> alloc_ok t" by (rule alloc_step_ok)
  show "alloc_ok s \<Longrightarrow> unat (sa_used_bytes s) \<le> unat (sa_capacity_bytes s)"
    using alloc_okD(6) by (simp only: word_le_nat_alt)
  show "alloc_step s t \<Longrightarrow> unat (sa_capacity_bytes t) = unat (sa_capacity_bytes s)"
    by (simp add: alloc_step_capacity)
qed

end
