(* ===== verification/State_Props.thy ===== *)
theory State_Props
  imports State_Allocator
begin

text \<open>
  What the state allocator promises: the byte ledger in every reachable state, the exact
  acceptance condition of \<open>allocate\<close>, and transactions that commit or roll back as one.
\<close>

definition alloc_reachable :: "u64 \<Rightarrow> StateAllocator \<Rightarrow> bool" where
  "alloc_reachable capacity s \<longleftrightarrow> alloc_step\<^sup>*\<^sup>* (allocator_new capacity) s"

lemma alloc_start_new: "alloc_start (allocator_new capacity)"
  by (simp add: alloc_start_def allocator_new_def)

lemma alloc_reachable_ok: "alloc_reachable capacity s \<Longrightarrow> alloc_ok s"
  unfolding alloc_reachable_def by (rule allocator.inv_reachable [OF alloc_start_new])

lemma alloc_reachable_capacity: "alloc_reachable capacity s \<Longrightarrow> sa_capacity_bytes s = capacity"
  using allocator.capacity_steps [of "allocator_new capacity" s]
  by (simp add: alloc_reachable_def allocator_new_def word_unat_eq_iff)

lemma alloc_reachable_new: "alloc_reachable capacity (allocator_new capacity)"
  by (simp add: alloc_reachable_def)

lemma alloc_reachable_step: "alloc_reachable capacity s \<Longrightarrow> alloc_step s t \<Longrightarrow> alloc_reachable capacity t"
  by (auto simp: alloc_reachable_def intro: rtranclp.rtrancl_into_rtrancl)

section \<open>A run\<close>

definition demo_tx :: TransactionId where
  "demo_tx = TransactionId 0"

definition demo_alloc_open :: StateAllocator where
  "demo_alloc_open = (allocator_new 100)\<lparr>sa_next_transaction := 1, sa_active_transactions := [(demo_tx, ())]\<rparr>"

definition demo_allocation :: StateAllocation where
  "demo_allocation = \<lparr>al_id = AllocationId 0, al_kind = Kv, al_bytes = 60, al_lifetime = Transactional demo_tx\<rparr>"

definition demo_alloc_held :: StateAllocator where
  "demo_alloc_held = demo_alloc_open\<lparr>sa_used_bytes := 60, sa_next_allocation := 1,
     sa_allocations := [(AllocationId 0, demo_allocation)]\<rparr>"

lemmas alloc_demo = demo_alloc_open_def demo_alloc_held_def demo_allocation_def demo_tx_def allocator_new_def

lemma demo_begin: "begin_transaction (allocator_new 100) = (Ok demo_tx, demo_alloc_open)"
  by (simp add: begin_transaction_def alloc_demo checked_add_def Let_def)

lemma demo_allocate: "allocate Kv 60 (Transactional demo_tx) demo_alloc_open = (Ok demo_allocation, demo_alloc_held)"
  by (simp add: allocate_def require_active_def bt_contains_def bt_get_def alloc_demo checked_add_def Let_def)

lemma demo_alloc_reachable:
  "alloc_reachable 100 (allocator_new 100)" "alloc_reachable 100 demo_alloc_open" "alloc_reachable 100 demo_alloc_held"
proof -
  show n: "alloc_reachable 100 (allocator_new 100)" by (rule alloc_reachable_new)
  show o: "alloc_reachable 100 demo_alloc_open" by (rule alloc_reachable_step [OF n step_begin [OF demo_begin]])
  show "alloc_reachable 100 demo_alloc_held" by (rule alloc_reachable_step [OF o step_allocate [OF demo_allocate]])
qed

section \<open>Properties\<close>

text \<open>In every reachable state the allocator's used bytes are the sum of its live
  allocations and never exceed its capacity; each allocation is stored under its own id,
  is not empty, and belongs to a transaction that is still open unless it is committed.\<close>

theorem allocator_ledger:
  assumes "alloc_reachable capacity s"
  shows "unat (sa_used_bytes s) = (\<Sum>a\<leftarrow>bt_values (sa_allocations s). unat (al_bytes a)) \<and>
    sa_used_bytes s \<le> capacity \<and>
    (\<forall>i a. bt_get (sa_allocations s) i = Some a \<longrightarrow> al_id a = i \<and> al_bytes a \<noteq> 0 \<and>
       (case al_lifetime a of Committed \<Rightarrow> True | Transactional tx \<Rightarrow> bt_contains (sa_active_transactions s) tx))"
proof -
  note D = alloc_okD [OF alloc_reachable_ok [OF assms]]
  have "total byte_weight (bt_entries (sa_allocations s)) = (\<Sum>a\<leftarrow>bt_values (sa_allocations s). unat (al_bytes a))"
    by (simp add: total_def bt_entries_def bt_values_def comp_def)
  then show ?thesis
    using D(3,5,6) alloc_reachable_capacity [OF assms] by (auto simp: allocation_ok_def split: StateLifetime.splits)
qed

theorem allocator_ledger_witness: "unat (60 :: u64) = (\<Sum>a\<leftarrow>[demo_allocation]. unat (al_bytes a)) \<and> (60 :: u64) \<le> 100"
  using allocator_ledger [OF demo_alloc_reachable(3)] by (simp add: alloc_demo bt_values_def)

text \<open>An allocation is granted exactly when it is not empty, its transaction (if it has
  one) is open, it fits the bytes left and an identifier is left; the new record is the
  only change to the table, the bytes are added to the ledger, and a refused call changes
  nothing.\<close>

theorem allocate_exactly:
  assumes "alloc_reachable capacity s"
  shows "((\<exists>a. fst (allocate kind bytes lifetime s) = Ok a) \<longleftrightarrow>
      bytes \<noteq> 0 \<and> (\<forall>tx. lifetime = Transactional tx \<longrightarrow> bt_contains (sa_active_transactions s) tx) \<and>
      unat (sa_used_bytes s) + unat bytes \<le> unat capacity \<and> sa_next_allocation s \<noteq> - 1) \<and>
    (case allocate kind bytes lifetime s of
       (Ok a, t) \<Rightarrow> a = \<lparr>al_id = AllocationId (sa_next_allocation s), al_kind = kind, al_bytes = bytes, al_lifetime = lifetime\<rparr> \<and>
         bt_get (sa_allocations s) (al_id a) = None \<and>
         bt_get (sa_allocations t) = (bt_get (sa_allocations s))(al_id a \<mapsto> a) \<and>
         unat (sa_used_bytes t) = unat (sa_used_bytes s) + unat bytes
     | (_, t) \<Rightarrow> t = s)"
proof -
  note D = alloc_okD [OF alloc_reachable_ok [OF assms]] and P = alloc_reachable_capacity [OF assms]
  have inc: "checked_add (sa_next_allocation s) 1 = None \<longleftrightarrow> sa_next_allocation s = - 1"
  proof -
    have "unat (sa_next_allocation s) + 1 = 2 ^ 64 \<longleftrightarrow> sa_next_allocation s = - 1"
      unfolding word_unat_eq_iff by (simp add: unsigned_minus_1_eq_mask mask_eq_exp_minus_1)
    then show ?thesis using unat_lt_2p [of "sa_next_allocation s"] by (auto simp: checked_add_def)
  qed
  obtain r t where rt: "allocate kind bytes lifetime s = (r, t)" by fastforce
  have fresh: "bt_get (sa_allocations s) (AllocationId (sa_next_allocation s)) = None"
  proof (rule ccontr)
    assume "bt_get (sa_allocations s) (AllocationId (sa_next_allocation s)) \<noteq> None"
    then obtain b where "bt_get (sa_allocations s) (AllocationId (sa_next_allocation s)) = Some b" by auto
    from D(3) [OF this] show False by (simp add: allocation_ok_def)
  qed
  have effect: "case (r, t) of
       (Ok a, t) \<Rightarrow> a = \<lparr>al_id = AllocationId (sa_next_allocation s), al_kind = kind, al_bytes = bytes, al_lifetime = lifetime\<rparr> \<and>
         bt_get (sa_allocations s) (al_id a) = None \<and>
         bt_get (sa_allocations t) = (bt_get (sa_allocations s))(al_id a \<mapsto> a) \<and>
         unat (sa_used_bytes t) = unat (sa_used_bytes s) + unat bytes
     | (_, t) \<Rightarrow> t = s"
    using rt
  proof (cases rule: allocate_cases)
    case (granted a n)
    have "sa_allocations t = bt_insert (AllocationId (sa_next_allocation s)) a (sa_allocations s)"
      by (subst granted(8)) simp
    then show ?thesis using granted(1,2) fresh checked_add_unat [OF granted(5)] by simp
  qed simp
  have "(\<exists>a. r = Ok a) \<longleftrightarrow> bytes \<noteq> 0 \<and> (\<forall>tx. lifetime = Transactional tx \<longrightarrow> bt_contains (sa_active_transactions s) tx) \<and>
      unat (sa_used_bytes s) + unat bytes \<le> unat capacity \<and> sa_next_allocation s \<noteq> - 1" (is "?L \<longleftrightarrow> ?R")
  proof
    assume ?L
    from rt show ?R
    proof (cases rule: allocate_cases)
      case (granted a n)
      have "unat (sa_used_bytes s) + unat bytes \<le> unat capacity"
        using granted(6) checked_add_unat [OF granted(5)] P unfolding word_le_nat_alt by simp
      moreover have "sa_next_allocation s \<noteq> - 1" using granted(7) inc by auto
      ultimately show ?thesis using granted(3,4) by blast
    qed (use \<open>?L\<close> in simp)
  next
    assume R: ?R
    then have fits: "checked_add (sa_used_bytes s) bytes = Some (sa_used_bytes s + bytes)"
      using unat_lt_2p [of capacity] by (simp add: checked_add_def)
    have "sa_used_bytes s + bytes \<le> sa_capacity_bytes s"
      using R P checked_add_unat [OF fits] unfolding word_le_nat_alt by simp
    moreover obtain n where "checked_add (sa_next_allocation s) 1 = Some n" using R inc by fastforce
    moreover have "(case lifetime of Transactional tx \<Rightarrow> require_active tx s | Committed \<Rightarrow> Ok ()) = Ok ()"
      using R by (cases lifetime) (simp_all add: require_active_def)
    ultimately have "fst (allocate kind bytes lifetime s) = Ok \<lparr>al_id = AllocationId (sa_next_allocation s),
        al_kind = kind, al_bytes = bytes, al_lifetime = lifetime\<rparr>"
      using R fits by (simp add: allocate_def Let_def not_less)
    then show ?L using rt by simp
  qed
  with effect rt show ?thesis by simp
qed

theorem allocate_exactly_witness: "\<not> (\<exists>a. fst (allocate Kv 41 Committed demo_alloc_held) = Ok a)"
  using allocate_exactly [OF demo_alloc_reachable(3), of Kv 41 Committed]
  by (simp add: alloc_demo)

text \<open>Rolling back an open transaction always succeeds. It returns exactly the
  allocations the transaction owned, removes them, keeps every other one, gives their
  bytes back and closes the transaction, so that any later use of it is refused.\<close>

theorem rollback_removes_owned:
  assumes "alloc_reachable capacity s" and "bt_contains (sa_active_transactions s) tx"
  shows "\<exists>t. rollback tx s = (Ok (filter (\<lambda>a. al_lifetime a = Transactional tx) (bt_values (sa_allocations s))), t) \<and>
    bt_values (sa_allocations t) = filter (\<lambda>a. al_lifetime a \<noteq> Transactional tx) (bt_values (sa_allocations s)) \<and>
    unat (sa_used_bytes s) = unat (sa_used_bytes t) +
      (\<Sum>a\<leftarrow>filter (\<lambda>a. al_lifetime a = Transactional tx) (bt_values (sa_allocations s)). unat (al_bytes a)) \<and>
    fst (rollback tx t) = Err (InactiveTransaction tx) \<and> fst (commit tx t) = Err (InactiveTransaction tx)"
proof -
  note ok = alloc_reachable_ok [OF assms(1)]
  note D = alloc_okD [OF ok]
  obtain t where t: "rollback tx s = (Ok (filter (owned_by tx) (bt_values (sa_allocations s))), t)" "alloc_ok t"
    "\<forall>i. bt_get (sa_allocations t) i = (case bt_get (sa_allocations s) i of None \<Rightarrow> None
           | Some a \<Rightarrow> if owned_by tx a then None else Some a)"
    "sa_active_transactions t = bt_remove tx (sa_active_transactions s)" "sa_capacity_bytes t = sa_capacity_bytes s"
    by (rule rollback_run [OF ok assms(2)])
  have "sa_allocations t = bt_retain (\<lambda>_ a. \<not> owned_by tx a) (sa_allocations s)"
    by (rule bt_extensional [OF alloc_okD(1) [OF t(2)] bt_ok_retain [OF D(1)]])
       (auto simp: fun_eq_iff t(3) bt_get_retain [OF D(1)] split: option.splits)
  then have left: "bt_values (sa_allocations t) = filter (\<lambda>a. \<not> owned_by tx a) (bt_values (sa_allocations s))"
    by (simp add: bt_values_def bt_retain_def filter_map comp_def)
  have split: "(\<Sum>a\<leftarrow>xs. unat (al_bytes a)) = (\<Sum>a\<leftarrow>filter (\<lambda>a. \<not> owned_by tx a) xs. unat (al_bytes a)) +
      (\<Sum>a\<leftarrow>filter (owned_by tx) xs. unat (al_bytes a))" for xs
    by (induction xs) auto
  have sums: "unat (sa_used_bytes u) = (\<Sum>a\<leftarrow>bt_values (sa_allocations u). unat (al_bytes a))" if "alloc_ok u" for u
    using alloc_okD(5) [OF that] by (simp add: total_def bt_entries_def bt_values_def comp_def)
  have "unat (sa_used_bytes s) = unat (sa_used_bytes t) + (\<Sum>a\<leftarrow>filter (owned_by tx) (bt_values (sa_allocations s)). unat (al_bytes a))"
    using sums [OF ok] sums [OF t(2)] split [of "bt_values (sa_allocations s)"] left by simp
  moreover have "fst (rollback tx t) = Err (InactiveTransaction tx)" "fst (commit tx t) = Err (InactiveTransaction tx)"
    by (simp_all add: rollback_def commit_def require_active_def bt_contains_def t(4))
  ultimately show ?thesis using t(1) left by (simp add: owned_by_def [abs_def])
qed

theorem rollback_removes_owned_witness:
  "\<exists>t. rollback demo_tx demo_alloc_held = (Ok [demo_allocation], t) \<and> bt_values (sa_allocations t) = []"
proof -
  have "bt_contains (sa_active_transactions demo_alloc_held) demo_tx"
    by (simp add: alloc_demo bt_contains_def bt_get_def)
  from rollback_removes_owned [OF demo_alloc_reachable(3) this] show ?thesis
    by (auto simp: alloc_demo bt_values_def)
qed

text \<open>Allocations made one after another under one lifetime.\<close>

fun allocate_all :: "u64 list \<Rightarrow> StateLifetime \<Rightarrow> StateAllocator \<Rightarrow> (StateAllocation list, StateError) outcome \<times> StateAllocator" where
  "allocate_all [] lifetime s = (Ok [], s)"
| "allocate_all (b # bs) lifetime s =
     try_st (allocate Kv b lifetime s) (\<lambda>a s1. try_st (allocate_all bs lifetime s1) (\<lambda>as s2. (Ok (a # as), s2)))"

lemma allocate_all_run:
  assumes "allocate_all bs (Transactional tx) s = (r, t)" and "alloc_ok s"
  shows "alloc_ok t \<and> sa_active_transactions t = sa_active_transactions s \<and>
    (\<forall>i. bt_get (sa_allocations t) i = bt_get (sa_allocations s) i \<or>
         bt_get (sa_allocations s) i = None \<and> (\<exists>a. bt_get (sa_allocations t) i = Some a \<and> owned_by tx a))"
  using assms
proof (induction bs arbitrary: s r)
  case (Cons b bs)
  obtain q u where q: "allocate Kv b (Transactional tx) s = (q, u)" by fastforce
  have u: "alloc_ok u" by (rule allocate_ok [OF Cons.prems(2) q])
  from q show ?case
  proof (cases rule: allocate_cases)
    case (refused e)
    then show ?thesis using Cons.prems q by simp
  next
    case (granted a n)
    let ?i = "AllocationId (sa_next_allocation s)"
    have g: "sa_allocations u = bt_insert ?i a (sa_allocations s)" "sa_active_transactions u = sa_active_transactions s"
      by (subst granted(8), simp)+
    have fresh: "bt_get (sa_allocations s) ?i = None"
      using alloc_okD(3) [OF Cons.prems(2), of ?i] by (cases "bt_get (sa_allocations s) ?i") (auto simp: allocation_ok_def)
    obtain r' where "allocate_all bs (Transactional tx) u = (r', t)"
      using Cons.prems(1) q granted(1) by (auto simp: try_st_cases split: prod.splits outcome.splits)
    note ih = Cons.IH [OF this u]
    have "bt_get (sa_allocations t) i = bt_get (sa_allocations s) i \<or>
         bt_get (sa_allocations s) i = None \<and> (\<exists>a. bt_get (sa_allocations t) i = Some a \<and> owned_by tx a)" for i
    proof (cases "i = ?i")
      case True
      have "bt_get (sa_allocations u) i = Some a" using True by (simp add: g(1))
      then have "bt_get (sa_allocations t) i = Some a" using ih by (metis option.distinct(1))
      then show ?thesis using True fresh granted(2) by (simp add: owned_by_def)
    next
      case False
      then have "bt_get (sa_allocations u) i = bt_get (sa_allocations s) i" by (simp add: g(1))
      then show ?thesis using ih by metis
    qed
    then show ?thesis using ih g(2) by simp
  qed
qed simp

text \<open>A transaction undoes cleanly: begin one, make any number of allocations under it,
  whether or not the last one fails, then roll back, and the table and the byte count are
  what they were before it began.\<close>

theorem rollback_undoes_transaction:
  assumes "alloc_reachable capacity s" and "begin_transaction s = (Ok tx, s1)"
    and "allocate_all bs (Transactional tx) s1 = (r, s2)"
  shows "\<exists>removed s3. rollback tx s2 = (Ok removed, s3) \<and>
    sa_allocations s3 = sa_allocations s \<and> sa_used_bytes s3 = sa_used_bytes s"
proof -
  note ok = alloc_reachable_ok [OF assms(1)]
  note D = alloc_okD [OF ok]
  obtain n where n: "checked_add (sa_next_transaction s) 1 = Some n" "tx = TransactionId (sa_next_transaction s)"
    "sa_allocations s1 = sa_allocations s" "sa_active_transactions s1 = bt_insert tx () (sa_active_transactions s)"
    using assms(2) by (cases "checked_add (sa_next_transaction s) 1") (auto simp: begin_transaction_def Let_def)
  have ok1: "alloc_ok s1" by (rule begin_transaction_ok [OF ok assms(2)])
  note R = allocate_all_run [OF assms(3) ok1]
  have tx: "bt_contains (sa_active_transactions s2) tx" using R n(4) by (simp add: bt_contains_def)
  have fresh: "\<not> owned_by tx a" if "bt_get (sa_allocations s) i = Some a" for i a
    using D(3) [OF that] D(4) [of tx] n(2) by (auto simp: allocation_ok_def owned_by_def)
  obtain t where t: "rollback tx s2 = (Ok (filter (owned_by tx) (bt_values (sa_allocations s2))), t)" "alloc_ok t"
    "\<forall>i. bt_get (sa_allocations t) i = (case bt_get (sa_allocations s2) i of None \<Rightarrow> None
           | Some a \<Rightarrow> if owned_by tx a then None else Some a)"
    "sa_active_transactions t = bt_remove tx (sa_active_transactions s2)" "sa_capacity_bytes t = sa_capacity_bytes s2"
    by (rule rollback_run [OF conjunct1 [OF R] tx])
  have kept: "bt_get (sa_allocations s2) i = bt_get (sa_allocations s) i \<or>
      bt_get (sa_allocations s) i = None \<and> (\<exists>a. bt_get (sa_allocations s2) i = Some a \<and> owned_by tx a)" for i
    using R n(3) by simp
  have "bt_get (sa_allocations t) i = bt_get (sa_allocations s) i" for i
    using kept [of i] fresh [of i] t(3) [rule_format, of i] by (auto split: option.splits)
  then have "sa_allocations t = sa_allocations s"
    by (intro bt_extensional alloc_okD(1) t(2) ok) (simp add: fun_eq_iff)
  moreover from this have "sa_used_bytes t = sa_used_bytes s"
    using D(5) alloc_okD(5) [OF t(2)] by (simp add: word_unat_eq_iff)
  ultimately show ?thesis using t(1) by blast
qed

theorem rollback_undoes_transaction_witness:
  "\<exists>removed s3. rollback demo_tx demo_alloc_held = (Ok removed, s3) \<and> sa_used_bytes s3 = 0"
proof -
  have "allocate_all [60] (Transactional demo_tx) demo_alloc_open = (Ok [demo_allocation], demo_alloc_held)"
    by (simp add: demo_allocate)
  from rollback_undoes_transaction [OF demo_alloc_reachable(1) demo_begin this] show ?thesis
    by (auto simp: allocator_new_def)
qed

end
