(* ===== verification/Drafter.thy ===== *)
theory Drafter
  imports Rust_Base
begin

text \<open>
  The suffix drafter of \<open>crates/leone/src/drafter.rs\<close>: it looks for an earlier occurrence
  of the current suffix of the context and proposes what followed it. The two nested
  backward loops are recursions over the length and the start; a slice out of range is a
  panic, and the sum \<open>follow + wanted\<close> wraps as a 64-bit \<open>usize\<close> does in a release build.
  The abstract specification is \<open>best_proposal\<close>: longest match first, within a length the
  most recent occurrence that supplies a full proposal, else the most recent one.
\<close>

section \<open>The code\<close>

datatype DrafterError = MatchRange nat nat

datatype Draft = Nothing | Tokens "u32 list"

primrec draft_tokens :: "Draft \<Rightarrow> u32 list" where
  "draft_tokens Nothing = []"
| "draft_tokens (Tokens ts) = ts"

record SuffixDrafter =
  sd_longest_match :: nat
  sd_shortest_match :: nat
  sd_proposal :: nat

definition drafter_new :: "nat \<Rightarrow> nat \<Rightarrow> nat \<Rightarrow> (SuffixDrafter, DrafterError) outcome" where
  "drafter_new longest shortest proposal =
     (if longest < shortest then Err (MatchRange shortest longest)
      else Ok \<lparr>sd_longest_match = longest, sd_shortest_match = shortest, sd_proposal = proposal\<rparr>)"

text \<open>
  \<open>scan_back context n wanted start fallback\<close> visits the starts below \<open>start\<close>, the most
  recent first; \<open>Inl\<close> is the early return with a full proposal, \<open>Inr\<close> the fallback.
\<close>

fun scan_back ::
  "u32 list \<Rightarrow> nat \<Rightarrow> nat \<Rightarrow> nat \<Rightarrow> u32 list option \<Rightarrow> (u32 list + u32 list option, DrafterError) outcome" where
  "scan_back context n wanted 0 fallback = Ok (Inr fallback)"
| "scan_back context n wanted (Suc start) fallback =
     and_then (slice context start (start + n)) (\<lambda>found.
     if found \<noteq> drop (length context - n) context then scan_back context n wanted start fallback
     else
       let follow = start + n;
           end = min (usize_add follow wanted) (length context)
       in and_then (slice context follow end) (\<lambda>proposal.
          if length proposal = wanted then Ok (Inl proposal)
          else scan_back context n wanted start
                 (Some (case fallback of Some p \<Rightarrow> p | None \<Rightarrow> proposal))))"

fun draft_lengths :: "u32 list \<Rightarrow> nat \<Rightarrow> nat list \<Rightarrow> (Draft, DrafterError) outcome" where
  "draft_lengths context wanted [] = Ok Nothing"
| "draft_lengths context wanted (n # ns) =
     and_then (scan_back context n wanted (length context - n) None) (\<lambda>found.
     case found of
       Inl proposal \<Rightarrow> Ok (Tokens proposal)
     | Inr (Some proposal) \<Rightarrow> Ok (Tokens proposal)
     | Inr None \<Rightarrow> draft_lengths context wanted ns)"

definition draft :: "SuffixDrafter \<Rightarrow> u32 list \<Rightarrow> (Draft, DrafterError) outcome" where
  "draft d context =
     draft_lengths context (sd_proposal d)
       (rev [sd_shortest_match d..<Suc (min (sd_longest_match d) (length context))])"

section \<open>The specification\<close>

definition occurs :: "u32 list \<Rightarrow> nat \<Rightarrow> nat \<Rightarrow> bool" where
  "occurs context n start \<longleftrightarrow>
     start + n < length context \<and> take n (drop start context) = drop (length context - n) context"

definition follows_at :: "u32 list \<Rightarrow> nat \<Rightarrow> nat \<Rightarrow> nat \<Rightarrow> u32 list" where
  "follows_at context n wanted start = take wanted (drop (start + n) context)"

definition full_at :: "u32 list \<Rightarrow> nat \<Rightarrow> nat \<Rightarrow> nat \<Rightarrow> bool" where
  "full_at context n wanted start \<longleftrightarrow> occurs context n start \<and> start + n + wanted \<le> length context"

text \<open>What a scan of the starts below \<open>m\<close> for matches of length \<open>n\<close> must find.\<close>

definition best_proposal :: "u32 list \<Rightarrow> nat \<Rightarrow> nat \<Rightarrow> nat \<Rightarrow> u32 list \<Rightarrow> bool" where
  "best_proposal context n wanted m ts \<longleftrightarrow>
     (\<exists>start<m. occurs context n start \<and> ts = follows_at context n wanted start \<and>
       (if \<exists>k<m. full_at context n wanted k
        then full_at context n wanted start \<and> (\<forall>k. start < k \<longrightarrow> k < m \<longrightarrow> \<not> full_at context n wanted k)
        else \<forall>k. start < k \<longrightarrow> k < m \<longrightarrow> \<not> occurs context n k))"

lemma length_follows_at: "full_at context n wanted start \<Longrightarrow> length (follows_at context n wanted start) = wanted"
  by (auto simp: full_at_def follows_at_def)

lemma scan_step:
  assumes "start < length context - n" and "length context + wanted < usize_limit" and "0 < wanted"
  shows "scan_back context n wanted (Suc start) fallback =
    (if full_at context n wanted start then Ok (Inl (follows_at context n wanted start))
     else if occurs context n start then scan_back context n wanted start
       (Some (case fallback of Some p \<Rightarrow> p | None \<Rightarrow> follows_at context n wanted start))
     else scan_back context n wanted start fallback)"
proof -
  have fit: "start + n < length context" using assms(1) by linarith
  then have s: "slice context start (start + n) = (Ok (take n (drop start context)) :: (_, DrafterError) outcome)"
    by (simp add: slice_def)
  have add: "usize_add (start + n) wanted = start + n + wanted"
    using fit assms(2) by (simp add: usize_add_def)
  have p: "slice context (start + n) (min (start + n + wanted) (length context))
      = (Ok (follows_at context n wanted start) :: (_, DrafterError) outcome)"
    using fit by (auto simp: slice_def follows_at_def min_def)
  have len: "length (follows_at context n wanted start) = wanted \<longleftrightarrow> start + n + wanted \<le> length context"
    using fit by (auto simp: follows_at_def)
  show ?thesis
    unfolding scan_back.simps s and_then.simps Let_def add p
    using len fit by (auto simp: occurs_def full_at_def)
qed

lemma scan_back_fallback:
  assumes "m \<le> length context - n" and "length context + wanted < usize_limit" and "0 < wanted"
  shows "scan_back context n wanted m (Some fb) =
    (if \<exists>k<m. full_at context n wanted k
     then Ok (Inl (follows_at context n wanted (GREATEST k. k < m \<and> full_at context n wanted k)))
     else Ok (Inr (Some fb)))"
  using assms(1)
proof (induction m)
  case (Suc m)
  then have m: "m < length context - n" by simp
  note step = scan_step [OF m assms(2,3)]
  have less: "(\<exists>k<Suc m. P k) \<longleftrightarrow> P m \<or> (\<exists>k<m. P k)" for P by (auto simp: less_Suc_eq)
  show ?case
  proof (cases "full_at context n wanted m")
    case True
    then have "(GREATEST k. k < Suc m \<and> full_at context n wanted k) = m"
      by (intro Greatest_equality) auto
    then show ?thesis using True by (subst step) auto
  next
    case False
    have "(GREATEST k. k < Suc m \<and> full_at context n wanted k) = (GREATEST k. k < m \<and> full_at context n wanted k)"
      using False by (metis less_Suc_eq)
    then show ?thesis using Suc False by (subst step) (auto simp: less)
  qed
qed simp

lemma greatest_below:
  fixes m :: nat
  assumes "k < m" and "P k"
  shows "(GREATEST k. k < m \<and> P k) < m" and "P (GREATEST k. k < m \<and> P k)"
    and "\<And>j. (GREATEST k. k < m \<and> P k) < j \<Longrightarrow> j < m \<Longrightarrow> \<not> P j"
proof -
  have b: "\<And>y. y < m \<and> P y \<Longrightarrow> y \<le> m" by simp
  have g: "(GREATEST k. k < m \<and> P k) < m \<and> P (GREATEST k. k < m \<and> P k)"
    by (rule GreatestI_nat [where P = "\<lambda>k. k < m \<and> P k", OF conjI [OF assms] b])
  then show "(GREATEST k. k < m \<and> P k) < m" "P (GREATEST k. k < m \<and> P k)" by auto
  fix j
  assume j: "(GREATEST k. k < m \<and> P k) < j" "j < m"
  show "\<not> P j"
  proof
    assume "P j"
    then have "j \<le> (GREATEST k. k < m \<and> P k)"
      using Greatest_le_nat [where P = "\<lambda>k. k < m \<and> P k", of j m] j(2) by auto
    then show False using j(1) by simp
  qed
qed

lemma scan_back_best:
  assumes "m \<le> length context - n" and "length context + wanted < usize_limit" and "0 < wanted"
  shows "scan_back context n wanted m None = Ok (Inr None) \<and> (\<forall>k<m. \<not> occurs context n k) \<or>
    (\<exists>ts. (scan_back context n wanted m None = Ok (Inl ts) \<or> scan_back context n wanted m None = Ok (Inr (Some ts))) \<and>
       best_proposal context n wanted m ts)"
  using assms(1)
proof (induction m)
  case (Suc m)
  then have m: "m < length context - n" by simp
  note step = scan_step [OF m assms(2,3), of None]
  show ?case
  proof (cases "full_at context n wanted m")
    case True
    then have "best_proposal context n wanted (Suc m) (follows_at context n wanted m)"
      unfolding best_proposal_def by (intro exI [of _ m]) (auto simp: full_at_def)
    then show ?thesis using True by (subst (1 2 3) step) simp
  next
    case nf: False
    show ?thesis
    proof (cases "occurs context n m")
      case True
      have run: "scan_back context n wanted (Suc m) None =
          scan_back context n wanted m (Some (follows_at context n wanted m))"
        by (subst step) (simp add: nf True)
      show ?thesis
      proof (cases "\<exists>k<m. full_at context n wanted k")
        case full: True
        then obtain k where k: "k < m" "full_at context n wanted k" by blast
        let ?g = "GREATEST k. k < m \<and> full_at context n wanted k"
        note g = greatest_below [where P = "full_at context n wanted", OF k]
        have "best_proposal context n wanted (Suc m) (follows_at context n wanted ?g)"
          unfolding best_proposal_def
          using g k nf by (intro exI [of _ ?g]) (auto simp: full_at_def less_Suc_eq)
        moreover have "scan_back context n wanted (Suc m) None = Ok (Inl (follows_at context n wanted ?g))"
          unfolding run using scan_back_fallback [OF _ assms(2,3)] m full by simp
        ultimately show ?thesis by blast
      next
        case False
        then have "best_proposal context n wanted (Suc m) (follows_at context n wanted m)"
          unfolding best_proposal_def using nf True by (intro exI [of _ m]) (auto simp: less_Suc_eq)
        moreover have "scan_back context n wanted (Suc m) None = Ok (Inr (Some (follows_at context n wanted m)))"
          unfolding run using scan_back_fallback [OF _ assms(2,3)] m False by simp
        ultimately show ?thesis by blast
      qed
    next
      case no: False
      have run: "scan_back context n wanted (Suc m) None = scan_back context n wanted m None"
        by (subst step) (simp add: nf no)
      have "best_proposal context n wanted m ts \<Longrightarrow> best_proposal context n wanted (Suc m) ts" for ts
        unfolding best_proposal_def using nf no by (auto simp: less_Suc_eq split: if_splits) 
      then show ?thesis
        unfolding run using Suc no by (auto simp: less_Suc_eq)
    qed
  qed
qed simp

section \<open>What a draft is\<close>

lemma best_proposal_bounds:
  assumes "best_proposal context n wanted m ts" and "0 < wanted"
  shows "ts \<noteq> [] \<and> length ts \<le> wanted"
  using assms by (auto simp: best_proposal_def follows_at_def occurs_def)

lemma draft_lengths_best:
  assumes "length context + wanted < usize_limit" and "0 < wanted"
  shows "draft_lengths context wanted ns = Ok Nothing \<and>
      (\<forall>n\<in>set ns. \<forall>k<length context - n. \<not> occurs context n k) \<or>
    (\<exists>xs n ys ts. ns = xs @ n # ys \<and> draft_lengths context wanted ns = Ok (Tokens ts) \<and>
      best_proposal context n wanted (length context - n) ts \<and>
      (\<forall>n'\<in>set xs. \<forall>k<length context - n'. \<not> occurs context n' k))"
proof (induction ns)
  case (Cons n ns)
  from scan_back_best [OF order_refl assms, of n] show ?case
  proof (elim disjE exE conjE)
    fix ts
    assume "scan_back context n wanted (length context - n) None = Ok (Inl ts)"
      "best_proposal context n wanted (length context - n) ts"
    then show ?thesis
      by (intro disjI2 exI [of _ "[]"] exI [of _ n] exI [of _ ns] exI [of _ ts]) simp
  next
    fix ts
    assume "scan_back context n wanted (length context - n) None = Ok (Inr (Some ts))"
      "best_proposal context n wanted (length context - n) ts"
    then show ?thesis
      by (intro disjI2 exI [of _ "[]"] exI [of _ n] exI [of _ ns] exI [of _ ts]) simp
  next
    assume none: "scan_back context n wanted (length context - n) None = Ok (Inr None)"
      "\<forall>k<length context - n. \<not> occurs context n k"
    then have run: "draft_lengths context wanted (n # ns) = draft_lengths context wanted ns" by simp
    from Cons show ?thesis
    proof (elim disjE exE conjE)
      fix xs n' ys ts
      assume "ns = xs @ n' # ys" "draft_lengths context wanted ns = Ok (Tokens ts)"
        "best_proposal context n' wanted (length context - n') ts"
        "\<forall>n'\<in>set xs. \<forall>k<length context - n'. \<not> occurs context n' k"
      then show ?thesis
        unfolding run using none(2)
        by (intro disjI2 exI [of _ "n # xs"] exI [of _ n'] exI [of _ ys] exI [of _ ts]) simp
    qed (use none(2) run in simp)
  qed
qed simp

lemma occurs_below: "occurs context n k \<Longrightarrow> k < length context - n"
  by (auto simp: occurs_def)

lemma descending_split:
  assumes "rev [a..<b] = xs @ n # ys"
  shows "a \<le> n" and "n < b" and "set xs = {Suc n..<b}"
proof -
  have e: "[a..<b] = rev ys @ n # rev xs" using assms by (metis rev_append rev_rev_ident rev.simps(2) append_assoc append_Cons append_Nil)
  then have mem: "set (rev ys @ n # rev xs) = {a..<b}" by (metis set_upt)
  then show n: "a \<le> n" "n < b" by auto
  have "sorted_wrt (<) (rev ys @ n # rev xs)" unfolding e [symmetric] by (rule sorted_wrt_upt)
  then have "\<forall>x\<in>set ys. x < n" "\<forall>x\<in>set xs. n < x" by (auto simp: sorted_wrt_append)
  then show "set xs = {Suc n..<b}"
    using mem n by (intro set_eqI) (metis (no_types, lifting) Un_iff atLeastLessThan_iff insert_iff list.set(2) less_asym
        not_less_eq_eq not_less set_append set_rev less_le_trans less_imp_le le_less_trans)
qed

text \<open>C37: A draft is what followed an earlier occurrence of the context's suffix, chosen as
  documented, for a proposal length of at least one that together with the context's length
  stays below \<open>2 ^ 64\<close> (beyond, the code's unchecked addition can wrap: see
  \<open>draft_overflow_panics\<close>). The drafter proposes nothing exactly when no suffix of an allowed
  length occurs earlier; otherwise it takes the longest length that occurs, and within it the
  most recent occurrence with a full proposal after it, or the most recent one when none
  has. The proposal is not empty and not longer than configured.\<close>

theorem draft_meets_specification:
  assumes "drafter_new longest shortest proposal = Ok d" and "0 < proposal"
    and "length context + proposal < usize_limit"
  shows "draft d context = Ok Nothing \<and>
      (\<forall>n k. shortest \<le> n \<longrightarrow> n \<le> longest \<longrightarrow> n \<le> length context \<longrightarrow> \<not> occurs context n k) \<or>
    (\<exists>n ts. draft d context = Ok (Tokens ts) \<and> shortest \<le> n \<and> n \<le> longest \<and>
      best_proposal context n proposal (length context - n) ts \<and> ts \<noteq> [] \<and> length ts \<le> proposal \<and>
      (\<forall>n' k. n < n' \<longrightarrow> n' \<le> longest \<longrightarrow> n' \<le> length context \<longrightarrow> \<not> occurs context n' k))"
proof -
  have d: "sd_longest_match d = longest" "sd_shortest_match d = shortest" "sd_proposal d = proposal"
    using assms(1) by (auto simp: drafter_new_def split: if_splits)
  let ?ns = "rev [shortest..<Suc (min longest (length context))]"
  have run: "draft d context = draft_lengths context proposal ?ns" by (simp only: draft_def d)
  from draft_lengths_best [OF assms(3,2), of ?ns] show ?thesis
  proof (elim disjE exE conjE)
    assume none: "draft_lengths context proposal ?ns = Ok Nothing"
      "\<forall>n\<in>set ?ns. \<forall>k<length context - n. \<not> occurs context n k"
    have "\<not> occurs context n k" if "shortest \<le> n" "n \<le> longest" "n \<le> length context" for n k
    proof -
      have "n \<in> set ?ns" using that by auto
      then show ?thesis using none(2) occurs_below by blast
    qed
    then show ?thesis unfolding run using none(1) by (intro disjI1 conjI allI impI)
  next
    fix xs n ys ts
    assume some: "?ns = xs @ n # ys" "draft_lengths context proposal ?ns = Ok (Tokens ts)"
      "best_proposal context n proposal (length context - n) ts"
      "\<forall>n'\<in>set xs. \<forall>k<length context - n'. \<not> occurs context n' k"
    note S = descending_split [OF some(1)]
    have "\<not> occurs context n' k" if "n < n'" "n' \<le> longest" "n' \<le> length context" for n' k
    proof -
      have "n' \<in> set xs" unfolding S(3) using that by auto
      then show ?thesis using some(4) occurs_below by blast
    qed
    moreover have "n \<le> longest" using S(2) by simp
    moreover have "ts \<noteq> []" "length ts \<le> proposal" using best_proposal_bounds [OF some(3) assms(2)] by auto
    ultimately show ?thesis
      unfolding run using some(2,3) S(1) by (intro disjI2 exI [of _ n] exI [of _ ts] conjI allI impI)
  qed
qed

definition demo_context :: "u32 list" where
  "demo_context = [1, 2, 3, 0, 1, 2, 7, 0, 1, 2]"

lemma scan_back_numeral:
  "scan_back context n wanted (numeral k) fallback = scan_back context n wanted (Suc (pred_numeral k)) fallback"
  by (simp only: numeral_eq_Suc)

lemma demo_draft: "draft \<lparr>sd_longest_match = 2, sd_shortest_match = 2, sd_proposal = 1\<rparr> demo_context = Ok (Tokens [7])"
  by (simp add: draft_def demo_context_def slice_def usize_add_def scan_back_numeral)

theorem draft_meets_specification_witness: "\<exists>n. 2 \<le> n \<and> best_proposal demo_context n 1 (10 - n) [7]"
proof -
  have "drafter_new 2 2 1 = Ok \<lparr>sd_longest_match = 2, sd_shortest_match = 2, sd_proposal = 1\<rparr>"
    by (simp add: drafter_new_def)
  from draft_meets_specification [OF this, of demo_context]
  have "\<exists>n ts. Tokens [7] = Tokens ts \<and> 2 \<le> n \<and> best_proposal demo_context n 1 (length demo_context - n) ts"
    unfolding demo_draft by (auto simp: demo_context_def)
  moreover have "length demo_context = 10" by (simp add: demo_context_def)
  ultimately show ?thesis by auto
qed

text \<open>The end of a proposal is computed with an unchecked addition: a drafter whose
  proposal length is the largest \<open>usize\<close> panics on the first match it finds, in a release
  build, although \<open>SuffixDrafter::new\<close> accepts it.\<close>

theorem draft_overflow_panics:
  "\<exists>d. drafter_new 1 1 (usize_limit - 1) = Ok d \<and> draft d [5, 5] = Panic"
  by (simp add: drafter_new_def draft_def slice_def usize_add_def upt_rec)

end
