(* ===== verification/Progressive.thy ===== *)
theory Progressive
  imports Rust_Base
begin

text \<open>
  The progressive code planes of \<open>crates/leone/src/progressive.rs\<close>: fixed-width codes are
  split into a two-bit base plane and a refinement plane, each packed bit by bit into
  bytes. Fields of \<open>ProgressiveCodes\<close> carry the prefix \<open>pg_\<close>. The packing and unpacking
  of one plane meet the interface \<open>bit_plane\<close>, in which the round trip of the whole code is
  proved once.
\<close>

unbundle bit_operations_syntax

section \<open>The code\<close>

datatype ProgressiveWidth = Q4 | Q6

definition base_bits :: nat where
  "base_bits = 2"

fun target_bits :: "ProgressiveWidth \<Rightarrow> nat" where
  "target_bits Q4 = 4"
| "target_bits Q6 = 6"

definition refinement_bits :: "ProgressiveWidth \<Rightarrow> nat" where
  "refinement_bits w = target_bits w - base_bits"

definition maximum_code :: "ProgressiveWidth \<Rightarrow> u8" where
  "maximum_code w = push_bit (target_bits w) 1 - 1"

datatype ProgressiveError =
    CodeOutOfRange nat u8 nat
  | SizeOverflow
  | PlaneSize string nat nat

record ProgressiveCodes =
  pg_width :: ProgressiveWidth
  pg_codes :: nat
  pg_base :: "u8 list"
  pg_refinement :: "u8 list"

definition packed_len :: "nat \<Rightarrow> nat \<Rightarrow> (nat, ProgressiveError) outcome" where
  "packed_len values bits =
     ok_or (map_option (\<lambda>bits. bits div 8)
              (Option.bind (usize_checked_mul values bits) (\<lambda>bits. usize_checked_add bits 7))) SizeOverflow"

definition set_plane_bit :: "nat \<Rightarrow> u8 list \<Rightarrow> u8 list" where
  "set_plane_bit p out = out[p div 8 := out ! (p div 8) OR push_bit (p mod 8) 1]"

definition pack_value :: "nat \<Rightarrow> u8 \<Rightarrow> nat \<Rightarrow> u8 list \<Rightarrow> u8 list" where
  "pack_value bits value start out =
     fold (\<lambda>b out. if value AND push_bit b 1 \<noteq> 0 then set_plane_bit (start + b) out else out)
       [0..<bits] out"

fun pack_values :: "nat \<Rightarrow> u8 list \<Rightarrow> nat \<Rightarrow> u8 list \<Rightarrow> u8 list" where
  "pack_values bits [] index out = out"
| "pack_values bits (value # vs) index out =
     pack_values bits vs (index + 1) (pack_value bits value (index * bits) out)"

definition pack :: "u8 list \<Rightarrow> nat \<Rightarrow> (u8 list, ProgressiveError) outcome" where
  "pack vs bits = and_then (packed_len (length vs) bits) (\<lambda>n. Ok (pack_values bits vs 0 (replicate n 0)))"

fun unpack_bits :: "u8 list \<Rightarrow> nat \<Rightarrow> nat \<Rightarrow> nat \<Rightarrow> u8 \<Rightarrow> (u8, ProgressiveError) outcome" where
  "unpack_bits bytes start b 0 value = Ok value"
| "unpack_bits bytes start b (Suc n) value =
     and_then (at_index bytes ((start + b) div 8)) (\<lambda>byte.
     unpack_bits bytes start (b + 1) n (value OR push_bit b (drop_bit ((start + b) mod 8) byte AND 1)))"

definition unpack :: "u8 list \<Rightarrow> nat \<Rightarrow> nat \<Rightarrow> (u8 list, ProgressiveError) outcome" where
  "unpack bytes bits values =
     collect_results (map (\<lambda>index. unpack_bits bytes (index * bits) 0 bits 0) [0..<values])"

fun check_codes :: "ProgressiveWidth \<Rightarrow> nat \<Rightarrow> u8 list \<Rightarrow> (unit, ProgressiveError) outcome" where
  "check_codes w i [] = Ok ()"
| "check_codes w i (code # codes) =
     (if maximum_code w < code then Err (CodeOutOfRange i code (target_bits w)) else check_codes w (i + 1) codes)"

definition encode :: "ProgressiveWidth \<Rightarrow> u8 list \<Rightarrow> (ProgressiveCodes, ProgressiveError) outcome" where
  "encode w codes =
     and_then (check_codes w 0 codes) (\<lambda>_.
     let rb = refinement_bits w;
         refinement_mask = push_bit rb 1 - 1;
         base_codes = map (\<lambda>code. drop_bit rb code) codes;
         refinement_codes = map (\<lambda>code. code AND refinement_mask) codes
     in and_then (pack base_codes base_bits) (\<lambda>base.
        and_then (pack refinement_codes rb) (\<lambda>refinement.
        Ok \<lparr>pg_width = w, pg_codes = length codes, pg_base = base, pg_refinement = refinement\<rparr>)))"

definition validate_plane_sizes :: "ProgressiveCodes \<Rightarrow> (unit, ProgressiveError) outcome" where
  "validate_plane_sizes c =
     and_then (packed_len (pg_codes c) base_bits) (\<lambda>base.
     if length (pg_base c) \<noteq> base then Err (PlaneSize ''base'' base (length (pg_base c)))
     else and_then (packed_len (pg_codes c) (refinement_bits (pg_width c))) (\<lambda>refinement.
       if length (pg_refinement c) \<noteq> refinement
       then Err (PlaneSize ''refinement'' refinement (length (pg_refinement c))) else Ok ()))"

definition decode_complete :: "ProgressiveCodes \<Rightarrow> (u8 list, ProgressiveError) outcome" where
  "decode_complete c =
     and_then (validate_plane_sizes c) (\<lambda>_.
     and_then (unpack (pg_base c) base_bits (pg_codes c)) (\<lambda>base.
     let rb = refinement_bits (pg_width c)
     in and_then (unpack (pg_refinement c) rb (pg_codes c)) (\<lambda>refinement.
        Ok (map (\<lambda>(base, refinement). push_bit rb base OR refinement) (zip base refinement)))))"

definition decode_base :: "ProgressiveCodes \<Rightarrow> (u8 list, ProgressiveError) outcome" where
  "decode_base c = and_then (validate_plane_sizes c) (\<lambda>_. unpack (pg_base c) base_bits (pg_codes c))"

definition stored_bytes :: "ProgressiveCodes \<Rightarrow> nat" where
  "stored_bytes c = length (pg_base c) + length (pg_refinement c)"

record ProgressiveOracleStats =
  po_q4_codes :: nat
  po_q4_mismatches :: nat
  po_q6_codes :: nat
  po_q6_mismatches :: nat

definition all_codes :: "ProgressiveWidth \<Rightarrow> u8 list" where
  "all_codes w = map word_of_nat [0..<Suc (unat (maximum_code w))]"

definition mismatches :: "u8 list \<Rightarrow> u8 list \<Rightarrow> nat" where
  "mismatches xs ys = length (filter (\<lambda>(a, b). a \<noteq> b) (zip xs ys))"

definition exhaustive_progressive_oracle :: "(ProgressiveOracleStats, ProgressiveError) outcome" where
  "exhaustive_progressive_oracle =
     (let q4 = all_codes Q4; q6 = all_codes Q6
      in and_then (and_then (encode Q4 q4) decode_complete) (\<lambda>q4_decoded.
         and_then (and_then (encode Q6 q6) decode_complete) (\<lambda>q6_decoded.
         Ok \<lparr>po_q4_codes = length q4, po_q4_mismatches = mismatches q4 q4_decoded,
             po_q6_codes = length q6, po_q6_mismatches = mismatches q6 q6_decoded\<rparr>)))"

section \<open>The interface of a plane\<close>

text \<open>
  A plane stores a list of values of some width: packing small enough values succeeds with
  the promised number of bytes, and unpacking them returns the values.
\<close>

locale bit_plane =
  fixes pack :: "'v list \<Rightarrow> nat \<Rightarrow> ('b list, 'e) outcome"
    and unpack :: "'b list \<Rightarrow> nat \<Rightarrow> nat \<Rightarrow> ('v list, 'e) outcome"
    and fits :: "nat \<Rightarrow> 'v \<Rightarrow> bool" and room :: "nat \<Rightarrow> nat \<Rightarrow> bool" and size_of :: "nat \<Rightarrow> nat \<Rightarrow> nat"
  assumes pack_total: "room (length vs) bits \<Longrightarrow> \<exists>bytes. pack vs bits = Ok bytes \<and> length bytes = size_of (length vs) bits"
    and unpack_pack: "pack vs bits = Ok bytes \<Longrightarrow> \<forall>v\<in>set vs. fits bits v \<Longrightarrow> unpack bytes bits (length vs) = Ok vs"
begin

text \<open>Two planes packed side by side come back as the pairs that went in.\<close>

lemma planes_roundtrip:
  assumes "room (length vs) b1" and "room (length vs) b2"
    and "\<forall>v\<in>set vs. fits b1 (f v)" and "\<forall>v\<in>set vs. fits b2 (g v)"
  shows "\<exists>x y. pack (map f vs) b1 = Ok x \<and> pack (map g vs) b2 = Ok y \<and>
    length x = size_of (length vs) b1 \<and> length y = size_of (length vs) b2 \<and>
    unpack x b1 (length vs) = Ok (map f vs) \<and> unpack y b2 (length vs) = Ok (map g vs)"
proof -
  obtain x where x: "pack (map f vs) b1 = Ok x" "length x = size_of (length vs) b1"
    using pack_total [of "map f vs" b1] assms(1) by auto
  obtain y where y: "pack (map g vs) b2 = Ok y" "length y = size_of (length vs) b2"
    using pack_total [of "map g vs" b2] assms(2) by auto
  show ?thesis
    using x y unpack_pack [OF x(1)] unpack_pack [OF y(1)] assms(3,4) by auto
qed

end

section \<open>Packing bit by bit\<close>

definition plane_bit :: "u8 list \<Rightarrow> nat \<Rightarrow> bool" where
  "plane_bit bytes p \<longleftrightarrow> bit (bytes ! (p div 8)) (p mod 8)"

lemma length_set_plane_bit [simp]: "length (set_plane_bit p out) = length out"
  by (simp add: set_plane_bit_def)

lemma plane_bit_set:
  assumes "p div 8 < length out"
  shows "plane_bit (set_plane_bit p out) q \<longleftrightarrow> q = p \<or> plane_bit out q"
proof (cases "q div 8 = p div 8")
  case True
  have "q = p \<longleftrightarrow> q mod 8 = p mod 8" using True by (metis div_mult_mod_eq)
  moreover have "q mod 8 < 8" by simp
  ultimately show ?thesis
    using assms True by (auto simp: plane_bit_def set_plane_bit_def bit_or_iff bit_exp_iff)
next
  case False
  then show ?thesis using assms by (auto simp: plane_bit_def set_plane_bit_def)
qed

lemma test_bit: "b < 8 \<Longrightarrow> value AND push_bit b 1 \<noteq> 0 \<longleftrightarrow> bit value b"
  for "value" :: u8
  by (simp add: and_exp_eq_0_iff_not_bit push_bit_eq_mult)

lemma pack_value_bits:
  assumes "bits \<le> 8" and "start + bits \<le> 8 * length out"
  shows "length (pack_value bits value start out) = length out"
    and "plane_bit (pack_value bits value start out) q \<longleftrightarrow>
      plane_bit out q \<or> (start \<le> q \<and> q < start + bits \<and> bit value (q - start))"
proof -
  let ?f = "\<lambda>b out. if value AND push_bit b 1 \<noteq> 0 then set_plane_bit (start + b) out else out"
  have "length (fold ?f [0..<k] out) = length out \<and>
    (\<forall>q. plane_bit (fold ?f [0..<k] out) q \<longleftrightarrow>
      plane_bit out q \<or> (start \<le> q \<and> q < start + k \<and> bit value (q - start)))" if "k \<le> bits" for k
    using that
  proof (induction k)
    case (Suc k)
    let ?o = "fold ?f [0..<k] out"
    have ih: "length ?o = length out"
      "\<And>q. plane_bit ?o q \<longleftrightarrow> plane_bit out q \<or> (start \<le> q \<and> q < start + k \<and> bit value (q - start))"
      using Suc by auto
    have inside: "(start + k) div 8 < length ?o" using Suc.prems assms(2) ih(1) by linarith
    have b: "value AND push_bit k 1 \<noteq> 0 \<longleftrightarrow> bit value k" using Suc.prems assms(1) by (intro test_bit) simp
    have step: "fold ?f [0..<Suc k] out = (if bit value k then set_plane_bit (start + k) ?o else ?o)"
      using b by simp
    show ?case
      unfolding step using ih plane_bit_set [OF inside]
      by (auto simp: less_Suc_eq_le le_less)
  qed auto
  from this [of bits] show "length (pack_value bits value start out) = length out"
    and "plane_bit (pack_value bits value start out) q \<longleftrightarrow>
      plane_bit out q \<or> (start \<le> q \<and> q < start + bits \<and> bit value (q - start))"
    by (auto simp: pack_value_def)
qed

lemma pack_values_bits:
  assumes "bits \<le> 8" and "(index + length vs) * bits \<le> 8 * length out"
  shows "length (pack_values bits vs index out) = length out"
    and "plane_bit (pack_values bits vs index out) q \<longleftrightarrow> plane_bit out q \<or>
      (\<exists>j<length vs. (index + j) * bits \<le> q \<and> q < (index + j) * bits + bits \<and> bit (vs ! j) (q - (index + j) * bits))"
proof -
  have "length (pack_values bits vs index out) = length out \<and>
    (plane_bit (pack_values bits vs index out) q \<longleftrightarrow> plane_bit out q \<or>
      (\<exists>j<length vs. (index + j) * bits \<le> q \<and> q < (index + j) * bits + bits \<and> bit (vs ! j) (q - (index + j) * bits)))"
    using assms(2)
  proof (induction vs arbitrary: index out)
    case (Cons v vs)
    have "index * bits + bits \<le> (index + length (v # vs)) * bits" by (simp add: algebra_simps)
    then have room: "index * bits + bits \<le> 8 * length out" using Cons.prems by linarith
    note V = pack_value_bits [OF assms(1) room, of v]
    have rest: "(index + 1 + length vs) * bits \<le> 8 * length (pack_value bits v (index * bits) out)"
      using Cons.prems V(1) by simp
    have split: "(\<exists>j<length (v # vs). P j) \<longleftrightarrow> P 0 \<or> (\<exists>j<length vs. P (Suc j))" for P
      by (metis Suc_less_eq length_Cons less_Suc_eq_0_disj)
    show ?case
      using Cons.IH [OF rest] V unfolding split by simp
  qed simp
  then show "length (pack_values bits vs index out) = length out"
    and "plane_bit (pack_values bits vs index out) q \<longleftrightarrow> plane_bit out q \<or>
      (\<exists>j<length vs. (index + j) * bits \<le> q \<and> q < (index + j) * bits + bits \<and> bit (vs ! j) (q - (index + j) * bits))"
    by auto
qed

definition plane_len :: "nat \<Rightarrow> nat \<Rightarrow> nat" where
  "plane_len values bits = (values * bits + 7) div 8"

definition plane_room :: "nat \<Rightarrow> nat \<Rightarrow> bool" where
  "plane_room values bits \<longleftrightarrow> bits \<le> 8 \<and> values * bits + 7 < usize_limit"

lemma packed_len_room: "plane_room n bits \<Longrightarrow> packed_len n bits = Ok (plane_len n bits)"
  by (auto simp: packed_len_def usize_checked_mul_def usize_checked_add_def plane_room_def plane_len_def)

lemma packed_len_value: "packed_len n bits = Ok k \<Longrightarrow> k = plane_len n bits"
  by (auto simp: packed_len_def usize_checked_mul_def usize_checked_add_def plane_len_def split: if_splits)

lemma plane_len_covers: "n * bits \<le> 8 * plane_len n bits"
  by (simp add: plane_len_def)

lemma pack_plane:
  assumes "pack vs bits = Ok bytes" and "bits \<le> 8"
  shows "length bytes = plane_len (length vs) bits"
    and "j < length vs \<Longrightarrow> k < bits \<Longrightarrow> plane_bit bytes (j * bits + k) \<longleftrightarrow> bit (vs ! j) k"
proof -
  have b: "bytes = pack_values bits vs 0 (replicate (plane_len (length vs) bits) 0)"
    using assms(1) packed_len_value by (auto simp: pack_def and_then_eq_Ok)
  have room: "(0 + length vs) * bits \<le> 8 * length (replicate (plane_len (length vs) bits) (0 :: u8))"
    using plane_len_covers [of "length vs" bits] by simp
  note P = pack_values_bits [OF assms(2) room]
  show "length bytes = plane_len (length vs) bits" using P(1) b by simp
  assume j: "j < length vs" and k: "k < bits"
  have zero: "\<not> plane_bit (replicate (plane_len (length vs) bits) 0) q" if "q < length vs * bits" for q
  proof -
    have "q div 8 < plane_len (length vs) bits" using that plane_len_covers [of "length vs" bits] by linarith
    then show ?thesis by (simp add: plane_bit_def)
  qed
  have "Suc j * bits \<le> length vs * bits" using j by (intro mult_le_mono1) simp
  then have in_range: "j * bits + k < length vs * bits" using k by simp
  have uniq: "i = j" if "i * bits \<le> j * bits + k" "j * bits + k < i * bits + bits" for i
  proof -
    have "(j * bits + k) div bits = j" using k by (metis add.commute add_0 div_less div_mult_self3 less_nat_zero_code)
    moreover have "(j * bits + k) div bits = i" using that by (intro div_nat_eqI) (simp_all add: mult.commute)
    ultimately show ?thesis by simp
  qed
  show "plane_bit bytes (j * bits + k) \<longleftrightarrow> bit (vs ! j) k"
  proof
    assume "plane_bit bytes (j * bits + k)"
    then obtain i where "i < length vs" "i * bits \<le> j * bits + k" "j * bits + k < i * bits + bits"
      "bit (vs ! i) (j * bits + k - i * bits)"
      unfolding b P(2) using zero [OF in_range] by auto
    then show "bit (vs ! j) k" using uniq [of i] by simp
  next
    assume "bit (vs ! j) k"
    then show "plane_bit bytes (j * bits + k)"
      unfolding b P(2) using j k by (intro disjI2 exI [of _ j]) simp
  qed
qed

section \<open>Unpacking\<close>

lemma unpack_bits_run:
  assumes "start + b + n \<le> 8 * length bytes" and "b + n \<le> 8"
  shows "\<exists>v. unpack_bits bytes start b n value = Ok v \<and>
    (\<forall>k. bit v k \<longleftrightarrow> bit value k \<or> (b \<le> k \<and> k < b + n \<and> plane_bit bytes (start + k)))"
  using assms
proof (induction n arbitrary: b "value")
  case (Suc n)
  let ?v = "value OR push_bit b (drop_bit ((start + b) mod 8) (bytes ! ((start + b) div 8)) AND 1)"
  have "(start + b) div 8 < length bytes" using Suc.prems(1) by linarith
  then have step: "unpack_bits bytes start b (Suc n) value = unpack_bits bytes start (b + 1) n ?v"
    by (simp add: at_index_def)
  have "start + (b + 1) + n \<le> 8 * length bytes" "(b + 1) + n \<le> 8" using Suc.prems by auto
  from Suc.IH [OF this, of ?v] obtain v where v: "unpack_bits bytes start (b + 1) n ?v = Ok v"
    "\<forall>k. bit v k \<longleftrightarrow> bit ?v k \<or> (b + 1 \<le> k \<and> k < b + 1 + n \<and> plane_bit bytes (start + k))"
    by blast
  have "b < 8" using Suc.prems(2) by simp
  then have "bit ?v k \<longleftrightarrow> bit value k \<or> (k = b \<and> plane_bit bytes (start + b))" for k
    by (auto simp: bit_or_iff bit_push_bit_iff bit_and_iff bit_1_iff bit_exp_iff bit_drop_bit_eq plane_bit_def)
  then have "bit v k \<longleftrightarrow> bit value k \<or> (b \<le> k \<and> k < b + Suc n \<and> plane_bit bytes (start + k))" for k
    using v(2) by (auto simp: le_less Suc_le_eq less_Suc_eq)
  then show ?case using step v(1) by auto
qed auto

definition plane_fits :: "nat \<Rightarrow> u8 \<Rightarrow> bool" where
  "plane_fits bits v \<longleftrightarrow> bits \<le> 8 \<and> (\<forall>k\<ge>bits. \<not> bit v k)"

lemma unpack_pack:
  assumes "pack vs bits = Ok bytes" and "\<forall>v\<in>set vs. plane_fits bits v" and "bits \<le> 8"
  shows "unpack bytes bits (length vs) = Ok vs"
proof -
  note P = pack_plane [OF assms(1,3)]
  have one: "unpack_bits bytes (j * bits) 0 bits 0 = Ok (vs ! j)" if j: "j < length vs" for j
  proof -
    have "Suc j * bits \<le> length vs * bits" using j by (intro mult_le_mono1) simp
    then have "j * bits + 0 + bits \<le> 8 * length bytes"
      using P(1) plane_len_covers [of "length vs" bits] by simp
    moreover have "0 + bits \<le> 8" using assms(3) by simp
    ultimately obtain v where v: "unpack_bits bytes (j * bits) 0 bits 0 = Ok v"
      "\<forall>k. bit v k \<longleftrightarrow> bit (0 :: u8) k \<or> (0 \<le> k \<and> k < 0 + bits \<and> plane_bit bytes (j * bits + k))"
      using unpack_bits_run by blast
    have "bit v k \<longleftrightarrow> bit (vs ! j) k" for k
      using v(2) P(2) [OF j] assms(2) j nth_mem [OF j] by (cases "k < bits") (auto simp: plane_fits_def not_less)
    then have "v = vs ! j" by (intro bit_eqI) simp
    then show ?thesis using v(1) by simp
  qed
  have "unpack bytes bits (length vs) = Ok (map (\<lambda>j. vs ! j) [0..<length vs])"
    unfolding unpack_def by (rule collect_results_map) (use one in simp)
  then show ?thesis by (simp add: map_nth)
qed

interpretation plane: bit_plane pack unpack plane_fits plane_room plane_len
proof unfold_locales
  fix vs bits bytes
  show "plane_room (length vs) bits \<Longrightarrow> \<exists>bytes. pack vs bits = Ok bytes \<and> length bytes = plane_len (length vs) bits"
  proof -
    assume room: "plane_room (length vs) bits"
    then have run: "pack vs bits = Ok (pack_values bits vs 0 (replicate (plane_len (length vs) bits) 0))"
      by (simp add: pack_def packed_len_room)
    have "bits \<le> 8" using room by (simp add: plane_room_def)
    from pack_plane(1) [OF run this] run show ?thesis by blast
  qed
  show "pack vs bits = Ok bytes \<Longrightarrow> \<forall>v\<in>set vs. plane_fits bits v \<Longrightarrow> unpack bytes bits (length vs) = Ok vs"
  proof (cases vs)
    case (Cons v vs')
    assume "pack vs bits = Ok bytes" and fits: "\<forall>v\<in>set vs. plane_fits bits v"
    then show ?thesis using Cons by (intro unpack_pack) (auto simp: plane_fits_def)
  qed (simp add: unpack_def)
qed

section \<open>Whole codes\<close>

lemma check_codes_Ok: "check_codes w i codes = Ok () \<longleftrightarrow> (\<forall>c\<in>set codes. c \<le> maximum_code w)"
  by (induction codes arbitrary: i) (auto simp: not_less)

lemma check_codes_first:
  "check_codes w i codes = Err e \<longleftrightarrow> (\<exists>k<length codes. maximum_code w < codes ! k \<and>
     (\<forall>j<k. codes ! j \<le> maximum_code w) \<and> e = CodeOutOfRange (i + k) (codes ! k) (target_bits w))"
proof (induction codes arbitrary: i)
  case (Cons c cs)
  have split: "(\<exists>k<length (c # cs). P k) \<longleftrightarrow> P 0 \<or> (\<exists>k<length cs. P (Suc k))" for P
    by (metis Suc_less_eq length_Cons less_Suc_eq_0_disj)
  have all: "(\<forall>j<Suc k. (c # cs) ! j \<le> maximum_code w) \<longleftrightarrow> c \<le> maximum_code w \<and> (\<forall>j<k. cs ! j \<le> maximum_code w)" for k
    by (metis less_Suc_eq_0_disj nth_Cons_0 nth_Cons_Suc)
  show ?case
    unfolding split all using Cons.IH [of "i + 1"] by (auto simp: not_less)
qed simp

lemma check_codes_no_panic: "check_codes w i codes \<noteq> Panic"
  by (induction codes arbitrary: i) auto

lemma widths: "refinement_bits w \<le> 8" "base_bits \<le> 8" "refinement_bits w \<le> target_bits w" "target_bits w \<le> 8"
  "target_bits w = refinement_bits w + base_bits"
  by (cases w; simp add: refinement_bits_def base_bits_def)+

lemma small_code: "c \<le> maximum_code w \<Longrightarrow> target_bits w \<le> k \<Longrightarrow> \<not> bit c k"
proof -
  assume c: "c \<le> maximum_code w" and k: "target_bits w \<le> k"
  have "unat (maximum_code w) < 2 ^ target_bits w" by (cases w; simp add: maximum_code_def)
  then have "unat c < 2 ^ target_bits w" using c unfolding word_le_nat_alt by linarith
  also have "(2 :: nat) ^ target_bits w \<le> 2 ^ k" using k by simp
  finally have "\<not> bit (unat c) k" by (simp add: bit_iff_odd)
  then show "\<not> bit c k" by (auto simp: bit_unsigned_iff dest: bit_imp_possible_bit)
qed

lemma base_fits: "c \<le> maximum_code w \<Longrightarrow> plane_fits base_bits (drop_bit (refinement_bits w) c)"
  using widths(2) widths(5) [of w] small_code [of c w] by (auto simp: plane_fits_def bit_drop_bit_eq)

lemma refinement_fits: "plane_fits (refinement_bits w) (c AND (push_bit (refinement_bits w) 1 - 1))"
  using widths(1) [of w] by (auto simp: plane_fits_def bit_and_iff bit_mask_iff simp flip: mask_eq_exp_minus_1)

lemma join_planes: "push_bit r (drop_bit r c) OR (c AND (push_bit r 1 - 1)) = c" for c :: u8
proof (rule bit_eqI)
  fix k
  assume "possible_bit TYPE(u8) k"
  then show "bit (push_bit r (drop_bit r c) OR (c AND (push_bit r 1 - 1))) k = bit c k"
    by (auto simp: bit_or_iff bit_and_iff bit_push_bit_iff bit_drop_bit_eq bit_mask_iff simp flip: mask_eq_exp_minus_1)
qed

lemma encode_run:
  assumes "\<forall>c\<in>set codes. c \<le> maximum_code w" and "length codes * 4 + 7 < usize_limit"
  obtains b r where "encode w codes = Ok \<lparr>pg_width = w, pg_codes = length codes, pg_base = b, pg_refinement = r\<rparr>"
    and "length b = plane_len (length codes) base_bits" and "length r = plane_len (length codes) (refinement_bits w)"
    and "unpack b base_bits (length codes) = Ok (map (drop_bit (refinement_bits w)) codes)"
    and "unpack r (refinement_bits w) (length codes) = Ok (map (\<lambda>c. c AND (push_bit (refinement_bits w) 1 - 1)) codes)"
proof -
  have room: "plane_room (length codes) base_bits" "plane_room (length codes) (refinement_bits w)"
    using assms(2) by (cases w; simp add: plane_room_def base_bits_def refinement_bits_def)+
  from plane.planes_roundtrip [OF room, of "drop_bit (refinement_bits w)" "\<lambda>c. c AND (push_bit (refinement_bits w) 1 - 1)"]
  obtain b r where br: "pack (map (drop_bit (refinement_bits w)) codes) base_bits = Ok b"
    "pack (map (\<lambda>c. c AND (push_bit (refinement_bits w) 1 - 1)) codes) (refinement_bits w) = Ok r"
    "length b = plane_len (length codes) base_bits" "length r = plane_len (length codes) (refinement_bits w)"
    "unpack b base_bits (length codes) = Ok (map (drop_bit (refinement_bits w)) codes)"
    "unpack r (refinement_bits w) (length codes) = Ok (map (\<lambda>c. c AND (push_bit (refinement_bits w) 1 - 1)) codes)"
    using assms(1) base_fits refinement_fits by metis
  have "check_codes w 0 codes = Ok ()" using assms(1) check_codes_Ok by blast
  then have "encode w codes = Ok \<lparr>pg_width = w, pg_codes = length codes, pg_base = b, pg_refinement = r\<rparr>"
    using br(1,2) by (simp only: encode_def and_then.simps Let_def)
  then show thesis using that br(3-6) by blast
qed

lemma validate_encoded:
  assumes "length codes * 4 + 7 < usize_limit"
    and "length b = plane_len (length codes) base_bits" and "length r = plane_len (length codes) (refinement_bits w)"
  shows "validate_plane_sizes \<lparr>pg_width = w, pg_codes = length codes, pg_base = b, pg_refinement = r\<rparr> = Ok ()"
proof -
  have "plane_room (length codes) base_bits" "plane_room (length codes) (refinement_bits w)"
    using assms(1) by (cases w; simp add: plane_room_def base_bits_def refinement_bits_def)+
  then show ?thesis using assms(2,3) by (simp add: validate_plane_sizes_def packed_len_room)
qed

lemma decode_encoded:
  assumes "length codes * 4 + 7 < usize_limit"
    and "length b = plane_len (length codes) base_bits" and "length r = plane_len (length codes) (refinement_bits w)"
    and "unpack b base_bits (length codes) = Ok (map (drop_bit (refinement_bits w)) codes)"
    and "unpack r (refinement_bits w) (length codes) = Ok (map (\<lambda>c. c AND (push_bit (refinement_bits w) 1 - 1)) codes)"
  shows "decode_complete \<lparr>pg_width = w, pg_codes = length codes, pg_base = b, pg_refinement = r\<rparr> = Ok codes"
proof -
  note v = validate_encoded [OF assms(1-3)]
  have "map (\<lambda>(base, refinement). push_bit (refinement_bits w) base OR refinement)
      (zip (map (drop_bit (refinement_bits w)) codes) (map (\<lambda>c. c AND (push_bit (refinement_bits w) 1 - 1)) codes)) = codes"
    unfolding zip_map_map by (simp only: map_map comp_def case_prod_beta fst_conv snd_conv join_planes zip_same_conv_map map_ident)
  then show ?thesis
    using v assms(4,5) by (simp only: decode_complete_def and_then.simps Let_def ProgressiveCodes.simps)
qed

lemma encode_then_decode:
  assumes "\<forall>c\<in>set codes. c \<le> maximum_code w" and "length codes * 4 + 7 < usize_limit"
  shows "and_then (encode w codes) decode_complete = Ok codes"
  by (rule encode_run [OF assms]) (simp add: decode_encoded [OF assms(2)])

text \<open>C38: Splitting codes into planes loses nothing: any list of in-range codes encodes,
  both planes have exactly the bytes their bits need, decoding gives back every code, and
  the base view is each code without its refinement bits.\<close>

theorem progressive_roundtrip:
  assumes "\<forall>c\<in>set codes. c \<le> maximum_code w" and "length codes * 4 + 7 < usize_limit"
  shows "\<exists>p. encode w codes = Ok p \<and> decode_complete p = Ok codes \<and>
    decode_base p = Ok (map (drop_bit (refinement_bits w)) codes) \<and>
    stored_bytes p = (length codes * 2 + 7) div 8 + (length codes * refinement_bits w + 7) div 8"
proof -
  obtain b r where br: "encode w codes = Ok \<lparr>pg_width = w, pg_codes = length codes, pg_base = b, pg_refinement = r\<rparr>"
    "length b = plane_len (length codes) base_bits" "length r = plane_len (length codes) (refinement_bits w)"
    "unpack b base_bits (length codes) = Ok (map (drop_bit (refinement_bits w)) codes)"
    "unpack r (refinement_bits w) (length codes) = Ok (map (\<lambda>c. c AND (push_bit (refinement_bits w) 1 - 1)) codes)"
    by (rule encode_run [OF assms])
  let ?p = "\<lparr>pg_width = w, pg_codes = length codes, pg_base = b, pg_refinement = r\<rparr>"
  note v = validate_encoded [OF assms(2) br(2,3)]
  have "decode_complete ?p = Ok codes" by (rule decode_encoded [OF assms(2) br(2-5)])
  moreover have "decode_base ?p = Ok (map (drop_bit (refinement_bits w)) codes)"
    using v br(4) by (simp only: decode_base_def and_then.simps ProgressiveCodes.simps)
  moreover have "stored_bytes ?p = (length codes * 2 + 7) div 8 + (length codes * refinement_bits w + 7) div 8"
    using br(2,3) by (simp add: stored_bytes_def plane_len_def base_bits_def)
  ultimately show ?thesis using br(1) by blast
qed

theorem progressive_roundtrip_witness:
  "\<exists>p. encode Q4 [0, 15, 3, 12, 7] = Ok p \<and> decode_complete p = Ok [0, 15, 3, 12, 7] \<and> stored_bytes p = 4"
  using progressive_roundtrip [of "[0, 15, 3, 12, 7]" Q4]
  by (auto simp: maximum_code_def refinement_bits_def base_bits_def)

text \<open>Encoding refuses a list exactly when a code is out of range, and the error names
  the first such code, its index and the width; a list that is refused is never packed.\<close>

theorem encode_rejects_first_bad_code:
  "(\<exists>i c. encode w codes = Err (CodeOutOfRange i c (target_bits w)) \<and> i < length codes \<and> c = codes ! i \<and>
      maximum_code w < c \<and> (\<forall>j<i. codes ! j \<le> maximum_code w))
   \<longleftrightarrow> (\<exists>c\<in>set codes. maximum_code w < c)"
proof
  assume "\<exists>c\<in>set codes. maximum_code w < c"
  then have "check_codes w 0 codes \<noteq> Ok ()" using check_codes_Ok by (metis not_less)
  then obtain e where e: "check_codes w 0 codes = Err e"
    using check_codes_no_panic by (cases "check_codes w 0 codes") auto
  then obtain k where "k < length codes" "maximum_code w < codes ! k" "\<forall>j<k. codes ! j \<le> maximum_code w"
    "e = CodeOutOfRange k (codes ! k) (target_bits w)"
    using check_codes_first [of w 0 codes e] by auto
  moreover have "encode w codes = Err e" using e by (simp add: encode_def)
  ultimately show "\<exists>i c. encode w codes = Err (CodeOutOfRange i c (target_bits w)) \<and> i < length codes \<and> c = codes ! i \<and>
      maximum_code w < c \<and> (\<forall>j<i. codes ! j \<le> maximum_code w)" by blast
qed (use nth_mem in blast)

theorem encode_rejects_first_bad_code_witness:
  "\<exists>i c. encode Q4 [3, 16, 20] = Err (CodeOutOfRange i c 4) \<and> c = [3, 16, 20] ! i"
  using encode_rejects_first_bad_code [of Q4 "[3, 16, 20]"] by (auto simp: maximum_code_def)

lemma all_codes_facts: "\<forall>c\<in>set (all_codes w). c \<le> maximum_code w" "length (all_codes w) \<le> 256"
proof -
  have b: "unat (maximum_code w) < 2 ^ 8" using unat_lt_2p [of "maximum_code w"] by simp
  have "unat (word_of_nat k :: u8) \<le> unat (maximum_code w)" if "k \<le> unat (maximum_code w)" for k
    using that b by (simp add: unsigned_of_nat take_bit_nat_eq_self)
  then show "\<forall>c\<in>set (all_codes w). c \<le> maximum_code w"
    unfolding all_codes_def word_le_nat_alt by (auto simp: less_Suc_eq_le)
  show "length (all_codes w) \<le> 256" using b by (simp add: all_codes_def)
qed

text \<open>The exhaustive self-test of the repository cannot fail: over all 16 four-bit and
  all 64 six-bit codes it reports no mismatch.\<close>

theorem exhaustive_oracle_clean:
  "exhaustive_progressive_oracle = Ok \<lparr>po_q4_codes = 16, po_q4_mismatches = 0, po_q6_codes = 64, po_q6_mismatches = 0\<rparr>"
proof -
  have rt: "and_then (encode w (all_codes w)) decode_complete = Ok (all_codes w)" for w
  proof -
    have "length (all_codes w) * 4 + 7 \<le> 256 * 4 + 7" using all_codes_facts(2) [of w] by simp
    then have "length (all_codes w) * 4 + 7 < usize_limit" by (rule le_less_trans) simp
    then show ?thesis by (rule encode_then_decode [OF all_codes_facts(1)])
  qed
  have same: "mismatches xs xs = 0" for xs
    by (auto simp: mismatches_def zip_same_conv_map filter_empty_conv)
  have "length (all_codes Q4) = 16" "length (all_codes Q6) = 64"
    by (simp_all add: all_codes_def maximum_code_def)
  then show ?thesis by (simp add: exhaustive_progressive_oracle_def rt same Let_def)
qed

end
