(* ===== verification/Adaptive_Draft.thy ===== *)
theory Adaptive_Draft
  imports BTree_Map
begin

text \<open>
  The training-free drafter of \<open>crates/leone/src/adaptive_draft.rs\<close> (lines 1 to 200): a
  proposal is the continuation of the longest repeated suffix, or else the token votes of
  earlier occurrences of the current token. The proposal length is at most 7, so the sums
  of indices cannot leave a \<open>usize\<close>; slices out of range are panics. Fields of
  \<open>AdaptiveProposal\<close> carry the prefix \<open>ap_\<close>, those of the configuration \<open>ad_\<close>.
\<close>

section \<open>Data\<close>

definition WIDTH_SLOTS :: nat where
  "WIDTH_SLOTS = 9"

datatype AdaptiveError =
    ProposalWidth | SuffixRange | MinimumSpeedup | MaximumRegret | EwmaWeight | VerifierPositions | CountOverflow

datatype ProposalSource = Suffix | TokenRecycling

record AdaptiveProposal =
  ap_tokens :: "u32 list"
  ap_source :: ProposalSource

record AdaptiveDrafterConfig =
  ad_max_proposal_tokens :: nat
  ad_minimum_suffix_tokens :: nat
  ad_maximum_suffix_tokens :: nat

definition drafter_config_new :: "nat \<Rightarrow> nat \<Rightarrow> nat \<Rightarrow> (AdaptiveDrafterConfig, AdaptiveError) outcome" where
  "drafter_config_new max_proposal minimum maximum =
     (if WIDTH_SLOTS - 2 < max_proposal then Err ProposalWidth
      else if maximum < minimum then Err SuffixRange
      else Ok \<lparr>ad_max_proposal_tokens = max_proposal, ad_minimum_suffix_tokens = minimum,
               ad_maximum_suffix_tokens = maximum\<rparr>)"

definition drafter_config_default :: "(AdaptiveDrafterConfig, AdaptiveError) outcome" where
  "drafter_config_default = (case drafter_config_new 7 4 64 of Ok c \<Rightarrow> Ok c | _ \<Rightarrow> Panic)"

definition maximum_verifier_positions :: "AdaptiveDrafterConfig \<Rightarrow> nat" where
  "maximum_verifier_positions c = ad_max_proposal_tokens c + 1"

section \<open>Suffix proposals\<close>

fun suffix_ends ::
  "u32 list \<Rightarrow> nat \<Rightarrow> nat \<Rightarrow> nat list \<Rightarrow> (AdaptiveProposal option, AdaptiveError) outcome" where
  "suffix_ends history n width [] = Ok None"
| "suffix_ends history n width (prior_end # ends) =
     and_then (slice history (prior_end - n) prior_end) (\<lambda>found.
     if found \<noteq> drop (length history - n) history then suffix_ends history n width ends
     else
       let proposal_end = min (prior_end + width) (length history)
       in if proposal_end = prior_end then suffix_ends history n width ends
          else and_then (slice history prior_end proposal_end) (\<lambda>tokens.
               Ok (Some \<lparr>ap_tokens = tokens, ap_source = Suffix\<rparr>)))"

fun suffix_lengths ::
  "u32 list \<Rightarrow> nat \<Rightarrow> nat list \<Rightarrow> (AdaptiveProposal option, AdaptiveError) outcome" where
  "suffix_lengths history width [] = Ok None"
| "suffix_lengths history width (n # ns) =
     and_then (suffix_ends history n width (rev [n..<length history - n])) (\<lambda>found.
     case found of Some p \<Rightarrow> Ok (Some p) | None \<Rightarrow> suffix_lengths history width ns)"

definition suffix_proposal ::
  "AdaptiveDrafterConfig \<Rightarrow> u32 list \<Rightarrow> (AdaptiveProposal option, AdaptiveError) outcome" where
  "suffix_proposal c history =
     (if length history \<le> ad_minimum_suffix_tokens c then Ok None
      else suffix_lengths history (ad_max_proposal_tokens c)
             (rev [ad_minimum_suffix_tokens c..<Suc (min (ad_maximum_suffix_tokens c) (length history - 1))]))"

section \<open>Token recycling\<close>

type_synonym votes = "(u32, u64 \<times> nat) btree_map"

definition add_vote :: "u32 \<Rightarrow> nat \<Rightarrow> votes \<Rightarrow> votes" where
  "add_vote token position votes =
     (case bt_get votes token of
        None \<Rightarrow> bt_insert token (1, position) votes
      | Some (n, latest) \<Rightarrow> bt_insert token (n + 1, max latest position) votes)"

fun collect_votes ::
  "u32 list \<Rightarrow> u32 \<Rightarrow> nat \<Rightarrow> u32 list \<Rightarrow> nat list \<Rightarrow> votes \<Rightarrow> (votes, AdaptiveError) outcome" where
  "collect_votes history current history_end tokens [] votes = Ok votes"
| "collect_votes history current history_end tokens (position # ps) votes =
     (if history ! position \<noteq> current then collect_votes history current history_end tokens ps votes
      else
        let continuation = position + 1; next = continuation + length tokens
        in if history_end \<le> next then collect_votes history current history_end tokens ps votes
           else and_then (slice history continuation next) (\<lambda>found.
             if found \<noteq> tokens then collect_votes history current history_end tokens ps votes
             else and_then (at_index history next) (\<lambda>token.
               collect_votes history current history_end tokens ps (add_vote token position votes))))"

definition compare_votes :: "u32 \<times> u64 \<times> nat \<Rightarrow> u32 \<times> u64 \<times> nat \<Rightarrow> ordering" where
  "compare_votes left right =
     then_with (then_with (cmp (fst (snd left)) (fst (snd right))) (cmp (snd (snd left)) (snd (snd right))))
       (cmp (fst right) (fst left))"

definition recycled_token ::
  "u32 list \<Rightarrow> u32 \<Rightarrow> nat \<Rightarrow> u32 list \<Rightarrow> (u32 option, AdaptiveError) outcome" where
  "recycled_token history current history_end tokens =
     and_then (collect_votes history current history_end tokens [0..<length history - 1] []) (\<lambda>votes.
     Ok (map_option fst (max_by compare_votes votes)))"

text \<open>The loop pushes one token per round until \<open>width\<close> of them are there.\<close>

fun recycle_tokens ::
  "u32 list \<Rightarrow> u32 \<Rightarrow> nat \<Rightarrow> nat \<Rightarrow> u32 list \<Rightarrow> (u32 list, AdaptiveError) outcome" where
  "recycle_tokens history current history_end 0 tokens = Ok tokens"
| "recycle_tokens history current history_end (Suc left) tokens =
     and_then (recycled_token history current history_end tokens) (\<lambda>found.
     case found of
       None \<Rightarrow> Ok tokens
     | Some token \<Rightarrow> recycle_tokens history current history_end left (tokens @ [token]))"

definition recycling_proposal ::
  "AdaptiveDrafterConfig \<Rightarrow> u32 list \<Rightarrow> (AdaptiveProposal option, AdaptiveError) outcome" where
  "recycling_proposal c history =
     (if history = [] then Ok None
      else and_then (recycle_tokens history (last history) (length history - 1) (ad_max_proposal_tokens c) []) (\<lambda>tokens.
        if tokens = [] then Ok None
        else Ok (Some \<lparr>ap_tokens = tokens, ap_source = TokenRecycling\<rparr>)))"

definition propose ::
  "AdaptiveDrafterConfig \<Rightarrow> u32 list \<Rightarrow> (AdaptiveProposal option, AdaptiveError) outcome" where
  "propose c history =
     and_then (suffix_proposal c history) (\<lambda>found.
     case found of Some p \<Rightarrow> Ok (Some p) | None \<Rightarrow> recycling_proposal c history)"

section \<open>What a suffix proposal is\<close>

definition repeats :: "u32 list \<Rightarrow> nat \<Rightarrow> nat \<Rightarrow> bool" where
  "repeats history n e \<longleftrightarrow>
     n \<le> e \<and> e + n < length history \<and> take n (drop (e - n) history) = drop (length history - n) history"

lemma suffix_ends_step:
  assumes "n \<le> e" and "e < length history - n" and "0 < width"
  shows "suffix_ends history n width (e # es) =
    (if repeats history n e then Ok (Some \<lparr>ap_tokens = take width (drop e history), ap_source = Suffix\<rparr>)
     else suffix_ends history n width es)"
proof -
  have s: "slice history (e - n) e = (Ok (take n (drop (e - n) history)) :: (_, AdaptiveError) outcome)"
    using assms(1,2) by (simp add: slice_def)
  have "slice history e (min (e + width) (length history)) = (Ok (take width (drop e history)) :: (_, AdaptiveError) outcome)"
    using assms by (auto simp: slice_def min_def)
  moreover have "min (e + width) (length history) \<noteq> e" using assms by auto
  ultimately show ?thesis
    unfolding suffix_ends.simps s and_then.simps Let_def using assms(1,2) by (auto simp: repeats_def)
qed

lemma suffix_ends_scan:
  assumes "\<forall>e\<in>set es. n \<le> e \<and> e < length history - n" and "0 < width"
  shows "suffix_ends history n width es = Ok (map_option
    (\<lambda>e. \<lparr>ap_tokens = take width (drop e history), ap_source = Suffix\<rparr>) (find (repeats history n) es))"
  using assms(1)
proof (induction es)
  case (Cons e es)
  then show ?case using suffix_ends_step [of n e history width es] assms(2) by simp
qed simp

lemma find_latest:
  assumes "find P (rev [a..<b]) = Some e"
  shows "P e" and "a \<le> e" and "e < b" and "\<And>k. e < k \<Longrightarrow> k < b \<Longrightarrow> \<not> P k"
proof -
  have "P e \<and> a \<le> e \<and> e < b \<and> (\<forall>k. e < k \<longrightarrow> k < b \<longrightarrow> \<not> P k)"
    using assms
  proof (induction b)
    case (Suc b)
    then show ?case by (cases "a \<le> b"; cases "P b") (auto simp: less_Suc_eq)
  qed simp
  then show "P e" "a \<le> e" "e < b" "\<And>k. e < k \<Longrightarrow> k < b \<Longrightarrow> \<not> P k" by auto
qed

lemma find_none: "find P (rev [a..<b]) = None \<longleftrightarrow> (\<forall>k. a \<le> k \<longrightarrow> k < b \<longrightarrow> \<not> P k)"
  by (auto simp: find_None_iff)

definition suffix_at :: "u32 list \<Rightarrow> nat \<Rightarrow> nat option" where
  "suffix_at history n = find (repeats history n) (rev [n..<length history - n])"

lemma suffix_lengths_scan:
  assumes "0 < width"
  shows "suffix_lengths history width ns = Ok (map_option
    (\<lambda>n. \<lparr>ap_tokens = take width (drop (the (suffix_at history n)) history), ap_source = Suffix\<rparr>)
    (find (\<lambda>n. suffix_at history n \<noteq> None) ns))"
proof (induction ns)
  case (Cons n ns)
  have "suffix_ends history n width (rev [n..<length history - n]) = Ok (map_option
    (\<lambda>e. \<lparr>ap_tokens = take width (drop e history), ap_source = Suffix\<rparr>) (suffix_at history n))"
    unfolding suffix_at_def by (rule suffix_ends_scan [OF _ assms]) auto
  then show ?case using Cons by (cases "suffix_at history n") auto
qed simp

lemma suffix_at_none: "suffix_at history n = None \<longleftrightarrow> (\<forall>e. \<not> repeats history n e)"
  unfolding suffix_at_def find_none by (auto simp: repeats_def)

section \<open>What a recycled token is\<close>

text \<open>The positions that vote for \<open>t\<close> after \<open>tokens\<close>: earlier occurrences of the current
  token followed by the tokens already proposed and then by \<open>t\<close>.\<close>

definition votes_for :: "u32 list \<Rightarrow> u32 list \<Rightarrow> u32 \<Rightarrow> nat \<Rightarrow> bool" where
  "votes_for history tokens t p \<longleftrightarrow>
     history ! p = last history \<and> p + 1 + length tokens < length history - 1 \<and>
     take (length tokens) (drop (p + 1) history) = tokens \<and> history ! (p + 1 + length tokens) = t"

definition voters :: "u32 list \<Rightarrow> u32 list \<Rightarrow> nat \<Rightarrow> u32 \<Rightarrow> nat list" where
  "voters history tokens m t = filter (votes_for history tokens t) [0..<m]"

definition tally :: "nat list \<Rightarrow> (u64 \<times> nat) option" where
  "tally ps = (if ps = [] then None else Some (of_nat (length ps), last ps))"

lemma collect_votes_append:
  "collect_votes h cur he ts (xs @ ys) v = and_then (collect_votes h cur he ts xs v) (collect_votes h cur he ts ys)"
  by (induction xs arbitrary: v) (auto simp: Let_def slice_def at_index_def)

lemma collect_votes_run:
  assumes "m \<le> length history - 1"
  shows "\<exists>v. collect_votes history (last history) (length history - 1) tokens [0..<m] [] = Ok v \<and> bt_ok v \<and>
    (\<forall>t. bt_get v t = tally (voters history tokens m t))"
  using assms
proof (induction m)
  case 0
  then show ?case by (simp add: voters_def tally_def)
next
  case (Suc m)
  then obtain v where v: "collect_votes history (last history) (length history - 1) tokens [0..<m] [] = Ok v" "bt_ok v"
    "\<forall>t. bt_get v t = tally (voters history tokens m t)"
    by auto
  have run: "collect_votes history (last history) (length history - 1) tokens [0..<Suc m] [] =
      collect_votes history (last history) (length history - 1) tokens [m] v"
    using v(1) by (simp add: collect_votes_append)
  have snoc: "voters history tokens (Suc m) t = voters history tokens m t @ (if votes_for history tokens t m then [m] else [])" for t
    by (simp add: voters_def)
  show ?case
  proof (cases "\<exists>t. votes_for history tokens t m")
    case True
    then obtain t where t: "votes_for history tokens t m" by blast
    have only: "votes_for history tokens u m \<longleftrightarrow> u = t" for u using t by (auto simp: votes_for_def)
    have "collect_votes history (last history) (length history - 1) tokens [m] v = Ok (add_vote t m v)"
      using t by (auto simp: votes_for_def slice_def at_index_def Let_def)
    moreover have "bt_ok (add_vote t m v)" using v(2) by (auto simp: add_vote_def split: option.splits)
    moreover have "bt_get (add_vote t m v) u = tally (voters history tokens (Suc m) u)" for u
    proof -
      have "\<forall>p\<in>set (voters history tokens m t). p < m" by (auto simp: voters_def)
      then have "voters history tokens m t \<noteq> [] \<Longrightarrow> max (last (voters history tokens m t)) m = m"
        by (metis last_in_set less_imp_le max.absorb2)
      then show ?thesis
        using v(3) only unfolding snoc by (auto simp: add_vote_def tally_def split: option.splits if_splits)
    qed
    ultimately show ?thesis using run by auto
  next
    case False
    then have "collect_votes history (last history) (length history - 1) tokens [m] v = Ok v"
      using Suc.prems by (auto simp: votes_for_def slice_def at_index_def Let_def)
    then show ?thesis using run v(2,3) False by (auto simp: snoc)
  qed
qed

interpretation votes: comparison compare_votes A for A
  unfolding compare_votes_def [abs_def]
  by (intro comparison_then_with comparison_key comparison_key_desc)

text \<open>\<open>t\<close> wins: it has a voter, and any other candidate has fewer voters, or as many but an
  older last one. A last voter votes for one token only, so there is no further tie.\<close>

definition wins :: "u32 list \<Rightarrow> u32 list \<Rightarrow> u32 \<Rightarrow> bool" where
  "wins history tokens t \<longleftrightarrow>
     (let vs = voters history tokens (length history - 1)
      in vs t \<noteq> [] \<and> (\<forall>u. u \<noteq> t \<longrightarrow> vs u \<noteq> [] \<longrightarrow>
           length (vs u) < length (vs t) \<or> length (vs u) = length (vs t) \<and> last (vs u) < last (vs t)))"

lemma voters_disjoint: "p \<in> set (voters h ts m t) \<Longrightarrow> p \<in> set (voters h ts m u) \<Longrightarrow> t = u"
  by (auto simp: voters_def votes_for_def)

lemma recycled_token_wins:
  assumes "history \<noteq> []" and "length history < usize_limit"
  shows "\<exists>found. recycled_token history (last history) (length history - 1) tokens = Ok found \<and>
    (case found of None \<Rightarrow> \<forall>t. voters history tokens (length history - 1) t = [] | Some t \<Rightarrow> wins history tokens t)"
proof -
  let ?vs = "voters history tokens (length history - 1)"
  obtain v where v: "collect_votes history (last history) (length history - 1) tokens [0..<length history - 1] [] = Ok v"
    "bt_ok v" "\<forall>t. bt_get v t = tally (?vs t)"
    using collect_votes_run [OF order_refl] by blast
  have run: "recycled_token history (last history) (length history - 1) tokens = Ok (map_option fst (max_by compare_votes v))"
    using v(1) by (simp add: recycled_token_def)
  have entry: "(t, n, p) \<in> set v \<longleftrightarrow> ?vs t \<noteq> [] \<and> n = of_nat (length (?vs t)) \<and> p = last (?vs t)" for t n p
    using bt_get_in_set [OF v(2), of t "(n, p)"] v(3) by (auto simp: tally_def)
  have short: "length (?vs t) < usize_limit" for t
    using le_less_trans [OF length_filter_le [of "votes_for history tokens t" "[0..<length history - 1]"], of usize_limit] assms(2)
    by (simp add: voters_def)
  show ?thesis
  proof (cases "max_by compare_votes v")
    case None
    then have "v = []" by simp
    then have "?vs t = []" for t using v(3) by (simp add: tally_def split: if_splits)
    then show ?thesis using run None by simp
  next
    case (Some m)
    obtain t n p where m: "m = (t, n, p)" by (cases m)
    have top: "?vs t \<noteq> []" "n = of_nat (length (?vs t))" "p = last (?vs t)"
      using max_by_member [OF Some] entry by (auto simp: m)
    have "length (?vs u) < length (?vs t) \<or> length (?vs u) = length (?vs t) \<and> last (?vs u) < last (?vs t)"
      if u: "u \<noteq> t" "?vs u \<noteq> []" for u
    proof -
      have "compare_votes (u, of_nat (length (?vs u)), last (?vs u)) m \<noteq> Greater"
        by (rule votes.max_by_greatest [OF Some, of UNIV]) (use entry u in auto)
      then have c: "of_nat (length (?vs u)) < (of_nat (length (?vs t)) :: u64) \<or>
          (of_nat (length (?vs u)) :: u64) = of_nat (length (?vs t)) \<and> last (?vs u) \<le> last (?vs t)"
        by (auto simp: compare_votes_def then_with_Greater m top(2,3) not_less)
      have "last (?vs u) \<noteq> last (?vs t)"
        using voters_disjoint [of "last (?vs u)"] last_in_set u top(1) by metis
      moreover have "unat (of_nat (length (?vs w)) :: u64) = length (?vs w)" for w
        using short by (simp add: unsigned_of_nat take_bit_nat_eq_self)
      ultimately show ?thesis using c unfolding word_less_nat_alt word_unat_eq_iff by auto
    qed
    then have "wins history tokens t" using top(1) by (simp add: wins_def Let_def)
    then show ?thesis using run Some by (simp add: m)
  qed
qed

lemma recycle_tokens_run:
  assumes "history \<noteq> []" and "length history < usize_limit"
  shows "\<exists>more. recycle_tokens history (last history) (length history - 1) left tokens = Ok (tokens @ more) \<and>
    length more \<le> left \<and>
    (\<forall>k<length more. wins history (tokens @ take k more) (more ! k)) \<and>
    (length more < left \<longrightarrow> (\<forall>t. voters history (tokens @ more) (length history - 1) t = []))"
proof (induction left arbitrary: tokens)
  case (Suc left)
  obtain found where found: "recycled_token history (last history) (length history - 1) tokens = Ok found"
    "case found of None \<Rightarrow> \<forall>t. voters history tokens (length history - 1) t = [] | Some t \<Rightarrow> wins history tokens t"
    using recycled_token_wins [OF assms] by blast
  show ?case
  proof (cases found)
    case None
    then show ?thesis using found by (intro exI [of _ "[]"]) simp
  next
    case (Some t)
    obtain more where more: "recycle_tokens history (last history) (length history - 1) left (tokens @ [t]) = Ok ((tokens @ [t]) @ more)"
      "length more \<le> left" "\<forall>k<length more. wins history ((tokens @ [t]) @ take k more) (more ! k)"
      "length more < left \<longrightarrow> (\<forall>u. voters history ((tokens @ [t]) @ more) (length history - 1) u = [])"
      using Suc.IH [of "tokens @ [t]"] by blast
    have "wins history (tokens @ take k (t # more)) ((t # more) ! k)" if "k < length (t # more)" for k
      using that more(3) found(2) Some by (cases k) auto
    then show ?thesis
      using found(1) Some more by (intro exI [of _ "t # more"]) auto
  qed
qed simp

section \<open>Properties\<close>

text \<open>A suffix proposal is the continuation of the longest suffix of an allowed length
  that occurs earlier without overlapping itself, at its most recent occurrence; it is not
  empty and takes priority over recycling. Without such a suffix there is none.\<close>

theorem suffix_proposal_specification:
  assumes "drafter_config_new width lo hi = Ok c" and "0 < width" and "0 < lo"
  shows "case suffix_proposal c history of
      Ok None \<Rightarrow> \<forall>n e. lo \<le> n \<longrightarrow> n \<le> hi \<longrightarrow> \<not> repeats history n e
    | Ok (Some p) \<Rightarrow> propose c history = Ok (Some p) \<and> ap_source p = Suffix \<and>
        (\<exists>n e. lo \<le> n \<and> n \<le> hi \<and> repeats history n e \<and>
          ap_tokens p = take width (drop e history) \<and> ap_tokens p \<noteq> [] \<and>
          (\<forall>k. e < k \<longrightarrow> \<not> repeats history n k) \<and>
          (\<forall>n' k. n < n' \<longrightarrow> n' \<le> hi \<longrightarrow> \<not> repeats history n' k))
    | _ \<Rightarrow> False"
proof -
  have c: "ad_max_proposal_tokens c = width" "ad_minimum_suffix_tokens c = lo" "ad_maximum_suffix_tokens c = hi"
    using assms(1) by (auto simp: drafter_config_new_def split: if_splits)
  have range: "n < length history" if "repeats history n e" for n e using that by (auto simp: repeats_def)
  show ?thesis
  proof (cases "length history \<le> lo")
    case True
    then have "\<not> repeats history n e" if "lo \<le> n" for n e using range [of n e] that by linarith
    then show ?thesis using True by (simp add: suffix_proposal_def c)
  next
    case False
    let ?ns = "rev [lo..<Suc (min hi (length history - 1))]"
    have run: "suffix_proposal c history = Ok (map_option
      (\<lambda>n. \<lparr>ap_tokens = take width (drop (the (suffix_at history n)) history), ap_source = Suffix\<rparr>)
      (find (\<lambda>n. suffix_at history n \<noteq> None) ?ns))"
      using False suffix_lengths_scan [OF assms(2)] by (simp only: suffix_proposal_def c if_False)
    show ?thesis
    proof (cases "find (\<lambda>n. suffix_at history n \<noteq> None) ?ns")
      case None
      have "\<not> repeats history n e" if "lo \<le> n" "n \<le> hi" for n e
        using None [unfolded find_none] suffix_at_none [of history n] range [of n e] that by fastforce
      then show ?thesis unfolding run None by simp
    next
      case (Some n)
      note F = find_latest [OF Some]
      obtain e where e: "suffix_at history n = Some e" using F(1) by blast
      note E = find_latest [OF e [unfolded suffix_at_def]]
      have n: "lo \<le> n" "n \<le> hi" using F(2,3) by auto
      have later: "\<not> repeats history n k" if "e < k" for k
        using E(4) [OF that] by (auto simp: repeats_def)
      have longer: "\<not> repeats history n' k" if "n < n'" "n' \<le> hi" for n' k
        using F(4) [OF that(1)] that(2) range [of n' k] suffix_at_none [of history n'] by fastforce
      have nonempty: "take width (drop e history) \<noteq> []" using E(1) assms(2) by (auto simp: repeats_def)
      have found: "suffix_proposal c history = Ok (Some \<lparr>ap_tokens = take width (drop e history), ap_source = Suffix\<rparr>)"
        unfolding run Some using e by simp
      then have "propose c history = Ok (Some \<lparr>ap_tokens = take width (drop e history), ap_source = Suffix\<rparr>)"
        by (simp add: propose_def)
      then show ?thesis
        unfolding found using n E(1) later longer nonempty
        by (simp del: take_eq_Nil) blast
    qed
  qed
qed

definition demo_adaptive :: AdaptiveDrafterConfig where
  "demo_adaptive = \<lparr>ad_max_proposal_tokens = 2, ad_minimum_suffix_tokens = 1, ad_maximum_suffix_tokens = 2\<rparr>"

lemma demo_adaptive: "drafter_config_new 2 1 2 = Ok demo_adaptive"
  by (simp add: drafter_config_new_def demo_adaptive_def WIDTH_SLOTS_def)

lemma demo_suffix: "suffix_proposal demo_adaptive [5, 6, 7, 5] = Ok (Some \<lparr>ap_tokens = [6, 7], ap_source = Suffix\<rparr>)"
  by (simp add: suffix_proposal_def demo_adaptive_def slice_def)

theorem suffix_proposal_specification_witness:
  "\<exists>n e. repeats [5, 6, 7, 5] n e \<and> [6, 7] = take 2 (drop e [5, 6, 7, 5 :: u32])"
  using suffix_proposal_specification [OF demo_adaptive, of "[5, 6, 7, 5]"] unfolding demo_suffix by auto

text \<open>Without a suffix proposal the drafter follows the votes: each recycled token is the
  most frequent continuation of the current token and the tokens already proposed, ties
  going to the more recent one, and it stops only at the configured width or when no
  earlier occurrence continues that way.\<close>

theorem recycling_follows_votes:
  assumes "drafter_config_new width lo hi = Ok c" and "history \<noteq> []" and "length history < usize_limit"
    and "suffix_proposal c history = Ok None" and "0 < width"
  shows "\<exists>found. propose c history = Ok found \<and>
    (case found of
       None \<Rightarrow> \<forall>t. voters history [] (length history - 1) t = []
     | Some p \<Rightarrow> ap_source p = TokenRecycling \<and> ap_tokens p \<noteq> [] \<and> length (ap_tokens p) \<le> width \<and> width \<le> 7 \<and>
         (\<forall>k<length (ap_tokens p). wins history (take k (ap_tokens p)) (ap_tokens p ! k)) \<and>
         (length (ap_tokens p) < width \<longrightarrow> (\<forall>t. voters history (ap_tokens p) (length history - 1) t = [])))"
proof -
  have c: "ad_max_proposal_tokens c = width" "width \<le> 7"
    using assms(1) by (auto simp: drafter_config_new_def WIDTH_SLOTS_def split: if_splits)
  obtain more where more: "recycle_tokens history (last history) (length history - 1) width [] = Ok more"
    "length more \<le> width" "\<forall>k<length more. wins history (take k more) (more ! k)"
    "length more < width \<longrightarrow> (\<forall>t. voters history more (length history - 1) t = [])"
    using recycle_tokens_run [OF assms(2,3), of width "[]"] by auto
  have "propose c history = Ok (if more = [] then None else Some \<lparr>ap_tokens = more, ap_source = TokenRecycling\<rparr>)"
    using assms(2,4) more(1) by (simp add: propose_def recycling_proposal_def c)
  then show ?thesis using more assms(5) c(2) by (cases "more = []") auto
qed

definition demo_adaptive_long :: AdaptiveDrafterConfig where
  "demo_adaptive_long = \<lparr>ad_max_proposal_tokens = 2, ad_minimum_suffix_tokens = 2, ad_maximum_suffix_tokens = 2\<rparr>"

lemma demo_recycle: "suffix_proposal demo_adaptive_long [5, 6, 1, 5] = Ok None"
  "propose demo_adaptive_long [5, 6, 1, 5] = Ok (Some \<lparr>ap_tokens = [6, 1], ap_source = TokenRecycling\<rparr>)"
proof -
  show n: "suffix_proposal demo_adaptive_long [5, 6, 1, 5] = Ok None"
    by (simp add: suffix_proposal_def demo_adaptive_long_def slice_def)
  have "recycle_tokens [5, 6, 1, 5] 5 3 (Suc (Suc 0)) [] = Ok [6, 1]"
    by (simp add: recycled_token_def slice_def at_index_def Let_def add_vote_def bt_get_def max_by_def)
  then have r: "recycle_tokens [5, 6, 1, 5] 5 3 2 [] = Ok [6, 1]" by (simp only: numeral_2_eq_2)
  show "propose demo_adaptive_long [5, 6, 1, 5] = Ok (Some \<lparr>ap_tokens = [6, 1], ap_source = TokenRecycling\<rparr>)"
    using n r by (simp add: propose_def recycling_proposal_def demo_adaptive_long_def numeral_3_eq_3)
qed

theorem recycling_follows_votes_witness: "wins [5, 6, 1, 5] [] 6"
proof -
  have "drafter_config_new 2 2 2 = Ok demo_adaptive_long"
    by (simp add: drafter_config_new_def demo_adaptive_long_def WIDTH_SLOTS_def)
  from recycling_follows_votes [OF this, of "[5, 6, 1, 5]"] show ?thesis
    using demo_recycle by auto
qed

end
