(* ===== verification/Adaptive_Controller.thy ===== *)
theory Adaptive_Controller
  imports Adaptive_Draft Complex_Main
begin

text \<open>
  The measured controller of \<open>crates/leone/src/adaptive_draft.rs\<close> (lines 201 to 487). It
  chooses between plain and speculative decode from the durations it observed. The
  \<open>f64\<close> arithmetic is a parameter (\<open>float_ops\<close>), so every property holds whatever the
  rounding is; where the order of floats matters, the law of \<open>f64::total_cmp\<close> is a named
  hypothesis. Durations are natural numbers of nanoseconds below the largest \<open>Duration\<close>.
\<close>

section \<open>Data\<close>

record 'f float_ops =
  fo_zero :: 'f
  fo_one :: 'f
  fo_billion :: 'f
  fo_of_usize :: "nat \<Rightarrow> 'f"
  fo_secs :: "nat \<Rightarrow> 'f"
  fo_add :: "'f \<Rightarrow> 'f \<Rightarrow> 'f"
  fo_sub :: "'f \<Rightarrow> 'f \<Rightarrow> 'f"
  fo_mul :: "'f \<Rightarrow> 'f \<Rightarrow> 'f"
  fo_div :: "'f \<Rightarrow> 'f \<Rightarrow> 'f"
  fo_less :: "'f \<Rightarrow> 'f \<Rightarrow> bool"
  fo_le :: "'f \<Rightarrow> 'f \<Rightarrow> bool"
  fo_total_cmp :: "'f \<Rightarrow> 'f \<Rightarrow> ordering"
  fo_is_finite :: "'f \<Rightarrow> bool"

record 'f AdaptiveControllerConfig =
  ac_plain_warmup_rounds :: u64
  ac_minimum_speedup :: 'f
  ac_maximum_regret_fraction :: 'f
  ac_ewma_weight :: 'f

definition controller_config_new ::
  "'f float_ops \<Rightarrow> u64 \<Rightarrow> 'f \<Rightarrow> 'f \<Rightarrow> 'f \<Rightarrow> ('f AdaptiveControllerConfig, AdaptiveError) outcome" where
  "controller_config_new f warmup speedup regret weight =
     (if \<not> fo_is_finite f speedup \<or> fo_le f speedup (fo_one f) then Err MinimumSpeedup
      else if \<not> fo_is_finite f regret \<or> \<not> (fo_le f (fo_zero f) regret \<and> fo_less f regret (fo_one f))
        then Err MaximumRegret
      else if \<not> fo_is_finite f weight \<or> fo_le f weight (fo_zero f) \<or> fo_less f (fo_one f) weight
        then Err EwmaWeight
      else Ok \<lparr>ac_plain_warmup_rounds = warmup, ac_minimum_speedup = speedup,
               ac_maximum_regret_fraction = regret, ac_ewma_weight = weight\<rparr>)"

datatype AdaptiveReason =
  NoProposal | PlainWarmup | WidthProbe | BestMeasuredWidth | BelowSpeedupGate | RegretLimit

datatype AdaptiveDecision = Plain AdaptiveReason | Speculate nat AdaptiveReason

record AdaptiveObservation =
  ao_verifier_positions :: nat
  ao_produced_tokens :: nat
  ao_wall_duration :: nat
  ao_controller_duration :: nat

record 'f WidthMeasurement =
  wm_rounds :: u64
  wm_nanoseconds_per_token :: 'f

record AdaptiveControllerStats =
  as_plain_rounds :: u64
  as_speculative_rounds :: u64
  as_below_gate_rounds :: u64
  as_regret_limited_rounds :: u64
  as_suffix_proposals :: u64
  as_recycling_proposals :: u64
  as_controller_duration :: nat
  as_width_rounds :: "u64 list"

record 'f AdaptiveController =
  cn_config :: "'f AdaptiveControllerConfig"
  cn_plain :: "'f WidthMeasurement"
  cn_widths :: "'f WidthMeasurement list"
  cn_cumulative_speculative_ns :: 'f
  cn_cumulative_plain_equivalent_ns :: 'f
  cn_regret_limited :: bool
  cn_stats :: AdaptiveControllerStats

definition no_measurement :: "'f float_ops \<Rightarrow> 'f WidthMeasurement" where
  "no_measurement f = \<lparr>wm_rounds = 0, wm_nanoseconds_per_token = fo_zero f\<rparr>"

definition controller_new :: "'f float_ops \<Rightarrow> 'f AdaptiveControllerConfig \<Rightarrow> 'f AdaptiveController" where
  "controller_new f config =
     \<lparr>cn_config = config, cn_plain = no_measurement f, cn_widths = replicate WIDTH_SLOTS (no_measurement f),
      cn_cumulative_speculative_ns = fo_zero f, cn_cumulative_plain_equivalent_ns = fo_zero f,
      cn_regret_limited = False,
      cn_stats = \<lparr>as_plain_rounds = 0, as_speculative_rounds = 0, as_below_gate_rounds = 0,
        as_regret_limited_rounds = 0, as_suffix_proposals = 0, as_recycling_proposals = 0,
        as_controller_duration = 0, as_width_rounds = replicate WIDTH_SLOTS 0\<rparr>\<rparr>"

section \<open>Deciding\<close>

definition non_zero :: "nat \<Rightarrow> (nat, AdaptiveError) outcome" where
  "non_zero n = expect (if n = 0 then None else Some n)"

definition probe_width :: "'f AdaptiveController \<Rightarrow> nat \<Rightarrow> nat option" where
  "probe_width c available =
     find (\<lambda>width. width \<le> available \<and> wm_rounds (cn_widths c ! width) = 0) [2, 4, 6, 8]"

definition speedup :: "'f float_ops \<Rightarrow> 'f AdaptiveController \<Rightarrow> nat \<Rightarrow> 'f" where
  "speedup f c width =
     fo_div f (wm_nanoseconds_per_token (cn_plain c)) (wm_nanoseconds_per_token (cn_widths c ! width))"

definition best_measured_width :: "'f float_ops \<Rightarrow> 'f AdaptiveController \<Rightarrow> nat \<Rightarrow> (nat \<times> 'f) option" where
  "best_measured_width f c available =
     max_by (\<lambda>left right. fo_total_cmp f (snd left) (snd right))
       (map (\<lambda>width. (width, speedup f c width))
          (filter (\<lambda>width. wm_rounds (cn_widths c ! width) \<noteq> 0) [2..<Suc available]))"

definition decide ::
  "'f float_ops \<Rightarrow> nat \<Rightarrow> 'f AdaptiveController
    \<Rightarrow> (AdaptiveDecision, AdaptiveError) outcome \<times> 'f AdaptiveController" where
  "decide f proposal_tokens c =
     (if proposal_tokens = 0 then (Ok (Plain NoProposal), c)
      else if wm_rounds (cn_plain c) < ac_plain_warmup_rounds (cn_config c) then (Ok (Plain PlainWarmup), c)
      else
        let available = min (usize_add proposal_tokens 1) (WIDTH_SLOTS - 1) in
        case probe_width c available of
          Some width \<Rightarrow> try_pure (non_zero width) c (\<lambda>width. (Ok (Speculate width WidthProbe), c))
        | None \<Rightarrow>
            if cn_regret_limited c then
              (Ok (Plain RegretLimit),
               c\<lparr>cn_stats := (cn_stats c)\<lparr>as_regret_limited_rounds := as_regret_limited_rounds (cn_stats c) + 1\<rparr>\<rparr>)
            else
              let below = (Ok (Plain BelowSpeedupGate),
                c\<lparr>cn_stats := (cn_stats c)\<lparr>as_below_gate_rounds := as_below_gate_rounds (cn_stats c) + 1\<rparr>\<rparr>)
              in (case best_measured_width f c available of
                    Some (width, s) \<Rightarrow>
                      if fo_le f (ac_minimum_speedup (cn_config c)) s
                      then try_pure (non_zero width) c (\<lambda>width. (Ok (Speculate width BestMeasuredWidth), c))
                      else below
                  | None \<Rightarrow> below))"

section \<open>Observing\<close>

definition update_measurement :: "'f float_ops \<Rightarrow> 'f \<Rightarrow> 'f \<Rightarrow> 'f WidthMeasurement \<Rightarrow> 'f WidthMeasurement" where
  "update_measurement f v weight m =
     m\<lparr>wm_nanoseconds_per_token :=
          (if wm_rounds m = 0 then v
           else fo_add f (fo_mul f weight v)
                  (fo_mul f (fo_sub f (fo_one f) weight) (wm_nanoseconds_per_token m))),
       wm_rounds := wm_rounds m + 1\<rparr>"

definition duration_limit :: nat where
  "duration_limit = 2 ^ 64 * 10 ^ 9"

definition duration_add :: "nat \<Rightarrow> nat \<Rightarrow> (nat, AdaptiveError) outcome" where
  "duration_add a b = (if a + b < duration_limit then Ok (a + b) else Panic)"

definition observe_plain ::
  "'f float_ops \<Rightarrow> 'f \<Rightarrow> 'f AdaptiveController \<Rightarrow> (unit, AdaptiveError) outcome \<times> 'f AdaptiveController" where
  "observe_plain f ns_per_token c =
     (let c1 = c\<lparr>cn_plain := update_measurement f ns_per_token (ac_ewma_weight (cn_config c)) (cn_plain c)\<rparr>
      in try_pure (ok_or (checked_add (as_plain_rounds (cn_stats c1)) 1) CountOverflow) c1 (\<lambda>n.
         (Ok (), c1\<lparr>cn_stats := (cn_stats c1)\<lparr>as_plain_rounds := n\<rparr>\<rparr>)))"

definition observe_speculative ::
  "'f float_ops \<Rightarrow> nat \<Rightarrow> nat \<Rightarrow> 'f \<Rightarrow> 'f \<Rightarrow> 'f AdaptiveController
    \<Rightarrow> (unit, AdaptiveError) outcome \<times> 'f AdaptiveController" where
  "observe_speculative f width produced duration_ns ns_per_token c =
     (let c1 = c\<lparr>cn_widths := (cn_widths c)[width :=
                   update_measurement f ns_per_token (ac_ewma_weight (cn_config c)) (cn_widths c ! width)]\<rparr>
      in try_pure (ok_or (checked_add (as_speculative_rounds (cn_stats c1)) 1) CountOverflow) c1 (\<lambda>n.
         let c2 = c1\<lparr>cn_stats := (cn_stats c1)\<lparr>as_speculative_rounds := n\<rparr>,
                     cn_cumulative_speculative_ns := fo_add f (cn_cumulative_speculative_ns c1) duration_ns,
                     cn_cumulative_plain_equivalent_ns :=
                       fo_add f (cn_cumulative_plain_equivalent_ns c1)
                         (fo_mul f (wm_nanoseconds_per_token (cn_plain c1)) (fo_of_usize f produced))\<rparr>
         in (Ok (), c2\<lparr>cn_regret_limited :=
               fo_less f (fo_mul f (cn_cumulative_plain_equivalent_ns c2)
                            (fo_add f (fo_one f) (ac_maximum_regret_fraction (cn_config c2))))
                 (cn_cumulative_speculative_ns c2)\<rparr>)))"

definition observe ::
  "'f float_ops \<Rightarrow> AdaptiveObservation \<Rightarrow> 'f AdaptiveController
    \<Rightarrow> (unit, AdaptiveError) outcome \<times> 'f AdaptiveController" where
  "observe f ob c =
     (let width = ao_verifier_positions ob in
      if WIDTH_SLOTS \<le> width then (Err VerifierPositions, c)
      else
        let duration_ns = fo_mul f (fo_secs f (ao_wall_duration ob)) (fo_billion f);
            ns_per_token = fo_div f duration_ns (fo_of_usize f (ao_produced_tokens ob))
        in try_pure (duration_add (as_controller_duration (cn_stats c)) (ao_controller_duration ob)) c (\<lambda>total.
           let c1 = c\<lparr>cn_stats := (cn_stats c)\<lparr>as_controller_duration := total\<rparr>\<rparr>
           in try_pure (ok_or (checked_add (as_width_rounds (cn_stats c1) ! width) 1) CountOverflow) c1 (\<lambda>n.
              let c2 = c1\<lparr>cn_stats := (cn_stats c1)\<lparr>as_width_rounds := (as_width_rounds (cn_stats c1))[width := n]\<rparr>\<rparr>
              in if width = 1 then observe_plain f ns_per_token c2
                 else observe_speculative f width (ao_produced_tokens ob) duration_ns ns_per_token c2)))"

fun record_source ::
  "ProposalSource \<Rightarrow> 'f AdaptiveController \<Rightarrow> (unit, AdaptiveError) outcome \<times> 'f AdaptiveController" where
  "record_source Suffix c =
     try_pure (ok_or (checked_add (as_suffix_proposals (cn_stats c)) 1) CountOverflow) c (\<lambda>n.
     (Ok (), c\<lparr>cn_stats := (cn_stats c)\<lparr>as_suffix_proposals := n\<rparr>\<rparr>))"
| "record_source TokenRecycling c =
     try_pure (ok_or (checked_add (as_recycling_proposals (cn_stats c)) 1) CountOverflow) c (\<lambda>n.
     (Ok (), c\<lparr>cn_stats := (cn_stats c)\<lparr>as_recycling_proposals := n\<rparr>\<rparr>))"

section \<open>The invariant of the counters\<close>

definition speculative_total :: "u64 list \<Rightarrow> nat" where
  "speculative_total ws = (\<Sum>w\<in>{2..<WIDTH_SLOTS}. unat (ws ! w))"

definition controller_ok :: "'f AdaptiveController \<Rightarrow> bool" where
  "controller_ok c \<longleftrightarrow>
     length (cn_widths c) = WIDTH_SLOTS \<and> length (as_width_rounds (cn_stats c)) = WIDTH_SLOTS \<and>
     wm_rounds (cn_plain c) = as_width_rounds (cn_stats c) ! 1 \<and>
     as_plain_rounds (cn_stats c) = as_width_rounds (cn_stats c) ! 1 \<and>
     (\<forall>w. 2 \<le> w \<longrightarrow> w < WIDTH_SLOTS \<longrightarrow> wm_rounds (cn_widths c ! w) = as_width_rounds (cn_stats c) ! w) \<and>
     unat (as_speculative_rounds (cn_stats c)) = speculative_total (as_width_rounds (cn_stats c))"

inductive controller_step :: "'f float_ops \<Rightarrow> 'f AdaptiveController \<Rightarrow> 'f AdaptiveController \<Rightarrow> bool" for f where
  step_decide: "decide f n c = (dres, d) \<Longrightarrow> dres \<noteq> Panic \<Longrightarrow> controller_step f c d"
| step_observe: "observe f ob c = (ores, d) \<Longrightarrow> 0 < ao_verifier_positions ob \<Longrightarrow>
    ores = Ok () \<or> ores = Err VerifierPositions \<Longrightarrow> controller_step f c d"
| step_source: "record_source source c = (sres, d) \<Longrightarrow> controller_step f c d"

lemma inc_word: "checked_add (n :: u64) 1 = Some m \<Longrightarrow> m = n + 1 \<and> unat m = unat n + 1"
  using checked_add_unat [of n 1 m] by (simp add: checked_add_def split: if_splits)

lemma controller_new_ok: "controller_ok (controller_new f config)"
  by (auto simp: controller_ok_def controller_new_def no_measurement_def speculative_total_def WIDTH_SLOTS_def nth_replicate)

lemma decide_frame:
  "decide f n c = (r, d) \<Longrightarrow> cn_widths d = cn_widths c \<and> cn_plain d = cn_plain c \<and> cn_config d = cn_config c \<and>
     cn_regret_limited d = cn_regret_limited c \<and>
     as_width_rounds (cn_stats d) = as_width_rounds (cn_stats c) \<and>
     as_plain_rounds (cn_stats d) = as_plain_rounds (cn_stats c) \<and>
     as_speculative_rounds (cn_stats d) = as_speculative_rounds (cn_stats c)"
  by (auto simp: decide_def try_pure_cases Let_def split: if_splits option.splits outcome.splits)

lemma speculative_total_update:
  assumes "2 \<le> w" and "w < WIDTH_SLOTS" and "length ws = WIDTH_SLOTS" and "unat n = unat (ws ! w) + 1"
  shows "speculative_total (ws[w := n]) = speculative_total ws + 1"
proof -
  let ?R = "{2..<WIDTH_SLOTS} - {w}"
  have split: "(\<Sum>v\<in>{2..<WIDTH_SLOTS}. g v) = g w + (\<Sum>v\<in>?R. g v)" for g :: "nat \<Rightarrow> nat"
    using assms(1,2) by (intro sum.remove) auto
  have "(\<Sum>v\<in>?R. unat (ws[w := n] ! v)) = (\<Sum>v\<in>?R. unat (ws ! v))" by (intro sum.cong) auto
  then show ?thesis unfolding speculative_total_def split using assms by simp
qed

lemma observe_ok:
  assumes "controller_ok c" and "observe f ob c = (Ok (), d)" and "0 < ao_verifier_positions ob"
  shows "controller_ok d"
proof -
  let ?w = "ao_verifier_positions ob" and ?ws = "as_width_rounds (cn_stats c)"
  have w: "?w < WIDTH_SLOTS" using assms(2) by (auto simp: observe_def Let_def split: if_splits)
  obtain total where total: "duration_add (as_controller_duration (cn_stats c)) (ao_controller_duration ob) = Ok total"
    using assms(2) w by (cases "duration_add (as_controller_duration (cn_stats c)) (ao_controller_duration ob)")
      (auto simp: observe_def Let_def)
  obtain n where n: "checked_add (?ws ! ?w) 1 = Some n"
    using assms(2) w total by (cases "checked_add (?ws ! ?w) 1") (auto simp: observe_def Let_def)
  note inc = inc_word [OF n]
  have len: "length (cn_widths c) = WIDTH_SLOTS" "length ?ws = WIDTH_SLOTS" using assms(1) by (auto simp: controller_ok_def)
  show ?thesis
  proof (cases "?w = 1")
    case True
    obtain m where m: "checked_add (as_plain_rounds (cn_stats c)) 1 = Some m"
      using assms(2) w total n True
      by (cases "checked_add (as_plain_rounds (cn_stats c)) 1") (auto simp: observe_def observe_plain_def Let_def)
    have "speculative_total (?ws[1 := n]) = speculative_total ?ws"
      unfolding speculative_total_def by (intro sum.cong) auto
    then show ?thesis
      using assms w total n True m inc inc_word [OF m] len
      by (auto simp: observe_def observe_plain_def Let_def controller_ok_def update_measurement_def WIDTH_SLOTS_def)
  next
    case False
    then have w2: "2 \<le> ?w" using assms(3) by simp
    obtain m where m: "checked_add (as_speculative_rounds (cn_stats c)) 1 = Some m"
      using assms(2) w total n False
      by (cases "checked_add (as_speculative_rounds (cn_stats c)) 1") (auto simp: observe_def observe_speculative_def Let_def)
    have sp: "speculative_total (?ws[?w := n]) = speculative_total ?ws + 1"
      by (rule speculative_total_update [OF w2 w len(2)]) (rule conjunct2 [OF inc])
    show ?thesis
      using assms w total n False m inc inc_word [OF m] len sp w2
      by (auto simp: observe_def observe_speculative_def Let_def controller_ok_def update_measurement_def nth_list_update)
  qed
qed

lemma controller_step_ok: "controller_step f c d \<Longrightarrow> controller_ok c \<Longrightarrow> controller_ok d"
proof (induction rule: controller_step.induct)
  case (step_decide n c r d)
  then show ?case using decide_frame [of f n c r d] by (simp add: controller_ok_def)
next
  case (step_observe ob c r d)
  then show ?case
    using observe_ok [of c f ob d] by (auto simp: observe_def Let_def observe_plain_def observe_speculative_def
        try_pure_cases split: if_splits outcome.splits)
next
  case (step_source source c r d)
  then show ?case by (cases source) (auto simp: controller_ok_def try_pure_cases split: outcome.splits)
qed

definition controller_start :: "'f float_ops \<Rightarrow> 'f AdaptiveController \<Rightarrow> bool" where
  "controller_start f c \<longleftrightarrow> c = controller_new f (cn_config c)"

interpretation controller: machine "controller_start f" "controller_step f" controller_ok for f
  by unfold_locales (metis controller_start_def controller_new_ok, rule controller_step_ok)

section \<open>Properties\<close>

definition controller_reachable :: "'f float_ops \<Rightarrow> 'f AdaptiveControllerConfig \<Rightarrow> 'f AdaptiveController \<Rightarrow> bool" where
  "controller_reachable f config c \<longleftrightarrow> (controller_step f)\<^sup>*\<^sup>* (controller_new f config) c"

lemma controller_start_new: "controller_start f (controller_new f config)"
  by (simp add: controller_start_def controller_new_def)

lemma controller_reachable_ok: "controller_reachable f config c \<Longrightarrow> controller_ok c"
  unfolding controller_reachable_def by (rule controller.inv_reachable [OF controller_start_new])

lemma controller_reachable_step:
  "controller_reachable f config c \<Longrightarrow> controller_step f c d \<Longrightarrow> controller_reachable f config d"
  by (auto simp: controller_reachable_def intro: rtranclp.rtrancl_into_rtrancl)

lemma controller_reachable_new: "controller_reachable f config (controller_new f config)"
  by (simp add: controller_reachable_def)

text \<open>Rational numbers, exact, stand in for the floats of a run.\<close>

definition rat_ops :: "rat float_ops" where
  "rat_ops = \<lparr>fo_zero = 0, fo_one = 1, fo_billion = 10 ^ 9, fo_of_usize = rat_of_nat,
     fo_secs = (\<lambda>ns. rat_of_nat ns / 10 ^ 9), fo_add = (+), fo_sub = (-), fo_mul = (*), fo_div = (/),
     fo_less = (<), fo_le = (\<le>), fo_total_cmp = cmp, fo_is_finite = (\<lambda>_. True)\<rparr>"

definition demo_control :: "rat AdaptiveControllerConfig" where
  "demo_control = \<lparr>ac_plain_warmup_rounds = 1, ac_minimum_speedup = 11 / 10,
     ac_maximum_regret_fraction = 3 / 100, ac_ewma_weight = 1 / 4\<rparr>"

definition demo_round :: "nat \<Rightarrow> nat \<Rightarrow> AdaptiveObservation" where
  "demo_round width produced = \<lparr>ao_verifier_positions = width, ao_produced_tokens = produced,
     ao_wall_duration = 1000, ao_controller_duration = 5\<rparr>"

definition demo_warm :: "rat AdaptiveController" where
  "demo_warm = snd (observe rat_ops (demo_round 1 1) (controller_new rat_ops demo_control))"

definition demo_probed :: "rat AdaptiveController" where
  "demo_probed = snd (observe rat_ops (demo_round 2 2) demo_warm)"

lemmas control_eval = observe_def observe_plain_def observe_speculative_def update_measurement_def
  duration_add_def duration_limit_def checked_add_def controller_new_def no_measurement_def
  demo_round_def demo_control_def rat_ops_def WIDTH_SLOTS_def Let_def

lemma demo_warm_eq: "observe rat_ops (demo_round 1 1) (controller_new rat_ops demo_control) = (Ok (), demo_warm)"
  unfolding demo_warm_def by (simp add: control_eval)

lemma demo_probed_eq: "observe rat_ops (demo_round 2 2) demo_warm = (Ok (), demo_probed)"
  unfolding demo_probed_def demo_warm_def by (simp add: control_eval)

lemma demo_control_reachable:
  "controller_reachable rat_ops demo_control demo_warm" "controller_reachable rat_ops demo_control demo_probed"
proof -
  show w: "controller_reachable rat_ops demo_control demo_warm"
    by (rule controller_reachable_step [OF controller_reachable_new step_observe [OF demo_warm_eq]])
       (simp_all add: demo_round_def)
  show "controller_reachable rat_ops demo_control demo_probed"
    by (rule controller_reachable_step [OF w step_observe [OF demo_probed_eq]]) (simp_all add: demo_round_def)
qed

text \<open>In every reachable state the receipt counters agree with the measurements they
  summarise: plain rounds are the rounds at width one, each wider width counts the rounds
  that were measured at it, and the speculative rounds are the sum over those widths.\<close>

theorem controller_counters_agree:
  assumes "controller_reachable f config c"
  shows "as_plain_rounds (cn_stats c) = as_width_rounds (cn_stats c) ! 1 \<and>
    wm_rounds (cn_plain c) = as_plain_rounds (cn_stats c) \<and>
    (\<forall>w\<in>{2..8}. wm_rounds (cn_widths c ! w) = as_width_rounds (cn_stats c) ! w) \<and>
    unat (as_speculative_rounds (cn_stats c)) = (\<Sum>w\<in>{2..8}. unat (as_width_rounds (cn_stats c) ! w))"
proof -
  have "{2..<WIDTH_SLOTS} = {2..8}" by (auto simp: WIDTH_SLOTS_def)
  then show ?thesis
    using controller_reachable_ok [OF assms] by (auto simp: controller_ok_def speculative_total_def WIDTH_SLOTS_def)
qed

theorem controller_counters_agree_witness:
  "unat (as_speculative_rounds (cn_stats demo_probed)) = (\<Sum>w\<in>{2..8}. unat (as_width_rounds (cn_stats demo_probed) ! w))"
  using controller_counters_agree [OF demo_control_reachable(2)] by blast

lemma probe_width_Some:
  "probe_width c available = Some w \<longleftrightarrow> w \<in> {2, 4, 6, 8} \<and> w \<le> available \<and> wm_rounds (cn_widths c ! w) = 0 \<and>
     (\<forall>v\<in>{2, 4, 6, 8}. v < w \<longrightarrow> wm_rounds (cn_widths c ! v) \<noteq> 0)"
  by (auto simp: probe_width_def)

lemma best_measured_Some:
  assumes "best_measured_width f c available = Some (w, s)" and "comparison (fo_total_cmp f) UNIV"
  shows "2 \<le> w \<and> w \<le> available \<and> wm_rounds (cn_widths c ! w) \<noteq> 0 \<and> s = speedup f c w \<and>
    (\<forall>v. 2 \<le> v \<longrightarrow> v \<le> available \<longrightarrow> wm_rounds (cn_widths c ! v) \<noteq> 0 \<longrightarrow>
       fo_total_cmp f (speedup f c v) (speedup f c w) \<noteq> Greater)"
proof -
  let ?c = "\<lambda>left right. fo_total_cmp f (snd left) (snd right)"
  let ?xs = "map (\<lambda>width. (width, speedup f c width)) (filter (\<lambda>width. wm_rounds (cn_widths c ! width) \<noteq> 0) [2..<Suc available])"
  have lawful: "comparison ?c UNIV"
    by (rule comparison_map [OF assms(2)])
  have top: "max_by ?c ?xs = Some (w, s)" using assms(1) by (simp only: best_measured_width_def)
  have mem: "(w, s) \<in> set ?xs" by (rule max_by_member [OF top])
  have "fo_total_cmp f (speedup f c v) s \<noteq> Greater" if "2 \<le> v" "v \<le> available" "wm_rounds (cn_widths c ! v) \<noteq> 0" for v
  proof -
    have "v \<in> set (filter (\<lambda>width. wm_rounds (cn_widths c ! width) \<noteq> 0) [2..<Suc available])"
      using that by (simp del: upt_Suc)
    then have "(v, speedup f c v) \<in> set ?xs" unfolding set_map by (rule imageI)
    from comparison.max_by_greatest [OF lawful top subset_UNIV this] show ?thesis by simp
  qed
  then show ?thesis using mem by (auto simp del: upt_Suc)
qed

text \<open>A speculative decision is always justified. It asks for 2 to 8 positions and no
  more than the proposal plus one; the plain warm-up is over; and either it probes the
  smallest probe width never measured, or no regret limit is in force, the width was
  measured, its speedup meets the configured minimum and no other measured width that fits
  is faster. The hypothesis on \<open>total_cmp\<close> is that it is a total order.\<close>

theorem speculation_is_justified:
  assumes "comparison (fo_total_cmp f) UNIV" and "decide f n c = (Ok (Speculate w reason), d)" and "n < usize_limit - 1"
  shows "2 \<le> w \<and> w \<le> 8 \<and> w \<le> n + 1 \<and> d = c \<and>
    ac_plain_warmup_rounds (cn_config c) \<le> wm_rounds (cn_plain c) \<and>
    (reason = WidthProbe \<and> wm_rounds (cn_widths c ! w) = 0 \<and>
       (\<forall>v\<in>{2, 4, 6, 8}. v < w \<longrightarrow> wm_rounds (cn_widths c ! v) \<noteq> 0) \<or>
     reason = BestMeasuredWidth \<and> \<not> cn_regret_limited c \<and> wm_rounds (cn_widths c ! w) \<noteq> 0 \<and>
       fo_le f (ac_minimum_speedup (cn_config c)) (speedup f c w) \<and>
       (\<forall>v. 2 \<le> v \<longrightarrow> v \<le> min (n + 1) 8 \<longrightarrow> wm_rounds (cn_widths c ! v) \<noteq> 0 \<longrightarrow>
          fo_total_cmp f (speedup f c v) (speedup f c w) \<noteq> Greater))"
proof -
  have av: "min (usize_add n 1) (WIDTH_SLOTS - 1) = min (n + 1) 8"
    using assms(3) by (simp add: usize_add_def WIDTH_SLOTS_def)
  have n0: "n \<noteq> 0" and warm: "\<not> wm_rounds (cn_plain c) < ac_plain_warmup_rounds (cn_config c)"
    using assms(2) by (auto simp: decide_def split: if_splits)
  show ?thesis
  proof (cases "probe_width c (min (n + 1) 8)")
    case (Some v)
    note P = iffD1 [OF probe_width_Some Some]
    then have "v \<noteq> 0" by auto
    then have "w = v" "reason = WidthProbe" "d = c"
      using assms(2) n0 warm Some unfolding decide_def av by (auto simp: Let_def non_zero_def)
    then show ?thesis using P warm by (auto simp: not_less)
  next
    case None
    have reg: "\<not> cn_regret_limited c"
      using assms(2) n0 warm None unfolding decide_def av by (auto simp: Let_def)
    obtain v s where v: "best_measured_width f c (min (n + 1) 8) = Some (v, s)"
      using assms(2) n0 warm None reg unfolding decide_def av
      by (cases "best_measured_width f c (min (n + 1) 8)") (auto simp: Let_def)
    note B = best_measured_Some [OF v assms(1)]
    then have "v \<noteq> 0" by auto
    then have "w = v" "reason = BestMeasuredWidth" "d = c" "fo_le f (ac_minimum_speedup (cn_config c)) s"
      using assms(2) n0 warm None reg v unfolding decide_def av
      by (auto simp: Let_def non_zero_def split: if_splits)
    then show ?thesis using B reg warm by (auto simp: not_less)
  qed
qed

lemma demo_decide: "decide rat_ops 1 demo_probed = (Ok (Speculate 2 BestMeasuredWidth), demo_probed)"
  unfolding demo_probed_def demo_warm_def
  by (simp add: control_eval decide_def probe_width_def best_measured_width_def usize_add_def speedup_def
      max_by_def non_zero_def numeral_2_eq_2 [symmetric])

theorem speculation_is_justified_witness:
  "fo_le rat_ops (ac_minimum_speedup (cn_config demo_probed)) (speedup rat_ops demo_probed 2)"
proof -
  have "comparison (fo_total_cmp rat_ops) UNIV"
    using comparison_key [of "\<lambda>x :: rat. x"] by (simp add: rat_ops_def)
  from speculation_is_justified [OF this demo_decide] show ?thesis by auto
qed

end
