(* ===== verification/Scheduler_Calls.thy ===== *)
theory Scheduler_Calls
  imports Scheduler_Life
begin

text \<open>
  What a caller of the scheduler relies on: how far the scheduler is from being done
  (\<open>load\<close>) and which calls lower it, which calls leave the emitted tokens alone
  (\<open>same_output\<close>), what a dispatch leaves running, and what a valid completion does. The
  service trace and the scheduled service are both built on these facts.
\<close>

section \<open>How far a scheduler has to go\<close>

definition load_weight :: "RequestState \<Rightarrow> nat" where
  "load_weight r = owed r + active_weight r"

definition load :: "ContinuousScheduler \<Rightarrow> nat" where
  "load s = total load_weight (bt_entries (cs_requests s))"

lemma load_weight_life: "life r q \<Longrightarrow> load_weight q \<le> load_weight r"
  using owed_life [of r q] by (cases "is_terminal (rs_status r)") (auto simp: life_def load_weight_def active_weight_def)

lemma step_load:
  "sched_ok s \<Longrightarrow> sched_step s t \<Longrightarrow> dom (bt_get (cs_requests t)) \<subseteq> dom (bt_get (cs_requests s)) \<Longrightarrow>
   load t \<le> load s"
  unfolding load_def by (rule step_weight) (auto intro: load_weight_life)

text \<open>A quantum that reports progress, or ends its request, lowers the load.\<close>

lemma complete_load:
  assumes ok: "sched_ok s" and c: "complete_quantum_with_progress i emitted progress ready eos s = (Ok qc, t)"
    and p: "0 < unat progress \<or> is_terminal (qc_status qc)"
  shows "load t < load s"
  using ok c outcome.distinct(1)
proof (cases rule: complete_quantum_cases)
  case (committed d r q st)
  note run = complete_quantum_run [OF committed(1,2,4,6)]
  have t: "cs_requests t = bt_insert i (settle q) (cs_requests s)" and qc: "qc_status qc = rs_status q"
    using c run by auto
  have o: "owed (settle q) + unat progress \<le> owed r" by (rule owed_progress [OF committed(3,5,4,6)])
  have "load_weight (settle q) < load_weight r"
    using p qc o committed(3) by (auto simp: load_weight_def active_weight_def settle_def)
  then show ?thesis
    using bt.total_replace [OF sched_okD(2) [OF ok] committed(2), of load_weight "settle q"]
    by (simp add: load_def t)
qed simp_all

section \<open>Frames\<close>

text \<open>A call that keeps the known requests, with their specs and emitted tokens.\<close>

definition same_output :: "ContinuousScheduler \<Rightarrow> ContinuousScheduler \<Rightarrow> bool" where
  "same_output s t \<longleftrightarrow> dom (bt_get (cs_requests t)) = dom (bt_get (cs_requests s)) \<and>
     (\<forall>i r q. bt_get (cs_requests s) i = Some r \<longrightarrow> bt_get (cs_requests t) i = Some q \<longrightarrow>
        rs_spec q = rs_spec r \<and> rs_emitted_tokens q = rs_emitted_tokens r)"

lemma same_output_refl [simp]: "same_output s s"
  by (simp add: same_output_def)

lemma same_outputD:
  assumes "same_output s t" and "bt_get (cs_requests t) i = Some q"
  obtains r where "bt_get (cs_requests s) i = Some r" and "rs_spec q = rs_spec r"
    and "rs_emitted_tokens q = rs_emitted_tokens r"
proof -
  have "i \<in> dom (bt_get (cs_requests t))" using assms(2) by (rule domI)
  then have "i \<in> dom (bt_get (cs_requests s))" using assms(1) unfolding same_output_def by simp
  then obtain r where r: "bt_get (cs_requests s) i = Some r" by (auto simp: dom_def)
  have "rs_spec q = rs_spec r \<and> rs_emitted_tokens q = rs_emitted_tokens r"
    using assms r unfolding same_output_def by blast
  then show thesis using that r by blast
qed

lemma same_output_trans:
  assumes "same_output s t" and "same_output t u"
  shows "same_output s u"
  unfolding same_output_def
proof (intro conjI allI impI)
  show "dom (bt_get (cs_requests u)) = dom (bt_get (cs_requests s))"
    using assms unfolding same_output_def by simp
  fix i r q
  assume r: "bt_get (cs_requests s) i = Some r" and q: "bt_get (cs_requests u) i = Some q"
  obtain m where m: "bt_get (cs_requests t) i = Some m" "rs_spec q = rs_spec m" "rs_emitted_tokens q = rs_emitted_tokens m"
    by (rule same_outputD [OF assms(2) q])
  obtain r' where "bt_get (cs_requests s) i = Some r'" "rs_spec m = rs_spec r'" "rs_emitted_tokens m = rs_emitted_tokens r'"
    by (rule same_outputD [OF assms(1) m(1)])
  then show "rs_spec q = rs_spec r" "rs_emitted_tokens q = rs_emitted_tokens r" using r m(2,3) by simp_all
qed

lemma cancel_same_output:
  "cancel i s = (r, t) \<Longrightarrow> same_output s t \<and> cs_running t = cs_running s \<and> cs_policy t = cs_policy s"
  by (cases "bt_get (cs_requests s) i") (auto simp: cancel_def same_output_def split: if_splits)

lemma dispatch_same_output:
  assumes ok: "sched_ok s" and d: "dispatch_batch now limit s = (Ok ds, t)"
  shows "same_output s t"
proof -
  obtain e where e: "expire_deadlines now s = (Ok (), e)" "sched_ok e" "cs_policy e = cs_policy s"
    "map dp_request_id ds = batch_ids now limit e" "\<forall>d\<in>set ds. started e now d"
    "\<forall>d\<in>set ds. bt_get (cs_running t) (dp_request_id d) = Some d"
    "length ds \<le> unat (min limit (sp_max_batch_requests (cs_policy s)))"
    "\<forall>i. bt_get (cs_requests e) i = (case bt_get (cs_requests s) i of None \<Rightarrow> None
           | Some r \<Rightarrow> Some (if deadline_passed now r then expire_record r else r))"
    "\<forall>i. bt_get (cs_requests t) i = (if i \<in> dp_request_id ` set ds
           then map_option (\<lambda>r. r\<lparr>rs_status := Running\<rparr>) (bt_get (cs_requests e) i) else bt_get (cs_requests e) i)"
    "cs_expired t = cs_expired e" "cs_reserved_kv_bytes t = cs_reserved_kv_bytes e"
    by (rule dispatch_batch_Ok [OF ok d])
  have "dom (bt_get (cs_requests t)) = dom (bt_get (cs_requests s))"
    by (rule dispatch_dom(1) [OF ok d]) simp
  then show ?thesis
    using e(8,9) by (auto simp: same_output_def expire_record_def split: if_splits)
qed

text \<open>A single dispatch: what comes back is what runs, and nothing runs without it.\<close>

lemma idle_iff: "sched_ok s \<Longrightarrow> cs_running s = [] \<longleftrightarrow> (\<forall>i. bt_get (cs_running s) i = None)"
  using bt_get_in_set [of "cs_running s"] sched_okD(3) [of s] by (cases "cs_running s") auto

lemma dispatched_runs:
  assumes "sched_ok s" and "dispatch_batch now limit s = (Ok ds, t)" and "d \<in> set ds"
  shows "bt_get (cs_running t) (dp_request_id d) = Some d"
proof (rule dispatch_batch_Ok [OF assms(1,2)])
  assume "\<forall>d\<in>set ds. bt_get (cs_running t) (dp_request_id d) = Some d"
  then show ?thesis using assms(3) by (rule bspec)
qed

lemma dispatch_running:
  assumes ok: "sched_ok s" and d: "dispatch_batch now limit s = (Ok ds, t)" and i: "bt_get (cs_running t) i = Some d'"
  shows "d' \<in> set ds"
proof -
  obtain e where e: "expire_deadlines now s = (Ok (), e)" "sched_ok e" "cs_policy e = cs_policy s"
    "map dp_request_id ds = batch_ids now limit e" "\<forall>d\<in>set ds. started e now d"
    "\<forall>d\<in>set ds. bt_get (cs_running t) (dp_request_id d) = Some d"
    "length ds \<le> unat (min limit (sp_max_batch_requests (cs_policy s)))"
    "\<forall>i. bt_get (cs_requests e) i = (case bt_get (cs_requests s) i of None \<Rightarrow> None
           | Some r \<Rightarrow> Some (if deadline_passed now r then expire_record r else r))"
    "\<forall>i. bt_get (cs_requests t) i = (if i \<in> dp_request_id ` set ds
           then map_option (\<lambda>r. r\<lparr>rs_status := Running\<rparr>) (bt_get (cs_requests e) i) else bt_get (cs_requests e) i)"
    "cs_expired t = cs_expired e" "cs_reserved_kv_bytes t = cs_reserved_kv_bytes e"
    by (rule dispatch_batch_Ok [OF ok d])
  have idle: "cs_running s = []" using dispatch_batch_Ok_guard [OF d] by simp
  have okt: "sched_ok t" using dispatch_batch_ok [OF ok d] by simp
  obtain q where q: "bt_get (cs_requests t) i = Some q" "rs_status q = Running"
    using running_request [OF okt i] by blast
  have "i \<in> dp_request_id ` set ds"
  proof (rule ccontr)
    assume n: "i \<notin> dp_request_id ` set ds"
    then have "bt_get (cs_requests e) i = Some q" using e(9) q(1) by simp
    then obtain r where "bt_get (cs_requests s) i = Some r" "rs_status r = Running"
      using e(8) q(2) by (auto split: option.splits if_splits)
    then show False using sched_okD(5) [OF ok] idle by (fastforce simp: request_ok_def phase_ok_def)
  qed
  then show ?thesis using e(6) i by auto
qed

lemma dispatch_one_run:
  assumes ok: "sched_ok s" and idle: "cs_running s = []" and d: "dispatch_one now s = (res, t)"
  obtains (overflow) "res = Err AccountingOverflow"
  | (none) "res = Ok None" "sched_ok t" "cs_running t = []" "same_output s t" "load t \<le> load s" "cs_policy t = cs_policy s"
  | (some) x where "res = Ok (Some x)" "sched_ok t" "same_output s t" "load t \<le> load s" "cs_policy t = cs_policy s"
      "bt_get (cs_running t) (dp_request_id x) = Some x" "\<forall>i y. bt_get (cs_running t) i = Some y \<longrightarrow> y = x"
proof -
  obtain r u where b: "dispatch_batch now 1 s = (r, u)" by fastforce
  have u: "sched_ok u" "r \<noteq> Panic" "cs_policy u = cs_policy s"
    using dispatch_batch_ok [OF ok b] dispatch_batch_policy [OF b] by auto
  show thesis
  proof (cases r)
    case (Ok ds)
    have t: "res = Ok (case ds of [] \<Rightarrow> None | d # _ \<Rightarrow> Some d)" "t = u"
      using d b Ok by (auto simp: dispatch_one_def)
    note bo = b [unfolded Ok]
    have step: "sched_step s u" using step_dispatch [OF b] Ok by simp
    have so: "same_output s u" by (rule dispatch_same_output [OF ok bo])
    then have le: "load u \<le> load s" by (intro step_load [OF ok step]) (simp add: same_output_def)
    have "length ds \<le> 1" by (rule dispatch_batch_Ok [OF ok bo]) (simp add: unat_min)
    then consider "ds = []" | x where "ds = [x]" by (cases ds) auto
    then show thesis
    proof cases
      case 1
      then have "cs_running u = []" using dispatch_running [OF ok bo] idle_iff [OF u(1)] by fastforce
      then show ?thesis using none t 1 u so le by simp
    next
      case (2 x)
      have x: "bt_get (cs_running u) (dp_request_id x) = Some x"
        by (rule dispatched_runs [OF ok bo]) (simp add: 2)
      have only: "\<forall>i y. bt_get (cs_running u) i = Some y \<longrightarrow> y = x"
        using dispatch_running [OF ok bo] unfolding 2 by (metis empty_set list.simps(15) singletonD)
      have "res = Ok (Some x)" using t(1) 2 by simp
      then show ?thesis using some [of x] u(1,3) so le x only unfolding t(2) by blast
    qed
  next
    case (Err e)
    obtain e' ds v where run: "expire_deadlines now s = (Ok (), e')" "sched_ok e'"
      "start_batch (batch_ids now 1 e') now e' = (Ok ds, v)" "sched_ok v"
      "dispatch_batch now 1 s = (case record_batch_dispatch ds v of (r, x) \<Rightarrow> (and_then r (\<lambda>_. Ok ds), x))"
      "map dp_request_id ds = batch_ids now 1 e'" "\<forall>d\<in>set ds. started e' now d"
      "\<forall>d\<in>set ds. bt_get (cs_running v) (dp_request_id d) = Some d"
      "length ds \<le> unat (min 1 (sp_max_batch_requests (cs_policy s)))"
      "cs_policy e' = cs_policy s" "cs_policy v = cs_policy s"
      by (rule dispatch_batch_run [OF ok idle, of 1 now]) simp
    have "fst (record_batch_dispatch ds v) = Err e"
      using run(5) b Err by (cases "record_batch_dispatch ds v"; cases "fst (record_batch_dispatch ds v)") auto
    then have "e = AccountingOverflow"
      by (cases "checked_add (st_dispatched_quanta (cs_stats v)) (word_of_usize (length ds) :: u64)")
         (auto simp: record_batch_dispatch_def Let_def split: if_splits)
    then show thesis using overflow d b Err by (simp add: dispatch_one_def)
  qed (use u in simp)
qed

section \<open>A valid completion\<close>

lemma complete_valid_run:
  assumes ok: "sched_ok s" and run: "bt_get (cs_running s) i = Some d" and v: "quantum_valid d emitted progress"
    and req: "bt_get (cs_requests s) i = Some r"
    and c: "complete_quantum_with_progress i emitted progress ready eos s = (res, t)" and n: "res \<noteq> Err AccountingOverflow"
  obtains q st where "res = Ok \<lparr>qc_request_id = i, qc_emitted_tokens = emitted, qc_status = rs_status q\<rparr>"
    and "apply_quantum_state d emitted progress ready eos (r, cs_stats s) = (Ok (), q, st)"
    and "cs_requests t = bt_insert i (settle q) (cs_requests s)" and "cs_running t = bt_remove i (cs_running s)"
    and "sched_ok t" and "cs_policy t = cs_policy s"
proof -
  obtain ar q st where a: "apply_quantum_state d emitted progress ready eos (r, cs_stats s) = (ar, q, st)"
    by (metis prod_cases3)
  have "rs_status r = Running" using running_request [OF ok run] req by auto
  then have "sx_priority (rs_spec r) \<noteq> 0"
    using sched_okD(5) [OF ok req] by (simp add: request_ok_def tokens_ok_def)
  then have "ar = Ok () \<or> ar = Err AccountingOverflow" by (rule apply_quantum_state_errors [OF a])
  moreover have "validate_quantum_completion d i emitted progress = Ok ()" using v by (simp only: validate_quantum_Ok)
  then have "ar \<noteq> Err AccountingOverflow"
    using c n run req a by (auto simp: complete_quantum_with_progress_def Let_def)
  ultimately have a': "apply_quantum_state d emitted progress ready eos (r, cs_stats s) = (Ok (), q, st)" using a by simp
  note R = complete_quantum_run [OF run req v a']
  have "sched_ok t" using complete_quantum_ok [OF ok c n] by simp
  then show thesis using that [OF _ a'] R c by simp
qed

lemma quantum_state_emitted:
  "apply_quantum_state d emitted progress ready eos (r, st) = (Ok (), q, st') \<Longrightarrow> quantum_valid d emitted progress \<Longrightarrow>
   rs_spec q = rs_spec r \<and> unat (rs_emitted_tokens q) = unat (rs_emitted_tokens r) + unat emitted"
  using apply_quantum_state_Ok(1) [of d emitted progress ready eos r st q st']
  by (cases "dp_kind d") (auto simp: progressed_def quantum_valid_def)

lemma quantum_tokens_fit:
  assumes "sched_ok s" and "bt_get (cs_running s) i = Some d"
  shows "dp_request_id d = i" and "0 < unat (dp_token_budget d)" and "bt_get (cs_running s) (dp_request_id d) = Some d"
proof -
  obtain r where "dispatch_ok (cs_policy s) d i r" using running_request [OF assms] by blast
  then show "dp_request_id d = i" "0 < unat (dp_token_budget d)" by (auto simp: dispatch_ok_def)
  then show "bt_get (cs_running s) (dp_request_id d) = Some d" using assms(2) by simp
qed

lemma settle_simps [simp]: "rs_spec (settle q) = rs_spec q" "rs_emitted_tokens (settle q) = rs_emitted_tokens q"
  by (simp_all add: settle_def)

end
