(* ===== verification/Service_Trace.thy ===== *)
theory Service_Trace
  imports Scheduler
begin

text \<open>
  The deterministic service trace of \<open>crates/leone/src/scheduler.rs\<close> (lines 765 to 1252 and
  1349 to 1663): a frozen list of requests with isolated token streams is run through the
  scheduler on a simulated clock, and an independent replay checks the events. The JSON
  decoder (\<open>serde_json\<close>) and the digest (\<open>sha2\<close>) are parameters. Record prefixes: \<open>tq_\<close>
  ServiceTraceRequest, \<open>tc_\<close> ServiceTrace, \<open>tt_\<close> ServiceTraceResult, \<open>tw_\<close>
  ServiceTraceReport, \<open>tp_\<close> TraceReplay; \<open>te_\<close> holds the local variables of
  \<open>execute_service_trace\<close>. The main loop takes fuel; \<open>Trace_Run\<close> proves how much is enough.
\<close>

section \<open>Data\<close>

record ServiceTraceRequest =
  tq_spec :: RequestSpec
  tq_isolated_tokens :: "u32 list"
  tq_cancel_at_ns :: "u64 option"

record ServiceTrace =
  tc_schema_version :: u32
  tc_policy :: SchedulerPolicy
  tc_token_duration_ns :: u64
  tc_requests :: "ServiceTraceRequest list"

datatype ServiceEvent =
    AdmissionEvent u64 RequestId AdmissionOutcome
  | DispatchEvent u64 RequestId u32 DispatchKind
  | CancelEvent u64 RequestId bool
  | ExpireEvent u64 RequestId u64
  | CompleteEvent u64 RequestId u32 RequestStatus u64 DispatchKind

record ServiceTraceResult =
  tt_request_id :: RequestId
  tt_status :: RequestStatus
  tt_output_tokens :: "u32 list"

record ServiceTraceReport =
  tw_schema_version :: u32
  tw_fixture_sha256 :: string
  tw_events :: "ServiceEvent list"
  tw_results :: "ServiceTraceResult list"
  tw_stats :: SchedulerStats
  tw_oracle_verified :: bool

type_synonym trace_sources = "(RequestId, ServiceTraceRequest) btree_map"
type_synonym trace_outputs = "(RequestId, u32 list) btree_map"

record ServiceTraceExecution =
  te_next :: nat
  te_now :: u64
  te_scheduler :: ContinuousScheduler
  te_cancellations :: "(RequestId, unit) btree_map"
  te_outputs :: trace_outputs
  te_events :: "ServiceEvent list"

abbreviation tq_id :: "ServiceTraceRequest \<Rightarrow> RequestId" where
  "tq_id q \<equiv> sx_id (tq_spec q)"

section \<open>Decoding and ordering\<close>

definition decode_service_trace ::
  "('j \<Rightarrow> ServiceTrace + string) \<Rightarrow> 'j \<Rightarrow> (ServiceTrace, SchedulerError) outcome" where
  "decode_service_trace parse bytes =
     and_then (case parse bytes of Inl trace \<Rightarrow> Ok trace | Inr message \<Rightarrow> Err (Json message)) (\<lambda>trace.
     if tc_schema_version trace \<noteq> 1 then Err (TraceSchema (tc_schema_version trace))
     else if tc_token_duration_ns trace = 0 then Err (InvalidTrace ''token duration must be nonzero'')
     else Ok trace)"

definition compare_arrivals :: "ServiceTraceRequest \<Rightarrow> ServiceTraceRequest \<Rightarrow> ordering" where
  "compare_arrivals a b =
     then_with (cmp (sx_arrival_ns (tq_spec a)) (sx_arrival_ns (tq_spec b))) (cmp (tq_id a) (tq_id b))"

definition order_service_trace ::
  "ServiceTrace \<Rightarrow> (ServiceTraceRequest list \<times> trace_sources, SchedulerError) outcome" where
  "order_service_trace trace =
     (let ordered = sort_by compare_arrivals (tc_requests trace);
          sources = bt_collect (map (\<lambda>q. (tq_id q, q)) ordered)
      in if length sources \<noteq> length ordered then Err (InvalidTrace ''request IDs must be unique'')
         else Ok (ordered, sources))"

section \<open>One turn of the loop\<close>

text \<open>Arrivals up to now are admitted one after another.\<close>

fun admit_arrivals ::
  "ServiceTraceRequest list \<Rightarrow> ServiceTraceExecution \<Rightarrow> (unit, SchedulerError) outcome \<times> ServiceTraceExecution" where
  "admit_arrivals [] e = (Ok (), e)"
| "admit_arrivals (q # qs) e =
     (if te_now e < sx_arrival_ns (tq_spec q) then (Ok (), e)
      else
        try_st (let (r, s) = admit (tq_spec q) (te_now e) (te_scheduler e) in (r, e\<lparr>te_scheduler := s\<rparr>)) (\<lambda>outcome e1.
        admit_arrivals qs
          (e1\<lparr>te_events := te_events e1 @ [AdmissionEvent (te_now e1) (tq_id q) outcome],
              te_outputs := (case bt_get (te_outputs e1) (tq_id q) of
                 None \<Rightarrow> bt_insert (tq_id q) [] (te_outputs e1) | Some _ \<Rightarrow> te_outputs e1),
              te_next := te_next e1 + 1\<rparr>)))"

definition admit_trace_arrivals ::
  "ServiceTraceRequest list \<Rightarrow> ServiceTraceExecution \<Rightarrow> (unit, SchedulerError) outcome \<times> ServiceTraceExecution" where
  "admit_trace_arrivals ordered e = admit_arrivals (drop (te_next e) ordered) e"

definition cancel_one ::
  "u64 \<Rightarrow> ServiceTraceRequest \<Rightarrow> ServiceTraceExecution \<Rightarrow> (unit, SchedulerError) outcome \<times> ServiceTraceExecution" where
  "cancel_one through_ns q e =
     (case tq_cancel_at_ns q of
        None \<Rightarrow> (Ok (), e)
      | Some at_ns \<Rightarrow>
          if through_ns < at_ns \<or> bt_contains (te_cancellations e) (tq_id q) then (Ok (), e)
          else (case status_of (te_scheduler e) (tq_id q) of
                  None \<Rightarrow> (Ok (), e)
                | Some status \<Rightarrow>
                    if is_terminal status
                    then (Ok (), e\<lparr>te_cancellations := bt_insert (tq_id q) () (te_cancellations e)\<rparr>)
                    else
                      try_st (let (r, s) = cancel (tq_id q) (te_scheduler e) in (r, e\<lparr>te_scheduler := s\<rparr>)) (\<lambda>_ e1.
                      (Ok (), e1\<lparr>te_cancellations := bt_insert (tq_id q) () (te_cancellations e1),
                                 te_events := te_events e1 @ [CancelEvent at_ns (tq_id q) (status = Running)]\<rparr>))))"

fun cancel_sources ::
  "u64 \<Rightarrow> ServiceTraceRequest list \<Rightarrow> ServiceTraceExecution \<Rightarrow> (unit, SchedulerError) outcome \<times> ServiceTraceExecution" where
  "cancel_sources through_ns [] e = (Ok (), e)"
| "cancel_sources through_ns (q # qs) e =
     try_st (cancel_one through_ns q e) (\<lambda>_ e1. cancel_sources through_ns qs e1)"

definition apply_cancellations ::
  "trace_sources \<Rightarrow> u64 \<Rightarrow> ServiceTraceExecution \<Rightarrow> (unit, SchedulerError) outcome \<times> ServiceTraceExecution" where
  "apply_cancellations sources through_ns e = cancel_sources through_ns (bt_values sources) e"

definition trace_expired_requests ::
  "trace_sources \<Rightarrow> ContinuousScheduler \<Rightarrow> u64 \<Rightarrow> (RequestId \<times> u64) list" where
  "trace_expired_requests sources s now =
     List.map_filter (\<lambda>q. Option.bind (bt_get (cs_requests s) (tq_id q)) (\<lambda>r.
        if rs_status r = Queued \<and> is_urgent r now then Some (tq_id q, rs_reserved_kv_bytes r) else None))
       (bt_values sources)"

fun expire_events :: "u64 \<Rightarrow> u64 \<Rightarrow> (RequestId \<times> u64) list \<Rightarrow> ServiceEvent list" where
  "expire_events now reserved [] = []"
| "expire_events now reserved ((i, bytes) # es) =
     (let reserved' = saturating_sub reserved bytes
      in ExpireEvent now i reserved' # expire_events now reserved' es)"

definition record_trace_expirations ::
  "(RequestId \<times> u64) list \<Rightarrow> ServiceTraceExecution \<Rightarrow> ServiceTraceExecution" where
  "record_trace_expirations expired e =
     (let reserved = saturating_add (cs_reserved_kv_bytes (te_scheduler e)) (sum_list (map snd expired))
      in e\<lparr>te_events := te_events e @ expire_events (te_now e) reserved expired\<rparr>)"

section \<open>One quantum\<close>

definition trace_is_prefill :: "ContinuousScheduler \<Rightarrow> RequestId \<Rightarrow> bool" where
  "trace_is_prefill s i = (case bt_get (cs_running s) i of Some d \<Rightarrow> dp_kind d = Prefill | None \<Rightarrow> False)"

definition trace_emitted_start :: "ContinuousScheduler \<Rightarrow> RequestId \<Rightarrow> (nat, SchedulerError) outcome" where
  "trace_emitted_start s i =
     and_then (ok_or (emitted_tokens_of s i) (UnknownRequest i)) (\<lambda>n. Ok (unat n))"

definition trace_start :: "ContinuousScheduler \<Rightarrow> RequestId \<Rightarrow> bool \<Rightarrow> (nat, SchedulerError) outcome" where
  "trace_start s i prefill = (if prefill then Ok 0 else trace_emitted_start s i)"

definition trace_quantum_count :: "u32 \<Rightarrow> nat \<Rightarrow> nat \<Rightarrow> (nat, SchedulerError) outcome" where
  "trace_quantum_count token_budget isolated_tokens start =
     Ok (min (unat token_budget) (isolated_tokens - start))"

definition trace_count :: "u32 \<Rightarrow> nat \<Rightarrow> nat \<Rightarrow> bool \<Rightarrow> (nat, SchedulerError) outcome" where
  "trace_count token_budget isolated_tokens start prefill =
     (if prefill then Ok (unat token_budget) else trace_quantum_count token_budget isolated_tokens start)"

definition trace_end :: "u64 \<Rightarrow> nat \<Rightarrow> u64 \<Rightarrow> (u64, SchedulerError) outcome" where
  "trace_end token_duration_ns cnt now =
     and_then (ok_or (checked_mul (of_nat cnt) token_duration_ns) AccountingOverflow) (\<lambda>duration.
     ok_or (checked_add now duration) AccountingOverflow)"

definition trace_quantum_bounds ::
  "ServiceTrace \<Rightarrow> ContinuousScheduler \<Rightarrow> trace_sources \<Rightarrow> RequestId \<Rightarrow> u32 \<Rightarrow> u64
    \<Rightarrow> (ServiceTraceRequest \<times> nat \<times> nat \<times> u64, SchedulerError) outcome" where
  "trace_quantum_bounds trace s sources i token_budget now =
     and_then (ok_or (bt_get sources i) (UnknownRequest i)) (\<lambda>source.
     let prefill = trace_is_prefill s i in
     and_then (trace_start s i prefill) (\<lambda>start.
     and_then (trace_count token_budget (length (tq_isolated_tokens source)) start prefill) (\<lambda>cnt.
     and_then (trace_end (tc_token_duration_ns trace) cnt now) (\<lambda>end_ns.
     Ok (source, start, cnt, end_ns)))))"

definition append_trace_output ::
  "Dispatch \<Rightarrow> ServiceTraceRequest \<Rightarrow> nat \<Rightarrow> nat \<Rightarrow> trace_outputs \<Rightarrow> (trace_outputs, SchedulerError) outcome" where
  "append_trace_output d source start cnt outputs =
     (if dp_kind d = Decode
      then and_then (expect (bt_get outputs (dp_request_id d))) (\<lambda>out.
           and_then (slice (tq_isolated_tokens source) start (start + cnt)) (\<lambda>tokens.
           Ok (bt_insert (dp_request_id d) (out @ tokens) outputs)))
      else Ok outputs)"

definition trace_emitted_tokens :: "Dispatch \<Rightarrow> nat \<Rightarrow> (u32, SchedulerError) outcome" where
  "trace_emitted_tokens d cnt =
     (if dp_kind d = Prefill then Ok 0
      else if cnt < 2 ^ 32 then Ok (of_nat cnt) else Err AccountingOverflow)"

definition trace_progress_tokens :: "Dispatch \<Rightarrow> u32 \<Rightarrow> u32" where
  "trace_progress_tokens d emitted_tokens = (if dp_kind d = Prefill then dp_token_budget d else emitted_tokens)"

definition trace_prefill_ready :: "ContinuousScheduler \<Rightarrow> Dispatch \<Rightarrow> bool" where
  "trace_prefill_ready s d \<longleftrightarrow> dp_kind d = Prefill \<and>
     (case bt_get (cs_requests s) (dp_request_id d) of
        Some r \<Rightarrow> rs_remaining_prefill_tokens r \<le> ucast (dp_token_budget d) | None \<Rightarrow> False)"

definition trace_eos :: "Dispatch \<Rightarrow> nat \<Rightarrow> nat \<Rightarrow> nat \<Rightarrow> bool" where
  "trace_eos d start cnt source_len \<longleftrightarrow> dp_kind d = Decode \<and> start + cnt = source_len"

definition complete_trace_quantum ::
  "ServiceTrace \<Rightarrow> trace_sources \<Rightarrow> Dispatch \<Rightarrow> ServiceTraceExecution
    \<Rightarrow> (u64, SchedulerError) outcome \<times> ServiceTraceExecution" where
  "complete_trace_quantum trace sources d e =
     (let e1 = e\<lparr>te_events := te_events e @
                   [DispatchEvent (te_now e) (dp_request_id d) (dp_token_budget d) (dp_kind d)]\<rparr>
      in try_pure (trace_quantum_bounds trace (te_scheduler e1) sources (dp_request_id d) (dp_token_budget d) (te_now e1)) e1
           (\<lambda>(source, start, cnt, end_ns).
         try_st (apply_cancellations sources end_ns e1) (\<lambda>_ e2.
         try_pure (append_trace_output d source start cnt (te_outputs e2)) e2 (\<lambda>outputs.
         let e3 = e2\<lparr>te_outputs := outputs\<rparr>
         in try_pure (trace_emitted_tokens d cnt) e3 (\<lambda>emitted.
            let ready = trace_prefill_ready (te_scheduler e3) d
            in try_st (let (r, s) = complete_quantum_with_progress (dp_request_id d) emitted
                         (trace_progress_tokens d emitted) ready
                         (trace_eos d start cnt (length (tq_isolated_tokens source))) (te_scheduler e3)
                       in (r, e3\<lparr>te_scheduler := s\<rparr>)) (\<lambda>completion e4.
               (Ok end_ns,
                e4\<lparr>te_events := te_events e4 @
                      [CompleteEvent end_ns (qc_request_id completion) (qc_emitted_tokens completion)
                         (qc_status completion) (cs_reserved_kv_bytes (te_scheduler e4)) (dp_kind d)]\<rparr>)))))))"

section \<open>The loop\<close>

datatype turn = Continue | Stop

text \<open>The body of the loop; \<open>Stop\<close> is the \<open>break\<close>.\<close>

definition trace_turn ::
  "ServiceTrace \<Rightarrow> ServiceTraceRequest list \<Rightarrow> trace_sources \<Rightarrow> ServiceTraceExecution
    \<Rightarrow> (turn, SchedulerError) outcome \<times> ServiceTraceExecution" where
  "trace_turn trace ordered sources e =
     try_st (admit_trace_arrivals ordered e) (\<lambda>_ e1.
     try_st (apply_cancellations sources (te_now e1) e1) (\<lambda>_ e2.
     let expired = trace_expired_requests sources (te_scheduler e2) (te_now e2) in
     try_st (let (r, s) = dispatch_one (te_now e2) (te_scheduler e2) in (r, e2\<lparr>te_scheduler := s\<rparr>)) (\<lambda>dispatched e3.
     let e4 = record_trace_expirations expired e3 in
     case dispatched of
       Some d \<Rightarrow> try_st (complete_trace_quantum trace sources d e4) (\<lambda>now e5. (Ok Continue, e5\<lparr>te_now := now\<rparr>))
     | None \<Rightarrow>
         if te_next e4 < length ordered
         then (Ok Continue, e4\<lparr>te_now := max (te_now e4) (sx_arrival_ns (tq_spec (ordered ! te_next e4)))\<rparr>)
         else (Ok Stop, e4))))"

fun trace_loop ::
  "nat \<Rightarrow> ServiceTrace \<Rightarrow> ServiceTraceRequest list \<Rightarrow> trace_sources \<Rightarrow> ServiceTraceExecution
    \<Rightarrow> ((unit, SchedulerError) outcome \<times> ServiceTraceExecution) option" where
  "trace_loop 0 trace ordered sources e = None"
| "trace_loop (Suc fuel) trace ordered sources e =
     (if te_next e < length ordered \<or> has_runnable_requests (te_scheduler e) then
        (case trace_turn trace ordered sources e of
           (Ok Continue, e1) \<Rightarrow> trace_loop fuel trace ordered sources e1
         | (Ok Stop, e1) \<Rightarrow> Some (Ok (), e1)
         | (Err x, e1) \<Rightarrow> Some (Err x, e1)
         | (Panic, e1) \<Rightarrow> Some (Panic, e1))
      else Some (Ok (), e))"

definition execute_service_trace ::
  "nat \<Rightarrow> ServiceTrace \<Rightarrow> ContinuousScheduler \<Rightarrow> ServiceTraceRequest list \<Rightarrow> trace_sources
    \<Rightarrow> ((unit, SchedulerError) outcome \<times> ServiceTraceExecution) option" where
  "execute_service_trace fuel trace s ordered sources =
     trace_loop fuel trace ordered sources
       \<lparr>te_next = 0,
        te_now = (case ordered of [] \<Rightarrow> 0 | q # _ \<Rightarrow> sx_arrival_ns (tq_spec q)),
        te_scheduler = s, te_cancellations = [], te_outputs = [], te_events = []\<rparr>"

definition service_trace_results ::
  "trace_sources \<Rightarrow> trace_outputs \<Rightarrow> ContinuousScheduler \<Rightarrow> ServiceTraceResult list" where
  "service_trace_results sources outputs s =
     map (\<lambda>i. \<lparr>tt_request_id = i,
               tt_status = (case status_of s i of Some status \<Rightarrow> status | None \<Rightarrow> Rejected),
               tt_output_tokens = (case bt_get outputs i of Some out \<Rightarrow> out | None \<Rightarrow> [])\<rparr>)
       (bt_keys sources)"

section \<open>The replay\<close>

record TraceReplay =
  tp_reservations :: "(RequestId, u64) btree_map"
  tp_reserved :: u64
  tp_running :: "(RequestId \<times> u32 \<times> DispatchKind \<times> bool) option"
  tp_emitted :: "(RequestId, u64) btree_map"

definition default_replay :: TraceReplay where
  "default_replay = \<lparr>tp_reservations = [], tp_reserved = 0, tp_running = None, tp_emitted = []\<rparr>"

definition replay_admit ::
  "RequestId \<Rightarrow> u64 \<Rightarrow> TraceReplay \<Rightarrow> (unit, SchedulerError) outcome \<times> TraceReplay" where
  "replay_admit i bytes p =
     (let p1 = p\<lparr>tp_reservations := bt_insert i bytes (tp_reservations p)\<rparr>
      in if bt_contains (tp_reservations p) i then (Err (InvalidTrace ''duplicate admission''), p1)
         else try_pure (ok_or (checked_add (tp_reserved p1) bytes) AccountingOverflow) p1 (\<lambda>n.
              (Ok (), p1\<lparr>tp_reserved := n\<rparr>)))"

definition replay_dispatch ::
  "RequestId \<Rightarrow> u32 \<Rightarrow> DispatchKind \<Rightarrow> u64 \<Rightarrow> TraceReplay \<Rightarrow> (unit, SchedulerError) outcome \<times> TraceReplay" where
  "replay_dispatch i token_budget kind quantum p =
     (if tp_running p \<noteq> None \<or> \<not> bt_contains (tp_reservations p) i \<or> token_budget = 0 \<or> quantum < ucast token_budget
      then (Err (InvalidTrace ''invalid dispatch''), p)
      else (Ok (), p\<lparr>tp_running := Some (i, token_budget, kind, False)\<rparr>))"

definition replay_cancel ::
  "RequestId \<Rightarrow> bool \<Rightarrow> TraceReplay \<Rightarrow> (unit, SchedulerError) outcome \<times> TraceReplay" where
  "replay_cancel i running p =
     (if running then
        try_pure (ok_or (tp_running p) (InvalidTrace ''running cancellation without dispatch'')) p
          (\<lambda>(active, budget, kind, _).
        if active \<noteq> i then (Err (InvalidTrace ''cancellation names another request''), p)
        else (Ok (), p\<lparr>tp_running := Some (active, budget, kind, True)\<rparr>))
      else (case bt_get (tp_reservations p) i of
              None \<Rightarrow> (Ok (), p)
            | Some bytes \<Rightarrow> (Ok (), p\<lparr>tp_reservations := bt_remove i (tp_reservations p),
                                      tp_reserved := tp_reserved p - bytes\<rparr>)))"

definition replay_expire ::
  "RequestId \<Rightarrow> u64 \<Rightarrow> TraceReplay \<Rightarrow> (unit, SchedulerError) outcome \<times> TraceReplay" where
  "replay_expire i reserved_kv_bytes p =
     try_pure (ok_or (bt_get (tp_reservations p) i) (InvalidTrace ''unknown expired request'')) p (\<lambda>bytes.
     let p1 = p\<lparr>tp_reservations := bt_remove i (tp_reservations p)\<rparr>
     in try_pure (ok_or (checked_sub (tp_reserved p1) bytes) (InvalidTrace ''expired KV underflow'')) p1 (\<lambda>n.
        let p2 = p1\<lparr>tp_reserved := n\<rparr>
        in if n \<noteq> reserved_kv_bytes then (Err (InvalidTrace ''expired KV accounting differs''), p2)
           else (Ok (), p2)))"

definition validate_trace_completion ::
  "RequestId \<times> u32 \<times> DispatchKind \<times> bool \<Rightarrow> RequestId \<times> u32 \<times> DispatchKind \<times> RequestStatus
    \<Rightarrow> (unit, SchedulerError) outcome" where
  "validate_trace_completion act completion =
     (case act of (active, budget, active_kind, cancelled) \<Rightarrow>
      case completion of (i, emitted_tokens, kind, status) \<Rightarrow>
        if active \<noteq> i \<or> active_kind \<noteq> kind \<or> budget < emitted_tokens
          then Err (InvalidTrace ''completion violates dispatch'')
        else if kind = Prefill \<and> emitted_tokens \<noteq> 0
          then Err (InvalidTrace ''completion violates prefill output'')
        else if cancelled \<and> status \<noteq> Cancelled
          then Err (InvalidTrace ''cancelled completion has another status'')
        else Ok ())"

definition release_trace_reservation :: "RequestId \<Rightarrow> RequestStatus \<Rightarrow> TraceReplay \<Rightarrow> TraceReplay" where
  "release_trace_reservation i status p =
     (case (if is_terminal status then bt_get (tp_reservations p) i else None) of
        Some bytes \<Rightarrow> p\<lparr>tp_reservations := bt_remove i (tp_reservations p), tp_reserved := tp_reserved p - bytes\<rparr>
      | None \<Rightarrow> p)"

definition replay_complete ::
  "RequestId \<Rightarrow> u32 \<Rightarrow> RequestStatus \<Rightarrow> DispatchKind \<Rightarrow> u64 \<Rightarrow> TraceReplay
    \<Rightarrow> (unit, SchedulerError) outcome \<times> TraceReplay" where
  "replay_complete i emitted_tokens status kind reserved_kv_bytes p =
     (let p0 = p\<lparr>tp_running := None\<rparr> in
      try_pure (ok_or (tp_running p) (InvalidTrace ''completion without dispatch'')) p0 (\<lambda>act.
      try_pure (validate_trace_completion act (i, emitted_tokens, kind, status)) p0 (\<lambda>_.
      let p1 = p0\<lparr>tp_emitted := bt_insert i
                    ((case bt_get (tp_emitted p0) i of Some n \<Rightarrow> n | None \<Rightarrow> 0) + ucast emitted_tokens) (tp_emitted p0)\<rparr>;
          p2 = release_trace_reservation i status p1
      in if tp_reserved p2 \<noteq> reserved_kv_bytes then (Err (InvalidTrace ''KV event accounting differs''), p2)
         else (Ok (), p2))))"

fun apply_admission_event ::
  "RequestId \<Rightarrow> AdmissionOutcome \<Rightarrow> TraceReplay \<Rightarrow> (unit, SchedulerError) outcome \<times> TraceReplay" where
  "apply_admission_event i (Admitted reserved_kv_bytes) p =
     try_st (replay_admit i reserved_kv_bytes p) (\<lambda>_ p1. (Ok (), p1))"
| "apply_admission_event i (RejectedFor reason) p = (Ok (), p)"

fun apply_trace_event ::
  "u64 \<Rightarrow> ServiceEvent \<Rightarrow> TraceReplay \<Rightarrow> (unit, SchedulerError) outcome \<times> TraceReplay" where
  "apply_trace_event capacity (AdmissionEvent at_ns i outcome) p = apply_admission_event i outcome p"
| "apply_trace_event capacity (DispatchEvent at_ns i token_budget kind) p =
     replay_dispatch i token_budget kind capacity p"
| "apply_trace_event capacity (CancelEvent at_ns i running) p = replay_cancel i running p"
| "apply_trace_event capacity (ExpireEvent at_ns i reserved_kv_bytes) p = replay_expire i reserved_kv_bytes p"
| "apply_trace_event capacity (CompleteEvent at_ns i emitted_tokens status reserved_kv_bytes kind) p =
     replay_complete i emitted_tokens status kind reserved_kv_bytes p"

definition apply_event ::
  "u64 \<Rightarrow> ServiceEvent \<Rightarrow> TraceReplay \<Rightarrow> (unit, SchedulerError) outcome \<times> TraceReplay" where
  "apply_event capacity event p =
     try_st (apply_trace_event capacity event p) (\<lambda>_ p1.
     if capacity < tp_reserved p1 then (Err (InvalidTrace ''KV capacity exceeded''), p1) else (Ok (), p1))"

fun apply_events ::
  "u64 \<Rightarrow> ServiceEvent list \<Rightarrow> TraceReplay \<Rightarrow> (unit, SchedulerError) outcome \<times> TraceReplay" where
  "apply_events capacity [] p = (Ok (), p)"
| "apply_events capacity (event # es) p = try_st (apply_event capacity event p) (\<lambda>_ p1. apply_events capacity es p1)"

definition starts_with :: "'a list \<Rightarrow> 'a list \<Rightarrow> bool" where
  "starts_with xs prefix \<longleftrightarrow> take (length prefix) xs = prefix"

definition verify_trace_result ::
  "trace_sources \<Rightarrow> (RequestId, u64) btree_map \<Rightarrow> ServiceTraceResult \<Rightarrow> (unit, SchedulerError) outcome" where
  "verify_trace_result sources emitted result =
     and_then (ok_or (bt_get sources (tt_request_id result)) (InvalidTrace ''unknown result'')) (\<lambda>source.
     if \<not> starts_with (tq_isolated_tokens source) (tt_output_tokens result)
       then Err (InvalidTrace ''transcript differs from isolated oracle'')
     else if tt_status result = Finished \<and> tt_output_tokens result \<noteq> tq_isolated_tokens source
       then Err (InvalidTrace ''finished transcript is partial'')
     else if tt_status result \<noteq> Rejected \<and>
             Some (of_nat (length (tt_output_tokens result))) \<noteq> bt_get emitted (tt_request_id result)
       then Err (InvalidTrace ''token count differs from event replay'')
     else Ok ())"

fun verify_trace_results ::
  "trace_sources \<Rightarrow> (RequestId, u64) btree_map \<Rightarrow> ServiceTraceResult list \<Rightarrow> (unit, SchedulerError) outcome" where
  "verify_trace_results sources emitted [] = Ok ()"
| "verify_trace_results sources emitted (result # rs) =
     and_then (verify_trace_result sources emitted result) (\<lambda>_. verify_trace_results sources emitted rs)"

definition verify_service_trace ::
  "ServiceTrace \<Rightarrow> ServiceTraceReport \<Rightarrow> (unit, SchedulerError) outcome" where
  "verify_service_trace trace report =
     (let sources = bt_collect (map (\<lambda>q. (tq_id q, q)) (tc_requests trace));
          (replayed, p) = apply_events (sp_max_reserved_kv_bytes (tc_policy trace)) (tw_events report) default_replay
      in and_then replayed (\<lambda>_.
         if tp_running p \<noteq> None \<or> tp_reserved p \<noteq> 0 then Err (InvalidTrace ''trace ends with live state'')
         else and_then (verify_trace_results sources (tp_emitted p) (tw_results report)) (\<lambda>_.
           if sp_service_quantum_tokens (tc_policy trace) < st_max_cancellation_overshoot_tokens (tw_stats report)
           then Err (InvalidTrace ''cancellation bound exceeded'') else Ok ())))"

section \<open>The whole run\<close>

definition run_service_trace_json ::
  "('j \<Rightarrow> ServiceTrace + string) \<Rightarrow> ('j \<Rightarrow> string) \<Rightarrow> nat \<Rightarrow> 'j
    \<Rightarrow> (ServiceTraceReport, SchedulerError) outcome option" where
  "run_service_trace_json parse digest fuel bytes =
     (case and_then (decode_service_trace parse bytes) (\<lambda>trace.
           and_then (order_service_trace trace) (\<lambda>(ordered, sources).
           and_then (scheduler_new (tc_policy trace)) (\<lambda>s. Ok (trace, ordered, sources, s)))) of
        Err x \<Rightarrow> Some (Err x)
      | Panic \<Rightarrow> Some Panic
      | Ok (trace, ordered, sources, s) \<Rightarrow>
          map_option (\<lambda>(r, e).
            and_then r (\<lambda>_.
            let report = \<lparr>tw_schema_version = 1, tw_fixture_sha256 = digest bytes, tw_events = te_events e,
                          tw_results = service_trace_results sources (te_outputs e) (te_scheduler e),
                          tw_stats = cs_stats (te_scheduler e), tw_oracle_verified = False\<rparr>
            in and_then (verify_service_trace trace report) (\<lambda>_. Ok (report\<lparr>tw_oracle_verified := True\<rparr>))))
            (execute_service_trace fuel trace s ordered sources))"

end
