(* ===== verification/Trace_Run.thy ===== *)
theory Trace_Run
  imports Scheduler_Calls Service_Trace
begin

text \<open>
  The run of a service trace. \<open>run_ok\<close> is the invariant between two turns of the loop: the
  scheduler is in a good state and idle, it knows exactly the requests that have arrived,
  and the output of each is the prefix of its isolated stream that it has emitted.
  \<open>turn_measure\<close> falls with every turn that continues, so the loop ends, and the only
  error it can end with is an overflow of the accounting.
\<close>

section \<open>The invariant\<close>

definition transcripts :: "trace_sources \<Rightarrow> trace_outputs \<Rightarrow> ContinuousScheduler \<Rightarrow> bool" where
  "transcripts sources outputs s \<longleftrightarrow>
     (\<forall>i r. bt_get (cs_requests s) i = Some r \<longrightarrow>
        (\<exists>q. bt_get sources i = Some q \<and> rs_spec r = tq_spec q \<and>
           unat (rs_emitted_tokens r) \<le> length (tq_isolated_tokens q) \<and>
           bt_get outputs i = Some (take (unat (rs_emitted_tokens r)) (tq_isolated_tokens q))))"

lemma transcripts_same_output:
  assumes "transcripts sources outputs s" and "same_output s t"
  shows "transcripts sources outputs t"
  unfolding transcripts_def
proof (intro allI impI)
  fix i q
  assume q: "bt_get (cs_requests t) i = Some q"
  obtain r where r: "bt_get (cs_requests s) i = Some r" "rs_spec q = rs_spec r" "rs_emitted_tokens q = rs_emitted_tokens r"
    by (rule same_outputD [OF assms(2) q])
  then show "\<exists>p. bt_get sources i = Some p \<and> rs_spec q = tq_spec p \<and>
           unat (rs_emitted_tokens q) \<le> length (tq_isolated_tokens p) \<and>
           bt_get outputs i = Some (take (unat (rs_emitted_tokens q)) (tq_isolated_tokens p))"
    using assms(1) by (simp add: transcripts_def)
qed

definition trace_ordered :: "ServiceTrace \<Rightarrow> ServiceTraceRequest list \<Rightarrow> trace_sources \<Rightarrow> bool" where
  "trace_ordered trace ordered sources \<longleftrightarrow>
     distinct (map tq_id ordered) \<and> bt_ok sources \<and> mset ordered = mset (tc_requests trace) \<and>
     (\<forall>q. q \<in> set ordered \<longleftrightarrow> bt_get sources (tq_id q) = Some q) \<and>
     (\<forall>i q. bt_get sources i = Some q \<longrightarrow> tq_id q = i)"

definition run_ok :: "ServiceTrace \<Rightarrow> ServiceTraceRequest list \<Rightarrow> trace_sources \<Rightarrow> ServiceTraceExecution \<Rightarrow> bool" where
  "run_ok trace ordered sources e \<longleftrightarrow>
     sched_ok (te_scheduler e) \<and> cs_policy (te_scheduler e) = tc_policy trace \<and>
     te_next e \<le> length ordered \<and>
     dom (bt_get (cs_requests (te_scheduler e))) = tq_id ` set (take (te_next e) ordered) \<and>
     dom (bt_get (te_outputs e)) = tq_id ` set (take (te_next e) ordered) \<and>
     transcripts sources (te_outputs e) (te_scheduler e)"

definition run_idle :: "ServiceTraceExecution \<Rightarrow> bool" where
  "run_idle e \<longleftrightarrow> cs_running (te_scheduler e) = []"

lemma run_okD:
  assumes "run_ok trace ordered sources e"
  shows "sched_ok (te_scheduler e)" "cs_policy (te_scheduler e) = tc_policy trace" "te_next e \<le> length ordered"
    "dom (bt_get (cs_requests (te_scheduler e))) = tq_id ` set (take (te_next e) ordered)"
    "transcripts sources (te_outputs e) (te_scheduler e)"
    "dom (bt_get (te_outputs e)) = tq_id ` set (take (te_next e) ordered)"
  using assms by (auto simp: run_ok_def)

lemma run_ok_same_output:
  assumes "run_ok trace ordered sources e" and "sched_ok t" and "cs_policy t = cs_policy (te_scheduler e)"
    and "same_output (te_scheduler e) t"
    and "te_scheduler e' = t" "te_next e' = te_next e" "te_outputs e' = te_outputs e"
  shows "run_ok trace ordered sources e'"
  using assms transcripts_same_output [OF run_okD(5) [OF assms(1)] assms(4)]
  by (simp add: run_ok_def same_output_def)

section \<open>Ordering\<close>

lemma order_service_trace_Ok:
  assumes "order_service_trace trace = Ok (ordered, sources)"
  shows "trace_ordered trace ordered sources"
proof -
  have o: "ordered = sort_by compare_arrivals (tc_requests trace)"
    and s: "sources = bt_collect (map (\<lambda>q. (tq_id q, q)) ordered)" and len: "length sources = length ordered"
    using assms by (auto simp: order_service_trace_def Let_def split: if_splits)
  have ok: "bt_ok sources" by (simp add: s)
  have keys: "fst ` set sources = tq_id ` set ordered"
  proof -
    have "fst ` set (fold (\<lambda>e m. bt_insert (fst e) (snd e) m) es m) = fst ` set es \<union> fst ` set m" for es :: "(RequestId \<times> ServiceTraceRequest) list" and m
      by (induction es arbitrary: m) (auto simp: set_keys_bt_insert)
    then show ?thesis by (simp add: s bt_collect_def image_image)
  qed
  have "card (tq_id ` set ordered) = length ordered"
    using distinct_card [OF bt_distinct [OF ok]] keys len by simp
  then have d: "distinct (map tq_id ordered)" by (intro card_distinct) simp
  have "distinct (map fst (rev (map (\<lambda>q. (tq_id q, q)) ordered)))"
    using d by (simp add: rev_map [symmetric] comp_def)
  then have get: "bt_get sources i = Some q \<longleftrightarrow> (i, q) \<in> (\<lambda>q. (tq_id q, q)) ` set ordered" for i q
    unfolding s bt_get_collect by (subst map_of_eq_Some_iff) auto
  show ?thesis
    unfolding trace_ordered_def using d ok get by (auto simp: o)
qed

section \<open>Arrivals\<close>

definition arrival_cost :: "ServiceTraceRequest \<Rightarrow> nat" where
  "arrival_cost q = unat (sx_prompt_tokens (tq_spec q)) + unat (sx_max_output_tokens (tq_spec q)) + 2"

definition pending :: "ServiceTraceRequest list \<Rightarrow> ServiceTraceExecution \<Rightarrow> nat" where
  "pending ordered e = (\<Sum>q\<leftarrow>drop (te_next e) ordered. arrival_cost q)"

lemma admit_new_run:
  assumes ok: "sched_ok s" and new: "bt_get (cs_requests s) (sx_id sx) = None" and "sx_arrival_ns sx \<le> now"
    and a: "admit sx now s = (r, t)" and n: "r \<noteq> Err AccountingOverflow"
  obtains outcome x where "r = Ok outcome" and "sched_ok t" and "cs_policy t = cs_policy s" and "cs_running t = cs_running s"
    and "bt_get (cs_requests t) = (bt_get (cs_requests s))(sx_id sx \<mapsto> x)" and "rs_spec x = sx" and "rs_emitted_tokens x = 0"
    and "load t \<le> load s + unat (sx_prompt_tokens sx) + unat (sx_max_output_tokens sx) + 1"
proof -
  have okt: "sched_ok t" using admit_ok [OF ok a n] by simp
  have load: "load t = load s + load_weight x" if "cs_requests t = bt_insert (sx_id sx) x (cs_requests s)" for x
    unfolding load_def that by (rule bt.total_insert_new [OF sched_okD(2) [OF ok] new])
  from a n show thesis
  proof (cases rule: admit_cases)
    case (refused reason m)
    have "load_weight (new_request s sx Rejected 0 0) = 0" by (simp add: load_weight_def owed_def active_weight_def new_request_def)
    then show thesis
      using refused okt load [OF refused(5)] by (intro that [of _ "new_request s sx Rejected 0 0"]) (simp_all add: new_request_def)
  next
    case (admitted b m p)
    have "load_weight (new_request s sx Queued b p) \<le> unat (sx_prompt_tokens sx) + unat (sx_max_output_tokens sx) + 1"
      using checked_sub_unat [OF admitted(5)] by (simp add: load_weight_def owed_def active_weight_def new_request_def)
    then show thesis
      using admitted okt load [OF admitted(6)] by (intro that [of _ "new_request s sx Queued b p"]) (simp_all add: new_request_def)
  qed (use assms in \<open>simp_all add: bt_contains_def\<close>)
qed

lemma admit_arrivals_run:
  assumes "trace_ordered trace ordered sources" and "run_ok trace ordered sources e" and "run_idle e"
    and "admit_arrivals (drop (te_next e) ordered) e = (r, e')" and "r \<noteq> Err AccountingOverflow"
  shows "r = Ok () \<and> run_ok trace ordered sources e' \<and> run_idle e' \<and> te_now e' = te_now e \<and> te_next e \<le> te_next e' \<and>
    (te_next e' < length ordered \<longrightarrow> te_now e < sx_arrival_ns (tq_spec (ordered ! te_next e'))) \<and>
    load (te_scheduler e') + pending ordered e' + (te_next e' - te_next e) \<le> load (te_scheduler e) + pending ordered e"
  using assms(2-5)
proof (induction "length ordered - te_next e" arbitrary: e)
  case 0
  then show ?case by simp
next
  case (Suc k)
  let ?q = "ordered ! te_next e" and ?s = "te_scheduler e"
  have lt: "te_next e < length ordered" using Suc.hyps(2) by simp
  have qs: "drop (te_next e) ordered = ?q # drop (te_next e + 1) ordered" using lt by (simp add: Cons_nth_drop_Suc)
  note R = run_okD [OF Suc.prems(1)]
  show ?case
  proof (cases "te_now e < sx_arrival_ns (tq_spec ?q)")
    case True
    then show ?thesis using Suc.prems qs by simp
  next
    case False
    have new: "tq_id ?q \<notin> tq_id ` set (take (te_next e) ordered)"
    proof
      assume "tq_id ?q \<in> tq_id ` set (take (te_next e) ordered)"
      then obtain j where "j < te_next e" "tq_id (ordered ! j) = tq_id ?q" using lt by (auto simp: in_set_conv_nth)
      then show False
        using assms(1) lt nth_eq_iff_index_eq [of "map tq_id ordered" j "te_next e"] by (simp add: trace_ordered_def)
    qed
    have fresh: "bt_get (cs_requests ?s) (tq_id ?q) = None" "bt_get (te_outputs e) (tq_id ?q) = None"
      using new R(4,6) by (metis domIff)+
    obtain ra t where a: "admit (tq_spec ?q) (te_now e) ?s = (ra, t)" by fastforce
    have noflow: "ra \<noteq> Err AccountingOverflow" using Suc.prems(3,4) False a by (auto simp: qs)
    have due: "sx_arrival_ns (tq_spec ?q) \<le> te_now e" using False by simp
    obtain outcome x where x: "ra = Ok outcome" "sched_ok t" "cs_policy t = cs_policy ?s" "cs_running t = cs_running ?s"
      "bt_get (cs_requests t) = (bt_get (cs_requests ?s))(tq_id ?q \<mapsto> x)" "rs_spec x = tq_spec ?q" "rs_emitted_tokens x = 0"
      "load t \<le> load ?s + unat (sx_prompt_tokens (tq_spec ?q)) + unat (sx_max_output_tokens (tq_spec ?q)) + 1"
      by (rule admit_new_run [OF R(1) fresh(1) due a noflow])
    define e1 where "e1 = (e\<lparr>te_scheduler := t\<rparr>)\<lparr>te_events := te_events e @ [AdmissionEvent (te_now e) (tq_id ?q) outcome],
              te_outputs := bt_insert (tq_id ?q) [] (te_outputs e), te_next := te_next e + 1\<rparr>"
    have e1: "te_scheduler e1 = t" "te_outputs e1 = bt_insert (tq_id ?q) [] (te_outputs e)" "te_next e1 = te_next e + 1"
      "te_now e1 = te_now e"
      by (simp_all add: e1_def)
    have run: "admit_arrivals (drop (te_next e1) ordered) e1 = (r, e')"
      using Suc.prems(3) False a x(1) fresh(2) by (simp add: qs e1_def)
    have src: "bt_get sources (tq_id ?q) = Some ?q" using assms(1) lt by (auto simp: trace_ordered_def)
    have tr: "transcripts sources (te_outputs e1) t"
      using R(5) src x(5-7) by (auto simp: transcripts_def e1)
    have known: "tq_id ` set (take (te_next e1) ordered) = insert (tq_id ?q) (tq_id ` set (take (te_next e) ordered))"
      using lt by (simp add: e1 take_Suc_conv_app_nth)
    have ok1: "run_ok trace ordered sources e1"
      unfolding run_ok_def known using R(2,4,6) x(2,3,5) lt tr by (simp add: e1)
    have idle1: "run_idle e1" using Suc.prems(2) x(4) by (simp add: run_idle_def e1)
    have "k = length ordered - te_next e1" using Suc.hyps(2) by (simp add: e1)
    note ih = Suc.hyps(1) [OF this ok1 idle1 run Suc.prems(4)]
    have "pending ordered e = arrival_cost ?q + pending ordered e1" unfolding pending_def qs by (simp add: e1)
    then have "load t + pending ordered e1 + 1 \<le> load ?s + pending ordered e"
      using x(8) by (simp add: arrival_cost_def)
    then show ?thesis using ih by (auto simp: e1)
  qed
qed

section \<open>Cancellations\<close>

lemma cancel_known: "bt_get (cs_requests s) i = Some r \<Longrightarrow> \<exists>status t. cancel i s = (Ok status, t)"
  by (auto simp: cancel_def)

lemma cancel_one_run:
  assumes "run_ok trace ordered sources e" and "cancel_one through q e = (r, e')"
  shows "r = Ok () \<and> run_ok trace ordered sources e' \<and> te_next e' = te_next e \<and> te_now e' = te_now e \<and>
    te_outputs e' = te_outputs e \<and> cs_running (te_scheduler e') = cs_running (te_scheduler e) \<and>
    same_output (te_scheduler e) (te_scheduler e') \<and> load (te_scheduler e') \<le> load (te_scheduler e)"
proof (cases "te_scheduler e' = te_scheduler e \<and> r = Ok () \<and> te_next e' = te_next e \<and> te_outputs e' = te_outputs e \<and> te_now e' = te_now e")
  case True
  then show ?thesis using assms(1) by (simp add: run_ok_def)
next
  case False
  note R = run_okD [OF assms(1)]
  let ?s = "te_scheduler e"
  obtain x where x: "bt_get (cs_requests ?s) (tq_id q) = Some x"
    using False assms(2) by (auto simp: cancel_one_def status_of_def split: option.splits if_splits)
  obtain status t where c: "cancel (tq_id q) ?s = (Ok status, t)" using cancel_known [OF x] by blast
  have e': "r = Ok ()" "te_scheduler e' = t" "te_next e' = te_next e" "te_outputs e' = te_outputs e" "te_now e' = te_now e"
    using False assms(2) c by (auto simp: cancel_one_def split: option.splits if_splits)
  note S = cancel_same_output [OF c]
  have okt: "sched_ok t" using cancel_ok [OF R(1) c] by simp
  have "load t \<le> load ?s"
    by (rule step_load [OF R(1) step_cancel [OF c]]) (use S in \<open>simp add: same_output_def\<close>)
  moreover have "run_ok trace ordered sources e'"
    by (rule run_ok_same_output [OF assms(1) okt _ _ e'(2-4)]) (use S in auto)
  ultimately show ?thesis using e' S by simp
qed

lemma cancel_sources_run:
  assumes "run_ok trace ordered sources e" and "cancel_sources through qs e = (r, e')"
  shows "r = Ok () \<and> run_ok trace ordered sources e' \<and> te_next e' = te_next e \<and> te_now e' = te_now e \<and>
    te_outputs e' = te_outputs e \<and> cs_running (te_scheduler e') = cs_running (te_scheduler e) \<and>
    same_output (te_scheduler e) (te_scheduler e') \<and> load (te_scheduler e') \<le> load (te_scheduler e)"
  using assms
proof (induction qs arbitrary: e)
  case (Cons q qs)
  obtain r1 e1 where one: "cancel_one through q e = (r1, e1)" by fastforce
  note O = cancel_one_run [OF Cons.prems(1) one]
  then have rest: "cancel_sources through qs e1 = (r, e')" using Cons.prems(2) one by simp
  note I = Cons.IH [OF conjunct1 [OF conjunct2 [OF O]] rest]
  have "same_output (te_scheduler e) (te_scheduler e')" using same_output_trans O I by blast
  then show ?case using O I by simp
qed simp

section \<open>One quantum\<close>

lemma transcripts_complete:
  assumes t: "transcripts sources outputs s" and src: "bt_get sources i = Some q" and req: "bt_get (cs_requests s) i = Some r"
    and new: "bt_get (cs_requests u) = (bt_get (cs_requests s))(i \<mapsto> x)" and "rs_spec x = rs_spec r"
    and "unat (rs_emitted_tokens x) \<le> length (tq_isolated_tokens q)"
    and "bt_get outputs' = (bt_get outputs)(i \<mapsto> take (unat (rs_emitted_tokens x)) (tq_isolated_tokens q))"
  shows "transcripts sources outputs' u"
proof -
  have "rs_spec r = tq_spec q" using t src req by (fastforce simp: transcripts_def)
  then show ?thesis using assms by (auto simp: transcripts_def)
qed

text \<open>The number of tokens a quantum covers, and that it moves the run on.\<close>

lemma quantum_progress:
  assumes "dp_kind d = Decode" and "start \<le> len" and "k = min (unat (dp_token_budget d)) (len - start)"
    and "0 < unat (dp_token_budget d)"
    and "apply_quantum_state d (of_nat k) (of_nat k) ready (start + k = len) (r, st) = (Ok (), q, st')"
  shows "0 < k \<or> is_terminal (rs_status q)"
proof (cases "k = 0")
  case True
  then have "start + k = len" using assms(2-4) by auto
  then show ?thesis using apply_quantum_state_Ok(2) [OF assms(5)] assms(1) by (auto simp: status_after_def)
qed simp

lemma complete_trace_quantum_run:
  assumes ord: "trace_ordered trace ordered sources" and ok: "run_ok trace ordered sources e"
    and run: "bt_get (cs_running (te_scheduler e)) (dp_request_id d) = Some d"
    and only: "\<forall>i y. bt_get (cs_running (te_scheduler e)) i = Some y \<longrightarrow> y = d"
    and c: "complete_trace_quantum trace sources d e = (r, e')" and n: "r \<noteq> Err AccountingOverflow"
  shows "\<exists>now. r = Ok now \<and> run_ok trace ordered sources e' \<and> run_idle e' \<and> te_next e' = te_next e \<and>
    load (te_scheduler e') < load (te_scheduler e)"
proof -
  let ?i = "dp_request_id d"
  note R = run_okD [OF ok]
  obtain x where x: "bt_get (cs_requests (te_scheduler e)) ?i = Some x" using running_request [OF R(1) run] by blast
  obtain q where q: "bt_get sources ?i = Some q" "rs_spec x = tq_spec q"
    "unat (rs_emitted_tokens x) \<le> length (tq_isolated_tokens q)"
    "bt_get (te_outputs e) ?i = Some (take (unat (rs_emitted_tokens x)) (tq_isolated_tokens q))"
    using R(5) x by (auto simp: transcripts_def)
  let ?len = "length (tq_isolated_tokens q)"
  define start where "start = (if dp_kind d = Prefill then 0 else unat (rs_emitted_tokens x))"
  define k where "k = (if dp_kind d = Prefill then unat (dp_token_budget d) else min (unat (dp_token_budget d)) (?len - start))"
  have kb: "k \<le> unat (dp_token_budget d)" by (simp add: k_def)
  then have k32: "k < 2 ^ 32" using unat_lt_2p [of "dp_token_budget d"] by simp
  define e1 where "e1 = e\<lparr>te_events := te_events e @ [DispatchEvent (te_now e) ?i (dp_token_budget d) (dp_kind d)]\<rparr>"
  have ok1: "run_ok trace ordered sources e1" using ok by (simp add: run_ok_def e1_def)
  have bounds: "trace_quantum_bounds trace (te_scheduler e1) sources ?i (dp_token_budget d) (te_now e1) =
      and_then (trace_end (tc_token_duration_ns trace) k (te_now e1)) (\<lambda>end_ns. Ok (q, start, k, end_ns))"
    using run x q(1) by (simp add: trace_quantum_bounds_def trace_is_prefill_def trace_start_def trace_emitted_start_def
        emitted_tokens_of_def trace_count_def trace_quantum_count_def e1_def start_def k_def Let_def)
  have te: "trace_end (tc_token_duration_ns trace) k (te_now e1) = Err AccountingOverflow \<or>
      (\<exists>end_ns. trace_end (tc_token_duration_ns trace) k (te_now e1) = Ok end_ns)"
    by (auto simp: trace_end_def ok_or_def split: option.splits)
  obtain end_ns where en: "trace_end (tc_token_duration_ns trace) k (te_now e1) = Ok end_ns"
    using te c n unfolding complete_trace_quantum_def Let_def e1_def [symmetric] bounds by auto
  obtain rc e2 where can: "apply_cancellations sources end_ns e1 = (rc, e2)" by fastforce
  note C = cancel_sources_run [OF ok1 can [unfolded apply_cancellations_def]]
  have s2: "rc = Ok ()" "run_ok trace ordered sources e2" "te_next e2 = te_next e" "te_outputs e2 = te_outputs e"
    "cs_running (te_scheduler e2) = cs_running (te_scheduler e)" "same_output (te_scheduler e) (te_scheduler e2)"
    "load (te_scheduler e2) \<le> load (te_scheduler e)"
    using C by (simp_all add: e1_def)
  note R2 = run_okD [OF s2(2)]
  have run2: "bt_get (cs_running (te_scheduler e2)) ?i = Some d" using run s2(5) by simp
  obtain y where y: "bt_get (cs_requests (te_scheduler e2)) ?i = Some y"
    using running_request [OF R2(1) run2] by blast
  have same: "rs_spec y = rs_spec x" "rs_emitted_tokens y = rs_emitted_tokens x"
    by (rule same_outputD [OF s2(6) y], use x in simp)+
  define emitted :: u32 where "emitted = (if dp_kind d = Prefill then 0 else of_nat k)"
  define progress where "progress = (if dp_kind d = Prefill then dp_token_budget d else emitted)"
  define outputs where "outputs = (if dp_kind d = Prefill then te_outputs e
    else bt_insert ?i (take (unat (rs_emitted_tokens x)) (tq_isolated_tokens q) @ take k (drop start (tq_isolated_tokens q))) (te_outputs e))"
  have uk: "unat (of_nat k :: u32) = k" using k32 by (simp add: unsigned_of_nat take_bit_nat_eq_self)
  have inside: "start + k \<le> ?len" if "dp_kind d = Decode" using that q(3) by (auto simp: k_def start_def)
  have app: "append_trace_output d q start k (te_outputs e2) = Ok outputs"
    using q(4) inside s2(4) by (cases "dp_kind d") (simp_all add: append_trace_output_def outputs_def slice_def)
  have em: "trace_emitted_tokens d k = Ok emitted"
    using k32 by (simp add: trace_emitted_tokens_def emitted_def)
  have pr: "trace_progress_tokens d emitted = progress"
    by (simp add: trace_progress_tokens_def progress_def)
  have v: "quantum_valid d emitted progress"
    using kb uk by (cases "dp_kind d") (simp_all add: quantum_valid_def emitted_def progress_def word_le_nat_alt)
  let ?ready = "trace_prefill_ready (te_scheduler e2) d" and ?eos = "trace_eos d start k ?len"
  obtain res t where cq: "complete_quantum_with_progress ?i emitted progress ?ready ?eos (te_scheduler e2) = (res, t)"
    by fastforce
  have whole: "complete_trace_quantum trace sources d e = try_st (res, (e2\<lparr>te_outputs := outputs\<rparr>)\<lparr>te_scheduler := t\<rparr>) (\<lambda>completion e4.
      (Ok end_ns, e4\<lparr>te_events := te_events e4 @ [CompleteEvent end_ns (qc_request_id completion) (qc_emitted_tokens completion)
         (qc_status completion) (cs_reserved_kv_bytes (te_scheduler e4)) (dp_kind d)]\<rparr>))"
    unfolding complete_trace_quantum_def Let_def e1_def [symmetric]
    using bounds en can s2(1) app em pr cq by simp
  have "res \<noteq> Err AccountingOverflow" using c n whole by auto
  then obtain z st where z: "res = Ok \<lparr>qc_request_id = ?i, qc_emitted_tokens = emitted, qc_status = rs_status z\<rparr>"
    "apply_quantum_state d emitted progress ?ready ?eos (y, cs_stats (te_scheduler e2)) = (Ok (), z, st)"
    "cs_requests t = bt_insert ?i (settle z) (cs_requests (te_scheduler e2))"
    "cs_running t = bt_remove ?i (cs_running (te_scheduler e2))" "sched_ok t" "cs_policy t = cs_policy (te_scheduler e2)"
    by (rule complete_valid_run [OF R2(1) run2 v y cq])
  have e': "r = Ok end_ns" "te_scheduler e' = t" "te_outputs e' = outputs" "te_next e' = te_next e"
    using c whole z(1) s2(3) by auto
  note E = quantum_state_emitted [OF z(2) v]
  have le: "unat (rs_emitted_tokens (settle z)) \<le> ?len"
    using E same q(3) inside uk by (cases "dp_kind d") (auto simp: emitted_def start_def)
  have out: "bt_get outputs = (bt_get (te_outputs e2))(?i \<mapsto> take (unat (rs_emitted_tokens (settle z))) (tq_isolated_tokens q))"
  proof (cases "dp_kind d")
    case Prefill
    then have "rs_emitted_tokens z = rs_emitted_tokens x" using E same by (simp add: emitted_def word_unat_eq_iff)
    then show ?thesis using Prefill q(4) s2(4) by (simp add: outputs_def fun_upd_idem)
  next
    case Decode
    then have "unat (rs_emitted_tokens z) = start + k" using E same uk by (simp add: emitted_def start_def)
    then show ?thesis using Decode s2(4) by (simp add: outputs_def start_def take_add)
  qed
  have tr: "transcripts sources outputs t"
    by (rule transcripts_complete [OF R2(5) q(1) y, of t "settle z" outputs])
       (use z(3) E le out s2(4) in simp_all)
  have doms: "dom (bt_get (cs_requests t)) = dom (bt_get (cs_requests (te_scheduler e2)))"
    "dom (bt_get outputs) = dom (bt_get (te_outputs e2))"
    using z(3) y out q(4) s2(4) by auto
  have ok': "run_ok trace ordered sources e'"
    using R2(2,3,4,6) z(5,6) tr doms e' s2(3) by (simp add: run_ok_def)
  have "bt_get (cs_running t) j = None" for j
    using z(4) only s2(5) quantum_tokens_fit(1) [OF R(1), of j] by (cases "bt_get (cs_running (te_scheduler e)) j") auto
  then have idle: "run_idle e'" using idle_iff [OF z(5)] e'(2) by (simp add: run_idle_def)
  have "0 < unat progress \<or> is_terminal (rs_status z)"
  proof (cases "dp_kind d")
    case Prefill
    then show ?thesis using quantum_tokens_fit(2) [OF R(1) run] by (simp add: progress_def)
  next
    case Decode
    have "0 < k \<or> is_terminal (rs_status z)"
      by (rule quantum_progress [OF Decode _ _ quantum_tokens_fit(2) [OF R(1) run], of start ?len])
         (use Decode q(3) z(2) in \<open>simp_all add: start_def k_def emitted_def progress_def trace_eos_def\<close>)
    then show ?thesis using Decode uk by (simp add: progress_def emitted_def)
  qed
  then have "load t < load (te_scheduler e2)"
    using complete_load [OF R2(1) cq [unfolded z(1)]] by simp
  then show ?thesis using e' ok' idle s2(7) by simp
qed

section \<open>One turn\<close>

definition turn_measure :: "ServiceTraceRequest list \<Rightarrow> ServiceTraceExecution \<Rightarrow> nat" where
  "turn_measure ordered e = 2 * (load (te_scheduler e) + pending ordered e) +
     (if te_next e < length ordered \<and> sx_arrival_ns (tq_spec (ordered ! te_next e)) \<le> te_now e then 0 else 1)"

lemma dispatch_one_None:
  assumes ok: "sched_ok s" and d: "dispatch_one now s = (Ok None, t)" and r: "bt_get (cs_requests t) i = Some r"
  shows "rs_status r \<noteq> Queued"
proof -
  obtain ds where ds: "ds = []" and b: "dispatch_batch now 1 s = (Ok ds, t)"
    using d by (cases "dispatch_batch now 1 s"; cases "fst (dispatch_batch now 1 s)")
      (auto simp: dispatch_one_def split: list.splits)
  obtain e where e: "expire_deadlines now s = (Ok (), e)" "sched_ok e" "cs_policy e = cs_policy s"
    "map dp_request_id ds = batch_ids now 1 e" "\<forall>d\<in>set ds. started e now d"
    "\<forall>d\<in>set ds. bt_get (cs_running t) (dp_request_id d) = Some d"
    "length ds \<le> unat (min 1 (sp_max_batch_requests (cs_policy s)))"
    "\<forall>i. bt_get (cs_requests e) i = (case bt_get (cs_requests s) i of None \<Rightarrow> None
           | Some r \<Rightarrow> Some (if deadline_passed now r then expire_record r else r))"
    "\<forall>i. bt_get (cs_requests t) i = (if i \<in> dp_request_id ` set ds
           then map_option (\<lambda>r. r\<lparr>rs_status := Running\<rparr>) (bt_get (cs_requests e) i) else bt_get (cs_requests e) i)"
    "cs_expired t = cs_expired e" "cs_reserved_kv_bytes t = cs_reserved_kv_bytes e"
    by (rule dispatch_batch_Ok [OF ok b])
  have pos: "0 < unat (min 1 (sp_max_batch_requests (cs_policy e)))"
    using sched_okD(1) [OF e(2)] by (simp add: policy_ok_def unat_gt_0_iff unat_min)
  have "sort_by (compare_requests now (cs_policy e)) (queued_requests e) = []"
    using e(4) pos ds by (simp add: batch_ids_def select_batch_ids_def)
  then have "queued_requests e = []" by (metis length_sort_by length_0_conv)
  moreover have "bt_get (cs_requests e) i = Some r" using r e(9) ds by simp
  then have "r \<in> set (bt_values (cs_requests e))" using bt_in_values [OF sched_okD(2) [OF e(2)]] by blast
  ultimately show ?thesis by (auto simp: queued_requests_def filter_empty_conv)
qed

text \<open>What holds when the loop has nothing left to do.\<close>

definition run_done :: "ServiceTraceRequest list \<Rightarrow> ServiceTraceExecution \<Rightarrow> bool" where
  "run_done ordered e \<longleftrightarrow> te_next e = length ordered \<and>
     (\<forall>i r. bt_get (cs_requests (te_scheduler e)) i = Some r \<longrightarrow> is_terminal (rs_status r))"

lemma idle_not_running:
  "sched_ok s \<Longrightarrow> cs_running s = [] \<Longrightarrow> bt_get (cs_requests s) i = Some r \<Longrightarrow> rs_status r \<noteq> Running"
  using sched_okD(5) [of s i r] by (auto simp: request_ok_def phase_ok_def)

lemma trace_turn_run:
  assumes ord: "trace_ordered trace ordered sources" and ok: "run_ok trace ordered sources e" and idle: "run_idle e"
    and c: "trace_turn trace ordered sources e = (r, e')" and n: "r \<noteq> Err AccountingOverflow"
  shows "(r = Ok Continue \<and> turn_measure ordered e' < turn_measure ordered e \<or> r = Ok Stop \<and> run_done ordered e') \<and>
    run_ok trace ordered sources e' \<and> run_idle e'"
proof -
  let ?L = "\<lambda>e. load (te_scheduler e) + pending ordered e"
  obtain ra e1 where a: "admit_arrivals (drop (te_next e) ordered) e = (ra, e1)" by fastforce
  have na: "ra \<noteq> Err AccountingOverflow" using c n a by (auto simp: trace_turn_def admit_trace_arrivals_def)
  note A = admit_arrivals_run [OF ord ok idle a na]
  then have ok1: "run_ok trace ordered sources e1" and idle1: "run_idle e1" by auto
  obtain rb e2 where b: "cancel_sources (te_now e1) (bt_values sources) e1 = (rb, e2)" by fastforce
  note B = cancel_sources_run [OF ok1 b]
  then have ok2: "run_ok trace ordered sources e2" and idle2: "cs_running (te_scheduler e2) = []"
    using idle1 by (simp_all add: run_idle_def)
  note R2 = run_okD [OF ok2]
  obtain rd t where d: "dispatch_one (te_now e2) (te_scheduler e2) = (rd, t)" by fastforce
  define e4 where "e4 = record_trace_expirations (trace_expired_requests sources (te_scheduler e2) (te_now e2)) (e2\<lparr>te_scheduler := t\<rparr>)"
  have e4: "te_scheduler e4 = t" "te_next e4 = te_next e2" "te_now e4 = te_now e2" "te_outputs e4 = te_outputs e2"
    by (simp_all add: e4_def record_trace_expirations_def)
  have turn: "trace_turn trace ordered sources e = try_st (rd, e2\<lparr>te_scheduler := t\<rparr>) (\<lambda>dispatched _. case dispatched of
       Some d \<Rightarrow> try_st (complete_trace_quantum trace sources d e4) (\<lambda>now e5. (Ok Continue, e5\<lparr>te_now := now\<rparr>))
     | None \<Rightarrow> if te_next e4 < length ordered
         then (Ok Continue, e4\<lparr>te_now := max (te_now e4) (sx_arrival_ns (tq_spec (ordered ! te_next e4)))\<rparr>)
         else (Ok Stop, e4))"
  proof -
    have h: "admit_trace_arrivals ordered e = (Ok (), e1)" "apply_cancellations sources (te_now e1) e1 = (Ok (), e2)"
      using a b A B by (simp_all add: admit_trace_arrivals_def apply_cancellations_def)
    show ?thesis
      unfolding trace_turn_def h try_st.simps Let_def d prod.case e4_def by (cases rd) (simp_all only: try_st.simps)
  qed
  have nd: "rd \<noteq> Err AccountingOverflow" using turn c n by auto
  have n2: "te_next e2 = te_next e1" "pending ordered e2 = pending ordered e1" using B by (simp_all add: pending_def)
  have L2: "?L e2 + (te_next e1 - te_next e) \<le> ?L e"
  proof -
    have "load (te_scheduler e1) + pending ordered e1 + (te_next e1 - te_next e) \<le> ?L e"
      "load (te_scheduler e2) \<le> load (te_scheduler e1)" using A B by blast+
    then show ?thesis unfolding n2(2) by linarith
  qed
  have low: "2 * ?L e2 < turn_measure ordered e"
  proof (cases "te_next e1 = te_next e")
    case True
    then have "turn_measure ordered e = 2 * ?L e + 1" using A by (auto simp: turn_measure_def)
    then show ?thesis using L2 by simp
  next
    case False
    moreover have "te_next e \<le> te_next e1" using A by blast
    ultimately have "?L e2 < ?L e" using L2 by linarith
    then show ?thesis by (simp add: turn_measure_def)
  qed
  from R2(1) idle2 d show ?thesis
  proof (cases rule: dispatch_one_run)
    case overflow
    then show ?thesis using nd by simp
  next
    case none
    have ok4: "run_ok trace ordered sources e4"
      by (rule run_ok_same_output [OF ok2 none(2) none(6) none(4) e4(1,2,4)])
    have L4: "?L e4 \<le> ?L e2" using none(5) by (simp add: e4 pending_def)
    show ?thesis
    proof (cases "te_next e4 < length ordered")
      case True
      have "(r, e') = (Ok Continue, e4\<lparr>te_now := max (te_now e4) (sx_arrival_ns (tq_spec (ordered ! te_next e4)))\<rparr>)"
        unfolding c [symmetric] turn none(1) by (simp only: try_st.simps option.case True if_True)
      then have r: "r = Ok Continue" "e' = e4\<lparr>te_now := max (te_now e4) (sx_arrival_ns (tq_spec (ordered ! te_next e4)))\<rparr>"
        by simp_all
      have "turn_measure ordered e' = 2 * ?L e4" using True by (simp add: turn_measure_def r(2) pending_def)
      then show ?thesis
        using r(1) ok4 none(3) L4 low by (simp add: r(2) run_ok_def run_idle_def e4(1))
    next
      case False
      have "(r, e') = (Ok Stop, e4)"
        unfolding c [symmetric] turn none(1) by (simp only: try_st.simps option.case False if_False)
      then have r: "r = Ok Stop" "e' = e4" by simp_all
      have "is_terminal (rs_status x)" if "bt_get (cs_requests t) i = Some x" for i x
        using dispatch_one_None [OF R2(1) d [unfolded none(1)] that] idle_not_running [OF none(2,3) that]
        by (cases "rs_status x") auto
      then have "run_done ordered e4" using False R2(3) by (simp add: run_done_def e4)
      then show ?thesis using r ok4 none(3) by (simp add: run_idle_def e4(1))
    qed
  next
    case (some x)
    have ok4: "run_ok trace ordered sources e4"
      by (rule run_ok_same_output [OF ok2 some(2) some(5) some(3) e4(1,2,4)])
    obtain rq e5 where q: "complete_trace_quantum trace sources x e4 = (rq, e5)" by fastforce
    have t: "(r, e') = try_st (rq, e5) (\<lambda>now e5. (Ok Continue, e5\<lparr>te_now := now\<rparr>))"
      unfolding c [symmetric] turn some(1) by (simp only: try_st.simps option.case q)
    have nq: "rq \<noteq> Err AccountingOverflow" using t n by auto
    note some4 = some(6,7) [folded e4(1)]
    obtain now where f: "rq = Ok now" "run_ok trace ordered sources e5" "run_idle e5" "te_next e5 = te_next e4"
      "load (te_scheduler e5) < load (te_scheduler e4)"
      using complete_trace_quantum_run [OF ord ok4 some4 q nq] by blast
    have r: "r = Ok Continue" "e' = e5\<lparr>te_now := now\<rparr>" using t f(1) by simp_all
    have "?L e5 < ?L e2" using f(4,5) some(4) by (simp add: e4 pending_def)
    then have "2 * ?L e5 + 1 < 2 * ?L e2" by simp
    also note low
    finally have "2 * ?L e5 + 1 < turn_measure ordered e" .
    moreover have "turn_measure ordered e' \<le> 2 * ?L e5 + 1" by (simp add: turn_measure_def r(2) pending_def)
    ultimately have "turn_measure ordered e' < turn_measure ordered e" by (rule le_less_trans [rotated])
    then show ?thesis using r f by (simp add: run_ok_def run_idle_def)
  qed
qed

section \<open>The loop ends\<close>

lemma trace_loop_run:
  assumes "trace_ordered trace ordered sources" and "run_ok trace ordered sources e" and "run_idle e"
    and "turn_measure ordered e < fuel"
  shows "\<exists>r e'. trace_loop fuel trace ordered sources e = Some (r, e') \<and>
    (r = Err AccountingOverflow \<or> r = Ok () \<and> run_ok trace ordered sources e' \<and> run_done ordered e')"
  using assms(2-4)
proof (induction fuel arbitrary: e)
  case (Suc fuel)
  show ?case
  proof (cases "te_next e < length ordered \<or> has_runnable_requests (te_scheduler e)")
    case True
    obtain r e1 where t: "trace_turn trace ordered sources e = (r, e1)" by fastforce
    show ?thesis
    proof (cases "r = Err AccountingOverflow")
      case True
      then show ?thesis using t \<open>te_next e < length ordered \<or> has_runnable_requests (te_scheduler e)\<close> by simp
    next
      case False
      note T = trace_turn_run [OF assms(1) Suc.prems(1,2) t False]
      then consider "r = Ok Stop" "run_done ordered e1" | "r = Ok Continue" "turn_measure ordered e1 < turn_measure ordered e"
        by auto
      then show ?thesis
      proof cases
        case 1
        then show ?thesis using T t True by simp
      next
        case 2
        then have "turn_measure ordered e1 < fuel" using Suc.prems(3) by simp
        from Suc.IH [OF _ _ this] T 2(1) t True show ?thesis by simp
      qed
    qed
  next
    case False
    have "is_terminal (rs_status x)" if "bt_get (cs_requests (te_scheduler e)) i = Some x" for i x
    proof -
      have "x \<in> set (bt_values (cs_requests (te_scheduler e)))"
        using that bt_in_values [OF sched_okD(2) [OF run_okD(1) [OF Suc.prems(1)]]] by blast
      then show ?thesis using False by (cases "rs_status x") (auto simp: has_runnable_requests_def)
    qed
    moreover have "te_next e = length ordered" using False run_okD(3) [OF Suc.prems(1)] by simp
    ultimately have "run_done ordered e" by (simp add: run_done_def)
    then show ?thesis using False Suc.prems(1) by simp
  qed
qed simp

definition start_execution :: "ContinuousScheduler \<Rightarrow> ServiceTraceRequest list \<Rightarrow> ServiceTraceExecution" where
  "start_execution s ordered =
     \<lparr>te_next = 0, te_now = (case ordered of [] \<Rightarrow> 0 | q # _ \<Rightarrow> sx_arrival_ns (tq_spec q)),
      te_scheduler = s, te_cancellations = [], te_outputs = [], te_events = []\<rparr>"

definition enough_fuel :: "ServiceTrace \<Rightarrow> nat" where
  "enough_fuel trace = 2 * (\<Sum>q\<leftarrow>tc_requests trace. arrival_cost q) + 2"

lemma execute_run:
  assumes ord: "order_service_trace trace = Ok (ordered, sources)" and new: "scheduler_new (tc_policy trace) = Ok s"
    and fuel: "enough_fuel trace \<le> fuel"
  obtains r e where "execute_service_trace fuel trace s ordered sources = Some (r, e)"
    and "r = Err AccountingOverflow \<or> r = Ok () \<and> run_ok trace ordered sources e \<and> run_done ordered e"
proof -
  note O = order_service_trace_Ok [OF ord]
  have s: "cs_requests s = []" "cs_running s = []" "cs_policy s = tc_policy trace"
    using new by (auto simp: scheduler_new_def and_then_eq_Ok policy_validate_Ok)
  have ok: "run_ok trace ordered sources (start_execution s ordered)" "run_idle (start_execution s ordered)"
    using scheduler_new_ok [OF new] s by (simp_all add: run_ok_def run_idle_def start_execution_def transcripts_def fun_eq_iff)
  have "mset (map arrival_cost ordered) = mset (map arrival_cost (tc_requests trace))"
    using O by (simp add: trace_ordered_def)
  then have sum: "(\<Sum>q\<leftarrow>ordered. arrival_cost q) = (\<Sum>q\<leftarrow>tc_requests trace. arrival_cost q)"
    by (metis sum_mset_sum_list)
  have "turn_measure ordered (start_execution s ordered) < fuel"
    using fuel s sum by (simp add: turn_measure_def start_execution_def pending_def load_def total_def bt_entries_def enough_fuel_def)
  from trace_loop_run [OF O ok this] show thesis
    using that by (auto simp: execute_service_trace_def start_execution_def)
qed

end
