(* ===== verification/Trace_Props.thy ===== *)
theory Trace_Props
  imports Scheduler_Demo Trace_Run
begin

text \<open>
  What the service trace establishes: the run ends and its transcripts are the isolated
  ones, the replay keeps the same KV ledger as the scheduler, and a report that verifies
  has the properties it is meant to have. Two results show what the verifier gets wrong.
\<close>

section \<open>The replay as a machine\<close>

definition replay_ok :: "TraceReplay \<Rightarrow> bool" where
  "replay_ok p \<longleftrightarrow> bt_ok (tp_reservations p) \<and> bt_ok (tp_emitted p) \<and>
     unat (tp_reserved p) = total unat (bt_entries (tp_reservations p))"

definition replay_step :: "u64 \<Rightarrow> TraceReplay \<Rightarrow> TraceReplay \<Rightarrow> bool" where
  "replay_step capacity p q \<longleftrightarrow> (\<exists>event. apply_event capacity event p = (Ok (), q))"

lemma release_ok:
  assumes "replay_ok p" and "bt_get (tp_reservations p) i = Some bytes"
  shows "replay_ok (p\<lparr>tp_reservations := bt_remove i (tp_reservations p), tp_reserved := tp_reserved p - bytes\<rparr>)"
proof -
  have ok: "bt_ok (tp_reservations p)" and sum: "unat (tp_reserved p) = total unat (bt_entries (tp_reservations p))"
    using assms(1) by (auto simp: replay_ok_def)
  note R = bt.total_remove [OF ok assms(2), of unat]
  have "bytes \<le> tp_reserved p" using sum R by (simp add: word_le_nat_alt)
  from unat_wrap_sub [OF this] show ?thesis using assms(1) sum R by (simp add: replay_ok_def)
qed

lemma replay_frame [simp]:
  "replay_ok (p\<lparr>tp_running := r\<rparr>) = replay_ok p"
  "bt_ok m \<Longrightarrow> replay_ok p \<Longrightarrow> replay_ok (p\<lparr>tp_emitted := m\<rparr>)"
  by (auto simp: replay_ok_def)

lemma replay_admit_ok: "replay_admit i bytes p = (Ok (), q) \<Longrightarrow> replay_ok p \<Longrightarrow> replay_ok q"
  using bt.total_insert_new [of "tp_reservations p" i unat bytes] checked_add_unat [of "tp_reserved p" bytes]
  by (cases "checked_add (tp_reserved p) bytes") (auto simp: replay_admit_def replay_ok_def bt_contains_def Let_def split: if_splits)

lemma replay_dispatch_ok: "replay_dispatch i budget kind quantum p = (Ok (), q) \<Longrightarrow> replay_ok p \<Longrightarrow> replay_ok q"
  by (auto simp: replay_dispatch_def split: if_splits)

lemma replay_cancel_ok: "replay_cancel i running p = (Ok (), q) \<Longrightarrow> replay_ok p \<Longrightarrow> replay_ok q"
  using release_ok [of p i]
  by (auto simp: replay_cancel_def try_pure_cases ok_or_def split: if_splits option.splits)

lemma replay_expire_ok: "replay_expire i reserved p = (Ok (), q) \<Longrightarrow> replay_ok p \<Longrightarrow> replay_ok q"
  using release_ok [of p i]
  by (auto simp: replay_expire_def try_pure_cases ok_or_def checked_sub_def Let_def split: if_splits option.splits)

lemma release_trace_reservation_ok: "replay_ok p \<Longrightarrow> replay_ok (release_trace_reservation i status p)"
  using release_ok [of p i] by (auto simp: release_trace_reservation_def split: option.splits)

lemma replay_complete_ok:
  assumes "replay_complete i n status kind reserved p = (Ok (), q)" and "replay_ok p"
  shows "replay_ok q"
proof -
  let ?p1 = "(p\<lparr>tp_running := None\<rparr>)\<lparr>tp_emitted := bt_insert i
    ((case bt_get (tp_emitted p) i of Some n \<Rightarrow> n | None \<Rightarrow> 0) + ucast n) (tp_emitted p)\<rparr>"
  have "q = release_trace_reservation i status ?p1"
    using assms(1) by (auto simp: replay_complete_def try_pure_cases ok_or_def Let_def
        split: option.splits outcome.splits if_splits)
  moreover have "replay_ok ?p1" using assms(2) by (simp add: replay_ok_def)
  ultimately show ?thesis using release_trace_reservation_ok by simp
qed

lemma apply_event_Ok:
  "apply_event capacity event p = (Ok (), q) \<longleftrightarrow> apply_trace_event capacity event p = (Ok (), q) \<and> tp_reserved q \<le> capacity"
  by (cases "apply_trace_event capacity event p"; cases "fst (apply_trace_event capacity event p)")
     (auto simp: apply_event_def split: if_splits)

lemma apply_event_ok: "apply_event capacity event p = (Ok (), q) \<Longrightarrow> replay_ok p \<Longrightarrow> replay_ok q"
  unfolding apply_event_Ok
proof (elim conjE, cases event)
  fix at i out
  assume e: "event = AdmissionEvent at i out" "apply_trace_event capacity event p = (Ok (), q)" "replay_ok p"
  show "replay_ok q"
  proof (cases out)
    case (Admitted b)
    then have "replay_admit i b p = (Ok (), q)"
      using e by (cases "replay_admit i b p"; cases "fst (replay_admit i b p)") auto
    then show ?thesis using e(3) by (rule replay_admit_ok)
  qed (use e in simp)
qed (auto intro: replay_dispatch_ok replay_cancel_ok replay_expire_ok replay_complete_ok)

interpretation replay: machine "\<lambda>p. p = default_replay" "replay_step capacity"
    "\<lambda>p. replay_ok p \<and> tp_reserved p \<le> capacity" for capacity
proof unfold_locales
  show "s = default_replay \<Longrightarrow> replay_ok s \<and> tp_reserved s \<le> capacity" for s
    by (simp add: default_replay_def replay_ok_def total_def bt_entries_def)
  show "replay_ok s \<and> tp_reserved s \<le> capacity \<Longrightarrow> replay_step capacity s t \<Longrightarrow> replay_ok t \<and> tp_reserved t \<le> capacity" for s t
    by (auto simp: replay_step_def apply_event_Ok intro: apply_event_ok [unfolded apply_event_Ok])
qed

lemma apply_events_append:
  "apply_events capacity (xs @ ys) p = try_st (apply_events capacity xs p) (\<lambda>_ q. apply_events capacity ys q)"
proof (induction xs arbitrary: p)
  case (Cons x xs)
  then show ?case by (cases "apply_event capacity x p"; cases "fst (apply_event capacity x p)") auto
qed simp

lemma apply_events_steps: "apply_events capacity es p = (Ok (), q) \<Longrightarrow> (replay_step capacity)\<^sup>*\<^sup>* p q"
proof (induction es arbitrary: p)
  case (Cons e es)
  obtain p1 where p1: "apply_event capacity e p = (Ok (), p1)" "apply_events capacity es p1 = (Ok (), q)"
    using Cons.prems by (cases "apply_event capacity e p"; cases "fst (apply_event capacity e p)") auto
  then have "replay_step capacity p p1" by (auto simp: replay_step_def)
  then show ?case using Cons.IH [OF p1(2)] by simp
qed simp

lemma try_st_Ok: "try_st m f = (Ok b, t) \<Longrightarrow> \<exists>a s. m = (Ok a, s) \<and> f a s = (Ok b, t)"
  by (cases m; cases "fst m") auto

section \<open>What the replay counts\<close>

definition completions :: "ServiceEvent list \<Rightarrow> RequestId \<Rightarrow> u64 list" where
  "completions es i = List.map_filter (\<lambda>e. case e of
     CompleteEvent at j n status reserved kind \<Rightarrow> if j = i then Some (ucast n) else None | _ \<Rightarrow> None) es"

lemma completions_Cons: "completions (e # es) i = completions [e] i @ completions es i"
  by (simp add: completions_def map_filter_def)

definition counted :: "u64 option \<Rightarrow> u64 list \<Rightarrow> u64 option" where
  "counted n xs = (if xs = [] then n else Some ((case n of Some m \<Rightarrow> m | None \<Rightarrow> 0) + sum_list xs))"

lemma counted_append: "counted (counted n xs) ys = counted n (xs @ ys)"
  by (auto simp: counted_def add.assoc)

lemma release_emitted [simp]: "tp_emitted (release_trace_reservation i status p) = tp_emitted p"
  by (simp add: release_trace_reservation_def split: option.splits)

lemma apply_event_emitted:
  assumes "apply_event capacity e p = (Ok (), q)"
  shows "bt_get (tp_emitted q) i = counted (bt_get (tp_emitted p) i) (completions [e] i)"
proof (cases e)
  case (CompleteEvent at j n status reserved kind)
  have "tp_emitted q = bt_insert j ((case bt_get (tp_emitted p) j of Some n \<Rightarrow> n | None \<Rightarrow> 0) + ucast n) (tp_emitted p)"
    using assms CompleteEvent unfolding apply_event_Ok
    by (auto simp: replay_complete_def try_pure_cases ok_or_def Let_def split: option.splits outcome.splits if_splits)
  then show ?thesis using CompleteEvent by (auto simp: completions_def map_filter_def counted_def)
next
  case (AdmissionEvent at j out)
  then have "tp_emitted q = tp_emitted p"
    using assms unfolding apply_event_Ok
    by (cases out) (auto simp: replay_admit_def try_st_cases try_pure_cases Let_def split: outcome.splits if_splits prod.splits)
  then show ?thesis using AdmissionEvent by (simp add: completions_def map_filter_def counted_def)
qed (use assms in \<open>auto simp: apply_event_Ok replay_dispatch_def replay_cancel_def replay_expire_def try_pure_cases ok_or_def
       Let_def completions_def map_filter_def counted_def split: if_splits option.splits\<close>)

lemma apply_events_emitted:
  "apply_events capacity es p = (Ok (), q) \<Longrightarrow> bt_get (tp_emitted q) i = counted (bt_get (tp_emitted p) i) (completions es i)"
proof (induction es arbitrary: p)
  case (Cons e es)
  obtain p1 where p1: "apply_event capacity e p = (Ok (), p1)" "apply_events capacity es p1 = (Ok (), q)"
    using Cons.prems by (cases "apply_event capacity e p"; cases "fst (apply_event capacity e p)") auto
  show ?case
    using Cons.IH [OF p1(2)] apply_event_emitted [OF p1(1)] by (simp add: counted_append completions_Cons [of e es])
qed (simp add: completions_def map_filter_def counted_def)

lemma verify_trace_results_Ok:
  "verify_trace_results sources emitted rs = Ok () \<longleftrightarrow> (\<forall>r\<in>set rs. verify_trace_result sources emitted r = Ok ())"
  by (induction rs) (auto simp: and_then_eq_Ok)

lemma verify_trace_result_Ok:
  "verify_trace_result sources emitted r = Ok () \<longleftrightarrow> (\<exists>q. bt_get sources (tt_request_id r) = Some q \<and>
     starts_with (tq_isolated_tokens q) (tt_output_tokens r) \<and>
     (tt_status r = Finished \<longrightarrow> tt_output_tokens r = tq_isolated_tokens q) \<and>
     (tt_status r \<noteq> Rejected \<longrightarrow> bt_get emitted (tt_request_id r) = Some (of_nat (length (tt_output_tokens r)))))"
  by (auto simp: verify_trace_result_def and_then_eq_Ok split: if_splits)

section \<open>A trace\<close>

definition demo_trace_request :: "u64 \<Rightarrow> u64 option \<Rightarrow> ServiceTraceRequest" where
  "demo_trace_request n at_ns = \<lparr>tq_spec = (demo_spec n None)\<lparr>sx_prompt_tokens := 8, sx_max_output_tokens := 2\<rparr>,
     tq_isolated_tokens = [11, 12], tq_cancel_at_ns = at_ns\<rparr>"

definition demo_trace :: ServiceTrace where
  "demo_trace = \<lparr>tc_schema_version = 1, tc_policy = demo_policy, tc_token_duration_ns = 10,
     tc_requests = [demo_trace_request 0 None]\<rparr>"

lemma demo_order: "order_service_trace demo_trace =
    Ok ([demo_trace_request 0 None], [(RequestId 0, demo_trace_request 0 None)])"
  by (simp add: order_service_trace_def demo_trace_def demo_trace_request_def demo_spec_def bt_collect_def)

lemmas trace_loop_numeral = trace_loop.simps(2) [of "pred_numeral k" for k, folded numeral_eq_Suc]

lemmas run_eval = trace_loop_numeral execute_service_trace_def trace_turn_def admit_trace_arrivals_def
  apply_cancellations_def cancel_one_def demo_trace_request_def cancel_def status_of_def dispatch_one_def
  trace_expired_requests_def record_trace_expirations_def complete_trace_quantum_def trace_quantum_bounds_def
  trace_is_prefill_def trace_start_def trace_emitted_start_def emitted_tokens_of_def trace_count_def
  trace_quantum_count_def trace_end_def append_trace_output_def slice_def trace_emitted_tokens_def
  trace_progress_tokens_def trace_prefill_ready_def trace_eos_def has_runnable_requests_def map_filter_def

lemmas eval_trace = run_eval admit_eval dispatch_eval complete_eval demo_eval

lemma demo_run:
  "\<exists>e. execute_service_trace 26 demo_trace demo_new [demo_trace_request 0 None] [(RequestId 0, demo_trace_request 0 None)] =
     Some (Ok (), e) \<and> te_outputs e = [(RequestId 0, [11, 12])] \<and> status_of (te_scheduler e) (RequestId 0) = Some Finished"
  by (simp add: eval_trace demo_trace_def)

lemma demo_fuel: "enough_fuel demo_trace = 26"
  by (simp add: enough_fuel_def arrival_cost_def demo_trace_def demo_trace_request_def demo_spec_def)

section \<open>Properties\<close>

text \<open>C9: The trace loop ends. With fuel for two turns per token a trace can ask for, the
  run returns; it fails only by overflow of the accounting, and otherwise every request
  of the trace was decided and has reached a terminal status, so nothing is starved.\<close>

theorem trace_run_terminates:
  assumes "order_service_trace trace = Ok (ordered, sources)" and "scheduler_new (tc_policy trace) = Ok s"
    and "2 * (\<Sum>q\<leftarrow>tc_requests trace. unat (sx_prompt_tokens (tq_spec q)) + unat (sx_max_output_tokens (tq_spec q)) + 2) + 2 \<le> fuel"
  shows "\<exists>r e. execute_service_trace fuel trace s ordered sources = Some (r, e) \<and>
    (r = Err AccountingOverflow \<or>
     r = Ok () \<and> (\<forall>q\<in>set (tc_requests trace). \<exists>status. status_of (te_scheduler e) (tq_id q) = Some status \<and> is_terminal status))"
proof -
  have "enough_fuel trace \<le> fuel" using assms(3) by (simp add: enough_fuel_def arrival_cost_def)
  then obtain r e where e: "execute_service_trace fuel trace s ordered sources = Some (r, e)"
    "r = Err AccountingOverflow \<or> r = Ok () \<and> run_ok trace ordered sources e \<and> run_done ordered e"
    by (rule execute_run [OF assms(1,2)])
  have "\<exists>status. status_of (te_scheduler e) (tq_id q) = Some status \<and> is_terminal status"
    if "run_ok trace ordered sources e" "run_done ordered e" "q \<in> set (tc_requests trace)" for q
  proof -
    have "set ordered = set (tc_requests trace)"
      using order_service_trace_Ok [OF assms(1)] by (metis trace_ordered_def set_mset_mset)
    then have "tq_id q \<in> dom (bt_get (cs_requests (te_scheduler e)))"
      using run_okD(4) [OF that(1)] that(2,3) by (auto simp: run_done_def)
    then obtain x where "bt_get (cs_requests (te_scheduler e)) (tq_id q) = Some x" by (auto simp: dom_def)
    then show ?thesis using that(2) by (simp add: status_of_def run_done_def)
  qed
  then show ?thesis using e by blast
qed

theorem trace_run_terminates_witness:
  "\<exists>r e. execute_service_trace 26 demo_trace demo_new [demo_trace_request 0 None] [(RequestId 0, demo_trace_request 0 None)] = Some (r, e)"
  using trace_run_terminates [OF demo_order, of demo_new 26] demo_new
  by (auto simp: demo_trace_def demo_trace_request_def demo_spec_def)

text \<open>C10: Batching does not change what a request says. When the run succeeds, the output
  reported for every request of the trace is a prefix of its isolated token stream, of
  exactly the length the scheduler counted as emitted, and within the requested maximum.\<close>

theorem trace_transcripts_are_isolated:
  assumes "order_service_trace trace = Ok (ordered, sources)" and "scheduler_new (tc_policy trace) = Ok s"
    and "enough_fuel trace \<le> fuel" and "execute_service_trace fuel trace s ordered sources = Some (Ok (), e)"
    and "result \<in> set (service_trace_results sources (te_outputs e) (te_scheduler e))"
  shows "\<exists>q n. bt_get sources (tt_request_id result) = Some q \<and>
    starts_with (tq_isolated_tokens q) (tt_output_tokens result) \<and>
    emitted_tokens_of (te_scheduler e) (tt_request_id result) = Some n \<and>
    length (tt_output_tokens result) = unat n \<and> n \<le> sx_max_output_tokens (tq_spec q) \<and>
    is_terminal (tt_status result)"
proof -
  note O = order_service_trace_Ok [OF assms(1)]
  obtain r e' where e: "execute_service_trace fuel trace s ordered sources = Some (r, e')"
    "r = Err AccountingOverflow \<or> r = Ok () \<and> run_ok trace ordered sources e' \<and> run_done ordered e'"
    by (rule execute_run [OF assms(1,2,3)])
  then have ok: "run_ok trace ordered sources e" "run_done ordered e" using assms(4) by auto
  obtain i where i: "i \<in> set (bt_keys sources)" "tt_request_id result = i"
    "tt_status result = (case status_of (te_scheduler e) i of Some status \<Rightarrow> status | None \<Rightarrow> Rejected)"
    "tt_output_tokens result = (case bt_get (te_outputs e) i of Some out \<Rightarrow> out | None \<Rightarrow> [])"
    using assms(5) by (auto simp: service_trace_results_def)
  have bok: "bt_ok sources" using O by (simp add: trace_ordered_def)
  then obtain q where q: "bt_get sources i = Some q" using i(1) bt_keys_dom by fastforce
  then have "q \<in> set ordered" "tq_id q = i" using O by (auto simp: trace_ordered_def)
  then have "i \<in> dom (bt_get (cs_requests (te_scheduler e)))"
    using run_okD(4) [OF ok(1)] ok(2) by (auto simp: run_done_def)
  then obtain x where x: "bt_get (cs_requests (te_scheduler e)) i = Some x" by (auto simp: dom_def)
  then have t: "rs_spec x = tq_spec q" "unat (rs_emitted_tokens x) \<le> length (tq_isolated_tokens q)"
    "bt_get (te_outputs e) i = Some (take (unat (rs_emitted_tokens x)) (tq_isolated_tokens q))"
    using run_okD(5) [OF ok(1)] q unfolding transcripts_def by fastforce+
  have "unat (rs_emitted_tokens x) \<le> unat (sx_max_output_tokens (rs_spec x))"
    using sched_okD(5) [OF run_okD(1) [OF ok(1)] x] by (simp add: request_ok_def tokens_ok_def)
  moreover have "is_terminal (rs_status x)" using ok(2) x by (simp add: run_done_def)
  ultimately show ?thesis
    using q x t i(2-4) by (auto simp: emitted_tokens_of_def status_of_def starts_with_def word_le_nat_alt)
qed

theorem trace_transcripts_are_isolated_witness:
  "\<exists>q. bt_get [(RequestId 0, demo_trace_request 0 None)] (RequestId 0) = Some q \<and> starts_with (tq_isolated_tokens q) [11, 12]"
proof -
  obtain e where e: "execute_service_trace 26 demo_trace demo_new [demo_trace_request 0 None]
      [(RequestId 0, demo_trace_request 0 None)] = Some (Ok (), e)" "te_outputs e = [(RequestId 0, [11, 12])]"
    "status_of (te_scheduler e) (RequestId 0) = Some Finished"
    using demo_run by blast
  have new: "scheduler_new (tc_policy demo_trace) = Ok demo_new" using demo_new by (simp add: demo_trace_def)
  have "\<lparr>tt_request_id = RequestId 0, tt_status = Finished, tt_output_tokens = [11, 12]\<rparr> \<in>
      set (service_trace_results [(RequestId 0, demo_trace_request 0 None)] (te_outputs e) (te_scheduler e))"
    using e(2,3) by (simp add: service_trace_results_def bt_keys_def bt_get_def)
  from trace_transcripts_are_isolated [OF demo_order new _ e(1) this] show ?thesis by (auto simp: demo_fuel)
qed

text \<open>In every prefix of a trace the replay accepts, the bytes it counts are the sum of
  the reservations it holds, and they fit the capacity; no subtraction it makes wraps.\<close>

theorem replay_ledger:
  assumes "apply_events capacity (es @ es') default_replay = (Ok (), q)"
  shows "\<exists>p. apply_events capacity es default_replay = (Ok (), p) \<and> tp_reserved p \<le> capacity \<and>
    unat (tp_reserved p) = (\<Sum>b\<leftarrow>bt_values (tp_reservations p). unat b)"
proof -
  obtain p where p: "apply_events capacity es default_replay = (Ok (), p)"
    using try_st_Ok [OF assms [unfolded apply_events_append]] by auto
  have "replay_ok p \<and> tp_reserved p \<le> capacity"
    by (rule replay.inv_reachable [OF refl apply_events_steps [OF p]])
  then show ?thesis using p by (simp add: replay_ok_def total_def bt_entries_def bt_values_def comp_def)
qed

theorem replay_ledger_witness:
  "\<exists>p. apply_events 100 [AdmissionEvent 0 (RequestId 1) (Admitted 60)] default_replay = (Ok (), p) \<and> tp_reserved p \<le> 100"
  using replay_ledger [of 100 "[AdmissionEvent 0 (RequestId 1) (Admitted 60)]" "[CancelEvent 1 (RequestId 1) False]"]
  by (auto simp: apply_event_def replay_admit_def replay_cancel_def default_replay_def bt_contains_def bt_get_def
      checked_add_def Let_def)

text \<open>C12: A report that verifies is right about its results: each names a request of the
  trace, its output is a prefix of the isolated stream and the whole stream when it
  finished, and a request that was not rejected has an output as long as its completion
  events say; the events end with nothing reserved and nothing running.\<close>

theorem verified_reports_are_right:
  assumes "verify_service_trace trace report = Ok ()" and "result \<in> set (tw_results report)"
  shows "\<exists>q\<in>set (tc_requests trace). tq_id q = tt_request_id result \<and>
    starts_with (tq_isolated_tokens q) (tt_output_tokens result) \<and>
    (tt_status result = Finished \<longrightarrow> tt_output_tokens result = tq_isolated_tokens q) \<and>
    (tt_status result \<noteq> Rejected \<longrightarrow> completions (tw_events report) (tt_request_id result) \<noteq> [] \<and>
       of_nat (length (tt_output_tokens result)) = sum_list (completions (tw_events report) (tt_request_id result))) \<and>
    (\<exists>p. apply_events (sp_max_reserved_kv_bytes (tc_policy trace)) (tw_events report) default_replay = (Ok (), p) \<and>
       tp_reserved p = 0 \<and> tp_running p = None) \<and>
    st_max_cancellation_overshoot_tokens (tw_stats report) \<le> sp_service_quantum_tokens (tc_policy trace)"
proof -
  let ?sources = "bt_collect (map (\<lambda>q. (tq_id q, q)) (tc_requests trace))"
  obtain rr p where p: "apply_events (sp_max_reserved_kv_bytes (tc_policy trace)) (tw_events report) default_replay = (rr, p)"
    by fastforce
  have v: "rr = Ok ()" "tp_running p = None" "tp_reserved p = 0"
    "verify_trace_results ?sources (tp_emitted p) (tw_results report) = Ok ()"
    "st_max_cancellation_overshoot_tokens (tw_stats report) \<le> sp_service_quantum_tokens (tc_policy trace)"
    using assms(1) by (simp_all add: verify_service_trace_def p and_then_eq_Ok Let_def not_less del: not_None_eq split: if_splits)
  obtain q where q: "bt_get ?sources (tt_request_id result) = Some q"
    "starts_with (tq_isolated_tokens q) (tt_output_tokens result)"
    "tt_status result = Finished \<longrightarrow> tt_output_tokens result = tq_isolated_tokens q"
    "tt_status result \<noteq> Rejected \<longrightarrow> bt_get (tp_emitted p) (tt_request_id result) = Some (of_nat (length (tt_output_tokens result)))"
    using v(4) assms(2) unfolding verify_trace_results_Ok verify_trace_result_Ok by blast
  have "(tt_request_id result, q) \<in> set (rev (map (\<lambda>q. (tq_id q, q)) (tc_requests trace)))"
    using q(1) unfolding bt_get_collect by (rule map_of_SomeD)
  then have mem: "q \<in> set (tc_requests trace)" "tq_id q = tt_request_id result" by auto
  have "bt_get (tp_emitted p) (tt_request_id result) = counted None (completions (tw_events report) (tt_request_id result))"
    using apply_events_emitted [OF p [unfolded v(1)], of "tt_request_id result"] by (simp add: default_replay_def)
  then have "tt_status result \<noteq> Rejected \<longrightarrow> completions (tw_events report) (tt_request_id result) \<noteq> [] \<and>
       of_nat (length (tt_output_tokens result)) = sum_list (completions (tw_events report) (tt_request_id result))"
    using q(4) by (auto simp: counted_def split: if_splits)
  then show ?thesis using mem q(2,3) v p by blast
qed

definition demo_report :: "u32 \<Rightarrow> ServiceTraceReport" where
  "demo_report budget = \<lparr>tw_schema_version = 1, tw_fixture_sha256 = [],
     tw_events = [AdmissionEvent 0 (RequestId 0) (Admitted 1024), DispatchEvent 0 (RequestId 0) budget Decode,
       CompleteEvent 20 (RequestId 0) 2 Finished 0 Decode],
     tw_results = [\<lparr>tt_request_id = RequestId 0, tt_status = Finished, tt_output_tokens = [11, 12]\<rparr>],
     tw_stats = default_stats, tw_oracle_verified = False\<rparr>"

lemmas replay_eval = apply_event_def replay_admit_def replay_dispatch_def replay_complete_def replay_cancel_def
  validate_trace_completion_def release_trace_reservation_def default_replay_def bt_contains_def bt_get_def
  bt_remove_def bt_collect_def checked_add_def Let_def

lemma demo_report_verifies: "budget \<in> {2, 1000} \<Longrightarrow> verify_service_trace demo_trace (demo_report budget) = Ok ()"
  by (auto simp: verify_service_trace_def demo_report_def demo_trace_def demo_trace_request_def demo_spec_def demo_policy_def
      default_stats_def replay_eval verify_trace_result_def starts_with_def)

theorem verified_reports_are_right_witness:
  "of_nat (length [11 :: u32, 12]) = sum_list (completions (tw_events (demo_report 2)) (RequestId 0))"
proof -
  have "\<lparr>tt_request_id = RequestId 0, tt_status = Finished, tt_output_tokens = [11, 12]\<rparr> \<in> set (tw_results (demo_report 2))"
    by (simp add: demo_report_def)
  from verified_reports_are_right [OF demo_report_verifies this] show ?thesis by auto
qed

text \<open>The replay compares a dispatch's token budget with the KV byte capacity, not with
  the policy's quantum: a report whose dispatch exceeds both the service quantum and the
  prefill chunk verifies.\<close>

theorem replay_accepts_oversized_quantum:
  "sp_service_quantum_tokens (tc_policy demo_trace) < 1000 \<and> sp_prefill_chunk_tokens (tc_policy demo_trace) < 1000 \<and>
   DispatchEvent 0 (RequestId 0) 1000 Decode \<in> set (tw_events (demo_report 1000)) \<and>
   verify_service_trace demo_trace (demo_report 1000) = Ok ()"
  using demo_report_verifies [of 1000] by (simp add: demo_trace_def demo_policy_def demo_report_def)

definition demo_cancel_trace :: ServiceTrace where
  "demo_cancel_trace = demo_trace\<lparr>tc_requests := [demo_trace_request 0 (Some 0)]\<rparr>"

lemma demo_cancel_run:
  "\<exists>e. execute_service_trace 30 demo_cancel_trace demo_new [demo_trace_request 0 (Some 0)]
       [(RequestId 0, demo_trace_request 0 (Some 0))] = Some (Ok (), e) \<and>
     te_events e = [AdmissionEvent 0 (RequestId 0) (Admitted 1024), CancelEvent 0 (RequestId 0) False] \<and>
     te_outputs e = [(RequestId 0, [])] \<and> status_of (te_scheduler e) (RequestId 0) = Some Cancelled"
  by (simp add: eval_trace demo_cancel_trace_def demo_trace_def)

lemma verified_result_completes:
  assumes "verify_service_trace trace report = Ok ()" and "result \<in> set (tw_results report)" and "tt_status result \<noteq> Rejected"
  shows "completions (tw_events report) (tt_request_id result) \<noteq> []"
proof -
  obtain rr p where p: "apply_events (sp_max_reserved_kv_bytes (tc_policy trace)) (tw_events report) default_replay = (rr, p)"
    by fastforce
  have v: "rr = Ok ()"
    "verify_trace_results (bt_collect (map (\<lambda>q. (tq_id q, q)) (tc_requests trace))) (tp_emitted p) (tw_results report) = Ok ()"
    using assms(1) by (simp_all add: verify_service_trace_def p and_then_eq_Ok Let_def del: not_None_eq split: if_splits)
  have "bt_get (tp_emitted p) (tt_request_id result) \<noteq> None"
    using v(2) assms(2,3) unfolding verify_trace_results_Ok verify_trace_result_Ok by fastforce
  then show ?thesis
    using apply_events_emitted [OF p [unfolded v(1)], of "tt_request_id result"] by (auto simp: default_replay_def counted_def split: if_splits)
qed

lemma no_completions:
  assumes "\<forall>at n status reserved kind. CompleteEvent at i n status reserved kind \<notin> set es"
  shows "completions es i = []"
  using assms by (auto simp: completions_def map_filter_def filter_empty_conv split: ServiceEvent.splits)

text \<open>C40: A run that leaves a request unserved refuses its own report. When the execution of a
  trace ends well, but some request of the trace that was not rejected has no completion event at
  all (it was cancelled or expired before its first quantum completed), the run never returns a
  report: the verification it ends with demands an emitted count for that request. The witness is
  a legal trace of one request, cancelled while it waits in the queue.\<close>

theorem unserved_requests_fail_verification:
  assumes "decode_service_trace parse bytes = Ok trace" and "order_service_trace trace = Ok (ordered, sources)"
    and "scheduler_new (tc_policy trace) = Ok s" and "execute_service_trace fuel trace s ordered sources = Some (Ok (), e)"
    and "i \<in> set (bt_keys sources)" and "status_of (te_scheduler e) i = Some status" and "status \<noteq> Rejected"
    and "\<forall>at n st reserved kind. CompleteEvent at i n st reserved kind \<notin> set (te_events e)"
  shows "\<exists>r. run_service_trace_json parse digest fuel bytes = Some r \<and> (\<forall>report. r \<noteq> Ok report)"
proof -
  define report where "report = \<lparr>tw_schema_version = 1, tw_fixture_sha256 = digest bytes, tw_events = te_events e,
    tw_results = service_trace_results sources (te_outputs e) (te_scheduler e), tw_stats = cs_stats (te_scheduler e), tw_oracle_verified = False\<rparr>"
  have "\<exists>result\<in>set (tw_results report). tt_request_id result = i \<and> tt_status result = status"
    using assms(5,6) by (auto simp: report_def service_trace_results_def)
  then have "verify_service_trace trace report \<noteq> Ok ()"
    using verified_result_completes [of trace report] no_completions [OF assms(8)] assms(7) by (fastforce simp: report_def)
  then have "and_then (verify_service_trace trace report) (\<lambda>_. Ok (report\<lparr>tw_oracle_verified := True\<rparr>)) \<noteq> Ok any" for any
    by (auto simp: and_then_eq_Ok)
  then show ?thesis
    using assms(1-4) by (simp add: run_service_trace_json_def Let_def report_def)
qed

theorem unserved_requests_fail_verification_witness:
  "\<exists>r. run_service_trace_json (\<lambda>_. Inl demo_cancel_trace) (\<lambda>_. []) 30 () = Some r \<and> (\<forall>report. r \<noteq> Ok report)"
proof -
  let ?q = "demo_trace_request 0 (Some 0)"
  have order: "order_service_trace demo_cancel_trace = Ok ([?q], [(RequestId 0, ?q)])"
    by (simp add: order_service_trace_def demo_cancel_trace_def demo_trace_def demo_trace_request_def demo_spec_def bt_collect_def)
  have decode: "decode_service_trace (\<lambda>_. Inl demo_cancel_trace) () = Ok demo_cancel_trace"
    by (simp add: decode_service_trace_def demo_cancel_trace_def demo_trace_def)
  have new: "scheduler_new (tc_policy demo_cancel_trace) = Ok demo_new"
    using demo_new by (simp add: demo_cancel_trace_def demo_trace_def)
  obtain e where e: "execute_service_trace 30 demo_cancel_trace demo_new [?q] [(RequestId 0, ?q)] = Some (Ok (), e)"
    "te_events e = [AdmissionEvent 0 (RequestId 0) (Admitted 1024), CancelEvent 0 (RequestId 0) False]"
    "status_of (te_scheduler e) (RequestId 0) = Some Cancelled"
    using demo_cancel_run by blast
  show ?thesis
    by (rule unserved_requests_fail_verification [OF decode order new e(1) _ e(3)]) (simp_all add: e(2) bt_keys_def)
qed

end
