(* ===== verification/Service.thy ===== *)
theory Service
  imports Scheduler
begin

text \<open>
  The scheduled service of \<open>crates/leone/src/service.rs\<close>: bounded admission and the
  scheduler, connected to an executor that computes the tokens. The executor is a trait;
  its implementations (the model, the accelerator backends) are a parameter: a record of
  functions over an executor state, each returning a result (\<open>Inl\<close> a value, \<open>Inr\<close> the
  executor's own error) and the new executor state. The trait's default methods are
  \<open>default_execute_dispatch\<close>, \<open>default_execute_batch\<close> and \<open>default_finish_at\<close>. Record
  prefixes: \<open>qo_\<close> QuantumOutput, \<open>pp_\<close> PrefillProgress, \<open>qx_\<close> QuantumExecutor, \<open>sq_\<close>
  ServiceQuantum, \<open>sv_\<close> ScheduledService.
\<close>

section \<open>Data\<close>

record PrefillProgress =
  pp_processed_tokens :: u32
  pp_ready :: bool

record QuantumOutput =
  qo_tokens :: "u32 list"
  qo_eos :: bool
  qo_cancelled :: bool
  qo_prefill :: "PrefillProgress option"

definition decode_output :: "u32 list \<Rightarrow> bool \<Rightarrow> bool \<Rightarrow> QuantumOutput" where
  "decode_output tokens eos cancelled =
     \<lparr>qo_tokens = tokens, qo_eos = eos, qo_cancelled = cancelled, qo_prefill = None\<rparr>"

definition prefill_output :: "u32 \<Rightarrow> bool \<Rightarrow> bool \<Rightarrow> QuantumOutput" where
  "prefill_output processed_tokens ready cancelled =
     \<lparr>qo_tokens = [], qo_eos = False, qo_cancelled = cancelled,
      qo_prefill = Some \<lparr>pp_processed_tokens = processed_tokens, pp_ready = ready\<rparr>\<rparr>"

record ('x, 'r, 'e) QuantumExecutor =
  qx_begin :: "RequestId \<Rightarrow> 'r \<Rightarrow> 'x \<Rightarrow> (unit + 'e) \<times> 'x"
  qx_execute_batch :: "Dispatch list \<Rightarrow> 'x \<Rightarrow> (QuantumOutput list + 'e) \<times> 'x"
  qx_finish :: "RequestId \<Rightarrow> RequestStatus \<Rightarrow> 'x \<Rightarrow> (unit + 'e) \<times> 'x"
  qx_finish_at :: "RequestId \<Rightarrow> RequestStatus \<Rightarrow> u64 \<Rightarrow> 'x \<Rightarrow> (unit + 'e) \<times> 'x"

text \<open>The default methods of the trait, in terms of the required ones.\<close>

definition default_execute_dispatch ::
  "(RequestId \<Rightarrow> u32 \<Rightarrow> 'x \<Rightarrow> (QuantumOutput + 'e) \<times> 'x) \<Rightarrow> Dispatch \<Rightarrow> 'x \<Rightarrow> (QuantumOutput + 'e) \<times> 'x" where
  "default_execute_dispatch execute d = execute (dp_request_id d) (dp_token_budget d)"

fun default_execute_batch ::
  "(Dispatch \<Rightarrow> 'x \<Rightarrow> (QuantumOutput + 'e) \<times> 'x) \<Rightarrow> Dispatch list \<Rightarrow> 'x \<Rightarrow> (QuantumOutput list + 'e) \<times> 'x" where
  "default_execute_batch execute_dispatch [] x = (Inl [], x)"
| "default_execute_batch execute_dispatch (d # ds) x =
     (case execute_dispatch d x of
        (Inr e, x1) \<Rightarrow> (Inr e, x1)
      | (Inl output, x1) \<Rightarrow>
          (case default_execute_batch execute_dispatch ds x1 of
             (Inr e, x2) \<Rightarrow> (Inr e, x2)
           | (Inl outputs, x2) \<Rightarrow> (Inl (output # outputs), x2)))"

definition default_finish_at ::
  "(RequestId \<Rightarrow> RequestStatus \<Rightarrow> 'x \<Rightarrow> (unit + 'e) \<times> 'x) \<Rightarrow> RequestId \<Rightarrow> RequestStatus \<Rightarrow> u64 \<Rightarrow> 'x \<Rightarrow> (unit + 'e) \<times> 'x" where
  "default_finish_at finish i status at_ns = finish i status"

datatype 'e ServiceError =
    SchedulerFailed SchedulerError
  | ExecutorFailed 'e
  | ExecutorBudget nat u32
  | ExecutorBatchSize nat nat
  | PrefillOutput RequestId nat
  | PrefillNoProgress RequestId
  | PrefillProgressMissing RequestId
  | PrefillProgressOverBudget RequestId u32 u32
  | DecodePrefillProgress RequestId
  | NoProgress RequestId

record ServiceQuantum =
  sq_completion :: QuantumCompletion
  sq_kind :: DispatchKind
  sq_progress_tokens :: u32
  sq_tokens :: "u32 list"

record ('x, 'e) ScheduledService =
  sv_scheduler :: ContinuousScheduler
  sv_executor :: 'x
  sv_outputs :: "(RequestId, u32 list) btree_map"
  sv_finish_error :: "'e ServiceError option"

definition service_new :: "SchedulerPolicy \<Rightarrow> 'x \<Rightarrow> (('x, 'e) ScheduledService, SchedulerError) outcome" where
  "service_new policy x =
     and_then (scheduler_new policy) (\<lambda>s.
     Ok \<lparr>sv_scheduler = s, sv_executor = x, sv_outputs = [], sv_finish_error = None\<rparr>)"

section \<open>Checking what the executor returned\<close>

definition over_budget_output :: "Dispatch list \<Rightarrow> QuantumOutput list \<Rightarrow> (nat \<times> u32) option" where
  "over_budget_output ds os =
     map_option (\<lambda>(d, out). (length (qo_tokens out), dp_token_budget d))
       (List.find (\<lambda>(d, out). unat (dp_token_budget d) < length (qo_tokens out)) (zip ds os))"

definition invalid_prefill_output :: "Dispatch \<Rightarrow> QuantumOutput \<Rightarrow> 'e ServiceError option" where
  "invalid_prefill_output d out =
     (case qo_prefill out of
        None \<Rightarrow> Some (PrefillProgressMissing (dp_request_id d))
      | Some progress \<Rightarrow>
          if qo_tokens out \<noteq> [] then Some (PrefillOutput (dp_request_id d) (length (qo_tokens out)))
          else if dp_token_budget d < pp_processed_tokens progress
            then Some (PrefillProgressOverBudget (dp_request_id d) (pp_processed_tokens progress) (dp_token_budget d))
          else if pp_processed_tokens progress = 0 \<and> \<not> pp_ready progress \<and> \<not> qo_cancelled out
            then Some (PrefillNoProgress (dp_request_id d))
          else None)"

definition invalid_decode_output :: "Dispatch \<Rightarrow> QuantumOutput \<Rightarrow> 'e ServiceError option" where
  "invalid_decode_output d out =
     (if qo_prefill out \<noteq> None then Some (DecodePrefillProgress (dp_request_id d))
      else if qo_tokens out = [] \<and> \<not> qo_eos out \<and> \<not> qo_cancelled out then Some (NoProgress (dp_request_id d))
      else None)"

definition invalid_output_for_dispatch :: "Dispatch \<Rightarrow> QuantumOutput \<Rightarrow> 'e ServiceError option" where
  "invalid_output_for_dispatch d out =
     (case dp_kind d of Prefill \<Rightarrow> invalid_prefill_output d out | Decode \<Rightarrow> invalid_decode_output d out)"

definition invalid_output_phase :: "Dispatch list \<Rightarrow> QuantumOutput list \<Rightarrow> 'e ServiceError option" where
  "invalid_output_phase ds os = find_map_some (\<lambda>(d, out). invalid_output_for_dispatch d out) (zip ds os)"

definition quantum_progress :: "Dispatch \<Rightarrow> QuantumOutput \<Rightarrow> u32" where
  "quantum_progress d out =
     (case dp_kind d of
        Prefill \<Rightarrow> (case qo_prefill out of None \<Rightarrow> 0 | Some progress \<Rightarrow> pp_processed_tokens progress)
      | Decode \<Rightarrow> word_of_usize (length (qo_tokens out)))"

section \<open>Calls on the scheduler and the executor\<close>

text \<open>\<open>self.scheduler.f(...)?\<close> and \<open>self.executor.finish(...)\<close> on the service's fields.\<close>

definition on_scheduler ::
  "(ContinuousScheduler \<Rightarrow> ('a, SchedulerError) outcome \<times> ContinuousScheduler) \<Rightarrow> ('x, 'e) ScheduledService
    \<Rightarrow> ('a, 'e ServiceError) outcome \<times> ('x, 'e) ScheduledService" where
  "on_scheduler f sv = (case f (sv_scheduler sv) of (r, s) \<Rightarrow> (map_err SchedulerFailed r, sv\<lparr>sv_scheduler := s\<rparr>))"

definition on_executor ::
  "('x \<Rightarrow> ('a + 'e) \<times> 'x) \<Rightarrow> ('x, 'e) ScheduledService \<Rightarrow> ('a + 'e) \<times> ('x, 'e) ScheduledService" where
  "on_executor f sv = (case f (sv_executor sv) of (r, x) \<Rightarrow> (r, sv\<lparr>sv_executor := x\<rparr>))"

definition remember_finish_error :: "'e \<Rightarrow> ('x, 'e) ScheduledService \<Rightarrow> ('x, 'e) ScheduledService" where
  "remember_finish_error e sv =
     (if sv_finish_error sv = None then sv\<lparr>sv_finish_error := Some (ExecutorFailed e)\<rparr> else sv)"

text \<open>\<open>if let Err(error) = ... { self.remember_finish_error(error) }\<close>.\<close>

definition remember_failure :: "(unit + 'e) \<times> ('x, 'e) ScheduledService \<Rightarrow> ('x, 'e) ScheduledService" where
  "remember_failure m = (case m of (Inl _, sv) \<Rightarrow> sv | (Inr e, sv) \<Rightarrow> remember_finish_error e sv)"

section \<open>Admission\<close>

definition service_admit ::
  "('x, 'r, 'e) QuantumExecutor \<Rightarrow> RequestSpec \<Rightarrow> 'r \<Rightarrow> u64 \<Rightarrow> ('x, 'e) ScheduledService
    \<Rightarrow> (AdmissionOutcome, 'e ServiceError) outcome \<times> ('x, 'e) ScheduledService" where
  "service_admit ex spec request now_ns sv =
     try_st (on_scheduler (admit spec now_ns) sv) (\<lambda>outcome sv1.
     case outcome of
       RejectedFor reason \<Rightarrow> (Ok outcome, sv1)
     | Admitted bytes \<Rightarrow>
         (case on_executor (qx_begin ex (sx_id spec) request) sv1 of
            (Inr e, sv2) \<Rightarrow> try_st (on_scheduler (cancel (sx_id spec)) sv2) (\<lambda>_ sv3. (Err (ExecutorFailed e), sv3))
          | (Inl _, sv2) \<Rightarrow> (Ok outcome, sv2\<lparr>sv_outputs := bt_insert (sx_id spec) [] (sv_outputs sv2)\<rparr>)))"

section \<open>Aborting\<close>

fun abort_quanta ::
  "('x, 'r, 'e) QuantumExecutor \<Rightarrow> Dispatch list \<Rightarrow> 'e ServiceError option \<Rightarrow> ('x, 'e) ScheduledService
    \<Rightarrow> ('e ServiceError option, 'e ServiceError) outcome \<times> ('x, 'e) ScheduledService" where
  "abort_quanta ex [] first_error sv = (Ok first_error, sv)"
| "abort_quanta ex (d # ds) first_error sv =
     (case on_scheduler (abort_quantum (dp_request_id d)) sv of
        (Panic, sv1) \<Rightarrow> (Panic, sv1)
      | (Err e, sv1) \<Rightarrow> abort_quanta ex ds (if first_error = None then Some e else first_error) sv1
      | (Ok status, sv1) \<Rightarrow>
          (case on_executor (qx_finish ex (dp_request_id d) status) sv1 of
             (Inl _, sv2) \<Rightarrow> abort_quanta ex ds first_error sv2
           | (Inr e, sv2) \<Rightarrow>
               abort_quanta ex ds (if first_error = None then Some (ExecutorFailed e) else first_error) sv2))"

definition abort_batch ::
  "('x, 'r, 'e) QuantumExecutor \<Rightarrow> Dispatch list \<Rightarrow> ('x, 'e) ScheduledService
    \<Rightarrow> (unit, 'e ServiceError) outcome \<times> ('x, 'e) ScheduledService" where
  "abort_batch ex ds sv =
     try_st (abort_quanta ex ds None sv) (\<lambda>first_error sv1.
     (case first_error of None \<Rightarrow> Ok () | Some e \<Rightarrow> Err e, sv1))"

definition abort_with_error ::
  "('x, 'r, 'e) QuantumExecutor \<Rightarrow> Dispatch list \<Rightarrow> 'e ServiceError \<Rightarrow> ('x, 'e) ScheduledService
    \<Rightarrow> ('a, 'e ServiceError) outcome \<times> ('x, 'e) ScheduledService" where
  "abort_with_error ex ds error sv = try_st (abort_batch ex ds sv) (\<lambda>_ sv1. (Err error, sv1))"

fun abort_running_batch ::
  "('x, 'r, 'e) QuantumExecutor \<Rightarrow> Dispatch list \<Rightarrow> ('x, 'e) ScheduledService \<Rightarrow> ('x, 'e) ScheduledService" where
  "abort_running_batch ex [] sv = sv"
| "abort_running_batch ex (d # ds) sv =
     (if status_of (sv_scheduler sv) (dp_request_id d) \<noteq> Some Running then abort_running_batch ex ds sv
      else (case on_scheduler (abort_quantum (dp_request_id d)) sv of
              (Ok status, sv1) \<Rightarrow>
                abort_running_batch ex ds (snd (on_executor (qx_finish ex (dp_request_id d) status) sv1))
            | (_, sv1) \<Rightarrow> abort_running_batch ex ds sv1))"

section \<open>Executing and committing a batch\<close>

definition execute_batch_outputs ::
  "('x, 'r, 'e) QuantumExecutor \<Rightarrow> Dispatch list \<Rightarrow> ('x, 'e) ScheduledService
    \<Rightarrow> (QuantumOutput list, 'e ServiceError) outcome \<times> ('x, 'e) ScheduledService" where
  "execute_batch_outputs ex ds sv =
     (case on_executor (qx_execute_batch ex ds) sv of
        (Inr e, sv1) \<Rightarrow> abort_with_error ex ds (ExecutorFailed e) sv1
      | (Inl os, sv1) \<Rightarrow>
          if length os \<noteq> length ds then abort_with_error ex ds (ExecutorBatchSize (length ds) (length os)) sv1
          else (case over_budget_output ds os of
                  Some (emitted, budget) \<Rightarrow> abort_with_error ex ds (ExecutorBudget emitted budget) sv1
                | None \<Rightarrow>
                    (case invalid_output_phase ds os of
                       Some error \<Rightarrow> abort_with_error ex ds error sv1
                     | None \<Rightarrow> (Ok os, sv1))))"

definition reject_quantum ::
  "('x, 'r, 'e) QuantumExecutor \<Rightarrow> Dispatch \<Rightarrow> 'e ServiceError \<Rightarrow> ('x, 'e) ScheduledService
    \<Rightarrow> ('a, 'e ServiceError) outcome \<times> ('x, 'e) ScheduledService" where
  "reject_quantum ex d error sv =
     try_st (on_scheduler (abort_quantum (dp_request_id d)) sv) (\<lambda>status sv1.
     (Err error, remember_failure (on_executor (qx_finish ex (dp_request_id d) status) sv1)))"

definition commit_quantum ::
  "('x, 'r, 'e) QuantumExecutor \<Rightarrow> Dispatch \<Rightarrow> QuantumOutput \<Rightarrow> ('x, 'e) ScheduledService
    \<Rightarrow> (ServiceQuantum, 'e ServiceError) outcome \<times> ('x, 'e) ScheduledService" where
  "commit_quantum ex d out sv =
     (if unat (dp_token_budget d) < length (qo_tokens out)
      then reject_quantum ex d (ExecutorBudget (length (qo_tokens out)) (dp_token_budget d)) sv
      else case invalid_output_for_dispatch d out of
        Some error \<Rightarrow> reject_quantum ex d error sv
      | None \<Rightarrow>
          try_st (if qo_cancelled out
                  then try_st (on_scheduler (cancel (dp_request_id d)) sv) (\<lambda>_ sv1. (Ok (), sv1))
                  else (Ok (), sv)) (\<lambda>_ sv1.
          try_pure (expect (if length (qo_tokens out) < 2 ^ 32 then Some (of_nat (length (qo_tokens out))) else None)) sv1
            (\<lambda>emitted_tokens.
          try_st (on_scheduler (complete_quantum_with_progress (dp_request_id d) emitted_tokens (quantum_progress d out)
                    (case qo_prefill out of None \<Rightarrow> False | Some progress \<Rightarrow> pp_ready progress) (qo_eos out)) sv1)
            (\<lambda>completion sv2.
          try_pure (expect (bt_get (sv_outputs sv2) (dp_request_id d))) sv2 (\<lambda>so_far.
          let sv3 = sv2\<lparr>sv_outputs := bt_insert (dp_request_id d) (so_far @ qo_tokens out) (sv_outputs sv2)\<rparr>;
              sv4 = (if is_terminal (qc_status completion)
                     then remember_failure (on_executor (qx_finish ex (dp_request_id d) (qc_status completion)) sv3)
                     else sv3)
          in (Ok \<lparr>sq_completion = completion, sq_kind = dp_kind d,
                  sq_progress_tokens = quantum_progress d out, sq_tokens = qo_tokens out\<rparr>, sv4))))))"

fun commit_batch ::
  "('x, 'r, 'e) QuantumExecutor \<Rightarrow> Dispatch list \<Rightarrow> QuantumOutput list \<Rightarrow> ('x, 'e) ScheduledService
    \<Rightarrow> (ServiceQuantum list, 'e ServiceError) outcome \<times> ('x, 'e) ScheduledService" where
  "commit_batch ex (d # ds) (out # os) sv =
     (case commit_quantum ex d out sv of
        (Ok quantum, sv1) \<Rightarrow> try_st (commit_batch ex ds os sv1) (\<lambda>quanta sv2. (Ok (quantum # quanta), sv2))
      | (Err e, sv1) \<Rightarrow> (Err e, abort_running_batch ex (d # ds) sv1)
      | (Panic, sv1) \<Rightarrow> (Panic, sv1))"
| "commit_batch ex ds os sv = (Ok [], sv)"

section \<open>A tick\<close>

fun finish_expired ::
  "('x, 'r, 'e) QuantumExecutor \<Rightarrow> u64 \<Rightarrow> RequestId list \<Rightarrow> ('x, 'e) ScheduledService \<Rightarrow> ('x, 'e) ScheduledService" where
  "finish_expired ex at_ns [] sv = sv"
| "finish_expired ex at_ns (i # ids) sv =
     finish_expired ex at_ns ids (remember_failure (on_executor (qx_finish_at ex i DeadlineExpired at_ns) sv))"

definition finish_expired_requests ::
  "('x, 'r, 'e) QuantumExecutor \<Rightarrow> u64 \<Rightarrow> ('x, 'e) ScheduledService \<Rightarrow> ('x, 'e) ScheduledService" where
  "finish_expired_requests ex at_ns sv =
     (case take_expired_deadlines (sv_scheduler sv) of
        (ids, s) \<Rightarrow> finish_expired ex at_ns ids (sv\<lparr>sv_scheduler := s\<rparr>))"

text \<open>\<open>self.finish_error.take()\<close>.\<close>

definition take_finish_error ::
  "('x, 'e) ScheduledService \<Rightarrow> 'e ServiceError option \<times> ('x, 'e) ScheduledService" where
  "take_finish_error sv = (sv_finish_error sv, sv\<lparr>sv_finish_error := None\<rparr>)"

definition tick_batch_with_limit ::
  "('x, 'r, 'e) QuantumExecutor \<Rightarrow> u64 \<Rightarrow> u32 \<Rightarrow> ('x, 'e) ScheduledService
    \<Rightarrow> (ServiceQuantum list, 'e ServiceError) outcome \<times> ('x, 'e) ScheduledService" where
  "tick_batch_with_limit ex now_ns limit sv =
     (case on_scheduler (dispatch_batch now_ns limit) (sv\<lparr>sv_finish_error := None\<rparr>) of
        (Panic, sv1) \<Rightarrow> (Panic, sv1)
      | (Err e, sv1) \<Rightarrow> (Err e, finish_expired_requests ex now_ns sv1)
      | (Ok ds, sv1) \<Rightarrow>
          (let sv2 = finish_expired_requests ex now_ns sv1
           in if ds = [] then
                (case take_finish_error sv2 of (error, sv3) \<Rightarrow>
                   (case error of None \<Rightarrow> Ok [] | Some e \<Rightarrow> Err e, sv3))
              else
                (let (result, sv3) = try_st (execute_batch_outputs ex ds sv2) (\<lambda>os sv. commit_batch ex ds os sv);
                     (finish_error, sv4) = take_finish_error sv3
                 in case result of
                      Panic \<Rightarrow> (Panic, sv3)
                    | Err e \<Rightarrow> (Err e, sv4)
                    | Ok quanta \<Rightarrow> (case finish_error of None \<Rightarrow> Ok quanta | Some e \<Rightarrow> Err e, sv4))))"

definition tick ::
  "('x, 'r, 'e) QuantumExecutor \<Rightarrow> u64 \<Rightarrow> ('x, 'e) ScheduledService
    \<Rightarrow> (ServiceQuantum option, 'e ServiceError) outcome \<times> ('x, 'e) ScheduledService" where
  "tick ex now_ns sv =
     try_st (tick_batch_with_limit ex now_ns 1 sv) (\<lambda>quanta sv1.
     (Ok (case quanta of [] \<Rightarrow> None | q # _ \<Rightarrow> Some q), sv1))"

definition tick_batch ::
  "('x, 'r, 'e) QuantumExecutor \<Rightarrow> u64 \<Rightarrow> ('x, 'e) ScheduledService
    \<Rightarrow> (ServiceQuantum list, 'e ServiceError) outcome \<times> ('x, 'e) ScheduledService" where
  "tick_batch ex now_ns sv =
     tick_batch_with_limit ex now_ns (sp_max_batch_requests (cs_policy (sv_scheduler sv))) sv"

section \<open>Cancellation and pruning\<close>

definition service_cancel ::
  "('x, 'r, 'e) QuantumExecutor \<Rightarrow> RequestId \<Rightarrow> ('x, 'e) ScheduledService
    \<Rightarrow> (RequestStatus, 'e ServiceError) outcome \<times> ('x, 'e) ScheduledService" where
  "service_cancel ex i sv =
     try_pure (ok_or (status_of (sv_scheduler sv) i) (SchedulerFailed (UnknownRequest i))) sv (\<lambda>before.
     try_st (on_scheduler (cancel i) sv) (\<lambda>status sv1.
     if before = Queued \<and> status = Cancelled
     then (case on_executor (qx_finish ex i status) sv1 of
             (Inl _, sv2) \<Rightarrow> (Ok status, sv2)
           | (Inr e, sv2) \<Rightarrow> (Err (ExecutorFailed e), sv2))
     else (Ok status, sv1)))"

definition service_prune_terminal :: "('x, 'e) ScheduledService \<Rightarrow> ('x, 'e) ScheduledService" where
  "service_prune_terminal sv =
     sv\<lparr>sv_outputs := bt_retain (\<lambda>i _. case status_of (sv_scheduler sv) i of
                                        Some status \<Rightarrow> \<not> is_terminal status | None \<Rightarrow> False) (sv_outputs sv),
        sv_scheduler := prune_terminal (sv_scheduler sv)\<rparr>"

definition service_output :: "('x, 'e) ScheduledService \<Rightarrow> RequestId \<Rightarrow> u32 list option" where
  "service_output sv i = bt_get (sv_outputs sv) i"

definition service_status :: "('x, 'e) ScheduledService \<Rightarrow> RequestId \<Rightarrow> RequestStatus option" where
  "service_status sv i = status_of (sv_scheduler sv) i"

definition service_has_runnable_requests :: "('x, 'e) ScheduledService \<Rightarrow> bool" where
  "service_has_runnable_requests sv = has_runnable_requests (sv_scheduler sv)"

end
