(* ===== verification/Service_Run.thy ===== *)
theory Service_Run
  imports Scheduler_Calls Service
begin

text \<open>
  The scheduled service as a machine. The executor is any record of functions; \<open>logged\<close>
  wraps it so that its state also keeps the calls made on it, and \<open>sessions\<close> replays
  such a log: a session begins once, executes only while it is open, and is finished
  once. The invariant \<open>books\<close> ties the open sessions to the requests the scheduler still
  has to serve; between two calls nothing runs and no expiry is unreported.
\<close>

section \<open>The protocol of the executor\<close>

datatype exec_call = Begun RequestId | Executed "RequestId list" | Finished_Session RequestId

fun session_step :: "exec_call \<Rightarrow> RequestId list \<Rightarrow> RequestId list option" where
  "session_step (Begun i) live = (if i \<in> set live then None else Some (i # live))"
| "session_step (Executed ids) live = (if set ids \<subseteq> set live then Some live else None)"
| "session_step (Finished_Session i) live = (if i \<in> set live then Some (removeAll i live) else None)"

definition sessions :: "exec_call list \<Rightarrow> RequestId list option" where
  "sessions log = fold (\<lambda>c live. Option.bind live (session_step c)) log (Some [])"

lemma sessions_Nil [simp]: "sessions [] = Some []"
  by (simp add: sessions_def)

lemma sessions_snoc [simp]: "sessions (log @ [c]) = Option.bind (sessions log) (session_step c)"
  by (simp add: sessions_def)

definition note_call :: "('a + 'e) \<times> 'x \<Rightarrow> exec_call list \<Rightarrow> ('a + 'e) \<times> 'x \<times> exec_call list" where
  "note_call m log = (fst m, snd m, log)"

definition logged :: "('x, 'r, 'e) QuantumExecutor \<Rightarrow> ('x \<times> exec_call list, 'r, 'e) QuantumExecutor" where
  "logged ex =
     \<lparr>qx_begin = (\<lambda>i req (x, log). case qx_begin ex i req x of
          (Inl u, y) \<Rightarrow> (Inl u, y, log @ [Begun i]) | (Inr e, y) \<Rightarrow> (Inr e, y, log)),
      qx_execute_batch = (\<lambda>ds (x, log). note_call (qx_execute_batch ex ds x) (log @ [Executed (map dp_request_id ds)])),
      qx_finish = (\<lambda>i status (x, log). note_call (qx_finish ex i status x) (log @ [Finished_Session i])),
      qx_finish_at = (\<lambda>i status at_ns (x, log). note_call (qx_finish_at ex i status at_ns x) (log @ [Finished_Session i]))\<rparr>"

section \<open>The invariant\<close>

abbreviation sched_of :: "('x, 'e) ScheduledService \<Rightarrow> ContinuousScheduler" where
  "sched_of sv \<equiv> sv_scheduler sv"

definition alive :: "ContinuousScheduler \<Rightarrow> RequestId \<Rightarrow> bool" where
  "alive s i \<longleftrightarrow> (\<exists>r. bt_get (cs_requests s) i = Some r \<and> \<not> is_terminal (rs_status r))"

definition outputs_ok :: "ContinuousScheduler \<Rightarrow> (RequestId, u32 list) btree_map \<Rightarrow> bool" where
  "outputs_ok s outputs \<longleftrightarrow> (\<forall>i r. bt_get (cs_requests s) i = Some r \<longrightarrow> \<not> is_terminal (rs_status r) \<longrightarrow>
     (\<exists>out. bt_get outputs i = Some out \<and> length out = unat (rs_emitted_tokens r)))"

text \<open>\<open>owed_finish\<close> are sessions that are open although their request has ended.\<close>

definition books :: "RequestId set \<Rightarrow> ('x \<times> exec_call list, 'e) ScheduledService \<Rightarrow> bool" where
  "books owed_finish sv \<longleftrightarrow>
     sched_ok (sched_of sv) \<and> bt_ok (sv_outputs sv) \<and> outputs_ok (sched_of sv) (sv_outputs sv) \<and>
     (\<forall>i\<in>owed_finish. \<not> alive (sched_of sv) i) \<and>
     (\<exists>live. sessions (snd (sv_executor sv)) = Some live \<and> set live = {i. alive (sched_of sv) i} \<union> owed_finish)"

lemma booksD:
  assumes "books P sv"
  shows "sched_ok (sched_of sv)" "bt_ok (sv_outputs sv)" "outputs_ok (sched_of sv) (sv_outputs sv)"
    "\<And>i. i \<in> P \<Longrightarrow> \<not> alive (sched_of sv) i"
  using assms by (auto simp: books_def)

lemma books_frame [simp]: "books P (sv\<lparr>sv_finish_error := e\<rparr>) = books P sv"
  by (simp add: books_def)

lemma running_alive: "sched_ok s \<Longrightarrow> bt_get (cs_running s) i = Some d \<Longrightarrow> alive s i"
  by (metis running_request alive_def RequestStatus.distinct is_terminal.simps)

text \<open>A scheduler call that adds no live request and emits nothing: what ended is owed a finish.\<close>

lemma books_scheduler:
  assumes "books P sv" and "sched_ok t"
    and "\<forall>i r. bt_get (cs_requests t) i = Some r \<longrightarrow> \<not> is_terminal (rs_status r) \<longrightarrow>
      (\<exists>q. bt_get (cs_requests (sched_of sv)) i = Some q \<and> \<not> is_terminal (rs_status q) \<and> rs_emitted_tokens r = rs_emitted_tokens q)"
  shows "books (P \<union> {i. alive (sched_of sv) i \<and> \<not> alive t i}) (sv\<lparr>sv_scheduler := t\<rparr>)"
proof -
  have sub: "alive (sched_of sv) i" if "alive t i" for i using assms(3) that by (auto simp: alive_def)
  have "outputs_ok t (sv_outputs sv)"
    unfolding outputs_ok_def
  proof (intro allI impI)
    fix i r
    assume "bt_get (cs_requests t) i = Some r" "\<not> is_terminal (rs_status r)"
    then obtain q where "bt_get (cs_requests (sched_of sv)) i = Some q" "\<not> is_terminal (rs_status q)"
      "rs_emitted_tokens r = rs_emitted_tokens q" using assms(3) by blast
    then show "\<exists>out. bt_get (sv_outputs sv) i = Some out \<and> length out = unat (rs_emitted_tokens r)"
      using booksD(3) [OF assms(1)] by (auto simp: outputs_ok_def)
  qed
  then show ?thesis using assms(1,2) sub by (auto simp: books_def)
qed

text \<open>Finishing a session that is owed it.\<close>

lemma books_finish:
  assumes "books (insert i P) sv" and "i \<notin> P"
    and "x' = (x, log @ [Finished_Session i])" and "snd (sv_executor sv) = log"
  shows "books P (sv\<lparr>sv_executor := x'\<rparr>)"
proof -
  obtain live where live: "sessions log = Some live" "set live = {i. alive (sched_of sv) i} \<union> insert i P"
    using assms(1,4) by (auto simp: books_def)
  have "\<not> alive (sched_of sv) i" using assms(1) by (simp add: books_def)
  then show ?thesis using assms live by (auto simp: books_def)
qed

lemma logged_simps [simp]:
  "qx_finish (logged ex) i status (x, log) = note_call (qx_finish ex i status x) (log @ [Finished_Session i])"
  "qx_finish_at (logged ex) i status at_ns (x, log) = note_call (qx_finish_at ex i status at_ns x) (log @ [Finished_Session i])"
  "qx_execute_batch (logged ex) ds (x, log) = note_call (qx_execute_batch ex ds x) (log @ [Executed (map dp_request_id ds)])"
  by (simp_all add: logged_def)

lemma finish_logged:
  assumes "books (insert i P) sv" and "i \<notin> P"
    and "on_executor (qx_finish (logged ex) i status) sv = (r, sv1) \<or>
      on_executor (qx_finish_at (logged ex) i status at_ns) sv = (r, sv1)"
  shows "books P sv1 \<and> sched_of sv1 = sched_of sv \<and> sv_outputs sv1 = sv_outputs sv \<and> sv_finish_error sv1 = sv_finish_error sv"
proof -
  obtain x log where x: "sv_executor sv = (x, log)" by fastforce
  obtain y where y: "sv1 = sv\<lparr>sv_executor := (y, log @ [Finished_Session i])\<rparr>"
    using assms(3) by (elim disjE) (auto simp: on_executor_def note_call_def x)
  show ?thesis using books_finish [OF assms(1,2), of "(y, log @ [Finished_Session i])" y log] x by (simp add: y)
qed

lemma remember_failure_frame [simp]:
  "sched_of (remember_failure m) = sched_of (snd m)" "sv_outputs (remember_failure m) = sv_outputs (snd m)"
  "books P (remember_failure m) = books P (snd m)"
  by (auto simp: remember_failure_def remember_finish_error_def split: prod.splits sum.splits)

lemma remember_finish_logged:
  assumes "books (insert i P) sv" and "i \<notin> P"
    and "on_executor (qx_finish (logged ex) i status) sv = m \<or> on_executor (qx_finish_at (logged ex) i status at_ns) sv = m"
  shows "books P (remember_failure m) \<and> sched_of (remember_failure m) = sched_of sv \<and> sv_outputs (remember_failure m) = sv_outputs sv"
proof -
  obtain r sv1 where m: "m = (r, sv1)" by fastforce
  show ?thesis
    using finish_logged [OF assms(1,2) assms(3) [unfolded m]] by (simp add: m)
qed

section \<open>Aborting\<close>

lemma abort_quantum_run:
  assumes ok: "sched_ok s" and run: "bt_get (cs_running s) i = Some d"
  obtains r t where "bt_get (cs_requests s) i = Some r" and "rs_status r = Running"
    and "abort_quantum i s = (Ok Cancelled, t)" and "sched_ok t"
    and "bt_get (cs_requests t) =
      (bt_get (cs_requests s))(i \<mapsto> r\<lparr>rs_status := Cancelled, rs_cancellation_requested := False, rs_reserved_kv_bytes := 0\<rparr>)"
    and "bt_get (cs_running t) = (bt_get (cs_running s))(i := None)" and "cs_expired t = cs_expired s"
proof -
  obtain r where r: "bt_get (cs_requests s) i = Some r" "rs_status r = Running"
    using running_request [OF ok run] by blast
  obtain res t where t: "abort_quantum i s = (res, t)" by fastforce
  have "sched_ok t" using abort_quantum_ok [OF ok t] by simp
  then show thesis by (intro that [OF r, of t]) (use run r t in \<open>auto simp: abort_quantum_def\<close>)
qed

text \<open>What aborting and finishing one running request leaves behind.\<close>

definition cancelled_in :: "ContinuousScheduler \<Rightarrow> RequestId set \<Rightarrow> ContinuousScheduler \<Rightarrow> bool" where
  "cancelled_in s ids t \<longleftrightarrow> cs_expired t = cs_expired s \<and>
     (\<forall>i. bt_get (cs_running t) i = (if i \<in> ids then None else bt_get (cs_running s) i)) \<and>
     (\<forall>i. i \<notin> ids \<longrightarrow> bt_get (cs_requests t) i = bt_get (cs_requests s) i) \<and>
     (\<forall>i\<in>ids. \<exists>r. bt_get (cs_requests t) i = Some r \<and> rs_status r = Cancelled \<and> rs_reserved_kv_bytes r = 0)"

lemma cancelled_in_running: "cancelled_in s ids t \<Longrightarrow> bt_get (cs_running t) i = (if i \<in> ids then None else bt_get (cs_running s) i)"
  by (simp add: cancelled_in_def)

lemma cancelled_in_trans:
  "cancelled_in s A t \<Longrightarrow> cancelled_in t B u \<Longrightarrow> A \<inter> B = {} \<Longrightarrow> cancelled_in s (A \<union> B) u"
  by (fastforce simp: cancelled_in_def)

lemma abort_books:
  assumes b: "books P sv" and run: "bt_get (cs_running (sched_of sv)) i = Some d"
  obtains t where "on_scheduler (abort_quantum i) sv = (Ok Cancelled, sv\<lparr>sv_scheduler := t\<rparr>)"
    and "books (insert i P) (sv\<lparr>sv_scheduler := t\<rparr>)" and "i \<notin> P" and "cancelled_in (sched_of sv) {i} t"
proof -
  obtain r t where r: "bt_get (cs_requests (sched_of sv)) i = Some r" "rs_status r = Running"
    "abort_quantum i (sched_of sv) = (Ok Cancelled, t)" "sched_ok t"
    "bt_get (cs_requests t) =
      (bt_get (cs_requests (sched_of sv)))(i \<mapsto> r\<lparr>rs_status := Cancelled, rs_cancellation_requested := False, rs_reserved_kv_bytes := 0\<rparr>)"
    "bt_get (cs_running t) = (bt_get (cs_running (sched_of sv)))(i := None)" "cs_expired t = cs_expired (sched_of sv)"
    by (rule abort_quantum_run [OF booksD(1) [OF b] run])
  have "\<forall>j q. bt_get (cs_requests t) j = Some q \<longrightarrow> \<not> is_terminal (rs_status q) \<longrightarrow>
      (\<exists>p. bt_get (cs_requests (sched_of sv)) j = Some p \<and> \<not> is_terminal (rs_status p) \<and> rs_emitted_tokens q = rs_emitted_tokens p)"
    by (simp add: r(5))
  note B = books_scheduler [OF b r(4) this]
  have ended: "{j. alive (sched_of sv) j \<and> \<not> alive t j} = {i}"
    using r(1,2) by (auto simp: alive_def r(5) split: if_splits)
  have "i \<notin> P" using booksD(4) [OF b, of i] running_alive [OF booksD(1) [OF b] run] by blast
  then show thesis using that [of t] B r(3,5,6,7) by (simp add: on_scheduler_def cancelled_in_def ended)
qed

lemma abort_quanta_run:
  assumes "books {} sv" and "\<forall>d\<in>set ds. bt_get (cs_running (sched_of sv)) (dp_request_id d) = Some d"
    and "distinct (map dp_request_id ds)" and "abort_quanta (logged ex) ds first_error sv = (r, sv1)"
    and "\<forall>x. first_error = Some x \<longrightarrow> (\<exists>y. x = ExecutorFailed y)"
  shows "(\<exists>e. r = Ok e \<and> (\<forall>x. e = Some x \<longrightarrow> (\<exists>y. x = ExecutorFailed y))) \<and> books {} sv1 \<and>
    cancelled_in (sched_of sv) (dp_request_id ` set ds) (sched_of sv1) \<and> sv_outputs sv1 = sv_outputs sv"
  using assms
proof (induction ds arbitrary: sv first_error)
  case Nil
  then show ?case by (auto simp: cancelled_in_def)
next
  case (Cons d ds)
  let ?i = "dp_request_id d"
  have run: "bt_get (cs_running (sched_of sv)) ?i = Some d" using Cons.prems(2) by simp
  obtain t where A: "on_scheduler (abort_quantum ?i) sv = (Ok Cancelled, sv\<lparr>sv_scheduler := t\<rparr>)"
    "books (insert ?i {}) (sv\<lparr>sv_scheduler := t\<rparr>)" "cancelled_in (sched_of sv) {?i} t"
    by (rule abort_books [OF Cons.prems(1) run])
  obtain rf sv2 where f: "on_executor (qx_finish (logged ex) ?i Cancelled) (sv\<lparr>sv_scheduler := t\<rparr>) = (rf, sv2)" by fastforce
  have F: "books {} sv2" "sched_of sv2 = t" "sv_outputs sv2 = sv_outputs sv"
    using finish_logged [OF A(2) _ disjI1 [OF f]] by simp_all
  have next_run: "\<forall>d\<in>set ds. bt_get (cs_running (sched_of sv2)) (dp_request_id d) = Some d"
  proof
    fix x
    assume "x \<in> set ds"
    then have "dp_request_id x \<in> dp_request_id ` set ds" "x \<in> set (d # ds)" by simp_all
    then have "dp_request_id x \<noteq> ?i" "bt_get (cs_running (sched_of sv)) (dp_request_id x) = Some x"
      using Cons.prems(3) bspec [OF Cons.prems(2)] by auto
    then show "bt_get (cs_running (sched_of sv2)) (dp_request_id x) = Some x"
      using cancelled_in_running [OF A(3)] by (simp add: F(2))
  qed
  define fe where "fe = (case rf of Inl _ \<Rightarrow> first_error
    | Inr e \<Rightarrow> if first_error = None then Some (ExecutorFailed e) else first_error)"
  have fe: "\<forall>x. fe = Some x \<longrightarrow> (\<exists>y. x = ExecutorFailed y)"
    using Cons.prems(5) by (simp add: fe_def split: sum.splits)
  have rest: "abort_quanta (logged ex) ds fe sv2 = (r, sv1)"
    using Cons.prems(4) A(1) f by (cases rf) (simp_all add: fe_def)
  have d: "distinct (map dp_request_id ds)" "{?i} \<inter> dp_request_id ` set ds = {}" using Cons.prems(3) by auto
  note IH = Cons.IH [OF F(1) next_run d(1) rest fe]
  have "cancelled_in t (dp_request_id ` set ds) (sched_of sv1)" using IH F(2) by simp
  from cancelled_in_trans [OF A(3) this d(2)]
  have "cancelled_in (sched_of sv) (dp_request_id ` set (d # ds)) (sched_of sv1)" by simp
  moreover have "sv_outputs sv1 = sv_outputs sv" using IH F(3) by simp
  ultimately show ?case using IH by blast
qed

lemma abort_with_error_run:
  assumes "books {} sv" and "\<forall>d\<in>set ds. bt_get (cs_running (sched_of sv)) (dp_request_id d) = Some d"
    and "distinct (map dp_request_id ds)" and "abort_with_error (logged ex) ds error sv = (r, sv1)"
  shows "(r = Err error \<or> (\<exists>e. r = Err (ExecutorFailed e))) \<and> books {} sv1 \<and>
    cancelled_in (sched_of sv) (dp_request_id ` set ds) (sched_of sv1) \<and> sv_outputs sv1 = sv_outputs sv"
proof -
  obtain ra sv2 where a: "abort_quanta (logged ex) ds None sv = (ra, sv2)" by fastforce
  from abort_quanta_run [OF assms(1-3) a]
  obtain e where e: "ra = Ok e" "\<forall>x. e = Some x \<longrightarrow> (\<exists>y. x = ExecutorFailed y)" and rest: "books {} sv2"
    "cancelled_in (sched_of sv) (dp_request_id ` set ds) (sched_of sv2)" "sv_outputs sv2 = sv_outputs sv" by auto
  have "sv1 = sv2" "r = (case e of None \<Rightarrow> Err error | Some x \<Rightarrow> Err x)"
    using assms(4) a e(1) by (auto simp: abort_with_error_def abort_batch_def split: option.splits)
  then show ?thesis using e(2) rest by (auto split: option.splits)
qed

section \<open>Executing and committing a batch\<close>

definition output_valid :: "Dispatch \<Rightarrow> QuantumOutput \<Rightarrow> bool" where
  "output_valid d out \<longleftrightarrow> length (qo_tokens out) \<le> unat (dp_token_budget d) \<and>
     invalid_output_for_dispatch d out = (None :: unit ServiceError option)"

lemma invalid_output_None:
  "invalid_output_for_dispatch d out = (None :: 'e ServiceError option) \<longleftrightarrow>
   invalid_output_for_dispatch d out = (None :: unit ServiceError option)"
  by (cases "dp_kind d"; cases "qo_prefill out")
     (auto simp: invalid_output_for_dispatch_def invalid_prefill_output_def invalid_decode_output_def)

lemma find_map_some_None: "find_map_some f xs = None \<longleftrightarrow> (\<forall>x\<in>set xs. f x = None)"
  by (induction xs) (auto split: option.splits)

lemma find_map_some_Some: "find_map_some f xs = Some y \<Longrightarrow> \<exists>x\<in>set xs. f x = Some y"
  by (induction xs) (auto split: option.splits)

lemma invalid_phase_kind: "invalid_output_phase ds os = Some error \<Longrightarrow> error \<noteq> SchedulerFailed e"
  unfolding invalid_output_phase_def
  by (drule find_map_some_Some)
     (auto simp: invalid_output_for_dispatch_def invalid_prefill_output_def invalid_decode_output_def
       split: DispatchKind.splits option.splits if_splits)

lemma outputs_valid:
  assumes "over_budget_output ds os = None" and "invalid_output_phase ds os = (None :: 'e ServiceError option)"
    and "(d, out) \<in> set (zip ds os)"
  shows "output_valid d out"
proof -
  have "\<not> unat (dp_token_budget d) < length (qo_tokens out)"
    using assms(1,3) unfolding over_budget_output_def by (auto simp: find_None_iff)
  moreover have "invalid_output_for_dispatch d out = (None :: 'e ServiceError option)"
    using assms(2,3) unfolding invalid_output_phase_def find_map_some_None by auto
  then have "invalid_output_for_dispatch d out = (None :: unit ServiceError option)"
    by (rule invalid_output_None [THEN iffD1])
  ultimately show ?thesis by (simp add: output_valid_def)
qed

lemma phase_invalid:
  assumes "invalid_output_phase ds os = Some (error :: 'e ServiceError)"
  shows "\<exists>x\<in>set (zip ds os). \<not> output_valid (fst x) (snd x)"
proof -
  obtain x where x: "x \<in> set (zip ds os)" "invalid_output_for_dispatch (fst x) (snd x) = Some error"
    using find_map_some_Some [OF assms [unfolded invalid_output_phase_def]] by (auto simp: case_prod_unfold)
  then have "\<not> invalid_output_for_dispatch (fst x) (snd x) = (None :: 'e ServiceError option)" by simp
  then have "\<not> invalid_output_for_dispatch (fst x) (snd x) = (None :: unit ServiceError option)"
    by (rule contrapos_nn) (rule invalid_output_None [THEN iffD2])
  then have "\<not> output_valid (fst x) (snd x)" unfolding output_valid_def by blast
  then show ?thesis using x(1) by blast
qed

lemma over_budget_invalid:
  assumes "over_budget_output ds os = Some p"
  shows "\<exists>x\<in>set (zip ds os). \<not> output_valid (fst x) (snd x)"
proof -
  obtain x where x: "List.find (\<lambda>(d, out). unat (dp_token_budget d) < length (qo_tokens out)) (zip ds os) = Some x"
    using assms unfolding over_budget_output_def by (auto simp: map_option_case split: option.splits)
  from iffD1 [OF find_Some_iff this]
  obtain i where "i < length (zip ds os)" "unat (dp_token_budget (fst x)) < length (qo_tokens (snd x))" "x = zip ds os ! i"
    by (auto simp only: case_prod_unfold)
  then have "x \<in> set (zip ds os)" "unat (dp_token_budget (fst x)) < length (qo_tokens (snd x))"
    by (simp_all only: nth_mem)
  then show ?thesis by (auto simp: output_valid_def intro!: bexI [of _ x])
qed

lemma output_valid_quantum:
  assumes "output_valid d out" and "length (qo_tokens out) < 2 ^ 32"
  shows "quantum_valid d (of_nat (length (qo_tokens out))) (quantum_progress d out)"
proof -
  have u: "unat (of_nat (length (qo_tokens out)) :: u32) = length (qo_tokens out)"
    using assms(2) by (simp add: unsigned_of_nat take_bit_nat_eq_self)
  have fit: "(of_nat (length (qo_tokens out)) :: u32) \<le> dp_token_budget d"
    using assms(1) u by (simp add: output_valid_def word_le_nat_alt)
  show ?thesis
    using assms u fit by (cases "dp_kind d"; cases "qo_prefill out")
      (auto simp: output_valid_def quantum_valid_def quantum_progress_def word_of_usize_def not_less
        invalid_output_for_dispatch_def invalid_prefill_output_def split: if_splits)
qed

lemma books_commit:
  assumes b: "books {} sv" and ok: "sched_ok t" and req: "bt_get (cs_requests (sched_of sv)) i = Some y"
    and live: "\<not> is_terminal (rs_status y)"
    and t: "bt_get (cs_requests t) = (bt_get (cs_requests (sched_of sv)))(i \<mapsto> z)"
    and out: "bt_get (sv_outputs sv) i = Some so_far" and n: "unat (rs_emitted_tokens z) = length so_far + length tokens"
  shows "books (if is_terminal (rs_status z) then {i} else {})
    (sv\<lparr>sv_scheduler := t, sv_outputs := bt_insert i (so_far @ tokens) (sv_outputs sv)\<rparr>)"
proof -
  have a: "alive (sched_of sv) i" using req live by (simp add: alive_def)
  have at: "alive t j \<longleftrightarrow> (if j = i then \<not> is_terminal (rs_status z) else alive (sched_of sv) j)" for j
    by (simp add: alive_def t)
  have "outputs_ok t (bt_insert i (so_far @ tokens) (sv_outputs sv))"
    using booksD(3) [OF b] n by (simp add: outputs_ok_def t)
  moreover have "{j. alive (sched_of sv) j} = {j. alive t j} \<union> (if is_terminal (rs_status z) then {i} else {})"
    using a at by (auto split: if_splits)
  ultimately show ?thesis using b ok at by (auto simp: books_def)
qed

lemma complete_expired:
  "complete_quantum_with_progress i emitted progress ready eos s = (res, t) \<Longrightarrow> cs_expired t = cs_expired s"
  by (auto simp: complete_quantum_with_progress_def try_pure_cases Let_def split: outcome.splits prod.splits if_splits)

lemma flag_books:
  assumes b: "books {} sv" and run: "bt_get (cs_running (sched_of sv)) i = Some d"
  obtains t where "on_scheduler (cancel i) sv = (Ok Running, sv\<lparr>sv_scheduler := t\<rparr>)"
    and "books {} (sv\<lparr>sv_scheduler := t\<rparr>)" and "cs_running t = cs_running (sched_of sv)" and "cs_expired t = cs_expired (sched_of sv)"
    and "\<And>j. j \<noteq> i \<Longrightarrow> bt_get (cs_requests t) j = bt_get (cs_requests (sched_of sv)) j"
proof -
  obtain r where r: "bt_get (cs_requests (sched_of sv)) i = Some r" "rs_status r = Running"
    using running_request [OF booksD(1) [OF b] run] by blast
  obtain res t where c: "cancel i (sched_of sv) = (res, t)" by fastforce
  have t: "res = Ok Running" "bt_get (cs_requests t) = (bt_get (cs_requests (sched_of sv)))(i \<mapsto> r\<lparr>rs_cancellation_requested := True\<rparr>)"
    "cs_running t = cs_running (sched_of sv)" "cs_expired t = cs_expired (sched_of sv)"
    using c r by (auto simp: cancel_def)
  have ok: "sched_ok t" using cancel_ok [OF booksD(1) [OF b] c] by simp
  have "\<forall>j q. bt_get (cs_requests t) j = Some q \<longrightarrow> \<not> is_terminal (rs_status q) \<longrightarrow>
      (\<exists>p. bt_get (cs_requests (sched_of sv)) j = Some p \<and> \<not> is_terminal (rs_status p) \<and> rs_emitted_tokens q = rs_emitted_tokens p)"
    using r by (simp add: t(2))
  note B = books_scheduler [OF b ok this]
  have none: "{j. alive (sched_of sv) j \<and> \<not> alive t j} = {}"
    using r by (auto simp: alive_def t(2) split: if_splits)
  show thesis by (rule that [of t]) (use B [unfolded none] t c in \<open>simp_all add: on_scheduler_def\<close>)
qed

lemma commit_quantum_run:
  assumes b: "books {} sv" and run: "bt_get (cs_running (sched_of sv)) (dp_request_id d) = Some d"
    and v: "output_valid d out" and c: "commit_quantum (logged ex) d out sv = (r, sv1)"
    and n: "r \<noteq> Err (SchedulerFailed AccountingOverflow)"
  shows "\<exists>q so_far. r = Ok q \<and> sq_tokens q = qo_tokens out \<and> qc_request_id (sq_completion q) = dp_request_id d \<and> books {} sv1 \<and>
    cs_expired (sched_of sv1) = cs_expired (sched_of sv) \<and>
    bt_get (cs_running (sched_of sv1)) = (bt_get (cs_running (sched_of sv)))(dp_request_id d := None) \<and>
    bt_get (sv_outputs sv) (dp_request_id d) = Some so_far \<and>
    bt_get (sv_outputs sv1) = (bt_get (sv_outputs sv))(dp_request_id d \<mapsto> so_far @ qo_tokens out)"
proof -
  let ?i = "dp_request_id d" and ?n = "of_nat (length (qo_tokens out)) :: u32"
  have inv: "invalid_output_for_dispatch d out = (None :: 'b ServiceError option)"
    using v invalid_output_None [THEN iffD2] by (auto simp: output_valid_def)
  have le: "length (qo_tokens out) \<le> unat (dp_token_budget d)" using v by (simp add: output_valid_def)
  then have n32: "length (qo_tokens out) < 2 ^ 32" using unat_lt_2p [of "dp_token_budget d"] by simp
  define mid where "mid = (if qo_cancelled out then snd (on_scheduler (cancel ?i) sv) else sv)"
  obtain t where t: "on_scheduler (cancel ?i) sv = (Ok Running, sv\<lparr>sv_scheduler := t\<rparr>)"
    "books {} (sv\<lparr>sv_scheduler := t\<rparr>)" "cs_running t = cs_running (sched_of sv)" "cs_expired t = cs_expired (sched_of sv)"
    by (rule flag_books [OF b run])
  have mid: "books {} mid" "cs_running (sched_of mid) = cs_running (sched_of sv)" "cs_expired (sched_of mid) = cs_expired (sched_of sv)"
    "sv_outputs mid = sv_outputs sv"
    using b t by (simp_all add: mid_def)
  have runm: "bt_get (cs_running (sched_of mid)) ?i = Some d" using run mid(2) by simp
  obtain y where y: "bt_get (cs_requests (sched_of mid)) ?i = Some y" "rs_status y = Running"
    using running_request [OF booksD(1) [OF mid(1)] runm] by blast
  then obtain so_far where so: "bt_get (sv_outputs sv) ?i = Some so_far" "length so_far = unat (rs_emitted_tokens y)"
    using booksD(3) [OF mid(1)] mid(4) by (fastforce simp: outputs_ok_def)
  let ?ready = "case qo_prefill out of None \<Rightarrow> False | Some progress \<Rightarrow> pp_ready progress"
  obtain res u where cq: "complete_quantum_with_progress ?i ?n (quantum_progress d out) ?ready (qo_eos out) (sched_of mid) = (res, u)"
    by fastforce
  have stage: "(if qo_cancelled out then try_st (on_scheduler (cancel ?i) sv) (\<lambda>_ sv1. (Ok (), sv1)) else (Ok (), sv)) = (Ok (), mid)"
    using t(1) by (simp add: mid_def)
  have os: "on_scheduler (complete_quantum_with_progress ?i ?n (quantum_progress d out) ?ready (qo_eos out)) mid =
      (map_err SchedulerFailed res, mid\<lparr>sv_scheduler := u\<rparr>)"
    by (simp add: on_scheduler_def cq)
  have whole: "commit_quantum (logged ex) d out sv = try_st (map_err SchedulerFailed res, mid\<lparr>sv_scheduler := u\<rparr>) (\<lambda>completion sv2.
      let sv3 = sv2\<lparr>sv_outputs := bt_insert ?i (so_far @ qo_tokens out) (sv_outputs sv2)\<rparr>;
          sv4 = (if is_terminal (qc_status completion)
                 then remember_failure (on_executor (qx_finish (logged ex) ?i (qc_status completion)) sv3) else sv3)
      in (Ok \<lparr>sq_completion = completion, sq_kind = dp_kind d, sq_progress_tokens = quantum_progress d out,
              sq_tokens = qo_tokens out\<rparr>, sv4))"
    unfolding commit_quantum_def stage
    using le n32 inv so(1) mid(4) os by (cases res) (simp_all add: not_less)
  have nores: "res \<noteq> Err AccountingOverflow" using c n whole by auto
  obtain q st where q: "res = Ok \<lparr>qc_request_id = ?i, qc_emitted_tokens = ?n, qc_status = rs_status q\<rparr>"
    "apply_quantum_state d ?n (quantum_progress d out) ?ready (qo_eos out) (y, cs_stats (sched_of mid)) = (Ok (), q, st)"
    "cs_requests u = bt_insert ?i (settle q) (cs_requests (sched_of mid))" "cs_running u = bt_remove ?i (cs_running (sched_of mid))"
    "sched_ok u" "cs_policy u = cs_policy (sched_of mid)"
    by (rule complete_valid_run [OF booksD(1) [OF mid(1)] runm output_valid_quantum [OF v n32] y(1) cq nores])
  have n': "unat ?n = length (qo_tokens out)" using n32 by (simp add: unsigned_of_nat take_bit_nat_eq_self)
  have em: "unat (rs_emitted_tokens (settle q)) = length so_far + length (qo_tokens out)"
    using quantum_state_emitted [OF q(2) output_valid_quantum [OF v n32]] so(2) n' by simp
  define sv3 where "sv3 = mid\<lparr>sv_scheduler := u, sv_outputs := bt_insert ?i (so_far @ qo_tokens out) (sv_outputs mid)\<rparr>"
  have live: "\<not> is_terminal (rs_status y)" by (simp add: y(2))
  have outm: "bt_get (sv_outputs mid) ?i = Some so_far" using so(1) mid(4) by simp
  have upd: "bt_get (cs_requests u) = (bt_get (cs_requests (sched_of mid)))(?i \<mapsto> settle q)" by (simp add: q(3))
  have ss: "rs_status (settle q) = rs_status q" by (simp add: settle_def)
  have b3: "books (if is_terminal (rs_status q) then {?i} else {}) sv3"
    using books_commit [OF mid(1) q(5) y(1) live upd outm em] by (simp add: sv3_def ss)
  have fin: "books {} sv1 \<and> sched_of sv1 = u \<and> sv_outputs sv1 = sv_outputs sv3"
  proof (cases "is_terminal (rs_status q)")
    case True
    then have "sv1 = remember_failure (on_executor (qx_finish (logged ex) ?i (rs_status q)) sv3)"
      using c whole q(1) by (simp add: sv3_def)
    then show ?thesis
      using remember_finish_logged [of ?i "{}" sv3 ex "rs_status q"] b3 True by (simp add: sv3_def)
  next
    case False
    then have "sv1 = sv3" using c whole q(1) by (simp add: sv3_def)
    then show ?thesis using b3 False by (simp add: sv3_def)
  qed
  moreover have "bt_get (sv_outputs sv3) = (bt_get (sv_outputs sv))(?i \<mapsto> so_far @ qo_tokens out)"
    using mid(4) by (simp add: sv3_def)
  moreover have "cs_expired u = cs_expired (sched_of sv)" using complete_expired [OF cq] mid(3) by simp
  moreover have "bt_get (cs_running u) = (bt_get (cs_running (sched_of sv)))(?i := None)" using q(4) mid(2) by simp
  moreover have "\<exists>w. r = Ok w \<and> sq_tokens w = qo_tokens out \<and> qc_request_id (sq_completion w) = ?i"
    using c whole q(1) by (auto simp: Let_def)
  ultimately show ?thesis using so(1) by auto
qed

text \<open>A batch of valid outputs commits, unless the accounting overflows.\<close>

definition tokens_for :: "RequestId \<Rightarrow> ServiceQuantum list \<Rightarrow> u32 list" where
  "tokens_for i qs = concat (map sq_tokens (filter (\<lambda>q. qc_request_id (sq_completion q) = i) qs))"

lemma tokens_for_simps [simp]:
  "tokens_for i [] = []"
  "tokens_for i (q # qs) = (if qc_request_id (sq_completion q) = i then sq_tokens q else []) @ tokens_for i qs"
  by (simp_all add: tokens_for_def)

definition all_running :: "ContinuousScheduler \<Rightarrow> Dispatch list \<Rightarrow> bool" where
  "all_running s ds \<longleftrightarrow> distinct (map dp_request_id ds) \<and> (\<forall>d\<in>set ds. bt_get (cs_running s) (dp_request_id d) = Some d)"

lemma all_running_Cons:
  "all_running s (d # ds) \<longleftrightarrow> bt_get (cs_running s) (dp_request_id d) = Some d \<and> dp_request_id d \<notin> dp_request_id ` set ds \<and> all_running s ds"
  by (auto simp: all_running_def)

lemma all_running_other:
  assumes "all_running s ds" and "i \<notin> dp_request_id ` set ds" and "bt_get (cs_running t) = (bt_get (cs_running s))(i := None)"
  shows "all_running t ds"
  using assms by (auto simp: all_running_def)

lemma commit_batch_run:
  assumes "books {} sv" and "all_running (sched_of sv) ds" and "length os = length ds"
    and "\<forall>x\<in>set (zip ds os). output_valid (fst x) (snd x)"
    and "commit_batch (logged ex) ds os sv = (r, sv1)" and "r \<noteq> Err (SchedulerFailed AccountingOverflow)"
  shows "\<exists>qs. r = Ok qs \<and> length qs = length ds \<and> books {} sv1 \<and> cs_expired (sched_of sv1) = cs_expired (sched_of sv) \<and>
    (\<forall>i. bt_get (cs_running (sched_of sv1)) i = (if i \<in> dp_request_id ` set ds then None else bt_get (cs_running (sched_of sv)) i)) \<and>
    (\<forall>i. bt_get (sv_outputs sv1) i = map_option (\<lambda>out. out @ tokens_for i qs) (bt_get (sv_outputs sv) i))"
  using assms
proof (induction ds arbitrary: os sv r sv1)
  case Nil
  then show ?case by (auto simp: option.map_ident)
next
  case (Cons d ds)
  obtain out os' where os: "os = out # os'" using Cons.prems(3) by (cases os) auto
  have run: "bt_get (cs_running (sched_of sv)) (dp_request_id d) = Some d" "dp_request_id d \<notin> dp_request_id ` set ds"
    "all_running (sched_of sv) ds"
    using Cons.prems(2) by (simp_all add: all_running_Cons)
  have v: "output_valid d out" using Cons.prems(4) os by simp
  obtain r1 sv2 where c: "commit_quantum (logged ex) d out sv = (r1, sv2)" by fastforce
  have "r1 \<noteq> Err (SchedulerFailed AccountingOverflow)" using Cons.prems(5,6) c os by auto
  from commit_quantum_run [OF Cons.prems(1) run(1) v c this]
  obtain q so_far where q: "r1 = Ok q" "sq_tokens q = qo_tokens out" "qc_request_id (sq_completion q) = dp_request_id d" "books {} sv2"
    "cs_expired (sched_of sv2) = cs_expired (sched_of sv)"
    "bt_get (cs_running (sched_of sv2)) = (bt_get (cs_running (sched_of sv)))(dp_request_id d := None)"
    "bt_get (sv_outputs sv) (dp_request_id d) = Some so_far"
    "bt_get (sv_outputs sv2) = (bt_get (sv_outputs sv))(dp_request_id d \<mapsto> so_far @ qo_tokens out)"
    by blast
  obtain r2 sv3 where rest: "commit_batch (logged ex) ds os' sv2 = (r2, sv3)" by fastforce
  have r: "(r, sv1) = try_st (r2, sv3) (\<lambda>quanta sv2. (Ok (q # quanta), sv2))"
    using Cons.prems(5) c q(1) rest by (simp add: os)
  have n2: "r2 \<noteq> Err (SchedulerFailed AccountingOverflow)" using Cons.prems(6) r by auto
  have valid: "\<forall>x\<in>set (zip ds os'). output_valid (fst x) (snd x)" using Cons.prems(4) os by simp
  have len: "length os' = length ds" using Cons.prems(3) os by simp
  from Cons.IH [OF q(4) all_running_other [OF run(3,2) q(6)] len valid rest n2]
  obtain qs where qs: "r2 = Ok qs" "length qs = length ds" "books {} sv3" "cs_expired (sched_of sv3) = cs_expired (sched_of sv2)"
    "\<forall>i. bt_get (cs_running (sched_of sv3)) i = (if i \<in> dp_request_id ` set ds then None else bt_get (cs_running (sched_of sv2)) i)"
    "\<forall>i. bt_get (sv_outputs sv3) i = map_option (\<lambda>out. out @ tokens_for i qs) (bt_get (sv_outputs sv2) i)"
    by blast
  have rr: "r = Ok (q # qs)" "sv1 = sv3" using r qs(1) by simp_all
  have "\<forall>i. bt_get (sv_outputs sv1) i = map_option (\<lambda>out. out @ tokens_for i (q # qs)) (bt_get (sv_outputs sv) i)"
    using q(2,3,7) by (simp add: rr qs(6) q(8))
  moreover have "\<forall>i. bt_get (cs_running (sched_of sv1)) i = (if i \<in> dp_request_id ` set (d # ds) then None else bt_get (cs_running (sched_of sv)) i)"
    by (simp add: rr qs(5) q(6))
  ultimately show ?case using rr qs(2,3,4) q(5) by simp
qed

section \<open>A tick\<close>

definition service_ok :: "('x \<times> exec_call list, 'e) ScheduledService \<Rightarrow> bool" where
  "service_ok sv \<longleftrightarrow> books {} sv \<and> cs_running (sched_of sv) = [] \<and> cs_expired (sched_of sv) = []"

lemma books_expired [simp]: "books P (sv\<lparr>sv_scheduler := s\<lparr>cs_expired := xs\<rparr>\<rparr>) = books P (sv\<lparr>sv_scheduler := s\<rparr>)"
  by (simp add: books_def alive_def outputs_ok_def)

lemma dispatch_expired:
  assumes ok: "sched_ok s" and d: "dispatch_batch now limit s = (Ok ds, t)" and none: "cs_expired s = []"
  shows "distinct (cs_expired t)" and "set (cs_expired t) = {i. alive s i \<and> \<not> alive t i}" and "all_running t ds"
    and "\<And>i d. bt_get (cs_running t) i = Some d \<Longrightarrow> i \<in> dp_request_id ` set ds"
    and "sched_ok t" and "\<forall>i r. bt_get (cs_requests t) i = Some r \<longrightarrow> \<not> is_terminal (rs_status r) \<longrightarrow>
      (\<exists>q. bt_get (cs_requests s) i = Some q \<and> \<not> is_terminal (rs_status q) \<and> rs_emitted_tokens r = rs_emitted_tokens q)"
proof -
  obtain e where e: "expire_deadlines now s = (Ok (), e)" "sched_ok e" "cs_policy e = cs_policy s"
    "map dp_request_id ds = batch_ids now limit e" "\<forall>d\<in>set ds. started e now d"
    "\<forall>d\<in>set ds. bt_get (cs_running t) (dp_request_id d) = Some d"
    "length ds \<le> unat (min limit (sp_max_batch_requests (cs_policy s)))"
    "\<forall>i. bt_get (cs_requests e) i = (case bt_get (cs_requests s) i of None \<Rightarrow> None
           | Some r \<Rightarrow> Some (if deadline_passed now r then expire_record r else r))"
    "\<forall>i. bt_get (cs_requests t) i = (if i \<in> dp_request_id ` set ds
           then map_option (\<lambda>r. r\<lparr>rs_status := Running\<rparr>) (bt_get (cs_requests e) i) else bt_get (cs_requests e) i)"
    "cs_expired t = cs_expired e" "cs_reserved_kv_bytes t = cs_reserved_kv_bytes e"
    by (rule dispatch_batch_Ok [OF ok d])
  let ?ids = "map (\<lambda>r. sx_id (rs_spec r)) (filter (deadline_passed now) (bt_values (cs_requests s)))"
  obtain e' where e': "expire_deadlines now s = (Ok (), e')" "cs_expired e' = cs_expired s @ ?ids"
    by (rule expire_deadlines_run [OF ok, of now])
  have ex: "cs_expired t = ?ids" using e(1,10) e' none by simp
  have q: "all_queued s ?ids" by (rule request_ids_of_filter [OF ok]) (simp add: deadline_passed_def)
  then show "distinct (cs_expired t)" by (simp add: ex all_queued_def)
  have aq: "all_queued e (batch_ids now limit e)" by (rule batch_ids_queued(1) [OF e(2)])
  then show run: "all_running t ds" using e(4,6) by (simp add: all_running_def all_queued_def)
  have started: "\<exists>r. bt_get (cs_requests e) i = Some r \<and> rs_status r = Queued" if "i \<in> dp_request_id ` set ds" for i
    using aq that unfolding all_queued_def e(4) [symmetric] by auto
  have rt: "(\<exists>q. bt_get (cs_requests t) i = Some q \<and> (is_terminal (rs_status q) \<longleftrightarrow> deadline_passed now r \<or> is_terminal (rs_status r)) \<and>
      rs_emitted_tokens q = rs_emitted_tokens r)"
    if r: "bt_get (cs_requests s) i = Some r" for i r
  proof (cases "i \<in> dp_request_id ` set ds")
    case True
    obtain p where p: "bt_get (cs_requests e) i = Some p" "rs_status p = Queued" using started [OF True] by blast
    have "p = (if deadline_passed now r then expire_record r else r)" using p(1) r by (simp add: e(8))
    then have "\<not> deadline_passed now r" "p = r" using p(2) by (auto split: if_splits)
    then show ?thesis using True p by (simp add: e(9))
  next
    case False
    then show ?thesis using r by (simp add: e(8,9) expire_record_def)
  qed
  have dom: "bt_get (cs_requests t) i = None" if "bt_get (cs_requests s) i = None" for i
    using that by (simp add: e(8,9))
  have mem: "i \<in> set ?ids \<longleftrightarrow> (\<exists>r. bt_get (cs_requests s) i = Some r \<and> deadline_passed now r)" for i
  proof -
    have key: "sx_id (rs_spec r) = j" if "bt_get (cs_requests s) j = Some r" for j r
      using sched_okD(5) [OF ok that] by (simp add: request_ok_def)
    show ?thesis using key by (auto simp: bt_in_values [OF sched_okD(2) [OF ok]] image_iff)
  qed
  show "set (cs_expired t) = {i. alive s i \<and> \<not> alive t i}"
  proof (rule set_eqI)
    fix i
    show "i \<in> set (cs_expired t) \<longleftrightarrow> i \<in> {i. alive s i \<and> \<not> alive t i}"
      unfolding ex mem using rt [of i] by (cases "bt_get (cs_requests s) i") (auto simp: alive_def deadline_passed_def)
  qed
  show "sched_ok t" using dispatch_batch_ok [OF ok d] by simp
  show "i \<in> dp_request_id ` set ds" if "bt_get (cs_running t) i = Some d" for i d
    using dispatch_running [OF ok d that] quantum_tokens_fit(1) [OF _ that] dispatch_batch_ok [OF ok d] by auto
  show "\<forall>i r. bt_get (cs_requests t) i = Some r \<longrightarrow> \<not> is_terminal (rs_status r) \<longrightarrow>
      (\<exists>q. bt_get (cs_requests s) i = Some q \<and> \<not> is_terminal (rs_status q) \<and> rs_emitted_tokens r = rs_emitted_tokens q)"
  proof (intro allI impI)
    fix i r
    assume r: "bt_get (cs_requests t) i = Some r" "\<not> is_terminal (rs_status r)"
    then obtain q where q: "bt_get (cs_requests s) i = Some q" using dom [of i] by fastforce
    from rt [OF q] r show "\<exists>q. bt_get (cs_requests s) i = Some q \<and> \<not> is_terminal (rs_status q) \<and> rs_emitted_tokens r = rs_emitted_tokens q"
      using q by auto
  qed
qed

lemma finish_expired_run:
  "books (set ids) sv \<Longrightarrow> distinct ids \<Longrightarrow> sv1 = finish_expired (logged ex) at_ns ids sv \<Longrightarrow>
   books {} sv1 \<and> sched_of sv1 = sched_of sv \<and> sv_outputs sv1 = sv_outputs sv"
proof (induction ids arbitrary: sv)
  case (Cons i ids)
  let ?m = "on_executor (qx_finish_at (logged ex) i DeadlineExpired at_ns) sv"
  have "books (set ids) (remember_failure ?m) \<and> sched_of (remember_failure ?m) = sched_of sv \<and> sv_outputs (remember_failure ?m) = sv_outputs sv"
    by (rule remember_finish_logged [where ex = ex and status = DeadlineExpired and at_ns = at_ns]) (use Cons.prems in auto)
  then show ?case using Cons.IH [of "remember_failure ?m"] Cons.prems(2,3) by simp
qed simp

lemma execute_logged:
  assumes b: "books {} sv" and run: "all_running (sched_of sv) ds"
    and x: "on_executor (qx_execute_batch (logged ex) ds) sv = (r, sv1)"
  shows "books {} sv1 \<and> sched_of sv1 = sched_of sv \<and> sv_outputs sv1 = sv_outputs sv \<and>
    r = fst (qx_execute_batch ex ds (fst (sv_executor sv)))"
proof -
  obtain y log where e: "sv_executor sv = (y, log)" by fastforce
  have "sv1 = sv\<lparr>sv_executor := (snd (qx_execute_batch ex ds y), log @ [Executed (map dp_request_id ds)])\<rparr>"
    "r = fst (qx_execute_batch ex ds y)"
    using x e by (auto simp: on_executor_def note_call_def)
  moreover have "alive (sched_of sv) (dp_request_id d)" if "d \<in> set ds" for d
    using running_alive [OF booksD(1) [OF b]] run that by (auto simp: all_running_def)
  ultimately show ?thesis using b e by (auto simp: books_def)
qed

text \<open>What the executor returned for the batch, when it is a valid answer.\<close>

definition answer_valid :: "Dispatch list \<Rightarrow> QuantumOutput list + 'e \<Rightarrow> bool" where
  "answer_valid ds answer = (case answer of Inr e \<Rightarrow> False
     | Inl os \<Rightarrow> length os = length ds \<and> (\<forall>x\<in>set (zip ds os). output_valid (fst x) (snd x)))"

lemma execute_batch_outputs_run:
  fixes ex :: "('x, 'r, 'e) QuantumExecutor"
  assumes b: "books {} sv" and run: "all_running (sched_of sv) ds"
    and x: "execute_batch_outputs (logged ex) ds sv = (r, sv1)"
  shows "books {} sv1 \<and> sv_outputs sv1 = sv_outputs sv \<and>
    (if answer_valid ds (fst (qx_execute_batch ex ds (fst (sv_executor sv))))
     then fst (qx_execute_batch ex ds (fst (sv_executor sv))) = Inl (case r of Ok os \<Rightarrow> os | _ \<Rightarrow> []) \<and>
       (\<exists>os. r = Ok os) \<and> sched_of sv1 = sched_of sv
     else (\<exists>e. r = Err e \<and> e \<noteq> SchedulerFailed AccountingOverflow) \<and> cancelled_in (sched_of sv) (dp_request_id ` set ds) (sched_of sv1))"
proof -
  let ?answer = "fst (qx_execute_batch ex ds (fst (sv_executor sv)))"
  obtain a sv2 where e: "on_executor (qx_execute_batch (logged ex) ds) sv = (a, sv2)" by fastforce
  note E = execute_logged [OF b run e]
  have run2: "\<forall>d\<in>set ds. bt_get (cs_running (sched_of sv2)) (dp_request_id d) = Some d" "distinct (map dp_request_id ds)"
    using run E by (simp_all add: all_running_def)
  have aborted: "books {} sv1 \<and> sv_outputs sv1 = sv_outputs sv \<and> (\<exists>e. r = Err e \<and> e \<noteq> SchedulerFailed AccountingOverflow) \<and>
      cancelled_in (sched_of sv) (dp_request_id ` set ds) (sched_of sv1)"
    if "abort_with_error (logged ex) ds error sv2 = (r, sv1)" "error \<noteq> SchedulerFailed AccountingOverflow" for error
    using abort_with_error_run [OF conjunct1 [OF E] run2 that(1)] that(2) E by auto
  show ?thesis
  proof (cases a)
    case (Inr e)
    then show ?thesis
      using aborted [of "ExecutorFailed e"] x e E by (simp add: execute_batch_outputs_def answer_valid_def)
  next
    case (Inl os)
    then have ans: "?answer = Inl os" using E by simp
    consider (size) "length os \<noteq> length ds" | (budget) n k where "length os = length ds" "over_budget_output ds os = Some (n, k)"
      | (phase) error where "length os = length ds" "over_budget_output ds os = None" "invalid_output_phase ds os = Some (error :: 'e ServiceError)"
      | (valid) "length os = length ds" "over_budget_output ds os = None" "invalid_output_phase ds os = (None :: 'e ServiceError option)"
    proof (cases "over_budget_output ds os")
      case None
      then show ?thesis using that(1,3,4)
        by (cases "invalid_output_phase ds os :: 'e ServiceError option") blast+
    next
      case (Some p)
      then show ?thesis using that(1,2) by (cases p) blast
    qed
    then show ?thesis
    proof cases
      case size
      then show ?thesis
        using aborted [of "ExecutorBatchSize (length ds) (length os)"] x e Inl ans by (simp add: execute_batch_outputs_def answer_valid_def)
    next
      case budget
      have "\<not> answer_valid ds ?answer"
        using over_budget_invalid [OF budget(2)] unfolding ans by (auto simp: answer_valid_def)
      then show ?thesis
        using aborted [of "ExecutorBudget n k"] x e Inl budget by (simp add: execute_batch_outputs_def)
    next
      case phase
      have bad: "\<not> answer_valid ds ?answer"
        using phase_invalid [OF phase(3)] unfolding ans by (auto simp: answer_valid_def)
      have "error \<noteq> SchedulerFailed AccountingOverflow"
        using phase(3) invalid_phase_kind by blast
      then show ?thesis
        using aborted [of error] x e Inl phase bad by (simp add: execute_batch_outputs_def)
    next
      case valid
      have "answer_valid ds ?answer"
        using valid(1) outputs_valid [OF valid(2,3)] unfolding ans by (auto simp: answer_valid_def)
      moreover have "r = Ok os" "sv1 = sv2" using x e Inl valid by (simp_all add: execute_batch_outputs_def)
      ultimately show ?thesis using E ans by simp
    qed
  qed
qed

text \<open>Between a dispatch and its execution: the expired requests have been finished.\<close>

lemma finish_expired_requests_run:
  assumes ok: "service_ok sv" and d: "dispatch_batch now limit (sched_of sv) = (Ok ds, t)"
    and sv2: "sv2 = finish_expired_requests (logged ex) now (sv\<lparr>sv_finish_error := None, sv_scheduler := t\<rparr>)"
  shows "books {} sv2" and "sched_of sv2 = t\<lparr>cs_expired := []\<rparr>" and "sv_outputs sv2 = sv_outputs sv"
    and "all_running (sched_of sv2) ds" and "\<And>i d. bt_get (cs_running t) i = Some d \<Longrightarrow> i \<in> dp_request_id ` set ds"
proof -
  have b: "books {} sv" and none: "cs_expired (sched_of sv) = []" using ok by (simp_all add: service_ok_def)
  note D = dispatch_expired [OF booksD(1) [OF b] d none]
  have "books (set (cs_expired t)) (sv\<lparr>sv_scheduler := t\<rparr>)"
    using books_scheduler [OF b D(5,6)] D(2) by simp
  then have "books (set (cs_expired t)) (sv\<lparr>sv_finish_error := None, sv_scheduler := t\<lparr>cs_expired := []\<rparr>\<rparr>)"
    by (simp add: books_def alive_def outputs_ok_def)
  from finish_expired_run [OF this D(1), of _ ex now]
  have E: "books {} sv2 \<and> sched_of sv2 = t\<lparr>cs_expired := []\<rparr> \<and> sv_outputs sv2 = sv_outputs sv"
    by (simp add: sv2 finish_expired_requests_def take_expired_deadlines_def)
  then show "books {} sv2" "sched_of sv2 = t\<lparr>cs_expired := []\<rparr>" "sv_outputs sv2 = sv_outputs sv" by simp_all
  show "all_running (sched_of sv2) ds" using D(3) E by (simp add: all_running_def)
  show "i \<in> dp_request_id ` set ds" if "bt_get (cs_running t) i = Some d" for i d by (rule D(4) [OF that])
qed

lemma running_empty:
  assumes "sched_ok s" and "\<And>i. bt_get (cs_running s) i = None"
  shows "cs_running s = []"
proof (cases "cs_running s")
  case (Cons p ps)
  then have "bt_get (cs_running s) (fst p) \<noteq> None" by (cases p) (simp add: bt_get_def)
  then show ?thesis using assms(2) by simp
qed

text \<open>Everything a tick can do, told by what dispatching and executing answered.\<close>

lemma tick_run:
  fixes ex :: "('x, 'r, 'e) QuantumExecutor"
  assumes ok: "service_ok sv" and x: "tick_batch_with_limit (logged ex) now limit sv = (r, sv1)"
    and n: "r \<noteq> Err (SchedulerFailed AccountingOverflow)"
  obtains (refused) e where "dispatch_batch now limit (sched_of sv) = (Err e, sched_of sv)" "r = Err (SchedulerFailed e)"
      "sv1 = sv\<lparr>sv_finish_error := None\<rparr>"
  | (idle) t sv2 where "dispatch_batch now limit (sched_of sv) = (Ok [], t)"
      "sv2 = finish_expired_requests (logged ex) now (sv\<lparr>sv_finish_error := None, sv_scheduler := t\<rparr>)"
      "sv1 = sv2\<lparr>sv_finish_error := None\<rparr>" "r = Ok [] \<or> (\<exists>e. r = Err e)"
  | (aborted) ds t sv2 e where "dispatch_batch now limit (sched_of sv) = (Ok ds, t)" "ds \<noteq> []"
      "sv2 = finish_expired_requests (logged ex) now (sv\<lparr>sv_finish_error := None, sv_scheduler := t\<rparr>)"
      "\<not> answer_valid ds (fst (qx_execute_batch ex ds (fst (sv_executor sv2))))" "r = Err e" "books {} sv1"
      "cancelled_in (sched_of sv2) (dp_request_id ` set ds) (sched_of sv1)" "sv_outputs sv1 = sv_outputs sv"
  | (committed) ds t sv2 os qs where "dispatch_batch now limit (sched_of sv) = (Ok ds, t)" "ds \<noteq> []"
      "sv2 = finish_expired_requests (logged ex) now (sv\<lparr>sv_finish_error := None, sv_scheduler := t\<rparr>)"
      "fst (qx_execute_batch ex ds (fst (sv_executor sv2))) = Inl os" "answer_valid ds (Inl os :: QuantumOutput list + 'e)"
      "r = Ok qs \<or> (\<exists>e. r = Err e)" "length qs = length ds" "books {} sv1" "cs_expired (sched_of sv1) = []" "cs_running (sched_of sv1) = []"
      "\<forall>i. bt_get (sv_outputs sv1) i = map_option (\<lambda>out. out @ tokens_for i qs) (bt_get (sv_outputs sv) i)"
proof -
  have b: "books {} sv" and idle: "cs_running (sched_of sv) = []" "cs_expired (sched_of sv) = []"
    using ok by (simp_all add: service_ok_def)
  obtain dr t where d: "dispatch_batch now limit (sched_of sv) = (dr, t)" by fastforce
  have np: "dr \<noteq> Panic" using dispatch_batch_ok [OF booksD(1) [OF b] d] by simp
  let ?sv2 = "finish_expired_requests (logged ex) now (sv\<lparr>sv_finish_error := None, sv_scheduler := t\<rparr>)"
  note unf = tick_batch_with_limit_def on_scheduler_def take_finish_error_def
  show thesis
  proof (cases dr)
    case Panic
    then show ?thesis using np by simp
  next
    case (Err e)
    have r: "r = Err (SchedulerFailed e)" and s1: "sv1 = ?sv2" using x d Err by (simp_all add: unf)
    then have "e \<noteq> AccountingOverflow" using n by simp
    then have t: "t = sched_of sv" using dispatch_batch_refused [OF booksD(1) [OF b]] d Err by simp
    have "sched_of sv\<lparr>cs_expired := []\<rparr> = sched_of sv" using idle(2) by simp
    then have "sv1 = sv\<lparr>sv_finish_error := None\<rparr>"
      using idle(2) by (simp add: s1 t finish_expired_requests_def take_expired_deadlines_def)
    then show ?thesis using refused [of e] d Err t r by simp
  next
    case (Ok ds)
    note F = finish_expired_requests_run [where ex = ex, OF ok d [unfolded Ok] refl]
    show ?thesis
    proof (cases "ds = []")
      case True
      have "sv1 = ?sv2\<lparr>sv_finish_error := None\<rparr>" "r = Ok [] \<or> (\<exists>e. r = Err e)"
        using x d Ok True by (auto simp: unf Let_def split: option.splits)
      then show ?thesis using that(2) [of t ?sv2] d Ok True by blast
    next
      case False
      obtain r1 sv3 where e: "execute_batch_outputs (logged ex) ds ?sv2 = (r1, sv3)" by fastforce
      note X = execute_batch_outputs_run [OF F(1,4) e]
      show ?thesis
      proof (cases "answer_valid ds (fst (qx_execute_batch ex ds (fst (sv_executor ?sv2))))")
        case bad: False
        then obtain err where err: "r1 = Err err" "cancelled_in (sched_of ?sv2) (dp_request_id ` set ds) (sched_of sv3)"
          "books {} sv3" "sv_outputs sv3 = sv_outputs sv" using X F(3) by auto
        have "sv1 = sv3\<lparr>sv_finish_error := None\<rparr>" "r = Err err"
          using x d Ok False e err(1) by (simp_all add: unf Let_def)
        then show ?thesis using aborted [OF d [unfolded Ok] False refl bad] err(2-4) by simp
      next
        case good: True
        then obtain os where os: "r1 = Ok os" "fst (qx_execute_batch ex ds (fst (sv_executor ?sv2))) = Inl os"
          "books {} sv3" "sv_outputs sv3 = sv_outputs sv" "sched_of sv3 = t\<lparr>cs_expired := []\<rparr>"
          using X F(2,3) by auto
        have v: "answer_valid ds (Inl os :: QuantumOutput list + 'e)" using good os(2) by simp
        obtain r2 sv4 where c: "commit_batch (logged ex) ds os sv3 = (r2, sv4)" by fastforce
        have rr: "r = (case r2 of Panic \<Rightarrow> Panic | Err e \<Rightarrow> Err e | Ok qs \<Rightarrow> case sv_finish_error sv4 of None \<Rightarrow> Ok qs | Some e \<Rightarrow> Err e)"
          "r2 \<noteq> Panic \<Longrightarrow> sv1 = sv4\<lparr>sv_finish_error := None\<rparr>"
          using x d Ok False e os(1) c by (auto simp: unf Let_def split: outcome.splits option.splits)
        have n2: "r2 \<noteq> Err (SchedulerFailed AccountingOverflow)" using rr(1) n by auto
        have run3: "all_running (sched_of sv3) ds" using F(2,4) os(5) by simp
        have val: "length os = length ds" "\<forall>x\<in>set (zip ds os). output_valid (fst x) (snd x)"
          using v by (simp_all add: answer_valid_def)
        from commit_batch_run [OF os(3) run3 val c n2]
        obtain qs where qs: "r2 = Ok qs" "length qs = length ds" "books {} sv4" "cs_expired (sched_of sv4) = cs_expired (sched_of sv3)"
          "\<forall>i. bt_get (cs_running (sched_of sv4)) i = (if i \<in> dp_request_id ` set ds then None else bt_get (cs_running (sched_of sv3)) i)"
          "\<forall>i. bt_get (sv_outputs sv4) i = map_option (\<lambda>out. out @ tokens_for i qs) (bt_get (sv_outputs sv3) i)" by blast
        have s1: "sv1 = sv4\<lparr>sv_finish_error := None\<rparr>" using rr(2) qs(1) by simp
        have rc: "r = Ok qs \<or> (\<exists>e. r = Err e)" using rr(1) qs(1) by (auto split: option.splits)
        have "bt_get (cs_running (sched_of sv4)) i = None" for i
        proof (cases "bt_get (cs_running t) i")
          case None
          then show ?thesis by (simp add: qs(5) os(5))
        next
          case (Some q)
          then show ?thesis using F(5) [OF Some] by (simp add: qs(5))
        qed
        then have "cs_running (sched_of sv4) = []" by (rule running_empty [OF booksD(1) [OF qs(3)]])
        then show ?thesis
          using committed [OF d [unfolded Ok] False refl os(2) v rc qs(2)] qs(3,4,6) os(4,5) by (simp add: s1)
      qed
    qed
  qed
qed

lemma tick_ok:
  assumes ok: "service_ok sv" and x: "tick_batch_with_limit (logged ex) now limit sv = (r, sv1)"
    and n: "r \<noteq> Err (SchedulerFailed AccountingOverflow)"
  shows "service_ok sv1 \<and> r \<noteq> Panic"
  using ok x n
proof (cases rule: tick_run)
  case (refused e)
  then show ?thesis using ok by (simp add: service_ok_def)
next
  case (idle t sv2)
  note F = finish_expired_requests_run [OF ok idle(1,2)]
  have "cs_running t = []"
    by (rule running_empty) (use booksD(1) [OF F(1)] dispatch_expired(5) [OF booksD(1) idle(1)] ok F(5) in
      \<open>auto simp: service_ok_def intro: ccontr\<close>)
  then show ?thesis using F(1,2) idle(3,4) by (auto simp: service_ok_def)
next
  case (aborted ds t sv2 e)
  note F = finish_expired_requests_run [OF ok aborted(1,3)]
  have "bt_get (cs_running (sched_of sv1)) i = None" for i
    using cancelled_in_running [OF aborted(7), of i] F(2,5) by (cases "bt_get (cs_running t) i") auto
  then have "cs_running (sched_of sv1) = []" by (rule running_empty [OF booksD(1) [OF aborted(6)]])
  moreover have "cs_expired (sched_of sv1) = []" using aborted(7) F(2) by (simp add: cancelled_in_def)
  ultimately show ?thesis using aborted(5,6) by (simp add: service_ok_def)
next
  case (committed ds t sv2 os qs)
  then show ?thesis by (auto simp: service_ok_def)
qed

end
