(* ===== verification/Service_Machine.thy ===== *)
theory Service_Machine
  imports Service_Run
begin

text \<open>
  The public calls of the service as one step relation and the machine they form
  (interpretation \<open>service\<close>): whatever the executor answers, the sessions it holds are
  those of the requests the scheduler still serves, and no batch is left running.
\<close>

section \<open>Admission, cancellation and pruning\<close>

lemma logged_begin:
  "qx_begin (logged ex) i req (x, log) = (case qx_begin ex i req x of
     (Inl u, y) \<Rightarrow> (Inl u, y, log @ [Begun i]) | (Inr e, y) \<Rightarrow> (Inr e, y, log))"
  by (simp add: logged_def)

text \<open>A request no longer alive, or one never admitted, needs no books.\<close>

lemma books_same_alive:
  assumes "books {} sv" and "sched_ok t"
    and "\<And>j. j \<noteq> i \<Longrightarrow> bt_get (cs_requests t) j = bt_get (cs_requests (sched_of sv)) j"
    and "\<not> alive (sched_of sv) i" and "\<not> alive t i"
  shows "books {} (sv\<lparr>sv_scheduler := t\<rparr>)"
proof -
  have same: "alive t j = alive (sched_of sv) j" for j
  proof (cases "j = i")
    case False
    then show ?thesis by (simp add: alive_def assms(3))
  qed (use assms(4,5) in simp)
  have "outputs_ok t (sv_outputs sv)"
    unfolding outputs_ok_def
  proof (intro allI impI)
    fix j r
    assume r: "bt_get (cs_requests t) j = Some r" "\<not> is_terminal (rs_status r)"
    then have "j \<noteq> i" using assms(5) by (auto simp: alive_def)
    then show "\<exists>out. bt_get (sv_outputs sv) j = Some out \<and> length out = unat (rs_emitted_tokens r)"
      using r assms(3) booksD(3) [OF assms(1)] by (simp add: outputs_ok_def)
  qed
  then show ?thesis using assms(1,2) by (auto simp: books_def same)
qed

lemma books_begin:
  assumes b: "books {} sv" and "sched_ok t" and fresh: "bt_get (cs_requests (sched_of sv)) i = None"
    and t: "bt_get (cs_requests t) = (bt_get (cs_requests (sched_of sv)))(i \<mapsto> q)" "rs_status q = Queued" "rs_emitted_tokens q = 0"
    and log: "snd (sv_executor sv) = log"
  shows "books {} (sv\<lparr>sv_scheduler := t, sv_executor := (y, log @ [Begun i]), sv_outputs := bt_insert i [] (sv_outputs sv)\<rparr>)"
proof -
  obtain live where live: "sessions log = Some live" "set live = {j. alive (sched_of sv) j}"
    using b log by (auto simp: books_def)
  have al: "alive t j \<longleftrightarrow> j = i \<or> alive (sched_of sv) j" for j by (simp add: alive_def t)
  have "\<not> alive (sched_of sv) i" using fresh by (simp add: alive_def)
  moreover have "outputs_ok t (bt_insert i [] (sv_outputs sv))"
    using booksD(3) [OF b] by (simp add: outputs_ok_def t)
  ultimately show ?thesis using b assms(2) live by (auto simp: books_def al bt_ok_insert)
qed

lemma cancel_queued:
  assumes "sched_ok s" and "bt_get (cs_requests s) i = Some r" and "rs_status r = Queued"
  obtains t where "cancel i s = (Ok Cancelled, t)" and "sched_ok t"
    and "bt_get (cs_requests t) = (bt_get (cs_requests s))(i \<mapsto> r\<lparr>rs_status := Cancelled, rs_reserved_kv_bytes := 0\<rparr>)"
    and "cs_running t = cs_running s" and "cs_expired t = cs_expired s"
proof -
  obtain res t where t: "cancel i s = (res, t)" by fastforce
  have "sched_ok t" using cancel_ok [OF assms(1) t] by simp
  then show thesis by (intro that [of t]) (use t assms(2,3) in \<open>auto simp: cancel_def\<close>)
qed

lemma service_admit_ok:
  assumes ok: "service_ok sv" and x: "service_admit (logged ex) sx req now sv = (r, sv1)"
    and n: "r \<noteq> Err (SchedulerFailed AccountingOverflow)"
  shows "service_ok sv1 \<and> r \<noteq> Panic"
proof -
  have b: "books {} sv" and idle: "cs_running (sched_of sv) = []" "cs_expired (sched_of sv) = []"
    using ok by (simp_all add: service_ok_def)
  obtain ar t where a: "admit sx now (sched_of sv) = (ar, t)" by fastforce
  have np: "ar \<noteq> Err AccountingOverflow"
    using x n a by (auto simp: service_admit_def on_scheduler_def)
  have ot: "sched_ok t" using admit_ok [OF booksD(1) [OF b] a np] by simp
  note unf = service_admit_def on_scheduler_def on_executor_def
  from a np show ?thesis
  proof (cases rule: admit_cases)
    case known
    then show ?thesis using x a ok by (auto simp: unf)
  next
    case future
    then show ?thesis using x a ok by (auto simp: unf)
  next
    case (refused reason k)
    have "books {} (sv\<lparr>sv_scheduler := t\<rparr>)"
      by (rule books_same_alive [OF b ot, of "sx_id sx"]) (use refused in \<open>auto simp: alive_def new_request_def\<close>)
    then show ?thesis using x a refused idle by (auto simp: unf service_ok_def)
  next
    case (admitted bytes k p)
    let ?i = "sx_id sx" and ?q = "new_request (sched_of sv) sx Queued bytes p"
    have t: "bt_get (cs_requests t) = (bt_get (cs_requests (sched_of sv)))(?i \<mapsto> ?q)" using admitted by simp
    have q: "rs_status ?q = Queued" "rs_emitted_tokens ?q = 0" by (simp_all add: new_request_def)
    obtain y log where e: "sv_executor sv = (y, log)" by fastforce
    show ?thesis
    proof (cases "qx_begin ex ?i req y")
      case (Pair br z)
      show ?thesis
      proof (cases br)
        case (Inl u)
        have "sv1 = sv\<lparr>sv_scheduler := t, sv_executor := (z, log @ [Begun ?i]), sv_outputs := bt_insert ?i [] (sv_outputs sv)\<rparr>"
          "r = Ok (Admitted bytes)"
          using x a admitted(2) e Pair Inl by (simp_all add: unf logged_begin)
        then show ?thesis
          using books_begin [OF b ot admitted(1) t q, of log z] e idle admitted by (simp add: service_ok_def)
      next
        case (Inr f)
        have "bt_get (cs_requests t) ?i = Some ?q" by (simp add: t)
        from cancel_queued [OF ot this q(1)]
        obtain u where u: "cancel ?i t = (Ok Cancelled, u)" "sched_ok u"
          "bt_get (cs_requests u) = (bt_get (cs_requests t))(?i \<mapsto> ?q\<lparr>rs_status := Cancelled, rs_reserved_kv_bytes := 0\<rparr>)"
          "cs_running u = cs_running t" "cs_expired u = cs_expired t" by blast
        have sv1: "sv1 = sv\<lparr>sv_scheduler := u, sv_executor := (z, log)\<rparr>" "r = Err (ExecutorFailed f)"
          using x a admitted(2) e Pair Inr u(1) by (auto simp: unf logged_begin)
        have "books {} (sv\<lparr>sv_scheduler := u\<rparr>)"
          by (rule books_same_alive [OF b u(2), of ?i]) (use admitted(1) in \<open>auto simp: alive_def u(3) t\<close>)
        then have "books {} sv1" using e by (simp add: sv1 books_def)
        then show ?thesis using u(4,5) admitted idle by (simp add: sv1 service_ok_def)
      qed
    qed
  qed
qed

lemma service_cancel_ok:
  assumes ok: "service_ok sv" and x: "service_cancel (logged ex) i sv = (r, sv1)"
  shows "service_ok sv1 \<and> r \<noteq> Panic"
proof -
  have b: "books {} sv" and idle: "cs_running (sched_of sv) = []" "cs_expired (sched_of sv) = []"
    using ok by (simp_all add: service_ok_def)
  note so = booksD(1) [OF b]
  note unf = service_cancel_def on_scheduler_def status_of_def
  show ?thesis
  proof (cases "bt_get (cs_requests (sched_of sv)) i")
    case None
    then show ?thesis using x ok by (auto simp: unf)
  next
    case (Some q)
    have "rs_status q \<noteq> Running"
    proof
      assume "rs_status q = Running"
      then have "bt_get (cs_running (sched_of sv)) i \<noteq> None"
        using sched_okD(5) [OF so Some] by (auto simp: request_ok_def phase_ok_def split: option.splits)
      then show False using idle(1) by simp
    qed
    then consider "rs_status q = Queued" | "is_terminal (rs_status q)" "rs_status q \<noteq> Running" "rs_status q \<noteq> Queued"
      by (cases "rs_status q") auto
    then show ?thesis
    proof cases
      case 1
      from cancel_queued [OF so Some 1]
      obtain t where t: "cancel i (sched_of sv) = (Ok Cancelled, t)" "sched_ok t"
        "bt_get (cs_requests t) = (bt_get (cs_requests (sched_of sv)))(i \<mapsto> q\<lparr>rs_status := Cancelled, rs_reserved_kv_bytes := 0\<rparr>)"
        "cs_running t = cs_running (sched_of sv)" "cs_expired t = cs_expired (sched_of sv)" by blast
      have "\<forall>j p. bt_get (cs_requests t) j = Some p \<longrightarrow> \<not> is_terminal (rs_status p) \<longrightarrow>
          (\<exists>p'. bt_get (cs_requests (sched_of sv)) j = Some p' \<and> \<not> is_terminal (rs_status p') \<and> rs_emitted_tokens p = rs_emitted_tokens p')"
        by (simp add: t(3))
      note B = books_scheduler [OF b t(2) this]
      have "{j. alive (sched_of sv) j \<and> \<not> alive t j} = {i}" using Some 1 by (auto simp: alive_def t(3) split: if_splits)
      then have owed: "books (insert i {}) (sv\<lparr>sv_scheduler := t\<rparr>)" using B by simp
      obtain fr sv2 where f: "on_executor (qx_finish (logged ex) i Cancelled) (sv\<lparr>sv_scheduler := t\<rparr>) = (fr, sv2)" by fastforce
      have F: "books {} sv2 \<and> sched_of sv2 = t" using finish_logged [OF owed _ disjI1 [OF f]] by simp
      have "sv1 = sv2 \<and> r \<noteq> Panic" using x t(1) f Some 1 by (auto simp: unf split: sum.splits)
      then show ?thesis using F t(4,5) idle by (simp add: service_ok_def)
    next
      case 2
      then show ?thesis using x Some ok by (auto simp: unf cancel_def)
    qed
  qed
qed

lemma service_prune_ok:
  assumes "service_ok sv"
  shows "service_ok (service_prune_terminal sv)"
proof -
  have b: "books {} sv" and idle: "cs_running (sched_of sv) = []" "cs_expired (sched_of sv) = []"
    using assms by (simp_all add: service_ok_def)
  note so = booksD(1) [OF b] and ob = booksD(2) [OF b]
  let ?t = "prune_terminal (sched_of sv)"
  have get: "bt_get (cs_requests ?t) j = (case bt_get (cs_requests (sched_of sv)) j of None \<Rightarrow> None
      | Some r \<Rightarrow> if is_terminal (rs_status r) then None else Some r)" for j
    by (simp add: prune_terminal_def bt_get_retain [OF sched_okD(2) [OF so]] split: option.split)
  have al: "alive ?t j = alive (sched_of sv) j" for j
    by (auto simp: alive_def get split: option.splits if_splits)
  have "outputs_ok ?t (sv_outputs (service_prune_terminal sv))"
    unfolding outputs_ok_def
  proof (intro allI impI)
    fix j r
    assume "bt_get (cs_requests ?t) j = Some r" "\<not> is_terminal (rs_status r)"
    then have r: "bt_get (cs_requests (sched_of sv)) j = Some r" "\<not> is_terminal (rs_status r)"
      by (auto simp: get split: option.splits if_splits)
    then obtain out where "bt_get (sv_outputs sv) j = Some out" "length out = unat (rs_emitted_tokens r)"
      using booksD(3) [OF b] by (auto simp: outputs_ok_def)
    then show "\<exists>out. bt_get (sv_outputs (service_prune_terminal sv)) j = Some out \<and> length out = unat (rs_emitted_tokens r)"
      using r by (simp add: service_prune_terminal_def bt_get_retain [OF ob] status_of_def)
  qed
  moreover have "bt_ok (sv_outputs (service_prune_terminal sv))"
    by (simp add: service_prune_terminal_def bt_ok_retain [OF ob])
  ultimately have "books {} (service_prune_terminal sv)"
    using b prune_terminal_ok [OF so] by (simp add: books_def al service_prune_terminal_def)
  then show ?thesis using idle by (simp add: service_ok_def service_prune_terminal_def prune_terminal_def)
qed

section \<open>The machine\<close>

definition service_start :: "('x \<times> exec_call list, 'e) ScheduledService \<Rightarrow> bool" where
  "service_start sv \<longleftrightarrow> (\<exists>policy x. service_new policy (x, []) = Ok sv)"

inductive service_step ::
  "('x, 'r, 'e) QuantumExecutor \<Rightarrow> ('x \<times> exec_call list, 'e) ScheduledService \<Rightarrow> ('x \<times> exec_call list, 'e) ScheduledService \<Rightarrow> bool"
  for ex where
  service_step_admit: "service_admit (logged ex) sx req now sv = (ar, sv1) \<Longrightarrow> ar \<noteq> Err (SchedulerFailed AccountingOverflow) \<Longrightarrow>
    service_step ex sv sv1"
| service_step_tick: "tick_batch_with_limit (logged ex) now limit sv = (tr, sv1) \<Longrightarrow> tr \<noteq> Err (SchedulerFailed AccountingOverflow) \<Longrightarrow>
    service_step ex sv sv1"
| service_step_cancel: "service_cancel (logged ex) i sv = (cr, sv1) \<Longrightarrow> service_step ex sv sv1"
| service_step_prune: "service_step ex sv (service_prune_terminal sv)"

inductive_cases service_stepE: "service_step ex sv sv1"

lemma service_start_ok: "service_start sv \<Longrightarrow> service_ok sv"
proof -
  assume "service_start sv"
  then obtain policy x s where s: "scheduler_new policy = Ok s"
    "sv = \<lparr>sv_scheduler = s, sv_executor = (x, []), sv_outputs = [], sv_finish_error = None\<rparr>"
    by (auto simp: service_start_def service_new_def and_then_eq_Ok)
  have "cs_requests s = []" "cs_running s = []" "cs_expired s = []"
    using s(1) by (auto simp: scheduler_new_def and_then_eq_Ok)
  then show ?thesis
    using scheduler_new_ok [OF s(1)] by (simp add: s(2) service_ok_def books_def outputs_ok_def alive_def)
qed

interpretation service: machine service_start "service_step ex" service_ok for ex
proof unfold_locales
  fix s t :: "('d \<times> exec_call list, 'f) ScheduledService" and ex :: "('d, 'e, 'f) QuantumExecutor"
  show "service_start s \<Longrightarrow> service_ok s" by (rule service_start_ok)
  show "service_ok s \<Longrightarrow> service_step ex s t \<Longrightarrow> service_ok t"
    by (elim service_stepE) (auto dest: service_admit_ok tick_ok service_cancel_ok service_prune_ok)
qed

definition service_reachable ::
  "('x, 'r, 'e) QuantumExecutor \<Rightarrow> ('x \<times> exec_call list, 'e) ScheduledService \<Rightarrow> bool" where
  "service_reachable ex sv \<longleftrightarrow> (\<exists>sv0. service_start sv0 \<and> (service_step ex)\<^sup>*\<^sup>* sv0 sv)"

lemma service_reachable_ok: "service_reachable ex sv \<Longrightarrow> service_ok sv"
  by (auto simp: service_reachable_def intro: service.inv_reachable)

end
