(* ===== verification/Service_Props.thy ===== *)
theory Service_Props
  imports Service_Machine Scheduler_Demo
begin

text \<open>
  What a client of the scheduled service relies on, for every executor: balanced
  sessions, outputs in step with the accounting, no panic, and the effect of an executor
  that breaks its contract.
\<close>

section \<open>A concrete service\<close>

definition demo_reply :: "Dispatch \<Rightarrow> QuantumOutput" where
  "demo_reply d = (if dp_kind d = Prefill then prefill_output (dp_token_budget d) True False
     else decode_output (replicate (unat (dp_token_budget d)) 7) False False)"

definition demo_executor :: "(Dispatch list \<Rightarrow> QuantumOutput list) \<Rightarrow> (unit, unit, unit) QuantumExecutor" where
  "demo_executor answer = \<lparr>qx_begin = (\<lambda>i req x. (Inl (), x)), qx_execute_batch = (\<lambda>ds x. (Inl (answer ds), x)),
     qx_finish = (\<lambda>i status x. (Inl (), x)), qx_finish_at = (\<lambda>i status at_ns x. (Inl (), x))\<rparr>"

definition demo_service :: "ContinuousScheduler \<Rightarrow> exec_call list \<Rightarrow> (RequestId, u32 list) btree_map \<Rightarrow>
    (unit \<times> exec_call list, unit) ScheduledService" where
  "demo_service s log outputs =
     \<lparr>sv_scheduler = s, sv_executor = ((), log), sv_outputs = outputs, sv_finish_error = None\<rparr>"

definition demo_prefilled :: ContinuousScheduler where
  "demo_prefilled = demo_one\<lparr>cs_requests := [(RequestId 0, (demo_request 0 None)\<lparr>rs_remaining_prefill_tokens := 0, rs_virtual_runtime := 6144\<rparr>)],
     cs_stats := (cs_stats demo_one)\<lparr>st_dispatched_batches := 1, st_dispatched_quanta := 1, st_max_batch_width := 1,
       st_prefill_chunks := 1, st_prefill_tokens := 6\<rparr>\<rparr>"

lemmas service_eval = service_admit_def on_scheduler_def on_executor_def logged_def note_call_def remember_failure_def
  tick_batch_with_limit_def finish_expired_requests_def take_expired_deadlines_def execute_batch_outputs_def
  over_budget_output_def invalid_output_phase_def invalid_output_for_dispatch_def invalid_prefill_output_def
  invalid_decode_output_def commit_quantum_def quantum_progress_def take_finish_error_def try_st_cases
  demo_reply_def prefill_output_def decode_output_def demo_executor_def demo_service_def demo_prefilled_def

abbreviation demo_served :: "(unit \<times> exec_call list, unit) ScheduledService" where
  "demo_served \<equiv> demo_service demo_one [Begun (RequestId 0)] [(RequestId 0, [])]"

abbreviation demo_ready :: "(unit \<times> exec_call list, unit) ScheduledService" where
  "demo_ready \<equiv> demo_service demo_prefilled [Begun (RequestId 0), Executed [RequestId 0]] [(RequestId 0, [])]"

lemma demo_service_admit:
  "service_admit (logged (demo_executor answer)) (demo_spec 0 None) () 0 (demo_service demo_new [] []) =
   (Ok (Admitted 2048), demo_served)"
  by (simp add: service_eval admit_eval demo_eval)

lemma demo_service_prefill:
  "tick_batch_with_limit (logged (demo_executor (map demo_reply))) 7 4 demo_served =
   (Ok [\<lparr>sq_completion = \<lparr>qc_request_id = RequestId 0, qc_emitted_tokens = 0, qc_status = Queued\<rparr>, sq_kind = Prefill,
         sq_progress_tokens = 6, sq_tokens = []\<rparr>], demo_ready)"
  by (simp add: service_eval dispatch_eval complete_eval admit_eval demo_eval)

lemma replicate_four: "replicate 4 x = [x, x, x, x]"
  by (simp add: numeral_eq_Suc)

lemma demo_service_decode:
  "\<exists>sv1. tick_batch_with_limit (logged (demo_executor (map demo_reply))) 9 4 demo_ready =
   (Ok [\<lparr>sq_completion = \<lparr>qc_request_id = RequestId 0, qc_emitted_tokens = 4, qc_status = Queued\<rparr>, sq_kind = Decode,
         sq_progress_tokens = 4, sq_tokens = [7, 7, 7, 7]\<rparr>], sv1) \<and> service_output sv1 (RequestId 0) = Some [7, 7, 7, 7]"
  by (simp add: replicate_four service_output_def service_eval dispatch_eval complete_eval admit_eval demo_eval)

lemma demo_service_reachable:
  "service_reachable (demo_executor answer) demo_served"
  "service_reachable (demo_executor (map demo_reply)) demo_ready"
proof -
  have new: "service_start (demo_service demo_new [] [])"
    by (auto simp: service_start_def service_new_def demo_service_def demo_new intro!: exI [of _ demo_policy])
  show one: "service_reachable (demo_executor answer) demo_served" for answer
    using new service_step_admit [OF demo_service_admit] by (auto simp: service_reachable_def)
  have "service_step (demo_executor (map demo_reply)) demo_served demo_ready"
    by (rule service_step_tick [OF demo_service_prefill]) simp
  then show "service_reachable (demo_executor (map demo_reply)) demo_ready"
    using one [of "map demo_reply"] by (auto simp: service_reachable_def intro: rtranclp.rtrancl_into_rtrancl)
qed

section \<open>The properties\<close>

text \<open>C13: Between two calls on the service no batch is running, every expiry has been reported,
  and the executor has been called by its protocol: each session begun once and finished
  once, executed only while open, and exactly the requests that have not ended are open.
\<close>

theorem service_sessions_balanced:
  assumes "service_reachable ex sv"
  shows "cs_running (sched_of sv) = [] \<and> cs_expired (sched_of sv) = [] \<and>
    (\<exists>live. sessions (snd (sv_executor sv)) = Some live \<and> set live = {i. alive (sched_of sv) i})"
  using service_reachable_ok [OF assms] by (simp add: service_ok_def books_def)

theorem service_sessions_balanced_witness:
  "\<exists>live. sessions [Begun (RequestId 0), Executed [RequestId 0]] = Some live \<and> set live = {i. alive demo_prefilled i}"
  using service_sessions_balanced [OF demo_service_reachable(2)] by (simp add: demo_service_def)

text \<open>The output a client can read of a request that has not ended is exactly as long as the
  scheduler's count of its emitted tokens.
\<close>

theorem service_output_length:
  assumes "service_reachable ex sv"
    and "bt_get (cs_requests (sched_of sv)) i = Some r" and "\<not> is_terminal (rs_status r)"
  shows "\<exists>out. service_output sv i = Some out \<and> length out = unat (rs_emitted_tokens r)"
  using service_reachable_ok [OF assms(1)] assms(2,3)
  by (simp add: service_ok_def books_def outputs_ok_def service_output_def)

theorem service_output_length_witness:
  "\<exists>out. service_output demo_ready (RequestId 0) = Some out \<and> length out = 0"
  using service_output_length [OF demo_service_reachable(2), of "RequestId 0"]
  by (simp add: demo_service_def demo_prefilled_def demo_eval admit_eval)

text \<open>C14: A tick that succeeds appends to each stored output exactly the tokens of the quanta it
  returns, and changes no other output.
\<close>

theorem service_tick_appends:
  assumes "service_reachable ex sv" and "tick_batch_with_limit (logged ex) now limit sv = (Ok qs, sv1)"
  shows "service_output sv1 i = map_option (\<lambda>out. out @ tokens_for i qs) (service_output sv i)"
proof -
  note ok = service_reachable_ok [OF assms(1)]
  have "Ok qs \<noteq> Err (SchedulerFailed AccountingOverflow)" by simp
  with ok assms(2) show ?thesis
  proof (cases rule: tick_run)
    case (idle t sv2)
    then show ?thesis
      using finish_expired_requests_run(3) [OF ok idle(1,2)] by (simp add: service_output_def option.map_ident)
  next
    case (committed ds t sv2 os qs')
    then show ?thesis by (simp add: service_output_def)
  qed simp_all
qed

theorem service_tick_appends_witness:
  "\<exists>qs sv1. tick_batch_with_limit (logged (demo_executor (map demo_reply))) 9 4 demo_ready = (Ok qs, sv1) \<and>
    tokens_for (RequestId 0) qs = [7, 7, 7, 7] \<and>
    service_output sv1 (RequestId 0) = Some ([] @ tokens_for (RequestId 0) qs)"
proof -
  obtain sv1 where t: "tick_batch_with_limit (logged (demo_executor (map demo_reply))) 9 4 demo_ready =
     (Ok [\<lparr>sq_completion = \<lparr>qc_request_id = RequestId 0, qc_emitted_tokens = 4, qc_status = Queued\<rparr>, sq_kind = Decode,
         sq_progress_tokens = 4, sq_tokens = [7, 7, 7, 7]\<rparr>], sv1)"
    using demo_service_decode by blast
  have "service_output demo_ready (RequestId 0) = Some []" by (simp add: service_output_def demo_service_def bt_get_def)
  then show ?thesis using service_tick_appends [OF demo_service_reachable(2) t, of "RequestId 0"] t by auto
qed

text \<open>No call on a reachable service panics, whatever the executor answers.
\<close>

theorem service_never_panics:
  assumes "service_reachable ex sv"
  shows "fst (service_admit (logged ex) sx req now sv) \<noteq> Panic \<and> fst (tick (logged ex) now sv) \<noteq> Panic \<and>
    fst (tick_batch (logged ex) now sv) \<noteq> Panic \<and> fst (service_cancel (logged ex) i sv) \<noteq> Panic"
proof -
  note ok = service_reachable_ok [OF assms]
  have a: "fst (service_admit (logged ex) sx req now sv) \<noteq> Panic"
    using service_admit_ok [OF ok] by (cases "service_admit (logged ex) sx req now sv") fastforce
  have t: "fst (tick_batch_with_limit (logged ex) now limit sv) \<noteq> Panic" for limit
    using tick_ok [OF ok] by (cases "tick_batch_with_limit (logged ex) now limit sv") fastforce
  have "fst (service_cancel (logged ex) i sv) \<noteq> Panic"
    using service_cancel_ok [OF ok] by (cases "service_cancel (logged ex) i sv") fastforce
  moreover have "fst (tick (logged ex) now sv) \<noteq> Panic"
    using t [of 1] by (cases "tick_batch_with_limit (logged ex) now 1 sv") (auto simp: tick_def try_st_cases split: outcome.splits)
  ultimately show ?thesis using a t by (simp add: tick_batch_def)
qed

theorem service_never_panics_witness:
  "fst (tick (logged (demo_executor (map demo_reply))) 9 demo_ready) \<noteq> Panic"
  using service_never_panics [OF demo_service_reachable(2)] by simp

text \<open>When the executor fails or answers a batch with outputs that break its contract (a
  wrong number of them, more tokens than the budget, the wrong phase, no progress), the
  tick reports an error, stores none of the tokens, and cancels exactly the dispatched
  requests: their KV reservation is released, every other request keeps its record, and
  the service is again in a good state.
\<close>

theorem service_bad_answer_cancels_batch:
  assumes "service_reachable ex sv" and "tick_batch_with_limit (logged ex) now limit sv = (r, sv1)"
    and "r \<noteq> Err (SchedulerFailed AccountingOverflow)"
    and "dispatch_batch now limit (sched_of sv) = (Ok ds, t)" and "ds \<noteq> []"
    and "\<not> answer_valid ds (fst (qx_execute_batch ex ds
      (fst (sv_executor (finish_expired_requests (logged ex) now (sv\<lparr>sv_finish_error := None, sv_scheduler := t\<rparr>))))))"
  shows "(\<exists>e. r = Err e) \<and> sv_outputs sv1 = sv_outputs sv \<and> service_reachable ex sv1 \<and>
    (\<forall>d\<in>set ds. \<exists>q. bt_get (cs_requests (sched_of sv1)) (dp_request_id d) = Some q \<and> rs_status q = Cancelled \<and> rs_reserved_kv_bytes q = 0) \<and>
    (\<forall>i. i \<notin> dp_request_id ` set ds \<longrightarrow> bt_get (cs_requests (sched_of sv1)) i = bt_get (cs_requests t) i)"
proof -
  note ok = service_reachable_ok [OF assms(1)]
  have reach: "service_reachable ex sv1"
    using assms(1) service_step_tick [OF assms(2,3)]
    by (auto simp: service_reachable_def intro: rtranclp.rtrancl_into_rtrancl)
  from ok assms(2,3) show ?thesis
  proof (cases rule: tick_run)
    case (aborted ds' t' sv2 e)
    then have eq: "ds' = ds" "t' = t" using assms(4) by simp_all
    have s2: "sched_of sv2 = t\<lparr>cs_expired := []\<rparr>" using finish_expired_requests_run(2) [OF ok aborted(1,3)] eq by simp
    show ?thesis using aborted(5,7,8) reach by (simp add: eq s2 cancelled_in_def)
  next
    case (committed ds' t' sv2 os qs)
    then have eq: "ds' = ds" "t' = t" using assms(4) by simp_all
    have "answer_valid ds (fst (qx_execute_batch ex ds (fst (sv_executor sv2))))" using committed(4,5) by (simp add: eq)
    then show ?thesis using assms(6) committed(3) eq by simp
  qed (use assms(4,5) in simp_all)
qed

theorem service_bad_answer_cancels_batch_witness:
  "\<exists>r sv1 q. tick_batch_with_limit (logged (demo_executor (\<lambda>ds. []))) 7 4 demo_served = (r, sv1) \<and> (\<exists>e. r = Err e) \<and>
    bt_get (cs_requests (sched_of sv1)) (RequestId 0) = Some q \<and> rs_status q = Cancelled \<and> rs_reserved_kv_bytes q = 0"
proof -
  let ?ex = "demo_executor (\<lambda>ds. [])"
  obtain r sv1 where t: "tick_batch_with_limit (logged ?ex) 7 4 demo_served = (r, sv1)" by fastforce
  have "fst (tick_batch_with_limit (logged ?ex) 7 4 demo_served) = Err (ExecutorBatchSize 1 0)"
    by (simp add: service_eval abort_with_error_def abort_batch_def abort_quantum_def dispatch_eval admit_eval demo_eval)
  then have r: "r \<noteq> Err (SchedulerFailed AccountingOverflow)" using t by simp
  obtain d u where d: "dispatch_batch 7 4 demo_one = (Ok [d], u)" "dp_request_id d = RequestId 0"
    by (simp add: dispatch_eval admit_eval demo_eval)
  have s: "sched_of demo_served = demo_one" by (simp add: demo_service_def)
  show ?thesis
    using service_bad_answer_cancels_batch [OF demo_service_reachable(1) t r, of "[d]" u] d t
    by (simp add: s answer_valid_def demo_executor_def)
qed

end
