(* ===== verification/Memory_Tracker.thy ===== *)
theory Memory_Tracker
  imports BTree_Map
begin

text \<open>
  Memory accounting of \<open>crates/leone/src/backend.rs\<close>: a tracker counts the bytes one
  backend owns or reserves, by class, against its own budget and against the budget of a
  root it may share with sibling trackers. The \<open>Arc<Mutex<..>>\<close> states live in a
  \<open>MemoryHeap\<close> under addresses; every method holds its locks from its first read to its
  last write, so a method is one step on the heap. The handles a caller owns are values:
  \<open>MemoryReservation\<close> and \<open>MemoryAllocation\<close>, whose \<open>Drop\<close> is an operation of its own.
  Record prefixes: \<open>mc_\<close> MemoryCounters, \<open>mx_\<close> MemoryClassStats, \<open>mr_\<close>
  MemoryRootState, \<open>mt_\<close> MemoryTrackerState, \<open>tk_\<close> MemoryTracker, \<open>mv_\<close>
  MemoryReservation, \<open>ma_\<close> MemoryAllocation, \<open>mm_\<close> MemoryAccounting.
\<close>

section \<open>Data\<close>

datatype MemoryBudget = Unlimited | LimitedBytes u64

datatype MemoryError =
    ZeroBytes
  | ZeroBudget
  | BudgetExceeded u64 u64 u64 u64
  | BudgetBelowOwned u64 u64 u64
  | ByteOverflow
  | AllocationCountOverflow
  | InvalidReservation
  | TrackerInUse u64 u64

definition budget_limited :: "u64 \<Rightarrow> (MemoryBudget, MemoryError) outcome" where
  "budget_limited bytes = (if bytes = 0 then Err ZeroBudget else Ok (LimitedBytes bytes))"

datatype MemoryClass =
    ContractBuffer | ModelWeight | RepackedWeight | Activation | KvCache | BackendScratch | PrefillScratch | GraphBuffer

definition memory_classes :: "MemoryClass list" where
  "memory_classes = [ContractBuffer, ModelWeight, RepackedWeight, Activation, KvCache, BackendScratch, PrefillScratch, GraphBuffer]"

fun class_index :: "MemoryClass \<Rightarrow> u8" where
  "class_index ContractBuffer = 0"
| "class_index ModelWeight = 1"
| "class_index RepackedWeight = 2"
| "class_index Activation = 3"
| "class_index KvCache = 4"
| "class_index BackendScratch = 5"
| "class_index PrefillScratch = 6"
| "class_index GraphBuffer = 7"

fun class_name :: "MemoryClass \<Rightarrow> string" where
  "class_name ContractBuffer = ''contract_buffer''"
| "class_name ModelWeight = ''model_weight''"
| "class_name RepackedWeight = ''repacked_weight''"
| "class_name Activation = ''activation''"
| "class_name KvCache = ''kv_cache''"
| "class_name BackendScratch = ''backend_scratch''"
| "class_name PrefillScratch = ''prefill_scratch''"
| "class_name GraphBuffer = ''graph_buffer''"

definition class_from_index :: "u8 \<Rightarrow> (MemoryClass, 'e) outcome" where
  "class_from_index i =
     (if i = 0 then Ok ContractBuffer else if i = 1 then Ok ModelWeight else if i = 2 then Ok RepackedWeight
      else if i = 3 then Ok Activation else if i = 4 then Ok KvCache else if i = 5 then Ok BackendScratch
      else if i = 6 then Ok PrefillScratch else if i = 7 then Ok GraphBuffer else Panic)"

lemma class_index_inject: "class_index c = class_index d \<longleftrightarrow> c = d"
  by (cases c; cases d) simp_all

lemma class_from_index_index [simp]: "class_from_index (class_index c) = Ok c"
  by (cases c) (simp_all add: class_from_index_def)

text \<open>\<open>#[derive(Ord)]\<close>.\<close>

instantiation MemoryClass :: linorder
begin

definition less_eq_MemoryClass :: "MemoryClass \<Rightarrow> MemoryClass \<Rightarrow> bool" where
  "less_eq_MemoryClass c d \<longleftrightarrow> class_index c \<le> class_index d"

definition less_MemoryClass :: "MemoryClass \<Rightarrow> MemoryClass \<Rightarrow> bool" where
  "less_MemoryClass c d \<longleftrightarrow> class_index c < class_index d"

instance
  by intro_classes (auto simp: less_eq_MemoryClass_def less_MemoryClass_def class_index_inject less_le)

end

record MemoryClassStats =
  mx_live_bytes :: u64
  mx_peak_live_bytes :: u64
  mx_live_allocations :: u64
  mx_peak_live_allocations :: u64
  mx_allocations :: u64
  mx_frees :: u64

definition default_class_stats :: MemoryClassStats where
  "default_class_stats = \<lparr>mx_live_bytes = 0, mx_peak_live_bytes = 0, mx_live_allocations = 0,
     mx_peak_live_allocations = 0, mx_allocations = 0, mx_frees = 0\<rparr>"

record UntrackedMemory =
  um_graph_objects :: u64
  um_library_handles :: u64
  um_execution_streams :: u64
  um_execution_events :: u64

definition default_untracked :: UntrackedMemory where
  "default_untracked = \<lparr>um_graph_objects = 0, um_library_handles = 0, um_execution_streams = 0, um_execution_events = 0\<rparr>"

definition object_count :: "UntrackedMemory \<Rightarrow> (u64, 'e) outcome" where
  "object_count u =
     expect (Option.bind (checked_add (um_graph_objects u) (um_library_handles u)) (\<lambda>count.
       Option.bind (checked_add count (um_execution_streams u)) (\<lambda>count. checked_add count (um_execution_events u))))"

record MemoryAccounting =
  mm_live_bytes :: u64
  mm_reserved_bytes :: u64
  mm_peak_live_bytes :: u64
  mm_peak_owned_and_reserved_bytes :: u64
  mm_live_allocations :: u64
  mm_peak_live_allocations :: u64
  mm_allocations :: u64
  mm_frees :: u64
  mm_classes :: "(MemoryClass, MemoryClassStats) btree_map"
  mm_untracked :: UntrackedMemory
  mm_budget :: MemoryBudget

definition default_accounting :: MemoryAccounting where
  "default_accounting = \<lparr>mm_live_bytes = 0, mm_reserved_bytes = 0, mm_peak_live_bytes = 0,
     mm_peak_owned_and_reserved_bytes = 0, mm_live_allocations = 0, mm_peak_live_allocations = 0,
     mm_allocations = 0, mm_frees = 0,
     mm_classes = bt_collect (map (\<lambda>c. (c, default_class_stats)) memory_classes),
     mm_untracked = default_untracked, mm_budget = Unlimited\<rparr>"

definition accounting_class :: "MemoryAccounting \<Rightarrow> MemoryClass \<Rightarrow> MemoryClassStats" where
  "accounting_class m c = (case bt_get (mm_classes m) c of None \<Rightarrow> default_class_stats | Some stats \<Rightarrow> stats)"

definition with_untracked :: "UntrackedMemory \<Rightarrow> MemoryAccounting \<Rightarrow> MemoryAccounting" where
  "with_untracked u m = m\<lparr>mm_untracked := u\<rparr>"

record MemoryCounters =
  mc_live_bytes :: u64
  mc_peak_live_bytes :: u64
  mc_live_allocations :: u64
  mc_peak_live_allocations :: u64
  mc_allocations :: u64
  mc_frees :: u64

definition default_counters :: MemoryCounters where
  "default_counters = \<lparr>mc_live_bytes = 0, mc_peak_live_bytes = 0, mc_live_allocations = 0,
     mc_peak_live_allocations = 0, mc_allocations = 0, mc_frees = 0\<rparr>"

definition counters_snapshot :: "MemoryCounters \<Rightarrow> MemoryClassStats" where
  "counters_snapshot c = \<lparr>mx_live_bytes = mc_live_bytes c, mx_peak_live_bytes = mc_peak_live_bytes c,
     mx_live_allocations = mc_live_allocations c, mx_peak_live_allocations = mc_peak_live_allocations c,
     mx_allocations = mc_allocations c, mx_frees = mc_frees c\<rparr>"

record MemoryRootState =
  mr_total :: MemoryCounters
  mr_budget :: MemoryBudget
  mr_reserved_bytes :: u64
  mr_reserved_allocations :: u64
  mr_peak_owned_and_reserved_bytes :: u64

definition root_new :: "MemoryBudget \<Rightarrow> MemoryRootState" where
  "root_new budget = \<lparr>mr_total = default_counters, mr_budget = budget, mr_reserved_bytes = 0,
     mr_reserved_allocations = 0, mr_peak_owned_and_reserved_bytes = 0\<rparr>"

record MemoryTrackerState =
  mt_total :: MemoryCounters
  mt_classes :: "(MemoryClass, MemoryCounters) btree_map"
  mt_reserved_classes :: "(MemoryClass, u64) btree_map"
  mt_budget :: MemoryBudget
  mt_reserved_bytes :: u64
  mt_reserved_allocations :: u64
  mt_peak_owned_and_reserved_bytes :: u64

text \<open>The \<open>MemoryTrackerState\<close> that \<open>from_parts\<close> wraps.\<close>

definition tracker_state_new :: "MemoryBudget \<Rightarrow> MemoryTrackerState" where
  "tracker_state_new budget = \<lparr>mt_total = default_counters, mt_classes = [], mt_reserved_classes = [],
     mt_budget = budget, mt_reserved_bytes = 0, mt_reserved_allocations = 0, mt_peak_owned_and_reserved_bytes = 0\<rparr>"

text \<open>A handle: the addresses of the tracker's own state and of the root it charges.\<close>

record MemoryTracker =
  tk_state :: nat
  tk_shared :: nat
  tk_root_owner :: bool

record MemoryReservation =
  mv_tracker :: MemoryTracker
  mv_class :: MemoryClass
  mv_bytes :: u64

text \<open>\<open>MemoryAllocation\<close> with the \<open>AllocationRecord\<close> it wraps.\<close>

record MemoryAllocation =
  ma_identity :: u64
  ma_tracker :: MemoryTracker
  ma_class :: MemoryClass
  ma_bytes :: u64

record MemoryHeap =
  mh_root :: "nat \<Rightarrow> MemoryRootState"
  mh_tracker :: "nat \<Rightarrow> MemoryTrackerState"

definition shared_of :: "MemoryTracker \<Rightarrow> MemoryHeap \<Rightarrow> MemoryRootState" where
  "shared_of t h = mh_root h (tk_shared t)"

definition state_of :: "MemoryTracker \<Rightarrow> MemoryHeap \<Rightarrow> MemoryTrackerState" where
  "state_of t h = mh_tracker h (tk_state t)"

definition write_shared :: "MemoryTracker \<Rightarrow> MemoryHeap \<Rightarrow> MemoryRootState \<Rightarrow> MemoryHeap" where
  "write_shared t h r = h\<lparr>mh_root := (mh_root h)(tk_shared t := r)\<rparr>"

definition write_state :: "MemoryTracker \<Rightarrow> MemoryHeap \<Rightarrow> MemoryTrackerState \<Rightarrow> MemoryHeap" where
  "write_state t h s = h\<lparr>mh_tracker := (mh_tracker h)(tk_state t := s)\<rparr>"

section \<open>Creating trackers\<close>

text \<open>\<open>from_parts\<close>: \<open>state\<close> and \<open>shared\<close> are the addresses of the two \<open>Arc\<close>s.\<close>

definition tracker_from_parts :: "nat \<Rightarrow> MemoryBudget \<Rightarrow> nat \<Rightarrow> bool \<Rightarrow> MemoryHeap \<Rightarrow> MemoryTracker \<times> MemoryHeap" where
  "tracker_from_parts state budget shared root_owner h =
     (\<lparr>tk_state = state, tk_shared = shared, tk_root_owner = root_owner\<rparr>,
      h\<lparr>mh_tracker := (mh_tracker h)(state := tracker_state_new budget)\<rparr>)"

definition tracker_new :: "nat \<Rightarrow> nat \<Rightarrow> MemoryBudget \<Rightarrow> MemoryHeap \<Rightarrow> MemoryTracker \<times> MemoryHeap" where
  "tracker_new state shared budget h =
     tracker_from_parts state budget shared True (h\<lparr>mh_root := (mh_root h)(shared := root_new budget)\<rparr>)"

definition tracker_child :: "nat \<Rightarrow> MemoryBudget \<Rightarrow> nat \<Rightarrow> MemoryHeap \<Rightarrow> MemoryTracker \<times> MemoryHeap" where
  "tracker_child state budget shared h = tracker_from_parts state budget shared False h"

section \<open>Counters\<close>

definition check_budget_change :: "MemoryBudget \<Rightarrow> u64 \<Rightarrow> u64 \<Rightarrow> (unit, MemoryError) outcome" where
  "check_budget_change budget owned reserved =
     and_then (ok_or (checked_add owned reserved) ByteOverflow) (\<lambda>accounted.
     case budget of
       LimitedBytes limit \<Rightarrow> if limit < accounted then Err (BudgetBelowOwned limit owned reserved) else Ok ()
     | Unlimited \<Rightarrow> Ok ())"

definition checked_counter_capacity :: "MemoryCounters \<Rightarrow> u64 \<Rightarrow> u64 \<Rightarrow> (unit, MemoryError) outcome" where
  "checked_counter_capacity c bytes pending_allocations =
     and_then (ok_or (checked_add (mc_live_bytes c) bytes) ByteOverflow) (\<lambda>_.
     and_then (ok_or (Option.bind (checked_add (mc_live_allocations c) pending_allocations) (\<lambda>v. checked_add v 1)) AllocationCountOverflow) (\<lambda>_.
     and_then (ok_or (Option.bind (checked_add (mc_allocations c) pending_allocations) (\<lambda>v. checked_add v 1)) AllocationCountOverflow) (\<lambda>_.
     Ok ())))"

definition checked_shared_reservation :: "MemoryRootState \<Rightarrow> u64 \<Rightarrow> (u64 \<times> u64 \<times> u64, MemoryError) outcome" where
  "checked_shared_reservation s bytes =
     and_then (ok_or (Option.bind (checked_add (mc_live_bytes (mr_total s)) (mr_reserved_bytes s)) (\<lambda>v. checked_add v bytes)) ByteOverflow) (\<lambda>accounted.
     and_then (case mr_budget s of
         LimitedBytes limit \<Rightarrow>
           if limit < accounted then Err (BudgetExceeded bytes limit (mc_live_bytes (mr_total s)) (mr_reserved_bytes s)) else Ok ()
       | Unlimited \<Rightarrow> Ok ()) (\<lambda>_.
     and_then (checked_counter_capacity (mr_total s) bytes (mr_reserved_allocations s)) (\<lambda>_.
     and_then (ok_or (checked_add (mr_reserved_bytes s) bytes) ByteOverflow) (\<lambda>reserved_bytes.
     and_then (ok_or (checked_add (mr_reserved_allocations s) 1) AllocationCountOverflow) (\<lambda>reserved_allocations.
     Ok (reserved_bytes, reserved_allocations, accounted))))))"

definition checked_shared_commit :: "MemoryRootState \<Rightarrow> u64 \<Rightarrow> (u64, MemoryError) outcome" where
  "checked_shared_commit s bytes =
     (if mr_reserved_bytes s < bytes \<or> mr_reserved_allocations s = 0 then Err InvalidReservation
      else let other_reservations = mr_reserved_allocations s - 1
           in and_then (checked_counter_capacity (mr_total s) bytes other_reservations) (\<lambda>_. Ok other_reservations))"

definition class_reservations :: "MemoryTrackerState \<Rightarrow> MemoryClass \<Rightarrow> u64" where
  "class_reservations s c = (case bt_get (mt_reserved_classes s) c of None \<Rightarrow> 0 | Some n \<Rightarrow> n)"

definition class_counters :: "MemoryTrackerState \<Rightarrow> MemoryClass \<Rightarrow> MemoryCounters" where
  "class_counters s c = (case bt_get (mt_classes s) c of None \<Rightarrow> default_counters | Some n \<Rightarrow> n)"

definition checked_reservation ::
  "MemoryTrackerState \<Rightarrow> MemoryBudget \<Rightarrow> MemoryClass \<Rightarrow> u64 \<Rightarrow> (u64 \<times> u64 \<times> u64 \<times> u64, MemoryError) outcome" where
  "checked_reservation s budget c bytes =
     and_then (ok_or (Option.bind (checked_add (mc_live_bytes (mt_total s)) (mt_reserved_bytes s)) (\<lambda>v. checked_add v bytes)) ByteOverflow) (\<lambda>accounted.
     and_then (case budget of
         LimitedBytes limit \<Rightarrow>
           if limit < accounted then Err (BudgetExceeded bytes limit (mc_live_bytes (mt_total s)) (mt_reserved_bytes s)) else Ok ()
       | Unlimited \<Rightarrow> Ok ()) (\<lambda>_.
     and_then (checked_counter_capacity (mt_total s) bytes (mt_reserved_allocations s)) (\<lambda>_.
     and_then (checked_counter_capacity (class_counters s c) bytes (class_reservations s c)) (\<lambda>_.
     and_then (ok_or (checked_add (mt_reserved_bytes s) bytes) ByteOverflow) (\<lambda>reserved_bytes.
     and_then (ok_or (checked_add (mt_reserved_allocations s) 1) AllocationCountOverflow) (\<lambda>reserved_allocations.
     and_then (ok_or (checked_add (class_reservations s c) 1) AllocationCountOverflow) (\<lambda>reservations.
     Ok (reserved_bytes, reserved_allocations, reservations, accounted))))))))"

definition decrement_reserved_class :: "MemoryClass \<Rightarrow> MemoryTrackerState \<Rightarrow> (unit, MemoryError) outcome \<times> MemoryTrackerState" where
  "decrement_reserved_class c s =
     try_pure (expect (bt_get (mt_reserved_classes s) c)) s (\<lambda>count.
     try_pure (expect (checked_sub count 1)) s (\<lambda>count.
     (Ok (), if count = 0 then s\<lparr>mt_reserved_classes := bt_remove c (mt_reserved_classes s)\<rparr>
             else s\<lparr>mt_reserved_classes := bt_insert c count (mt_reserved_classes s)\<rparr>)))"

definition record_allocate :: "u64 \<Rightarrow> MemoryCounters \<Rightarrow> (unit, MemoryError) outcome \<times> MemoryCounters" where
  "record_allocate bytes c =
     try_pure (expect (checked_add (mc_live_bytes c) bytes)) c (\<lambda>live.
     let c1 = c\<lparr>mc_live_bytes := live\<rparr> in
     try_pure (expect (checked_add (mc_live_allocations c1) 1)) c1 (\<lambda>n.
     let c2 = c1\<lparr>mc_live_allocations := n\<rparr> in
     try_pure (expect (checked_add (mc_allocations c2) 1)) c2 (\<lambda>m.
     (Ok (), c2\<lparr>mc_allocations := m, mc_peak_live_bytes := max (mc_peak_live_bytes c2) (mc_live_bytes c2),
       mc_peak_live_allocations := max (mc_peak_live_allocations c2) (mc_live_allocations c2)\<rparr>))))"

definition record_free :: "u64 \<Rightarrow> MemoryCounters \<Rightarrow> (unit, MemoryError) outcome \<times> MemoryCounters" where
  "record_free bytes c =
     try_pure (expect (checked_sub (mc_live_bytes c) bytes)) c (\<lambda>live.
     let c1 = c\<lparr>mc_live_bytes := live\<rparr> in
     try_pure (expect (checked_sub (mc_live_allocations c1) 1)) c1 (\<lambda>n.
     let c2 = c1\<lparr>mc_live_allocations := n\<rparr> in
     try_pure (expect (checked_add (mc_frees c2) 1)) c2 (\<lambda>m.
     (Ok (), c2\<lparr>mc_frees := m\<rparr>))))"

text \<open>The two halves of \<open>move_live\<close>, each on the counters of one class.\<close>

definition move_out :: "u64 \<Rightarrow> MemoryCounters \<Rightarrow> (unit, MemoryError) outcome \<times> MemoryCounters" where
  "move_out bytes c =
     try_pure (expect (checked_sub (mc_live_bytes c) bytes)) c (\<lambda>live.
     let c1 = c\<lparr>mc_live_bytes := live\<rparr> in
     try_pure (expect (checked_sub (mc_live_allocations c1) 1)) c1 (\<lambda>n.
     let c2 = c1\<lparr>mc_live_allocations := n\<rparr> in
     try_pure (expect (checked_sub (mc_allocations c2) 1)) c2 (\<lambda>m.
     (Ok (), c2\<lparr>mc_allocations := m\<rparr>))))"

text \<open>\<open>state.classes.entry(class).or_default()\<close> passed to a function on the counters.\<close>

definition on_class ::
  "MemoryClass \<Rightarrow> (MemoryCounters \<Rightarrow> (unit, MemoryError) outcome \<times> MemoryCounters) \<Rightarrow> MemoryTrackerState
    \<Rightarrow> (unit, MemoryError) outcome \<times> MemoryTrackerState" where
  "on_class c f s = (case f (class_counters s c) of (r, n) \<Rightarrow> (r, s\<lparr>mt_classes := bt_insert c n (mt_classes s)\<rparr>))"

definition move_live ::
  "MemoryClass \<Rightarrow> MemoryClass \<Rightarrow> u64 \<Rightarrow> MemoryTrackerState \<Rightarrow> (unit, MemoryError) outcome \<times> MemoryTrackerState" where
  "move_live previous next bytes s =
     try_st (on_class previous (move_out bytes) s) (\<lambda>_ s1. on_class next (record_allocate bytes) s1)"

definition on_total :: "(MemoryCounters \<Rightarrow> (unit, MemoryError) outcome \<times> MemoryCounters) \<Rightarrow> MemoryTrackerState
    \<Rightarrow> (unit, MemoryError) outcome \<times> MemoryTrackerState" where
  "on_total f s = (case f (mt_total s) of (r, n) \<Rightarrow> (r, s\<lparr>mt_total := n\<rparr>))"

definition on_root_total :: "(MemoryCounters \<Rightarrow> (unit, MemoryError) outcome \<times> MemoryCounters) \<Rightarrow> MemoryRootState
    \<Rightarrow> (unit, MemoryError) outcome \<times> MemoryRootState" where
  "on_root_total f s = (case f (mr_total s) of (r, n) \<Rightarrow> (r, s\<lparr>mr_total := n\<rparr>))"

text \<open>A call on the locked state of a tracker, and on the locked state of its root.\<close>

definition on_state :: "MemoryTracker \<Rightarrow> (MemoryTrackerState \<Rightarrow> ('a, 'e) outcome \<times> MemoryTrackerState) \<Rightarrow> MemoryHeap
    \<Rightarrow> ('a, 'e) outcome \<times> MemoryHeap" where
  "on_state t f h = (case f (state_of t h) of (r, s) \<Rightarrow> (r, write_state t h s))"

definition on_shared :: "MemoryTracker \<Rightarrow> (MemoryRootState \<Rightarrow> ('a, 'e) outcome \<times> MemoryRootState) \<Rightarrow> MemoryHeap
    \<Rightarrow> ('a, 'e) outcome \<times> MemoryHeap" where
  "on_shared t f h = (case f (shared_of t h) of (r, s) \<Rightarrow> (r, write_shared t h s))"

section \<open>Reservations\<close>

definition tracker_reserve ::
  "MemoryTracker \<Rightarrow> MemoryClass \<Rightarrow> u64 \<Rightarrow> MemoryHeap \<Rightarrow> (MemoryReservation, MemoryError) outcome \<times> MemoryHeap" where
  "tracker_reserve t c bytes h =
     (if bytes = 0 then (Err ZeroBytes, h)
      else let shared = shared_of t h; state = state_of t h in
        try_pure (checked_shared_reservation shared bytes) h (\<lambda>(shared_reserved_bytes, shared_reserved_allocations, shared_accounted).
        let budget = (if tk_root_owner t then mr_budget shared else mt_budget state) in
        try_pure (checked_reservation state budget c bytes) h (\<lambda>(reserved_bytes, reserved_allocations, reservations, accounted).
        let state1 = (if tk_root_owner t then state\<lparr>mt_budget := mr_budget shared\<rparr> else state);
            shared1 = shared\<lparr>mr_reserved_bytes := shared_reserved_bytes, mr_reserved_allocations := shared_reserved_allocations,
              mr_peak_owned_and_reserved_bytes := max (mr_peak_owned_and_reserved_bytes shared) shared_accounted\<rparr>;
            state2 = state1\<lparr>mt_reserved_bytes := reserved_bytes, mt_reserved_allocations := reserved_allocations,
              mt_reserved_classes := bt_insert c reservations (mt_reserved_classes state1),
              mt_peak_owned_and_reserved_bytes := max (mt_peak_owned_and_reserved_bytes state1) accounted\<rparr>
        in (Ok \<lparr>mv_tracker = t, mv_class = c, mv_bytes = bytes\<rparr>, write_state t (write_shared t h shared1) state2))))"

text \<open>\<open>Drop for MemoryReservation\<close> of one that was not committed.\<close>

definition reservation_drop :: "MemoryReservation \<Rightarrow> MemoryHeap \<Rightarrow> (unit, MemoryError) outcome \<times> MemoryHeap" where
  "reservation_drop r h =
     (let t = mv_tracker r in
      try_st (on_shared t (\<lambda>s. try_pure (expect (checked_sub (mr_reserved_bytes s) (mv_bytes r))) s (\<lambda>b. (Ok (), s\<lparr>mr_reserved_bytes := b\<rparr>))) h) (\<lambda>_ h1.
      try_st (on_shared t (\<lambda>s. try_pure (expect (checked_sub (mr_reserved_allocations s) 1)) s (\<lambda>n. (Ok (), s\<lparr>mr_reserved_allocations := n\<rparr>))) h1) (\<lambda>_ h2.
      try_st (on_state t (\<lambda>s. try_pure (expect (checked_sub (mt_reserved_bytes s) (mv_bytes r))) s (\<lambda>b. (Ok (), s\<lparr>mt_reserved_bytes := b\<rparr>))) h2) (\<lambda>_ h3.
      try_st (on_state t (\<lambda>s. try_pure (expect (checked_sub (mt_reserved_allocations s) 1)) s (\<lambda>n. (Ok (), s\<lparr>mt_reserved_allocations := n\<rparr>))) h3) (\<lambda>_ h4.
      on_state t (decrement_reserved_class (mv_class r)) h4)))))"

text \<open>The checks and updates of \<open>commit\<close>; an error makes the caller drop the reservation.\<close>

definition commit_checks :: "MemoryReservation \<Rightarrow> MemoryHeap \<Rightarrow> (u64, MemoryError) outcome" where
  "commit_checks r h =
     (let t = mv_tracker r; shared = shared_of t h; state = state_of t h; bytes = mv_bytes r in
      and_then (checked_shared_commit shared bytes) (\<lambda>shared_other_reservations.
      if mt_reserved_bytes state < bytes \<or> mt_reserved_allocations state = 0 \<or> class_reservations state (mv_class r) = 0
      then Err InvalidReservation
      else
        and_then (checked_counter_capacity (mt_total state) bytes (mt_reserved_allocations state - 1)) (\<lambda>_.
        and_then (checked_counter_capacity (class_counters state (mv_class r)) bytes (class_reservations state (mv_class r) - 1)) (\<lambda>_.
        Ok shared_other_reservations))))"

definition reservation_commit :: "MemoryReservation \<Rightarrow> MemoryHeap \<Rightarrow> (MemoryAllocation, MemoryError) outcome \<times> MemoryHeap" where
  "reservation_commit r h =
     (let t = mv_tracker r; c = mv_class r; bytes = mv_bytes r in
      case commit_checks r h of
        Panic \<Rightarrow> (Panic, h)
      | Err e \<Rightarrow> try_st (reservation_drop r h) (\<lambda>_ h1. (Err e, h1))
      | Ok shared_other_reservations \<Rightarrow>
          try_st (on_shared t (\<lambda>s. on_root_total (record_allocate bytes)
              (s\<lparr>mr_reserved_bytes := mr_reserved_bytes s - bytes, mr_reserved_allocations := shared_other_reservations\<rparr>)) h) (\<lambda>_ h1.
          try_st (on_state t (\<lambda>s. decrement_reserved_class c
              (s\<lparr>mt_reserved_bytes := mt_reserved_bytes s - bytes, mt_reserved_allocations := mt_reserved_allocations s - 1\<rparr>)) h1) (\<lambda>_ h2.
          try_st (on_state t (on_total (record_allocate bytes)) h2) (\<lambda>_ h3.
          try_st (on_state t (on_class c (record_allocate bytes)) h3) (\<lambda>_ h4.
          (Ok \<lparr>ma_identity = mc_allocations (mt_total (state_of t h4)), ma_tracker = t, ma_class = c, ma_bytes = bytes\<rparr>, h4))))))"

definition tracker_allocate ::
  "MemoryTracker \<Rightarrow> MemoryClass \<Rightarrow> u64 \<Rightarrow> MemoryHeap \<Rightarrow> (MemoryAllocation, MemoryError) outcome \<times> MemoryHeap" where
  "tracker_allocate t c bytes h = try_st (tracker_reserve t c bytes h) reservation_commit"

section \<open>Allocations\<close>

text \<open>\<open>Drop for MemoryAllocation\<close>.\<close>

definition allocation_drop :: "MemoryAllocation \<Rightarrow> MemoryHeap \<Rightarrow> (unit, MemoryError) outcome \<times> MemoryHeap" where
  "allocation_drop a h =
     (let t = ma_tracker a in
      try_st (on_state t (on_total (record_free (ma_bytes a))) h) (\<lambda>_ h1.
      try_st (on_state t (on_class (ma_class a) (record_free (ma_bytes a))) h1) (\<lambda>_ h2.
      on_shared t (on_root_total (record_free (ma_bytes a))) h2)))"

definition reclassify ::
  "MemoryAllocation \<Rightarrow> MemoryClass \<Rightarrow> MemoryHeap \<Rightarrow> (MemoryAllocation, MemoryError) outcome \<times> MemoryHeap" where
  "reclassify a c h =
     (let previous = ma_class a in
      if previous = c then (Ok a, h)
      else try_st (on_state (ma_tracker a) (move_live previous c (ma_bytes a)) h) (\<lambda>_ h1. (Ok (a\<lparr>ma_class := c\<rparr>), h1)))"

definition reserve_duplicate :: "MemoryAllocation \<Rightarrow> MemoryHeap \<Rightarrow> (MemoryReservation, MemoryError) outcome \<times> MemoryHeap" where
  "reserve_duplicate a h = tracker_reserve (ma_tracker a) (ma_class a) (ma_bytes a) h"

definition allocation_duplicate :: "MemoryAllocation \<Rightarrow> MemoryHeap \<Rightarrow> (MemoryAllocation, MemoryError) outcome \<times> MemoryHeap" where
  "allocation_duplicate a h = tracker_allocate (ma_tracker a) (ma_class a) (ma_bytes a) h"

section \<open>Budgets and queries\<close>

definition root_set_budget :: "nat \<Rightarrow> MemoryBudget \<Rightarrow> MemoryHeap \<Rightarrow> (unit, MemoryError) outcome \<times> MemoryHeap" where
  "root_set_budget root budget h =
     (let s = mh_root h root in
      try_pure (check_budget_change budget (mc_live_bytes (mr_total s)) (mr_reserved_bytes s)) h (\<lambda>_.
      (Ok (), h\<lparr>mh_root := (mh_root h)(root := s\<lparr>mr_budget := budget\<rparr>)\<rparr>)))"

definition tracker_set_budget :: "MemoryTracker \<Rightarrow> MemoryBudget \<Rightarrow> MemoryHeap \<Rightarrow> (unit, MemoryError) outcome \<times> MemoryHeap" where
  "tracker_set_budget t budget h =
     (let shared = shared_of t h; state = state_of t h in
      try_pure (check_budget_change budget (mc_live_bytes (mt_total state)) (mt_reserved_bytes state)) h (\<lambda>_.
      if tk_root_owner t
      then try_pure (check_budget_change budget (mc_live_bytes (mr_total shared)) (mr_reserved_bytes shared)) h (\<lambda>_.
        (Ok (), write_state t (write_shared t h (shared\<lparr>mr_budget := budget\<rparr>)) (state\<lparr>mt_budget := budget\<rparr>)))
      else (Ok (), write_state t h (state\<lparr>mt_budget := budget\<rparr>))))"

definition root_budget :: "nat \<Rightarrow> MemoryHeap \<Rightarrow> MemoryBudget" where
  "root_budget root h = mr_budget (mh_root h root)"

definition root_owned_bytes :: "nat \<Rightarrow> MemoryHeap \<Rightarrow> u64" where
  "root_owned_bytes root h = mc_live_bytes (mr_total (mh_root h root))"

definition root_reserved_bytes :: "nat \<Rightarrow> MemoryHeap \<Rightarrow> u64" where
  "root_reserved_bytes root h = mr_reserved_bytes (mh_root h root)"

definition tracker_budget :: "MemoryTracker \<Rightarrow> MemoryHeap \<Rightarrow> MemoryBudget" where
  "tracker_budget t h = (if tk_root_owner t then mr_budget (shared_of t h) else mt_budget (state_of t h))"

definition tracker_is_empty :: "MemoryTracker \<Rightarrow> MemoryHeap \<Rightarrow> bool" where
  "tracker_is_empty t h \<longleftrightarrow> mc_live_bytes (mt_total (state_of t h)) = 0 \<and> mt_reserved_bytes (state_of t h) = 0"

definition tracker_owned_bytes :: "MemoryTracker \<Rightarrow> MemoryHeap \<Rightarrow> u64" where
  "tracker_owned_bytes t h = mc_live_bytes (mt_total (state_of t h))"

definition tracker_reserved_bytes :: "MemoryTracker \<Rightarrow> MemoryHeap \<Rightarrow> u64" where
  "tracker_reserved_bytes t h = mt_reserved_bytes (state_of t h)"

definition root_snapshot :: "MemoryRootState \<Rightarrow> MemoryAccounting" where
  "root_snapshot s = default_accounting\<lparr>mm_live_bytes := mc_live_bytes (mr_total s), mm_reserved_bytes := mr_reserved_bytes s,
     mm_peak_live_bytes := mc_peak_live_bytes (mr_total s),
     mm_peak_owned_and_reserved_bytes := mr_peak_owned_and_reserved_bytes s,
     mm_live_allocations := mc_live_allocations (mr_total s),
     mm_peak_live_allocations := mc_peak_live_allocations (mr_total s),
     mm_allocations := mc_allocations (mr_total s), mm_frees := mc_frees (mr_total s), mm_budget := mr_budget s,
     mm_classes := bt_collect (map (\<lambda>c. (c, default_class_stats)) memory_classes)\<rparr>"

definition tracker_state_snapshot :: "MemoryTrackerState \<Rightarrow> MemoryAccounting" where
  "tracker_state_snapshot s = \<lparr>mm_live_bytes = mc_live_bytes (mt_total s), mm_reserved_bytes = mt_reserved_bytes s,
     mm_peak_live_bytes = mc_peak_live_bytes (mt_total s),
     mm_peak_owned_and_reserved_bytes = mt_peak_owned_and_reserved_bytes s,
     mm_live_allocations = mc_live_allocations (mt_total s),
     mm_peak_live_allocations = mc_peak_live_allocations (mt_total s),
     mm_allocations = mc_allocations (mt_total s), mm_frees = mc_frees (mt_total s),
     mm_classes = bt_collect (map (\<lambda>c. (c, counters_snapshot (class_counters s c))) memory_classes),
     mm_untracked = default_untracked, mm_budget = mt_budget s\<rparr>"

definition tracker_snapshot :: "MemoryTracker \<Rightarrow> MemoryHeap \<Rightarrow> MemoryAccounting" where
  "tracker_snapshot t h =
     (let snapshot = tracker_state_snapshot (state_of t h)
      in if tk_root_owner t then snapshot\<lparr>mm_budget := mr_budget (shared_of t h)\<rparr> else snapshot)"

end
