(* ===== verification/Memory_System.thy ===== *)
theory Memory_System
  imports Memory_Tracker
begin

text \<open>
  The trackers, reservations and allocations that exist at one time, as one machine
  (interpretation \<open>mem\<close>). The invariant is a ledger: the counters of every tracker, of
  every class of it and of every root are the sums over the handles that are alive, and
  owned plus reserved bytes stay within the budgets. It makes every \<open>expect\<close> of the code
  unreachable and the commit of a live reservation certain.
\<close>

section \<open>Word arithmetic\<close>

lemma checked_add_fits:
  "unat a + unat b < 2 ^ 64 \<Longrightarrow> checked_add a b = Some (a + b) \<and> unat (a + b) = unat a + unat b"
  for a b :: u64
  by (auto simp: checked_add_def unat_word_ariths take_bit_nat_eq_self)

lemma checked_add_fails: "2 ^ 64 \<le> unat a + unat b \<Longrightarrow> checked_add a b = None"
  for a b :: u64
  by (auto simp: checked_add_def)

lemma checked_sub_fits:
  "unat b \<le> unat a \<Longrightarrow> checked_sub a b = Some (a - b) \<and> unat (a - b) = unat a - unat b"
  for a b :: u64
  by (auto simp: checked_sub_def word_le_nat_alt unat_sub)

lemma unat_one_u64 [simp]: "unat (1 :: u64) = 1"
  by simp

section \<open>Counters as sums over handles\<close>

definition bytes_of :: "MemoryAllocation multiset \<Rightarrow> nat" where
  "bytes_of A = (\<Sum>a\<in>#A. unat (ma_bytes a))"

definition pledged :: "MemoryReservation multiset \<Rightarrow> nat" where
  "pledged R = (\<Sum>r\<in>#R. unat (mv_bytes r))"

lemma bytes_of_simps [simp]: "bytes_of {#} = 0" "bytes_of (add_mset a A) = unat (ma_bytes a) + bytes_of A"
  by (simp_all add: bytes_of_def)

lemma pledged_simps [simp]: "pledged {#} = 0" "pledged (add_mset r R) = unat (mv_bytes r) + pledged R"
  by (simp_all add: pledged_def)

lemma bytes_of_filter: "bytes_of (filter_mset P A) \<le> bytes_of A"
  by (induction A) auto

lemma pledged_filter: "pledged (filter_mset P R) \<le> pledged R"
  by (induction R) auto

lemma size_filter_le: "size (filter_mset P A) \<le> size A"
  by (simp add: size_filter_mset_lesseq)

definition live_is :: "MemoryCounters \<Rightarrow> MemoryAllocation multiset \<Rightarrow> bool" where
  "live_is c A \<longleftrightarrow> unat (mc_live_bytes c) = bytes_of A \<and> unat (mc_live_allocations c) = size A \<and>
     unat (mc_allocations c) = size A + unat (mc_frees c) \<and>
     mc_live_bytes c \<le> mc_peak_live_bytes c \<and> mc_live_allocations c \<le> mc_peak_live_allocations c"

lemma live_is_default [simp]: "live_is default_counters {#}"
  by (simp add: live_is_def default_counters_def)

lemma record_allocate_run:
  assumes "live_is c A" and "bytes_of A + unat bytes < 2 ^ 64" and "unat (mc_allocations c) + 1 < 2 ^ 64" and "ma_bytes a = bytes"
  obtains c' where "record_allocate bytes c = (Ok (), c')" and "live_is c' (add_mset a A)"
    and "mc_frees c' = mc_frees c" and "unat (mc_allocations c') = unat (mc_allocations c) + 1"
proof -
  have b: "checked_add (mc_live_bytes c) bytes = Some (mc_live_bytes c + bytes)"
    "unat (mc_live_bytes c + bytes) = bytes_of A + unat bytes"
    using checked_add_fits [of "mc_live_bytes c" bytes] assms(1,2) by (simp_all add: live_is_def)
  have n: "checked_add (mc_live_allocations c) 1 = Some (mc_live_allocations c + 1)" "unat (mc_live_allocations c + 1) = size A + 1"
    using checked_add_fits [of "mc_live_allocations c" 1] assms(1,3) by (simp_all add: live_is_def)
  have m: "checked_add (mc_allocations c) 1 = Some (mc_allocations c + 1)" "unat (mc_allocations c + 1) = unat (mc_allocations c) + 1"
    using checked_add_fits [of "mc_allocations c" 1] assms(3) by simp_all
  let ?c = "c\<lparr>mc_live_bytes := mc_live_bytes c + bytes, mc_live_allocations := mc_live_allocations c + 1,
     mc_allocations := mc_allocations c + 1, mc_peak_live_bytes := max (mc_peak_live_bytes c) (mc_live_bytes c + bytes),
     mc_peak_live_allocations := max (mc_peak_live_allocations c) (mc_live_allocations c + 1)\<rparr>"
  show thesis
    by (rule that [of ?c]) (use b n m assms(1,4) in \<open>auto simp: record_allocate_def live_is_def\<close>)
qed

lemma record_free_run:
  assumes "live_is c (add_mset a A)"
  obtains c' where "record_free (ma_bytes a) c = (Ok (), c')" and "live_is c' A"
    and "unat (mc_frees c') = unat (mc_frees c) + 1" and "mc_allocations c' = mc_allocations c"
proof -
  have b: "checked_sub (mc_live_bytes c) (ma_bytes a) = Some (mc_live_bytes c - ma_bytes a)"
    "unat (mc_live_bytes c - ma_bytes a) = bytes_of A"
    using checked_sub_fits [of "ma_bytes a" "mc_live_bytes c"] assms by (simp_all add: live_is_def)
  have n: "checked_sub (mc_live_allocations c) 1 = Some (mc_live_allocations c - 1)" "unat (mc_live_allocations c - 1) = size A"
    using checked_sub_fits [of 1 "mc_live_allocations c"] assms by (simp_all add: live_is_def)
  have "unat (mc_frees c) + 1 < 2 ^ 64"
    using assms unat_lt_2p [of "mc_allocations c"] by (simp add: live_is_def)
  then have m: "checked_add (mc_frees c) 1 = Some (mc_frees c + 1)" "unat (mc_frees c + 1) = unat (mc_frees c) + 1"
    using checked_add_fits [of "mc_frees c" 1] by simp_all
  have le: "mc_live_bytes c - ma_bytes a \<le> mc_peak_live_bytes c" "mc_live_allocations c - 1 \<le> mc_peak_live_allocations c"
    using assms b n by (auto simp: live_is_def word_le_nat_alt)
  show thesis
    by (rule that [of "c\<lparr>mc_live_bytes := mc_live_bytes c - ma_bytes a, mc_live_allocations := mc_live_allocations c - 1,
          mc_frees := mc_frees c + 1\<rparr>"])
       (use b n m le assms in \<open>auto simp: record_free_def live_is_def\<close>)
qed

lemma move_out_run:
  assumes "live_is c (add_mset a A)"
  obtains c' where "move_out (ma_bytes a) c = (Ok (), c')" and "live_is c' A" and "mc_frees c' = mc_frees c"
    and "unat (mc_allocations c') + 1 = unat (mc_allocations c)"
proof -
  have b: "checked_sub (mc_live_bytes c) (ma_bytes a) = Some (mc_live_bytes c - ma_bytes a)"
    "unat (mc_live_bytes c - ma_bytes a) = bytes_of A"
    using checked_sub_fits [of "ma_bytes a" "mc_live_bytes c"] assms by (simp_all add: live_is_def)
  have n: "checked_sub (mc_live_allocations c) 1 = Some (mc_live_allocations c - 1)" "unat (mc_live_allocations c - 1) = size A"
    using checked_sub_fits [of 1 "mc_live_allocations c"] assms by (simp_all add: live_is_def)
  have m: "checked_sub (mc_allocations c) 1 = Some (mc_allocations c - 1)" "unat (mc_allocations c - 1) + 1 = unat (mc_allocations c)"
    using checked_sub_fits [of 1 "mc_allocations c"] assms by (simp_all add: live_is_def)
  have le: "mc_live_bytes c - ma_bytes a \<le> mc_peak_live_bytes c" "mc_live_allocations c - 1 \<le> mc_peak_live_allocations c"
    using assms b n by (auto simp: live_is_def word_le_nat_alt)
  show thesis
    by (rule that [of "c\<lparr>mc_live_bytes := mc_live_bytes c - ma_bytes a, mc_live_allocations := mc_live_allocations c - 1,
          mc_allocations := mc_allocations c - 1\<rparr>"])
       (use b n m le assms in \<open>auto simp: move_out_def live_is_def\<close>)
qed

lemma capacity_fits:
  "checked_counter_capacity c bytes pending =
     (if 2 ^ 64 \<le> unat (mc_live_bytes c) + unat bytes then Err ByteOverflow
      else if 2 ^ 64 \<le> unat (mc_live_allocations c) + unat pending + 1 \<or> 2 ^ 64 \<le> unat (mc_allocations c) + unat pending + 1
      then Err AllocationCountOverflow else Ok ())"
proof -
  have two: "Option.bind (checked_add x pending) (\<lambda>v. checked_add v 1) = None \<longleftrightarrow> 2 ^ 64 \<le> unat x + unat pending + 1"
    for x :: u64
  proof (cases "unat x + unat pending < 2 ^ 64")
    case True
    then show ?thesis
      using checked_add_fits [OF True] checked_add_fits [of "x + pending" 1] checked_add_fails [of "x + pending" 1]
      by (cases "unat x + unat pending + 1 < 2 ^ 64") simp_all
  next
    case False
    then show ?thesis using checked_add_fails [of x pending] by simp
  qed
  have one: "checked_add (mc_live_bytes c) bytes = None \<longleftrightarrow> 2 ^ 64 \<le> unat (mc_live_bytes c) + unat bytes"
    by (simp add: checked_add_def)
  show ?thesis
    using one two [of "mc_live_allocations c"] two [of "mc_allocations c"]
    unfolding checked_counter_capacity_def ok_or_def
    by (auto split: option.split simp del: bind_eq_None_conv)
qed

section \<open>One tracker and one root\<close>

definition within :: "MemoryBudget \<Rightarrow> nat \<Rightarrow> bool" where
  "within budget n = (case budget of Unlimited \<Rightarrow> True | LimitedBytes limit \<Rightarrow> n \<le> unat limit)"

definition root_ok :: "MemoryRootState \<Rightarrow> MemoryReservation multiset \<Rightarrow> MemoryAllocation multiset \<Rightarrow> bool" where
  "root_ok s R A \<longleftrightarrow> live_is (mr_total s) A \<and> unat (mr_reserved_bytes s) = pledged R \<and>
     unat (mr_reserved_allocations s) = size R \<and> bytes_of A + pledged R < 2 ^ 64 \<and>
     unat (mc_allocations (mr_total s)) + size R < 2 ^ 64 \<and> within (mr_budget s) (bytes_of A + pledged R) \<and>
     bytes_of A + pledged R \<le> unat (mr_peak_owned_and_reserved_bytes s)"

definition class_ok :: "MemoryTrackerState \<Rightarrow> MemoryClass \<Rightarrow> MemoryReservation multiset \<Rightarrow> MemoryAllocation multiset \<Rightarrow> bool" where
  "class_ok s c R A \<longleftrightarrow> live_is (class_counters s c) (filter_mset (\<lambda>a. ma_class a = c) A) \<and>
     unat (mc_frees (class_counters s c)) \<le> unat (mc_frees (mt_total s)) \<and>
     bt_get (mt_reserved_classes s) c =
       (if filter_mset (\<lambda>r. mv_class r = c) R = {#} then None else Some (of_nat (size (filter_mset (\<lambda>r. mv_class r = c) R))))"

definition tracker_ok :: "MemoryTracker \<Rightarrow> MemoryTrackerState \<Rightarrow> MemoryReservation multiset \<Rightarrow> MemoryAllocation multiset \<Rightarrow> bool" where
  "tracker_ok t s R A \<longleftrightarrow> live_is (mt_total s) A \<and> unat (mt_reserved_bytes s) = pledged R \<and>
     unat (mt_reserved_allocations s) = size R \<and> bytes_of A + pledged R < 2 ^ 64 \<and>
     unat (mc_allocations (mt_total s)) + size R < 2 ^ 64 \<and>
     (\<not> tk_root_owner t \<longrightarrow> within (mt_budget s) (bytes_of A + pledged R)) \<and>
     bytes_of A + pledged R \<le> unat (mt_peak_owned_and_reserved_bytes s) \<and>
     (\<forall>c. class_ok s c R A) \<and>
     (\<forall>i. size (filter_mset (\<lambda>a. ma_identity a = i) A) \<le> 1) \<and>
     (\<forall>a\<in>#A. ma_identity a \<le> mc_allocations (mt_total s))"

text \<open>A class holds no more than its tracker, so its own capacity checks never decide.\<close>

lemma class_reservations_size:
  assumes "tracker_ok t s R A"
  shows "unat (class_reservations s c) = size (filter_mset (\<lambda>r. mv_class r = c) R)"
proof -
  have "size R < 2 ^ 64" using assms by (simp add: tracker_ok_def)
  then have "size (filter_mset (\<lambda>r. mv_class r = c) R) < 2 ^ 64" by (rule le_less_trans [OF size_filter_le])
  then have "unat (of_nat (size (filter_mset (\<lambda>r. mv_class r = c) R)) :: u64) = size (filter_mset (\<lambda>r. mv_class r = c) R)"
    by (simp add: unsigned_of_nat take_bit_nat_eq_self)
  moreover have "class_ok s c R A" using assms by (simp add: tracker_ok_def)
  ultimately show ?thesis by (simp add: class_ok_def class_reservations_def)
qed

lemma class_within_total:
  assumes "tracker_ok t s R A"
  shows "unat (mc_live_bytes (class_counters s c)) \<le> unat (mc_live_bytes (mt_total s))"
    and "unat (mc_live_allocations (class_counters s c)) \<le> unat (mc_live_allocations (mt_total s))"
    and "unat (mc_allocations (class_counters s c)) \<le> unat (mc_allocations (mt_total s))"
    and "unat (class_reservations s c) \<le> unat (mt_reserved_allocations s)"
proof -
  have c: "class_ok s c R A" and t: "live_is (mt_total s) A" using assms by (simp_all add: tracker_ok_def)
  note f = bytes_of_filter [of "\<lambda>a. ma_class a = c" A] size_filter_le [of "\<lambda>a. ma_class a = c" A]
  have eq: "unat (mc_live_bytes (class_counters s c)) = bytes_of (filter_mset (\<lambda>a. ma_class a = c) A)"
    "unat (mc_live_bytes (mt_total s)) = bytes_of A"
    "unat (mc_live_allocations (class_counters s c)) = size (filter_mset (\<lambda>a. ma_class a = c) A)"
    "unat (mc_live_allocations (mt_total s)) = size A"
    "unat (mc_allocations (class_counters s c)) = size (filter_mset (\<lambda>a. ma_class a = c) A) + unat (mc_frees (class_counters s c))"
    "unat (mc_allocations (mt_total s)) = size A + unat (mc_frees (mt_total s))"
    using c t by (simp_all add: class_ok_def live_is_def)
  show "unat (mc_live_bytes (class_counters s c)) \<le> unat (mc_live_bytes (mt_total s))"
    "unat (mc_live_allocations (class_counters s c)) \<le> unat (mc_live_allocations (mt_total s))"
    unfolding eq by (rule f)+
  show "unat (mc_allocations (class_counters s c)) \<le> unat (mc_allocations (mt_total s))"
    unfolding eq by (rule add_mono) (use f c in \<open>simp_all add: class_ok_def\<close>)
  show "unat (class_reservations s c) \<le> unat (mt_reserved_allocations s)"
    using size_filter_le [of "\<lambda>r. mv_class r = c" R] assms
    unfolding class_reservations_size [OF assms, of c] by (simp add: tracker_ok_def)
qed

text \<open>What the two reservation checks decide, in terms of the handles alive.\<close>

lemma three_summands:
  "Option.bind (checked_add a b) (\<lambda>v. checked_add v c) =
    (if unat a + unat b + unat c < 2 ^ 64 then Some (a + b + c) else None)"
  for a b c :: u64
  using checked_add_fits [of a b] checked_add_fails [of a b] checked_add_fits [of "a + b" c] checked_add_fails [of "a + b" c]
  by (cases "unat a + unat b < 2 ^ 64"; cases "unat a + unat b + unat c < 2 ^ 64") simp_all

lemma unat_three: "unat a + unat b + unat c < 2 ^ 64 \<Longrightarrow> unat (a + b + c) = unat a + unat b + unat c"
  for a b c :: u64
  using checked_add_fits [of a b] checked_add_fits [of "a + b" c] by simp

definition over_budget :: "MemoryBudget \<Rightarrow> u64 \<Rightarrow> u64 \<Rightarrow> u64 \<Rightarrow> MemoryError" where
  "over_budget budget bytes owned reserved =
     (case budget of LimitedBytes limit \<Rightarrow> BudgetExceeded bytes limit owned reserved | Unlimited \<Rightarrow> InvalidReservation)"

lemma budget_check:
  "(case budget of LimitedBytes limit \<Rightarrow> if limit < n then Err (BudgetExceeded bytes limit owned reserved) else Ok ()
     | Unlimited \<Rightarrow> Ok ()) =
   (if within budget (unat n) then Ok () else Err (over_budget budget bytes owned reserved))"
  by (auto simp: within_def over_budget_def word_less_nat_alt split: MemoryBudget.split)

lemma shared_reservation_closed:
  assumes "root_ok s R A"
  shows "checked_shared_reservation s bytes =
    (if 2 ^ 64 \<le> bytes_of A + pledged R + unat bytes then Err ByteOverflow
     else if \<not> within (mr_budget s) (bytes_of A + pledged R + unat bytes)
       then Err (over_budget (mr_budget s) bytes (mc_live_bytes (mr_total s)) (mr_reserved_bytes s))
     else if 2 ^ 64 \<le> unat (mc_allocations (mr_total s)) + size R + 1 then Err AllocationCountOverflow
     else Ok (mr_reserved_bytes s + bytes, mr_reserved_allocations s + 1, mc_live_bytes (mr_total s) + mr_reserved_bytes s + bytes))"
proof -
  have f: "unat (mc_live_bytes (mr_total s)) = bytes_of A" "unat (mr_reserved_bytes s) = pledged R"
    "unat (mr_reserved_allocations s) = size R" "unat (mc_live_allocations (mr_total s)) = size A"
    "size A \<le> unat (mc_allocations (mr_total s))"
    using assms by (simp_all add: root_ok_def live_is_def)
  show ?thesis
  proof (cases "bytes_of A + pledged R + unat bytes < 2 ^ 64")
    case False
    then show ?thesis by (simp add: checked_shared_reservation_def three_summands f ok_or_def)
  next
    case True
    have n: "unat (mc_live_bytes (mr_total s) + mr_reserved_bytes s + bytes) = bytes_of A + pledged R + unat bytes"
      using unat_three [of "mc_live_bytes (mr_total s)" "mr_reserved_bytes s" bytes] True by (simp add: f)
    have b: "checked_add (mr_reserved_bytes s) bytes = Some (mr_reserved_bytes s + bytes)"
      using checked_add_fits [of "mr_reserved_bytes s" bytes] True by (simp add: f)
    show ?thesis
    proof (cases "unat (mc_allocations (mr_total s)) + size R + 1 < 2 ^ 64")
      case fits: True
      have small: "size A + size R + 1 < 2 ^ 64" using fits f(5) by linarith
      then have "checked_add (mr_reserved_allocations s) 1 = Some (mr_reserved_allocations s + 1)"
        using checked_add_fits [of "mr_reserved_allocations s" 1] by (simp add: f)
      then show ?thesis
        using True fits b small
        by (simp add: checked_shared_reservation_def three_summands budget_check capacity_fits f(1-4) n)
    next
      case False
      then show ?thesis
        using True f(5) by (simp add: checked_shared_reservation_def three_summands budget_check capacity_fits f(1-4) n)
    qed
  qed
qed

lemma reservation_closed:
  assumes ok: "tracker_ok t s R A"
  shows "checked_reservation s budget c bytes =
    (if 2 ^ 64 \<le> bytes_of A + pledged R + unat bytes then Err ByteOverflow
     else if \<not> within budget (bytes_of A + pledged R + unat bytes)
       then Err (over_budget budget bytes (mc_live_bytes (mt_total s)) (mt_reserved_bytes s))
     else if 2 ^ 64 \<le> unat (mc_allocations (mt_total s)) + size R + 1 then Err AllocationCountOverflow
     else Ok (mt_reserved_bytes s + bytes, mt_reserved_allocations s + 1, class_reservations s c + 1,
       mc_live_bytes (mt_total s) + mt_reserved_bytes s + bytes))"
proof -
  have f: "unat (mc_live_bytes (mt_total s)) = bytes_of A" "unat (mt_reserved_bytes s) = pledged R"
    "unat (mt_reserved_allocations s) = size R" "unat (mc_live_allocations (mt_total s)) = size A"
    "size A \<le> unat (mc_allocations (mt_total s))"
    using assms by (simp_all add: tracker_ok_def live_is_def)
  note k = class_within_total [OF ok, of c, unfolded f]
  show ?thesis
  proof (cases "bytes_of A + pledged R + unat bytes < 2 ^ 64")
    case False
    then show ?thesis by (simp add: checked_reservation_def three_summands f ok_or_def)
  next
    case True
    have n: "unat (mc_live_bytes (mt_total s) + mt_reserved_bytes s + bytes) = bytes_of A + pledged R + unat bytes"
      using unat_three [of "mc_live_bytes (mt_total s)" "mt_reserved_bytes s" bytes] True by (simp add: f)
    have b: "checked_add (mt_reserved_bytes s) bytes = Some (mt_reserved_bytes s + bytes)"
      using checked_add_fits [of "mt_reserved_bytes s" bytes] True by (simp add: f)
    show ?thesis
    proof (cases "unat (mc_allocations (mt_total s)) + size R + 1 < 2 ^ 64")
      case fits: True
      have small: "size A + size R + 1 < 2 ^ 64" using fits f(5) by linarith
      have "checked_add (mt_reserved_allocations s) 1 = Some (mt_reserved_allocations s + 1)"
        "checked_add (class_reservations s c) 1 = Some (class_reservations s c + 1)"
        using checked_add_fits [of "mt_reserved_allocations s" 1] checked_add_fits [of "class_reservations s c" 1] k fits
        by (simp_all add: f)
      moreover have "checked_counter_capacity (class_counters s c) bytes (class_reservations s c) = Ok ()"
        using k fits True f(5) by (simp add: capacity_fits)
      ultimately show ?thesis
        using True fits b small
        by (simp add: checked_reservation_def three_summands budget_check capacity_fits f(1-4) n)
    next
      case False
      then show ?thesis
        using True f(5) by (simp add: checked_reservation_def three_summands budget_check capacity_fits f(1-4) n)
    qed
  qed
qed

section \<open>The operations on one tracker and its root\<close>

lemma heap_simps [simp]:
  "state_of t (write_shared t h sh) = state_of t h" "shared_of t (write_state t h s) = shared_of t h"
  "state_of t (write_state t h s) = s" "shared_of t (write_shared t h sh) = sh"
  "write_state t (write_state t h s) s' = write_state t h s'"
  "write_shared t (write_shared t h sh) sh' = write_shared t h sh'"
  "write_shared t (write_state t h s) sh = write_state t (write_shared t h sh) s"
  by (simp_all add: state_of_def shared_of_def write_state_def write_shared_def)

lemma class_counters_frame [simp]:
  "class_counters (s\<lparr>mt_reserved_classes := m\<rparr>) = class_counters s"
  "class_counters (s\<lparr>mt_reserved_bytes := b\<rparr>) = class_counters s"
  "class_counters (s\<lparr>mt_reserved_allocations := b\<rparr>) = class_counters s"
  "class_counters (s\<lparr>mt_total := n\<rparr>) = class_counters s"
  "class_counters (s\<lparr>mt_budget := budget\<rparr>) = class_counters s"
  "class_counters (s\<lparr>mt_peak_owned_and_reserved_bytes := b\<rparr>) = class_counters s"
  by (rule ext, simp add: class_counters_def)+

lemma class_counters_insert [simp]:
  "class_counters (s\<lparr>mt_classes := bt_insert c n (mt_classes s)\<rparr>) = (class_counters s)(c := n)"
  by (rule ext) (simp add: class_counters_def)

lemma reserved_of_class:
  assumes "tracker_ok t s R A" and "r \<in># R" and "mv_class r = c"
  obtains n where "bt_get (mt_reserved_classes s) c = Some (of_nat n)" and "0 < n" and "n < 2 ^ 64"
    and "n = size (filter_mset (\<lambda>r. mv_class r = c) R)" and "class_reservations s c = of_nat n"
proof -
  let ?n = "size (filter_mset (\<lambda>r. mv_class r = c) R)"
  have ne: "filter_mset (\<lambda>r. mv_class r = c) R \<noteq> {#}" using assms(2,3) by (auto simp: filter_mset_eq_conv)
  then have "0 < ?n" using nonempty_has_size by blast
  moreover have "class_ok s c R A" using assms(1) by (simp add: tracker_ok_def)
  then have "bt_get (mt_reserved_classes s) c = Some (of_nat ?n)" using ne by (simp only: class_ok_def if_False simp_thms)
  moreover have "size R < 2 ^ 64" using assms(1) by (simp add: tracker_ok_def)
  then have "?n < 2 ^ 64" by (rule le_less_trans [OF size_filter_le])
  ultimately show thesis by (intro that [of ?n]) (simp_all add: class_reservations_def)
qed

lemma decrement_run:
  assumes "bt_get (mt_reserved_classes s) c = Some (of_nat n)" and "0 < n" and "n < 2 ^ 64"
  obtains m where "decrement_reserved_class c s = (Ok (), s\<lparr>mt_reserved_classes := m\<rparr>)"
    and "bt_get m = (bt_get (mt_reserved_classes s))(c := if n = 1 then None else Some (of_nat (n - 1)))"
proof -
  have u: "unat (of_nat n :: u64) = n" using assms(3) by (simp add: unsigned_of_nat take_bit_nat_eq_self)
  have sub: "checked_sub (of_nat n :: u64) 1 = Some (of_nat n - 1)" "unat (of_nat n - 1 :: u64) = n - 1"
    using checked_sub_fits [of 1 "of_nat n :: u64"] assms(2) by (simp_all add: u)
  have zero: "of_nat n - 1 = (0 :: u64) \<longleftrightarrow> n = 1"
    using sub(2) assms(2) by (metis One_nat_def Suc_pred diff_self_eq_0 unat_eq_zero)
  have pred: "of_nat n - 1 = (of_nat (n - 1) :: u64)" using assms(2) by simp
  show thesis
  proof (cases "n = 1")
    case True
    then have "of_nat n - 1 = (0 :: u64)" using zero by blast
    then show thesis
      by (intro that [of "bt_remove c (mt_reserved_classes s)"])
         (use assms(1) sub(1) True in \<open>simp_all add: decrement_reserved_class_def\<close>)
  next
    case False
    then have "of_nat n - 1 \<noteq> (0 :: u64)" using zero by blast
    then show thesis
      by (intro that [of "bt_insert c (of_nat n - 1) (mt_reserved_classes s)"])
         (use assms(1) sub(1) False pred in \<open>simp_all add: decrement_reserved_class_def\<close>)
  qed
qed

text \<open>The reservation leaves, or enters, the books of its tracker and of its root.\<close>

lemma root_take:
  assumes ok: "root_ok s (add_mset r R) A"
  shows "unat (mr_reserved_bytes s - mv_bytes r) = pledged R" "unat (mr_reserved_allocations s - 1) = size R"
    "checked_sub (mr_reserved_bytes s) (mv_bytes r) = Some (mr_reserved_bytes s - mv_bytes r)"
    "checked_sub (mr_reserved_allocations s) 1 = Some (mr_reserved_allocations s - 1)"
    "root_ok (s\<lparr>mr_reserved_bytes := mr_reserved_bytes s - mv_bytes r, mr_reserved_allocations := mr_reserved_allocations s - 1\<rparr>) R A"
proof -
  have b: "unat (mr_reserved_bytes s) = unat (mv_bytes r) + pledged R" "unat (mr_reserved_allocations s) = Suc (size R)"
    using ok by (simp_all add: root_ok_def)
  show sub: "unat (mr_reserved_bytes s - mv_bytes r) = pledged R" "unat (mr_reserved_allocations s - 1) = size R"
    "checked_sub (mr_reserved_bytes s) (mv_bytes r) = Some (mr_reserved_bytes s - mv_bytes r)"
    "checked_sub (mr_reserved_allocations s) 1 = Some (mr_reserved_allocations s - 1)"
    using checked_sub_fits [of "mv_bytes r" "mr_reserved_bytes s"] checked_sub_fits [of 1 "mr_reserved_allocations s"]
    by (simp_all add: b)
  show "root_ok (s\<lparr>mr_reserved_bytes := mr_reserved_bytes s - mv_bytes r, mr_reserved_allocations := mr_reserved_allocations s - 1\<rparr>) R A"
    using ok sub(1,2) by (auto simp: root_ok_def within_def split: MemoryBudget.splits)
qed

lemma tracker_take:
  assumes ok: "tracker_ok t s (add_mset r R) A"
  obtains m where
    "unat (mt_reserved_bytes s - mv_bytes r) = pledged R" "unat (mt_reserved_allocations s - 1) = size R"
    "checked_sub (mt_reserved_bytes s) (mv_bytes r) = Some (mt_reserved_bytes s - mv_bytes r)"
    "checked_sub (mt_reserved_allocations s) 1 = Some (mt_reserved_allocations s - 1)"
    "decrement_reserved_class (mv_class r)
       (s\<lparr>mt_reserved_bytes := mt_reserved_bytes s - mv_bytes r, mt_reserved_allocations := mt_reserved_allocations s - 1\<rparr>) =
     (Ok (), s\<lparr>mt_reserved_bytes := mt_reserved_bytes s - mv_bytes r, mt_reserved_allocations := mt_reserved_allocations s - 1,
       mt_reserved_classes := m\<rparr>)"
    "tracker_ok t (s\<lparr>mt_reserved_bytes := mt_reserved_bytes s - mv_bytes r, mt_reserved_allocations := mt_reserved_allocations s - 1,
       mt_reserved_classes := m\<rparr>) R A"
proof -
  have b: "unat (mt_reserved_bytes s) = unat (mv_bytes r) + pledged R" "unat (mt_reserved_allocations s) = Suc (size R)"
    using ok by (simp_all add: tracker_ok_def)
  have sub: "unat (mt_reserved_bytes s - mv_bytes r) = pledged R" "unat (mt_reserved_allocations s - 1) = size R"
    "checked_sub (mt_reserved_bytes s) (mv_bytes r) = Some (mt_reserved_bytes s - mv_bytes r)"
    "checked_sub (mt_reserved_allocations s) 1 = Some (mt_reserved_allocations s - 1)"
    using checked_sub_fits [of "mv_bytes r" "mt_reserved_bytes s"] checked_sub_fits [of 1 "mt_reserved_allocations s"]
    by (simp_all add: b)
  let ?s = "s\<lparr>mt_reserved_bytes := mt_reserved_bytes s - mv_bytes r, mt_reserved_allocations := mt_reserved_allocations s - 1\<rparr>"
  let ?c = "mv_class r"
  obtain n where n: "bt_get (mt_reserved_classes s) ?c = Some (of_nat n)" "0 < n" "n < 2 ^ 64"
    "n = size (filter_mset (\<lambda>r. mv_class r = ?c) (add_mset r R))"
    by (rule reserved_of_class [OF ok, of r ?c]) auto
  obtain m where m: "decrement_reserved_class ?c ?s = (Ok (), ?s\<lparr>mt_reserved_classes := m\<rparr>)"
    "bt_get m = (bt_get (mt_reserved_classes s))(?c := if n = 1 then None else Some (of_nat (n - 1)))"
    using decrement_run [of ?s ?c n] n(1-3) by auto
  have size: "n - 1 = size (filter_mset (\<lambda>r. mv_class r = ?c) R)" using n(4) by simp
  have empty: "n = 1 \<longleftrightarrow> filter_mset (\<lambda>r. mv_class r = ?c) R = {#}" using n(2) size by (metis Suc_pred' diff_is_0_eq' le_numeral_extra(4) One_nat_def size_eq_0_iff_empty)
  have "class_ok (?s\<lparr>mt_reserved_classes := m\<rparr>) c R A" for c
  proof -
    have old: "class_ok s c (add_mset r R) A" using ok by (simp add: tracker_ok_def)
    have "bt_get m c = (if filter_mset (\<lambda>r. mv_class r = c) R = {#} then None else Some (of_nat (size (filter_mset (\<lambda>r. mv_class r = c) R))))"
    proof (cases "c = ?c")
      case True
      then show ?thesis using m(2) empty size by simp
    next
      case False
      then have "filter_mset (\<lambda>r. mv_class r = c) (add_mset r R) = filter_mset (\<lambda>r. mv_class r = c) R" by auto
      then show ?thesis using m(2) False old by (simp only: class_ok_def fun_upd_other simp_thms)
    qed
    then show ?thesis using old by (simp add: class_ok_def)
  qed
  then have taken: "tracker_ok t (?s\<lparr>mt_reserved_classes := m\<rparr>) R A"
    using ok sub(1,2) by (auto simp: tracker_ok_def within_def split: MemoryBudget.splits)
  show thesis by (rule that [of m]) (use sub m(1) taken in simp_all)
qed

text \<open>A committed reservation becomes an allocation; there is always room for it.\<close>

lemma root_gain:
  assumes ok: "root_ok s (add_mset r R) A" and bytes: "ma_bytes a = mv_bytes r"
    and s1: "s1 = s\<lparr>mr_reserved_bytes := mr_reserved_bytes s - mv_bytes r, mr_reserved_allocations := mr_reserved_allocations s - 1\<rparr>"
  obtains n where "on_root_total (record_allocate (mv_bytes r)) s1 = (Ok (), s1\<lparr>mr_total := n\<rparr>)"
    and "root_ok (s1\<lparr>mr_total := n\<rparr>) R (add_mset a A)"
proof -
  have f: "live_is (mr_total s) A" "bytes_of A + unat (mv_bytes r) < 2 ^ 64" "unat (mc_allocations (mr_total s)) + 1 < 2 ^ 64"
    using ok by (simp_all add: root_ok_def)
  obtain n where n: "record_allocate (mv_bytes r) (mr_total s) = (Ok (), n)" "live_is n (add_mset a A)"
    "unat (mc_allocations n) = unat (mc_allocations (mr_total s)) + 1"
    by (rule record_allocate_run [OF f bytes])
  note T = root_take [OF ok]
  have "root_ok (s1\<lparr>mr_total := n\<rparr>) R (add_mset a A)"
    using ok T(1,2) n(2,3) bytes by (auto simp: root_ok_def s1 within_def split: MemoryBudget.splits)
  then show thesis using that [of n] n(1) by (simp add: on_root_total_def s1)
qed

lemma tracker_gain:
  assumes ok: "tracker_ok t s (add_mset r R) A" and s1: "tracker_ok t s1 R A"
    and same: "mt_total s1 = mt_total s"
    and a: "a = \<lparr>ma_identity = mc_allocations (mt_total s) + 1, ma_tracker = t, ma_class = mv_class r, ma_bytes = mv_bytes r\<rparr>"
    and budget: "mt_budget s1 = mt_budget s" "mt_peak_owned_and_reserved_bytes s1 = mt_peak_owned_and_reserved_bytes s"
  obtains n k where "on_total (record_allocate (mv_bytes r)) s1 = (Ok (), s1\<lparr>mt_total := n\<rparr>)"
    and "on_class (mv_class r) (record_allocate (mv_bytes r)) (s1\<lparr>mt_total := n\<rparr>) =
      (Ok (), s1\<lparr>mt_total := n, mt_classes := bt_insert (mv_class r) k (mt_classes s1)\<rparr>)"
    and "mc_allocations n = mc_allocations (mt_total s) + 1"
    and "tracker_ok t (s1\<lparr>mt_total := n, mt_classes := bt_insert (mv_class r) k (mt_classes s1)\<rparr>) R (add_mset a A)"
proof -
  let ?c = "mv_class r"
  have f: "live_is (mt_total s1) A" "bytes_of A + unat (mv_bytes r) < 2 ^ 64" "unat (mc_allocations (mt_total s1)) + 1 < 2 ^ 64"
    using ok by (simp_all add: tracker_ok_def same)
  have ab: "ma_bytes a = mv_bytes r" "ma_class a = ?c" by (simp_all add: a)
  obtain n where n: "record_allocate (mv_bytes r) (mt_total s1) = (Ok (), n)" "live_is n (add_mset a A)"
    "mc_frees n = mc_frees (mt_total s1)" "unat (mc_allocations n) = unat (mc_allocations (mt_total s1)) + 1"
    by (rule record_allocate_run [OF f ab(1)])
  have ida: "mc_allocations n = mc_allocations (mt_total s) + 1"
    using n(4) checked_add_fits [of "mc_allocations (mt_total s)" 1] f(3) by (simp add: same word_unat_eq_iff)
  have c: "class_ok s1 c R A" for c using s1 by (simp add: tracker_ok_def)
  have lc: "live_is (class_counters s1 ?c) (filter_mset (\<lambda>a. ma_class a = ?c) A)" using c [of ?c] by (simp add: class_ok_def)
  have "bytes_of (filter_mset (\<lambda>a. ma_class a = ?c) A) + unat (mv_bytes r) < 2 ^ 64"
    using f(2) bytes_of_filter [of "\<lambda>a. ma_class a = ?c" A] by linarith
  moreover have "unat (mc_allocations (class_counters s1 ?c)) + 1 < 2 ^ 64"
    using f(3) class_within_total(3) [OF s1, of ?c] by linarith
  ultimately obtain k where k: "record_allocate (mv_bytes r) (class_counters s1 ?c) = (Ok (), k)"
    "live_is k (add_mset a (filter_mset (\<lambda>a. ma_class a = ?c) A))" "mc_frees k = mc_frees (class_counters s1 ?c)"
    by (rule record_allocate_run [OF lc _ _ ab(1)])
  let ?s = "s1\<lparr>mt_total := n, mt_classes := bt_insert ?c k (mt_classes s1)\<rparr>"
  have cc: "class_counters ?s = (class_counters s1)(?c := k)"
    by (rule ext) (simp add: class_counters_def)
  have "class_ok ?s c R (add_mset a A)" for c
    using c [of c] k(2,3) n(3) by (auto simp: class_ok_def cc ab(2))
  moreover have "size (filter_mset (\<lambda>x. ma_identity x = i) (add_mset a A)) \<le> 1" for i
  proof (cases "i = ma_identity a")
    case True
    have less: "mc_allocations (mt_total s) < ma_identity a"
      using n(4) by (simp add: a ida [symmetric] word_less_nat_alt same)
    have "x \<in># A \<Longrightarrow> ma_identity x \<le> mc_allocations (mt_total s)" for x using ok by (simp add: tracker_ok_def)
    with less have "x \<in># A \<Longrightarrow> ma_identity x \<noteq> i" for x using True by fastforce
    then have "filter_mset (\<lambda>x. ma_identity x = i) A = {#}" by auto
    then show ?thesis using True by simp
  next
    case False
    then show ?thesis using ok by (simp add: tracker_ok_def)
  qed
  moreover have "\<forall>x\<in>#add_mset a A. ma_identity x \<le> mc_allocations n"
    using ok n(4) by (auto simp: tracker_ok_def a ida word_le_nat_alt same)
  ultimately have "tracker_ok t ?s R (add_mset a A)"
    using ok s1 n(2,4) ab(1) budget by (auto simp: tracker_ok_def same within_def split: MemoryBudget.splits)
  then show thesis using that [of n k] n(1) k(1) ida by (simp add: on_total_def on_class_def)
qed

lemma reservation_commit_run:
  assumes root: "root_ok (shared_of t h) (add_mset r RS) AS" and tr: "tracker_ok t (state_of t h) (add_mset r R) A"
    and t: "mv_tracker r = t"
  obtains a sh st where "reservation_commit r h = (Ok a, write_state t (write_shared t h sh) st)"
    and "a = \<lparr>ma_identity = mc_allocations (mt_total (state_of t h)) + 1, ma_tracker = t, ma_class = mv_class r, ma_bytes = mv_bytes r\<rparr>"
    and "root_ok sh RS (add_mset a AS)" and "tracker_ok t st R (add_mset a A)"
proof -
  let ?sh = "shared_of t h" and ?st = "state_of t h" and ?c = "mv_class r"
  let ?a = "\<lparr>ma_identity = mc_allocations (mt_total ?st) + 1, ma_tracker = t, ma_class = ?c, ma_bytes = mv_bytes r\<rparr>"
  obtain m where m: "decrement_reserved_class ?c
       (?st\<lparr>mt_reserved_bytes := mt_reserved_bytes ?st - mv_bytes r, mt_reserved_allocations := mt_reserved_allocations ?st - 1\<rparr>) =
     (Ok (), ?st\<lparr>mt_reserved_bytes := mt_reserved_bytes ?st - mv_bytes r, mt_reserved_allocations := mt_reserved_allocations ?st - 1,
       mt_reserved_classes := m\<rparr>)"
    "tracker_ok t (?st\<lparr>mt_reserved_bytes := mt_reserved_bytes ?st - mv_bytes r, mt_reserved_allocations := mt_reserved_allocations ?st - 1,
       mt_reserved_classes := m\<rparr>) R A" "unat (mt_reserved_allocations ?st - 1) = size R"
    by (rule tracker_take [OF tr])
  let ?st1 = "?st\<lparr>mt_reserved_bytes := mt_reserved_bytes ?st - mv_bytes r, mt_reserved_allocations := mt_reserved_allocations ?st - 1,
       mt_reserved_classes := m\<rparr>"
  obtain n k where n: "on_total (record_allocate (mv_bytes r)) ?st1 = (Ok (), ?st1\<lparr>mt_total := n\<rparr>)"
    "on_class ?c (record_allocate (mv_bytes r)) (?st1\<lparr>mt_total := n\<rparr>) =
      (Ok (), ?st1\<lparr>mt_total := n, mt_classes := bt_insert ?c k (mt_classes ?st1)\<rparr>)"
    "mc_allocations n = mc_allocations (mt_total ?st) + 1"
    "tracker_ok t (?st1\<lparr>mt_total := n, mt_classes := bt_insert ?c k (mt_classes ?st1)\<rparr>) R (add_mset ?a A)"
    by (rule tracker_gain [OF tr m(2), of ?a]) simp_all
  let ?sh1 = "?sh\<lparr>mr_reserved_bytes := mr_reserved_bytes ?sh - mv_bytes r, mr_reserved_allocations := mr_reserved_allocations ?sh - 1\<rparr>"
  obtain l where l: "on_root_total (record_allocate (mv_bytes r)) ?sh1 = (Ok (), ?sh1\<lparr>mr_total := l\<rparr>)"
    "root_ok (?sh1\<lparr>mr_total := l\<rparr>) RS (add_mset ?a AS)"
    by (rule root_gain [OF root, of ?a]) simp_all
  have rf: "unat (mc_live_bytes (mr_total ?sh)) + unat (mv_bytes r) < 2 ^ 64" "unat (mr_reserved_allocations ?sh) = Suc (size RS)"
    "unat (mv_bytes r) \<le> unat (mr_reserved_bytes ?sh)"
    "unat (mc_live_allocations (mr_total ?sh)) + size RS + 1 < 2 ^ 64" "unat (mc_allocations (mr_total ?sh)) + size RS + 1 < 2 ^ 64"
    using root by (auto simp: root_ok_def live_is_def)
  have "checked_shared_commit ?sh (mv_bytes r) = Ok (mr_reserved_allocations ?sh - 1)"
    using rf root_take(2) [OF root] by (auto simp: checked_shared_commit_def capacity_fits word_less_nat_alt)
  moreover have tf: "unat (mc_live_bytes (mt_total ?st)) + unat (mv_bytes r) < 2 ^ 64" "unat (mt_reserved_allocations ?st) = Suc (size R)"
    "unat (mv_bytes r) \<le> unat (mt_reserved_bytes ?st)"
    "unat (mc_live_allocations (mt_total ?st)) + size R + 1 < 2 ^ 64" "unat (mc_allocations (mt_total ?st)) + size R + 1 < 2 ^ 64"
    using tr by (auto simp: tracker_ok_def live_is_def)
  moreover have "checked_counter_capacity (mt_total ?st) (mv_bytes r) (mt_reserved_allocations ?st - 1) = Ok ()"
    using tf m(3) by (simp add: capacity_fits)
  moreover obtain j where j: "0 < j" "j < 2 ^ 64" "class_reservations ?st ?c = of_nat j" "j = size (filter_mset (\<lambda>r. mv_class r = ?c) (add_mset r R))"
    by (rule reserved_of_class [OF tr, of r ?c]) auto
  have u: "unat (class_reservations ?st ?c) = j" using j(2,3) by (simp add: unsigned_of_nat take_bit_nat_eq_self)
  have "class_reservations ?st ?c \<noteq> 0" using u j(1) by auto
  moreover have "checked_counter_capacity (class_counters ?st ?c) (mv_bytes r) (class_reservations ?st ?c - 1) = Ok ()"
  proof -
    have "unat (class_reservations ?st ?c - 1) = j - 1"
      using checked_sub_fits [of 1 "class_reservations ?st ?c"] u j(1) by simp
    moreover have "j - 1 \<le> size R" using j(4) size_filter_le [of "\<lambda>r. mv_class r = ?c" R] by simp
    ultimately show ?thesis
      using class_within_total(1,2,3) [OF tr, of ?c] tf by (simp add: capacity_fits)
  qed
  moreover have "mt_reserved_allocations ?st \<noteq> 0" using tf(2) by auto
  ultimately have "commit_checks r h = Ok (mr_reserved_allocations ?sh - 1)"
    by (simp add: commit_checks_def Let_def t word_less_nat_alt unat_eq_0 not_less)
  then have "reservation_commit r h =
      (Ok ?a, write_state t (write_shared t h (?sh1\<lparr>mr_total := l\<rparr>)) (?st1\<lparr>mt_total := n, mt_classes := bt_insert ?c k (mt_classes ?st1)\<rparr>))"
    using l(1) m(1) n(1-3)
    by (simp add: reservation_commit_def Let_def t on_shared_def on_state_def try_st_cases)
  then show thesis using that l(2) n(4) by blast
qed

lemma reservation_drop_run:
  assumes root: "root_ok (shared_of t h) (add_mset r RS) AS" and tr: "tracker_ok t (state_of t h) (add_mset r R) A"
    and t: "mv_tracker r = t"
  obtains sh st where "reservation_drop r h = (Ok (), write_state t (write_shared t h sh) st)"
    and "root_ok sh RS AS" and "tracker_ok t st R A"
proof -
  let ?sh = "shared_of t h" and ?st = "state_of t h"
  obtain m where m: "checked_sub (mt_reserved_bytes ?st) (mv_bytes r) = Some (mt_reserved_bytes ?st - mv_bytes r)"
    "checked_sub (mt_reserved_allocations ?st) 1 = Some (mt_reserved_allocations ?st - 1)"
    "decrement_reserved_class (mv_class r)
       (?st\<lparr>mt_reserved_bytes := mt_reserved_bytes ?st - mv_bytes r, mt_reserved_allocations := mt_reserved_allocations ?st - 1\<rparr>) =
     (Ok (), ?st\<lparr>mt_reserved_bytes := mt_reserved_bytes ?st - mv_bytes r, mt_reserved_allocations := mt_reserved_allocations ?st - 1,
       mt_reserved_classes := m\<rparr>)"
    "tracker_ok t (?st\<lparr>mt_reserved_bytes := mt_reserved_bytes ?st - mv_bytes r, mt_reserved_allocations := mt_reserved_allocations ?st - 1,
       mt_reserved_classes := m\<rparr>) R A"
    by (rule tracker_take [OF tr])
  note r = root_take(3-5) [OF root]
  show thesis
    by (rule that [of "?sh\<lparr>mr_reserved_bytes := mr_reserved_bytes ?sh - mv_bytes r, mr_reserved_allocations := mr_reserved_allocations ?sh - 1\<rparr>"
        "?st\<lparr>mt_reserved_bytes := mt_reserved_bytes ?st - mv_bytes r, mt_reserved_allocations := mt_reserved_allocations ?st - 1, mt_reserved_classes := m\<rparr>"])
       (use m r in \<open>simp_all add: reservation_drop_def Let_def t on_shared_def on_state_def\<close>)
qed

text \<open>A successful reservation: both budgets and the counters had room.\<close>

lemma root_pledge:
  assumes ok: "root_ok s R A" and r: "mv_bytes r = bytes"
    and c: "checked_shared_reservation s bytes = Ok (b, n, k)"
  shows "root_ok (s\<lparr>mr_reserved_bytes := b, mr_reserved_allocations := n,
      mr_peak_owned_and_reserved_bytes := max (mr_peak_owned_and_reserved_bytes s) k\<rparr>) (add_mset r R) A"
    and "within (mr_budget s) (bytes_of A + pledged R + unat bytes)"
proof -
  note room = c [unfolded shared_reservation_closed [OF ok]]
  have f: "bytes_of A + pledged R + unat bytes < 2 ^ 64" "within (mr_budget s) (bytes_of A + pledged R + unat bytes)"
    "unat (mc_allocations (mr_total s)) + size R + 1 < 2 ^ 64" and bnk: "b = mr_reserved_bytes s + bytes"
    "n = mr_reserved_allocations s + 1" "k = mc_live_bytes (mr_total s) + mr_reserved_bytes s + bytes"
    using room by (auto split: if_splits)
  have e: "unat (mc_live_bytes (mr_total s)) = bytes_of A" "unat (mr_reserved_bytes s) = pledged R" "unat (mr_reserved_allocations s) = size R"
    using ok by (simp_all add: root_ok_def live_is_def)
  have "unat b = unat bytes + pledged R" "unat n = size R + 1" "unat k = bytes_of A + pledged R + unat bytes"
    using checked_add_fits [of "mr_reserved_bytes s" bytes] checked_add_fits [of "mr_reserved_allocations s" 1]
      unat_three [of "mc_live_bytes (mr_total s)" "mr_reserved_bytes s" bytes] f(1,3) by (simp_all add: bnk e)
  then show "root_ok (s\<lparr>mr_reserved_bytes := b, mr_reserved_allocations := n,
      mr_peak_owned_and_reserved_bytes := max (mr_peak_owned_and_reserved_bytes s) k\<rparr>) (add_mset r R) A"
    using ok f r by (simp add: root_ok_def unat_max ac_simps)
  show "within (mr_budget s) (bytes_of A + pledged R + unat bytes)" by (rule f(2))
qed

lemma tracker_pledge:
  assumes ok: "tracker_ok t s R A" and r: "mv_bytes r = bytes" "mv_class r = c"
    and res: "checked_reservation s budget c bytes = Ok (b, n, j, k)"
    and budget: "\<not> tk_root_owner t \<Longrightarrow> budget = mt_budget s" and s1: "s1 = s\<lparr>mt_budget := new\<rparr>" "\<not> tk_root_owner t \<Longrightarrow> new = mt_budget s"
  shows "tracker_ok t (s1\<lparr>mt_reserved_bytes := b, mt_reserved_allocations := n, mt_reserved_classes := bt_insert c j (mt_reserved_classes s1),
      mt_peak_owned_and_reserved_bytes := max (mt_peak_owned_and_reserved_bytes s1) k\<rparr>) (add_mset r R) A"
proof -
  note room = res [unfolded reservation_closed [OF ok]]
  have f: "bytes_of A + pledged R + unat bytes < 2 ^ 64" "within budget (bytes_of A + pledged R + unat bytes)"
    "unat (mc_allocations (mt_total s)) + size R + 1 < 2 ^ 64" and bnk: "b = mt_reserved_bytes s + bytes"
    "n = mt_reserved_allocations s + 1" "j = class_reservations s c + 1" "k = mc_live_bytes (mt_total s) + mt_reserved_bytes s + bytes"
    using room by (auto split: if_splits)
  have e: "unat (mc_live_bytes (mt_total s)) = bytes_of A" "unat (mt_reserved_bytes s) = pledged R" "unat (mt_reserved_allocations s) = size R"
    using ok by (simp_all add: tracker_ok_def live_is_def)
  have u: "unat b = unat bytes + pledged R" "unat n = size R + 1" "unat k = bytes_of A + pledged R + unat bytes"
    using checked_add_fits [of "mt_reserved_bytes s" bytes] checked_add_fits [of "mt_reserved_allocations s" 1]
      unat_three [of "mc_live_bytes (mt_total s)" "mt_reserved_bytes s" bytes] f(1,3) by (simp_all add: bnk e)
  have cr: "class_reservations s c = of_nat (size (filter_mset (\<lambda>r. mv_class r = c) R))"
    using arg_cong [OF class_reservations_size [OF ok, of c], of "of_nat :: nat \<Rightarrow> u64"] by simp
  let ?s = "s1\<lparr>mt_reserved_bytes := b, mt_reserved_allocations := n, mt_reserved_classes := bt_insert c j (mt_reserved_classes s1),
      mt_peak_owned_and_reserved_bytes := max (mt_peak_owned_and_reserved_bytes s1) k\<rparr>"
  have cls: "class_ok ?s d (add_mset r R) A" for d
  proof -
    have old: "class_ok s d R A" using ok by (simp add: tracker_ok_def)
    show ?thesis
    proof (cases "d = c")
      case True
      then show ?thesis using old by (simp add: class_ok_def s1(1) r(2) bnk(3) cr)
    next
      case False
      then show ?thesis using old r(2) by (simp add: class_ok_def s1(1))
    qed
  qed
  have "\<not> tk_root_owner t \<longrightarrow> within (mt_budget s) (bytes_of A + pledged R + unat bytes)" using f(2) budget by auto
  then show ?thesis
    unfolding tracker_ok_def
    using ok f u r(1) s1(2) cls by (simp add: tracker_ok_def s1(1) unat_max ac_simps)
qed

lemma tracker_reserve_run:
  assumes root: "root_ok (shared_of t h) RS AS" and tr: "tracker_ok t (state_of t h) R A"
  obtains (refused) e where "tracker_reserve t c bytes h = (Err e, h)"
  | (reserved) r sh st where "tracker_reserve t c bytes h = (Ok r, write_state t (write_shared t h sh) st)"
      and "r = \<lparr>mv_tracker = t, mv_class = c, mv_bytes = bytes\<rparr>"
      and "root_ok sh (add_mset r RS) AS" and "tracker_ok t st (add_mset r R) A"
proof -
  let ?sh = "shared_of t h" and ?st = "state_of t h" and ?r = "\<lparr>mv_tracker = t, mv_class = c, mv_bytes = bytes\<rparr>"
  let ?budget = "if tk_root_owner t then mr_budget ?sh else mt_budget ?st"
  have e1: "checked_shared_reservation ?sh bytes \<noteq> Panic" using shared_reservation_closed [OF root, of bytes] by simp
  have e2: "checked_reservation ?st ?budget c bytes \<noteq> Panic" using reservation_closed [OF tr, of ?budget c bytes] by simp
  show thesis
  proof (cases "bytes = 0")
    case True
    then show thesis using refused by (simp add: tracker_reserve_def)
  next
    case nz: False
    show thesis
    proof (cases "checked_shared_reservation ?sh bytes")
      case (Err e)
      then show thesis using refused nz by (simp add: tracker_reserve_def Let_def)
    next
      case (Ok v)
      obtain b n k where v: "v = (b, n, k)" by (cases v)
      show thesis
      proof (cases "checked_reservation ?st ?budget c bytes")
        case (Err e)
        then show thesis using refused nz Ok v by (simp add: tracker_reserve_def Let_def)
      next
        case ok2: (Ok w)
        obtain b2 n2 j k2 where w: "w = (b2, n2, j, k2)" by (cases w)
        let ?new = "if tk_root_owner t then mr_budget ?sh else mt_budget ?st"
        let ?sh1 = "?sh\<lparr>mr_reserved_bytes := b, mr_reserved_allocations := n,
            mr_peak_owned_and_reserved_bytes := max (mr_peak_owned_and_reserved_bytes ?sh) k\<rparr>"
        let ?st1 = "?st\<lparr>mt_budget := ?new\<rparr>"
        let ?st2 = "?st1\<lparr>mt_reserved_bytes := b2, mt_reserved_allocations := n2, mt_reserved_classes := bt_insert c j (mt_reserved_classes ?st1),
            mt_peak_owned_and_reserved_bytes := max (mt_peak_owned_and_reserved_bytes ?st1) k2\<rparr>"
        have "root_ok ?sh1 (add_mset ?r RS) AS" by (rule root_pledge(1) [OF root _ Ok [unfolded v]]) simp
        moreover have "tracker_ok t ?st2 (add_mset ?r R) A"
          by (rule tracker_pledge [OF tr _ _ ok2 [unfolded w], where new = ?new]) simp_all
        moreover have "tracker_reserve t c bytes h = (Ok ?r, write_state t (write_shared t h ?sh1) ?st2)"
          using nz Ok ok2 by (cases "tk_root_owner t") (simp_all add: tracker_reserve_def Let_def v w)
        ultimately show thesis using reserved by blast
      qed (use e2 in simp)
    qed (use e1 in simp)
  qed
qed

text \<open>Releasing and reclassifying an allocation.\<close>

lemma within_mono: "within budget n \<Longrightarrow> m \<le> n \<Longrightarrow> within budget m"
  by (auto simp: within_def split: MemoryBudget.splits)

lemma allocation_drop_run:
  assumes root: "root_ok (shared_of t h) RS (add_mset a AS)" and tr: "tracker_ok t (state_of t h) R (add_mset a A)"
    and t: "ma_tracker a = t"
  obtains sh st where "allocation_drop a h = (Ok (), write_state t (write_shared t h sh) st)"
    and "root_ok sh RS AS" and "tracker_ok t st R A"
proof -
  let ?sh = "shared_of t h" and ?st = "state_of t h" and ?c = "ma_class a"
  have live: "live_is (mt_total ?st) (add_mset a A)" "live_is (mr_total ?sh) (add_mset a AS)"
    using root tr by (simp_all add: root_ok_def tracker_ok_def)
  have cls: "class_ok ?st c R (add_mset a A)" for c using tr by (simp add: tracker_ok_def)
  have lc: "live_is (class_counters ?st ?c) (add_mset a (filter_mset (\<lambda>x. ma_class x = ?c) A))"
    using cls [of ?c] by (simp add: class_ok_def)
  obtain n where n: "record_free (ma_bytes a) (mt_total ?st) = (Ok (), n)" "live_is n A"
    "unat (mc_frees n) = unat (mc_frees (mt_total ?st)) + 1" "mc_allocations n = mc_allocations (mt_total ?st)"
    by (rule record_free_run [OF live(1)])
  obtain l where l: "record_free (ma_bytes a) (mr_total ?sh) = (Ok (), l)" "live_is l AS"
    "mc_allocations l = mc_allocations (mr_total ?sh)"
    by (rule record_free_run [OF live(2)])
  obtain k where k: "record_free (ma_bytes a) (class_counters ?st ?c) = (Ok (), k)" "live_is k (filter_mset (\<lambda>x. ma_class x = ?c) A)"
    "unat (mc_frees k) = unat (mc_frees (class_counters ?st ?c)) + 1"
    by (rule record_free_run [OF lc])
  let ?s = "?st\<lparr>mt_total := n, mt_classes := bt_insert ?c k (mt_classes ?st)\<rparr>"
  have cc: "class_counters ?s = (class_counters ?st)(?c := k)"
    by (rule ext) (simp add: class_counters_def)
  have "class_ok ?s c R A" for c
    using cls [of c] k(2,3) n(3) by (auto simp: class_ok_def cc)
  moreover have "size (filter_mset (\<lambda>x. ma_identity x = i) A) \<le> 1" for i
  proof -
    have "size (filter_mset (\<lambda>x. ma_identity x = i) (add_mset a A)) \<le> 1" using tr by (simp only: tracker_ok_def simp_thms)
    moreover have "filter_mset (\<lambda>x. ma_identity x = i) A \<subseteq># filter_mset (\<lambda>x. ma_identity x = i) (add_mset a A)"
      by (rule multiset_filter_mono) simp
    ultimately show ?thesis using size_mset_mono le_trans by blast
  qed
  ultimately have "tracker_ok t ?s R A"
    using tr n(2,4) by (auto simp: tracker_ok_def elim: within_mono)
  moreover have "root_ok (?sh\<lparr>mr_total := l\<rparr>) RS AS"
    using root l(2,3) by (auto simp: root_ok_def elim: within_mono)
  moreover have "allocation_drop a h = (Ok (), write_state t (write_shared t h (?sh\<lparr>mr_total := l\<rparr>)) ?s)"
    using n(1) l(1) k(1) by (simp add: allocation_drop_def Let_def t on_shared_def on_state_def on_total_def on_class_def on_root_total_def)
  ultimately show thesis using that by blast
qed

lemma reclassify_run:
  assumes tr: "tracker_ok t (state_of t h) R (add_mset a A)" and t: "ma_tracker a = t"
  obtains st where "reclassify a c h = (Ok (a\<lparr>ma_class := c\<rparr>), write_state t h st)"
    and "tracker_ok t st R (add_mset (a\<lparr>ma_class := c\<rparr>) A)"
proof (cases "ma_class a = c")
  case True
  then have same: "a\<lparr>ma_class := c\<rparr> = a" by simp
  have "write_state t h (state_of t h) = h" by (simp add: write_state_def state_of_def)
  then have "reclassify a c h = (Ok a, write_state t h (state_of t h))" by (simp add: reclassify_def True)
  then show thesis using that [of "state_of t h", unfolded same] tr by blast
next
  case False
  let ?st = "state_of t h" and ?p = "ma_class a" and ?a = "a\<lparr>ma_class := c\<rparr>"
  have cls: "class_ok ?st d R (add_mset a A)" for d using tr by (simp add: tracker_ok_def)
  have lp: "live_is (class_counters ?st ?p) (add_mset a (filter_mset (\<lambda>x. ma_class x = ?p) A))"
    using cls [of ?p] by (simp add: class_ok_def)
  have lc: "live_is (class_counters ?st c) (filter_mset (\<lambda>x. ma_class x = c) A)"
    using cls [of c] False by (simp add: class_ok_def)
  obtain k where k: "move_out (ma_bytes a) (class_counters ?st ?p) = (Ok (), k)" "live_is k (filter_mset (\<lambda>x. ma_class x = ?p) A)"
    "mc_frees k = mc_frees (class_counters ?st ?p)"
    by (rule move_out_run [OF lp])
  have bytes: "bytes_of A + unat (ma_bytes a) < 2 ^ 64" using tr by (simp add: tracker_ok_def)
  have fit1: "bytes_of (filter_mset (\<lambda>x. ma_class x = c) A) + unat (ma_bytes a) < 2 ^ 64"
    using bytes bytes_of_filter [of "\<lambda>x. ma_class x = c" A] by linarith
  have total: "unat (mc_allocations (mt_total ?st)) = Suc (size A) + unat (mc_frees (mt_total ?st))"
    "unat (mc_allocations (mt_total ?st)) < 2 ^ 64"
    using tr by (simp_all add: tracker_ok_def live_is_def)
  have fit2: "unat (mc_allocations (class_counters ?st c)) + 1 < 2 ^ 64"
  proof -
    have "unat (mc_allocations (class_counters ?st c)) = size (filter_mset (\<lambda>x. ma_class x = c) A) + unat (mc_frees (class_counters ?st c))"
      using lc by (simp add: live_is_def)
    also have "\<dots> \<le> size A + unat (mc_frees (mt_total ?st))"
      by (rule add_mono) (use size_filter_le [of "\<lambda>x. ma_class x = c" A] cls [of c] in \<open>simp_all add: class_ok_def\<close>)
    finally show ?thesis using total by linarith
  qed
  obtain j where j: "record_allocate (ma_bytes a) (class_counters ?st c) = (Ok (), j)"
    "live_is j (add_mset ?a (filter_mset (\<lambda>x. ma_class x = c) A))" "mc_frees j = mc_frees (class_counters ?st c)"
    by (rule record_allocate_run [OF lc fit1 fit2, of ?a]) simp
  let ?s1 = "?st\<lparr>mt_classes := bt_insert ?p k (mt_classes ?st)\<rparr>"
  let ?s2 = "?st\<lparr>mt_classes := bt_insert c j (bt_insert ?p k (mt_classes ?st))\<rparr>"
  have c1: "class_counters ?s1 = (class_counters ?st)(?p := k)" by (rule class_counters_insert)
  have c2: "class_counters ?s2 = (class_counters ?st)(?p := k, c := j)"
    by (rule ext) (simp add: class_counters_def)
  have "on_class ?p (move_out (ma_bytes a)) ?st = (Ok (), ?s1)" using k(1) by (simp add: on_class_def)
  moreover have "on_class c (record_allocate (ma_bytes a)) ?s1 = (Ok (), ?s2)"
    using j(1) False c1 by (simp add: on_class_def del: class_counters_insert)
  ultimately have run: "reclassify a c h = (Ok ?a, write_state t h ?s2)"
    using False by (simp add: reclassify_def Let_def t on_state_def move_live_def)
  have "class_ok ?s2 d R (add_mset ?a A)" for d
    using cls [of d] k(2,3) j(2,3) False by (auto simp: class_ok_def c2)
  then have "tracker_ok t ?s2 R (add_mset ?a A)"
    using tr by (auto simp: tracker_ok_def live_is_def split: if_splits)
  then show thesis by (rule that [OF run])
qed

end
