(* ===== verification/Memory_Props.thy ===== *)
theory Memory_Props
  imports Memory_System
begin

text \<open>
  All trackers of a process as one machine, interpretation \<open>mem\<close>, and what a backend
  relies on: the ledger and the budgets hold in every reachable state, no call panics, a
  live reservation can always be committed, and a reservation is granted exactly when
  both budgets and the counters have room.
\<close>

section \<open>The machine\<close>

record MemorySystem =
  sy_heap :: MemoryHeap
  sy_roots :: "nat list"
  sy_trackers :: "MemoryTracker list"
  sy_reservations :: "MemoryReservation multiset"
  sy_allocations :: "MemoryAllocation multiset"

definition held_by :: "MemoryTracker \<Rightarrow> MemorySystem \<Rightarrow> MemoryAllocation multiset" where
  "held_by t sys = filter_mset (\<lambda>a. ma_tracker a = t) (sy_allocations sys)"

definition pledged_by :: "MemoryTracker \<Rightarrow> MemorySystem \<Rightarrow> MemoryReservation multiset" where
  "pledged_by t sys = filter_mset (\<lambda>r. mv_tracker r = t) (sy_reservations sys)"

definition held_under :: "nat \<Rightarrow> MemorySystem \<Rightarrow> MemoryAllocation multiset" where
  "held_under root sys = filter_mset (\<lambda>a. tk_shared (ma_tracker a) = root) (sy_allocations sys)"

definition pledged_under :: "nat \<Rightarrow> MemorySystem \<Rightarrow> MemoryReservation multiset" where
  "pledged_under root sys = filter_mset (\<lambda>r. tk_shared (mv_tracker r) = root) (sy_reservations sys)"

lemmas holdings = held_by_def pledged_by_def held_under_def pledged_under_def

lemma holdings_frame [simp]:
  "held_by t (sys\<lparr>sy_heap := h\<rparr>) = held_by t sys" "held_by t (sys\<lparr>sy_roots := rs\<rparr>) = held_by t sys"
  "held_by t (sys\<lparr>sy_trackers := ts\<rparr>) = held_by t sys" "pledged_by t (sys\<lparr>sy_heap := h\<rparr>) = pledged_by t sys"
  "pledged_by t (sys\<lparr>sy_roots := rs\<rparr>) = pledged_by t sys" "pledged_by t (sys\<lparr>sy_trackers := ts\<rparr>) = pledged_by t sys"
  "held_under root (sys\<lparr>sy_heap := h\<rparr>) = held_under root sys" "held_under root (sys\<lparr>sy_roots := rs\<rparr>) = held_under root sys"
  "held_under root (sys\<lparr>sy_trackers := ts\<rparr>) = held_under root sys"
  "pledged_under root (sys\<lparr>sy_heap := h\<rparr>) = pledged_under root sys"
  "pledged_under root (sys\<lparr>sy_roots := rs\<rparr>) = pledged_under root sys"
  "pledged_under root (sys\<lparr>sy_trackers := ts\<rparr>) = pledged_under root sys"
  by (simp_all add: holdings)

definition mem_ok :: "MemorySystem \<Rightarrow> bool" where
  "mem_ok sys \<longleftrightarrow>
     (\<forall>t\<in>set (sy_trackers sys). tk_shared t \<in> set (sy_roots sys) \<and>
        tracker_ok t (state_of t (sy_heap sys)) (pledged_by t sys) (held_by t sys)) \<and>
     (\<forall>root\<in>set (sy_roots sys). root_ok (mh_root (sy_heap sys) root) (pledged_under root sys) (held_under root sys)) \<and>
     (\<forall>r\<in>#sy_reservations sys. mv_tracker r \<in> set (sy_trackers sys)) \<and>
     (\<forall>a\<in>#sy_allocations sys. ma_tracker a \<in> set (sy_trackers sys)) \<and>
     (\<forall>t\<in>set (sy_trackers sys). \<forall>u\<in>set (sy_trackers sys). tk_state t = tk_state u \<longrightarrow> t = u)"

definition mem_start :: "MemorySystem \<Rightarrow> bool" where
  "mem_start sys \<longleftrightarrow> sy_roots sys = [] \<and> sy_trackers sys = [] \<and> sy_reservations sys = {#} \<and> sy_allocations sys = {#}"

inductive mem_step :: "MemorySystem \<Rightarrow> MemorySystem \<Rightarrow> bool" where
  mem_step_root: "root \<notin> set (sy_roots sys) \<Longrightarrow>
    mem_step sys (sys\<lparr>sy_heap := (sy_heap sys)\<lparr>mh_root := (mh_root (sy_heap sys))(root := root_new budget)\<rparr>,
      sy_roots := root # sy_roots sys\<rparr>)"
| mem_step_child: "root \<in> set (sy_roots sys) \<Longrightarrow> state \<notin> tk_state ` set (sy_trackers sys) \<Longrightarrow>
    tracker_child state budget root (sy_heap sys) = (t, h) \<Longrightarrow>
    mem_step sys (sys\<lparr>sy_heap := h, sy_trackers := t # sy_trackers sys\<rparr>)"
| mem_step_new: "root \<notin> set (sy_roots sys) \<Longrightarrow> state \<notin> tk_state ` set (sy_trackers sys) \<Longrightarrow>
    tracker_new state root budget (sy_heap sys) = (t, h) \<Longrightarrow>
    mem_step sys (sys\<lparr>sy_roots := root # sy_roots sys, sy_heap := h, sy_trackers := t # sy_trackers sys\<rparr>)"
| mem_step_reserve: "t \<in> set (sy_trackers sys) \<Longrightarrow> tracker_reserve t c bytes (sy_heap sys) = (Ok r, h) \<Longrightarrow>
    mem_step sys (sys\<lparr>sy_heap := h, sy_reservations := add_mset r (sy_reservations sys)\<rparr>)"
| mem_step_commit: "r \<in># sy_reservations sys \<Longrightarrow> reservation_commit r (sy_heap sys) = (Ok a, h) \<Longrightarrow>
    mem_step sys (sys\<lparr>sy_heap := h, sy_reservations := sy_reservations sys - {#r#}, sy_allocations := add_mset a (sy_allocations sys)\<rparr>)"
| mem_step_release: "r \<in># sy_reservations sys \<Longrightarrow> reservation_drop r (sy_heap sys) = (Ok (), h) \<Longrightarrow>
    mem_step sys (sys\<lparr>sy_heap := h, sy_reservations := sy_reservations sys - {#r#}\<rparr>)"
| mem_step_free: "a \<in># sy_allocations sys \<Longrightarrow> allocation_drop a (sy_heap sys) = (Ok (), h) \<Longrightarrow>
    mem_step sys (sys\<lparr>sy_heap := h, sy_allocations := sy_allocations sys - {#a#}\<rparr>)"
| mem_step_reclassify: "a \<in># sy_allocations sys \<Longrightarrow> reclassify a c (sy_heap sys) = (Ok b, h) \<Longrightarrow>
    mem_step sys (sys\<lparr>sy_heap := h, sy_allocations := add_mset b (sy_allocations sys - {#a#})\<rparr>)"
| mem_step_budget: "t \<in> set (sy_trackers sys) \<Longrightarrow> tracker_set_budget t budget (sy_heap sys) = (res, h) \<Longrightarrow>
    mem_step sys (sys\<lparr>sy_heap := h\<rparr>)"
| mem_step_root_budget: "root \<in> set (sy_roots sys) \<Longrightarrow> root_set_budget root budget (sy_heap sys) = (res, h) \<Longrightarrow>
    mem_step sys (sys\<lparr>sy_heap := h\<rparr>)"

inductive_cases mem_stepE: "mem_step sys sys1"

lemma mem_okD:
  assumes "mem_ok sys" and "t \<in> set (sy_trackers sys)"
  shows "root_ok (shared_of t (sy_heap sys)) (pledged_under (tk_shared t) sys) (held_under (tk_shared t) sys)"
    and "tracker_ok t (state_of t (sy_heap sys)) (pledged_by t sys) (held_by t sys)"
  using assms by (auto simp: mem_ok_def shared_of_def)

text \<open>A call on one tracker touches its own books and those of its root, no others.\<close>

lemma mem_write:
  assumes ok: "mem_ok sys" and t: "t \<in> set (sy_trackers sys)"
    and R: "filter_mset (\<lambda>r. mv_tracker r \<noteq> t) R = filter_mset (\<lambda>r. mv_tracker r \<noteq> t) (sy_reservations sys)"
    and A: "filter_mset (\<lambda>a. ma_tracker a \<noteq> t) A = filter_mset (\<lambda>a. ma_tracker a \<noteq> t) (sy_allocations sys)"
    and new: "sys1 = sys\<lparr>sy_heap := write_state t (write_shared t (sy_heap sys) sh) st, sy_reservations := R, sy_allocations := A\<rparr>"
    and root: "root_ok sh (pledged_under (tk_shared t) sys1) (held_under (tk_shared t) sys1)"
    and tr: "tracker_ok t st (pledged_by t sys1) (held_by t sys1)"
  shows "mem_ok sys1"
proof -
  have Rt: "mv_tracker r \<in> set (sy_trackers sys)" if "r \<in># R" for r
  proof (cases "mv_tracker r = t")
    case False
    then have "r \<in># filter_mset (\<lambda>r. mv_tracker r \<noteq> t) R" using that by simp
    then have "r \<in># sy_reservations sys" unfolding R by simp
    then show ?thesis using ok by (simp add: mem_ok_def)
  qed (use t in simp)
  have At: "ma_tracker a \<in> set (sy_trackers sys)" if "a \<in># A" for a
  proof (cases "ma_tracker a = t")
    case False
    then have "a \<in># filter_mset (\<lambda>a. ma_tracker a \<noteq> t) A" using that by simp
    then have "a \<in># sy_allocations sys" unfolding A by simp
    then show ?thesis using ok by (simp add: mem_ok_def)
  qed (use t in simp)
  have other: "pledged_by u sys1 = pledged_by u sys" "held_by u sys1 = held_by u sys" if "u \<noteq> t" for u
  proof -
    have "filter_mset (\<lambda>r. mv_tracker r = u) R = filter_mset (\<lambda>r. mv_tracker r = u) (filter_mset (\<lambda>r. mv_tracker r \<noteq> t) R)"
      unfolding filter_filter_mset using that by (intro filter_mset_cong) auto
    also have "\<dots> = filter_mset (\<lambda>r. mv_tracker r = u) (sy_reservations sys)"
      unfolding R filter_filter_mset using that by (intro filter_mset_cong) auto
    finally show "pledged_by u sys1 = pledged_by u sys" by (simp add: holdings new)
    have "filter_mset (\<lambda>r. ma_tracker r = u) A = filter_mset (\<lambda>r. ma_tracker r = u) (filter_mset (\<lambda>r. ma_tracker r \<noteq> t) A)"
      unfolding filter_filter_mset using that by (intro filter_mset_cong) auto
    also have "\<dots> = filter_mset (\<lambda>r. ma_tracker r = u) (sy_allocations sys)"
      unfolding A filter_filter_mset using that by (intro filter_mset_cong) auto
    finally show "held_by u sys1 = held_by u sys" by (simp add: holdings new)
  qed
  have outer: "pledged_under x sys1 = pledged_under x sys" "held_under x sys1 = held_under x sys" if "x \<noteq> tk_shared t" for x
  proof -
    have "filter_mset (\<lambda>r. tk_shared (mv_tracker r) = x) R = filter_mset (\<lambda>r. tk_shared (mv_tracker r) = x) (filter_mset (\<lambda>r. mv_tracker r \<noteq> t) R)"
      unfolding filter_filter_mset using that by (intro filter_mset_cong) auto
    also have "\<dots> = filter_mset (\<lambda>r. tk_shared (mv_tracker r) = x) (sy_reservations sys)"
      unfolding R filter_filter_mset using that by (intro filter_mset_cong) auto
    finally show "pledged_under x sys1 = pledged_under x sys" by (simp add: holdings new)
    have "filter_mset (\<lambda>r. tk_shared (ma_tracker r) = x) A = filter_mset (\<lambda>r. tk_shared (ma_tracker r) = x) (filter_mset (\<lambda>r. ma_tracker r \<noteq> t) A)"
      unfolding filter_filter_mset using that by (intro filter_mset_cong) auto
    also have "\<dots> = filter_mset (\<lambda>r. tk_shared (ma_tracker r) = x) (sy_allocations sys)"
      unfolding A filter_filter_mset using that by (intro filter_mset_cong) auto
    finally show "held_under x sys1 = held_under x sys" by (simp add: holdings new)
  qed
  have inj: "tk_state u \<noteq> tk_state t" if "u \<in> set (sy_trackers sys)" "u \<noteq> t" for u
    using ok t that by (auto simp: mem_ok_def)
  have "tracker_ok u (state_of u (sy_heap sys1)) (pledged_by u sys1) (held_by u sys1)" if u: "u \<in> set (sy_trackers sys)" for u
  proof (cases "u = t")
    case True
    then show ?thesis using tr by (simp add: new)
  next
    case False
    have "state_of u (sy_heap sys1) = state_of u (sy_heap sys)"
      using inj [OF u False] by (simp add: new state_of_def write_state_def write_shared_def)
    then show ?thesis using mem_okD(2) [OF ok u] by (simp only: other [OF False])
  qed
  moreover have "root_ok (mh_root (sy_heap sys1) x) (pledged_under x sys1) (held_under x sys1)" if x: "x \<in> set (sy_roots sys)" for x
  proof (cases "x = tk_shared t")
    case True
    then show ?thesis using root by (simp add: new write_state_def write_shared_def)
  next
    case False
    have "mh_root (sy_heap sys1) x = mh_root (sy_heap sys) x"
      using False by (simp add: new write_state_def write_shared_def)
    then show ?thesis using ok x by (simp add: mem_ok_def outer [OF False])
  qed
  ultimately show ?thesis
    using ok Rt At by (simp add: mem_ok_def new)
qed

lemma filter_add_at: "f x = y \<Longrightarrow> filter_mset (\<lambda>z. f z = y) (add_mset x M) = add_mset x (filter_mset (\<lambda>z. f z = y) M)"
  by simp

lemma reserve_ok:
  assumes ok: "mem_ok sys" and t: "t \<in> set (sy_trackers sys)" and r: "tracker_reserve t c bytes (sy_heap sys) = (res, h)"
  shows "res \<noteq> Panic" and "res = Err e \<Longrightarrow> h = sy_heap sys"
    and "res = Ok v \<Longrightarrow> mem_ok (sys\<lparr>sy_heap := h, sy_reservations := add_mset v (sy_reservations sys)\<rparr>)"
proof -
  note D = mem_okD [OF ok t]
  from D have "res \<noteq> Panic \<and> (res = Err e \<longrightarrow> h = sy_heap sys) \<and>
      (res = Ok v \<longrightarrow> mem_ok (sys\<lparr>sy_heap := h, sy_reservations := add_mset v (sy_reservations sys)\<rparr>))"
  proof (cases rule: tracker_reserve_run [where c = c and bytes = bytes])
    case (refused e')
    then show ?thesis using r by auto
  next
    case (reserved q sh st)
    have q: "mv_tracker q = t" by (simp add: reserved(2))
    have "mem_ok (sys\<lparr>sy_heap := write_state t (write_shared t (sy_heap sys) sh) st, sy_reservations := add_mset q (sy_reservations sys)\<rparr>)"
      by (rule mem_write [OF ok t, of "add_mset q (sy_reservations sys)" "sy_allocations sys"])
         (use reserved(3,4) q in \<open>simp_all add: holdings\<close>)
    then show ?thesis using r reserved(1) by auto
  qed
  then show "res \<noteq> Panic" "res = Err e \<Longrightarrow> h = sy_heap sys"
    "res = Ok v \<Longrightarrow> mem_ok (sys\<lparr>sy_heap := h, sy_reservations := add_mset v (sy_reservations sys)\<rparr>)" by auto
qed

lemma reservation_split:
  assumes "r \<in># sy_reservations sys" and "R = sy_reservations sys - {#r#}" and "mv_tracker r = t"
  shows "pledged_by t sys = add_mset r (filter_mset (\<lambda>r. mv_tracker r = t) R)"
    and "pledged_under (tk_shared t) sys = add_mset r (filter_mset (\<lambda>r. tk_shared (mv_tracker r) = tk_shared t) R)"
    and "filter_mset (\<lambda>r. mv_tracker r \<noteq> t) R = filter_mset (\<lambda>r. mv_tracker r \<noteq> t) (sy_reservations sys)"
proof -
  have s: "sy_reservations sys = add_mset r R" using assms(1,2) by simp
  show "pledged_by t sys = add_mset r (filter_mset (\<lambda>r. mv_tracker r = t) R)"
    "pledged_under (tk_shared t) sys = add_mset r (filter_mset (\<lambda>r. tk_shared (mv_tracker r) = tk_shared t) R)"
    "filter_mset (\<lambda>r. mv_tracker r \<noteq> t) R = filter_mset (\<lambda>r. mv_tracker r \<noteq> t) (sy_reservations sys)"
    using assms(3) by (simp_all add: holdings s)
qed

lemma allocation_split:
  assumes "a \<in># sy_allocations sys" and "A = sy_allocations sys - {#a#}" and "ma_tracker a = t"
  shows "held_by t sys = add_mset a (filter_mset (\<lambda>a. ma_tracker a = t) A)"
    and "held_under (tk_shared t) sys = add_mset a (filter_mset (\<lambda>a. tk_shared (ma_tracker a) = tk_shared t) A)"
    and "filter_mset (\<lambda>a. ma_tracker a \<noteq> t) A = filter_mset (\<lambda>a. ma_tracker a \<noteq> t) (sy_allocations sys)"
proof -
  have s: "sy_allocations sys = add_mset a A" using assms(1,2) by simp
  show "held_by t sys = add_mset a (filter_mset (\<lambda>a. ma_tracker a = t) A)"
    "held_under (tk_shared t) sys = add_mset a (filter_mset (\<lambda>a. tk_shared (ma_tracker a) = tk_shared t) A)"
    "filter_mset (\<lambda>a. ma_tracker a \<noteq> t) A = filter_mset (\<lambda>a. ma_tracker a \<noteq> t) (sy_allocations sys)"
    using assms(3) by (simp_all add: holdings s)
qed

lemma pledge_commit_ok:
  assumes ok: "mem_ok sys" and r: "r \<in># sy_reservations sys"
  obtains a h where "reservation_commit r (sy_heap sys) = (Ok a, h)"
    and "ma_tracker a = mv_tracker r \<and> ma_class a = mv_class r \<and> ma_bytes a = mv_bytes r"
    and "mem_ok (sys\<lparr>sy_heap := h, sy_reservations := sy_reservations sys - {#r#}, sy_allocations := add_mset a (sy_allocations sys)\<rparr>)"
proof -
  let ?t = "mv_tracker r" and ?R = "sy_reservations sys - {#r#}"
  have t: "?t \<in> set (sy_trackers sys)" using ok r by (simp add: mem_ok_def)
  note S = reservation_split [OF r refl refl] and D = mem_okD [OF ok t]
  obtain a sh st where c: "reservation_commit r (sy_heap sys) = (Ok a, write_state ?t (write_shared ?t (sy_heap sys) sh) st)"
    "a = \<lparr>ma_identity = mc_allocations (mt_total (state_of ?t (sy_heap sys))) + 1, ma_tracker = ?t, ma_class = mv_class r, ma_bytes = mv_bytes r\<rparr>"
    "root_ok sh (filter_mset (\<lambda>r. tk_shared (mv_tracker r) = tk_shared ?t) ?R) (add_mset a (held_under (tk_shared ?t) sys))"
    "tracker_ok ?t st (filter_mset (\<lambda>r. mv_tracker r = ?t) ?R) (add_mset a (held_by ?t sys))"
    by (rule reservation_commit_run [OF D [unfolded S(1,2)] refl])
  have "mem_ok (sys\<lparr>sy_heap := write_state ?t (write_shared ?t (sy_heap sys) sh) st, sy_reservations := ?R,
      sy_allocations := add_mset a (sy_allocations sys)\<rparr>)"
    by (rule mem_write [OF ok t S(3), of "add_mset a (sy_allocations sys)"])
       (use c(2-4) in \<open>simp_all add: holdings\<close>)
  then show thesis using that c(1,2) by simp
qed

lemma pledge_release_ok:
  assumes ok: "mem_ok sys" and r: "r \<in># sy_reservations sys"
  obtains h where "reservation_drop r (sy_heap sys) = (Ok (), h)"
    and "mem_ok (sys\<lparr>sy_heap := h, sy_reservations := sy_reservations sys - {#r#}\<rparr>)"
proof -
  let ?t = "mv_tracker r" and ?R = "sy_reservations sys - {#r#}"
  have t: "?t \<in> set (sy_trackers sys)" using ok r by (simp add: mem_ok_def)
  note S = reservation_split [OF r refl refl] and D = mem_okD [OF ok t]
  obtain sh st where c: "reservation_drop r (sy_heap sys) = (Ok (), write_state ?t (write_shared ?t (sy_heap sys) sh) st)"
    "root_ok sh (filter_mset (\<lambda>r. tk_shared (mv_tracker r) = tk_shared ?t) ?R) (held_under (tk_shared ?t) sys)"
    "tracker_ok ?t st (filter_mset (\<lambda>r. mv_tracker r = ?t) ?R) (held_by ?t sys)"
    by (rule reservation_drop_run [OF D [unfolded S(1,2)] refl])
  have "mem_ok (sys\<lparr>sy_heap := write_state ?t (write_shared ?t (sy_heap sys) sh) st, sy_reservations := ?R\<rparr>)"
    by (rule mem_write [OF ok t S(3), of "sy_allocations sys"]) (use c(2,3) in \<open>simp_all add: holdings\<close>)
  then show thesis using that c(1) by simp
qed

lemma free_ok:
  assumes ok: "mem_ok sys" and a: "a \<in># sy_allocations sys"
  obtains h where "allocation_drop a (sy_heap sys) = (Ok (), h)"
    and "mem_ok (sys\<lparr>sy_heap := h, sy_allocations := sy_allocations sys - {#a#}\<rparr>)"
proof -
  let ?t = "ma_tracker a" and ?A = "sy_allocations sys - {#a#}"
  have t: "?t \<in> set (sy_trackers sys)" using ok a by (simp add: mem_ok_def)
  note S = allocation_split [OF a refl refl] and D = mem_okD [OF ok t]
  obtain sh st where c: "allocation_drop a (sy_heap sys) = (Ok (), write_state ?t (write_shared ?t (sy_heap sys) sh) st)"
    "root_ok sh (pledged_under (tk_shared ?t) sys) (filter_mset (\<lambda>a. tk_shared (ma_tracker a) = tk_shared ?t) ?A)"
    "tracker_ok ?t st (pledged_by ?t sys) (filter_mset (\<lambda>a. ma_tracker a = ?t) ?A)"
    by (rule allocation_drop_run [OF D [unfolded S(1,2)] refl])
  have "mem_ok (sys\<lparr>sy_heap := write_state ?t (write_shared ?t (sy_heap sys) sh) st, sy_allocations := ?A\<rparr>)"
    by (rule mem_write [OF ok t _ S(3), of "sy_reservations sys"]) (use c(2,3) in \<open>simp_all add: holdings\<close>)
  then show thesis using that c(1) by simp
qed

lemma live_is_reclassified: "live_is n (add_mset (a\<lparr>ma_class := c\<rparr>) A) = live_is n (add_mset a A)"
  by (simp add: live_is_def)

lemma reclassify_ok:
  assumes ok: "mem_ok sys" and a: "a \<in># sy_allocations sys"
  obtains h where "reclassify a c (sy_heap sys) = (Ok (a\<lparr>ma_class := c\<rparr>), h)"
    and "mem_ok (sys\<lparr>sy_heap := h, sy_allocations := add_mset (a\<lparr>ma_class := c\<rparr>) (sy_allocations sys - {#a#})\<rparr>)"
proof -
  let ?t = "ma_tracker a" and ?A = "sy_allocations sys - {#a#}" and ?b = "a\<lparr>ma_class := c\<rparr>"
  have t: "?t \<in> set (sy_trackers sys)" using ok a by (simp add: mem_ok_def)
  note S = allocation_split [OF a refl refl] and D = mem_okD [OF ok t]
  obtain st where c: "reclassify a c (sy_heap sys) = (Ok ?b, write_state ?t (sy_heap sys) st)"
    "tracker_ok ?t st (pledged_by ?t sys) (add_mset ?b (filter_mset (\<lambda>a. ma_tracker a = ?t) ?A))"
    by (rule reclassify_run [OF D(2) [unfolded S(1)] refl])
  have root: "root_ok (shared_of ?t (sy_heap sys)) (pledged_under (tk_shared ?t) sys)
      (add_mset ?b (filter_mset (\<lambda>a. tk_shared (ma_tracker a) = tk_shared ?t) ?A))"
    using D(1) [unfolded S(2)] by (simp add: root_ok_def live_is_reclassified)
  have same: "write_shared ?t (sy_heap sys) (shared_of ?t (sy_heap sys)) = sy_heap sys"
    by (simp add: write_shared_def shared_of_def)
  have "mem_ok (sys\<lparr>sy_heap := write_state ?t (write_shared ?t (sy_heap sys) (shared_of ?t (sy_heap sys))) st,
      sy_allocations := add_mset ?b ?A\<rparr>)"
    by (rule mem_write [OF ok t _ _, of "sy_reservations sys" "add_mset ?b ?A"])
       (use c(2) root S(3) in \<open>simp_all add: holdings\<close>)
  then show thesis using that c(1) by (simp add: same)
qed

text \<open>Budgets can only be set where what is accounted fits.\<close>

lemma check_budget_Ok:
  "check_budget_change budget owned reserved = Ok u \<Longrightarrow> unat owned + unat reserved < 2 ^ 64 \<and> within budget (unat owned + unat reserved)"
  using checked_add_fits [of owned reserved] checked_add_fails [of owned reserved]
  by (cases "unat owned + unat reserved < 2 ^ 64")
     (auto simp: check_budget_change_def within_def word_less_nat_alt split: MemoryBudget.splits if_splits)

lemma check_budget_no_panic [simp]: "check_budget_change budget owned reserved \<noteq> Panic"
  unfolding check_budget_change_def by (rule and_then_no_panic) (auto split: MemoryBudget.splits)

lemma root_rebudget:
  "root_ok s R A \<Longrightarrow> within budget (bytes_of A + pledged R) \<Longrightarrow> root_ok (s\<lparr>mr_budget := budget\<rparr>) R A"
  by (simp add: root_ok_def)

lemma class_ok_budget [simp]: "class_ok (s\<lparr>mt_budget := budget\<rparr>) c R A = class_ok s c R A"
  by (simp add: class_ok_def)

lemma tracker_rebudget:
  "tracker_ok t s R A \<Longrightarrow> within budget (bytes_of A + pledged R) \<Longrightarrow> tracker_ok t (s\<lparr>mt_budget := budget\<rparr>) R A"
  by (simp add: tracker_ok_def)

lemma set_budget_ok:
  assumes ok: "mem_ok sys" and t: "t \<in> set (sy_trackers sys)" and b: "tracker_set_budget t budget (sy_heap sys) = (res, h)"
  shows "mem_ok (sys\<lparr>sy_heap := h\<rparr>) \<and> res \<noteq> Panic"
proof -
  note D = mem_okD [OF ok t]
  let ?sh = "shared_of t (sy_heap sys)" and ?st = "state_of t (sy_heap sys)"
  let ?c1 = "check_budget_change budget (mc_live_bytes (mt_total ?st)) (mt_reserved_bytes ?st)"
  let ?c2 = "check_budget_change budget (mc_live_bytes (mr_total ?sh)) (mr_reserved_bytes ?sh)"
  have same: "write_shared t (sy_heap sys) ?sh = sy_heap sys" by (simp add: write_shared_def shared_of_def)
  have w1: "within budget (bytes_of (held_by t sys) + pledged (pledged_by t sys))" if "?c1 = Ok ()"
    using check_budget_Ok [OF that] D(2) by (simp add: tracker_ok_def live_is_def)
  have w2: "within budget (bytes_of (held_under (tk_shared t) sys) + pledged (pledged_under (tk_shared t) sys))" if "?c2 = Ok ()"
    using check_budget_Ok [OF that] D(1) by (simp add: root_ok_def live_is_def)
  have one: "mem_ok (sys\<lparr>sy_heap := write_state t (sy_heap sys) (?st\<lparr>mt_budget := budget\<rparr>)\<rparr>)" if "?c1 = Ok ()"
    by (rule mem_write [OF ok t refl refl, where sh = ?sh and st = "?st\<lparr>mt_budget := budget\<rparr>"])
       (use D tracker_rebudget [OF D(2) w1 [OF that]] in \<open>simp_all add: same holdings\<close>)
  have two: "mem_ok (sys\<lparr>sy_heap := write_state t (write_shared t (sy_heap sys) (?sh\<lparr>mr_budget := budget\<rparr>)) (?st\<lparr>mt_budget := budget\<rparr>)\<rparr>)"
    if "?c1 = Ok ()" "?c2 = Ok ()"
    by (rule mem_write [OF ok t refl refl, where sh = "?sh\<lparr>mr_budget := budget\<rparr>" and st = "?st\<lparr>mt_budget := budget\<rparr>"])
       (use root_rebudget [OF D(1) w2 [OF that(2)]] tracker_rebudget [OF D(2) w1 [OF that(1)]] in \<open>simp_all add: holdings\<close>)
  have noP: "?c1 \<noteq> Panic" "?c2 \<noteq> Panic" by simp_all
  show ?thesis
    using b one two noP ok
    by (cases ?c1; cases ?c2) (auto simp: tracker_set_budget_def Let_def split: if_splits)
qed

lemma root_set_budget_ok:
  assumes ok: "mem_ok sys" and root: "root \<in> set (sy_roots sys)" and b: "root_set_budget root budget (sy_heap sys) = (res, h)"
  shows "mem_ok (sys\<lparr>sy_heap := h\<rparr>) \<and> res \<noteq> Panic"
proof -
  let ?s = "mh_root (sy_heap sys) root"
  let ?c = "check_budget_change budget (mc_live_bytes (mr_total ?s)) (mr_reserved_bytes ?s)"
  have r: "root_ok ?s (pledged_under root sys) (held_under root sys)" using ok root by (simp add: mem_ok_def)
  have new: "mem_ok (sys\<lparr>sy_heap := (sy_heap sys)\<lparr>mh_root := (mh_root (sy_heap sys))(root := ?s\<lparr>mr_budget := budget\<rparr>)\<rparr>\<rparr>)"
    if "?c = Ok ()"
  proof -
    have "within budget (bytes_of (held_under root sys) + pledged (pledged_under root sys))"
      using check_budget_Ok [OF that] r by (simp add: root_ok_def live_is_def)
    then have "root_ok (?s\<lparr>mr_budget := budget\<rparr>) (pledged_under root sys) (held_under root sys)" by (rule root_rebudget [OF r])
    then show ?thesis using ok by (auto simp: mem_ok_def holdings state_of_def)
  qed
  have noP: "?c \<noteq> Panic" by simp
  show ?thesis using b new noP ok by (cases ?c) (auto simp: root_set_budget_def Let_def)
qed

text \<open>Fresh roots and trackers start with empty books.\<close>

lemma root_new_ok [simp]: "root_ok (root_new budget) {#} {#}"
  by (auto simp: root_ok_def root_new_def within_def live_is_def default_counters_def split: MemoryBudget.splits)

lemma tracker_state_new_ok [simp]: "tracker_ok t (tracker_state_new budget) {#} {#}"
  by (auto simp: tracker_ok_def tracker_state_new_def class_ok_def class_counters_def within_def live_is_def default_counters_def
      split: MemoryBudget.splits)

lemma add_root_ok:
  assumes ok: "mem_ok sys" and fresh: "root \<notin> set (sy_roots sys)"
  shows "mem_ok (sys\<lparr>sy_heap := (sy_heap sys)\<lparr>mh_root := (mh_root (sy_heap sys))(root := root_new budget)\<rparr>, sy_roots := root # sy_roots sys\<rparr>)"
proof -
  have "tk_shared (mv_tracker r) \<noteq> root" if "r \<in># sy_reservations sys" for r using ok fresh that by (auto simp: mem_ok_def)
  then have e1: "pledged_under root sys = {#}" by (simp add: holdings)
  have "tk_shared (ma_tracker a) \<noteq> root" if "a \<in># sy_allocations sys" for a using ok fresh that by (auto simp: mem_ok_def)
  then have e2: "held_under root sys = {#}" by (simp add: holdings)
  show ?thesis using ok fresh by (auto simp: mem_ok_def state_of_def e1 e2)
qed

lemma add_child_ok:
  assumes ok: "mem_ok sys" and root: "root \<in> set (sy_roots sys)" and fresh: "state \<notin> tk_state ` set (sy_trackers sys)"
    and t: "tracker_from_parts state budget root owner (sy_heap sys) = (t, h)"
  shows "mem_ok (sys\<lparr>sy_heap := h, sy_trackers := t # sy_trackers sys\<rparr>)"
proof -
  have t': "tk_state t = state" "tk_shared t = root" "h = (sy_heap sys)\<lparr>mh_tracker := (mh_tracker (sy_heap sys))(state := tracker_state_new budget)\<rparr>"
    using t by (auto simp: tracker_from_parts_def)
  have new: "t \<notin> set (sy_trackers sys)" using fresh t'(1) by auto
  have "mv_tracker r \<noteq> t" if "r \<in># sy_reservations sys" for r using ok new that by (auto simp: mem_ok_def)
  then have e1: "pledged_by t sys = {#}" by (simp add: holdings)
  have "ma_tracker a \<noteq> t" if "a \<in># sy_allocations sys" for a using ok new that by (auto simp: mem_ok_def)
  then have e2: "held_by t sys = {#}" by (simp add: holdings)
  have old: "\<forall>u\<in>set (sy_trackers sys). tk_state u \<noteq> state" using fresh by auto
  show ?thesis
    using ok root old t'(1,2) by (auto simp: mem_ok_def state_of_def t'(3) e1 e2)
qed

lemma mem_step_ok:
  assumes "mem_step sys sys1" and ok: "mem_ok sys"
  shows "mem_ok sys1"
  using assms(1)
proof cases
  case (mem_step_root root budget)
  then show ?thesis using add_root_ok [OF ok] by simp
next
  case (mem_step_child root state budget t h)
  then show ?thesis using add_child_ok [OF ok mem_step_child(2,3)] by (simp add: tracker_child_def)
next
  case (mem_step_new root state budget t h)
  let ?sys = "sys\<lparr>sy_heap := (sy_heap sys)\<lparr>mh_root := (mh_root (sy_heap sys))(root := root_new budget)\<rparr>, sy_roots := root # sy_roots sys\<rparr>"
  have "mem_ok ?sys" by (rule add_root_ok [OF ok mem_step_new(2)])
  from add_child_ok [OF this, of root state budget True t h] mem_step_new show ?thesis by (simp add: tracker_new_def)
next
  case (mem_step_reserve t c bytes r h)
  then show ?thesis using reserve_ok(3) [OF ok] by simp
next
  case (mem_step_commit r a h)
  then show ?thesis using pledge_commit_ok [OF ok mem_step_commit(2)] by (metis prod.inject outcome.inject(1))
next
  case (mem_step_release r h)
  then show ?thesis using pledge_release_ok [OF ok mem_step_release(2)] by (metis prod.inject)
next
  case (mem_step_free a h)
  then show ?thesis using free_ok [OF ok mem_step_free(2)] by (metis prod.inject)
next
  case (mem_step_reclassify a c b h)
  then show ?thesis using reclassify_ok [OF ok mem_step_reclassify(2), of c] by (metis prod.inject outcome.inject(1))
next
  case (mem_step_budget t budget res h)
  then show ?thesis using set_budget_ok [OF ok] by simp
next
  case (mem_step_root_budget root budget res h)
  then show ?thesis using root_set_budget_ok [OF ok] by simp
qed

interpretation mem: machine mem_start mem_step mem_ok
proof unfold_locales
  show "mem_start s \<Longrightarrow> mem_ok s" for s by (simp add: mem_start_def mem_ok_def)
  show "mem_ok s \<Longrightarrow> mem_step s t \<Longrightarrow> mem_ok t" for s t by (rule mem_step_ok)
qed

definition mem_reachable :: "MemorySystem \<Rightarrow> bool" where
  "mem_reachable sys \<longleftrightarrow> (\<exists>sys0. mem_start sys0 \<and> mem_step\<^sup>*\<^sup>* sys0 sys)"

lemma mem_reachable_ok: "mem_reachable sys \<Longrightarrow> mem_ok sys"
  by (auto simp: mem_reachable_def intro: mem.inv_reachable)

lemma mem_reachable_step: "mem_reachable sys \<Longrightarrow> mem_step sys sys1 \<Longrightarrow> mem_reachable sys1"
  by (auto simp: mem_reachable_def intro: rtranclp.rtrancl_into_rtrancl)

section \<open>A concrete system\<close>

definition demo_heap :: MemoryHeap where
  "demo_heap = \<lparr>mh_root = (\<lambda>_. root_new Unlimited), mh_tracker = (\<lambda>_. tracker_state_new Unlimited)\<rparr>"

definition demo_empty :: MemorySystem where
  "demo_empty = \<lparr>sy_heap = demo_heap, sy_roots = [], sy_trackers = [], sy_reservations = {#}, sy_allocations = {#}\<rparr>"

definition demo_owner :: MemoryTracker where
  "demo_owner = \<lparr>tk_state = 0, tk_shared = 0, tk_root_owner = True\<rparr>"

definition demo_memory :: MemorySystem where
  "demo_memory = demo_empty\<lparr>sy_roots := [0], sy_heap := snd (tracker_new 0 0 (LimitedBytes 100) demo_heap), sy_trackers := [demo_owner]\<rparr>"

definition demo_pledge :: MemoryReservation where
  "demo_pledge = \<lparr>mv_tracker = demo_owner, mv_class = KvCache, mv_bytes = 60\<rparr>"

definition demo_pledged :: MemorySystem where
  "demo_pledged = demo_memory\<lparr>sy_heap := snd (tracker_reserve demo_owner KvCache 60 (sy_heap demo_memory)), sy_reservations := {#demo_pledge#}\<rparr>"

definition demo_holding :: MemorySystem where
  "demo_holding = demo_pledged\<lparr>sy_heap := snd (reservation_commit demo_pledge (sy_heap demo_pledged)), sy_reservations := {#},
     sy_allocations := {#\<lparr>ma_identity = 1, ma_tracker = demo_owner, ma_class = KvCache, ma_bytes = 60\<rparr>#}\<rparr>"

lemmas reserve_eval = tracker_reserve_def checked_shared_reservation_def checked_reservation_def checked_counter_capacity_def
  class_counters_def class_reservations_def shared_of_def state_of_def write_shared_def write_state_def checked_add_def Let_def

lemmas demo_memory_eval = demo_pledge_def demo_memory_def demo_owner_def demo_empty_def demo_heap_def tracker_new_def
  tracker_from_parts_def root_new_def tracker_state_new_def default_counters_def

lemma demo_reserved: "fst (tracker_reserve demo_owner KvCache 60 (sy_heap demo_memory)) = Ok demo_pledge"
  by (simp add: reserve_eval demo_memory_eval)

lemma demo_reserve_refused: "fst (tracker_reserve demo_owner KvCache 60 (sy_heap demo_pledged)) = Err (BudgetExceeded 60 100 0 60)"
  by (simp add: demo_pledged_def reserve_eval demo_memory_eval)

lemma demo_memory_reachable:
  "mem_reachable demo_memory" "mem_reachable demo_pledged" "mem_reachable demo_holding"
proof -
  have start: "mem_reachable demo_empty" by (auto simp: mem_reachable_def mem_start_def demo_empty_def intro!: exI [of _ demo_empty])
  have "mem_step demo_empty demo_memory"
    unfolding demo_memory_def
    using mem_step_new [of 0 demo_empty 0 "LimitedBytes 100" demo_owner "snd (tracker_new 0 0 (LimitedBytes 100) demo_heap)"]
    by (simp add: demo_empty_def demo_owner_def tracker_new_def tracker_from_parts_def)
  with start show m: "mem_reachable demo_memory" by (rule mem_reachable_step)
  have r: "tracker_reserve demo_owner KvCache 60 (sy_heap demo_memory) =
      (Ok demo_pledge, snd (tracker_reserve demo_owner KvCache 60 (sy_heap demo_memory)))"
    using demo_reserved by (metis prod.collapse)
  have "mem_step demo_memory demo_pledged"
    using mem_step_reserve [OF _ r] by (simp add: demo_pledged_def) (simp add: demo_memory_def demo_empty_def)
  with m show p: "mem_reachable demo_pledged" by (rule mem_reachable_step)
  have in_R: "demo_pledge \<in># sy_reservations demo_pledged" by (simp add: demo_pledged_def)
  obtain a h where c: "reservation_commit demo_pledge (sy_heap demo_pledged) = (Ok a, h)"
    by (rule pledge_commit_ok [OF mem_reachable_ok [OF p] in_R])
  have "fst (reservation_commit demo_pledge (sy_heap demo_pledged)) =
      Ok \<lparr>ma_identity = 1, ma_tracker = demo_owner, ma_class = KvCache, ma_bytes = 60\<rparr>"
    by (simp add: demo_pledged_def reservation_commit_def commit_checks_def checked_shared_commit_def on_shared_def on_state_def
        on_total_def on_class_def on_root_total_def record_allocate_def decrement_reserved_class_def checked_sub_def bt_get_def
        bt_remove_def reserve_eval demo_memory_eval)
  with c have a: "a = \<lparr>ma_identity = 1, ma_tracker = demo_owner, ma_class = KvCache, ma_bytes = 60\<rparr>" by simp
  have "mem_step demo_pledged demo_holding"
    using mem_step_commit [OF in_R c] unfolding demo_holding_def c a
    by (simp add: demo_pledged_def demo_memory_def demo_empty_def)
  with p show "mem_reachable demo_holding" by (rule mem_reachable_step)
qed

lemma demo_owned: "unat (tracker_owned_bytes demo_owner (sy_heap demo_holding)) = 60"
proof -
  have t: "demo_owner \<in> set (sy_trackers demo_holding)" by (simp add: demo_holding_def demo_pledged_def demo_memory_def)
  have "bytes_of (held_by demo_owner demo_holding) = 60"
    by (simp add: demo_holding_def demo_pledged_def demo_memory_def demo_empty_def held_by_def)
  then show ?thesis
    using mem_okD(2) [OF mem_reachable_ok [OF demo_memory_reachable(3)] t]
    by (simp add: tracker_owned_bytes_def tracker_ok_def live_is_def)
qed

section \<open>The properties\<close>

text \<open>C17: In every reachable state a tracker owns exactly the bytes of the live allocations
  charged to it and reserves exactly the bytes of its live reservations, each class owns
  the bytes of its allocations, and the shared root counts the sums over all siblings.
\<close>

theorem memory_ledger:
  assumes "mem_reachable sys" and "t \<in> set (sy_trackers sys)"
  shows "unat (tracker_owned_bytes t (sy_heap sys)) = bytes_of (held_by t sys) \<and>
    unat (tracker_reserved_bytes t (sy_heap sys)) = pledged (pledged_by t sys) \<and>
    (\<forall>c. unat (mc_live_bytes (class_counters (state_of t (sy_heap sys)) c)) = bytes_of (filter_mset (\<lambda>a. ma_class a = c) (held_by t sys))) \<and>
    unat (root_owned_bytes (tk_shared t) (sy_heap sys)) = bytes_of (held_under (tk_shared t) sys) \<and>
    unat (root_reserved_bytes (tk_shared t) (sy_heap sys)) = pledged (pledged_under (tk_shared t) sys)"
proof -
  note D = mem_okD [OF mem_reachable_ok [OF assms(1)] assms(2)]
  have "class_ok (state_of t (sy_heap sys)) c (pledged_by t sys) (held_by t sys)" for c
    using D(2) by (simp add: tracker_ok_def)
  then show ?thesis
    using D by (simp add: root_ok_def tracker_ok_def class_ok_def live_is_def tracker_owned_bytes_def
        tracker_reserved_bytes_def root_owned_bytes_def root_reserved_bytes_def shared_of_def)
qed

theorem memory_ledger_witness: "unat (tracker_owned_bytes demo_owner (sy_heap demo_holding)) = 60"
  using memory_ledger [OF demo_memory_reachable(3), of demo_owner]
  by (simp add: demo_holding_def demo_pledged_def demo_memory_def demo_empty_def held_by_def)

text \<open>C18: Owned and reserved bytes together never exceed the budget of the tracker, nor the
  budget of the root it shares, and the recorded peak is never below them.
\<close>

theorem memory_within_budget:
  assumes "mem_reachable sys" and "t \<in> set (sy_trackers sys)"
  shows "within (tracker_budget t (sy_heap sys))
      (unat (tracker_owned_bytes t (sy_heap sys)) + unat (tracker_reserved_bytes t (sy_heap sys))) \<and>
    within (root_budget (tk_shared t) (sy_heap sys))
      (unat (root_owned_bytes (tk_shared t) (sy_heap sys)) + unat (root_reserved_bytes (tk_shared t) (sy_heap sys))) \<and>
    unat (tracker_owned_bytes t (sy_heap sys)) + unat (tracker_reserved_bytes t (sy_heap sys))
      \<le> unat (mm_peak_owned_and_reserved_bytes (tracker_snapshot t (sy_heap sys)))"
proof -
  note D = mem_okD [OF mem_reachable_ok [OF assms(1)] assms(2)]
  have "held_by t sys = filter_mset (\<lambda>a. ma_tracker a = t) (held_under (tk_shared t) sys)"
    "pledged_by t sys = filter_mset (\<lambda>r. mv_tracker r = t) (pledged_under (tk_shared t) sys)"
    unfolding holdings filter_filter_mset by (rule filter_mset_cong, auto)+
  then have "bytes_of (held_by t sys) + pledged (pledged_by t sys)
      \<le> bytes_of (held_under (tk_shared t) sys) + pledged (pledged_under (tk_shared t) sys)"
    using bytes_of_filter pledged_filter by (metis add_mono)
  then have "within (mr_budget (shared_of t (sy_heap sys))) (bytes_of (held_by t sys) + pledged (pledged_by t sys))"
    using D(1) within_mono by (auto simp: root_ok_def)
  then show ?thesis
    using D by (auto simp: root_ok_def tracker_ok_def live_is_def tracker_owned_bytes_def tracker_reserved_bytes_def
        root_owned_bytes_def root_reserved_bytes_def root_budget_def tracker_budget_def tracker_snapshot_def
        tracker_state_snapshot_def shared_of_def Let_def)
qed

theorem memory_within_budget_witness:
  "within (tracker_budget demo_owner (sy_heap demo_holding)) 60 \<and> tracker_budget demo_owner (sy_heap demo_memory) = LimitedBytes 100"
proof -
  have t: "demo_owner \<in> set (sy_trackers demo_holding)"
    by (simp add: demo_holding_def demo_pledged_def demo_memory_def)
  have "within (tracker_budget demo_owner (sy_heap demo_holding)) 60"
    using memory_within_budget [OF demo_memory_reachable(3) t] within_mono [of _ "60 + _" 60] by (auto simp: demo_owned)
  then show ?thesis by (simp add: tracker_budget_def shared_of_def demo_memory_eval)
qed

text \<open>No operation of a reachable system panics: every underflow, overflow and missing
  class that the code guards with \<open>expect\<close> is unreachable. A live reservation can always
  be committed, so an admitted allocation never fails in the accounting.
\<close>

theorem memory_never_panics:
  assumes "mem_reachable sys"
  shows "(\<forall>t\<in>set (sy_trackers sys). fst (tracker_reserve t c bytes (sy_heap sys)) \<noteq> Panic \<and>
      fst (tracker_allocate t c bytes (sy_heap sys)) \<noteq> Panic \<and> fst (tracker_set_budget t budget (sy_heap sys)) \<noteq> Panic) \<and>
    (\<forall>r\<in>#sy_reservations sys. (\<exists>a. fst (reservation_commit r (sy_heap sys)) = Ok a \<and> ma_bytes a = mv_bytes r) \<and>
      fst (reservation_drop r (sy_heap sys)) = Ok ()) \<and>
    (\<forall>a\<in>#sy_allocations sys. fst (allocation_drop a (sy_heap sys)) = Ok () \<and>
      fst (reclassify a c (sy_heap sys)) = Ok (a\<lparr>ma_class := c\<rparr>))"
proof -
  note ok = mem_reachable_ok [OF assms]
  have res: "fst (tracker_reserve t c bytes (sy_heap sys)) \<noteq> Panic" if "t \<in> set (sy_trackers sys)" for t
    using reserve_ok(1) [OF ok that] by (metis prod.collapse)
  have alloc: "fst (tracker_allocate t c bytes (sy_heap sys)) \<noteq> Panic" if t: "t \<in> set (sy_trackers sys)" for t
  proof (cases "tracker_reserve t c bytes (sy_heap sys)")
    case (Pair r h)
    show ?thesis
    proof (cases r)
      case (Ok v)
      let ?sys = "sys\<lparr>sy_heap := h, sy_reservations := add_mset v (sy_reservations sys)\<rparr>"
      have "mem_ok ?sys" "v \<in># sy_reservations ?sys" using reserve_ok(3) [OF ok t Pair Ok] by simp_all
      from pledge_commit_ok [OF this] obtain a h2 where "reservation_commit v (sy_heap ?sys) = (Ok a, h2)" by blast
      then show ?thesis by (simp add: tracker_allocate_def Pair Ok)
    qed (use res [OF t] Pair in \<open>simp_all add: tracker_allocate_def\<close>)
  qed
  have bud: "fst (tracker_set_budget t budget (sy_heap sys)) \<noteq> Panic" if "t \<in> set (sy_trackers sys)" for t
    using set_budget_ok [OF ok that] by (metis prod.collapse)
  have com: "\<exists>a. fst (reservation_commit r (sy_heap sys)) = Ok a \<and> ma_bytes a = mv_bytes r" if "r \<in># sy_reservations sys" for r
    using pledge_commit_ok [OF ok that] by (metis fst_conv)
  have rel: "fst (reservation_drop r (sy_heap sys)) = Ok ()" if "r \<in># sy_reservations sys" for r
    using pledge_release_ok [OF ok that] by (metis fst_conv)
  have fre: "fst (allocation_drop a (sy_heap sys)) = Ok ()" if "a \<in># sy_allocations sys" for a
    using free_ok [OF ok that] by (metis fst_conv)
  have rec: "fst (reclassify a c (sy_heap sys)) = Ok (a\<lparr>ma_class := c\<rparr>)" if "a \<in># sy_allocations sys" for a
    using reclassify_ok [OF ok that, of c] by (metis fst_conv)
  show ?thesis using res alloc bud com rel fre rec by blast
qed

theorem memory_never_panics_witness:
  "(\<exists>a. fst (reservation_commit demo_pledge (sy_heap demo_pledged)) = Ok a) \<and>
   fst (tracker_allocate demo_owner KvCache 50 (sy_heap demo_pledged)) \<noteq> Panic"
  using memory_never_panics [OF demo_memory_reachable(2), of KvCache 50]
  by (auto simp: demo_pledged_def demo_memory_def)

text \<open>A reservation is granted exactly when it asks for something, fits the tracker's
  budget and the shared root's budget on top of everything owned and reserved, and the
  allocation counters have room; when it is refused, nothing changes.
\<close>

theorem reserve_accepts_exactly:
  assumes "mem_reachable sys" and "t \<in> set (sy_trackers sys)"
  shows "((\<exists>r h. tracker_reserve t c bytes (sy_heap sys) = (Ok r, h)) \<longleftrightarrow>
      bytes \<noteq> 0 \<and>
      bytes_of (held_under (tk_shared t) sys) + pledged (pledged_under (tk_shared t) sys) + unat bytes < 2 ^ 64 \<and>
      within (root_budget (tk_shared t) (sy_heap sys))
        (bytes_of (held_under (tk_shared t) sys) + pledged (pledged_under (tk_shared t) sys) + unat bytes) \<and>
      unat (mc_allocations (mr_total (shared_of t (sy_heap sys)))) + size (pledged_under (tk_shared t) sys) + 1 < 2 ^ 64 \<and>
      bytes_of (held_by t sys) + pledged (pledged_by t sys) + unat bytes < 2 ^ 64 \<and>
      within (tracker_budget t (sy_heap sys)) (bytes_of (held_by t sys) + pledged (pledged_by t sys) + unat bytes) \<and>
      unat (mc_allocations (mt_total (state_of t (sy_heap sys)))) + size (pledged_by t sys) + 1 < 2 ^ 64) \<and>
    (\<forall>e h. tracker_reserve t c bytes (sy_heap sys) = (Err e, h) \<longrightarrow> h = sy_heap sys)"
proof -
  note ok = mem_reachable_ok [OF assms(1)]
  note D = mem_okD [OF ok assms(2)]
  have rb: "root_budget (tk_shared t) (sy_heap sys) = mr_budget (shared_of t (sy_heap sys))"
    by (simp add: root_budget_def shared_of_def)
  have tb: "(if tk_root_owner t then mr_budget (shared_of t (sy_heap sys)) else mt_budget (state_of t (sy_heap sys))) =
      tracker_budget t (sy_heap sys)"
    by (simp add: tracker_budget_def)
  have "\<forall>e h. tracker_reserve t c bytes (sy_heap sys) = (Err e, h) \<longrightarrow> h = sy_heap sys"
    using reserve_ok(2) [OF ok assms(2)] by blast
  then show ?thesis
    unfolding rb tracker_reserve_def Let_def tb shared_reservation_closed [OF D(1)] reservation_closed [OF D(2)]
    by (auto split: if_splits)
qed

theorem reserve_accepts_exactly_witness:
  "\<not> (\<exists>r h. tracker_reserve demo_owner KvCache 60 (sy_heap demo_pledged) = (Ok r, h)) \<and>
   \<not> within (root_budget 0 (sy_heap demo_pledged)) (60 + unat (60 :: u64))"
proof -
  have t: "demo_owner \<in> set (sy_trackers demo_pledged)" by (simp add: demo_pledged_def demo_memory_def)
  have no: "\<not> (\<exists>r h. tracker_reserve demo_owner KvCache 60 (sy_heap demo_pledged) = (Ok r, h))"
    using demo_reserve_refused by auto
  have b: "root_budget 0 (sy_heap demo_pledged) = LimitedBytes 100" "tracker_budget demo_owner (sy_heap demo_pledged) = LimitedBytes 100"
    "mc_allocations (mr_total (shared_of demo_owner (sy_heap demo_pledged))) = 0"
    "mc_allocations (mt_total (state_of demo_owner (sy_heap demo_pledged))) = 0"
    by (simp_all add: root_budget_def tracker_budget_def demo_pledged_def reserve_eval demo_memory_eval)
  show ?thesis
    using no reserve_accepts_exactly [OF demo_memory_reachable(2) t, of KvCache 60]
    by (simp add: b within_def)
qed

text \<open>Two live allocations of one tracker never have the same identity.\<close>

lemma allocation_identities_unique:
  assumes "mem_reachable sys" and "sy_allocations sys = add_mset a (add_mset b A)" and "ma_tracker a = ma_tracker b"
  shows "ma_identity a \<noteq> ma_identity b"
proof
  assume same: "ma_identity a = ma_identity b"
  have t: "ma_tracker a \<in> set (sy_trackers sys)"
    using mem_reachable_ok [OF assms(1)] assms(2) by (simp add: mem_ok_def)
  have "size (filter_mset (\<lambda>x. ma_identity x = ma_identity a) (held_by (ma_tracker a) sys)) \<le> 1"
    using mem_okD(2) [OF mem_reachable_ok [OF assms(1)] t] unfolding tracker_ok_def by blast
  moreover have "held_by (ma_tracker a) sys = add_mset a (add_mset b (filter_mset (\<lambda>x. ma_tracker x = ma_tracker a) A))"
    using assms(3) by (simp add: held_by_def assms(2))
  ultimately show False using same by simp
qed

end
