(* ===== verification/Backend_Shapes.thy ===== *)
theory Backend_Shapes
  imports Memory_Tracker
begin

text \<open>
  The checked sizes of \<open>crates/leone/src/backend.rs\<close>: buffer layouts, matrix, vector, RoPE
  and attention shapes and the prefill plan, with the errors every backend call can
  return. A \<open>usize\<close> is a natural number, its checked operations fail from 2 ^ 64 on. The
  static strings of an error are kept; the value of \<open>InvalidPositiveFloat\<close> is the bit
  pattern of the float. Record prefixes: \<open>bl_\<close> BufferLayout, \<open>bs_\<close> BufferSnapshot,
  \<open>qm_\<close> QuantMatrix, \<open>vs_\<close> VectorShape, \<open>ro_\<close> RopeShape, \<open>pl_\<close> PrefillPlan, \<open>sh_\<close>
  AttentionShape.
\<close>

section \<open>Errors\<close>

datatype BackendError =
    Operation string string
  | BackendMemory MemoryError
  | ZeroSize string
  | NotDivisible string nat nat
  | SizeOverflow string
  | InvalidGqa nat nat
  | SizeMismatch string nat nat
  | InvalidPositiveFloat string u32
  | RowOutOfBounds nat nat
  | PositionOutOfBounds nat nat
  | PositionOutsideSpan nat nat nat

definition nonzero :: "string \<Rightarrow> nat \<Rightarrow> (unit, BackendError) outcome" where
  "nonzero field n = (if n = 0 then Err (ZeroSize field) else Ok ())"

definition divisible :: "string \<Rightarrow> nat \<Rightarrow> nat \<Rightarrow> (unit, BackendError) outcome" where
  "divisible field n divisor = (if n mod divisor = 0 then Ok () else Err (NotDivisible field n divisor))"

definition checked_size :: "string \<Rightarrow> nat option \<Rightarrow> (nat, BackendError) outcome" where
  "checked_size field n = ok_or n (SizeOverflow field)"

definition size_u64 :: "string \<Rightarrow> nat \<Rightarrow> (u64, BackendError) outcome" where
  "size_u64 field n = ok_or (if n < usize_limit then Some (of_nat n) else None) (SizeOverflow field)"

section \<open>Buffers\<close>

datatype BufferStorage = F16 | F32 | U32 | Q8Kv | Q4K | Q6K

record BufferLayout =
  bl_storage :: BufferStorage
  bl_elements :: nat
  bl_bytes :: nat

definition layout_dense :: "BufferStorage \<Rightarrow> nat \<Rightarrow> nat \<Rightarrow> (BufferLayout, BackendError) outcome" where
  "layout_dense storage elements element_bytes =
     and_then (nonzero ''buffer elements'' elements) (\<lambda>_.
     and_then (checked_size ''dense buffer bytes'' (usize_checked_mul elements element_bytes)) (\<lambda>bytes.
     Ok \<lparr>bl_storage = storage, bl_elements = elements, bl_bytes = bytes\<rparr>))"

definition layout_f16 :: "nat \<Rightarrow> (BufferLayout, BackendError) outcome" where
  "layout_f16 elements = layout_dense F16 elements 2"

definition layout_f32 :: "nat \<Rightarrow> (BufferLayout, BackendError) outcome" where
  "layout_f32 elements = layout_dense F32 elements 4"

definition layout_u32 :: "nat \<Rightarrow> (BufferLayout, BackendError) outcome" where
  "layout_u32 elements = layout_dense U32 elements 4"

definition layout_q8_kv :: "nat \<Rightarrow> (BufferLayout, BackendError) outcome" where
  "layout_q8_kv elements =
     and_then (nonzero ''Q8 KV elements'' elements) (\<lambda>_.
     and_then (divisible ''Q8 KV elements'' elements 32) (\<lambda>_.
     and_then (checked_size ''Q8 KV buffer bytes'' (usize_checked_mul (elements div 32) 34)) (\<lambda>bytes.
     Ok \<lparr>bl_storage = Q8Kv, bl_elements = elements, bl_bytes = bytes\<rparr>)))"

datatype QuantFormat = FormatQ4K | FormatQ6K

fun block_bytes :: "QuantFormat \<Rightarrow> nat" where
  "block_bytes FormatQ4K = 144"
| "block_bytes FormatQ6K = 210"

fun format_storage :: "QuantFormat \<Rightarrow> BufferStorage" where
  "format_storage FormatQ4K = Q4K"
| "format_storage FormatQ6K = Q6K"

definition layout_quantized :: "nat \<Rightarrow> QuantFormat \<Rightarrow> (BufferLayout, BackendError) outcome" where
  "layout_quantized elements format =
     and_then (nonzero ''quantized elements'' elements) (\<lambda>_.
     and_then (divisible ''quantized elements'' elements 256) (\<lambda>_.
     and_then (checked_size ''quantized buffer bytes'' (usize_checked_mul (elements div 256) (block_bytes format))) (\<lambda>bytes.
     Ok \<lparr>bl_storage = format_storage format, bl_elements = elements, bl_bytes = bytes\<rparr>)))"

record BufferSnapshot =
  bs_layout :: BufferLayout
  bs_bytes :: "u8 list"

definition snapshot_new :: "BufferLayout \<Rightarrow> u8 list \<Rightarrow> (BufferSnapshot, BackendError) outcome" where
  "snapshot_new layout bytes =
     (if length bytes \<noteq> bl_bytes layout then Err (SizeMismatch ''snapshot bytes'' (bl_bytes layout) (length bytes))
      else Ok \<lparr>bs_layout = layout, bs_bytes = bytes\<rparr>)"

text \<open>\<open>KvCacheDtype\<close> of \<open>runtime.rs\<close>.\<close>

datatype KvCacheDtype = DtypeQ8 | DtypeF16 | DtypeF32

fun dtype_layout :: "KvCacheDtype \<Rightarrow> nat \<Rightarrow> (BufferLayout, BackendError) outcome" where
  "dtype_layout DtypeQ8 elements = layout_q8_kv elements"
| "dtype_layout DtypeF16 elements = layout_f16 elements"
| "dtype_layout DtypeF32 elements = layout_f32 elements"

section \<open>Shapes\<close>

record QuantMatrix =
  qm_rows :: nat
  qm_columns :: nat
  qm_format :: QuantFormat

definition matrix_new :: "nat \<Rightarrow> nat \<Rightarrow> QuantFormat \<Rightarrow> (QuantMatrix, BackendError) outcome" where
  "matrix_new rows columns format =
     and_then (nonzero ''matrix rows'' rows) (\<lambda>_.
     and_then (nonzero ''matrix columns'' columns) (\<lambda>_.
     and_then (divisible ''matrix columns'' columns 256) (\<lambda>_.
     and_then (checked_size ''matrix elements'' (usize_checked_mul rows columns)) (\<lambda>_.
     Ok \<lparr>qm_rows = rows, qm_columns = columns, qm_format = format\<rparr>))))"

definition matrix_layout :: "QuantMatrix \<Rightarrow> (BufferLayout, BackendError) outcome" where
  "matrix_layout m =
     and_then (checked_size ''matrix elements'' (usize_checked_mul (qm_rows m) (qm_columns m))) (\<lambda>elements.
     layout_quantized elements (qm_format m))"

definition matrix_row_bytes :: "QuantMatrix \<Rightarrow> (nat, BackendError) outcome" where
  "matrix_row_bytes m = checked_size ''matrix row bytes'' (usize_checked_mul (qm_columns m div 256) (block_bytes (qm_format m)))"

record VectorShape =
  vs_rows :: nat
  vs_columns :: nat

definition vector_new :: "nat \<Rightarrow> nat \<Rightarrow> (VectorShape, BackendError) outcome" where
  "vector_new rows columns =
     and_then (nonzero ''vector rows'' rows) (\<lambda>_.
     and_then (nonzero ''vector columns'' columns) (\<lambda>_.
     and_then (checked_size ''vector elements'' (usize_checked_mul rows columns)) (\<lambda>_.
     Ok \<lparr>vs_rows = rows, vs_columns = columns\<rparr>)))"

definition vector_elements :: "VectorShape \<Rightarrow> (nat, BackendError) outcome" where
  "vector_elements v = checked_size ''vector elements'' (usize_checked_mul (vs_rows v) (vs_columns v))"

record RopeShape =
  ro_tokens :: nat
  ro_heads :: nat
  ro_head_dim :: nat

text \<open>\<open>a.checked_mul(b).and_then(|value| value.checked_mul(c))\<close>.\<close>

definition checked_mul3 :: "nat \<Rightarrow> nat \<Rightarrow> nat \<Rightarrow> nat option" where
  "checked_mul3 a b c = Option.bind (usize_checked_mul a b) (\<lambda>n. usize_checked_mul n c)"

definition rope_new :: "nat \<Rightarrow> nat \<Rightarrow> nat \<Rightarrow> (RopeShape, BackendError) outcome" where
  "rope_new tokens heads head_dim =
     and_then (nonzero ''RoPE tokens'' tokens) (\<lambda>_.
     and_then (nonzero ''RoPE heads'' heads) (\<lambda>_.
     and_then (nonzero ''RoPE head_dim'' head_dim) (\<lambda>_.
     and_then (divisible ''RoPE head_dim'' head_dim 2) (\<lambda>_.
     and_then (checked_size ''RoPE elements'' (checked_mul3 tokens heads head_dim)) (\<lambda>_.
     Ok \<lparr>ro_tokens = tokens, ro_heads = heads, ro_head_dim = head_dim\<rparr>)))))"

definition rope_elements :: "RopeShape \<Rightarrow> (nat, BackendError) outcome" where
  "rope_elements s = checked_size ''RoPE elements'' (checked_mul3 (ro_tokens s) (ro_heads s) (ro_head_dim s))"

datatype PrefillNumerics = BackendPreferred | DecodeEquivalent

record PrefillPlan =
  pl_chunk_tokens :: nat
  pl_context_tokens :: nat
  pl_n_head :: nat
  pl_n_head_kv :: nat
  pl_head_dim :: nat
  pl_n_embd :: nat
  pl_n_ff :: nat
  pl_max_matrix_rows :: nat
  pl_numerics :: PrefillNumerics

definition validate_prefill_nonzero ::
  "nat \<Rightarrow> nat \<Rightarrow> nat \<Rightarrow> nat \<Rightarrow> nat \<Rightarrow> nat \<Rightarrow> nat \<Rightarrow> nat \<Rightarrow> (unit, BackendError) outcome" where
  "validate_prefill_nonzero chunk_tokens context_tokens n_head n_head_kv head_dim n_embd n_ff max_matrix_rows =
     and_then (nonzero ''prefill chunk tokens'' chunk_tokens) (\<lambda>_.
     and_then (nonzero ''prefill context tokens'' context_tokens) (\<lambda>_.
     and_then (nonzero ''prefill n_head'' n_head) (\<lambda>_.
     and_then (nonzero ''prefill n_head_kv'' n_head_kv) (\<lambda>_.
     and_then (nonzero ''prefill head_dim'' head_dim) (\<lambda>_.
     and_then (nonzero ''prefill n_embd'' n_embd) (\<lambda>_.
     and_then (nonzero ''prefill n_ff'' n_ff) (\<lambda>_.
     nonzero ''prefill max matrix rows'' max_matrix_rows)))))))"

definition validate_prefill_shapes ::
  "nat \<Rightarrow> nat \<Rightarrow> nat \<Rightarrow> nat \<Rightarrow> nat \<Rightarrow> nat \<Rightarrow> nat \<Rightarrow> (unit, BackendError) outcome" where
  "validate_prefill_shapes chunk_tokens context_tokens n_head n_head_kv n_embd n_ff max_matrix_rows =
     (if context_tokens < chunk_tokens then Err (SizeMismatch ''prefill chunk context'' context_tokens chunk_tokens)
      else if n_head mod n_head_kv \<noteq> 0 then Err (InvalidGqa n_head n_head_kv)
      else
        and_then (checked_size ''prefill weight elements'' (usize_checked_mul n_embd max_matrix_rows)) (\<lambda>_.
        and_then (checked_size ''prefill activation elements'' (usize_checked_mul chunk_tokens (max n_ff n_embd))) (\<lambda>_.
        and_then (checked_size ''prefill attention elements'' (checked_mul3 n_head chunk_tokens context_tokens)) (\<lambda>_.
        Ok ()))))"

definition plan_new ::
  "nat \<Rightarrow> nat \<Rightarrow> nat \<Rightarrow> nat \<Rightarrow> nat \<Rightarrow> nat \<Rightarrow> nat \<Rightarrow> nat \<Rightarrow> (PrefillPlan, BackendError) outcome" where
  "plan_new chunk_tokens context_tokens n_head n_head_kv head_dim n_embd n_ff max_matrix_rows =
     and_then (validate_prefill_nonzero chunk_tokens context_tokens n_head n_head_kv head_dim n_embd n_ff max_matrix_rows) (\<lambda>_.
     and_then (validate_prefill_shapes chunk_tokens context_tokens n_head n_head_kv n_embd n_ff max_matrix_rows) (\<lambda>_.
     Ok \<lparr>pl_chunk_tokens = chunk_tokens, pl_context_tokens = context_tokens, pl_n_head = n_head, pl_n_head_kv = n_head_kv,
         pl_head_dim = head_dim, pl_n_embd = n_embd, pl_n_ff = n_ff, pl_max_matrix_rows = max_matrix_rows,
         pl_numerics = BackendPreferred\<rparr>))"

definition with_numerics :: "PrefillNumerics \<Rightarrow> PrefillPlan \<Rightarrow> PrefillPlan" where
  "with_numerics numerics plan = plan\<lparr>pl_numerics := numerics\<rparr>"

record AttentionShape =
  sh_n_head :: nat
  sh_n_head_kv :: nat
  sh_head_dim :: nat
  sh_max_context :: nat

definition shape_new :: "nat \<Rightarrow> nat \<Rightarrow> nat \<Rightarrow> nat \<Rightarrow> (AttentionShape, BackendError) outcome" where
  "shape_new n_head n_head_kv head_dim max_context =
     and_then (nonzero ''n_head'' n_head) (\<lambda>_.
     and_then (nonzero ''n_head_kv'' n_head_kv) (\<lambda>_.
     and_then (nonzero ''head_dim'' head_dim) (\<lambda>_.
     and_then (nonzero ''max_context'' max_context) (\<lambda>_.
     if n_head mod n_head_kv \<noteq> 0 then Err (InvalidGqa n_head n_head_kv)
     else
       and_then (checked_size ''query elements'' (usize_checked_mul n_head head_dim)) (\<lambda>_.
       and_then (checked_size ''KV elements'' (checked_mul3 n_head_kv max_context head_dim)) (\<lambda>_.
       Ok \<lparr>sh_n_head = n_head, sh_n_head_kv = n_head_kv, sh_head_dim = head_dim, sh_max_context = max_context\<rparr>))))))"

definition query_elements :: "AttentionShape \<Rightarrow> (nat, BackendError) outcome" where
  "query_elements s = checked_size ''query elements'' (usize_checked_mul (sh_n_head s) (sh_head_dim s))"

definition projected_kv_elements :: "AttentionShape \<Rightarrow> (nat, BackendError) outcome" where
  "projected_kv_elements s = checked_size ''projected KV elements'' (usize_checked_mul (sh_n_head_kv s) (sh_head_dim s))"

definition cache_elements :: "AttentionShape \<Rightarrow> (nat, BackendError) outcome" where
  "cache_elements s = checked_size ''KV elements'' (checked_mul3 (sh_n_head_kv s) (sh_max_context s) (sh_head_dim s))"

section \<open>What a checked shape is good for\<close>

lemma checked_size_Ok [simp]: "checked_size field n = Ok v \<longleftrightarrow> n = Some v"
  by (simp add: checked_size_def)

lemma checked_size_no_panic [simp]: "checked_size field n \<noteq> Panic"
  by (simp add: checked_size_def)

lemma checked_mul_Some [simp]: "usize_checked_mul a b = Some c \<longleftrightarrow> a * b < usize_limit \<and> c = a * b"
  by (auto simp: usize_checked_mul_def)

lemma nonzero_Ok [simp]: "nonzero field n = Ok u \<longleftrightarrow> 0 < n"
  by (auto simp: nonzero_def)

lemma divisible_Ok [simp]: "divisible field n d = Ok u \<longleftrightarrow> n mod d = 0"
  by (auto simp: divisible_def)

lemma checked_mul3_Some:
  assumes "0 < a" and "0 < b" and "0 < c"
  shows "checked_mul3 a b c = Some n \<longleftrightarrow> a * b * c < usize_limit \<and> n = a * b * c"
proof -
  have le: "a * b \<le> a * b * c" using assms(3) by simp
  have "a * b < usize_limit" if "a * b * c < usize_limit" using le that by linarith
  then show ?thesis unfolding checked_mul3_def bind_eq_Some_conv by auto
qed

lemma quantized_fits:
  assumes "n < usize_limit"
  shows "n div 256 * block_bytes format < usize_limit"
proof -
  have "n div 256 * block_bytes format \<le> n div 256 * 256" by (cases format) simp_all
  also have "\<dots> \<le> n" by simp
  finally show ?thesis using assms by simp
qed

lemma shape_new_Ok:
  "shape_new n_head n_head_kv head_dim max_context = Ok s \<longleftrightarrow>
     0 < n_head \<and> 0 < n_head_kv \<and> 0 < head_dim \<and> 0 < max_context \<and> n_head mod n_head_kv = 0 \<and>
     n_head * head_dim < usize_limit \<and> n_head_kv * max_context * head_dim < usize_limit \<and>
     s = \<lparr>sh_n_head = n_head, sh_n_head_kv = n_head_kv, sh_head_dim = head_dim, sh_max_context = max_context\<rparr>"
  by (auto simp: shape_new_def and_then_eq_Ok checked_mul3_Some split: if_splits)

text \<open>A checked attention shape never overflows again: the element counts of its query,
  of one projected key or value and of the whole cache all exist; every element count the layout of a quantised matrix needs
  exists once the matrix was accepted, and its bytes are rows times the row bytes.\<close>

theorem checked_shapes_never_overflow:
  "(shape_new n_head n_head_kv head_dim max_context = Ok s \<longrightarrow>
      query_elements s = Ok (n_head * head_dim) \<and> projected_kv_elements s = Ok (n_head_kv * head_dim) \<and>
      cache_elements s = Ok (n_head_kv * max_context * head_dim)) \<and>
    (matrix_new rows columns format = Ok m \<longrightarrow>
      (\<exists>row_bytes layout. matrix_row_bytes m = Ok row_bytes \<and> matrix_layout m = Ok layout \<and>
        bl_elements layout = rows * columns \<and> bl_bytes layout = rows * row_bytes))"
proof (intro conjI impI)
  assume "shape_new n_head n_head_kv head_dim max_context = Ok s"
  then have s: "0 < n_head" "0 < n_head_kv" "0 < head_dim" "0 < max_context" "n_head * head_dim < usize_limit"
    "n_head_kv * max_context * head_dim < usize_limit"
    "s = \<lparr>sh_n_head = n_head, sh_n_head_kv = n_head_kv, sh_head_dim = head_dim, sh_max_context = max_context\<rparr>"
    by (simp_all add: shape_new_Ok)
  have "n_head_kv * head_dim \<le> n_head_kv * max_context * head_dim" using s(4) by simp
  then have "n_head_kv * head_dim < usize_limit" using s(6) by linarith
  then show "query_elements s = Ok (n_head * head_dim)" "projected_kv_elements s = Ok (n_head_kv * head_dim)"
    "cache_elements s = Ok (n_head_kv * max_context * head_dim)"
    using s(1-6) by (simp_all add: s(7) query_elements_def projected_kv_elements_def cache_elements_def checked_mul3_Some)
next
  assume "matrix_new rows columns format = Ok m"
  then have m: "0 < rows" "0 < columns" "columns mod 256 = 0" "rows * columns < usize_limit"
    "m = \<lparr>qm_rows = rows, qm_columns = columns, qm_format = format\<rparr>"
    by (auto simp: matrix_new_def and_then_eq_Ok)
  have "columns \<le> rows * columns" using m(1) by simp
  then have c: "columns div 256 * block_bytes format < usize_limit" using m(4) by (intro quantized_fits) linarith
  have d: "rows * columns div 256 = rows * (columns div 256)" "rows * columns mod 256 = 0"
    using m(3) by (simp_all add: div_mult_swap mod_eq_0_iff_dvd dvd_mult)
  have "rows * columns div 256 * block_bytes format < usize_limit" by (rule quantized_fits [OF m(4)])
  then show "\<exists>row_bytes layout. matrix_row_bytes m = Ok row_bytes \<and> matrix_layout m = Ok layout \<and>
      bl_elements layout = rows * columns \<and> bl_bytes layout = rows * row_bytes"
    using c d m(1,2,4)
    by (intro exI [of _ "columns div 256 * block_bytes format"]
        exI [of _ "\<lparr>bl_storage = format_storage format, bl_elements = rows * columns, bl_bytes = rows * columns div 256 * block_bytes format\<rparr>"])
       (simp add: m(5) matrix_row_bytes_def matrix_layout_def layout_quantized_def nonzero_def divisible_def usize_checked_mul_def checked_size_def mult.assoc)
qed

theorem checked_shapes_never_overflow_witness:
  "cache_elements \<lparr>sh_n_head = 4, sh_n_head_kv = 2, sh_head_dim = 32, sh_max_context = 64\<rparr> = Ok 4096"
  using checked_shapes_never_overflow [of 4 2 32 64 "\<lparr>sh_n_head = 4, sh_n_head_kv = 2, sh_head_dim = 32, sh_max_context = 64\<rparr>" 1 256 FormatQ4K]
  by (simp add: shape_new_Ok)

end
