(* ===== verification/Kv_Spans.thy ===== *)
theory Kv_Spans
  imports Backend_Shapes
begin

text \<open>
  The KV cache spans of \<open>crates/leone/src/backend/kv.rs\<close>: the segments of a cache an
  attention kernel reads (\<open>KvReadSpan\<close>, \<open>KvReadView\<close>) and the one it appends to
  (\<open>KvWriteSpan\<close>). A buffer is a value of an arbitrary type; a borrow of it is the buffer.
  Record prefixes: \<open>ks_\<close> KvReadSpan, \<open>kw_\<close> KvReadView, \<open>kx_\<close> KvWriteSpan.
\<close>

section \<open>Reading\<close>

record 'b KvReadSpan =
  ks_key :: 'b
  ks_value :: 'b
  ks_logical_start :: nat
  ks_tokens :: nat
  ks_capacity_tokens :: nat

text \<open>\<open>NonZeroUsize::new(n).ok_or(Zero)\<close>.\<close>

definition nonzero_size :: "string \<Rightarrow> nat \<Rightarrow> (nat, BackendError) outcome" where
  "nonzero_size field n = ok_or (if n = 0 then None else Some n) (ZeroSize field)"

definition read_span_new :: "'b \<Rightarrow> 'b \<Rightarrow> nat \<Rightarrow> nat \<Rightarrow> nat \<Rightarrow> ('b KvReadSpan, BackendError) outcome" where
  "read_span_new key v logical_start tokens capacity_tokens =
     and_then (nonzero_size ''KV read span tokens'' tokens) (\<lambda>tokens.
     and_then (nonzero_size ''KV read span capacity tokens'' capacity_tokens) (\<lambda>capacity_tokens.
     if capacity_tokens < tokens then Err (SizeMismatch ''KV read span token capacity'' capacity_tokens tokens)
     else
       and_then (checked_size ''KV read span end'' (usize_checked_add logical_start capacity_tokens)) (\<lambda>_.
       Ok \<lparr>ks_key = key, ks_value = v, ks_logical_start = logical_start, ks_tokens = tokens, ks_capacity_tokens = capacity_tokens\<rparr>)))"

definition mapped_end :: "'b KvReadSpan \<Rightarrow> nat" where
  "mapped_end s = usize_add (ks_logical_start s) (ks_tokens s)"

definition capacity_end :: "'b KvReadSpan \<Rightarrow> nat" where
  "capacity_end s = usize_add (ks_logical_start s) (ks_capacity_tokens s)"

record 'b KvReadView =
  kw_spans :: "'b KvReadSpan list"
  kw_mapped_tokens :: nat

text \<open>The loop of \<open>KvReadView::new\<close>, from the address bound reached so far.\<close>

fun check_coverage :: "'b KvReadSpan list \<Rightarrow> nat \<Rightarrow> (nat, BackendError) outcome" where
  "check_coverage [] mapped = Ok mapped"
| "check_coverage (s # ss) mapped =
     (if ks_logical_start s \<noteq> mapped
      then Err (Operation ''construct KV read view'' ''spans must provide ordered gap-free coverage from zero'')
      else and_then (checked_size ''KV read view mapped end'' (usize_checked_add (ks_logical_start s) (ks_tokens s))) (check_coverage ss))"

definition read_view_new :: "'b KvReadSpan list \<Rightarrow> ('b KvReadView, BackendError) outcome" where
  "read_view_new spans = and_then (check_coverage spans 0) (\<lambda>mapped. Ok \<lparr>kw_spans = spans, kw_mapped_tokens = mapped\<rparr>)"

text \<open>\<open>find_map\<close> over the spans.\<close>

fun find_span :: "'b KvReadSpan list \<Rightarrow> nat \<Rightarrow> ('b KvReadSpan \<times> nat) option" where
  "find_span [] position = None"
| "find_span (s # ss) position =
     (case usize_checked_sub position (ks_logical_start s) of
        None \<Rightarrow> find_span ss position
      | Some local \<Rightarrow> if local < ks_tokens s then Some (s, local) else find_span ss position)"

definition span_for_position :: "'b KvReadView \<Rightarrow> nat \<Rightarrow> ('b KvReadSpan \<times> nat) option" where
  "span_for_position view position = find_span (kw_spans view) position"

section \<open>Writing\<close>

record 'b KvWriteSpan =
  kx_key :: 'b
  kx_value :: 'b
  kx_logical_start :: nat
  kx_capacity_tokens :: nat

definition write_span_new :: "'b \<Rightarrow> 'b \<Rightarrow> nat \<Rightarrow> nat \<Rightarrow> ('b KvWriteSpan, BackendError) outcome" where
  "write_span_new key v logical_start capacity_tokens =
     and_then (nonzero_size ''KV write span capacity tokens'' capacity_tokens) (\<lambda>capacity_tokens.
     and_then (checked_size ''KV write span end'' (usize_checked_add logical_start capacity_tokens)) (\<lambda>_.
     Ok \<lparr>kx_key = key, kx_value = v, kx_logical_start = logical_start, kx_capacity_tokens = capacity_tokens\<rparr>))"

definition local_position :: "'b KvWriteSpan \<Rightarrow> nat \<Rightarrow> (nat, BackendError) outcome" where
  "local_position s absolute_position =
     and_then (ok_or (usize_checked_sub absolute_position (kx_logical_start s))
         (Operation ''address KV write span'' ''position precedes span start'')) (\<lambda>local.
     if kx_capacity_tokens s \<le> local then Err (Operation ''address KV write span'' ''position exceeds span capacity'')
     else Ok local)"

definition local_range :: "'b KvWriteSpan \<Rightarrow> nat \<Rightarrow> nat \<Rightarrow> (nat \<times> nat, BackendError) outcome" where
  "local_range s start tokens =
     and_then (ok_or (usize_checked_sub start (kx_logical_start s))
         (Operation ''address KV write span'' ''range precedes span start'')) (\<lambda>local_start.
     and_then (checked_size ''KV write span range end'' (usize_checked_add local_start tokens)) (\<lambda>local_end.
     if kx_capacity_tokens s < local_end then Err (Operation ''address KV write span'' ''range exceeds span capacity'')
     else Ok (local_start, local_end)))"

definition into_parts :: "'b KvWriteSpan \<Rightarrow> 'b \<times> 'b \<times> nat \<times> nat" where
  "into_parts s = (kx_key s, kx_value s, kx_logical_start s, kx_capacity_tokens s)"

section \<open>Coverage\<close>

lemma checked_add_Some [simp]: "usize_checked_add a b = Some c \<longleftrightarrow> a + b < usize_limit \<and> c = a + b"
  by (auto simp: usize_checked_add_def)

lemma checked_sub_Some [simp]: "usize_checked_sub a b = Some c \<longleftrightarrow> b \<le> a \<and> c = a - b"
  by (auto simp: usize_checked_sub_def)

lemma nonzero_size_Ok [simp]: "nonzero_size field n = Ok m \<longleftrightarrow> 0 < n \<and> m = n"
  by (auto simp: nonzero_size_def)

lemma read_span_new_Ok:
  "read_span_new key v start tokens capacity = Ok s \<longleftrightarrow> 0 < tokens \<and> tokens \<le> capacity \<and> start + capacity < usize_limit \<and>
     s = \<lparr>ks_key = key, ks_value = v, ks_logical_start = start, ks_tokens = tokens, ks_capacity_tokens = capacity\<rparr>"
  by (auto simp: read_span_new_def and_then_eq_Ok split: if_splits)

lemma write_span_new_Ok:
  "write_span_new key v start capacity = Ok s \<longleftrightarrow> 0 < capacity \<and> start + capacity < usize_limit \<and>
     s = \<lparr>kx_key = key, kx_value = v, kx_logical_start = start, kx_capacity_tokens = capacity\<rparr>"
  by (auto simp: write_span_new_def and_then_eq_Ok)

text \<open>The tokens a list of spans maps, each as the key buffer and the row in it.\<close>

definition span_rows :: "'b KvReadSpan list \<Rightarrow> ('b \<times> nat) list" where
  "span_rows ss = concat (map (\<lambda>s. map (\<lambda>i. (ks_key s, i)) [0..<ks_tokens s]) ss)"

lemma span_rows_simps [simp]:
  "span_rows [] = []" "span_rows (s # ss) = map (\<lambda>i. (ks_key s, i)) [0..<ks_tokens s] @ span_rows ss"
  by (simp_all add: span_rows_def)

lemma length_span_rows: "length (span_rows ss) = sum_list (map ks_tokens ss)"
  by (induction ss) auto

lemma check_coverage_Ok:
  "check_coverage ss mapped = Ok m \<Longrightarrow> m = mapped + length (span_rows ss)"
proof (induction ss arbitrary: mapped)
  case (Cons s ss)
  then have "ks_logical_start s = mapped" "check_coverage ss (mapped + ks_tokens s) = Ok m"
    by (auto simp: and_then_eq_Ok split: if_splits)
  with Cons.IH show ?case by fastforce
qed simp

lemma find_span_covered:
  assumes "check_coverage ss mapped = Ok m" and "mapped \<le> position"
  shows "map_option (\<lambda>(s, local). (ks_key s, local)) (find_span ss position) =
    (if position < m then Some (span_rows ss ! (position - mapped)) else None)"
  using assms
proof (induction ss arbitrary: mapped)
  case Nil
  then show ?case by simp
next
  case (Cons s ss)
  have s: "ks_logical_start s = mapped" "check_coverage ss (mapped + ks_tokens s) = Ok m"
    using Cons.prems(1) by (auto simp: and_then_eq_Ok split: if_splits)
  have m: "m = mapped + ks_tokens s + length (span_rows ss)" using check_coverage_Ok [OF s(2)] by simp
  have le: "ks_logical_start s \<le> position" using Cons.prems(2) s(1) by simp
  show ?case
  proof (cases "position - mapped < ks_tokens s")
    case True
    then show ?thesis using le s(1) m by (simp add: nth_append usize_checked_sub_def)
  next
    case False
    then have "mapped + ks_tokens s \<le> position" using Cons.prems(2) by linarith
    from Cons.IH [OF s(2) this] show ?thesis
      using False le s(1) by (simp add: nth_append usize_checked_sub_def)
  qed
qed

text \<open>A read view that was accepted finds, for every mapped token address, the span and
  the row of it that the concatenation of the spans has at that address, and nothing past
  its bound; the bound is the number of rows.\<close>

theorem read_view_lookup:
  assumes "read_view_new spans = Ok view"
  shows "map_option (\<lambda>(s, local). (ks_key s, local)) (span_for_position view position) =
      (if position < kw_mapped_tokens view then Some (span_rows spans ! position) else None) \<and>
    kw_mapped_tokens view = length (span_rows spans)"
proof -
  obtain m where m: "check_coverage spans 0 = Ok m" "view = \<lparr>kw_spans = spans, kw_mapped_tokens = m\<rparr>"
    using assms by (auto simp: read_view_new_def and_then_eq_Ok)
  show ?thesis
    using find_span_covered [OF m(1), of position] check_coverage_Ok [OF m(1)] by (simp add: m(2) span_for_position_def)
qed

theorem read_view_lookup_witness:
  "let span = (\<lambda>b start n. \<lparr>ks_key = b, ks_value = b, ks_logical_start = start, ks_tokens = n, ks_capacity_tokens = 8\<rparr>)
   in \<exists>view. read_view_new [span ''a'' 0 3, span ''b'' 3 2] = Ok view \<and>
     map_option (\<lambda>(s, local). (ks_key s, local)) (span_for_position view 4) = Some (''b'', 1)"
proof -
  let ?span = "\<lambda>b start n. \<lparr>ks_key = b, ks_value = b, ks_logical_start = start, ks_tokens = n, ks_capacity_tokens = 8\<rparr>"
  have v: "read_view_new [?span ''a'' 0 3, ?span ''b'' 3 2] =
      Ok \<lparr>kw_spans = [?span ''a'' 0 3, ?span ''b'' 3 2], kw_mapped_tokens = 5\<rparr>"
    by (simp add: read_view_new_def checked_size_def usize_checked_add_def)
  show ?thesis
    using read_view_lookup [OF v, of 4] v by (simp add: numeral_eq_Suc upt_rec)
qed

end
