(* ===== verification/Kv_Store.thy ===== *)
theory Kv_Store
  imports Kv_Spans
begin

text \<open>
  The segmented KV cache of \<open>crates/leone/src/kv.rs\<close>. A \<open>KvState\<close> is a list of segments,
  each a window on a physical storage held by an \<open>Rc\<close>; a fork shares the storages. What
  the code does not hold itself is a parameter: \<open>KvBackend\<close> has the calls on the device
  backend, the host allocator (\<open>try_reserve_exact\<close>) and the address a new \<open>Rc\<close> gets, all
  over a world of type \<open>'x\<close>. \<open>Rc::get_mut\<close> succeeds when no other \<open>Rc\<close> points to the
  storage: that is the argument \<open>unique\<close>, a predicate on addresses, which one call does not
  change (the segments of a state have different storages). Vector lengths and indices are
  natural numbers; \<open>Vec::capacity\<close> and \<open>size_of\<close> are arguments where the code reads them.
  Record prefixes: \<open>kl_\<close> KvLayer, \<open>st_\<close> KvStorage, \<open>sg_\<close> KvSegment, \<open>ar_\<close> KvAppendRange,
  \<open>gr_\<close> KvGraphRevision, \<open>kv_\<close> KvState, \<open>rb_\<close> KvAppendRollback, \<open>sn_\<close> KvSnapshot, \<open>ss_\<close>
  KvSnapshotSegment, \<open>kb_\<close> KvBackend, \<open>sz_\<close> the sizes of the types.
\<close>

section \<open>Data\<close>

record KvGraphRevision =
  gr_layout :: u64
  gr_generation :: u64

record 'b KvLayer =
  kl_key :: 'b
  kl_value :: 'b

record 'b KvStorage =
  st_address :: nat
  st_capacity_tokens :: nat
  st_bytes :: u64
  st_layers :: "'b KvLayer list"

record 'b KvSegment =
  sg_logical_start :: nat
  sg_committed_tokens :: nat
  sg_storage :: "'b KvStorage"

record KvAppendRange =
  ar_start :: nat
  ar_tokens :: nat
  ar_segment_index :: nat

record 'b KvState =
  kv_segments :: "'b KvSegment list"
  kv_position :: nat
  kv_device_position :: 'b
  kv_shape :: AttentionShape
  kv_dtype :: KvCacheDtype
  kv_revision :: u64
  kv_graph_revision :: "KvGraphRevision option"
  kv_pending :: "KvAppendRange option"

record 'b KvAppendRollback =
  rb_position :: nat
  rb_shape :: AttentionShape
  rb_revision :: u64
  rb_graph_revision :: "KvGraphRevision option"
  rb_pending :: "KvAppendRange option"
  rb_len :: nat
  rb_committed :: "nat list"
  rb_removed :: "'b KvSegment list"

record KvSnapshotSegment =
  ss_logical_start :: nat
  ss_committed_tokens :: nat
  ss_capacity_tokens :: nat
  ss_layers :: "(BufferSnapshot \<times> BufferSnapshot) list"

record KvSnapshot =
  sn_segments :: "KvSnapshotSegment list"
  sn_position :: nat
  sn_device_position :: BufferSnapshot
  sn_shape :: AttentionShape
  sn_dtype :: KvCacheDtype

record ('x, 'b) KvBackend =
  kb_reserve :: "nat \<Rightarrow> 'x \<Rightarrow> (unit, string) outcome \<times> 'x"
  kb_new_rc :: "'x \<Rightarrow> nat \<times> 'x"
  kb_allocate :: "BufferLayout \<Rightarrow> MemoryClass \<Rightarrow> 'x \<Rightarrow> ('b, BackendError) outcome \<times> 'x"
  kb_clone :: "'b \<Rightarrow> 'x \<Rightarrow> ('b, BackendError) outcome \<times> 'x"
  kb_download :: "'b \<Rightarrow> 'x \<Rightarrow> (BufferSnapshot, BackendError) outcome \<times> 'x"
  kb_restore :: "BufferSnapshot \<Rightarrow> MemoryClass \<Rightarrow> 'x \<Rightarrow> ('b, BackendError) outcome \<times> 'x"

section \<open>Calls on the world\<close>

text \<open>A call on the world in a method whose state is \<open>'s\<close>.\<close>

definition on_world :: "('x \<Rightarrow> ('a, 'e) outcome \<times> 'x) \<Rightarrow> 's \<times> 'x \<Rightarrow> ('a, 'e) outcome \<times> 's \<times> 'x" where
  "on_world f m = (case f (snd m) of (r, x) \<Rightarrow> (r, fst m, x))"

definition reserve_vec :: "('x, 'b) KvBackend \<Rightarrow> nat \<Rightarrow> string \<Rightarrow> 'x \<Rightarrow> (unit, BackendError) outcome \<times> 'x" where
  "reserve_vec B additional operation x = (case kb_reserve B additional x of (r, y) \<Rightarrow> (map_err (Operation operation) r, y))"

text \<open>A call on the state alone.\<close>

definition on_kv :: "('s \<Rightarrow> ('a, 'e) outcome \<times> 's) \<Rightarrow> 's \<times> 'x \<Rightarrow> ('a, 'e) outcome \<times> 's \<times> 'x" where
  "on_kv f m = (case f (fst m) of (r, s) \<Rightarrow> (r, s, snd m))"

section \<open>Creation, shape and queries\<close>

definition kv_new ::
  "('x, 'b) KvBackend \<Rightarrow> nat \<Rightarrow> AttentionShape \<Rightarrow> KvCacheDtype \<Rightarrow> 'x \<Rightarrow> ('b KvState, BackendError) outcome \<times> 'x" where
  "kv_new B layers shape dtype x =
     try_pure (layout_u32 1) x (\<lambda>layout.
     try_st (kb_allocate B layout KvCache x) (\<lambda>device_position x1.
     (Ok \<lparr>kv_segments = [], kv_position = 0, kv_device_position = device_position, kv_shape = shape, kv_dtype = dtype,
          kv_revision = 0, kv_graph_revision = None, kv_pending = None\<rparr>, x1)))"

definition has_compatible_layout :: "AttentionShape \<Rightarrow> 'b KvState \<Rightarrow> bool" where
  "has_compatible_layout shape s \<longleftrightarrow>
     sh_n_head (kv_shape s) = sh_n_head shape \<and> sh_n_head_kv (kv_shape s) = sh_n_head_kv shape \<and>
     sh_head_dim (kv_shape s) = sh_head_dim shape"

definition can_grow_to :: "AttentionShape \<Rightarrow> 'b KvState \<Rightarrow> bool" where
  "can_grow_to shape s \<longleftrightarrow> has_compatible_layout shape s \<and> sh_max_context (kv_shape s) \<le> sh_max_context shape"

definition can_retain_at :: "AttentionShape \<Rightarrow> 'b KvState \<Rightarrow> bool" where
  "can_retain_at shape s \<longleftrightarrow> has_compatible_layout shape s \<and> kv_position s \<le> sh_max_context shape"

definition next_revision :: "u64 \<Rightarrow> 'b KvState \<Rightarrow> (u64, BackendError) outcome" where
  "next_revision increments s = ok_or (checked_add (kv_revision s) increments) (SizeOverflow ''KV layout revision'')"

definition stage_shape_growth :: "AttentionShape \<Rightarrow> 'b KvState \<Rightarrow> (unit, BackendError) outcome \<times> 'b KvState" where
  "stage_shape_growth shape s =
     (if shape = kv_shape s then (Ok (), s)
      else if \<not> can_grow_to shape s
      then (Err (Operation ''grow KV state'' ''the requested shape changes the KV layout or shrinks its context''), s)
      else try_pure (next_revision 1 s) s (\<lambda>revision.
        (Ok (), s\<lparr>kv_revision := revision, kv_shape := shape, kv_graph_revision := None\<rparr>)))"

definition check_append_end :: "nat \<Rightarrow> 'b KvState \<Rightarrow> (unit, BackendError) outcome" where
  "check_append_end tokens s =
     and_then (checked_size ''KV append end'' (usize_checked_add (kv_position s) tokens)) (\<lambda>last_position.
     if sh_max_context (kv_shape s) < last_position
     then Err (PositionOutOfBounds last_position (sh_max_context (kv_shape s))) else Ok ())"

section \<open>Rollback\<close>

definition capture_append_rollback ::
  "('x, 'b) KvBackend \<Rightarrow> 'b KvState \<times> 'x \<Rightarrow> ('b KvAppendRollback, BackendError) outcome \<times> 'b KvState \<times> 'x" where
  "capture_append_rollback B m =
     (let s = fst m; n = length (kv_segments s) in
      try_st (on_world (reserve_vec B n ''allocate KV rollback tokens'') m) (\<lambda>_ m1.
      try_st (on_world (reserve_vec B n ''allocate KV rollback segments'') m1) (\<lambda>_ m2.
      (Ok \<lparr>rb_position = kv_position s, rb_shape = kv_shape s, rb_revision = kv_revision s,
           rb_graph_revision = kv_graph_revision s, rb_pending = kv_pending s, rb_len = n,
           rb_committed = map sg_committed_tokens (kv_segments s), rb_removed = []\<rparr>, m2))))"

text \<open>\<open>segments.iter_mut().zip(committed)\<close>, setting the committed tokens of each.\<close>

fun set_committed :: "'b KvSegment list \<Rightarrow> nat list \<Rightarrow> 'b KvSegment list" where
  "set_committed (g # gs) (n # ns) = g\<lparr>sg_committed_tokens := n\<rparr> # set_committed gs ns"
| "set_committed gs ns = gs"

definition restore_append_position :: "'b KvAppendRollback \<Rightarrow> 'b KvState \<Rightarrow> 'b KvState" where
  "restore_append_position rb s =
     (let survivor_len = rb_len rb - length (rb_removed rb);
          survivors = set_committed (take survivor_len (kv_segments s)) (rb_committed rb)
      in s\<lparr>kv_segments := survivors @ rev (rb_removed rb), kv_position := rb_position rb, kv_shape := rb_shape rb,
           kv_revision := rb_revision rb, kv_graph_revision := rb_graph_revision rb, kv_pending := rb_pending rb\<rparr>)"

text \<open>Methods that take \<open>&mut self\<close> and \<open>&mut rollback\<close> work on the pair of both.\<close>

definition push_removed :: "'b KvSegment \<Rightarrow> 'b KvAppendRollback \<Rightarrow> 'b KvAppendRollback" where
  "push_removed g rb = rb\<lparr>rb_removed := rb_removed rb @ [g]\<rparr>"

definition detach_pending :: "'b KvState \<times> 'b KvAppendRollback \<Rightarrow> bool \<times> 'b KvState \<times> 'b KvAppendRollback" where
  "detach_pending m =
     (case m of (s, rb) \<Rightarrow>
        case kv_pending s of
          None \<Rightarrow> (False, s, rb)
        | Some target \<Rightarrow>
            let s1 = s\<lparr>kv_pending := None\<rparr>; segments = kv_segments s in
            if segments \<noteq> [] \<and> ar_segment_index target = length segments - 1 \<and> sg_committed_tokens (last segments) = 0
            then (True, s1\<lparr>kv_segments := butlast segments\<rparr>, push_removed (last segments) rb)
            else (True, s1, rb))"

function remove_segments_at_or_after ::
  "nat \<Rightarrow> 'b KvState \<times> 'b KvAppendRollback \<Rightarrow> bool \<times> 'b KvState \<times> 'b KvAppendRollback" where
  "remove_segments_at_or_after position (s, rb) =
     (if kv_segments s \<noteq> [] \<and> position \<le> sg_logical_start (last (kv_segments s))
      then (case remove_segments_at_or_after position
              (s\<lparr>kv_segments := butlast (kv_segments s)\<rparr>, push_removed (last (kv_segments s)) rb) of (_, m) \<Rightarrow> (True, m))
      else (False, s, rb))"
  by pat_completeness auto
termination
  by (relation "measure (\<lambda>(position, s, rb). length (kv_segments s))") auto

definition shorten_tail :: "nat \<Rightarrow> 'b KvState \<Rightarrow> bool \<times> 'b KvState" where
  "shorten_tail position s =
     (if kv_segments s = [] then (False, s)
      else let g = last (kv_segments s); visible = position - sg_logical_start g in
        if visible < sg_committed_tokens g
        then (True, s\<lparr>kv_segments := butlast (kv_segments s) @ [g\<lparr>sg_committed_tokens := visible\<rparr>]\<rparr>)
        else (False, s))"

definition finish_staged_revision ::
  "'b KvAppendRollback \<Rightarrow> u64 \<Rightarrow> 'b KvState \<Rightarrow> ('b KvAppendRollback, BackendError) outcome \<times> 'b KvState" where
  "finish_staged_revision rb increments s =
     (if increments = 0 then (Ok rb, s)
      else case checked_add (kv_revision s) increments of
        None \<Rightarrow> (Err (SizeOverflow ''KV layout revision''), restore_append_position rb s)
      | Some revision \<Rightarrow> (Ok rb, s\<lparr>kv_revision := revision\<rparr>))"

section \<open>The append target\<close>

definition pending_target_writable :: "(nat \<Rightarrow> bool) \<Rightarrow> KvAppendRange \<Rightarrow> 'b KvState \<Rightarrow> bool" where
  "pending_target_writable unique target s =
     (if ar_segment_index target < length (kv_segments s)
      then let g = kv_segments s ! ar_segment_index target in
        case usize_checked_sub (ar_start target) (sg_logical_start g) of
          None \<Rightarrow> False
        | Some local_start \<Rightarrow>
            unique (st_address (sg_storage g)) \<and>
            (case usize_checked_add local_start (ar_tokens target) of
               None \<Rightarrow> False
             | Some last_row \<Rightarrow> last_row \<le> st_capacity_tokens (sg_storage g))
      else False)"

definition pending_reusable_at :: "(nat \<Rightarrow> bool) \<Rightarrow> nat \<Rightarrow> nat \<Rightarrow> 'b KvState \<Rightarrow> bool" where
  "pending_reusable_at unique position tokens s =
     (case kv_pending s of
        None \<Rightarrow> False
      | Some target \<Rightarrow> position = kv_position s \<and> ar_start target = position \<and> ar_tokens target = tokens \<and>
          pending_target_writable unique target s)"

definition reusable_tail :: "(nat \<Rightarrow> bool) \<Rightarrow> nat \<Rightarrow> 'b KvState \<Rightarrow> (nat \<times> nat) option" where
  "reusable_tail unique tokens s =
     (if kv_segments s = [] then None
      else let index = length (kv_segments s) - 1; g = kv_segments s ! index in
        if usize_add (sg_logical_start g) (sg_committed_tokens g) \<noteq> kv_position s then None
        else if \<not> unique (st_address (sg_storage g)) then None
        else case usize_checked_sub (st_capacity_tokens (sg_storage g)) (sg_committed_tokens g) of
          None \<Rightarrow> None
        | Some remaining \<Rightarrow> if tokens \<le> remaining then Some (index, remaining) else None)"

definition retarget_pending ::
  "(nat \<Rightarrow> bool) \<Rightarrow> KvAppendRange \<Rightarrow> nat \<Rightarrow> 'b KvState \<Rightarrow> (KvAppendRange option, BackendError) outcome \<times> 'b KvState" where
  "retarget_pending unique pending tokens s =
     (let target = pending\<lparr>ar_tokens := tokens\<rparr> in
      if \<not> pending_target_writable unique target s then (Ok None, s)
      else try_pure (next_revision 1 s) s (\<lambda>revision.
        (Ok (Some target), s\<lparr>kv_pending := Some target, kv_revision := revision\<rparr>)))"

definition discard_pending_with_rollback ::
  "'b KvState \<times> 'b KvAppendRollback \<Rightarrow> (unit, BackendError) outcome \<times> 'b KvState \<times> 'b KvAppendRollback" where
  "discard_pending_with_rollback m =
     (if kv_pending (fst m) = None then (Ok (), m)
      else try_pure (next_revision 1 (fst m)) m (\<lambda>revision.
        case detach_pending m of (_, s, rb) \<Rightarrow> (Ok (), s\<lparr>kv_pending := None, kv_revision := revision\<rparr>, rb)))"

definition pending_append ::
  "(nat \<Rightarrow> bool) \<Rightarrow> nat \<Rightarrow> 'b KvState \<times> 'b KvAppendRollback
    \<Rightarrow> (KvAppendRange option, BackendError) outcome \<times> 'b KvState \<times> 'b KvAppendRollback" where
  "pending_append unique tokens m =
     (let still_pending = (\<lambda>m. if kv_pending (fst m) \<noteq> None
            then (Err (Operation ''prepare KV append'' ''another append target is pending''), m) else (Ok None, m))
      in case kv_pending (fst m) of
        None \<Rightarrow> (Ok None, m)
      | Some pending \<Rightarrow>
          if ar_start pending = kv_position (fst m) then
            if ar_tokens pending = tokens \<and> pending_target_writable unique pending (fst m) then (Ok (Some pending), m)
            else
              try_st (if ar_tokens pending \<noteq> tokens
                      then (case retarget_pending unique pending tokens (fst m) of (r, s) \<Rightarrow> (r, s, snd m))
                      else (Ok None, m)) (\<lambda>retargeted m1.
              case retargeted of
                Some target \<Rightarrow> (Ok (Some target), m1)
              | None \<Rightarrow> try_st (discard_pending_with_rollback m1) (\<lambda>_ m2. still_pending m2))
          else still_pending m)"

section \<open>Allocating a segment\<close>

definition dtype_capacity :: "nat \<Rightarrow> nat \<Rightarrow> 'b KvState \<Rightarrow> (nat, BackendError) outcome" where
  "dtype_capacity requested remaining s =
     (if kv_dtype s = DtypeQ8 \<and> sh_head_dim (kv_shape s) mod 32 \<noteq> 0
      then Err (NotDivisible ''Q8 KV head dimension'' (sh_head_dim (kv_shape s)) 32)
      else if remaining < requested
      then Err (Operation ''allocate KV segment'' ''the physical capacity cannot hold complete KV blocks within context'')
      else nonzero_size ''KV segment capacity'' requested)"

definition storage_layout :: "nat \<Rightarrow> nat \<Rightarrow> 'b KvState \<Rightarrow> (BufferLayout \<times> u64, BackendError) outcome" where
  "storage_layout layers capacity s =
     and_then (checked_size ''KV segment elements'' (checked_mul3 (sh_n_head_kv (kv_shape s)) capacity (sh_head_dim (kv_shape s)))) (\<lambda>elements.
     and_then (dtype_layout (kv_dtype s) elements) (\<lambda>layout.
     and_then (size_u64 ''KV segment bytes'' (bl_bytes layout)) (\<lambda>bytes_per_layer.
     and_then (size_u64 ''KV layer count'' layers) (\<lambda>layer_count.
     and_then (ok_or (Option.bind (checked_mul bytes_per_layer layer_count) (\<lambda>v. checked_mul v 2)) (SizeOverflow ''KV segment bytes'')) (\<lambda>bytes.
     Ok (layout, bytes))))))"

fun allocate_each :: "('x, 'b) KvBackend \<Rightarrow> BufferLayout \<Rightarrow> nat \<Rightarrow> 'x \<Rightarrow> ('b KvLayer list, BackendError) outcome \<times> 'x" where
  "allocate_each B layout 0 x = (Ok [], x)"
| "allocate_each B layout (Suc n) x =
     try_st (kb_allocate B layout KvCache x) (\<lambda>key x1.
     try_st (kb_allocate B layout KvCache x1) (\<lambda>v x2.
     try_st (allocate_each B layout n x2) (\<lambda>layers x3. (Ok (\<lparr>kl_key = key, kl_value = v\<rparr> # layers), x3))))"

definition allocate_layers ::
  "('x, 'b) KvBackend \<Rightarrow> BufferLayout \<Rightarrow> nat \<Rightarrow> 'x \<Rightarrow> ('b KvLayer list, BackendError) outcome \<times> 'x" where
  "allocate_layers B layout layers x =
     try_st (reserve_vec B layers ''allocate KV layers'' x) (\<lambda>_ x1. allocate_each B layout layers x1)"

text \<open>\<open>allocate_storage\<close> and the \<open>Rc::new\<close> around it, which gives the storage its address.\<close>

definition allocate_storage ::
  "('x, 'b) KvBackend \<Rightarrow> nat \<Rightarrow> nat \<Rightarrow> 'b KvState \<Rightarrow> 'x \<Rightarrow> ('b KvStorage, BackendError) outcome \<times> 'x" where
  "allocate_storage B layers capacity s x =
     try_pure (storage_layout layers capacity s) x (\<lambda>(layout, bytes).
     try_st (allocate_layers B layout layers x) (\<lambda>storage_layers x1.
     try_pure (nonzero_size ''KV segment capacity'' capacity) x1 (\<lambda>capacity_tokens.
     case kb_new_rc B x1 of (address, x2) \<Rightarrow>
       (Ok \<lparr>st_address = address, st_capacity_tokens = capacity_tokens, st_bytes = bytes, st_layers = storage_layers\<rparr>, x2))))"

definition allocate_append ::
  "('x, 'b) KvBackend \<Rightarrow> nat \<Rightarrow> nat \<Rightarrow> nat \<Rightarrow> 'b KvState \<times> 'x \<Rightarrow> (KvAppendRange, BackendError) outcome \<times> 'b KvState \<times> 'x" where
  "allocate_append B layers tokens growth_tokens m =
     (let s = fst m in
      try_pure (next_revision 1 s) m (\<lambda>revision.
      try_pure (checked_size ''KV remaining context'' (usize_checked_sub (sh_max_context (kv_shape s)) (kv_position s))) m (\<lambda>remaining.
      let requested_capacity = max (max growth_tokens tokens) 1 in
      try_pure (dtype_capacity (min requested_capacity remaining) remaining s) m (\<lambda>capacity.
      try_st (on_world (reserve_vec B 1 ''allocate KV segments'') m) (\<lambda>_ m1.
      try_st (on_world (allocate_storage B layers capacity s) m1) (\<lambda>storage m2.
      let target = \<lparr>ar_start = kv_position s, ar_tokens = tokens, ar_segment_index = length (kv_segments s)\<rparr>
      in (Ok target,
          s\<lparr>kv_segments := kv_segments s @ [\<lparr>sg_logical_start = kv_position s, sg_committed_tokens = 0, sg_storage = storage\<rparr>],
            kv_pending := Some target, kv_revision := revision\<rparr>, snd m2)))))))"

section \<open>Preparing an append\<close>

definition prepare_append_staged ::
  "('x, 'b) KvBackend \<Rightarrow> (nat \<Rightarrow> bool) \<Rightarrow> nat \<Rightarrow> nat \<Rightarrow> nat \<Rightarrow> ('b KvState \<times> 'b KvAppendRollback) \<times> 'x
    \<Rightarrow> (KvAppendRange, BackendError) outcome \<times> ('b KvState \<times> 'b KvAppendRollback) \<times> 'x" where
  "prepare_append_staged B unique layers tokens growth_tokens m =
     try_st (on_kv (pending_append unique tokens) m) (\<lambda>pending m1.
     case pending of
       Some target \<Rightarrow> (Ok target, m1)
     | None \<Rightarrow>
         (case reusable_tail unique tokens (fst (fst m1)) of
            Some (segment_index, _) \<Rightarrow>
              let s = fst (fst m1); target = \<lparr>ar_start = kv_position s, ar_tokens = tokens, ar_segment_index = segment_index\<rparr>
              in (Ok target, (s\<lparr>kv_pending := Some target\<rparr>, snd (fst m1)), snd m1)
          | None \<Rightarrow>
              (case allocate_append B layers tokens growth_tokens (fst (fst m1), snd m1) of
                 (r, s, x) \<Rightarrow> (r, (s, snd (fst m1)), x))))"

definition prepare_append ::
  "('x, 'b) KvBackend \<Rightarrow> (nat \<Rightarrow> bool) \<Rightarrow> nat \<Rightarrow> nat \<Rightarrow> nat \<Rightarrow> 'b KvState \<times> 'x
    \<Rightarrow> (KvAppendRange, BackendError) outcome \<times> 'b KvState \<times> 'x" where
  "prepare_append B unique layers tokens growth_tokens m =
     try_pure (nonzero_size ''KV append tokens'' tokens) m (\<lambda>tokens.
     try_pure (check_append_end tokens (fst m)) m (\<lambda>_.
     try_st (capture_append_rollback B m) (\<lambda>rollback m1.
     case prepare_append_staged B unique layers tokens growth_tokens ((fst m1, rollback), snd m1) of
       (Ok target, (s, _), x) \<Rightarrow> (Ok target, s, x)
     | (Err e, (s, rb), x) \<Rightarrow> (Err e, restore_append_position rb s, x)
     | (Panic, (s, _), x) \<Rightarrow> (Panic, s, x))))"

text \<open>The cut shared by \<open>stage_append_position\<close> and \<open>truncate\<close>: detach, remove, shorten.\<close>

definition cut_at ::
  "nat \<Rightarrow> 'b KvState \<times> 'b KvAppendRollback \<Rightarrow> bool \<times> bool \<times> bool \<times> 'b KvState \<times> 'b KvAppendRollback" where
  "cut_at position m =
     (case detach_pending m of (pending_removed, m1) \<Rightarrow>
      case remove_segments_at_or_after position m1 of (removed_segments, s, rb) \<Rightarrow>
      case shorten_tail position s of (shortened_tail, s1) \<Rightarrow>
        (pending_removed, removed_segments, shortened_tail, s1, rb))"

definition bool_u64 :: "bool \<Rightarrow> u64" where
  "bool_u64 b = (if b then 1 else 0)"

definition stage_append_position ::
  "('x, 'b) KvBackend \<Rightarrow> (nat \<Rightarrow> bool) \<Rightarrow> nat \<Rightarrow> nat \<Rightarrow> 'b KvState \<times> 'x
    \<Rightarrow> ('b KvAppendRollback, BackendError) outcome \<times> 'b KvState \<times> 'x" where
  "stage_append_position B unique position tokens m =
     (if kv_position (fst m) < position then (Err (PositionOutOfBounds position (kv_position (fst m))), m)
      else try_st (capture_append_rollback B m) (\<lambda>rollback m1.
        let (pending_removed, removed_segments, shortened_tail, s, rb) =
              (if pending_reusable_at unique position tokens (fst m1) then (False, False, False, fst m1, rollback)
               else cut_at position (fst m1, rollback));
            changed = pending_removed \<or> removed_segments \<or> shortened_tail;
            s1 = s\<lparr>kv_position := position\<rparr>
        in try_pure (ok_or (checked_add (bool_u64 pending_removed) (bool_u64 (changed \<or> rb_position rb = position)))
               (SizeOverflow ''KV layout revision'')) (s1, snd m1) (\<lambda>increments.
           on_kv (finish_staged_revision rb increments) (s1, snd m1))))"

definition prepare_append_at ::
  "('x, 'b) KvBackend \<Rightarrow> (nat \<Rightarrow> bool) \<Rightarrow> nat \<Rightarrow> nat \<Rightarrow> nat \<Rightarrow> nat \<Rightarrow> 'b KvState \<times> 'x
    \<Rightarrow> (KvAppendRange, BackendError) outcome \<times> 'b KvState \<times> 'x" where
  "prepare_append_at B unique layers position tokens growth_tokens m =
     try_st (stage_append_position B unique position tokens m) (\<lambda>rollback m1.
     case prepare_append B unique layers tokens growth_tokens m1 of
       (Ok target, m2) \<Rightarrow> (Ok target, m2)
     | (Err e, s, x) \<Rightarrow> (Err e, restore_append_position rollback s, x)
     | (Panic, m2) \<Rightarrow> (Panic, m2))"

definition truncate :: "('x, 'b) KvBackend \<Rightarrow> nat \<Rightarrow> 'b KvState \<times> 'x \<Rightarrow> (unit, BackendError) outcome \<times> 'b KvState \<times> 'x" where
  "truncate B position m =
     (if kv_position (fst m) < position then (Err (PositionOutOfBounds position (kv_position (fst m))), m)
      else let old_position = kv_position (fst m) in
        try_st (capture_append_rollback B m) (\<lambda>rollback m1.
        let (pending_removed, removed_segments, shortened_tail, s, rb) = cut_at position (fst m1, rollback);
            changed = pending_removed \<or> removed_segments \<or> shortened_tail;
            s1 = s\<lparr>kv_position := position\<rparr>
        in try_pure (ok_or (checked_add (bool_u64 pending_removed) (bool_u64 (changed \<or> old_position = position)))
               (SizeOverflow ''KV layout revision'')) (s1, snd m1) (\<lambda>increments.
           try_st (on_kv (finish_staged_revision rb increments) (s1, snd m1)) (\<lambda>_ m2. (Ok (), m2)))))"

definition prepare_shape_transition ::
  "('x, 'b) KvBackend \<Rightarrow> (nat \<Rightarrow> bool) \<Rightarrow> nat \<Rightarrow> AttentionShape \<Rightarrow> nat \<Rightarrow> (nat \<times> nat) option \<Rightarrow> 'b KvState \<times> 'x
    \<Rightarrow> (unit, BackendError) outcome \<times> 'b KvState \<times> 'x" where
  "prepare_shape_transition B unique layers shape position first_append m =
     try_st (capture_append_rollback B m) (\<lambda>rollback m1.
     case on_kv (stage_shape_growth shape) m1 of
       (Err e, s, x) \<Rightarrow> (Err e, restore_append_position rollback s, x)
     | (Panic, m2) \<Rightarrow> (Panic, m2)
     | (Ok _, m2) \<Rightarrow>
         (case (case first_append of
                  Some (tokens, growth_tokens) \<Rightarrow>
                    try_st (prepare_append_at B unique layers position tokens growth_tokens m2) (\<lambda>_ m3. (Ok (), m3))
                | None \<Rightarrow> truncate B position m2) of
            (Err e, s, x) \<Rightarrow> (Err e, restore_append_position rollback s, x)
          | (r, m3) \<Rightarrow> (r, m3)))"

section \<open>Writing, reading, committing\<close>

definition get_or :: "'a list \<Rightarrow> nat \<Rightarrow> BackendError \<Rightarrow> ('a, BackendError) outcome" where
  "get_or xs i e = ok_or (if i < length xs then Some (xs ! i) else None) e"

definition write_span :: "(nat \<Rightarrow> bool) \<Rightarrow> nat \<Rightarrow> KvAppendRange \<Rightarrow> 'b KvState \<Rightarrow> ('b KvWriteSpan, BackendError) outcome" where
  "write_span unique layer target s =
     (if kv_pending s \<noteq> Some target then Err (Operation ''write KV span'' ''the append target is not pending'')
      else
        and_then (get_or (kv_segments s) (ar_segment_index target) (Operation ''write KV span'' ''segment is missing'')) (\<lambda>segment.
        if \<not> unique (st_address (sg_storage segment)) then Err (Operation ''write KV span'' ''the append segment is shared'')
        else
          and_then (get_or (st_layers (sg_storage segment)) layer (Operation ''write KV span'' ''layer is missing'')) (\<lambda>layer.
          write_span_new (kl_key layer) (kl_value layer) (sg_logical_start segment) (st_capacity_tokens (sg_storage segment)))))"

text \<open>The loop over \<open>segments.iter().enumerate()\<close> from \<open>index\<close> on.\<close>

fun collect_spans :: "nat \<Rightarrow> KvAppendRange option \<Rightarrow> nat \<Rightarrow> 'b KvSegment list \<Rightarrow> ('b KvReadSpan list, BackendError) outcome" where
  "collect_spans layer pending index [] = Ok []"
| "collect_spans layer pending index (g # gs) =
     and_then (get_or (st_layers (sg_storage g)) layer (Operation ''read KV spans'' ''layer is missing'')) (\<lambda>l.
     let tokens = (if map_option ar_segment_index pending = Some index then st_capacity_tokens (sg_storage g) else sg_committed_tokens g)
     in if tokens = 0 then collect_spans layer pending (Suc index) gs
        else
          and_then (read_span_new (kl_key l) (kl_value l) (sg_logical_start g) tokens (st_capacity_tokens (sg_storage g))) (\<lambda>span.
          and_then (collect_spans layer pending (Suc index) gs) (\<lambda>spans. Ok (span # spans))))"

definition read_spans :: "('x, 'b) KvBackend \<Rightarrow> nat \<Rightarrow> 'b KvState \<Rightarrow> 'x \<Rightarrow> ('b KvReadSpan list, BackendError) outcome \<times> 'x" where
  "read_spans B layer s x =
     try_st (reserve_vec B (length (kv_segments s)) ''allocate KV read spans'' x) (\<lambda>_ x1.
     (collect_spans layer (kv_pending s) 0 (kv_segments s), x1))"

definition commit_append :: "KvAppendRange \<Rightarrow> 'b KvState \<Rightarrow> (unit, BackendError) outcome \<times> 'b KvState" where
  "commit_append target s =
     (if kv_pending s \<noteq> Some target then (Err (Operation ''commit KV append'' ''the append target is not pending''), s)
      else
        try_pure (get_or (kv_segments s) (ar_segment_index target) (Operation ''commit KV append'' ''segment is missing'')) s (\<lambda>segment.
        try_pure (checked_size ''KV local append start'' (usize_checked_sub (ar_start target) (sg_logical_start segment))) s (\<lambda>local_start.
        if sg_committed_tokens segment \<noteq> local_start
        then (Err (Operation ''commit KV append'' ''the append range does not follow the committed prefix''), s)
        else
          try_pure (checked_size ''KV committed tokens'' (usize_checked_add local_start (ar_tokens target))) s (\<lambda>committed.
          if st_capacity_tokens (sg_storage segment) < committed
          then (Err (PositionOutOfBounds committed (st_capacity_tokens (sg_storage segment))), s)
          else
            let s1 = s\<lparr>kv_segments := (kv_segments s)[ar_segment_index target := segment\<lparr>sg_committed_tokens := committed\<rparr>]\<rparr> in
            try_pure (checked_size ''KV position'' (usize_checked_add (ar_start target) (ar_tokens target))) s1 (\<lambda>position.
            (Ok (), s1\<lparr>kv_position := position, kv_pending := None\<rparr>))))))"

definition discard_pending :: "'b KvState \<Rightarrow> (unit, BackendError) outcome \<times> 'b KvState" where
  "discard_pending s =
     (if kv_pending s = None then (Ok (), s)
      else try_pure (next_revision 1 s) s (\<lambda>revision.
        let kept = filter (\<lambda>g. sg_committed_tokens g \<noteq> 0) (kv_segments s);
            position = (if kept = [] then 0 else usize_add (sg_logical_start (last kept)) (sg_committed_tokens (last kept)))
        in (Ok (), s\<lparr>kv_pending := None, kv_segments := kept, kv_position := position, kv_revision := revision\<rparr>)))"

section \<open>Forks, snapshots and sizes\<close>

definition committed_segments :: "'b KvState \<Rightarrow> 'b KvSegment list" where
  "committed_segments s = filter (\<lambda>g. sg_committed_tokens g \<noteq> 0) (kv_segments s)"

definition kv_fork :: "('x, 'b) KvBackend \<Rightarrow> 'b KvState \<Rightarrow> 'x \<Rightarrow> ('b KvState, BackendError) outcome \<times> 'x" where
  "kv_fork B source x =
     try_st (kb_clone B (kv_device_position source) x) (\<lambda>device_position x1.
     (Ok \<lparr>kv_segments = committed_segments source, kv_position = kv_position source, kv_device_position = device_position,
          kv_shape = kv_shape source, kv_dtype = kv_dtype source, kv_revision = kv_revision source,
          kv_graph_revision = None, kv_pending = None\<rparr>, x1))"

fun download_layers :: "('x, 'b) KvBackend \<Rightarrow> 'b KvLayer list \<Rightarrow> 'x \<Rightarrow> ((BufferSnapshot \<times> BufferSnapshot) list, BackendError) outcome \<times> 'x" where
  "download_layers B [] x = (Ok [], x)"
| "download_layers B (l # ls) x =
     try_st (kb_download B (kl_key l) x) (\<lambda>key x1.
     try_st (kb_download B (kl_value l) x1) (\<lambda>v x2.
     try_st (download_layers B ls x2) (\<lambda>layers x3. (Ok ((key, v) # layers), x3))))"

definition snapshot_segment :: "('x, 'b) KvBackend \<Rightarrow> 'b KvSegment \<Rightarrow> 'x \<Rightarrow> (KvSnapshotSegment, BackendError) outcome \<times> 'x" where
  "snapshot_segment B g x =
     try_st (reserve_vec B (length (st_layers (sg_storage g))) ''allocate KV snapshot layers'' x) (\<lambda>_ x1.
     try_st (download_layers B (st_layers (sg_storage g)) x1) (\<lambda>layers x2.
     (Ok \<lparr>ss_logical_start = sg_logical_start g, ss_committed_tokens = sg_committed_tokens g,
          ss_capacity_tokens = st_capacity_tokens (sg_storage g), ss_layers = layers\<rparr>, x2)))"

fun snapshot_segments :: "('x, 'b) KvBackend \<Rightarrow> 'b KvSegment list \<Rightarrow> 'x \<Rightarrow> (KvSnapshotSegment list, BackendError) outcome \<times> 'x" where
  "snapshot_segments B [] x = (Ok [], x)"
| "snapshot_segments B (g # gs) x =
     try_st (snapshot_segment B g x) (\<lambda>s x1. try_st (snapshot_segments B gs x1) (\<lambda>ss x2. (Ok (s # ss), x2)))"

definition kv_snapshot :: "('x, 'b) KvBackend \<Rightarrow> 'b KvState \<Rightarrow> 'x \<Rightarrow> (KvSnapshot, BackendError) outcome \<times> 'x" where
  "kv_snapshot B s x =
     try_st (reserve_vec B (length (committed_segments s)) ''allocate KV snapshot segments'' x) (\<lambda>_ x1.
     try_st (snapshot_segments B (committed_segments s) x1) (\<lambda>segments x2.
     try_st (kb_download B (kv_device_position s) x2) (\<lambda>device_position x3.
     (Ok \<lparr>sn_segments = segments, sn_position = kv_position s, sn_device_position = device_position,
          sn_shape = kv_shape s, sn_dtype = kv_dtype s\<rparr>, x3))))"

definition snapshot_segment_bytes :: "KvSnapshotSegment \<Rightarrow> (u64, BackendError) outcome" where
  "snapshot_segment_bytes source =
     (let first = (case ss_layers source of [] \<Rightarrow> 0 | (key, _) # _ \<Rightarrow> of_nat (bl_bytes (bs_layout key))) in
      and_then (size_u64 ''KV layer count'' (length (ss_layers source))) (\<lambda>count.
      ok_or (Option.bind (checked_mul first count) (\<lambda>v. checked_mul v 2)) (SizeOverflow ''KV segment bytes'')))"

fun restore_layers :: "('x, 'b) KvBackend \<Rightarrow> (BufferSnapshot \<times> BufferSnapshot) list \<Rightarrow> 'x \<Rightarrow> ('b KvLayer list, BackendError) outcome \<times> 'x" where
  "restore_layers B [] x = (Ok [], x)"
| "restore_layers B ((key, v) # ls) x =
     try_st (kb_restore B key KvCache x) (\<lambda>k x1.
     try_st (kb_restore B v KvCache x1) (\<lambda>w x2.
     try_st (restore_layers B ls x2) (\<lambda>layers x3. (Ok (\<lparr>kl_key = k, kl_value = w\<rparr> # layers), x3))))"

definition restore_segment :: "('x, 'b) KvBackend \<Rightarrow> KvSnapshotSegment \<Rightarrow> 'x \<Rightarrow> ('b KvSegment, BackendError) outcome \<times> 'x" where
  "restore_segment B source x =
     try_st (reserve_vec B (length (ss_layers source)) ''allocate restored KV layers'' x) (\<lambda>_ x1.
     try_st (restore_layers B (ss_layers source) x1) (\<lambda>layers x2.
     try_pure (snapshot_segment_bytes source) x2 (\<lambda>bytes.
     case kb_new_rc B x2 of (address, x3) \<Rightarrow>
       (Ok \<lparr>sg_logical_start = ss_logical_start source, sg_committed_tokens = ss_committed_tokens source,
            sg_storage = \<lparr>st_address = address, st_capacity_tokens = ss_capacity_tokens source, st_bytes = bytes, st_layers = layers\<rparr>\<rparr>, x3))))"

fun restore_segments :: "('x, 'b) KvBackend \<Rightarrow> KvSnapshotSegment list \<Rightarrow> 'x \<Rightarrow> ('b KvSegment list, BackendError) outcome \<times> 'x" where
  "restore_segments B [] x = (Ok [], x)"
| "restore_segments B (s # ss) x =
     try_st (restore_segment B s x) (\<lambda>g x1. try_st (restore_segments B ss x1) (\<lambda>gs x2. (Ok (g # gs), x2)))"

definition kv_restore :: "('x, 'b) KvBackend \<Rightarrow> KvSnapshot \<Rightarrow> 'x \<Rightarrow> ('b KvState, BackendError) outcome \<times> 'x" where
  "kv_restore B snapshot x =
     try_st (reserve_vec B (length (sn_segments snapshot)) ''allocate restored KV segments'' x) (\<lambda>_ x1.
     try_st (restore_segments B (filter (\<lambda>s. ss_committed_tokens s \<noteq> 0) (sn_segments snapshot)) x1) (\<lambda>segments x2.
     try_st (kb_restore B (sn_device_position snapshot) KvCache x2) (\<lambda>device_position x3.
     (Ok \<lparr>kv_segments = segments, kv_position = sn_position snapshot, kv_device_position = device_position,
          kv_shape = sn_shape snapshot, kv_dtype = sn_dtype snapshot, kv_revision = 0,
          kv_graph_revision = None, kv_pending = None\<rparr>, x3))))"

text \<open>\<open>try_fold\<close> of a checked addition.\<close>

fun checked_sum :: "string \<Rightarrow> u64 \<Rightarrow> u64 list \<Rightarrow> (u64, BackendError) outcome" where
  "checked_sum field acc [] = Ok acc"
| "checked_sum field acc (n # ns) = and_then (ok_or (checked_add acc n) (SizeOverflow field)) (\<lambda>acc. checked_sum field acc ns)"

definition snapshot_payload_bytes :: "'b KvState \<Rightarrow> (u64, BackendError) outcome" where
  "snapshot_payload_bytes s =
     and_then (layout_u32 1) (\<lambda>layout.
     and_then (size_u64 ''KV device position bytes'' (bl_bytes layout)) (\<lambda>position_bytes.
     checked_sum ''KV snapshot bytes'' position_bytes (map (\<lambda>g. st_bytes (sg_storage g)) (committed_segments s))))"

fun sum_snapshot_bytes :: "u64 \<Rightarrow> KvSnapshotSegment list \<Rightarrow> (u64, BackendError) outcome" where
  "sum_snapshot_bytes acc [] = Ok acc"
| "sum_snapshot_bytes acc (s # ss) =
     and_then (snapshot_segment_bytes s) (\<lambda>n.
     and_then (ok_or (checked_add acc n) (SizeOverflow ''KV snapshot bytes'')) (\<lambda>acc. sum_snapshot_bytes acc ss))"

definition snapshot_bytes :: "KvSnapshot \<Rightarrow> (u64, BackendError) outcome" where
  "snapshot_bytes snapshot =
     and_then (size_u64 ''KV device position bytes'' (bl_bytes (bs_layout (sn_device_position snapshot)))) (\<lambda>position_bytes.
     sum_snapshot_bytes position_bytes (sn_segments snapshot))"

end
