(* ===== verification/Kv_Inv.thy ===== *)
theory Kv_Inv
  imports Kv_Store
begin

text \<open>
  The invariant of the segmented cache (\<open>kv_ok\<close>: the segments cover the committed tokens
  without a gap, each within its storage and the context, and the pending append is the
  tail's next rows), the rows a state stands for (\<open>kv_rows\<close>), and the rollback: whatever
  has been staged, restoring the captured rollback gives back the state it was captured in.
\<close>

section \<open>Rows and segments\<close>

abbreviation address_of :: "'b KvSegment \<Rightarrow> nat" where
  "address_of g \<equiv> st_address (sg_storage g)"

abbreviation capacity_of :: "'b KvSegment \<Rightarrow> nat" where
  "capacity_of g \<equiv> st_capacity_tokens (sg_storage g)"

definition seg_rows :: "'b KvSegment \<Rightarrow> (nat \<times> nat) list" where
  "seg_rows g = map (\<lambda>i. (address_of g, i)) [0..<sg_committed_tokens g]"

definition rows_of :: "'b KvSegment list \<Rightarrow> (nat \<times> nat) list" where
  "rows_of gs = concat (map seg_rows gs)"

definition kv_rows :: "'b KvState \<Rightarrow> (nat \<times> nat) list" where
  "kv_rows s = rows_of (kv_segments s)"

lemma rows_of_simps [simp]:
  "rows_of [] = []" "rows_of (g # gs) = seg_rows g @ rows_of gs" "rows_of (gs @ hs) = rows_of gs @ rows_of hs"
  by (simp_all add: rows_of_def)

lemma length_seg_rows [simp]: "length (seg_rows g) = sg_committed_tokens g"
  by (simp add: seg_rows_def)

lemma rows_of_empty: "\<forall>g\<in>set gs. sg_committed_tokens g = 0 \<Longrightarrow> rows_of gs = []"
  by (induction gs) (auto simp: seg_rows_def)

lemma rows_filter: "rows_of (filter (\<lambda>g. 0 < sg_committed_tokens g) gs) = rows_of gs"
  by (induction gs) (auto simp: seg_rows_def)

fun chained :: "nat \<Rightarrow> nat \<Rightarrow> 'b KvSegment list \<Rightarrow> bool" where
  "chained limit p [] = True"
| "chained limit p (g # gs) =
     (sg_logical_start g = p \<and> 0 < capacity_of g \<and> sg_committed_tokens g \<le> capacity_of g \<and> p + capacity_of g \<le> limit \<and>
      chained limit (p + sg_committed_tokens g) gs)"

lemma chained_append:
  "chained limit p (gs @ hs) \<longleftrightarrow> chained limit p gs \<and> chained limit (p + length (rows_of gs)) hs"
  by (induction gs arbitrary: p) (auto simp: add.assoc)

lemma chained_mono: "chained limit p gs \<Longrightarrow> limit \<le> limit' \<Longrightarrow> chained limit' p gs"
  by (induction gs arbitrary: p) auto

lemma chained_end: "chained limit p gs \<Longrightarrow> gs \<noteq> [] \<Longrightarrow> p + length (rows_of gs) \<le> limit"
proof (induction gs arbitrary: p)
  case (Cons g gs)
  then show ?case by (cases "gs = []") fastforce+
qed simp

definition full :: "'b KvSegment list \<Rightarrow> bool" where
  "full gs \<longleftrightarrow> (\<forall>g\<in>set gs. 0 < sg_committed_tokens g)"

lemma full_simps [simp]: "full []" "full (g # gs) \<longleftrightarrow> 0 < sg_committed_tokens g \<and> full gs" "full (gs @ hs) \<longleftrightarrow> full gs \<and> full hs"
  by (auto simp: full_def)

definition pending_ok :: "'b KvState \<Rightarrow> bool" where
  "pending_ok s = (case kv_pending s of
       None \<Rightarrow> full (kv_segments s)
     | Some r \<Rightarrow> kv_segments s \<noteq> [] \<and> full (butlast (kv_segments s)) \<and> ar_segment_index r = length (kv_segments s) - 1 \<and>
         ar_start r = kv_position s \<and> 0 < ar_tokens r \<and>
         sg_committed_tokens (last (kv_segments s)) + ar_tokens r \<le> capacity_of (last (kv_segments s)) \<and>
         kv_position s + ar_tokens r \<le> sh_max_context (kv_shape s))"

definition kv_ok :: "'b KvState \<Rightarrow> bool" where
  "kv_ok s \<longleftrightarrow> chained (sh_max_context (kv_shape s)) 0 (kv_segments s) \<and> kv_position s = length (kv_rows s) \<and>
     sh_max_context (kv_shape s) < usize_limit \<and> distinct (map address_of (kv_segments s)) \<and> pending_ok s"

lemma kv_okD:
  assumes "kv_ok s"
  shows "chained (sh_max_context (kv_shape s)) 0 (kv_segments s)" "kv_position s = length (kv_rows s)"
    "sh_max_context (kv_shape s) < usize_limit" "distinct (map address_of (kv_segments s))" "pending_ok s"
    "kv_position s \<le> sh_max_context (kv_shape s)"
proof -
  show p: "chained (sh_max_context (kv_shape s)) 0 (kv_segments s)" "kv_position s = length (kv_rows s)"
    "sh_max_context (kv_shape s) < usize_limit" "distinct (map address_of (kv_segments s))" "pending_ok s"
    using assms by (simp_all add: kv_ok_def)
  show "kv_position s \<le> sh_max_context (kv_shape s)"
    using chained_end [OF p(1)] p(2) by (cases "kv_segments s = []") (auto simp: kv_rows_def)
qed

text \<open>The last segment ends at the position; its start and tokens add up without a wrap.\<close>

lemma tail_start:
  assumes "kv_ok s" and "kv_segments s = gs @ [g]"
  shows "sg_logical_start g = length (rows_of gs)" "kv_position s = sg_logical_start g + sg_committed_tokens g"
    "sg_committed_tokens g \<le> capacity_of g" "sg_logical_start g + capacity_of g \<le> sh_max_context (kv_shape s)" "0 < capacity_of g"
    "usize_add (sg_logical_start g) (sg_committed_tokens g) = kv_position s"
proof -
  note D = kv_okD [OF assms(1)]
  show p: "sg_logical_start g = length (rows_of gs)" "kv_position s = sg_logical_start g + sg_committed_tokens g"
    "sg_committed_tokens g \<le> capacity_of g" "sg_logical_start g + capacity_of g \<le> sh_max_context (kv_shape s)" "0 < capacity_of g"
    using D(1,2) by (simp_all add: assms(2) chained_append kv_rows_def)
  have "kv_position s < usize_limit" using D(3,6) by linarith
  then show "usize_add (sg_logical_start g) (sg_committed_tokens g) = kv_position s"
    using p(2) by (simp add: usize_add_def)
qed

section \<open>Rollback\<close>

definition erase :: "'b KvSegment \<Rightarrow> 'b KvSegment" where
  "erase g = g\<lparr>sg_committed_tokens := 0\<rparr>"

definition captured :: "'b KvState \<Rightarrow> 'b KvAppendRollback" where
  "captured s = \<lparr>rb_position = kv_position s, rb_shape = kv_shape s, rb_revision = kv_revision s,
     rb_graph_revision = kv_graph_revision s, rb_pending = kv_pending s, rb_len = length (kv_segments s),
     rb_committed = map sg_committed_tokens (kv_segments s), rb_removed = []\<rparr>"

text \<open>
  \<open>staged s t rb\<close>: \<open>t\<close> was staged from \<open>s\<close>, and \<open>rb\<close> holds what it takes to go back: the
  segments \<open>R\<close> taken off the end; those kept differ in their committed tokens at most.
  \<open>peeled\<close> is the same with the kept segments unchanged.
\<close>

definition staged :: "'b KvState \<Rightarrow> 'b KvState \<Rightarrow> 'b KvAppendRollback \<Rightarrow> bool" where
  "staged s t rb \<longleftrightarrow> (\<exists>K R. kv_segments s = K @ R \<and> rb = (captured s)\<lparr>rb_removed := rev R\<rparr> \<and>
     map erase (kv_segments t) = map erase K \<and> kv_device_position t = kv_device_position s \<and> kv_dtype t = kv_dtype s)"

definition peeled :: "'b KvState \<Rightarrow> 'b KvState \<Rightarrow> 'b KvAppendRollback \<Rightarrow> bool" where
  "peeled s t rb \<longleftrightarrow> (\<exists>R. kv_segments s = kv_segments t @ R \<and> rb = (captured s)\<lparr>rb_removed := rev R\<rparr> \<and>
     kv_device_position t = kv_device_position s \<and> kv_dtype t = kv_dtype s)"

lemma peeled_self [simp]: "peeled s s (captured s)"
  by (simp add: peeled_def captured_def)

lemma peeled_staged: "peeled s t rb \<Longrightarrow> staged s t rb"
  by (auto simp: peeled_def staged_def)

lemma peeled_frame [simp]:
  "peeled s (t\<lparr>kv_position := p\<rparr>) rb = peeled s t rb" "peeled s (t\<lparr>kv_revision := r\<rparr>) rb = peeled s t rb"
  "peeled s (t\<lparr>kv_pending := a\<rparr>) rb = peeled s t rb"
  by (simp_all add: peeled_def)

lemma staged_frame [simp]:
  "staged s (t\<lparr>kv_position := p\<rparr>) rb = staged s t rb" "staged s (t\<lparr>kv_revision := r\<rparr>) rb = staged s t rb"
  "staged s (t\<lparr>kv_pending := a\<rparr>) rb = staged s t rb"
  by (simp_all add: staged_def)

text \<open>Taking the last segment off, and shortening the last segment.\<close>

lemma peeled_pop:
  assumes "peeled s t rb" and "kv_segments t = gs @ [g]"
  shows "peeled s (t\<lparr>kv_segments := gs\<rparr>) (push_removed g rb)"
proof -
  obtain R where r: "kv_segments s = kv_segments t @ R" "rb = (captured s)\<lparr>rb_removed := rev R\<rparr>"
    "kv_device_position t = kv_device_position s" "kv_dtype t = kv_dtype s"
    using assms(1) by (auto simp: peeled_def)
  show ?thesis unfolding peeled_def using r by (intro exI [of _ "g # R"]) (simp add: assms(2) push_removed_def)
qed

lemma peeled_shorten:
  assumes "peeled s t rb" and "kv_segments t = gs @ [g]"
  shows "staged s (t\<lparr>kv_segments := gs @ [g\<lparr>sg_committed_tokens := n\<rparr>]\<rparr>) rb"
proof -
  obtain R where r: "kv_segments s = kv_segments t @ R" "rb = (captured s)\<lparr>rb_removed := rev R\<rparr>"
    "kv_device_position t = kv_device_position s" "kv_dtype t = kv_dtype s"
    using assms(1) by (auto simp: peeled_def)
  show ?thesis unfolding staged_def using r by (intro exI [of _ "gs @ [g]"] exI [of _ R]) (simp add: assms(2) erase_def)
qed

lemma set_committed_erase:
  "map erase gs = map erase K \<Longrightarrow> set_committed gs (map sg_committed_tokens K @ ns) = K"
proof (induction K arbitrary: gs)
  case (Cons k K)
  then obtain g gs' where g: "gs = g # gs'" "erase g = erase k" "map erase gs' = map erase K" by (cases gs) auto
  have "g\<lparr>sg_committed_tokens := sg_committed_tokens k\<rparr> = k" using g(2) by (cases g; cases k) (simp add: erase_def)
  then show ?case using g Cons.IH [of gs'] by simp
qed (cases ns; simp)

lemma restore_staged:
  assumes "staged s t rb"
  shows "restore_append_position rb t = s"
proof -
  obtain K R where k: "kv_segments s = K @ R" "rb = (captured s)\<lparr>rb_removed := rev R\<rparr>" "map erase (kv_segments t) = map erase K"
    "kv_device_position t = kv_device_position s" "kv_dtype t = kv_dtype s"
    using assms by (auto simp: staged_def)
  have len: "length (kv_segments t) = length K" using k(3) by (metis length_map)
  have "set_committed (kv_segments t) (map sg_committed_tokens K @ map sg_committed_tokens R) = K"
    by (rule set_committed_erase [OF k(3)])
  then show ?thesis using k len by (simp add: restore_append_position_def captured_def)
qed

lemma restore_peeled: "peeled s t rb \<Longrightarrow> restore_append_position rb t = s"
  by (intro restore_staged peeled_staged)

lemma restore_shape [simp]: "restore_append_position (captured s) (s\<lparr>kv_revision := r, kv_shape := h, kv_graph_revision := w\<rparr>) = s"
  by (rule restore_staged) (auto simp: staged_def captured_def)

section \<open>Cutting at a position\<close>

lemma remove_closed:
  "remove_segments_at_or_after p (s, rb) =
    (let P = (\<lambda>g. p \<le> sg_logical_start g); R = takeWhile P (rev (kv_segments s)) in
      (R \<noteq> [], s\<lparr>kv_segments := rev (dropWhile P (rev (kv_segments s)))\<rparr>, rb\<lparr>rb_removed := rb_removed rb @ R\<rparr>))"
proof (induction "kv_segments s" arbitrary: s rb rule: rev_induct)
  case Nil
  then show ?case by (subst remove_segments_at_or_after.simps) (auto simp: Let_def)
next
  case (snoc g gs)
  have g: "kv_segments s = gs @ [g]" using snoc(2) by simp
  show ?case
  proof (cases "p \<le> sg_logical_start g")
    case True
    have s: "gs = kv_segments (s\<lparr>kv_segments := gs\<rparr>)" by simp
    show ?thesis
      using True snoc(1) [OF s, of "push_removed g rb"]
      by (simp add: remove_segments_at_or_after.simps [of p s rb] g Let_def push_removed_def del: remove_segments_at_or_after.simps)
  next
    case False
    moreover have "s\<lparr>kv_segments := gs @ [g]\<rparr> = s" by (simp add: g [symmetric])
    ultimately show ?thesis
      by (simp add: remove_segments_at_or_after.simps [of p s rb] g Let_def del: remove_segments_at_or_after.simps)
  qed
qed

declare remove_segments_at_or_after.simps [simp del]

definition shorten :: "nat \<Rightarrow> 'b KvSegment \<Rightarrow> 'b KvSegment" where
  "shorten p g = g\<lparr>sg_committed_tokens := min (sg_committed_tokens g) (p - sg_logical_start g)\<rparr>"

definition cut_segments :: "nat \<Rightarrow> 'b KvSegment list \<Rightarrow> 'b KvSegment list" where
  "cut_segments p gs = map (shorten p) (filter (\<lambda>g. sg_logical_start g < p) gs)"

lemma shorten_simps [simp]:
  "sg_logical_start (shorten p g) = sg_logical_start g" "sg_storage (shorten p g) = sg_storage g"
  "sg_committed_tokens (shorten p g) = min (sg_committed_tokens g) (p - sg_logical_start g)"
  "erase (shorten p g) = erase g"
  by (simp_all add: shorten_def erase_def)

lemma chained_starts: "chained limit b gs \<Longrightarrow> g \<in> set gs \<Longrightarrow> b \<le> sg_logical_start g"
  by (induction gs arbitrary: b) fastforce+

lemma chained_filter_nil: "chained limit b gs \<Longrightarrow> p \<le> b \<Longrightarrow> filter (\<lambda>g. sg_logical_start g < p) gs = []"
  using chained_starts [of limit b gs] by (fastforce simp: filter_empty_conv)

lemma chained_before:
  assumes "chained limit b (gs @ [g])" and "h \<in> set gs"
  shows "sg_logical_start h + sg_committed_tokens h \<le> sg_logical_start g"
proof -
  obtain xs ys where "gs = xs @ h # ys" using assms(2) by (meson split_list)
  then show ?thesis using assms(1) by (auto simp: chained_append)
qed

lemma cut_segments_chained: "chained limit b gs \<Longrightarrow> chained limit b (cut_segments p gs)"
proof (induction gs arbitrary: b)
  case (Cons g gs)
  show ?case
  proof (cases "sg_logical_start g < p")
    case True
    show ?thesis
    proof (cases "b + sg_committed_tokens g \<le> p")
      case True
      then have "min (sg_committed_tokens g) (p - b) = sg_committed_tokens g" by linarith
      then show ?thesis using Cons by (auto simp: cut_segments_def)
    next
      case False
      then have "filter (\<lambda>g. sg_logical_start g < p) gs = []" using Cons.prems by (intro chained_filter_nil) auto
      then show ?thesis using Cons.prems by (auto simp: cut_segments_def)
    qed
  next
    case False
    then have "filter (\<lambda>g. sg_logical_start g < p) (g # gs) = []" by (intro chained_filter_nil [OF Cons.prems]) (use Cons.prems in auto)
    then show ?thesis by (simp add: cut_segments_def)
  qed
qed (simp add: cut_segments_def)

lemma cut_segments_rows: "chained limit b gs \<Longrightarrow> rows_of (cut_segments p gs) = take (p - b) (rows_of gs)"
proof (induction gs arbitrary: b)
  case (Cons g gs)
  have b: "sg_logical_start g = b" "chained limit (b + sg_committed_tokens g) gs" using Cons.prems by auto
  have rest: "rows_of (cut_segments p gs) = take (p - (b + sg_committed_tokens g)) (rows_of gs)" by (rule Cons.IH [OF b(2)])
  have short: "seg_rows (shorten p g) = take (p - b) (seg_rows g)" by (simp add: seg_rows_def b(1) take_map take_upt min_def)
  show ?case
  proof (cases "b < p")
    case True
    then show ?thesis using rest short by (simp add: cut_segments_def b(1))
  next
    case False
    then have "p - (b + sg_committed_tokens g) = 0" by linarith
    then show ?thesis using False rest by (simp add: cut_segments_def b(1))
  qed
qed (simp add: cut_segments_def)

lemma cut_segments_full: "full gs \<Longrightarrow> full (cut_segments p gs)"
  by (auto simp: full_def cut_segments_def)

lemma cut_segments_addresses: "map address_of (cut_segments p gs) = map address_of (filter (\<lambda>g. sg_logical_start g < p) gs)"
  by (simp add: cut_segments_def)

end
