(* ===== verification/Kv_Append.thy ===== *)
theory Kv_Append
  imports Kv_Inv
begin

text \<open>
  What the operations that move a cache do to a state that has the invariant: cutting it at
  a position (\<open>cut_at\<close>, \<open>truncate\<close>, \<open>stage_append_position\<close>), finding or allocating the rows
  of the next append (\<open>prepare_append\<close> and its parts). An error leaves the state as it was.
\<close>

section \<open>Cutting a state\<close>

lemma detach_run:
  assumes "kv_ok s" and "detach_pending (s, captured s) = (b, t, rb)"
  shows "peeled s t rb" "b = (kv_pending s \<noteq> None)"
    "t = s\<lparr>kv_pending := None, kv_segments := committed_segments s\<rparr>"
proof -
  have "peeled s t rb \<and> b = (kv_pending s \<noteq> None) \<and> t = s\<lparr>kv_pending := None, kv_segments := committed_segments s\<rparr>"
  proof (cases "kv_pending s")
    case None
    moreover have "committed_segments s = kv_segments s"
      using kv_okD(5) [OF assms(1)] None by (auto simp: pending_ok_def committed_segments_def full_def filter_id_conv)
    moreover have "s\<lparr>kv_pending := None, kv_segments := kv_segments s\<rparr> = s" using None by simp
    ultimately show ?thesis using assms(2) peeled_self [of s] by (auto simp: detach_pending_def)
  next
    case (Some r)
    obtain gs g where g: "kv_segments s = gs @ [g]" and p: "full gs" "ar_segment_index r = length gs"
      using kv_okD(5) [OF assms(1)] by (cases "kv_segments s" rule: rev_cases) (auto simp: pending_ok_def Some)
    have keep: "filter (\<lambda>g. 0 < sg_committed_tokens g) gs = gs" using p(1) by (auto simp: full_def filter_id_conv)
    show ?thesis
    proof (cases "sg_committed_tokens g = 0")
      case True
      have "peeled s ((s\<lparr>kv_pending := None\<rparr>)\<lparr>kv_segments := gs\<rparr>) (push_removed g (captured s))"
        by (rule peeled_pop [of _ _ _ gs g]) (simp_all add: g)
      then show ?thesis
        using assms(2) True by (auto simp: detach_pending_def Some g p(2) committed_segments_def keep)
    next
      case False
      then show ?thesis
        using assms(2) by (auto simp: detach_pending_def Some g p(2) committed_segments_def keep)
    qed
  qed
  then show "peeled s t rb" "b = (kv_pending s \<noteq> None)"
    "t = s\<lparr>kv_pending := None, kv_segments := committed_segments s\<rparr>" by blast+
qed


lemma committed_ok:
  assumes "kv_ok s"
  shows "chained (sh_max_context (kv_shape s)) 0 (committed_segments s)" "full (committed_segments s)"
    "rows_of (committed_segments s) = kv_rows s" "distinct (map address_of (committed_segments s))"
proof -
  show "full (committed_segments s)" by (auto simp: full_def committed_segments_def)
  show "rows_of (committed_segments s) = kv_rows s" by (simp add: committed_segments_def rows_filter kv_rows_def)
  show "distinct (map address_of (committed_segments s))"
    using kv_okD(4) [OF assms] by (simp add: committed_segments_def distinct_map_filter)
  have "chained limit b (filter (\<lambda>g. sg_committed_tokens g \<noteq> 0) gs)" if "chained limit b gs" for limit b and gs :: "'a KvSegment list"
    using that by (induction gs arbitrary: b) auto
  from this [OF kv_okD(1) [OF assms]]
  show "chained (sh_max_context (kv_shape s)) 0 (committed_segments s)" by (simp add: committed_segments_def)
qed

text \<open>Popping the segments at or after \<open>p\<close>, then shortening the tail, is \<open>cut_segments\<close>.\<close>

lemma peeled_take: "peeled s t rb \<Longrightarrow> kv_segments t = K @ rev R \<Longrightarrow> peeled s (t\<lparr>kv_segments := K\<rparr>) (rb\<lparr>rb_removed := rb_removed rb @ R\<rparr>)"
  by (fastforce simp: peeled_def)

lemma dropWhile_starts:
  assumes "chained limit b gs" and "full gs"
  shows "rev (dropWhile (\<lambda>g. p \<le> sg_logical_start g) (rev gs)) = filter (\<lambda>g. sg_logical_start g < p) gs"
  using assms
proof (induction gs rule: rev_induct)
  case (snoc g gs)
  have gs: "chained limit b gs" "full gs" using snoc.prems by (simp_all add: chained_append)
  show ?case
  proof (cases "p \<le> sg_logical_start g")
    case True
    then show ?thesis using snoc.IH [OF gs] by simp
  next
    case False
    have "sg_logical_start h < p" if "h \<in> set gs" for h using chained_before [OF snoc.prems(1) that] False by linarith
    then have "filter (\<lambda>g. sg_logical_start g < p) gs = gs" by (simp add: filter_id_conv)
    then show ?thesis using False by simp
  qed
qed simp

lemma shorten_tail_run:
  assumes "chained limit b gs" and "\<forall>g\<in>set gs. sg_logical_start g < p" and "kv_segments t = gs"
  shows "\<exists>c. shorten_tail p t = (c, t\<lparr>kv_segments := map (shorten p) gs\<rparr>) \<and> (\<not> c \<longrightarrow> map (shorten p) gs = gs)"
proof (cases gs rule: rev_cases)
  case Nil
  then have "shorten_tail p t = (False, t\<lparr>kv_segments := map (shorten p) gs\<rparr>)" using assms(3) by (cases t) (simp add: shorten_tail_def)
  then show ?thesis by (intro exI [of _ False]) (simp add: Nil)
next
  case (snoc hs g)
  have same: "shorten p h = h" if "h \<in> set hs" for h
  proof -
    have "sg_logical_start h + sg_committed_tokens h \<le> sg_logical_start g" "sg_logical_start g < p"
      using chained_before [OF assms(1) [unfolded snoc] that] assms(2) snoc by auto
    then have "min (sg_committed_tokens h) (p - sg_logical_start h) = sg_committed_tokens h" by linarith
    then show ?thesis by (simp add: shorten_def)
  qed
  have hs: "map (shorten p) hs = hs" by (simp add: map_idI same)
  show ?thesis
  proof (cases "p - sg_logical_start g < sg_committed_tokens g")
    case True
    then have "shorten p g = g\<lparr>sg_committed_tokens := p - sg_logical_start g\<rparr>" by (simp add: shorten_def)
    then show ?thesis using True assms(3) snoc hs by (intro exI [of _ True]) (simp add: shorten_tail_def Let_def)
  next
    case False
    then have g: "shorten p g = g" by (simp add: shorten_def)
    have "t\<lparr>kv_segments := hs @ [g]\<rparr> = t" using assms(3) snoc by (cases t) simp
    then show ?thesis using False assms(3) snoc hs g by (intro exI [of _ False]) (simp add: shorten_tail_def Let_def)
  qed
qed

lemma cut_run:
  assumes "kv_ok s" and "cut_at p (s, captured s) = (a, b, c, t, rb)"
  shows "staged s t rb" "t = s\<lparr>kv_pending := None, kv_segments := cut_segments p (committed_segments s)\<rparr>"
    "a = (kv_pending s \<noteq> None)" "\<not> b \<and> \<not> c \<Longrightarrow> kv_position s \<le> p" "rb_position rb = kv_position s"
proof -
  let ?P = "\<lambda>g. p \<le> sg_logical_start g" and ?C = "committed_segments s"
  let ?K = "filter (\<lambda>g. sg_logical_start g < p) ?C" and ?R = "takeWhile ?P (rev ?C)"
  obtain a' u ru where d: "detach_pending (s, captured s) = (a', u, ru)" by (rule prod_cases3)
  note D = detach_run [OF assms(1) d] and C = committed_ok [OF assms(1)]
  have K: "rev (dropWhile ?P (rev ?C)) = ?K" by (rule dropWhile_starts [OF C(1,2)])
  have split: "?C = ?K @ rev ?R"
    by (subst K [symmetric]) (metis rev_append rev_rev_ident takeWhile_dropWhile_id)
  have rem: "remove_segments_at_or_after p (u, ru) = (?R \<noteq> [], u\<lparr>kv_segments := ?K\<rparr>, ru\<lparr>rb_removed := rb_removed ru @ ?R\<rparr>)"
    by (simp add: remove_closed Let_def D(3) K)
  have pe: "peeled s (u\<lparr>kv_segments := ?K\<rparr>) (ru\<lparr>rb_removed := rb_removed ru @ ?R\<rparr>)"
    using split by (intro peeled_take [OF D(1)]) (simp add: D(3))
  have chain: "chained (sh_max_context (kv_shape s)) 0 ?K"
    using C(1) by (subst (asm) split) (simp add: chained_append)
  obtain c' where sh: "shorten_tail p (u\<lparr>kv_segments := ?K\<rparr>) = (c', u\<lparr>kv_segments := map (shorten p) ?K\<rparr>)"
      "\<not> c' \<longrightarrow> map (shorten p) ?K = ?K"
    using shorten_tail_run [OF chain, of p "u\<lparr>kv_segments := ?K\<rparr>"] by auto
  have t: "b = (?R \<noteq> [])" "c = c'" "t = u\<lparr>kv_segments := map (shorten p) ?K\<rparr>" "rb = ru\<lparr>rb_removed := rb_removed ru @ ?R\<rparr>" "a = a'"
    using assms(2) by (auto simp: cut_at_def d rem sh(1))
  show "t = s\<lparr>kv_pending := None, kv_segments := cut_segments p ?C\<rparr>" by (simp add: t(3) D(3) cut_segments_def)
  show "a = (kv_pending s \<noteq> None)" using D(2) t(5) by simp
  obtain R where R: "kv_segments s = ?K @ R" "rb = (captured s)\<lparr>rb_removed := rev R\<rparr>"
    using pe by (auto simp: peeled_def t(4))
  show "rb_position rb = kv_position s" by (simp add: R(2) captured_def)
  show "staged s t rb"
    unfolding staged_def using R by (intro exI [of _ ?K] exI [of _ R]) (simp add: t(3) D(3) comp_def)
  show "kv_position s \<le> p" if "\<not> b \<and> \<not> c"
  proof -
    have "cut_segments p ?C = ?C" using that split sh(2) by (simp add: t(1,2) cut_segments_def)
    then have "kv_rows s = take p (kv_rows s)" using cut_segments_rows [OF C(1), of p] C(3) by simp
    then have "length (kv_rows s) \<le> p" by (metis length_take min.cobounded2)
    then show ?thesis using kv_okD(2) [OF assms(1)] by simp
  qed
qed

lemma cut_ok:
  assumes "kv_ok s" and "p \<le> kv_position s"
  shows "kv_ok (s\<lparr>kv_pending := None, kv_segments := cut_segments p (committed_segments s), kv_position := p\<rparr>)"
    "rows_of (cut_segments p (committed_segments s)) = take p (kv_rows s)"
proof -
  note C = committed_ok [OF assms(1)]
  show r: "rows_of (cut_segments p (committed_segments s)) = take p (kv_rows s)"
    using cut_segments_rows [OF C(1), of p] by (simp add: C(3))
  show "kv_ok (s\<lparr>kv_pending := None, kv_segments := cut_segments p (committed_segments s), kv_position := p\<rparr>)"
    using assms(2) kv_okD(2,3) [OF assms(1)] cut_segments_chained [OF C(1), of p] cut_segments_full [OF C(2), of p] C(4)
    by (simp add: kv_ok_def kv_rows_def [of "s\<lparr>kv_pending := _, kv_segments := _, kv_position := _\<rparr>"] r pending_ok_def cut_segments_addresses distinct_map_filter del: distinct_map)
qed

end
