(* ===== verification/Kv_Prepare.thy ===== *)
theory Kv_Prepare
  imports Kv_Append
begin

text \<open>
  The calls on the world (\<open>kv_laws\<close>: no call panics and a new \<open>Rc\<close> has an identity that no
  storage had before) and the operations that prepare an append: what each leaves behind
  when it succeeds, and that an error leaves the state it started from.
\<close>

section \<open>The backend's calls\<close>

definition quiet :: "('x \<Rightarrow> nat set) \<Rightarrow> 'x \<Rightarrow> ('a, 'e) outcome \<times> 'x \<Rightarrow> bool" where
  "quiet used x m \<longleftrightarrow> fst m \<noteq> Panic \<and> used x \<subseteq> used (snd m)"

definition kv_laws :: "('x, 'b) KvBackend \<Rightarrow> ('x \<Rightarrow> nat set) \<Rightarrow> bool" where
  "kv_laws B used \<longleftrightarrow>
     (\<forall>x. fst (kb_new_rc B x) \<notin> used x \<and> insert (fst (kb_new_rc B x)) (used x) \<subseteq> used (snd (kb_new_rc B x))) \<and>
     (\<forall>n x. quiet used x (kb_reserve B n x)) \<and> (\<forall>l c x. quiet used x (kb_allocate B l c x)) \<and>
     (\<forall>b x. quiet used x (kb_clone B b x)) \<and> (\<forall>b x. quiet used x (kb_download B b x)) \<and>
     (\<forall>s c x. quiet used x (kb_restore B s c x))"

named_theorems quiet_intros

lemma quiet_value [quiet_intros]: "quiet used x (Ok a, x)" "quiet used x (Err e, x)"
  by (simp_all add: quiet_def)

lemma quiet_mono: "quiet used y m \<Longrightarrow> used x \<subseteq> used y \<Longrightarrow> quiet used x m"
  by (auto simp: quiet_def)

lemma quiet_try_st [quiet_intros]:
  assumes "quiet used x m" and "\<And>a y. m = (Ok a, y) \<Longrightarrow> quiet used y (f a y)"
  shows "quiet used x (try_st m f)"
  using assms by (cases m; cases "fst m") (fastforce simp: quiet_def)+

lemma quiet_try_pure [quiet_intros]:
  assumes "r \<noteq> Panic" and "\<And>a. r = Ok a \<Longrightarrow> quiet used x (f a)"
  shows "quiet used x (try_pure r x f)"
  using assms by (cases r) (simp_all add: quiet_value)

lemma quiet_calls [quiet_intros]:
  assumes "kv_laws B used"
  shows "quiet used x (kb_reserve B n x)" "quiet used x (kb_allocate B l c x)" "quiet used x (kb_clone B b x)"
    "quiet used x (kb_download B b x)" "quiet used x (kb_restore B s c x)"
  using assms by (simp_all add: kv_laws_def)

lemma quiet_reserve_vec [quiet_intros]:
  assumes "kv_laws B used"
  shows "quiet used x (reserve_vec B n w x)"
proof -
  obtain r y where r: "kb_reserve B n x = (r, y)" by (cases "kb_reserve B n x")
  show ?thesis using quiet_calls(1) [OF assms, of x n] by (cases r) (simp_all add: reserve_vec_def r quiet_def)
qed

lemma quiet_allocate_each: "kv_laws B used \<Longrightarrow> quiet used x (allocate_each B layout n x)"
  by (induction n arbitrary: x) (auto intro!: quiet_intros)

lemma quiet_allocate_layers [quiet_intros]: "kv_laws B used \<Longrightarrow> quiet used x (allocate_layers B layout n x)"
  unfolding allocate_layers_def by (intro quiet_intros quiet_allocate_each) assumption

lemma allocate_each_length: "allocate_each B layout n x = (Ok ls, y) \<Longrightarrow> length ls = n"
  by (induction n arbitrary: x ls) (fastforce simp: try_st_cases split: outcome.splits prod.splits)+

lemma allocate_layers_length: "allocate_layers B layout n x = (Ok ls, y) \<Longrightarrow> length ls = n"
  by (auto simp: allocate_layers_def try_st_cases dest: allocate_each_length split: outcome.splits prod.splits)

lemma size_u64_no_panic [simp]: "size_u64 f n \<noteq> Panic"
  by (simp add: size_u64_def)

lemma nonzero_size_no_panic [simp]: "nonzero_size f n \<noteq> Panic"
  by (simp add: nonzero_size_def)

lemma and_then_eq_Panic: "and_then r f = Panic \<longleftrightarrow> r = Panic \<or> (\<exists>a. r = Ok a \<and> f a = Panic)"
  by (cases r) auto

lemma layout_no_panic [simp]: "layout_dense st n k \<noteq> Panic" "layout_u32 n \<noteq> Panic" "dtype_layout d n \<noteq> Panic"
proof -
  show l: "layout_dense st n k \<noteq> Panic" for st n k
    by (simp add: layout_dense_def nonzero_def and_then_eq_Panic)
  show "layout_u32 n \<noteq> Panic" by (simp add: layout_u32_def l)
  show "dtype_layout d n \<noteq> Panic"
    by (cases d) (simp_all add: layout_f16_def layout_f32_def l layout_q8_kv_def nonzero_def divisible_def and_then_eq_Panic)
qed

lemma storage_layout_no_panic [simp]: "storage_layout layers capacity s \<noteq> Panic"
  by (simp add: storage_layout_def and_then_eq_Panic)

lemma dtype_capacity_no_panic [simp]: "dtype_capacity requested remaining s \<noteq> Panic"
  by (simp add: dtype_capacity_def)

lemma next_revision_no_panic [simp]: "next_revision n s \<noteq> Panic"
  by (simp add: next_revision_def)

lemma next_revision_Ok: "next_revision n s = Ok r \<Longrightarrow> unat r = unat (kv_revision s) + unat n"
  by (simp add: next_revision_def checked_arith)


lemma allocate_storage_run:
  fixes B :: "('x, 'b) KvBackend"
  assumes "kv_laws B used"
  shows "quiet used x (allocate_storage B layers capacity s x)"
    "allocate_storage B layers capacity s x = (Ok st, y) \<Longrightarrow>
      st_capacity_tokens st = capacity \<and> st_address st \<notin> used x \<and> st_address st \<in> used y \<and> length (st_layers st) = layers"
proof -
  have new: "fst (kb_new_rc B z) \<notin> used z" "insert (fst (kb_new_rc B z)) (used z) \<subseteq> used (snd (kb_new_rc B z))" for z
    using assms by (auto simp: kv_laws_def)
  have last: "quiet used z (case kb_new_rc B z of (address, u) \<Rightarrow> (Ok (f address), u))" for f :: "nat \<Rightarrow> 'b KvStorage" and z
    using new [of z] by (auto simp: quiet_def split: prod.splits)
  show "quiet used x (allocate_storage B layers capacity s x)"
    unfolding allocate_storage_def
    by (rule quiet_try_pure; clarsimp; intro quiet_intros assms last nonzero_size_no_panic)
  assume run: "allocate_storage B layers capacity s x = (Ok st, y)"
  then obtain layout bytes where l: "storage_layout layers capacity s = Ok (layout, bytes)"
    by (auto simp: allocate_storage_def try_pure_cases split: outcome.splits)
  obtain ls z where a: "allocate_layers B layout layers x = (Ok ls, z)"
    using run by (auto simp: allocate_storage_def l try_st_cases split: outcome.splits prod.splits)
  have c: "0 < capacity" using run by (auto simp: allocate_storage_def l a try_pure_cases split: outcome.splits)
  have "used x \<subseteq> used z" using quiet_allocate_layers [OF assms, of x layout layers] by (simp add: a quiet_def)
  then show "st_capacity_tokens st = capacity \<and> st_address st \<notin> used x \<and> st_address st \<in> used y \<and> length (st_layers st) = layers"
    using run c new [of z] allocate_layers_length [OF a] by (auto simp: allocate_storage_def l a nonzero_size_def split: prod.splits)
qed

lemma capture_closed:
  "capture_append_rollback B (s, x) =
    (case try_st (reserve_vec B (length (kv_segments s)) ''allocate KV rollback tokens'' x) (\<lambda>_ x1.
          try_st (reserve_vec B (length (kv_segments s)) ''allocate KV rollback segments'' x1) (\<lambda>_ x2. (Ok (captured s), x2))) of
       (r, y) \<Rightarrow> (r, s, y))"
  by (simp add: capture_append_rollback_def Let_def on_world_def captured_def try_st_cases split: prod.splits outcome.splits)

lemma capture_run:
  assumes "capture_append_rollback B (s, x) = (r, t, y)"
  shows "t = s" "r = Ok rb \<Longrightarrow> rb = captured s" "kv_laws B used \<Longrightarrow> r \<noteq> Panic \<and> used x \<subseteq> used y"
proof -
  let ?m = "try_st (reserve_vec B (length (kv_segments s)) ''allocate KV rollback tokens'' x) (\<lambda>_ x1.
          try_st (reserve_vec B (length (kv_segments s)) ''allocate KV rollback segments'' x1) (\<lambda>_ x2. (Ok (captured s), x2)))"
  have m: "?m = (r, y)" and t: "t = s" using assms by (auto simp: capture_closed split: prod.splits)
  show "t = s" by (rule t)
  show "r = Ok rb \<Longrightarrow> rb = captured s" using m by (auto simp: try_st_cases split: outcome.splits prod.splits)
  assume "kv_laws B used"
  then have "quiet used x ?m" by (intro quiet_intros)
  then show "r \<noteq> Panic \<and> used x \<subseteq> used y" by (simp add: m quiet_def)
qed

section \<open>Staging\<close>

text \<open>
  \<open>rearranged s t\<close>: the operation kept what a cache is for (its device position, shape and
  dtype, the committed rows and the position), and when it moved a buffer it raised the revision that
  tells a captured graph of the move.
\<close>

definition moved :: "'b KvState \<Rightarrow> 'b KvState \<Rightarrow> bool" where
  "moved s t \<longleftrightarrow> kv_device_position t = kv_device_position s \<and> kv_dtype t = kv_dtype s \<and>
     (unat (kv_revision s) < unat (kv_revision t) \<or>
      kv_revision t = kv_revision s \<and> kv_shape t = kv_shape s \<and> map erase (kv_segments t) = map erase (kv_segments s))"

definition rearranged :: "'b KvState \<Rightarrow> 'b KvState \<Rightarrow> bool" where
  "rearranged s t \<longleftrightarrow> moved s t \<and> kv_ok t \<and> kv_rows t = kv_rows s \<and> kv_shape t = kv_shape s"

lemma moved_trans: "moved s t \<Longrightarrow> moved t u \<Longrightarrow> moved s u"
  by (auto simp: moved_def)

lemma moved_self [simp]: "moved s s"
  by (simp add: moved_def)

lemma rearranged_position: "rearranged s t \<Longrightarrow> kv_ok s \<Longrightarrow> kv_position t = kv_position s"
  by (simp add: rearranged_def kv_ok_def)

lemma rearranged_trans: "rearranged s t \<Longrightarrow> rearranged t u \<Longrightarrow> rearranged s u"
  using moved_trans by (fastforce simp: rearranged_def)

lemma rearranged_self: "kv_ok s \<Longrightarrow> rearranged s s"
  by (simp add: rearranged_def)

lemma writable_fits:
  assumes "kv_ok s" and "kv_pending s = Some target"
  shows "pending_target_writable unique (target\<lparr>ar_tokens := n\<rparr>) s \<longleftrightarrow>
    unique (address_of (last (kv_segments s))) \<and> sg_committed_tokens (last (kv_segments s)) + n \<le> capacity_of (last (kv_segments s))"
proof -
  obtain gs g where g: "kv_segments s = gs @ [g]"
    using kv_okD(5) [OF assms(1)] by (cases "kv_segments s" rule: rev_cases) (auto simp: pending_ok_def assms(2))
  note T = tail_start [OF assms(1) g]
  have p: "ar_segment_index target = length gs" "ar_start target = sg_logical_start g + sg_committed_tokens g"
    using kv_okD(5) [OF assms(1)] by (auto simp: pending_ok_def assms(2) g T(2))
  have "capacity_of g < usize_limit" using T(4) kv_okD(3) [OF assms(1)] by linarith
  then show ?thesis
    by (auto simp: pending_target_writable_def p g Let_def usize_checked_sub_def usize_checked_add_def)
qed

lemma retarget_run:
  assumes "kv_ok s" and "kv_pending s = Some pending" and "0 < tokens" "kv_position s + tokens \<le> sh_max_context (kv_shape s)"
    and "retarget_pending unique pending tokens s = (r, t)"
  shows "r \<noteq> Panic" "r = Err e \<or> r = Ok None \<Longrightarrow> t = s"
    "r = Ok (Some target) \<Longrightarrow> rearranged s t \<and> kv_pending t = Some target \<and> ar_tokens target = tokens"
proof -
  let ?new = "pending\<lparr>ar_tokens := tokens\<rparr>"
  note run = assms(5) [unfolded retarget_pending_def Let_def try_pure_cases]
  show "r \<noteq> Panic" "r = Err e \<or> r = Ok None \<Longrightarrow> t = s" using run by (auto split: if_splits outcome.splits)
  assume "r = Ok (Some target)"
  then obtain v where v: "pending_target_writable unique ?new s" "next_revision 1 s = Ok v" "target = ?new"
      "t = s\<lparr>kv_pending := Some ?new, kv_revision := v\<rparr>"
    using run by (auto split: if_splits outcome.splits)
  have "pending_ok t"
    using kv_okD(5) [OF assms(1)] v(1) [unfolded writable_fits [OF assms(1,2)]] assms(3,4)
    by (simp add: pending_ok_def assms(2) v(4))
  then have "kv_ok t" using kv_okD(1-4) [OF assms(1)] by (simp add: kv_ok_def v(4) kv_rows_def)
  then show "rearranged s t \<and> kv_pending t = Some target \<and> ar_tokens target = tokens"
    using next_revision_Ok [OF v(2)] by (simp add: rearranged_def moved_def v(3,4) kv_rows_def)
qed

end
