(* ===== verification/Kv_Steps.thy ===== *)
theory Kv_Steps
  imports Kv_Prepare
begin

text \<open>
  The effect of each operation of a cache that has the invariant, on every outcome.
\<close>

section \<open>The append target\<close>

text \<open>The world knows the identities of a state's storages, which have the model's layers.\<close>

definition tracked :: "('x \<Rightarrow> nat set) \<Rightarrow> nat \<Rightarrow> 'x \<Rightarrow> 'b KvState \<Rightarrow> bool" where
  "tracked used layers x s \<longleftrightarrow> (\<forall>g\<in>set (kv_segments s). address_of g \<in> used x \<and> length (st_layers (sg_storage g)) = layers)"

lemma tracked_sub:
  assumes "tracked used layers x s" and "sg_storage ` set (kv_segments t) \<subseteq> sg_storage ` set (kv_segments s)" and "used x \<subseteq> used y"
  shows "tracked used layers y t"
proof -
  have "address_of g \<in> used y \<and> length (st_layers (sg_storage g)) = layers" if "g \<in> set (kv_segments t)" for g
  proof -
    from subsetD [OF assms(2) imageI [OF that]]
    obtain h where h: "h \<in> set (kv_segments s)" "sg_storage g = sg_storage h" by auto
    then have "address_of h \<in> used x" "length (st_layers (sg_storage h)) = layers" using assms(1) by (simp_all add: tracked_def)
    then show ?thesis using assms(3) by (auto simp: h(2))
  qed
  then show ?thesis by (simp add: tracked_def)
qed

lemma tracked_update [simp]:
  "tracked used layers x (s\<lparr>kv_pending := a\<rparr>) = tracked used layers x s" "tracked used layers x (s\<lparr>kv_revision := r\<rparr>) = tracked used layers x s"
  "tracked used layers x (s\<lparr>kv_position := p\<rparr>) = tracked used layers x s" "tracked used layers x (s\<lparr>kv_shape := h\<rparr>) = tracked used layers x s"
  by (simp_all add: tracked_def)

lemma tracked_mono: "tracked used layers x s \<Longrightarrow> used x \<subseteq> used y \<Longrightarrow> tracked used layers y s"
  by (erule tracked_sub) simp_all

lemma tracked_same: "tracked used layers x s \<Longrightarrow> kv_segments t = kv_segments s \<Longrightarrow> tracked used layers x t"
  by (simp add: tracked_def)

lemma kv_rows_update [simp]:
  "kv_rows (s\<lparr>kv_segments := gs\<rparr>) = rows_of gs" "kv_rows (s\<lparr>kv_pending := a\<rparr>) = kv_rows s"
  "kv_rows (s\<lparr>kv_revision := r\<rparr>) = kv_rows s" "kv_rows (s\<lparr>kv_position := p\<rparr>) = kv_rows s"
  "kv_rows (s\<lparr>kv_shape := h\<rparr>) = kv_rows s" "kv_rows (s\<lparr>kv_graph_revision := w\<rparr>) = kv_rows s"
  by (simp_all add: kv_rows_def)

text \<open>\<open>prepared tokens target s t\<close>: \<open>t\<close> is \<open>s\<close> with \<open>target\<close> pending after the position.\<close>

definition prepared :: "nat \<Rightarrow> KvAppendRange \<Rightarrow> 'b KvState \<Rightarrow> 'b KvState \<Rightarrow> bool" where
  "prepared tokens target s t \<longleftrightarrow> rearranged s t \<and> kv_pending t = Some target \<and> ar_tokens target = tokens"

lemma discard_rollback_run:
  assumes "kv_ok s" and "discard_pending_with_rollback (s, captured s) = (r, t, rb)"
  shows "peeled s t rb" "r \<noteq> Panic" "r = Ok u \<Longrightarrow> rearranged s t \<and> kv_pending t = None"
proof -
  obtain b v rv where d: "detach_pending (s, captured s) = (b, v, rv)" by (rule prod_cases3)
  note D = detach_run [OF assms(1) d]
  have "peeled s t rb \<and> r \<noteq> Panic \<and> (r = Ok u \<longrightarrow> rearranged s t \<and> kv_pending t = None)"
  proof (cases "kv_pending s")
    case None
    then have "t = s" "rb = captured s" "r = Ok ()" using assms(2) by (auto simp: discard_pending_with_rollback_def)
    then show ?thesis using None assms(1) by (simp add: rearranged_self)
  next
    case (Some q)
    then have "(case next_revision 1 s of Ok n \<Rightarrow> (Ok (), v\<lparr>kv_pending := None, kv_revision := n\<rparr>, rv)
        | Err e \<Rightarrow> (Err e, s, captured s) | Panic \<Rightarrow> (Panic, s, captured s)) = (r, t, rb)"
      using assms(2) by (simp add: discard_pending_with_rollback_def try_pure_cases d)
    then consider (ok) n where "next_revision 1 s = Ok n" "r = Ok ()" "t = v\<lparr>kv_pending := None, kv_revision := n\<rparr>" "rb = rv"
      | (err) e where "r = Err e" "t = s" "rb = captured s"
      by (cases "next_revision 1 s") auto
    then show ?thesis
    proof cases
      case ok
      have "kv_ok t"
        using committed_ok [OF assms(1)] kv_okD(2,3) [OF assms(1)]
        by (simp add: kv_ok_def ok(3) D(3) pending_ok_def)
      moreover have "peeled s t rb" by (simp only: ok(3,4) peeled_frame D(1))
      ultimately show ?thesis
        using committed_ok(3) [OF assms(1)] next_revision_Ok [OF ok(1)]
        by (simp add: ok(2) rearranged_def moved_def) (simp add: ok(3) D(3) kv_rows_def)
    next
      case err
      then show ?thesis by simp
    qed
  qed
  then show "peeled s t rb" "r \<noteq> Panic" "r = Ok u \<Longrightarrow> rearranged s t \<and> kv_pending t = None" by blast+
qed

lemma pending_append_run:
  assumes ok: "kv_ok s" and n: "0 < tokens" "kv_position s + tokens \<le> sh_max_context (kv_shape s)"
    and run: "pending_append unique tokens (s, captured s) = (r, t, rb)"
  shows "r \<noteq> Panic" "r = Err e \<or> r = Ok None \<Longrightarrow> peeled s t rb" "r = Ok None \<Longrightarrow> rearranged s t \<and> kv_pending t = None"
    "r = Ok (Some target) \<Longrightarrow> prepared tokens target s t"
proof -
  have "r \<noteq> Panic \<and> (r = Err e \<or> r = Ok None \<longrightarrow> peeled s t rb) \<and> (r = Ok None \<longrightarrow> rearranged s t \<and> kv_pending t = None) \<and>
    (r = Ok (Some target) \<longrightarrow> prepared tokens target s t)"
  proof (cases "kv_pending s")
    case None
    then have "r = Ok None" "t = s" "rb = captured s" using run by (auto simp: pending_append_def)
    then show ?thesis using ok None by (simp add: rearranged_self)
  next
    case (Some pending)
    have start: "ar_start pending = kv_position s" using kv_okD(5) [OF ok] by (simp add: pending_ok_def Some)
    define still where "still = (\<lambda>m. if \<exists>y. kv_pending (fst m) = Some y
            then (Err (Operation ''prepare KV append'' ''another append target is pending''), m) else (Ok (None :: KvAppendRange option), m :: 'a KvState \<times> 'a KvAppendRollback))"
    show ?thesis
    proof (cases "ar_tokens pending = tokens \<and> pending_target_writable unique pending s")
      case True
      then have "r = Ok (Some pending)" "t = s" using run by (simp_all add: pending_append_def Some start)
      then show ?thesis using True Some ok by (auto simp: prepared_def rearranged_self)
    next
      case False
      obtain r1 t1 where 1: "(if ar_tokens pending \<noteq> tokens then retarget_pending unique pending tokens s else (Ok None, s)) = (r1, t1)"
        by fastforce
      have R: "r1 \<noteq> Panic" "r1 = Err f \<or> r1 = Ok None \<Longrightarrow> t1 = s" "r1 = Ok (Some target) \<Longrightarrow> prepared tokens target s t1" for f
        using 1 retarget_run [OF ok Some n, of unique r1 t1] by (auto simp: prepared_def split: if_splits)
      have m: "try_st (r1, t1, captured s) (\<lambda>retargeted m1. case retargeted of
                Some target \<Rightarrow> (Ok (Some target), m1)
              | None \<Rightarrow> try_st (discard_pending_with_rollback m1) (\<lambda>_ m2. still m2)) = (r, t, rb)"
        using run False 1 unfolding still_def by (auto simp: pending_append_def Some start Let_def split: if_splits prod.splits)
      obtain r2 t2 rb2 where 2: "discard_pending_with_rollback (s, captured s) = (r2, t2, rb2)" by (rule prod_cases3)
      note D = discard_rollback_run [OF ok 2]
      show ?thesis
      proof (cases r1)
        case (Ok v)
        show ?thesis
        proof (cases v)
          case None
          then have t1: "t1 = s" using R(2) Ok by simp
          show ?thesis
            using m D by (cases r2) (auto simp: Ok None t1 2 still_def)
        next
          case (Some w)
          then show ?thesis using m R(3) Ok by auto
        qed
      next
        case (Err f)
        then show ?thesis using m R(2) [of f] by auto
      qed (use R in auto)
    qed
  qed
  then show "r \<noteq> Panic" "r = Err e \<or> r = Ok None \<Longrightarrow> peeled s t rb" "r = Ok None \<Longrightarrow> rearranged s t \<and> kv_pending t = None"
    "r = Ok (Some target) \<Longrightarrow> prepared tokens target s t" by blast+
qed

lemma reusable_tail_run:
  assumes ok: "kv_ok s" and none: "kv_pending s = None" and n: "0 < tokens" "kv_position s + tokens \<le> sh_max_context (kv_shape s)"
    and run: "reusable_tail unique tokens s = Some (index, remaining)"
  defines "target \<equiv> \<lparr>ar_start = kv_position s, ar_tokens = tokens, ar_segment_index = index\<rparr>"
  shows "prepared tokens target s (s\<lparr>kv_pending := Some target\<rparr>)"
proof -
  obtain gs g where g: "kv_segments s = gs @ [g]"
    using run by (cases "kv_segments s" rule: rev_cases) (auto simp: reusable_tail_def)
  have r: "index = length gs" "sg_committed_tokens g + tokens \<le> capacity_of g"
    using run tail_start(3) [OF ok g] by (auto simp: reusable_tail_def g Let_def split: if_splits option.splits)
  have "full gs" using kv_okD(5) [OF ok] by (simp add: pending_ok_def none g)
  then have "pending_ok (s\<lparr>kv_pending := Some target\<rparr>)" using r n by (simp add: pending_ok_def g target_def)
  then show ?thesis
    using kv_okD(1-4) [OF ok] by (simp add: prepared_def rearranged_def moved_def kv_ok_def kv_rows_def) (simp add: target_def)
qed

lemma allocate_append_run:
  assumes ok: "kv_ok s" and none: "kv_pending s = None" and n: "0 < tokens" "kv_position s + tokens \<le> sh_max_context (kv_shape s)"
    and run: "allocate_append B layers tokens growth_tokens (s, x) = (r, t, y)"
  shows "r = Err e \<Longrightarrow> t = s" "kv_laws B used \<Longrightarrow> r \<noteq> Panic \<and> used x \<subseteq> used y"
    "kv_laws B used \<Longrightarrow> tracked used layers x s \<Longrightarrow> r = Ok target \<Longrightarrow>
      prepared tokens target s t \<and> tracked used layers y t"
proof -
  let ?cap = "min (max (max growth_tokens tokens) 1) (sh_max_context (kv_shape s) - kv_position s)"
  have le: "kv_position s \<le> sh_max_context (kv_shape s)" using n by linarith
  then have sub: "usize_checked_sub (sh_max_context (kv_shape s)) (kv_position s) = Some (sh_max_context (kv_shape s) - kv_position s)"
    by (simp add: usize_checked_sub_def)
  define world where "world = (\<lambda>capacity. try_st (reserve_vec B 1 ''allocate KV segments'' x) (\<lambda>_ x1. allocate_storage B layers capacity s x1))"
  define result where "result = (\<lambda>revision storage.
      (s\<lparr>kv_segments := kv_segments s @ [\<lparr>sg_logical_start = kv_position s, sg_committed_tokens = 0, sg_storage = storage\<rparr>],
         kv_pending := Some \<lparr>ar_start = kv_position s, ar_tokens = tokens, ar_segment_index = length (kv_segments s)\<rparr>, kv_revision := revision\<rparr>))"
  have closed: "allocate_append B layers tokens growth_tokens (s, x) =
      try_pure (next_revision 1 s) (s, x) (\<lambda>revision.
      try_pure (dtype_capacity ?cap (sh_max_context (kv_shape s) - kv_position s) s) (s, x) (\<lambda>capacity.
      (case world capacity of (Ok storage, z) \<Rightarrow>
          (Ok \<lparr>ar_start = kv_position s, ar_tokens = tokens, ar_segment_index = length (kv_segments s)\<rparr>, result revision storage, z)
        | (Err e, z) \<Rightarrow> (Err e, s, z) | (Panic, z) \<Rightarrow> (Panic, s, z))))"
    by (auto simp: allocate_append_def Let_def sub checked_size_def on_world_def world_def result_def try_pure_cases try_st_cases
        split: outcome.splits prod.splits)
  note run' = run [unfolded closed try_pure_cases]
  show "r = Err e \<Longrightarrow> t = s" using run' by (auto split: outcome.splits prod.splits)
  have quiet: "quiet used x (world capacity)" if "kv_laws B used" for capacity
    unfolding world_def by (intro quiet_intros that allocate_storage_run)
  show "r \<noteq> Panic \<and> used x \<subseteq> used y" if "kv_laws B used"
    using run' quiet [OF that] unfolding quiet_def
    by (auto split: outcome.splits prod.splits) (metis fst_conv snd_conv subsetD)+
  assume L: "kv_laws B used" and A: "tracked used layers x s" and Ok: "r = Ok target"
  then obtain v storage where v: "next_revision 1 s = Ok v" "world ?cap = (Ok storage, y)" "t = result v storage"
      "target = \<lparr>ar_start = kv_position s, ar_tokens = tokens, ar_segment_index = length (kv_segments s)\<rparr>"
    using run' by (auto simp: dtype_capacity_def split: outcome.splits prod.splits if_splits)
  obtain x1 where x1: "reserve_vec B 1 ''allocate KV segments'' x = (Ok (), x1)" "allocate_storage B layers ?cap s x1 = (Ok storage, y)"
    using v(2) by (auto simp: world_def try_st_cases split: outcome.splits prod.splits)
  have mono: "used x \<subseteq> used x1" using quiet_reserve_vec [OF L, of x 1 "''allocate KV segments''"] x1(1) by (simp add: quiet_def)
  have mono': "used x1 \<subseteq> used y" using allocate_storage_run(1) [OF L, of x1 layers ?cap s] x1(2) by (simp add: quiet_def)
  note S = allocate_storage_run(2) [OF L x1(2)]
  have cap: "tokens \<le> ?cap" "?cap \<le> sh_max_context (kv_shape s) - kv_position s" using n by linarith+
  have full: "full (kv_segments s)" using kv_okD(5) [OF ok] by (simp add: pending_ok_def none)
  have "kv_ok t"
    using kv_okD(1-4) [OF ok] full S cap n A mono le
    by (auto simp: kv_ok_def v(3) result_def pending_ok_def chained_append kv_rows_def seg_rows_def tracked_def)
  moreover have "kv_rows t = kv_rows s" by (simp add: v(3) result_def kv_rows_def seg_rows_def)
  ultimately have "prepared tokens target s t"
    using next_revision_Ok [OF v(1)] by (simp add: prepared_def rearranged_def moved_def v(3,4) result_def)
  moreover have "tracked used layers y t" using A S mono mono' by (auto simp: v(3) result_def tracked_def)
  ultimately show "prepared tokens target s t \<and> tracked used layers y t" ..
qed


section \<open>Preparing an append\<close>

lemma retarget_segments: "retarget_pending unique pending tokens s = (r, t) \<Longrightarrow> kv_segments t = kv_segments s"
  by (auto simp: retarget_pending_def Let_def try_pure_cases split: if_splits outcome.splits)

lemma detach_segments: "detach_pending m = (b, t, rb) \<Longrightarrow> set (kv_segments t) \<subseteq> set (kv_segments (fst m))"
  by (auto simp: detach_pending_def Let_def split: prod.splits option.splits if_splits dest: in_set_butlastD)

lemma discard_segments: "discard_pending_with_rollback m = (r, t, rb) \<Longrightarrow> set (kv_segments t) \<subseteq> set (kv_segments (fst m))"
  using detach_segments [of m] by (fastforce simp: discard_pending_with_rollback_def try_pure_cases split: if_splits prod.splits outcome.splits)

lemma pending_append_segments:
  assumes "pending_append unique tokens (s, rb0) = (r, t, rb)"
  shows "set (kv_segments t) \<subseteq> set (kv_segments s)"
proof (cases "kv_pending s")
  case None
  then show ?thesis using assms by (simp add: pending_append_def)
next
  case (Some pending)
  obtain r1 t1 where 1: "retarget_pending unique pending tokens s = (r1, t1)" by fastforce
  have t1: "kv_segments t1 = kv_segments s" by (rule retarget_segments [OF 1])
  have d: "set (kv_segments t') \<subseteq> set (kv_segments s)" if "discard_pending_with_rollback (u, rb0) = (r', t', rb')" "kv_segments u = kv_segments s" for u r' t' rb'
    using discard_segments [OF that(1)] that(2) by simp
  show ?thesis
    using assms t1 d by (auto simp: pending_append_def Some Let_def 1 try_st_cases split: if_splits outcome.splits option.splits prod.splits; blast)
qed

lemma prepare_staged_run:
  assumes ok: "kv_ok s" and n: "0 < tokens" "kv_position s + tokens \<le> sh_max_context (kv_shape s)"
    and run: "prepare_append_staged B unique layers tokens growth_tokens ((s, captured s), x) = (r, (t, rb), y)"
  shows "r = Err e \<Longrightarrow> peeled s t rb" "kv_laws B used \<Longrightarrow> r \<noteq> Panic \<and> used x \<subseteq> used y"
    "kv_laws B used \<Longrightarrow> tracked used layers x s \<Longrightarrow> r = Ok target \<Longrightarrow>
      prepared tokens target s t \<and> tracked used layers y t"
proof -
  obtain p u ru where p: "pending_append unique tokens (s, captured s) = (p, u, ru)" by (rule prod_cases3)
  note P = pending_append_run [OF ok n p] and sub = pending_append_segments [OF p]
  have sub': "tracked used layers x u" if "tracked used layers x s" using sub that by (auto simp: tracked_def)
  consider (err) f where "p = Err f" | (reuse) tg where "p = Ok (Some tg)" | (none) "p = Ok None"
    using P(1) by (cases p) auto
  then have "(r = Err e \<longrightarrow> peeled s t rb) \<and> (kv_laws B used \<longrightarrow> r \<noteq> Panic \<and> used x \<subseteq> used y) \<and>
     (kv_laws B used \<longrightarrow> tracked used layers x s \<longrightarrow> r = Ok target \<longrightarrow>
      prepared tokens target s t \<and> tracked used layers y t)"
  proof cases
    case err
    then have "r = Err f" "t = u" "rb = ru" "y = x" using run by (auto simp: prepare_append_staged_def on_kv_def p)
    then show ?thesis using P(2) err by auto
  next
    case reuse
    then have "r = Ok tg" "t = u" "rb = ru" "y = x" using run by (auto simp: prepare_append_staged_def on_kv_def p)
    then show ?thesis using P(4) reuse sub' by auto
  next
    case none
    have U: "rearranged s u" "kv_pending u = None" "peeled s u ru" using P(2,3) none by auto
    have u: "kv_ok u" "kv_position u = kv_position s" "kv_shape u = kv_shape s"
      using U(1) rearranged_position [OF U(1) ok] by (simp_all add: rearranged_def)
    note n' = n [folded u(2,3)]
    have trans: "prepared tokens tg u v \<Longrightarrow> prepared tokens tg s v" for tg v
      using rearranged_trans [OF U(1)] by (auto simp: prepared_def)
    show ?thesis
    proof (cases "reusable_tail unique tokens u")
      case (Some ir)
      obtain index remaining where ir: "ir = (index, remaining)" by fastforce
      note T = trans [OF reusable_tail_run [OF u(1) U(2) n' Some [unfolded ir]]]
      then show ?thesis
        using run sub' by (auto simp: prepare_append_staged_def on_kv_def p none Some ir Let_def)
    next
      case None
      obtain r1 t1 y1 where a: "allocate_append B layers tokens growth_tokens (u, x) = (r1, t1, y1)" by (rule prod_cases3)
      note A = allocate_append_run [OF u(1) U(2) n' a]
      have t: "r = r1" "t = t1" "rb = ru" "y = y1"
        using run by (auto simp: prepare_append_staged_def on_kv_def p none None a)
      show ?thesis unfolding t using A U(3) sub' trans by blast
    qed
  qed
  then show "r = Err e \<Longrightarrow> peeled s t rb" "kv_laws B used \<Longrightarrow> r \<noteq> Panic \<and> used x \<subseteq> used y"
    "kv_laws B used \<Longrightarrow> tracked used layers x s \<Longrightarrow> r = Ok target \<Longrightarrow>
      prepared tokens target s t \<and> tracked used layers y t" by blast+
qed

lemma append_end_Ok:
  assumes "check_append_end tokens s = Ok u"
  shows "kv_position s + tokens \<le> sh_max_context (kv_shape s)"
  using assms by (auto simp: check_append_end_def and_then_eq_Ok split: if_splits)

lemma append_end_no_panic [simp]: "check_append_end tokens s \<noteq> Panic"
  by (simp add: check_append_end_def and_then_eq_Panic)

lemma prepare_append_run:
  assumes ok: "kv_ok s" and run: "prepare_append B unique layers tokens growth_tokens (s, x) = (r, t, y)"
  shows "r = Err e \<Longrightarrow> t = s" "kv_laws B used \<Longrightarrow> r \<noteq> Panic \<and> used x \<subseteq> used y"
    "kv_laws B used \<Longrightarrow> tracked used layers x s \<Longrightarrow> r = Ok target \<Longrightarrow>
      prepared tokens target s t \<and> tracked used layers y t"
proof -
  have "(r = Err e \<longrightarrow> t = s) \<and> (kv_laws B used \<longrightarrow> r \<noteq> Panic \<and> used x \<subseteq> used y) \<and>
     (kv_laws B used \<longrightarrow> tracked used layers x s \<longrightarrow> r = Ok target \<longrightarrow>
      prepared tokens target s t \<and> tracked used layers y t)"
  proof (cases "0 < tokens \<and> check_append_end tokens s = Ok ()")
    case False
    then have "t = s \<and> y = x \<and> (\<exists>f. r = Err f)"
      using run by (auto simp: prepare_append_def try_pure_cases nonzero_size_def split: outcome.splits if_splits)
    then show ?thesis by auto
  next
    case True
    then have n: "0 < tokens" "check_append_end tokens s = Ok ()" "kv_position s + tokens \<le> sh_max_context (kv_shape s)"
      using append_end_Ok by auto
    have nz: "nonzero_size f tokens = Ok tokens" for f using n(1) by simp
    obtain c u z where c: "capture_append_rollback B (s, x) = (c, u, z)" by (rule prod_cases3)
    note C = capture_run [OF c]
    obtain r1 t1 rb1 y1 where p: "prepare_append_staged B unique layers tokens growth_tokens ((s, captured s), z) = (r1, (t1, rb1), y1)"
      by (metis prod.exhaust)
    note P = prepare_staged_run [OF ok n(1,3) p]
    show ?thesis
    proof (cases c)
      case (Ok rb)
      have rb: "rb = captured s" "u = s" using C(1,2) Ok by simp_all
      have res: "(case (r1, (t1, rb1), y1) of (Ok target, (s, _), x) \<Rightarrow> (Ok target, s, x)
          | (Err e, (s, rb), x) \<Rightarrow> (Err e, restore_append_position rb s, x) | (Panic, (s, _), x) \<Rightarrow> (Panic, s, x)) = (r, t, y)"
        using run by (cases r1) (auto simp: prepare_append_def nz n(2) c Ok rb p)
      show ?thesis
      proof (cases r1)
        case (Ok tg)
        then have e: "r = Ok tg" "t = t1" "y = y1" using res by auto
        have z: "tracked used layers z s" if "kv_laws B used" "tracked used layers x s"
          using tracked_mono [OF that(2)] C(3) [OF that(1)] by blast
        have "used x \<subseteq> used y1" if "kv_laws B used" using C(3) [OF that] P(2) [OF that] by blast
        then show ?thesis unfolding e using Ok P(3) z(1) by simp
      next
        case (Err f)
        then have "t = s" using res restore_peeled [OF P(1) [OF Err]] by simp
        then show ?thesis using res Err P(2) C(3) by auto
      next
        case Panic
        then show ?thesis using res P(2) by auto
      qed
    qed (use run C in \<open>auto simp: prepare_append_def nz n(2) c\<close>)
  qed
  then show "r = Err e \<Longrightarrow> t = s" "kv_laws B used \<Longrightarrow> r \<noteq> Panic \<and> used x \<subseteq> used y"
    "kv_laws B used \<Longrightarrow> tracked used layers x s \<Longrightarrow> r = Ok target \<Longrightarrow>
      prepared tokens target s t \<and> tracked used layers y t" by blast+
qed

end
