(* ===== verification/Kv_Moves.thy ===== *)
theory Kv_Moves
  imports Kv_Steps
begin

text \<open>
  The operations that move a cache to a position (\<open>truncate\<close>, \<open>prepare_append_at\<close>,
  \<open>prepare_shape_transition\<close>) and those that end an append (\<open>commit_append\<close>,
  \<open>discard_pending\<close>), with their effect on each outcome.
\<close>

section \<open>Cutting\<close>

text \<open>\<open>cut_to p s t\<close>: \<open>t\<close> holds the first \<open>p\<close> rows of \<open>s\<close>.\<close>

definition cut_to :: "nat \<Rightarrow> 'b KvState \<Rightarrow> 'b KvState \<Rightarrow> bool" where
  "cut_to p s t \<longleftrightarrow> moved s t \<and> kv_ok t \<and> kv_rows t = take p (kv_rows s) \<and> kv_shape t = kv_shape s \<and> kv_position t = p \<and>
     sg_storage ` set (kv_segments t) \<subseteq> sg_storage ` set (kv_segments s)"

lemma kv_ok_revision [simp]: "kv_ok (s\<lparr>kv_revision := v\<rparr>) = kv_ok s"
  by (cases "kv_pending s") (simp_all add: kv_ok_def pending_ok_def)

lemma staged_self [simp]: "staged s s (captured s)"
  by (simp add: peeled_staged)

lemma bool_sum:
  "checked_add (bool_u64 a) (bool_u64 b) = Some (bool_u64 a + bool_u64 b)"
  "b \<Longrightarrow> 0 < unat (bool_u64 a + bool_u64 b)"
  by (cases a; cases b; simp add: bool_u64_def checked_add_def)+

lemma finish_run:
  assumes "staged s t rb" and "0 < unat inc" and "finish_staged_revision rb inc t = (r, u)"
  shows "r = Err e \<Longrightarrow> u = s" "r \<noteq> Panic"
    "r = Ok rb' \<Longrightarrow> rb' = rb \<and> (\<exists>v. u = t\<lparr>kv_revision := v\<rparr> \<and> unat (kv_revision t) < unat v)"
  using assms restore_staged [OF assms(1)]
  by (auto simp: finish_staged_revision_def dest!: checked_add_unat split: if_splits option.splits)

lemma cut_finish:
  assumes ok: "kv_ok s" and p: "p \<le> kv_position s" and cut: "cut_at p (s, captured s) = (a, b, c, t, rb)"
    and run: "finish_staged_revision rb (bool_u64 a + bool_u64 ((a \<or> b \<or> c) \<or> kv_position s = p)) (t\<lparr>kv_position := p\<rparr>) = (r, u)"
  shows "r = Err e \<Longrightarrow> u = s" "r \<noteq> Panic"
    "r = Ok rb' \<Longrightarrow> staged s u rb' \<and> cut_to p s u \<and> kv_pending u = None"
proof -
  note C = cut_run [OF ok cut]
  have any: "(a \<or> b \<or> c) \<or> kv_position s = p" using C(4) p by auto
  have st: "staged s (t\<lparr>kv_position := p\<rparr>) rb" using C(1) by simp
  note F = finish_run [OF st bool_sum(2) [OF any] run]
  show "r = Err e \<Longrightarrow> u = s" "r \<noteq> Panic" using F(1,2) by blast+
  assume "r = Ok rb'"
  then obtain v where v: "rb' = rb" "u = t\<lparr>kv_position := p, kv_revision := v\<rparr>" "unat (kv_revision t) < unat v"
    using F(3) by auto
  note K = cut_ok [OF ok p]
  have "kv_ok u" using K(1) by (simp add: v(2) C(2) kv_ok_def pending_ok_def)
  moreover have "sg_storage ` set (kv_segments u) \<subseteq> sg_storage ` set (kv_segments s)"
    by (auto simp: v(2) C(2) cut_segments_def committed_segments_def)
  ultimately have "cut_to p s u"
    using K(2) v(3) by (simp add: cut_to_def moved_def v(2) C(2))
  moreover have "staged s u rb'" using C(1) by (simp add: v(1,2))
  ultimately show "staged s u rb' \<and> cut_to p s u \<and> kv_pending u = None" by (simp add: v(2) C(2))
qed

lemma truncate_run:
  assumes ok: "kv_ok s" and run: "truncate B p (s, x) = (r, t, y)"
  shows "r = Err e \<Longrightarrow> t = s" "kv_laws B used \<Longrightarrow> r \<noteq> Panic \<and> used x \<subseteq> used y"
    "r = Ok w \<Longrightarrow> p \<le> kv_position s \<and> cut_to p s t \<and> kv_pending t = None"
proof -
  have "(r = Err e \<longrightarrow> t = s) \<and> (kv_laws B used \<longrightarrow> r \<noteq> Panic \<and> used x \<subseteq> used y) \<and>
    (r = Ok w \<longrightarrow> p \<le> kv_position s \<and> cut_to p s t \<and> kv_pending t = None)"
  proof (cases "p \<le> kv_position s")
    case False
    then show ?thesis using run by (auto simp: truncate_def)
  next
    case p: True
    obtain c u z where c: "capture_append_rollback B (s, x) = (c, u, z)" by (rule prod_cases3)
    note C = capture_run [OF c]
    show ?thesis
    proof (cases c)
      case (Ok rb0)
      have rb: "rb0 = captured s" "u = s" using C(1,2) Ok by simp_all
      obtain a b d v rb where cut: "cut_at p (s, captured s) = (a, b, d, v, rb)" by (metis prod_cases5)
      obtain r1 u1 where fin: "finish_staged_revision rb (bool_u64 a + bool_u64 ((a \<or> b \<or> d) \<or> kv_position s = p)) (v\<lparr>kv_position := p\<rparr>) = (r1, u1)"
        by fastforce
      note F = cut_finish [OF ok p cut fin]
      have "try_st (r1, u1, z) (\<lambda>_ m2. (Ok (), m2)) = (r, t, y)"
        using run p fin by (simp add: truncate_def c Ok rb cut bool_sum(1) Let_def on_kv_def)
      then show ?thesis using F C(3) p by (cases r1) auto
    qed (use run C p in \<open>auto simp: truncate_def c Let_def\<close>)
  qed
  then show "r = Err e \<Longrightarrow> t = s" "kv_laws B used \<Longrightarrow> r \<noteq> Panic \<and> used x \<subseteq> used y"
    "r = Ok w \<Longrightarrow> p \<le> kv_position s \<and> cut_to p s t \<and> kv_pending t = None" by blast+
qed

lemma stage_run:
  assumes ok: "kv_ok s" and run: "stage_append_position B unique p tokens (s, x) = (r, t, y)"
  shows "r = Err e \<Longrightarrow> t = s" "kv_laws B used \<Longrightarrow> r \<noteq> Panic \<and> used x \<subseteq> used y"
    "r = Ok rb \<Longrightarrow> p \<le> kv_position s \<and> staged s t rb \<and> cut_to p s t"
proof -
  have "(r = Err e \<longrightarrow> t = s) \<and> (kv_laws B used \<longrightarrow> r \<noteq> Panic \<and> used x \<subseteq> used y) \<and>
    (r = Ok rb \<longrightarrow> p \<le> kv_position s \<and> staged s t rb \<and> cut_to p s t)"
  proof (cases "p \<le> kv_position s")
    case False
    then show ?thesis using run by (auto simp: stage_append_position_def)
  next
    case p: True
    obtain c u z where c: "capture_append_rollback B (s, x) = (c, u, z)" by (rule prod_cases3)
    note C = capture_run [OF c]
    show ?thesis
    proof (cases c)
      case (Ok rb0)
      have rb: "rb0 = captured s" "u = s" using C(1,2) Ok by simp_all
      show ?thesis
      proof (cases "pending_reusable_at unique p tokens s")
        case True
        then have same: "p = kv_position s" by (auto simp: pending_reusable_at_def split: option.splits)
        obtain r1 u1 where fin: "finish_staged_revision (captured s) (bool_u64 False + bool_u64 True) s = (r1, u1)" by fastforce
        have "s\<lparr>kv_position := kv_position s\<rparr> = s" by simp
        then have res: "(r1, u1, z) = (r, t, y)"
          using run fin True by (simp add: stage_append_position_def c Ok rb same captured_def bool_sum(1) Let_def on_kv_def)
        note F = finish_run [OF peeled_staged [OF peeled_self] bool_sum(2) [OF TrueI] fin]
        have "take (kv_position s) (kv_rows s) = kv_rows s" using kv_okD(2) [OF ok] by simp
        then have "cut_to p s (s\<lparr>kv_revision := v\<rparr>)" if "unat (kv_revision s) < unat v" for v
          using ok that by (simp add: cut_to_def moved_def same kv_okD(2))
        then show ?thesis using F res C(3) p by auto
      next
        case False
        obtain a b d v rb1 where cut: "cut_at p (s, captured s) = (a, b, d, v, rb1)" by (metis prod_cases5)
        obtain r1 u1 where fin: "finish_staged_revision rb1 (bool_u64 a + bool_u64 ((a \<or> b \<or> d) \<or> kv_position s = p)) (v\<lparr>kv_position := p\<rparr>) = (r1, u1)"
          by fastforce
        note F = cut_finish [OF ok p cut fin]
        have pos: "rb_position rb1 = kv_position s" by (rule cut_run(5) [OF ok cut])
        have "(r1, u1, z) = (r, t, y)"
          using run p fin False by (simp add: stage_append_position_def c Ok rb cut bool_sum(1) Let_def on_kv_def pos)
        then show ?thesis using F C(3) p by auto
      qed
    qed (use run C p in \<open>auto simp: stage_append_position_def c Let_def\<close>)
  qed
  then show "r = Err e \<Longrightarrow> t = s" "kv_laws B used \<Longrightarrow> r \<noteq> Panic \<and> used x \<subseteq> used y"
    "r = Ok rb \<Longrightarrow> p \<le> kv_position s \<and> staged s t rb \<and> cut_to p s t" by blast+
qed


section \<open>Preparing an append at a position\<close>

text \<open>\<open>prepared_at p shape appends s t\<close>: \<open>t\<close> has the first \<open>p\<close> rows of \<open>s\<close> and, when \<open>appends\<close>
  gives a target, has it pending.\<close>

definition prepared_at :: "nat \<Rightarrow> AttentionShape \<Rightarrow> KvAppendRange option \<Rightarrow> 'b KvState \<Rightarrow> 'b KvState \<Rightarrow> bool" where
  "prepared_at p shape target s t \<longleftrightarrow> p \<le> kv_position s \<and> moved s t \<and> kv_ok t \<and> kv_rows t = take p (kv_rows s) \<and>
     kv_shape t = shape \<and> kv_pending t = target"

lemma prepare_at_run:
  assumes ok: "kv_ok s" and run: "prepare_append_at B unique layers p tokens growth_tokens (s, x) = (r, t, y)"
  shows "r = Err e \<Longrightarrow> t = s" "kv_laws B used \<Longrightarrow> r \<noteq> Panic \<and> used x \<subseteq> used y"
    "kv_laws B used \<Longrightarrow> tracked used layers x s \<Longrightarrow> r = Ok target \<Longrightarrow>
      prepared_at p (kv_shape s) (Some target) s t \<and> ar_tokens target = tokens \<and> tracked used layers y t"
proof -
  obtain r1 u z where st: "stage_append_position B unique p tokens (s, x) = (r1, u, z)" by (rule prod_cases3)
  note S = stage_run [OF ok st]
  have "(r = Err e \<longrightarrow> t = s) \<and> (kv_laws B used \<longrightarrow> r \<noteq> Panic \<and> used x \<subseteq> used y) \<and>
    (kv_laws B used \<longrightarrow> tracked used layers x s \<longrightarrow> r = Ok target \<longrightarrow>
      prepared_at p (kv_shape s) (Some target) s t \<and> ar_tokens target = tokens \<and> tracked used layers y t)"
  proof (cases r1)
    case (Ok rb)
    have U: "p \<le> kv_position s" "staged s u rb" "cut_to p s u" using S(3) Ok by auto
    then have u: "kv_ok u" by (simp add: cut_to_def)
    obtain r2 v w where pr: "prepare_append B unique layers tokens growth_tokens (u, z) = (r2, v, w)" by (rule prod_cases3)
    note P = prepare_append_run [OF u pr]
    have res: "(case r2 of Ok target \<Rightarrow> (Ok target, v, w) | Err e \<Rightarrow> (Err e, restore_append_position rb v, w) | Panic \<Rightarrow> (Panic, v, w)) = (r, t, y)"
      using run by (cases r2) (auto simp: prepare_append_at_def st Ok pr)
    show ?thesis
    proof (cases r2)
      case Okay: (Ok tg)
      have track: "tracked used layers z u" if "kv_laws B used" "tracked used layers x s"
        using tracked_sub [OF that(2)] S(2) [OF that(1)] U(3) unfolding cut_to_def by blast
      have prep: "prepared_at p (kv_shape s) (Some target) s v" if "prepared tokens target u v"
        using that U(1,3) by (auto simp: prepared_def rearranged_def cut_to_def prepared_at_def intro: moved_trans)
      have e: "r = Ok tg" "t = v" "y = w" using res Okay by auto
      have mono: "used x \<subseteq> used w" if "kv_laws B used" using P(2) [OF that] S(2) [OF that] by blast
      have "prepared_at p (kv_shape s) (Some target) s v \<and> ar_tokens target = tokens \<and> tracked used layers w v"
        if "kv_laws B used" "tracked used layers x s" "tg = target"
        using P(3) [OF that(1) track [OF that(1,2)], of target] Okay that(3) prep by (simp add: prepared_def)
      then show ?thesis unfolding e using mono by simp
    next
      case (Err f)
      then have "t = s" using res restore_staged [OF U(2)] P(1) by simp
      moreover have "r = Err f" "y = w" using res Err by auto
      moreover have "used x \<subseteq> used w" if "kv_laws B used" using P(2) [OF that] S(2) [OF that] by blast
      ultimately show ?thesis by simp
    next
      case Panic
      then show ?thesis using res P(2) by auto
    qed
  next
    case (Err f)
    then have "r = Err f" "t = u" "y = z" using run by (auto simp: prepare_append_at_def st)
    then show ?thesis using S(1) [OF Err] S(2) by auto
  next
    case Panic
    then show ?thesis using run S(2) by (auto simp: prepare_append_at_def st)
  qed
  then show "r = Err e \<Longrightarrow> t = s" "kv_laws B used \<Longrightarrow> r \<noteq> Panic \<and> used x \<subseteq> used y"
    "kv_laws B used \<Longrightarrow> tracked used layers x s \<Longrightarrow> r = Ok target \<Longrightarrow>
      prepared_at p (kv_shape s) (Some target) s t \<and> ar_tokens target = tokens \<and> tracked used layers y t" by blast+
qed

lemma growth_run:
  assumes ok: "kv_ok s" and h: "sh_max_context shape < usize_limit" and run: "stage_shape_growth shape s = (r, t)"
  shows "r = Err e \<Longrightarrow> t = s" "r \<noteq> Panic"
    "r = Ok u \<Longrightarrow> kv_ok t \<and> moved s t \<and> kv_shape t = shape \<and> kv_rows t = kv_rows s \<and> kv_position t = kv_position s \<and>
      kv_segments t = kv_segments s \<and> restore_append_position (captured s) t = s"
proof -
  note run' = run [unfolded stage_shape_growth_def try_pure_cases]
  show "r = Err e \<Longrightarrow> t = s" "r \<noteq> Panic" using run' by (auto split: if_splits outcome.splits)
  assume Ok: "r = Ok u"
  show "kv_ok t \<and> moved s t \<and> kv_shape t = shape \<and> kv_rows t = kv_rows s \<and> kv_position t = kv_position s \<and>
      kv_segments t = kv_segments s \<and> restore_append_position (captured s) t = s"
  proof (cases "shape = kv_shape s")
    case True
    then have "t = s" using run' by simp
    then show ?thesis
      using ok True by (simp add: restore_peeled)
  next
    case False
    then obtain v where v: "can_grow_to shape s" "next_revision 1 s = Ok v" "t = s\<lparr>kv_revision := v, kv_shape := shape, kv_graph_revision := None\<rparr>"
      using run' Ok by (auto split: if_splits outcome.splits)
    have le: "sh_max_context (kv_shape s) \<le> sh_max_context shape" using v(1) by (simp add: can_grow_to_def)
    have "pending_ok t" using kv_okD(5) [OF ok] le by (auto simp: pending_ok_def v(3) split: option.splits)
    then have "kv_ok t" using kv_okD(1-4) [OF ok] h chained_mono [OF _ le] by (auto simp: kv_ok_def v(3))
    then show ?thesis using next_revision_Ok [OF v(2)] restore_shape [of s None shape v] by (auto simp: moved_def v(3))
  qed
qed

lemma transition_run:
  assumes ok: "kv_ok s" and h: "sh_max_context shape < usize_limit"
    and run: "prepare_shape_transition B unique layers shape p first_append (s, x) = (r, t, y)"
  shows "r = Err e \<Longrightarrow> t = s" "kv_laws B used \<Longrightarrow> r \<noteq> Panic \<and> used x \<subseteq> used y"
    "kv_laws B used \<Longrightarrow> tracked used layers x s \<Longrightarrow> r = Ok w \<Longrightarrow>
      (\<exists>target. prepared_at p shape target s t \<and> map_option ar_tokens target = map_option fst first_append) \<and> tracked used layers y t"
proof -
  obtain c u0 z where c: "capture_append_rollback B (s, x) = (c, u0, z)" by (rule prod_cases3)
  note C = capture_run [OF c]
  have "(r = Err e \<longrightarrow> t = s) \<and> (kv_laws B used \<longrightarrow> r \<noteq> Panic \<and> used x \<subseteq> used y) \<and>
    (kv_laws B used \<longrightarrow> tracked used layers x s \<longrightarrow> r = Ok w \<longrightarrow>
      (\<exists>target. prepared_at p shape target s t \<and> map_option ar_tokens target = map_option fst first_append) \<and> tracked used layers y t)"
  proof (cases c)
    case (Ok rb)
    have rb: "rb = captured s" "u0 = s" using C(1,2) Ok by simp_all
    obtain r1 u where g: "stage_shape_growth shape s = (r1, u)" by fastforce
    note G = growth_run [OF ok h g]
    show ?thesis
    proof (cases r1)
      case Grown: (Ok n)
      have U: "kv_ok u" "moved s u" "kv_shape u = shape" "kv_rows u = kv_rows s" "kv_position u = kv_position s" using G(3) Grown by auto
      have segs: "kv_segments u = kv_segments s" and undo: "restore_append_position (captured s) u = s" using G(3) Grown by auto
      let ?call = "case first_append of
          Some (tokens, growth_tokens) \<Rightarrow> try_st (prepare_append_at B unique layers p tokens growth_tokens (u, z)) (\<lambda>_ m3. (Ok (), m3))
        | None \<Rightarrow> truncate B p (u, z)"
      obtain r2 v w' where call: "?call = (r2, v, w')" by (rule prod_cases3)
      have res: "(case r2 of Ok n \<Rightarrow> (Ok n, v, w') | Err e \<Rightarrow> (Err e, restore_append_position (captured s) v, w') | Panic \<Rightarrow> (Panic, v, w')) = (r, t, y)"
        using run call by (cases r2) (auto simp: prepare_shape_transition_def c Ok rb on_kv_def g Grown)
      have N: "(r2 = Err f \<longrightarrow> v = u) \<and> (kv_laws B used \<longrightarrow> r2 \<noteq> Panic \<and> used z \<subseteq> used w') \<and>
        (kv_laws B used \<longrightarrow> tracked used layers z u \<longrightarrow> r2 = Ok n \<longrightarrow>
          (\<exists>target. prepared_at p shape target u v \<and> map_option ar_tokens target = map_option fst first_append) \<and> tracked used layers w' v)" for f n
      proof (cases first_append)
        case None
        then have tr: "truncate B p (u, z) = (r2, v, w')" using call by simp
        note T = truncate_run [OF U(1) tr]
        have "prepared_at p shape None u v" if "p \<le> kv_position u \<and> cut_to p u v \<and> kv_pending v = None"
          using that U(3) by (simp add: prepared_at_def cut_to_def)
        moreover have "tracked used layers w' v" if "kv_laws B used" "tracked used layers z u" "cut_to p u v"
          using tracked_sub [OF that(2)] T(2) [OF that(1)] that(3) unfolding cut_to_def by blast
        ultimately show ?thesis using T None by auto
      next
        case (Some tg)
        obtain tokens growth_tokens where tg: "tg = (tokens, growth_tokens)" by fastforce
        obtain r3 v3 w3 where pa: "prepare_append_at B unique layers p tokens growth_tokens (u, z) = (r3, v3, w3)" by (rule prod_cases3)
        note T = prepare_at_run [OF U(1) pa]
        have some: "\<exists>target. prepared_at p shape target u v3 \<and> map_option ar_tokens target = Some tokens"
          if "prepared_at p shape (Some target) u v3" "ar_tokens target = tokens" for target
          using that by (intro exI [of _ "Some target"]) simp
        have e: "r2 = (case r3 of Ok _ \<Rightarrow> Ok () | Err e \<Rightarrow> Err e | Panic \<Rightarrow> Panic)" "v = v3" "w' = w3"
          using call by (cases r3; simp add: Some tg pa)+
        show ?thesis
        proof (cases r3)
          case (Ok target)
          have "(\<exists>target. prepared_at p shape target u v3 \<and> map_option ar_tokens target = Some tokens) \<and> tracked used layers w3 v3"
            if "kv_laws B used" "tracked used layers z u"
            using T(3) [OF that, of target] Ok some [of target] unfolding U(3) by blast
          then show ?thesis using T(2) by (simp add: e Ok Some tg)
        next
          case (Err f)
          then show ?thesis using T(1) [OF Err] T(2) by (simp add: e Err)
        next
          case Panic
          then show ?thesis using T(2) [of used] by (auto simp: e Panic)
        qed
      qed
      have trans: "prepared_at p shape target s v" if "prepared_at p shape target u v" for target
        using that U(2,4,5) by (auto simp: prepared_at_def intro: moved_trans)
      show ?thesis
      proof (cases r2)
        case Okay: (Ok n)
        then have e: "r = Ok n" "t = v" "y = w'" using res by auto
        have mono: "used x \<subseteq> used w'" if "kv_laws B used" using C(3) [OF that] N that by blast
        have "tracked used layers z u" if "kv_laws B used" "tracked used layers x s"
          using tracked_same [OF tracked_mono [OF that(2)] segs] C(3) [OF that(1)] by blast
        then have "(\<exists>target. prepared_at p shape target s v \<and> map_option ar_tokens target = map_option fst first_append) \<and> tracked used layers w' v"
          if "kv_laws B used" "tracked used layers x s" using N [of undefined n] Okay that trans by blast
        then show ?thesis unfolding e using mono by simp
      next
        case (Err f)
        then have "t = s" using res N [of f] undo by simp
        moreover have "r = Err f" "y = w'" using res Err by auto
        moreover have "used x \<subseteq> used w'" if "kv_laws B used" using C(3) [OF that] N that by blast
        ultimately show ?thesis by simp
      next
        case Panic
        then show ?thesis using res N by auto
      qed
    next
      case (Err f)
      then have "r = Err f" "t = restore_append_position (captured s) u" "y = z"
        using run by (auto simp: prepare_shape_transition_def c Ok rb on_kv_def g)
      then show ?thesis using G(1) [OF Err] C(3) restore_peeled [OF peeled_self] by auto
    qed (use G in auto)
  qed (use run C in \<open>auto simp: prepare_shape_transition_def c\<close>)
  then show "r = Err e \<Longrightarrow> t = s" "kv_laws B used \<Longrightarrow> r \<noteq> Panic \<and> used x \<subseteq> used y"
    "kv_laws B used \<Longrightarrow> tracked used layers x s \<Longrightarrow> r = Ok w \<Longrightarrow>
      (\<exists>target. prepared_at p shape target s t \<and> map_option ar_tokens target = map_option fst first_append) \<and> tracked used layers y t" by blast+
qed

end
