(* ===== verification/Kv_Commit.thy ===== *)
theory Kv_Commit
  imports Kv_Moves
begin

text \<open>
  The operations that end an append (\<open>commit_append\<close>, \<open>discard_pending\<close>), the fork of a
  cache, the read and write spans over its segments, and its snapshots.
\<close>

section \<open>Committing and discarding\<close>

lemma kv_commit_run:
  assumes ok: "kv_ok s" and pending: "kv_pending s = Some target" and segs: "kv_segments s = gs @ [g]"
  defines "t \<equiv> s\<lparr>kv_segments := gs @ [g\<lparr>sg_committed_tokens := sg_committed_tokens g + ar_tokens target\<rparr>],
      kv_position := kv_position s + ar_tokens target, kv_pending := None\<rparr>"
  shows "commit_append target s = (Ok (), t)" "kv_ok t"
    "kv_rows t = kv_rows s @ map (\<lambda>i. (address_of g, sg_committed_tokens g + i)) [0..<ar_tokens target]"
proof -
  note T = tail_start [OF ok segs]
  have p: "full gs" "ar_segment_index target = length gs" "ar_start target = kv_position s" "0 < ar_tokens target"
    "sg_committed_tokens g + ar_tokens target \<le> capacity_of g" "kv_position s + ar_tokens target \<le> sh_max_context (kv_shape s)"
    using kv_okD(5) [OF ok] by (simp_all add: pending_ok_def pending segs)
  have lim: "kv_position s + ar_tokens target < usize_limit" "sg_committed_tokens g + ar_tokens target < usize_limit"
    using p(5,6) T(4) kv_okD(3) [OF ok] by linarith+
  have start: "ar_start target - sg_logical_start g = sg_committed_tokens g" "sg_logical_start g \<le> ar_start target"
    using T(2) p(3) by simp_all
  show "commit_append target s = (Ok (), t)"
    using p lim start
    by (simp add: commit_append_def pending segs get_or_def usize_checked_sub_def usize_checked_add_def checked_size_def Let_def t_def)
  show "kv_ok t"
    using kv_okD(1-4) [OF ok] p by (simp add: kv_ok_def t_def segs pending_ok_def kv_rows_def chained_append)
  have "[0..<sg_committed_tokens g + ar_tokens target] = [0..<sg_committed_tokens g] @ map (\<lambda>i. sg_committed_tokens g + i) [0..<ar_tokens target]"
    using upt_add_eq_append [of 0 "sg_committed_tokens g" "ar_tokens target"] map_add_upt [of "sg_committed_tokens g" "ar_tokens target"]
    by (simp add: add.commute)
  then show "kv_rows t = kv_rows s @ map (\<lambda>i. (address_of g, sg_committed_tokens g + i)) [0..<ar_tokens target]"
    by (simp add: kv_rows_def t_def segs seg_rows_def comp_def)
qed

lemma commit_other: "kv_pending s \<noteq> Some target \<Longrightarrow> \<exists>e. commit_append target s = (Err e, s)"
  by (simp add: commit_append_def)

lemma commit_step:
  assumes ok: "kv_ok s" and run: "commit_append target s = (r, t)"
  shows "kv_ok t" "r \<noteq> Panic" "r = Err e \<Longrightarrow> t = s" "sg_storage ` set (kv_segments t) \<subseteq> sg_storage ` set (kv_segments s)"
    "moved s t"
proof -
  have "moved s t \<and> kv_ok t \<and> r \<noteq> Panic \<and> (r = Err e \<longrightarrow> t = s) \<and> sg_storage ` set (kv_segments t) \<subseteq> sg_storage ` set (kv_segments s)"
  proof (cases "kv_pending s = Some target")
    case True
    obtain gs g where segs: "kv_segments s = gs @ [g]"
      using kv_okD(5) [OF ok] by (cases "kv_segments s" rule: rev_cases) (auto simp: pending_ok_def True)
    note C = kv_commit_run [OF ok True segs]
    show ?thesis using run C(1,2) by (auto simp: segs moved_def erase_def)
  next
    case False
    then show ?thesis using run commit_other [OF False] ok by auto
  qed
  then show "kv_ok t" "r \<noteq> Panic" "r = Err e \<Longrightarrow> t = s" "sg_storage ` set (kv_segments t) \<subseteq> sg_storage ` set (kv_segments s)" "moved s t" by blast+
qed

lemma discard_run:
  assumes ok: "kv_ok s" and run: "discard_pending s = (r, t)"
  shows "r \<noteq> Panic" "r = Err e \<Longrightarrow> t = s" "r = Ok u \<Longrightarrow> rearranged s t \<and> kv_pending t = None"
    "sg_storage ` set (kv_segments t) \<subseteq> sg_storage ` set (kv_segments s)"
proof -
  have "r \<noteq> Panic \<and> (r = Err e \<longrightarrow> t = s) \<and> (r = Ok u \<longrightarrow> rearranged s t \<and> kv_pending t = None) \<and>
    sg_storage ` set (kv_segments t) \<subseteq> sg_storage ` set (kv_segments s)"
  proof (cases "kv_pending s")
    case None
    then show ?thesis using run ok by (auto simp: discard_pending_def rearranged_self)
  next
    case (Some q)
    let ?C = "committed_segments s"
    note C = committed_ok [OF ok]
    define u0 where "u0 = s\<lparr>kv_pending := None, kv_segments := ?C\<rparr>"
    have u0: "kv_ok u0" using C kv_okD(2,3) [OF ok] by (simp add: u0_def kv_ok_def pending_ok_def)
    have pos: "(if ?C = [] then 0 else usize_add (sg_logical_start (last ?C)) (sg_committed_tokens (last ?C))) = kv_position s"
    proof (cases ?C rule: rev_cases)
      case Nil
      then show ?thesis using C(3) kv_okD(2) [OF ok] by simp
    next
      case (snoc gs g)
      then show ?thesis using tail_start(6) [OF u0, of gs g] by (simp add: u0_def)
    qed
    consider (ok) v where "next_revision 1 s = Ok v" | (err) f where "next_revision 1 s = Err f" by (cases "next_revision 1 s") auto
    then show ?thesis
    proof cases
      case ok
      have t: "r = Ok ()" "t = u0\<lparr>kv_revision := v\<rparr>"
        using run pos unfolding committed_segments_def
        by (auto simp: discard_pending_def Some ok Let_def u0_def committed_segments_def)
      have "sg_storage ` set (kv_segments t) \<subseteq> sg_storage ` set (kv_segments s)" by (auto simp: t u0_def committed_segments_def)
      then show ?thesis using u0 C(3) next_revision_Ok [OF ok] by (simp add: t rearranged_def moved_def) (simp add: u0_def)
    next
      case err
      then show ?thesis using run by (auto simp: discard_pending_def Some)
    qed
  qed
  then show "r \<noteq> Panic" "r = Err e \<Longrightarrow> t = s" "r = Ok u \<Longrightarrow> rearranged s t \<and> kv_pending t = None"
    "sg_storage ` set (kv_segments t) \<subseteq> sg_storage ` set (kv_segments s)" by blast+
qed

section \<open>New caches and forks\<close>

lemma kv_new_run:
  assumes "kv_new B layers shape dtype x = (r, y)" and "sh_max_context shape < usize_limit"
  shows "r = Ok s \<Longrightarrow> kv_ok s \<and> kv_segments s = []" "kv_laws B used \<Longrightarrow> r \<noteq> Panic \<and> used x \<subseteq> used y"
proof -
  show "r = Ok s \<Longrightarrow> kv_ok s \<and> kv_segments s = []"
    using assms by (auto simp: kv_new_def try_pure_cases try_st_cases kv_ok_def kv_rows_def pending_ok_def split: outcome.splits prod.splits)
  assume L: "kv_laws B used"
  have "quiet used x (kv_new B layers shape dtype x)"
    unfolding kv_new_def by (intro quiet_intros L) simp
  then show "r \<noteq> Panic \<and> used x \<subseteq> used y" by (simp add: assms(1) quiet_def)
qed

lemma fork_run:
  assumes ok: "kv_ok s" and run: "kv_fork B s x = (r, y)"
  shows "r = Ok t \<Longrightarrow> kv_ok t \<and> kv_rows t = kv_rows s \<and> kv_pending t = None \<and> kv_segments t = committed_segments s"
    "kv_laws B used \<Longrightarrow> r \<noteq> Panic \<and> used x \<subseteq> used y"
proof -
  assume "r = Ok t"
  then obtain b where t: "t = \<lparr>kv_segments = committed_segments s, kv_position = kv_position s, kv_device_position = b,
      kv_shape = kv_shape s, kv_dtype = kv_dtype s, kv_revision = kv_revision s, kv_graph_revision = None, kv_pending = None\<rparr>"
    using run by (auto simp: kv_fork_def try_st_cases split: outcome.splits prod.splits)
  note C = committed_ok [OF ok]
  have seg: "kv_segments t = committed_segments s" by (simp add: t)
  have rows: "kv_rows t = kv_rows s" using C(3) by (simp add: kv_rows_def seg)
  then have "kv_ok t" using C kv_okD(2,3) [OF ok] by (simp add: kv_ok_def pending_ok_def) (simp add: t)
  then show "kv_ok t \<and> kv_rows t = kv_rows s \<and> kv_pending t = None \<and> kv_segments t = committed_segments s"
    using rows by (simp add: t)
next
  assume L: "kv_laws B used"
  have "quiet used x (kv_fork B s x)" unfolding kv_fork_def by (intro quiet_intros L)
  then show "r \<noteq> Panic \<and> used x \<subseteq> used y" by (simp add: run quiet_def)
qed


section \<open>Read spans\<close>

text \<open>The span \<open>collect_spans\<close> makes of a segment, and the rows of a layer's key buffers that
  the committed tokens stand for.\<close>

definition span_of :: "nat \<Rightarrow> nat \<Rightarrow> 'b KvSegment \<Rightarrow> 'b KvReadSpan" where
  "span_of layer n g = (let l = st_layers (sg_storage g) ! layer in
     \<lparr>ks_key = kl_key l, ks_value = kl_value l, ks_logical_start = sg_logical_start g, ks_tokens = n, ks_capacity_tokens = capacity_of g\<rparr>)"

definition key_rows :: "nat \<Rightarrow> 'b KvSegment list \<Rightarrow> ('b \<times> nat) list" where
  "key_rows layer gs = concat (map (\<lambda>g. map (\<lambda>i. (kl_key (st_layers (sg_storage g) ! layer), i)) [0..<sg_committed_tokens g]) gs)"

lemma key_rows_simps [simp]:
  "key_rows layer [] = []"
  "key_rows layer (g # gs) = map (\<lambda>i. (kl_key (st_layers (sg_storage g) ! layer), i)) [0..<sg_committed_tokens g] @ key_rows layer gs"
  "key_rows layer (gs @ hs) = key_rows layer gs @ key_rows layer hs"
  by (simp_all add: key_rows_def)

lemma length_key_rows: "length (key_rows layer gs) = length (rows_of gs)"
  by (induction gs) simp_all

lemma collect_full:
  assumes "chained limit b gs" and "full gs" and "limit < usize_limit" and "\<forall>g\<in>set gs. layer < length (st_layers (sg_storage g))"
    and "\<forall>j<length gs. map_option ar_segment_index pending \<noteq> Some (index + j)"
  shows "collect_spans layer pending index (gs @ hs) =
    and_then (collect_spans layer pending (index + length gs) hs) (\<lambda>ss. Ok (map (\<lambda>g. span_of layer (sg_committed_tokens g) g) gs @ ss))"
  using assms
proof (induction gs arbitrary: b index)
  case Nil
  then show ?case by (cases "collect_spans layer pending index hs") simp_all
next
  case (Cons g gs)
  have g: "sg_logical_start g = b" "0 < capacity_of g" "0 < sg_committed_tokens g" "sg_committed_tokens g \<le> capacity_of g" "b + capacity_of g < usize_limit"
    using Cons.prems(1-3) by auto
  have not: "map_option ar_segment_index pending \<noteq> Some index" using Cons.prems(5) by fastforce
  have rest: "\<forall>j<length gs. map_option ar_segment_index pending \<noteq> Some (Suc index + j)"
  proof (intro allI impI)
    fix j
    assume "j < length gs"
    then show "map_option ar_segment_index pending \<noteq> Some (Suc index + j)" using Cons.prems(5) [rule_format, of "Suc j"] by simp
  qed
  have IH: "collect_spans layer pending (Suc index) (gs @ hs) =
    and_then (collect_spans layer pending (Suc index + length gs) hs) (\<lambda>ss. Ok (map (\<lambda>g. span_of layer (sg_committed_tokens g) g) gs @ ss))"
    using Cons.prems by (intro Cons.IH [OF _ _ _ _ rest]) auto
  have span: "read_span_new (kl_key l) (kl_value l) (sg_logical_start g) (sg_committed_tokens g) (capacity_of g) = Ok (span_of layer (sg_committed_tokens g) g)"
    if "l = st_layers (sg_storage g) ! layer" for l
    using g that unfolding read_span_new_Ok by (simp add: span_of_def Let_def)
  show ?case
    using g(3) not Cons.prems(4) IH
    by (cases "collect_spans layer pending (Suc index + length gs) hs") (auto simp: get_or_def Let_def span)
qed

lemma coverage_full:
  assumes "chained limit b gs" and "limit < usize_limit"
  shows "check_coverage (map (\<lambda>g. span_of layer (sg_committed_tokens g) g) gs @ ss) b = check_coverage ss (b + length (rows_of gs))"
  using assms
proof (induction gs arbitrary: b)
  case (Cons g gs)
  have "b + sg_committed_tokens g < usize_limit" using Cons.prems by auto
  then show ?case using Cons by (simp add: span_of_def Let_def checked_size_def usize_checked_add_def add.assoc)
qed simp

lemma span_rows_full [simp]:
  "span_rows (map (\<lambda>g. span_of layer (sg_committed_tokens g) g) gs @ ss) = key_rows layer gs @ span_rows ss"
  by (induction gs) (simp_all add: span_of_def Let_def)

text \<open>The spans of a cache, as the loop computes them, and what they cover.\<close>

lemma spans_run:
  assumes ok: "kv_ok s" and layers: "\<forall>g\<in>set (kv_segments s). layer < length (st_layers (sg_storage g))"
  obtains spans m where "collect_spans layer (kv_pending s) 0 (kv_segments s) = Ok spans" "check_coverage spans 0 = Ok m"
    "kv_position s \<le> m" "take (kv_position s) (span_rows spans) = key_rows layer (kv_segments s)"
    "kv_pending s = None \<Longrightarrow> m = kv_position s"
    "\<And>target. kv_pending s = Some target \<Longrightarrow> m = sg_logical_start (last (kv_segments s)) + capacity_of (last (kv_segments s))"
proof (cases "kv_pending s")
  case None
  let ?spans = "map (\<lambda>g. span_of layer (sg_committed_tokens g) g) (kv_segments s)"
  have full: "full (kv_segments s)" using kv_okD(5) [OF ok] by (simp add: pending_ok_def None)
  have c: "collect_spans layer (kv_pending s) 0 (kv_segments s) = Ok ?spans"
    using collect_full [OF kv_okD(1) [OF ok] full kv_okD(3) [OF ok] layers, of None 0 "[]"] by (simp add: None)
  have k: "check_coverage ?spans 0 = Ok (kv_position s)"
    using coverage_full [OF kv_okD(1,3) [OF ok], of layer "[]"] kv_okD(2) [OF ok] by (simp add: kv_rows_def)
  have r: "take (kv_position s) (span_rows ?spans) = key_rows layer (kv_segments s)"
    using span_rows_full [of layer "kv_segments s" "[]"] kv_okD(2) [OF ok] length_key_rows [of layer "kv_segments s"] by (simp add: kv_rows_def)
  show ?thesis by (rule that [OF c k _ r]) (simp_all add: None)
next
  case (Some target)
  obtain gs g where segs: "kv_segments s = gs @ [g]"
    using kv_okD(5) [OF ok] by (cases "kv_segments s" rule: rev_cases) (auto simp: pending_ok_def Some)
  note T = tail_start [OF ok segs]
  have p: "full gs" "ar_segment_index target = length gs" using kv_okD(5) [OF ok] by (simp_all add: pending_ok_def Some segs)
  have chain: "chained (sh_max_context (kv_shape s)) 0 gs" using kv_okD(1) [OF ok] by (simp add: segs chained_append)
  have lay: "\<forall>g\<in>set gs. layer < length (st_layers (sg_storage g))" "layer < length (st_layers (sg_storage g))" using layers by (simp_all add: segs)
  have lim: "sg_logical_start g + capacity_of g < usize_limit" using T(4) kv_okD(3) [OF ok] by linarith
  let ?spans = "map (\<lambda>g. span_of layer (sg_committed_tokens g) g) gs @ [span_of layer (capacity_of g) g]"
  have "read_span_new (kl_key l) (kl_value l) (sg_logical_start g) (capacity_of g) (capacity_of g) = Ok (span_of layer (capacity_of g) g)"
    if "l = st_layers (sg_storage g) ! layer" for l
    using T(5) lim that unfolding read_span_new_Ok by (simp add: span_of_def Let_def)
  then have one: "collect_spans layer (Some target) (length gs) [g] = Ok [span_of layer (capacity_of g) g]"
    using T(5) lay(2) by (simp add: get_or_def p(2) Let_def)
  have c: "collect_spans layer (kv_pending s) 0 (kv_segments s) = Ok ?spans"
    using collect_full [OF chain p(1) kv_okD(3) [OF ok] lay(1), of "Some target" 0 "[g]"] one by (simp add: Some segs p(2))
  have k: "check_coverage ?spans 0 = Ok (sg_logical_start g + capacity_of g)"
    using coverage_full [OF chain kv_okD(3) [OF ok], of layer "[span_of layer (capacity_of g) g]"] T(1) lim
    by (simp add: span_of_def Let_def checked_size_def usize_checked_add_def)
  have len: "length (key_rows layer gs) = sg_logical_start g" using length_key_rows [of layer gs] T(1) by simp
  have r: "take (kv_position s) (span_rows ?spans) = key_rows layer (kv_segments s)"
    using T(2,3) len by (simp add: segs) (simp add: span_of_def Let_def take_map take_upt)
  show ?thesis by (rule that [OF c k _ r]) (use T(2,3) in \<open>simp_all add: segs Some\<close>)
qed

section \<open>The write span\<close>

lemma write_run:
  assumes ok: "kv_ok s" and pending: "kv_pending s = Some target" and segs: "kv_segments s = gs @ [g]"
    and run: "write_span unique layer target s = Ok span"
  shows "unique (address_of g)" "kx_key span = kl_key (st_layers (sg_storage g) ! layer)"
    "local_range span (ar_start target) (ar_tokens target) = Ok (sg_committed_tokens g, sg_committed_tokens g + ar_tokens target)"
proof -
  note T = tail_start [OF ok segs]
  have p: "ar_segment_index target = length gs" "ar_start target = kv_position s" "sg_committed_tokens g + ar_tokens target \<le> capacity_of g"
    using kv_okD(5) [OF ok] by (simp_all add: pending_ok_def pending segs)
  have lim: "sg_committed_tokens g + ar_tokens target < usize_limit" using p(3) T(4) kv_okD(3) [OF ok] by linarith
  have w: "unique (address_of g)" "write_span_new (kl_key (st_layers (sg_storage g) ! layer)) (kl_value (st_layers (sg_storage g) ! layer))
      (sg_logical_start g) (capacity_of g) = Ok span"
    using run by (auto simp: write_span_def pending segs p(1) get_or_def and_then_eq_Ok split: if_splits)
  show "unique (address_of g)" by (rule w)
  show "kx_key span = kl_key (st_layers (sg_storage g) ! layer)" using w(2) by (simp add: write_span_new_Ok)
  have "kx_logical_start span = sg_logical_start g" "kx_capacity_tokens span = capacity_of g" using w(2) by (simp_all add: write_span_new_Ok)
  then show "local_range span (ar_start target) (ar_tokens target) = Ok (sg_committed_tokens g, sg_committed_tokens g + ar_tokens target)"
    using p T(2) lim by (simp add: local_range_def usize_checked_sub_def usize_checked_add_def checked_size_def)
qed

end
