(* ===== verification/Kv_System.thy ===== *)
theory Kv_System
  imports Kv_Commit
begin

text \<open>
  The system of the caches that live in one process: every cache with the operations on it,
  creation, fork and drop. A storage is unique to a cache when no other cache points to it
  (\<open>unique_in\<close>), which is what \<open>Rc::get_mut\<close> asks. \<open>kv\<close> interprets the machine contract: every
  reachable system has well-formed caches only. Then the laws of one operation each.
\<close>

definition unique_in :: "'b KvState list \<Rightarrow> nat \<Rightarrow> bool" where
  "unique_in others a \<longleftrightarrow> (\<forall>t\<in>set others. \<forall>g\<in>set (kv_segments t). address_of g \<noteq> a)"

text \<open>One call of an operation on a cache, whatever it returns.\<close>

inductive kv_call :: "('x, 'b) KvBackend \<Rightarrow> (nat \<Rightarrow> bool) \<Rightarrow> nat \<Rightarrow> 'b KvState \<times> 'x \<Rightarrow> 'b KvState \<times> 'x \<Rightarrow> bool" for B unique layers where
  kv_call_prepare: "prepare_append B unique layers tokens growth (s, x) = (r, t, y) \<Longrightarrow> kv_call B unique layers (s, x) (t, y)"
| kv_call_prepare_at: "prepare_append_at B unique layers p tokens growth (s, x) = (r, t, y) \<Longrightarrow> kv_call B unique layers (s, x) (t, y)"
| kv_call_transition: "prepare_shape_transition B unique layers shape p appends (s, x) = (u, t, y) \<Longrightarrow>
    sh_max_context shape < usize_limit \<Longrightarrow> kv_call B unique layers (s, x) (t, y)"
| kv_call_truncate: "truncate B p (s, x) = (u, t, y) \<Longrightarrow> kv_call B unique layers (s, x) (t, y)"
| kv_call_commit: "commit_append target s = (u, t) \<Longrightarrow> kv_call B unique layers (s, x) (t, x)"
| kv_call_discard: "discard_pending s = (u, t) \<Longrightarrow> kv_call B unique layers (s, x) (t, x)"

inductive kv_step :: "('x, 'b) KvBackend \<Rightarrow> nat \<Rightarrow> 'b KvState list \<times> 'x \<Rightarrow> 'b KvState list \<times> 'x \<Rightarrow> bool" for B layers where
  kv_step_new: "kv_new B layers shape dtype x = (Ok s, y) \<Longrightarrow> sh_max_context shape < usize_limit \<Longrightarrow>
    kv_step B layers (ss, x) (ss @ [s], y)"
| kv_step_fork: "s \<in> set ss \<Longrightarrow> kv_fork B s x = (Ok t, y) \<Longrightarrow> kv_step B layers (ss, x) (ss @ [t], y)"
| kv_step_drop: "kv_step B layers (us @ s # vs, x) (us @ vs, x)"
| kv_step_call: "kv_call B (unique_in (us @ vs)) layers (s, x) (t, y) \<Longrightarrow> kv_step B layers (us @ s # vs, x) (us @ t # vs, y)"

definition kv_sys_ok :: "('x, 'b) KvBackend \<Rightarrow> ('x \<Rightarrow> nat set) \<Rightarrow> nat \<Rightarrow> 'b KvState list \<times> 'x \<Rightarrow> bool" where
  "kv_sys_ok B used layers sys \<longleftrightarrow> kv_laws B used \<and> (\<forall>s\<in>set (fst sys). kv_ok s \<and> tracked used layers (snd sys) s)"

text \<open>What an operation on one cache owes the system.\<close>

definition kept :: "('x \<Rightarrow> nat set) \<Rightarrow> nat \<Rightarrow> 'x \<Rightarrow> 'b KvState \<Rightarrow> 'x \<Rightarrow> bool" where
  "kept used layers x t y \<longleftrightarrow> kv_ok t \<and> tracked used layers y t \<and> used x \<subseteq> used y"

lemma sys_replace:
  assumes "kv_sys_ok B used layers (us @ s # vs, x)" and "kept used layers x t y"
  shows "kv_sys_ok B used layers (us @ t # vs, y)"
  using assms tracked_mono [of used layers x _ y] by (auto simp: kv_sys_ok_def kept_def)

lemma kept_same: "kv_ok s \<Longrightarrow> tracked used layers x s \<Longrightarrow> used x \<subseteq> used y \<Longrightarrow> kept used layers x s y"
  by (simp add: kept_def tracked_mono)

lemma kept_sub:
  "kv_ok t \<Longrightarrow> tracked used layers x s \<Longrightarrow> sg_storage ` set (kv_segments t) \<subseteq> sg_storage ` set (kv_segments s) \<Longrightarrow> used x \<subseteq> used y \<Longrightarrow>
    kept used layers x t y"
  by (simp add: kept_def tracked_sub)

lemma kept_prepare:
  assumes "kv_laws B used" "kv_ok s" "tracked used layers x s" and run: "prepare_append B unique layers tokens growth (s, x) = (r, t, y)"
  shows "kept used layers x t y"
proof -
  note P = prepare_append_run [OF assms(2) run]
  have m: "used x \<subseteq> used y" "r \<noteq> Panic" using P(2) [OF assms(1)] by simp_all
  then consider (ok) target where "r = Ok target" | (err) e where "r = Err e" by (cases r) auto
  then show ?thesis
  proof cases
    case ok
    then show ?thesis using P(3) [OF assms(1,3) ok] m by (simp add: kept_def prepared_def rearranged_def)
  next
    case err
    then show ?thesis using P(1) [OF err] kept_same [OF assms(2,3) m(1)] by simp
  qed
qed

lemma kept_prepare_at:
  assumes "kv_laws B used" "kv_ok s" "tracked used layers x s" and run: "prepare_append_at B unique layers p tokens growth (s, x) = (r, t, y)"
  shows "kept used layers x t y"
proof -
  note P = prepare_at_run [OF assms(2) run]
  have m: "used x \<subseteq> used y" "r \<noteq> Panic" using P(2) [OF assms(1)] by simp_all
  then consider (ok) target where "r = Ok target" | (err) e where "r = Err e" by (cases r) auto
  then show ?thesis
  proof cases
    case ok
    then show ?thesis using P(3) [OF assms(1,3) ok] m by (simp add: kept_def prepared_at_def)
  next
    case err
    then show ?thesis using P(1) [OF err] kept_same [OF assms(2,3) m(1)] by simp
  qed
qed

lemma kept_transition:
  assumes "kv_laws B used" "kv_ok s" "tracked used layers x s" and "sh_max_context shape < usize_limit"
    and run: "prepare_shape_transition B unique layers shape p appends (s, x) = (r, t, y)"
  shows "kept used layers x t y"
proof -
  note P = transition_run [OF assms(2,4) run]
  have m: "used x \<subseteq> used y" "r \<noteq> Panic" using P(2) [OF assms(1)] by simp_all
  then consider (ok) u where "r = Ok u" | (err) e where "r = Err e" by (cases r) auto
  then show ?thesis
  proof cases
    case ok
    then show ?thesis using P(3) [OF assms(1,3) ok] m by (auto simp: kept_def prepared_at_def)
  next
    case err
    then show ?thesis using P(1) [OF err] kept_same [OF assms(2,3) m(1)] by simp
  qed
qed

lemma kept_truncate:
  assumes "kv_laws B used" "kv_ok s" "tracked used layers x s" and run: "truncate B p (s, x) = (r, t, y)"
  shows "kept used layers x t y"
proof -
  note P = truncate_run [OF assms(2) run]
  have m: "used x \<subseteq> used y" "r \<noteq> Panic" using P(2) [OF assms(1)] by simp_all
  then consider (ok) u where "r = Ok u" | (err) e where "r = Err e" by (cases r) auto
  then show ?thesis
  proof cases
    case ok
    then show ?thesis using P(3) [OF ok] m kept_sub [OF _ assms(3) _ m(1)] by (simp add: cut_to_def)
  next
    case err
    then show ?thesis using P(1) [OF err] kept_same [OF assms(2,3) m(1)] by simp
  qed
qed

lemma kept_commit:
  assumes "kv_ok s" "tracked used layers x s" and "commit_append target s = (r, t)"
  shows "kept used layers x t x"
  using commit_step [OF assms(1,3)] kept_sub [OF _ assms(2)] by simp

lemma kept_discard:
  assumes "kv_ok s" "tracked used layers x s" and run: "discard_pending s = (r, t)"
  shows "kept used layers x t x"
proof -
  note D = discard_run [OF assms(1) run]
  have "kv_ok t" using D(1-3) assms(1) by (cases r) (auto simp: rearranged_def)
  then show ?thesis using kept_sub [OF _ assms(2) D(4)] by simp
qed

lemma kept_call:
  assumes "kv_call B unique layers sx ty" and "kv_laws B used" and "kv_ok (fst sx)" and "tracked used layers (snd sx) (fst sx)"
  shows "kept used layers (snd sx) (fst ty) (snd ty)"
  using assms
  by (induction rule: kv_call.induct)
    (auto intro: kept_prepare kept_prepare_at kept_transition kept_truncate kept_commit kept_discard)

text \<open>A call leaves the layout as it was or raises the revision.\<close>

lemma moved_call:
  assumes "kv_call B unique layers sx ty" and "kv_laws B used" and "kv_ok (fst sx)" and "tracked used layers (snd sx) (fst sx)"
  shows "moved (fst sx) (fst ty)"
  using assms
proof (induction rule: kv_call.induct)
  case (kv_call_prepare tokens growth s x r t y)
  then have s: "kv_ok s" "kv_laws B used" "tracked used layers x s" by simp_all
  note P = prepare_append_run [OF s(1) kv_call_prepare(1)]
  show ?case using P(1) P(2) [OF s(2)] P(3) [OF s(2,3)] by (cases r) (auto simp: prepared_def rearranged_def)
next
  case (kv_call_prepare_at p tokens growth s x r t y)
  then have s: "kv_ok s" "kv_laws B used" "tracked used layers x s" by simp_all
  note P = prepare_at_run [OF s(1) kv_call_prepare_at(1)]
  show ?case using P(1) P(2) [OF s(2)] P(3) [OF s(2,3)] by (cases r) (auto simp: prepared_at_def)
next
  case (kv_call_transition shape p appends s x u t y)
  then have s: "kv_ok s" "kv_laws B used" "tracked used layers x s" by simp_all
  note P = transition_run [OF s(1) kv_call_transition(2,1)]
  show ?case using P(1) P(2) [OF s(2)] P(3) [OF s(2,3)] by (cases u) (auto simp: prepared_at_def)
next
  case (kv_call_truncate p s x u t y)
  then have s: "kv_ok s" "kv_laws B used" by simp_all
  note P = truncate_run [OF s(1) kv_call_truncate(1)]
  show ?case using P(1) P(2) [OF s(2)] P(3) by (cases u) (auto simp: cut_to_def)
next
  case (kv_call_commit target s u t x)
  then show ?case using commit_step(5) by fastforce
next
  case (kv_call_discard s u t x)
  then have s: "kv_ok s" by simp
  note D = discard_run [OF s kv_call_discard(1)]
  show ?case using D(1-3) by (cases u) (auto simp: rearranged_def)
qed

lemma sys_member: "kv_sys_ok B used layers (us @ s # vs, x) \<Longrightarrow> kv_laws B used \<and> kv_ok s \<and> tracked used layers x s"
  by (simp add: kv_sys_ok_def)

lemma sys_grow: "kv_sys_ok B used layers (ss, x) \<Longrightarrow> kept used layers x s y \<Longrightarrow> kv_sys_ok B used layers (ss @ [s], y)"
  using tracked_mono [of used layers x _ y] by (auto simp: kv_sys_ok_def kept_def)

lemma kv_step_ok: "kv_step B layers sys sys' \<Longrightarrow> kv_sys_ok B used layers sys \<Longrightarrow> kv_sys_ok B used layers sys'"
proof (induction rule: kv_step.induct)
  case (kv_step_new shape dtype x s y ss)
  have "kv_laws B used" using kv_step_new(3) by (simp add: kv_sys_ok_def)
  with kv_new_run [OF kv_step_new(1,2)] have "kept used layers x s y" by (auto simp: kept_def tracked_def)
  then show ?case by (rule sys_grow [OF kv_step_new(3)])
next
  case (kv_step_fork s ss x t y)
  have s: "kv_laws B used" "kv_ok s" "tracked used layers x s" using kv_step_fork by (auto simp: kv_sys_ok_def)
  note F = fork_run [OF s(2) kv_step_fork(2)]
  have "kept used layers x t y"
    using F(1) F(2) [OF s(1)] by (intro kept_sub [OF _ s(3)]) (auto simp: committed_segments_def)
  then show ?case by (rule sys_grow [OF kv_step_fork(3)])
next
  case (kv_step_drop us s vs x)
  then show ?case by (simp add: kv_sys_ok_def)
next
  case (kv_step_call us vs s x t y)
  note S = sys_member [OF kv_step_call(2)]
  have "kept used layers x t y" using kept_call [OF kv_step_call(1)] S by simp
  then show ?case by (rule sys_replace [OF kv_step_call(2)])
qed

interpretation kv: machine "\<lambda>sys. kv_laws B used \<and> fst sys = []" "kv_step B layers" "kv_sys_ok B used layers" for B used layers
proof unfold_locales
  show "kv_laws B used \<and> fst sys = [] \<Longrightarrow> kv_sys_ok B used layers sys" for sys by (simp add: kv_sys_ok_def)
  show "kv_sys_ok B used layers s \<Longrightarrow> kv_step B layers s t \<Longrightarrow> kv_sys_ok B used layers t" for s t by (rule kv_step_ok)
qed

definition kv_reachable :: "('x, 'b) KvBackend \<Rightarrow> ('x \<Rightarrow> nat set) \<Rightarrow> nat \<Rightarrow> 'b KvState list \<times> 'x \<Rightarrow> bool" where
  "kv_reachable B used layers sys \<longleftrightarrow> kv_laws B used \<and> (\<exists>x. (kv_step B layers)\<^sup>*\<^sup>* ([], x) sys)"

lemma kv_reachable_ok: "kv_reachable B used layers sys \<Longrightarrow> kv_sys_ok B used layers sys"
  unfolding kv_reachable_def by (elim conjE exE) (rule kv.inv_reachable, simp_all)

lemma reachable_member:
  assumes "kv_reachable B used layers (us @ s # vs, x)"
  shows "kv_laws B used" "kv_ok s" "tracked used layers x s"
  using kv_reachable_ok [OF assms] by (simp_all add: kv_sys_ok_def)

lemma kv_reachable_step: "kv_reachable B used layers sys \<Longrightarrow> kv_step B layers sys sys' \<Longrightarrow> kv_reachable B used layers sys'"
  by (auto simp: kv_reachable_def intro: rtranclp.rtrancl_into_rtrancl)

end
