(* ===== verification/Kv_Snapshots.thy ===== *)
theory Kv_Snapshots
  imports Kv_System
begin

text \<open>
  Snapshots: what \<open>kv_snapshot\<close> records of a cache and what \<open>kv_restore\<close> makes of the record.
  \<open>contents\<close> is what a buffer holds; a download returns it and a restore allocates a buffer
  that holds it (\<open>kv_contents\<close>).
\<close>

definition kv_contents :: "('x, 'b) KvBackend \<Rightarrow> ('b \<Rightarrow> BufferSnapshot) \<Rightarrow> bool" where
  "kv_contents B contents \<longleftrightarrow>
     (\<forall>b x n y. kb_download B b x = (Ok n, y) \<longrightarrow> n = contents b) \<and>
     (\<forall>n c x b y. kb_restore B n c x = (Ok b, y) \<longrightarrow> contents b = n)"

definition layer_image :: "('b \<Rightarrow> BufferSnapshot) \<Rightarrow> 'b KvLayer \<Rightarrow> BufferSnapshot \<times> BufferSnapshot" where
  "layer_image contents l = (contents (kl_key l), contents (kl_value l))"

definition segment_image :: "('b \<Rightarrow> BufferSnapshot) \<Rightarrow> 'b KvSegment \<Rightarrow> KvSnapshotSegment" where
  "segment_image contents g =
     \<lparr>ss_logical_start = sg_logical_start g, ss_committed_tokens = sg_committed_tokens g,
      ss_capacity_tokens = capacity_of g, ss_layers = map (layer_image contents) (st_layers (sg_storage g))\<rparr>"

lemma contents_restored: "kv_contents B contents \<Longrightarrow> kb_restore B n c x = (Ok b, y) \<Longrightarrow> contents b = n"
  by (simp add: kv_contents_def) blast

lemma contents_downloaded: "kv_contents B contents \<Longrightarrow> kb_download B b x = (Ok n, y) \<Longrightarrow> n = contents b"
  by (simp add: kv_contents_def) blast

lemma download_layers_run:
  assumes "kv_contents B contents"
  shows "download_layers B ls x = (Ok ds, y) \<Longrightarrow> ds = map (layer_image contents) ls"
proof (induction ls arbitrary: x ds)
  case (Cons l ls)
  then show ?case using contents_downloaded [OF assms] by (auto simp: try_st_Ok_iff layer_image_def)
qed simp

lemma snapshot_segments_run:
  assumes "kv_contents B contents"
  shows "snapshot_segments B gs x = (Ok ss, y) \<Longrightarrow> ss = map (segment_image contents) gs"
proof (induction gs arbitrary: x ss)
  case (Cons g gs)
  then obtain s x1 ss1 where s: "snapshot_segment B g x = (Ok s, x1)" "snapshot_segments B gs x1 = (Ok ss1, y)" "ss = s # ss1"
    by (auto simp: try_st_Ok_iff)
  have "s = segment_image contents g"
    using s(1) download_layers_run [OF assms] by (fastforce simp: snapshot_segment_def try_st_Ok_iff segment_image_def)
  then show ?case using Cons.IH [OF s(2)] s(3) by simp
qed simp

lemma kv_snapshot_run:
  assumes "kv_contents B contents" and "kv_snapshot B s x = (Ok n, y)"
  shows "n = \<lparr>sn_segments = map (segment_image contents) (committed_segments s), sn_position = kv_position s,
    sn_device_position = contents (kv_device_position s), sn_shape = kv_shape s, sn_dtype = kv_dtype s\<rparr>"
  using assms(2) snapshot_segments_run [OF assms(1)] contents_downloaded [OF assms(1)]
  by (auto simp: kv_snapshot_def try_st_Ok_iff)

section \<open>Restoring\<close>

lemma restore_layers_run:
  assumes "kv_contents B contents"
  shows "restore_layers B ds x = (Ok ls, y) \<Longrightarrow> map (layer_image contents) ls = ds"
proof (induction ds arbitrary: x ls)
  case (Cons d ds)
  obtain k v where d: "d = (k, v)" by fastforce
  then show ?case using Cons contents_restored [OF assms] by (auto simp: try_st_Ok_iff layer_image_def)
qed simp

lemma quiet_restore_layers [quiet_intros]: "kv_laws B used \<Longrightarrow> quiet used x (restore_layers B ds x)"
proof (induction ds arbitrary: x)
  case (Cons d ds)
  obtain k v where d: "d = (k, v)" by fastforce
  show ?case unfolding d by (auto intro!: quiet_intros Cons)
qed (simp add: quiet_intros)

lemma restore_segment_run:
  assumes "kv_laws B used" and "kv_contents B contents" and run: "restore_segment B n x = (Ok g, y)"
  shows "segment_image contents g = n" "address_of g \<notin> used x" "address_of g \<in> used y" "used x \<subseteq> used y"
proof -
  obtain x1 ls x2 bytes where r: "reserve_vec B (length (ss_layers n)) ''allocate restored KV layers'' x = (Ok (), x1)"
      "restore_layers B (ss_layers n) x1 = (Ok ls, x2)"
      and g: "g = \<lparr>sg_logical_start = ss_logical_start n, sg_committed_tokens = ss_committed_tokens n,
      sg_storage = \<lparr>st_address = fst (kb_new_rc B x2), st_capacity_tokens = ss_capacity_tokens n, st_bytes = bytes, st_layers = ls\<rparr>\<rparr>"
      "y = snd (kb_new_rc B x2)"
    using run by (auto simp: restore_segment_def try_st_Ok_iff try_pure_Ok_iff case_prod_beta)
  have m: "used x \<subseteq> used x1" "used x1 \<subseteq> used x2"
    using quiet_reserve_vec [OF assms(1), of x "length (ss_layers n)" "''allocate restored KV layers''"]
      quiet_restore_layers [OF assms(1), of x1 "ss_layers n"] by (simp_all add: r(1,2) quiet_def)
  have new: "fst (kb_new_rc B x2) \<notin> used x2" "insert (fst (kb_new_rc B x2)) (used x2) \<subseteq> used (snd (kb_new_rc B x2))"
    using assms(1) by (auto simp: kv_laws_def)
  show "segment_image contents g = n" using restore_layers_run [OF assms(2) r(2)] by (simp add: segment_image_def g)
  show "address_of g \<notin> used x" "address_of g \<in> used y" "used x \<subseteq> used y" using m new by (auto simp: g)
qed

lemma restore_segments_run:
  assumes "kv_laws B used" and "kv_contents B contents"
  shows "restore_segments B ns x = (Ok gs, y) \<Longrightarrow>
    map (segment_image contents) gs = ns \<and> distinct (map address_of gs) \<and> (\<forall>g\<in>set gs. address_of g \<notin> used x \<and> address_of g \<in> used y) \<and> used x \<subseteq> used y"
proof (induction ns arbitrary: x gs)
  case (Cons n ns)
  then obtain g x1 hs where g: "restore_segment B n x = (Ok g, x1)" "restore_segments B ns x1 = (Ok hs, y)" "gs = g # hs"
    by (auto simp: try_st_Ok_iff)
  note R = restore_segment_run [OF assms g(1)] and IH = Cons.IH [OF g(2)]
  show ?case using R IH by (auto simp: g(3))
qed simp

text \<open>The shape of a list of segments is in their images.\<close>

lemma image_fields:
  assumes "segment_image contents g = segment_image contents' h"
  shows "sg_logical_start g = sg_logical_start h" "sg_committed_tokens g = sg_committed_tokens h" "capacity_of g = capacity_of h"
  using assms by (simp_all add: segment_image_def)

lemma chained_image:
  "map (segment_image contents) gs = map (segment_image contents) hs \<Longrightarrow> chained limit b gs \<longleftrightarrow> chained limit b hs"
proof (induction gs arbitrary: hs b)
  case (Cons g gs)
  then obtain h hs' where h: "hs = h # hs'" "segment_image contents g = segment_image contents h"
    "map (segment_image contents) gs = map (segment_image contents) hs'" by (cases hs) auto
  then show ?case using image_fields [OF h(2)] Cons.IH [OF h(3)] by simp
qed simp

lemma rows_image:
  "map (segment_image contents) gs = map (segment_image contents) hs \<Longrightarrow> length (rows_of gs) = length (rows_of hs) \<and> full gs = full hs"
proof (induction gs arbitrary: hs)
  case (Cons g gs)
  then obtain h hs' where h: "hs = h # hs'" "segment_image contents g = segment_image contents h"
    "map (segment_image contents) gs = map (segment_image contents) hs'" by (cases hs) auto
  then show ?case using image_fields [OF h(2)] Cons.IH [OF h(3)] by simp
qed simp

lemma restore_run:
  assumes ok: "kv_ok s" and laws: "kv_laws B used" "kv_contents B contents"
    and snap: "kv_snapshot B s x = (Ok n, x1)" and restored: "kv_restore B n x2 = (Ok t, x3)"
  shows "map (segment_image contents) (kv_segments t) = map (segment_image contents) (committed_segments s)"
    "kv_position t = kv_position s" "kv_shape t = kv_shape s" "kv_dtype t = kv_dtype s"
    "contents (kv_device_position t) = contents (kv_device_position s)" "kv_pending t = None" "kv_ok t"
proof -
  note N = kv_snapshot_run [OF laws(2) snap]
  have "ss_committed_tokens (segment_image contents g) \<noteq> 0" if "g \<in> set (committed_segments s)" for g
    using that by (simp add: segment_image_def committed_segments_def)
  then have keep: "filter (\<lambda>s. ss_committed_tokens s \<noteq> 0) (sn_segments n) = map (segment_image contents) (committed_segments s)"
    by (simp add: N filter_id_conv)
  obtain y0 gs y1 b where r: "restore_segments B (map (segment_image contents) (committed_segments s)) y0 = (Ok gs, y1)"
      "kb_restore B (sn_device_position n) KvCache y1 = (Ok b, x3)"
      "t = \<lparr>kv_segments = gs, kv_position = sn_position n, kv_device_position = b, kv_shape = sn_shape n, kv_dtype = sn_dtype n,
        kv_revision = 0, kv_graph_revision = None, kv_pending = None\<rparr>"
    using restored [unfolded kv_restore_def keep] by (auto simp: try_st_Ok_iff)
  have R: "map (segment_image contents) gs = map (segment_image contents) (committed_segments s)" "distinct (map address_of gs)"
    using restore_segments_run [OF laws r(1)] by simp_all
  have t: "kv_segments t = gs" "kv_position t = kv_position s" "kv_shape t = kv_shape s" "kv_pending t = None" by (simp_all add: r(3) N)
  show "map (segment_image contents) (kv_segments t) = map (segment_image contents) (committed_segments s)" using R(1) by (simp add: t(1))
  show "kv_position t = kv_position s" "kv_shape t = kv_shape s" "kv_pending t = None" by (rule t)+
  show "kv_dtype t = kv_dtype s" by (simp add: r(3) N)
  show "contents (kv_device_position t) = contents (kv_device_position s)"
    using contents_restored [OF laws(2) r(2)] by (simp add: N r(3))
  note C = committed_ok [OF ok]
  show "kv_ok t"
    using C rows_image [OF R(1)] chained_image [OF R(1)] R(2) kv_okD(2,3) [OF ok]
    by (simp add: kv_ok_def pending_ok_def t kv_rows_def [of t])
qed

end
