(* ===== verification/Kv_Demo.thy ===== *)
theory Kv_Demo
  imports Kv_Snapshots
begin

text \<open>
  A concrete backend, whose buffers are their own contents and whose \<open>Rc\<close> identities count
  up, and one cache on it: four rows of capacity, three of them appended, then committed.
\<close>

definition demo_kv :: "(nat, BufferSnapshot) KvBackend" where
  "demo_kv = \<lparr>kb_reserve = \<lambda>_ x. (Ok (), x), kb_new_rc = \<lambda>x. (x, Suc x),
     kb_allocate = \<lambda>layout _ x. (Ok \<lparr>bs_layout = layout, bs_bytes = []\<rparr>, x), kb_clone = \<lambda>b x. (Ok b, x),
     kb_download = \<lambda>b x. (Ok b, x), kb_restore = \<lambda>n _ x. (Ok n, x)\<rparr>"

lemma demo_kv_laws: "kv_laws demo_kv lessThan"
  by (auto simp: kv_laws_def quiet_def demo_kv_def)

lemma demo_kv_contents: "kv_contents demo_kv id"
  by (simp add: kv_contents_def demo_kv_def)

definition demo_shape :: AttentionShape where
  "demo_shape = \<lparr>sh_n_head = 1, sh_n_head_kv = 1, sh_head_dim = 1, sh_max_context = 8\<rparr>"

definition demo_u32 :: BufferSnapshot where
  "demo_u32 = \<lparr>bs_layout = \<lparr>bl_storage = U32, bl_elements = 1, bl_bytes = 4\<rparr>, bs_bytes = []\<rparr>"

definition demo_row :: BufferSnapshot where
  "demo_row = \<lparr>bs_layout = \<lparr>bl_storage = F32, bl_elements = 4, bl_bytes = 16\<rparr>, bs_bytes = []\<rparr>"

definition demo_storage :: "BufferSnapshot KvStorage" where
  "demo_storage = \<lparr>st_address = 0, st_capacity_tokens = 4, st_bytes = 32, st_layers = [\<lparr>kl_key = demo_row, kl_value = demo_row\<rparr>]\<rparr>"

definition demo_cache :: "BufferSnapshot KvState" where
  "demo_cache = \<lparr>kv_segments = [], kv_position = 0, kv_device_position = demo_u32, kv_shape = demo_shape, kv_dtype = DtypeF32,
     kv_revision = 0, kv_graph_revision = None, kv_pending = None\<rparr>"

definition demo_target :: KvAppendRange where
  "demo_target = \<lparr>ar_start = 0, ar_tokens = 3, ar_segment_index = 0\<rparr>"

definition demo_pending :: "BufferSnapshot KvState" where
  "demo_pending = demo_cache\<lparr>kv_segments := [\<lparr>sg_logical_start = 0, sg_committed_tokens = 0, sg_storage = demo_storage\<rparr>],
     kv_revision := 1, kv_pending := Some demo_target\<rparr>"

definition demo_written :: "BufferSnapshot KvState" where
  "demo_written = demo_pending\<lparr>kv_segments := [\<lparr>sg_logical_start = 0, sg_committed_tokens = 3, sg_storage = demo_storage\<rparr>],
     kv_position := 3, kv_pending := None\<rparr>"

lemmas demo_kv_defs = demo_kv_def demo_shape_def demo_u32_def demo_row_def demo_storage_def demo_cache_def demo_target_def
  demo_pending_def demo_written_def

lemmas kv_run_defs = on_world_def on_kv_def reserve_vec_def capture_append_rollback_def next_revision_def
  checked_size_def usize_checked_sub_def usize_checked_add_def nonzero_size_def Let_def checked_add_def

lemma demo_kv_new: "kv_new demo_kv 1 demo_shape DtypeF32 0 = (Ok demo_cache, 0)"
  by (simp add: kv_new_def demo_kv_defs layout_u32_def layout_dense_def nonzero_def checked_size_def usize_checked_mul_def)

lemma demo_prepare: "prepare_append demo_kv (unique_in []) 1 3 4 (demo_cache, 0) = (Ok demo_target, demo_pending, 1)"
  by (simp add: prepare_append_def prepare_append_staged_def pending_append_def reusable_tail_def allocate_append_def
      dtype_capacity_def allocate_storage_def storage_layout_def allocate_layers_def check_append_end_def checked_mul3_def
      layout_f32_def layout_dense_def nonzero_def usize_checked_mul_def size_u64_def checked_mul_def kv_run_defs demo_kv_defs)

lemma demo_commit: "commit_append demo_target demo_pending = (Ok (), demo_written)"
  by (simp add: commit_append_def get_or_def kv_run_defs demo_kv_defs)

lemma demo_reachable_pending: "kv_reachable demo_kv lessThan 1 ([] @ demo_pending # [], 1)"
proof -
  have "kv_step demo_kv 1 ([], 0) ([] @ [demo_cache], 0)"
    by (rule kv_step_new [OF demo_kv_new]) (simp add: demo_shape_def)
  moreover have "kv_step demo_kv 1 ([] @ demo_cache # [], 0) ([] @ demo_pending # [], 1)"
    by (rule kv_step_call, rule kv_call_prepare, unfold append_Nil, rule demo_prepare)
  ultimately have "(kv_step demo_kv 1)\<^sup>*\<^sup>* ([], 0) ([] @ demo_pending # [], 1)" by simp
  then show ?thesis unfolding kv_reachable_def using demo_kv_laws by blast
qed

lemma demo_reachable_written: "kv_reachable demo_kv lessThan 1 ([] @ demo_written # [], 1)"
  by (rule kv_reachable_step [OF demo_reachable_pending]) (rule kv_step_call [OF kv_call_commit [OF demo_commit]])

end
