(* ===== verification/Kv_Props.thy ===== *)
theory Kv_Props
  imports Kv_Demo
begin

text \<open>
  The properties of the segmented KV cache, over every cache of a reachable system.
\<close>

section \<open>The invariant\<close>

text \<open>C19: In every reachable system each cache is well formed (\<open>kv_ok\<close>: its segments cover the
  committed tokens from zero without a gap, each within its storage and the context, no storage
  twice, and a pending append is the next rows of the last segment), its position is the number
  of its rows and within the context, and each of its storages has the model's layers.\<close>

theorem kv_caches_stay_well_formed:
  assumes "kv_reachable B used layers (ss, x)" and "s \<in> set ss"
  shows "kv_ok s \<and> kv_position s = length (kv_rows s) \<and> kv_position s \<le> sh_max_context (kv_shape s) \<and>
    (\<forall>g\<in>set (kv_segments s). length (st_layers (sg_storage g)) = layers)"
proof -
  have "kv_ok s" "tracked used layers x s" using kv_reachable_ok [OF assms(1)] assms(2) by (auto simp: kv_sys_ok_def)
  then show ?thesis using kv_okD(2,6) [of s] by (simp add: tracked_def)
qed

theorem kv_caches_stay_well_formed_witness:
  "kv_ok demo_pending \<and> kv_position demo_pending \<le> 8"
  using kv_caches_stay_well_formed [OF demo_reachable_pending, of demo_pending] by (simp add: demo_kv_defs)

section \<open>Errors\<close>

definition undisturbed :: "'b KvState \<Rightarrow> ('a, BackendError) outcome \<times> 'b KvState \<times> 'x \<Rightarrow> bool" where
  "undisturbed s m \<longleftrightarrow> fst m \<noteq> Panic \<and> (\<forall>e. fst m = Err e \<longrightarrow> fst (snd m) = s)"

text \<open>C21: No operation on a cache panics, and one that returns an error (an allocation that fails,
  a revision that would wrap, a range or shape that does not fit) leaves the cache exactly as it
  was before, its pending append included.\<close>

theorem kv_errors_change_nothing:
  assumes "kv_reachable B used layers (us @ s # vs, x)" and "sh_max_context shape < usize_limit"
  shows "undisturbed s (prepare_append B unique layers tokens growth (s, x)) \<and>
    undisturbed s (prepare_append_at B unique layers p tokens growth (s, x)) \<and>
    undisturbed s (prepare_shape_transition B unique layers shape p appends (s, x)) \<and>
    undisturbed s (truncate B p (s, x)) \<and> undisturbed s (on_kv (commit_append target) (s, x)) \<and>
    undisturbed s (on_kv discard_pending (s, x))"
proof (intro conjI)
  note S = reachable_member [OF assms(1)]
  show "undisturbed s (prepare_append B unique layers tokens growth (s, x))"
    using prepare_append_run(1,2) [OF S(2)] S(1) unfolding undisturbed_def by (metis prod.collapse)
  show "undisturbed s (prepare_append_at B unique layers p tokens growth (s, x))"
    using prepare_at_run(1,2) [OF S(2)] S(1) unfolding undisturbed_def by (metis prod.collapse)
  show "undisturbed s (prepare_shape_transition B unique layers shape p appends (s, x))"
    using transition_run(1,2) [OF S(2) assms(2)] S(1) unfolding undisturbed_def by (metis prod.collapse)
  show "undisturbed s (truncate B p (s, x))"
    using truncate_run(1,2) [OF S(2)] S(1) unfolding undisturbed_def by (metis prod.collapse)
  show "undisturbed s (on_kv (commit_append target) (s, x))"
    using commit_step(2,3) [OF S(2)] by (auto simp: undisturbed_def on_kv_def split: prod.splits)
  show "undisturbed s (on_kv discard_pending (s, x))"
    using discard_run(1,2) [OF S(2)] by (auto simp: undisturbed_def on_kv_def split: prod.splits)
qed

theorem kv_errors_change_nothing_witness:
  "fst (prepare_append demo_kv (\<lambda>_. True) 1 9 9 (demo_pending, 1)) = Err (PositionOutOfBounds 9 8) \<and>
   fst (snd (prepare_append demo_kv (\<lambda>_. True) 1 9 9 (demo_pending, 1))) = demo_pending"
proof -
  have e: "fst (prepare_append demo_kv (\<lambda>_. True) 1 9 9 (demo_pending, 1)) = Err (PositionOutOfBounds 9 8)"
    by (simp add: prepare_append_def check_append_end_def kv_run_defs demo_kv_defs)
  have "undisturbed demo_pending (prepare_append demo_kv (\<lambda>_. True) 1 9 9 (demo_pending, 1))"
    by (rule conjunct1 [OF kv_errors_change_nothing [OF demo_reachable_pending, of demo_shape]]) (simp add: demo_shape_def)
  with e show ?thesis by (simp add: undisturbed_def)
qed

section \<open>Moving a cache\<close>

text \<open>C22: When an operation that moves a cache succeeds, the rows that stay are a prefix of the
  rows it had, in place: all of them for \<open>prepare_append\<close>, the first \<open>p\<close> for the others, and
  \<open>p\<close> was within the position. What is pending afterwards is the append asked for, at the new
  position and of the length asked for, or nothing after \<open>truncate\<close>; \<open>prepare_shape_transition\<close> also
  installs the shape.\<close>

theorem kv_moves_keep_a_prefix:
  assumes "kv_reachable B used layers (us @ s # vs, x)" and "sh_max_context shape < usize_limit"
  shows "(\<forall>target t y. prepare_append B unique layers tokens growth (s, x) = (Ok target, t, y) \<longrightarrow>
        kv_rows t = kv_rows s \<and> kv_position t = kv_position s \<and> kv_shape t = kv_shape s \<and> kv_pending t = Some target \<and>
        ar_start target = kv_position s \<and> ar_tokens target = tokens) \<and>
    (\<forall>target t y. prepare_append_at B unique layers p tokens growth (s, x) = (Ok target, t, y) \<longrightarrow>
        p \<le> kv_position s \<and> kv_rows t = take p (kv_rows s) \<and> kv_position t = p \<and> kv_shape t = kv_shape s \<and>
        kv_pending t = Some target \<and> ar_start target = p \<and> ar_tokens target = tokens) \<and>
    (\<forall>t y. truncate B p (s, x) = (Ok (), t, y) \<longrightarrow>
        p \<le> kv_position s \<and> kv_rows t = take p (kv_rows s) \<and> kv_position t = p \<and> kv_shape t = kv_shape s \<and> kv_pending t = None) \<and>
    (\<forall>t y. prepare_shape_transition B unique layers shape p appends (s, x) = (Ok (), t, y) \<longrightarrow>
        p \<le> kv_position s \<and> kv_rows t = take p (kv_rows s) \<and> kv_position t = p \<and> kv_shape t = shape \<and>
        map_option (\<lambda>r. (ar_start r, ar_tokens r)) (kv_pending t) = map_option (\<lambda>(tokens, _). (p, tokens)) appends)"
proof -
  note S = reachable_member [OF assms(1)]
  have start: "kv_ok t \<Longrightarrow> kv_pending t = Some r \<Longrightarrow> ar_start r = kv_position t" for t :: "'b KvState" and r
    using kv_okD(5) [of t] by (simp add: pending_ok_def)
  have pos: "kv_position t = p" if "prepared_at p shape target s t" for t shape target
    using that kv_okD(2) [of t] kv_okD(2) [OF S(2)] by (simp add: prepared_at_def)
  have append: "kv_rows t = kv_rows s \<and> kv_position t = kv_position s \<and> kv_shape t = kv_shape s \<and> kv_pending t = Some target \<and>
        ar_start target = kv_position s \<and> ar_tokens target = tokens"
    if run: "prepare_append B unique layers tokens growth (s, x) = (Ok target, t, y)" for target t y
  proof -
    have P: "prepared tokens target s t" using prepare_append_run(3) [OF S(2) run S(1,3)] by simp
    then show ?thesis
      using start [of t target] rearranged_position [OF _ S(2), of t] by (simp add: prepared_def rearranged_def)
  qed
  have append_at: "p \<le> kv_position s \<and> kv_rows t = take p (kv_rows s) \<and> kv_position t = p \<and> kv_shape t = kv_shape s \<and>
        kv_pending t = Some target \<and> ar_start target = p \<and> ar_tokens target = tokens"
    if run: "prepare_append_at B unique layers p tokens growth (s, x) = (Ok target, t, y)" for target t y
  proof -
    have P: "prepared_at p (kv_shape s) (Some target) s t" "ar_tokens target = tokens"
      using prepare_at_run(3) [OF S(2) run S(1,3)] by simp_all
    then show ?thesis using start [of t target] pos [OF P(1)] by (simp add: prepared_at_def)
  qed
  have cut: "p \<le> kv_position s \<and> kv_rows t = take p (kv_rows s) \<and> kv_position t = p \<and> kv_shape t = kv_shape s \<and> kv_pending t = None"
    if run: "truncate B p (s, x) = (Ok (), t, y)" for t y
    using truncate_run(3) [OF S(2) run] by (simp add: cut_to_def)
  have transition: "p \<le> kv_position s \<and> kv_rows t = take p (kv_rows s) \<and> kv_position t = p \<and> kv_shape t = shape \<and>
        map_option (\<lambda>r. (ar_start r, ar_tokens r)) (kv_pending t) = map_option (\<lambda>(tokens, _). (p, tokens)) appends"
    if run: "prepare_shape_transition B unique layers shape p appends (s, x) = (Ok (), t, y)" for t y
  proof -
    obtain g where g: "prepared_at p shape g s t" "map_option ar_tokens g = map_option fst appends"
      using transition_run(3) [OF S(2) assms(2) run S(1,3)] by blast
    have "map_option (\<lambda>r. (ar_start r, ar_tokens r)) (kv_pending t) = map_option (\<lambda>(tokens, _). (p, tokens)) appends"
    proof (cases g)
      case (Some r)
      have "ar_start r = p" using g(1) start [of t r] pos [OF g(1)] by (simp add: prepared_at_def Some)
      then show ?thesis using g by (cases appends) (simp_all add: prepared_at_def Some split_beta)
    next
      case None
      then show ?thesis using g by (cases appends) (simp_all add: prepared_at_def)
    qed
    then show ?thesis using g(1) pos [OF g(1)] by (simp add: prepared_at_def)
  qed
  show ?thesis using append append_at cut transition by blast
qed

theorem kv_moves_keep_a_prefix_witness:
  "\<exists>t y. truncate demo_kv 2 (demo_written, 1) = (Ok (), t, y) \<and> kv_rows t = [(0, 0), (0, 1)]"
proof -
  have run: "\<exists>t. truncate demo_kv 2 (demo_written, 1) = (Ok (), t, 1)"
    by (simp add: truncate_def cut_at_def detach_pending_def remove_closed shorten_tail_def finish_staged_revision_def bool_u64_def kv_run_defs demo_kv_defs)
  then obtain t where t: "truncate demo_kv 2 (demo_written, 1) = (Ok (), t, 1)" by blast
  have "kv_rows t = take 2 (kv_rows demo_written)"
    using conjunct1 [OF conjunct2 [OF conjunct2 [OF kv_moves_keep_a_prefix [OF demo_reachable_written, of demo_shape "\<lambda>_. True" 1 1 2]]]] t
    unfolding demo_shape_def by simp
  then show ?thesis using t by (simp add: demo_kv_defs kv_rows_def rows_of_def seg_rows_def upt_rec)
qed


section \<open>Committing\<close>

text \<open>Committing the pending append never fails: it appends exactly the rows of the target, which
  follow the committed rows of the last segment and were none of the cache's rows before, and
  moves the position past them; committing any other range is refused and changes nothing.\<close>

theorem kv_commit_appends_the_target:
  assumes "kv_reachable B used layers (us @ s # vs, x)" and "kv_pending s = Some target"
  defines "fresh \<equiv> map (\<lambda>i. (address_of (last (kv_segments s)), sg_committed_tokens (last (kv_segments s)) + i)) [0..<ar_tokens target]"
  shows "(\<exists>t. commit_append target s = (Ok (), t) \<and> kv_rows t = kv_rows s @ fresh \<and> set fresh \<inter> set (kv_rows s) = {} \<and>
      kv_position t = kv_position s + ar_tokens target \<and> kv_pending t = None \<and> kv_revision t = kv_revision s) \<and>
    (other \<noteq> target \<longrightarrow> (\<exists>e. commit_append other s = (Err e, s)))"
proof -
  note S = reachable_member [OF assms(1)]
  obtain gs g where segs: "kv_segments s = gs @ [g]"
    using kv_okD(5) [OF S(2)] by (cases "kv_segments s" rule: rev_cases) (auto simp: pending_ok_def assms(2))
  note C = kv_commit_run [OF S(2) assms(2) segs]
  have fresh: "fresh = map (\<lambda>i. (address_of g, sg_committed_tokens g + i)) [0..<ar_tokens target]" by (simp add: fresh_def segs)
  have "address_of g \<notin> address_of ` set gs" using kv_okD(4) [OF S(2)] by (simp add: segs)
  then have "address_of h \<noteq> address_of g" if "h \<in> set gs" for h using that by (metis imageI)
  then have "set fresh \<inter> set (kv_rows s) = {}" by (fastforce simp: fresh kv_rows_def segs rows_of_def seg_rows_def)
  then show ?thesis using C(1,3) commit_other [of s other] by (simp add: fresh assms(2))
qed

theorem kv_commit_appends_the_target_witness:
  "\<exists>t. commit_append demo_target demo_pending = (Ok (), t) \<and> kv_rows t = [(0, 0), (0, 1), (0, 2)]"
  using kv_commit_appends_the_target [OF demo_reachable_pending, of demo_target demo_target]
  by (auto simp: demo_kv_defs kv_rows_def rows_of_def seg_rows_def upt_rec)

section \<open>The revision\<close>

text \<open>The layout revision tells when a captured graph is stale: no operation lowers it (it does
  not wrap), and an operation that leaves it as it was, whether it succeeded or not, has left
  every segment at its place with its storage, and the shape. Only committed tokens and the
  pending range may differ.\<close>

theorem kv_revision_tracks_the_layout:
  assumes "kv_reachable B used layers (us @ s # vs, x)" and "kv_call B unique layers (s, x) (t, y)"
  shows "unat (kv_revision s) \<le> unat (kv_revision t) \<and>
    (kv_revision t = kv_revision s \<longrightarrow>
      map (\<lambda>g. (sg_logical_start g, sg_storage g)) (kv_segments t) = map (\<lambda>g. (sg_logical_start g, sg_storage g)) (kv_segments s) \<and>
      kv_shape t = kv_shape s \<and> kv_device_position t = kv_device_position s)"
proof -
  have m: "moved s t" using moved_call [OF assms(2)] reachable_member [OF assms(1)] by simp
  have "map (\<lambda>g. (sg_logical_start g, sg_storage g)) gs = map (\<lambda>g. (sg_logical_start g, sg_storage g)) (map erase gs)" for gs :: "'b KvSegment list"
    by (simp add: erase_def)
  then have "map (\<lambda>g. (sg_logical_start g, sg_storage g)) (kv_segments t) = map (\<lambda>g. (sg_logical_start g, sg_storage g)) (kv_segments s)"
    if "map erase (kv_segments t) = map erase (kv_segments s)" using that by metis
  then show ?thesis using m by (auto simp: moved_def)
qed

theorem kv_revision_tracks_the_layout_witness:
  "unat (kv_revision demo_pending) \<le> unat (kv_revision demo_written) \<and> kv_shape demo_written = kv_shape demo_pending"
  using kv_revision_tracks_the_layout [OF demo_reachable_pending kv_call_commit [OF demo_commit]] by (simp add: demo_kv_defs)


section \<open>Writing\<close>

text \<open>C20: A write span is handed out for the pending range only when no other cache points to the
  storage, and the rows the range maps to in it (\<open>local_range\<close> accepts the range) are rows that
  no cache of the system has committed: whatever is written there, what every cache reads is
  unchanged. A fork therefore never sees the appends of its source.\<close>

theorem kv_writes_are_private:
  assumes "kv_reachable B used layers (us @ s # vs, x)" and "kv_pending s = Some target"
    and "write_span (unique_in (us @ vs)) layer target s = Ok span"
    and "\<And>a i. memory' (a, i) \<noteq> memory (a, i) \<Longrightarrow> a = address_of (kv_segments s ! ar_segment_index target) \<and>
      (\<exists>first last. local_range span (ar_start target) (ar_tokens target) = Ok (first, last) \<and> first \<le> i \<and> i < last)"
  shows "(\<exists>first. local_range span (ar_start target) (ar_tokens target) = Ok (first, first + ar_tokens target)) \<and>
    (\<forall>t\<in>set (us @ s # vs). map memory' (kv_rows t) = map memory (kv_rows t))"
proof -
  note S = reachable_member [OF assms(1)]
  obtain gs g where segs: "kv_segments s = gs @ [g]"
    using kv_okD(5) [OF S(2)] by (cases "kv_segments s" rule: rev_cases) (auto simp: pending_ok_def assms(2))
  have idx: "kv_segments s ! ar_segment_index target = g"
    using kv_okD(5) [OF S(2)] by (simp add: pending_ok_def assms(2) segs)
  note W = write_run [OF S(2) assms(2) segs assms(3)]
  have other: "address_of h \<noteq> address_of g" if "t \<in> set us \<union> set vs" "h \<in> set (kv_segments t)" for t h
    using W(1) that by (auto simp: unique_in_def)
  have "address_of g \<notin> address_of ` set gs" using kv_okD(4) [OF S(2)] by (simp add: segs)
  then have own: "address_of h \<noteq> address_of g" if "h \<in> set gs" for h using that by (metis imageI)
  have row: "a \<noteq> address_of g \<or> i < sg_committed_tokens g" if t: "t \<in> set (us @ s # vs)" and ai: "(a, i) \<in> set (kv_rows t)" for t a i
  proof -
    obtain h where h: "h \<in> set (kv_segments t)" "a = address_of h" "i < sg_committed_tokens h"
      using ai by (auto simp: kv_rows_def rows_of_def seg_rows_def)
    consider "t \<in> set us \<union> set vs" | "t = s" using t by auto
    then show ?thesis using h other own segs by cases auto
  qed
  have "memory' z = memory z" if t: "t \<in> set (us @ s # vs)" and tz: "z \<in> set (kv_rows t)" for t z
  proof (rule ccontr)
    obtain a i where z: "z = (a, i)" by fastforce
    assume "memory' z \<noteq> memory z"
    then have "a = address_of g" "sg_committed_tokens g \<le> i" using assms(4) [of a i] W(3) by (auto simp: z idx)
    then show False using row [OF t, of a i] tz z by auto
  qed
  then show ?thesis using W(3) by (auto intro: map_cong)
qed

theorem kv_writes_are_private_witness:
  "\<exists>span. write_span (unique_in ([] @ [] :: BufferSnapshot KvState list)) 0 demo_target demo_pending = Ok span \<and>
     local_range span 0 3 = Ok (0, 3)"
proof -
  have w: "write_span (unique_in ([] @ [] :: BufferSnapshot KvState list)) 0 demo_target demo_pending =
      Ok \<lparr>kx_key = demo_row, kx_value = demo_row, kx_logical_start = 0, kx_capacity_tokens = 4\<rparr>"
    by (simp add: write_span_def write_span_new_def get_or_def unique_in_def kv_run_defs demo_kv_defs)
  have p: "kv_pending demo_pending = Some demo_target" by (simp add: demo_kv_defs)
  have "\<exists>first. local_range \<lparr>kx_key = demo_row, kx_value = demo_row, kx_logical_start = 0, kx_capacity_tokens = 4\<rparr> (ar_start demo_target) (ar_tokens demo_target) =
      Ok (first, first + ar_tokens demo_target)"
    by (rule conjunct1 [OF kv_writes_are_private [OF demo_reachable_pending p w, of "\<lambda>_. (0 :: nat)" "\<lambda>_. 0"]]) simp
  then show ?thesis using w by (auto simp: demo_target_def local_range_def and_then_eq_Ok)
qed

section \<open>Reading\<close>

text \<open>C23: The read spans of a layer the cache has always form a gap-free read view, and the view finds
  for every committed position the key buffer and the row that the segment holding the position
  has for it. (The one error left is the host allocation.)\<close>

theorem kv_reads_find_every_row:
  assumes "kv_reachable B used layers (us @ s # vs, x)" and "layer < layers"
    and "kb_reserve B (length (kv_segments s)) x = (Ok (), y)"
  shows "\<exists>spans view. read_spans B layer s x = (Ok spans, y) \<and> read_view_new spans = Ok view \<and>
    kv_position s \<le> kw_mapped_tokens view \<and>
    map (\<lambda>position. map_option (\<lambda>(span, row). (ks_key span, row)) (span_for_position view position)) [0..<kv_position s] =
    map Some (key_rows layer (kv_segments s))"
proof -
  note S = reachable_member [OF assms(1)]
  have lay: "\<forall>g\<in>set (kv_segments s). layer < length (st_layers (sg_storage g))" using S(3) assms(2) by (simp add: tracked_def)
  obtain spans m where c: "collect_spans layer (kv_pending s) 0 (kv_segments s) = Ok spans" "check_coverage spans 0 = Ok m"
    "kv_position s \<le> m" "take (kv_position s) (span_rows spans) = key_rows layer (kv_segments s)"
    by (rule spans_run [OF S(2) lay])
  let ?view = "\<lparr>kw_spans = spans, kw_mapped_tokens = m\<rparr>"
  have r: "read_spans B layer s x = (Ok spans, y)" by (simp add: read_spans_def reserve_vec_def assms(3) c(1))
  have v: "read_view_new spans = Ok ?view" by (simp add: read_view_new_def c(2))
  have len: "length (span_rows spans) = m" using check_coverage_Ok [OF c(2)] by simp
  have "map_option (\<lambda>(span, row). (ks_key span, row)) (span_for_position ?view i) = Some (key_rows layer (kv_segments s) ! i)"
    if "i < kv_position s" for i
  proof -
    have "key_rows layer (kv_segments s) ! i = span_rows spans ! i" using that by (simp flip: c(4))
    then show ?thesis using find_span_covered [OF c(2), of i] that c(3) by (simp add: span_for_position_def)
  qed
  moreover have "length (key_rows layer (kv_segments s)) = kv_position s" using c(3) len by (simp flip: c(4))
  ultimately have "map (\<lambda>position. map_option (\<lambda>(span, row). (ks_key span, row)) (span_for_position ?view position)) [0..<kv_position s] =
    map Some (key_rows layer (kv_segments s))"
    by (intro nth_equalityI) simp_all
  then show ?thesis using r v c(3) by auto
qed

theorem kv_reads_find_every_row_witness:
  "\<exists>spans view. read_spans demo_kv 0 demo_written 1 = (Ok spans, 1) \<and> read_view_new spans = Ok view \<and>
     map (\<lambda>position. map_option (\<lambda>(span, row). (ks_key span, row)) (span_for_position view position)) [0..<3] =
     [Some (demo_row, 0), Some (demo_row, 1), Some (demo_row, 2)]"
proof -
  have "kb_reserve demo_kv (length (kv_segments demo_written)) 1 = (Ok (), 1)" by (simp add: demo_kv_def)
  from kv_reads_find_every_row [OF demo_reachable_written _ this, of 0]
  obtain spans view where "read_spans demo_kv 0 demo_written 1 = (Ok spans, 1)" "read_view_new spans = Ok view"
    "map (\<lambda>position. map_option (\<lambda>(span, row). (ks_key span, row)) (span_for_position view position)) [0..<kv_position demo_written] =
     map Some (key_rows 0 (kv_segments demo_written))" by auto
  then show ?thesis by (intro exI conjI) (assumption, assumption, simp add: demo_kv_defs key_rows_def upt_rec numeral_2_eq_2)
qed

section \<open>Snapshots\<close>

text \<open>C24: A cache restored from a snapshot is well formed, has nothing pending, and stands for the cache
  that was captured: the same position, shape and dtype, and segment for segment the same start,
  committed tokens, capacity and buffer contents as the captured cache's segments that hold a
  token.\<close>

theorem kv_snapshot_roundtrip:
  assumes "kv_reachable B used layers (us @ s # vs, x)" and "kv_contents B contents"
    and "kv_snapshot B s x = (Ok snapshot, x1)" and "kv_restore B snapshot x2 = (Ok t, x3)"
  shows "kv_ok t \<and> kv_pending t = None \<and> kv_position t = kv_position s \<and> kv_shape t = kv_shape s \<and> kv_dtype t = kv_dtype s \<and>
    contents (kv_device_position t) = contents (kv_device_position s) \<and>
    map (segment_image contents) (kv_segments t) = map (segment_image contents) (committed_segments s)"
  using restore_run [OF reachable_member(2,1) [OF assms(1)] assms(2-4)] reachable_member(1) [OF assms(1)] by blast

theorem kv_snapshot_roundtrip_witness:
  "\<exists>n t. kv_snapshot demo_kv demo_written 1 = (Ok n, 1) \<and> kv_restore demo_kv n 1 = (Ok t, 2) \<and> kv_position t = 3 \<and>
     map (segment_image id) (kv_segments t) = map (segment_image id) (kv_segments demo_written)"
proof -
  define n where "n = \<lparr>sn_segments = [\<lparr>ss_logical_start = 0, ss_committed_tokens = 3, ss_capacity_tokens = 4, ss_layers = [(demo_row, demo_row)]\<rparr>],
      sn_position = 3, sn_device_position = demo_u32, sn_shape = demo_shape, sn_dtype = DtypeF32\<rparr>"
  have n: "kv_snapshot demo_kv demo_written 1 = (Ok n, 1)"
    by (simp add: n_def kv_snapshot_def committed_segments_def snapshot_segment_def kv_run_defs demo_kv_defs)
  have "\<exists>t. kv_restore demo_kv n 1 = (Ok t, 2)"
    by (simp add: n_def kv_restore_def restore_segment_def snapshot_segment_bytes_def size_u64_def checked_mul_def kv_run_defs demo_kv_defs)
  then obtain t where t: "kv_restore demo_kv n 1 = (Ok t, 2)" by blast
  show ?thesis
  proof (intro exI conjI)
    note R = kv_snapshot_roundtrip [OF demo_reachable_written demo_kv_contents n t]
    show "kv_position t = 3" using R by (simp add: demo_written_def)
    have "committed_segments demo_written = kv_segments demo_written" by (simp add: committed_segments_def demo_written_def)
    then show "map (segment_image id) (kv_segments t) = map (segment_image id) (kv_segments demo_written)" using R by simp
  qed (rule n, rule t)
qed

end
