(* ===== verification/Kv_Sizes.thy ===== *)
theory Kv_Sizes
  imports Kv_Demo
begin

text \<open>
  The host metadata of the caches in \<open>crates/leone/src/kv.rs\<close>: the bytes the containers of a
  cache and of its snapshot take, and the bound the runtime reserves for them before it serves
  a context. The sizes of the element types (\<open>size_of\<close>) and the capacity of the segment vector
  are arguments.
\<close>

record KvSizes =
  sz_segment :: nat
  sz_storage :: nat
  sz_layer :: nat
  sz_snapshot_segment :: nat
  sz_snapshot_layer :: nat

definition checked_container_bytes :: "nat \<Rightarrow> nat \<Rightarrow> string \<Rightarrow> (u64, BackendError) outcome" where
  "checked_container_bytes width n field =
     and_then (size_u64 field n) (\<lambda>n.
     and_then (size_u64 field width) (\<lambda>element_bytes.
     ok_or (checked_mul n element_bytes) (SizeOverflow field)))"

definition metadata_vec_capacity :: "nat \<Rightarrow> (nat, BackendError) outcome" where
  "metadata_vec_capacity len =
     checked_size ''KV metadata vector capacity'' (Option.bind (usize_checked_mul len 2) (\<lambda>capacity. usize_checked_add capacity 4))"

definition kv_metadata_bound_bytes :: "KvSizes \<Rightarrow> nat \<Rightarrow> nat \<Rightarrow> nat \<Rightarrow> (u64, BackendError) outcome" where
  "kv_metadata_bound_bytes sz state_segments snapshot_parts layer_count =
     and_then (checked_container_bytes (sz_segment sz) state_segments ''KV state segment metadata'') (\<lambda>state_segments.
     and_then (checked_container_bytes (sz_storage sz) snapshot_parts ''KV state storage metadata'') (\<lambda>state_storage.
     and_then (checked_container_bytes (sz_layer sz) layer_count ''KV state layer metadata'') (\<lambda>state_layers.
     and_then (checked_container_bytes (sz_snapshot_segment sz) snapshot_parts ''KV snapshot segment metadata'') (\<lambda>snapshot_parts.
     and_then (checked_container_bytes (sz_snapshot_layer sz) layer_count ''KV snapshot layer metadata'') (\<lambda>snapshot_layers.
     ok_or (Option.bind (Option.bind (Option.bind (checked_add state_segments state_storage)
         (\<lambda>bytes. checked_add bytes state_layers)) (\<lambda>bytes. checked_add bytes snapshot_parts)) (\<lambda>bytes. checked_add bytes snapshot_layers))
       (SizeOverflow ''KV metadata bound''))))))"

definition metadata_bound_bytes :: "KvSizes \<Rightarrow> nat \<Rightarrow> nat \<Rightarrow> (u64, BackendError) outcome" where
  "metadata_bound_bytes sz context_tokens layers =
     and_then (checked_size ''KV metadata segment count'' (usize_checked_add context_tokens 1)) (\<lambda>segments.
     and_then (metadata_vec_capacity segments) (\<lambda>state_segment_capacity.
     and_then (checked_size ''KV metadata layer count'' (usize_checked_mul segments layers)) (\<lambda>layer_count.
     kv_metadata_bound_bytes sz state_segment_capacity segments layer_count)))"

text \<open>\<open>try_fold\<close> of a checked addition of lengths.\<close>

fun checked_count :: "string \<Rightarrow> nat \<Rightarrow> nat list \<Rightarrow> (nat, BackendError) outcome" where
  "checked_count field acc [] = Ok acc"
| "checked_count field acc (n # ns) = and_then (checked_size field (usize_checked_add acc n)) (\<lambda>acc. checked_count field acc ns)"

fun count_snapshot :: "nat \<times> nat \<Rightarrow> 'b KvSegment list \<Rightarrow> (nat \<times> nat, BackendError) outcome" where
  "count_snapshot counts [] = Ok counts"
| "count_snapshot (segments, layers) (g # gs) =
     and_then (checked_size ''KV snapshot segment count'' (usize_checked_add segments 1)) (\<lambda>segments.
     and_then (checked_size ''KV snapshot layer count'' (usize_checked_add layers (length (st_layers (sg_storage g))))) (\<lambda>layers.
     count_snapshot (segments, layers) gs))"

definition snapshot_container_bytes :: "KvSizes \<Rightarrow> 'b KvState \<Rightarrow> (u64, BackendError) outcome" where
  "snapshot_container_bytes sz s =
     and_then (count_snapshot (0, 0) (committed_segments s)) (\<lambda>(segments, layers).
     and_then (checked_container_bytes (sz_snapshot_segment sz) segments ''KV snapshot segment metadata'') (\<lambda>segment_bytes.
     and_then (checked_container_bytes (sz_snapshot_layer sz) layers ''KV snapshot layer metadata'') (\<lambda>layer_bytes.
     ok_or (checked_add segment_bytes layer_bytes) (SizeOverflow ''KV snapshot container metadata''))))"

definition container_bytes :: "KvSizes \<Rightarrow> nat \<Rightarrow> 'b KvState \<Rightarrow> (u64, BackendError) outcome" where
  "container_bytes sz capacity s =
     and_then (checked_container_bytes (sz_segment sz) capacity ''KV state segment metadata'') (\<lambda>segment_bytes.
     and_then (checked_container_bytes (sz_storage sz) (length (kv_segments s)) ''KV state storage metadata'') (\<lambda>storage_bytes.
     and_then (checked_count ''KV state layer metadata'' 0 (map (\<lambda>g. length (st_layers (sg_storage g))) (kv_segments s))) (\<lambda>layers.
     and_then (checked_container_bytes (sz_layer sz) layers ''KV state layer metadata'') (\<lambda>layer_bytes.
     and_then (ok_or (checked_add segment_bytes storage_bytes) (SizeOverflow ''KV state container metadata'')) (\<lambda>bytes.
     ok_or (checked_add bytes layer_bytes) (SizeOverflow ''KV state container metadata''))))))"

definition restore_container_bytes :: "KvSizes \<Rightarrow> KvSnapshot \<Rightarrow> (u64, BackendError) outcome" where
  "restore_container_bytes sz snapshot =
     and_then (checked_container_bytes (sz_segment sz) (length (sn_segments snapshot)) ''restored KV segment metadata'') (\<lambda>segment_bytes.
     and_then (checked_container_bytes (sz_storage sz) (length (sn_segments snapshot)) ''restored KV storage metadata'') (\<lambda>storage_bytes.
     and_then (checked_count ''restored KV layer metadata'' 0 (map (\<lambda>s. length (ss_layers s)) (sn_segments snapshot))) (\<lambda>layers.
     and_then (checked_container_bytes (sz_layer sz) layers ''restored KV layer metadata'') (\<lambda>layer_bytes.
     and_then (ok_or (checked_add segment_bytes storage_bytes) (SizeOverflow ''restored KV container metadata'')) (\<lambda>bytes.
     ok_or (checked_add bytes layer_bytes) (SizeOverflow ''restored KV container metadata''))))))"

section \<open>The bound is enough\<close>

lemma checked_add_Ok: "checked_add a b = Some c \<longleftrightarrow> unat a + unat b < 2 ^ LENGTH('a) \<and> c = of_nat (unat a + unat b)" for a :: "'a::len word"
  by (auto simp: checked_add_def)

lemma checked_mul_Ok: "checked_mul a b = Some c \<longleftrightarrow> unat a * unat b < 2 ^ LENGTH('a) \<and> c = of_nat (unat a * unat b)" for a :: "'a::len word"
  by (auto simp: checked_mul_def)

lemma size_u64_Ok: "size_u64 f n = Ok v \<longleftrightarrow> n < usize_limit \<and> v = of_nat n"
  by (auto simp: size_u64_def)

lemma unat_u64 [simp]: "n < 18446744073709551616 \<Longrightarrow> unat (of_nat n :: u64) = n"
  by (simp add: unat_of_nat)

lemma word_of_small: "n < usize_limit \<Longrightarrow> unat (of_nat n :: u64) = n"
  by simp

lemma container_bytes_Ok:
  "checked_container_bytes width n f = Ok v \<longleftrightarrow> n < usize_limit \<and> width < usize_limit \<and> n * width < usize_limit \<and> v = of_nat (n * width)"
  by (auto simp: checked_container_bytes_def and_then_eq_Ok size_u64_Ok checked_mul_Ok)

lemma checked_count_Ok: "acc + sum_list ns < usize_limit \<Longrightarrow> checked_count field acc ns = Ok (acc + sum_list ns)"
  by (induction ns arbitrary: acc) (auto simp: checked_size_def usize_checked_add_def add.assoc)

lemma count_snapshot_Ok:
  assumes "n + length gs < usize_limit" and "m + sum_list (map (\<lambda>g. length (st_layers (sg_storage g))) gs) < usize_limit"
  shows "count_snapshot (n, m) gs = Ok (n + length gs, m + sum_list (map (\<lambda>g. length (st_layers (sg_storage g))) gs))"
  using assms
  by (induction gs arbitrary: n m) (auto simp: checked_size_def usize_checked_add_def add.assoc)

text \<open>A cache has at most one segment for each token of the context, and one pending.\<close>

lemma full_length: "full gs \<Longrightarrow> length gs \<le> length (rows_of gs)"
  by (induction gs) auto

lemma segments_bound:
  assumes "kv_ok s"
  shows "length (kv_segments s) \<le> sh_max_context (kv_shape s) + 1" "length (committed_segments s) \<le> length (kv_segments s)"
proof -
  have "length (committed_segments s) \<le> length (kv_rows s)"
    using full_length [OF committed_ok(2) [OF assms]] committed_ok(3) [OF assms] by simp
  also have "\<dots> \<le> sh_max_context (kv_shape s)" using kv_okD(2,6) [OF assms] by simp
  finally have c: "length (committed_segments s) \<le> sh_max_context (kv_shape s)" .
  show "length (committed_segments s) \<le> length (kv_segments s)" by (simp add: committed_segments_def)
  show "length (kv_segments s) \<le> sh_max_context (kv_shape s) + 1"
  proof (cases "kv_pending s")
    case None
    then have "full (kv_segments s)" using kv_okD(5) [OF assms] by (simp add: pending_ok_def)
    then have "committed_segments s = kv_segments s" by (auto simp: committed_segments_def full_def filter_id_conv)
    then show ?thesis using c by simp
  next
    case (Some r)
    then have f: "full (butlast (kv_segments s))" "kv_segments s \<noteq> []" using kv_okD(5) [OF assms] by (simp_all add: pending_ok_def)
    have "kv_segments s = butlast (kv_segments s) @ [last (kv_segments s)]" using f(2) by simp
    then have "length (rows_of (butlast (kv_segments s))) \<le> length (kv_rows s)"
      by (metis kv_rows_def le_add1 length_append rows_of_simps(3))
    then show ?thesis using full_length [OF f(1)] kv_okD(2,6) [OF assms] by simp
  qed
qed

text \<open>The metadata bound of a context is enough: the segments of a cache within that context and of
  the snapshot taken of it (with the capacity the bound allows for the growth of the segment
  vector) are counted without an overflow and together take no more than the bound.\<close>

theorem kv_metadata_fits_the_bound:
  assumes "kv_reachable B used layers (us @ s # vs, x)" and "metadata_bound_bytes sz context_tokens layers = Ok bound"
    and "sh_max_context (kv_shape s) \<le> context_tokens" and "capacity \<le> 2 * (context_tokens + 1) + 4"
  shows "\<exists>state snapshot. container_bytes sz capacity s = Ok state \<and> snapshot_container_bytes sz s = Ok snapshot \<and>
    unat state + unat snapshot \<le> unat bound"
proof -
  note S = reachable_member [OF assms(1)] and L = segments_bound [OF reachable_member(2) [OF assms(1)]]
  let ?n = "context_tokens + 1" and ?gs = "kv_segments s" and ?cs = "committed_segments s"
  have lens: "sum_list (map (\<lambda>g. length (st_layers (sg_storage g))) gs) = length gs * layers"
    if "set gs \<subseteq> set ?gs" for gs
    using that S(3) by (induction gs) (auto simp: tracked_def)
  have ls: "sum_list (map (\<lambda>g. length (st_layers (sg_storage g))) ?gs) = length ?gs * layers"
    "sum_list (map (\<lambda>g. length (st_layers (sg_storage g))) ?cs) = length ?cs * layers"
    by (rule lens, simp add: committed_segments_def)+
  let ?a = "(2 * ?n + 4) * sz_segment sz" and ?b = "?n * sz_storage sz" and ?c = "?n * layers * sz_layer sz"
    and ?d = "?n * sz_snapshot_segment sz" and ?e = "?n * layers * sz_snapshot_layer sz"
  have all: "?n < usize_limit" "2 * ?n + 4 < usize_limit" "?n * layers < usize_limit" "sz_segment sz < usize_limit" "sz_storage sz < usize_limit"
      "sz_layer sz < usize_limit" "sz_snapshot_segment sz < usize_limit" "sz_snapshot_layer sz < usize_limit"
      "?a + ?b + ?c + ?d + ?e < usize_limit" "bound = of_nat (?a + ?b + ?c + ?d + ?e)"
    using assms(2)
    by (auto simp: metadata_bound_bytes_def metadata_vec_capacity_def kv_metadata_bound_bytes_def and_then_eq_Ok container_bytes_Ok
        checked_add_Ok bind_eq_Some_conv mult.commute simp del: of_nat_add of_nat_mult)
  have n: "length ?gs \<le> ?n" "length ?cs \<le> ?n" using L assms(3) by linarith+
  have le: "capacity * sz_segment sz \<le> ?a" "length ?gs * sz_storage sz \<le> ?b" "length ?gs * layers * sz_layer sz \<le> ?c"
      "length ?cs * sz_snapshot_segment sz \<le> ?d" "length ?cs * layers * sz_snapshot_layer sz \<le> ?e"
      "length ?gs * layers \<le> ?n * layers" "length ?cs * layers \<le> ?n * layers"
    using n assms(4) by (simp_all add: mult_le_mono del: mult_Suc mult_le_cancel2)
  let ?state = "capacity * sz_segment sz + length ?gs * sz_storage sz + length ?gs * layers * sz_layer sz"
    and ?snapshot = "length ?cs * sz_snapshot_segment sz + length ?cs * layers * sz_snapshot_layer sz"
  have fit: "?state + ?snapshot \<le> ?a + ?b + ?c + ?d + ?e" using le by linarith
  have lim: "capacity < usize_limit" "length ?gs < usize_limit" "length ?cs < usize_limit" "length ?gs * layers < usize_limit"
      "length ?cs * layers < usize_limit" "capacity * sz_segment sz < usize_limit" "length ?gs * sz_storage sz < usize_limit"
      "length ?gs * layers * sz_layer sz < usize_limit" "length ?cs * sz_snapshot_segment sz < usize_limit"
      "length ?cs * layers * sz_snapshot_layer sz < usize_limit" "?state < usize_limit" "?snapshot < usize_limit"
      "capacity * sz_segment sz + length ?gs * sz_storage sz < usize_limit"
    using all(1-3,9) le n assms(4) by linarith+
  have s: "container_bytes sz capacity s = Ok (of_nat ?state)"
    using lim all(4-6) checked_count_Ok [of 0 "map (\<lambda>g. length (st_layers (sg_storage g))) ?gs"]
    by (simp add: container_bytes_def and_then_eq_Ok container_bytes_Ok checked_add_Ok ls del: of_nat_mult of_nat_add)
  have c: "snapshot_container_bytes sz s = Ok (of_nat ?snapshot)"
    using lim all(7,8) count_snapshot_Ok [of 0 ?cs 0]
    by (simp add: snapshot_container_bytes_def and_then_eq_Ok container_bytes_Ok checked_add_Ok ls del: of_nat_mult of_nat_add)
  have "unat (of_nat ?state :: u64) = ?state" "unat (of_nat ?snapshot :: u64) = ?snapshot" "unat bound = ?a + ?b + ?c + ?d + ?e"
    using word_of_small [OF lim(11)] word_of_small [OF lim(12)] word_of_small [OF all(9)] unfolding all(10) by blast+
  then show ?thesis using s c fit by auto
qed

theorem kv_metadata_fits_the_bound_witness:
  "let sz = \<lparr>sz_segment = 24, sz_storage = 48, sz_layer = 16, sz_snapshot_segment = 48, sz_snapshot_layer = 64\<rparr>
   in \<exists>state snapshot. container_bytes sz 4 demo_written = Ok state \<and> snapshot_container_bytes sz demo_written = Ok snapshot \<and>
     unat state + unat snapshot \<le> 2112"
proof -
  let ?sz = "\<lparr>sz_segment = 24, sz_storage = 48, sz_layer = 16, sz_snapshot_segment = 48, sz_snapshot_layer = 64\<rparr>"
  have b: "metadata_bound_bytes ?sz 8 1 = Ok 2112"
    by (simp add: metadata_bound_bytes_def metadata_vec_capacity_def kv_metadata_bound_bytes_def checked_size_def usize_checked_add_def
        usize_checked_mul_def checked_container_bytes_def size_u64_def checked_mul_def checked_add_def)
  have h: "sh_max_context (kv_shape demo_written) \<le> 8" by (simp add: demo_kv_defs)
  show ?thesis
    using kv_metadata_fits_the_bound [OF demo_reachable_written b h, of 4] by (simp add: Let_def)
qed

end
