(* ===== verification/Gguf_Types.thy ===== *)
theory Gguf_Types
  imports Rust_Base
begin

text \<open>
  The data of the GGUF import layer (\<open>crates/leone-gguf/src\<close>): errors (\<open>error.rs\<close>), metadata
  values, ggml types and tensor descriptors (\<open>container.rs\<close>), and the checked arithmetic on
  them. A float is its bits, a signed integer the word that \<open>as\<close> reinterprets, a string its
  UTF-8 bytes; lengths and capacities are natural numbers below \<open>usize_limit\<close>.
\<close>

section \<open>Errors\<close>

datatype AllocationBudgetError = AllocationBudgetError string u64 string

datatype GgufError =
    UnexpectedEof
  | AllocationBudget AllocationBudgetError
  | InvalidMagic "u8 list"
  | UnsupportedVersion u32
  | LimitExceeded string u64 u64
  | IntegerOverflow string
  | InvalidUtf8 string "u8 list"
  | InvalidValueType u32
  | NestedArray
  | InvalidBoolean u8
  | DuplicateMetadata "u8 list"
  | DuplicateTensor "u8 list"
  | InvalidAlignment u32
  | InvalidDimensions "u8 list" u32
  | ZeroDimension "u8 list"
  | UnsupportedTensorType "u8 list" u32
  | Allocation string nat
  | InvalidRowLength "u8 list" string u64 u64
  | MisalignedTensor "u8 list" u64 u32
  | TensorOutOfBounds "u8 list"
  | OverlappingTensors "u8 list" "u8 list"
  | TensorNotFound "u8 list"

section \<open>Metadata\<close>

datatype ValueType =
  TUint8 | TInt8 | TUint16 | TInt16 | TUint32 | TInt32 | TFloat32 | TBool | TString | TArray | TUint64 | TInt64 | TFloat64

definition VALUE_TYPES :: "ValueType list" where
  "VALUE_TYPES = [TUint8, TInt8, TUint16, TInt16, TUint32, TInt32, TFloat32, TBool, TString, TArray, TUint64, TInt64, TFloat64]"

definition value_type_try_from :: "u32 \<Rightarrow> (ValueType, GgufError) outcome" where
  "value_type_try_from v = ok_or (if unat v < length VALUE_TYPES then Some (VALUE_TYPES ! unat v) else None) (InvalidValueType v)"

fun value_type_index :: "ValueType \<Rightarrow> nat" where
  "value_type_index TUint8 = 0" | "value_type_index TInt8 = 1" | "value_type_index TUint16 = 2" | "value_type_index TInt16 = 3"
| "value_type_index TUint32 = 4" | "value_type_index TInt32 = 5" | "value_type_index TFloat32 = 6" | "value_type_index TBool = 7"
| "value_type_index TString = 8" | "value_type_index TArray = 9" | "value_type_index TUint64 = 10" | "value_type_index TInt64 = 11"
| "value_type_index TFloat64 = 12"

datatype MetadataArray =
    AUint8 "u8 list" | AInt8 "u8 list" | AUint16 "u16 list" | AInt16 "u16 list" | AUint32 "u32 list" | AInt32 "u32 list"
  | AFloat32 "u32 list" | ABool "bool list" | AString "u8 list list" | AUint64 "u64 list" | AInt64 "u64 list" | AFloat64 "u64 list"

fun array_len :: "MetadataArray \<Rightarrow> nat" where
  "array_len (AUint8 vs) = length vs" | "array_len (AInt8 vs) = length vs" | "array_len (AUint16 vs) = length vs"
| "array_len (AInt16 vs) = length vs" | "array_len (AUint32 vs) = length vs" | "array_len (AInt32 vs) = length vs"
| "array_len (AFloat32 vs) = length vs" | "array_len (ABool vs) = length vs" | "array_len (AString vs) = length vs"
| "array_len (AUint64 vs) = length vs" | "array_len (AInt64 vs) = length vs" | "array_len (AFloat64 vs) = length vs"

definition array_is_empty :: "MetadataArray \<Rightarrow> bool" where
  "array_is_empty a \<longleftrightarrow> array_len a = 0"

fun element_type :: "MetadataArray \<Rightarrow> ValueType" where
  "element_type (AUint8 _) = TUint8" | "element_type (AInt8 _) = TInt8" | "element_type (AUint16 _) = TUint16"
| "element_type (AInt16 _) = TInt16" | "element_type (AUint32 _) = TUint32" | "element_type (AInt32 _) = TInt32"
| "element_type (AFloat32 _) = TFloat32" | "element_type (ABool _) = TBool" | "element_type (AString _) = TString"
| "element_type (AUint64 _) = TUint64" | "element_type (AInt64 _) = TInt64" | "element_type (AFloat64 _) = TFloat64"

datatype MetadataValue =
    VUint8 u8 | VInt8 u8 | VUint16 u16 | VInt16 u16 | VUint32 u32 | VInt32 u32 | VFloat32 u32 | VBool bool | VString "u8 list"
  | VArray MetadataArray | VUint64 u64 | VInt64 u64 | VFloat64 u64

fun as_u64 :: "MetadataValue \<Rightarrow> u64 option" where
  "as_u64 (VUint8 v) = Some (ucast v)" | "as_u64 (VUint16 v) = Some (ucast v)" | "as_u64 (VUint32 v) = Some (ucast v)"
| "as_u64 (VUint64 v) = Some v" | "as_u64 _ = None"

fun as_str :: "MetadataValue \<Rightarrow> u8 list option" where
  "as_str (VString v) = Some v" | "as_str _ = None"

fun as_array :: "MetadataValue \<Rightarrow> MetadataArray option" where
  "as_array (VArray v) = Some v" | "as_array _ = None"

section \<open>Tensor types\<close>

type_synonym GgmlType = u32

definition BLOCK_LAYOUTS :: "(u64 \<times> u64) option list" where
  "BLOCK_LAYOUTS = [Some (1, 4), Some (1, 2), Some (32, 18), Some (32, 20), None, None, Some (32, 22), Some (32, 24),
     Some (32, 34), Some (32, 36), Some (256, 84), Some (256, 110), Some (256, 144), Some (256, 176), Some (256, 210),
     Some (256, 292), Some (256, 66), Some (256, 74), Some (256, 98), Some (256, 50), Some (32, 18), Some (256, 110),
     Some (256, 82), Some (256, 136), Some (1, 1), Some (1, 2), Some (1, 4), Some (1, 8), Some (1, 8), Some (256, 56),
     Some (1, 2), None, None, None, Some (256, 54), Some (256, 66), None, None, None, Some (32, 17), Some (64, 36),
     Some (128, 18), Some (64, 18)]"

definition GGML_TYPE_NAMES :: "string list" where
  "GGML_TYPE_NAMES = [''F32'', ''F16'', ''Q4_0'', ''Q4_1'', ''REMOVED'', ''REMOVED'', ''Q5_0'', ''Q5_1'', ''Q8_0'', ''Q8_1'', ''Q2_K'',
     ''Q3_K'', ''Q4_K'', ''Q5_K'', ''Q6_K'', ''Q8_K'', ''IQ2_XXS'', ''IQ2_XS'', ''IQ3_XXS'', ''IQ1_S'', ''IQ4_NL'',
     ''IQ3_S'', ''IQ2_S'', ''IQ4_XS'', ''I8'', ''I16'', ''I32'', ''I64'', ''F64'', ''IQ1_M'', ''BF16'', ''REMOVED'',
     ''REMOVED'', ''REMOVED'', ''TQ1_0'', ''TQ2_0'', ''REMOVED'', ''REMOVED'', ''REMOVED'', ''MXFP4'', ''NVFP4'',
     ''Q1_0'', ''Q2_0'']"

definition block_layout :: "GgmlType \<Rightarrow> (u64 \<times> u64) option" where
  "block_layout t = (if unat t < length BLOCK_LAYOUTS then BLOCK_LAYOUTS ! unat t else None)"

definition ggml_type_name :: "GgmlType \<Rightarrow> string" where
  "ggml_type_name t = (if unat t < length GGML_TYPE_NAMES then GGML_TYPE_NAMES ! unat t else ''UNKNOWN'')"

record TensorInfo =
  ti_name :: "u8 list"
  ti_shape :: "u64 list"
  ti_dtype :: GgmlType
  ti_offset :: u64
  ti_n_bytes :: u64

section \<open>Checked arithmetic\<close>

definition overflow :: "'a option \<Rightarrow> string \<Rightarrow> ('a, GgufError) outcome" where
  "overflow v what = ok_or v (IntegerOverflow what)"

text \<open>\<open>u64::try_from\<close> of a \<open>usize\<close> and \<open>usize::try_from\<close> of a \<open>u64\<close>.\<close>

definition u64_of :: "nat \<Rightarrow> string \<Rightarrow> (u64, GgufError) outcome" where
  "u64_of n what = overflow (if n < usize_limit then Some (of_nat n) else None) what"

definition usize_of :: "u64 \<Rightarrow> string \<Rightarrow> (nat, GgufError) outcome" where
  "usize_of w what = overflow (if unat w < usize_limit then Some (unat w) else None) what"

text \<open>\<open>try_fold\<close> of \<open>checked_mul\<close> from one.\<close>

fun product_from :: "u64 \<Rightarrow> u64 list \<Rightarrow> string \<Rightarrow> (u64, GgufError) outcome" where
  "product_from acc [] what = Ok acc"
| "product_from acc (v # vs) what = and_then (overflow (checked_mul acc v) what) (\<lambda>acc. product_from acc vs what)"

definition checked_product :: "u64 list \<Rightarrow> string \<Rightarrow> (u64, GgufError) outcome" where
  "checked_product vs what = product_from 1 vs what"

definition n_elements :: "TensorInfo \<Rightarrow> (u64, GgufError) outcome" where
  "n_elements t = checked_product (ti_shape t) ''tensor element count''"

definition check_limit :: "string \<Rightarrow> u64 \<Rightarrow> u64 \<Rightarrow> (unit, GgufError) outcome" where
  "check_limit what v limit = (if limit < v then Err (LimitExceeded what v limit) else Ok ())"

definition align_up :: "u64 \<Rightarrow> u64 \<Rightarrow> (u64, GgufError) outcome" where
  "align_up v alignment =
     (let mask = alignment - 1 in overflow (map_option (\<lambda>total. and total (not mask)) (checked_add v mask)) ''aligned data offset'')"

text \<open>\<open>u32::is_power_of_two\<close>: one bit is set.\<close>

definition is_power_of_two :: "'a::len word \<Rightarrow> bool" where
  "is_power_of_two w \<longleftrightarrow> w \<noteq> 0 \<and> and w (w - 1) = 0"

definition tensor_bytes :: "u8 list \<Rightarrow> u64 list \<Rightarrow> GgmlType \<Rightarrow> (u64, GgufError) outcome" where
  "tensor_bytes name shape dtype =
     and_then (ok_or (block_layout dtype) (UnsupportedTensorType name dtype)) (\<lambda>(block_elements, block_bytes).
     and_then (at_index shape 0) (\<lambda>row_elements.
     if row_elements mod block_elements \<noteq> 0
     then Err (InvalidRowLength name (ggml_type_name dtype) row_elements block_elements)
     else
       and_then (overflow (Option.bind (checked_div row_elements block_elements) (\<lambda>blocks. checked_mul blocks block_bytes)) ''tensor row byte count'') (\<lambda>row_bytes.
       and_then (slice shape 1 (length shape)) (\<lambda>tail.
       and_then (checked_product tail ''tensor row count'') (\<lambda>rows.
       overflow (checked_mul row_bytes rows) ''tensor byte count'')))))"

section \<open>Host sizes\<close>

definition geometric_capacity_u64 :: "u64 \<Rightarrow> u64 \<Rightarrow> string \<Rightarrow> (u64, GgufError) outcome" where
  "geometric_capacity_u64 required current what =
     (if required \<le> current then Ok current
      else if current = 0 then Ok required
      else and_then (overflow (checked_mul current 2) what) (\<lambda>doubled. Ok (max required doubled)))"

definition geometric_capacity_usize :: "nat \<Rightarrow> nat \<Rightarrow> string \<Rightarrow> (nat, GgufError) outcome" where
  "geometric_capacity_usize required current what =
     (if required \<le> current then Ok current
      else if current = 0 then Ok required
      else and_then (overflow (usize_checked_mul current 2) what) (\<lambda>doubled. Ok (max required doubled)))"

text \<open>\<open>size_of::<T>()\<close> and \<open>size_of::<Vec<T>>()\<close> are arguments.\<close>

definition guard_storage_bytes :: "nat \<Rightarrow> nat \<Rightarrow> (u64, GgufError) outcome" where
  "guard_storage_bytes slot_size capacity =
     and_then (u64_of capacity ''parser allocation guard slots'') (\<lambda>capacity.
     and_then (u64_of slot_size ''parser allocation guard slots'') (\<lambda>slot_bytes.
     overflow (checked_mul capacity slot_bytes) ''parser allocation guard resize bytes''))"

definition vector_bytes :: "nat \<Rightarrow> nat \<Rightarrow> nat \<Rightarrow> string \<Rightarrow> (u64, GgufError) outcome" where
  "vector_bytes width vec_size len what =
     and_then (u64_of len what) (\<lambda>len.
     and_then (u64_of width what) (\<lambda>width.
     and_then (overflow (checked_mul len width) what) (\<lambda>payload.
     and_then (u64_of vec_size what) (\<lambda>header.
     overflow (checked_add payload header) what))))"

definition HASH_BUCKET_FACTOR :: u64 where "HASH_BUCKET_FACTOR = 2"
definition HASH_CONTROL_AND_ALIGNMENT_BYTES :: u64 where "HASH_CONTROL_AND_ALIGNMENT_BYTES = 64"
definition ORDERED_NODE_ENTRY_FACTOR :: u64 where "ORDERED_NODE_ENTRY_FACTOR = 8"
definition ORDERED_NODE_OVERHEAD_BYTES :: u64 where "ORDERED_NODE_OVERHEAD_BYTES = 128"

text \<open>\<open>checked_next_power_of_two\<close>: the smallest power of two that is not below \<open>w\<close>.\<close>

fun power_from :: "nat \<Rightarrow> u64 \<Rightarrow> u64 \<Rightarrow> u64 option" where
  "power_from 0 p w = None"
| "power_from (Suc n) p w = (if w \<le> p then Some p else power_from n (p * 2) w)"

definition checked_next_power_of_two :: "u64 \<Rightarrow> u64 option" where
  "checked_next_power_of_two w = power_from 64 1 w"

definition hash_collection_bytes :: "nat \<Rightarrow> u64 \<Rightarrow> string \<Rightarrow> (u64, GgufError) outcome" where
  "hash_collection_bytes width len what =
     (if len = 0 then Ok 0
      else
        and_then (overflow (checked_mul (max len 4) HASH_BUCKET_FACTOR) what) (\<lambda>minimum_buckets.
        and_then (overflow (checked_next_power_of_two minimum_buckets) what) (\<lambda>buckets.
        and_then (u64_of width what) (\<lambda>entry_bytes.
        and_then (overflow (checked_add entry_bytes 1) what) (\<lambda>slot_bytes.
        overflow (Option.bind (checked_mul buckets slot_bytes) (\<lambda>bytes. checked_add bytes HASH_CONTROL_AND_ALIGNMENT_BYTES)) what)))))"

definition ordered_collection_bytes :: "nat \<Rightarrow> u64 \<Rightarrow> string \<Rightarrow> (u64, GgufError) outcome" where
  "ordered_collection_bytes width len what =
     and_then (u64_of width what) (\<lambda>entry_bytes.
     and_then (overflow (Option.bind (checked_mul entry_bytes ORDERED_NODE_ENTRY_FACTOR) (\<lambda>bytes. checked_add bytes ORDERED_NODE_OVERHEAD_BYTES)) what) (\<lambda>entry_bytes.
     overflow (checked_mul len entry_bytes) what))"

end
