(* ===== verification/Gguf_Input.thy ===== *)
theory Gguf_Input
  imports Gguf_Types
begin

text \<open>
  The parser's input (\<open>Input\<close> in \<open>crates/leone-gguf/src/container.rs\<close>): the bytes left to read,
  the position, and the guards and reservations it holds against a memory budget
  (\<open>alloc.rs\<close>). The budget and the process's allocator are a \<open>GgufHost\<close>, functions on a
  world, with the sizes of the element types. What a failing parse drops is not followed: the
  state that comes with an error is the one at the point of failure.
\<close>

section \<open>The host\<close>

text \<open>
  \<open>gh_alloc width n\<close> is \<open>try_reserve_exact(n)\<close> (\<open>try_reserve\<close> for the set) on an empty
  collection, \<open>gh_grow len cap n\<close> on the vector of guards, whose new capacity it returns.
\<close>

record ('x, 'r, 'g) GgufHost =
  gh_guard_metadata_bytes :: "'x \<Rightarrow> u64"
  gh_reservation_metadata_bytes :: "'x \<Rightarrow> u64"
  gh_reserve :: "u64 \<Rightarrow> string \<Rightarrow> 'x \<Rightarrow> ('r, AllocationBudgetError) outcome \<times> 'x"
  gh_commit :: "'r \<Rightarrow> 'x \<Rightarrow> ('g, AllocationBudgetError) outcome \<times> 'x"
  gh_drop_reservation :: "'r \<Rightarrow> 'x \<Rightarrow> 'x"
  gh_drop_guards :: "'g list \<Rightarrow> 'x \<Rightarrow> 'x"
  gh_alloc :: "nat \<Rightarrow> nat \<Rightarrow> 'x \<Rightarrow> bool \<times> 'x"
  gh_grow :: "nat \<Rightarrow> nat \<Rightarrow> nat \<Rightarrow> 'x \<Rightarrow> nat option \<times> 'x"
  gh_slot_size :: nat
  gh_vec_size :: nat
  gh_tensor_size :: nat
  gh_string_size :: nat
  gh_name_size :: nat
  gh_entry_size :: nat
  gh_range_size :: nat

record ('x, 'r, 'g) Input =
  in_reader :: "u8 list"
  in_position :: u64
  in_file_len :: u64
  in_world :: 'x
  in_allocations :: "'g list"
  in_capacity :: nat
  in_buffer_reservation :: "'r option"
  in_reservations :: "'r list"
  in_guard_metadata_capacity :: u64
  in_guard_metadata_used :: u64

definition input_new :: "u8 list \<Rightarrow> u64 \<Rightarrow> 'x \<Rightarrow> 'r option \<Rightarrow> 'r list \<Rightarrow> ('x, 'r, 'g) Input" where
  "input_new reader file_len x buffer_reservation reservations =
     \<lparr>in_reader = reader, in_position = 0, in_file_len = file_len, in_world = x, in_allocations = [], in_capacity = 0,
      in_buffer_reservation = buffer_reservation, in_reservations = reservations, in_guard_metadata_capacity = 0,
      in_guard_metadata_used = 0\<rparr>"

definition GGUF_MAGIC :: "u8 list" where "GGUF_MAGIC = [71, 71, 85, 70]"
definition GGUF_VERSION :: u32 where "GGUF_VERSION = 3"
definition DEFAULT_ALIGNMENT :: u32 where "DEFAULT_ALIGNMENT = 32"
definition MAX_COLLECTION_LEN :: u64 where "MAX_COLLECTION_LEN = 16777216"
definition MAX_STRING_LEN :: u64 where "MAX_STRING_LEN = 1073741824"
definition MIN_TENSOR_DESCRIPTOR_BYTES :: u64 where "MIN_TENSOR_DESCRIPTOR_BYTES = 32"
definition PARSER_BUFFER_BYTES :: u64 where "PARSER_BUFFER_BYTES = 8 * 1024"
definition PARSER_RESERVATION_CAPACITY :: nat where "PARSER_RESERVATION_CAPACITY = 64"
definition PARSER_MAX_RETAINED_RESERVATION_WRAPPERS :: nat where
  "PARSER_MAX_RETAINED_RESERVATION_WRAPPERS = PARSER_RESERVATION_CAPACITY - 1"

section \<open>Fields\<close>

text \<open>
  \<open>read_exact\<close>: all of the bytes, or the end of the file. The other errors of the operating
  system, which the code passes on as \<open>Error::Io\<close>, are not modelled.
\<close>

definition read_exact :: "nat \<Rightarrow> ('x, 'r, 'g) Input \<Rightarrow> (u8 list, GgufError) outcome \<times> ('x, 'r, 'g) Input" where
  "read_exact n inp =
     (if n \<le> length (in_reader inp) then (Ok (take n (in_reader inp)), inp\<lparr>in_reader := drop n (in_reader inp)\<rparr>)
      else (Err UnexpectedEof, inp\<lparr>in_reader := []\<rparr>))"

definition advance :: "u64 \<Rightarrow> ('x, 'r, 'g) Input \<Rightarrow> (unit, GgufError) outcome \<times> ('x, 'r, 'g) Input" where
  "advance n inp = try_pure (overflow (checked_add (in_position inp) n) ''parser position'') inp (\<lambda>p. (Ok (), inp\<lparr>in_position := p\<rparr>))"

definition input_bytes :: "nat \<Rightarrow> ('x, 'r, 'g) Input \<Rightarrow> (u8 list, GgufError) outcome \<times> ('x, 'r, 'g) Input" where
  "input_bytes n inp =
     try_st (read_exact n inp) (\<lambda>bytes inp.
     try_st (advance (of_nat n) inp) (\<lambda>_ inp. (Ok bytes, inp)))"

fun le_value :: "u8 list \<Rightarrow> nat" where
  "le_value [] = 0"
| "le_value (b # bs) = unat b + 256 * le_value bs"

definition from_le_bytes :: "u8 list \<Rightarrow> 'a::len word" where
  "from_le_bytes bs = of_nat (le_value bs)"

definition input_u8 :: "('x, 'r, 'g) Input \<Rightarrow> (u8, GgufError) outcome \<times> ('x, 'r, 'g) Input" where
  "input_u8 inp = try_st (input_bytes 1 inp) (\<lambda>bytes inp. try_pure (at_index bytes 0) inp (\<lambda>b. (Ok b, inp)))"

definition input_u16 :: "('x, 'r, 'g) Input \<Rightarrow> (u16, GgufError) outcome \<times> ('x, 'r, 'g) Input" where
  "input_u16 inp = try_st (input_bytes 2 inp) (\<lambda>bytes inp. (Ok (from_le_bytes bytes), inp))"

definition input_u32 :: "('x, 'r, 'g) Input \<Rightarrow> (u32, GgufError) outcome \<times> ('x, 'r, 'g) Input" where
  "input_u32 inp = try_st (input_bytes 4 inp) (\<lambda>bytes inp. (Ok (from_le_bytes bytes), inp))"

definition input_u64 :: "('x, 'r, 'g) Input \<Rightarrow> (u64, GgufError) outcome \<times> ('x, 'r, 'g) Input" where
  "input_u64 inp = try_st (input_bytes 8 inp) (\<lambda>bytes inp. (Ok (from_le_bytes bytes), inp))"

definition input_bool :: "('x, 'r, 'g) Input \<Rightarrow> (bool, GgufError) outcome \<times> ('x, 'r, 'g) Input" where
  "input_bool inp = try_st (input_u8 inp) (\<lambda>v inp.
     (if v = 0 then Ok False else if v = 1 then Ok True else Err (InvalidBoolean v), inp))"

section \<open>Guards and reservations\<close>

definition budget_call :: "('x \<Rightarrow> ('a, AllocationBudgetError) outcome \<times> 'x) \<Rightarrow> ('x, 'r, 'g) Input \<Rightarrow>
    ('a, GgufError) outcome \<times> ('x, 'r, 'g) Input" where
  "budget_call f inp = (case f (in_world inp) of (r, x) \<Rightarrow> (map_err AllocationBudget r, inp\<lparr>in_world := x\<rparr>))"

definition reserve :: "('x, 'r, 'g) GgufHost \<Rightarrow> u64 \<Rightarrow> string \<Rightarrow> ('x, 'r, 'g) Input \<Rightarrow> ('r, GgufError) outcome \<times> ('x, 'r, 'g) Input" where
  "reserve H bytes what inp = budget_call (gh_reserve H bytes what) inp"

text \<open>\<open>try_reserve_exact\<close> on an empty collection of \<open>n\<close> elements of \<open>width\<close> bytes.\<close>

definition try_alloc :: "('x, 'r, 'g) GgufHost \<Rightarrow> nat \<Rightarrow> nat \<Rightarrow> string \<Rightarrow> ('x, 'r, 'g) Input \<Rightarrow>
    (unit, GgufError) outcome \<times> ('x, 'r, 'g) Input" where
  "try_alloc H width n what inp =
     (case gh_alloc H width n (in_world inp) of (fits, x) \<Rightarrow>
       (if fits then Ok () else Err (Allocation what n), inp\<lparr>in_world := x\<rparr>))"

definition retain_reservation :: "'r \<Rightarrow> ('x, 'r, 'g) Input \<Rightarrow> (unit, GgufError) outcome \<times> ('x, 'r, 'g) Input" where
  "retain_reservation r inp =
     (if PARSER_MAX_RETAINED_RESERVATION_WRAPPERS \<le> length (in_reservations inp)
      then (Err (Allocation ''parser reservation guards'' (length (in_reservations inp) + 1)), inp)
      else (Ok (), inp\<lparr>in_reservations := in_reservations inp @ [r]\<rparr>))"

definition reserve_guard_resize :: "('x, 'r, 'g) GgufHost \<Rightarrow> u64 \<Rightarrow> ('x, 'r, 'g) Input \<Rightarrow>
    ('r option, GgufError) outcome \<times> ('x, 'r, 'g) Input" where
  "reserve_guard_resize H old_bytes inp =
     (if old_bytes = 0 then (Ok None, inp)
      else try_st (reserve H old_bytes ''parser allocation guard vector resize'' inp) (\<lambda>r inp. (Ok (Some r), inp)))"

definition drop_reservation :: "('x, 'r, 'g) GgufHost \<Rightarrow> 'r option \<Rightarrow> ('x, 'r, 'g) Input \<Rightarrow> ('x, 'r, 'g) Input" where
  "drop_reservation H r inp = (case r of None \<Rightarrow> inp | Some r \<Rightarrow> inp\<lparr>in_world := gh_drop_reservation H r (in_world inp)\<rparr>)"

definition ensure_guard_storage_capacity :: "('x, 'r, 'g) GgufHost \<Rightarrow> ('x, 'r, 'g) Input \<Rightarrow>
    (unit, GgufError) outcome \<times> ('x, 'r, 'g) Input" where
  "ensure_guard_storage_capacity H inp =
     try_pure (overflow (usize_checked_add (length (in_allocations inp)) 1) ''parser allocation guard count'') inp (\<lambda>required.
     let old_capacity = in_capacity inp in
     if required \<le> old_capacity then (Ok (), inp)
     else
       try_pure (geometric_capacity_usize required old_capacity ''parser allocation guard capacity'') inp (\<lambda>target.
       try_pure (guard_storage_bytes (gh_slot_size H) old_capacity) inp (\<lambda>old_bytes.
       try_st (reserve_guard_resize H old_bytes inp) (\<lambda>resize_reservation inp.
       case gh_grow H (length (in_allocations inp)) old_capacity (target - length (in_allocations inp)) (in_world inp) of
         (None, x) \<Rightarrow> (Err (Allocation ''parser allocation guards'' target), inp\<lparr>in_world := x\<rparr>)
       | (Some c, x) \<Rightarrow> (Ok (), drop_reservation H resize_reservation (inp\<lparr>in_world := x, in_capacity := c\<rparr>))))))"

definition grow_guard_metadata :: "('x, 'r, 'g) GgufHost \<Rightarrow> u64 \<Rightarrow> bool \<Rightarrow> ('x, 'r, 'g) Input \<Rightarrow>
    (unit, GgufError) outcome \<times> ('x, 'r, 'g) Input" where
  "grow_guard_metadata H required store_in_vector inp =
     try_pure (geometric_capacity_u64 required (in_guard_metadata_capacity inp) ''parser guard metadata count'') inp (\<lambda>capacity.
     let additional = capacity - in_guard_metadata_capacity inp;
         guard_bytes = gh_guard_metadata_bytes H (in_world inp) in
     try_st
       (if guard_bytes \<noteq> 0
        then try_pure (overflow (checked_mul additional guard_bytes) ''parser guard metadata bytes'') inp (\<lambda>bytes.
             try_st (reserve H bytes ''parser allocation guard metadata'' inp) (\<lambda>r inp. retain_reservation r inp))
        else (Ok (), inp)) (\<lambda>_ inp.
     try_st (if store_in_vector then ensure_guard_storage_capacity H inp else (Ok (), inp)) (\<lambda>_ inp.
     (Ok (), inp\<lparr>in_guard_metadata_capacity := capacity\<rparr>))))"

definition reserve_guard_metadata :: "('x, 'r, 'g) GgufHost \<Rightarrow> bool \<Rightarrow> ('x, 'r, 'g) Input \<Rightarrow>
    (unit, GgufError) outcome \<times> ('x, 'r, 'g) Input" where
  "reserve_guard_metadata H store_in_vector inp =
     try_pure (overflow (checked_add (in_guard_metadata_used inp) 1) ''parser guard metadata count'') inp (\<lambda>required.
     try_st
       (if in_guard_metadata_capacity inp < required then grow_guard_metadata H required store_in_vector inp
        else if store_in_vector then ensure_guard_storage_capacity H inp
        else (Ok (), inp)) (\<lambda>_ inp.
     (Ok (), inp\<lparr>in_guard_metadata_used := required\<rparr>)))"

definition commit_retained :: "('x, 'r, 'g) GgufHost \<Rightarrow> 'r \<Rightarrow> ('x, 'r, 'g) Input \<Rightarrow> (unit, GgufError) outcome \<times> ('x, 'r, 'g) Input" where
  "commit_retained H r inp =
     try_st (reserve_guard_metadata H True inp) (\<lambda>_ inp.
     try_st (budget_call (gh_commit H r) inp) (\<lambda>g inp.
     (Ok (), inp\<lparr>in_allocations := in_allocations inp @ [g]\<rparr>)))"

text \<open>The vector itself is built by the caller: its elements are what the caller reads.\<close>

definition allocate_vec :: "('x, 'r, 'g) GgufHost \<Rightarrow> nat \<Rightarrow> nat \<Rightarrow> string \<Rightarrow> ('x, 'r, 'g) Input \<Rightarrow>
    (unit, GgufError) outcome \<times> ('x, 'r, 'g) Input" where
  "allocate_vec H width n what inp =
     (if n = 0 then (Ok (), inp)
      else
        try_pure (vector_bytes width (gh_vec_size H) n what) inp (\<lambda>bytes.
        try_st (reserve H bytes what inp) (\<lambda>r inp.
        try_st (try_alloc H width n what inp) (\<lambda>_ inp.
        commit_retained H r inp))))"

definition reserve_hash_collection :: "('x, 'r, 'g) GgufHost \<Rightarrow> nat \<Rightarrow> u64 \<Rightarrow> string \<Rightarrow> ('x, 'r, 'g) Input \<Rightarrow>
    ('r option, GgufError) outcome \<times> ('x, 'r, 'g) Input" where
  "reserve_hash_collection H width n what inp =
     (if n = 0 then (Ok None, inp)
      else
        try_pure (hash_collection_bytes width n what) inp (\<lambda>bytes.
        try_st (reserve H bytes what inp) (\<lambda>r inp. (Ok (Some r), inp))))"

definition reserve_ordered_collection :: "('x, 'r, 'g) GgufHost \<Rightarrow> nat \<Rightarrow> u64 \<Rightarrow> string \<Rightarrow> ('x, 'r, 'g) Input \<Rightarrow>
    ('r option, GgufError) outcome \<times> ('x, 'r, 'g) Input" where
  "reserve_ordered_collection H width n what inp =
     (if n = 0 then (Ok None, inp)
      else
        try_pure (ordered_collection_bytes width n what) inp (\<lambda>bytes.
        try_st (reserve H bytes what inp) (\<lambda>r inp. (Ok (Some r), inp))))"

section \<open>Strings\<close>

text \<open>\<open>String::from_utf8\<close>: the well-formed byte sequences of Unicode.\<close>

definition within :: "u8 \<Rightarrow> u8 \<Rightarrow> u8 \<Rightarrow> bool" where
  "within lo hi b \<longleftrightarrow> lo \<le> b \<and> b \<le> hi"

fun utf8_valid :: "u8 list \<Rightarrow> bool" where
  "utf8_valid [] = True"
| "utf8_valid (a # bs) =
     (if a < 0x80 then utf8_valid bs
      else if within 0xC2 0xDF a then (case bs of b # cs \<Rightarrow> within 0x80 0xBF b \<and> utf8_valid cs | _ \<Rightarrow> False)
      else if within 0xE0 0xEF a then
        (case bs of b # c # ds \<Rightarrow>
           within (if a = 0xE0 then 0xA0 else 0x80) (if a = 0xED then 0x9F else 0xBF) b \<and> within 0x80 0xBF c \<and> utf8_valid ds
         | _ \<Rightarrow> False)
      else if within 0xF0 0xF4 a then
        (case bs of b # c # d # es \<Rightarrow>
           within (if a = 0xF0 then 0x90 else 0x80) (if a = 0xF4 then 0x8F else 0xBF) b \<and> within 0x80 0xBF c \<and>
           within 0x80 0xBF d \<and> utf8_valid es
         | _ \<Rightarrow> False)
      else False)"

definition string_length :: "string \<Rightarrow> ('x, 'r, 'g) Input \<Rightarrow> (nat option, GgufError) outcome \<times> ('x, 'r, 'g) Input" where
  "string_length field inp =
     try_st (input_u64 inp) (\<lambda>len inp.
     try_pure (check_limit field len MAX_STRING_LEN) inp (\<lambda>_.
     let remaining = saturating_sub (in_file_len inp) (in_position inp) in
     if remaining < len then (Err UnexpectedEof, inp)
     else
       try_pure (usize_of len field) inp (\<lambda>len.
       (Ok (if len = 0 then None else Some len), inp))))"

definition read_string_body :: "('x, 'r, 'g) GgufHost \<Rightarrow> nat \<Rightarrow> string \<Rightarrow> ('x, 'r, 'g) Input \<Rightarrow>
    (u8 list, GgufError) outcome \<times> ('x, 'r, 'g) Input" where
  "read_string_body H len field inp =
     try_pure (u64_of len field) inp (\<lambda>n.
     try_st (reserve H n field inp) (\<lambda>r inp.
     try_st (try_alloc H 1 len field inp) (\<lambda>_ inp.
     try_st (read_exact len inp) (\<lambda>bytes inp.
     try_st (advance n inp) (\<lambda>_ inp.
     try_pure (if utf8_valid bytes then Ok bytes else Err (InvalidUtf8 field bytes)) inp (\<lambda>v.
     try_st (commit_retained H r inp) (\<lambda>_ inp. (Ok v, inp))))))))"

definition input_string :: "('x, 'r, 'g) GgufHost \<Rightarrow> string \<Rightarrow> ('x, 'r, 'g) Input \<Rightarrow> (u8 list, GgufError) outcome \<times> ('x, 'r, 'g) Input" where
  "input_string H field inp =
     try_st (string_length field inp) (\<lambda>len inp.
     case len of None \<Rightarrow> (Ok [], inp) | Some len \<Rightarrow> read_string_body H len field inp)"

definition clone_string :: "('x, 'r, 'g) GgufHost \<Rightarrow> u8 list \<Rightarrow> string \<Rightarrow> ('x, 'r, 'g) Input \<Rightarrow>
    (u8 list \<times> 'g option, GgufError) outcome \<times> ('x, 'r, 'g) Input" where
  "clone_string H v field inp =
     (if v = [] then (Ok ([], None), inp)
      else
        try_pure (u64_of (length v) field) inp (\<lambda>n.
        try_st (reserve H n field inp) (\<lambda>r inp.
        try_st (reserve_guard_metadata H False inp) (\<lambda>_ inp.
        try_st (try_alloc H 1 (length v) field inp) (\<lambda>_ inp.
        try_st (budget_call (gh_commit H r) inp) (\<lambda>g inp. (Ok (v, Some g), inp)))))))"

definition take_allocations :: "('x, 'r, 'g) GgufHost \<Rightarrow> ('x, 'r, 'g) Input \<Rightarrow> ('g list \<times> 'r list) \<times> 'x" where
  "take_allocations H inp =
     ((in_allocations inp, in_reservations inp), in_world (drop_reservation H (in_buffer_reservation inp) inp))"

section \<open>The unlimited budget\<close>

text \<open>\<open>UnlimitedAllocationBudget\<close>, over the allocator of a host.\<close>

definition unlimited_budget :: "('x, unit, unit) GgufHost \<Rightarrow> ('x, unit, unit) GgufHost" where
  "unlimited_budget H = H\<lparr>gh_guard_metadata_bytes := \<lambda>_. 0, gh_reservation_metadata_bytes := \<lambda>_. 0,
     gh_reserve := \<lambda>_ _ x. (Ok (), x), gh_commit := \<lambda>_ x. (Ok (), x), gh_drop_reservation := \<lambda>_ x. x, gh_drop_guards := \<lambda>_ x. x\<rparr>"

end
