(* ===== verification/Gguf_Parse.thy ===== *)
theory Gguf_Parse
  imports Gguf_Input BTree_Map "HOL-Library.List_Lexorder"
begin

text \<open>
  The parse of a GGUF file (\<open>crates/leone-gguf/src/container.rs\<close>): header, metadata, tensor
  table and the ranges of the tensors in the file, then the reads of a parsed file
  (\<open>Gguf\<close>, \<open>pread.rs\<close>). The set of tensor names is a list, the metadata a \<open>BTreeMap\<close> over
  UTF-8 bytes in lexicographic order.
\<close>

section \<open>Scalars and arrays\<close>

text \<open>The result of \<open>Ok(C(read(input)?))\<close>.\<close>

definition mapped :: "('a \<Rightarrow> 'b) \<Rightarrow> ('a, 'e) outcome \<times> 's \<Rightarrow> ('b, 'e) outcome \<times> 's" where
  "mapped f m = try_st m (\<lambda>v inp. (Ok (f v), inp))"

fun parse_unsigned_value :: "ValueType \<Rightarrow> ('x, 'r, 'g) Input \<Rightarrow> (MetadataValue, GgufError) outcome \<times> ('x, 'r, 'g) Input" where
  "parse_unsigned_value TUint8 inp = mapped VUint8 (input_u8 inp)"
| "parse_unsigned_value TUint16 inp = mapped VUint16 (input_u16 inp)"
| "parse_unsigned_value TUint32 inp = mapped VUint32 (input_u32 inp)"
| "parse_unsigned_value _ inp = (Panic, inp)"

fun parse_signed_value :: "ValueType \<Rightarrow> ('x, 'r, 'g) Input \<Rightarrow> (MetadataValue, GgufError) outcome \<times> ('x, 'r, 'g) Input" where
  "parse_signed_value TInt8 inp = mapped VInt8 (input_u8 inp)"
| "parse_signed_value TInt16 inp = mapped VInt16 (input_u16 inp)"
| "parse_signed_value TInt32 inp = mapped VInt32 (input_u32 inp)"
| "parse_signed_value _ inp = (Panic, inp)"

fun parse_float_bool_value :: "ValueType \<Rightarrow> ('x, 'r, 'g) Input \<Rightarrow> (MetadataValue, GgufError) outcome \<times> ('x, 'r, 'g) Input" where
  "parse_float_bool_value TFloat32 inp = mapped VFloat32 (input_u32 inp)"
| "parse_float_bool_value TBool inp = mapped VBool (input_bool inp)"
| "parse_float_bool_value _ inp = (Panic, inp)"

definition parse_narrow_value :: "ValueType \<Rightarrow> ('x, 'r, 'g) Input \<Rightarrow> (MetadataValue, GgufError) outcome \<times> ('x, 'r, 'g) Input" where
  "parse_narrow_value t inp =
     (if t \<in> {TUint8, TUint16, TUint32} then parse_unsigned_value t inp
      else if t \<in> {TInt8, TInt16, TInt32} then parse_signed_value t inp
      else if t \<in> {TFloat32, TBool} then parse_float_bool_value t inp
      else (Panic, inp))"

fun parse_wide_value :: "ValueType \<Rightarrow> ('x, 'r, 'g) Input \<Rightarrow> (MetadataValue, GgufError) outcome \<times> ('x, 'r, 'g) Input" where
  "parse_wide_value TUint64 inp = mapped VUint64 (input_u64 inp)"
| "parse_wide_value TInt64 inp = mapped VInt64 (input_u64 inp)"
| "parse_wide_value TFloat64 inp = mapped VFloat64 (input_u64 inp)"
| "parse_wide_value _ inp = (Panic, inp)"

fun read_loop :: "(('x, 'r, 'g) Input \<Rightarrow> ('a, GgufError) outcome \<times> ('x, 'r, 'g) Input) \<Rightarrow> ('a \<Rightarrow> 'b) \<Rightarrow> nat \<Rightarrow> ('x, 'r, 'g) Input \<Rightarrow>
    ('b list, GgufError) outcome \<times> ('x, 'r, 'g) Input" where
  "read_loop read f 0 inp = (Ok [], inp)"
| "read_loop read f (Suc n) inp =
     try_st (read inp) (\<lambda>v inp.
     try_st (read_loop read f n inp) (\<lambda>vs inp. (Ok (f v # vs), inp)))"

text \<open>\<open>width\<close> is the size of an element of the result.\<close>

definition read_array_values_mapped :: "('x, 'r, 'g) GgufHost \<Rightarrow> nat \<Rightarrow> nat \<Rightarrow>
    (('x, 'r, 'g) Input \<Rightarrow> ('a, GgufError) outcome \<times> ('x, 'r, 'g) Input) \<Rightarrow> ('a \<Rightarrow> 'b) \<Rightarrow> ('x, 'r, 'g) Input \<Rightarrow>
    ('b list, GgufError) outcome \<times> ('x, 'r, 'g) Input" where
  "read_array_values_mapped H width len read f inp =
     try_st (allocate_vec H width len ''metadata array'' inp) (\<lambda>_ inp. read_loop read f len inp)"

definition read_array_values :: "('x, 'r, 'g) GgufHost \<Rightarrow> nat \<Rightarrow> nat \<Rightarrow>
    (('x, 'r, 'g) Input \<Rightarrow> ('a, GgufError) outcome \<times> ('x, 'r, 'g) Input) \<Rightarrow> ('x, 'r, 'g) Input \<Rightarrow>
    ('a list, GgufError) outcome \<times> ('x, 'r, 'g) Input" where
  "read_array_values H width len read inp = read_array_values_mapped H width len read (\<lambda>v. v) inp"

fun parse_unsigned_array :: "('x, 'r, 'g) GgufHost \<Rightarrow> ValueType \<Rightarrow> nat \<Rightarrow> ('x, 'r, 'g) Input \<Rightarrow> (MetadataArray, GgufError) outcome \<times> ('x, 'r, 'g) Input" where
  "parse_unsigned_array H TUint8 len inp = mapped AUint8 (read_array_values H 1 len input_u8 inp)"
| "parse_unsigned_array H TUint16 len inp = mapped AUint16 (read_array_values H 2 len input_u16 inp)"
| "parse_unsigned_array H TUint32 len inp = mapped AUint32 (read_array_values H 4 len input_u32 inp)"
| "parse_unsigned_array H _ len inp = (Panic, inp)"

definition parse_int8_array :: "('x, 'r, 'g) GgufHost \<Rightarrow> nat \<Rightarrow> ('x, 'r, 'g) Input \<Rightarrow> (MetadataArray, GgufError) outcome \<times> ('x, 'r, 'g) Input" where
  "parse_int8_array H len inp = mapped AInt8 (read_array_values_mapped H 1 len input_u8 (\<lambda>v. v) inp)"

fun parse_wide_signed_array :: "('x, 'r, 'g) GgufHost \<Rightarrow> ValueType \<Rightarrow> nat \<Rightarrow> ('x, 'r, 'g) Input \<Rightarrow> (MetadataArray, GgufError) outcome \<times> ('x, 'r, 'g) Input" where
  "parse_wide_signed_array H TInt16 len inp = mapped AInt16 (read_array_values_mapped H 2 len input_u16 (\<lambda>v. v) inp)"
| "parse_wide_signed_array H TInt32 len inp = mapped AInt32 (read_array_values_mapped H 4 len input_u32 (\<lambda>v. v) inp)"
| "parse_wide_signed_array H _ len inp = (Panic, inp)"

fun parse_signed_array :: "('x, 'r, 'g) GgufHost \<Rightarrow> ValueType \<Rightarrow> nat \<Rightarrow> ('x, 'r, 'g) Input \<Rightarrow> (MetadataArray, GgufError) outcome \<times> ('x, 'r, 'g) Input" where
  "parse_signed_array H TInt8 len inp = parse_int8_array H len inp"
| "parse_signed_array H TInt16 len inp = parse_wide_signed_array H TInt16 len inp"
| "parse_signed_array H TInt32 len inp = parse_wide_signed_array H TInt32 len inp"
| "parse_signed_array H _ len inp = (Panic, inp)"

fun parse_float_bool_array :: "('x, 'r, 'g) GgufHost \<Rightarrow> ValueType \<Rightarrow> nat \<Rightarrow> ('x, 'r, 'g) Input \<Rightarrow> (MetadataArray, GgufError) outcome \<times> ('x, 'r, 'g) Input" where
  "parse_float_bool_array H TFloat32 len inp = mapped AFloat32 (read_array_values_mapped H 4 len input_u32 (\<lambda>v. v) inp)"
| "parse_float_bool_array H TBool len inp = mapped ABool (read_array_values H 1 len input_bool inp)"
| "parse_float_bool_array H _ len inp = (Panic, inp)"

definition parse_narrow_array :: "('x, 'r, 'g) GgufHost \<Rightarrow> ValueType \<Rightarrow> nat \<Rightarrow> ('x, 'r, 'g) Input \<Rightarrow> (MetadataArray, GgufError) outcome \<times> ('x, 'r, 'g) Input" where
  "parse_narrow_array H t len inp =
     (if t \<in> {TUint8, TUint16, TUint32} then parse_unsigned_array H t len inp
      else if t \<in> {TInt8, TInt16, TInt32} then parse_signed_array H t len inp
      else if t \<in> {TFloat32, TBool} then parse_float_bool_array H t len inp
      else (Panic, inp))"

definition parse_string_array :: "('x, 'r, 'g) GgufHost \<Rightarrow> nat \<Rightarrow> ('x, 'r, 'g) Input \<Rightarrow> (MetadataArray, GgufError) outcome \<times> ('x, 'r, 'g) Input" where
  "parse_string_array H len inp =
     mapped AString (read_array_values H (gh_string_size H) len (input_string H ''metadata array string'') inp)"

fun parse_numeric_array :: "('x, 'r, 'g) GgufHost \<Rightarrow> ValueType \<Rightarrow> nat \<Rightarrow> ('x, 'r, 'g) Input \<Rightarrow> (MetadataArray, GgufError) outcome \<times> ('x, 'r, 'g) Input" where
  "parse_numeric_array H TUint64 len inp = mapped AUint64 (read_array_values H 8 len input_u64 inp)"
| "parse_numeric_array H TInt64 len inp = mapped AInt64 (read_array_values_mapped H 8 len input_u64 (\<lambda>v. v) inp)"
| "parse_numeric_array H TFloat64 len inp = mapped AFloat64 (read_array_values_mapped H 8 len input_u64 (\<lambda>v. v) inp)"
| "parse_numeric_array H _ len inp = (Panic, inp)"

definition parse_wide_array :: "('x, 'r, 'g) GgufHost \<Rightarrow> ValueType \<Rightarrow> nat \<Rightarrow> ('x, 'r, 'g) Input \<Rightarrow> (MetadataArray, GgufError) outcome \<times> ('x, 'r, 'g) Input" where
  "parse_wide_array H t len inp =
     (if t = TString then parse_string_array H len inp
      else if t \<in> {TUint64, TInt64, TFloat64} then parse_numeric_array H t len inp
      else (Panic, inp))"

definition parse_array_values :: "('x, 'r, 'g) GgufHost \<Rightarrow> ValueType \<Rightarrow> nat \<Rightarrow> ('x, 'r, 'g) Input \<Rightarrow> (MetadataArray, GgufError) outcome \<times> ('x, 'r, 'g) Input" where
  "parse_array_values H t len inp =
     (if t \<in> {TUint8, TInt8, TUint16, TInt16, TUint32, TInt32, TFloat32, TBool} then parse_narrow_array H t len inp
      else if t \<in> {TString, TUint64, TInt64, TFloat64} then parse_wide_array H t len inp
      else (Err NestedArray, inp))"

definition ARRAY_ELEMENT_BYTES :: "u64 list" where
  "ARRAY_ELEMENT_BYTES = [1, 1, 2, 2, 4, 4, 4, 1, 8, 0, 8, 8, 8]"

definition parse_array :: "('x, 'r, 'g) GgufHost \<Rightarrow> ('x, 'r, 'g) Input \<Rightarrow> (MetadataArray, GgufError) outcome \<times> ('x, 'r, 'g) Input" where
  "parse_array H inp =
     try_st (input_u32 inp) (\<lambda>code inp.
     try_pure (value_type_try_from code) inp (\<lambda>t.
     if t = TArray then (Err NestedArray, inp)
     else
       try_st (input_u64 inp) (\<lambda>len inp.
       try_pure (check_limit ''array'' len MAX_COLLECTION_LEN) inp (\<lambda>_.
       try_pure (at_index ARRAY_ELEMENT_BYTES (value_type_index t)) inp (\<lambda>minimum_bytes.
       try_pure (overflow (checked_mul len minimum_bytes) ''array minimum byte count'') inp (\<lambda>required.
       if saturating_sub (in_file_len inp) (in_position inp) < required then (Err UnexpectedEof, inp)
       else
         try_pure (usize_of len ''array length'') inp (\<lambda>len.
         parse_array_values H t len inp)))))))"

definition parse_value :: "('x, 'r, 'g) GgufHost \<Rightarrow> ValueType \<Rightarrow> ('x, 'r, 'g) Input \<Rightarrow> (MetadataValue, GgufError) outcome \<times> ('x, 'r, 'g) Input" where
  "parse_value H t inp =
     (if t \<in> {TUint8, TInt8, TUint16, TInt16, TUint32, TInt32, TFloat32, TBool} then parse_narrow_value t inp
      else if t = TString then mapped VString (input_string H ''metadata string'' inp)
      else if t = TArray then mapped VArray (parse_array H inp)
      else parse_wide_value t inp)"

section \<open>Header and metadata\<close>

definition parse_header :: "('x, 'r, 'g) Input \<Rightarrow> (u64 \<times> u64, GgufError) outcome \<times> ('x, 'r, 'g) Input" where
  "parse_header inp =
     try_st (input_bytes 4 inp) (\<lambda>magic inp.
     if magic \<noteq> GGUF_MAGIC then (Err (InvalidMagic magic), inp)
     else
       try_st (input_u32 inp) (\<lambda>version inp.
       if version \<noteq> GGUF_VERSION then (Err (UnsupportedVersion version), inp)
       else
         try_st (input_u64 inp) (\<lambda>tensor_count inp.
         try_st (input_u64 inp) (\<lambda>metadata_count inp.
         try_pure (check_limit ''tensor'' tensor_count MAX_COLLECTION_LEN) inp (\<lambda>_.
         try_pure (check_limit ''metadata'' metadata_count MAX_COLLECTION_LEN) inp (\<lambda>_.
         (Ok (tensor_count, metadata_count), inp)))))))"

type_synonym Metadata = "(u8 list, MetadataValue) btree_map"

fun metadata_loop :: "('x, 'r, 'g) GgufHost \<Rightarrow> nat \<Rightarrow> Metadata \<Rightarrow> ('x, 'r, 'g) Input \<Rightarrow> (Metadata, GgufError) outcome \<times> ('x, 'r, 'g) Input" where
  "metadata_loop H 0 m inp = (Ok m, inp)"
| "metadata_loop H (Suc n) m inp =
     try_st (input_string H ''metadata key'' inp) (\<lambda>key inp.
     try_st (input_u32 inp) (\<lambda>code inp.
     try_pure (value_type_try_from code) inp (\<lambda>t.
     try_st (parse_value H t inp) (\<lambda>v inp.
     if bt_contains m key then (Err (DuplicateMetadata key), inp)
     else metadata_loop H n (bt_insert key v m) inp))))"

definition parse_metadata :: "('x, 'r, 'g) GgufHost \<Rightarrow> u64 \<Rightarrow> ('x, 'r, 'g) Input \<Rightarrow> (Metadata, GgufError) outcome \<times> ('x, 'r, 'g) Input" where
  "parse_metadata H metadata_count inp =
     try_st (reserve_ordered_collection H (gh_entry_size H) metadata_count ''metadata map'' inp) (\<lambda>reservation inp.
     try_st (metadata_loop H (unat metadata_count) [] inp) (\<lambda>metadata inp.
     case reservation of None \<Rightarrow> (Ok metadata, inp)
     | Some r \<Rightarrow> try_st (retain_reservation r inp) (\<lambda>_ inp. (Ok metadata, inp))))"

text \<open>The bytes of \<open>general.alignment\<close>.\<close>

definition ALIGNMENT_KEY :: "u8 list" where
  "ALIGNMENT_KEY = [103, 101, 110, 101, 114, 97, 108, 46, 97, 108, 105, 103, 110, 109, 101, 110, 116]"

definition parse_alignment :: "Metadata \<Rightarrow> (u32, GgufError) outcome" where
  "parse_alignment m =
     (case bt_get m ALIGNMENT_KEY of
       None \<Rightarrow> Ok DEFAULT_ALIGNMENT
     | Some (VUint32 v) \<Rightarrow> if is_power_of_two v then Ok v else Err (InvalidAlignment v)
     | Some _ \<Rightarrow> Err (InvalidAlignment 0))"

section \<open>Tensors\<close>

definition ensure_tensor_descriptors_fit :: "('x, 'r, 'g) Input \<Rightarrow> u64 \<Rightarrow> (unit, GgufError) outcome" where
  "ensure_tensor_descriptors_fit inp tensor_count =
     and_then (overflow (checked_mul tensor_count MIN_TENSOR_DESCRIPTOR_BYTES) ''tensor descriptor bytes'') (\<lambda>minimum_bytes.
     if saturating_sub (in_file_len inp) (in_position inp) < minimum_bytes then Err UnexpectedEof else Ok ())"

fun shape_loop :: "nat \<Rightarrow> u8 list \<Rightarrow> ('x, 'r, 'g) Input \<Rightarrow> (u64 list, GgufError) outcome \<times> ('x, 'r, 'g) Input" where
  "shape_loop 0 tensor inp = (Ok [], inp)"
| "shape_loop (Suc n) tensor inp =
     try_st (input_u64 inp) (\<lambda>dimension inp.
     if dimension = 0 then (Err (ZeroDimension tensor), inp)
     else try_st (shape_loop n tensor inp) (\<lambda>ds inp. (Ok (dimension # ds), inp)))"

definition parse_shape :: "('x, 'r, 'g) GgufHost \<Rightarrow> u8 list \<Rightarrow> ('x, 'r, 'g) Input \<Rightarrow> (u64 list, GgufError) outcome \<times> ('x, 'r, 'g) Input" where
  "parse_shape H tensor inp =
     try_st (input_u32 inp) (\<lambda>dimensions inp.
     if \<not> (1 \<le> dimensions \<and> dimensions \<le> 4) then (Err (InvalidDimensions tensor dimensions), inp)
     else
       try_st (allocate_vec H 8 (unat dimensions) ''tensor shape'' inp) (\<lambda>_ inp.
       shape_loop (unat dimensions) tensor inp))"

text \<open>\<open>GuardedString\<close>: equality and hash look at the value only.\<close>

record 'g GuardedString =
  gs_value :: "u8 list"
  gs_allocation :: "'g option"

definition parse_tensor :: "('x, 'r, 'g) GgufHost \<Rightarrow> 'g GuardedString list \<Rightarrow> u32 \<Rightarrow> ('x, 'r, 'g) Input \<Rightarrow>
    (TensorInfo \<times> 'g GuardedString list, GgufError) outcome \<times> ('x, 'r, 'g) Input" where
  "parse_tensor H tensor_names alignment inp =
     try_st (input_string H ''tensor name'' inp) (\<lambda>name inp.
     if name \<in> set (map gs_value tensor_names) then (Err (DuplicateTensor name), inp)
     else
       try_st (clone_string H name ''tensor name index'' inp) (\<lambda>(name_copy, name_allocation) inp.
       let tensor_names = tensor_names @ [\<lparr>gs_value = name_copy, gs_allocation = name_allocation\<rparr>] in
       try_st (parse_shape H name inp) (\<lambda>shape inp.
       try_st (input_u32 inp) (\<lambda>dtype inp.
       try_st (input_u64 inp) (\<lambda>offset inp.
       if offset mod ucast alignment \<noteq> 0 then (Err (MisalignedTensor name offset alignment), inp)
       else
         try_pure (tensor_bytes name shape dtype) inp (\<lambda>n_bytes.
         (Ok (\<lparr>ti_name = name, ti_shape = shape, ti_dtype = dtype, ti_offset = offset, ti_n_bytes = n_bytes\<rparr>, tensor_names), inp)))))))"

definition tensor_names_new :: "('x, 'r, 'g) GgufHost \<Rightarrow> nat \<Rightarrow> ('x, 'r, 'g) Input \<Rightarrow> ('r option, GgufError) outcome \<times> ('x, 'r, 'g) Input" where
  "tensor_names_new H n inp =
     try_pure (u64_of n ''tensor count'') inp (\<lambda>n64.
     try_st (reserve_hash_collection H (gh_name_size H) n64 ''tensor names'' inp) (\<lambda>reservation inp.
     try_st (try_alloc H (gh_name_size H) n ''tensor names'' inp) (\<lambda>_ inp.
     (Ok reservation, inp))))"

fun tensors_loop :: "('x, 'r, 'g) GgufHost \<Rightarrow> nat \<Rightarrow> 'g GuardedString list \<Rightarrow> u32 \<Rightarrow> ('x, 'r, 'g) Input \<Rightarrow>
    (TensorInfo list \<times> 'g GuardedString list, GgufError) outcome \<times> ('x, 'r, 'g) Input" where
  "tensors_loop H 0 tensor_names alignment inp = (Ok ([], tensor_names), inp)"
| "tensors_loop H (Suc n) tensor_names alignment inp =
     try_st (parse_tensor H tensor_names alignment inp) (\<lambda>(tensor, tensor_names) inp.
     try_st (tensors_loop H n tensor_names alignment inp) (\<lambda>(tensors, tensor_names) inp.
     (Ok (tensor # tensors, tensor_names), inp)))"

text \<open>\<open>TensorNames\<close> is dropped when the table is read: its strings' guards, then its reservation.\<close>

definition drop_names :: "('x, 'r, 'g) GgufHost \<Rightarrow> 'g GuardedString list \<Rightarrow> 'r option \<Rightarrow> ('x, 'r, 'g) Input \<Rightarrow> ('x, 'r, 'g) Input" where
  "drop_names H tensor_names reservation inp =
     drop_reservation H reservation
       (inp\<lparr>in_world := gh_drop_guards H (List.map_filter gs_allocation tensor_names) (in_world inp)\<rparr>)"

definition parse_tensors :: "('x, 'r, 'g) GgufHost \<Rightarrow> u64 \<Rightarrow> u32 \<Rightarrow> ('x, 'r, 'g) Input \<Rightarrow>
    (TensorInfo list, GgufError) outcome \<times> ('x, 'r, 'g) Input" where
  "parse_tensors H tensor_count alignment inp =
     try_pure (ensure_tensor_descriptors_fit inp tensor_count) inp (\<lambda>_.
     try_pure (usize_of tensor_count ''tensor count'') inp (\<lambda>tensor_count.
     try_st (allocate_vec H (gh_tensor_size H) tensor_count ''tensor descriptors'' inp) (\<lambda>_ inp.
     try_st (tensor_names_new H tensor_count inp) (\<lambda>reservation inp.
     try_st (tensors_loop H tensor_count [] alignment inp) (\<lambda>(tensors, tensor_names) inp.
     (Ok tensors, drop_names H tensor_names reservation inp))))))"

section \<open>Ranges\<close>

type_synonym Range = "u64 \<times> u64 \<times> u8 list"

definition tensor_range_of :: "u64 \<Rightarrow> u64 \<Rightarrow> TensorInfo \<Rightarrow> (Range, GgufError) outcome" where
  "tensor_range_of data_offset file_len tensor =
     and_then (overflow (checked_add data_offset (ti_offset tensor)) ''tensor absolute offset'') (\<lambda>start.
     and_then (overflow (checked_add start (ti_n_bytes tensor)) ''tensor end offset'') (\<lambda>stop.
     if file_len < stop then Err (TensorOutOfBounds (ti_name tensor)) else Ok (start, stop, ti_name tensor)))"

definition reserve_vector :: "('x, 'r, 'g) GgufHost \<Rightarrow> nat \<Rightarrow> nat \<Rightarrow> string \<Rightarrow> ('x, 'r, 'g) Input \<Rightarrow>
    ('r option, GgufError) outcome \<times> ('x, 'r, 'g) Input" where
  "reserve_vector H width n what inp =
     (if n = 0 then (Ok None, inp)
      else try_pure (vector_bytes width (gh_vec_size H) n what) inp (\<lambda>bytes.
        try_st (reserve H bytes what inp) (\<lambda>r inp. (Ok (Some r), inp))))"

definition collect_tensor_ranges :: "('x, 'r, 'g) GgufHost \<Rightarrow> TensorInfo list \<Rightarrow> u64 \<Rightarrow> u64 \<Rightarrow> ('x, 'r, 'g) Input \<Rightarrow>
    (Range list \<times> 'r option, GgufError) outcome \<times> ('x, 'r, 'g) Input" where
  "collect_tensor_ranges H tensors data_offset file_len inp =
     try_st (reserve_vector H (gh_range_size H) (length tensors) ''tensor ranges'' inp) (\<lambda>reservation inp.
     try_st (try_alloc H (gh_range_size H) (length tensors) ''tensor ranges'' inp) (\<lambda>_ inp.
     try_pure (collect_results (map (tensor_range_of data_offset file_len) tensors)) inp (\<lambda>ranges.
     (Ok (ranges, reservation), inp))))"

fun overlap_windows :: "Range list \<Rightarrow> (unit, GgufError) outcome" where
  "overlap_windows (a # b # rs) =
     (if fst b < fst (snd a) then Err (OverlappingTensors (snd (snd a)) (snd (snd b))) else overlap_windows (b # rs))"
| "overlap_windows _ = Ok ()"

text \<open>
  \<open>sort_unstable_by_key\<close> leaves ranges of equal start in any order; the stable order is one.
\<close>

definition check_tensor_overlap :: "Range list \<Rightarrow> (unit, GgufError) outcome" where
  "check_tensor_overlap ranges = overlap_windows (sort_by (\<lambda>a b. cmp (fst a) (fst b)) ranges)"

definition validate_tensor_ranges :: "('x, 'r, 'g) GgufHost \<Rightarrow> TensorInfo list \<Rightarrow> u64 \<Rightarrow> u64 \<Rightarrow> ('x, 'r, 'g) Input \<Rightarrow>
    (unit, GgufError) outcome \<times> ('x, 'r, 'g) Input" where
  "validate_tensor_ranges H tensors data_offset file_len inp =
     try_st (collect_tensor_ranges H tensors data_offset file_len inp) (\<lambda>(ranges, reservation) inp.
     try_pure (check_tensor_overlap ranges) inp (\<lambda>_. (Ok (), drop_reservation H reservation inp)))"

section \<open>The container\<close>

record ('r, 'g) Parsed =
  pa_version :: u32
  pa_alignment :: u32
  pa_data_offset :: u64
  pa_metadata :: Metadata
  pa_tensors :: "TensorInfo list"
  pa_allocations :: "'g list"
  pa_reservations :: "'r list"

definition prepare_reservation_storage :: "('x, 'r, 'g) GgufHost \<Rightarrow> nat \<Rightarrow> 'x \<Rightarrow> ('r list, GgufError) outcome \<times> 'x" where
  "prepare_reservation_storage H slot_size x =
     (let wrapper_bytes = gh_reservation_metadata_bytes H x in
      try_st
        (if wrapper_bytes = 0 then (Ok None, x)
         else
           try_pure (overflow (checked_mul (of_nat PARSER_RESERVATION_CAPACITY) wrapper_bytes) ''parser reservation metadata bytes'') x (\<lambda>bytes.
           case gh_reserve H bytes ''parser reservation metadata'' x of (r, x) \<Rightarrow> (map_err AllocationBudget (and_then r (\<lambda>r. Ok (Some r))), x))) (\<lambda>r x.
      case gh_alloc H slot_size PARSER_RESERVATION_CAPACITY x of (fits, x) \<Rightarrow>
        if fits then (Ok (case r of None \<Rightarrow> [] | Some r \<Rightarrow> [r]), x)
        else (Err (Allocation ''parser reservation guards'' PARSER_RESERVATION_CAPACITY), x)))"

definition parse_with_prepared_budget :: "('x, 'r, 'g) GgufHost \<Rightarrow> u8 list \<Rightarrow> u64 \<Rightarrow> 'r option \<Rightarrow> 'r list \<Rightarrow> 'x \<Rightarrow>
    (('r, 'g) Parsed, GgufError) outcome \<times> 'x" where
  "parse_with_prepared_budget H reader file_len buffer_reservation reservations x =
     (case
       try_st (parse_header (input_new reader file_len x buffer_reservation reservations)) (\<lambda>(tensor_count, metadata_count) inp.
       try_st (parse_metadata H metadata_count inp) (\<lambda>metadata inp.
       try_pure (parse_alignment metadata) inp (\<lambda>alignment.
       try_st (parse_tensors H tensor_count alignment inp) (\<lambda>tensors inp.
       try_pure (if tensor_count = 0 then Ok (in_position inp) else align_up (in_position inp) (ucast alignment)) inp (\<lambda>data_offset.
       try_st (validate_tensor_ranges H tensors data_offset file_len inp) (\<lambda>_ inp.
       (Ok (alignment, data_offset, metadata, tensors), inp)))))))
      of
        (Ok (alignment, data_offset, metadata, tensors), inp) \<Rightarrow>
          (case take_allocations H inp of ((allocations, reservations), x) \<Rightarrow>
            (Ok \<lparr>pa_version = GGUF_VERSION, pa_alignment = alignment, pa_data_offset = data_offset, pa_metadata = metadata,
               pa_tensors = tensors, pa_allocations = allocations, pa_reservations = reservations\<rparr>, x))
      | (Err e, inp) \<Rightarrow> (Err e, in_world inp)
      | (Panic, inp) \<Rightarrow> (Panic, in_world inp))"

text \<open>\<open>ReadOnlyFile\<close>: the length seen when the file was opened, and the bytes it has now.\<close>

record ReadOnlyFile =
  rf_file :: "u8 list"
  rf_len :: u64

text \<open>
  \<open>read_exact_at\<close> of the bytes the file has; \<open>fits\<close> says whether the buffer can be allocated. The
  end of the file is the only error of the operating system that is modelled.
\<close>

definition file_read :: "(nat \<Rightarrow> bool) \<Rightarrow> ReadOnlyFile \<Rightarrow> u64 \<Rightarrow> u64 \<Rightarrow> (u8 list, GgufError) outcome" where
  "file_read fits f offset len =
     and_then (overflow (checked_add offset len) ''tensor range'') (\<lambda>stop.
     if rf_len f < stop then Err (TensorOutOfBounds (map (of_nat o of_char) ''requested range''))
     else
       and_then (usize_of len ''tensor length'') (\<lambda>n.
       if \<not> fits n then Err (Allocation ''tensor bytes'' n)
       else if unat offset + n \<le> length (rf_file f) then Ok (take n (drop (unat offset) (rf_file f)))
       else Err UnexpectedEof))"

record ('r, 'g) Gguf =
  gf_version :: u32
  gf_alignment :: u32
  gf_data_offset :: u64
  gf_metadata :: Metadata
  gf_tensors :: "TensorInfo list"
  gf_source :: ReadOnlyFile
  gf_allocations :: "'g list"
  gf_reservations :: "'r list"

text \<open>
  The file has the bytes \<open>F\<close> and had the length \<open>file_len\<close> when it was opened; a reservation
  slot takes \<open>slot_size\<close> bytes.
\<close>

definition open_with_budget :: "('x, 'r, 'g) GgufHost \<Rightarrow> nat \<Rightarrow> u8 list \<Rightarrow> u64 \<Rightarrow> 'x \<Rightarrow> (('r, 'g) Gguf, GgufError) outcome \<times> 'x" where
  "open_with_budget H slot_size F file_len x =
     try_st (prepare_reservation_storage H slot_size x) (\<lambda>reservations x.
     case gh_reserve H PARSER_BUFFER_BYTES ''GGUF parser buffer'' x of (r, x) \<Rightarrow>
     try_pure (map_err AllocationBudget r) x (\<lambda>buffer_reservation.
     try_st (parse_with_prepared_budget H F file_len (Some buffer_reservation) reservations x) (\<lambda>parsed x.
     (Ok \<lparr>gf_version = pa_version parsed, gf_alignment = pa_alignment parsed, gf_data_offset = pa_data_offset parsed,
        gf_metadata = pa_metadata parsed, gf_tensors = pa_tensors parsed, gf_source = \<lparr>rf_file = F, rf_len = file_len\<rparr>,
        gf_allocations = pa_allocations parsed, gf_reservations = pa_reservations parsed\<rparr>, x))))"

definition gguf_open :: "('x, unit, unit) GgufHost \<Rightarrow> nat \<Rightarrow> u8 list \<Rightarrow> u64 \<Rightarrow> 'x \<Rightarrow> ((unit, unit) Gguf, GgufError) outcome \<times> 'x" where
  "gguf_open H slot_size F file_len x = open_with_budget (unlimited_budget H) slot_size F file_len x"

definition tensor :: "('r, 'g) Gguf \<Rightarrow> u8 list \<Rightarrow> TensorInfo option" where
  "tensor g name = find (\<lambda>t. ti_name t = name) (gf_tensors g)"

definition tensor_data :: "(nat \<Rightarrow> bool) \<Rightarrow> ('r, 'g) Gguf \<Rightarrow> u8 list \<Rightarrow> (u8 list, GgufError) outcome" where
  "tensor_data fits g name =
     and_then (ok_or (tensor g name) (TensorNotFound name)) (\<lambda>t.
     and_then (overflow (checked_add (gf_data_offset g) (ti_offset t)) ''tensor absolute offset'') (\<lambda>offset.
     file_read fits (gf_source g) offset (ti_n_bytes t)))"

definition tensor_range :: "(nat \<Rightarrow> bool) \<Rightarrow> ('r, 'g) Gguf \<Rightarrow> u8 list \<Rightarrow> u64 \<Rightarrow> u64 \<Rightarrow> (u8 list, GgufError) outcome" where
  "tensor_range fits g name offset len =
     and_then (ok_or (tensor g name) (TensorNotFound name)) (\<lambda>t.
     and_then (overflow (checked_add offset len) ''tensor subrange'') (\<lambda>stop.
     if ti_n_bytes t < stop then Err (TensorOutOfBounds (ti_name t))
     else
       and_then (overflow (Option.bind (checked_add (gf_data_offset g) (ti_offset t)) (\<lambda>v. checked_add v offset)) ''tensor subrange offset'') (\<lambda>absolute.
       file_read fits (gf_source g) absolute len)))"

end
