(* ===== verification/Gguf_Steps.thy ===== *)
theory Gguf_Steps
  imports Gguf_Parse
begin

text \<open>
  How the primitive operations of the parser move its input: what they consume, how many
  guards they may add (\<open>step\<close>), that the ledger of guards stays consistent (\<open>ledger\<close>), that
  nothing panics, and that under a budget without limit (\<open>generous\<close>) they succeed.
\<close>

section \<open>Panics\<close>

named_theorems no_panic "when a call panics"

lemma and_then_panic [no_panic]: "and_then r f = Panic \<longleftrightarrow> r = Panic \<or> (\<exists>a. r = Ok a \<and> f a = Panic)"
  by (cases r) auto

lemma try_st_panic [no_panic]: "fst (try_st m g) = Panic \<longleftrightarrow> fst m = Panic \<or> (\<exists>a s. m = (Ok a, s) \<and> fst (g a s) = Panic)"
  by (cases m; cases "fst m") auto

lemma try_pure_panic [no_panic]: "fst (try_pure r s h) = Panic \<longleftrightarrow> r = Panic \<or> (\<exists>a. r = Ok a \<and> fst (h a) = Panic)"
  by (cases r) auto

lemma overflow_no_panic [no_panic]: "overflow v w \<noteq> Panic"
  by (simp add: overflow_def)

lemma size_no_panic [no_panic]: "u64_of n w \<noteq> Panic" "usize_of v w \<noteq> Panic" "check_limit w a b \<noteq> Panic"
  "align_up a b \<noteq> Panic" "value_type_try_from c \<noteq> Panic"
  by (simp_all add: u64_of_def usize_of_def check_limit_def align_up_def overflow_no_panic Let_def value_type_try_from_def)

lemma bytes_no_panic [no_panic]:
  "geometric_capacity_usize i j w \<noteq> Panic" "geometric_capacity_u64 c d w \<noteq> Panic" "guard_storage_bytes i j \<noteq> Panic"
  "vector_bytes i j k w \<noteq> Panic" "hash_collection_bytes i c w \<noteq> Panic" "ordered_collection_bytes i c w \<noteq> Panic"
  by (auto simp: no_panic geometric_capacity_usize_def geometric_capacity_u64_def guard_storage_bytes_def vector_bytes_def
      hash_collection_bytes_def ordered_collection_bytes_def)

section \<open>Hosts\<close>

text \<open>
  What any host does: an answer of the budget is a value or an error, and a vector that
  grew has room for what was asked.
\<close>

definition host_laws :: "('x, 'r, 'g) GgufHost \<Rightarrow> bool" where
  "host_laws H \<longleftrightarrow>
     (\<forall>n w x. fst (gh_reserve H n w x) \<noteq> Panic) \<and> (\<forall>r x. fst (gh_commit H r x) \<noteq> Panic) \<and>
     (\<forall>l c n x m y. gh_grow H l c n x = (Some m, y) \<longrightarrow> l + n \<le> m)"

text \<open>A host that never refuses, with element types of less than four kilobytes.\<close>

definition generous :: "('x, 'r, 'g) GgufHost \<Rightarrow> bool" where
  "generous H \<longleftrightarrow>
     (\<forall>x. gh_guard_metadata_bytes H x = 0) \<and> (\<forall>x. gh_reservation_metadata_bytes H x = 0) \<and>
     (\<forall>n w x. \<exists>r y. gh_reserve H n w x = (Ok r, y)) \<and> (\<forall>r x. \<exists>g y. gh_commit H r x = (Ok g, y)) \<and>
     (\<forall>w n x. fst (gh_alloc H w n x)) \<and> (\<forall>l c n x. fst (gh_grow H l c n x) = Some (l + n)) \<and>
     gh_slot_size H < 4096 \<and> gh_vec_size H < 4096 \<and> gh_tensor_size H < 4096 \<and> gh_string_size H < 4096 \<and>
     gh_name_size H < 4096 \<and> gh_entry_size H < 4096 \<and> gh_range_size H < 4096"

lemma generous_laws: "generous H \<Longrightarrow> host_laws H"
  unfolding generous_def host_laws_def
  by (metis fst_conv option.inject outcome.distinct(3) order_refl)

lemma generous_sizes:
  assumes "generous H"
  shows "gh_slot_size H < 4096" "gh_vec_size H < 4096" "gh_tensor_size H < 4096" "gh_string_size H < 4096"
    "gh_name_size H < 4096" "gh_entry_size H < 4096" "gh_range_size H < 4096"
  using assms by (simp_all add: generous_def)

section \<open>Steps\<close>

definition ledger :: "('x, 'r, 'g) GgufHost \<Rightarrow> ('x, 'r, 'g) Input \<Rightarrow> bool" where
  "ledger H inp \<longleftrightarrow>
     length (in_allocations inp) \<le> unat (in_guard_metadata_used inp) \<and>
     unat (in_guard_metadata_used inp) \<le> unat (in_guard_metadata_capacity inp) \<and>
     unat (in_guard_metadata_capacity inp) \<le> 2 * unat (in_guard_metadata_used inp) \<and>
     length (in_allocations inp) \<le> in_capacity inp \<and>
     length (in_reservations inp) \<le> PARSER_MAX_RETAINED_RESERVATION_WRAPPERS \<and>
     (generous H \<longrightarrow> in_capacity inp \<le> 2 * unat (in_guard_metadata_used inp))"

definition step :: "('x, 'r, 'g) GgufHost \<Rightarrow> u8 list \<Rightarrow> nat \<Rightarrow> ('x, 'r, 'g) Input \<Rightarrow> ('x, 'r, 'g) Input \<Rightarrow> bool" where
  "step H bs k inp inp' \<longleftrightarrow>
     in_reader inp = bs @ in_reader inp' \<and> unat (in_position inp') = unat (in_position inp) + length bs \<and>
     in_file_len inp' = in_file_len inp \<and>
     unat (in_guard_metadata_used inp') \<le> unat (in_guard_metadata_used inp) + k \<and>
     (host_laws H \<longrightarrow> ledger H inp \<longrightarrow> ledger H inp') \<and>
     (generous H \<longrightarrow> in_reservations inp' = in_reservations inp)"

lemma step_refl [simp]: "step H [] k inp inp"
  by (simp add: step_def)

lemma step_trans: "step H a k x y \<Longrightarrow> step H b l y z \<Longrightarrow> step H (a @ b) (k + l) x z"
  by (auto simp: step_def)

lemma step_more: "step H a k x y \<Longrightarrow> k \<le> l \<Longrightarrow> step H a l x y"
  by (auto simp: step_def)

lemma step_world [simp]: "step H [] k inp (inp\<lparr>in_world := x\<rparr>)"
  by (simp add: step_def ledger_def)

lemma step_drop [simp]: "step H [] k inp (drop_reservation H r inp)"
  by (simp add: drop_reservation_def step_def ledger_def split: option.split)

text \<open>
  An input whose position and remaining bytes agree with a file of moderate length, with
  \<open>k\<close> more guards than the bytes read so far account for still to spare.
\<close>

definition ready :: "('x, 'r, 'g) GgufHost \<Rightarrow> nat \<Rightarrow> ('x, 'r, 'g) Input \<Rightarrow> bool" where
  "ready H k inp \<longleftrightarrow>
     ledger H inp \<and> unat (in_file_len inp) = unat (in_position inp) + length (in_reader inp) \<and>
     unat (in_file_len inp) < 2 ^ 47 \<and> unat (in_guard_metadata_used inp) + k \<le> unat (in_position inp)"

lemma ready_step: "ready H k inp \<Longrightarrow> step H bs c inp inp' \<Longrightarrow> generous H \<Longrightarrow> l + c \<le> k + length bs \<Longrightarrow> ready H l inp'"
  by (auto simp: ready_def step_def generous_laws)

lemma ready_more: "ready H k inp \<Longrightarrow> l \<le> k \<Longrightarrow> ready H l inp"
  by (auto simp: ready_def)

lemma ready_used: "ready H k inp \<Longrightarrow> ledger H inp \<and> unat (in_guard_metadata_used inp) < 2 ^ 50"
  by (simp add: ready_def)

section \<open>Reading\<close>

lemma input_bytes_Ok:
  assumes "input_bytes n inp = (Ok bs, inp')" and "n < 2 ^ 64"
  shows "length bs = n" "step H bs 0 inp inp'"
  using assms
  by (auto simp: input_bytes_def read_exact_def advance_def overflow_def try_st_Ok_iff try_pure_Ok_iff step_def ledger_def
      unsigned_of_nat take_bit_nat_eq_self checked_arith split: if_splits)

lemma input_bytes_run:
  assumes "in_reader inp = bs @ rest" and "unat (in_position inp) + length bs < 2 ^ 64"
  shows "\<exists>inp'. input_bytes (length bs) inp = (Ok bs, inp')"
proof -
  have "length bs < 2 ^ 64" using assms(2) by linarith
  then have "checked_add (in_position inp) (of_nat (length bs) :: u64) \<noteq> None"
    using assms(2) by (simp add: checked_add_None unsigned_of_nat take_bit_nat_eq_self)
  then show ?thesis using assms(1)
    by (auto simp: input_bytes_def read_exact_def advance_def overflow_def)
qed

lemma input_no_panic [no_panic]:
  "fst (advance w inp) \<noteq> Panic" "fst (read_exact n inp) \<noteq> Panic" "fst (input_bytes n inp) \<noteq> Panic"
  by (auto simp: no_panic read_exact_def advance_def input_bytes_def)

lemma ready_position: "ready H k inp \<Longrightarrow> in_reader inp = bs @ rest \<Longrightarrow> unat (in_position inp) + length bs < 2 ^ 64"
  by (simp add: ready_def)

subsection \<open>Little-endian integers\<close>

fun le_bytes :: "nat \<Rightarrow> nat \<Rightarrow> u8 list" where
  "le_bytes 0 v = []"
| "le_bytes (Suc n) v = of_nat (v mod 256) # le_bytes n (v div 256)"

lemma length_le_bytes [simp]: "length (le_bytes n v) = n"
  by (induction n arbitrary: v) auto

lemma u8_unat_of_nat: "unat (of_nat v :: u8) = v mod 256"
  by (simp add: unsigned_of_nat take_bit_eq_mod)

lemma le_value_le_bytes: "le_value (le_bytes n v) = v mod 256 ^ n"
proof (induction n arbitrary: v)
  case (Suc n)
  then show ?case by (simp add: u8_unat_of_nat mod_mult2_eq)
qed simp

lemma le_value_bound: "le_value bs < 256 ^ length bs"
proof (induction bs)
  case (Cons b bs)
  have "unat b < 256" using unsigned_less [of b] by simp
  then show ?case using Cons by simp
qed simp

lemma le_bytes_le_value: "le_bytes (length bs) (le_value bs) = bs"
proof (induction bs)
  case (Cons b bs)
  have "unat b < 256" using unsigned_less [of b] by simp
  then show ?case using Cons by (simp add: word_unat_eq_iff u8_unat_of_nat)
qed simp

lemma from_le_bytes_inverse:
  assumes "256 ^ n = (2::nat) ^ LENGTH('a)"
  shows "(from_le_bytes (le_bytes n (unat w)) :: 'a::len word) = w"
proof -
  have "unat w mod 256 ^ n = unat w" using unsigned_less [of w] assms by simp
  then show ?thesis by (simp add: from_le_bytes_def le_value_le_bytes)
qed

lemma le_bytes_from:
  assumes "256 ^ length bs = (2::nat) ^ LENGTH('a)"
  shows "le_bytes (length bs) (unat (from_le_bytes bs :: 'a::len word)) = bs"
proof -
  have "unat (from_le_bytes bs :: 'a word) = le_value bs"
    using le_value_bound [of bs] assms by (simp add: from_le_bytes_def unsigned_of_nat take_bit_nat_eq_self)
  then show ?thesis by (simp add: le_bytes_le_value)
qed

section \<open>Guards\<close>

lemma budget_call_Ok:
  assumes "budget_call f inp = (Ok r, inp')"
  shows "step H [] 0 inp inp'" "\<exists>x. inp' = inp\<lparr>in_world := x\<rparr>"
  using assms by (auto simp: budget_call_def split: prod.splits)

lemma reserve_Ok: "reserve H n w inp = (Ok r, inp') \<Longrightarrow> \<exists>x. inp' = inp\<lparr>in_world := x\<rparr>"
  using budget_call_Ok(2) by (auto simp: reserve_def)

lemma map_err_panic [simp]: "map_err f r = Panic \<longleftrightarrow> r = Panic"
  by (cases r) auto

lemma reserve_no_panic [no_panic]: "host_laws H \<Longrightarrow> fst (reserve H n w inp) \<noteq> Panic"
  by (auto simp: reserve_def budget_call_def host_laws_def split: prod.splits) (metis fst_conv)

lemma commit_no_panic [no_panic]: "host_laws H \<Longrightarrow> fst (budget_call (gh_commit H r) inp) \<noteq> Panic"
  by (auto simp: budget_call_def host_laws_def split: prod.splits) (metis fst_conv)

lemma reserve_run: "generous H \<Longrightarrow> \<exists>r x. reserve H n w inp = (Ok r, inp\<lparr>in_world := x\<rparr>)"
  unfolding reserve_def budget_call_def generous_def by (metis (mono_tags, lifting) case_prod_conv map_err.simps(1))

lemma commit_guard_run: "generous H \<Longrightarrow> \<exists>g x. budget_call (gh_commit H r) inp = (Ok g, inp\<lparr>in_world := x\<rparr>)"
  unfolding budget_call_def generous_def by (metis (mono_tags, lifting) case_prod_conv map_err.simps(1))

lemma try_alloc_Ok: "try_alloc H w n what inp = (Ok u, inp') \<Longrightarrow> \<exists>x. inp' = inp\<lparr>in_world := x\<rparr>"
  by (auto simp: try_alloc_def split: prod.splits if_splits)

lemma try_alloc_no_panic [no_panic]: "fst (try_alloc H w n what inp) \<noteq> Panic"
  by (auto simp: try_alloc_def split: prod.splits if_splits)

lemma try_alloc_run: "generous H \<Longrightarrow> \<exists>x. try_alloc H w n what inp = (Ok (), inp\<lparr>in_world := x\<rparr>)"
  unfolding generous_def try_alloc_def by (cases "gh_alloc H w n (in_world inp)") (metis (mono_tags, lifting) case_prod_conv fst_conv)

lemma geometric_usize_Ok:
  "geometric_capacity_usize required c what = Ok t \<Longrightarrow> c < required \<Longrightarrow> required \<le> t \<and> t \<le> 2 * required"
  by (auto simp: geometric_capacity_usize_def overflow_def usize_checked_mul_def and_then_eq_Ok max_def split: if_splits)

lemma geometric_u64_Ok:
  "geometric_capacity_u64 required c what = Ok t \<Longrightarrow> c < required \<Longrightarrow>
   unat required \<le> unat t \<and> unat t \<le> 2 * unat required"
  by (auto simp: geometric_capacity_u64_def overflow_def and_then_eq_Ok max_def word_le_nat_alt word_less_nat_alt
      dest!: checked_mul_unat split: if_splits)

lemma resize_Ok: "reserve_guard_resize H n inp = (Ok r, inp') \<Longrightarrow> \<exists>x. inp' = inp\<lparr>in_world := x\<rparr>"
  by (cases "n = 0") (auto simp: reserve_guard_resize_def try_st_Ok_iff intro: exI [of _ "in_world inp"] dest!: reserve_Ok)

lemma drop_world:
  "drop_reservation H r inp = inp\<lparr>in_world := (case r of None \<Rightarrow> in_world inp | Some r \<Rightarrow> gh_drop_reservation H r (in_world inp))\<rparr>"
  by (cases r) (simp_all add: drop_reservation_def)

text \<open>What no bookkeeping of the guards' storage changes.\<close>

definition settled :: "('x, 'r, 'g) Input \<Rightarrow> ('x, 'r, 'g) Input \<Rightarrow> bool" where
  "settled inp inp' \<longleftrightarrow> in_reader inp' = in_reader inp \<and> in_position inp' = in_position inp \<and> in_file_len inp' = in_file_len inp \<and>
     in_allocations inp' = in_allocations inp \<and> in_guard_metadata_used inp' = in_guard_metadata_used inp"

definition roomy :: "('x, 'r, 'g) GgufHost \<Rightarrow> ('x, 'r, 'g) Input \<Rightarrow> nat \<Rightarrow> bool" where
  "roomy H inp c \<longleftrightarrow> (host_laws H \<longrightarrow> length (in_allocations inp) < c) \<and>
    (generous H \<longrightarrow> c \<le> max (in_capacity inp) (2 * (length (in_allocations inp) + 1)))"

lemma ensure_Ok:
  assumes "ensure_guard_storage_capacity H inp = (Ok u, inp')"
  shows "settled inp inp' \<and> in_reservations inp' = in_reservations inp \<and>
    in_guard_metadata_capacity inp' = in_guard_metadata_capacity inp \<and> roomy H inp (in_capacity inp')"
proof (cases "length (in_allocations inp) < in_capacity inp")
  case True
  then have "inp' = inp" using assms
    by (auto simp: ensure_guard_storage_capacity_def try_pure_Ok_iff overflow_def usize_checked_add_def split: if_splits)
  then show ?thesis using True by (simp add: settled_def roomy_def)
next
  case False
  let ?n = "length (in_allocations inp)"
  obtain t r m x y where t: "geometric_capacity_usize (Suc ?n) (in_capacity inp) ''parser allocation guard capacity'' = Ok t"
    and grow: "gh_grow H ?n (in_capacity inp) (t - ?n) y = (Some m, x)"
    and inp': "inp' = drop_reservation H r (inp\<lparr>in_world := x, in_capacity := m\<rparr>)"
    using assms False
    apply (clarsimp simp: ensure_guard_storage_capacity_def Let_def try_pure_Ok_iff try_st_Ok_iff overflow_def usize_checked_add_def
        split: if_splits)
    apply (drule resize_Ok)
    apply (clarsimp split: prod.splits option.splits)
    done
  have "?n + 1 \<le> t" "t \<le> 2 * (?n + 1)" using geometric_usize_Ok [OF t] False by auto
  moreover have "host_laws H \<Longrightarrow> ?n + (t - ?n) \<le> m" using grow unfolding host_laws_def by blast
  moreover have "generous H \<Longrightarrow> m = ?n + (t - ?n)" using grow unfolding generous_def by (metis fst_conv option.inject)
  ultimately show ?thesis by (auto simp: inp' drop_world settled_def roomy_def)
qed

lemma ensure_no_panic [no_panic]: "host_laws H \<Longrightarrow> fst (ensure_guard_storage_capacity H inp) \<noteq> Panic"
  by (auto simp: no_panic ensure_guard_storage_capacity_def reserve_guard_resize_def Let_def split: prod.splits option.splits)

lemma retain_Ok: "retain_reservation r inp = (Ok u, inp') \<Longrightarrow>
    inp' = inp\<lparr>in_reservations := in_reservations inp @ [r]\<rparr> \<and> length (in_reservations inp) < PARSER_MAX_RETAINED_RESERVATION_WRAPPERS"
  by (auto simp: retain_reservation_def split: if_splits)


lemma grow_middle_Ok:
  assumes "(if gh_guard_metadata_bytes H (in_world inp) \<noteq> 0
     then try_pure r inp (\<lambda>n. try_st (reserve H n w inp) retain_reservation) else (Ok (), inp)) = (Ok u, inp')"
  shows "settled inp inp' \<and> in_capacity inp' = in_capacity inp \<and> in_guard_metadata_capacity inp' = in_guard_metadata_capacity inp \<and>
    (in_reservations inp' = in_reservations inp \<or>
     \<not> generous H \<and> length (in_reservations inp') \<le> PARSER_MAX_RETAINED_RESERVATION_WRAPPERS)"
proof (cases "gh_guard_metadata_bytes H (in_world inp) = 0")
  case True
  then show ?thesis using assms by (simp add: settled_def)
next
  case False
  then have "\<not> generous H" unfolding generous_def by blast
  moreover obtain n q mid where "reserve H n w inp = (Ok q, mid)" "retain_reservation q mid = (Ok u, inp')"
    using assms False by (auto simp: try_pure_Ok_iff try_st_Ok_iff)
  ultimately show ?thesis by (auto simp: settled_def dest!: retain_Ok reserve_Ok)
qed

lemma grow_Ok:
  assumes "grow_guard_metadata H required store inp = (Ok u, inp')" and "in_guard_metadata_capacity inp < required"
  shows "settled inp inp' \<and> unat required \<le> unat (in_guard_metadata_capacity inp') \<and>
    unat (in_guard_metadata_capacity inp') \<le> 2 * unat required \<and>
    (in_reservations inp' = in_reservations inp \<or>
     \<not> generous H \<and> length (in_reservations inp') \<le> PARSER_MAX_RETAINED_RESERVATION_WRAPPERS) \<and>
    (if store then roomy H inp (in_capacity inp') else in_capacity inp' = in_capacity inp)"
proof -
  obtain m mid top where m: "geometric_capacity_u64 required (in_guard_metadata_capacity inp) ''parser guard metadata count'' = Ok m"
    and mid: "(if gh_guard_metadata_bytes H (in_world inp) \<noteq> 0
      then try_pure (overflow (checked_mul (m - in_guard_metadata_capacity inp) (gh_guard_metadata_bytes H (in_world inp))) ''parser guard metadata bytes'') inp
        (\<lambda>n. try_st (reserve H n ''parser allocation guard metadata'' inp) retain_reservation) else (Ok (), inp)) = (Ok (), mid)"
    and top: "(if store then ensure_guard_storage_capacity H mid else (Ok (), mid)) = (Ok (), top)"
    and inp': "inp' = top\<lparr>in_guard_metadata_capacity := m\<rparr>"
    using assms(1) unfolding grow_guard_metadata_def Let_def try_pure_Ok_iff try_st_Ok_iff by fastforce
  note A = grow_middle_Ok [OF mid] and B = geometric_u64_Ok [OF m assms(2)]
  show ?thesis
  proof (cases store)
    case True
    then have "ensure_guard_storage_capacity H mid = (Ok (), top)" using top by simp
    from ensure_Ok [OF this] A B show ?thesis using True by (auto simp: inp' settled_def roomy_def)
  next
    case False
    then show ?thesis using top A B by (auto simp: inp' settled_def)
  qed
qed

lemma grow_no_panic [no_panic]: "host_laws H \<Longrightarrow> fst (grow_guard_metadata H n store inp) \<noteq> Panic"
  by (auto simp: no_panic grow_guard_metadata_def retain_reservation_def Let_def split: if_splits)

lemma reserve_guard_Ok:
  assumes "reserve_guard_metadata H store inp = (Ok u, inp')"
  shows "step H [] 1 inp inp'" "in_allocations inp' = in_allocations inp"
    "ledger H inp \<Longrightarrow> host_laws H \<Longrightarrow> length (in_allocations inp') < unat (in_guard_metadata_used inp')"
    "store \<Longrightarrow> host_laws H \<Longrightarrow> length (in_allocations inp') < in_capacity inp'"
proof -
  let ?n = "in_guard_metadata_used inp + 1"
  obtain mid where n: "checked_add (in_guard_metadata_used inp) 1 = Some ?n"
    and mid: "(if in_guard_metadata_capacity inp < ?n then grow_guard_metadata H ?n store inp
        else if store then ensure_guard_storage_capacity H inp else (Ok (), inp)) = (Ok (), mid)"
    and inp': "inp' = mid\<lparr>in_guard_metadata_used := ?n\<rparr>"
    using assms by (auto simp: reserve_guard_metadata_def overflow_def try_pure_Ok_iff try_st_Ok_iff checked_add_def split: if_splits)
  have un: "unat ?n = unat (in_guard_metadata_used inp) + 1" using checked_add_unat [OF n] by simp
  have M: "settled inp mid \<and> unat ?n \<le> unat (in_guard_metadata_capacity mid) \<and>
    (unat (in_guard_metadata_capacity mid) \<le> 2 * unat ?n \<or> in_guard_metadata_capacity mid = in_guard_metadata_capacity inp) \<and>
    (in_reservations mid = in_reservations inp \<or>
     \<not> generous H \<and> length (in_reservations mid) \<le> PARSER_MAX_RETAINED_RESERVATION_WRAPPERS) \<and>
    (if store then roomy H inp (in_capacity mid) else in_capacity mid = in_capacity inp)"
  proof (cases "in_guard_metadata_capacity inp < ?n")
    case True
    then have "grow_guard_metadata H ?n store inp = (Ok (), mid)" using mid by simp
    from grow_Ok [OF this True] show ?thesis by blast
  next
    case False
    then have le: "unat ?n \<le> unat (in_guard_metadata_capacity inp)" by (simp add: word_le_nat_alt not_less)
    show ?thesis
    proof (cases store)
      case True
      then have "ensure_guard_storage_capacity H inp = (Ok (), mid)" using mid False by simp
      from ensure_Ok [OF this] show ?thesis using le True by simp
    next
      case store: False
      then have "mid = inp" using mid False by simp
      then show ?thesis using le store by (simp add: settled_def)
    qed
  qed
  show "step H [] 1 inp inp'" using M un by (auto simp: step_def ledger_def inp' settled_def roomy_def split: if_splits)
  show "in_allocations inp' = in_allocations inp" using M by (simp add: inp' settled_def)
  show "ledger H inp \<Longrightarrow> host_laws H \<Longrightarrow> length (in_allocations inp') < unat (in_guard_metadata_used inp')"
    using un M by (simp add: inp' ledger_def settled_def)
  show "store \<Longrightarrow> host_laws H \<Longrightarrow> length (in_allocations inp') < in_capacity inp'"
    using M by (simp add: inp' settled_def roomy_def)
qed

lemma reserve_guard_no_panic [no_panic]: "host_laws H \<Longrightarrow> fst (reserve_guard_metadata H store inp) \<noteq> Panic"
  by (auto simp: no_panic reserve_guard_metadata_def)

lemma commit_retained_Ok:
  assumes "commit_retained H r inp = (Ok u, inp')"
  shows "step H [] 1 inp inp'"
proof -
  obtain g mid top where mid: "reserve_guard_metadata H True inp = (Ok (), mid)" and top: "budget_call (gh_commit H r) mid = (Ok g, top)"
    and inp': "inp' = top\<lparr>in_allocations := in_allocations top @ [g]\<rparr>"
    using assms by (auto simp: commit_retained_def try_st_Ok_iff)
  note M = reserve_guard_Ok [OF mid]
  obtain x where "top = mid\<lparr>in_world := x\<rparr>" using budget_call_Ok(2) [OF top] ..
  then have "inp' = mid\<lparr>in_world := x, in_allocations := in_allocations mid @ [g]\<rparr>" by (simp add: inp')
  then show ?thesis using M by (auto simp: step_def ledger_def)
qed

lemma commit_retained_no_panic [no_panic]: "host_laws H \<Longrightarrow> fst (commit_retained H r inp) \<noteq> Panic"
  by (auto simp: no_panic commit_retained_def)

lemma allocate_vec_Ok:
  assumes "allocate_vec H w n what inp = (Ok u, inp')"
  shows "step H [] (min n 1) inp inp'"
proof (cases "n = 0")
  case True
  then show ?thesis using assms by (simp add: allocate_vec_def)
next
  case False
  obtain b r y z where "reserve H b what inp = (Ok r, y)" "try_alloc H w n what y = (Ok (), z)" and c: "commit_retained H r z = (Ok u, inp')"
    using assms False by (auto simp: allocate_vec_def try_pure_Ok_iff try_st_Ok_iff)
  then obtain x x' where "y = inp\<lparr>in_world := x\<rparr>" "z = y\<lparr>in_world := x'\<rparr>" using reserve_Ok try_alloc_Ok by metis
  then have "z = inp\<lparr>in_world := x'\<rparr>" by simp
  then have "step H [] 0 inp z" by simp
  from step_trans [OF this commit_retained_Ok [OF c]] show ?thesis using False by (cases n) simp_all
qed

lemma allocate_vec_no_panic [no_panic]: "host_laws H \<Longrightarrow> fst (allocate_vec H w n what inp) \<noteq> Panic"
  by (auto simp: no_panic allocate_vec_def)


subsection \<open>A host that never refuses\<close>

lemma ensure_run:
  assumes g: "generous H" and "length (in_allocations inp) < 2 ^ 50" and "in_capacity inp < 2 ^ 51"
  shows "\<exists>inp'. ensure_guard_storage_capacity H inp = (Ok (), inp')"
proof (cases "length (in_allocations inp) < in_capacity inp")
  case True
  then show ?thesis using assms by (simp add: ensure_guard_storage_capacity_def overflow_def usize_checked_add_def)
next
  case False
  let ?c = "in_capacity inp" and ?n = "length (in_allocations inp)"
  have t: "\<exists>t. geometric_capacity_usize (Suc ?n) ?c ''parser allocation guard capacity'' = Ok t"
    using assms(3) by (simp add: geometric_capacity_usize_def overflow_def usize_checked_mul_def)
  have "gh_slot_size H < 4096" using g by (simp add: generous_def)
  then have "?c * gh_slot_size H \<le> 2 ^ 51 * 2 ^ 12" by (intro mult_mono) (use assms(3) in auto)
  then have s: "\<exists>b. guard_storage_bytes (gh_slot_size H) ?c = Ok b"
    using \<open>gh_slot_size H < 4096\<close> assms(3)
    by (simp add: guard_storage_bytes_def u64_of_def overflow_def checked_mul_def unsigned_of_nat take_bit_nat_eq_self)
  have r: "\<exists>r x. reserve_guard_resize H b inp = (Ok r, inp\<lparr>in_world := x\<rparr>)" for b
    using reserve_run [OF g, of b "''parser allocation guard vector resize''" inp]
    by (cases "b = 0") (auto simp: reserve_guard_resize_def intro: exI [of _ "in_world inp"])
  from t s r obtain t b r x where R: "geometric_capacity_usize (Suc ?n) ?c ''parser allocation guard capacity'' = Ok t"
    "guard_storage_bytes (gh_slot_size H) ?c = Ok b" "reserve_guard_resize H b inp = (Ok r, inp\<lparr>in_world := x\<rparr>)" by blast
  have "fst (gh_grow H ?n ?c (t - ?n) x) = Some (?n + (t - ?n))" using g unfolding generous_def by blast
  then show ?thesis using False assms(2) R
    by (cases "gh_grow H ?n ?c (t - ?n) x") (simp add: ensure_guard_storage_capacity_def overflow_def usize_checked_add_def)
qed

lemma reserve_guard_run:
  assumes g: "generous H" and l: "ledger H inp" and u: "unat (in_guard_metadata_used inp) < 2 ^ 50"
  shows "\<exists>inp'. reserve_guard_metadata H store inp = (Ok (), inp')"
proof -
  let ?n = "in_guard_metadata_used inp + 1"
  have n: "checked_add (in_guard_metadata_used inp) 1 = Some ?n" using u by (simp add: checked_add_def)
  have e: "\<exists>inp'. (if store then ensure_guard_storage_capacity H inp else (Ok (), inp)) = (Ok (), inp')"
    using ensure_run [OF g, of inp] l u g by (cases store) (auto simp: ledger_def)
  have "unat (in_guard_metadata_capacity inp) * unat (2 :: u64) < 2 ^ 64" using l u by (simp add: ledger_def)
  then have "\<exists>m. geometric_capacity_u64 ?n (in_guard_metadata_capacity inp) ''parser guard metadata count'' = Ok m"
    by (simp add: geometric_capacity_u64_def overflow_def checked_mul_def)
  moreover have "gh_guard_metadata_bytes H (in_world inp) = 0" using g unfolding generous_def by blast
  ultimately have "\<exists>inp'. grow_guard_metadata H ?n store inp = (Ok (), inp')"
    using e by (auto simp: grow_guard_metadata_def)
  then show ?thesis using n e by (cases store) (auto simp: reserve_guard_metadata_def overflow_def)
qed

lemma commit_retained_run:
  assumes "generous H" and "ledger H inp" and "unat (in_guard_metadata_used inp) < 2 ^ 50"
  shows "\<exists>inp'. commit_retained H r inp = (Ok (), inp')"
proof -
  obtain mid where mid: "reserve_guard_metadata H True inp = (Ok (), mid)" using reserve_guard_run [OF assms] by blast
  obtain g x where "budget_call (gh_commit H r) mid = (Ok g, mid\<lparr>in_world := x\<rparr>)" using commit_guard_run [OF assms(1)] by blast
  with mid show ?thesis by (simp add: commit_retained_def)
qed

lemma vector_bytes_run:
  assumes "w < 4096" and "v < 4096" and "n \<le> 2 ^ 24"
  shows "\<exists>b. vector_bytes w v n what = Ok b"
proof -
  have le: "n * w \<le> 2 ^ 24 * 4096" by (intro mult_mono) (use assms in auto)
  then have m: "checked_mul (of_nat n :: u64) (of_nat w) = Some (of_nat n * of_nat w)"
    using assms by (simp add: checked_mul_def unsigned_of_nat take_bit_nat_eq_self)
  have "unat (of_nat n * of_nat w :: u64) = n * w"
    using checked_mul_unat [OF m] assms by (simp add: unsigned_of_nat take_bit_nat_eq_self)
  then have "checked_add (of_nat n * of_nat w :: u64) (of_nat v) \<noteq> None"
    using le assms by (simp add: checked_add_def unsigned_of_nat take_bit_nat_eq_self)
  then show ?thesis using m assms by (auto simp: vector_bytes_def u64_of_def overflow_def)
qed

lemma allocate_vec_run:
  assumes "generous H" and "ledger H inp" and "unat (in_guard_metadata_used inp) < 2 ^ 50" and "w < 4096" and "n \<le> 2 ^ 24"
  shows "\<exists>inp'. allocate_vec H w n what inp = (Ok (), inp')"
proof -
  obtain b where b: "vector_bytes w (gh_vec_size H) n what = Ok b"
    using vector_bytes_run [OF assms(4) generous_sizes(2) [OF assms(1)] assms(5)] by blast
  obtain r x where r: "reserve H b what inp = (Ok r, inp\<lparr>in_world := x\<rparr>)" using reserve_run [OF assms(1)] by blast
  obtain y where "try_alloc H w n what (inp\<lparr>in_world := x\<rparr>) = (Ok (), inp\<lparr>in_world := x\<rparr>\<lparr>in_world := y\<rparr>)"
    using try_alloc_run [OF assms(1)] by blast
  moreover have "ledger H (inp\<lparr>in_world := y\<rparr>)" using assms(2) by (simp add: ledger_def)
  ultimately show ?thesis using b r commit_retained_run [OF assms(1), of "inp\<lparr>in_world := y\<rparr>" r] assms(3)
    by (auto simp: allocate_vec_def)
qed


end
