(* ===== verification/Gguf_Codec.thy ===== *)
theory Gguf_Codec
  imports Gguf_Steps
begin

text \<open>
  The encoding of the fields of a GGUF file, and the contract of a routine that reads one
  (locale \<open>field\<close>): it does not panic, what it accepts is the encoding of its result, and
  under a budget without limit it accepts every encoding of a value in range. The routines
  of \<open>container.rs\<close> for scalars, strings, arrays and metadata values are its instances.
\<close>

section \<open>The contract of a field\<close>

text \<open>\<open>k\<close> is the number of guards the routine may add beyond one for every two bytes it reads.\<close>

locale field =
  fixes H :: "('x, 'r, 'g) GgufHost" and k :: nat
    and read :: "('x, 'r, 'g) Input \<Rightarrow> ('a, GgufError) outcome \<times> ('x, 'r, 'g) Input"
    and ok :: "'a \<Rightarrow> bool" and enc :: "'a \<Rightarrow> u8 list"
  assumes calm: "host_laws H \<Longrightarrow> fst (read inp) \<noteq> Panic"
    and sound: "read inp = (Ok v, inp') \<Longrightarrow> ok v \<and> step H (enc v) (k + length (enc v) div 2) inp inp'"
    and complete: "generous H \<Longrightarrow> ready H k inp \<Longrightarrow> ok v \<Longrightarrow> in_reader inp = enc v @ rest \<Longrightarrow> \<exists>inp'. read inp = (Ok v, inp')"
begin

lemma forward:
  assumes "generous H" and "ready H (j + k) inp" and "ok v" and "in_reader inp = enc v @ rest"
  shows "\<exists>inp'. read inp = (Ok v, inp') \<and> in_reader inp' = rest \<and> step H (enc v) (k + length (enc v) div 2) inp inp' \<and>
    ready H (j + length (enc v) div 2) inp'"
proof -
  have r: "ready H k inp" using ready_more [OF assms(2)] by simp
  obtain inp' where inp': "read inp = (Ok v, inp')" using complete [OF assms(1) r assms(3,4)] by blast
  have s: "step H (enc v) (k + length (enc v) div 2) inp inp'" using sound [OF inp'] by blast
  then have "in_reader inp' = rest" using assms(4) by (simp add: step_def)
  moreover have "ready H (j + length (enc v) div 2) inp'" by (rule ready_step [OF assms(2) s assms(1)]) simp
  ultimately show ?thesis using inp' s by blast
qed

lemma constructor:
  assumes "\<And>w. ok' w \<longleftrightarrow> (\<exists>v. w = C v \<and> ok v)" and "\<And>v. enc' (C v) = enc v"
  shows "field H k (\<lambda>inp. mapped C (read inp)) ok' enc'"
proof
  show "host_laws H \<Longrightarrow> fst (mapped C (read inp)) \<noteq> Panic" for inp using calm by (simp add: mapped_def no_panic)
  show "ok' w \<and> step H (enc' w) (k + length (enc' w) div 2) inp inp'" if "mapped C (read inp) = (Ok w, inp')" for inp w inp'
    using that sound assms by (auto simp: mapped_def try_st_Ok_iff)
  show "\<exists>inp'. mapped C (read inp) = (Ok w, inp')"
    if "generous H" "ready H k inp" "ok' w" "in_reader inp = enc' w @ rest" for inp w rest
  proof -
    obtain v where "w = C v" "ok v" using assms(1) \<open>ok' w\<close> by blast
    then show ?thesis using complete [OF that(1,2), of v rest] that(4) assms(2) by (auto simp: mapped_def)
  qed
qed

end

text \<open>A field that pays for its guards can be repeated.\<close>

locale item = field H 0 read ok enc
  for H :: "('x, 'r, 'g) GgufHost"
    and read :: "('x, 'r, 'g) Input \<Rightarrow> ('a, GgufError) outcome \<times> ('x, 'r, 'g) Input"
    and ok :: "'a \<Rightarrow> bool" and enc :: "'a \<Rightarrow> u8 list"
begin

lemma loop_calm: "host_laws H \<Longrightarrow> fst (read_loop read f n inp) \<noteq> Panic"
  by (induction n arbitrary: inp) (auto simp: no_panic calm)

lemma loop_sound:
  "read_loop read (\<lambda>v. v) n inp = (Ok vs, inp') \<Longrightarrow> length vs = n \<and> (\<forall>v\<in>set vs. ok v) \<and>
   step H (concat (map enc vs)) (length (concat (map enc vs)) div 2) inp inp'"
proof (induction n arbitrary: inp vs)
  case (Suc n)
  from Suc.prems obtain v mid ws where "read inp = (Ok v, mid)" and ws: "read_loop read (\<lambda>v. v) n mid = (Ok ws, inp')" "vs = v # ws"
    by (auto simp: try_st_Ok_iff)
  then have v: "ok v" "step H (enc v) (length (enc v) div 2) inp mid" using sound [of inp v mid] by simp_all
  note I = Suc.IH [OF ws(1)]
  have "step H (enc v @ concat (map enc ws)) (length (enc v) div 2 + length (concat (map enc ws)) div 2) inp inp'"
    using step_trans [OF v(2)] I by blast
  from step_more [OF this, of "length (concat (map enc vs)) div 2"]
  have "step H (concat (map enc vs)) (length (concat (map enc vs)) div 2) inp inp'" by (simp add: ws(2))
  then show ?case using v(1) I ws(2) by simp
qed simp

lemma loop_complete:
  "generous H \<Longrightarrow> ready H 0 inp \<Longrightarrow> (\<forall>v\<in>set vs. ok v) \<Longrightarrow> in_reader inp = concat (map enc vs) @ rest \<Longrightarrow>
   \<exists>inp'. read_loop read (\<lambda>v. v) (length vs) inp = (Ok vs, inp')"
proof (induction vs arbitrary: inp)
  case (Cons v vs)
  then obtain mid where mid: "read inp = (Ok v, mid)" "in_reader mid = concat (map enc vs) @ rest" "ready H (0 + length (enc v) div 2) mid"
    using forward [of 0 inp v "concat (map enc vs) @ rest"] by auto
  then have "ready H 0 mid" using ready_more by blast
  then show ?case using Cons.IH [of mid] Cons.prems mid by auto
qed simp

lemma values_field:
  assumes "n \<le> 2 ^ 24" and "generous H \<Longrightarrow> w < 4096"
  shows "field H 1 (read_array_values_mapped H w n read (\<lambda>v. v)) (\<lambda>vs. length vs = n \<and> (\<forall>v\<in>set vs. ok v)) (\<lambda>vs. concat (map enc vs))"
proof
  show "host_laws H \<Longrightarrow> fst (read_array_values_mapped H w n read (\<lambda>v. v) inp) \<noteq> Panic" for inp
    by (auto simp: read_array_values_mapped_def no_panic loop_calm)
next
  fix inp vs inp'
  assume "read_array_values_mapped H w n read (\<lambda>v. v) inp = (Ok vs, inp')"
  then obtain mid where mid: "allocate_vec H w n ''metadata array'' inp = (Ok (), mid)" "read_loop read (\<lambda>v. v) n mid = (Ok vs, inp')"
    by (auto simp: read_array_values_mapped_def try_st_Ok_iff)
  have "step H ([] @ concat (map enc vs)) (min n 1 + length (concat (map enc vs)) div 2) inp inp'"
    using step_trans [OF allocate_vec_Ok [OF mid(1)]] loop_sound [OF mid(2)] by blast
  then have "step H (concat (map enc vs)) (1 + length (concat (map enc vs)) div 2) inp inp'"
    by (simp add: step_more)
  then show "(length vs = n \<and> (\<forall>v\<in>set vs. ok v)) \<and> step H (concat (map enc vs)) (1 + length (concat (map enc vs)) div 2) inp inp'"
    using loop_sound [OF mid(2)] by simp
next
  fix inp vs rest
  assume g: "generous H" and r: "ready H 1 inp" and vs: "length vs = n \<and> (\<forall>v\<in>set vs. ok v)" and rest: "in_reader inp = concat (map enc vs) @ rest"
  obtain mid where mid: "allocate_vec H w n ''metadata array'' inp = (Ok (), mid)"
    using allocate_vec_run [OF g] ready_used [OF r] assms g by blast
  have s: "step H [] (min n 1) inp mid" using allocate_vec_Ok [OF mid] .
  have "ready H 0 mid" by (rule ready_step [OF r s g]) simp
  moreover have "in_reader mid = concat (map enc vs) @ rest" using s rest by (simp add: step_def)
  ultimately show "\<exists>inp'. read_array_values_mapped H w n read (\<lambda>v. v) inp = (Ok vs, inp')"
    using loop_complete [OF g] vs mid by (auto simp: read_array_values_mapped_def)
qed

end

section \<open>Scalars\<close>

lemma unsigned_item:
  fixes n :: nat
  assumes "256 ^ n = (2::nat) ^ LENGTH('a)" and "n < 2 ^ 32"
  shows "item H (\<lambda>inp. try_st (input_bytes n inp) (\<lambda>bytes inp. (Ok (from_le_bytes bytes :: 'a::len word), inp)))
    (\<lambda>_. True) (\<lambda>v. le_bytes n (unat v))"
proof (unfold item_def, unfold_locales)
  show "fst (try_st (input_bytes n inp) (\<lambda>bytes inp. (Ok (from_le_bytes bytes :: 'a word), inp))) \<noteq> Panic" for inp :: "('b, 'c, 'd) Input"
    by (simp add: no_panic)
next
  fix inp :: "('b, 'c, 'd) Input" and v :: "'a word" and inp'
  assume "try_st (input_bytes n inp) (\<lambda>bytes inp. (Ok (from_le_bytes bytes :: 'a word), inp)) = (Ok v, inp')"
  then obtain bs where bs: "input_bytes n inp = (Ok bs, inp')" "v = from_le_bytes bs" by (auto simp: try_st_Ok_iff)
  have "length bs = n" "step H bs 0 inp inp'" using input_bytes_Ok [OF bs(1)] assms(2) by auto
  then show "True \<and> step H (le_bytes n (unat v)) (0 + length (le_bytes n (unat v)) div 2) inp inp'"
    using le_bytes_from [of bs, where 'a = 'a] assms(1) by (auto simp: bs(2) intro: step_more)
next
  fix inp :: "('b, 'c, 'd) Input" and v :: "'a word" and rest
  assume "ready H 0 inp" and "in_reader inp = le_bytes n (unat v) @ rest"
  then show "\<exists>inp'. try_st (input_bytes n inp) (\<lambda>bytes inp. (Ok (from_le_bytes bytes :: 'a word), inp)) = (Ok v, inp')"
    using input_bytes_run [of inp "le_bytes n (unat v)" rest] ready_position from_le_bytes_inverse [OF assms(1), of v] by fastforce
qed

lemma unsigned_step:
  assumes "try_st (input_bytes n inp) (\<lambda>bytes inp. (Ok (from_le_bytes bytes :: 'a::len word), inp)) = (Ok w, inp')"
    and "256 ^ n = (2::nat) ^ LENGTH('a)" and "n < 2 ^ 64"
  shows "step H (le_bytes n (unat w)) 0 inp inp'"
proof -
  obtain bs where bs: "input_bytes n inp = (Ok bs, inp')" "w = from_le_bytes bs" using assms(1) by (auto simp: try_st_Ok_iff)
  then show ?thesis using input_bytes_Ok [OF bs(1) assms(3)] le_bytes_from [of bs, where 'a = 'a] assms(2) by auto
qed

lemma u32_step: "input_u32 inp = (Ok w, inp') \<Longrightarrow> step H (le_bytes 4 (unat w)) 0 inp inp'"
  using unsigned_step [of 4 inp w inp' H] by (simp add: input_u32_def)

lemma u64_step: "input_u64 inp = (Ok w, inp') \<Longrightarrow> step H (le_bytes 8 (unat w)) 0 inp inp'"
  using unsigned_step [of 8 inp w inp' H] by (simp add: input_u64_def)

interpretation u16: item H input_u16 "\<lambda>_. True" "\<lambda>v. le_bytes 2 (unat v)" for H
  using unsigned_item [of 2 H, where 'a = 16] by (simp add: input_u16_def [abs_def])

interpretation u32: item H input_u32 "\<lambda>_. True" "\<lambda>v. le_bytes 4 (unat v)" for H
  using unsigned_item [of 4 H, where 'a = 32] by (simp add: input_u32_def [abs_def])

interpretation u64: item H input_u64 "\<lambda>_. True" "\<lambda>v. le_bytes 8 (unat v)" for H
  using unsigned_item [of 8 H, where 'a = 64] by (simp add: input_u64_def [abs_def])

lemma u8_item: "item H input_u8 (\<lambda>_. True) (\<lambda>v. [v])"
proof (unfold item_def, unfold_locales)
  show "fst (input_u8 inp) \<noteq> Panic" for inp :: "('a, 'b, 'c) Input"
    using input_bytes_Ok(1) [of 1 inp] by (auto simp: no_panic input_u8_def at_index_def)
next
  fix inp :: "('a, 'b, 'c) Input" and v :: u8 and inp'
  assume "input_u8 inp = (Ok v, inp')"
  then obtain bs where bs: "input_bytes 1 inp = (Ok bs, inp')" "at_index bs 0 = (Ok v :: (u8, GgufError) outcome)"
    by (auto simp: input_u8_def try_st_Ok_iff try_pure_Ok_iff)
  note B = input_bytes_Ok [OF bs(1)]
  have "bs = [v]" using B(1) bs(2) by (cases bs) (auto simp: at_index_def)
  then show "True \<and> step H [v] (0 + length [v] div 2) inp inp'" using B(2) by simp
next
  fix inp :: "('a, 'b, 'c) Input" and v :: u8 and rest
  assume r: "ready H 0 inp" and rest: "in_reader inp = [v] @ rest"
  obtain inp' where "input_bytes (length [v]) inp = (Ok [v], inp')" using input_bytes_run [OF rest ready_position [OF r rest]] by blast
  then show "\<exists>inp'. input_u8 inp = (Ok v, inp')" by (simp add: input_u8_def at_index_def)
qed

interpretation u8: item H input_u8 "\<lambda>_. True" "\<lambda>v. [v]" for H
  by (rule u8_item)

definition bool_byte :: "bool \<Rightarrow> u8" where
  "bool_byte b = (if b then 1 else 0)"

interpretation bool: item H input_bool "\<lambda>_. True" "\<lambda>b. [bool_byte b]" for H :: "('x, 'r, 'g) GgufHost"
proof (unfold item_def, unfold_locales)
  show "host_laws H \<Longrightarrow> fst (input_bool inp) \<noteq> Panic" for inp :: "('x, 'r, 'g) Input"
    using u8.calm [of H inp] by (auto simp: no_panic input_bool_def)
next
  fix inp :: "('x, 'r, 'g) Input" and v inp'
  assume "input_bool inp = (Ok v, inp')"
  then obtain b where "input_u8 inp = (Ok b, inp')" "b = bool_byte v"
    by (auto simp: input_bool_def try_st_Ok_iff bool_byte_def split: if_splits)
  then show "True \<and> step H [bool_byte v] (0 + length [bool_byte v] div 2) inp inp'" using u8.sound [of inp b inp' H] by simp
next
  fix inp :: "('x, 'r, 'g) Input" and v rest
  assume "generous H" "ready H 0 inp" "in_reader inp = [bool_byte v] @ rest"
  then show "\<exists>inp'. input_bool inp = (Ok v, inp')"
    using u8.complete [of H inp "bool_byte v" rest] by (auto simp: input_bool_def bool_byte_def split: if_splits)
qed

section \<open>Strings\<close>

definition string_ok :: "u8 list \<Rightarrow> bool" where
  "string_ok s \<longleftrightarrow> utf8_valid s \<and> length s \<le> unat MAX_STRING_LEN"

definition enc_string :: "u8 list \<Rightarrow> u8 list" where
  "enc_string s = le_bytes 8 (length s) @ s"

lemma string_length_Ok:
  assumes "string_length what inp = (Ok len, inp')"
  shows "\<exists>n. step H (le_bytes 8 n) 0 inp inp' \<and> n \<le> unat MAX_STRING_LEN \<and> len = (if n = 0 then None else Some n)"
proof -
  obtain w where w: "input_u64 inp = (Ok w, inp')" "check_limit what w MAX_STRING_LEN = Ok ()"
    "len = (if unat w = 0 then None else Some (unat w))"
    using assms by (auto simp: string_length_def try_st_Ok_iff try_pure_Ok_iff Let_def usize_of_def overflow_def split: if_splits)
  have "step H (le_bytes 8 (unat w)) 0 inp inp'" by (rule u64_step [OF w(1)])
  then show ?thesis using w(2,3) by (auto simp: check_limit_def word_le_nat_alt not_less split: if_splits)
qed

lemma string_length_run:
  assumes g: "generous H" and r: "ready H 0 inp" and n: "n \<le> unat MAX_STRING_LEN" and rest: "in_reader inp = le_bytes 8 n @ rest" "n \<le> length rest"
  shows "\<exists>inp'. string_length what inp = (Ok (if n = 0 then None else Some n), inp')"
proof -
  have small: "n < 2 ^ 64" using n by (simp add: MAX_STRING_LEN_def)
  have u: "unat (of_nat n :: u64) = n" using small by (simp add: unsigned_of_nat take_bit_nat_eq_self)
  obtain mid where mid: "input_u64 inp = (Ok (of_nat n), mid)" "in_reader mid = rest" "step H (le_bytes 8 n) (length (le_bytes 8 n) div 2) inp mid"
    "ready H (length (le_bytes 8 n) div 2) mid"
    using u64.forward [OF g, of 0 inp "of_nat n" rest] r rest(1) by (auto simp: u)
  have "unat (saturating_sub (in_file_len mid) (in_position mid)) = length rest"
    using mid(2,4) by (simp add: unat_saturating_sub ready_def)
  then have "\<not> saturating_sub (in_file_len mid) (in_position mid) < of_nat n" using rest(2) u by (simp add: word_less_nat_alt)
  then show ?thesis using mid(1) n small u
    by (auto simp: string_length_def check_limit_def usize_of_def overflow_def word_less_nat_alt MAX_STRING_LEN_def)
qed

lemma read_string_body_Ok:
  assumes "read_string_body H n what inp = (Ok s, inp')" and "0 < n" and "n \<le> unat MAX_STRING_LEN"
  shows "length s = n \<and> utf8_valid s \<and> step H s 1 inp inp'"
proof -
  obtain w r a b c d where w: "u64_of n what = Ok w" and a: "reserve H w what inp = (Ok r, a)" "try_alloc H 1 n what a = (Ok (), b)"
    and c: "read_exact n b = (Ok s, c)" "advance w c = (Ok (), d)" and v: "utf8_valid s" and d: "commit_retained H r d = (Ok (), inp')"
    using assms(1) by (auto simp: read_string_body_def try_st_Ok_iff try_pure_Ok_iff split: if_splits)
  have "n < 2 ^ 64" using assms(3) by (simp add: MAX_STRING_LEN_def)
  then have wn: "w = of_nat n" using w by (simp add: u64_of_def overflow_def)
  have "input_bytes n b = (Ok s, d)" using c by (simp add: input_bytes_def wn)
  note B = input_bytes_Ok [OF this \<open>n < 2 ^ 64\<close>]
  obtain x y where "a = inp\<lparr>in_world := x\<rparr>" "b = a\<lparr>in_world := y\<rparr>" using reserve_Ok [OF a(1)] try_alloc_Ok [OF a(2)] by blast
  then have "step H [] 0 inp b" by simp
  from step_trans [OF step_trans [OF this B(2)] commit_retained_Ok [OF d]] show ?thesis using B(1) v by simp
qed

lemma read_string_body_run:
  assumes g: "generous H" and r: "ready H 1 inp" and s: "string_ok s" "s \<noteq> []" and rest: "in_reader inp = s @ rest"
  shows "\<exists>inp'. read_string_body H (length s) what inp = (Ok s, inp')"
proof -
  let ?n = "length s"
  have n: "?n < 2 ^ 64" using s(1) by (simp add: string_ok_def MAX_STRING_LEN_def)
  obtain q x where x: "reserve H (of_nat ?n) what inp = (Ok q, inp\<lparr>in_world := x\<rparr>)" using reserve_run [OF g] by blast
  obtain y where y: "try_alloc H 1 ?n what (inp\<lparr>in_world := x\<rparr>) = (Ok (), inp\<lparr>in_world := x\<rparr>\<lparr>in_world := y\<rparr>)"
    using try_alloc_run [OF g] by blast
  let ?b = "inp\<lparr>in_world := y\<rparr>"
  have b: "ready H 1 ?b" using r by (simp add: ready_def ledger_def)
  obtain d where d: "input_bytes ?n ?b = (Ok s, d)"
    using input_bytes_run [of ?b s rest] rest ready_position [OF b, of s rest] by auto
  then obtain c where c: "read_exact ?n ?b = (Ok s, c)" "advance (of_nat ?n) c = (Ok (), d)"
    by (auto simp: input_bytes_def try_st_Ok_iff)
  have "step H s 0 ?b d" using input_bytes_Ok [OF d n] by simp
  then have "ready H 0 d" by (rule ready_step [OF b _ g]) simp
  then obtain e where "commit_retained H q d = (Ok (), e)" using commit_retained_run [OF g] ready_used by blast
  then show ?thesis using x y c s n by (simp add: read_string_body_def u64_of_def overflow_def string_ok_def)
qed

interpretation string: item H "input_string H what" string_ok enc_string for H :: "('x, 'r, 'g) GgufHost" and what
proof (unfold item_def, unfold_locales)
  show "host_laws H \<Longrightarrow> fst (input_string H what inp) \<noteq> Panic" for inp
    using u64.calm [of H] by (auto simp: no_panic input_string_def string_length_def read_string_body_def Let_def split: option.splits)
next
  fix inp v inp'
  assume "input_string H what inp = (Ok v, inp')"
  then obtain len mid where mid: "string_length what inp = (Ok len, mid)"
    "(case len of None \<Rightarrow> (Ok [], mid) | Some len \<Rightarrow> read_string_body H len what mid) = (Ok v, inp')"
    by (auto simp: input_string_def try_st_Ok_iff)
  obtain n where n: "step H (le_bytes 8 n) 0 inp mid" "n \<le> unat MAX_STRING_LEN" "len = (if n = 0 then None else Some n)"
    using string_length_Ok [OF mid(1)] by blast
  show "string_ok v \<and> step H (enc_string v) (0 + length (enc_string v) div 2) inp inp'"
  proof (cases "n = 0")
    case True
    then have "v = []" "inp' = mid" using mid(2) n(3) by auto
    then show ?thesis using n(1) step_more [OF n(1), of 4] True by (simp add: string_ok_def enc_string_def)
  next
    case False
    then have "read_string_body H n what mid = (Ok v, inp')" using mid(2) n(3) by simp
    from read_string_body_Ok [OF this _ n(2)] False
    have v: "length v = n" "utf8_valid v" "step H v 1 mid inp'" by auto
    have "step H (enc_string v) (0 + 1) inp inp'" using step_trans [OF n(1) v(3)] v(1) by (simp add: enc_string_def)
    then have "step H (enc_string v) (0 + length (enc_string v) div 2) inp inp'" by (rule step_more) (simp add: enc_string_def)
    then show ?thesis using v n(2) by (simp add: string_ok_def)
  qed
next
  fix inp :: "('x, 'r, 'g) Input" and v rest
  assume g: "generous H" and r: "ready H 0 inp" and v: "string_ok v" and rest: "in_reader inp = enc_string v @ rest"
  have rest': "in_reader inp = le_bytes 8 (length v) @ (v @ rest)" using rest by (simp add: enc_string_def)
  have l: "length v \<le> unat MAX_STRING_LEN" using v by (simp add: string_ok_def)
  obtain mid where mid: "string_length what inp = (Ok (if length v = 0 then None else Some (length v)), mid)"
    using string_length_run [OF g r l rest'] by auto
  obtain n where n: "step H (le_bytes 8 n) 0 inp mid" "n \<le> unat MAX_STRING_LEN"
    "(if length v = 0 then None else Some (length v)) = (if n = 0 then None else Some n)"
    using string_length_Ok [OF mid] by blast
  have "n = length v" using n(3) by (auto split: if_splits)
  with n have s: "step H (le_bytes 8 (length v)) 0 inp mid" by simp
  then have "in_reader mid = v @ rest" "ready H 1 mid" using rest' ready_step [OF r s g, of 1] by (simp_all add: step_def)
  then show "\<exists>inp'. input_string H what inp = (Ok v, inp')"
    using read_string_body_run [OF g _ v, of mid rest what] mid by (cases "v = []") (auto simp: input_string_def)
qed


section \<open>Arrays\<close>

fun elems_ok :: "MetadataArray \<Rightarrow> bool" where
  "elems_ok (AString vs) = (\<forall>s\<in>set vs. string_ok s)"
| "elems_ok _ = True"

fun enc_elems :: "MetadataArray \<Rightarrow> u8 list" where
  "enc_elems (AUint8 vs) = concat (map (\<lambda>v. [v]) vs)"
| "enc_elems (AInt8 vs) = concat (map (\<lambda>v. [v]) vs)"
| "enc_elems (AUint16 vs) = concat (map (\<lambda>v. le_bytes 2 (unat v)) vs)"
| "enc_elems (AInt16 vs) = concat (map (\<lambda>v. le_bytes 2 (unat v)) vs)"
| "enc_elems (AUint32 vs) = concat (map (\<lambda>v. le_bytes 4 (unat v)) vs)"
| "enc_elems (AInt32 vs) = concat (map (\<lambda>v. le_bytes 4 (unat v)) vs)"
| "enc_elems (AFloat32 vs) = concat (map (\<lambda>v. le_bytes 4 (unat v)) vs)"
| "enc_elems (ABool vs) = concat (map (\<lambda>b. [bool_byte b]) vs)"
| "enc_elems (AString vs) = concat (map enc_string vs)"
| "enc_elems (AUint64 vs) = concat (map (\<lambda>v. le_bytes 8 (unat v)) vs)"
| "enc_elems (AInt64 vs) = concat (map (\<lambda>v. le_bytes 8 (unat v)) vs)"
| "enc_elems (AFloat64 vs) = concat (map (\<lambda>v. le_bytes 8 (unat v)) vs)"

definition enc_array :: "MetadataArray \<Rightarrow> u8 list" where
  "enc_array a = le_bytes 4 (value_type_index (element_type a)) @ le_bytes 8 (array_len a) @ enc_elems a"

definition array_ok :: "MetadataArray \<Rightarrow> bool" where
  "array_ok a \<longleftrightarrow> array_len a \<le> 2 ^ 24 \<and> elems_ok a"

abbreviation array_shape :: "ValueType \<Rightarrow> nat \<Rightarrow> MetadataArray \<Rightarrow> bool" where
  "array_shape t n a \<equiv> element_type a = t \<and> array_len a = n \<and> elems_ok a"

lemma array_shape_iff:
  "array_shape TUint8 n a \<longleftrightarrow> (\<exists>vs. a = AUint8 vs \<and> length vs = n)"
  "array_shape TInt8 n a \<longleftrightarrow> (\<exists>vs. a = AInt8 vs \<and> length vs = n)"
  "array_shape TUint16 n a \<longleftrightarrow> (\<exists>vs. a = AUint16 vs \<and> length vs = n)"
  "array_shape TInt16 n a \<longleftrightarrow> (\<exists>vs. a = AInt16 vs \<and> length vs = n)"
  "array_shape TUint32 n a \<longleftrightarrow> (\<exists>vs. a = AUint32 vs \<and> length vs = n)"
  "array_shape TInt32 n a \<longleftrightarrow> (\<exists>vs. a = AInt32 vs \<and> length vs = n)"
  "array_shape TFloat32 n a \<longleftrightarrow> (\<exists>vs. a = AFloat32 vs \<and> length vs = n)"
  "array_shape TBool n a \<longleftrightarrow> (\<exists>vs. a = ABool vs \<and> length vs = n)"
  "array_shape TString n a \<longleftrightarrow> (\<exists>vs. a = AString vs \<and> length vs = n \<and> (\<forall>v\<in>set vs. string_ok v))"
  "array_shape TUint64 n a \<longleftrightarrow> (\<exists>vs. a = AUint64 vs \<and> length vs = n)"
  "array_shape TInt64 n a \<longleftrightarrow> (\<exists>vs. a = AInt64 vs \<and> length vs = n)"
  "array_shape TFloat64 n a \<longleftrightarrow> (\<exists>vs. a = AFloat64 vs \<and> length vs = n)"
  by (cases a; auto)+

lemma elems_case:
  assumes "parse_array_values H t n = (\<lambda>inp. mapped C (read_array_values_mapped H w n read (\<lambda>v. v) inp))"
    and "item H read ok enc" and "n \<le> 2 ^ 24" and "generous H \<Longrightarrow> w < 4096"
    and "\<And>a. array_shape t n a \<longleftrightarrow> (\<exists>vs. a = C vs \<and> length vs = n \<and> (\<forall>v\<in>set vs. ok v))"
    and "\<And>vs. enc_elems (C vs) = concat (map enc vs)"
  shows "field H 1 (parse_array_values H t n) (array_shape t n) enc_elems"
  unfolding assms(1) by (rule field.constructor [OF item.values_field [OF assms(2,3,4)] assms(5,6)])

lemmas parse_array_defs = fun_eq_iff parse_array_values_def parse_narrow_array_def parse_wide_array_def parse_string_array_def
  parse_int8_array_def read_array_values_def

lemma elems_field:
  assumes "t \<noteq> TArray" and n: "n \<le> 2 ^ 24"
  shows "field H 1 (parse_array_values H t n) (array_shape t n) enc_elems"
proof (cases t)
  case TUint8
  show ?thesis unfolding TUint8 by (rule elems_case [OF _ u8.item_axioms n, where C = AUint8 and w = 1])
    (simp_all add: array_shape_iff parse_array_defs)
next
  case TInt8
  show ?thesis unfolding TInt8 by (rule elems_case [OF _ u8.item_axioms n, where C = AInt8 and w = 1])
    (simp_all add: array_shape_iff parse_array_defs)
next
  case TUint16
  show ?thesis unfolding TUint16 by (rule elems_case [OF _ u16.item_axioms n, where C = AUint16 and w = 2])
    (simp_all add: array_shape_iff parse_array_defs)
next
  case TInt16
  show ?thesis unfolding TInt16 by (rule elems_case [OF _ u16.item_axioms n, where C = AInt16 and w = 2])
    (simp_all add: array_shape_iff parse_array_defs)
next
  case TUint32
  show ?thesis unfolding TUint32 by (rule elems_case [OF _ u32.item_axioms n, where C = AUint32 and w = 4])
    (simp_all add: array_shape_iff parse_array_defs)
next
  case TInt32
  show ?thesis unfolding TInt32 by (rule elems_case [OF _ u32.item_axioms n, where C = AInt32 and w = 4])
    (simp_all add: array_shape_iff parse_array_defs)
next
  case TFloat32
  show ?thesis unfolding TFloat32 by (rule elems_case [OF _ u32.item_axioms n, where C = AFloat32 and w = 4])
    (simp_all add: array_shape_iff parse_array_defs)
next
  case TBool
  show ?thesis unfolding TBool by (rule elems_case [OF _ bool.item_axioms n, where C = ABool and w = 1])
    (simp_all add: array_shape_iff parse_array_defs)
next
  case TString
  show ?thesis unfolding TString by (rule elems_case [OF _ string.item_axioms [of H "''metadata array string''"] n, where C = AString and w = "gh_string_size H"])
    (simp_all add: array_shape_iff parse_array_defs generous_sizes)
next
  case TArray
  then show ?thesis using assms(1) by simp
next
  case TUint64
  show ?thesis unfolding TUint64 by (rule elems_case [OF _ u64.item_axioms n, where C = AUint64 and w = 8])
    (simp_all add: array_shape_iff parse_array_defs)
next
  case TInt64
  show ?thesis unfolding TInt64 by (rule elems_case [OF _ u64.item_axioms n, where C = AInt64 and w = 8])
    (simp_all add: array_shape_iff parse_array_defs)
next
  case TFloat64
  show ?thesis unfolding TFloat64 by (rule elems_case [OF _ u64.item_axioms n, where C = AFloat64 and w = 8])
    (simp_all add: array_shape_iff parse_array_defs)
qed

lemma sum_list_ge: "(\<And>v. v \<in> set vs \<Longrightarrow> m \<le> f v) \<Longrightarrow> m * length vs \<le> sum_list (map f vs)" for m :: nat
  by (induction vs) (auto simp: add_mono)

lemma enc_elems_length: "unat (ARRAY_ELEMENT_BYTES ! value_type_index (element_type a)) * array_len a \<le> length (enc_elems a)"
  using sum_list_ge [of _ 8 "\<lambda>s. length (enc_string s)"]
  by (cases a) (auto simp: ARRAY_ELEMENT_BYTES_def length_concat comp_def sum_list_triv enc_string_def)

lemma value_type_roundtrip:
  "value_type_try_from w = Ok t \<longleftrightarrow> unat w = value_type_index t"
proof
  assume "value_type_try_from w = Ok t"
  then have "unat w < 13 \<and> t = VALUE_TYPES ! unat w" by (auto simp: value_type_try_from_def VALUE_TYPES_def split: if_splits)
  moreover have "n < 13 \<Longrightarrow> value_type_index (VALUE_TYPES ! n) = n" for n
    by (auto simp: VALUE_TYPES_def less_Suc_eq numeral_eq_Suc)
  ultimately show "unat w = value_type_index t" by simp
next
  assume "unat w = value_type_index t"
  then show "value_type_try_from w = Ok t" by (cases t) (simp_all add: value_type_try_from_def VALUE_TYPES_def)
qed

lemma value_type_bound: "value_type_index t < 13"
  by (cases t) simp_all


lemma type_code:
  fixes n :: nat
  assumes "n < 13"
  shows "unat (of_nat n :: u32) = n"
  using assms by (simp add: unsigned_of_nat take_bit_nat_eq_self)

lemma parse_array_calm: "host_laws H \<Longrightarrow> fst (parse_array H inp) \<noteq> Panic"
proof -
  assume laws: "host_laws H"
  have elems: "fst (parse_array_values H t n mid) \<noteq> Panic"
    if "t \<noteq> TArray" "check_limit ''array'' len MAX_COLLECTION_LEN = Ok ()" "usize_of len w = Ok n" for t len mid w n
  proof (rule field.calm [OF elems_field [OF that(1)] laws])
    show "n \<le> 2 ^ 24" using that(2,3)
      by (auto simp: check_limit_def MAX_COLLECTION_LEN_def word_less_nat_alt usize_of_def overflow_def split: if_splits)
  qed
  have "at_index ARRAY_ELEMENT_BYTES (value_type_index t) \<noteq> (Panic :: (u64, GgufError) outcome)" for t
    using value_type_bound [of t] by (simp add: at_index_def ARRAY_ELEMENT_BYTES_def)
  then show ?thesis using elems u32.calm [OF laws] u64.calm [OF laws]
    by (auto simp: parse_array_def no_panic)
qed

lemma parse_array_sound:
  assumes "parse_array H inp = (Ok a, inp')"
  shows "array_ok a \<and> step H (enc_array a) (length (enc_array a) div 2) inp inp'"
proof -
  obtain code m1 t len m2 where code: "input_u32 inp = (Ok code, m1)" and t: "value_type_try_from code = Ok t" "t \<noteq> TArray"
    and len: "input_u64 m1 = (Ok len, m2)" "check_limit ''array'' len MAX_COLLECTION_LEN = Ok ()"
    and elems: "parse_array_values H t (unat len) m2 = (Ok a, inp')"
    using assms by (auto simp: parse_array_def try_st_Ok_iff try_pure_Ok_iff usize_of_def overflow_def split: if_splits)
  have n: "unat len \<le> 2 ^ 24" using len(2) by (auto simp: check_limit_def MAX_COLLECTION_LEN_def word_less_nat_alt split: if_splits)
  have c: "unat code = value_type_index t" using t(1) value_type_roundtrip by blast
  have s2: "step H (le_bytes 8 (unat len)) 4 m1 m2" using u64.sound [OF len(1)] by simp
  have s3: "array_shape t (unat len) a \<and> step H (enc_elems a) (1 + length (enc_elems a) div 2) m2 inp'"
    by (rule field.sound [OF elems_field [OF t(2) n] elems])
  have s1: "step H (le_bytes 4 (unat code)) 0 inp m1" by (rule u32_step [OF code])
  have s12: "step H (le_bytes 4 (unat code) @ le_bytes 8 (unat len)) (0 + 4) inp m2" by (rule step_trans [OF s1 s2])
  have "step H ((le_bytes 4 (unat code) @ le_bytes 8 (unat len)) @ enc_elems a) (0 + 4 + (1 + length (enc_elems a) div 2)) inp inp'"
    using step_trans [OF s12] s3 by blast
  then have "step H (enc_array a) (0 + 4 + (1 + length (enc_elems a) div 2)) inp inp'"
    using s3 c by (simp add: enc_array_def)
  then have "step H (enc_array a) (length (enc_array a) div 2) inp inp'" by (rule step_more) (simp add: enc_array_def)
  then show ?thesis using s3 n by (simp add: array_ok_def)
qed

lemma parse_array_complete:
  assumes g: "generous H" and r: "ready H 0 inp" and a: "array_ok a" and rest: "in_reader inp = enc_array a @ rest"
  shows "\<exists>inp'. parse_array H inp = (Ok a, inp')"
proof -
  let ?t = "element_type a" and ?n = "array_len a"
  have n: "?n \<le> 2 ^ 24" using a by (simp add: array_ok_def)
  have t: "?t \<noteq> TArray" by (cases a) simp_all
  have un: "unat (of_nat ?n :: u64) = ?n" using n by (simp add: unsigned_of_nat take_bit_nat_eq_self)
  have ut: "unat (of_nat (value_type_index ?t) :: u32) = value_type_index ?t" by (rule type_code [OF value_type_bound])
  let ?code = "of_nat (value_type_index ?t) :: u32" and ?len = "of_nat ?n :: u64"
  have rest1: "in_reader inp = le_bytes 4 (unat ?code) @ (le_bytes 8 (unat ?len) @ (enc_elems a @ rest))"
    using rest by (simp add: enc_array_def un ut)
  obtain m1 where m1: "input_u32 inp = (Ok ?code, m1)" "in_reader m1 = le_bytes 8 (unat ?len) @ (enc_elems a @ rest)"
    "ready H (0 + 4 div 2) m1" using u32.forward [OF g, of 0 inp ?code] r rest1 by auto
  have r1: "ready H (0 + 0) m1" using ready_more [OF m1(3)] by simp
  obtain m2 where m2: "input_u64 m1 = (Ok ?len, m2)" "in_reader m2 = enc_elems a @ rest" "ready H (0 + 8 div 2) m2"
    using u64.forward [OF g r1, of ?len] m1(2) by auto
  have r2: "ready H 1 m2" using ready_more [OF m2(3)] by simp
  obtain m3 where m3: "parse_array_values H ?t ?n m2 = (Ok a, m3)"
    using field.complete [OF elems_field [OF t n] g r2 _ m2(2)] a by (auto simp: array_ok_def)
  let ?min = "ARRAY_ELEMENT_BYTES ! value_type_index ?t"
  have idx: "at_index ARRAY_ELEMENT_BYTES (value_type_index ?t) = (Ok ?min :: (u64, GgufError) outcome)"
    using value_type_bound [of ?t] by (simp add: at_index_def ARRAY_ELEMENT_BYTES_def)
  have prod: "unat ?min * ?n \<le> length (in_reader m2)" using enc_elems_length [of a] m2(2) by simp
  have left: "unat (saturating_sub (in_file_len m2) (in_position m2)) = length (in_reader m2)"
    using r2 by (simp add: ready_def unat_saturating_sub)
  have "length (in_reader m2) < 2 ^ 64" using left unat_lt_2p [of "saturating_sub (in_file_len m2) (in_position m2)"] by simp
  then have mul: "checked_mul ?len ?min = Some (?len * ?min)" using prod un by (simp add: checked_mul_def mult.commute)
  have "unat (?len * ?min) = ?n * unat ?min" using checked_mul_unat [OF mul] un by simp
  then have fits: "\<not> saturating_sub (in_file_len m2) (in_position m2) < ?len * ?min"
    using prod left by (simp add: word_less_nat_alt mult.commute)
  have "check_limit ''array'' ?len MAX_COLLECTION_LEN = Ok ()"
    using n un by (simp add: check_limit_def MAX_COLLECTION_LEN_def word_less_nat_alt)
  moreover have "value_type_try_from ?code = Ok ?t" using value_type_roundtrip ut by blast
  moreover have "usize_of ?len ''array length'' = Ok ?n" using n un by (simp add: usize_of_def overflow_def)
  ultimately show ?thesis using m1(1) m2(1) m3 t idx mul fits
    by (simp add: parse_array_def overflow_def)
qed

interpretation array: item H "parse_array H" array_ok enc_array for H :: "('x, 'r, 'g) GgufHost"
proof (unfold item_def, unfold_locales)
  show "host_laws H \<Longrightarrow> fst (parse_array H inp) \<noteq> Panic" for inp by (rule parse_array_calm)
  show "parse_array H inp = (Ok v, inp') \<Longrightarrow> array_ok v \<and> step H (enc_array v) (0 + length (enc_array v) div 2) inp inp'" for inp v inp'
    using parse_array_sound by auto
  show "generous H \<Longrightarrow> ready H 0 inp \<Longrightarrow> array_ok v \<Longrightarrow> in_reader inp = enc_array v @ rest \<Longrightarrow> \<exists>inp'. parse_array H inp = (Ok v, inp')"
    for inp v rest by (rule parse_array_complete)
qed

section \<open>Metadata values\<close>

fun value_type :: "MetadataValue \<Rightarrow> ValueType" where
  "value_type (VUint8 _) = TUint8" | "value_type (VInt8 _) = TInt8" | "value_type (VUint16 _) = TUint16"
| "value_type (VInt16 _) = TInt16" | "value_type (VUint32 _) = TUint32" | "value_type (VInt32 _) = TInt32"
| "value_type (VFloat32 _) = TFloat32" | "value_type (VBool _) = TBool" | "value_type (VString _) = TString"
| "value_type (VArray _) = TArray" | "value_type (VUint64 _) = TUint64" | "value_type (VInt64 _) = TInt64"
| "value_type (VFloat64 _) = TFloat64"

fun enc_value :: "MetadataValue \<Rightarrow> u8 list" where
  "enc_value (VUint8 v) = [v]" | "enc_value (VInt8 v) = [v]" | "enc_value (VUint16 v) = le_bytes 2 (unat v)"
| "enc_value (VInt16 v) = le_bytes 2 (unat v)" | "enc_value (VUint32 v) = le_bytes 4 (unat v)"
| "enc_value (VInt32 v) = le_bytes 4 (unat v)" | "enc_value (VFloat32 v) = le_bytes 4 (unat v)"
| "enc_value (VBool b) = [bool_byte b]" | "enc_value (VString s) = enc_string s" | "enc_value (VArray a) = enc_array a"
| "enc_value (VUint64 v) = le_bytes 8 (unat v)" | "enc_value (VInt64 v) = le_bytes 8 (unat v)"
| "enc_value (VFloat64 v) = le_bytes 8 (unat v)"

fun value_ok :: "MetadataValue \<Rightarrow> bool" where
  "value_ok (VString s) = string_ok s"
| "value_ok (VArray a) = array_ok a"
| "value_ok _ = True"

abbreviation value_of_type :: "ValueType \<Rightarrow> MetadataValue \<Rightarrow> bool" where
  "value_of_type t v \<equiv> value_type v = t \<and> value_ok v"

lemma value_case:
  assumes "parse_value H t = (\<lambda>inp. mapped C (read inp))" and "item H read ok enc"
    and "\<And>v. value_of_type t v \<longleftrightarrow> (\<exists>w. v = C w \<and> ok w)" and "\<And>w. enc_value (C w) = enc w"
  shows "item H (parse_value H t) (value_of_type t) enc_value"
  unfolding assms(1) item_def by (rule field.constructor [OF assms(2) [unfolded item_def] assms(3,4)])

lemma value_type_iff:
  "value_of_type TUint8 v \<longleftrightarrow> (\<exists>w. v = VUint8 w)" "value_of_type TInt8 v \<longleftrightarrow> (\<exists>w. v = VInt8 w)"
  "value_of_type TUint16 v \<longleftrightarrow> (\<exists>w. v = VUint16 w)" "value_of_type TInt16 v \<longleftrightarrow> (\<exists>w. v = VInt16 w)"
  "value_of_type TUint32 v \<longleftrightarrow> (\<exists>w. v = VUint32 w)" "value_of_type TInt32 v \<longleftrightarrow> (\<exists>w. v = VInt32 w)"
  "value_of_type TFloat32 v \<longleftrightarrow> (\<exists>w. v = VFloat32 w)" "value_of_type TBool v \<longleftrightarrow> (\<exists>w. v = VBool w)"
  "value_of_type TString v \<longleftrightarrow> (\<exists>w. v = VString w \<and> string_ok w)" "value_of_type TArray v \<longleftrightarrow> (\<exists>w. v = VArray w \<and> array_ok w)"
  "value_of_type TUint64 v \<longleftrightarrow> (\<exists>w. v = VUint64 w)" "value_of_type TInt64 v \<longleftrightarrow> (\<exists>w. v = VInt64 w)"
  "value_of_type TFloat64 v \<longleftrightarrow> (\<exists>w. v = VFloat64 w)"
  by (cases v; auto)+

lemmas parse_value_defs = value_type_iff fun_eq_iff parse_value_def parse_narrow_value_def

interpretation metadata: item H "parse_value H t" "value_of_type t" enc_value for H :: "('x, 'r, 'g) GgufHost" and t
proof (cases t)
  case TUint8
  show "item H (parse_value H t) (value_of_type t) enc_value" unfolding TUint8
    by (rule value_case [OF _ u8.item_axioms, where C = VUint8]) (simp_all add: parse_value_defs)
next
  case TInt8
  show "item H (parse_value H t) (value_of_type t) enc_value" unfolding TInt8
    by (rule value_case [OF _ u8.item_axioms, where C = VInt8]) (simp_all add: parse_value_defs)
next
  case TUint16
  show "item H (parse_value H t) (value_of_type t) enc_value" unfolding TUint16
    by (rule value_case [OF _ u16.item_axioms, where C = VUint16]) (simp_all add: parse_value_defs)
next
  case TInt16
  show "item H (parse_value H t) (value_of_type t) enc_value" unfolding TInt16
    by (rule value_case [OF _ u16.item_axioms, where C = VInt16]) (simp_all add: parse_value_defs)
next
  case TUint32
  show "item H (parse_value H t) (value_of_type t) enc_value" unfolding TUint32
    by (rule value_case [OF _ u32.item_axioms, where C = VUint32]) (simp_all add: parse_value_defs)
next
  case TInt32
  show "item H (parse_value H t) (value_of_type t) enc_value" unfolding TInt32
    by (rule value_case [OF _ u32.item_axioms, where C = VInt32]) (simp_all add: parse_value_defs)
next
  case TFloat32
  show "item H (parse_value H t) (value_of_type t) enc_value" unfolding TFloat32
    by (rule value_case [OF _ u32.item_axioms, where C = VFloat32]) (simp_all add: parse_value_defs)
next
  case TBool
  show "item H (parse_value H t) (value_of_type t) enc_value" unfolding TBool
    by (rule value_case [OF _ bool.item_axioms, where C = VBool]) (simp_all add: parse_value_defs)
next
  case TString
  show "item H (parse_value H t) (value_of_type t) enc_value" unfolding TString
    by (rule value_case [OF _ string.item_axioms [of H "''metadata string''"], where C = VString]) (simp_all add: parse_value_defs)
next
  case TArray
  show "item H (parse_value H t) (value_of_type t) enc_value" unfolding TArray
    by (rule value_case [OF _ array.item_axioms, where C = VArray]) (simp_all add: parse_value_defs)
next
  case TUint64
  show "item H (parse_value H t) (value_of_type t) enc_value" unfolding TUint64
    by (rule value_case [OF _ u64.item_axioms, where C = VUint64]) (simp_all add: parse_value_defs)
next
  case TInt64
  show "item H (parse_value H t) (value_of_type t) enc_value" unfolding TInt64
    by (rule value_case [OF _ u64.item_axioms, where C = VInt64]) (simp_all add: parse_value_defs)
next
  case TFloat64
  show "item H (parse_value H t) (value_of_type t) enc_value" unfolding TFloat64
    by (rule value_case [OF _ u64.item_axioms, where C = VFloat64]) (simp_all add: parse_value_defs)
qed


end
