(* ===== verification/Gguf_Format.thy ===== *)
theory Gguf_Format
  imports Gguf_Codec
begin

text \<open>
  The format of a whole GGUF file: entries of the metadata, the tensor table, the header and
  the placement of the tensors (\<open>gguf_bytes\<close>, \<open>placed\<close>), with what the routines of
  \<open>container.rs\<close> that read them accept and return.
\<close>

section \<open>Metadata\<close>

definition enc_entry :: "u8 list \<times> MetadataValue \<Rightarrow> u8 list" where
  "enc_entry e = enc_string (fst e) @ le_bytes 4 (value_type_index (value_type (snd e))) @ enc_value (snd e)"

definition entry_ok :: "u8 list \<times> MetadataValue \<Rightarrow> bool" where
  "entry_ok e \<longleftrightarrow> string_ok (fst e) \<and> value_ok (snd e)"

lemma metadata_loop_calm: "host_laws H \<Longrightarrow> fst (metadata_loop H n m inp) \<noteq> Panic"
  by (induction n arbitrary: m inp) (auto simp: no_panic string.calm u32.calm metadata.calm)

lemma metadata_loop_sound:
  "metadata_loop H n m inp = (Ok m', inp') \<Longrightarrow>
   \<exists>es. length es = n \<and> (\<forall>e\<in>set es. entry_ok e) \<and> distinct (map fst es) \<and> (\<forall>e\<in>set es. bt_get m (fst e) = None) \<and>
     m' = fold (\<lambda>e m. bt_insert (fst e) (snd e) m) es m \<and>
     step H (concat (map enc_entry es)) (length (concat (map enc_entry es)) div 2) inp inp'"
proof (induction n arbitrary: m inp)
  case 0
  then show ?case by simp
next
  case (Suc n)
  obtain k m1 code m2 t v m3 where k: "input_string H ''metadata key'' inp = (Ok k, m1)" and code: "input_u32 m1 = (Ok code, m2)"
    and t: "value_type_try_from code = Ok t" and v: "parse_value H t m2 = (Ok v, m3)" and new: "\<not> bt_contains m k"
    and loop: "metadata_loop H n (bt_insert k v m) m3 = (Ok m', inp')"
    using Suc.prems by (auto simp: try_st_Ok_iff try_pure_Ok_iff split: if_splits)
  obtain es where es: "length es = n" "\<forall>e\<in>set es. entry_ok e" "distinct (map fst es)" "\<forall>e\<in>set es. bt_get (bt_insert k v m) (fst e) = None"
    "m' = fold (\<lambda>e m. bt_insert (fst e) (snd e) m) es (bt_insert k v m)"
    "step H (concat (map enc_entry es)) (length (concat (map enc_entry es)) div 2) m3 inp'"
    using Suc.IH [OF loop] by blast
  have K: "string_ok k" "step H (enc_string k) (length (enc_string k) div 2) inp m1" using string.sound [OF k] by auto
  have V: "value_type v = t" "value_ok v" "step H (enc_value v) (length (enc_value v) div 2) m2 m3" using metadata.sound [OF v] by auto
  have "unat code = value_type_index (value_type v)" using t value_type_roundtrip V(1) by blast
  then have C: "step H (le_bytes 4 (value_type_index (value_type v))) 0 m1 m2" using u32_step [OF code] by simp
  have "step H (enc_entry (k, v)) (length (enc_string k) div 2 + (0 + length (enc_value v) div 2)) inp m3"
    using step_trans [OF K(2) step_trans [OF C V(3)]] by (simp add: enc_entry_def)
  then have "step H (enc_entry (k, v) @ concat (map enc_entry es))
      (length (enc_string k) div 2 + (0 + length (enc_value v) div 2) + length (concat (map enc_entry es)) div 2) inp inp'"
    using step_trans es(6) by blast
  then have "step H (concat (map enc_entry ((k, v) # es))) (length (concat (map enc_entry ((k, v) # es))) div 2) inp inp'"
    by (auto simp: enc_entry_def elim!: step_more)
  moreover have "k \<notin> fst ` set es" using es(4) by auto
  moreover have "\<forall>e\<in>set es. bt_get m (fst e) = None" using es(4) by (auto split: if_splits)
  ultimately show ?case using es K(1) V(2) new
    by (intro exI [of _ "(k, v) # es"]) (auto simp: entry_ok_def bt_contains_def)
qed

lemma metadata_loop_complete:
  assumes g: "generous H"
  shows "ready H j inp \<Longrightarrow> \<forall>e\<in>set es. entry_ok e \<Longrightarrow> distinct (map fst es) \<Longrightarrow> \<forall>e\<in>set es. bt_get m (fst e) = None \<Longrightarrow>
    in_reader inp = concat (map enc_entry es) @ rest \<Longrightarrow>
    \<exists>inp'. metadata_loop H (length es) m inp = (Ok (fold (\<lambda>e m. bt_insert (fst e) (snd e) m) es m), inp') \<and>
      step H (concat (map enc_entry es)) (length (concat (map enc_entry es)) div 2) inp inp'"
proof (induction es arbitrary: m inp j)
  case Nil
  then show ?case by simp
next
  case (Cons e es)
  obtain k v where e: "e = (k, v)" by (cases e)
  let ?rest = "concat (map enc_entry es) @ rest" and ?c = "of_nat (value_type_index (value_type v)) :: u32"
  have uc: "unat ?c = value_type_index (value_type v)" by (rule type_code [OF value_type_bound])
  have r: "in_reader inp = enc_string k @ (le_bytes 4 (unat ?c) @ (enc_value v @ ?rest))"
    using Cons.prems(5) by (simp add: e uc) (simp add: enc_entry_def [of "(k, v)"])
  have ok: "string_ok k" "value_ok v" using Cons.prems(2) by (auto simp: e entry_ok_def)
  obtain m1 where m1: "input_string H ''metadata key'' inp = (Ok k, m1)" "in_reader m1 = le_bytes 4 (unat ?c) @ (enc_value v @ ?rest)"
    "ready H (j + length (enc_string k) div 2) m1" "step H (enc_string k) (0 + length (enc_string k) div 2) inp m1" using string.forward [OF g _ ok(1) r, of j] Cons.prems(1) by auto
  obtain m2 where m2: "input_u32 m1 = (Ok ?c, m2)" "in_reader m2 = enc_value v @ ?rest" "ready H (j + length (enc_string k) div 2 + 4 div 2) m2"
    "step H (le_bytes 4 (unat ?c)) (0 + length (le_bytes 4 (unat ?c)) div 2) m1 m2"
    using u32.forward [OF g _ TrueI m1(2), of "j + length (enc_string k) div 2"] m1(3) by auto
  obtain m3 where m3: "parse_value H (value_type v) m2 = (Ok v, m3)" "in_reader m3 = ?rest"
    "ready H (j + length (enc_string k) div 2 + 4 div 2 + length (enc_value v) div 2) m3"
    "step H (enc_value v) (0 + length (enc_value v) div 2) m2 m3"
    using metadata.forward [OF g _ _ m2(2), of _ "value_type v"] m2(3) ok(2) by (metis add_0_right)
  have "bt_get (bt_insert k v m) (fst f) = None" if "f \<in> set es" for f using Cons.prems(3,4) that by (auto simp: e)
  then obtain inp' where loop: "metadata_loop H (length es) (bt_insert k v m) m3 = (Ok (fold (\<lambda>e m. bt_insert (fst e) (snd e) m) es (bt_insert k v m)), inp')"
    and tail: "step H (concat (map enc_entry es)) (length (concat (map enc_entry es)) div 2) m3 inp'"
    using Cons.IH [OF m3(3), of "bt_insert k v m"] Cons.prems(2,3) m3(2) by auto
  from step_trans [OF m1(4) step_trans [OF m2(4) step_trans [OF m3(4) tail]]]
  have "step H (concat (map enc_entry (e # es))) (length (concat (map enc_entry (e # es))) div 2) inp inp'"
    by (auto simp: e enc_entry_def [of "(k, v)"] uc elim!: step_more)
  moreover have "value_type_try_from ?c = Ok (value_type v)" using value_type_roundtrip uc by blast
  moreover have "\<not> bt_contains m k" using Cons.prems(4) by (simp add: bt_contains_def e)
  ultimately show ?case using loop m1(1) m2(1) m3(1) by (simp add: e)
qed

section \<open>Moves\<close>

text \<open>A step after which more reservations may be held.\<close>

definition moves :: "('x, 'r, 'g) GgufHost \<Rightarrow> u8 list \<Rightarrow> nat \<Rightarrow> ('x, 'r, 'g) Input \<Rightarrow> ('x, 'r, 'g) Input \<Rightarrow> bool" where
  "moves H bs k inp inp' \<longleftrightarrow>
     in_reader inp = bs @ in_reader inp' \<and> unat (in_position inp') = unat (in_position inp) + length bs \<and>
     in_file_len inp' = in_file_len inp \<and>
     unat (in_guard_metadata_used inp') \<le> unat (in_guard_metadata_used inp) + k \<and>
     (host_laws H \<longrightarrow> ledger H inp \<longrightarrow> ledger H inp')"

lemma step_moves: "step H bs k inp inp' \<Longrightarrow> moves H bs k inp inp'"
  by (simp add: step_def moves_def)

lemma moves_trans: "moves H a k x y \<Longrightarrow> moves H b l y z \<Longrightarrow> moves H (a @ b) (k + l) x z"
  by (auto simp: moves_def)

lemma ready_moves: "ready H k inp \<Longrightarrow> moves H bs c inp inp' \<Longrightarrow> generous H \<Longrightarrow> l + c \<le> k + length bs \<Longrightarrow> ready H l inp'"
  by (auto simp: ready_def moves_def generous_laws)

lemma reserve_ordered_world:
  "reserve_ordered_collection H w n what inp = (Ok r, inp') \<Longrightarrow> step H [] 0 inp inp'"
  by (cases "n = 0") (auto simp: reserve_ordered_collection_def try_st_Ok_iff try_pure_Ok_iff dest!: reserve_Ok)

lemma parse_metadata_calm: "host_laws H \<Longrightarrow> fst (parse_metadata H n inp) \<noteq> Panic"
  by (auto simp: parse_metadata_def no_panic metadata_loop_calm reserve_ordered_collection_def retain_reservation_def
      split: option.splits if_splits)

lemma parse_metadata_sound:
  assumes "parse_metadata H n inp = (Ok m, inp')"
  shows "\<exists>es. length es = unat n \<and> (\<forall>e\<in>set es. entry_ok e) \<and> distinct (map fst es) \<and> m = bt_collect es \<and>
    moves H (concat (map enc_entry es)) (length (concat (map enc_entry es)) div 2) inp inp'"
proof -
  obtain r a b where a: "reserve_ordered_collection H (gh_entry_size H) n ''metadata map'' inp = (Ok r, a)"
    and b: "metadata_loop H (unat n) [] a = (Ok m, b)"
    and last: "(case r of None \<Rightarrow> (Ok m, b) | Some r \<Rightarrow> try_st (retain_reservation r b) (\<lambda>_ inp. (Ok m, inp))) = (Ok m, inp')"
    using assms by (auto simp: parse_metadata_def try_st_Ok_iff split: option.splits)
  obtain es where es: "length es = unat n" "\<forall>e\<in>set es. entry_ok e" "distinct (map fst es)" "m = bt_collect es"
    "step H (concat (map enc_entry es)) (length (concat (map enc_entry es)) div 2) a b"
    using metadata_loop_sound [OF b] by (auto simp: bt_collect_def)
  have "moves H [] 0 b inp'" using last
    by (auto simp: moves_def ledger_def try_st_Ok_iff dest!: retain_Ok split: option.splits)
  with moves_trans [OF step_moves [OF reserve_ordered_world [OF a]] step_moves [OF es(5)]]
  have "moves H (concat (map enc_entry es)) (length (concat (map enc_entry es)) div 2) inp inp'"
    using moves_trans by fastforce
  then show ?thesis using es by blast
qed

lemma ordered_bytes_run:
  assumes "w < 4096" and "unat n \<le> 2 ^ 24"
  shows "\<exists>b. ordered_collection_bytes w n what = Ok b"
proof -
  have uw: "unat (of_nat w :: u64) = w" using assms(1) by (simp add: unsigned_of_nat take_bit_nat_eq_self)
  have m: "checked_mul (of_nat w :: u64) 8 = Some (of_nat w * 8)" using assms(1) uw by (simp add: checked_mul_def)
  have um: "unat (of_nat w * 8 :: u64) = w * 8" using checked_mul_unat [OF m] uw by simp
  have a: "checked_add (of_nat w * 8 :: u64) 128 = Some (of_nat w * 8 + 128)" using assms(1) um by (simp add: checked_add_def)
  have ua: "unat (of_nat w * 8 + 128 :: u64) = w * 8 + 128" using checked_add_unat [OF a] um by simp
  have "unat n * (w * 8 + 128) \<le> 2 ^ 24 * (4096 * 8 + 128)" by (rule mult_le_mono) (use assms in auto)
  then have "checked_mul n (of_nat w * 8 + 128) \<noteq> None" using ua by (simp add: checked_mul_def)
  then show ?thesis using assms(1) m a
    by (auto simp: ordered_collection_bytes_def u64_of_def overflow_def ORDERED_NODE_ENTRY_FACTOR_def ORDERED_NODE_OVERHEAD_BYTES_def)
qed

lemma parse_metadata_complete:
  assumes g: "generous H" and r: "ready H j inp" and es: "\<forall>e\<in>set es. entry_ok e" "distinct (map fst es)" "length es \<le> 2 ^ 24"
    and rest: "in_reader inp = concat (map enc_entry es) @ rest"
    and free: "length (in_reservations inp) < PARSER_MAX_RETAINED_RESERVATION_WRAPPERS"
  shows "\<exists>inp'. parse_metadata H (of_nat (length es)) inp = (Ok (bt_collect es), inp') \<and>
    moves H (concat (map enc_entry es)) (length (concat (map enc_entry es)) div 2) inp inp'"
proof -
  let ?n = "of_nat (length es) :: u64"
  have un: "unat ?n = length es" using es(3) by (simp add: unsigned_of_nat take_bit_nat_eq_self)
  obtain b where b: "ordered_collection_bytes (gh_entry_size H) ?n ''metadata map'' = Ok b"
    using ordered_bytes_run [OF generous_sizes(6) [OF g]] es(3) un by metis
  obtain q a where a: "reserve_ordered_collection H (gh_entry_size H) ?n ''metadata map'' inp = (Ok q, a)"
    using reserve_run [OF g, of b "''metadata map''" inp] b by (fastforce simp: reserve_ordered_collection_def)
  have s: "step H [] 0 inp a" by (rule reserve_ordered_world [OF a])
  have "ready H j a" "in_reader a = concat (map enc_entry es) @ rest" using ready_step [OF r s g] s rest by (simp_all add: step_def)
  from metadata_loop_complete [OF g this(1) es(1,2) _ this(2)] obtain c where
    c: "metadata_loop H (length es) [] a = (Ok (bt_collect es), c)"
      "step H (concat (map enc_entry es)) (length (concat (map enc_entry es)) div 2) a c"
    unfolding bt_collect_def by (metis (no_types, lifting) bt_get_Nil)
  then have "in_reservations c = in_reservations inp" using g s by (simp add: step_def)
  then obtain d where d: "parse_metadata H ?n inp = (Ok (bt_collect es), d)" "d = c \<or> (\<exists>q. d = c\<lparr>in_reservations := q\<rparr>)"
    "length (in_reservations d) \<le> PARSER_MAX_RETAINED_RESERVATION_WRAPPERS"
    using a c free un by (cases q) (auto simp: parse_metadata_def retain_reservation_def)
  have "moves H [] 0 c d" using d(2,3) by (auto simp: moves_def ledger_def)
  from moves_trans [OF step_moves [OF s] moves_trans [OF step_moves [OF c(2)] this]] show ?thesis using d(1) by simp
qed

section \<open>Tensors\<close>

definition enc_shape :: "u64 list \<Rightarrow> u8 list" where
  "enc_shape ds = le_bytes 4 (length ds) @ concat (map (\<lambda>d. le_bytes 8 (unat d)) ds)"

definition shape_ok :: "u64 list \<Rightarrow> bool" where
  "shape_ok ds \<longleftrightarrow> 1 \<le> length ds \<and> length ds \<le> 4 \<and> 0 \<notin> set ds"

definition enc_tensor :: "TensorInfo \<Rightarrow> u8 list" where
  "enc_tensor t = enc_string (ti_name t) @ enc_shape (ti_shape t) @ le_bytes 4 (unat (ti_dtype t)) @ le_bytes 8 (unat (ti_offset t))"

definition tensor_ok :: "u32 \<Rightarrow> TensorInfo \<Rightarrow> bool" where
  "tensor_ok alignment t \<longleftrightarrow>
     string_ok (ti_name t) \<and> shape_ok (ti_shape t) \<and> unat (ti_offset t) mod unat alignment = 0 \<and>
     tensor_bytes (ti_name t) (ti_shape t) (ti_dtype t) = Ok (ti_n_bytes t)"

lemma shape_loop_calm: "host_laws H \<Longrightarrow> fst (shape_loop n name inp) \<noteq> Panic"
  for H :: "('x, 'r, 'g) GgufHost" and inp :: "('x, 'r, 'g) Input"
  by (induction n arbitrary: inp) (auto simp: no_panic u64.calm)

lemma shape_loop_sound:
  "shape_loop n name inp = (Ok ds, inp') \<Longrightarrow> length ds = n \<and> 0 \<notin> set ds \<and>
   step H (concat (map (\<lambda>d. le_bytes 8 (unat d)) ds)) (length (concat (map (\<lambda>d. le_bytes 8 (unat d)) ds)) div 2) inp inp'"
proof (induction n arbitrary: inp ds)
  case (Suc n)
  obtain d m es where d: "input_u64 inp = (Ok d, m)" "d \<noteq> 0" and es: "shape_loop n name m = (Ok es, inp')" "ds = d # es"
    using Suc.prems by (auto simp: try_st_Ok_iff split: if_splits)
  have D: "step H (le_bytes 8 (unat d)) (0 + length (le_bytes 8 (unat d)) div 2) inp m" using u64.sound [OF d(1)] by blast
  note I = Suc.IH [OF es(1)]
  from step_trans [OF D conjunct2 [OF conjunct2 [OF I]]]
  have "step H (concat (map (\<lambda>d. le_bytes 8 (unat d)) ds)) (length (concat (map (\<lambda>d. le_bytes 8 (unat d)) ds)) div 2) inp inp'"
    by (auto simp: es(2) elim!: step_more)
  then show ?case using I d(2) es(2) by simp
qed simp

lemma shape_loop_complete:
  assumes g: "generous H"
  shows "ready H j inp \<Longrightarrow> 0 \<notin> set ds \<Longrightarrow> in_reader inp = concat (map (\<lambda>d. le_bytes 8 (unat d)) ds) @ rest \<Longrightarrow>
   \<exists>inp'. shape_loop (length ds) name inp = (Ok ds, inp')"
proof (induction ds arbitrary: inp j)
  case (Cons d ds)
  obtain m where "input_u64 inp = (Ok d, m)" "in_reader m = concat (map (\<lambda>d. le_bytes 8 (unat d)) ds) @ rest"
    "ready H (j + length (le_bytes 8 (unat d)) div 2) m"
    using u64.forward [OF g _ TrueI, of j inp d "concat (map (\<lambda>d. le_bytes 8 (unat d)) ds) @ rest"] Cons.prems by auto
  then show ?case using Cons.IH Cons.prems(2) by fastforce
qed simp

lemma parse_shape_calm: "host_laws H \<Longrightarrow> fst (parse_shape H name inp) \<noteq> Panic"
  by (auto simp: parse_shape_def no_panic shape_loop_calm u32.calm)

lemma parse_shape_sound:
  assumes "parse_shape H name inp = (Ok ds, inp')"
  shows "shape_ok ds \<and> step H (enc_shape ds) (length (enc_shape ds) div 2) inp inp'"
proof -
  let ?enc = "concat (map (\<lambda>d. le_bytes 8 (unat d)) ds)"
  obtain w a b where w: "input_u32 inp = (Ok w, a)" "1 \<le> w" "w \<le> 4" and b: "allocate_vec H 8 (unat w) ''tensor shape'' a = (Ok (), b)"
    and ds: "shape_loop (unat w) name b = (Ok ds, inp')"
    using assms by (auto simp: parse_shape_def try_st_Ok_iff split: if_splits)
  note D = shape_loop_sound [OF ds, of H]
  have "step H (le_bytes 4 (unat w)) 0 inp a" by (rule u32_step [OF w(1)])
  from step_trans [OF this step_trans [OF allocate_vec_Ok [OF b] conjunct2 [OF conjunct2 [OF D]]]]
  have "step H (enc_shape ds) (0 + (min (unat w) 1 + length ?enc div 2)) inp inp'" using D by (simp add: enc_shape_def)
  then have "step H (enc_shape ds) (length (enc_shape ds) div 2) inp inp'" by (rule step_more) (simp add: enc_shape_def)
  then show ?thesis using D w(2,3) by (simp add: shape_ok_def word_le_nat_alt)
qed

lemma parse_shape_complete:
  assumes g: "generous H" and r: "ready H j inp" and ds: "shape_ok ds" and rest: "in_reader inp = enc_shape ds @ rest"
  shows "\<exists>inp'. parse_shape H name inp = (Ok ds, inp')"
proof -
  let ?enc = "concat (map (\<lambda>d. le_bytes 8 (unat d)) ds)" and ?w = "of_nat (length ds) :: u32"
  have l: "1 \<le> length ds" "length ds \<le> 4" using ds by (auto simp: shape_ok_def)
  have uw: "unat ?w = length ds" by (rule type_code) (use l in simp)
  obtain a where a: "input_u32 inp = (Ok ?w, a)" "in_reader a = ?enc @ rest" "ready H (j + length (le_bytes 4 (unat ?w)) div 2) a"
    using u32.forward [OF g _ TrueI, of j inp ?w "?enc @ rest"] r rest by (auto simp: enc_shape_def uw)
  obtain b where b: "allocate_vec H 8 (length ds) ''tensor shape'' a = (Ok (), b)"
    using allocate_vec_run [OF g, of a 8 "length ds"] ready_used [OF a(3)] l by auto
  have s: "step H [] (min (length ds) 1) a b" by (rule allocate_vec_Ok [OF b])
  have "ready H 0 b" by (rule ready_step [OF a(3) s g]) simp
  moreover have "in_reader b = ?enc @ rest" using s a(2) by (simp add: step_def)
  ultimately obtain c where "shape_loop (length ds) name b = (Ok ds, c)"
    using shape_loop_complete [OF g, of 0 b ds rest name] ds by (auto simp: shape_ok_def)
  moreover have "1 \<le> ?w \<and> ?w \<le> 4" using l uw by (simp add: word_le_nat_alt)
  ultimately show ?thesis using a(1) b uw by (simp add: parse_shape_def)
qed

lemma clone_string_Ok:
  assumes "clone_string H v what inp = (Ok (c, g), inp')"
  shows "c = v \<and> step H [] (min 1 (length v)) inp inp'"
proof (cases "v = []")
  case True
  then show ?thesis using assms by (simp add: clone_string_def)
next
  case False
  obtain n r a b d y where r: "reserve H n what inp = (Ok r, a)" and b: "reserve_guard_metadata H False a = (Ok (), b)"
    and d: "try_alloc H 1 (length v) what b = (Ok (), d)" and e: "budget_call (gh_commit H r) d = (Ok y, inp')" and c: "c = v"
    using assms False by (auto simp: clone_string_def try_st_Ok_iff try_pure_Ok_iff)
  have "step H [] 0 inp a" using reserve_Ok [OF r] by auto
  moreover have "step H [] 0 b d" using try_alloc_Ok [OF d] by auto
  ultimately have "step H ([] @ [] @ [] @ []) (0 + (1 + (0 + 0))) inp inp'"
    using reserve_guard_Ok(1) [OF b] budget_call_Ok(1) [OF e] step_trans by metis
  then show ?thesis using c False by (cases v) simp_all
qed

lemma clone_string_calm: "host_laws H \<Longrightarrow> fst (clone_string H v what inp) \<noteq> Panic"
  by (auto simp: clone_string_def no_panic)

lemma clone_string_run:
  assumes g: "generous H" and r: "ready H j inp" and v: "string_ok v"
  shows "\<exists>y inp'. clone_string H v what inp = (Ok (v, y), inp')"
proof (cases "v = []")
  case True
  then show ?thesis by (simp add: clone_string_def)
next
  case False
  have n: "length v < 2 ^ 64" using v by (simp add: string_ok_def MAX_STRING_LEN_def)
  obtain q x where q: "reserve H (of_nat (length v)) what inp = (Ok q, inp\<lparr>in_world := x\<rparr>)" using reserve_run [OF g] by blast
  have "ledger H (inp\<lparr>in_world := x\<rparr>)" "unat (in_guard_metadata_used (inp\<lparr>in_world := x\<rparr>)) < 2 ^ 50"
    using ready_used [OF r] by (simp_all add: ledger_def)
  from reserve_guard_run [OF g this] obtain b where b: "reserve_guard_metadata H False (inp\<lparr>in_world := x\<rparr>) = (Ok (), b)" by blast
  obtain y where y: "try_alloc H 1 (length v) what b = (Ok (), b\<lparr>in_world := y\<rparr>)" using try_alloc_run [OF g] by blast
  obtain z w where "budget_call (gh_commit H q) (b\<lparr>in_world := y\<rparr>) = (Ok z, b\<lparr>in_world := y\<rparr>\<lparr>in_world := w\<rparr>)" using commit_guard_run [OF g] by blast
  then show ?thesis using q b y False n by (simp add: clone_string_def u64_of_def overflow_def)
qed


lemma tensor_bytes_calm: "shape_ok ds \<Longrightarrow> tensor_bytes name ds t \<noteq> Panic"
proof -
  assume ds: "shape_ok ds"
  have product: "product_from a vs w \<noteq> Panic" for a vs w by (induction vs arbitrary: a) (auto simp: no_panic)
  show ?thesis using ds by (auto simp: tensor_bytes_def no_panic at_index_def slice_def checked_product_def product shape_ok_def)
qed

lemma parse_tensor_calm: "host_laws H \<Longrightarrow> fst (parse_tensor H names al inp) \<noteq> Panic"
  by (auto simp: parse_tensor_def no_panic string.calm clone_string_calm parse_shape_calm u32.calm u64.calm Let_def)
    (metis parse_shape_sound tensor_bytes_calm)

lemma unat_ucast_mod: "offset mod ucast al = 0 \<longleftrightarrow> unat offset mod unat al = 0" for offset :: u64 and al :: u32
  by (simp add: word_unat_eq_iff unat_mod)

lemma parse_tensor_sound:
  assumes "parse_tensor H names al inp = (Ok (t, names'), inp')"
  shows "tensor_ok al t \<and> ti_name t \<notin> set (map gs_value names) \<and> map gs_value names' = map gs_value names @ [ti_name t] \<and>
    step H (enc_tensor t) (length (enc_tensor t) div 2) inp inp'"
proof -
  obtain name a c g b ds d dtype e offset n where a: "input_string H ''tensor name'' inp = (Ok name, a)" "name \<notin> set (map gs_value names)"
    and b: "clone_string H name ''tensor name index'' a = (Ok (c, g), b)"
    and d: "parse_shape H name b = (Ok ds, d)" and e: "input_u32 d = (Ok dtype, e)"
    and f: "input_u64 e = (Ok offset, inp')" "offset mod ucast al = 0" and n: "tensor_bytes name ds dtype = Ok n"
    and t: "t = \<lparr>ti_name = name, ti_shape = ds, ti_dtype = dtype, ti_offset = offset, ti_n_bytes = n\<rparr>"
    and names': "names' = names @ [\<lparr>gs_value = c, gs_allocation = g\<rparr>]"
    using assms by (auto simp: parse_tensor_def try_st_Ok_iff try_pure_Ok_iff Let_def split: if_splits del: mod_0_imp_dvd)
  have A: "string_ok name" "step H (enc_string name) (length (enc_string name) div 2) inp a" using string.sound [OF a(1)] by auto
  have B: "c = name" "step H [] (min 1 (length name)) a b" using clone_string_Ok [OF b] by auto
  have D: "shape_ok ds" "step H (enc_shape ds) (length (enc_shape ds) div 2) b d" using parse_shape_sound [OF d] by auto
  have F: "step H (le_bytes 8 (unat offset)) (0 + length (le_bytes 8 (unat offset)) div 2) e inp'" using u64.sound [OF f(1)] by blast
  have "step H (le_bytes 4 (unat dtype)) 0 d e" by (rule u32_step [OF e])
  from step_trans [OF A(2) step_trans [OF B(2) step_trans [OF D(2) step_trans [OF this F]]]]
  have "step H (enc_tensor t) (length (enc_tensor t) div 2) inp inp'"
    by (auto simp: enc_tensor_def t elim!: step_more)
  then show ?thesis using A(1) D(1) f(2) n a(2) B(1) unat_ucast_mod [of offset al] by (simp add: tensor_ok_def t names')
qed

lemma parse_tensor_complete:
  assumes g: "generous H" and r: "ready H j inp" and t: "tensor_ok al t" "ti_name t \<notin> set (map gs_value names)"
    and rest: "in_reader inp = enc_tensor t @ rest"
  shows "\<exists>names' inp'. parse_tensor H names al inp = (Ok (t, names'), inp')"
proof -
  let ?r4 = "le_bytes 8 (unat (ti_offset t)) @ rest"
  let ?r3 = "le_bytes 4 (unat (ti_dtype t)) @ ?r4"
  let ?r2 = "enc_shape (ti_shape t) @ ?r3"
  have ok: "string_ok (ti_name t)" "shape_ok (ti_shape t)" using t(1) by (simp_all add: tensor_ok_def)
  obtain a where a: "input_string H ''tensor name'' inp = (Ok (ti_name t), a)" "in_reader a = ?r2"
    "ready H (j + length (enc_string (ti_name t)) div 2) a"
    using string.forward [OF g _ ok(1), of j inp ?r2] r rest by (auto simp: enc_tensor_def)
  obtain y b where b: "clone_string H (ti_name t) ''tensor name index'' a = (Ok (ti_name t, y), b)"
    using clone_string_run [OF g a(3) ok(1)] by blast
  have B: "step H [] (min 1 (length (ti_name t))) a b" using clone_string_Ok [OF b] by simp
  have rb: "ready H 0 b" by (rule ready_step [OF a(3) B g]) (simp add: enc_string_def)
  have ib: "in_reader b = ?r2" using B a(2) by (simp add: step_def)
  obtain d where d: "parse_shape H (ti_name t) b = (Ok (ti_shape t), d)" using parse_shape_complete [OF g rb ok(2) ib] by blast
  have D: "step H (enc_shape (ti_shape t)) (length (enc_shape (ti_shape t)) div 2) b d" using parse_shape_sound [OF d] by simp
  have rd: "ready H (0 + 0) d" by (rule ready_step [OF rb D g]) simp
  have id: "in_reader d = ?r3" using D ib by (simp add: step_def)
  obtain e where e: "input_u32 d = (Ok (ti_dtype t), e)" "in_reader e = ?r4" "ready H (0 + length (le_bytes 4 (unat (ti_dtype t))) div 2) e"
    using u32.forward [OF g rd TrueI id] by blast
  have "ready H (0 + 0) e" using ready_more [OF e(3)] by simp
  then obtain f where "input_u64 e = (Ok (ti_offset t), f)" using u64.forward [OF g _ TrueI e(2)] by blast
  then show ?thesis using a(1) t b d e(1) by (simp add: parse_tensor_def tensor_ok_def unat_ucast_mod Let_def)
qed

lemma tensors_loop_calm: "host_laws H \<Longrightarrow> fst (tensors_loop H n names al inp) \<noteq> Panic"
  by (induction n arbitrary: names inp) (auto simp: no_panic parse_tensor_calm)

lemma tensors_loop_sound:
  "tensors_loop H n names al inp = (Ok (ts, names'), inp') \<Longrightarrow>
   length ts = n \<and> (\<forall>t\<in>set ts. tensor_ok al t) \<and> distinct (map ti_name ts) \<and> set (map ti_name ts) \<inter> set (map gs_value names) = {} \<and>
   step H (concat (map enc_tensor ts)) (length (concat (map enc_tensor ts)) div 2) inp inp'"
proof (induction n arbitrary: names inp ts)
  case (Suc n)
  obtain t names1 a us where t: "parse_tensor H names al inp = (Ok (t, names1), a)"
    and us: "tensors_loop H n names1 al a = (Ok (us, names'), inp')" "ts = t # us"
    using Suc.prems by (auto simp: try_st_Ok_iff)
  note T = parse_tensor_sound [OF t] and I = Suc.IH [OF us(1)]
  have "step H (concat (map enc_tensor ts)) (length (concat (map enc_tensor ts)) div 2) inp inp'"
  proof -
    have "step H (enc_tensor t @ concat (map enc_tensor us)) (length (enc_tensor t) div 2 + length (concat (map enc_tensor us)) div 2) inp inp'"
      using step_trans T I by blast
    then show ?thesis by (auto simp: us(2) elim!: step_more)
  qed
  moreover have "set (map gs_value names1) = insert (ti_name t) (set (map gs_value names))" using T by simp
  ultimately show ?case using T I us(2) by auto
qed simp

lemma tensors_loop_complete:
  assumes g: "generous H"
  shows "ready H j inp \<Longrightarrow> \<forall>t\<in>set ts. tensor_ok al t \<Longrightarrow> distinct (map ti_name ts) \<Longrightarrow>
    set (map ti_name ts) \<inter> set (map gs_value names) = {} \<Longrightarrow> in_reader inp = concat (map enc_tensor ts) @ rest \<Longrightarrow>
    \<exists>names' inp'. tensors_loop H (length ts) names al inp = (Ok (ts, names'), inp')"
proof (induction ts arbitrary: names inp j)
  case (Cons t ts)
  have r: "in_reader inp = enc_tensor t @ (concat (map enc_tensor ts) @ rest)" using Cons.prems(5) by simp
  obtain names1 a where a: "parse_tensor H names al inp = (Ok (t, names1), a)"
    using parse_tensor_complete [OF g Cons.prems(1) _ _ r, of al names] Cons.prems(2,4) by auto
  note T = parse_tensor_sound [OF a]
  have s: "step H (enc_tensor t) (length (enc_tensor t) div 2) inp a" using T by blast
  have "ready H 0 a" by (rule ready_step [OF Cons.prems(1) s g]) simp
  moreover have "in_reader a = concat (map enc_tensor ts) @ rest" using s r by (simp add: step_def)
  moreover have "set (map gs_value names1) = insert (ti_name t) (set (map gs_value names))" using T by simp
  ultimately obtain names' b where "tensors_loop H (length ts) names1 al a = (Ok (ts, names'), b)"
    using Cons.IH [of 0 a names1] Cons.prems(2,3,4) by auto
  then show ?case using a by simp
qed simp

lemma tensor_names_world: "tensor_names_new H n inp = (Ok r, inp') \<Longrightarrow> step H [] 0 inp inp'"
proof -
  assume "tensor_names_new H n inp = (Ok r, inp')"
  then obtain w a where a: "reserve_hash_collection H (gh_name_size H) w ''tensor names'' inp = (Ok r, a)"
    "try_alloc H (gh_name_size H) n ''tensor names'' a = (Ok (), inp')"
    by (auto simp: tensor_names_new_def try_st_Ok_iff try_pure_Ok_iff)
  have "step H [] 0 inp a" using a(1)
    by (cases "w = 0") (auto simp: reserve_hash_collection_def try_st_Ok_iff try_pure_Ok_iff dest!: reserve_Ok)
  moreover have "step H [] 0 a inp'" using try_alloc_Ok [OF a(2)] by auto
  ultimately show ?thesis using step_trans by fastforce
qed

lemma drop_names_step: "step H [] 0 inp (drop_names H names r inp)"
  by (simp add: drop_names_def drop_world)

lemma parse_tensors_calm: "host_laws H \<Longrightarrow> fst (parse_tensors H n al inp) \<noteq> Panic"
proof -
  assume laws: "host_laws H"
  have "fst (tensor_names_new H k mid) \<noteq> Panic" for k mid
    using laws by (auto simp: tensor_names_new_def no_panic reserve_hash_collection_def)
  then show ?thesis using laws
    by (auto simp: parse_tensors_def no_panic tensors_loop_calm ensure_tensor_descriptors_fit_def)
qed

lemma parse_tensors_sound:
  assumes "parse_tensors H n al inp = (Ok ts, inp')"
  shows "length ts = unat n \<and> (\<forall>t\<in>set ts. tensor_ok al t) \<and> distinct (map ti_name ts) \<and>
   step H (concat (map enc_tensor ts)) (1 + length (concat (map enc_tensor ts)) div 2) inp inp'"
proof -
  obtain a b r c names where a: "allocate_vec H (gh_tensor_size H) (unat n) ''tensor descriptors'' inp = (Ok (), a)"
    and b: "tensor_names_new H (unat n) a = (Ok r, b)" and c: "tensors_loop H (unat n) [] al b = (Ok (ts, names), c)"
    and inp': "inp' = drop_names H names r c"
    using assms by (auto simp: parse_tensors_def try_st_Ok_iff try_pure_Ok_iff usize_of_def overflow_def split: if_splits)
  note C = tensors_loop_sound [OF c]
  have A: "step H [] 1 inp a" by (rule step_more [OF allocate_vec_Ok [OF a]]) simp
  have S: "step H (concat (map enc_tensor ts)) (length (concat (map enc_tensor ts)) div 2) b c" using C by blast
  from step_trans [OF A step_trans [OF tensor_names_world [OF b] step_trans [OF S drop_names_step [of H c names r]]]] C inp'
  show ?thesis by simp
qed


lemma power_from_run:
  "unat p = 2 ^ i \<Longrightarrow> i \<le> k \<Longrightarrow> k < 64 \<Longrightarrow> unat w \<le> 2 ^ k \<Longrightarrow> k < n + i \<Longrightarrow>
   \<exists>q. power_from n p w = Some q \<and> unat q \<le> 2 ^ k"
proof (induction n arbitrary: p i)
  case (Suc n)
  show ?case
  proof (cases "w \<le> p")
    case True
    then show ?thesis using Suc.prems by simp
  next
    case False
    then have "i < k" using Suc.prems(1,2,4) by (cases "i = k") (auto simp: word_le_nat_alt)
    then have "(2::nat) ^ Suc i \<le> 2 ^ 63" using Suc.prems(3) by (intro power_increasing) auto
    then have "unat (p * 2) = 2 ^ Suc i" using Suc.prems(1) by (simp add: unat_word_ariths take_bit_nat_eq_self)
    then show ?thesis using Suc.IH [of "p * 2" "Suc i"] Suc.prems \<open>i < k\<close> False by simp
  qed
qed simp

lemma hash_bytes_run:
  assumes "w < 4096" and "unat n \<le> 2 ^ 24"
  shows "\<exists>b. hash_collection_bytes w n what = Ok b"
proof (cases "n = 0")
  case False
  let ?m = "max n 4"
  have um: "unat ?m \<le> 2 ^ 24" using assms(2) by (simp add: unat_max)
  have mul: "checked_mul ?m HASH_BUCKET_FACTOR = Some (?m * HASH_BUCKET_FACTOR)" using um by (simp add: checked_mul_def HASH_BUCKET_FACTOR_def)
  have "unat (?m * HASH_BUCKET_FACTOR) = unat ?m * 2" using checked_mul_unat [OF mul] by (simp add: HASH_BUCKET_FACTOR_def)
  then have "unat (?m * HASH_BUCKET_FACTOR) \<le> 2 ^ 25" using um by simp
  then obtain q where q: "checked_next_power_of_two (?m * HASH_BUCKET_FACTOR) = Some q" "unat q \<le> 2 ^ 25"
    using power_from_run [of 1 0 25 "?m * HASH_BUCKET_FACTOR" 64] by (auto simp: checked_next_power_of_two_def)
  have uw: "unat (of_nat w :: u64) = w" using assms(1) by (simp add: unsigned_of_nat take_bit_nat_eq_self)
  have add: "checked_add (of_nat w :: u64) 1 = Some (of_nat w + 1)" using uw assms(1) by (simp add: checked_add_def)
  have us: "unat (of_nat w + 1 :: u64) = w + 1" using checked_add_unat [OF add] uw by simp
  have le: "unat q * (w + 1) \<le> 2 ^ 25 * 4096" by (rule mult_le_mono) (use q(2) assms(1) in auto)
  then have m2: "checked_mul q (of_nat w + 1) = Some (q * (of_nat w + 1))" using us by (simp add: checked_mul_def)
  have "unat (q * (of_nat w + 1)) = unat q * (w + 1)" using checked_mul_unat [OF m2] us by simp
  then have "checked_add (q * (of_nat w + 1)) HASH_CONTROL_AND_ALIGNMENT_BYTES \<noteq> None"
    using le by (simp add: checked_add_def HASH_CONTROL_AND_ALIGNMENT_BYTES_def)
  then show ?thesis using False mul q(1) add m2 assms(1)
    by (auto simp: hash_collection_bytes_def overflow_def u64_of_def)
qed (simp add: hash_collection_bytes_def)

lemma enc_tensor_length: "shape_ok (ti_shape t) \<Longrightarrow> 32 \<le> length (enc_tensor t)"
proof -
  assume "shape_ok (ti_shape t)"
  then obtain d ds where "ti_shape t = d # ds" by (cases "ti_shape t") (auto simp: shape_ok_def)
  then show ?thesis by (simp add: enc_tensor_def enc_shape_def enc_string_def)
qed

lemma parse_tensors_complete:
  assumes g: "generous H" and r: "ready H 1 inp" and ts: "\<forall>t\<in>set ts. tensor_ok al t" "distinct (map ti_name ts)" "length ts \<le> 2 ^ 24"
    and rest: "in_reader inp = concat (map enc_tensor ts) @ rest"
  shows "\<exists>inp'. parse_tensors H (of_nat (length ts)) al inp = (Ok ts, inp')"
proof -
  let ?n = "of_nat (length ts) :: u64"
  have un: "unat ?n = length ts" using ts(3) by (simp add: unsigned_of_nat take_bit_nat_eq_self)
  have m: "checked_mul ?n MIN_TENSOR_DESCRIPTOR_BYTES = Some (?n * MIN_TENSOR_DESCRIPTOR_BYTES)"
    using un ts(3) by (simp add: checked_mul_def MIN_TENSOR_DESCRIPTOR_BYTES_def)
  have "32 * length ts \<le> sum_list (map (\<lambda>t. length (enc_tensor t)) ts)"
    by (rule sum_list_ge) (use ts(1) enc_tensor_length in \<open>auto simp: tensor_ok_def\<close>)
  then have "length ts * 32 \<le> length (in_reader inp)" by (simp add: rest length_concat comp_def)
  moreover have "unat (?n * MIN_TENSOR_DESCRIPTOR_BYTES) = length ts * 32"
    using checked_mul_unat [OF m] un by (simp add: MIN_TENSOR_DESCRIPTOR_BYTES_def)
  moreover have "unat (saturating_sub (in_file_len inp) (in_position inp)) = length (in_reader inp)"
    using r by (simp add: ready_def unat_saturating_sub)
  ultimately have fit: "ensure_tensor_descriptors_fit inp ?n = Ok ()"
    using m by (simp add: ensure_tensor_descriptors_fit_def overflow_def word_less_nat_alt)
  obtain a where a: "allocate_vec H (gh_tensor_size H) (length ts) ''tensor descriptors'' inp = (Ok (), a)"
    using allocate_vec_run [OF g _ _ generous_sizes(3) [OF g] ts(3)] ready_used [OF r] by blast
  have A: "step H [] (min (length ts) 1) inp a" by (rule allocate_vec_Ok [OF a])
  obtain h where h: "hash_collection_bytes (gh_name_size H) ?n ''tensor names'' = Ok h"
    using hash_bytes_run [OF generous_sizes(5) [OF g], of ?n] un ts(3) by auto
  obtain q b where b: "reserve_hash_collection H (gh_name_size H) ?n ''tensor names'' a = (Ok q, b)"
    using reserve_run [OF g, of h "''tensor names''" a] h by (fastforce simp: reserve_hash_collection_def)
  obtain x where x: "try_alloc H (gh_name_size H) (length ts) ''tensor names'' b = (Ok (), b\<lparr>in_world := x\<rparr>)"
    using try_alloc_run [OF g] by blast
  let ?c = "b\<lparr>in_world := x\<rparr>"
  have names: "tensor_names_new H (length ts) a = (Ok q, ?c)" using b x ts(3) by (simp add: tensor_names_new_def u64_of_def overflow_def)
  have B: "step H [] 0 a ?c" by (rule tensor_names_world [OF names])
  have "step H ([] @ []) (min (length ts) 1 + 0) inp ?c" by (rule step_trans [OF A B])
  then have C: "step H [] 1 inp ?c" by (auto elim!: step_more)
  have rc: "ready H 0 ?c" by (rule ready_step [OF r C g]) simp
  have ic: "in_reader ?c = concat (map enc_tensor ts) @ rest" using C rest by (simp add: step_def)
  obtain names' d where "tensors_loop H (length ts) [] al ?c = (Ok (ts, names'), d)"
    using tensors_loop_complete [OF g rc ts(1,2) _ ic, of "[]"] by auto
  then show ?thesis using fit a names un ts(3) by (simp add: parse_tensors_def usize_of_def overflow_def)
qed

section \<open>Alignment\<close>

lemma single_bit_nat: "0 < n \<Longrightarrow> and n (n - 1) = 0 \<Longrightarrow> \<exists>k. n = 2 ^ k" for n :: nat
proof (induction n rule: less_induct)
  case (less n)
  have halves: "2 * and (n div 2) ((n - 1) div 2) = 0"
    using less.prems(2) and_rec [of n "n - 1"] by (simp del: mult_eq_0_iff mult_is_0)
  show ?case
  proof (cases "even n")
    case True
    then obtain m where m: "n = 2 * m" by (auto elim: evenE)
    then have "0 < m" using less.prems(1) by simp
    then have "n - 1 = 2 * (m - 1) + 1" using m by simp
    then have "(n - 1) div 2 = m - 1" "n div 2 = m" using m by simp_all
    then have "and m (m - 1) = 0" using halves by simp
    then obtain k where "m = 2 ^ k" using less.IH [of m] m \<open>0 < m\<close> by auto
    then show ?thesis using m by (intro exI [of _ "Suc k"]) simp
  next
    case False
    then obtain m where m: "n = 2 * m + 1" by (auto elim: oddE)
    then have "and m m = 0" using halves by simp
    then show ?thesis using m by (intro exI [of _ 0]) simp
  qed
qed

lemma is_power_of_two_iff: "is_power_of_two w \<longleftrightarrow> (\<exists>k<LENGTH('a). unat w = 2 ^ k)"
  for w :: "'a::len word"
proof
  assume p: "is_power_of_two w"
  then have "0 < unat w" "unat (w - 1) = unat w - 1"
    by (simp_all add: is_power_of_two_def unat_gt_0 unat_minus_one)
  moreover have "and (unat w) (unat (w - 1)) = 0" using p by (simp add: is_power_of_two_def flip: unsigned_and_eq)
  ultimately obtain k where k: "unat w = 2 ^ k" using single_bit_nat [of "unat w"] by metis
  then have "k < LENGTH('a)" using unat_lt_2p [of w] by simp
  then show "\<exists>k<LENGTH('a). unat w = 2 ^ k" using k by blast
next
  assume "\<exists>k<LENGTH('a). unat w = 2 ^ k"
  then obtain k where k: "k < LENGTH('a)" "unat w = 2 ^ k" by blast
  have "w = of_nat (unat w)" by simp
  then have w: "w = 2 ^ k" unfolding k(2) by simp
  have "and w (w - 1) = and (2 ^ k) (mask k)" by (simp add: w mask_eq_decr_exp)
  also have "\<dots> = 0" by (rule bit_word_eqI) (simp add: bit_and_iff bit_mask_iff bit_exp_iff)
  finally show "is_power_of_two w" using k w by (simp add: is_power_of_two_def)
qed


lemma clear_low_bits: "unat (and w (not (mask k))) = unat w div 2 ^ k * 2 ^ k" for w :: "'a::len word"
proof -
  have "and w (not (mask k)) = push_bit k (drop_bit k w)"
    by (rule bit_word_eqI) (auto simp: bit_simps)
  then have "unat (and w (not (mask k))) = take_bit LENGTH('a) (push_bit k (drop_bit k (unat w)))"
    by (simp only: unsigned_push_bit_eq unat_drop_bit_eq)
  then have "unat (and w (not (mask k))) = take_bit LENGTH('a) (unat w div 2 ^ k * 2 ^ k)"
    by (simp only: push_bit_eq_mult drop_bit_eq_div)
  moreover have "unat w div 2 ^ k * 2 ^ k < 2 ^ LENGTH('a)"
    using unat_lt_2p [of w] by (meson div_times_less_eq_dividend le_less_trans)
  ultimately show ?thesis by (simp add: take_bit_nat_eq_self)
qed

definition round_up :: "nat \<Rightarrow> nat \<Rightarrow> nat" where
  "round_up n a = (n + (a - 1)) div a * a"

lemma align_up_iff:
  assumes "is_power_of_two a"
  shows "align_up v a = Ok d \<longleftrightarrow> unat v + (unat a - 1) < 2 ^ 64 \<and> unat d = round_up (unat v) (unat a)"
proof -
  obtain k where k: "k < 64" "unat a = 2 ^ k" using assms is_power_of_two_iff [of a] by auto
  have "a = of_nat (unat a)" by simp
  then have a: "a = 2 ^ k" unfolding k(2) by simp
  have m: "a - 1 = mask k" by (simp add: a mask_eq_decr_exp)
  have "0 < unat a" using k by simp
  then have um: "unat (a - 1) = unat a - 1" by (simp add: unat_gt_0 unat_minus_one)
  show ?thesis
  proof (cases "unat v + (unat a - 1) < 2 ^ 64")
    case True
    then have c: "checked_add v (a - 1) = Some (v + (a - 1))" by (simp add: checked_add_def um)
    have "unat (v + (a - 1)) = unat v + (unat a - 1)" using checked_add_unat [OF c] um by simp
    then have "unat (and (v + (a - 1)) (not (a - 1))) = round_up (unat v) (unat a)"
      unfolding m by (simp add: clear_low_bits round_up_def k(2))
    then show ?thesis using True c by (auto simp: align_up_def overflow_def Let_def word_unat_eq_iff)
  next
    case False
    then have "checked_add v (a - 1) = None" by (simp add: checked_add_def um)
    then show ?thesis using False by (simp add: align_up_def overflow_def Let_def)
  qed
qed

text \<open>The alignment that the metadata give.\<close>

definition alignment_of :: "(u8 list \<times> MetadataValue) list \<Rightarrow> u32 \<Rightarrow> bool" where
  "alignment_of es al \<longleftrightarrow>
     (case map_of es ALIGNMENT_KEY of None \<Rightarrow> al = 32 | Some v \<Rightarrow> v = VUint32 al \<and> (\<exists>k<32. unat al = 2 ^ k))"

lemma parse_alignment_iff:
  assumes "distinct (map fst es)"
  shows "parse_alignment (bt_collect es) = Ok al \<longleftrightarrow> alignment_of es al"
proof -
  have "map_of (rev es) k = map_of es k" for k
    using assms by (metis distinct_map distinct_rev map_of_eqI map_of_is_SomeI rev_map set_rev weak_map_of_SomeI map_of_inject_set)
  then show ?thesis
    by (auto simp: parse_alignment_def bt_get_collect alignment_of_def DEFAULT_ALIGNMENT_def is_power_of_two_iff
        split: option.splits MetadataValue.splits)
qed

lemma alignment_power: "alignment_of es al \<Longrightarrow> is_power_of_two (ucast al :: u64)"
proof -
  assume "alignment_of es al"
  moreover have "\<exists>k<32. unat (32 :: u32) = 2 ^ k" by (rule exI [of _ 5]) simp
  ultimately obtain k where "k < 32" "unat al = 2 ^ k" by (auto simp: alignment_of_def split: option.splits)
  then show ?thesis by (auto simp: is_power_of_two_iff intro!: exI [of _ k])
qed

lemma parse_alignment_calm: "parse_alignment m \<noteq> Panic"
  by (simp add: parse_alignment_def split: option.split MetadataValue.split)

section \<open>Placement\<close>

definition apart :: "nat \<times> nat \<Rightarrow> nat \<times> nat \<Rightarrow> bool" where
  "apart a b \<longleftrightarrow> snd a \<le> fst b \<or> snd b \<le> fst a"

text \<open>The bytes of a tensor, from the start of the data section.\<close>

definition extent :: "TensorInfo \<Rightarrow> nat \<times> nat" where
  "extent t = (unat (ti_offset t), unat (ti_offset t) + unat (ti_n_bytes t))"

definition placed :: "nat \<Rightarrow> TensorInfo list \<Rightarrow> nat \<Rightarrow> bool" where
  "placed start ts n \<longleftrightarrow> (\<forall>t\<in>set ts. start + snd (extent t) \<le> n) \<and>
     (\<forall>t\<in>set ts. \<forall>u\<in>set ts. t \<noteq> u \<longrightarrow> apart (extent t) (extent u))"

lemma sorted_wrt_symmetric:
  assumes "\<And>a b. P a b \<Longrightarrow> P b a"
  shows "distinct xs \<Longrightarrow> sorted_wrt P xs \<longleftrightarrow> (\<forall>a\<in>set xs. \<forall>b\<in>set xs. a \<noteq> b \<longrightarrow> P a b)"
  using assms by (induction xs) auto

abbreviation range_ok :: "Range \<Rightarrow> bool" where
  "range_ok r \<equiv> fst r < fst (snd r)"

lemma overlap_windows_iff:
  assumes "\<forall>r\<in>set rs. range_ok r" and "sorted_wrt (\<lambda>a b. fst a \<le> fst b) rs"
  shows "overlap_windows rs = Ok () \<longleftrightarrow> sorted_wrt (\<lambda>a b. fst (snd a) \<le> fst b) rs"
  using assms
proof (induction rs rule: overlap_windows.induct)
  case (1 a b rs)
  then have IH: "overlap_windows (b # rs) = Ok () \<longleftrightarrow> sorted_wrt (\<lambda>a b. fst (snd a) \<le> fst b) (b # rs)"
    if "\<not> fst b < fst (snd a)" using that by simp
  show ?case
  proof (cases "fst b < fst (snd a)")
    case False
    have "fst (snd a) \<le> fst c" if "c \<in> set rs" for c
      using that False 1(3) by (meson list.set_intros(2) not_less order_trans sorted_wrt.simps(2))
    then show ?thesis using False IH [OF False] by auto
  qed auto
qed auto

lemma overlap_windows_calm: "overlap_windows rs \<noteq> Panic"
  by (induction rs rule: overlap_windows.induct) auto

text \<open>Any order of the ranges by their starts gives the same answer.\<close>

lemma overlap_of_sorted:
  assumes "\<forall>r\<in>set rs. range_ok r" and "distinct rs" and "mset ss = mset rs" and "sorted_wrt (\<lambda>a b. fst a \<le> fst b) ss"
  shows "overlap_windows ss = Ok () \<longleftrightarrow>
    (\<forall>a\<in>set rs. \<forall>b\<in>set rs. a \<noteq> b \<longrightarrow> fst (snd a) \<le> fst b \<or> fst (snd b) \<le> fst a)"
proof -
  have set: "set ss = set rs" using assms(3) by (metis set_mset_mset)
  have "distinct ss" using assms(2,3) mset_eq_imp_distinct_iff by blast
  have "sorted_wrt (\<lambda>a b. fst (snd a) \<le> fst b) ss \<longleftrightarrow> sorted_wrt (\<lambda>a b. fst (snd a) \<le> fst b \<or> fst (snd b) \<le> fst a) ss"
    using assms(4) set assms(1)
  proof (induction ss arbitrary: rs)
    case (Cons s ss)
    have "fst (snd s) \<le> fst b \<or> fst (snd b) \<le> fst s \<longleftrightarrow> fst (snd s) \<le> fst b" if "b \<in> set ss" for b
    proof -
      have "fst s \<le> fst b" "range_ok b" using that Cons.prems by auto
      then show ?thesis by (auto simp: word_le_nat_alt word_less_nat_alt)
    qed
    moreover have "\<forall>r\<in>set ss. range_ok r" using Cons.prems(2,3) by (metis list.set_intros(2))
    ultimately show ?case using Cons.IH [of ss] Cons.prems(1) by simp
  qed simp
  moreover have "overlap_windows ss = Ok () \<longleftrightarrow> sorted_wrt (\<lambda>a b. fst (snd a) \<le> fst b) ss"
    by (rule overlap_windows_iff) (use assms(1,4) set in simp_all)
  moreover have "sorted_wrt (\<lambda>a b. fst (snd a) \<le> fst b \<or> fst (snd b) \<le> fst a) ss \<longleftrightarrow>
      (\<forall>a\<in>set ss. \<forall>b\<in>set ss. a \<noteq> b \<longrightarrow> fst (snd a) \<le> fst b \<or> fst (snd b) \<le> fst a)"
    by (rule sorted_wrt_symmetric) (use \<open>distinct ss\<close> in blast)+
  ultimately show ?thesis unfolding set by blast
qed

lemma check_overlap_iff:
  assumes "\<forall>r\<in>set rs. range_ok r" and "distinct rs"
  shows "check_tensor_overlap rs = Ok () \<longleftrightarrow>
    (\<forall>a\<in>set rs. \<forall>b\<in>set rs. a \<noteq> b \<longrightarrow> fst (snd a) \<le> fst b \<or> fst (snd b) \<le> fst a)"
proof -
  have "sorted_wrt (\<lambda>a b. cmp (fst a) (fst b) \<noteq> Greater) (sort_by (\<lambda>a b. cmp (fst a) (fst b)) rs)"
    by (rule comparison.sorted_sort_by [OF comparison_key subset_UNIV])
  then have "sorted_wrt (\<lambda>a b. fst a \<le> fst b) (sort_by (\<lambda>a b. cmp (fst a) (fst b)) rs)" by (simp add: not_less)
  then show ?thesis unfolding check_tensor_overlap_def by (rule overlap_of_sorted [OF assms mset_sort_by])
qed

section \<open>Sizes of tensors\<close>

lemma product_positive: "product_from a vs w = Ok p \<Longrightarrow> a \<noteq> 0 \<Longrightarrow> 0 \<notin> set vs \<Longrightarrow> p \<noteq> 0"
proof (induction vs arbitrary: a)
  case (Cons v vs)
  obtain b where b: "checked_mul a v = Some b" "product_from b vs w = Ok p"
    using Cons.prems(1) by (auto simp: and_then_eq_Ok overflow_def)
  have "unat a * unat v \<noteq> 0" using Cons.prems(2,3) by (auto simp: unat_gt_0_iff)
  then have "b \<noteq> 0" using checked_mul_unat [OF b(1)] by auto
  then show ?case using Cons.IH [OF b(2)] Cons.prems(3) by simp
qed simp

lemma layouts_positive: "block_layout t = Some (e, b) \<Longrightarrow> e \<noteq> 0 \<and> b \<noteq> 0"
proof -
  assume "block_layout t = Some (e, b)"
  then have "Some (e, b) \<in> set BLOCK_LAYOUTS" by (auto simp: block_layout_def split: if_splits dest: nth_mem)
  then show ?thesis by (auto simp: BLOCK_LAYOUTS_def)
qed

text \<open>The size of a tensor is its number of elements, in whole blocks.\<close>

lemma tensor_bytes_Ok:
  assumes "tensor_bytes name (d # ds) t = Ok n"
  shows "\<exists>e b. block_layout t = Some (e, b) \<and> unat d mod unat e = 0 \<and>
    unat n = unat d div unat e * unat b * prod_list (map unat ds)"
proof -
  have product: "product_from a vs w = Ok p \<Longrightarrow> unat p = unat a * prod_list (map unat vs)" for a vs w p
    by (induction vs arbitrary: a) (auto simp: and_then_eq_Ok overflow_def checked_arith)
  from assms obtain e b q r p where e: "block_layout t = Some (e, b)" "d mod e = 0"
    and q: "checked_div d e = Some q" "checked_mul q b = Some r" and p: "product_from 1 ds ''tensor row count'' = Ok p"
    and n: "checked_mul r p = Some n"
    by (auto simp: tensor_bytes_def and_then_eq_Ok at_index_def slice_def checked_product_def overflow_def bind_eq_Some_conv
        split: if_splits del: mod_0_imp_dvd)
  have "unat q = unat d div unat e" using checked_div_unat [OF q(1)] .
  moreover have "unat r = unat q * unat b" using checked_mul_unat [OF q(2)] .
  moreover have "unat p = prod_list (map unat ds)" using product [OF p] by simp
  moreover have "unat n = unat r * unat p" using checked_mul_unat [OF n] .
  moreover have "unat d mod unat e = 0" using e(2) by (metis unat_0 unat_mod_distrib)
  ultimately show ?thesis using e(1) by auto
qed

lemma tensor_bytes_positive: "tensor_ok al t \<Longrightarrow> 0 < unat (ti_n_bytes t)"
proof -
  assume t: "tensor_ok al t"
  then obtain d ds where d: "ti_shape t = d # ds" "d \<noteq> 0" "0 \<notin> set ds"
    by (cases "ti_shape t") (auto simp: tensor_ok_def shape_ok_def)
  obtain e b where e: "block_layout (ti_dtype t) = Some (e, b)" "unat d mod unat e = 0"
    "unat (ti_n_bytes t) = unat d div unat e * unat b * prod_list (map unat ds)"
    using tensor_bytes_Ok t d by (metis tensor_ok_def)
  have "0 < unat e" "0 < unat b" "0 < unat d" using layouts_positive [OF e(1)] d(2) by (simp_all add: unat_gt_0_iff)
  then have "0 < unat d div unat e" using e(2) by (metis div_greater_zero_iff dvd_imp_le mod_eq_0_iff_dvd)
  moreover have "0 < prod_list (map unat ds)" using d(3) by (induction ds) (auto simp: unat_gt_0_iff)
  ultimately show ?thesis using e(3) \<open>0 < unat b\<close> by simp
qed

section \<open>Ranges\<close>

definition range_of :: "nat \<Rightarrow> TensorInfo \<Rightarrow> Range \<Rightarrow> bool" where
  "range_of start t r \<longleftrightarrow> unat (fst r) = start + fst (extent t) \<and> unat (fst (snd r)) = start + snd (extent t) \<and> snd (snd r) = ti_name t"

lemma tensor_range_of_iff:
  "(\<exists>r. tensor_range_of d len t = Ok r) \<longleftrightarrow> unat d + snd (extent t) \<le> unat len"
  "tensor_range_of d len t = Ok r \<Longrightarrow> range_of (unat d) t r \<and> unat d + snd (extent t) \<le> unat len"
proof -
  show sound: "tensor_range_of d len t = Ok r \<Longrightarrow> range_of (unat d) t r \<and> unat d + snd (extent t) \<le> unat len" for r
    by (auto simp: tensor_range_of_def and_then_eq_Ok overflow_def range_of_def extent_def not_less word_le_nat_alt
        dest!: checked_add_unat split: if_splits)
  have "\<exists>r. tensor_range_of d len t = Ok r" if le: "unat d + snd (extent t) \<le> unat len"
  proof -
    have "unat len < 2 ^ 64" using unat_lt_2p [of len] by simp
    then have a: "checked_add d (ti_offset t) = Some (d + ti_offset t)" using le by (simp add: checked_add_def extent_def)
    have u: "unat (d + ti_offset t) = unat d + unat (ti_offset t)" using checked_add_unat [OF a] .
    have b: "checked_add (d + ti_offset t) (ti_n_bytes t) = Some (d + ti_offset t + ti_n_bytes t)"
      using le \<open>unat len < 2 ^ 64\<close> by (simp add: checked_add_def extent_def u)
    have "\<not> len < d + ti_offset t + ti_n_bytes t" using checked_add_unat [OF b] u le by (simp add: word_less_nat_alt extent_def)
    then show ?thesis using a b by (simp add: tensor_range_of_def overflow_def)
  qed
  then show "(\<exists>r. tensor_range_of d len t = Ok r) \<longleftrightarrow> unat d + snd (extent t) \<le> unat len" using sound by blast
qed

lemma collect_iff: "collect_results (map f xs) = Ok ys \<longleftrightarrow> list_all2 (\<lambda>x y. f x = Ok y) xs ys"
proof (induction xs arbitrary: ys)
  case (Cons x xs)
  then show ?case by (cases ys) (auto simp: and_then_eq_Ok)
qed auto

lemma collect_calm: "(\<And>x. x \<in> set xs \<Longrightarrow> f x \<noteq> Panic) \<Longrightarrow> collect_results (map f xs) \<noteq> Panic"
  by (induction xs) (auto simp: no_panic)

lemma list_all2_member: "list_all2 P xs ys \<Longrightarrow> x \<in> set xs \<Longrightarrow> \<exists>y\<in>set ys. P x y"
  by (induction rule: list_all2_induct) auto

lemma list_all2_member2: "list_all2 P xs ys \<Longrightarrow> y \<in> set ys \<Longrightarrow> \<exists>x\<in>set xs. P x y"
  by (induction rule: list_all2_induct) auto

text \<open>Ranges of tensors with distinct names do not overlap when their tensors' extents are apart.\<close>

lemma overlap_of_tensors:
  assumes rs: "list_all2 (range_of start) ts rs" and pos: "\<forall>t\<in>set ts. 0 < unat (ti_n_bytes t)" and names: "distinct (map ti_name ts)"
  shows "check_tensor_overlap rs = Ok () \<longleftrightarrow> (\<forall>t\<in>set ts. \<forall>u\<in>set ts. t \<noteq> u \<longrightarrow> apart (extent t) (extent u))"
proof -
  have "map (snd \<circ> snd) rs = map ti_name ts" using rs by (induction rule: list_all2_induct) (auto simp: range_of_def)
  then have d: "distinct (map (snd \<circ> snd) rs)" using names by simp
  have ok: "\<forall>r\<in>set rs. range_ok r"
    using list_all2_member2 [OF rs] pos by (force simp: range_of_def extent_def word_less_nat_alt)
  have link: "fst (snd r) \<le> fst q \<or> fst (snd q) \<le> fst r \<longleftrightarrow> apart (extent t) (extent u)"
    if "range_of start t r" "range_of start u q" for t u r q
    using that by (auto simp: range_of_def apart_def word_le_nat_alt)
  have same: "t = u" if "range_of start t r" "range_of start u r" "t \<in> set ts" "u \<in> set ts" for t u r
    using that names by (auto simp: range_of_def distinct_map inj_on_def)
  have same': "r = q" if "range_of start t r" "range_of start t q" for t r q
    using that by (auto simp: range_of_def prod_eq_iff word_unat_eq_iff)
  have "(\<forall>a\<in>set rs. \<forall>b\<in>set rs. a \<noteq> b \<longrightarrow> fst (snd a) \<le> fst b \<or> fst (snd b) \<le> fst a) \<longleftrightarrow>
      (\<forall>t\<in>set ts. \<forall>u\<in>set ts. t \<noteq> u \<longrightarrow> apart (extent t) (extent u))"
    (is "?R = ?T")
  proof
    assume R: ?R
    show ?T
    proof (intro ballI impI)
      fix t u assume tu: "t \<in> set ts" "u \<in> set ts" "t \<noteq> u"
      obtain a b where ab: "a \<in> set rs" "range_of start t a" "b \<in> set rs" "range_of start u b"
        using list_all2_member [OF rs] tu by blast
      then have "a \<noteq> b" using same tu by blast
      then show "apart (extent t) (extent u)" using R ab link by blast
    qed
  next
    assume T: ?T
    show ?R
    proof (intro ballI impI)
      fix a b assume ab: "a \<in> set rs" "b \<in> set rs" "a \<noteq> b"
      obtain t u where tu: "t \<in> set ts" "range_of start t a" "u \<in> set ts" "range_of start u b"
        using list_all2_member2 [OF rs] ab by blast
      then have "t \<noteq> u" using same' ab by blast
      then show "fst (snd a) \<le> fst b \<or> fst (snd b) \<le> fst a" using T tu link by blast
    qed
  qed
  then show ?thesis using check_overlap_iff [OF ok] d by (simp add: distinct_map)
qed

lemma reserve_vector_world: "reserve_vector H w n what inp = (Ok r, inp') \<Longrightarrow> step H [] 0 inp inp'"
  by (cases "n = 0") (auto simp: reserve_vector_def try_st_Ok_iff try_pure_Ok_iff dest!: reserve_Ok)

lemma validate_calm: "host_laws H \<Longrightarrow> fst (validate_tensor_ranges H ts d len inp) \<noteq> Panic"
proof -
  assume laws: "host_laws H"
  have "tensor_range_of d len t \<noteq> Panic" for t by (auto simp: tensor_range_of_def no_panic)
  then show ?thesis using laws
    by (auto simp: validate_tensor_ranges_def collect_tensor_ranges_def no_panic reserve_vector_def collect_calm
        check_tensor_overlap_def overlap_windows_calm)
qed

lemma validate_sound:
  assumes "validate_tensor_ranges H ts d len inp = (Ok u, inp')" and "\<forall>t\<in>set ts. tensor_ok al t" and "distinct (map ti_name ts)"
  shows "placed (unat d) ts (unat len) \<and> step H [] 0 inp inp'"
proof -
  obtain r a b rs where a: "reserve_vector H (gh_range_size H) (length ts) ''tensor ranges'' inp = (Ok r, a)"
    and b: "try_alloc H (gh_range_size H) (length ts) ''tensor ranges'' a = (Ok (), b)"
    and rs: "collect_results (map (tensor_range_of d len) ts) = Ok rs" and overlap: "check_tensor_overlap rs = Ok ()"
    and inp': "inp' = drop_reservation H r b"
    using assms(1) by (auto simp: validate_tensor_ranges_def collect_tensor_ranges_def try_st_Ok_iff try_pure_Ok_iff)
  have all: "list_all2 (\<lambda>t r. tensor_range_of d len t = Ok r) ts rs" using rs by (simp add: collect_iff)
  then have "list_all2 (range_of (unat d)) ts rs" by (rule list_all2_mono) (use tensor_range_of_iff(2) in blast)
  from overlap_of_tensors [OF this _ assms(3)] have "\<forall>t\<in>set ts. \<forall>u\<in>set ts. t \<noteq> u \<longrightarrow> apart (extent t) (extent u)"
    using overlap assms(2) tensor_bytes_positive by blast
  moreover have "unat d + snd (extent t) \<le> unat len" if "t \<in> set ts" for t
    using list_all2_member [OF all that] tensor_range_of_iff(2) by blast
  moreover have "step H [] 0 inp inp'"
  proof -
    have "step H [] 0 a b" using try_alloc_Ok [OF b] by auto
    from step_trans [OF reserve_vector_world [OF a] step_trans [OF this step_drop [of H 0 b r]]] show ?thesis by (simp add: inp')
  qed
  ultimately show ?thesis by (simp add: placed_def)
qed

lemma validate_complete:
  assumes g: "generous H" and ts: "\<forall>t\<in>set ts. tensor_ok al t" "distinct (map ti_name ts)" "length ts \<le> 2 ^ 24"
    and p: "placed (unat d) ts (unat len)"
  shows "\<exists>inp'. validate_tensor_ranges H ts d len inp = (Ok (), inp')"
proof -
  obtain c where c: "vector_bytes (gh_range_size H) (gh_vec_size H) (length ts) ''tensor ranges'' = Ok c"
    using vector_bytes_run [OF generous_sizes(7) [OF g] generous_sizes(2) [OF g] ts(3)] by blast
  obtain r a where a: "reserve_vector H (gh_range_size H) (length ts) ''tensor ranges'' inp = (Ok r, a)"
    using reserve_run [OF g, of c "''tensor ranges''" inp] c by (fastforce simp: reserve_vector_def)
  obtain x where x: "try_alloc H (gh_range_size H) (length ts) ''tensor ranges'' a = (Ok (), a\<lparr>in_world := x\<rparr>)"
    using try_alloc_run [OF g] by blast
  have "\<exists>r. tensor_range_of d len t = Ok r" if "t \<in> set ts" for t
    using p that tensor_range_of_iff(1) by (simp add: placed_def)
  then obtain f where "\<And>t. t \<in> set ts \<Longrightarrow> tensor_range_of d len t = Ok (f t)" by metis
  then have all: "list_all2 (\<lambda>t r. tensor_range_of d len t = Ok r) ts (map f ts)"
    by (simp add: list_all2_map2 list_all2_same)
  let ?rs = "map f ts"
  have rs: "collect_results (map (tensor_range_of d len) ts) = Ok ?rs" using all by (simp add: collect_iff)
  have "list_all2 (range_of (unat d)) ts ?rs" using all by (rule list_all2_mono) (use tensor_range_of_iff(2) in blast)
  from overlap_of_tensors [OF this _ ts(2)] have "check_tensor_overlap ?rs = Ok ()"
    using p ts(1) tensor_bytes_positive by (auto simp: placed_def)
  then show ?thesis using a x rs by (simp add: validate_tensor_ranges_def collect_tensor_ranges_def)
qed


end
