(* ===== verification/Gguf_Props.thy ===== *)
theory Gguf_Props
  imports Gguf_Format
begin

text \<open>
  The properties of the GGUF container: a parse never panics, what it accepts is the encoding
  of what it returns, every well-formed file is accepted by a budget without limit, the
  guards are bounded by the bytes of the file, and the reads of a tensor stay in its bytes.
\<close>

section \<open>The whole file\<close>

definition enc_header :: "nat \<Rightarrow> nat \<Rightarrow> u8 list" where
  "enc_header tensors entries = GGUF_MAGIC @ le_bytes 4 3 @ le_bytes 8 tensors @ le_bytes 8 entries"

definition gguf_bytes :: "(u8 list \<times> MetadataValue) list \<Rightarrow> TensorInfo list \<Rightarrow> u8 list" where
  "gguf_bytes es ts = enc_header (length ts) (length es) @ concat (map enc_entry es) @ concat (map enc_tensor ts)"

definition data_start :: "(u8 list \<times> MetadataValue) list \<Rightarrow> TensorInfo list \<Rightarrow> u32 \<Rightarrow> nat" where
  "data_start es ts al = (if ts = [] then length (gguf_bytes es ts) else round_up (length (gguf_bytes es ts)) (unat al))"

text \<open>A well-formed file of \<open>n\<close> bytes.\<close>

definition gguf_ok :: "(u8 list \<times> MetadataValue) list \<Rightarrow> TensorInfo list \<Rightarrow> u32 \<Rightarrow> nat \<Rightarrow> bool" where
  "gguf_ok es ts al n \<longleftrightarrow>
     length es \<le> 2 ^ 24 \<and> length ts \<le> 2 ^ 24 \<and>
     (\<forall>e\<in>set es. entry_ok e) \<and> distinct (map fst es) \<and> alignment_of es al \<and>
     (\<forall>t\<in>set ts. tensor_ok al t) \<and> distinct (map ti_name ts) \<and> placed (data_start es ts al) ts n"

definition held :: "('r, 'g) Parsed \<Rightarrow> (u8 list \<times> MetadataValue) list \<Rightarrow> TensorInfo list \<Rightarrow> u32 \<Rightarrow> bool" where
  "held p es ts al \<longleftrightarrow> pa_version p = 3 \<and> pa_metadata p = bt_collect es \<and> pa_tensors p = ts \<and> pa_alignment p = al \<and>
     unat (pa_data_offset p) = data_start es ts al"

lemma parse_header_calm: "fst (parse_header inp) \<noteq> Panic"
  for inp :: "('x, 'r, 'g) Input"
proof -
  have "fst (input_u32 i) \<noteq> Panic" "fst (input_u64 i) \<noteq> Panic" for i :: "('x, 'r, 'g) Input"
    by (simp_all add: input_u32_def input_u64_def no_panic)
  then show ?thesis by (auto simp: parse_header_def no_panic)
qed

lemma parse_header_sound:
  assumes "parse_header inp = (Ok (nt, ne), inp')"
  shows "unat nt \<le> 2 ^ 24 \<and> unat ne \<le> 2 ^ 24 \<and> step H (enc_header (unat nt) (unat ne)) 0 inp inp'"
proof -
  obtain a b c where a: "input_bytes 4 inp = (Ok GGUF_MAGIC, a)" and b: "input_u32 a = (Ok GGUF_VERSION, b)"
    and c: "input_u64 b = (Ok nt, c)" and d: "input_u64 c = (Ok ne, inp')"
    and n: "check_limit ''tensor'' nt MAX_COLLECTION_LEN = Ok ()" "check_limit ''metadata'' ne MAX_COLLECTION_LEN = Ok ()"
    using assms by (auto simp: parse_header_def try_st_Ok_iff try_pure_Ok_iff split: if_splits)
  have "step H GGUF_MAGIC 0 inp a" using input_bytes_Ok(2) [OF a] by simp
  from step_trans [OF this step_trans [OF u32_step [OF b] step_trans [OF u64_step [OF c] u64_step [OF d]]]]
  show ?thesis using n
    by (auto simp: enc_header_def GGUF_VERSION_def check_limit_def MAX_COLLECTION_LEN_def word_less_nat_alt split: if_splits)
qed

lemma parse_header_complete:
  assumes g: "generous H" and r: "ready H 0 inp" and n: "nt \<le> 2 ^ 24" "ne \<le> 2 ^ 24" and rest: "in_reader inp = enc_header nt ne @ rest"
  shows "\<exists>inp'. parse_header inp = (Ok (of_nat nt, of_nat ne), inp')"
proof -
  have u: "unat (of_nat nt :: u64) = nt" "unat (of_nat ne :: u64) = ne" using n by (simp_all add: unsigned_of_nat take_bit_nat_eq_self)
  have rest1: "in_reader inp = GGUF_MAGIC @ (le_bytes 4 (unat GGUF_VERSION) @ (le_bytes 8 (unat (of_nat nt :: u64)) @ (le_bytes 8 (unat (of_nat ne :: u64)) @ rest)))"
    using rest by (simp add: enc_header_def GGUF_VERSION_def u)
  have "length GGUF_MAGIC = 4" by (simp add: GGUF_MAGIC_def)
  then obtain a where a: "input_bytes 4 inp = (Ok GGUF_MAGIC, a)"
    using input_bytes_run [OF rest1 ready_position [OF r rest1]] by auto
  have A: "step H GGUF_MAGIC 0 inp a" using input_bytes_Ok(2) [OF a] by simp
  have ra: "ready H (0 + 0) a" by (rule ready_step [OF r A g]) simp
  have ia: "in_reader a = le_bytes 4 (unat GGUF_VERSION) @ (le_bytes 8 (unat (of_nat nt :: u64)) @ (le_bytes 8 (unat (of_nat ne :: u64)) @ rest))"
    using A rest1 by (simp add: step_def)
  obtain b where b: "input_u32 a = (Ok GGUF_VERSION, b)" "in_reader b = le_bytes 8 (unat (of_nat nt :: u64)) @ (le_bytes 8 (unat (of_nat ne :: u64)) @ rest)"
    "ready H (0 + length (le_bytes 4 (unat GGUF_VERSION)) div 2) b" using u32.forward [OF g ra TrueI ia] by blast
  have rb: "ready H (0 + 0) b" using ready_more [OF b(3)] by simp
  obtain c where c: "input_u64 b = (Ok (of_nat nt), c)" "in_reader c = le_bytes 8 (unat (of_nat ne :: u64)) @ rest"
    "ready H (0 + length (le_bytes 8 (unat (of_nat nt :: u64))) div 2) c" using u64.forward [OF g rb TrueI b(2)] by blast
  have rc: "ready H (0 + 0) c" using ready_more [OF c(3)] by simp
  obtain d where d: "input_u64 c = (Ok (of_nat ne), d)" using u64.forward [OF g rc TrueI c(2)] by blast
  show ?thesis using a b(1) c(1) d n u
    by (simp add: parse_header_def check_limit_def MAX_COLLECTION_LEN_def word_less_nat_alt)
qed

section \<open>Soundness\<close>

lemma parse_sound:
  assumes "parse_with_prepared_budget H F file_len buf rs x = (Ok p, x')"
  shows "\<exists>es ts al rest. F = gguf_bytes es ts @ rest \<and> gguf_ok es ts al (unat file_len) \<and> held p es ts al \<and>
    (host_laws H \<longrightarrow> length rs \<le> PARSER_MAX_RETAINED_RESERVATION_WRAPPERS \<longrightarrow>
       length (pa_reservations p) \<le> PARSER_MAX_RETAINED_RESERVATION_WRAPPERS \<and>
       length (pa_allocations p) \<le> length (gguf_bytes es ts) div 2)"
proof -
  let ?inp = "input_new F file_len x buf rs"
  obtain nt ne a m b al ts c d e where a: "parse_header ?inp = (Ok (nt, ne), a)" and b: "parse_metadata H ne a = (Ok m, b)"
    and al: "parse_alignment m = Ok al" and c: "parse_tensors H nt al b = (Ok ts, c)"
    and d: "(if nt = 0 then Ok (in_position c) else align_up (in_position c) (ucast al)) = Ok d"
    and e: "validate_tensor_ranges H ts d file_len c = (Ok (), e)"
    and p: "p = \<lparr>pa_version = GGUF_VERSION, pa_alignment = al, pa_data_offset = d, pa_metadata = m,
               pa_tensors = ts, pa_allocations = in_allocations e, pa_reservations = in_reservations e\<rparr>"
    using assms by (auto simp: parse_with_prepared_budget_def take_allocations_def try_st_Ok_iff try_pure_Ok_iff
        split: prod.splits outcome.splits)
  obtain es where es: "length es = unat ne" "\<forall>e\<in>set es. entry_ok e" "distinct (map fst es)" "m = bt_collect es"
    "moves H (concat (map enc_entry es)) (length (concat (map enc_entry es)) div 2) a b"
    using parse_metadata_sound [OF b] by blast
  note A = parse_header_sound [OF a, of H] and C = parse_tensors_sound [OF c]
  have E: "placed (unat d) ts (unat file_len) \<and> step H [] 0 c e" using validate_sound [OF e] C by blast
  have A': "moves H (enc_header (length ts) (length es)) 0 ?inp a" using A C es(1) by (simp add: step_moves)
  have C': "moves H (concat (map enc_tensor ts)) (1 + length (concat (map enc_tensor ts)) div 2) b c" using C step_moves by blast
  from moves_trans [OF A' moves_trans [OF es(5) C']]
  have M: "moves H (gguf_bytes es ts) (0 + (length (concat (map enc_entry es)) div 2 + (1 + length (concat (map enc_tensor ts)) div 2))) ?inp c"
    by (simp add: gguf_bytes_def)
  then have F: "F = gguf_bytes es ts @ in_reader c" and pos: "unat (in_position c) = length (gguf_bytes es ts)"
    by (simp_all add: moves_def input_new_def)
  have al': "alignment_of es al" using al es(3,4) parse_alignment_iff by blast
  have "ts = [] \<longleftrightarrow> nt = 0" using C by (auto simp flip: length_0_conv simp: unat_eq_zero)
  then have start: "unat d = data_start es ts al"
    using d pos align_up_iff [OF alignment_power [OF al']] by (auto simp: data_start_def split: if_splits)
  have "gguf_ok es ts al (unat file_len)" using A C es al' E start by (simp add: gguf_ok_def)
  moreover have "held p es ts al" using es(4) start by (simp add: held_def p GGUF_VERSION_def)
  moreover have "length (pa_reservations p) \<le> PARSER_MAX_RETAINED_RESERVATION_WRAPPERS \<and> length (pa_allocations p) \<le> length (gguf_bytes es ts) div 2"
    if laws: "host_laws H" "length rs \<le> PARSER_MAX_RETAINED_RESERVATION_WRAPPERS"
  proof -
    have "ledger H ?inp" using that(2) by (simp add: ledger_def input_new_def)
    then have L: "ledger H c" using M laws(1) by (simp add: moves_def)
    have "ledger H e" using L E laws(1) by (simp add: step_def)
    have used: "unat (in_guard_metadata_used e) \<le> 0 + (length (concat (map enc_entry es)) div 2 + (1 + length (concat (map enc_tensor ts)) div 2))"
      using M E by (simp add: moves_def step_def input_new_def)
    have "length (gguf_bytes es ts) = 24 + length (concat (map enc_entry es)) + length (concat (map enc_tensor ts))"
      by (simp add: gguf_bytes_def enc_header_def GGUF_MAGIC_def)
    with used have "unat (in_guard_metadata_used e) \<le> length (gguf_bytes es ts) div 2" by linarith
    then show ?thesis using \<open>ledger H e\<close> by (simp add: ledger_def p)
  qed
  ultimately show ?thesis using F by blast
qed

section \<open>Completeness\<close>

lemma parse_complete:
  fixes H :: "('x, 'r, 'g) GgufHost"
  assumes g: "generous H" and n: "length F < 2 ^ 47" and rs: "length rs < PARSER_MAX_RETAINED_RESERVATION_WRAPPERS"
    and F: "F = gguf_bytes es ts @ rest" and ok: "gguf_ok es ts al (length F)"
  shows "\<exists>p x'. parse_with_prepared_budget H F (of_nat (length F)) buf rs x = (Ok p, x') \<and> held p es ts al"
proof -
  let ?len = "of_nat (length F) :: u64"
  let ?inp = "input_new F ?len x buf rs :: ('x, 'r, 'g) Input"
  have ul: "unat ?len = length F" using n by (simp add: unsigned_of_nat take_bit_nat_eq_self)
  have r: "ready H 0 ?inp" using n rs by (simp add: ready_def ledger_def input_new_def ul)
  let ?r1 = "concat (map enc_entry es) @ (concat (map enc_tensor ts) @ rest)"
  let ?nt = "of_nat (length ts) :: u64" and ?ne = "of_nat (length es) :: u64"
  have lens: "length ts \<le> 2 ^ 24" "length es \<le> 2 ^ 24" using ok by (auto simp: gguf_ok_def)
  have un: "unat ?nt = length ts" "unat ?ne = length es" using lens by (simp_all add: unsigned_of_nat take_bit_nat_eq_self)
  have ir: "in_reader ?inp = enc_header (length ts) (length es) @ ?r1" using F by (simp add: input_new_def gguf_bytes_def)
  obtain a where a: "parse_header ?inp = (Ok (?nt, ?ne), a)" using parse_header_complete [OF g r lens ir] by blast
  have A: "step H (enc_header (length ts) (length es)) 0 ?inp a" using parse_header_sound [OF a] un by simp
  have hl: "length (enc_header (length ts) (length es)) = 24" by (simp add: enc_header_def GGUF_MAGIC_def)
  have ra: "ready H 24 a" by (rule ready_step [OF r A g]) (simp add: hl)
  have ia: "in_reader a = ?r1" using A ir by (simp add: step_def)
  have free: "length (in_reservations a) < PARSER_MAX_RETAINED_RESERVATION_WRAPPERS" using A g rs by (simp add: step_def input_new_def)
  obtain b where b: "parse_metadata H ?ne a = (Ok (bt_collect es), b)"
    and B: "moves H (concat (map enc_entry es)) (length (concat (map enc_entry es)) div 2) a b"
    using parse_metadata_complete [OF g ra _ _ lens(2) ia free] ok by (auto simp: gguf_ok_def)
  have rb: "ready H 1 b" by (rule ready_moves [OF ra B g]) simp
  have ib: "in_reader b = concat (map enc_tensor ts) @ rest" using B ia by (simp add: moves_def)
  obtain c where c: "parse_tensors H ?nt al b = (Ok ts, c)"
    using parse_tensors_complete [OF g rb _ _ lens(1) ib, of al] ok by (auto simp: gguf_ok_def)
  have C: "step H (concat (map enc_tensor ts)) (1 + length (concat (map enc_tensor ts)) div 2) b c" using parse_tensors_sound [OF c] by blast
  have al: "parse_alignment (bt_collect es) = Ok al" using ok parse_alignment_iff by (auto simp: gguf_ok_def)
  from moves_trans [OF step_moves [OF A] moves_trans [OF B step_moves [OF C]]]
  have pos: "unat (in_position c) = length (gguf_bytes es ts)" by (simp add: moves_def gguf_bytes_def input_new_def)
  have len: "length (gguf_bytes es ts) < 2 ^ 47" using n F by simp
  have pow: "is_power_of_two (ucast al :: u64)" using ok alignment_power by (auto simp: gguf_ok_def)
  have "unat al < 2 ^ 32" using unat_lt_2p [of al] by simp
  have "\<exists>d. (if ?nt = 0 then Ok (in_position c) else align_up (in_position c) (ucast al)) = (Ok d :: (u64, GgufError) outcome) \<and> unat d = data_start es ts al"
  proof (cases "ts = []")
    case True
    then show ?thesis using pos by (simp add: data_start_def)
  next
    case False
    then have nt: "?nt \<noteq> 0" using un(1) by (metis length_0_conv unat_0)
    have "round_up (unat (in_position c)) (unat al) \<le> unat (in_position c) + (unat al - 1)" by (simp add: round_up_def)
    then have lt: "round_up (unat (in_position c)) (unat al) < 2 ^ 64" using pos len \<open>unat al < 2 ^ 32\<close> by simp
    then have "align_up (in_position c) (ucast al) = Ok (of_nat (round_up (unat (in_position c)) (unat al)))"
      using align_up_iff [OF pow] pos len \<open>unat al < 2 ^ 32\<close> by (simp add: unsigned_of_nat take_bit_nat_eq_self)
    then show ?thesis using nt False lt pos by (simp add: data_start_def unsigned_of_nat take_bit_nat_eq_self)
  qed
  then obtain d where d: "(if ?nt = 0 then Ok (in_position c) else align_up (in_position c) (ucast al)) = (Ok d :: (u64, GgufError) outcome)"
    and start: "unat d = data_start es ts al" by blast
  obtain e where e: "validate_tensor_ranges H ts d ?len c = (Ok (), e)"
    using validate_complete [OF g _ _ lens(1), of al d ?len c] ok start ul by (auto simp: gguf_ok_def)
  have "\<exists>p x'. parse_with_prepared_budget H F ?len buf rs x = (Ok p, x') \<and> pa_version p = GGUF_VERSION \<and> pa_metadata p = bt_collect es \<and>
    pa_tensors p = ts \<and> pa_alignment p = al \<and> pa_data_offset p = d"
    using a b al c d e by (simp add: parse_with_prepared_budget_def take_allocations_def)
  then show ?thesis using start by (auto simp: held_def GGUF_VERSION_def)
qed

section \<open>Opening a file\<close>

lemma parse_calm: "host_laws H \<Longrightarrow> fst (parse_with_prepared_budget H F n buf rs x) \<noteq> Panic"
proof -
  assume laws: "host_laws H"
  let ?m = "try_st (parse_header (input_new F n x buf rs)) (\<lambda>(tensor_count, metadata_count) inp.
       try_st (parse_metadata H metadata_count inp) (\<lambda>metadata inp.
       try_pure (parse_alignment metadata) inp (\<lambda>alignment.
       try_st (parse_tensors H tensor_count alignment inp) (\<lambda>tensors inp.
       try_pure (if tensor_count = 0 then Ok (in_position inp) else align_up (in_position inp) (ucast alignment)) inp (\<lambda>data_offset.
       try_st (validate_tensor_ranges H tensors data_offset n inp) (\<lambda>_ inp.
       (Ok (alignment, data_offset, metadata, tensors), inp)))))))"
  have "fst ?m \<noteq> Panic"
    using laws by (auto simp: no_panic parse_header_calm parse_metadata_calm parse_alignment_calm parse_tensors_calm validate_calm split: if_splits)
  then show ?thesis unfolding parse_with_prepared_budget_def by (cases ?m) (auto split: outcome.split prod.split)
qed

lemma prepare_calm: "host_laws H \<Longrightarrow> fst (prepare_reservation_storage H w x) \<noteq> Panic"
proof -
  assume "host_laws H"
  then have "fst (gh_reserve H n s y) \<noteq> Panic" for n s y by (simp add: host_laws_def)
  then have "\<And>n s y r z. gh_reserve H n s y = (r, z) \<Longrightarrow> r \<noteq> Panic" by (metis fst_conv)
  then show ?thesis by (auto simp: prepare_reservation_storage_def Let_def no_panic split: prod.split)
qed

lemma prepare_Ok: "prepare_reservation_storage H w x = (Ok rs, x') \<Longrightarrow> length rs \<le> 1"
  by (auto simp: prepare_reservation_storage_def Let_def try_st_Ok_iff case_prod_beta split: if_splits option.splits)

lemma prepare_run: "generous H \<Longrightarrow> \<exists>x'. prepare_reservation_storage H w x = (Ok [], x')"
proof -
  assume g: "generous H"
  have "gh_reservation_metadata_bytes H x = 0" "fst (gh_alloc H w PARSER_RESERVATION_CAPACITY x)" using g unfolding generous_def by blast+
  then show ?thesis by (cases "gh_alloc H w PARSER_RESERVATION_CAPACITY x") (simp add: prepare_reservation_storage_def)
qed

lemma open_calm: "host_laws H \<Longrightarrow> fst (open_with_budget H w F n x) \<noteq> Panic"
proof -
  assume laws: "host_laws H"
  then have "fst (gh_reserve H n s y) \<noteq> Panic" for n s y by (simp add: host_laws_def)
  then have "\<And>n s y r z. gh_reserve H n s y = (r, z) \<Longrightarrow> r \<noteq> Panic" by (metis fst_conv)
  then show ?thesis using laws by (auto simp: open_with_budget_def no_panic prepare_calm parse_calm split: prod.split)
qed

definition opened :: "('r, 'g) Gguf \<Rightarrow> u8 list \<Rightarrow> u64 \<Rightarrow> (u8 list \<times> MetadataValue) list \<Rightarrow> TensorInfo list \<Rightarrow> u32 \<Rightarrow> bool" where
  "opened g F n es ts al \<longleftrightarrow> gf_version g = 3 \<and> gf_metadata g = bt_collect es \<and> gf_tensors g = ts \<and> gf_alignment g = al \<and>
     unat (gf_data_offset g) = data_start es ts al \<and> gf_source g = \<lparr>rf_file = F, rf_len = n\<rparr>"

lemma open_sound:
  assumes "open_with_budget H w F n x = (Ok g, x')"
  shows "\<exists>es al rest. F = gguf_bytes es (gf_tensors g) @ rest \<and> gguf_ok es (gf_tensors g) al (unat n) \<and> opened g F n es (gf_tensors g) al \<and>
    (host_laws H \<longrightarrow> length (gf_reservations g) \<le> PARSER_MAX_RETAINED_RESERVATION_WRAPPERS \<and>
       length (gf_allocations g) \<le> length (gguf_bytes es (gf_tensors g)) div 2)"
proof -
  obtain rs y r z p where rs: "prepare_reservation_storage H w x = (Ok rs, y)"
    and p: "parse_with_prepared_budget H F n (Some r) rs z = (Ok p, x')"
    and g: "g = \<lparr>gf_version = pa_version p, gf_alignment = pa_alignment p, gf_data_offset = pa_data_offset p,
        gf_metadata = pa_metadata p, gf_tensors = pa_tensors p, gf_source = \<lparr>rf_file = F, rf_len = n\<rparr>,
        gf_allocations = pa_allocations p, gf_reservations = pa_reservations p\<rparr>"
    using assms by (auto simp: open_with_budget_def try_st_Ok_iff try_pure_Ok_iff case_prod_beta)
  have "length rs \<le> PARSER_MAX_RETAINED_RESERVATION_WRAPPERS" using prepare_Ok [OF rs]
    by (simp add: PARSER_MAX_RETAINED_RESERVATION_WRAPPERS_def PARSER_RESERVATION_CAPACITY_def)
  then show ?thesis using parse_sound [OF p] by (auto simp: g held_def opened_def)
qed

lemma open_complete:
  assumes g: "generous H" and n: "length F < 2 ^ 47" and F: "F = gguf_bytes es ts @ rest" and ok: "gguf_ok es ts al (length F)"
  shows "\<exists>g x'. open_with_budget H w F (of_nat (length F)) x = (Ok g, x') \<and> opened g F (of_nat (length F)) es ts al"
proof -
  obtain y where y: "prepare_reservation_storage H w x = (Ok [], y)" using prepare_run [OF g] by blast
  obtain r z where z: "gh_reserve H PARSER_BUFFER_BYTES ''GGUF parser buffer'' y = (Ok r, z)" using g unfolding generous_def by blast
  have "length ([] :: 'b list) < PARSER_MAX_RETAINED_RESERVATION_WRAPPERS"
    by (simp add: PARSER_MAX_RETAINED_RESERVATION_WRAPPERS_def PARSER_RESERVATION_CAPACITY_def)
  from parse_complete [OF g n this F ok, of "Some r" z] obtain p x' where
    "parse_with_prepared_budget H F (of_nat (length F)) (Some r) [] z = (Ok p, x')" "held p es ts al" by blast
  then show ?thesis using y z by (auto simp: open_with_budget_def held_def opened_def)
qed

section \<open>Reads\<close>

lemma tensor_found: "distinct (map ti_name (gf_tensors g)) \<Longrightarrow> t \<in> set (gf_tensors g) \<Longrightarrow> tensor g (ti_name t) = Some t"
  by (auto simp: tensor_def find_Some_iff in_set_conv_nth distinct_conv_nth)

lemma file_read_inside:
  assumes "unat (rf_len f) = length (rf_file f)" and "unat offset + unat n \<le> length (rf_file f)"
  shows "file_read fits f offset n =
    (if fits (unat n) then Ok (take (unat n) (drop (unat offset) (rf_file f))) else Err (Allocation ''tensor bytes'' (unat n)))"
proof -
  have "length (rf_file f) < 2 ^ 64" using assms(1) unat_lt_2p [of "rf_len f"] by simp
  then have a: "checked_add offset n = Some (offset + n)" using assms(2) by (simp add: checked_add_def)
  have "\<not> rf_len f < offset + n" using checked_add_unat [OF a] assms by (simp add: word_less_nat_alt)
  moreover have "usize_of n ''tensor length'' = Ok (unat n)" using unat_lt_2p [of n] by (simp add: usize_of_def overflow_def)
  ultimately show ?thesis using a assms(2) by (simp add: file_read_def overflow_def)
qed

lemma file_read_calm: "file_read fits f a b \<noteq> Panic"
  by (auto simp: file_read_def no_panic)

lemma tensor_read_calm: "tensor_data fits g name \<noteq> Panic" "tensor_range fits g name a b \<noteq> Panic"
  by (auto simp: tensor_data_def tensor_range_def no_panic file_read_calm)

text \<open>The bytes of a tensor in the file.\<close>

definition tensor_content :: "('r, 'g) Gguf \<Rightarrow> TensorInfo \<Rightarrow> u8 list" where
  "tensor_content g t = take (unat (ti_n_bytes t)) (drop (unat (gf_data_offset g) + unat (ti_offset t)) (rf_file (gf_source g)))"

lemma reads_inside:
  assumes o: "opened g F n es ts al" and ok: "gguf_ok es ts al (unat n)" and n: "unat n = length F" and t: "t \<in> set ts"
  shows "length (tensor_content g t) = unat (ti_n_bytes t)"
    "tensor_data fits g (ti_name t) =
      (if fits (unat (ti_n_bytes t)) then Ok (tensor_content g t) else Err (Allocation ''tensor bytes'' (unat (ti_n_bytes t))))"
    "unat a + unat b \<le> unat (ti_n_bytes t) \<Longrightarrow> tensor_range fits g (ti_name t) a b =
      (if fits (unat b) then Ok (take (unat b) (drop (unat a) (tensor_content g t))) else Err (Allocation ''tensor bytes'' (unat b)))"
    "unat (ti_n_bytes t) < unat a + unat b \<Longrightarrow> \<exists>e. tensor_range fits g (ti_name t) a b = Err e"
proof -
  have d: "unat (gf_data_offset g) = data_start es ts al" and src: "gf_source g = \<lparr>rf_file = F, rf_len = n\<rparr>" and ts: "gf_tensors g = ts"
    using o by (simp_all add: opened_def)
  have found: "tensor g (ti_name t) = Some t" using ok t ts by (intro tensor_found) (simp_all add: gguf_ok_def)
  have inside: "unat (gf_data_offset g) + (unat (ti_offset t) + unat (ti_n_bytes t)) \<le> length F"
    using ok t n d by (auto simp: gguf_ok_def placed_def extent_def)
  have small: "length F < 2 ^ 64" using n unat_lt_2p [of n] by simp
  have add: "checked_add (gf_data_offset g) (ti_offset t) = Some (gf_data_offset g + ti_offset t)"
    using inside small by (simp add: checked_add_def)
  have un: "unat (gf_data_offset g + ti_offset t) = unat (gf_data_offset g) + unat (ti_offset t)" using checked_add_unat [OF add] .
  show "length (tensor_content g t) = unat (ti_n_bytes t)" using inside by (simp add: tensor_content_def src)
  show "tensor_data fits g (ti_name t) =
      (if fits (unat (ti_n_bytes t)) then Ok (tensor_content g t) else Err (Allocation ''tensor bytes'' (unat (ti_n_bytes t))))"
    using file_read_inside [of "gf_source g" "gf_data_offset g + ti_offset t" "ti_n_bytes t" fits] inside
    by (simp add: tensor_data_def found add overflow_def src n un tensor_content_def)
  show "tensor_range fits g (ti_name t) a b =
      (if fits (unat b) then Ok (take (unat b) (drop (unat a) (tensor_content g t))) else Err (Allocation ''tensor bytes'' (unat b)))"
    if le: "unat a + unat b \<le> unat (ti_n_bytes t)"
  proof -
    have "unat (ti_n_bytes t) < 2 ^ 64" using unat_lt_2p [of "ti_n_bytes t"] by simp
    then have ab: "checked_add a b = Some (a + b)" using le by (simp add: checked_add_def)
    have "\<not> ti_n_bytes t < a + b" using checked_add_unat [OF ab] le by (simp add: word_less_nat_alt)
    moreover have add2: "checked_add (gf_data_offset g + ti_offset t) a = Some (gf_data_offset g + ti_offset t + a)"
      using le inside small by (simp add: checked_add_def un)
    moreover have "unat (gf_data_offset g + ti_offset t + a) = unat (gf_data_offset g) + unat (ti_offset t) + unat a"
      using checked_add_unat [OF add2] un by simp
    moreover have "take (unat b) (drop (unat a) (tensor_content g t)) =
        take (unat b) (drop (unat (gf_data_offset g) + unat (ti_offset t) + unat a) F)"
      using le by (simp add: tensor_content_def src drop_take take_take min_def add.commute add.left_commute)
    ultimately show ?thesis
      using file_read_inside [of "gf_source g" "gf_data_offset g + ti_offset t + a" b fits] inside le
      by (simp add: tensor_range_def found add ab overflow_def src n)
  qed
  show "\<exists>e. tensor_range fits g (ti_name t) a b = Err e" if lt: "unat (ti_n_bytes t) < unat a + unat b"
  proof (cases "checked_add a b")
    case None
    then show ?thesis by (simp add: tensor_range_def found overflow_def)
  next
    case (Some s)
    then have "ti_n_bytes t < s" using checked_add_unat [OF Some] lt by (simp add: word_less_nat_alt)
    then show ?thesis using Some by (simp add: tensor_range_def found overflow_def)
  qed
qed


section \<open>Properties\<close>

text \<open>An allocator that always has room, for the budget without limit.\<close>

definition ample :: "('x, unit, unit) GgufHost \<Rightarrow> bool" where
  "ample H \<longleftrightarrow> (\<forall>w n x. fst (gh_alloc H w n x)) \<and> (\<forall>l c n x. fst (gh_grow H l c n x) = Some (l + n)) \<and>
     gh_slot_size H < 4096 \<and> gh_vec_size H < 4096 \<and> gh_tensor_size H < 4096 \<and> gh_string_size H < 4096 \<and>
     gh_name_size H < 4096 \<and> gh_entry_size H < 4096 \<and> gh_range_size H < 4096"

lemma ample_generous: "ample H \<Longrightarrow> generous (unlimited_budget H)"
  by (simp add: ample_def generous_def unlimited_budget_def)

text \<open>A file with one entry, an alignment of 64, and one tensor of two 32-bit floats.\<close>

definition demo_host :: "(unit, unit, unit) GgufHost" where
  "demo_host = \<lparr>gh_guard_metadata_bytes = \<lambda>_. 0, gh_reservation_metadata_bytes = \<lambda>_. 0, gh_reserve = \<lambda>_ _ x. (Ok (), x),
     gh_commit = \<lambda>_ x. (Ok (), x), gh_drop_reservation = \<lambda>_ x. x, gh_drop_guards = \<lambda>_ x. x, gh_alloc = \<lambda>_ _ x. (True, x),
     gh_grow = \<lambda>l _ n x. (Some (l + n), x), gh_slot_size = 16, gh_vec_size = 24, gh_tensor_size = 72, gh_string_size = 24,
     gh_name_size = 40, gh_entry_size = 56, gh_range_size = 32\<rparr>"

definition demo_entries :: "(u8 list \<times> MetadataValue) list" where
  "demo_entries = [(ALIGNMENT_KEY, VUint32 64)]"

definition demo_tensor :: TensorInfo where
  "demo_tensor = \<lparr>ti_name = [119], ti_shape = [2], ti_dtype = 0, ti_offset = 0, ti_n_bytes = 8\<rparr>"

definition demo_bytes :: "u8 list" where
  "demo_bytes = gguf_bytes demo_entries [demo_tensor] @ replicate 38 0 @ [0, 0, 128, 63, 0, 0, 0, 64]"

lemma demo_header_length: "length (gguf_bytes demo_entries [demo_tensor]) = 90"
  by (simp add: gguf_bytes_def enc_header_def GGUF_MAGIC_def demo_entries_def demo_tensor_def enc_entry_def enc_string_def
      ALIGNMENT_KEY_def enc_tensor_def enc_shape_def)

lemma demo_length: "length demo_bytes = 136"
  by (simp add: demo_bytes_def demo_header_length)

lemma demo_drop: "drop 128 demo_bytes = [0, 0, 128, 63, 0, 0, 0, 64]"
  by (simp add: demo_bytes_def demo_header_length)

lemma demo_start: "data_start demo_entries [demo_tensor] 64 = 128"
  by (simp add: data_start_def demo_header_length round_up_def)

lemma demo_entry_ok: "e \<in> set demo_entries \<Longrightarrow> entry_ok e"
  by (simp add: demo_entries_def entry_ok_def string_ok_def ALIGNMENT_KEY_def MAX_STRING_LEN_def)

lemma demo_tensor_ok: "tensor_ok 64 demo_tensor"
  by (simp add: demo_tensor_def tensor_ok_def string_ok_def MAX_STRING_LEN_def shape_ok_def tensor_bytes_def block_layout_def
      BLOCK_LAYOUTS_def at_index_def slice_def checked_product_def checked_div_def checked_mul_def overflow_def)

lemma demo_alignment: "alignment_of demo_entries 64"
  by (auto simp: alignment_of_def demo_entries_def intro: exI [of _ 6])

lemma demo_ok: "gguf_ok demo_entries [demo_tensor] 64 (length demo_bytes)"
  using demo_entry_ok demo_tensor_ok demo_alignment
  by (simp add: gguf_ok_def demo_length placed_def demo_start extent_def)
    (simp add: demo_tensor_def demo_entries_def)

lemma demo_ample: "ample demo_host"
  by (simp add: ample_def demo_host_def)

lemma demo_laws: "host_laws demo_host"
  by (auto simp: host_laws_def demo_host_def)

lemma demo_generous: "generous demo_host"
  by (simp add: generous_def demo_host_def)

lemma demo_opens:
  "\<exists>g x'. open_with_budget demo_host 16 demo_bytes 136 () = (Ok g, x') \<and> opened g demo_bytes 136 demo_entries [demo_tensor] 64"
  using open_complete [OF demo_generous _ _ demo_ok, of "replicate 38 0 @ [0, 0, 128, 63, 0, 0, 0, 64]" 16 "()"]
  by (simp add: demo_length) (simp add: demo_bytes_def)

text \<open>Opening a file never panics, whatever its bytes, its length and the answers of the
  budget and the allocator, and neither do the reads of an open file.\<close>

theorem gguf_never_panics:
  assumes "host_laws H"
  shows "fst (open_with_budget H w F n x) \<noteq> Panic \<and> tensor_data fits g name \<noteq> Panic \<and> tensor_range fits g name a b \<noteq> Panic"
  using open_calm [OF assms] tensor_read_calm by blast

theorem gguf_never_panics_witness:
  "fst (open_with_budget demo_host 16 [71, 71, 85] 3 ()) \<noteq> Panic"
  using gguf_never_panics [OF demo_laws, of 16 "[71, 71, 85]" 3 "()"] by blast

text \<open>C25: With the budget without limit and an allocator that has room, a file of less than
  \<open>2 ^ 47\<close> bytes opens with given metadata, tensors, alignment and data offset exactly when its
  bytes start with the encoding of entries with distinct keys and of these tensors, the
  alignment is a power of two that the entries give, each tensor is well formed and all of
  them are placed in the file without overlap; the metadata are the entries as a map.\<close>

theorem gguf_opens_exactly_the_format:
  assumes "ample H" and "length F < 2 ^ 47"
  shows "(\<exists>g x'. gguf_open H w F (of_nat (length F)) x = (Ok g, x') \<and> gf_metadata g = m \<and> gf_tensors g = ts \<and>
      gf_alignment g = al \<and> unat (gf_data_offset g) = d) \<longleftrightarrow>
    (\<exists>es rest. F = gguf_bytes es ts @ rest \<and> gguf_ok es ts al (length F) \<and> m = bt_collect es \<and> d = data_start es ts al)"
  (is "?L \<longleftrightarrow> ?R")
proof
  assume ?L
  then obtain g x' where o: "open_with_budget (unlimited_budget H) w F (of_nat (length F)) x = (Ok g, x')"
    and g: "gf_metadata g = m" "gf_tensors g = ts" "gf_alignment g = al" "unat (gf_data_offset g) = d" by (auto simp: gguf_open_def)
  have "unat (of_nat (length F) :: u64) = length F" using assms(2) by (simp add: unsigned_of_nat take_bit_nat_eq_self)
  then show ?R using open_sound [OF o] g by (auto simp: opened_def)
next
  assume ?R
  then show ?L using open_complete [OF ample_generous [OF assms(1)] assms(2)] by (fastforce simp: gguf_open_def opened_def)
qed

theorem gguf_opens_exactly_the_format_witness:
  "\<exists>g x'. gguf_open demo_host 16 demo_bytes (of_nat (length demo_bytes)) () = (Ok g, x') \<and> gf_metadata g = bt_collect demo_entries \<and>
    gf_tensors g = [demo_tensor] \<and> gf_alignment g = 64 \<and> unat (gf_data_offset g) = 128"
proof (rule gguf_opens_exactly_the_format [OF demo_ample, THEN iffD2])
  have "demo_bytes = gguf_bytes demo_entries [demo_tensor] @ (replicate 38 0 @ [0, 0, 128, 63, 0, 0, 0, 64])"
    by (simp add: demo_bytes_def)
  then show "\<exists>es rest. demo_bytes = gguf_bytes es [demo_tensor] @ rest \<and> gguf_ok es [demo_tensor] 64 (length demo_bytes) \<and>
      bt_collect demo_entries = bt_collect es \<and> 128 = data_start es [demo_tensor] 64"
    using demo_ok demo_start by metis
qed (simp add: demo_length)

text \<open>C26: Whatever the host, an accepted file is version 3, its alignment is a power of two, its
  tensors have distinct names, one to four nonzero dimensions, an aligned offset and the
  size of their blocks, and the bytes of each lie in the file, apart from those of the others.\<close>

theorem gguf_tensors_lie_apart:
  assumes "open_with_budget H w F n x = (Ok g, x')"
  shows "gf_version g = 3 \<and> (\<exists>k<32. unat (gf_alignment g) = 2 ^ k) \<and> distinct (map ti_name (gf_tensors g)) \<and>
    (\<forall>t\<in>set (gf_tensors g). length (ti_shape t) \<in> {1..4} \<and> 0 \<notin> set (ti_shape t) \<and>
       (unat (gf_data_offset g) + unat (ti_offset t)) mod unat (gf_alignment g) = 0 \<and>
       unat (gf_data_offset g) + unat (ti_offset t) + unat (ti_n_bytes t) \<le> unat n \<and>
       (\<exists>e b. block_layout (ti_dtype t) = Some (e, b) \<and> unat (ti_n_bytes t) * unat e = prod_list (map unat (ti_shape t)) * unat b)) \<and>
    (\<forall>t\<in>set (gf_tensors g). \<forall>u\<in>set (gf_tensors g). t \<noteq> u \<longrightarrow> apart (extent t) (extent u))"
proof -
  obtain es al where ok: "gguf_ok es (gf_tensors g) al (unat n)" and o: "opened g F n es (gf_tensors g) al"
    using open_sound [OF assms] by blast
  have al: "gf_alignment g = al" "alignment_of es al" and d: "unat (gf_data_offset g) = data_start es (gf_tensors g) al" and "gf_version g = 3"
    using o ok by (simp_all add: opened_def gguf_ok_def)
  have "\<exists>k<32. unat (32 :: u32) = 2 ^ k" by (rule exI [of _ 5]) simp
  then have "\<exists>k<32. unat al = 2 ^ k" using al(2) by (auto simp: alignment_of_def split: option.splits)
  have sizes: "length (ti_shape t) \<in> {1..4} \<and> 0 \<notin> set (ti_shape t) \<and>
       (unat (gf_data_offset g) + unat (ti_offset t)) mod unat al = 0 \<and>
       unat (gf_data_offset g) + unat (ti_offset t) + unat (ti_n_bytes t) \<le> unat n \<and>
       (\<exists>e b. block_layout (ti_dtype t) = Some (e, b) \<and> unat (ti_n_bytes t) * unat e = prod_list (map unat (ti_shape t)) * unat b)"
    if t: "t \<in> set (gf_tensors g)" for t
  proof -
    have T: "tensor_ok al t" "placed (data_start es (gf_tensors g) al) (gf_tensors g) (unat n)" using ok t by (auto simp: gguf_ok_def)
    obtain s ss where s: "ti_shape t = s # ss" using T(1) by (cases "ti_shape t") (auto simp: tensor_ok_def shape_ok_def)
    obtain e b where e: "block_layout (ti_dtype t) = Some (e, b)" "unat s mod unat e = 0"
      "unat (ti_n_bytes t) = unat s div unat e * unat b * prod_list (map unat ss)"
      using tensor_bytes_Ok T(1) s by (metis tensor_ok_def)
    have "unat s div unat e * unat e = unat s" using e(2) by (simp add: mod_eq_0_iff_dvd)
    then have "unat (ti_n_bytes t) * unat e = prod_list (map unat (ti_shape t)) * unat b"
      by (simp add: e(3) s)
    moreover have "(unat (gf_data_offset g) + unat (ti_offset t)) mod unat al = 0"
      using T(1) t by (auto simp: d data_start_def round_up_def tensor_ok_def)
    ultimately show ?thesis using T t e(1) d by (auto simp: tensor_ok_def shape_ok_def placed_def extent_def)
  qed
  have "\<forall>t\<in>set (gf_tensors g). \<forall>u\<in>set (gf_tensors g). t \<noteq> u \<longrightarrow> apart (extent t) (extent u)" "distinct (map ti_name (gf_tensors g))"
    using ok by (simp_all add: gguf_ok_def placed_def)
  then show ?thesis using sizes \<open>gf_version g = 3\<close> \<open>\<exists>k<32. unat al = 2 ^ k\<close> al(1) by blast
qed

theorem gguf_tensors_lie_apart_witness:
  "\<exists>g x'. open_with_budget demo_host 16 demo_bytes 136 () = (Ok g, x') \<and> gf_version g = 3"
proof -
  obtain g x' where o: "open_with_budget demo_host 16 demo_bytes 136 () = (Ok g, x')" using demo_opens by blast
  then show ?thesis using gguf_tensors_lie_apart [OF o] by blast
qed

text \<open>C27: While a file keeps the bytes it had when it was opened, reading a tensor gives exactly its
  bytes, a subrange gives those bytes of it, a subrange that leaves the tensor is an error, and
  nothing else fails but the allocation of the buffer.\<close>

theorem gguf_reads_stay_in_the_tensor:
  assumes "open_with_budget H w F n x = (Ok g, x')" and "unat n = length F" and "t \<in> set (gf_tensors g)"
  shows "length (tensor_content g t) = unat (ti_n_bytes t) \<and>
    tensor_data fits g (ti_name t) =
      (if fits (unat (ti_n_bytes t)) then Ok (tensor_content g t) else Err (Allocation ''tensor bytes'' (unat (ti_n_bytes t)))) \<and>
    (if unat a + unat b \<le> unat (ti_n_bytes t)
     then tensor_range fits g (ti_name t) a b =
      (if fits (unat b) then Ok (take (unat b) (drop (unat a) (tensor_content g t))) else Err (Allocation ''tensor bytes'' (unat b)))
     else \<exists>e. tensor_range fits g (ti_name t) a b = Err e)"
proof -
  obtain es al where ok: "gguf_ok es (gf_tensors g) al (unat n)" and o: "opened g F n es (gf_tensors g) al"
    using open_sound [OF assms(1)] by blast
  note R = reads_inside [OF o ok assms(2,3)]
  show ?thesis using R(1) R(2) [of fits] R(3) [of a b fits] R(4) [of a b fits] by (simp add: not_le)
qed

theorem gguf_reads_stay_in_the_tensor_witness:
  "\<exists>g x'. open_with_budget demo_host 16 demo_bytes 136 () = (Ok g, x') \<and> tensor_range (\<lambda>_. True) g [119] 4 4 = Ok [0, 0, 0, 64]"
proof -
  obtain g x' where o: "open_with_budget demo_host 16 demo_bytes 136 () = (Ok g, x')"
    and g: "opened g demo_bytes 136 demo_entries [demo_tensor] 64" using demo_opens by blast
  have t: "demo_tensor \<in> set (gf_tensors g)" using g by (simp add: opened_def)
  have "unat (gf_data_offset g) = 128" "gf_source g = \<lparr>rf_file = demo_bytes, rf_len = 136\<rparr>" using g demo_start by (simp_all add: opened_def)
  then have "tensor_content g demo_tensor = [0, 0, 128, 63, 0, 0, 0, 64]"
    by (simp add: tensor_content_def) (simp add: demo_tensor_def demo_drop)
  then show ?thesis
    using o gguf_reads_stay_in_the_tensor [OF o _ t, of "\<lambda>_. True" 4 4] by (simp add: demo_length) (simp add: demo_tensor_def)
qed

text \<open>An open file holds at most 63 reservations, the number of slots it made before it parsed
  less one, and at most one guard for every two bytes of its header, metadata and tensor table.\<close>

theorem gguf_guards_are_bounded:
  assumes "host_laws H" and "open_with_budget H w F n x = (Ok g, x')"
  shows "length (gf_reservations g) < PARSER_RESERVATION_CAPACITY \<and> 2 * length (gf_allocations g) \<le> length F"
  using open_sound [OF assms(2)] assms(1)
  by (auto simp: PARSER_MAX_RETAINED_RESERVATION_WRAPPERS_def PARSER_RESERVATION_CAPACITY_def)

theorem gguf_guards_are_bounded_witness:
  "\<exists>g x'. open_with_budget demo_host 16 demo_bytes 136 () = (Ok g, x') \<and> 2 * length (gf_allocations g) \<le> 136"
proof -
  obtain g x' where o: "open_with_budget demo_host 16 demo_bytes 136 () = (Ok g, x')" using demo_opens by blast
  then show ?thesis using gguf_guards_are_bounded [OF demo_laws o] by (auto simp: demo_length)
qed


end
