(* ===== verification/Gguf_Dequant.thy ===== *)
theory Gguf_Dequant
  imports Gguf_Input
begin

text \<open>
  The scalar dequantizers of \<open>crates/leone-gguf/src/ref_dequant.rs\<close>, the reference for every
  backend: for each block format, the values a row of bytes stands for. The operations on
  \<open>f32\<close> are a \<open>FloatOps\<close>, so two routines with equal results here are equal bit for bit.
  Every index is checked: one out of range would be a \<open>Panic\<close>. The panic of
  \<open>Vec::with_capacity\<close> on a capacity beyond the address space (rows of about \<open>2 ^ 60\<close> bytes) is
  not modelled. The contract of a format is the locale \<open>quant_format\<close>.
\<close>

section \<open>Floats, bytes and errors\<close>

text \<open>
  \<open>ff_of_int\<close> is the exact conversion of a small integer (\<open>f32::from\<close>, \<open>as f32\<close>),
  \<open>ff_of_half\<close> is \<open>f16::from_bits(..).to_f32()\<close>, \<open>ff_of_bits\<close> is \<open>f32::from_bits\<close>.
\<close>

record 'f FloatOps =
  ff_mul :: "'f \<Rightarrow> 'f \<Rightarrow> 'f"
  ff_sub :: "'f \<Rightarrow> 'f \<Rightarrow> 'f"
  ff_of_int :: "int \<Rightarrow> 'f"
  ff_of_half :: "u16 \<Rightarrow> 'f"
  ff_of_bits :: "u32 \<Rightarrow> 'f"
  ff_zero :: 'f

datatype DequantError = ElementCount nat nat | ByteLength nat nat | LengthOverflow

definition K_BLOCK_ELEMENTS :: nat where "K_BLOCK_ELEMENTS = 256"

definition validate_dequant :: "u8 list \<Rightarrow> nat \<Rightarrow> nat \<Rightarrow> nat \<Rightarrow> (unit, DequantError) outcome" where
  "validate_dequant bytes n_elems block_elems block_bytes =
     (if n_elems mod block_elems \<noteq> 0 then Err (ElementCount n_elems block_elems)
      else
        and_then (ok_or (Option.bind (if block_elems = 0 then None else Some (n_elems div block_elems))
            (\<lambda>blocks. usize_checked_mul blocks block_bytes)) LengthOverflow) (\<lambda>expected.
        if length bytes \<noteq> expected then Err (ByteLength (length bytes) expected) else Ok ()))"

fun chunks_exact :: "nat \<Rightarrow> 'a list \<Rightarrow> 'a list list" where
  "chunks_exact 0 xs = []"
| "chunks_exact (Suc w) xs = (if length xs < Suc w then [] else take (Suc w) xs # chunks_exact (Suc w) (drop (Suc w) xs))"

declare chunks_exact.simps(2) [simp del]

definition half_at :: "'f FloatOps \<Rightarrow> u8 list \<Rightarrow> nat \<Rightarrow> ('f, 'e) outcome" where
  "half_at ops bytes offset =
     and_then (at_index bytes offset) (\<lambda>a.
     and_then (at_index bytes (offset + 1)) (\<lambda>b. Ok (ff_of_half ops (from_le_bytes [a, b]))))"

definition scale_min :: "nat \<Rightarrow> u8 list \<Rightarrow> (u8 \<times> u8, 'e) outcome" where
  "scale_min index packed =
     (if index < 4 then
        and_then (at_index packed index) (\<lambda>a.
        and_then (at_index packed (index + 4)) (\<lambda>b. Ok (and a 63, and b 63)))
      else
        and_then (at_index packed (index + 4)) (\<lambda>b.
        and_then (at_index packed (index - 4)) (\<lambda>a.
        and_then (at_index packed index) (\<lambda>c.
        Ok (or (and b 0x0f) (push_bit 4 (drop_bit 6 a)), or (drop_bit 4 b) (push_bit 4 (drop_bit 6 c)))))))"

definition set_at :: "'a list \<Rightarrow> nat \<Rightarrow> 'a \<Rightarrow> ('a list, 'e) outcome" where
  "set_at xs i v = (if i < length xs then Ok (xs[i := v]) else Panic)"

text \<open>The loop over the blocks of a row: the values of each are appended to the output.\<close>

fun block_loop :: "(u8 list \<Rightarrow> ('f list, 'e) outcome) \<Rightarrow> u8 list list \<Rightarrow> 'f list \<Rightarrow> ('f list, 'e) outcome" where
  "block_loop block [] output = Ok output"
| "block_loop block (b # bs) output = and_then (block b) (\<lambda>vs. block_loop block bs (output @ vs))"

text \<open>A \<open>for\<close> loop whose body changes a state and may fail.\<close>

fun for_each :: "'i list \<Rightarrow> ('i \<Rightarrow> 's \<Rightarrow> ('s, 'e) outcome) \<Rightarrow> 's \<Rightarrow> ('s, 'e) outcome" where
  "for_each [] f s = Ok s"
| "for_each (i # is) f s = and_then (f i s) (for_each is f)"

section \<open>Formats\<close>

definition dequant_f32 :: "'f FloatOps \<Rightarrow> u8 list \<Rightarrow> nat \<Rightarrow> ('f list, DequantError) outcome" where
  "dequant_f32 ops bytes n =
     and_then (validate_dequant bytes n 1 4) (\<lambda>_.
     block_loop (\<lambda>v. and_then (at_index v 0) (\<lambda>a. and_then (at_index v 1) (\<lambda>b. and_then (at_index v 2) (\<lambda>c. and_then (at_index v 3) (\<lambda>d.
       Ok [ff_of_bits ops (from_le_bytes [a, b, c, d])]))))) (chunks_exact 4 bytes) [])"

definition dequant_f16 :: "'f FloatOps \<Rightarrow> u8 list \<Rightarrow> nat \<Rightarrow> ('f list, DequantError) outcome" where
  "dequant_f16 ops bytes n =
     and_then (validate_dequant bytes n 1 2) (\<lambda>_.
     block_loop (\<lambda>v. and_then (half_at ops v 0) (\<lambda>x. Ok [x])) (chunks_exact 2 bytes) [])"

text \<open>
  The two values a byte of a \<open>q5_0\<close> block pushes: its nibbles, each with a fifth bit of \<open>qh\<close>.
\<close>

definition q5_0_pair :: "'f FloatOps \<Rightarrow> 'f \<Rightarrow> u32 \<Rightarrow> nat \<Rightarrow> u8 \<Rightarrow> 'f list" where
  "q5_0_pair ops d qh j quant =
     (let high0 = ucast (and (push_bit 4 (drop_bit j qh)) 0x10) :: u8;
          high1 = ucast (and (drop_bit (j + 12) qh) 0x10) :: u8 in
      [ff_mul ops (ff_of_int ops (uint (or (and quant 0x0f) high0) - 16)) d,
       ff_mul ops (ff_of_int ops (uint (or (drop_bit 4 quant) high1) - 16)) d])"

definition reorder_halves :: "'f FloatOps \<Rightarrow> 'f list \<Rightarrow> nat \<Rightarrow> ('f list, 'e) outcome" where
  "reorder_halves ops vs block_elems =
     (if length vs < block_elems then Panic
      else
        let start = length vs - block_elems; block = drop start vs;
            reordered = fold (\<lambda>i r. r[i := block ! (i * 2), i + block_elems div 2 := block ! (i * 2 + 1)]) [0..<block_elems div 2]
              (replicate block_elems (ff_zero ops)) in
        Ok (take start vs @ reordered))"

fun q5_0_blocks :: "'f FloatOps \<Rightarrow> u8 list list \<Rightarrow> 'f list \<Rightarrow> ('f list, DequantError) outcome" where
  "q5_0_blocks ops [] output = Ok output"
| "q5_0_blocks ops (block # bs) output =
     and_then (half_at ops block 0) (\<lambda>d.
     and_then (at_index block 2) (\<lambda>a. and_then (at_index block 3) (\<lambda>b. and_then (at_index block 4) (\<lambda>c. and_then (at_index block 5) (\<lambda>e.
     let qh = from_le_bytes [a, b, c, e] :: u32 in
     and_then (slice block 6 22) (\<lambda>qs.
     and_then (reorder_halves ops (output @ concat (map (\<lambda>(j, quant). q5_0_pair ops d qh j quant) (List.enumerate 0 qs))) 32) (\<lambda>output.
     q5_0_blocks ops bs output)))))))"

definition dequant_q5_0 :: "'f FloatOps \<Rightarrow> u8 list \<Rightarrow> nat \<Rightarrow> ('f list, DequantError) outcome" where
  "dequant_q5_0 ops bytes n =
     and_then (validate_dequant bytes n 32 22) (\<lambda>_. q5_0_blocks ops (chunks_exact 22 bytes) [])"

definition q8_0_block :: "'f FloatOps \<Rightarrow> u8 list \<Rightarrow> ('f list, 'e) outcome" where
  "q8_0_block ops block =
     and_then (half_at ops block 0) (\<lambda>d.
     and_then (slice block 2 (length block)) (\<lambda>quants.
     Ok (map (\<lambda>quant. ff_mul ops (ff_of_int ops (sint quant)) d) quants)))"

definition dequant_q8_0 :: "'f FloatOps \<Rightarrow> u8 list \<Rightarrow> nat \<Rightarrow> ('f list, DequantError) outcome" where
  "dequant_q8_0 ops bytes n =
     and_then (validate_dequant bytes n 32 34) (\<lambda>_. block_loop (q8_0_block ops) (chunks_exact 34 bytes) [])"

text \<open>The scaled value of a code of the \<open>K\<close> formats: \<open>d * f32::from(code) - m\<close>.\<close>

definition scaled :: "'f FloatOps \<Rightarrow> 'f \<Rightarrow> 'f \<Rightarrow> u8 \<Rightarrow> 'f" where
  "scaled ops d m code = ff_sub ops (ff_mul ops d (ff_of_int ops (uint code))) m"

fun q4_k_chunks :: "'f FloatOps \<Rightarrow> 'f \<Rightarrow> 'f \<Rightarrow> u8 list \<Rightarrow> nat \<Rightarrow> u8 list list \<Rightarrow> ('f list, 'e) outcome" where
  "q4_k_chunks ops d dmin scales scale_index [] = Ok []"
| "q4_k_chunks ops d dmin scales scale_index (chunk # cs) =
     and_then (scale_min scale_index scales) (\<lambda>(scale0, min0).
     and_then (scale_min (scale_index + 1) scales) (\<lambda>(scale1, min1).
     let d0 = ff_mul ops d (ff_of_int ops (uint scale0)); d1 = ff_mul ops d (ff_of_int ops (uint scale1));
         m0 = ff_mul ops dmin (ff_of_int ops (uint min0)); m1 = ff_mul ops dmin (ff_of_int ops (uint min1)) in
     and_then (q4_k_chunks ops d dmin scales (scale_index + 2) cs) (\<lambda>rest.
     Ok (map (\<lambda>quant. scaled ops d0 m0 (and quant 0x0f)) chunk @ map (\<lambda>quant. scaled ops d1 m1 (drop_bit 4 quant)) chunk @ rest))))"

definition q4_k_block :: "'f FloatOps \<Rightarrow> u8 list \<Rightarrow> ('f list, 'e) outcome" where
  "q4_k_block ops block =
     and_then (half_at ops block 0) (\<lambda>d.
     and_then (half_at ops block 2) (\<lambda>dmin.
     and_then (slice block 4 16) (\<lambda>scales.
     and_then (slice block 16 144) (\<lambda>quants.
     q4_k_chunks ops d dmin scales 0 (chunks_exact 32 quants)))))"

definition dequant_q4_k :: "'f FloatOps \<Rightarrow> u8 list \<Rightarrow> nat \<Rightarrow> ('f list, DequantError) outcome" where
  "dequant_q4_k ops bytes n =
     and_then (validate_dequant bytes n K_BLOCK_ELEMENTS 144) (\<lambda>_. block_loop (q4_k_block ops) (chunks_exact 144 bytes) [])"

text \<open>One pass over a chunk of a \<open>q5_K\<close> block: the fifth bit of each code is a bit of \<open>high\<close>.\<close>

definition q5_k_pass :: "'f FloatOps \<Rightarrow> 'f \<Rightarrow> 'f \<Rightarrow> u8 list \<Rightarrow> u8 \<Rightarrow> (u8 \<Rightarrow> u8) \<Rightarrow> u8 list \<Rightarrow> ('f list, 'e) outcome" where
  "q5_k_pass ops d m high high_bit nibble chunk =
     collect_results (map (\<lambda>(i, quant). and_then (at_index high i) (\<lambda>h.
       Ok (scaled ops d m (nibble quant + (if and h high_bit \<noteq> 0 then 16 else 0))))) (List.enumerate 0 chunk))"

fun q5_k_chunks :: "'f FloatOps \<Rightarrow> 'f \<Rightarrow> 'f \<Rightarrow> u8 list \<Rightarrow> u8 list \<Rightarrow> nat \<Rightarrow> u8 \<Rightarrow> u8 \<Rightarrow> u8 list list \<Rightarrow> ('f list, 'e) outcome" where
  "q5_k_chunks ops d dmin scales high scale_index high0 high1 [] = Ok []"
| "q5_k_chunks ops d dmin scales high scale_index high0 high1 (chunk # cs) =
     and_then (scale_min scale_index scales) (\<lambda>(scale0, min0).
     and_then (scale_min (scale_index + 1) scales) (\<lambda>(scale1, min1).
     let d0 = ff_mul ops d (ff_of_int ops (uint scale0)); d1 = ff_mul ops d (ff_of_int ops (uint scale1));
         m0 = ff_mul ops dmin (ff_of_int ops (uint min0)); m1 = ff_mul ops dmin (ff_of_int ops (uint min1)) in
     and_then (q5_k_pass ops d0 m0 high high0 (\<lambda>quant. and quant 0x0f) chunk) (\<lambda>low.
     and_then (q5_k_pass ops d1 m1 high high1 (\<lambda>quant. drop_bit 4 quant) chunk) (\<lambda>up.
     and_then (q5_k_chunks ops d dmin scales high (scale_index + 2) (push_bit 2 high0) (push_bit 2 high1) cs) (\<lambda>rest.
     Ok (low @ up @ rest))))))"

definition q5_k_block :: "'f FloatOps \<Rightarrow> u8 list \<Rightarrow> ('f list, 'e) outcome" where
  "q5_k_block ops block =
     and_then (half_at ops block 0) (\<lambda>d.
     and_then (half_at ops block 2) (\<lambda>dmin.
     and_then (slice block 4 16) (\<lambda>scales.
     and_then (slice block 16 48) (\<lambda>high.
     and_then (slice block 48 176) (\<lambda>low.
     q5_k_chunks ops d dmin scales high 0 1 2 (chunks_exact 32 low))))))"

definition dequant_q5_k :: "'f FloatOps \<Rightarrow> u8 list \<Rightarrow> nat \<Rightarrow> ('f list, DequantError) outcome" where
  "dequant_q5_k ops bytes n =
     and_then (validate_dequant bytes n K_BLOCK_ELEMENTS 176) (\<lambda>_. block_loop (q5_k_block ops) (chunks_exact 176 bytes) [])"

text \<open>
  One index of a half of a \<open>q6_K\<close> block: four values, written 32 apart. A code of six bits less
  32 fits \<open>i8\<close>.
\<close>

definition q6_code :: "u8 \<Rightarrow> u8 \<Rightarrow> int" where
  "q6_code low high = uint (or low (push_bit 4 high)) - 32"

definition q6_value :: "'f FloatOps \<Rightarrow> 'f \<Rightarrow> u8 \<Rightarrow> int \<Rightarrow> 'f" where
  "q6_value ops d scale code = ff_mul ops (ff_mul ops d (ff_of_int ops (sint scale))) (ff_of_int ops code)"

definition q6_k_item :: "'f FloatOps \<Rightarrow> 'f \<Rightarrow> u8 list \<Rightarrow> u8 list \<Rightarrow> u8 list \<Rightarrow> nat \<Rightarrow> nat \<Rightarrow> 'f list \<Rightarrow> ('f list, 'e) outcome" where
  "q6_k_item ops d low high scales base i output =
     and_then (at_index low i) (\<lambda>l0.
     and_then (at_index high i) (\<lambda>h.
     and_then (at_index low (i + 32)) (\<lambda>l1.
     and_then (at_index scales (i div 16)) (\<lambda>s0.
     and_then (set_at output (base + i) (q6_value ops d s0 (q6_code (and l0 0x0f) (and h 3)))) (\<lambda>output.
     and_then (at_index scales (i div 16 + 2)) (\<lambda>s1.
     and_then (set_at output (base + i + 32) (q6_value ops d s1 (q6_code (and l1 0x0f) (and (drop_bit 2 h) 3)))) (\<lambda>output.
     and_then (at_index scales (i div 16 + 4)) (\<lambda>s2.
     and_then (set_at output (base + i + 64) (q6_value ops d s2 (q6_code (drop_bit 4 l0) (and (drop_bit 4 h) 3)))) (\<lambda>output.
     and_then (at_index scales (i div 16 + 6)) (\<lambda>s3.
     set_at output (base + i + 96) (q6_value ops d s3 (q6_code (drop_bit 4 l1) (and (drop_bit 6 h) 3)))))))))))))"

definition q6_k_half :: "'f FloatOps \<Rightarrow> 'f \<Rightarrow> u8 list \<Rightarrow> u8 list \<Rightarrow> u8 list \<Rightarrow> nat \<Rightarrow> nat \<Rightarrow> 'f list \<Rightarrow> ('f list, 'e) outcome" where
  "q6_k_half ops d low high scales output_base half_index output =
     and_then (slice low (half_index * 64) (length low)) (\<lambda>low.
     and_then (slice high (half_index * 32) (length high)) (\<lambda>high.
     and_then (slice scales (half_index * 8) (length scales)) (\<lambda>scales.
     for_each [0..<32] (q6_k_item ops d low high scales (output_base + half_index * 128)) output)))"

fun q6_k_blocks :: "'f FloatOps \<Rightarrow> nat \<Rightarrow> u8 list list \<Rightarrow> 'f list \<Rightarrow> ('f list, DequantError) outcome" where
  "q6_k_blocks ops block_index [] output = Ok output"
| "q6_k_blocks ops block_index (block # bs) output =
     and_then (slice block 0 128) (\<lambda>low.
     and_then (slice block 128 192) (\<lambda>high.
     and_then (slice block 192 208) (\<lambda>scales.
     and_then (half_at ops block 208) (\<lambda>d.
     and_then (q6_k_half ops d low high scales (block_index * K_BLOCK_ELEMENTS) 0 output) (\<lambda>output.
     and_then (q6_k_half ops d low high scales (block_index * K_BLOCK_ELEMENTS) 1 output) (\<lambda>output.
     q6_k_blocks ops (block_index + 1) bs output))))))"

definition dequant_q6_k :: "'f FloatOps \<Rightarrow> u8 list \<Rightarrow> nat \<Rightarrow> ('f list, DequantError) outcome" where
  "dequant_q6_k ops bytes n =
     and_then (validate_dequant bytes n K_BLOCK_ELEMENTS 210) (\<lambda>_. q6_k_blocks ops 0 (chunks_exact 210 bytes) (replicate n (ff_zero ops)))"

section \<open>The contract of a format\<close>

lemma for_each_append: "for_each (is @ js) f s = and_then (for_each is f s) (for_each js f)"
proof (induction "is" arbitrary: s)
  case (Cons i "is")
  then show ?case by (cases "f i s") simp_all
qed simp

lemma at_index_in [simp]: "i < length xs \<Longrightarrow> at_index xs i = Ok (xs ! i)"
  by (simp add: at_index_def)

lemma slice_in [simp]: "a \<le> b \<Longrightarrow> b \<le> length xs \<Longrightarrow> slice xs a b = Ok (take (b - a) (drop a xs))"
  by (simp add: slice_def)

lemma half_at_in: "i + 1 < length xs \<Longrightarrow> half_at ops xs i = Ok (ff_of_half ops (from_le_bytes [xs ! i, xs ! (i + 1)]))"
  by (simp add: half_at_def)

lemma scale_min_in: "i < 8 \<Longrightarrow> length xs = 12 \<Longrightarrow> \<exists>s m. scale_min i xs = Ok (s, m)"
  by (auto simp: scale_min_def)

lemma chunks_exact_step:
  "0 < w \<Longrightarrow> chunks_exact w xs = (if length xs < w then [] else take w xs # chunks_exact w (drop w xs))"
  using chunks_exact.simps(2) [of "w - 1" xs] by simp

lemma chunks_exact_lengths: "b \<in> set (chunks_exact w xs) \<Longrightarrow> length b = w"
proof (induction w xs rule: chunks_exact.induct)
  case (2 w xs)
  then show ?case using chunks_exact.simps(2) [of w xs] by (cases "length xs < Suc w") auto
qed simp

lemma chunks_exact_whole:
  "0 < w \<Longrightarrow> length xs = n * w \<Longrightarrow> length (chunks_exact w xs) = n \<and> concat (chunks_exact w xs) = xs"
proof (induction n arbitrary: xs)
  case 0
  then show ?case by (simp add: chunks_exact_step)
next
  case (Suc n)
  then show ?case using Suc.IH [of "drop w xs"] by (simp add: chunks_exact_step)
qed

lemma chunks_exact_nth: "0 < w \<Longrightarrow> length xs = n * w \<Longrightarrow> i < n \<Longrightarrow> chunks_exact w xs ! i = take w (drop (i * w) xs)"
proof (induction n arbitrary: xs i)
  case (Suc n)
  then show ?case using Suc.IH [of "drop w xs"] by (cases i) (simp_all add: chunks_exact_step add.commute)
qed simp

text \<open>
  A format turns every block of its size into a fixed number of values; a row of whole blocks
  then has as many values as it declares, and any other row is refused.
\<close>

locale quant_format =
  fixes block :: "u8 list \<Rightarrow> ('f list, DequantError) outcome" and elems bytes_per_block :: nat
  assumes sizes: "0 < elems" "0 < bytes_per_block"
    and total: "length b = bytes_per_block \<Longrightarrow> \<exists>vs. block b = Ok vs \<and> length vs = elems"
begin

lemma loop_total:
  "(\<forall>b\<in>set bs. length b = bytes_per_block) \<Longrightarrow> \<exists>vs. block_loop block bs acc = Ok vs \<and> length vs = length acc + length bs * elems"
proof (induction bs arbitrary: acc)
  case (Cons b bs)
  then obtain vs where "block b = Ok vs" "length vs = elems" using total by auto
  then show ?case using Cons.IH [of "acc @ vs"] Cons.prems by (auto simp: add.assoc)
qed simp

lemma row_total:
  assumes "\<And>out. run (chunks_exact bytes_per_block bytes) out = block_loop block (chunks_exact bytes_per_block bytes) out"
  shows "if n mod elems = 0 \<and> n div elems * bytes_per_block < usize_limit \<and> length bytes = n div elems * bytes_per_block
    then \<exists>vs. and_then (validate_dequant bytes n elems bytes_per_block) (\<lambda>_. run (chunks_exact bytes_per_block bytes) []) = Ok vs \<and> length vs = n
    else \<exists>e. and_then (validate_dequant bytes n elems bytes_per_block) (\<lambda>_. run (chunks_exact bytes_per_block bytes) []) = Err e"
proof (cases "n mod elems = 0 \<and> n div elems * bytes_per_block < usize_limit \<and> length bytes = n div elems * bytes_per_block")
  case True
  let ?bs = "chunks_exact bytes_per_block bytes"
  have "length ?bs = n div elems" using chunks_exact_whole [of bytes_per_block bytes "n div elems"] sizes True by simp
  moreover have "n div elems * elems = n" using True by (simp add: mod_eq_0_iff_dvd)
  moreover obtain vs where "block_loop block ?bs [] = Ok vs" "length vs = length ?bs * elems"
    using loop_total [of ?bs "[]"] chunks_exact_lengths by auto
  ultimately show ?thesis using True sizes assms by (simp add: validate_dequant_def usize_checked_mul_def)
next
  case False
  have "\<exists>e. validate_dequant bytes n elems bytes_per_block = Err e"
    using False sizes by (auto simp: validate_dequant_def usize_checked_mul_def)
  then show ?thesis using False by auto
qed

end

end
