(* ===== verification/Dequant_Formats.thy ===== *)
theory Dequant_Formats
  imports Gguf_Dequant
begin

text \<open>
  The formats of \<open>ref_dequant.rs\<close> meet the contract \<open>quant_format\<close>; the two that write into
  the output in place (\<open>q5_0\<close>, \<open>q6_K\<close>) are followed separately.
\<close>

section \<open>Formats that append blocks\<close>

interpretation q8_0: quant_format "q8_0_block ops" 32 34 for ops
  by unfold_locales (auto simp: q8_0_block_def half_at_in)

lemma q4_k_chunks_total:
  "length scales = 12 \<Longrightarrow> i + 2 * length cs \<le> 8 \<Longrightarrow> \<forall>c\<in>set cs. length c = 32 \<Longrightarrow>
   \<exists>vs. q4_k_chunks ops d dmin scales i cs = Ok vs \<and> length vs = 64 * length cs"
proof (induction cs arbitrary: i)
  case (Cons c cs)
  then obtain s m s' m' where "scale_min i scales = (Ok (s, m) :: (u8 \<times> u8, 'b) outcome)"
    "scale_min (i + 1) scales = (Ok (s', m') :: (u8 \<times> u8, 'b) outcome)"
    using scale_min_in [of i scales] scale_min_in [of "i + 1" scales] by auto
  then show ?case using Cons.IH [of "i + 2"] Cons.prems by (auto simp: Let_def)
qed simp

lemma chunks_of_128:
  "length xs = 128 \<Longrightarrow> length (chunks_exact 32 xs) = 4 \<and> (\<forall>c\<in>set (chunks_exact 32 xs). length c = 32)"
  using chunks_exact_whole [of 32 xs 4] chunks_exact_lengths by auto

interpretation q4_k: quant_format "q4_k_block ops" K_BLOCK_ELEMENTS 144 for ops
proof unfold_locales
  fix b :: "u8 list"
  assume b: "length b = 144"
  let ?cs = "chunks_exact 32 (take 128 (drop 16 b))"
  have cs: "length ?cs = 4" "\<forall>c\<in>set ?cs. length c = 32" using chunks_of_128 [of "take 128 (drop 16 b)"] b by auto
  obtain vs where "q4_k_chunks ops (ff_of_half ops (from_le_bytes [b ! 0, b ! 1])) (ff_of_half ops (from_le_bytes [b ! 2, b ! 3]))
      (take 12 (drop 4 b)) 0 ?cs = (Ok vs :: (_, DequantError) outcome)" "length vs = 64 * length ?cs"
    using q4_k_chunks_total [of "take 12 (drop 4 b)" 0 ?cs] cs b by fastforce
  then show "\<exists>vs. q4_k_block ops b = (Ok vs :: (_, DequantError) outcome) \<and> length vs = K_BLOCK_ELEMENTS"
    using b cs(1) by (simp add: q4_k_block_def half_at_in K_BLOCK_ELEMENTS_def)
qed (simp_all add: K_BLOCK_ELEMENTS_def)

lemma q5_k_pass_total:
  assumes "length high = 32" and "length c = 32"
  shows "\<exists>vs. q5_k_pass ops d m high hb nibble c = (Ok vs :: ('f list, 'e) outcome) \<and> length vs = 32"
proof -
  let ?f = "\<lambda>(i, quant). scaled ops d m (nibble quant + (if and (high ! i) hb \<noteq> 0 then 16 else 0))"
  have "q5_k_pass ops d m high hb nibble c = (Ok (map ?f (List.enumerate 0 c)) :: ('f list, 'e) outcome)"
    unfolding q5_k_pass_def by (rule collect_results_map) (use assms in \<open>auto simp: in_set_enumerate_eq\<close>)
  then show ?thesis using assms(2) by simp
qed

lemma q5_k_chunks_total:
  "length scales = 12 \<Longrightarrow> length high = 32 \<Longrightarrow> i + 2 * length cs \<le> 8 \<Longrightarrow> \<forall>c\<in>set cs. length c = 32 \<Longrightarrow>
   \<exists>vs. q5_k_chunks ops d dmin scales high i h0 h1 cs = Ok vs \<and> length vs = 64 * length cs"
proof (induction cs arbitrary: i h0 h1)
  case (Cons c cs)
  then obtain s m s' m' where sm: "scale_min i scales = (Ok (s, m) :: (u8 \<times> u8, 'b) outcome)"
    "scale_min (i + 1) scales = (Ok (s', m') :: (u8 \<times> u8, 'b) outcome)"
    using scale_min_in [of i scales] scale_min_in [of "i + 1" scales] by auto
  have pass: "\<exists>vs. q5_k_pass ops d m high hb nibble c = (Ok vs :: ('a list, 'b) outcome) \<and> length vs = 32" for d m hb nibble
    using q5_k_pass_total Cons.prems by auto
  obtain low where low: "q5_k_pass ops (ff_mul ops d (ff_of_int ops (uint s))) (ff_mul ops dmin (ff_of_int ops (uint m))) high h0 (\<lambda>quant. and quant 0x0f) c
      = (Ok low :: ('a list, 'b) outcome)" "length low = 32" using pass by blast
  obtain up where up: "q5_k_pass ops (ff_mul ops d (ff_of_int ops (uint s'))) (ff_mul ops dmin (ff_of_int ops (uint m'))) high h1 (\<lambda>quant. drop_bit 4 quant) c
      = (Ok up :: ('a list, 'b) outcome)" "length up = 32" using pass by blast
  obtain rest where "q5_k_chunks ops d dmin scales high (i + 2) (push_bit 2 h0) (push_bit 2 h1) cs = (Ok rest :: ('a list, 'b) outcome)"
    "length rest = 64 * length cs" using Cons.IH [of "i + 2" "push_bit 2 h0" "push_bit 2 h1"] Cons.prems by auto
  then show ?case using sm low up by (simp add: Let_def)
qed simp

interpretation q5_k: quant_format "q5_k_block ops" K_BLOCK_ELEMENTS 176 for ops
proof unfold_locales
  fix b :: "u8 list"
  assume b: "length b = 176"
  let ?cs = "chunks_exact 32 (take 128 (drop 48 b))"
  have cs: "length ?cs = 4" "\<forall>c\<in>set ?cs. length c = 32" using chunks_of_128 [of "take 128 (drop 48 b)"] b by auto
  obtain vs where "q5_k_chunks ops (ff_of_half ops (from_le_bytes [b ! 0, b ! 1])) (ff_of_half ops (from_le_bytes [b ! 2, b ! 3]))
      (take 12 (drop 4 b)) (take 32 (drop 16 b)) 0 1 2 ?cs = (Ok vs :: (_, DequantError) outcome)" "length vs = 64 * length ?cs"
    using q5_k_chunks_total [of "take 12 (drop 4 b)" "take 32 (drop 16 b)" 0 ?cs] cs b by fastforce
  then show "\<exists>vs. q5_k_block ops b = (Ok vs :: (_, DequantError) outcome) \<and> length vs = K_BLOCK_ELEMENTS"
    using b cs(1) by (simp add: q5_k_block_def half_at_in K_BLOCK_ELEMENTS_def)
qed (simp_all add: K_BLOCK_ELEMENTS_def)

section \<open>The halves of \<open>q5_0\<close>\<close>

lemma reorder_fold:
  "k \<le> h \<Longrightarrow> length r = 2 * h \<Longrightarrow>
   (let q = fold (\<lambda>i r. r[i := b ! (i * 2), i + h := b ! (i * 2 + 1)]) [0..<k] r in
    length q = 2 * h \<and> (\<forall>i<k. q ! i = b ! (i * 2) \<and> q ! (i + h) = b ! (i * 2 + 1)))"
proof (induction k)
  case (Suc k)
  then show ?case by (auto simp: Let_def less_Suc_eq nth_list_update)
qed simp

lemma reorder_run:
  assumes "length b = 2 * h"
  shows "reorder_halves ops (xs @ b) (2 * h) = Ok (xs @ map (\<lambda>i. b ! (i * 2)) [0..<h] @ map (\<lambda>i. b ! (i * 2 + 1)) [0..<h])"
proof -
  let ?q = "fold (\<lambda>i r. r[i := b ! (i * 2), i + h := b ! (i * 2 + 1)]) [0..<h] (replicate (2 * h) (ff_zero ops))"
  have q: "length ?q = 2 * h" "\<And>i. i < h \<Longrightarrow> ?q ! i = b ! (i * 2) \<and> ?q ! (i + h) = b ! (i * 2 + 1)"
    using reorder_fold [of h h "replicate (2 * h) (ff_zero ops)" b] by (simp_all add: Let_def)
  have "?q = map (\<lambda>i. b ! (i * 2)) [0..<h] @ map (\<lambda>i. b ! (i * 2 + 1)) [0..<h]"
  proof (rule nth_equalityI)
    fix i assume "i < length ?q"
    then show "?q ! i = (map (\<lambda>i. b ! (i * 2)) [0..<h] @ map (\<lambda>i. b ! (i * 2 + 1)) [0..<h]) ! i"
      using q(1) q(2) [of i] q(2) [of "i - h"] by (cases "i < h") (simp_all add: nth_append)
  qed (use q(1) in simp)
  then show ?thesis using assms by (simp add: reorder_halves_def Let_def)
qed

lemma pairs_nth:
  "i < length xs \<Longrightarrow> concat (map (\<lambda>x. [f x, g x]) xs) ! (i * 2) = f (xs ! i) \<and> concat (map (\<lambda>x. [f x, g x]) xs) ! (i * 2 + 1) = g (xs ! i)"
proof (induction xs arbitrary: i)
  case (Cons x xs)
  then show ?case by (cases i) auto
qed simp

text \<open>A block of \<open>q5_0\<close>: the values of the low nibbles, then those of the high nibbles.\<close>

definition q5_0_values :: "'f FloatOps \<Rightarrow> u8 list \<Rightarrow> 'f list" where
  "q5_0_values ops block =
     (let d = ff_of_half ops (from_le_bytes [block ! 0, block ! 1]);
          qh = from_le_bytes [block ! 2, block ! 3, block ! 4, block ! 5] :: u32 in
      map (\<lambda>j. q5_0_pair ops d qh j (block ! (6 + j)) ! 0) [0..<16] @ map (\<lambda>j. q5_0_pair ops d qh j (block ! (6 + j)) ! 1) [0..<16])"

lemma q5_0_blocks_loop:
  "\<forall>b\<in>set bs. length b = 22 \<Longrightarrow> q5_0_blocks ops bs out = block_loop (\<lambda>b. Ok (q5_0_values ops b)) bs out"
proof (induction bs arbitrary: out)
  case (Cons b bs)
  have b: "length b = 22" using Cons.prems by simp
  let ?d = "ff_of_half ops (from_le_bytes [b ! 0, b ! 1])" and ?qh = "from_le_bytes [b ! 2, b ! 3, b ! 4, b ! 5] :: u32"
  let ?qs = "List.enumerate 0 (take 16 (drop 6 b))"
  let ?f = "\<lambda>(j, q). q5_0_pair ops ?d ?qh j q ! 0" and ?g = "\<lambda>(j, q). q5_0_pair ops ?d ?qh j q ! 1"
  have pair: "(\<lambda>(j, quant). q5_0_pair ops ?d ?qh j quant) = (\<lambda>x. [?f x, ?g x])" by (auto simp: fun_eq_iff q5_0_pair_def Let_def)
  let ?pairs = "concat (map (\<lambda>x. [?f x, ?g x]) ?qs)"
  have "length ?pairs = 2 * 16" using b by (simp add: length_concat comp_def sum_list_triv)
  then have "reorder_halves ops (out @ ?pairs) (2 * 16) =
      (Ok (out @ map (\<lambda>i. ?pairs ! (i * 2)) [0..<16] @ map (\<lambda>i. ?pairs ! (i * 2 + 1)) [0..<16]) :: ('a list, DequantError) outcome)"
    by (rule reorder_run)
  moreover have "map (\<lambda>i. ?pairs ! (i * 2)) [0..<16] = map (\<lambda>j. q5_0_pair ops ?d ?qh j (b ! (6 + j)) ! 0) [0..<16]"
    "map (\<lambda>i. ?pairs ! (i * 2 + 1)) [0..<16] = map (\<lambda>j. q5_0_pair ops ?d ?qh j (b ! (6 + j)) ! 1) [0..<16]"
    using pairs_nth [of _ ?qs ?f ?g] b by (simp_all add: nth_enumerate_eq del: upt_rec_numeral)
  ultimately have "reorder_halves ops (out @ ?pairs) 32 = (Ok (out @ q5_0_values ops b) :: ('a list, DequantError) outcome)"
    by (simp add: q5_0_values_def Let_def)
  then show ?case using Cons.IH Cons.prems b unfolding pair [symmetric] by (simp add: half_at_in Let_def)
qed simp

interpretation q5_0: quant_format "\<lambda>b. Ok (q5_0_values ops b)" 32 22 for ops
  by unfold_locales (simp_all add: q5_0_values_def Let_def)

section \<open>The writes of \<open>q6_K\<close>\<close>

lemma set_at_in: "i < length xs \<Longrightarrow> set_at xs i v = Ok (xs[i := v])"
  by (simp add: set_at_def)

lemma q6_k_item_total:
  assumes "64 \<le> length low" and "32 \<le> length high" and "8 \<le> length scales" and "i < 32" and "base + 128 \<le> length out"
  shows "\<exists>vs. q6_k_item ops d low high scales base i out = Ok vs \<and> length vs = length out"
proof -
  have "i div 16 < 2" using assms(4) by auto
  then show ?thesis using assms by (simp add: q6_k_item_def set_at_in)
qed

lemma q6_k_items_total:
  assumes "64 \<le> length low" and "32 \<le> length high" and "8 \<le> length scales"
  shows "base + 128 \<le> length out \<Longrightarrow> \<forall>i\<in>set is'. i < 32 \<Longrightarrow>
    \<exists>vs. for_each is' (q6_k_item ops d low high scales base) out = Ok vs \<and> length vs = length out"
proof (induction is' arbitrary: out)
  case (Cons i is')
  obtain vs where "q6_k_item ops d low high scales base i out = (Ok vs :: ('a list, 'b) outcome)" "length vs = length out"
    using q6_k_item_total [OF assms, of i base out ops d] Cons.prems by auto
  then show ?case using Cons.IH [of vs] Cons.prems by auto
qed simp

lemma q6_k_half_total:
  assumes "length low = 128" and "length high = 64" and "length scales = 16" and "h < 2" and "base + 256 \<le> length out"
  shows "\<exists>vs. q6_k_half ops d low high scales base h out = Ok vs \<and> length vs = length out"
proof -
  have "h = 0 \<or> h = 1" using assms(4) by auto
  then show ?thesis
    using q6_k_items_total [of "drop (h * 64) low" "drop (h * 32) high" "drop (h * 8) scales" "base + h * 128" out "[0..<32]" ops d] assms
    by (auto simp: q6_k_half_def)
qed

lemma q6_k_blocks_total:
  "\<forall>b\<in>set bs. length b = 210 \<Longrightarrow> (k + length bs) * 256 \<le> length out \<Longrightarrow>
   \<exists>vs. q6_k_blocks ops k bs out = Ok vs \<and> length vs = length out"
proof (induction bs arbitrary: k out)
  case (Cons b bs)
  let ?low = "take 128 b" and ?high = "take 64 (drop 128 b)" and ?scales = "take 16 (drop 192 b)"
  have b: "length b = 210" "length ?low = 128" "length ?high = 64" "length ?scales = 16" using Cons.prems by simp_all
  have room: "k * 256 + 256 \<le> length out" using Cons.prems(2) by simp
  let ?d = "ff_of_half ops (from_le_bytes [b ! 208, b ! 209])"
  obtain v where v: "q6_k_half ops ?d ?low ?high ?scales (k * 256) 0 out = (Ok v :: ('a list, DequantError) outcome)" "length v = length out"
    using q6_k_half_total [OF b(2-4), of 0 "k * 256" out ops ?d] room by auto
  obtain w where w: "q6_k_half ops ?d ?low ?high ?scales (k * 256) 1 v = (Ok w :: ('a list, DequantError) outcome)" "length w = length out"
    using q6_k_half_total [OF b(2-4), of 1 "k * 256" v ops ?d] room v(2) by auto
  then show ?case using Cons.IH [of "k + 1" w] Cons.prems b(1) v(1)
    by (auto simp: half_at_in K_BLOCK_ELEMENTS_def)
qed simp

lemma q6_k_total:
  "if n mod 256 = 0 \<and> n div 256 * 210 < usize_limit \<and> length bytes = n div 256 * 210
   then \<exists>vs. dequant_q6_k ops bytes n = Ok vs \<and> length vs = n else \<exists>e. dequant_q6_k ops bytes n = Err e"
proof (cases "n mod 256 = 0 \<and> n div 256 * 210 < usize_limit \<and> length bytes = n div 256 * 210")
  case True
  have "length (chunks_exact 210 bytes) = n div 256" using chunks_exact_whole [of 210 bytes "n div 256"] True by simp
  moreover have "n div 256 * 256 = n" using True by (simp add: mod_eq_0_iff_dvd)
  ultimately show ?thesis
    using q6_k_blocks_total [of "chunks_exact 210 bytes" 0 "replicate n (ff_zero ops)" ops] True chunks_exact_lengths
    by (auto simp: dequant_q6_k_def validate_dequant_def usize_checked_mul_def K_BLOCK_ELEMENTS_def)
next
  case False
  then show ?thesis by (auto simp: dequant_q6_k_def validate_dequant_def usize_checked_mul_def K_BLOCK_ELEMENTS_def)
qed

end
