(* ===== verification/Dequant_Props.thy ===== *)
theory Dequant_Props
  imports Dequant_Formats
begin

text \<open>
  All seven formats of \<open>ref_dequant.rs\<close> are total: rows of the size their element count says
  are converted, every other row is refused (the capacity panic of an output vector aside, which
  \<open>Gguf_Dequant\<close> leaves out).
\<close>

section \<open>Every format\<close>

text \<open>Rows of whole blocks, of the size their element count says, become that many values; every other row is refused.\<close>

definition converts_rows :: "nat \<Rightarrow> nat \<Rightarrow> (u8 list \<Rightarrow> nat \<Rightarrow> ('f list, DequantError) outcome) \<Rightarrow> bool" where
  "converts_rows elems width convert \<longleftrightarrow>
     (\<forall>bytes n. if n mod elems = 0 \<and> n div elems * width < usize_limit \<and> length bytes = n div elems * width
       then \<exists>vs. convert bytes n = Ok vs \<and> length vs = n else \<exists>e. convert bytes n = Err e)"

context quant_format
begin

lemma rows:
  assumes "\<And>bs out. \<forall>b\<in>set bs. length b = bytes_per_block \<Longrightarrow> run bs out = block_loop block bs out"
  shows "converts_rows elems bytes_per_block
    (\<lambda>bytes n. and_then (validate_dequant bytes n elems bytes_per_block) (\<lambda>_. run (chunks_exact bytes_per_block bytes) []))"
  unfolding converts_rows_def
proof (intro allI row_total)
  fix bytes n out
  show "run (chunks_exact bytes_per_block bytes) out = block_loop block (chunks_exact bytes_per_block bytes) out"
    by (intro assms) (auto dest: chunks_exact_lengths)
qed

lemmas appended_rows = rows [OF refl]

end

interpretation f32: quant_format "\<lambda>v. and_then (at_index v 0) (\<lambda>a. and_then (at_index v 1) (\<lambda>b. and_then (at_index v 2) (\<lambda>c. and_then (at_index v 3) (\<lambda>d.
    Ok [ff_of_bits ops (from_le_bytes [a, b, c, d])]))))" 1 4 for ops
  by unfold_locales simp_all

interpretation f16: quant_format "\<lambda>v. and_then (half_at ops v 0) (\<lambda>x. Ok [x])" 1 2 for ops
  by unfold_locales (simp_all add: half_at_in)

text \<open>C29: The scalar dequantizers are total. For each of the seven formats, a row of whole blocks
  whose byte length is what its element count says gives exactly that many values, and any other
  row, sizes that overflow included, is an error: no index is ever out of range.\<close>

theorem dequantizers_are_total:
  "converts_rows 1 4 (dequant_f32 ops) \<and> converts_rows 1 2 (dequant_f16 ops) \<and> converts_rows 32 22 (dequant_q5_0 ops) \<and>
   converts_rows 32 34 (dequant_q8_0 ops) \<and> converts_rows 256 144 (dequant_q4_k ops) \<and> converts_rows 256 176 (dequant_q5_k ops) \<and>
   converts_rows 256 210 (dequant_q6_k ops)"
proof (intro conjI)
  show "converts_rows 1 4 (dequant_f32 ops)" unfolding dequant_f32_def by (rule f32.appended_rows)
  show "converts_rows 1 2 (dequant_f16 ops)" unfolding dequant_f16_def by (rule f16.appended_rows)
  show "converts_rows 32 22 (dequant_q5_0 ops)" unfolding dequant_q5_0_def by (rule q5_0.rows) (rule q5_0_blocks_loop)
  show "converts_rows 32 34 (dequant_q8_0 ops)" unfolding dequant_q8_0_def by (rule q8_0.appended_rows)
  show "converts_rows 256 144 (dequant_q4_k ops)" unfolding dequant_q4_k_def
    using q4_k.appended_rows [of ops] by (simp add: K_BLOCK_ELEMENTS_def)
  show "converts_rows 256 176 (dequant_q5_k ops)" unfolding dequant_q5_k_def
    using q5_k.appended_rows [of ops] by (simp add: K_BLOCK_ELEMENTS_def)
  show "converts_rows 256 210 (dequant_q6_k ops)" unfolding converts_rows_def by (intro allI q6_k_total)
qed

end
