(* ===== verification/Q4k_Repack.thy ===== *)
theory Q4k_Repack
  imports Dequant_Formats
begin

text \<open>
  The layout of \<open>Q4_K\<close> blocks that the CUDA decode path reads
  (\<open>crates/leone-cuda/src/repack.rs\<close>): all codes first, striped for eight-byte loads, then
  all metadata, with the scales and minima of a group in one 24-bit record. Repacking
  changes no value: what the repacked blocks decode to is, bit for bit, what the scalar
  decoder of the GGUF crate gives for the source.
\<close>

section \<open>Repacking\<close>

datatype CudaError =
    CuZero string | CuNotDivisible string nat nat | CuSizeOverflow string | CuAllocation string nat | CuSizeMismatch string nat nat

definition Q4_K_BLOCK_ELEMENTS :: nat where "Q4_K_BLOCK_ELEMENTS = 256"
definition Q4_K_GGUF_BLOCK_BYTES :: nat where "Q4_K_GGUF_BLOCK_BYTES = 144"
definition Q4_K_CODE_BYTES :: nat where "Q4_K_CODE_BYTES = 128"
definition Q4_K_METADATA_BYTES :: nat where "Q4_K_METADATA_BYTES = 16"

text \<open>\<open>fits\<close> says whether the allocator gives a vector of that many bytes.\<close>

definition try_vec :: "(nat \<Rightarrow> bool) \<Rightarrow> nat \<Rightarrow> nat \<Rightarrow> string \<Rightarrow> (unit, CudaError) outcome" where
  "try_vec fits width len field =
     and_then (ok_or (usize_checked_mul len width) (CuSizeOverflow ''Q4_K output bytes'')) (\<lambda>bytes.
     if fits bytes then Ok () else Err (CuAllocation field bytes))"

text \<open>\<open>&mut xs[a..b]\<close> handed to \<open>f\<close>, and \<open>copy_from_slice\<close> into it.\<close>

definition with_slice :: "'a list \<Rightarrow> nat \<Rightarrow> nat \<Rightarrow> ('a list \<Rightarrow> ('a list, 'e) outcome) \<Rightarrow> ('a list, 'e) outcome" where
  "with_slice xs a b f = and_then (slice xs a b) (\<lambda>t. and_then (f t) (\<lambda>t. Ok (take a xs @ t @ drop b xs)))"

definition copy_from_slice :: "'a list \<Rightarrow> 'a list \<Rightarrow> ('a list, 'e) outcome" where
  "copy_from_slice src target = (if length src = length target then Ok src else Panic)"

definition repack_lane :: "u8 list \<Rightarrow> nat \<Rightarrow> u8 list \<Rightarrow> (u8 list, 'e) outcome" where
  "repack_lane source_group lane_item target_group =
     and_then (slice source_group (lane_item * 4) (lane_item * 4 + 4)) (\<lambda>v.
     and_then (with_slice target_group (lane_item * 8) (lane_item * 8 + 4) (copy_from_slice v)) (\<lambda>target_group.
     and_then (slice source_group (lane_item * 4 + 16) (lane_item * 4 + 20)) (\<lambda>w.
     with_slice target_group (lane_item * 8 + 4) (lane_item * 8 + 8) (copy_from_slice w))))"

definition repack_group :: "u8 list \<Rightarrow> nat \<Rightarrow> u8 list \<Rightarrow> (u8 list, 'e) outcome" where
  "repack_group source grp code_target =
     and_then (slice source (Q4_K_METADATA_BYTES + grp * 32) (length source)) (\<lambda>source_group.
     with_slice code_target (grp * 32) (length code_target) (for_each [0..<4] (repack_lane source_group)))"

definition group_record :: "u8 \<Rightarrow> u8 \<Rightarrow> u8 \<Rightarrow> u8 \<Rightarrow> u32" where
  "group_record scale0 scale1 minimum0 minimum1 =
     or (or (or (ucast scale0) (push_bit 6 (ucast scale1))) (push_bit 12 (ucast minimum0))) (push_bit 18 (ucast minimum1))"

definition repack_parameters :: "u8 list \<Rightarrow> nat \<Rightarrow> u8 list \<Rightarrow> (u8 list, 'e) outcome" where
  "repack_parameters source grp target =
     and_then (slice source 4 16) (\<lambda>packed.
     and_then (scale_min (grp * 2) packed) (\<lambda>(scale0, minimum0).
     and_then (scale_min (grp * 2 + 1) packed) (\<lambda>(scale1, minimum1).
     let parameters = group_record scale0 scale1 minimum0 minimum1 in
     and_then (set_at target (4 + grp) (ucast parameters)) (\<lambda>target.
     and_then (set_at target (8 + grp) (ucast (drop_bit 8 parameters))) (\<lambda>target.
     set_at target (12 + grp) (ucast (drop_bit 16 parameters)))))))"

definition repack_metadata :: "u8 list \<Rightarrow> u8 list \<Rightarrow> (u8 list, 'e) outcome" where
  "repack_metadata source target =
     and_then (slice source 0 4) (\<lambda>v.
     and_then (with_slice target 0 4 (copy_from_slice v)) (\<lambda>target.
     for_each [0..<4] (repack_parameters source) target))"

definition repack_block :: "nat \<Rightarrow> nat \<times> u8 list \<Rightarrow> u8 list \<Rightarrow> (u8 list, 'e) outcome" where
  "repack_block codes_bytes b output =
     (case b of (block_index, source) \<Rightarrow>
       and_then (with_slice output (block_index * Q4_K_CODE_BYTES) ((block_index + 1) * Q4_K_CODE_BYTES)
         (for_each [0..<4] (repack_group source))) (\<lambda>output.
       let metadata_target = codes_bytes + block_index * Q4_K_METADATA_BYTES in
       with_slice output metadata_target (metadata_target + Q4_K_METADATA_BYTES) (repack_metadata source)))"

definition repack_q4_k :: "(nat \<Rightarrow> bool) \<Rightarrow> u8 list \<Rightarrow> (u8 list, CudaError) outcome" where
  "repack_q4_k fits bytes =
     (if bytes = [] then Err (CuZero ''Q4_K repack bytes'')
      else if length bytes mod Q4_K_GGUF_BLOCK_BYTES \<noteq> 0
      then Err (CuNotDivisible ''Q4_K repack bytes'' (length bytes) Q4_K_GGUF_BLOCK_BYTES)
      else
        let blocks = length bytes div Q4_K_GGUF_BLOCK_BYTES in
        and_then (ok_or (usize_checked_mul blocks Q4_K_CODE_BYTES) (CuSizeOverflow ''Q4_K repacked code bytes'')) (\<lambda>codes_bytes.
        and_then (try_vec fits 1 (length bytes) ''Q4_K repack output'') (\<lambda>_.
        for_each (List.enumerate 0 (chunks_exact Q4_K_GGUF_BLOCK_BYTES bytes)) (repack_block codes_bytes)
          (replicate (length bytes) 0))))"

section \<open>Decoding\<close>

definition striped_index :: "nat \<Rightarrow> nat" where
  "striped_index original_index =
     (let half = original_index div 16; inner = original_index mod 16 in (inner div 4) * 8 + half * 4 + inner mod 4)"

definition group_parameters :: "u8 list \<Rightarrow> nat \<Rightarrow> (u32, 'e) outcome" where
  "group_parameters metadata grp =
     and_then (at_index metadata (4 + grp)) (\<lambda>a.
     and_then (at_index metadata (8 + grp)) (\<lambda>b.
     and_then (at_index metadata (12 + grp)) (\<lambda>c.
     Ok (or (or (ucast a) (push_bit 8 (ucast b))) (push_bit 16 (ucast c))))))"

definition dequantize_group :: "'f FloatOps \<Rightarrow> u8 list \<Rightarrow> u8 list \<Rightarrow> 'f \<Rightarrow> 'f \<Rightarrow> nat \<Rightarrow> 'f list \<Rightarrow> ('f list, 'e) outcome" where
  "dequantize_group ops codes metadata d dmin grp output =
     and_then (group_parameters metadata grp) (\<lambda>parameters.
     let scale0 = ucast (and parameters 63) :: u8; scale1 = ucast (and (drop_bit 6 parameters) 63) :: u8;
         min0 = ucast (and (drop_bit 12 parameters) 63) :: u8; min1 = ucast (and (drop_bit 18 parameters) 63) :: u8;
         d0 = ff_mul ops d (ff_of_int ops (uint scale0)); d1 = ff_mul ops d (ff_of_int ops (uint scale1));
         m0 = ff_mul ops dmin (ff_of_int ops (uint min0)); m1 = ff_mul ops dmin (ff_of_int ops (uint min1)) in
     and_then (slice codes (grp * 32) (grp * 32 + 32)) (\<lambda>group_codes.
     and_then (for_each [0..<32] (\<lambda>i output. and_then (at_index group_codes (striped_index i)) (\<lambda>quant.
       Ok (output @ [scaled ops d0 m0 (and quant 0x0f)]))) output) (\<lambda>output.
     for_each [0..<32] (\<lambda>i output. and_then (at_index group_codes (striped_index i)) (\<lambda>quant.
       Ok (output @ [scaled ops d1 m1 (drop_bit 4 quant)]))) output)))"

definition dequantize_block :: "'f FloatOps \<Rightarrow> u8 list \<Rightarrow> u8 list \<Rightarrow> 'f list \<Rightarrow> ('f list, 'e) outcome" where
  "dequantize_block ops codes metadata output =
     and_then (half_at ops metadata 0) (\<lambda>d.
     and_then (half_at ops metadata 2) (\<lambda>dmin.
     for_each [0..<4] (dequantize_group ops codes metadata d dmin) output))"

definition dequantize_q4_k :: "(nat \<Rightarrow> bool) \<Rightarrow> 'f FloatOps \<Rightarrow> u8 list \<Rightarrow> nat \<Rightarrow> ('f list, CudaError) outcome" where
  "dequantize_q4_k fits ops bytes n_elems =
     (if n_elems mod Q4_K_BLOCK_ELEMENTS \<noteq> 0
      then Err (CuNotDivisible ''Q4_K dequantized elements'' n_elems Q4_K_BLOCK_ELEMENTS)
      else
        let blocks = n_elems div Q4_K_BLOCK_ELEMENTS in
        and_then (ok_or (usize_checked_mul blocks Q4_K_GGUF_BLOCK_BYTES) (CuSizeOverflow ''Q4_K repacked bytes'')) (\<lambda>expected.
        if length bytes \<noteq> expected then Err (CuSizeMismatch ''Q4_K repacked bytes'' expected (length bytes))
        else
          and_then (ok_or (usize_checked_mul blocks Q4_K_CODE_BYTES) (CuSizeOverflow ''Q4_K repacked code bytes'')) (\<lambda>codes_bytes.
          and_then (slice bytes 0 codes_bytes) (\<lambda>codes.
          and_then (slice bytes codes_bytes (length bytes)) (\<lambda>metadata.
          and_then (try_vec fits 4 n_elems ''Q4_K dequantized output'') (\<lambda>_.
          for_each [0..<blocks] (\<lambda>block output.
            and_then (slice codes (block * Q4_K_CODE_BYTES) ((block + 1) * Q4_K_CODE_BYTES)) (\<lambda>c.
            and_then (slice metadata (block * Q4_K_METADATA_BYTES) ((block + 1) * Q4_K_METADATA_BYTES)) (\<lambda>m.
            dequantize_block ops c m output))) []))))))"

section \<open>Loops that fill a buffer\<close>

lemma with_slice_run:
  assumes "length pre = a" and "length old = b - a" and "a \<le> b" and "f old = Ok new"
  shows "with_slice (pre @ old @ post) a b f = Ok (pre @ new @ post)"
  using assms by (simp add: with_slice_def)

lemma copy_run: "length src = length target \<Longrightarrow> copy_from_slice src target = Ok src"
  by (simp add: copy_from_slice_def)

lemma length_concat_chunks: "\<forall>x\<in>set xs. length (f x) = w \<Longrightarrow> length (concat (map f xs)) = length xs * w"
  by (induction xs) simp_all

text \<open>A loop whose step \<open>i\<close> replaces the \<open>i\<close>-th stretch of \<open>w\<close> elements.\<close>

lemma fill_loop:
  assumes step: "\<And>i pre old post. i < n \<Longrightarrow> length pre = i * w \<Longrightarrow> length old = w \<Longrightarrow> length (pre @ old @ post) = length t \<Longrightarrow>
      f i (pre @ old @ post) = Ok (pre @ chunk i @ post)"
    and chunk: "\<And>i. i < n \<Longrightarrow> length (chunk i) = w" and t: "n * w \<le> length t"
  shows "for_each [0..<n] f t = Ok (concat (map chunk [0..<n]) @ drop (n * w) t)"
proof -
  have "for_each [0..<k] f t = Ok (concat (map chunk [0..<k]) @ drop (k * w) t)" if "k \<le> n" for k
    using that
  proof (induction k)
    case (Suc k)
    let ?pre = "concat (map chunk [0..<k])" and ?old = "take w (drop (k * w) t)" and ?post = "drop (Suc k * w) t"
    have pre: "length ?pre = k * w" using length_concat_chunks [of "[0..<k]" chunk w] chunk Suc.prems by simp
    have "Suc k * w \<le> n * w" using Suc.prems by (rule mult_le_mono1)
    then have le: "k * w + w \<le> length t" using t by simp
    have split: "drop (k * w) t = ?old @ ?post" by (simp add: drop_drop [symmetric] add.commute del: drop_drop)
    have "f k (?pre @ ?old @ ?post) = Ok (?pre @ chunk k @ ?post)"
      by (rule step) (use Suc.prems le pre in simp_all)
    then show ?case using Suc split by (simp add: for_each_append)
  qed simp
  then show ?thesis by simp
qed

section \<open>Codes\<close>

abbreviation four :: "'a list \<Rightarrow> nat \<Rightarrow> 'a list" where
  "four xs i \<equiv> take 4 (drop i xs)"

definition striped_group :: "u8 list \<Rightarrow> u8 list" where
  "striped_group sg = concat (map (\<lambda>l. four sg (l * 4) @ four sg (l * 4 + 16)) [0..<4])"

definition code_region :: "u8 list \<Rightarrow> u8 list" where
  "code_region source = concat (map (\<lambda>g. striped_group (drop (16 + g * 32) source)) [0..<4])"

lemma repack_lane_run:
  assumes "l < 4" and "32 \<le> length sg" and "length pre = l * 8" and "length old = 8"
  shows "repack_lane sg l (pre @ old @ post) = (Ok (pre @ (four sg (l * 4) @ four sg (l * 4 + 16)) @ post) :: (u8 list, 'e) outcome)"
proof -
  have l: "l * 4 + 20 \<le> length sg" using assms(1,2) by linarith
  have v: "length (four sg (l * 4)) = 4" "length (four sg (l * 4 + 16)) = 4" using l by simp_all
  have one: "with_slice (pre @ take 4 old @ (drop 4 old @ post)) (l * 8) (l * 8 + 4) (copy_from_slice (four sg (l * 4)))
      = (Ok (pre @ four sg (l * 4) @ (drop 4 old @ post)) :: (u8 list, 'e) outcome)"
    by (rule with_slice_run) (use assms v in \<open>simp_all add: copy_from_slice_def\<close>)
  have two: "with_slice ((pre @ four sg (l * 4)) @ drop 4 old @ post) (l * 8 + 4) (l * 8 + 8) (copy_from_slice (four sg (l * 4 + 16)))
      = (Ok ((pre @ four sg (l * 4)) @ four sg (l * 4 + 16) @ post) :: (u8 list, 'e) outcome)"
    by (rule with_slice_run) (use assms v in \<open>simp_all add: copy_from_slice_def\<close>)
  have old: "old @ post = take 4 old @ (drop 4 old @ post)" by simp
  show ?thesis unfolding repack_lane_def old using one two l by simp
qed

lemma striped_length: "32 \<le> length sg \<Longrightarrow> length (striped_group sg) = 32"
  by (simp add: striped_group_def upt_conv_Cons)

lemma repack_group_run:
  assumes "g < 4" and "length source = 144" and "length pre = g * 32" and "length old = 32"
  shows "repack_group source g (pre @ old @ post) = (Ok (pre @ striped_group (drop (16 + g * 32) source) @ post) :: (u8 list, 'e) outcome)"
proof -
  let ?sg = "drop (16 + g * 32) source"
  have sg: "32 \<le> length ?sg" using assms(1,2) by simp
  have "for_each [0..<4] (repack_lane ?sg) (old @ post) =
      (Ok (concat (map (\<lambda>l. four ?sg (l * 4) @ four ?sg (l * 4 + 16)) [0..<4]) @ drop (4 * 8) (old @ post)) :: (u8 list, 'e) outcome)"
  proof (rule fill_loop)
    fix i and pre' old' post' :: "u8 list"
    assume "i < 4" "length pre' = i * 8" "length old' = 8"
    then show "repack_lane ?sg i (pre' @ old' @ post') = Ok (pre' @ (four ?sg (i * 4) @ four ?sg (i * 4 + 16)) @ post')"
      using repack_lane_run [OF _ sg] by blast
  next
    fix i :: nat assume "i < 4"
    then have "i * 4 + 20 \<le> length ?sg" using sg by linarith
    then show "length (four ?sg (i * 4) @ four ?sg (i * 4 + 16)) = 8" by simp
  qed (use assms(4) in simp)
  then have lanes: "for_each [0..<4] (repack_lane ?sg) (old @ post) = (Ok (striped_group ?sg @ post) :: (u8 list, 'e) outcome)"
    using assms(4) by (simp add: striped_group_def)
  have "with_slice (pre @ (old @ post) @ []) (g * 32) (length (pre @ old @ post)) (for_each [0..<4] (repack_lane ?sg))
      = (Ok (pre @ (striped_group ?sg @ post) @ []) :: (u8 list, 'e) outcome)"
    by (rule with_slice_run) (use assms lanes in simp_all)
  then show ?thesis using assms by (simp add: repack_group_def Q4_K_METADATA_BYTES_def)
qed

lemma repack_codes_run:
  assumes "length source = 144" and "length t = 128"
  shows "for_each [0..<4] (repack_group source) t = Ok (code_region source)"
proof -
  have "for_each [0..<4] (repack_group source) t =
      Ok (concat (map (\<lambda>g. striped_group (drop (16 + g * 32) source)) [0..<4]) @ drop (4 * 32) t)"
    by (rule fill_loop) (use assms in \<open>simp_all add: repack_group_run striped_length\<close>)
  then show ?thesis using assms(2) by (simp add: code_region_def)
qed

lemma code_region_length: "length source = 144 \<Longrightarrow> length (code_region source) = 128"
  by (simp add: code_region_def upt_conv_Cons striped_length)

lemma code_region_group:
  assumes "length source = 144" and "g < 4"
  shows "take 32 (drop (g * 32) (code_region source)) = striped_group (drop (16 + g * 32) source)"
proof -
  have "g = 0 \<or> g = 1 \<or> g = 2 \<or> g = 3" using assms(2) by auto
  then show ?thesis using assms(1) by (auto simp: code_region_def upt_conv_Cons striped_length)
qed

lemma four_nth: "i + 4 \<le> length xs \<Longrightarrow> four xs i = [xs ! i, xs ! (i + 1), xs ! (i + 2), xs ! (i + 3)]"
proof (rule nth_equalityI)
  fix j assume "i + 4 \<le> length xs" "j < length (four xs i)"
  then have "j = 0 \<or> j = 1 \<or> j = 2 \<or> j = 3" "j < 4" by auto
  then show "four xs i ! j = [xs ! i, xs ! (i + 1), xs ! (i + 2), xs ! (i + 3)] ! j" using \<open>i + 4 \<le> length xs\<close> by auto
qed simp

lemma four_zero: "4 \<le> length xs \<Longrightarrow> take 4 xs = [xs ! 0, xs ! 1, xs ! 2, xs ! 3]"
  using four_nth [of 0 xs] by (simp add: numeral_2_eq_2)

lemma striped_index_lookup:
  assumes "32 \<le> length sg" and "i < 32"
  shows "striped_index i < 32" "striped_group sg ! striped_index i = sg ! i"
proof -
  have s: "striped_group sg = [sg!0, sg!1, sg!2, sg!3, sg!16, sg!17, sg!18, sg!19, sg!4, sg!5, sg!6, sg!7, sg!20, sg!21, sg!22, sg!23,
      sg!8, sg!9, sg!10, sg!11, sg!24, sg!25, sg!26, sg!27, sg!12, sg!13, sg!14, sg!15, sg!28, sg!29, sg!30, sg!31]"
    using assms(1) four_zero [of sg] by (simp add: striped_group_def upt_conv_Cons four_nth)
  have all: "[0..<32] = [0,1,2,3,4,5,6,7,8,9,10,11,12,13,14,15,16,17,18,19,20,21,22,23,24,25,26,27,28,29,30,31::nat]" by code_simp
  have "\<forall>i\<in>set [0..<32]. striped_index i < 32 \<and> striped_group sg ! striped_index i = sg ! i"
    unfolding s all by (simp add: striped_index_def Let_def)
  then show "striped_index i < 32" "striped_group sg ! striped_index i = sg ! i" using assms(2) by auto
qed


section \<open>Metadata\<close>

text \<open>A six-bit value: no bit beyond the fifth.\<close>

definition six_bits :: "u8 \<Rightarrow> bool" where
  "six_bits s \<longleftrightarrow> and s 63 = s"

lemma sixty_three: "(63 :: 'a::len word) = mask 6"
  by (simp add: mask_eq_exp_minus_1)

lemma fifteen: "(0x0f :: 'a::len word) = mask 4"
  by (simp add: mask_eq_exp_minus_1)

lemma six_bits_bit: "six_bits s \<Longrightarrow> bit s i \<Longrightarrow> i < 6"
  by (metis bit_and_iff bit_mask_iff six_bits_def sixty_three)

lemma six_bitsI: "(\<And>i. bit s i \<Longrightarrow> i < 6) \<Longrightarrow> six_bits s"
  unfolding six_bits_def sixty_three by (rule bit_word_eqI) (auto simp: bit_simps)

text \<open>What \<open>scale_min\<close> reads from twelve bytes.\<close>

definition scales_read :: "u8 list \<Rightarrow> nat \<Rightarrow> u8 \<times> u8" where
  "scales_read xs i =
     (if i < 4 then (and (xs ! i) 63, and (xs ! (i + 4)) 63)
      else (or (and (xs ! (i + 4)) 0x0f) (push_bit 4 (drop_bit 6 (xs ! (i - 4)))),
        or (drop_bit 4 (xs ! (i + 4))) (push_bit 4 (drop_bit 6 (xs ! i)))))"

lemma scale_min_run: "i < 8 \<Longrightarrow> length xs = 12 \<Longrightarrow> scale_min i xs = Ok (scales_read xs i)"
  by (simp add: scale_min_def scales_read_def)

lemma scales_six_bits: "six_bits (fst (scales_read xs i))" "six_bits (snd (scales_read xs i))"
proof -
  have "six_bits (and a 63)" for a by (simp add: six_bits_def and.assoc)
  moreover have "six_bits (or (and b 0x0f) (push_bit 4 (drop_bit 6 a)))" for a b :: u8
    by (rule six_bitsI) (auto simp: fifteen bit_simps dest!: bit_imp_le_length)
  moreover have "six_bits (or (drop_bit 4 b) (push_bit 4 (drop_bit 6 a)))" for a b :: u8
    by (rule six_bitsI) (auto simp: bit_simps dest!: bit_imp_le_length)
  ultimately show "six_bits (fst (scales_read xs i))" "six_bits (snd (scales_read xs i))"
    by (auto simp: scales_read_def)
qed

lemma group_record_fields:
  assumes "six_bits s0" and "six_bits s1" and "six_bits m0" and "six_bits m1"
  shows "ucast (and (group_record s0 s1 m0 m1) 63) = s0" "ucast (and (drop_bit 6 (group_record s0 s1 m0 m1)) 63) = s1"
    "ucast (and (drop_bit 12 (group_record s0 s1 m0 m1)) 63) = m0" "ucast (and (drop_bit 18 (group_record s0 s1 m0 m1)) 63) = m1"
  unfolding group_record_def sixty_three
  by (rule bit_word_eqI; auto simp: bit_simps dest: assms [THEN six_bits_bit])+

lemma group_record_bytes:
  assumes "six_bits s0" and "six_bits s1" and "six_bits m0" and "six_bits m1"
  defines "p \<equiv> group_record s0 s1 m0 m1"
  shows "or (or (ucast (ucast p :: u8)) (push_bit 8 (ucast (ucast (drop_bit 8 p) :: u8)))) (push_bit 16 (ucast (ucast (drop_bit 16 p) :: u8))) = p" (is "?l = p")
proof -
  have short: "bit p i \<Longrightarrow> i < 24" for i
    unfolding p_def group_record_def by (auto simp: bit_simps dest: assms(1-4) [THEN six_bits_bit])
  show ?thesis
  proof (rule bit_word_eqI)
    fix i :: nat
    consider "i < 8" | "8 \<le> i" "i < 16" | "16 \<le> i" "i < 24" | "24 \<le> i" by linarith
    then show "bit ?l i = bit p i"
      by cases (use short [of i] in \<open>auto simp: bit_simps\<close>)
  qed
qed

definition record_of :: "u8 list \<Rightarrow> nat \<Rightarrow> u32" where
  "record_of packed g =
     group_record (fst (scales_read packed (g * 2))) (fst (scales_read packed (g * 2 + 1)))
       (snd (scales_read packed (g * 2))) (snd (scales_read packed (g * 2 + 1)))"

lemma repack_parameters_run:
  assumes "length source = 144" and "length t = 16" and "g < 4"
  defines "p \<equiv> record_of (take 12 (drop 4 source)) g"
  shows "repack_parameters source g t = Ok (t[4 + g := ucast p, 8 + g := ucast (drop_bit 8 p), 12 + g := ucast (drop_bit 16 p)])"
  using assms(1-3) unfolding p_def
  by (simp add: repack_parameters_def scale_min_run record_of_def set_at_in Let_def case_prod_beta)

text \<open>A target that holds the header of a block and the records of its first \<open>k\<close> groups.\<close>

definition holds_metadata :: "u8 list \<Rightarrow> nat \<Rightarrow> u8 list \<Rightarrow> bool" where
  "holds_metadata source k t \<longleftrightarrow> length t = 16 \<and> take 4 t = take 4 source \<and>
     (\<forall>g<k. let p = record_of (take 12 (drop 4 source)) g in
       t ! (4 + g) = ucast p \<and> t ! (8 + g) = ucast (drop_bit 8 p) \<and> t ! (12 + g) = ucast (drop_bit 16 p))"

lemma repack_parameters_loop:
  assumes "length source = 144"
  shows "k \<le> 4 \<Longrightarrow> holds_metadata source 0 t \<Longrightarrow>
    \<exists>t'. for_each [0..<k] (repack_parameters source) t = (Ok t' :: (u8 list, 'e) outcome) \<and> holds_metadata source k t'"
proof (induction k)
  case (Suc k)
  then obtain t' where t': "for_each [0..<k] (repack_parameters source) t = (Ok t' :: (u8 list, 'e) outcome)" "holds_metadata source k t'"
    by auto
  let ?p = "record_of (take 12 (drop 4 source)) k"
  let ?t = "t'[4 + k := ucast ?p, 8 + k := ucast (drop_bit 8 ?p), 12 + k := ucast (drop_bit 16 ?p)]"
  have "repack_parameters source k t' = (Ok ?t :: (u8 list, 'e) outcome)"
    using Suc.prems t'(2) by (simp add: holds_metadata_def repack_parameters_run [OF assms])
  moreover have "holds_metadata source (Suc k) ?t"
    using t'(2) Suc.prems(1) by (auto simp: holds_metadata_def Let_def less_Suc_eq nth_list_update)
  ultimately show ?case using t'(1) by (simp add: for_each_append)
qed simp

lemma repack_metadata_run:
  assumes "length source = 144" and "length t = 16"
  shows "\<exists>t'. repack_metadata source t = (Ok t' :: (u8 list, 'e) outcome) \<and> holds_metadata source 4 t'"
proof -
  have "with_slice ([] @ take 4 t @ drop 4 t) 0 4 (copy_from_slice (take 4 source)) = (Ok ([] @ take 4 source @ drop 4 t) :: (u8 list, 'e) outcome)"
    by (rule with_slice_run) (use assms in \<open>simp_all add: copy_from_slice_def\<close>)
  moreover have "holds_metadata source 0 (take 4 source @ drop 4 t)" using assms by (simp add: holds_metadata_def)
  ultimately show ?thesis using repack_parameters_loop [OF assms(1), of 4] assms by (auto simp: repack_metadata_def)
qed

text \<open>What the decoder reads back: the record of a group, bit for bit.\<close>

lemma group_parameters_run:
  assumes "holds_metadata source 4 t" and "g < 4"
  shows "group_parameters t g = Ok (record_of (take 12 (drop 4 source)) g)"
  using assms group_record_bytes [OF scales_six_bits(1) scales_six_bits(1) scales_six_bits(2) scales_six_bits(2)]
  by (simp add: holds_metadata_def group_parameters_def record_of_def Let_def)


section \<open>All blocks\<close>

lemma repack_block_run:
  assumes b: "length b = 144" and C: "length C = k * 128" and old: "length old = 128"
    and codes: "codes_bytes = length C + 128 + length CZ" and M: "length M = k * 16" and old': "length old' = 16"
  shows "\<exists>m. repack_block codes_bytes (k, b) ((C @ old @ CZ) @ (M @ old' @ MZ))
      = (Ok ((C @ code_region b @ CZ) @ (M @ m @ MZ)) :: (u8 list, 'e) outcome) \<and> holds_metadata b 4 m"
proof -
  obtain m where m: "repack_metadata b old' = (Ok m :: (u8 list, 'e) outcome)" "holds_metadata b 4 m"
    using repack_metadata_run [OF b old'] by blast
  have one: "with_slice (C @ old @ (CZ @ M @ old' @ MZ)) (k * Q4_K_CODE_BYTES) ((k + 1) * Q4_K_CODE_BYTES) (for_each [0..<4] (repack_group b))
      = (Ok (C @ code_region b @ (CZ @ M @ old' @ MZ)) :: (u8 list, 'e) outcome)"
    by (rule with_slice_run) (use C old repack_codes_run [OF b old] in \<open>simp_all add: Q4_K_CODE_BYTES_def\<close>)
  have two: "with_slice ((C @ code_region b @ CZ @ M) @ old' @ MZ) (codes_bytes + k * Q4_K_METADATA_BYTES)
        (codes_bytes + k * Q4_K_METADATA_BYTES + Q4_K_METADATA_BYTES) (repack_metadata b)
      = (Ok ((C @ code_region b @ CZ @ M) @ m @ MZ) :: (u8 list, 'e) outcome)"
    by (rule with_slice_run) (use codes M old' m(1) code_region_length [OF b] in \<open>simp_all add: Q4_K_METADATA_BYTES_def\<close>)
  show ?thesis using one two m(2) by (simp add: repack_block_def Let_def)
qed

lemma repack_blocks_run:
  "\<forall>b\<in>set bs. length b = 144 \<Longrightarrow> length C = k * 128 \<Longrightarrow> length CZ = length bs * 128 \<Longrightarrow> length M = k * 16 \<Longrightarrow> length MZ = length bs * 16 \<Longrightarrow>
   \<exists>ms. for_each (List.enumerate k bs) (repack_block ((k + length bs) * 128)) ((C @ CZ) @ (M @ MZ))
      = (Ok ((C @ concat (map code_region bs)) @ (M @ concat ms)) :: (u8 list, 'e) outcome) \<and> list_all2 (\<lambda>b m. holds_metadata b 4 m) bs ms"
proof (induction bs arbitrary: k C CZ M MZ)
  case (Cons b bs)
  have b: "length b = 144" using Cons.prems(1) by simp
  obtain m where m: "repack_block ((k + length (b # bs)) * 128) (k, b) ((C @ take 128 CZ @ drop 128 CZ) @ (M @ take 16 MZ @ drop 16 MZ))
      = (Ok ((C @ code_region b @ drop 128 CZ) @ (M @ m @ drop 16 MZ)) :: (u8 list, 'e) outcome)" "holds_metadata b 4 m"
    using repack_block_run [OF b, of C k "take 128 CZ" "(k + length (b # bs)) * 128" "drop 128 CZ" M "take 16 MZ" "drop 16 MZ", where 'e = 'e] Cons.prems
    by auto
  obtain ms where ms: "for_each (List.enumerate (Suc k) bs) (repack_block ((Suc k + length bs) * 128))
        (((C @ code_region b) @ drop 128 CZ) @ ((M @ m) @ drop 16 MZ))
      = (Ok (((C @ code_region b) @ concat (map code_region bs)) @ ((M @ m) @ concat ms)) :: (u8 list, 'e) outcome)"
    "list_all2 (\<lambda>b m. holds_metadata b 4 m) bs ms"
    using Cons.IH [of "C @ code_region b" "Suc k" "drop 128 CZ" "M @ m" "drop 16 MZ"] Cons.prems m(2) code_region_length [OF b]
    by (auto simp: holds_metadata_def)
  have "for_each (List.enumerate k (b # bs)) (repack_block ((k + length (b # bs)) * 128)) ((C @ CZ) @ (M @ MZ))
      = (Ok ((C @ concat (map code_region (b # bs))) @ (M @ concat (m # ms))) :: (u8 list, 'e) outcome)"
    using m(1) ms(1) by (simp add: add.commute)
  then show ?case using m(2) ms(2) by blast
qed simp

lemma concat_nth_chunk:
  "\<forall>x\<in>set xs. length x = w \<Longrightarrow> i < length xs \<Longrightarrow> take w (drop (i * w) (concat xs)) = xs ! i"
proof (induction xs arbitrary: i)
  case (Cons x xs)
  then show ?case using Cons.IH [of "i - 1"] by (cases i) (simp_all add: add.commute)
qed simp


section \<open>Decoding gives the scalar decoder's values\<close>

lemma push_loop:
  "\<forall>i\<in>set is'. f i = Ok (v i) \<Longrightarrow> for_each is' (\<lambda>i out. and_then (f i) (\<lambda>q. Ok (out @ [h q]))) out = Ok (out @ map (\<lambda>i. h (v i)) is')"
  by (induction is' arbitrary: out) simp_all

text \<open>The 64 values of a group of 32 code bytes, as both decoders form them.\<close>

definition group_values :: "'f FloatOps \<Rightarrow> 'f \<Rightarrow> 'f \<Rightarrow> u8 list \<Rightarrow> nat \<Rightarrow> u8 list \<Rightarrow> 'f list" where
  "group_values ops d dmin packed g chunk =
     (let (s0, m0) = scales_read packed (g * 2); (s1, m1) = scales_read packed (g * 2 + 1) in
      map (\<lambda>quant. scaled ops (ff_mul ops d (ff_of_int ops (uint s0))) (ff_mul ops dmin (ff_of_int ops (uint m0))) (and quant 0x0f)) chunk @
      map (\<lambda>quant. scaled ops (ff_mul ops d (ff_of_int ops (uint s1))) (ff_mul ops dmin (ff_of_int ops (uint m1))) (drop_bit 4 quant)) chunk)"

lemma q4_k_chunks_step:
  "length packed = 12 \<Longrightarrow> g < 4 \<Longrightarrow>
   q4_k_chunks ops d dmin packed (g * 2) (c # cs) =
     and_then (q4_k_chunks ops d dmin packed (Suc g * 2) cs) (\<lambda>rest. Ok (group_values ops d dmin packed g c @ rest))"
  by (simp add: scale_min_run group_values_def Let_def case_prod_beta)

lemma q4_k_chunks_run:
  "length packed = 12 \<Longrightarrow> g + length cs \<le> 4 \<Longrightarrow>
   q4_k_chunks ops d dmin packed (g * 2) cs = Ok (concat (map (\<lambda>(g, c). group_values ops d dmin packed g c) (List.enumerate g cs)))"
proof (induction cs arbitrary: g)
  case (Cons c cs)
  then show ?case using Cons.IH [of "Suc g"] by (simp add: q4_k_chunks_step del: q4_k_chunks.simps mult_Suc)
qed simp

lemma striped_codes:
  assumes "32 \<le> length sg" and "i < 32"
  shows "at_index (striped_group sg) (striped_index i) = Ok (take 32 sg ! i)"
  using striped_index_lookup [OF assms] assms striped_length [OF assms(1)] by simp

lemma dequantize_group_run:
  assumes b: "length b = 144" and m: "holds_metadata b 4 m" and g: "g < 4"
  shows "dequantize_group ops (code_region b) m d dmin g out =
    (Ok (out @ group_values ops d dmin (take 12 (drop 4 b)) g (take 32 (drop (16 + g * 32) b))) :: ('a list, 'e) outcome)"
proof -
  let ?packed = "take 12 (drop 4 b)" and ?sg = "drop (16 + g * 32) b"
  have sg: "32 \<le> length ?sg" using b g by simp
  have map32: "map (\<lambda>i. h (take 32 ?sg ! i)) [0..<32] = map h (take 32 ?sg)" for h :: "u8 \<Rightarrow> 'a"
    by (rule nth_equalityI) (use sg in \<open>simp_all del: upt_rec_numeral\<close>)
  have each: "\<forall>i\<in>set [0..<32]. at_index (striped_group ?sg) (striped_index i) = (Ok (take 32 ?sg ! i) :: (u8, 'e) outcome)"
    by (auto simp: striped_codes [OF sg] simp del: upt_rec_numeral)
  have loop: "for_each [0..<32] (\<lambda>i out. and_then (at_index (striped_group ?sg) (striped_index i)) (\<lambda>q. Ok (out @ [h q]))) out
      = (Ok (out @ map h (take 32 ?sg)) :: ('a list, 'e) outcome)" for h :: "u8 \<Rightarrow> 'a" and out
    using push_loop [OF each] map32 by metis
  have codes: "slice (code_region b) (g * 32) (g * 32 + 32) = (Ok (striped_group ?sg) :: (u8 list, 'e) outcome)"
    using code_region_length [OF b] code_region_group [OF b g] g by simp
  show ?thesis
    unfolding dequantize_group_def group_parameters_run [OF m g] and_then.simps Let_def record_of_def
      group_record_fields [OF scales_six_bits(1) scales_six_bits(1) scales_six_bits(2) scales_six_bits(2)] codes loop
    by (simp add: group_values_def case_prod_beta Let_def)
qed

lemma dequantize_block_run:
  assumes b: "length b = 144" and m: "holds_metadata b 4 m"
  shows "dequantize_block ops (code_region b) m out = (and_then (q4_k_block ops b) (\<lambda>vs. Ok (out @ vs)) :: ('a list, 'e) outcome)"
proof -
  let ?d = "ff_of_half ops (from_le_bytes [b ! 0, b ! 1])" and ?dmin = "ff_of_half ops (from_le_bytes [b ! 2, b ! 3])"
  have len: "length m = 16" and t4: "take 4 m = take 4 b" using m by (simp_all add: holds_metadata_def)
  have "m ! i = b ! i" if "i < 4" for i using t4 that by (metis nth_take)
  then have half: "half_at ops m 0 = (Ok ?d :: ('a, 'e) outcome)" "half_at ops m 2 = (Ok ?dmin :: ('a, 'e) outcome)"
    using len by (simp_all add: half_at_in)
  have four: "[0..<4] = [0, 1, 2, 3 :: nat]" by code_simp
  have "for_each [0..<4] (dequantize_group ops (code_region b) m ?d ?dmin) out =
      (Ok (out @ concat (map (\<lambda>g. group_values ops ?d ?dmin (take 12 (drop 4 b)) g (take 32 (drop (16 + g * 32) b))) [0..<4])) :: ('a list, 'e) outcome)"
    unfolding four by (simp add: dequantize_group_run [OF b m])
  moreover have "chunks_exact 32 (take 128 (drop 16 b)) = map (\<lambda>g. take 32 (drop (16 + g * 32) b)) [0..<4]"
    using b unfolding four by (simp add: chunks_exact_step [of 32] drop_take add.commute)
  then have "q4_k_chunks ops ?d ?dmin (take 12 (drop 4 b)) (0 * 2) (chunks_exact 32 (take 128 (drop 16 b))) =
      (Ok (concat (map (\<lambda>g. group_values ops ?d ?dmin (take 12 (drop 4 b)) g (take 32 (drop (16 + g * 32) b))) [0..<4])) :: ('a list, 'e) outcome)"
    by (subst q4_k_chunks_run) (use b in \<open>simp_all add: four numeral_2_eq_2 numeral_3_eq_3\<close>)
  ultimately show ?thesis using b half by (simp add: dequantize_block_def q4_k_block_def half_at_in)
qed


lemma repack_q4_k_run:
  assumes "bytes \<noteq> []" and "length bytes mod 144 = 0" and "length bytes < usize_limit" and "fits (length bytes)"
  shows "\<exists>ms. repack_q4_k fits bytes = Ok (concat (map code_region (chunks_exact 144 bytes)) @ concat ms) \<and>
    list_all2 (\<lambda>b m. holds_metadata b 4 m) (chunks_exact 144 bytes) ms"
proof -
  let ?bs = "chunks_exact 144 bytes" and ?n = "length bytes div 144"
  have len: "length bytes = ?n * 144" using assms(2) by auto
  then have bs: "length ?bs = ?n" "\<forall>b\<in>set ?bs. length b = 144"
    using chunks_exact_whole [of 144 bytes ?n] chunks_exact_lengths by auto
  have zeros: "replicate (length bytes) (0 :: u8) = ([] @ replicate (?n * 128) 0) @ ([] @ replicate (?n * 16) 0)"
    by (subst (1) len) (simp add: replicate_add [symmetric])
  obtain ms where ms: "for_each (List.enumerate 0 ?bs) (repack_block ((0 + length ?bs) * 128)) (([] @ replicate (?n * 128) 0) @ ([] @ replicate (?n * 16) 0))
      = (Ok (([] @ concat (map code_region ?bs)) @ ([] @ concat ms)) :: (u8 list, CudaError) outcome)" "list_all2 (\<lambda>b m. holds_metadata b 4 m) ?bs ms"
    using repack_blocks_run [OF bs(2), of "[]" 0 "replicate (?n * 128) 0" "[]" "replicate (?n * 16) 0", where 'e = CudaError] bs(1) by auto
  have "?n * 128 < usize_limit" using len assms(3) by linarith
  then have "repack_q4_k fits bytes = for_each (List.enumerate 0 ?bs) (repack_block (?n * 128)) (replicate (length bytes) 0)"
    using assms by (simp add: repack_q4_k_def Q4_K_GGUF_BLOCK_BYTES_def Q4_K_CODE_BYTES_def try_vec_def usize_checked_mul_def Let_def)
  then show ?thesis unfolding zeros using ms bs(1) by auto
qed

definition region_step :: "'f FloatOps \<Rightarrow> u8 list \<Rightarrow> u8 list \<Rightarrow> nat \<Rightarrow> 'f list \<Rightarrow> ('f list, 'e) outcome" where
  "region_step ops codes metadata block out =
     and_then (slice codes (block * Q4_K_CODE_BYTES) ((block + 1) * Q4_K_CODE_BYTES)) (\<lambda>c.
     and_then (slice metadata (block * Q4_K_METADATA_BYTES) ((block + 1) * Q4_K_METADATA_BYTES)) (\<lambda>m.
     dequantize_block ops c m out))"

lemma region_step_run:
  assumes bs: "\<forall>b\<in>set bs. length b = 144" and ms: "list_all2 (\<lambda>b m. holds_metadata b 4 m) bs ms" and k: "k < length bs"
  shows "region_step ops (concat (map code_region bs)) (concat ms) k out =
    and_then (q4_k_block ops (bs ! k)) (\<lambda>vs. Ok (out @ vs))"
proof -
  have lens: "\<forall>c\<in>set (map code_region bs). length c = 128" "\<forall>m\<in>set ms. length m = 16"
    using bs ms code_region_length by (auto simp: list_all2_conv_all_nth in_set_conv_nth holds_metadata_def)
  have n: "length ms = length bs" using ms list_all2_lengthD by metis
  have "Suc k * 128 \<le> length bs * 128" "Suc k * 16 \<le> length bs * 16" using k by (intro mult_le_mono1; simp)+
  moreover have "length (concat (map code_region bs)) = length bs * 128" "length (concat ms) = length bs * 16"
    using length_concat_chunks [of bs code_region 128] length_concat_chunks [of ms "\<lambda>m. m" 16] lens n by auto
  moreover have "take 128 (drop (k * 128) (concat (map code_region bs))) = code_region (bs ! k)" "take 16 (drop (k * 16) (concat ms)) = ms ! k"
    using concat_nth_chunk [OF lens(1), of k] concat_nth_chunk [OF lens(2), of k] k n by simp_all
  moreover have "length (bs ! k) = 144" "holds_metadata (bs ! k) 4 (ms ! k)"
    using bs ms k by (auto simp: list_all2_conv_all_nth)
  ultimately show ?thesis
    by (simp add: region_step_def Q4_K_CODE_BYTES_def Q4_K_METADATA_BYTES_def dequantize_block_run)
qed

lemma region_steps_run:
  assumes bs: "\<forall>b\<in>set bs. length b = 144" and ms: "list_all2 (\<lambda>b m. holds_metadata b 4 m) bs ms"
  shows "k \<le> length bs \<Longrightarrow>
    for_each [k..<length bs] (region_step ops (concat (map code_region bs)) (concat ms)) out = block_loop (q4_k_block ops) (drop k bs) out"
proof (induction "length bs - k" arbitrary: k out)
  case (Suc d)
  have k: "k < length bs" using Suc.hyps(2) by simp
  then have "[k..<length bs] = k # [Suc k..<length bs]" "drop k bs = bs ! k # drop (Suc k) bs"
    by (simp_all add: upt_conv_Cons Cons_nth_drop_Suc)
  then show ?case using Suc.hyps(1) [of "Suc k"] Suc.hyps(2) k
    by (cases "q4_k_block ops (bs ! k) :: ('a list, 'b) outcome") (simp_all add: region_step_run [OF bs ms])
qed simp


text \<open>The 256 values of a block, whatever the error type of the loop around it.\<close>

definition block_values :: "'f FloatOps \<Rightarrow> u8 list \<Rightarrow> 'f list" where
  "block_values ops b = (case q4_k_block ops b of (Ok vs :: ('f list, unit) outcome) \<Rightarrow> vs | _ \<Rightarrow> [])"

lemma q4_k_block_exact:
  assumes "length b = 144"
  shows "q4_k_block ops b = (Ok (concat (map (\<lambda>(g, c). group_values ops (ff_of_half ops (from_le_bytes [b ! 0, b ! 1]))
      (ff_of_half ops (from_le_bytes [b ! 2, b ! 3])) (take 12 (drop 4 b)) g c) (List.enumerate 0 (chunks_exact 32 (take 128 (drop 16 b)))))) :: ('a list, 'e) outcome)"
proof -
  have "length (take 128 (drop 16 b)) = 128" using assms by simp
  then have "length (chunks_exact 32 (take 128 (drop 16 b))) = 4" by (rule chunks_of_128 [THEN conjunct1])
  then have len: "0 + length (chunks_exact 32 (take 128 (drop 16 b))) \<le> 4" by linarith
  have packed: "length (take 12 (drop 4 b)) = 12" using assms by simp
  have s: "slice b 4 16 = (Ok (take 12 (drop 4 b)) :: (u8 list, 'e) outcome)" "slice b 16 144 = (Ok (take 128 (drop 16 b)) :: (u8 list, 'e) outcome)"
    using assms by simp_all
  have h: "half_at ops b 0 = (Ok (ff_of_half ops (from_le_bytes [b ! 0, b ! 1])) :: ('a, 'e) outcome)"
    "half_at ops b 2 = (Ok (ff_of_half ops (from_le_bytes [b ! 2, b ! 3])) :: ('a, 'e) outcome)"
    using assms by (simp_all add: half_at_in)
  show ?thesis unfolding q4_k_block_def s h and_then.simps
    using q4_k_chunks_run [OF packed len, of ops] by (simp only: mult_0)
qed

lemma q4_k_block_run: "length b = 144 \<Longrightarrow> q4_k_block ops b = Ok (block_values ops b)"
  by (simp only: block_values_def q4_k_block_exact outcome.case)

lemma block_loop_values:
  "\<forall>b\<in>set bs. length b = 144 \<Longrightarrow> block_loop (q4_k_block ops) bs acc = Ok (acc @ concat (map (block_values ops) bs))"
  by (induction bs arbitrary: acc) (simp_all add: q4_k_block_run)

lemma dequantize_q4_k_run:
  assumes n: "length bytes = k * 144" and small: "1024 * k < usize_limit" and fits: "fits (1024 * k)"
    and out: "out = concat (map code_region (chunks_exact 144 bytes)) @ concat ms"
    and ms: "list_all2 (\<lambda>b m. holds_metadata b 4 m) (chunks_exact 144 bytes) ms"
  shows "length out = length bytes \<and> dequantize_q4_k fits ops out (k * 256) = Ok (concat (map (block_values ops) (chunks_exact 144 bytes)))"
proof -
  let ?bs = "chunks_exact 144 bytes"
  have bs: "length ?bs = k" "\<forall>b\<in>set ?bs. length b = 144"
    using chunks_exact_whole [of 144 bytes k] n chunks_exact_lengths by auto
  have "\<forall>m\<in>set ms. length m = 16" "length ms = k"
    using ms bs(1) by (auto simp: list_all2_conv_all_nth in_set_conv_nth holds_metadata_def)
  then have lens: "length (concat (map code_region ?bs)) = k * 128" "length (concat ms) = k * 16"
    using length_concat_chunks [of ?bs code_region 128] length_concat_chunks [of ms "\<lambda>m. m" 16] bs code_region_length by auto
  have step: "region_step ops (concat (map code_region ?bs)) (concat ms) = (\<lambda>block out.
      and_then (slice (concat (map code_region ?bs)) (block * Q4_K_CODE_BYTES) ((block + 1) * Q4_K_CODE_BYTES)) (\<lambda>c.
      and_then (slice (concat ms) (block * Q4_K_METADATA_BYTES) ((block + 1) * Q4_K_METADATA_BYTES)) (\<lambda>m.
      dequantize_block ops c m out)))" by (simp add: region_step_def fun_eq_iff)
  have "for_each [0..<k] (region_step ops (concat (map code_region ?bs)) (concat ms)) [] = (Ok (concat (map (block_values ops) ?bs)) :: ('a list, CudaError) outcome)"
    using region_steps_run [OF bs(2) ms, of 0 ops "[]", where 'b = CudaError] bs by (simp add: block_loop_values)
  then show ?thesis using lens n small fits unfolding step out
    by (simp add: dequantize_q4_k_def Q4_K_BLOCK_ELEMENTS_def Q4_K_GGUF_BLOCK_BYTES_def Q4_K_CODE_BYTES_def try_vec_def usize_checked_mul_def Let_def mult.commute)
qed


lemma dequant_q4_k_run:
  assumes "length bytes = k * 144" and "length bytes < usize_limit"
  shows "dequant_q4_k ops bytes (k * 256) = Ok (concat (map (block_values ops) (chunks_exact 144 bytes)))"
proof -
  have "\<forall>b\<in>set (chunks_exact 144 bytes). length b = 144" using chunks_exact_lengths by auto
  then show ?thesis using assms
    by (simp add: dequant_q4_k_def validate_dequant_def usize_checked_mul_def K_BLOCK_ELEMENTS_def block_loop_values)
qed

section \<open>Repacking is lossless\<close>

text \<open>C28: Repacking loses nothing. Any nonempty row of whole \<open>Q4_K\<close> blocks repacks (when the
  allocator gives the buffer) into as many bytes, and decoding the repacked bytes gives exactly the
  values the scalar decoder of the GGUF crate gives for the source, whatever the float operations
  are: the stripes of codes are undone and the 24-bit records give back the scales and minima.\<close>

theorem q4k_repack_is_lossless:
  assumes "bytes \<noteq> []" and "length bytes mod Q4_K_GGUF_BLOCK_BYTES = 0" and "8 * length bytes < usize_limit"
    and "fits (length bytes)" and "fits (4 * n)" and "n = length bytes div Q4_K_GGUF_BLOCK_BYTES * Q4_K_BLOCK_ELEMENTS"
  shows "\<exists>out vs. repack_q4_k fits bytes = Ok out \<and> length out = length bytes \<and>
    dequantize_q4_k fits ops out n = Ok vs \<and> dequant_q4_k ops bytes n = Ok vs"
proof -
  let ?k = "length bytes div 144"
  have k: "length bytes = ?k * 144" "n = ?k * 256" using assms(2,6) by (auto simp: Q4_K_GGUF_BLOCK_BYTES_def Q4_K_BLOCK_ELEMENTS_def)
  have small: "1024 * ?k < usize_limit" "length bytes < usize_limit" using k(1) assms(3) by linarith+
  obtain ms out where ms: "repack_q4_k fits bytes = Ok out" "out = concat (map code_region (chunks_exact 144 bytes)) @ concat ms"
    "list_all2 (\<lambda>b m. holds_metadata b 4 m) (chunks_exact 144 bytes) ms"
    using repack_q4_k_run [of bytes fits] assms(1,2,4) small(2) by (auto simp: Q4_K_GGUF_BLOCK_BYTES_def)
  have "fits (1024 * ?k)" using assms(5) k(2) by (simp add: mult.commute)
  from dequantize_q4_k_run [of bytes ?k fits out ms ops, OF k(1) small(1) this ms(2,3)] dequant_q4_k_run [OF k(1) small(2)] ms(1)
  show ?thesis unfolding k(2) by blast
qed

definition int_ops :: "int FloatOps" where
  "int_ops = \<lparr>ff_mul = (*), ff_sub = (-), ff_of_int = id, ff_of_half = uint, ff_of_bits = uint, ff_zero = 0\<rparr>"

theorem q4k_repack_is_lossless_witness:
  "\<exists>out vs. repack_q4_k (\<lambda>_. True) (replicate 144 7) = Ok out \<and> length out = length (replicate 144 (7 :: u8)) \<and>
    dequantize_q4_k (\<lambda>_. True) int_ops out 256 = Ok vs \<and> dequant_q4_k int_ops (replicate 144 7) 256 = Ok vs"
  by (rule q4k_repack_is_lossless) (simp_all add: Q4_K_GGUF_BLOCK_BYTES_def Q4_K_BLOCK_ELEMENTS_def)

end
