(* ===== verification/Runtime_Service.thy ===== *)
theory Runtime_Service
  imports Service
begin

text \<open>
  The executor that serves requests with retained sessions
  (\<open>crates/leone/src/runtime_service.rs\<close>). \<open>RuntimeQuantumExecutor\<close> keeps one record per
  admitted request and turns scheduler dispatches into calls of a generation driver, a trait
  that is a record of functions here, each over the driver's own state. \<open>leone_driver\<close> is the
  driver over a loaded runtime; the runtime (numerics on an accelerator) is again a record of
  functions. Cancellation flags are shared between clones of a request: a request holds a
  reference into a store of flags. Record prefixes: \<open>go_\<close> GenerateOptions, \<open>sr_\<close>
  ScheduledGenerationRequest, \<open>gq_\<close> GenerationQuantum, \<open>dr_\<close> PausableGenerationDriver, \<open>rn_\<close>
  the runtime, \<open>rq_\<close> RequestState, \<open>cg_\<close> CompletedGeneration, \<open>rx_\<close> RuntimeQuantumExecutor.
\<close>

section \<open>Requests and cancellation\<close>

text \<open>The executor reads only \<open>max_tokens\<close> of the options and hands the others on.\<close>

record 'o GenerateOptions =
  go_max_tokens :: nat
  go_others :: 'o

record 'o ScheduledGenerationRequest =
  sr_prompt_tokens :: "u32 list"
  sr_options :: "'o GenerateOptions"
  sr_cancelled :: nat

definition request_new :: "u32 list \<Rightarrow> 'o GenerateOptions \<Rightarrow> bool list \<Rightarrow> 'o ScheduledGenerationRequest \<times> bool list" where
  "request_new prompt_tokens options flags =
     (\<lparr>sr_prompt_tokens = prompt_tokens, sr_options = options, sr_cancelled = length flags\<rparr>, flags @ [False])"

definition request_cancel :: "'o ScheduledGenerationRequest \<Rightarrow> bool list \<Rightarrow> bool list" where
  "request_cancel request flags = flags[sr_cancelled request := True]"

definition is_cancelled :: "'o ScheduledGenerationRequest \<Rightarrow> bool list \<Rightarrow> bool" where
  "is_cancelled request flags = (flags ! sr_cancelled request)"

section \<open>Drivers\<close>

record GenerationQuantum =
  gq_tokens :: "u32 list"
  gq_pieces :: "u8 list list"
  gq_eos :: bool
  gq_cancelled :: bool

datatype ('p, 'r) DriverPrefillProgress =
    DriverPending 'p nat
  | DriverReady 'r nat
  | DriverCancelled nat

record ('d, 's, 'p, 'r, 'o, 'e) PausableGenerationDriver =
  dr_start_session :: "'d \<Rightarrow> 's \<times> 'd"
  dr_begin_prefill :: "'s \<Rightarrow> u32 list \<Rightarrow> 'o GenerateOptions \<Rightarrow> 'd \<Rightarrow> ('p + 'e) \<times> 's \<times> 'd"
  dr_advance_prefill :: "'p \<Rightarrow> nat \<Rightarrow> nat \<Rightarrow> 'd \<Rightarrow> (('p, 'r) DriverPrefillProgress + 'e) \<times> 'd"
  dr_finish_prefill :: "'r \<Rightarrow> 's \<Rightarrow> 'd \<Rightarrow> (unit + 'e) \<times> 's \<times> 'd"
  dr_generate_quantum :: "'s \<Rightarrow> u32 list \<Rightarrow> 'o GenerateOptions \<Rightarrow> nat \<Rightarrow> 'd \<Rightarrow> (GenerationQuantum + 'e) \<times> 's \<times> 'd"
  dr_finish_session :: "'s \<Rightarrow> RequestStatus \<Rightarrow> 'd \<Rightarrow> (unit + 'e) \<times> 's \<times> 'd"

text \<open>
  The calls of a loaded runtime, over the state \<open>'w\<close> of the runtime and what surrounds it, the
  cancellation flags included (\<open>rn_load\<close> reads one at that moment). \<open>rn_generate\<close> also gives
  the calls it made of the token callback.
\<close>

datatype ('p, 'r, 'c) PrefillAdvance = AdvancePending 'p | AdvanceReady 'r | AdvanceCancelled 'c

record ('w, 's, 'p, 'r, 'c, 'o, 'e) RuntimeCalls =
  rn_new_session :: 's
  rn_begin_prefill :: "'s \<Rightarrow> u32 list \<Rightarrow> 'o GenerateOptions \<Rightarrow> 'w \<Rightarrow> ('p + 'e) \<times> 's \<times> 'w"
  rn_advance_prefill :: "'p \<Rightarrow> nat \<Rightarrow> nat \<Rightarrow> 'w \<Rightarrow> (('p, 'r, 'c) PrefillAdvance + 'e) \<times> 'w"
  rn_processed_pending :: "'p \<Rightarrow> nat"
  rn_processed_ready :: "'r \<Rightarrow> nat"
  rn_processed_cancelled :: "'c \<Rightarrow> nat"
  rn_finish_prefill :: "'r \<Rightarrow> 's \<Rightarrow> 'w \<Rightarrow> (unit + 'e) \<times> 's \<times> 'w"
  rn_generate :: "'s \<Rightarrow> u32 list \<Rightarrow> 'o GenerateOptions \<Rightarrow> nat \<Rightarrow> 'w \<Rightarrow>
    ((u32 list \<times> bool) + 'e) \<times> (u32 \<times> u8 list) list \<times> 's \<times> 'w"
  rn_discard_session :: "'s \<Rightarrow> 'w \<Rightarrow> (unit + 'e) \<times> 's \<times> 'w"
  rn_load :: "nat \<Rightarrow> 'w \<Rightarrow> bool"

datatype 'e LeoneRuntimeDriverError = CallbackMismatch | RuntimeFailed 'e

fun failed_runtime :: "('a + 'e) \<times> 'b \<Rightarrow> ('a + 'e LeoneRuntimeDriverError) \<times> 'b" where
  "failed_runtime (Inl a, b) = (Inl a, b)"
| "failed_runtime (Inr e, b) = (Inr (RuntimeFailed e), b)"

definition leone_advance_prefill ::
  "('w, 's, 'p, 'r, 'c, 'o, 'e) RuntimeCalls \<Rightarrow> 'p \<Rightarrow> nat \<Rightarrow> nat \<Rightarrow> 'w
    \<Rightarrow> (('p, 'r) DriverPrefillProgress + 'e LeoneRuntimeDriverError) \<times> 'w" where
  "leone_advance_prefill rn pending budget cancelled w =
     (let before = rn_processed_pending rn pending in
      case rn_advance_prefill rn pending budget cancelled w of
        (Inr e, w) \<Rightarrow> (Inr (RuntimeFailed e), w)
      | (Inl progress, w) \<Rightarrow> (Inl (case progress of
            AdvancePending p \<Rightarrow> DriverPending p (rn_processed_pending rn p - before)
          | AdvanceReady r \<Rightarrow> DriverReady r (rn_processed_ready rn r - before)
          | AdvanceCancelled c \<Rightarrow> DriverCancelled (rn_processed_cancelled rn c - before)), w))"

definition leone_generate_quantum ::
  "('w, 's, 'p, 'r, 'c, 'o, 'e) RuntimeCalls \<Rightarrow> u32 option \<Rightarrow> 's \<Rightarrow> u32 list \<Rightarrow> 'o GenerateOptions \<Rightarrow> nat \<Rightarrow> 'w
    \<Rightarrow> (GenerationQuantum + 'e LeoneRuntimeDriverError) \<times> 's \<times> 'w" where
  "leone_generate_quantum rn eos_token session transcript options cancelled w =
     (let token_budget = go_max_tokens options in
      case rn_generate rn session transcript options cancelled w of
        (Inr e, calls, session, w) \<Rightarrow> (Inr (RuntimeFailed e), session, w)
      | (Inl (tokens, stats_cancelled), calls, session, w) \<Rightarrow>
          if map fst calls \<noteq> tokens then (Inr CallbackMismatch, session, w)
          else
            let was_cancelled = (stats_cancelled \<or> rn_load rn cancelled w);
                emitted_eos = (tokens \<noteq> [] \<and> Some (last tokens) = eos_token);
                stopped_early = (length tokens < token_budget) in
            (Inl \<lparr>gq_tokens = tokens, gq_pieces = map snd calls,
                gq_eos = (\<not> was_cancelled \<and> (emitted_eos \<or> stopped_early)), gq_cancelled = was_cancelled\<rparr>, session, w))"

definition leone_finish_session ::
  "('w, 's, 'p, 'r, 'c, 'o, 'e) RuntimeCalls \<Rightarrow> 's \<Rightarrow> RequestStatus \<Rightarrow> 'w \<Rightarrow> (unit + 'e LeoneRuntimeDriverError) \<times> 's \<times> 'w" where
  "leone_finish_session rn session status w =
     (if status \<noteq> Finished then failed_runtime (rn_discard_session rn session w) else (Inl (), session, w))"

definition leone_driver ::
  "('w, 's, 'p, 'r, 'c, 'o, 'e) RuntimeCalls \<Rightarrow> u32 option \<Rightarrow> ('w, 's, 'p, 'r, 'o, 'e LeoneRuntimeDriverError) PausableGenerationDriver" where
  "leone_driver rn eos_token =
     \<lparr>dr_start_session = (\<lambda>w. (rn_new_session rn, w)),
      dr_begin_prefill = (\<lambda>session transcript options w. failed_runtime (rn_begin_prefill rn session transcript options w)),
      dr_advance_prefill = leone_advance_prefill rn,
      dr_finish_prefill = (\<lambda>ready session w. failed_runtime (rn_finish_prefill rn ready session w)),
      dr_generate_quantum = leone_generate_quantum rn eos_token,
      dr_finish_session = leone_finish_session rn\<rparr>"

section \<open>The executor\<close>

record ('s, 'p, 'o) GenerationState =
  rq_session :: 's
  rq_pending_prefill :: "'p option"
  rq_transcript :: "u32 list"
  rq_options :: "'o GenerateOptions"
  rq_remaining_tokens :: nat
  rq_emitted_tokens :: "u32 list"
  rq_emitted_pieces :: "u8 list list"
  rq_cancelled :: nat

record CompletedGeneration =
  cg_status :: RequestStatus
  cg_tokens :: "u32 list"
  cg_pieces :: "u8 list list"

record ('d, 's, 'p, 'o) RuntimeQuantumExecutor =
  rx_driver :: 'd
  rx_active :: "(RequestId, ('s, 'p, 'o) GenerationState) btree_map"
  rx_completed :: "(RequestId, CompletedGeneration) btree_map"

datatype 'e RuntimeQuantumExecutorError =
    RxDuplicateRequest u64
  | RxUnknownRequest u64
  | QuantumOverflow nat nat
  | PrefillIsPending
  | ZeroPrefillBudget
  | DriverFailed 'e

definition runtime_executor_new :: "'d \<Rightarrow> ('d, 's, 'p, 'o) RuntimeQuantumExecutor" where
  "runtime_executor_new driver = \<lparr>rx_driver = driver, rx_active = [], rx_completed = []\<rparr>"

definition runtime_completed :: "('d, 's, 'p, 'o) RuntimeQuantumExecutor \<Rightarrow> RequestId \<Rightarrow> CompletedGeneration option" where
  "runtime_completed x i = bt_get (rx_completed x) i"

definition active_len :: "('d, 's, 'p, 'o) RuntimeQuantumExecutor \<Rightarrow> nat" where
  "active_len x = length (rx_active x)"

text \<open>\<open>u32::try_from(n).unwrap_or(u32::MAX)\<close>.\<close>

definition u32_or_max :: "nat \<Rightarrow> u32" where
  "u32_or_max n = (if n < 2 ^ 32 then of_nat n else - 1)"

text \<open>The record of a request and the driver as a call leaves them.\<close>

definition put_request ::
  "RequestId \<Rightarrow> ('a + 'f) \<times> ('s, 'p, 'o) GenerationState \<times> 'd \<Rightarrow> ('d, 's, 'p, 'o) RuntimeQuantumExecutor
    \<Rightarrow> ('a + 'f) \<times> ('d, 's, 'p, 'o) RuntimeQuantumExecutor" where
  "put_request i m x = (case m of (r, state, driver) \<Rightarrow> (r, x\<lparr>rx_driver := driver, rx_active := bt_insert i state (rx_active x)\<rparr>))"

definition finish_prefill_progress ::
  "('d, 's, 'p, 'r, 'o, 'e) PausableGenerationDriver \<Rightarrow> ('s, 'p, 'o) GenerationState \<Rightarrow> ('p, 'r) DriverPrefillProgress \<Rightarrow> 'd
    \<Rightarrow> (QuantumOutput + 'e RuntimeQuantumExecutorError) \<times> ('s, 'p, 'o) GenerationState \<times> 'd" where
  "finish_prefill_progress dr state progress driver =
     (case progress of
        DriverPending pending processed_tokens \<Rightarrow>
          (Inl (prefill_output (u32_or_max processed_tokens) False False), state\<lparr>rq_pending_prefill := Some pending\<rparr>, driver)
      | DriverReady ready processed_tokens \<Rightarrow>
          (case dr_finish_prefill dr ready (rq_session state) driver of
             (Inr e, session, driver) \<Rightarrow> (Inr (DriverFailed e), state\<lparr>rq_session := session\<rparr>, driver)
           | (Inl _, session, driver) \<Rightarrow>
               (Inl (prefill_output (u32_or_max processed_tokens) True False), state\<lparr>rq_session := session\<rparr>, driver))
      | DriverCancelled processed_tokens \<Rightarrow>
          (Inl (prefill_output (u32_or_max processed_tokens) False True), state, driver))"

text \<open>\<open>state.pending_prefill.take()\<close>, or a prefill begun now.\<close>

definition take_or_begin ::
  "('d, 's, 'p, 'r, 'o, 'e) PausableGenerationDriver \<Rightarrow> ('s, 'p, 'o) GenerationState \<Rightarrow> 'd
    \<Rightarrow> ('p + 'e) \<times> ('s, 'p, 'o) GenerationState \<times> 'd" where
  "take_or_begin dr state driver =
     (case rq_pending_prefill state of
        Some pending \<Rightarrow> (Inl pending, state\<lparr>rq_pending_prefill := None\<rparr>, driver)
      | None \<Rightarrow>
          (case dr_begin_prefill dr (rq_session state) (rq_transcript state) (rq_options state) driver of
             (r, session, driver) \<Rightarrow> (r, state\<lparr>rq_session := session\<rparr>, driver)))"

definition prefill_request ::
  "('d, 's, 'p, 'r, 'o, 'e) PausableGenerationDriver \<Rightarrow> nat \<Rightarrow> ('s, 'p, 'o) GenerationState \<Rightarrow> 'd
    \<Rightarrow> (QuantumOutput + 'e RuntimeQuantumExecutorError) \<times> ('s, 'p, 'o) GenerationState \<times> 'd" where
  "prefill_request dr budget state driver =
     (case take_or_begin dr state driver of
        (Inr e, state, driver) \<Rightarrow> (Inr (DriverFailed e), state, driver)
      | (Inl pending, state, driver) \<Rightarrow>
          (case dr_advance_prefill dr pending budget (rq_cancelled state) driver of
             (Inr e, driver) \<Rightarrow> (Inr (DriverFailed e), state, driver)
           | (Inl progress, driver) \<Rightarrow> finish_prefill_progress dr state progress driver))"

definition execute_prefill ::
  "('d, 's, 'p, 'r, 'o, 'e) PausableGenerationDriver \<Rightarrow> Dispatch \<Rightarrow> ('d, 's, 'p, 'o) RuntimeQuantumExecutor
    \<Rightarrow> (QuantumOutput + 'e RuntimeQuantumExecutorError) \<times> ('d, 's, 'p, 'o) RuntimeQuantumExecutor" where
  "execute_prefill dr d x =
     (let budget = unat (dp_token_budget d) in
      if budget = 0 then (Inr ZeroPrefillBudget, x)
      else case bt_get (rx_active x) (dp_request_id d) of
        None \<Rightarrow> (Inr (RxUnknownRequest (id_word (dp_request_id d))), x)
      | Some state \<Rightarrow> put_request (dp_request_id d) (prefill_request dr budget state (rx_driver x)) x)"

definition runtime_begin ::
  "('d, 's, 'p, 'r, 'o, 'e) PausableGenerationDriver \<Rightarrow> RequestId \<Rightarrow> 'o ScheduledGenerationRequest \<Rightarrow> ('d, 's, 'p, 'o) RuntimeQuantumExecutor
    \<Rightarrow> (unit + 'e RuntimeQuantumExecutorError) \<times> ('d, 's, 'p, 'o) RuntimeQuantumExecutor" where
  "runtime_begin dr i request x =
     (if bt_contains (rx_active x) i then (Inr (RxDuplicateRequest (id_word i)), x)
      else case dr_start_session dr (rx_driver x) of
        (session, driver) \<Rightarrow>
          (Inl (), x\<lparr>rx_driver := driver, rx_completed := bt_remove i (rx_completed x),
             rx_active := bt_insert i
               \<lparr>rq_session = session, rq_pending_prefill = None, rq_transcript = sr_prompt_tokens request,
                rq_options = sr_options request, rq_remaining_tokens = go_max_tokens (sr_options request),
                rq_emitted_tokens = [], rq_emitted_pieces = [], rq_cancelled = sr_cancelled request\<rparr> (rx_active x)\<rparr>))"

text \<open>
  One decode quantum of a request. The subtraction does not wrap: the quantum is within the
  budget, and the budget within what remains.
\<close>

definition decode_request ::
  "('d, 's, 'p, 'r, 'o, 'e) PausableGenerationDriver \<Rightarrow> u32 \<Rightarrow> ('s, 'p, 'o) GenerationState \<Rightarrow> 'd
    \<Rightarrow> (QuantumOutput + 'e RuntimeQuantumExecutorError) \<times> ('s, 'p, 'o) GenerationState \<times> 'd" where
  "decode_request dr token_budget state driver =
     (if rq_pending_prefill state \<noteq> None then (Inr PrefillIsPending, state, driver)
      else
        let budget = min (unat token_budget) (rq_remaining_tokens state);
            options = (rq_options state)\<lparr>go_max_tokens := budget\<rparr> in
        case dr_generate_quantum dr (rq_session state) (rq_transcript state) options (rq_cancelled state) driver of
          (Inr e, session, driver) \<Rightarrow> (Inr (DriverFailed e), state\<lparr>rq_session := session\<rparr>, driver)
        | (Inl quantum, session, driver) \<Rightarrow>
            if budget < length (gq_tokens quantum)
            then (Inr (QuantumOverflow budget (length (gq_tokens quantum))), state\<lparr>rq_session := session\<rparr>, driver)
            else
              let remaining = rq_remaining_tokens state - length (gq_tokens quantum) in
              (Inl \<lparr>qo_tokens = gq_tokens quantum, qo_eos = (gq_eos quantum \<or> remaining = 0),
                   qo_cancelled = gq_cancelled quantum, qo_prefill = None\<rparr>,
               state\<lparr>rq_session := session, rq_remaining_tokens := remaining,
                 rq_transcript := rq_transcript state @ gq_tokens quantum,
                 rq_emitted_tokens := rq_emitted_tokens state @ gq_tokens quantum,
                 rq_emitted_pieces := rq_emitted_pieces state @ gq_pieces quantum\<rparr>, driver))"

definition runtime_execute ::
  "('d, 's, 'p, 'r, 'o, 'e) PausableGenerationDriver \<Rightarrow> RequestId \<Rightarrow> u32 \<Rightarrow> ('d, 's, 'p, 'o) RuntimeQuantumExecutor
    \<Rightarrow> (QuantumOutput + 'e RuntimeQuantumExecutorError) \<times> ('d, 's, 'p, 'o) RuntimeQuantumExecutor" where
  "runtime_execute dr i token_budget x =
     (case bt_get (rx_active x) i of
        None \<Rightarrow> (Inr (RxUnknownRequest (id_word i)), x)
      | Some state \<Rightarrow> put_request i (decode_request dr token_budget state (rx_driver x)) x)"

definition runtime_execute_dispatch ::
  "('d, 's, 'p, 'r, 'o, 'e) PausableGenerationDriver \<Rightarrow> Dispatch \<Rightarrow> ('d, 's, 'p, 'o) RuntimeQuantumExecutor
    \<Rightarrow> (QuantumOutput + 'e RuntimeQuantumExecutorError) \<times> ('d, 's, 'p, 'o) RuntimeQuantumExecutor" where
  "runtime_execute_dispatch dr d x =
     (case dp_kind d of Prefill \<Rightarrow> execute_prefill dr d x | Decode \<Rightarrow> runtime_execute dr (dp_request_id d) (dp_token_budget d) x)"

definition runtime_finish ::
  "('d, 's, 'p, 'r, 'o, 'e) PausableGenerationDriver \<Rightarrow> RequestId \<Rightarrow> RequestStatus \<Rightarrow> ('d, 's, 'p, 'o) RuntimeQuantumExecutor
    \<Rightarrow> (unit + 'e RuntimeQuantumExecutorError) \<times> ('d, 's, 'p, 'o) RuntimeQuantumExecutor" where
  "runtime_finish dr i status x =
     (case bt_get (rx_active x) i of
        None \<Rightarrow> (Inr (RxUnknownRequest (id_word i)), x)
      | Some state \<Rightarrow>
          let x = x\<lparr>rx_active := bt_remove i (rx_active x)\<rparr> in
          case dr_finish_session dr (rq_session state) status (rx_driver x) of
            (Inr e, _, driver) \<Rightarrow> (Inr (DriverFailed e), x\<lparr>rx_driver := driver\<rparr>)
          | (Inl _, _, driver) \<Rightarrow>
              (Inl (), x\<lparr>rx_driver := driver, rx_completed := bt_insert i
                 \<lparr>cg_status = status, cg_tokens = rq_emitted_tokens state, cg_pieces = rq_emitted_pieces state\<rparr> (rx_completed x)\<rparr>))"

definition runtime_executor ::
  "('d, 's, 'p, 'r, 'o, 'e) PausableGenerationDriver
    \<Rightarrow> (('d, 's, 'p, 'o) RuntimeQuantumExecutor, 'o ScheduledGenerationRequest, 'e RuntimeQuantumExecutorError) QuantumExecutor" where
  "runtime_executor dr =
     \<lparr>qx_begin = runtime_begin dr, qx_execute_batch = default_execute_batch (runtime_execute_dispatch dr),
      qx_finish = runtime_finish dr, qx_finish_at = default_finish_at (runtime_finish dr)\<rparr>"

end
