(* ===== verification/Executor_Invariants.thy ===== *)
theory Executor_Invariants
  imports Service_Machine
begin

text \<open>
  What an executor keeps, the service over it keeps: the service touches its executor only by
  calls of the trait. The locale \<open>executor_invariant\<close> asks for the four calls and gives every
  reachable service.
\<close>

lemma try_st_keeps:
  "P (snd m) \<Longrightarrow> (\<And>a s. P s \<Longrightarrow> P (snd (f a s))) \<Longrightarrow> P (snd (try_st m f))"
  by (auto simp: try_st_cases split: prod.splits outcome.splits)

lemma try_pure_keeps: "P s \<Longrightarrow> (\<And>a. P (snd (f a))) \<Longrightarrow> P (snd (try_pure m s f))"
  by (cases m) simp_all

locale executor_invariant =
  fixes ex :: "('x, 'r, 'e) QuantumExecutor" and Q :: "'x \<times> exec_call list \<Rightarrow> bool"
  assumes begin_keeps: "Q x \<Longrightarrow> Q (snd (qx_begin (logged ex) i req x))"
    and execute_keeps: "Q x \<Longrightarrow> Q (snd (qx_execute_batch (logged ex) ds x))"
    and finish_keeps: "Q x \<Longrightarrow> Q (snd (qx_finish (logged ex) i status x))"
    and finish_at_keeps: "Q x \<Longrightarrow> Q (snd (qx_finish_at (logged ex) i status at_ns x))"
begin

lemma on_scheduler_keeps: "Q (sv_executor sv) \<Longrightarrow> Q (sv_executor (snd (on_scheduler f sv)))"
  by (simp add: on_scheduler_def case_prod_beta)

lemma on_executor_keeps: "Q (snd (f (sv_executor sv))) \<Longrightarrow> Q (sv_executor (snd (on_executor f sv)))"
  by (simp add: on_executor_def case_prod_beta)

lemma remember_failure_keeps: "Q (sv_executor (snd m)) \<Longrightarrow> Q (sv_executor (remember_failure m))"
  by (auto simp: remember_failure_def remember_finish_error_def split: prod.splits sum.splits)

lemma finish_call_keeps:
  "Q (sv_executor sv) \<Longrightarrow> Q (sv_executor (snd (on_executor (qx_finish (logged ex) i status) sv)))"
  "Q (sv_executor sv) \<Longrightarrow> Q (sv_executor (snd (on_executor (qx_finish_at (logged ex) i status at_ns) sv)))"
  by (simp_all add: on_executor_def case_prod_beta finish_keeps finish_at_keeps)

lemmas call_keeps = on_scheduler_keeps on_executor_keeps remember_failure_keeps begin_keeps execute_keeps finish_keeps finish_at_keeps

lemma abort_quanta_keeps: "Q (sv_executor sv) \<Longrightarrow> Q (sv_executor (snd (abort_quanta (logged ex) ds e sv)))"
proof (induction ds arbitrary: e sv)
  case (Cons d ds)
  show ?case
  proof (cases "on_scheduler (abort_quantum (dp_request_id d)) sv")
    case (Pair r sv1)
    have one: "Q (sv_executor sv1)" using on_scheduler_keeps [OF Cons.prems, of "abort_quantum (dp_request_id d)"] Pair by simp
    show ?thesis
    proof (cases r)
      case (Ok status)
      obtain r2 sv2 where two: "on_executor (qx_finish (logged ex) (dp_request_id d) status) sv1 = (r2, sv2)" by fastforce
      have "Q (sv_executor sv2)"
        using finish_call_keeps(1) [OF one, of "dp_request_id d" status] two by simp
      then show ?thesis using Pair Ok two Cons.IH by (cases r2) simp_all
    qed (use Pair one Cons.IH in simp_all)
  qed
qed simp

lemma abort_with_error_keeps: "Q (sv_executor sv) \<Longrightarrow> Q (sv_executor (snd (abort_with_error (logged ex) ds error sv)))"
  unfolding abort_with_error_def abort_batch_def
  by (intro try_st_keeps [where P = "\<lambda>sv. Q (sv_executor sv)"] abort_quanta_keeps) simp_all

lemma abort_running_batch_keeps: "Q (sv_executor sv) \<Longrightarrow> Q (sv_executor (abort_running_batch (logged ex) ds sv))"
proof (induction ds arbitrary: sv)
  case (Cons d ds)
  obtain r sv1 where one: "on_scheduler (abort_quantum (dp_request_id d)) sv = (r, sv1)" by fastforce
  then have "Q (sv_executor sv1)" using on_scheduler_keeps [OF Cons.prems, of "abort_quantum (dp_request_id d)"] by simp
  moreover from this have "Q (sv_executor (snd (on_executor (qx_finish (logged ex) (dp_request_id d) status) sv1)))" for status
    by (intro on_executor_keeps finish_keeps)
  ultimately show ?case using one Cons by (cases r) simp_all
qed simp

lemma execute_batch_outputs_keeps: "Q (sv_executor sv) \<Longrightarrow> Q (sv_executor (snd (execute_batch_outputs (logged ex) ds sv)))"
proof -
  assume "Q (sv_executor sv)"
  then have "Q (sv_executor (snd (on_executor (qx_execute_batch (logged ex) ds) sv)))" by (intro call_keeps)
  then show ?thesis
    by (auto simp: execute_batch_outputs_def intro!: abort_with_error_keeps split: prod.splits sum.splits option.splits)
qed

lemma reject_quantum_keeps: "Q (sv_executor sv) \<Longrightarrow> Q (sv_executor (snd (reject_quantum (logged ex) d error sv)))"
  unfolding reject_quantum_def
  by (rule try_st_keeps [where P = "\<lambda>sv. Q (sv_executor sv)"]) (auto intro!: call_keeps)

lemma commit_quantum_keeps: "Q (sv_executor sv) \<Longrightarrow> Q (sv_executor (snd (commit_quantum (logged ex) d out sv)))"
proof -
  assume sv: "Q (sv_executor sv)"
  have fin: "Q (sv_executor (remember_failure (on_executor (qx_finish (logged ex) i st) (s\<lparr>sv_outputs := os\<rparr>))))"
    if "Q (sv_executor s)" for i st s os using that by (intro call_keeps) simp
  show ?thesis
    unfolding commit_quantum_def Let_def
    by (auto simp: sv fin split: option.splits intro!: reject_quantum_keeps
        try_st_keeps [where P = "\<lambda>sv. Q (sv_executor sv)"] try_pure_keeps [where P = "\<lambda>sv. Q (sv_executor sv)"] on_scheduler_keeps)
qed

lemma commit_batch_keeps: "Q (sv_executor sv) \<Longrightarrow> Q (sv_executor (snd (commit_batch (logged ex) ds os sv)))"
proof (induction "logged ex" ds os sv rule: commit_batch.induct)
  case (1 d ds out os sv)
  obtain r sv1 where one: "commit_quantum (logged ex) d out sv = (r, sv1)" by fastforce
  then have "Q (sv_executor sv1)" using commit_quantum_keeps [OF 1(2), of d out] by simp
  then show ?case using one 1(1) [OF one [symmetric]] abort_running_batch_keeps [of sv1 "d # ds"]
    by (cases r) (auto intro!: try_st_keeps [where P = "\<lambda>sv. Q (sv_executor sv)"])
qed simp_all

lemma finish_expired_keeps: "Q (sv_executor sv) \<Longrightarrow> Q (sv_executor (finish_expired (logged ex) at_ns ids sv))"
  by (induction ids arbitrary: sv) (simp_all add: remember_failure_keeps finish_call_keeps)

lemma tick_keeps: "Q (sv_executor sv) \<Longrightarrow> Q (sv_executor (snd (tick_batch_with_limit (logged ex) now limit sv)))"
proof -
  assume sv: "Q (sv_executor sv)"
  obtain r sv1 where one: "on_scheduler (dispatch_batch now limit) (sv\<lparr>sv_finish_error := None\<rparr>) = (r, sv1)" by fastforce
  have "Q (sv_executor sv1)"
    using on_scheduler_keeps [of "sv\<lparr>sv_finish_error := None\<rparr>" "dispatch_batch now limit"] sv one by simp
  then have q2: "Q (sv_executor (finish_expired_requests (logged ex) now sv1))"
    by (auto simp: finish_expired_requests_def intro!: finish_expired_keeps split: prod.splits)
  have "Q (sv_executor (snd (try_st (execute_batch_outputs (logged ex) ds (finish_expired_requests (logged ex) now sv1)) (\<lambda>os sv. commit_batch (logged ex) ds os sv))))" for ds
    by (rule try_st_keeps [where P = "\<lambda>sv. Q (sv_executor sv)"]) (auto intro!: execute_batch_outputs_keeps commit_batch_keeps q2)
  moreover from this have "try_st (execute_batch_outputs (logged ex) ds (finish_expired_requests (logged ex) now sv1)) (commit_batch (logged ex) ds) = (a, b)
    \<Longrightarrow> Q (sv_executor b)" for ds a b by (metis snd_conv)
  ultimately show ?thesis using one \<open>Q (sv_executor sv1)\<close> q2
    by (cases r) (auto simp: tick_batch_with_limit_def take_finish_error_def Let_def split: prod.splits outcome.splits option.splits)
qed

lemma admit_keeps: "Q (sv_executor sv) \<Longrightarrow> Q (sv_executor (snd (service_admit (logged ex) sx req now sv)))"
proof -
  assume "Q (sv_executor sv)"
  then show ?thesis unfolding service_admit_def
  proof (intro try_st_keeps [where P = "\<lambda>sv. Q (sv_executor sv)"] on_scheduler_keeps)
    fix outcome and s :: "('x \<times> exec_call list, 'e) ScheduledService"
    assume "Q (sv_executor s)"
    then have "Q (sv_executor (snd (on_executor (qx_begin (logged ex) (sx_id sx) req) s)))" by (intro call_keeps)
    then show "Q (sv_executor (snd (case outcome of RejectedFor reason \<Rightarrow> (Ok outcome, s)
       | Admitted bytes \<Rightarrow> (case on_executor (qx_begin (logged ex) (sx_id sx) req) s of
            (Inl _, sv2) \<Rightarrow> (Ok outcome, sv2\<lparr>sv_outputs := bt_insert (sx_id sx) [] (sv_outputs sv2)\<rparr>)
          | (Inr e, sv2) \<Rightarrow> try_st (on_scheduler (cancel (sx_id sx)) sv2) (\<lambda>_ sv3. (Err (ExecutorFailed e), sv3))))))"
      using \<open>Q (sv_executor s)\<close>
      by (auto split: AdmissionOutcome.splits prod.splits sum.splits
          intro!: try_st_keeps [where P = "\<lambda>sv. Q (sv_executor sv)"] on_scheduler_keeps)
  qed
qed

lemma cancel_keeps: "Q (sv_executor sv) \<Longrightarrow> Q (sv_executor (snd (service_cancel (logged ex) i sv)))"
proof -
  assume sv: "Q (sv_executor sv)"
  have "Q (sv_executor (snd (on_executor (qx_finish (logged ex) i status) s)))" if "Q (sv_executor s)" for status s
    using that by (intro call_keeps)
  then have fin: "on_executor (qx_finish (logged ex) i status) s = (r, t) \<Longrightarrow> Q (sv_executor s) \<Longrightarrow> Q (sv_executor t)" for status s r t
    by (metis snd_conv)
  show ?thesis unfolding service_cancel_def
    by (auto simp: sv dest: fin split: prod.splits sum.splits
        intro!: try_st_keeps [where P = "\<lambda>sv. Q (sv_executor sv)"] try_pure_keeps [where P = "\<lambda>sv. Q (sv_executor sv)"] on_scheduler_keeps)
qed

lemma step_keeps:
  assumes "service_step ex sv sv1" and q: "Q (sv_executor sv)"
  shows "Q (sv_executor sv1)"
  using assms(1)
  by (elim service_stepE)
    (metis admit_keeps q snd_conv, metis tick_keeps q snd_conv, metis cancel_keeps q snd_conv, simp add: service_prune_terminal_def q)

lemma reachable_keeps:
  assumes "(service_step ex)\<^sup>*\<^sup>* sv0 sv" and "Q (sv_executor sv0)"
  shows "Q (sv_executor sv)"
  using assms by (induction rule: rtranclp_induct) (auto intro: step_keeps)

end

end
