(* ===== verification/Runtime_Sessions.thy ===== *)
theory Runtime_Sessions
  imports Runtime_Service Executor_Invariants
begin

text \<open>
  What every call keeps of the runtime executor: a request's transcript ends in the tokens it has
  emitted, what it may still emit and what it has emitted are its limit, and the executor holds a
  record exactly for the sessions its callers have begun and not finished. The interpretation
  \<open>runtime_exec\<close> carries this to every service over the executor.
\<close>

section \<open>One request\<close>

definition accounted :: "('s, 'p, 'o) GenerationState \<Rightarrow> bool" where
  "accounted st \<longleftrightarrow> (\<exists>prompt. rq_transcript st = prompt @ rq_emitted_tokens st) \<and>
     rq_remaining_tokens st + length (rq_emitted_tokens st) = go_max_tokens (rq_options st)"

text \<open>The fields a prefill call leaves alone.\<close>

definition same_tokens :: "('s, 'p, 'o) GenerationState \<Rightarrow> ('s, 'p, 'o) GenerationState \<Rightarrow> bool" where
  "same_tokens st st' \<longleftrightarrow> rq_transcript st' = rq_transcript st \<and> rq_options st' = rq_options st \<and>
     rq_remaining_tokens st' = rq_remaining_tokens st \<and> rq_emitted_tokens st' = rq_emitted_tokens st \<and>
     rq_emitted_pieces st' = rq_emitted_pieces st \<and> rq_cancelled st' = rq_cancelled st"

lemma same_tokens_accounted: "same_tokens st st' \<Longrightarrow> accounted st' = accounted st"
  by (simp add: same_tokens_def accounted_def)

lemma prefill_request_tokens: "prefill_request dr budget st driver = (r, st', driver') \<Longrightarrow> same_tokens st st'"
  by (auto simp: prefill_request_def take_or_begin_def finish_prefill_progress_def same_tokens_def
      split: option.splits prod.splits sum.splits DriverPrefillProgress.splits)

text \<open>A decode call that answers appends what it emits; one that fails emits nothing.\<close>

lemma decode_request_cases:
  assumes "decode_request dr budget st driver = (r, st', driver')"
  obtains (failed) e where "r = Inr e" "same_tokens st st'"
  | (emitted) out where "r = Inl out" "length (qo_tokens out) \<le> unat budget" "length (qo_tokens out) \<le> rq_remaining_tokens st"
      "rq_transcript st' = rq_transcript st @ qo_tokens out" "rq_emitted_tokens st' = rq_emitted_tokens st @ qo_tokens out"
      "rq_remaining_tokens st' + length (qo_tokens out) = rq_remaining_tokens st" "rq_options st' = rq_options st"
      "qo_prefill out = None" "rq_remaining_tokens st' = 0 \<Longrightarrow> qo_eos out"
  using assms
  by (fastforce simp: decode_request_def same_tokens_def Let_def split: prod.splits sum.splits if_splits)

lemma decode_request_accounted:
  assumes "decode_request dr budget st driver = (r, st', driver')" and "accounted st"
  shows "accounted st'"
  using assms(1)
proof (cases rule: decode_request_cases)
  case (failed e)
  then show ?thesis using assms(2) by (simp add: same_tokens_accounted)
next
  case (emitted out)
  then show ?thesis using assms(2) by (auto simp: accounted_def)
qed

section \<open>All requests\<close>

definition requests_ok :: "('d, 's, 'p, 'o) RuntimeQuantumExecutor \<Rightarrow> bool" where
  "requests_ok x \<longleftrightarrow> bt_ok (rx_active x) \<and> (\<forall>i st. bt_get (rx_active x) i = Some st \<longrightarrow> accounted st)"

definition open_sessions :: "('d, 's, 'p, 'o) RuntimeQuantumExecutor \<Rightarrow> RequestId set" where
  "open_sessions x = dom (bt_get (rx_active x))"

lemma put_request_ok:
  assumes "requests_ok x" and "bt_get (rx_active x) i = Some st" and "accounted (fst (snd m))"
  shows "requests_ok (snd (put_request i m x)) \<and> open_sessions (snd (put_request i m x)) = open_sessions x"
  using assms by (auto simp: open_sessions_def put_request_def requests_ok_def split: prod.splits if_splits)

lemma dispatch_ok:
  assumes "requests_ok x"
  shows "requests_ok (snd (runtime_execute_dispatch dr d x)) \<and> open_sessions (snd (runtime_execute_dispatch dr d x)) = open_sessions x"
proof (cases "bt_get (rx_active x) (dp_request_id d)")
  case None
  then show ?thesis using assms
    by (cases "dp_kind d") (simp_all add: runtime_execute_dispatch_def execute_prefill_def runtime_execute_def Let_def)
next
  case (Some st)
  then have st: "accounted st" using assms by (auto simp: requests_ok_def)
  have "accounted (fst (snd (prefill_request dr b st (rx_driver x))))" for b
    using prefill_request_tokens [of dr b st "rx_driver x"] st by (metis prod.collapse same_tokens_accounted)
  moreover have "accounted (fst (snd (decode_request dr b st (rx_driver x))))" for b
    using decode_request_accounted [of dr b st "rx_driver x"] st by (metis prod.collapse)
  ultimately show ?thesis using Some assms
    by (cases "dp_kind d")
      (simp_all add: put_request_ok [OF assms Some] runtime_execute_dispatch_def execute_prefill_def runtime_execute_def Let_def)
qed

lemma batch_ok:
  assumes "requests_ok x"
  shows "requests_ok (snd (default_execute_batch (runtime_execute_dispatch dr) ds x)) \<and>
    open_sessions (snd (default_execute_batch (runtime_execute_dispatch dr) ds x)) = open_sessions x"
  using assms
proof (induction ds arbitrary: x)
  case (Cons d ds)
  obtain r x1 where one: "runtime_execute_dispatch dr d x = (r, x1)" by fastforce
  then have "requests_ok x1" "open_sessions x1 = open_sessions x" using dispatch_ok [OF Cons.prems, of dr d] by simp_all
  then show ?case using one Cons.IH [of x1] by (cases r) (auto split: prod.splits sum.splits)
qed simp

lemma begin_ok:
  assumes "requests_ok x"
  shows "requests_ok (snd (runtime_begin dr i req x)) \<and>
    (case fst (runtime_begin dr i req x) of
       Inl _ \<Rightarrow> i \<notin> open_sessions x \<and> open_sessions (snd (runtime_begin dr i req x)) = insert i (open_sessions x)
     | Inr e \<Rightarrow> i \<in> open_sessions x \<and> snd (runtime_begin dr i req x) = x)"
  using assms by (auto simp: open_sessions_def runtime_begin_def requests_ok_def accounted_def bt_contains_def split: prod.splits if_splits)

lemma finish_ok:
  assumes "requests_ok x"
  shows "requests_ok (snd (runtime_finish dr i status x)) \<and> open_sessions (snd (runtime_finish dr i status x)) = open_sessions x - {i}"
  using assms by (auto simp: open_sessions_def runtime_finish_def requests_ok_def Let_def split: option.splits prod.splits sum.splits if_splits)

section \<open>The service over the executor\<close>

definition sessions_match :: "('d, 's, 'p, 'o) RuntimeQuantumExecutor \<times> exec_call list \<Rightarrow> bool" where
  "sessions_match xl \<longleftrightarrow> requests_ok (fst xl) \<and> (\<forall>live. sessions (snd xl) = Some live \<longrightarrow> set live = open_sessions (fst xl))"

lemma runtime_call_keeps:
  assumes "sessions_match xl"
  shows "sessions_match (snd (qx_begin (logged (runtime_executor dr)) i req xl))"
    and "sessions_match (snd (qx_execute_batch (logged (runtime_executor dr)) ds xl))"
    and "sessions_match (snd (qx_finish (logged (runtime_executor dr)) i status xl))"
    and "sessions_match (snd (qx_finish_at (logged (runtime_executor dr)) i status at_ns xl))"
proof -
  obtain x log where xl: "xl = (x, log)" by fastforce
  have x: "requests_ok x" and live: "\<And>live. sessions log = Some live \<Longrightarrow> set live = open_sessions x"
    using assms by (simp_all add: sessions_match_def xl)
  show "sessions_match (snd (qx_begin (logged (runtime_executor dr)) i req xl))"
    using begin_ok [OF x, of dr i req] live
    by (cases "runtime_begin dr i req x"; cases "fst (runtime_begin dr i req x)")
      (auto simp: logged_def runtime_executor_def xl sessions_match_def x bind_eq_Some_conv split: if_splits)
  show "sessions_match (snd (qx_execute_batch (logged (runtime_executor dr)) ds xl))"
    using batch_ok [OF x, of dr ds] live
    by (auto simp: runtime_executor_def xl sessions_match_def note_call_def bind_eq_Some_conv split: if_splits)
  show "sessions_match (snd (qx_finish (logged (runtime_executor dr)) i status xl))"
    "sessions_match (snd (qx_finish_at (logged (runtime_executor dr)) i status at_ns xl))"
    using finish_ok [OF x, of dr i status] live
    by (auto simp: runtime_executor_def default_finish_at_def xl sessions_match_def note_call_def bind_eq_Some_conv split: if_splits)
qed

interpretation runtime_exec: executor_invariant "runtime_executor dr" sessions_match for dr
  by unfold_locales (rule runtime_call_keeps; assumption)+

end
