(* ===== verification/Runtime_Props.thy ===== *)
theory Runtime_Props
  imports Runtime_Sessions Scheduler_Demo
begin

text \<open>
  What the service relies on in its runtime executor: sessions that follow the requests, quanta
  within their limits, pieces in step with tokens, and requests that do not see each other.
  The last is the locale \<open>isolated_steps\<close>, an unwinding argument, interpreted on the executor.
\<close>

section \<open>Calls that see only their owner's part of the state\<close>

fun run_calls :: "('c \<Rightarrow> 's \<Rightarrow> 'r \<times> 's) \<Rightarrow> 'c list \<Rightarrow> 's \<Rightarrow> ('c \<times> 'r) list \<times> 's" where
  "run_calls step [] s = ([], s)"
| "run_calls step (c # cs) s =
     (case step c s of (r, s1) \<Rightarrow> case run_calls step cs s1 of (rs, s2) \<Rightarrow> ((c, r) # rs, s2))"

locale isolated_steps =
  fixes step :: "'c \<Rightarrow> 's \<Rightarrow> 'r \<times> 's" and owner :: "'c \<Rightarrow> 'i" and view :: "'i \<Rightarrow> 's \<Rightarrow> 'v"
  assumes other: "owner c \<noteq> i \<Longrightarrow> view i (snd (step c s)) = view i s"
    and own: "view (owner c) s = view (owner c) t \<Longrightarrow>
      fst (step c s) = fst (step c t) \<and> view (owner c) (snd (step c s)) = view (owner c) (snd (step c t))"
begin

lemma interleaved:
  "view i s = view i t \<Longrightarrow>
   filter (\<lambda>(c, r). owner c = i) (fst (run_calls step cs s)) = fst (run_calls step (filter (\<lambda>c. owner c = i) cs) t) \<and>
   view i (snd (run_calls step cs s)) = view i (snd (run_calls step (filter (\<lambda>c. owner c = i) cs) t))"
proof (induction cs arbitrary: s t)
  case (Cons c cs)
  obtain r s1 where s1: "step c s = (r, s1)" by fastforce
  show ?case
  proof (cases "owner c = i")
    case True
    obtain q t1 where t1: "step c t = (q, t1)" by fastforce
    have "r = q" "view i s1 = view i t1" using own [of c s t] Cons.prems True s1 t1 by auto
    then show ?thesis using Cons.IH [of s1 t1] True s1 t1 by (simp add: case_prod_beta)
  next
    case False
    have "view i s1 = view i t" using other [of c i s] Cons.prems False s1 by simp
    then show ?thesis using Cons.IH [of s1 t] False s1 by (simp add: case_prod_beta)
  qed
qed simp

end

section \<open>The calls of the executor\<close>

datatype 'o runtime_op =
    BeginCall RequestId "'o ScheduledGenerationRequest"
  | DispatchCall Dispatch
  | FinishCall RequestId RequestStatus

fun call_owner :: "'o runtime_op \<Rightarrow> RequestId" where
  "call_owner (BeginCall i request) = i"
| "call_owner (DispatchCall d) = dp_request_id d"
| "call_owner (FinishCall i status) = i"

fun answer :: "('a + 'e) \<times> 'x \<Rightarrow> ('a \<Rightarrow> QuantumOutput option) \<Rightarrow> (QuantumOutput option + 'e) \<times> 'x" where
  "answer (Inl a, x) f = (Inl (f a), x)"
| "answer (Inr e, x) f = (Inr e, x)"

fun runtime_call ::
  "('d, 's, 'p, 'r, 'o, 'e) PausableGenerationDriver \<Rightarrow> 'o runtime_op \<Rightarrow> ('d, 's, 'p, 'o) RuntimeQuantumExecutor
    \<Rightarrow> (QuantumOutput option + 'e RuntimeQuantumExecutorError) \<times> ('d, 's, 'p, 'o) RuntimeQuantumExecutor" where
  "runtime_call dr (BeginCall i request) x = answer (runtime_begin dr i request x) Map.empty"
| "runtime_call dr (DispatchCall d) x = answer (runtime_execute_dispatch dr d x) Some"
| "runtime_call dr (FinishCall i status) x = answer (runtime_finish dr i status x) Map.empty"

definition runtime_view ::
  "RequestId \<Rightarrow> ('d, 's, 'p, 'o) RuntimeQuantumExecutor \<Rightarrow> ('s, 'p, 'o) GenerationState option \<times> CompletedGeneration option" where
  "runtime_view i x = (bt_get (rx_active x) i, bt_get (rx_completed x) i)"

lemma answer_pair [simp]: "snd (answer m f) = snd m" "fst (answer m f) = map_sum f id (fst m)"
  by (cases m; cases "fst m"; simp)+

lemma put_request_fields:
  "rx_active (snd (put_request i m x)) = bt_insert i (fst (snd m)) (rx_active x)"
  "rx_completed (snd (put_request i m x)) = rx_completed x" "fst (put_request i m x) = fst m"
  by (simp_all add: put_request_def case_prod_beta)

lemma runtime_call_other: "call_owner c \<noteq> i \<Longrightarrow> runtime_view i (snd (runtime_call dr c x)) = runtime_view i x"
proof (cases c)
  case (BeginCall j request)
  then show "call_owner c \<noteq> i \<Longrightarrow> ?thesis" by (simp add: runtime_begin_def runtime_view_def case_prod_beta)
next
  case (DispatchCall d)
  then show "call_owner c \<noteq> i \<Longrightarrow> ?thesis"
    by (simp add: runtime_execute_dispatch_def execute_prefill_def runtime_execute_def Let_def put_request_fields runtime_view_def split: DispatchKind.split option.split)
next
  case (FinishCall j status)
  then show "call_owner c \<noteq> i \<Longrightarrow> ?thesis"
    by (simp add: runtime_finish_def runtime_view_def Let_def split: option.split prod.split sum.split)
qed

text \<open>With a driver that has no state of its own, a call sees only its request.\<close>

lemma runtime_call_own:
  fixes dr :: "(unit, 's, 'p, 'r, 'o, 'e) PausableGenerationDriver"
  assumes "runtime_view (call_owner c) x = runtime_view (call_owner c) y"
  shows "fst (runtime_call dr c x) = fst (runtime_call dr c y) \<and>
    runtime_view (call_owner c) (snd (runtime_call dr c x)) = runtime_view (call_owner c) (snd (runtime_call dr c y))"
proof (cases c)
  case (BeginCall j request)
  then show ?thesis using assms by (simp add: runtime_begin_def runtime_view_def bt_contains_def case_prod_beta)
next
  case (DispatchCall d)
  then have a: "bt_get (rx_active x) (dp_request_id d) = bt_get (rx_active y) (dp_request_id d)"
    "bt_get (rx_completed x) (dp_request_id d) = bt_get (rx_completed y) (dp_request_id d)"
    using assms by (simp_all add: runtime_view_def)
  then show ?thesis using DispatchCall
    by (auto simp: runtime_execute_dispatch_def execute_prefill_def runtime_execute_def Let_def put_request_fields runtime_view_def
        split: DispatchKind.split option.split)
next
  case (FinishCall j status)
  then show ?thesis using assms
    by (auto simp: runtime_finish_def runtime_view_def Let_def split: option.split prod.split sum.split)
qed

interpretation runtime_isolated: isolated_steps "runtime_call dr" call_owner runtime_view
  for dr :: "(unit, 's, 'p, 'r, 'o, 'e) PausableGenerationDriver"
  by unfold_locales (rule runtime_call_other, assumption, rule runtime_call_own, assumption)


section \<open>Pieces of the leone driver\<close>

definition pieces_match :: "('d, 's, 'p, 'o) RuntimeQuantumExecutor \<Rightarrow> bool" where
  "pieces_match x \<longleftrightarrow>
     (\<forall>i st. bt_get (rx_active x) i = Some st \<longrightarrow> length (rq_emitted_pieces st) = length (rq_emitted_tokens st)) \<and>
     (\<forall>i g. bt_get (rx_completed x) i = Some g \<longrightarrow> length (cg_pieces g) = length (cg_tokens g))"

lemma leone_quantum:
  "leone_generate_quantum rn eos s t opts c w = (Inl q, s', w') \<Longrightarrow>
   length (gq_pieces q) = length (gq_tokens q) \<and> \<not> (gq_eos q \<and> gq_cancelled q)"
  by (auto simp: leone_generate_quantum_def Let_def split: prod.splits sum.splits if_splits)

lemma leone_decode_pieces:
  "length (rq_emitted_pieces st) = length (rq_emitted_tokens st) \<Longrightarrow>
   length (rq_emitted_pieces (fst (snd (decode_request (leone_driver rn eos) b st w)))) =
   length (rq_emitted_tokens (fst (snd (decode_request (leone_driver rn eos) b st w))))"
  by (auto simp: decode_request_def leone_driver_def Let_def dest!: leone_quantum split: prod.splits sum.splits if_splits)

lemma prefill_pieces:
  "rq_emitted_pieces (fst (snd (prefill_request dr b st w))) = rq_emitted_pieces st"
  "rq_emitted_tokens (fst (snd (prefill_request dr b st w))) = rq_emitted_tokens st"
  using prefill_request_tokens [of dr b st w] by (metis prod.collapse same_tokens_def)+

lemma leone_dispatch_pieces:
  "pieces_match x \<Longrightarrow> pieces_match (snd (runtime_execute_dispatch (leone_driver rn eos) d x))"
  by (auto simp: pieces_match_def runtime_execute_dispatch_def execute_prefill_def runtime_execute_def Let_def put_request_fields
      prefill_pieces leone_decode_pieces split: DispatchKind.splits option.splits if_splits)

lemma leone_batch_pieces:
  "pieces_match x \<Longrightarrow> pieces_match (snd (default_execute_batch (runtime_execute_dispatch (leone_driver rn eos)) ds x))"
proof (induction ds arbitrary: x)
  case (Cons d ds)
  obtain r x1 where one: "runtime_execute_dispatch (leone_driver rn eos) d x = (r, x1)" by fastforce
  then have "pieces_match x1" using leone_dispatch_pieces [OF Cons.prems, of rn eos d] by simp
  then show ?case using one Cons.IH [of x1] by (cases r) (auto split: prod.splits sum.splits)
qed simp

lemma leone_call_pieces:
  assumes "pieces_match (fst xl)"
  shows "pieces_match (fst (snd (qx_begin (logged (runtime_executor (leone_driver rn eos))) i req xl)))"
    and "pieces_match (fst (snd (qx_execute_batch (logged (runtime_executor (leone_driver rn eos))) ds xl)))"
    and "pieces_match (fst (snd (qx_finish (logged (runtime_executor (leone_driver rn eos))) i status xl)))"
    and "pieces_match (fst (snd (qx_finish_at (logged (runtime_executor (leone_driver rn eos))) i status at_ns xl)))"
proof -
  obtain x log where xl: "xl = (x, log)" by fastforce
  have x: "pieces_match x" using assms by (simp add: xl)
  have b: "pieces_match (snd (runtime_begin (leone_driver rn eos) i req x))"
    using x by (auto simp: runtime_begin_def pieces_match_def split: prod.splits if_splits)
  then show "pieces_match (fst (snd (qx_begin (logged (runtime_executor (leone_driver rn eos))) i req xl)))"
    by (auto simp: logged_def runtime_executor_def xl split: prod.splits sum.splits)
  show "pieces_match (fst (snd (qx_execute_batch (logged (runtime_executor (leone_driver rn eos))) ds xl)))"
    using leone_batch_pieces [OF x] by (simp add: runtime_executor_def xl note_call_def)
  have f: "pieces_match (snd (runtime_finish (leone_driver rn eos) i status x))"
    using x by (auto simp: runtime_finish_def pieces_match_def Let_def split: option.splits prod.splits sum.splits if_splits)
  show "pieces_match (fst (snd (qx_finish (logged (runtime_executor (leone_driver rn eos))) i status xl)))"
    "pieces_match (fst (snd (qx_finish_at (logged (runtime_executor (leone_driver rn eos))) i status at_ns xl)))"
    using f by (simp_all add: runtime_executor_def default_finish_at_def xl note_call_def)
qed

interpretation leone_exec: executor_invariant "runtime_executor (leone_driver rn eos)" "\<lambda>xl. pieces_match (fst xl)" for rn eos
  by unfold_locales (rule leone_call_pieces; assumption)+

section \<open>A driver that echoes\<close>

text \<open>Emits one more than the last token of the transcript, up to its bound; prefill is immediate.\<close>

definition echo_driver :: "(unit, unit, unit, unit, unit, unit) PausableGenerationDriver" where
  "echo_driver =
     \<lparr>dr_start_session = (\<lambda>d. ((), d)), dr_begin_prefill = (\<lambda>s t opts d. (Inl (), s, d)),
      dr_advance_prefill = (\<lambda>p budget c d. (Inl (DriverReady () budget), d)), dr_finish_prefill = (\<lambda>r s d. (Inl (), s, d)),
      dr_generate_quantum = (\<lambda>s t opts c d.
        (Inl \<lparr>gq_tokens = replicate (go_max_tokens opts) (last t + 1), gq_pieces = replicate (go_max_tokens opts) [],
            gq_eos = False, gq_cancelled = False\<rparr>, s, d)),
      dr_finish_session = (\<lambda>s status d. (Inl (), s, d))\<rparr>"

definition echo_request :: "unit ScheduledGenerationRequest" where
  "echo_request = \<lparr>sr_prompt_tokens = [3, 5], sr_options = \<lparr>go_max_tokens = 8, go_others = ()\<rparr>, sr_cancelled = 0\<rparr>"

definition echo_begun :: "(unit, unit, unit, unit) RuntimeQuantumExecutor" where
  "echo_begun = snd (runtime_begin echo_driver (RequestId 0) echo_request (runtime_executor_new ()))"

definition echo_state :: "(unit, unit, unit) GenerationState" where
  "echo_state = \<lparr>rq_session = (), rq_pending_prefill = None, rq_transcript = [3, 5], rq_options = \<lparr>go_max_tokens = 8, go_others = ()\<rparr>,
     rq_remaining_tokens = 8, rq_emitted_tokens = [], rq_emitted_pieces = [], rq_cancelled = 0\<rparr>"

lemma echo_begin:
  "runtime_begin echo_driver (RequestId 0) echo_request (runtime_executor_new ()) = (Inl (), echo_begun)"
  "echo_begun = \<lparr>rx_driver = (), rx_active = [(RequestId 0, echo_state)], rx_completed = []\<rparr>"
  by (simp_all add: echo_begun_def echo_state_def runtime_begin_def runtime_executor_new_def bt_contains_def echo_driver_def echo_request_def bt_remove_def)

definition echo_service :: "('d, 's, 'p, 'o) RuntimeQuantumExecutor \<Rightarrow> ContinuousScheduler \<Rightarrow> exec_call list \<Rightarrow> (RequestId, u32 list) btree_map
    \<Rightarrow> (('d, 's, 'p, 'o) RuntimeQuantumExecutor \<times> exec_call list, 'e) ScheduledService" where
  "echo_service x s log outputs = \<lparr>sv_scheduler = s, sv_executor = (x, log), sv_outputs = outputs, sv_finish_error = None\<rparr>"

lemma echo_service_new: "service_new demo_policy (x, []) = Ok (echo_service x demo_new [] [])"
  by (simp add: service_new_def demo_new echo_service_def)

lemma echo_service_admit:
  assumes "runtime_begin dr (RequestId 0) req x = (Inl (), y)"
  shows "(service_step (runtime_executor dr))\<^sup>*\<^sup>* (echo_service x demo_new [] []) (echo_service y demo_one [Begun (RequestId 0)] [(RequestId 0, [])])"
proof -
  have "service_admit (logged (runtime_executor dr)) (demo_spec 0 None) req 0 (echo_service x demo_new [] []) =
      (Ok (Admitted 2048), echo_service y demo_one [Begun (RequestId 0)] [(RequestId 0, [])])"
    using assms by (simp add: service_admit_def on_scheduler_def on_executor_def logged_def runtime_executor_def echo_service_def admit_eval demo_eval)
  from service_step_admit [OF this] show ?thesis by (simp add: r_into_rtranclp)
qed

definition echo_runtime :: "(unit, unit, unit, unit, unit, unit, unit) RuntimeCalls" where
  "echo_runtime = \<lparr>rn_new_session = (), rn_begin_prefill = (\<lambda>s t opts w. (Inl (), s, w)), rn_advance_prefill = (\<lambda>p b c w. (Inl (AdvanceReady ()), w)),
     rn_processed_pending = (\<lambda>p. 0), rn_processed_ready = (\<lambda>r. 1), rn_processed_cancelled = (\<lambda>c. 0), rn_finish_prefill = (\<lambda>r s w. (Inl (), s, w)),
     rn_generate = (\<lambda>s t opts c w. (Inl ([7], False), [(7, [55])], s, w)), rn_discard_session = (\<lambda>s w. (Inl (), s, w)), rn_load = (\<lambda>c w. False)\<rparr>"

section \<open>The properties\<close>

text \<open>C15: Interleaved requests match isolated execution. Over a driver whose sessions hold all its
  state, take any sequence of calls on the executor (begin, prefill and decode dispatches,
  finish, of any requests in any order, failing calls included). The answers to one request's
  calls, the record it has while active and its completed transcript are the same as when only
  its own calls are made.\<close>

theorem interleaved_requests_match_isolated_execution:
  fixes dr :: "(unit, 's, 'p, 'r, 'o, 'e) PausableGenerationDriver"
  shows "filter (\<lambda>(c, r). call_owner c = i) (fst (run_calls (runtime_call dr) cs (runtime_executor_new ()))) =
      fst (run_calls (runtime_call dr) (filter (\<lambda>c. call_owner c = i) cs) (runtime_executor_new ())) \<and>
    bt_get (rx_active (snd (run_calls (runtime_call dr) cs (runtime_executor_new ())))) i =
      bt_get (rx_active (snd (run_calls (runtime_call dr) (filter (\<lambda>c. call_owner c = i) cs) (runtime_executor_new ())))) i \<and>
    runtime_completed (snd (run_calls (runtime_call dr) cs (runtime_executor_new ()))) i =
      runtime_completed (snd (run_calls (runtime_call dr) (filter (\<lambda>c. call_owner c = i) cs) (runtime_executor_new ()))) i"
  using runtime_isolated.interleaved [of i "runtime_executor_new ()" "runtime_executor_new ()" dr cs]
  by (simp add: runtime_view_def runtime_completed_def)

text \<open>C16: In a service over the runtime executor, between two calls the executor holds a record
  for exactly the requests that have not ended: no record outlives its request and none is
  missing. Each record's transcript ends in the tokens the request has emitted, and these and
  what it may still emit make up its limit.\<close>

theorem runtime_sessions_follow_requests:
  assumes "service_new policy (runtime_executor_new driver, []) = Ok sv0"
    and "(service_step (runtime_executor dr))\<^sup>*\<^sup>* sv0 sv"
  shows "(bt_get (rx_active (fst (sv_executor sv))) i \<noteq> None \<longleftrightarrow> alive (sched_of sv) i) \<and>
    (\<forall>st. bt_get (rx_active (fst (sv_executor sv))) i = Some st \<longrightarrow>
      (\<exists>prompt. rq_transcript st = prompt @ rq_emitted_tokens st) \<and>
      rq_remaining_tokens st + length (rq_emitted_tokens st) = go_max_tokens (rq_options st))"
proof -
  have "sv_executor sv0 = (runtime_executor_new driver, [])" using assms(1) by (auto simp: service_new_def and_then_eq_Ok)
  then have "sessions_match (sv_executor sv0)"
    by (simp add: sessions_match_def requests_ok_def runtime_executor_new_def open_sessions_def dom_def)
  then have q: "sessions_match (sv_executor sv)" using runtime_exec.reachable_keeps assms(2) by blast
  have "service_reachable (runtime_executor dr) sv" using assms by (auto simp: service_reachable_def service_start_def)
  then obtain live where "sessions (snd (sv_executor sv)) = Some live" "set live = {i. alive (sched_of sv) i}"
    using service_reachable_ok by (fastforce simp: service_ok_def books_def)
  then have "open_sessions (fst (sv_executor sv)) = {i. alive (sched_of sv) i}" using q by (simp add: sessions_match_def)
  then show ?thesis using q by (auto simp: open_sessions_def sessions_match_def requests_ok_def accounted_def)
qed

theorem runtime_sessions_follow_requests_witness:
  "\<exists>st. bt_get (rx_active echo_begun) (RequestId 0) = Some st \<and> alive demo_one (RequestId 0) \<and>
    rq_remaining_tokens st + length (rq_emitted_tokens st) = go_max_tokens (rq_options st)"
proof -
  have g: "bt_get (rx_active echo_begun) (RequestId 0) = Some echo_state" by (simp add: echo_begin(2) bt_get_def)
  show ?thesis
    using runtime_sessions_follow_requests [OF echo_service_new echo_service_admit [OF echo_begin(1)], of "RequestId 0"] g
    by (simp add: echo_service_def)
qed

text \<open>What one decode call does to a request. An answer has at most as many tokens as the
  dispatch grants and the request may still emit; they are appended to transcript and emitted
  tokens and taken off the remainder, and a request that reaches its limit is ended by the
  answer. A failing call, an oversized quantum included, leaves all of these alone.\<close>

theorem decode_calls_keep_the_limit:
  assumes "bt_get (rx_active x) i = Some st" and "runtime_execute dr i budget x = (r, x1)"
  shows "\<exists>st1. bt_get (rx_active x1) i = Some st1 \<and> rx_completed x1 = rx_completed x \<and>
    (case r of
       Inl out \<Rightarrow> length (qo_tokens out) \<le> min (unat budget) (rq_remaining_tokens st) \<and>
         rq_transcript st1 = rq_transcript st @ qo_tokens out \<and> rq_emitted_tokens st1 = rq_emitted_tokens st @ qo_tokens out \<and>
         rq_remaining_tokens st1 = rq_remaining_tokens st - length (qo_tokens out) \<and>
         (rq_remaining_tokens st1 = 0 \<longrightarrow> qo_eos out)
     | Inr e \<Rightarrow> rq_transcript st1 = rq_transcript st \<and> rq_emitted_tokens st1 = rq_emitted_tokens st \<and>
         rq_remaining_tokens st1 = rq_remaining_tokens st)"
proof -
  obtain q st1 d where m: "decode_request dr budget st (rx_driver x) = (q, st1, d)" by (metis prod.collapse)
  have r: "r = q" "bt_get (rx_active x1) i = Some st1" "rx_completed x1 = rx_completed x"
    using assms m by (auto simp: runtime_execute_def put_request_def)
  from m show ?thesis
    by (cases rule: decode_request_cases) (use r in \<open>auto simp: same_tokens_def\<close>)
qed

theorem decode_calls_keep_the_limit_witness:
  "\<exists>out x1 st1. runtime_execute echo_driver (RequestId 0) 4 echo_begun = (Inl out, x1) \<and>
    bt_get (rx_active x1) (RequestId 0) = Some st1 \<and> rq_transcript st1 = [3, 5] @ qo_tokens out"
proof -
  have g: "bt_get (rx_active echo_begun) (RequestId 0) = Some echo_state" by (simp add: echo_begin(2) bt_get_def)
  obtain out x1 where e: "runtime_execute echo_driver (RequestId 0) 4 echo_begun = (Inl out, x1)"
    by (simp add: runtime_execute_def g decode_request_def echo_state_def echo_driver_def put_request_def Let_def)
  show ?thesis using decode_calls_keep_the_limit [OF g e] e by (auto simp: echo_state_def)
qed

text \<open>Over the leone driver, in every reachable service, an active record and a completed
  generation have one byte piece for every emitted token.\<close>

theorem leone_pieces_follow_tokens:
  assumes "service_new policy (runtime_executor_new w, []) = Ok sv0"
    and "(service_step (runtime_executor (leone_driver rn eos)))\<^sup>*\<^sup>* sv0 sv"
  shows "(\<forall>st. bt_get (rx_active (fst (sv_executor sv))) i = Some st \<longrightarrow> length (rq_emitted_pieces st) = length (rq_emitted_tokens st)) \<and>
    (\<forall>g. runtime_completed (fst (sv_executor sv)) i = Some g \<longrightarrow> length (cg_pieces g) = length (cg_tokens g))"
proof -
  have "sv_executor sv0 = (runtime_executor_new w, [])" using assms(1) by (auto simp: service_new_def and_then_eq_Ok)
  then have "pieces_match (fst (sv_executor sv0))" by (simp add: pieces_match_def runtime_executor_new_def)
  then have "pieces_match (fst (sv_executor sv))" using leone_exec.reachable_keeps assms(2) by blast
  then show ?thesis by (auto simp: pieces_match_def runtime_completed_def)
qed

theorem leone_pieces_follow_tokens_witness:
  "\<exists>y st. runtime_begin (leone_driver echo_runtime None) (RequestId 0) echo_request (runtime_executor_new ()) = (Inl (), y) \<and>
    bt_get (rx_active y) (RequestId 0) = Some st \<and> length (rq_emitted_pieces st) = length (rq_emitted_tokens st)"
proof -
  obtain y where y: "runtime_begin (leone_driver echo_runtime None) (RequestId 0) echo_request (runtime_executor_new ()) = (Inl (), y)"
    "bt_get (rx_active y) (RequestId 0) \<noteq> None"
    by (simp add: runtime_begin_def runtime_executor_new_def bt_contains_def leone_driver_def bt_get_def)
  then show ?thesis
    using leone_pieces_follow_tokens [OF echo_service_new echo_service_admit [OF y(1)], of "RequestId 0"]
    by (auto simp: echo_service_def)
qed

end
