(* ===== verification/Service_Memory.thy ===== *)
theory Service_Memory
  imports Memory_Tracker
begin

text \<open>
  The memory policy of the server (\<open>crates/leone-cli/src/service_memory.rs\<close>): how requests such
  as \<open>auto\<close> and observations of the host and the accelerator become finite limits, and how much
  KV memory may be reserved after the model is loaded. A \<open>NonZeroU64\<close> is a \<open>u64\<close>; the functions
  that take one are only called with a nonzero value. Reading the observations from the operating
  system is left out, except for the parser of \<open>/proc/meminfo\<close>, whose contents are ASCII.
\<close>

section \<open>Requests\<close>

definition AUTO_HEADROOM_NUMERATOR :: u64 where "AUTO_HEADROOM_NUMERATOR = 4"
definition AUTO_HEADROOM_DENOMINATOR :: u64 where "AUTO_HEADROOM_DENOMINATOR = 5"

datatype BudgetRequest = BudgetAuto | BudgetBytes u64

datatype BudgetRequestError = InvalidNumber | BudgetZero

text \<open>\<open>str::parse::<u64>\<close>: an optional plus, then decimal digits that do not overflow.\<close>

definition is_digit :: "char \<Rightarrow> bool" where
  "is_digit c \<longleftrightarrow> 48 \<le> (of_char c :: nat) \<and> (of_char c :: nat) \<le> 57"

definition digit_value :: "char \<Rightarrow> nat" where
  "digit_value c = of_char c - 48"

fun parse_digits :: "u64 \<Rightarrow> string \<Rightarrow> u64 option" where
  "parse_digits acc [] = Some acc"
| "parse_digits acc (c # cs) =
     (if is_digit c then
        Option.bind (checked_mul acc 10) (\<lambda>m.
        Option.bind (checked_add m (of_nat (digit_value c))) (\<lambda>acc. parse_digits acc cs))
      else None)"

definition parse_u64 :: "string \<Rightarrow> u64 option" where
  "parse_u64 s =
     (let digits = (case s of c # cs \<Rightarrow> if c = CHR ''+'' then cs else s | [] \<Rightarrow> []) in
      if digits = [] then None else parse_digits 0 digits)"

definition parse_budget :: "string \<Rightarrow> (BudgetRequest, BudgetRequestError) outcome" where
  "parse_budget v =
     (if v = ''auto'' then Ok BudgetAuto
      else and_then (ok_or (parse_u64 v) InvalidNumber) (\<lambda>bytes.
        ok_or (if bytes = 0 then None else Some (BudgetBytes bytes)) BudgetZero))"

fun is_explicit :: "BudgetRequest \<Rightarrow> bool" where
  "is_explicit BudgetAuto = False"
| "is_explicit (BudgetBytes n) = True"

record ServiceBudgetArgs =
  ba_memory :: BudgetRequest
  ba_host :: BudgetRequest
  ba_kv_reservation :: BudgetRequest

definition default_budget_args :: ServiceBudgetArgs where
  "default_budget_args = \<lparr>ba_memory = BudgetAuto, ba_host = BudgetAuto, ba_kv_reservation = BudgetAuto\<rparr>"

section \<open>Observations and policies\<close>

datatype MemoryTopology = TopologyDiscrete | TopologyUnified | TopologyCpu

datatype ObservationUnavailable = UnsupportedPlatform | SourceUnavailable | Malformed | Inconsistent

datatype HostMemorySource = LinuxMeminfo | MacVmStat

datatype HostMemorySemantics = KernelAvailableEstimate | ReclaimablePagesEstimate | FreePagesOnly

datatype HostMemoryObservation =
    HostAvailable u64 u64 HostMemorySource HostMemorySemantics
  | HostUnavailable ObservationUnavailable

datatype BackendCapacityObservation =
    BackendDiscrete u64 u64
  | BackendRecommended u64 u64 bool
  | BackendCpu
  | BackendUnavailable ObservationUnavailable

record ServiceMemoryInputs =
  mi_topology :: MemoryTopology
  mi_backend :: BackendCapacityObservation
  mi_host :: HostMemoryObservation
  mi_backend_owned_bytes :: u64
  mi_host_owned_bytes :: u64

text \<open>The first number is the backend or combined limit, the second the host limit.\<close>

datatype ServiceMemoryPools = DiscretePools u64 u64 | SharedPools u64 u64

fun combined_bytes :: "ServiceMemoryPools \<Rightarrow> u64" where
  "combined_bytes (DiscretePools backend_bytes host) = backend_bytes"
| "combined_bytes (SharedPools combined host) = combined"

fun pool_host_bytes :: "ServiceMemoryPools \<Rightarrow> u64" where
  "pool_host_bytes (DiscretePools backend_bytes host) = host"
| "pool_host_bytes (SharedPools combined host) = host"

record BudgetOverrides =
  bo_memory :: bool
  bo_host :: bool
  bo_kv_reservation :: bool

record ServiceMemoryPolicy =
  mp_pools :: ServiceMemoryPools
  mp_kv_reservation :: BudgetRequest
  mp_overrides :: BudgetOverrides
  mp_backend_observation :: BackendCapacityObservation
  mp_host_observation :: HostMemoryObservation

datatype ObservationInvalid = ZeroTotal | AvailableExceedsTotal | ZeroWorkingSet | NotUnified

datatype MemoryPolicyError =
    MissingObservation string ObservationUnavailable
  | InvalidObservation string ObservationInvalid
  | PolicyOverflow string
  | ZeroCapacity string
  | BaselineExceedsObserved string u64 u64
  | ExplicitExceedsObserved string u64 u64
  | ExplicitBelowOwned string u64 u64
  | ResolvedBelowOwned string u64 u64
  | HostExceedsCombined u64 u64
  | HostBelowOwned u64 u64
  | CombinedBelowHost u64 u64
  | KvReservationExceedsLimit u64 u64
  | TopologyMismatch

datatype CapacityState = CapacityKnown u64 u64 | CapacityUnavailable ObservationUnavailable

section \<open>Checked arithmetic\<close>

definition positive :: "u64 \<Rightarrow> string \<Rightarrow> (u64, MemoryPolicyError) outcome" where
  "positive v name = (if v = 0 then Err (ZeroCapacity name) else Ok v)"

definition policy_add :: "u64 \<Rightarrow> u64 \<Rightarrow> string \<Rightarrow> (u64, MemoryPolicyError) outcome" where
  "policy_add left right name = ok_or (checked_add left right) (PolicyOverflow name)"

definition policy_mul :: "u64 \<Rightarrow> u64 \<Rightarrow> string \<Rightarrow> (u64, MemoryPolicyError) outcome" where
  "policy_mul left right name = ok_or (checked_mul left right) (PolicyOverflow name)"

definition four_fifths :: "u64 \<Rightarrow> string \<Rightarrow> (u64, MemoryPolicyError) outcome" where
  "four_fifths v name =
     (let quotient = v div AUTO_HEADROOM_DENOMINATOR; remainder = v mod AUTO_HEADROOM_DENOMINATOR in
      ok_or (Option.bind (checked_mul quotient AUTO_HEADROOM_NUMERATOR) (\<lambda>v.
        checked_add v (remainder * AUTO_HEADROOM_NUMERATOR div AUTO_HEADROOM_DENOMINATOR))) (PolicyOverflow name))"

definition limited_budget :: "u64 \<Rightarrow> string \<Rightarrow> (MemoryBudget, MemoryPolicyError) outcome" where
  "limited_budget limit name = map_err (\<lambda>_. ZeroCapacity name) (budget_limited limit)"

definition ensure_at_least :: "u64 \<Rightarrow> u64 \<Rightarrow> string \<Rightarrow> (u64, MemoryPolicyError) outcome" where
  "ensure_at_least limit owned name = (if limit < owned then Err (ResolvedBelowOwned name limit owned) else Ok limit)"

section \<open>Capacities\<close>

definition checked_capacity :: "string \<Rightarrow> u64 \<Rightarrow> u64 \<Rightarrow> (CapacityState, MemoryPolicyError) outcome" where
  "checked_capacity pool total_bytes available_bytes =
     (if total_bytes = 0 then Err (InvalidObservation pool ZeroTotal)
      else if total_bytes < available_bytes then Err (InvalidObservation pool AvailableExceedsTotal)
      else Ok (CapacityKnown total_bytes available_bytes))"

fun host_capacity :: "HostMemoryObservation \<Rightarrow> (CapacityState, MemoryPolicyError) outcome" where
  "host_capacity (HostAvailable total_bytes available_bytes src sem) = checked_capacity ''host'' total_bytes available_bytes"
| "host_capacity (HostUnavailable reason) = Ok (CapacityUnavailable reason)"

fun discrete_capacity :: "BackendCapacityObservation \<Rightarrow> (CapacityState, MemoryPolicyError) outcome" where
  "discrete_capacity (BackendDiscrete total_bytes available_bytes) = checked_capacity ''backend'' total_bytes available_bytes"
| "discrete_capacity (BackendUnavailable reason) = Ok (CapacityUnavailable reason)"
| "discrete_capacity observation = Err TopologyMismatch"

fun unified_recommendation :: "BackendCapacityObservation \<Rightarrow> (u64 option, MemoryPolicyError) outcome" where
  "unified_recommendation (BackendRecommended working_set allocated unified) =
     (if \<not> unified then Err (InvalidObservation ''backend'' NotUnified)
      else if working_set = 0 then Err (InvalidObservation ''backend'' ZeroWorkingSet)
      else Ok (Some working_set))"
| "unified_recommendation (BackendUnavailable reason) = Ok None"
| "unified_recommendation observation = Err TopologyMismatch"

definition observed_maximum :: "u64 \<Rightarrow> u64 \<Rightarrow> u64 \<Rightarrow> string \<Rightarrow> (u64, MemoryPolicyError) outcome" where
  "observed_maximum total_bytes available_bytes owned name =
     (if total_bytes < owned then Err (BaselineExceedsObserved name owned total_bytes)
      else and_then (policy_add owned available_bytes name) (\<lambda>sum. Ok (min total_bytes sum)))"

section \<open>Limits\<close>

fun resolve_automatic :: "CapacityState \<Rightarrow> u64 \<Rightarrow> string \<Rightarrow> (u64, MemoryPolicyError) outcome" where
  "resolve_automatic (CapacityUnavailable reason) owned name = Err (MissingObservation name reason)"
| "resolve_automatic (CapacityKnown total_bytes available_bytes) owned name =
     and_then (observed_maximum total_bytes available_bytes owned name) (\<lambda>maximum.
     and_then (four_fifths available_bytes name) (\<lambda>headroom.
     and_then (policy_add owned headroom name) (\<lambda>sum.
     and_then (positive (min sum maximum) name) (\<lambda>limit. ensure_at_least limit owned name))))"

definition resolve_explicit :: "u64 \<Rightarrow> CapacityState \<Rightarrow> u64 \<Rightarrow> string \<Rightarrow> (u64, MemoryPolicyError) outcome" where
  "resolve_explicit requested capacity owned name =
     (if requested < owned then Err (ExplicitBelowOwned name requested owned)
      else case capacity of
        CapacityKnown total_bytes available_bytes \<Rightarrow>
          and_then (observed_maximum total_bytes available_bytes owned name) (\<lambda>maximum.
          if maximum < requested then Err (ExplicitExceedsObserved name requested maximum) else Ok requested)
      | CapacityUnavailable reason \<Rightarrow> Ok requested)"

definition resolve_limit :: "BudgetRequest \<Rightarrow> CapacityState \<Rightarrow> u64 \<Rightarrow> string \<Rightarrow> (u64, MemoryPolicyError) outcome" where
  "resolve_limit request capacity owned name =
     (case request of BudgetAuto \<Rightarrow> resolve_automatic capacity owned name
      | BudgetBytes requested \<Rightarrow> resolve_explicit requested capacity owned name)"

definition resolve_combined :: "BudgetRequest \<Rightarrow> CapacityState \<Rightarrow> u64 option \<Rightarrow> u64 \<Rightarrow> (u64, MemoryPolicyError) outcome" where
  "resolve_combined request host recommendation owned =
     (case request of
        BudgetBytes requested \<Rightarrow> resolve_limit request host owned ''backend''
      | BudgetAuto \<Rightarrow>
          and_then (ok_or recommendation (MissingObservation ''backend'' SourceUnavailable)) (\<lambda>working_set.
          case host of
            CapacityUnavailable reason \<Rightarrow> Err (MissingObservation ''host'' reason)
          | CapacityKnown total_bytes available_bytes \<Rightarrow>
              and_then (four_fifths working_set ''backend'') (\<lambda>guidance.
              and_then (resolve_automatic (CapacityKnown total_bytes available_bytes) owned ''backend'') (\<lambda>host_derived.
              and_then (positive (min guidance host_derived) ''backend'') (\<lambda>limit. ensure_at_least limit owned ''backend'')))))"

definition cap_host_limit :: "BudgetRequest \<Rightarrow> u64 \<Rightarrow> u64 \<Rightarrow> (u64, MemoryPolicyError) outcome" where
  "cap_host_limit request host combined =
     (if host \<le> combined then Ok host
      else if is_explicit request then Err (HostExceedsCombined host combined)
      else Ok combined)"

section \<open>Policies\<close>

definition make_policy :: "ServiceBudgetArgs \<Rightarrow> ServiceMemoryPools \<Rightarrow> BackendCapacityObservation \<Rightarrow> HostMemoryObservation \<Rightarrow> ServiceMemoryPolicy" where
  "make_policy args pools backend host =
     \<lparr>mp_pools = pools, mp_kv_reservation = ba_kv_reservation args,
      mp_overrides = \<lparr>bo_memory = is_explicit (ba_memory args), bo_host = is_explicit (ba_host args),
        bo_kv_reservation = is_explicit (ba_kv_reservation args)\<rparr>,
      mp_backend_observation = backend, mp_host_observation = host\<rparr>"

definition resolve_discrete :: "ServiceBudgetArgs \<Rightarrow> ServiceMemoryInputs \<Rightarrow> u64 \<Rightarrow> (ServiceMemoryPolicy, MemoryPolicyError) outcome" where
  "resolve_discrete args inputs host_limit =
     and_then (discrete_capacity (mi_backend inputs)) (\<lambda>backend.
     and_then (resolve_limit (ba_memory args) backend (mi_backend_owned_bytes inputs) ''backend'') (\<lambda>backend_limit.
     Ok (make_policy args (DiscretePools backend_limit host_limit) (mi_backend inputs) (mi_host inputs))))"

definition resolve_unified ::
  "ServiceBudgetArgs \<Rightarrow> ServiceMemoryInputs \<Rightarrow> CapacityState \<Rightarrow> u64 \<Rightarrow> u64 \<Rightarrow> (ServiceMemoryPolicy, MemoryPolicyError) outcome" where
  "resolve_unified args inputs host host_limit combined_owned =
     and_then (unified_recommendation (mi_backend inputs)) (\<lambda>recommendation.
     and_then (resolve_combined (ba_memory args) host recommendation combined_owned) (\<lambda>combined.
     and_then (cap_host_limit (ba_host args) host_limit combined) (\<lambda>host_limit.
     Ok (make_policy args (SharedPools combined host_limit) (mi_backend inputs) (mi_host inputs)))))"

definition resolve_cpu ::
  "ServiceBudgetArgs \<Rightarrow> ServiceMemoryInputs \<Rightarrow> CapacityState \<Rightarrow> u64 \<Rightarrow> u64 \<Rightarrow> (ServiceMemoryPolicy, MemoryPolicyError) outcome" where
  "resolve_cpu args inputs host host_limit combined_owned =
     (if mi_backend inputs \<noteq> BackendCpu then Err TopologyMismatch
      else
        and_then (resolve_limit (ba_memory args) host combined_owned ''backend'') (\<lambda>combined.
        and_then (ensure_at_least combined combined_owned ''backend'') (\<lambda>_.
        and_then (cap_host_limit (ba_host args) host_limit combined) (\<lambda>host_limit.
        Ok (make_policy args (SharedPools combined host_limit) (mi_backend inputs) (mi_host inputs))))))"

definition resolve_policy :: "ServiceBudgetArgs \<Rightarrow> ServiceMemoryInputs \<Rightarrow> (ServiceMemoryPolicy, MemoryPolicyError) outcome" where
  "resolve_policy args inputs =
     and_then (host_capacity (mi_host inputs)) (\<lambda>host.
     and_then (policy_add (mi_backend_owned_bytes inputs) (mi_host_owned_bytes inputs) ''owned service memory'') (\<lambda>combined_owned.
     and_then (resolve_limit (ba_host args) host (mi_host_owned_bytes inputs) ''host'') (\<lambda>host_limit.
     and_then (case mi_topology inputs of
         TopologyDiscrete \<Rightarrow> resolve_discrete args inputs host_limit
       | TopologyUnified \<Rightarrow> resolve_unified args inputs host host_limit combined_owned
       | TopologyCpu \<Rightarrow> resolve_cpu args inputs host host_limit combined_owned) (\<lambda>result.
     if pool_host_bytes (mp_pools result) < mi_host_owned_bytes inputs
     then Err (HostBelowOwned (pool_host_bytes (mp_pools result)) (mi_host_owned_bytes inputs))
     else Ok result))))"

definition resolve_kv_reservation ::
  "BudgetRequest \<Rightarrow> u64 \<Rightarrow> u64 \<Rightarrow> u64 \<Rightarrow> u64 \<Rightarrow> u64 \<Rightarrow> u64 \<Rightarrow> (u64, MemoryPolicyError) outcome" where
  "resolve_kv_reservation request bytes_per_token context_limit max_active_requests backend_limit owned_non_kv_bytes transient_headroom_bytes =
     and_then (policy_mul bytes_per_token context_limit ''KV reservation'') (\<lambda>logical.
     and_then (policy_mul logical max_active_requests ''KV reservation'') (\<lambda>logical.
     and_then (policy_add owned_non_kv_bytes transient_headroom_bytes ''non-KV allocation'') (\<lambda>non_kv.
     and_then (ok_or (checked_sub backend_limit non_kv) (ZeroCapacity ''physical KV reservation'')) (\<lambda>physical.
     and_then (positive (min logical physical) ''KV reservation'') (\<lambda>maximum.
     case request of
       BudgetAuto \<Rightarrow> Ok maximum
     | BudgetBytes requested \<Rightarrow>
         if maximum < requested then Err (KvReservationExceedsLimit requested maximum) else Ok requested)))))"

definition host_budget :: "ServiceMemoryPolicy \<Rightarrow> u64" where
  "host_budget p = pool_host_bytes (mp_pools p)"

definition shared_budget :: "ServiceMemoryPolicy \<Rightarrow> MemoryBudget option" where
  "shared_budget p = (case mp_pools p of DiscretePools backend_bytes host \<Rightarrow> None | SharedPools combined host \<Rightarrow> Some (LimitedBytes combined))"

definition effective_backend_budget :: "ServiceMemoryPolicy \<Rightarrow> u64 \<Rightarrow> u64 \<Rightarrow> (MemoryBudget, MemoryPolicyError) outcome" where
  "effective_backend_budget p host_owned_bytes host_reserved_bytes =
     (case mp_pools p of
        DiscretePools backend_bytes host \<Rightarrow> limited_budget backend_bytes ''backend''
      | SharedPools combined host \<Rightarrow>
          and_then (policy_add host_owned_bytes host_reserved_bytes ''host allocations'') (\<lambda>host_total.
          and_then (ok_or (checked_sub combined host_total) (CombinedBelowHost combined host_total)) (\<lambda>remaining.
          and_then (positive remaining ''effective backend'') (\<lambda>remaining.
          limited_budget remaining ''effective backend''))))"

section \<open>The host observation on Linux\<close>

fun split_by :: "('a \<Rightarrow> bool) \<Rightarrow> 'a list \<Rightarrow> 'a list list" where
  "split_by p [] = [[]]"
| "split_by p (c # cs) = (if p c then [] # split_by p cs else (case split_by p cs of w # ws \<Rightarrow> (c # w) # ws | [] \<Rightarrow> [[c]]))"

definition newline :: char where "newline = CHR 0x0A"
definition carriage_return :: char where "carriage_return = CHR 0x0D"

definition str_lines :: "string \<Rightarrow> string list" where
  "str_lines s =
     (let pieces = split_by (\<lambda>c. c = newline) s;
          ended = map (\<lambda>l. if l \<noteq> [] \<and> last l = carriage_return then butlast l else l) (butlast pieces) in
      if last pieces = [] then ended else ended @ [last pieces])"

definition split_whitespace :: "string \<Rightarrow> string list" where
  "split_whitespace s = filter (\<lambda>w. w \<noteq> []) (split_by (\<lambda>c. of_char c \<in> {9 :: nat, 10, 11, 12, 13, 32}) s)"

definition strip_prefix :: "string \<Rightarrow> string \<Rightarrow> string option" where
  "strip_prefix key line = (if take (length key) line = key then Some (drop (length key) line) else None)"

definition meminfo_line :: "string \<Rightarrow> string \<Rightarrow> u64 option" where
  "meminfo_line key line =
     Option.bind (strip_prefix key line) (\<lambda>rest.
     case split_whitespace rest of v # unit_name # _ \<Rightarrow> if unit_name = ''kB'' then parse_u64 v else None | _ \<Rightarrow> None)"

definition parse_meminfo_kib :: "string \<Rightarrow> string \<Rightarrow> u64 option" where
  "parse_meminfo_kib contents key = find_map_some (meminfo_line key) (str_lines contents)"

definition parse_linux_meminfo :: "string \<Rightarrow> HostMemoryObservation" where
  "parse_linux_meminfo contents =
     (case (parse_meminfo_kib contents ''MemTotal:'', parse_meminfo_kib contents ''MemAvailable:'') of
        (Some total_kib, Some available_kib) \<Rightarrow>
          (case (checked_mul total_kib 1024, checked_mul available_kib 1024) of
             (Some total_bytes, Some available_bytes) \<Rightarrow>
               HostAvailable total_bytes available_bytes LinuxMeminfo KernelAvailableEstimate
           | _ \<Rightarrow> HostUnavailable Malformed)
      | _ \<Rightarrow> HostUnavailable Malformed)"

section \<open>The host ledger\<close>

text \<open>A \<open>HostMemoryLedger\<close> is its tracker; its methods are the tracker's.\<close>

definition ledger_new :: "nat \<Rightarrow> nat \<Rightarrow> u64 \<Rightarrow> MemoryHeap \<Rightarrow> MemoryTracker \<times> MemoryHeap" where
  "ledger_new state shared limit = tracker_new state shared (LimitedBytes limit)"

definition ledger_child :: "nat \<Rightarrow> u64 \<Rightarrow> nat \<Rightarrow> MemoryHeap \<Rightarrow> MemoryTracker \<times> MemoryHeap" where
  "ledger_child state limit root = tracker_child state (LimitedBytes limit) root"

definition ledger_set_limit :: "MemoryTracker \<Rightarrow> u64 \<Rightarrow> MemoryHeap \<Rightarrow> (unit, MemoryError) outcome \<times> MemoryHeap" where
  "ledger_set_limit tracker limit = tracker_set_budget tracker (LimitedBytes limit)"

definition ledger_reserve :: "MemoryTracker \<Rightarrow> u64 \<Rightarrow> MemoryHeap \<Rightarrow> (MemoryReservation, MemoryError) outcome \<times> MemoryHeap" where
  "ledger_reserve tracker bytes = tracker_reserve tracker ContractBuffer bytes"

definition ledger_allocate :: "MemoryTracker \<Rightarrow> u64 \<Rightarrow> MemoryHeap \<Rightarrow> (MemoryAllocation, MemoryError) outcome \<times> MemoryHeap" where
  "ledger_allocate tracker bytes = tracker_allocate tracker ContractBuffer bytes"

section \<open>Arithmetic of the policy\<close>

lemma u64_mul_exact: "checked_mul a b = Some c \<longleftrightarrow> unat a * unat b < 2 ^ 64 \<and> unat c = unat a * unat b"
  for a :: u64
  by (auto simp: checked_mul_def word_unat_eq_iff unat_word_ariths take_bit_nat_eq_self)

lemma u64_add_exact: "checked_add a b = Some c \<longleftrightarrow> unat a + unat b < 2 ^ 64 \<and> unat c = unat a + unat b"
  for a :: u64
  by (auto simp: checked_add_def word_unat_eq_iff unat_word_ariths take_bit_nat_eq_self)

lemma u64_sub_exact: "checked_sub a b = Some c \<longleftrightarrow> unat b \<le> unat a \<and> unat c = unat a - unat b"
  for a :: u64
  by (auto simp: checked_sub_def word_unat_eq_iff unat_sub word_le_nat_alt)

lemma ok_or_Ok: "ok_or x e = Ok a \<longleftrightarrow> x = Some a"
  by (cases x) (simp_all add: ok_or_def)

lemmas word_order = word_le_nat_alt word_less_nat_alt

lemma four_fifths_exact: "four_fifths v name = Ok (of_nat (4 * unat v div 5))"
proof -
  let ?q = "v div AUTO_HEADROOM_DENOMINATOR" and ?r = "v mod AUTO_HEADROOM_DENOMINATOR"
  have q: "unat ?q = unat v div 5" "unat ?r = unat v mod 5"
    by (simp_all add: AUTO_HEADROOM_DENOMINATOR_def unat_div unat_mod)
  have v: "unat v < 2 ^ 64" using unat_lt_2p [of v] by simp
  have "5 * (unat v div 5) \<le> unat v" by simp
  then have b: "4 * (unat v div 5) < 2 ^ 64" using v by linarith
  have split: "4 * unat v div 5 = 4 * (unat v div 5) + 4 * (unat v mod 5) div 5" by presburger
  have m: "checked_mul ?q AUTO_HEADROOM_NUMERATOR = Some (of_nat (4 * (unat v div 5)))"
    using b by (simp add: u64_mul_exact q AUTO_HEADROOM_NUMERATOR_def unat_of_nat take_bit_nat_eq_self del: of_nat_mult)
  have r: "unat (?r * AUTO_HEADROOM_NUMERATOR div AUTO_HEADROOM_DENOMINATOR) = 4 * (unat v mod 5) div 5"
    by (simp add: unat_div unat_word_ariths q AUTO_HEADROOM_NUMERATOR_def AUTO_HEADROOM_DENOMINATOR_def mult.commute take_bit_nat_eq_self)
  have "4 * unat v div 5 < 2 ^ 64" using v by linarith
  then have w: "unat (of_nat (4 * unat v div 5) :: u64) = 4 * unat v div 5" by (simp add: unat_of_nat take_bit_nat_eq_self del: of_nat_mult)
  moreover have "unat (of_nat (4 * (unat v div 5)) :: u64) = 4 * (unat v div 5)" using b by (simp add: unat_of_nat take_bit_nat_eq_self del: of_nat_mult)
  ultimately have "checked_add (of_nat (4 * (unat v div 5))) (?r * AUTO_HEADROOM_NUMERATOR div AUTO_HEADROOM_DENOMINATOR) = Some (of_nat (4 * unat v div 5))"
    unfolding u64_add_exact r w using split \<open>4 * unat v div 5 < 2 ^ 64\<close> by linarith
  then show ?thesis by (simp add: four_fifths_def Let_def m ok_or_def)
qed


section \<open>Limits stay within what was observed\<close>

text \<open>What a limit may be, given a capacity and the bytes already owned.\<close>

definition within_capacity :: "CapacityState \<Rightarrow> u64 \<Rightarrow> u64 \<Rightarrow> bool" where
  "within_capacity capacity owned limit \<longleftrightarrow> owned \<le> limit \<and>
     (case capacity of
        CapacityKnown t a \<Rightarrow> unat limit \<le> min (unat t) (unat owned + unat a)
      | CapacityUnavailable reason \<Rightarrow> True)"

lemma observed_maximum_Ok:
  "observed_maximum t a owned name = Ok m \<longleftrightarrow>
   owned \<le> t \<and> unat owned + unat a < 2 ^ 64 \<and> unat m = min (unat t) (unat owned + unat a)"
  by (auto simp: observed_maximum_def policy_add_def and_then_eq_Ok ok_or_Ok u64_add_exact word_order unat_min word_unat_eq_iff
      intro!: exI [of _ "owned + a"] simp: unat_word_ariths take_bit_nat_eq_self)

lemma resolve_automatic_Ok:
  "resolve_automatic (CapacityKnown t a) owned name = Ok l \<Longrightarrow>
   within_capacity (CapacityKnown t a) owned l \<and> l \<noteq> 0 \<and>
   unat l = min (unat owned + 4 * unat a div 5) (min (unat t) (unat owned + unat a))"
  by (auto simp: within_capacity_def and_then_eq_Ok observed_maximum_Ok four_fifths_exact policy_add_def ok_or_Ok u64_add_exact
      positive_def ensure_at_least_def word_order unat_min unat_of_nat take_bit_nat_eq_self split: if_splits)

lemma resolve_explicit_Ok: "resolve_explicit r capacity owned name = Ok l \<Longrightarrow> l = r \<and> within_capacity capacity owned l"
  by (auto simp: resolve_explicit_def within_capacity_def and_then_eq_Ok observed_maximum_Ok word_order
      split: CapacityState.splits if_splits)

text \<open>An explicit request is a \<open>NonZeroU64\<close>.\<close>

fun request_nonzero :: "BudgetRequest \<Rightarrow> bool" where
  "request_nonzero BudgetAuto = True"
| "request_nonzero (BudgetBytes n) = (n \<noteq> 0)"

fun honours :: "BudgetRequest \<Rightarrow> u64 \<Rightarrow> bool" where
  "honours BudgetAuto l = True"
| "honours (BudgetBytes n) l = (l = n)"

lemma resolve_limit_Ok:
  assumes "resolve_limit request capacity owned name = Ok l" and "request_nonzero request"
  shows "within_capacity capacity owned l \<and> l \<noteq> 0 \<and> honours request l"
proof (cases request)
  case BudgetAuto
  then show ?thesis using assms resolve_automatic_Ok by (cases capacity) (auto simp: resolve_limit_def simp del: resolve_automatic.simps(2))
next
  case (BudgetBytes n)
  then show ?thesis using assms resolve_explicit_Ok [of n capacity owned name l] by (auto simp: resolve_limit_def)
qed

lemma resolve_combined_Ok:
  assumes "resolve_combined request host recommendation owned = Ok l" and "request_nonzero request"
  shows "within_capacity host owned l \<and> l \<noteq> 0 \<and> honours request l"
proof (cases request)
  case BudgetAuto
  show ?thesis
  proof (cases host)
    case (CapacityKnown t a)
    obtain g d where h: "resolve_automatic (CapacityKnown t a) owned ''backend'' = Ok d" "l = min g d" "l \<noteq> 0" "owned \<le> l"
      using assms(1) BudgetAuto CapacityKnown
      by (auto simp: resolve_combined_def and_then_eq_Ok positive_def ensure_at_least_def not_less simp del: resolve_automatic.simps(2) split: if_splits)
    moreover have "unat l \<le> unat d" by (simp add: h(2) unat_min)
    moreover have "unat d \<le> unat t" "unat d \<le> unat owned + unat a"
      using resolve_automatic_Ok [OF h(1)] by (simp_all add: within_capacity_def)
    ultimately show ?thesis using BudgetAuto CapacityKnown by (simp add: within_capacity_def)
  qed (use assms(1) BudgetAuto in \<open>simp add: resolve_combined_def and_then_eq_Ok\<close>)
next
  case (BudgetBytes n)
  then show ?thesis using assms resolve_limit_Ok [of request host owned "''backend''" l] by (auto simp: resolve_combined_def)
qed

lemma cap_host_Ok: "cap_host_limit request h c = Ok l \<Longrightarrow> l \<le> c \<and> l \<le> h \<and> (honours request h \<longrightarrow> honours request l) \<and> (h \<noteq> 0 \<longrightarrow> c \<noteq> 0 \<longrightarrow> l \<noteq> 0)"
  by (cases request) (auto simp: cap_host_limit_def split: if_splits)

section \<open>The properties\<close>

text \<open>The capacity an observation stands for, when it is usable.\<close>

definition host_within :: "HostMemoryObservation \<Rightarrow> u64 \<Rightarrow> u64 \<Rightarrow> bool" where
  "host_within observation owned limit \<longleftrightarrow>
     (case observation of
        HostAvailable t a src sem \<Rightarrow> unat limit \<le> min (unat t) (unat owned + unat a)
      | HostUnavailable reason \<Rightarrow> True)"

lemma checked_capacity_Ok: "checked_capacity pool t a = Ok c \<longleftrightarrow> c = CapacityKnown t a \<and> t \<noteq> 0 \<and> a \<le> t"
  by (auto simp: checked_capacity_def)

lemma host_within_capacity: "host_capacity obs = Ok c \<Longrightarrow> within_capacity c owned l \<Longrightarrow> host_within obs owned l"
  by (cases obs) (auto simp: checked_capacity_Ok within_capacity_def host_within_def)

text \<open>C30: A resolved memory policy is finite, covers what is already owned, stays within what was
  observed and honours explicit requests. The host limit is nonzero, at least the bytes the host
  owns and at most what the host observation allows. A discrete accelerator's limit is between
  its owned bytes and its observed capacity; a shared limit covers the host limit and all owned
  bytes together, and stays within the host observation.\<close>

theorem policy_limits_hold:
  assumes "resolve_policy args inputs = Ok p"
    and "request_nonzero (ba_memory args)" and "request_nonzero (ba_host args)"
  shows "host_budget p \<noteq> 0 \<and> combined_bytes (mp_pools p) \<noteq> 0 \<and>
    mi_host_owned_bytes inputs \<le> host_budget p \<and> host_within (mi_host inputs) (mi_host_owned_bytes inputs) (host_budget p) \<and>
    honours (ba_memory args) (combined_bytes (mp_pools p)) \<and> honours (ba_host args) (host_budget p) \<and>
    (case mp_pools p of
       DiscretePools b h \<Rightarrow> mi_topology inputs = TopologyDiscrete \<and> mi_backend_owned_bytes inputs \<le> b \<and>
         (case mi_backend inputs of BackendDiscrete t a \<Rightarrow> unat b \<le> min (unat t) (unat (mi_backend_owned_bytes inputs) + unat a)
          | BackendUnavailable reason \<Rightarrow> honours (ba_memory args) b | _ \<Rightarrow> False)
     | SharedPools c h \<Rightarrow> mi_topology inputs \<noteq> TopologyDiscrete \<and> h \<le> c \<and>
         unat (mi_backend_owned_bytes inputs) + unat (mi_host_owned_bytes inputs) \<le> unat c \<and>
         (case mi_host inputs of HostAvailable t a src sem \<Rightarrow>
            unat c \<le> min (unat t) (unat (mi_backend_owned_bytes inputs) + unat (mi_host_owned_bytes inputs) + unat a)
          | HostUnavailable reason \<Rightarrow> True))"
proof -
  let ?bo = "mi_backend_owned_bytes inputs" and ?ho = "mi_host_owned_bytes inputs"
  obtain host co hl where h: "host_capacity (mi_host inputs) = Ok host"
    "unat co = unat ?bo + unat ?ho"
    "resolve_limit (ba_host args) host ?ho ''host'' = Ok hl"
    and r: "(case mi_topology inputs of TopologyDiscrete \<Rightarrow> resolve_discrete args inputs hl
       | TopologyUnified \<Rightarrow> resolve_unified args inputs host hl co | TopologyCpu \<Rightarrow> resolve_cpu args inputs host hl co) = Ok p"
    and ge: "?ho \<le> pool_host_bytes (mp_pools p)"
    using assms(1) by (auto simp: resolve_policy_def and_then_eq_Ok policy_add_def ok_or_Ok u64_add_exact split: if_splits)
  have hl: "within_capacity host ?ho hl" "hl \<noteq> 0" "honours (ba_host args) hl"
    using resolve_limit_Ok [OF h(3) assms(3)] by auto
  have hw: "host_within (mi_host inputs) ?ho l" if "l \<le> hl" for l
    using host_within_capacity [OF h(1) hl(1)] that by (auto simp: host_within_def word_order split: HostMemoryObservation.splits)
  have shared: ?thesis if "mi_topology inputs \<noteq> TopologyDiscrete" "mp_pools p = SharedPools c l" "within_capacity host co c" "c \<noteq> 0"
      "honours (ba_memory args) c" "cap_host_limit (ba_host args) hl c = Ok l" for c l
    using that cap_host_Ok [OF that(6)] hl h(1,2) hw [of l] ge
    by (cases "mi_host inputs") (auto simp: host_budget_def within_capacity_def checked_capacity_Ok word_order)
  show ?thesis
  proof (cases "mi_topology inputs")
    case TopologyDiscrete
    then obtain bc b where b: "discrete_capacity (mi_backend inputs) = Ok bc" "resolve_limit (ba_memory args) bc ?bo ''backend'' = Ok b"
      "mp_pools p = DiscretePools b hl"
      using r by (auto simp: resolve_discrete_def and_then_eq_Ok make_policy_def)
    then show ?thesis using resolve_limit_Ok [OF b(2) assms(2)] hl hw [of hl] ge TopologyDiscrete
      by (cases "mi_backend inputs") (auto simp: host_budget_def within_capacity_def checked_capacity_Ok)
  next
    case TopologyUnified
    then obtain w c l where c: "resolve_combined (ba_memory args) host w co = Ok c" "cap_host_limit (ba_host args) hl c = Ok l"
      "mp_pools p = SharedPools c l"
      using r by (auto simp: resolve_unified_def and_then_eq_Ok make_policy_def)
    then show ?thesis using shared [of c l] resolve_combined_Ok [OF c(1) assms(2)] TopologyUnified by simp
  next
    case TopologyCpu
    then obtain c l where c: "resolve_limit (ba_memory args) host co ''backend'' = Ok c" "cap_host_limit (ba_host args) hl c = Ok l"
      "mp_pools p = SharedPools c l"
      using r by (auto simp: resolve_cpu_def and_then_eq_Ok make_policy_def split: if_splits)
    then show ?thesis using shared [of c l] resolve_limit_Ok [OF c(1) assms(2)] TopologyCpu by simp
  qed
qed


theorem policy_limits_hold_witness:
  "\<exists>p. resolve_policy \<lparr>ba_memory = BudgetAuto, ba_host = BudgetBytes 30, ba_kv_reservation = BudgetAuto\<rparr>
      \<lparr>mi_topology = TopologyCpu, mi_backend = BackendCpu, mi_host = HostAvailable 200 100 LinuxMeminfo KernelAvailableEstimate,
       mi_backend_owned_bytes = 10, mi_host_owned_bytes = 20\<rparr> = Ok p \<and> host_budget p = 30 \<and> unat (combined_bytes (mp_pools p)) \<le> 130"
  (is "\<exists>p. resolve_policy ?args ?inputs = Ok p \<and> _")
proof -
  have "resolve_policy ?args ?inputs = Ok \<lparr>mp_pools = SharedPools 110 30, mp_kv_reservation = BudgetAuto,
      mp_overrides = \<lparr>bo_memory = False, bo_host = True, bo_kv_reservation = False\<rparr>,
      mp_backend_observation = BackendCpu, mp_host_observation = HostAvailable 200 100 LinuxMeminfo KernelAvailableEstimate\<rparr>"
    by (simp add: resolve_policy_def checked_capacity_def policy_add_def checked_add_def ok_or_def resolve_limit_def resolve_explicit_def
        observed_maximum_def resolve_cpu_def four_fifths_exact positive_def ensure_at_least_def cap_host_limit_def make_policy_def min_def)
  from policy_limits_hold [OF this] this show ?thesis by (simp add: host_budget_def)
qed

text \<open>The KV reservation is exactly what fits. It succeeds when the product of bytes per token,
  context and active requests does not overflow and the limit leaves room beyond the non-KV
  bytes; the answer is then the smaller of the two, or an explicit request not above it.\<close>

theorem kv_reservation_is_exact:
  "resolve_kv_reservation request per_token context active limit owned headroom = Ok r \<longleftrightarrow>
   (let logical = unat per_token * unat context * unat active; non_kv = unat owned + unat headroom;
        maximum = min logical (unat limit - non_kv) in
    unat per_token * unat context < 2 ^ 64 \<and> logical < 2 ^ 64 \<and> non_kv < 2 ^ 64 \<and> non_kv \<le> unat limit \<and> 0 < maximum \<and>
    (case request of BudgetAuto \<Rightarrow> unat r = maximum | BudgetBytes n \<Rightarrow> r = n \<and> unat n \<le> maximum))"
proof -
  have m: "unat (of_nat n :: u64) = n" if "n < 2 ^ 64" for n using that by (simp add: unat_of_nat take_bit_nat_eq_self)
  have mul: "policy_mul a b name = (if unat a * unat b < 2 ^ 64 then Ok (of_nat (unat a * unat b)) else Err (PolicyOverflow name))" for a b name
    by (auto simp: policy_mul_def ok_or_def checked_mul_def)
  have add: "policy_add a b name = (if unat a + unat b < 2 ^ 64 then Ok (of_nat (unat a + unat b)) else Err (PolicyOverflow name))" for a b name
    by (auto simp: policy_add_def ok_or_def checked_add_def)
  have sub: "checked_sub limit a = (if unat a \<le> unat limit then Some (of_nat (unat limit - unat a)) else None)" for a
    by (auto simp: checked_sub_def word_order of_nat_diff)
  have small: "unat limit - x < 2 ^ 64" for x using unat_lt_2p [of limit] by (simp add: less_imp_diff_less)
  let ?a = "unat per_token * unat context" and ?non = "unat owned + unat headroom"
  let ?l = "?a * unat active"
  consider "2 ^ 64 \<le> ?a" | "?a < 2 ^ 64" "2 ^ 64 \<le> ?l" | "?a < 2 ^ 64" "?l < 2 ^ 64" "2 ^ 64 \<le> ?non" | "?a < 2 ^ 64" "?l < 2 ^ 64" "?non < 2 ^ 64"
    by linarith
  then show ?thesis
  proof cases
    case 4
    let ?m = "min ?l (unat limit - ?non)"
    have mn: "min (of_nat ?l) (of_nat (unat limit - ?non) :: u64) = of_nat ?m"
      using 4 m small by (simp only: word_unat_eq_iff unat_min m min_less_iff_disj simp_thms)
    moreover have "unat (of_nat ?m :: u64) = ?m" using 4 m by (simp only: m min_less_iff_disj simp_thms)
    ultimately obtain M :: u64 where M: "min (of_nat ?l) (of_nat (unat limit - ?non)) = M" "unat M = ?m" by blast
    have chain: "resolve_kv_reservation request per_token context active limit owned headroom =
      (if ?non \<le> unat limit then and_then (positive M ''KV reservation'') (\<lambda>maximum. case request of BudgetAuto \<Rightarrow> Ok maximum
        | BudgetBytes n \<Rightarrow> if maximum < n then Err (KvReservationExceedsLimit n maximum) else Ok n)
       else Err (ZeroCapacity ''physical KV reservation''))"
      by (cases "?non \<le> unat limit") (simp_all only: resolve_kv_reservation_def mul add sub m 4 if_True if_False and_then.simps ok_or_def option.case M(1))
    have "0 < unat M \<longleftrightarrow> M \<noteq> 0" by (simp add: unat_gt_0)
    then show ?thesis unfolding chain Let_def M(2) [symmetric] using 4
      by (cases request) (auto simp only: positive_def word_order word_unat_eq_iff if_True if_False and_then.simps outcome.inject outcome.distinct
        BudgetRequest.case not_less split: if_splits)
  qed (auto simp: resolve_kv_reservation_def mul add m and_then_eq_Ok simp del: of_nat_mult of_nat_add split: if_splits)
qed

text \<open>The shared limit is never exceeded. What a policy leaves the backend beside a host ledger
  that owns and has reserved some bytes is, for shared pools, exactly the rest of the combined
  limit, refused when nothing is left; a discrete limit does not depend on the ledger.\<close>

theorem effective_backend_budget_is_the_rest:
  "effective_backend_budget p owned reserved = Ok budget \<longleftrightarrow>
   (case mp_pools p of
      DiscretePools b h \<Rightarrow> b \<noteq> 0 \<and> budget = LimitedBytes b
    | SharedPools c h \<Rightarrow> (\<exists>n. budget = LimitedBytes n \<and> n \<noteq> 0 \<and> unat owned + unat reserved + unat n = unat c))"
proof (cases "mp_pools p")
  case (DiscretePools b h)
  then show ?thesis by (auto simp: effective_backend_budget_def limited_budget_def budget_limited_def)
next
  case (SharedPools c h)
  have "unat owned + unat reserved + unat n = unat c \<longleftrightarrow>
      (\<exists>t. checked_add owned reserved = Some t \<and> checked_sub c t = Some n)" for n
  proof
    assume e: "unat owned + unat reserved + unat n = unat c"
    then have "unat owned + unat reserved < 2 ^ 64" using unat_lt_2p [of c] by simp
    then have "checked_add owned reserved = Some (owned + reserved) \<and> checked_sub c (owned + reserved) = Some n"
      using e by (simp add: u64_add_exact u64_sub_exact unat_word_ariths take_bit_nat_eq_self)
    then show "\<exists>t. checked_add owned reserved = Some t \<and> checked_sub c t = Some n" by blast
  qed (auto simp: u64_add_exact u64_sub_exact)
  then show ?thesis using SharedPools
    by (auto simp: effective_backend_budget_def policy_add_def and_then_eq_Ok ok_or_Ok positive_def limited_budget_def budget_limited_def split: if_splits)
qed

text \<open>The value of a string of digits, without bound.\<close>

definition decimal_value :: "nat \<Rightarrow> string \<Rightarrow> nat" where
  "decimal_value acc s = fold (\<lambda>c n. n * 10 + digit_value c) s acc"

lemma decimal_value_mono: "acc \<le> decimal_value acc s"
  unfolding decimal_value_def
proof (induction s arbitrary: acc)
  case (Cons c s)
  then show ?case using le_trans [OF _ Cons [of "acc * 10 + digit_value c"], of acc] by simp
qed simp

lemma digit_value_bound: "is_digit c \<Longrightarrow> digit_value c \<le> 9"
  unfolding is_digit_def digit_value_def by linarith

lemma parse_digits_exact:
  "parse_digits acc s = Some w \<longleftrightarrow> list_all is_digit s \<and> decimal_value (unat acc) s < 2 ^ 64 \<and> unat w = decimal_value (unat acc) s"
proof (induction s arbitrary: acc)
  case Nil
  show ?case using unat_lt_2p [of acc] by (auto simp: decimal_value_def word_unat_eq_iff)
next
  case (Cons c s)
  let ?n = "unat acc * 10 + digit_value c"
  have step: "decimal_value (unat acc) (c # s) = decimal_value ?n s" by (simp add: decimal_value_def)
  show ?case
  proof (cases "is_digit c \<and> ?n < 2 ^ 64")
    case True
    have m: "checked_mul acc 10 = Some (of_nat (unat acc * 10))"
      using True by (simp add: u64_mul_exact unat_of_nat take_bit_nat_eq_self del: of_nat_mult)
    have a: "checked_add (of_nat (unat acc * 10)) (of_nat (digit_value c)) = Some (of_nat ?n :: u64)"
      using True digit_value_bound [of c] by (simp add: u64_add_exact unat_of_nat take_bit_nat_eq_self del: of_nat_mult of_nat_add)
    have "unat (of_nat ?n :: u64) = ?n" using True by (simp add: unat_of_nat take_bit_nat_eq_self del: of_nat_mult of_nat_add)
    then show ?thesis using True m a Cons [of "of_nat ?n"] step by (simp del: of_nat_mult of_nat_add)
  next
    case False
    have "parse_digits acc (c # s) = None"
    proof (rule ccontr)
      assume "parse_digits acc (c # s) \<noteq> None"
      then have "is_digit c" "unat acc * 10 + unat (of_nat (digit_value c) :: u64) < 2 ^ 64"
        by (auto simp: u64_mul_exact u64_add_exact bind_eq_Some_conv split: if_splits)
      then show False using False digit_value_bound [of c] by (simp add: unat_of_nat take_bit_nat_eq_self)
    qed
    moreover have "\<not> (list_all is_digit (c # s) \<and> decimal_value (unat acc) (c # s) < 2 ^ 64)"
      using False decimal_value_mono [of ?n s] step by auto
    ultimately show ?thesis by (simp only: option.distinct simp_thms) blast
  qed
qed

text \<open>A budget request is read exactly: \<open>auto\<close>, or an optional plus and a nonempty string of
  decimal digits whose value, leading zeros and all, is positive and below two to the 64.\<close>

theorem budget_requests_are_read_exactly:
  "parse_budget v = Ok request \<longleftrightarrow>
   (case request of
      BudgetAuto \<Rightarrow> v = ''auto''
    | BudgetBytes n \<Rightarrow> \<exists>ds. (v = ds \<or> v = CHR ''+'' # ds) \<and> ds \<noteq> [] \<and> list_all is_digit ds \<and>
        0 < decimal_value 0 ds \<and> decimal_value 0 ds < 2 ^ 64 \<and> unat n = decimal_value 0 ds)"
proof (cases request)
  case BudgetAuto
  show ?thesis unfolding BudgetAuto by (auto simp: parse_budget_def and_then_eq_Ok ok_or_Ok split: if_splits)
next
  case (BudgetBytes n)
  have plus: "\<not> is_digit (CHR ''+'')" "\<not> is_digit (CHR ''a'')" by (simp_all add: is_digit_def)
  have digits: "parse_u64 v = Some n \<longleftrightarrow> (\<exists>ds. (v = ds \<or> v = CHR ''+'' # ds) \<and> ds \<noteq> [] \<and> list_all is_digit ds \<and>
        decimal_value 0 ds < 2 ^ 64 \<and> unat n = decimal_value 0 ds)"
    using plus(1) by (cases v) (auto simp: parse_u64_def Let_def parse_digits_exact)
  have "v \<noteq> ''auto''" if "parse_u64 v = Some n" using that plus by (auto simp: parse_u64_def Let_def parse_digits_exact)
  then have "parse_budget v = Ok (BudgetBytes n) \<longleftrightarrow> parse_u64 v = Some n \<and> n \<noteq> 0"
    by (auto simp: parse_budget_def and_then_eq_Ok ok_or_Ok split: if_splits)
  then show ?thesis unfolding BudgetBytes digits unat_gt_0 [symmetric] by (simp only: BudgetRequest.case) metis
qed

end
