(* ===== verification/Json_Constraint.thy ===== *)
theory Json_Constraint
  imports Rust_Base
begin

text \<open>
  The output constraint of \<open>crates/leone/src/constraint.rs\<close>: a session that must produce one JSON
  object masks every token that cannot continue it. The JSON parser (\<open>serde_json\<close>) is a
  parameter that says what a byte string is; the tokenizer is a record of its two queries; a
  logit is any type with a finiteness test and a value for negative infinity.
\<close>

section \<open>Parameters\<close>

text \<open>What \<open>serde_json::from_slice\<close> says of some bytes: an object, another value, an error because
  the input ended early (\<open>is_eof\<close>), or any other error.\<close>

datatype JsonVerdict = JsonObject | JsonOther | JsonEof | JsonInvalid

record 'e Tokenizer =
  tz_eos_token :: "u32 option"
  tz_token_bytes :: "u32 \<Rightarrow> (u8 list, 'e) outcome"

record 'f LogitOps =
  lo_is_finite :: "'f \<Rightarrow> bool"
  lo_neg_infinity :: 'f

datatype 'e ConstraintError = TokenizerFailed 'e | NoValidToken | InvalidTransition

section \<open>The constraint\<close>

record JsonObjectConstraint =
  jc_bytes :: "u8 list"

definition constraint_new :: JsonObjectConstraint where
  "constraint_new = \<lparr>jc_bytes = []\<rparr>"

definition is_ascii_whitespace :: "u8 \<Rightarrow> bool" where
  "is_ascii_whitespace b \<longleftrightarrow> b \<in> {0x20, 0x09, 0x0A, 0x0C, 0x0D}"

definition valid_object_prefix :: "(u8 list \<Rightarrow> JsonVerdict) \<Rightarrow> u8 list \<Rightarrow> bool" where
  "valid_object_prefix json bytes =
     (case List.find (\<lambda>b. \<not> is_ascii_whitespace b) bytes of
        None \<Rightarrow> True
      | Some b \<Rightarrow>
          if b \<noteq> 0x7B then False
          else (case json bytes of JsonObject \<Rightarrow> True | JsonOther \<Rightarrow> False | JsonEof \<Rightarrow> True | JsonInvalid \<Rightarrow> False))"

definition allows_bytes :: "(u8 list \<Rightarrow> JsonVerdict) \<Rightarrow> JsonObjectConstraint \<Rightarrow> u8 list \<Rightarrow> bool" where
  "allows_bytes json c bytes = valid_object_prefix json (jc_bytes c @ bytes)"

definition is_complete :: "(u8 list \<Rightarrow> JsonVerdict) \<Rightarrow> JsonObjectConstraint \<Rightarrow> bool" where
  "is_complete json c \<longleftrightarrow> json (jc_bytes c) = JsonObject"

definition token_admitted ::
  "(u8 list \<Rightarrow> JsonVerdict) \<Rightarrow> 'e Tokenizer \<Rightarrow> JsonObjectConstraint \<Rightarrow> u32 \<Rightarrow> (bool, 'e ConstraintError) outcome" where
  "token_admitted json tz c token =
     (if Some token = tz_eos_token tz then Ok (is_complete json c)
      else and_then (map_err TokenizerFailed (tz_token_bytes tz token)) (\<lambda>bytes. Ok (bytes \<noteq> [] \<and> allows_bytes json c bytes)))"

text \<open>The loop over the logits from index \<open>i\<close> on. An error leaves the logits masked so far.\<close>

fun mask_from ::
  "(u8 list \<Rightarrow> JsonVerdict) \<Rightarrow> 'e Tokenizer \<Rightarrow> 'f LogitOps \<Rightarrow> JsonObjectConstraint \<Rightarrow> nat \<Rightarrow> nat \<Rightarrow> 'f list
    \<Rightarrow> (nat, 'e ConstraintError) outcome \<times> 'f list" where
  "mask_from json tz lo c allowed i [] = (Ok allowed, [])"
| "mask_from json tz lo c allowed i (logit # logits) =
     (if 2 ^ 32 \<le> i then (Err NoValidToken, logit # logits)
      else case token_admitted json tz c (of_nat i) of
        Ok admitted \<Rightarrow>
          (if admitted \<and> lo_is_finite lo logit
           then map_prod id ((#) logit) (mask_from json tz lo c (allowed + 1) (i + 1) logits)
           else map_prod id ((#) (lo_neg_infinity lo)) (mask_from json tz lo c allowed (i + 1) logits))
      | Err e \<Rightarrow> (Err e, logit # logits)
      | Panic \<Rightarrow> (Panic, logit # logits))"

definition constraint_mask ::
  "(u8 list \<Rightarrow> JsonVerdict) \<Rightarrow> 'e Tokenizer \<Rightarrow> 'f LogitOps \<Rightarrow> JsonObjectConstraint \<Rightarrow> 'f list
    \<Rightarrow> (unit, 'e ConstraintError) outcome \<times> 'f list" where
  "constraint_mask json tz lo c logits =
     try_st (mask_from json tz lo c 0 0 logits) (\<lambda>allowed logits. (if allowed = 0 then Err NoValidToken else Ok (), logits))"

definition constraint_accept ::
  "(u8 list \<Rightarrow> JsonVerdict) \<Rightarrow> 'e Tokenizer \<Rightarrow> u32 \<Rightarrow> JsonObjectConstraint
    \<Rightarrow> (unit, 'e ConstraintError) outcome \<times> JsonObjectConstraint" where
  "constraint_accept json tz token c =
     (if Some token = tz_eos_token tz then (if is_complete json c then Ok () else Err InvalidTransition, c)
      else try_pure (map_err TokenizerFailed (tz_token_bytes tz token)) c (\<lambda>bytes.
        if bytes = [] \<or> \<not> allows_bytes json c bytes then (Err InvalidTransition, c)
        else (Ok (), c\<lparr>jc_bytes := jc_bytes c @ bytes\<rparr>)))"

section \<open>Masking and accepting agree\<close>

lemma admitted_accepts: "token_admitted json tz c token = Ok b \<Longrightarrow> (fst (constraint_accept json tz token c) = Ok ()) = b"
  by (cases "tz_token_bytes tz token") (auto simp: token_admitted_def constraint_accept_def split: if_splits)



definition kept ::
  "(u8 list \<Rightarrow> JsonVerdict) \<Rightarrow> 'e Tokenizer \<Rightarrow> 'f LogitOps \<Rightarrow> JsonObjectConstraint \<Rightarrow> u32 \<Rightarrow> 'f \<Rightarrow> bool" where
  "kept json tz lo c token logit \<longleftrightarrow> fst (constraint_accept json tz token c) = Ok () \<and> lo_is_finite lo logit"

lemma mask_from_Ok:
  "mask_from json tz lo c allowed i logits = (Ok n, masked) \<Longrightarrow>
   masked = map (\<lambda>(k, logit). if kept json tz lo c (of_nat k) logit then logit else lo_neg_infinity lo) (List.enumerate i logits) \<and>
   n = allowed + length (filter (\<lambda>(k, logit). kept json tz lo c (of_nat k) logit) (List.enumerate i logits))"
proof (induction logits arbitrary: allowed i masked)
  case (Cons x xs)
  then obtain b where b: "token_admitted json tz c (of_nat i) = Ok b" by (auto split: if_splits outcome.splits)
  have k: "kept json tz lo c (of_nat i) x \<longleftrightarrow> b \<and> lo_is_finite lo x" using admitted_accepts [OF b] by (simp add: kept_def)
  show ?case
  proof (cases "b \<and> lo_is_finite lo x")
    case True
    then obtain rest where "mask_from json tz lo c (allowed + 1) (i + 1) xs = (Ok n, rest)" "masked = x # rest"
      using Cons.prems b by (cases "mask_from json tz lo c (allowed + 1) (i + 1) xs") (auto split: if_splits)
    then show ?thesis using Cons.IH [of "allowed + 1" "i + 1" rest] True k by simp
  next
    case False
    then obtain rest where "mask_from json tz lo c allowed (i + 1) xs = (Ok n, rest)" "masked = lo_neg_infinity lo # rest"
      using Cons.prems b by (cases "mask_from json tz lo c allowed (i + 1) xs") (auto split: if_splits)
    then show ?thesis using Cons.IH [of allowed "i + 1" rest] False k by simp
  qed
qed simp

text \<open>A run of accepted tokens, from the empty constraint.\<close>

fun accept_all ::
  "(u8 list \<Rightarrow> JsonVerdict) \<Rightarrow> 'e Tokenizer \<Rightarrow> u32 list \<Rightarrow> JsonObjectConstraint \<Rightarrow> (unit, 'e ConstraintError) outcome \<times> JsonObjectConstraint" where
  "accept_all json tz [] c = (Ok (), c)"
| "accept_all json tz (t # ts) c = try_st (constraint_accept json tz t c) (\<lambda>_ c. accept_all json tz ts c)"

text \<open>The bytes of the tokens other than end of sequence.\<close>

definition text_bytes :: "'e Tokenizer \<Rightarrow> u32 list \<Rightarrow> u8 list" where
  "text_bytes tz ts = concat (map (\<lambda>t. if Some t = tz_eos_token tz then [] else case tz_token_bytes tz t of Ok bs \<Rightarrow> bs | _ \<Rightarrow> []) ts)"

lemma accept_all_bytes:
  "accept_all json tz ts c = (Ok (), d) \<Longrightarrow> jc_bytes d = jc_bytes c @ text_bytes tz ts"
proof (induction ts arbitrary: c)
  case (Cons t ts)
  then obtain c' where "constraint_accept json tz t c = (Ok (), c')" "accept_all json tz ts c' = (Ok (), d)"
    by (auto simp: try_st_Ok_iff)
  then show ?case using Cons.IH [of c']
    by (cases "tz_token_bytes tz t") (auto simp: constraint_accept_def text_bytes_def split: if_splits)
qed (simp add: text_bytes_def)

lemma accept_all_prefix:
  "accept_all json tz ts c = (Ok (), d) \<Longrightarrow> valid_object_prefix json (jc_bytes c) \<Longrightarrow> valid_object_prefix json (jc_bytes d)"
proof (induction ts arbitrary: c)
  case (Cons t ts)
  then obtain c' where c': "constraint_accept json tz t c = (Ok (), c')" "accept_all json tz ts c' = (Ok (), d)"
    by (auto simp: try_st_Ok_iff)
  have "valid_object_prefix json (jc_bytes c')" using c'(1) Cons.prems(2)
    by (cases "tz_token_bytes tz t") (auto simp: constraint_accept_def allows_bytes_def split: if_splits)
  then show ?case using Cons.IH c'(2) by blast
qed simp

lemma accept_all_append:
  "accept_all json tz (ts @ us) c = try_st (accept_all json tz ts c) (\<lambda>_ c. accept_all json tz us c)"
  by (induction ts arbitrary: c) (auto simp: try_st_cases split: prod.splits outcome.splits)

section \<open>The properties\<close>

lemma valid_object_prefix_cases:
  assumes "valid_object_prefix json bytes"
  shows "set bytes \<subseteq> {0x20, 0x09, 0x0A, 0x0C, 0x0D} \<or>
    (\<exists>blank rest. bytes = blank @ 0x7B # rest \<and> set blank \<subseteq> {0x20, 0x09, 0x0A, 0x0C, 0x0D} \<and> json bytes \<in> {JsonObject, JsonEof})"
proof (cases "List.find (\<lambda>b. \<not> is_ascii_whitespace b) bytes")
  case None
  then show ?thesis by (auto simp: find_None_iff is_ascii_whitespace_def)
next
  case (Some b)
  let ?blank = "takeWhile is_ascii_whitespace bytes" and ?rest = "dropWhile is_ascii_whitespace bytes"
  have "?rest = b # tl ?rest"
    using Some by (induction bytes) (auto split: if_splits)
  moreover have "b = 0x7B" "json bytes \<in> {JsonObject, JsonEof}"
    using assms Some by (auto simp: valid_object_prefix_def split: if_splits JsonVerdict.splits)
  moreover have "set ?blank \<subseteq> {0x20, 0x09, 0x0A, 0x0C, 0x0D}"
    by (auto dest!: set_takeWhileD simp: is_ascii_whitespace_def)
  ultimately show ?thesis by (metis takeWhile_dropWhile_id)
qed

text \<open>C31: The mask keeps exactly the tokens the constraint would then accept. After a mask that
  succeeds every logit is either unchanged, because accepting its token succeeds and it was
  finite, or negative infinity, and at least one is unchanged; a constraint that can accept no
  token is reported.\<close>

theorem mask_keeps_what_is_accepted:
  assumes "constraint_mask json tz lo c logits = (Ok (), masked)"
  shows "length masked = length logits \<and>
    (\<forall>k<length logits. masked ! k =
      (if fst (constraint_accept json tz (of_nat k) c) = Ok () \<and> lo_is_finite lo (logits ! k) then logits ! k else lo_neg_infinity lo)) \<and>
    (\<exists>k<length logits. fst (constraint_accept json tz (of_nat k) c) = Ok () \<and> lo_is_finite lo (logits ! k))"
proof -
  obtain n where m: "mask_from json tz lo c 0 0 logits = (Ok n, masked)" "n \<noteq> 0"
    using assms by (auto simp: constraint_mask_def try_st_Ok_iff split: if_splits)
  note f = mask_from_Ok [OF m(1)]
  have "\<exists>x\<in>set (List.enumerate 0 logits). kept json tz lo c (of_nat (fst x)) (snd x)"
    using f m(2) by (auto simp: filter_empty_conv case_prod_beta)
  then have "\<exists>k<length logits. kept json tz lo c (of_nat k) (logits ! k)" by (auto simp: in_set_enumerate_eq)
  then show ?thesis using f by (auto simp: kept_def nth_enumerate_eq)
qed

text \<open>C32: What a constrained session writes can only become a JSON object. When every token of a
  run is accepted from the empty constraint, the bytes of the tokens are whitespace in the
  constraint's sense (space, tab, line feed, form feed, carriage return; the parser may refuse
  these), or after such whitespace they open a brace and the parser has found a whole object or
  only the end of the input. If end of sequence is accepted after them, they are one complete
  JSON object.\<close>

theorem constrained_output_is_an_object:
  assumes "accept_all json tz ts constraint_new = (Ok (), c)"
  shows "(set (text_bytes tz ts) \<subseteq> {0x20, 0x09, 0x0A, 0x0C, 0x0D} \<or>
      (\<exists>blank rest. text_bytes tz ts = blank @ 0x7B # rest \<and> set blank \<subseteq> {0x20, 0x09, 0x0A, 0x0C, 0x0D} \<and>
        json (text_bytes tz ts) \<in> {JsonObject, JsonEof})) \<and>
    (tz_eos_token tz = Some eos \<longrightarrow> fst (accept_all json tz (ts @ [eos]) constraint_new) = Ok () \<longrightarrow> json (text_bytes tz ts) = JsonObject)"
proof -
  have "valid_object_prefix json []" by (simp add: valid_object_prefix_def)
  then have "valid_object_prefix json (jc_bytes c)" using accept_all_prefix [OF assms] by (simp add: constraint_new_def)
  moreover have bytes: "jc_bytes c = text_bytes tz ts" using accept_all_bytes [OF assms] by (simp add: constraint_new_def)
  ultimately have valid: "valid_object_prefix json (text_bytes tz ts)" by simp
  show ?thesis
  proof (intro conjI impI)
    show "set (text_bytes tz ts) \<subseteq> {0x20, 0x09, 0x0A, 0x0C, 0x0D} \<or>
      (\<exists>blank rest. text_bytes tz ts = blank @ 0x7B # rest \<and> set blank \<subseteq> {0x20, 0x09, 0x0A, 0x0C, 0x0D} \<and>
        json (text_bytes tz ts) \<in> {JsonObject, JsonEof})"
      by (rule valid_object_prefix_cases [OF valid])
    assume "tz_eos_token tz = Some eos" "fst (accept_all json tz (ts @ [eos]) constraint_new) = Ok ()"
    then show "json (text_bytes tz ts) = JsonObject"
      using assms bytes by (auto simp: accept_all_append constraint_accept_def is_complete_def try_st_cases split: if_splits)
  qed
qed

section \<open>A witness\<close>

text \<open>Two tokens, an opening and a closing brace, and a parser that knows only these.\<close>

definition brace_tokens :: "unit Tokenizer" where
  "brace_tokens = \<lparr>tz_eos_token = Some 2, tz_token_bytes = (\<lambda>t. if t = 0 then Ok [0x7B] else if t = 1 then Ok [0x7D] else Err ())\<rparr>"

definition brace_json :: "u8 list \<Rightarrow> JsonVerdict" where
  "brace_json bs = (if bs = [0x7B, 0x7D] then JsonObject else if bs = [] \<or> bs = [0x7B] then JsonEof else JsonInvalid)"

definition int_logits :: "int LogitOps" where
  "int_logits = \<lparr>lo_is_finite = (\<lambda>x. x \<noteq> -100), lo_neg_infinity = -100\<rparr>"

lemmas brace_eval = constraint_mask_def constraint_accept_def token_admitted_def allows_bytes_def valid_object_prefix_def
  is_complete_def is_ascii_whitespace_def brace_tokens_def brace_json_def int_logits_def constraint_new_def

theorem mask_keeps_what_is_accepted_witness:
  "constraint_mask brace_json brace_tokens int_logits \<lparr>jc_bytes = [0x7B]\<rparr> [5, 7, 9] = (Ok (), [-100, 7, -100]) \<and>
   fst (constraint_accept brace_json brace_tokens 0 \<lparr>jc_bytes = [0x7B]\<rparr>) \<noteq> Ok ()"
proof -
  have m: "constraint_mask brace_json brace_tokens int_logits \<lparr>jc_bytes = [0x7B]\<rparr> [5, 7, 9] = (Ok (), [-100, 7, -100])"
    by (simp add: brace_eval)
  then show ?thesis using mask_keeps_what_is_accepted [OF m] by (auto simp: int_logits_def dest: spec [of _ 0])
qed

theorem constrained_output_is_an_object_witness:
  "brace_json (text_bytes brace_tokens [0, 1]) = JsonObject"
proof -
  have a: "accept_all brace_json brace_tokens [0, 1] constraint_new = (Ok (), \<lparr>jc_bytes = [0x7B, 0x7D]\<rparr>)"
    by (simp add: brace_eval)
  have "fst (accept_all brace_json brace_tokens ([0, 1] @ [2]) constraint_new) = Ok ()" by (simp add: brace_eval)
  then show ?thesis using constrained_output_is_an_object [OF a, of 2] by (simp add: brace_tokens_def)
qed


text \<open>C33: A form feed is a trap. The parser accepts no text that begins with a form feed (it is not
  JSON whitespace), yet the constraint accepts a token that is one, since it counts as ASCII
  whitespace. From then on only whitespace is ever accepted and the object is never complete.\<close>

theorem form_feed_is_a_trap:
  assumes "\<And>bs. json (0x0C # bs) = JsonInvalid" and "tz_token_bytes tz t = Ok [0x0C]" and "tz_eos_token tz \<noteq> Some t"
  shows "fst (constraint_accept json tz t constraint_new) = Ok () \<and>
    (accept_all json tz (t # ts) constraint_new = (Ok (), c) \<longrightarrow>
      \<not> is_complete json c \<and> list_all is_ascii_whitespace (jc_bytes c))"
proof (intro conjI impI)
  show "fst (constraint_accept json tz t constraint_new) = Ok ()"
    using assms(2,3) by (auto simp: constraint_accept_def allows_bytes_def valid_object_prefix_def constraint_new_def is_ascii_whitespace_def)
next
  assume a: "accept_all json tz (t # ts) constraint_new = (Ok (), c)"
  have c: "jc_bytes c = 0x0C # text_bytes tz ts"
    using accept_all_bytes [OF a] assms(2,3) by (auto simp: constraint_new_def text_bytes_def)
  then show "\<not> is_complete json c" using assms(1) by (simp add: is_complete_def)
  have "valid_object_prefix json []" by (simp add: valid_object_prefix_def)
  then have "valid_object_prefix json (jc_bytes c)" using accept_all_prefix [OF a] by (simp add: constraint_new_def)
  then show "list_all is_ascii_whitespace (jc_bytes c)"
    using assms(1) c by (auto simp: valid_object_prefix_def find_None_iff list_all_iff split: option.splits if_splits)
qed

definition feed_tokens :: "unit Tokenizer" where
  "feed_tokens = \<lparr>tz_eos_token = None, tz_token_bytes = (\<lambda>t. if t = 0 then Ok [0x0C] else Ok [0x7B])\<rparr>"

theorem form_feed_is_a_trap_witness:
  "fst (constraint_accept (\<lambda>bs. if bs = [0x7B] then JsonEof else JsonInvalid) feed_tokens 0 constraint_new) = Ok () \<and>
   fst (constraint_accept (\<lambda>bs. if bs = [0x7B] then JsonEof else JsonInvalid) feed_tokens 1 \<lparr>jc_bytes = [0x0C]\<rparr>) = Err InvalidTransition"
  using form_feed_is_a_trap [of "\<lambda>bs. if bs = [0x7B] then JsonEof else JsonInvalid" feed_tokens 0]
  by (simp add: feed_tokens_def brace_eval)

end
