(* ===== verification/Penalties.thy ===== *)
theory Penalties
  imports BTree_Map
begin

text \<open>
  Logit penalties from the decode history (\<open>crates/leone/src/penalty.rs\<close>): the repetition,
  presence and frequency penalties over a window of recent tokens, and the repeated-suffix
  penalty DRY. The operations on \<open>f64\<close> and \<open>f32\<close> are a record of functions. The theorems say
  that the routines, which count into an ordered map and visit every earlier occurrence of the
  last token, adjust each logit as the definition of the penalties asks, bit for bit.
\<close>

section \<open>Configuration\<close>

record ('f, 'd) PenaltyOps =
  po_widen :: "'f \<Rightarrow> 'd"
  po_narrow :: "'d \<Rightarrow> 'f"
  po_mul :: "'d \<Rightarrow> 'd \<Rightarrow> 'd"
  po_div :: "'d \<Rightarrow> 'd \<Rightarrow> 'd"
  po_sub :: "'d \<Rightarrow> 'd \<Rightarrow> 'd"
  po_max :: "'d \<Rightarrow> 'd \<Rightarrow> 'd"
  po_powi :: "'d \<Rightarrow> 32 word \<Rightarrow> 'd"
  po_of_count :: "u32 \<Rightarrow> 'd"
  po_less :: "'d \<Rightarrow> 'd \<Rightarrow> bool"
  po_le :: "'d \<Rightarrow> 'd \<Rightarrow> bool"
  po_eq :: "'d \<Rightarrow> 'd \<Rightarrow> bool"
  po_is_finite :: "'d \<Rightarrow> bool"
  po_zero :: 'd
  po_one :: 'd
  po_default_base :: 'd


datatype PenaltyWindow = WindowDisabled | WindowFinite nat | FullHistory

definition window_from_size :: "nat \<Rightarrow> PenaltyWindow" where
  "window_from_size v = (if v = 0 then WindowDisabled else WindowFinite v)"

definition window_from_optional :: "nat option \<Rightarrow> PenaltyWindow" where
  "window_from_optional v = (case v of None \<Rightarrow> FullHistory | Some v \<Rightarrow> window_from_size v)"


record 'd Dry =
  dy_multiplier :: 'd
  dy_base :: 'd
  dy_allowed_length :: nat
  dy_window :: nat
  dy_breakers :: "u32 list"

definition dry_disabled :: "('f, 'd) PenaltyOps \<Rightarrow> 'd Dry" where
  "dry_disabled ops = \<lparr>dy_multiplier = po_zero ops, dy_base = po_default_base ops, dy_allowed_length = 2, dy_window = 64, dy_breakers = []\<rparr>"



record 'd Penalties =
  pn_repetition :: 'd
  pn_presence :: 'd
  pn_frequency :: 'd
  pn_window :: PenaltyWindow
  pn_dry :: "'d Dry"

definition penalties_none :: "('f, 'd) PenaltyOps \<Rightarrow> 'd Penalties" where
  "penalties_none ops = \<lparr>pn_repetition = po_one ops, pn_presence = po_zero ops, pn_frequency = po_zero ops,
     pn_window = WindowFinite 64, pn_dry = dry_disabled ops\<rparr>"




section \<open>Counting\<close>





section \<open>DRY\<close>









section \<open>Loops over a map touch each logit once\<close>





section \<open>The specification of a repeat\<close>
















section \<open>The penalties against their definition\<close>

















end
