(* ===== verification/Sampler.thy ===== *)
theory Sampler
  imports Rust_Base
begin

text \<open>
  The samplers of \<open>crates/leone/src/sampler.rs\<close>: the counter-based random stream, Mirostat, the
  truncation pipeline that turns a row of logits into a distribution, the draw of a token, and the
  verification of a drafted token. The operations on \<open>f32\<close> (type \<open>'f\<close>) and \<open>f64\<close> (type \<open>'d\<close>) are
  a record of functions; a comparison \<open>a >= b\<close> is \<open>b <= a\<close>, which agrees with it on every pair of
  floats. A slot or a position is a \<open>nat\<close>; an index out of range is a panic.
\<close>

unbundle bit_operations_syntax

section \<open>Floating point\<close>

record ('f, 'd) SampleFloat =
  fl_widen :: "'f \<Rightarrow> 'd"
  fl_row_finite :: "'f \<Rightarrow> bool"
  fl_row_le :: "'f \<Rightarrow> 'f \<Rightarrow> bool"
  fl_add :: "'d \<Rightarrow> 'd \<Rightarrow> 'd"
  fl_sub :: "'d \<Rightarrow> 'd \<Rightarrow> 'd"
  fl_mul :: "'d \<Rightarrow> 'd \<Rightarrow> 'd"
  fl_div :: "'d \<Rightarrow> 'd \<Rightarrow> 'd"
  fl_neg :: "'d \<Rightarrow> 'd"
  fl_abs :: "'d \<Rightarrow> 'd"
  fl_max :: "'d \<Rightarrow> 'd \<Rightarrow> 'd"
  fl_min :: "'d \<Rightarrow> 'd \<Rightarrow> 'd"
  fl_ln :: "'d \<Rightarrow> 'd"
  fl_exp :: "'d \<Rightarrow> 'd"
  fl_sqrt :: "'d \<Rightarrow> 'd"
  fl_floor :: "'d \<Rightarrow> 'd"
  fl_less :: "'d \<Rightarrow> 'd \<Rightarrow> bool"
  fl_le :: "'d \<Rightarrow> 'd \<Rightarrow> bool"
  fl_eq :: "'d \<Rightarrow> 'd \<Rightarrow> bool"
  fl_total_cmp :: "'d \<Rightarrow> 'd \<Rightarrow> ordering"
  fl_is_finite :: "'d \<Rightarrow> bool"
  fl_of_nat :: "nat \<Rightarrow> 'd"
  fl_to_nat :: "'d \<Rightarrow> nat"
  fl_zero :: 'd
  fl_sum_start :: 'd
  fl_half :: 'd
  fl_one :: 'd
  fl_two :: 'd
  fl_tiny :: 'd
  fl_epsilon :: 'd
  fl_neg_infinity :: 'd

text \<open>\<open>iter().sum()\<close> starts from the library's neutral element, the loops from \<open>0.0\<close>.\<close>

definition fl_sum :: "('f, 'd) SampleFloat \<Rightarrow> 'd list \<Rightarrow> 'd" where
  "fl_sum ops vs = foldl (fl_add ops) (fl_sum_start ops) vs"

definition fl_accumulate :: "('f, 'd) SampleFloat \<Rightarrow> 'd list \<Rightarrow> 'd" where
  "fl_accumulate ops vs = foldl (fl_add ops) (fl_zero ops) vs"

datatype SamplerError =
    EmptyRow
  | RowMismatch nat nat
  | TokenOutOfRange u32 nat
  | TemperatureError
  | TruncationError string
  | AllNaN
  | InvalidDistribution
  | MirostatTargetError
  | MirostatStateError
  | MirostatLearningRateError

datatype 'd Temperature = Greedy | Scaled 'd

section \<open>The random stream\<close>

datatype Draw = DrawAccept | DrawSelect | DrawDraft

definition splitmix64 :: "u64 \<Rightarrow> u64" where
  "splitmix64 v =
     (let z = v + 0x9e3779b97f4a7c15;
          z = (z XOR (drop_bit 30 z)) * 0xbf58476d1ce4e5b9;
          z = (z XOR (drop_bit 27 z)) * 0x94d049bb133111eb in
      z XOR (drop_bit 31 z))"

fun draw_purpose :: "Draw \<Rightarrow> u64" where
  "draw_purpose DrawAccept = 0x9e3779b97f4a7c15"
| "draw_purpose DrawSelect = 0xbf58476d1ce4e5b9"
| "draw_purpose DrawDraft = 0x94d049bb133111eb"

definition mixed_word :: "u64 \<Rightarrow> u64 \<Rightarrow> Draw \<Rightarrow> u64" where
  "mixed_word seed position draw = splitmix64 (seed XOR splitmix64 (position XOR draw_purpose draw))"

definition uniform :: "('f, 'd) SampleFloat \<Rightarrow> u64 \<Rightarrow> u64 \<Rightarrow> Draw \<Rightarrow> 'd" where
  "uniform ops seed position draw =
     fl_mul ops (fl_of_nat ops (unat (drop_bit 11 (mixed_word seed position draw))))
       (fl_div ops (fl_one ops) (fl_of_nat ops (2 ^ 53)))"

section \<open>Truncations and samplers\<close>

datatype 'd Truncation =
    TopK nat
  | TopP 'd
  | MinP 'd
  | TopA 'd
  | TailFree 'd
  | Typical 'd
  | Epsilon 'd
  | Eta 'd
  | MinK 'd
  | TopNSigma 'd

fun truncation_name :: "'d Truncation \<Rightarrow> string" where
  "truncation_name (TopK v) = ''top-k''"
| "truncation_name (TopP v) = ''top-p''"
| "truncation_name (MinP v) = ''min-p''"
| "truncation_name (TopA v) = ''top-a''"
| "truncation_name (TailFree v) = ''tail-free''"
| "truncation_name (Typical v) = ''typical''"
| "truncation_name (Epsilon v) = ''epsilon''"
| "truncation_name (Eta v) = ''eta''"
| "truncation_name (MinK v) = ''min-k''"
| "truncation_name (TopNSigma v) = ''top-n-sigma''"

definition in_unit_interval :: "('f, 'd) SampleFloat \<Rightarrow> 'd \<Rightarrow> bool" where
  "in_unit_interval ops v \<longleftrightarrow> fl_is_finite ops v \<and> fl_less ops (fl_zero ops) v \<and> fl_le ops v (fl_one ops)"

definition not_negative :: "('f, 'd) SampleFloat \<Rightarrow> 'd \<Rightarrow> bool" where
  "not_negative ops v \<longleftrightarrow> fl_is_finite ops v \<and> fl_le ops (fl_zero ops) v"

definition truncation_validate :: "('f, 'd) SampleFloat \<Rightarrow> 'd Truncation \<Rightarrow> (unit, SamplerError) outcome" where
  "truncation_validate ops t =
     (case t of
        TopK n \<Rightarrow> Ok ()
      | MinK v \<Rightarrow> if not_negative ops v then Ok () else Err (TruncationError (truncation_name t))
      | TopNSigma v \<Rightarrow> if not_negative ops v then Ok () else Err (TruncationError (truncation_name t))
      | TopP v \<Rightarrow> if in_unit_interval ops v then Ok () else Err (TruncationError (truncation_name t))
      | MinP v \<Rightarrow> if in_unit_interval ops v then Ok () else Err (TruncationError (truncation_name t))
      | TopA v \<Rightarrow> if in_unit_interval ops v then Ok () else Err (TruncationError (truncation_name t))
      | TailFree v \<Rightarrow> if in_unit_interval ops v then Ok () else Err (TruncationError (truncation_name t))
      | Typical v \<Rightarrow> if in_unit_interval ops v then Ok () else Err (TruncationError (truncation_name t))
      | Epsilon v \<Rightarrow> if in_unit_interval ops v then Ok () else Err (TruncationError (truncation_name t))
      | Eta v \<Rightarrow> if in_unit_interval ops v then Ok () else Err (TruncationError (truncation_name t)))"

record 'd Sampler =
  sm_temperature :: "'d Temperature"
  sm_truncations :: "'d Truncation list"

definition sampler_greedy :: "'d Sampler" where
  "sampler_greedy = \<lparr>sm_temperature = Greedy, sm_truncations = []\<rparr>"

definition sampler_temperature :: "'d \<Rightarrow> 'd Sampler" where
  "sampler_temperature v = \<lparr>sm_temperature = Scaled v, sm_truncations = []\<rparr>"

definition sampler_then :: "'d Sampler \<Rightarrow> 'd Truncation \<Rightarrow> 'd Sampler" where
  "sampler_then s t = s\<lparr>sm_truncations := sm_truncations s @ [t]\<rparr>"

fun validate_truncations :: "('f, 'd) SampleFloat \<Rightarrow> 'd Truncation list \<Rightarrow> (unit, SamplerError) outcome" where
  "validate_truncations ops [] = Ok ()"
| "validate_truncations ops (t # ts) = and_then (truncation_validate ops t) (\<lambda>_. validate_truncations ops ts)"

definition sampler_validate :: "('f, 'd) SampleFloat \<Rightarrow> 'd Sampler \<Rightarrow> (unit, SamplerError) outcome" where
  "sampler_validate ops s =
     and_then (case sm_temperature s of
         Greedy \<Rightarrow> Ok ()
       | Scaled v \<Rightarrow> if \<not> fl_is_finite ops v \<or> fl_le ops v (fl_zero ops) then Err TemperatureError else Ok ()) (\<lambda>_.
     validate_truncations ops (sm_truncations s))"

section \<open>Distributions\<close>

record 'd Distribution =
  ds_probabilities :: "'d list"

definition from_probabilities :: "('f, 'd) SampleFloat \<Rightarrow> 'd list \<Rightarrow> ('d Distribution, SamplerError) outcome" where
  "from_probabilities ops probabilities =
     (if probabilities = [] \<or> list_ex (\<lambda>v. \<not> fl_is_finite ops v \<or> fl_less ops v (fl_zero ops)) probabilities
      then Err InvalidDistribution
      else
        let sum = fl_sum ops probabilities in
        if \<not> fl_is_finite ops sum \<or> fl_le ops sum (fl_zero ops) then Err InvalidDistribution
        else Ok \<lparr>ds_probabilities = map (\<lambda>p. fl_div ops p sum) probabilities\<rparr>)"

definition probability :: "'d Distribution \<Rightarrow> u32 \<Rightarrow> ('d, SamplerError) outcome" where
  "probability d token =
     (if unat token < length (ds_probabilities d) then Ok (ds_probabilities d ! unat token)
      else Err (TokenOutOfRange token (length (ds_probabilities d))))"

text \<open>The scan of \<open>select_with\<close>: the index of the next entry, the sum so far, the last eligible index.\<close>

fun select_from :: "('f, 'd) SampleFloat \<Rightarrow> 'd \<Rightarrow> nat \<Rightarrow> 'd \<Rightarrow> nat option \<Rightarrow> 'd list \<Rightarrow> nat option" where
  "select_from ops u i cumulative last_eligible [] = last_eligible"
| "select_from ops u i cumulative last_eligible (p # ps) =
     (if fl_le ops p (fl_zero ops) then select_from ops u (i + 1) cumulative last_eligible ps
      else
        let cumulative = fl_add ops cumulative p in
        if fl_less ops u cumulative then Some i else select_from ops u (i + 1) cumulative (Some i) ps)"

definition select_with :: "('f, 'd) SampleFloat \<Rightarrow> 'd Distribution \<Rightarrow> 'd \<Rightarrow> (u32, SamplerError) outcome" where
  "select_with ops d u =
     ok_or (map_option of_nat (select_from ops u 0 (fl_zero ops) None (ds_probabilities d))) AllNaN"

definition select :: "('f, 'd) SampleFloat \<Rightarrow> 'd Distribution \<Rightarrow> u64 \<Rightarrow> u64 \<Rightarrow> (u32, SamplerError) outcome" where
  "select ops d seed position = select_with ops d (uniform ops seed position DrawSelect)"

definition select_draft :: "('f, 'd) SampleFloat \<Rightarrow> 'd Distribution \<Rightarrow> u64 \<Rightarrow> u64 \<Rightarrow> (u32, SamplerError) outcome" where
  "select_draft ops d seed position = select_with ops d (uniform ops seed position DrawDraft)"

definition total_variation :: "('f, 'd) SampleFloat \<Rightarrow> 'd Distribution \<Rightarrow> 'd Distribution \<Rightarrow> ('d, SamplerError) outcome" where
  "total_variation ops left right =
     (if length (ds_probabilities left) \<noteq> length (ds_probabilities right)
      then Err (RowMismatch (length (ds_probabilities left)) (length (ds_probabilities right)))
      else Ok (fl_mul ops (fl_half ops)
        (fl_sum ops (map2 (\<lambda>l r. fl_abs ops (fl_sub ops l r)) (ds_probabilities left) (ds_probabilities right)))))"

section \<open>Speculative verification\<close>

datatype Verdict = Accept | Reject u32

definition correction_residual ::
  "('f, 'd) SampleFloat \<Rightarrow> 'd Distribution \<Rightarrow> 'd Distribution \<Rightarrow> ('d Distribution, SamplerError) outcome" where
  "correction_residual ops target draft =
     (if length (ds_probabilities target) \<noteq> length (ds_probabilities draft)
      then Err (RowMismatch (length (ds_probabilities target)) (length (ds_probabilities draft)))
      else
        let probabilities = map2 (\<lambda>l r. fl_max ops (fl_sub ops l r) (fl_zero ops)) (ds_probabilities target) (ds_probabilities draft);
            sum = fl_accumulate ops probabilities in
        if fl_le ops sum (fl_zero ops) \<or> \<not> fl_is_finite ops sum then Ok target
        else Ok \<lparr>ds_probabilities = map (\<lambda>p. fl_div ops p sum) probabilities\<rparr>)"

text \<open>\<open>verify\<close> draws its two uniform values from the stream; \<open>verify_with\<close> is its body given them.\<close>

definition verify_with ::
  "('f, 'd) SampleFloat \<Rightarrow> 'd Distribution \<Rightarrow> 'd Distribution \<Rightarrow> u32 \<Rightarrow> 'd \<Rightarrow> 'd \<Rightarrow> (Verdict, SamplerError) outcome" where
  "verify_with ops target draft drafted accept_draw select_draw =
     (if length (ds_probabilities target) \<noteq> length (ds_probabilities draft)
      then Err (RowMismatch (length (ds_probabilities target)) (length (ds_probabilities draft)))
      else
        and_then (probability target drafted) (\<lambda>target_probability.
        and_then (probability draft drafted) (\<lambda>draft_probability.
        let accepted =
          (if fl_less ops (fl_zero ops) draft_probability then
             (let ratio = fl_div ops target_probability draft_probability in
              fl_le ops (fl_one ops) ratio \<or> fl_less ops accept_draw ratio)
           else False) in
        if accepted then Ok Accept
        else
          and_then (correction_residual ops target draft) (\<lambda>residual.
          and_then (select_with ops residual select_draw) (\<lambda>token. Ok (Reject token))))))"

definition verify ::
  "('f, 'd) SampleFloat \<Rightarrow> 'd Distribution \<Rightarrow> 'd Distribution \<Rightarrow> u32 \<Rightarrow> u64 \<Rightarrow> u64 \<Rightarrow> (Verdict, SamplerError) outcome" where
  "verify ops target draft drafted seed position =
     verify_with ops target draft drafted (uniform ops seed position DrawAccept) (uniform ops seed position DrawSelect)"

section \<open>Mirostat\<close>

record 'd MirostatConfig =
  mc_target_surprise :: 'd
  mc_learning_rate :: 'd

definition mirostat_config_new :: "('f, 'd) SampleFloat \<Rightarrow> 'd \<Rightarrow> 'd \<Rightarrow> ('d MirostatConfig, SamplerError) outcome" where
  "mirostat_config_new ops target_surprise learning_rate =
     (if \<not> fl_is_finite ops target_surprise \<or> fl_le ops target_surprise (fl_zero ops) then Err MirostatTargetError
      else if \<not> fl_is_finite ops learning_rate \<or> fl_le ops learning_rate (fl_zero ops) \<or> fl_less ops (fl_one ops) learning_rate
      then Err MirostatLearningRateError
      else Ok \<lparr>mc_target_surprise = target_surprise, mc_learning_rate = learning_rate\<rparr>)"

record 'd MirostatState =
  mr_config :: "'d MirostatConfig"
  mr_maximum_surprise :: 'd

definition mirostat_new :: "('f, 'd) SampleFloat \<Rightarrow> 'd MirostatConfig \<Rightarrow> 'd MirostatState" where
  "mirostat_new ops config = \<lparr>mr_config = config, mr_maximum_surprise = fl_mul ops (fl_two ops) (mc_target_surprise config)\<rparr>"

definition mirostat_from_parts :: "('f, 'd) SampleFloat \<Rightarrow> 'd MirostatConfig \<Rightarrow> 'd \<Rightarrow> ('d MirostatState, SamplerError) outcome" where
  "mirostat_from_parts ops config maximum_surprise =
     (if \<not> fl_is_finite ops maximum_surprise \<or> fl_le ops maximum_surprise (fl_zero ops) then Err MirostatStateError
      else Ok \<lparr>mr_config = config, mr_maximum_surprise = maximum_surprise\<rparr>)"

text \<open>The loop over the source row: the candidates' probabilities, the most probable token, the sum.\<close>

definition mirostat_candidate ::
  "('f, 'd) SampleFloat \<Rightarrow> 'd MirostatState \<Rightarrow> 'd list \<times> (nat \<times> 'd) option \<times> 'd \<Rightarrow> nat \<times> 'd \<Rightarrow> 'd list \<times> (nat \<times> 'd) option \<times> 'd" where
  "mirostat_candidate ops st acc entry =
     (let (probabilities, highest, sum) = acc; (token, p) = entry in
      if fl_le ops p (fl_zero ops) then acc
      else
        let highest = (if (case highest of Some (t, best) \<Rightarrow> fl_less ops best p | None \<Rightarrow> True) then Some (token, p) else highest) in
        if fl_le ops (fl_neg ops (fl_ln ops p)) (mr_maximum_surprise st)
        then (probabilities[token := p], highest, fl_add ops sum p)
        else (probabilities, highest, sum))"

definition mirostat_candidates ::
  "('f, 'd) SampleFloat \<Rightarrow> 'd MirostatState \<Rightarrow> 'd list \<Rightarrow> 'd list \<times> (nat \<times> 'd) option \<times> 'd" where
  "mirostat_candidates ops st src =
     foldl (mirostat_candidate ops st) (replicate (length src) (fl_zero ops), None, fl_zero ops) (enumerate 0 src)"

definition mirostat_select ::
  "('f, 'd) SampleFloat \<Rightarrow> 'd Distribution \<Rightarrow> u64 \<Rightarrow> u64 \<Rightarrow> 'd MirostatState \<Rightarrow> (u32, SamplerError) outcome \<times> 'd MirostatState" where
  "mirostat_select ops target seed position st =
     (if ds_probabilities target = [] then (Err EmptyRow, st)
      else
        let (probabilities, highest, sum) = mirostat_candidates ops st (ds_probabilities target) in
        try_pure (if fl_eq ops sum (fl_zero ops)
            then and_then (ok_or highest AllNaN) (\<lambda>(token, p). Ok (probabilities[token := p], p))
            else Ok (probabilities, sum)) st (\<lambda>(probabilities, sum).
        try_pure (select ops \<lparr>ds_probabilities = map (\<lambda>p. fl_div ops p sum) probabilities\<rparr> seed position) st (\<lambda>token.
        try_pure (probability target token) st (\<lambda>p.
        let observed = fl_neg ops (fl_ln ops p);
            maximum = fl_sub ops (mr_maximum_surprise st)
              (fl_mul ops (mc_learning_rate (mr_config st)) (fl_sub ops observed (mc_target_surprise (mr_config st)))) in
        (Ok token, st\<lparr>mr_maximum_surprise := fl_max ops maximum (fl_epsilon ops)\<rparr>)))))"

end
