(* ===== verification/Sampler_Pipeline.thy ===== *)
theory Sampler_Pipeline
  imports Sampler
begin

text \<open>
  The truncation pipeline of \<open>crates/leone/src/sampler.rs\<close>: a row of logits and a sampler give a
  distribution. A pipeline works on the slots of the finite logits in descending order
  (\<open>order\<close>) and on their normalised weights (\<open>kept\<close>), two lists of the same length.
\<close>

section \<open>The row\<close>

fun argmax_from :: "('f, 'd) SampleFloat \<Rightarrow> nat \<Rightarrow> (nat \<times> 'f) option \<Rightarrow> 'f list \<Rightarrow> (nat \<times> 'f) option" where
  "argmax_from ops i best [] = best"
| "argmax_from ops i best (v # vs) =
     (if \<not> fl_row_finite ops v then argmax_from ops (i + 1) best vs
      else
        argmax_from ops (i + 1)
          (case best of Some (j, current) \<Rightarrow> if fl_row_le ops v current then best else Some (i, v) | None \<Rightarrow> Some (i, v)) vs)"

definition argmax :: "('f, 'd) SampleFloat \<Rightarrow> 'f list \<Rightarrow> nat option" where
  "argmax ops logits = map_option fst (argmax_from ops 0 None logits)"

definition greedy_distribution :: "('f, 'd) SampleFloat \<Rightarrow> 'f list \<Rightarrow> 'd Temperature \<Rightarrow> ('d list option, SamplerError) outcome" where
  "greedy_distribution ops logits temperature =
     (case temperature of
        Scaled v \<Rightarrow> Ok None
      | Greedy \<Rightarrow>
          and_then (ok_or (argmax ops logits) AllNaN) (\<lambda>best.
          Ok (Some ((replicate (length logits) (fl_zero ops))[best := fl_one ops]))))"

fun scaled_temperature :: "'d Temperature \<Rightarrow> ('d, SamplerError) outcome" where
  "scaled_temperature (Scaled v) = Ok v"
| "scaled_temperature Greedy = Panic"

text \<open>\<open>f64::from(logits[i])\<close>, at indices of the row.\<close>

definition wide_logit :: "('f, 'd) SampleFloat \<Rightarrow> 'f list \<Rightarrow> nat \<Rightarrow> 'd" where
  "wide_logit ops logits i = fl_widen ops (logits ! i)"

definition compare_logits :: "('f, 'd) SampleFloat \<Rightarrow> 'f list \<Rightarrow> nat \<Rightarrow> nat \<Rightarrow> ordering" where
  "compare_logits ops logits left right =
     then_with (fl_total_cmp ops (wide_logit ops logits right) (wide_logit ops logits left)) (cmp left right)"

definition scaled_distribution :: "('f, 'd) SampleFloat \<Rightarrow> 'f list \<Rightarrow> 'd \<Rightarrow> (nat list \<times> 'd list, SamplerError) outcome" where
  "scaled_distribution ops logits temperature =
     (let order = filter (\<lambda>i. fl_row_finite ops (logits ! i)) [0..<length logits] in
      if order = [] then Err AllNaN
      else
        let order = sort_by (compare_logits ops logits) order;
            highest = fl_div ops (wide_logit ops logits (hd order)) temperature;
            kept = map (\<lambda>i. fl_exp ops (fl_sub ops (fl_div ops (wide_logit ops logits i) temperature) highest)) order;
            sum = fl_accumulate ops kept in
        if fl_le ops sum (fl_zero ops) \<or> \<not> fl_is_finite ops sum then Err AllNaN
        else Ok (order, map (\<lambda>w. fl_div ops w sum) kept))"

definition renormalize :: "('f, 'd) SampleFloat \<Rightarrow> 'd list \<Rightarrow> ('d list, SamplerError) outcome" where
  "renormalize ops kept =
     (let sum = fl_sum ops kept in
      if fl_le ops sum (fl_zero ops) \<or> \<not> fl_is_finite ops sum then Err AllNaN
      else Ok (map (\<lambda>v. fl_div ops v sum) kept))"

section \<open>Truncations of the raw logits\<close>

text \<open>The logits at the slots of \<open>order\<close>; a slot outside the row panics.\<close>

definition read_logits :: "('f, 'd) SampleFloat \<Rightarrow> 'f list \<Rightarrow> nat list \<Rightarrow> ('d list, SamplerError) outcome" where
  "read_logits ops logits order = collect_results (map (\<lambda>i. and_then (at_index logits i) (\<lambda>v. Ok (fl_widen ops v))) order)"

definition top_n_sigma_keep :: "('f, 'd) SampleFloat \<Rightarrow> 'f list \<Rightarrow> nat list \<Rightarrow> 'd \<Rightarrow> (nat, SamplerError) outcome" where
  "top_n_sigma_keep ops logits order sigmas =
     (if length order < 2 then Ok (length order)
      else
        and_then (read_logits ops logits order) (\<lambda>row.
        let slots = fl_of_nat ops (length order);
            mean = fl_div ops (fl_sum ops row) slots;
            variance = fl_div ops (fl_sum ops (map (\<lambda>v. let v = fl_sub ops v mean in fl_mul ops v v) row)) slots;
            deviation = fl_sqrt ops variance in
        if \<not> fl_is_finite ops deviation then Ok (length order)
        else
          let cut = fl_sub ops (hd row) (fl_mul ops sigmas deviation) in
          Ok (max (length (takeWhile (\<lambda>v. fl_le ops cut v) row)) 1)))"

text \<open>One rank of the loop of Min-k: the rank of the best weighted gap so far, and that gap.\<close>

definition min_k_rank :: "('f, 'd) SampleFloat \<Rightarrow> 'd list \<Rightarrow> 'd \<Rightarrow> nat \<Rightarrow> nat \<times> 'd \<Rightarrow> nat \<times> 'd" where
  "min_k_rank ops row spread rank acc =
     (let gap = fl_sub ops (row ! (rank - 1)) (row ! rank);
          weighted = fl_div ops (fl_div ops gap spread) (fl_of_nat ops rank) in
      if fl_less ops (snd acc) weighted then (rank, weighted) else acc)"

definition min_k_keep :: "('f, 'd) SampleFloat \<Rightarrow> 'f list \<Rightarrow> nat list \<Rightarrow> 'd \<Rightarrow> (nat, SamplerError) outcome" where
  "min_k_keep ops logits order tau =
     (if length order < 2 then Ok (length order)
      else
        and_then (read_logits ops logits order) (\<lambda>row.
        let spread = fl_add ops (fl_sub ops (hd row) (last row)) (fl_tiny ops) in
        if \<not> fl_is_finite ops spread \<or> fl_le ops spread (fl_zero ops) then Ok (length order)
        else
          let cliff = fst (fold (min_k_rank ops row spread) [1..<length order] (1, fl_neg_infinity ops));
              fallback = fl_floor ops (fl_div ops tau spread);
              fallback = (if fl_is_finite ops fallback \<and> fl_le ops (fl_zero ops) fallback
                then min (fl_to_nat ops fallback) (length order) else length order) in
          Ok (min (length order) (max 1 (max cliff fallback)))))"

fun raw_truncations ::
  "('f, 'd) SampleFloat \<Rightarrow> 'f list \<Rightarrow> 'd Truncation list \<Rightarrow> nat list \<times> 'd list \<Rightarrow> bool \<Rightarrow> ((nat list \<times> 'd list) \<times> bool, SamplerError) outcome" where
  "raw_truncations ops logits [] acc changed = Ok (acc, changed)"
| "raw_truncations ops logits (t # ts) acc changed =
     (let cut = (\<lambda>keep. raw_truncations ops logits ts (take (max keep 1) (fst acc), take (length (take (max keep 1) (fst acc))) (snd acc)) True) in
      case t of
        TopNSigma sigmas \<Rightarrow> and_then (top_n_sigma_keep ops logits (fst acc) sigmas) cut
      | MinK tau \<Rightarrow> and_then (min_k_keep ops logits (fst acc) tau) cut
      | _ \<Rightarrow> raw_truncations ops logits ts acc changed)"

definition apply_raw_truncations ::
  "('f, 'd) SampleFloat \<Rightarrow> 'f list \<Rightarrow> 'd Truncation list \<Rightarrow> nat list \<times> 'd list \<Rightarrow> (nat list \<times> 'd list, SamplerError) outcome" where
  "apply_raw_truncations ops logits truncations acc =
     and_then (raw_truncations ops logits truncations acc False) (\<lambda>((order, kept), changed).
     if changed then and_then (renormalize ops kept) (\<lambda>kept. Ok (order, kept)) else Ok (order, kept))"

section \<open>Truncations of the distribution\<close>

definition entropy :: "('f, 'd) SampleFloat \<Rightarrow> 'd list \<Rightarrow> 'd" where
  "entropy ops kept =
     fl_sum ops (map (\<lambda>v. fl_mul ops (fl_neg ops v) (fl_ln ops v)) (filter (\<lambda>v. fl_less ops (fl_zero ops) v) kept))"

definition threshold_keep :: "('f, 'd) SampleFloat \<Rightarrow> 'd list \<Rightarrow> 'd \<Rightarrow> nat" where
  "threshold_keep ops kept threshold = length (takeWhile (\<lambda>v. fl_le ops threshold v) kept)"

fun prefix_from :: "('f, 'd) SampleFloat \<Rightarrow> 'd \<Rightarrow> 'd \<Rightarrow> nat \<Rightarrow> 'd list \<Rightarrow> nat" where
  "prefix_from ops mass covered n [] = n"
| "prefix_from ops mass covered n (v # vs) =
     (let covered = fl_add ops covered v in if fl_le ops mass covered then n + 1 else prefix_from ops mass covered (n + 1) vs)"

definition prefix_reaching_mass :: "('f, 'd) SampleFloat \<Rightarrow> 'd list \<Rightarrow> 'd \<Rightarrow> nat" where
  "prefix_reaching_mass ops kept mass = prefix_from ops mass (fl_zero ops) 0 kept"

fun tail_from :: "('f, 'd) SampleFloat \<Rightarrow> 'd \<Rightarrow> 'd \<Rightarrow> 'd \<Rightarrow> nat \<Rightarrow> 'd list \<Rightarrow> nat" where
  "tail_from ops share whole covered keep [] = keep"
| "tail_from ops share whole covered keep (v # vs) =
     (let covered = fl_add ops covered (fl_div ops v whole) in
      if fl_le ops covered share then tail_from ops share whole covered (keep + 1) vs else keep)"

definition tail_free_keep :: "('f, 'd) SampleFloat \<Rightarrow> 'd list \<Rightarrow> 'd \<Rightarrow> nat" where
  "tail_free_keep ops kept share =
     (if length kept < 3 then length kept
      else
        let second = map (\<lambda>slot. fl_abs ops (fl_add ops (fl_sub ops (kept ! slot) (fl_mul ops (fl_two ops) (kept ! (slot + 1)))) (kept ! (slot + 2))))
              [0..<length kept - 2];
            sum = fl_accumulate ops second in
        if fl_le ops sum (fl_zero ops) \<or> \<not> fl_is_finite ops sum then length kept
        else tail_from ops share sum (fl_zero ops) 1 second)"

definition compare_scores :: "('f, 'd) SampleFloat \<Rightarrow> nat \<times> 'd \<Rightarrow> nat \<times> 'd \<Rightarrow> ordering" where
  "compare_scores ops left right = then_with (fl_total_cmp ops (snd left) (snd right)) (cmp (fst left) (fst right))"

fun cover_mass :: "('f, 'd) SampleFloat \<Rightarrow> 'd list \<Rightarrow> 'd \<Rightarrow> 'd \<Rightarrow> nat list \<Rightarrow> nat list" where
  "cover_mass ops kept mass covered [] = []"
| "cover_mass ops kept mass covered (slot # slots) =
     slot # (let covered = fl_add ops covered (kept ! slot) in if fl_le ops mass covered then [] else cover_mass ops kept mass covered slots)"

definition typical_select :: "('f, 'd) SampleFloat \<Rightarrow> 'd list \<Rightarrow> 'd \<Rightarrow> nat list" where
  "typical_select ops kept mass =
     (let target = entropy ops kept;
          scored = map (\<lambda>(slot, v). (slot, fl_abs ops (fl_sub ops (fl_neg ops (fl_ln ops v)) target))) (enumerate 0 kept) in
      sort (cover_mass ops kept mass (fl_zero ops) (map fst (sort_by (compare_scores ops) scored))))"

definition truncation_keep :: "('f, 'd) SampleFloat \<Rightarrow> 'd Truncation \<Rightarrow> 'd list \<Rightarrow> (nat option, SamplerError) outcome" where
  "truncation_keep ops t kept =
     (case t of
        TopK n \<Rightarrow> Ok (Some (min n (length kept)))
      | TopP mass \<Rightarrow> Ok (Some (prefix_reaching_mass ops kept mass))
      | MinP fraction \<Rightarrow> and_then (at_index kept 0) (\<lambda>top. Ok (Some (threshold_keep ops kept (fl_mul ops fraction top))))
      | TopA fraction \<Rightarrow>
          and_then (at_index kept 0) (\<lambda>top. Ok (Some (threshold_keep ops kept (fl_mul ops (fl_mul ops fraction top) top))))
      | Epsilon threshold \<Rightarrow> Ok (Some (threshold_keep ops kept threshold))
      | Eta threshold \<Rightarrow>
          Ok (Some (threshold_keep ops kept
            (fl_min ops threshold (fl_mul ops (fl_sqrt ops threshold) (fl_exp ops (fl_neg ops (entropy ops kept)))))))
      | TailFree share \<Rightarrow> Ok (Some (tail_free_keep ops kept share))
      | _ \<Rightarrow> Ok None)"

definition apply_truncation ::
  "('f, 'd) SampleFloat \<Rightarrow> 'd Truncation \<Rightarrow> nat list \<times> 'd list \<Rightarrow> (nat list \<times> 'd list, SamplerError) outcome" where
  "apply_truncation ops t acc =
     (let (order, kept) = acc in
      case t of
        TopNSigma _ \<Rightarrow> Ok acc
      | MinK _ \<Rightarrow> Ok acc
      | _ \<Rightarrow>
          and_then (truncation_keep ops t kept) (\<lambda>keep.
          case keep of
            Some keep \<Rightarrow>
              let keep = max keep 1 in
              and_then (renormalize ops (take keep kept)) (\<lambda>kept. Ok (take keep order, kept))
          | None \<Rightarrow>
              (case t of
                 Typical mass \<Rightarrow>
                   let chosen = typical_select ops kept mass in
                   and_then (collect_results (map (at_index order) chosen)) (\<lambda>next_order.
                   and_then (collect_results (map (at_index kept) chosen)) (\<lambda>next_kept.
                   and_then (renormalize ops next_kept) (\<lambda>kept. Ok (next_order, kept))))
               | _ \<Rightarrow> Ok acc)))"

fun apply_truncations ::
  "('f, 'd) SampleFloat \<Rightarrow> 'd Truncation list \<Rightarrow> nat list \<times> 'd list \<Rightarrow> (nat list \<times> 'd list, SamplerError) outcome" where
  "apply_truncations ops [] acc = Ok acc"
| "apply_truncations ops (t # ts) acc = and_then (apply_truncation ops t acc) (apply_truncations ops ts)"

section \<open>The distribution\<close>

text \<open>\<open>probabilities[index] = kept[slot]\<close> for every slot of \<open>order\<close>.\<close>

fun place_kept :: "nat list \<Rightarrow> nat \<Rightarrow> 'd list \<Rightarrow> 'd list \<Rightarrow> ('d list, SamplerError) outcome" where
  "place_kept [] slot kept probabilities = Ok probabilities"
| "place_kept (i # order) slot kept probabilities =
     and_then (at_index kept slot) (\<lambda>v.
     if i < length probabilities then place_kept order (slot + 1) kept (probabilities[i := v]) else Panic)"

definition sampling_distribution :: "('f, 'd) SampleFloat \<Rightarrow> 'f list \<Rightarrow> 'd Sampler \<Rightarrow> ('d Distribution, SamplerError) outcome" where
  "sampling_distribution ops logits sampler =
     and_then (sampler_validate ops sampler) (\<lambda>_.
     and_then (if logits = [] then Err EmptyRow else Ok ()) (\<lambda>_.
     and_then (greedy_distribution ops logits (sm_temperature sampler)) (\<lambda>greedy.
     case greedy of
       Some probabilities \<Rightarrow> Ok \<lparr>ds_probabilities = probabilities\<rparr>
     | None \<Rightarrow>
         and_then (scaled_temperature (sm_temperature sampler)) (\<lambda>temperature.
         and_then (scaled_distribution ops logits temperature) (\<lambda>acc.
         and_then (apply_raw_truncations ops logits (sm_truncations sampler) acc) (\<lambda>acc.
         and_then (apply_truncations ops (sm_truncations sampler) acc) (\<lambda>(order, kept).
         and_then (place_kept order 0 kept (replicate (length logits) (fl_zero ops))) (\<lambda>probabilities.
         Ok \<lparr>ds_probabilities = probabilities\<rparr>))))))))"

end
