(* ===== verification/Sampler_Exact.thy ===== *)
theory Sampler_Exact
  imports Sampler Complex_Main
begin

text \<open>
  Draws and verification. The words behind the draws never coincide where they must not. In exact
  arithmetic (\<open>real_ops\<close>), a token is drawn for an interval of uniform values as long as its
  probability, and the token that verification emits follows the target distribution whatever the
  drafter proposed.
\<close>

section \<open>The stream is injective\<close>

lemma xor_undo: "(a XOR b) XOR b = a"
  for a :: u64
  by (simp add: xor.assoc)

lemma xor_zero_eq:
  fixes a b :: u64
  assumes "a XOR b = 0"
  shows "a = b"
proof -
  have "a = (a XOR b) XOR b" by (rule xor_undo [symmetric])
  also have "\<dots> = b" unfolding assms by (rule xor.left_neutral)
  finally show ?thesis .
qed

lemma xor_right_cancel: "x XOR a = y XOR a \<longleftrightarrow> x = y"
  for a :: u64
  by (metis xor_undo)

lemma xor_left_cancel: "a XOR x = a XOR y \<longleftrightarrow> x = y"
  for a :: u64
  by (metis xor_undo xor.commute)

lemma xor_shift_zero:
  fixes z :: u64
  assumes "z XOR drop_bit n z = 0" and "0 < n"
  shows "z = 0"
proof (rule ccontr)
  assume "z \<noteq> 0"
  then have pos: "0 < unat z" by (simp add: unat_gt_0)
  have "unat (drop_bit n z) = unat z div 2 ^ n" by (subst unat_drop_bit_eq) (simp only: drop_bit_eq_div)
  moreover have "1 < (2 :: nat) ^ n" using assms(2) by (intro one_less_power) simp_all
  then have "unat z div 2 ^ n < unat z" using pos by (intro div_less_dividend)
  moreover have "drop_bit n z = z" using xor_zero_eq [OF assms(1)] by simp
  ultimately show False by simp
qed

lemma xor_shift_inject:
  fixes x y :: u64
  assumes "0 < n"
  shows "x XOR drop_bit n x = y XOR drop_bit n y \<longleftrightarrow> x = y"
proof
  assume eq: "x XOR drop_bit n x = y XOR drop_bit n y"
  have "(x XOR y) XOR drop_bit n (x XOR y) = (x XOR drop_bit n x) XOR (y XOR drop_bit n y)"
    by (simp only: drop_bit_xor ac_simps)
  also have "\<dots> = 0" by (simp only: eq xor_self_eq)
  finally have "x XOR y = 0" using assms by (rule xor_shift_zero)
  then show "x = y" by (rule xor_zero_eq)
qed simp

lemma mult_inject:
  fixes c d x y :: u64
  assumes cd: "c * d = 1"
  shows "x * c = y * c \<longleftrightarrow> x = y"
proof
  assume "x * c = y * c"
  then have "(x * c) * d = (y * c) * d" by simp
  then show "x = y" by (simp only: mult.assoc cd mult_1_right)
qed simp

lemma splitmix64_inject: "splitmix64 x = splitmix64 y \<longleftrightarrow> x = y"
proof -
  have "(0xbf58476d1ce4e5b9 :: u64) * 0x96de1b173f119089 = 1" "(0x94d049bb133111eb :: u64) * 0x319642b2d24d8ec3 = 1"
    by simp_all
  then show ?thesis by (simp only: splitmix64_def Let_def xor_shift_inject mult_inject add_right_cancel zero_less_numeral)
qed

lemma draw_purpose_inject: "draw_purpose d = draw_purpose e \<longleftrightarrow> d = e"
  by (cases d; cases e) simp_all

text \<open>The draws of one stream never collide: the accept, select and draft draw of a position, and
  the same draw of two positions, mix to different 64-bit words, for every seed.\<close>

theorem draws_never_collide:
  "(mixed_word seed i d = mixed_word seed j d \<longleftrightarrow> i = j) \<and>
   (mixed_word seed i d = mixed_word seed i e \<longleftrightarrow> d = e)"
  by (simp only: mixed_word_def splitmix64_inject xor_left_cancel xor_right_cancel draw_purpose_inject)

section \<open>Exact arithmetic\<close>

text \<open>
  The operations over the reals: rounding, infinities and signed zeros are left out, every value is
  finite, and the start of the search for the largest gap, minus infinity in the code, is a number
  below every gap, since the gaps of a descending row are not negative.
\<close>

definition real_ops :: "('f \<Rightarrow> bool) \<Rightarrow> ('f \<Rightarrow> real) \<Rightarrow> ('f, real) SampleFloat" where
  "real_ops row_finite wide =
     \<lparr>fl_widen = wide, fl_row_finite = row_finite, fl_row_le = (\<lambda>a b. wide a \<le> wide b),
      fl_add = (+), fl_sub = (-), fl_mul = (*), fl_div = (/), fl_neg = uminus, fl_abs = abs, fl_max = max, fl_min = min,
      fl_ln = ln, fl_exp = exp, fl_sqrt = sqrt, fl_floor = (\<lambda>v. of_int \<lfloor>v\<rfloor>), fl_less = (<), fl_le = (\<le>), fl_eq = (=),
      fl_total_cmp = cmp, fl_is_finite = (\<lambda>_. True), fl_of_nat = of_nat, fl_to_nat = (\<lambda>v. nat \<lfloor>v\<rfloor>),
      fl_zero = 0, fl_sum_start = 0, fl_half = 1 / 2, fl_one = 1, fl_two = 2, fl_tiny = 1 / 10 ^ 8,
      fl_epsilon = 1 / 2 ^ 52, fl_neg_infinity = - 1\<rparr>"

lemma real_ops_sel [simp]:
  "fl_widen (real_ops fin w) = w" "fl_row_finite (real_ops fin w) = fin" "fl_add (real_ops fin w) = (+)"
  "fl_sub (real_ops fin w) = (-)" "fl_mul (real_ops fin w) = (*)" "fl_div (real_ops fin w) = (/)"
  "fl_neg (real_ops fin w) = uminus" "fl_max (real_ops fin w) = max" "fl_ln (real_ops fin w) = ln"
  "fl_exp (real_ops fin w) = exp" "fl_less (real_ops fin w) = (<)" "fl_le (real_ops fin w) = (\<le>)"
  "fl_eq (real_ops fin w) = (=)" "fl_total_cmp (real_ops fin w) = cmp" "fl_is_finite (real_ops fin w) = (\<lambda>_. True)"
  "fl_zero (real_ops fin w) = 0" "fl_sum_start (real_ops fin w) = 0" "fl_one (real_ops fin w) = 1"
  "fl_epsilon (real_ops fin w) = 1 / 2 ^ 52" "fl_of_nat (real_ops fin w) = real"
  by (simp_all add: real_ops_def)

lemma foldl_plus: "foldl (+) a xs = a + sum_list xs"
  for a :: real
  by (induction xs arbitrary: a) simp_all

lemma fl_sum_real [simp]: "fl_sum (real_ops fin w) vs = sum_list vs"
  by (simp add: fl_sum_def foldl_plus)

lemma fl_accumulate_real [simp]: "fl_accumulate (real_ops fin w) vs = sum_list vs"
  by (simp add: fl_accumulate_def foldl_plus)

definition is_distribution :: "real list \<Rightarrow> bool" where
  "is_distribution ps \<longleftrightarrow> list_all (\<lambda>p. 0 \<le> p) ps \<and> sum_list ps = 1"

section \<open>A draw takes the interval of its token\<close>

definition mass_before :: "real list \<Rightarrow> nat \<Rightarrow> real" where
  "mass_before ps k = sum_list (take k ps)"

lemma select_from_interval:
  "list_all (\<lambda>p. 0 \<le> p) ps \<Longrightarrow> c \<le> u \<Longrightarrow> k < length ps \<Longrightarrow> c + mass_before ps k \<le> u \<Longrightarrow> u < c + mass_before ps k + ps ! k \<Longrightarrow>
   select_from (real_ops fin w) u i c seen ps = Some (i + k)"
proof (induction ps arbitrary: i c k seen)
  case (Cons p ps)
  show ?case
  proof (cases k)
    case 0
    then show ?thesis using Cons.prems by (auto simp: mass_before_def)
  next
    case (Suc j)
    have nonneg: "0 \<le> sum_list (take j ps)" using Cons.prems(1) by (auto simp: list_all_iff dest: in_set_takeD intro!: sum_list_nonneg)
    have "select_from (real_ops fin w) u (i + 1) (c + p) s ps = Some (i + 1 + j)" for s
      using Cons.prems Suc nonneg by (intro Cons.IH) (auto simp: mass_before_def)
    moreover have "\<not> u < c + p" using Cons.prems Suc nonneg by (simp add: mass_before_def)
    moreover have "p \<le> 0 \<Longrightarrow> c + p = c" using Cons.prems(1) by simp
    ultimately show ?thesis using Suc by (auto simp: Let_def)
  qed
qed simp

lemma interval_exists:
  "list_all (\<lambda>p. 0 \<le> p) ps \<Longrightarrow> 0 \<le> u \<Longrightarrow> u < sum_list ps \<Longrightarrow>
   \<exists>k<length ps. mass_before ps k \<le> u \<and> u < mass_before ps k + ps ! k"
proof (induction ps arbitrary: u)
  case (Cons p ps)
  show ?case
  proof (cases "u < p")
    case True
    then show ?thesis using Cons.prems by (intro exI [of _ 0]) (simp add: mass_before_def)
  next
    case False
    then obtain k where "k < length ps" "mass_before ps k \<le> u - p" "u - p < mass_before ps k + ps ! k"
      using Cons.IH [of "u - p"] Cons.prems by auto
    then show ?thesis by (intro exI [of _ "Suc k"]) (simp add: mass_before_def)
  qed
qed simp

lemma mass_before_add: "k < length ps \<Longrightarrow> mass_before ps k + ps ! k = mass_before ps (Suc k)"
  by (simp add: mass_before_def take_Suc_conv_app_nth)

lemma mass_before_bounds:
  assumes "is_distribution ps" and "k < length ps"
  shows "0 \<le> mass_before ps k" and "0 \<le> ps ! k" and "mass_before ps k + ps ! k \<le> 1"
proof -
  have nonneg: "\<forall>p\<in>set ps. 0 \<le> p" using assms(1) by (simp add: is_distribution_def list_all_iff)
  then show "0 \<le> mass_before ps k" by (auto simp: mass_before_def dest: in_set_takeD intro!: sum_list_nonneg)
  show "0 \<le> ps ! k" using nonneg assms(2) by simp
  have "sum_list ps = sum_list (take (Suc k) ps) + sum_list (drop (Suc k) ps)"
    by (metis append_take_drop_id sum_list_append)
  moreover have "0 \<le> sum_list (drop (Suc k) ps)" using nonneg by (auto dest: in_set_dropD intro!: sum_list_nonneg)
  ultimately show "mass_before ps k + ps ! k \<le> 1"
    using assms by (simp add: mass_before_add is_distribution_def) (simp add: mass_before_def)
qed

lemma token_inject: "i < 2 ^ 32 \<Longrightarrow> j < 2 ^ 32 \<Longrightarrow> (of_nat i :: u32) = of_nat j \<longleftrightarrow> i = j"
  by (auto simp: word_unat_eq_iff unat_of_nat take_bit_nat_eq_self)

lemma select_interval:
  assumes "is_distribution ps" and "length ps \<le> 2 ^ 32" and "0 \<le> u" "u < 1" and "x < length ps"
  shows "select_with (real_ops fin w) \<lparr>ds_probabilities = ps\<rparr> u = Ok (of_nat x) \<longleftrightarrow>
    mass_before ps x \<le> u \<and> u < mass_before ps x + ps ! x"
proof -
  have found: "select_with (real_ops fin w) \<lparr>ds_probabilities = ps\<rparr> u = Ok (of_nat k)"
    if "k < length ps" "mass_before ps k \<le> u" "u < mass_before ps k + ps ! k" for k
    using that assms select_from_interval [of ps 0 u k fin w 0 None] by (simp add: select_with_def is_distribution_def)
  obtain k where k: "k < length ps" "mass_before ps k \<le> u" "u < mass_before ps k + ps ! k"
    using interval_exists [of ps u] assms by (auto simp: is_distribution_def)
  have "of_nat k = (of_nat x :: u32) \<longleftrightarrow> k = x" using k(1) assms by (intro token_inject) simp_all
  then show ?thesis using found [OF k] found [of x] k assms(5) by auto
qed

lemma select_succeeds:
  assumes "is_distribution ps" and "0 \<le> u" "u < 1"
  shows "\<exists>token. select_with (real_ops fin w) \<lparr>ds_probabilities = ps\<rparr> u = Ok token"
proof -
  obtain k where k: "k < length ps" "mass_before ps k \<le> u" "u < mass_before ps k + ps ! k"
    using interval_exists [of ps u] assms by (auto simp: is_distribution_def)
  show ?thesis
    using k assms select_from_interval [of ps 0 u k fin w 0 None] by (simp add: select_with_def is_distribution_def)
qed

section \<open>Verification emits the target distribution\<close>

definition excess :: "real list \<Rightarrow> real list \<Rightarrow> real list" where
  "excess p q = map2 (\<lambda>l r. max (l - r) 0) p q"

definition residual :: "real list \<Rightarrow> real list \<Rightarrow> real list" where
  "residual p q = (if sum_list (excess p q) \<le> 0 then p else map (\<lambda>v. v / sum_list (excess p q)) (excess p q))"

definition accept_share :: "real list \<Rightarrow> real list \<Rightarrow> nat \<Rightarrow> real" where
  "accept_share p q d = (if 0 < q ! d then min 1 (p ! d / q ! d) else 0)"

lemma excess_nth: "length p = length q \<Longrightarrow> x < length p \<Longrightarrow> excess p q ! x = max (p ! x - q ! x) 0"
  by (simp add: excess_def)

lemma length_excess [simp]: "length p = length q \<Longrightarrow> length (excess p q) = length p"
  by (simp add: excess_def)

lemma excess_nonneg: "v \<in> set (excess p q) \<Longrightarrow> 0 \<le> v"
  by (auto simp: excess_def)

lemma residual_code:
  "length p = length q \<Longrightarrow>
   correction_residual (real_ops fin w) \<lparr>ds_probabilities = p\<rparr> \<lparr>ds_probabilities = q\<rparr> = Ok \<lparr>ds_probabilities = residual p q\<rparr>"
  by (simp add: correction_residual_def residual_def excess_def Let_def)

lemma length_residual [simp]: "length p = length q \<Longrightarrow> length (residual p q) = length p"
  by (simp add: residual_def)

lemma residual_distribution:
  assumes "is_distribution p"
  shows "is_distribution (residual p q)"
proof (cases "sum_list (excess p q) \<le> 0")
  case False
  have "sum_list (map (\<lambda>v. v / sum_list (excess p q)) (excess p q)) = sum_list (excess p q) / sum_list (excess p q)"
    using sum_list_const_mult [of "1 / sum_list (excess p q)" "\<lambda>v. v" "excess p q"] by simp
  then show ?thesis using False by (auto simp: residual_def is_distribution_def list_all_iff excess_nonneg)
qed (use assms in \<open>simp add: residual_def\<close>)

lemma residual_scaled:
  assumes "length p = length q" and "x < length p"
  shows "sum_list (excess p q) * residual p q ! x = max (p ! x - q ! x) 0"
proof (cases "sum_list (excess p q) \<le> 0")
  case True
  then have zero: "sum_list (excess p q) = 0" using excess_nonneg by (metis antisym sum_list_nonneg)
  then have "\<forall>v\<in>set (excess p q). v = 0" using excess_nonneg by (simp add: sum_list_nonneg_eq_0_iff)
  then show ?thesis using zero assms by (metis excess_nth length_excess mult_zero_left nth_mem)
next
  case False
  then show ?thesis using assms by (simp add: residual_def excess_nth)
qed

lemma accept_share_bounds: "is_distribution p \<Longrightarrow> d < length p \<Longrightarrow> 0 \<le> accept_share p q d \<and> accept_share p q d \<le> 1"
  by (auto simp: accept_share_def is_distribution_def list_all_length)

lemma drafted_mass:
  assumes "is_distribution p" "is_distribution q" "length p = length q" and "d < length p"
  shows "q ! d * accept_share p q d = min (q ! d) (p ! d)"
proof -
  have nonneg: "0 \<le> p ! d" "0 \<le> q ! d" using assms by (auto simp: is_distribution_def list_all_length)
  then show ?thesis by (auto simp: accept_share_def min_def field_simps)
qed

text \<open>The share of draws that emit \<open>x\<close>, over the drafted token and the two uniform values.\<close>

definition emission_share :: "real list \<Rightarrow> real list \<Rightarrow> nat \<Rightarrow> real" where
  "emission_share p q x =
     (\<Sum>d<length p. q ! d * (of_bool (d = x) * accept_share p q d + (1 - accept_share p q d) * residual p q ! x))"

lemma emission_exact:
  assumes "is_distribution p" "is_distribution q" "length p = length q" and "x < length p"
  shows "emission_share p q x = p ! x"
proof -
  let ?n = "length p"
  have split: "q ! d * (of_bool (d = x) * accept_share p q d + (1 - accept_share p q d) * residual p q ! x) =
      (if d = x then q ! d * accept_share p q d else 0) + (q ! d - q ! d * accept_share p q d) * residual p q ! x" for d
    by (simp add: algebra_simps)
  have "emission_share p q x =
      (\<Sum>d<?n. if d = x then q ! d * accept_share p q d else 0) + (\<Sum>d<?n. q ! d - q ! d * accept_share p q d) * residual p q ! x"
    by (simp only: emission_share_def split sum.distrib sum_distrib_right)
  also have "(\<Sum>d<?n. if d = x then q ! d * accept_share p q d else 0) = min (q ! x) (p ! x)"
    using assms(4) drafted_mass [OF assms] by simp
  also have "(\<Sum>d<?n. q ! d - q ! d * accept_share p q d) = (\<Sum>d<?n. q ! d - min (q ! d) (p ! d))"
    using drafted_mass [OF assms(1-3)] by (intro sum.cong) simp_all
  also have "\<dots> = (\<Sum>d<?n. p ! d - min (q ! d) (p ! d))"
  proof -
    have "(\<Sum>d<?n. q ! d) = (\<Sum>d<?n. p ! d)"
      using assms(1-3) by (simp add: is_distribution_def sum_list_sum_nth atLeast0LessThan)
    then show ?thesis by (simp add: sum_subtractf)
  qed
  also have "\<dots> = (\<Sum>d<?n. excess p q ! d)"
    using assms(3) by (intro sum.cong) (auto simp: excess_nth)
  also have "\<dots> = sum_list (excess p q)" using assms(3) by (simp add: sum_list_sum_nth atLeast0LessThan)
  also have "sum_list (excess p q) * residual p q ! x = max (p ! x - q ! x) 0" by (rule residual_scaled) (use assms in simp_all)
  finally show ?thesis by simp
qed

fun emitted_token :: "u32 \<Rightarrow> Verdict \<Rightarrow> u32" where
  "emitted_token drafted Accept = drafted"
| "emitted_token drafted (Reject token) = token"

lemma verify_cases:
  assumes "is_distribution p" "is_distribution q" "length p = length q" "length p \<le> 2 ^ 32" and "d < length p" "0 \<le> u" "u < 1"
  shows "verify_with (real_ops fin w) \<lparr>ds_probabilities = p\<rparr> \<lparr>ds_probabilities = q\<rparr> (of_nat d) u v =
    (if u < accept_share p q d then Ok Accept
     else and_then (select_with (real_ops fin w) \<lparr>ds_probabilities = residual p q\<rparr> v) (\<lambda>token. Ok (Reject token)))"
proof -
  have d: "unat (of_nat d :: u32) = d" using assms(4,5) by (simp add: unat_of_nat take_bit_nat_eq_self)
  have accepted: "(0 < q ! d \<and> (1 \<le> p ! d / q ! d \<or> u < p ! d / q ! d)) \<longleftrightarrow> u < accept_share p q d"
    using assms(6,7) by (cases "1 \<le> p ! d / q ! d") (auto simp: accept_share_def min_def simp del: le_divide_eq_1 le_divide_eq_1_pos)
  show ?thesis using assms(3,5) d
    by (simp add: verify_with_def probability_def residual_code accepted [symmetric] Let_def)
qed

text \<open>C35: Verification is exact. In real arithmetic, for any target and draft distributions over one
  vocabulary of at most \<open>2 ^ 32\<close> tokens: the drafted token is \<open>d\<close> for an interval of its uniform draw as long as \<open>q ! d\<close>; given
  \<open>d\<close>, the token emitted is \<open>x\<close> exactly for the accept draws below \<open>accept_share\<close> (when \<open>x\<close> is the
  drafted token) and, above, for an interval of the select draw as long as the residual's entry; and
  the shares of all draws that emit \<open>x\<close> add up to the target's probability of \<open>x\<close>.\<close>

theorem verification_emits_the_target:
  assumes "is_distribution p" and "is_distribution q" and "length p = length q" and "length p \<le> 2 ^ 32"
    and "d < length p" and "x < length p" and "0 \<le> t" "t < 1" and "0 \<le> u" "u < 1" and "0 \<le> v" "v < 1"
  shows "(select_with (real_ops fin w) \<lparr>ds_probabilities = q\<rparr> t = Ok (of_nat d) \<longleftrightarrow>
        mass_before q d \<le> t \<and> t < mass_before q d + q ! d) \<and>
     (\<exists>verdict. verify_with (real_ops fin w) \<lparr>ds_probabilities = p\<rparr> \<lparr>ds_probabilities = q\<rparr> (of_nat d) u v = Ok verdict \<and>
        (emitted_token (of_nat d) verdict = of_nat x \<longleftrightarrow>
         (if u < accept_share p q d then d = x
          else mass_before (residual p q) x \<le> v \<and> v < mass_before (residual p q) x + residual p q ! x))) \<and>
     emission_share p q x = p ! x"
proof (intro conjI)
  show "select_with (real_ops fin w) \<lparr>ds_probabilities = q\<rparr> t = Ok (of_nat d) \<longleftrightarrow>
      mass_before q d \<le> t \<and> t < mass_before q d + q ! d"
    using assms by (intro select_interval) simp_all
  show "emission_share p q x = p ! x" using assms by (intro emission_exact)
  have r: "is_distribution (residual p q)" "length (residual p q) \<le> 2 ^ 32" using assms by (simp_all add: residual_distribution)
  show "\<exists>verdict. verify_with (real_ops fin w) \<lparr>ds_probabilities = p\<rparr> \<lparr>ds_probabilities = q\<rparr> (of_nat d) u v = Ok verdict \<and>
        (emitted_token (of_nat d) verdict = of_nat x \<longleftrightarrow>
         (if u < accept_share p q d then d = x
          else mass_before (residual p q) x \<le> v \<and> v < mass_before (residual p q) x + residual p q ! x))"
  proof (cases "u < accept_share p q d")
    case True
    have "of_nat d = (of_nat x :: u32) \<longleftrightarrow> d = x" using assms(4,5,6) by (intro token_inject) simp_all
    then show ?thesis using True assms by (simp add: verify_cases)
  next
    case False
    obtain token where token: "select_with (real_ops fin w) \<lparr>ds_probabilities = residual p q\<rparr> v = Ok token"
      using select_succeeds [OF r(1) assms(11,12)] by blast
    have "token = of_nat x \<longleftrightarrow> mass_before (residual p q) x \<le> v \<and> v < mass_before (residual p q) x + residual p q ! x"
      using select_interval [OF r assms(11,12), of x fin w] token assms(3,6) by simp
    then show ?thesis using False token assms by (simp add: verify_cases)
  qed
qed

definition coin :: "real list" where
  "coin = [1 / 2, 1 / 2]"

definition biased_coin :: "real list" where
  "biased_coin = [1 / 4, 3 / 4]"

theorem verification_emits_the_target_witness:
  "\<exists>verdict. verify_with (real_ops (\<lambda>_. True) (\<lambda>_ :: nat. 0)) \<lparr>ds_probabilities = coin\<rparr> \<lparr>ds_probabilities = biased_coin\<rparr> 1 (3 / 4) (1 / 2) = Ok verdict \<and>
     emitted_token 1 verdict \<noteq> 1 \<and> emission_share coin biased_coin 1 = 1 / 2"
proof -
  have dist: "is_distribution coin" "is_distribution biased_coin" "length coin = length biased_coin" "length coin \<le> 2 ^ 32" "1 < length coin"
    by (simp_all add: coin_def biased_coin_def is_distribution_def)
  have "accept_share coin biased_coin 1 = 2 / 3" "mass_before (residual coin biased_coin) 1 = 1"
    by (simp_all add: accept_share_def residual_def excess_def coin_def biased_coin_def mass_before_def)
  then show ?thesis
    using verification_emits_the_target [OF dist dist(5), of 0 "3 / 4" "1 / 2" "\<lambda>_. True" "\<lambda>_ :: nat. 0"]
    by (auto simp: coin_def)
qed

end
