(* ===== verification/Sampler_Softmax.thy ===== *)
theory Sampler_Softmax
  imports Sampler_Pipeline Sampler_Exact
begin

text \<open>
  What the truncation pipeline computes, in exact arithmetic: the softmax of the row at the
  sampler's temperature, restricted to a nonempty set of finite logits and renormalised.
\<close>

section \<open>Weights of a Boltzmann row\<close>











section \<open>The stages\<close>













section \<open>The whole distribution\<close>





section \<open>What one stage keeps\<close>














end
