(* ===== verification/Session_Archive.thy ===== *)
theory Session_Archive
  imports Sampler_Exact
begin

text \<open>
  The persistent session archive (\<open>crates/leone/src/session_archive.rs\<close>) with the checkpoint it
  stores (\<open>runtime.rs\<close>). JSON is \<open>serde_json\<close>'s: writing gives the pieces an archive is written in,
  reading gives an archive or an error, and both are parameters, as are SHA-256 and the allocator.
  A character is a byte of the string.
\<close>

section \<open>Data\<close>

record 'd GenerationCheckpoint =
  gc_evaluated_tokens :: "u32 list"
  gc_prefill_boundary :: nat
  gc_mirostat :: "'d MirostatState option"

record 'd MirostatArchive =
  ma_target_surprise :: 'd
  ma_learning_rate :: 'd
  ma_maximum_surprise :: 'd

record 'd SessionArchive =
  se_schema_version :: u32
  se_model_sha256 :: string
  se_evaluated_tokens :: "u32 list"
  se_prefill_boundary :: nat
  se_mirostat :: "'d MirostatArchive option"

datatype 'j SessionArchiveError =
    ArchiveJson 'j
  | ArchiveBuffer
  | ArchiveSchema u32 u32
  | ArchiveModelHash
  | ArchiveModelMismatch string string
  | ArchivePrefillBoundary nat nat
  | ArchiveSampler SamplerError

definition SESSION_ARCHIVE_SCHEMA_VERSION :: u32 where
  "SESSION_ARCHIVE_SCHEMA_VERSION = 1"

section \<open>Validation\<close>

definition validate_schema :: "'d SessionArchive \<Rightarrow> (unit, 'j SessionArchiveError) outcome" where
  "validate_schema a =
     (if se_schema_version a \<noteq> SESSION_ARCHIVE_SCHEMA_VERSION
      then Err (ArchiveSchema (se_schema_version a) SESSION_ARCHIVE_SCHEMA_VERSION) else Ok ())"

definition hash_byte :: "char \<Rightarrow> bool" where
  "hash_byte c \<longleftrightarrow> (let v = of_char c :: nat in (48 \<le> v \<and> v \<le> 57) \<or> (97 \<le> v \<and> v \<le> 102))"

definition validate_model_hash :: "'d SessionArchive \<Rightarrow> (unit, 'j SessionArchiveError) outcome" where
  "validate_model_hash a =
     (if length (se_model_sha256 a) \<noteq> 64 \<or> \<not> list_all hash_byte (se_model_sha256 a) then Err ArchiveModelHash else Ok ())"

definition validate_expected_model :: "'d SessionArchive \<Rightarrow> string option \<Rightarrow> (unit, 'j SessionArchiveError) outcome" where
  "validate_expected_model a expected_model =
     (case expected_model of
        None \<Rightarrow> Ok ()
      | Some expected \<Rightarrow>
          if se_model_sha256 a \<noteq> expected then Err (ArchiveModelMismatch (se_model_sha256 a) expected) else Ok ())"

definition validate_prefill_boundary :: "'d SessionArchive \<Rightarrow> (unit, 'j SessionArchiveError) outcome" where
  "validate_prefill_boundary a =
     (if length (se_evaluated_tokens a) < se_prefill_boundary a
      then Err (ArchivePrefillBoundary (se_prefill_boundary a) (length (se_evaluated_tokens a))) else Ok ())"

text \<open>The Mirostat state of an archive, rebuilt and checked.\<close>

definition archived_mirostat :: "('f, 'd) SampleFloat \<Rightarrow> 'd MirostatArchive \<Rightarrow> ('d MirostatState, 'j SessionArchiveError) outcome" where
  "archived_mirostat ops st =
     map_err ArchiveSampler
       (and_then (mirostat_config_new ops (ma_target_surprise st) (ma_learning_rate st)) (\<lambda>config.
        mirostat_from_parts ops config (ma_maximum_surprise st)))"

definition validate_mirostat :: "('f, 'd) SampleFloat \<Rightarrow> 'd SessionArchive \<Rightarrow> (unit, 'j SessionArchiveError) outcome" where
  "validate_mirostat ops a =
     (case se_mirostat a of None \<Rightarrow> Ok () | Some st \<Rightarrow> and_then (archived_mirostat ops st) (\<lambda>_. Ok ()))"

definition archive_validate :: "('f, 'd) SampleFloat \<Rightarrow> 'd SessionArchive \<Rightarrow> string option \<Rightarrow> (unit, 'j SessionArchiveError) outcome" where
  "archive_validate ops a expected_model =
     and_then (validate_schema a) (\<lambda>_.
     and_then (validate_model_hash a) (\<lambda>_.
     and_then (validate_expected_model a expected_model) (\<lambda>_.
     and_then (validate_prefill_boundary a) (\<lambda>_.
     validate_mirostat ops a))))"

section \<open>Capture and reconstruction\<close>

definition archive_of :: "string \<Rightarrow> 'd GenerationCheckpoint \<Rightarrow> 'd SessionArchive" where
  "archive_of model_sha256 checkpoint =
     \<lparr>se_schema_version = SESSION_ARCHIVE_SCHEMA_VERSION, se_model_sha256 = model_sha256,
      se_evaluated_tokens = gc_evaluated_tokens checkpoint, se_prefill_boundary = gc_prefill_boundary checkpoint,
      se_mirostat = map_option (\<lambda>st. \<lparr>ma_target_surprise = mc_target_surprise (mr_config st),
        ma_learning_rate = mc_learning_rate (mr_config st), ma_maximum_surprise = mr_maximum_surprise st\<rparr>) (gc_mirostat checkpoint)\<rparr>"

definition from_checkpoint :: "('f, 'd) SampleFloat \<Rightarrow> string \<Rightarrow> 'd GenerationCheckpoint \<Rightarrow> ('d SessionArchive, 'j SessionArchiveError) outcome" where
  "from_checkpoint ops model_sha256 checkpoint =
     (let archive = archive_of model_sha256 checkpoint in and_then (archive_validate ops archive None) (\<lambda>_. Ok archive))"

definition archive_new :: "('f, 'd) SampleFloat \<Rightarrow> string \<Rightarrow> 'd GenerationCheckpoint \<Rightarrow> ('d SessionArchive, 'j SessionArchiveError) outcome" where
  "archive_new ops model_sha256 checkpoint = from_checkpoint ops model_sha256 checkpoint"

definition archive_checkpoint :: "('f, 'd) SampleFloat \<Rightarrow> 'd SessionArchive \<Rightarrow> ('d GenerationCheckpoint, 'j SessionArchiveError) outcome" where
  "archive_checkpoint ops a =
     and_then (archive_validate ops a None) (\<lambda>_.
     and_then (case se_mirostat a of None \<Rightarrow> Ok None | Some st \<Rightarrow> and_then (archived_mirostat ops st) (\<lambda>m. Ok (Some m))) (\<lambda>mirostat.
     Ok \<lparr>gc_evaluated_tokens = se_evaluated_tokens a, gc_prefill_boundary = se_prefill_boundary a, gc_mirostat = mirostat\<rparr>))"

section \<open>JSON\<close>

definition from_json ::
  "('f, 'd) SampleFloat \<Rightarrow> (string \<Rightarrow> ('d SessionArchive, 'j) outcome) \<Rightarrow> string \<Rightarrow> string \<Rightarrow> ('d SessionArchive, 'j SessionArchiveError) outcome" where
  "from_json ops from_slice bytes expected_model =
     and_then (map_err ArchiveJson (from_slice bytes)) (\<lambda>archive.
     and_then (archive_validate ops archive (Some expected_model)) (\<lambda>_. Ok archive))"

fun ilog10 :: "nat \<Rightarrow> nat" where
  "ilog10 n = (if n < 10 then 0 else ilog10 (n div 10) + 1)"

declare ilog10.simps [simp del]

definition checked_ilog10 :: "nat \<Rightarrow> nat option" where
  "checked_ilog10 n = (if n = 0 then None else Some (ilog10 n))"

definition JSON_ENVELOPE :: string where
  \<open>JSON_ENVELOPE = ''{"schema_version":,"model_sha256":"","evaluated_tokens":[],"prefill_boundary":,"mirostat":}''\<close>

definition JSON_MIROSTAT :: string where
  \<open>JSON_MIROSTAT = ''{"target_surprise":,"learning_rate":,"maximum_surprise":}''\<close>

definition MODEL_HASH_BYTES :: nat where "MODEL_HASH_BYTES = 64"
definition SCHEMA_JSON_BYTES :: nat where "SCHEMA_JSON_BYTES = ilog10 (unat SESSION_ARCHIVE_SCHEMA_VERSION) + 1"
definition TOKEN_JSON_BYTES :: nat where "TOKEN_JSON_BYTES = ilog10 (2 ^ 32 - 1) + 1"
definition F64_JSON_BYTES :: nat where "F64_JSON_BYTES = 24"

definition max_json_len :: "nat \<Rightarrow> nat option" where
  "max_json_len token_count =
     (let boundary = (case checked_ilog10 token_count of None \<Rightarrow> 1 | Some digits \<Rightarrow> digits + 1);
          fixed = length JSON_ENVELOPE + length JSON_MIROSTAT + MODEL_HASH_BYTES;
          numbers = SCHEMA_JSON_BYTES + boundary + 3 * F64_JSON_BYTES in
      Option.bind (usize_checked_mul token_count (TOKEN_JSON_BYTES + 1)) (\<lambda>tokens.
      Option.bind (usize_checked_add fixed numbers) (\<lambda>s. usize_checked_add s tokens)))"

text \<open>\<open>FixedWriter\<close>: a buffer and its capacity; \<open>write_all\<close> of each piece in turn.\<close>

fun write_pieces :: "'j \<Rightarrow> nat \<Rightarrow> string \<Rightarrow> string list \<Rightarrow> (string, 'j) outcome" where
  "write_pieces write_zero capacity buffer [] = Ok buffer"
| "write_pieces write_zero capacity buffer (piece # pieces) =
     (if capacity - length buffer < length piece then Err write_zero
      else write_pieces write_zero capacity (buffer @ piece) pieces)"

text \<open>\<open>reserve\<close> is \<open>try_reserve_exact\<close> on an empty vector: the capacity it gets, if any; \<open>pieces\<close> is
  what \<open>serde_json\<close> writes, \<open>write_zero\<close> the error it makes of a refused write.\<close>

definition to_json ::
  "('f, 'd) SampleFloat \<Rightarrow> (nat \<Rightarrow> nat option) \<Rightarrow> ('d SessionArchive \<Rightarrow> string list) \<Rightarrow> 'j \<Rightarrow> 'd SessionArchive \<Rightarrow> (string, 'j SessionArchiveError) outcome" where
  "to_json ops reserve pieces write_zero a =
     and_then (archive_validate ops a None) (\<lambda>_.
     and_then (ok_or (max_json_len (length (se_evaluated_tokens a))) ArchiveBuffer) (\<lambda>bound.
     and_then (ok_or (reserve bound) ArchiveBuffer) (\<lambda>capacity.
     map_err ArchiveJson (write_pieces write_zero capacity [] (pieces a)))))"

definition archive_sha256 ::
  "(string \<Rightarrow> string) \<Rightarrow> ('f, 'd) SampleFloat \<Rightarrow> (nat \<Rightarrow> nat option) \<Rightarrow> ('d SessionArchive \<Rightarrow> string list) \<Rightarrow> 'j \<Rightarrow> 'd SessionArchive \<Rightarrow> (string, 'j SessionArchiveError) outcome" where
  "archive_sha256 sha256_bytes ops reserve pieces write_zero a =
     and_then (to_json ops reserve pieces write_zero a) (\<lambda>bytes. Ok (sha256_bytes bytes))"

section \<open>The canonical text\<close>

text \<open>What \<open>serde_json\<close> documents for the derived encoding: the fields in order, without spaces;
  integers in decimal; \<open>float_text\<close> is its text of a float.\<close>

definition digit :: "nat \<Rightarrow> char" where
  "digit n = char_of (48 + n)"

fun decimal :: "nat \<Rightarrow> string" where
  "decimal n = (if n < 10 then [digit n] else decimal (n div 10) @ [digit (n mod 10)])"

declare decimal.simps [simp del]

fun comma_separated :: "string list \<Rightarrow> string" where
  "comma_separated [] = []"
| "comma_separated [s] = s"
| "comma_separated (s # ss) = s @ '','' @ comma_separated ss"

definition mirostat_text :: "('d \<Rightarrow> string) \<Rightarrow> 'd MirostatArchive option \<Rightarrow> string" where
  \<open>mirostat_text float_text m =
     (case m of
        None \<Rightarrow> ''null''
      | Some m \<Rightarrow> ''{"target_surprise":'' @ float_text (ma_target_surprise m) @ '',"learning_rate":'' @
          float_text (ma_learning_rate m) @ '',"maximum_surprise":'' @ float_text (ma_maximum_surprise m) @ ''}'')\<close>

definition archive_text :: "('d \<Rightarrow> string) \<Rightarrow> 'd SessionArchive \<Rightarrow> string" where
  \<open>archive_text float_text a =
     ''{"schema_version":'' @ decimal (unat (se_schema_version a)) @ '',"model_sha256":"'' @ se_model_sha256 a @
     ''","evaluated_tokens":['' @ comma_separated (map (\<lambda>t. decimal (unat t)) (se_evaluated_tokens a)) @
     ''],"prefill_boundary":'' @ decimal (se_prefill_boundary a) @ '',"mirostat":'' @ mirostat_text float_text (se_mirostat a) @ ''}''\<close>

section \<open>The bound\<close>

lemma length_decimal: "length (decimal n) = ilog10 n + 1"
  by (induction n rule: decimal.induct) (subst decimal.simps, subst ilog10.simps, simp)

lemma ilog10_mono: "m \<le> n \<Longrightarrow> ilog10 m \<le> ilog10 n"
proof (induction n arbitrary: m rule: ilog10.induct)
  case (1 n)
  show ?case
  proof (cases "n < 10")
    case True
    then show ?thesis using 1 by (simp add: ilog10.simps)
  next
    case False
    then have "ilog10 (m div 10) \<le> ilog10 (n div 10)" using 1 by (simp add: div_le_mono)
    then show ?thesis using False ilog10.simps [of m] ilog10.simps [of n] by simp
  qed
qed

lemma decimal_mono: "m \<le> n \<Longrightarrow> length (decimal m) \<le> length (decimal n)"
  by (simp add: length_decimal ilog10_mono)

lemma token_text: "length (decimal (unat (t :: u32))) \<le> TOKEN_JSON_BYTES"
proof -
  have "unat t \<le> 2 ^ 32 - 1" using unat_lt_2p [of t] by simp
  then show ?thesis using ilog10_mono by (simp add: length_decimal TOKEN_JSON_BYTES_def)
qed

lemma comma_separated_bound: "\<forall>s\<in>set ss. length s \<le> b \<Longrightarrow> length (comma_separated ss) \<le> length ss * (b + 1)"
  by (induction ss rule: comma_separated.induct) auto

lemma boundary_bound: "b \<le> n \<Longrightarrow> length (decimal b) \<le> (case checked_ilog10 n of None \<Rightarrow> 1 | Some d \<Rightarrow> d + 1)"
  using ilog10_mono [of b n] by (cases n) (simp_all add: checked_ilog10_def length_decimal ilog10.simps [of 0])

lemma write_pieces_Ok:
  "length buffer + length (concat ps) \<le> capacity \<Longrightarrow> write_pieces e capacity buffer ps = Ok (buffer @ concat ps)"
  by (induction ps arbitrary: buffer) auto

section \<open>Valid archives\<close>

definition mirostat_sound :: "('f, 'd) SampleFloat \<Rightarrow> 'd MirostatArchive \<Rightarrow> bool" where
  "mirostat_sound ops m \<longleftrightarrow>
     fl_is_finite ops (ma_target_surprise m) \<and> \<not> fl_le ops (ma_target_surprise m) (fl_zero ops) \<and>
     fl_is_finite ops (ma_learning_rate m) \<and> \<not> fl_le ops (ma_learning_rate m) (fl_zero ops) \<and>
     \<not> fl_less ops (fl_one ops) (ma_learning_rate m) \<and>
     fl_is_finite ops (ma_maximum_surprise m) \<and> \<not> fl_le ops (ma_maximum_surprise m) (fl_zero ops)"

definition restored_mirostat :: "'d MirostatArchive \<Rightarrow> 'd MirostatState" where
  "restored_mirostat m =
     \<lparr>mr_config = \<lparr>mc_target_surprise = ma_target_surprise m, mc_learning_rate = ma_learning_rate m\<rparr>,
      mr_maximum_surprise = ma_maximum_surprise m\<rparr>"

lemma archived_mirostat_sound:
  "mirostat_sound ops m \<Longrightarrow> archived_mirostat ops m = Ok (restored_mirostat m)"
  by (simp add: mirostat_sound_def archived_mirostat_def restored_mirostat_def mirostat_config_new_def mirostat_from_parts_def)

lemma archived_mirostat_Ok: "archived_mirostat ops m = Ok st \<Longrightarrow> mirostat_sound ops m"
  by (auto simp: mirostat_sound_def archived_mirostat_def mirostat_config_new_def mirostat_from_parts_def split: if_splits)

definition archive_sound :: "('f, 'd) SampleFloat \<Rightarrow> 'd SessionArchive \<Rightarrow> bool" where
  "archive_sound ops a \<longleftrightarrow>
     se_schema_version a = SESSION_ARCHIVE_SCHEMA_VERSION \<and> length (se_model_sha256 a) = 64 \<and> list_all hash_byte (se_model_sha256 a) \<and>
     se_prefill_boundary a \<le> length (se_evaluated_tokens a) \<and> (\<forall>m. se_mirostat a = Some m \<longrightarrow> mirostat_sound ops m)"

lemma archive_validate_sound:
  "archive_sound ops a \<Longrightarrow> \<forall>m. e = Some m \<longrightarrow> se_model_sha256 a = m \<Longrightarrow> archive_validate ops a e = Ok ()"
  by (auto simp: archive_sound_def archive_validate_def validate_schema_def validate_model_hash_def validate_expected_model_def
      validate_prefill_boundary_def validate_mirostat_def archived_mirostat_sound split: option.splits)

lemma validate_unsound: "archive_validate ops a e = Ok () \<Longrightarrow> archive_sound ops a"
  by (auto simp: archive_sound_def archive_validate_def validate_schema_def validate_model_hash_def validate_expected_model_def
      validate_prefill_boundary_def validate_mirostat_def and_then_eq_Ok dest: archived_mirostat_Ok split: option.splits if_splits)

lemma mirostat_text_bound:
  assumes "\<forall>m. st = Some m \<longrightarrow> mirostat_sound ops m" and "\<forall>d. fl_is_finite ops d \<longrightarrow> length (float_text d) \<le> 24"
  shows "length (mirostat_text float_text st) \<le> length JSON_MIROSTAT + 3 * F64_JSON_BYTES"
proof (cases st)
  case (Some m)
  then have "length (float_text (ma_target_surprise m)) \<le> 24" "length (float_text (ma_learning_rate m)) \<le> 24"
    "length (float_text (ma_maximum_surprise m)) \<le> 24"
    using assms by (simp_all add: mirostat_sound_def)
  then show ?thesis using Some by (simp add: mirostat_text_def JSON_MIROSTAT_def F64_JSON_BYTES_def)
qed (simp add: mirostat_text_def JSON_MIROSTAT_def)

lemma archive_text_bound:
  assumes "archive_sound ops a" and "\<forall>d. fl_is_finite ops d \<longrightarrow> length (float_text d) \<le> 24"
    and "max_json_len (length (se_evaluated_tokens a)) = Some bound"
  shows "length (archive_text float_text a) \<le> bound"
proof -
  let ?n = "length (se_evaluated_tokens a)"
  have m: "length (mirostat_text float_text (se_mirostat a)) \<le> length JSON_MIROSTAT + 3 * F64_JSON_BYTES"
    by (rule mirostat_text_bound [OF _ assms(2)]) (use assms(1) in \<open>simp add: archive_sound_def\<close>)
  have t: "length (comma_separated (map (\<lambda>t. decimal (unat t)) (se_evaluated_tokens a))) \<le> ?n * (TOKEN_JSON_BYTES + 1)"
    using comma_separated_bound [of "map (\<lambda>t. decimal (unat t)) (se_evaluated_tokens a)" TOKEN_JSON_BYTES] token_text by simp
  have b: "length (decimal (se_prefill_boundary a)) \<le> (case checked_ilog10 ?n of None \<Rightarrow> 1 | Some d \<Rightarrow> d + 1)"
    by (rule boundary_bound) (use assms(1) in \<open>simp add: archive_sound_def\<close>)
  have v: "length (decimal (unat (se_schema_version a))) = SCHEMA_JSON_BYTES"
    using assms(1) by (simp add: archive_sound_def SCHEMA_JSON_BYTES_def length_decimal)
  have h: "length (se_model_sha256 a) = MODEL_HASH_BYTES" using assms(1) by (simp add: archive_sound_def MODEL_HASH_BYTES_def)
  have "bound = length JSON_ENVELOPE + length JSON_MIROSTAT + MODEL_HASH_BYTES +
      (SCHEMA_JSON_BYTES + (case checked_ilog10 ?n of None \<Rightarrow> 1 | Some d \<Rightarrow> d + 1) + 3 * F64_JSON_BYTES) + ?n * (TOKEN_JSON_BYTES + 1)"
    using assms(3) by (auto simp: max_json_len_def usize_checked_mul_def usize_checked_add_def Let_def bind_eq_Some_conv split: if_splits)
  then show ?thesis using m t b v h by (simp add: archive_text_def JSON_ENVELOPE_def)
qed

text \<open>A session archive round-trips. Take a checkpoint whose Mirostat state, if any, is one the
  constructors can make and whose prefill boundary is within its tokens, and the hash of a
  model, 64 lower-case hexadecimal digits.
  Assume of \<open>serde_json\<close> that it writes the canonical text of the archive, in any pieces, a finite
  float in at most 24 bytes, and reads that text back as the archive. When the length bound does not
  overflow and the allocator grants it, writing never outgrows the reserved buffer, and reading the
  bytes for the same model and reconstructing gives the checkpoint back.\<close>

theorem session_archive_roundtrip:
  fixes write_zero :: 'j
  assumes "length hash = 64" and "list_all hash_byte hash" and "gc_prefill_boundary cp \<le> length (gc_evaluated_tokens cp)"
    and "\<forall>st. gc_mirostat cp = Some st \<longrightarrow>
      mirostat_config_new ops (mc_target_surprise (mr_config st)) (mc_learning_rate (mr_config st)) = Ok (mr_config st) \<and>
      mirostat_from_parts ops (mr_config st) (mr_maximum_surprise st) = Ok st"
    and "\<forall>d. fl_is_finite ops d \<longrightarrow> length (float_text d) \<le> 24"
    and "concat (pieces (archive_of hash cp)) = archive_text float_text (archive_of hash cp)"
    and "from_slice (archive_text float_text (archive_of hash cp)) = Ok (archive_of hash cp)"
    and "max_json_len (length (gc_evaluated_tokens cp)) = Some bound" and "reserve bound = Some capacity" and "bound \<le> capacity"
  shows "\<exists>archive bytes.
      (archive_new ops hash cp :: (_, 'j SessionArchiveError) outcome) = Ok archive \<and>
      to_json ops reserve pieces write_zero archive = Ok bytes \<and> length bytes \<le> bound \<and>
      from_json ops (from_slice :: string \<Rightarrow> (_, 'j) outcome) bytes hash = Ok archive \<and>
      (archive_checkpoint ops archive :: (_, 'j SessionArchiveError) outcome) = Ok cp"
proof -
  let ?a = "archive_of hash cp"
  have mirostat: "mirostat_sound ops m \<and> gc_mirostat cp = Some (restored_mirostat m)" if found: "se_mirostat ?a = Some m" for m
  proof -
    obtain st where st: "gc_mirostat cp = Some st" "m = \<lparr>ma_target_surprise = mc_target_surprise (mr_config st),
        ma_learning_rate = mc_learning_rate (mr_config st), ma_maximum_surprise = mr_maximum_surprise st\<rparr>"
      using found by (auto simp: archive_of_def)
    then show ?thesis using assms(4)
      by (auto simp: mirostat_sound_def restored_mirostat_def mirostat_config_new_def mirostat_from_parts_def split: if_splits)
  qed
  have sound: "archive_sound ops ?a"
    using assms(1-3) mirostat by (simp add: archive_sound_def) (simp add: archive_of_def)
  have tokens: "se_evaluated_tokens ?a = gc_evaluated_tokens cp" by (simp add: archive_of_def)
  have bound: "length (archive_text float_text ?a) \<le> bound"
    using archive_text_bound [OF sound assms(5)] assms(8) tokens by simp
  have "write_pieces write_zero capacity [] (pieces ?a) = Ok (archive_text float_text ?a)"
    using write_pieces_Ok [of "[]" "pieces ?a" capacity write_zero] bound assms(6,10) by simp
  then have written: "to_json ops reserve pieces write_zero ?a = Ok (archive_text float_text ?a)"
    using assms(8,9) tokens by (simp add: to_json_def archive_validate_sound [OF sound])
  have rebuilt: "(archive_checkpoint ops ?a :: (_, 'j SessionArchiveError) outcome) = Ok cp"
  proof (cases "se_mirostat ?a")
    case None
    then have "gc_mirostat cp = None" by (simp add: archive_of_def)
    then show ?thesis by (simp add: archive_checkpoint_def archive_validate_sound [OF sound] None) (simp add: archive_of_def)
  next
    case (Some m)
    then have "gc_mirostat cp = Some (restored_mirostat m)" "mirostat_sound ops m" using mirostat by blast+
    then show ?thesis
      by (simp add: archive_checkpoint_def archive_validate_sound [OF sound] Some archived_mirostat_sound) (simp add: archive_of_def)
  qed
  have made: "(archive_new ops hash cp :: (_, 'j SessionArchiveError) outcome) = Ok ?a"
    by (simp add: archive_new_def from_checkpoint_def archive_validate_sound [OF sound])
  have model: "\<forall>m. Some hash = Some m \<longrightarrow> se_model_sha256 ?a = m" by (simp add: archive_of_def)
  have "from_json ops from_slice (archive_text float_text ?a) hash = Ok ?a"
    using assms(7) by (simp add: from_json_def archive_validate_sound [OF sound model])
  then show ?thesis using made written bound rebuilt by blast
qed

definition demo_hash :: string where
  "demo_hash = replicate 64 CHR ''a''"

definition demo_checkpoint :: "real GenerationCheckpoint" where
  "demo_checkpoint = \<lparr>gc_evaluated_tokens = [7, 4294967295], gc_prefill_boundary = 1,
     gc_mirostat = Some \<lparr>mr_config = \<lparr>mc_target_surprise = 3, mc_learning_rate = 1\<rparr>, mr_maximum_surprise = 6\<rparr>\<rparr>"

theorem session_archive_roundtrip_witness:
  "\<exists>archive bytes.
      (archive_new (real_ops (\<lambda>_ :: nat. True) real) demo_hash demo_checkpoint :: (_, nat SessionArchiveError) outcome) = Ok archive \<and>
      to_json (real_ops (\<lambda>_ :: nat. True) real) Some (\<lambda>a. [archive_text (\<lambda>_. ''3.0'') a]) (0 :: nat) archive = Ok bytes \<and>
      length bytes \<le> 308 \<and> (archive_checkpoint (real_ops (\<lambda>_ :: nat. True) real) archive :: (_, nat SessionArchiveError) outcome) = Ok demo_checkpoint"
proof -
  let ?ops = "real_ops (\<lambda>_ :: nat. True) real"
  let ?a = "archive_of demo_hash demo_checkpoint"
  let ?text = "archive_text (\<lambda>_. ''3.0'')"
  have "length demo_hash = 64" "list_all hash_byte demo_hash" by code_simp+
  moreover have "gc_prefill_boundary demo_checkpoint \<le> length (gc_evaluated_tokens demo_checkpoint)" by (simp add: demo_checkpoint_def)
  ultimately have hyps: "length demo_hash = 64" "list_all hash_byte demo_hash"
    "gc_prefill_boundary demo_checkpoint \<le> length (gc_evaluated_tokens demo_checkpoint)" by blast+
  have st: "\<forall>st. gc_mirostat demo_checkpoint = Some st \<longrightarrow>
      mirostat_config_new ?ops (mc_target_surprise (mr_config st)) (mc_learning_rate (mr_config st)) = Ok (mr_config st) \<and>
      mirostat_from_parts ?ops (mr_config st) (mr_maximum_surprise st) = Ok st"
    by (simp add: demo_checkpoint_def mirostat_config_new_def mirostat_from_parts_def)
  have floats: "\<forall>d. fl_is_finite ?ops d \<longrightarrow> length ((\<lambda>_ :: real. ''3.0'') d) \<le> 24" by simp
  have "max_json_len 2 = Some 308"
    by (simp add: max_json_len_def usize_checked_mul_def usize_checked_add_def JSON_ENVELOPE_def JSON_MIROSTAT_def MODEL_HASH_BYTES_def
        SCHEMA_JSON_BYTES_def TOKEN_JSON_BYTES_def F64_JSON_BYTES_def SESSION_ARCHIVE_SCHEMA_VERSION_def checked_ilog10_def ilog10.simps)
  then have bound: "max_json_len (length (gc_evaluated_tokens demo_checkpoint)) = Some 308" by (simp add: demo_checkpoint_def numeral_2_eq_2)
  show ?thesis
    using session_archive_roundtrip [where pieces = "\<lambda>a. [?text a]" and write_zero = "0 :: nat" and from_slice = "\<lambda>bytes. if bytes = ?text ?a then Ok ?a else Err 1"
        and reserve = Some and capacity = 308, OF hyps st floats _ _ bound]
    by auto
qed

end
