(* ===== verification/Correctable.thy ===== *)
theory Correctable
  imports Sampler
begin

text \<open>
  Distribution-valued proposals from the token history and the controller that selects between them
  (\<open>crates/leone/src/correctable.rs\<close>). Floating point is the record of \<open>Sampler\<close>; a duration is a
  number of nanoseconds and \<open>secs\<close> is \<open>Duration::as_secs_f64\<close>.
\<close>

section \<open>Plans\<close>

definition CORRECTABLE_PLAN_COUNT :: nat where "CORRECTABLE_PLAN_COUNT = 4"
definition CORRECTABLE_WIDTH_SLOTS :: nat where "CORRECTABLE_WIDTH_SLOTS = 9"

datatype CorrectablePlan = PlanSuffix | PlanUnigram | PlanBigram | PlanFourgram

definition all_plans :: "CorrectablePlan list" where
  "all_plans = [PlanSuffix, PlanUnigram, PlanBigram, PlanFourgram]"

fun plan_index :: "CorrectablePlan \<Rightarrow> nat" where
  "plan_index PlanSuffix = 0"
| "plan_index PlanUnigram = 1"
| "plan_index PlanBigram = 2"
| "plan_index PlanFourgram = 3"

fun plan_name :: "CorrectablePlan \<Rightarrow> string" where
  "plan_name PlanSuffix = ''suffix''"
| "plan_name PlanUnigram = ''unigram''"
| "plan_name PlanBigram = ''bigram''"
| "plan_name PlanFourgram = ''fourgram''"

fun preferred_positions :: "CorrectablePlan \<Rightarrow> nat" where
  "preferred_positions PlanUnigram = 2"
| "preferred_positions PlanBigram = 4"
| "preferred_positions PlanSuffix = 8"
| "preferred_positions PlanFourgram = 8"

record 'd CorrectableStep =
  cp_token :: u32
  cp_distribution :: "'d Distribution"

record 'd CorrectableProposal =
  cp_plan :: CorrectablePlan
  cp_steps :: "'d CorrectableStep list"

definition proposal_tokens :: "'d CorrectableProposal \<Rightarrow> u32 list" where
  "proposal_tokens p = map cp_token (cp_steps p)"

definition proposal_distributions :: "'d CorrectableProposal \<Rightarrow> 'd Distribution list" where
  "proposal_distributions p = map cp_distribution (cp_steps p)"

datatype CorrectableError =
    CorrectableEmptyVocabulary
  | CorrectableProposalWidth
  | CorrectableMinimumSpeedup
  | CorrectableMaximumRegret
  | CorrectableEwmaWeight
  | CorrectableVerifierPositions
  | CorrectableCountOverflow
  | CorrectableSampler SamplerError

section \<open>The drafter\<close>

record CorrectableDrafter =
  cd_vocab_size :: nat
  cd_maximum_proposal_tokens :: nat

definition correctable_drafter_new :: "nat \<Rightarrow> nat \<Rightarrow> (CorrectableDrafter, CorrectableError) outcome" where
  "correctable_drafter_new vocab_size maximum_proposal_tokens =
     (if vocab_size = 0 then Err CorrectableEmptyVocabulary
      else if CORRECTABLE_WIDTH_SLOTS - 2 < maximum_proposal_tokens then Err CorrectableProposalWidth
      else Ok \<lparr>cd_vocab_size = vocab_size, cd_maximum_proposal_tokens = maximum_proposal_tokens\<rparr>)"

definition correctable_maximum_positions :: "CorrectableDrafter \<Rightarrow> nat" where
  "correctable_maximum_positions d = cd_maximum_proposal_tokens d + 1"

text \<open>\<open>&history[end - order..end]\<close>, for an \<open>end\<close> between \<open>order\<close> and the length.\<close>

definition window_before :: "u32 list \<Rightarrow> nat \<Rightarrow> nat \<Rightarrow> u32 list" where
  "window_before history order stop = take order (drop (stop - order) history)"

definition order_available :: "u32 list \<Rightarrow> nat \<Rightarrow> bool" where
  "order_available history order =
     (if length history \<le> order \<or> order = 0 then False
      else list_ex (\<lambda>stop. window_before history order stop = window_before history order (length history)) [order..<length history])"

text \<open>The orders of the suffix plan, longest first: \<open>(4..=maximum).rev()\<close>.\<close>

definition suffix_orders :: "u32 list \<Rightarrow> nat list" where
  "suffix_orders history = rev [4..<Suc (min (length history - 1) 64)]"

definition plan_available :: "CorrectableDrafter \<Rightarrow> CorrectablePlan \<Rightarrow> u32 list \<Rightarrow> bool" where
  "plan_available d plan history =
     (case plan of
        PlanUnigram \<Rightarrow> list_ex (\<lambda>token. unat token < cd_vocab_size d) history
      | PlanBigram \<Rightarrow> order_available history 1
      | PlanFourgram \<Rightarrow> order_available history 3
      | PlanSuffix \<Rightarrow> list_ex (order_available history) (suffix_orders history))"

definition available_plans :: "CorrectableDrafter \<Rightarrow> u32 list \<Rightarrow> bool list" where
  "available_plans d history =
     fold (\<lambda>plan available. available[plan_index plan := plan_available d plan history]) all_plans (replicate CORRECTABLE_PLAN_COUNT False)"

text \<open>One count of a token: \<open>counts.get_mut(token)?\<close>, \<open>count.checked_add(1)?\<close>, \<open>total.checked_add(1)?\<close>.\<close>

definition count_one :: "u32 \<Rightarrow> u64 list \<times> u64 \<Rightarrow> (u64 list \<times> u64) option" where
  "count_one token acc =
     (let (counts, seen) = acc in
      if unat token < length counts then
        Option.bind (checked_add (counts ! unat token) 1) (\<lambda>n.
        Option.bind (checked_add seen 1) (\<lambda>seen. Some (counts[unat token := n], seen)))
      else None)"

fun count_all :: "u32 list \<Rightarrow> u64 list \<times> u64 \<Rightarrow> (u64 list \<times> u64) option" where
  "count_all [] acc = Some acc"
| "count_all (token # tokens) acc = Option.bind (count_one token acc) (count_all tokens)"

definition unigram_counts :: "CorrectableDrafter \<Rightarrow> u32 list \<Rightarrow> (u64 list \<times> u64) option" where
  "unigram_counts d history = count_all history (replicate (cd_vocab_size d) 0, 0)"

fun order_counts_from :: "u32 list \<Rightarrow> nat \<Rightarrow> nat list \<Rightarrow> u64 list \<times> u64 \<Rightarrow> (u64 list \<times> u64) option" where
  "order_counts_from history order [] acc = Some acc"
| "order_counts_from history order (stop # stops) acc =
     (if window_before history order stop \<noteq> window_before history order (length history)
      then order_counts_from history order stops acc
      else Option.bind (count_one (history ! stop) acc) (order_counts_from history order stops))"

definition order_counts :: "CorrectableDrafter \<Rightarrow> u32 list \<Rightarrow> nat \<Rightarrow> (u64 list \<times> u64) option" where
  "order_counts d history order = order_counts_from history order [order..<length history] (replicate (cd_vocab_size d) 0, 0)"

definition distribution_for_order ::
  "('f, 'd) SampleFloat \<Rightarrow> CorrectableDrafter \<Rightarrow> u32 list \<Rightarrow> nat \<Rightarrow> 'd Distribution option" where
  "distribution_for_order ops d history order =
     (if history = [] \<or> length history \<le> order then None
      else
        Option.bind (if order = 0 then unigram_counts d history else order_counts d history order) (\<lambda>(counts, seen).
        if seen = 0 then None
        else
          case from_probabilities ops (map (\<lambda>n. fl_div ops (fl_of_nat ops (unat n)) (fl_of_nat ops (unat seen))) counts) of
            Ok distribution \<Rightarrow> Some distribution
          | _ \<Rightarrow> None))"

definition next_distribution ::
  "('f, 'd) SampleFloat \<Rightarrow> CorrectableDrafter \<Rightarrow> CorrectablePlan \<Rightarrow> u32 list \<Rightarrow> 'd Distribution option" where
  "next_distribution ops d plan history =
     (case plan of
        PlanUnigram \<Rightarrow> distribution_for_order ops d history 0
      | PlanBigram \<Rightarrow> distribution_for_order ops d history 1
      | PlanFourgram \<Rightarrow> distribution_for_order ops d history 3
      | PlanSuffix \<Rightarrow> find_map_some (distribution_for_order ops d history) (suffix_orders history))"

text \<open>The loop of \<open>propose\<close>: \<open>n\<close> steps are left, \<open>offset\<close> have been taken.\<close>

fun propose_steps ::
  "('f, 'd) SampleFloat \<Rightarrow> CorrectableDrafter \<Rightarrow> CorrectablePlan \<Rightarrow> u64 \<Rightarrow> u64 \<Rightarrow> nat \<Rightarrow> nat \<Rightarrow> u32 list \<Rightarrow> ('d CorrectableStep list, CorrectableError) outcome" where
  "propose_steps ops d plan seed position 0 offset working = Ok []"
| "propose_steps ops d plan seed position (Suc n) offset working =
     (case next_distribution ops d plan working of
        None \<Rightarrow> Ok []
      | Some distribution \<Rightarrow>
          and_then (ok_or (checked_add position (of_nat offset)) CorrectableCountOverflow) (\<lambda>draw_position.
          and_then (map_err CorrectableSampler (select_draft ops distribution seed draw_position)) (\<lambda>token.
          and_then (propose_steps ops d plan seed position n (offset + 1) (working @ [token])) (\<lambda>steps.
          Ok (\<lparr>cp_token = token, cp_distribution = distribution\<rparr> # steps)))))"

definition correctable_propose ::
  "('f, 'd) SampleFloat \<Rightarrow> CorrectableDrafter \<Rightarrow> CorrectablePlan \<Rightarrow> u32 list \<Rightarrow> nat \<Rightarrow> u64 \<Rightarrow> u64 \<Rightarrow> ('d CorrectableProposal option, CorrectableError) outcome" where
  "correctable_propose ops d plan history tokens seed position =
     (let tokens = min tokens (cd_maximum_proposal_tokens d) in
      if tokens = 0 then Ok None
      else
        and_then (propose_steps ops d plan seed position tokens 0 history) (\<lambda>steps.
        Ok (if steps = [] then None else Some \<lparr>cp_plan = plan, cp_steps = steps\<rparr>)))"

section \<open>The controller\<close>

record 'd CorrectableControllerConfig =
  cc_plain_warmup_rounds :: u64
  cc_minimum_speedup :: 'd
  cc_maximum_regret_fraction :: 'd
  cc_ewma_weight :: 'd

definition correctable_config_new ::
  "('f, 'd) SampleFloat \<Rightarrow> u64 \<Rightarrow> 'd \<Rightarrow> 'd \<Rightarrow> 'd \<Rightarrow> ('d CorrectableControllerConfig, CorrectableError) outcome" where
  "correctable_config_new ops warmup speedup regret weight =
     (if \<not> fl_is_finite ops speedup \<or> fl_le ops speedup (fl_one ops) then Err CorrectableMinimumSpeedup
      else if \<not> fl_is_finite ops regret \<or> \<not> (fl_le ops (fl_zero ops) regret \<and> fl_less ops regret (fl_one ops)) then Err CorrectableMaximumRegret
      else if \<not> fl_is_finite ops weight \<or> fl_le ops weight (fl_zero ops) \<or> fl_less ops (fl_one ops) weight then Err CorrectableEwmaWeight
      else Ok \<lparr>cc_plain_warmup_rounds = warmup, cc_minimum_speedup = speedup, cc_maximum_regret_fraction = regret, cc_ewma_weight = weight\<rparr>)"

datatype CorrectableReason =
  ReasonNoProposal | ReasonPlainWarmup | ReasonPlanProbe | ReasonBestMeasuredPlan | ReasonBelowSpeedupGate | ReasonRegretLimit

datatype CorrectableDecision = DecidePlain CorrectableReason | DecideSpeculate CorrectablePlan nat CorrectableReason

record 'd CorrectableObservation =
  co_plan :: "CorrectablePlan option"
  co_verifier_positions :: nat
  co_produced_tokens :: nat
  co_proposed_tokens :: nat
  co_accepted_tokens :: nat
  co_overlap_sum :: 'd
  co_overlap_proposals :: nat
  co_wall_duration :: nat
  co_controller_duration :: nat

record 'd PlanMeasurement =
  pm_rounds :: u64
  pm_nanoseconds_per_token :: 'd

record 'd CorrectableControllerStats =
  cr_plain_rounds :: u64
  cr_speculative_rounds :: u64
  cr_below_gate_rounds :: u64
  cr_regret_limited_rounds :: u64
  cr_plan_rounds :: "u64 list"
  cr_width_rounds :: "u64 list"
  cr_proposed_tokens :: u64
  cr_accepted_tokens :: u64
  cr_overlap_sum :: 'd
  cr_overlap_proposals :: u64
  cr_controller_duration :: nat

record 'd CorrectableController =
  ct_config :: "'d CorrectableControllerConfig"
  ct_plain :: "'d PlanMeasurement"
  ct_plans :: "'d PlanMeasurement list"
  ct_cumulative_speculative_ns :: 'd
  ct_cumulative_plain_equivalent_ns :: 'd
  ct_regret_limited :: bool
  ct_stats :: "'d CorrectableControllerStats"

definition default_measurement :: "('f, 'd) SampleFloat \<Rightarrow> 'd PlanMeasurement" where
  "default_measurement ops = \<lparr>pm_rounds = 0, pm_nanoseconds_per_token = fl_zero ops\<rparr>"

definition default_correctable_stats :: "('f, 'd) SampleFloat \<Rightarrow> 'd CorrectableControllerStats" where
  "default_correctable_stats ops =
     \<lparr>cr_plain_rounds = 0, cr_speculative_rounds = 0, cr_below_gate_rounds = 0, cr_regret_limited_rounds = 0,
      cr_plan_rounds = replicate CORRECTABLE_PLAN_COUNT 0, cr_width_rounds = replicate CORRECTABLE_WIDTH_SLOTS 0,
      cr_proposed_tokens = 0, cr_accepted_tokens = 0, cr_overlap_sum = fl_zero ops, cr_overlap_proposals = 0, cr_controller_duration = 0\<rparr>"

definition correctable_controller_new :: "('f, 'd) SampleFloat \<Rightarrow> 'd CorrectableControllerConfig \<Rightarrow> 'd CorrectableController" where
  "correctable_controller_new ops config =
     \<lparr>ct_config = config, ct_plain = default_measurement ops, ct_plans = replicate CORRECTABLE_PLAN_COUNT (default_measurement ops),
      ct_cumulative_speculative_ns = fl_zero ops, ct_cumulative_plain_equivalent_ns = fl_zero ops, ct_regret_limited = False,
      ct_stats = default_correctable_stats ops\<rparr>"

definition validate_decision_positions :: "nat \<Rightarrow> (unit, CorrectableError) outcome" where
  "validate_decision_positions maximum_positions =
     (if \<not> (1 \<le> maximum_positions \<and> maximum_positions < CORRECTABLE_WIDTH_SLOTS) then Err CorrectableVerifierPositions else Ok ())"

definition early_plain_decision :: "'d CorrectableController \<Rightarrow> bool list \<Rightarrow> CorrectableDecision option" where
  "early_plain_decision c available =
     (if \<not> list_ex (\<lambda>v. v) available then Some (DecidePlain ReasonNoProposal)
      else if pm_rounds (ct_plain c) < cc_plain_warmup_rounds (ct_config c) then Some (DecidePlain ReasonPlainWarmup)
      else None)"

definition probe_plan :: "'d CorrectableController \<Rightarrow> bool list \<Rightarrow> CorrectablePlan option" where
  "probe_plan c available = find (\<lambda>plan. available ! plan_index plan \<and> pm_rounds (ct_plans c ! plan_index plan) = 0) all_plans"

definition plan_speedup :: "('f, 'd) SampleFloat \<Rightarrow> 'd CorrectableController \<Rightarrow> CorrectablePlan \<Rightarrow> 'd" where
  "plan_speedup ops c plan =
     fl_div ops (pm_nanoseconds_per_token (ct_plain c)) (pm_nanoseconds_per_token (ct_plans c ! plan_index plan))"

definition best_measured_plan :: "('f, 'd) SampleFloat \<Rightarrow> 'd CorrectableController \<Rightarrow> bool list \<Rightarrow> (CorrectablePlan \<times> 'd) option" where
  "best_measured_plan ops c available =
     max_by (\<lambda>left right. fl_total_cmp ops (snd left) (snd right))
       (map (\<lambda>plan. (plan, plan_speedup ops c plan))
         (filter (\<lambda>plan. available ! plan_index plan \<and> pm_rounds (ct_plans c ! plan_index plan) \<noteq> 0) all_plans))"

definition speculate :: "CorrectablePlan \<Rightarrow> nat \<Rightarrow> CorrectableReason \<Rightarrow> CorrectableDecision" where
  "speculate plan maximum_positions reason = DecideSpeculate plan (max (min (preferred_positions plan) maximum_positions) 2) reason"

definition correctable_decide ::
  "('f, 'd) SampleFloat \<Rightarrow> bool list \<Rightarrow> nat \<Rightarrow> 'd CorrectableController \<Rightarrow> (CorrectableDecision, CorrectableError) outcome \<times> 'd CorrectableController" where
  "correctable_decide ops available maximum_positions c =
     try_pure (validate_decision_positions maximum_positions) c (\<lambda>_.
     case early_plain_decision c available of
       Some decision \<Rightarrow> (Ok decision, c)
     | None \<Rightarrow>
         (case probe_plan c available of
            Some plan \<Rightarrow> (Ok (speculate plan maximum_positions ReasonPlanProbe), c)
          | None \<Rightarrow>
              if ct_regret_limited c then
                try_pure (ok_or (checked_add (cr_regret_limited_rounds (ct_stats c)) 1) CorrectableCountOverflow) c (\<lambda>n.
                (Ok (DecidePlain ReasonRegretLimit), c\<lparr>ct_stats := (ct_stats c)\<lparr>cr_regret_limited_rounds := n\<rparr>\<rparr>))
              else
                let below = try_pure (ok_or (checked_add (cr_below_gate_rounds (ct_stats c)) 1) CorrectableCountOverflow) c (\<lambda>n.
                  (Ok (DecidePlain ReasonBelowSpeedupGate), c\<lparr>ct_stats := (ct_stats c)\<lparr>cr_below_gate_rounds := n\<rparr>\<rparr>)) in
                (case best_measured_plan ops c available of
                   Some (plan, speedup) \<Rightarrow>
                     if fl_le ops (cc_minimum_speedup (ct_config c)) speedup
                     then (Ok (speculate plan maximum_positions ReasonBestMeasuredPlan), c) else below
                 | None \<Rightarrow> below)))"

text \<open>The update of a measurement; the count of its rounds wraps, as it does in a release build.\<close>

definition measurement_update :: "('f, 'd) SampleFloat \<Rightarrow> 'd \<Rightarrow> 'd \<Rightarrow> 'd PlanMeasurement \<Rightarrow> 'd PlanMeasurement" where
  "measurement_update ops v weight m =
     \<lparr>pm_rounds = pm_rounds m + 1,
      pm_nanoseconds_per_token =
        (if pm_rounds m = 0 then v
         else fl_add ops (fl_mul ops weight v) (fl_mul ops (fl_sub ops (fl_one ops) weight) (pm_nanoseconds_per_token m)))\<rparr>"

text \<open>\<open>*counter = counter.checked_add(n).ok_or(CountOverflow)?\<close> on a counter of the statistics.\<close>

definition bump ::
  "('d CorrectableControllerStats \<Rightarrow> u64) \<Rightarrow> (u64 \<Rightarrow> 'd CorrectableControllerStats \<Rightarrow> 'd CorrectableControllerStats) \<Rightarrow> u64 \<Rightarrow>
   'd CorrectableController \<Rightarrow> ('d CorrectableController \<Rightarrow> (unit, CorrectableError) outcome \<times> 'd CorrectableController) \<Rightarrow>
   (unit, CorrectableError) outcome \<times> 'd CorrectableController" where
  "bump get put n c k =
     try_pure (ok_or (checked_add (get (ct_stats c)) n) CorrectableCountOverflow) c (\<lambda>v. k (c\<lparr>ct_stats := put v (ct_stats c)\<rparr>))"

definition observe_plan_round ::
  "('f, 'd) SampleFloat \<Rightarrow> 'd CorrectableObservation \<Rightarrow> CorrectablePlan \<Rightarrow> 'd \<Rightarrow> 'd \<Rightarrow> 'd CorrectableController \<Rightarrow>
   (unit, CorrectableError) outcome \<times> 'd CorrectableController" where
  "observe_plan_round ops observation plan duration_ns ns_per_token c =
     (let i = plan_index plan;
          c = c\<lparr>ct_plans := (ct_plans c)[i := measurement_update ops ns_per_token (cc_ewma_weight (ct_config c)) (ct_plans c ! i)]\<rparr> in
      bump cr_speculative_rounds (\<lambda>v. cr_speculative_rounds_update (\<lambda>_. v)) 1 c (\<lambda>c.
      bump (\<lambda>s. cr_plan_rounds s ! i) (\<lambda>v. cr_plan_rounds_update (\<lambda>r. r[i := v])) 1 c (\<lambda>c.
      bump cr_proposed_tokens (\<lambda>v. cr_proposed_tokens_update (\<lambda>_. v)) (of_nat (co_proposed_tokens observation)) c (\<lambda>c.
      bump cr_accepted_tokens (\<lambda>v. cr_accepted_tokens_update (\<lambda>_. v)) (of_nat (co_accepted_tokens observation)) c (\<lambda>c.
      let c = c\<lparr>ct_stats := (ct_stats c)\<lparr>cr_overlap_sum := fl_add ops (cr_overlap_sum (ct_stats c)) (co_overlap_sum observation)\<rparr>\<rparr> in
      bump cr_overlap_proposals (\<lambda>v. cr_overlap_proposals_update (\<lambda>_. v)) (of_nat (co_overlap_proposals observation)) c (\<lambda>c.
      let speculative = fl_add ops (ct_cumulative_speculative_ns c) duration_ns;
          plain = fl_add ops (ct_cumulative_plain_equivalent_ns c)
            (fl_mul ops (pm_nanoseconds_per_token (ct_plain c)) (fl_of_nat ops (co_produced_tokens observation))) in
      (Ok (), c\<lparr>ct_cumulative_speculative_ns := speculative, ct_cumulative_plain_equivalent_ns := plain,
         ct_regret_limited := fl_less ops
           (fl_mul ops plain (fl_add ops (fl_one ops) (cc_maximum_regret_fraction (ct_config c)))) speculative\<rparr>)))))))"

text \<open>The sum of two durations panics when it exceeds the largest \<open>Duration\<close>.\<close>

definition add_durations :: "nat \<Rightarrow> nat \<Rightarrow> (nat, CorrectableError) outcome" where
  "add_durations a b = (if a + b < 2 ^ 64 * 10 ^ 9 then Ok (a + b) else Panic)"

definition correctable_observe ::
  "('f, 'd) SampleFloat \<Rightarrow> (nat \<Rightarrow> 'd) \<Rightarrow> 'd CorrectableObservation \<Rightarrow> 'd CorrectableController \<Rightarrow>
   (unit, CorrectableError) outcome \<times> 'd CorrectableController" where
  "correctable_observe ops secs observation c =
     (let width = co_verifier_positions observation in
      if CORRECTABLE_WIDTH_SLOTS \<le> width \<or> \<not> fl_is_finite ops (co_overlap_sum observation) then (Err CorrectableVerifierPositions, c)
      else
        let duration_ns = fl_mul ops (secs (co_wall_duration observation)) (fl_of_nat ops 1000000000);
            ns_per_token = fl_div ops duration_ns (fl_of_nat ops (co_produced_tokens observation)) in
        try_pure (add_durations (cr_controller_duration (ct_stats c)) (co_controller_duration observation)) c (\<lambda>duration.
        let c = c\<lparr>ct_stats := (ct_stats c)\<lparr>cr_controller_duration := duration\<rparr>\<rparr> in
        bump (\<lambda>s. cr_width_rounds s ! width) (\<lambda>v. cr_width_rounds_update (\<lambda>r. r[width := v])) 1 c (\<lambda>c.
        case co_plan observation of
          None \<Rightarrow>
            let c = c\<lparr>ct_plain := measurement_update ops ns_per_token (cc_ewma_weight (ct_config c)) (ct_plain c)\<rparr> in
            bump cr_plain_rounds (\<lambda>v. cr_plain_rounds_update (\<lambda>_. v)) 1 c (\<lambda>c. (Ok (), c))
        | Some plan \<Rightarrow> observe_plan_round ops observation plan duration_ns ns_per_token c)))"

end
