(* ===== verification/Correctable_Props.thy ===== *)
theory Correctable_Props
  imports Correctable Sampler_Exact
begin

text \<open>
  The drafter of \<open>correctable.rs\<close> against its specification: each plan proposes the relative
  frequencies of the tokens that followed earlier occurrences of the latest context, and the
  availability scan predicts exactly which plans have a proposal.
\<close>

section \<open>The specification\<close>

text \<open>
  The tokens that followed an earlier occurrence of the latest \<open>order\<close> tokens: position \<open>i\<close> counts
  when the \<open>order\<close> tokens before it are, last to first, those at the end of the history.
\<close>

definition continuations :: "u32 list \<Rightarrow> nat \<Rightarrow> u32 list" where
  "continuations history order =
     map ((!) history)
       (filter (\<lambda>i. \<forall>j<order. history ! (i - Suc j) = history ! (length history - Suc j)) [order..<length history])"

definition frequencies :: "nat \<Rightarrow> u32 list \<Rightarrow> real list" where
  "frequencies vocab tokens = map (\<lambda>t. real (length (filter (\<lambda>x. unat x = t) tokens)) / real (length tokens)) [0..<vocab]"

text \<open>The lengths of the context a plan tries, in the order it tries them.\<close>

fun plan_orders :: "CorrectablePlan \<Rightarrow> nat list" where
  "plan_orders PlanUnigram = [0]"
| "plan_orders PlanBigram = [1]"
| "plan_orders PlanFourgram = [3]"
| "plan_orders PlanSuffix = rev [4..<65]"

definition empirical_proposal :: "nat \<Rightarrow> CorrectablePlan \<Rightarrow> u32 list \<Rightarrow> real list option" where
  "empirical_proposal vocab plan history =
     map_option (\<lambda>order. frequencies vocab (continuations history order))
       (find (\<lambda>order. continuations history order \<noteq> []) (plan_orders plan))"

section \<open>Counting\<close>

lemma order_counts_from_eq:
  "order_counts_from history order stops acc =
   count_all (map ((!) history) (filter (\<lambda>stop. window_before history order stop = window_before history order (length history)) stops)) acc"
  by (induction stops arbitrary: acc) (auto split: Option.bind_splits)

lemma window_before_nth:
  assumes "order \<le> i" and "i \<le> length history" and "j < order"
  shows "window_before history order i ! (order - Suc j) = history ! (i - Suc j)"
  using assms by (simp add: window_before_def nth_append)

lemma same_window:
  assumes "order \<le> i" and "i < length history"
  shows "window_before history order i = window_before history order (length history) \<longleftrightarrow>
    (\<forall>j<order. history ! (i - Suc j) = history ! (length history - Suc j))"
proof
  assume windows: "window_before history order i = window_before history order (length history)"
  show "\<forall>j<order. history ! (i - Suc j) = history ! (length history - Suc j)"
  proof (intro allI impI)
    fix j
    assume j: "j < order"
    show "history ! (i - Suc j) = history ! (length history - Suc j)"
      using window_before_nth [of order i history j] window_before_nth [of order "length history" history j] assms j windows by simp
  qed
next
  assume same: "\<forall>j<order. history ! (i - Suc j) = history ! (length history - Suc j)"
  show "window_before history order i = window_before history order (length history)"
  proof (rule nth_equalityI)
    show "length (window_before history order i) = length (window_before history order (length history))"
      using assms by (simp add: window_before_def)
    fix k
    assume "k < length (window_before history order i)"
    then have k: "k < order" using assms by (simp add: window_before_def)
    let ?j = "order - Suc k"
    have j: "?j < order" "order - Suc ?j = k" using k by simp_all
    have "window_before history order i ! (order - Suc ?j) = history ! (i - Suc ?j)"
      using assms j(1) by (intro window_before_nth) simp_all
    moreover have "window_before history order (length history) ! (order - Suc ?j) = history ! (length history - Suc ?j)"
      using assms j(1) by (intro window_before_nth) simp_all
    moreover have "history ! (i - Suc ?j) = history ! (length history - Suc ?j)" using same j(1) by blast
    ultimately show "window_before history order i ! k = window_before history order (length history) ! k" unfolding j(2) by simp
  qed
qed

lemma continuations_windows:
  "continuations history order =
   map ((!) history) (filter (\<lambda>stop. window_before history order stop = window_before history order (length history)) [order..<length history])"
  unfolding continuations_def by (intro arg_cong [where f = "map _"] filter_cong refl) (simp add: same_window)

lemma order_counts_eq: "order_counts d history order = count_all (continuations history order) (replicate (cd_vocab_size d) 0, 0)"
  by (simp add: order_counts_def order_counts_from_eq continuations_windows)

lemma continuations_zero: "continuations history 0 = history"
  by (simp add: continuations_def map_nth)

lemma continuations_subset: "set (continuations history order) \<subseteq> set history"
  by (auto simp: continuations_def)

lemma continuations_length: "length (continuations history order) \<le> length history"
proof -
  have "length (filter P [order..<length history]) \<le> length [order..<length history]" for P by (rule length_filter_le)
  also have "length [order..<length history] \<le> length history" by simp
  finally show ?thesis by (simp add: continuations_def)
qed

lemma increment: "unat a + 1 < 2 ^ 64 \<Longrightarrow> checked_add a 1 = Some (a + 1) \<and> unat (a + 1) = unat a + 1"
  for a :: u64
  by (simp add: checked_add_def unat_word_ariths take_bit_nat_eq_self)

lemma count_all_Ok:
  "\<forall>t\<in>set tokens. unat t < length counts \<Longrightarrow> \<forall>n\<in>set counts. unat n + length tokens < 2 ^ 64 \<Longrightarrow> unat seen + length tokens < 2 ^ 64 \<Longrightarrow>
   \<exists>after m. count_all tokens (counts, seen) = Some (after, m) \<and> unat m = unat seen + length tokens \<and> length after = length counts \<and>
     (\<forall>t<length counts. unat (after ! t) = unat (counts ! t) + length (filter (\<lambda>x. unat x = t) tokens))"
proof (induction tokens arbitrary: counts seen)
  case (Cons x xs)
  let ?i = "unat x"
  have i: "?i < length counts" using Cons.prems(1) by simp
  have n: "checked_add (counts ! ?i) 1 = Some (counts ! ?i + 1)" "unat (counts ! ?i + 1) = unat (counts ! ?i) + 1"
    using increment [of "counts ! ?i"] Cons.prems(2) i by (auto dest!: nth_mem)
  have s: "checked_add seen 1 = Some (seen + 1)" "unat (seen + 1) = unat seen + 1"
    using increment [of seen] Cons.prems(3) by simp_all
  have one: "count_one x (counts, seen) = Some (counts[?i := counts ! ?i + 1], seen + 1)"
    using i n(1) s(1) by (simp add: count_one_def)
  have entries: "\<forall>n\<in>set (counts[?i := counts ! ?i + 1]). unat n + length xs < 2 ^ 64"
  proof
    fix v
    assume "v \<in> set (counts[?i := counts ! ?i + 1])"
    then have "v = counts ! ?i + 1 \<or> v \<in> set counts" using set_update_subset_insert by fastforce
    then show "unat v + length xs < 2 ^ 64" using n(2) Cons.prems(2) i by (auto dest!: nth_mem)
  qed
  obtain after m where "count_all xs (counts[?i := counts ! ?i + 1], seen + 1) = Some (after, m)"
    "unat m = unat (seen + 1) + length xs" "length after = length counts"
    "\<forall>t<length counts. unat (after ! t) = unat (counts[?i := counts ! ?i + 1] ! t) + length (filter (\<lambda>x. unat x = t) xs)"
    using Cons.IH [of "counts[?i := counts ! ?i + 1]" "seen + 1"] Cons.prems entries s(2) by auto
  then show ?case using one n(2) s(2) i by (auto simp: nth_list_update)
qed simp

lemma filter_partition: "\<forall>x\<in>set xs. unat x < n \<Longrightarrow> (\<Sum>t\<leftarrow>[0..<n]. real (length (filter (\<lambda>x. unat (x :: u32) = t) xs))) = real (length xs)"
proof (induction xs)
  case (Cons x xs)
  have "(\<Sum>t\<leftarrow>[0..<n]. real (length (filter (\<lambda>x. unat x = t) (x # xs)))) =
      (\<Sum>t\<leftarrow>[0..<n]. (if unat x = t then 1 else 0) + real (length (filter (\<lambda>x. unat x = t) xs)))"
    by (intro arg_cong [where f = sum_list] map_cong) simp_all
  also have "\<dots> = (\<Sum>t\<leftarrow>[0..<n]. if unat x = t then 1 else 0) + real (length xs)"
    using Cons by (simp add: sum_list_addf)
  also have "(\<Sum>t\<leftarrow>[0..<n]. if unat x = t then 1 else (0 :: real)) = 1"
    using Cons.prems by (simp add: interv_sum_list_conv_sum_set_nat)
  finally show ?case by simp
qed simp

lemma frequencies_distribution:
  assumes "\<forall>x\<in>set xs. unat x < n" and "xs \<noteq> []"
  shows "is_distribution (frequencies n xs)"
proof -
  have "sum_list (frequencies n xs) = (\<Sum>t\<leftarrow>[0..<n]. real (length (filter (\<lambda>x. unat x = t) xs))) / real (length xs)"
    by (induction n) (simp_all add: frequencies_def add_divide_distrib)
  then show ?thesis using assms filter_partition [OF assms(1)] by (simp add: is_distribution_def frequencies_def list_all_iff)
qed

lemma from_probabilities_distribution:
  "is_distribution ps \<Longrightarrow> from_probabilities (real_ops fin w) ps = Ok \<lparr>ds_probabilities = ps\<rparr>"
  by (auto simp: from_probabilities_def is_distribution_def list_all_iff list_ex_iff not_less)

section \<open>The proposals\<close>

lemma distribution_for_order_eq:
  assumes "\<forall>t\<in>set history. unat t < cd_vocab_size d" and "length history < 2 ^ 64"
  shows "distribution_for_order (real_ops fin w) d history order =
    (if continuations history order = [] then None
     else Some \<lparr>ds_probabilities = frequencies (cd_vocab_size d) (continuations history order)\<rparr>)"
proof (cases "history = [] \<or> length history \<le> order")
  case True
  then have "continuations history order = []" by (auto simp: continuations_def)
  then show ?thesis using True by (simp add: distribution_for_order_def)
next
  case False
  let ?xs = "continuations history order"
  have inside: "\<forall>x\<in>set ?xs. unat x < cd_vocab_size d" using assms(1) continuations_subset by blast
  obtain after m where counted: "count_all ?xs (replicate (cd_vocab_size d) 0, 0) = Some (after, m)" "unat m = length ?xs"
    "length after = cd_vocab_size d" "\<forall>t<cd_vocab_size d. unat (after ! t) = length (filter (\<lambda>x. unat x = t) ?xs)"
    using count_all_Ok [of ?xs "replicate (cd_vocab_size d) 0" 0] inside continuations_length [of history order] assms(2)
    by auto
  have counts: "(if order = 0 then unigram_counts d history else order_counts d history order) = Some (after, m)"
    using counted(1) by (auto simp: unigram_counts_def order_counts_eq continuations_zero)
  have share: "map (\<lambda>n. real (unat n) / real (unat m)) after = frequencies (cd_vocab_size d) ?xs"
    using counted(2,3,4) by (intro nth_equalityI) (simp_all add: frequencies_def del: of_nat_unat flip: counted(2))
  have zero: "m = 0 \<longleftrightarrow> ?xs = []" using counted(2) by (metis length_0_conv unat_eq_0)
  show ?thesis
  proof (cases "?xs = []")
    case True
    then show ?thesis using False zero by (simp add: distribution_for_order_def counts)
  next
    case some: False
    show ?thesis
      using False some zero
      by (simp add: distribution_for_order_def counts share from_probabilities_distribution [OF frequencies_distribution [OF inside some]] del: of_nat_unat)
  qed
qed

lemma find_map_some_find:
  "find_map_some (\<lambda>x. if P x then None else Some (f x)) xs = map_option f (find (\<lambda>x. \<not> P x) xs)"
  by (induction xs) auto

lemma find_append: "find P (xs @ ys) = (case find P xs of None \<Rightarrow> find P ys | Some x \<Rightarrow> Some x)"
  by (induction xs) auto

lemma find_None: "\<forall>x\<in>set xs. \<not> P x \<Longrightarrow> find P xs = None"
  by (simp add: find_None_iff)

lemma suffix_orders_find:
  "find (\<lambda>order. continuations history order \<noteq> []) (suffix_orders history) = find (\<lambda>order. continuations history order \<noteq> []) (plan_orders PlanSuffix)"
proof -
  let ?k = "max 4 (Suc (min (length history - 1) 64))"
  have "[4..<65] = [4..<?k] @ [?k..<65]" using upt_add_eq_append [of 4 ?k "65 - ?k"] by simp
  then have "plan_orders PlanSuffix = rev [?k..<65] @ rev [4..<?k]" by simp
  moreover have "find (\<lambda>order. continuations history order \<noteq> []) (rev [?k..<65]) = None"
    by (rule find_None) (auto simp: continuations_def)
  moreover have "suffix_orders history = rev [4..<?k]" by (simp add: suffix_orders_def max_def)
  ultimately show ?thesis by (simp add: find_append)
qed

lemma order_available_eq: "0 < order \<Longrightarrow> order_available history order \<longleftrightarrow> continuations history order \<noteq> []"
  by (auto simp: order_available_def continuations_windows list_ex_iff filter_empty_conv)

lemma plan_available_eq:
  assumes "\<forall>t\<in>set history. unat t < cd_vocab_size d"
  shows "plan_available d plan history \<longleftrightarrow> find (\<lambda>order. continuations history order \<noteq> []) (plan_orders plan) \<noteq> None"
proof (cases plan)
  case PlanSuffix
  have "0 < order" if "order \<in> set (suffix_orders history)" for order using that by (auto simp: suffix_orders_def)
  then show ?thesis
    using PlanSuffix by (auto simp: plan_available_def list_ex_iff order_available_eq find_None_iff simp flip: suffix_orders_find simp del: plan_orders.simps)
next
  case PlanUnigram
  then show ?thesis using assms by (cases history) (auto simp: plan_available_def continuations_zero list_ex_iff)
qed (simp_all add: plan_available_def order_available_eq)

text \<open>In exact arithmetic, for a history inside the vocabulary and shorter than \<open>2 ^ 64\<close>, every plan
  proposes the relative frequencies of the tokens that followed the earlier occurrences of the latest
  context, for the first context length of the plan that occurred before (none, one and three tokens
  for the unigram, bigram and fourgram plans; 64 down to 4 for the suffix plan), and proposes nothing
  when there is none. What it proposes is a probability distribution over the vocabulary, and
  \<open>available_plans\<close> marks exactly the plans that have a proposal.
\<close>

theorem proposals_are_empirical_frequencies:
  assumes "\<forall>t\<in>set history. unat t < cd_vocab_size d" and "length history < 2 ^ 64"
  shows "map_option ds_probabilities (next_distribution (real_ops fin w) d plan history) = empirical_proposal (cd_vocab_size d) plan history \<and>
    (\<forall>ds. next_distribution (real_ops fin w) d plan history = Some ds \<longrightarrow>
      list_all (\<lambda>p. 0 \<le> p) (ds_probabilities ds) \<and> sum_list (ds_probabilities ds) = 1 \<and> length (ds_probabilities ds) = cd_vocab_size d) \<and>
    (available_plans d history ! plan_index plan \<longleftrightarrow> next_distribution (real_ops fin w) d plan history \<noteq> None)"
proof (intro conjI)
  let ?seen = "\<lambda>order. continuations history order \<noteq> []"
  let ?found = "find ?seen (plan_orders plan)"
  let ?dist = "\<lambda>order. \<lparr>ds_probabilities = frequencies (cd_vocab_size d) (continuations history order)\<rparr>"
  have each: "distribution_for_order (real_ops fin w) d history = (\<lambda>order. if continuations history order = [] then None else Some (?dist order))"
    by (rule ext) (rule distribution_for_order_eq [OF assms])
  have "next_distribution (real_ops fin w) d plan history = map_option ?dist ?found"
    by (cases plan) (simp_all add: next_distribution_def each find_map_some_find suffix_orders_find del: plan_orders.simps(4))
  note next_eq = this
  show "map_option ds_probabilities (next_distribution (real_ops fin w) d plan history) = empirical_proposal (cd_vocab_size d) plan history"
    by (simp add: next_eq empirical_proposal_def option.map_comp comp_def)
  show "\<forall>ds. next_distribution (real_ops fin w) d plan history = Some ds \<longrightarrow>
      list_all (\<lambda>p. 0 \<le> p) (ds_probabilities ds) \<and> sum_list (ds_probabilities ds) = 1 \<and> length (ds_probabilities ds) = cd_vocab_size d"
  proof (intro allI impI)
    fix ds
    assume "next_distribution (real_ops fin w) d plan history = Some ds"
    then obtain order where o: "?found = Some order" "ds = ?dist order" by (auto simp: next_eq)
    then have "continuations history order \<noteq> []" by (auto simp: find_Some_iff)
    moreover have "\<forall>x\<in>set (continuations history order). unat x < cd_vocab_size d" using assms(1) continuations_subset by blast
    ultimately have "is_distribution (frequencies (cd_vocab_size d) (continuations history order))" by (intro frequencies_distribution)
    then show "list_all (\<lambda>p. 0 \<le> p) (ds_probabilities ds) \<and> sum_list (ds_probabilities ds) = 1 \<and> length (ds_probabilities ds) = cd_vocab_size d"
      by (simp add: o(2) is_distribution_def frequencies_def)
  qed
  have "available_plans d history ! plan_index plan = plan_available d plan history"
    by (cases plan) (simp_all add: available_plans_def all_plans_def CORRECTABLE_PLAN_COUNT_def eval_nat_numeral)
  then show "available_plans d history ! plan_index plan \<longleftrightarrow> next_distribution (real_ops fin w) d plan history \<noteq> None"
    by (simp add: next_eq plan_available_eq [OF assms(1)])
qed

theorem proposals_are_empirical_frequencies_witness:
  "map_option ds_probabilities
     (next_distribution (real_ops (\<lambda>_ :: real. True) id) \<lparr>cd_vocab_size = 3, cd_maximum_proposal_tokens = 2\<rparr> PlanBigram [1, 2, 1, 0, 1, 2, 1]) =
     Some [1 / 3, 0, 2 / 3]"
proof -
  let ?d = "\<lparr>cd_vocab_size = 3, cd_maximum_proposal_tokens = 2\<rparr>"
  have "map_option ds_probabilities (next_distribution (real_ops (\<lambda>_ :: real. True) id) ?d PlanBigram [1, 2, 1, 0, 1, 2, 1]) =
      empirical_proposal (cd_vocab_size ?d) PlanBigram [1, 2, 1, 0, 1, 2, 1]"
    by (rule proposals_are_empirical_frequencies [THEN conjunct1]) simp_all
  also have "\<dots> = Some [1 / 3, 0, 2 / 3]"
    by (simp add: empirical_proposal_def continuations_def frequencies_def upt_rec)
  finally show ?thesis .
qed

end
