(* ===== verification/Spec2Isabelle.thy ===== *)
theory Spec2Isabelle
  imports Scheduler_Props Scheduler_Flow Scheduler_Lifecycle State_Props Drafter Progressive
    Adaptive_Controller Adaptive_Draft Trace_Props Service_Props Memory_Props
    Kv_Props Kv_Sizes Gguf_Props Dequant_Props Q4k_Repack Runtime_Props Service_Memory Json_Constraint Penalties
    Sampler_Softmax Session_Archive Correctable_Props
begin

text \<open>
  A verification development of leone, an inference server for language models in Rust
  (\<open>crates/leone\<close>, the library the command line and the HTTP server drive).

  \<^bold>\<open>The program.\<close> A client's request goes through \<open>service.rs\<close>: \<open>ScheduledService::admit\<close>
  asks the scheduler (\<open>scheduler.rs\<close>) whether the request may reserve the KV memory its
  prompt and output can need, and opens a session in an executor. Every \<open>tick\<close> lets the
  scheduler pick a batch (\<open>dispatch_batch\<close>), has the executor compute one quantum for
  each member, checks what came back and tells the scheduler (\<open>complete_quantum\<close>);
  cancellation, deadlines and pruning go the same way. A trace run (\<open>run_service_trace_json\<close>)
  drives the scheduler alone on a recorded workload and verifies its own report by
  replaying the events. Below the executor, a backend reserves and owns bytes through the
  memory trackers of \<open>backend.rs\<close>, the transactional allocator of \<open>state.rs\<close> hands out
  state, a session's keys and values live in the segmented cache of \<open>kv.rs\<close>, the model comes
  from a GGUF file (\<open>crates/leone-gguf\<close>), and drafts of tokens to verify speculatively come from \<open>drafter.rs\<close>,
  \<open>adaptive_draft.rs\<close> and \<open>correctable.rs\<close>. A token is chosen from a row of logits by the
  penalties of \<open>penalty.rs\<close>, the constraint of \<open>constraint.rs\<close> and the samplers of \<open>sampler.rs\<close>;
  \<open>session_archive.rs\<close> stores a session for exact replay. \<open>progressive.rs\<close> stores quantised codes
  in two bit planes, and \<open>service_memory.rs\<close> of the command line decides how much memory a server may use.

  \<^bold>\<open>Conventions.\<close> \<open>Rust_Base\<close> holds results (\<open>Ok\<close>, \<open>Err\<close>, \<open>Panic\<close>: every \<open>expect\<close>,
  \<open>unreachable!\<close> and index out of range is a value), the \<open>?\<close> operator with and without
  state, words with checked, saturating and wrapping arithmetic, a stable sort, and the
  locales \<open>comparison\<close>, \<open>machine\<close> and \<open>bounded_machine\<close>. \<open>BTree_Map\<close> is the ordered map
  with the locale \<open>ordered_map\<close>, interpreted as \<open>bt\<close>. A method with \<open>&mut self\<close> returns
  its result and the state it leaves, errors included. Records carry the struct's name and
  a two-letter prefix on the fields.

  \<^bold>\<open>Scheduler\<close> (\<open>crates/leone/src/scheduler.rs\<close>, up to the trace). \<open>Scheduler\<close> has the
  data and every operation: \<open>policy_validate\<close>, \<open>admit\<close>, \<open>dispatch_batch\<close>,
  \<open>complete_quantum_with_progress\<close>, \<open>abort_quantum\<close>, \<open>cancel\<close>, \<open>prune_terminal\<close>,
  \<open>take_expired_deadlines\<close> and the queries. \<open>Scheduler_Inv\<close>, \<open>Scheduler_Ops\<close> and
  \<open>Scheduler_Admission\<close> prove that each operation keeps \<open>sched_ok\<close> (the reserved bytes
  are the sum over live requests and within the policy, running requests are exactly the
  dispatched ones, counters fit); \<open>Scheduler_Machine\<close> makes the operations a bounded
  machine and the queue order a lawful comparison; \<open>Scheduler_Life\<close> follows one request
  through its statuses and counts the work a scheduler owes; \<open>Scheduler_Demo\<close> is a
  concrete run. Properties: \<open>Scheduler_Props\<close> (memory ledger, admission),
  \<open>Scheduler_Flow\<close> (which requests are dispatched, budgets, expiry, the effect of a
  completion), \<open>Scheduler_Lifecycle\<close> (no panic, life cycle, cancellation, charges,
  termination of the work). A step is a call that does not report \<open>AccountingOverflow\<close>: reachable
  schedulers are those reached without such a call, and what the one feasible call of that kind
  leaves behind is \<open>sequence_exhaustion_strands_request\<close>.

  \<^bold>\<open>Trace\<close> (the rest of \<open>scheduler.rs\<close>). \<open>Service_Trace\<close> has the run, the events and the
  verification; \<open>Scheduler_Calls\<close> and \<open>Trace_Run\<close> prove the loop's invariant. The loop has
  fuel; \<open>enough_fuel\<close> = twice the sum over requests of (prompt + output + 2) plus 2 always
  suffices, since a turn admits, expires, completes work or moves the clock to the next
  arrival (\<open>trace_run_terminates\<close>). \<open>Trace_Props\<close>: termination, transcripts, the replay's
  ledger, and that an accepted report is right. JSON decoding and SHA-256 are parameters.

  \<^bold>\<open>Service\<close> (\<open>service.rs\<close>). \<open>Service\<close> has the operations over a \<open>QuantumExecutor\<close>, a
  record of functions on an arbitrary executor state (the trait's implementations are the
  model and the device). \<open>Service_Run\<close> wraps an executor so that it logs its calls and
  follows one tick through dispatch, execution, commit and abort; \<open>Service_Machine\<close> is the
  machine of the public calls; \<open>Service_Props\<close> states that sessions are balanced, that
  outputs grow by exactly the committed tokens, that nothing panics, and what a wrong
  answer of the executor leads to.

  \<^bold>\<open>Runtime executor\<close> (\<open>runtime_service.rs\<close>). \<open>Runtime_Service\<close> has the executor over retained
  sessions and its driver, a record of functions. \<open>Executor_Invariants\<close> has the locale
  \<open>executor_invariant\<close>: what the four calls of an executor keep, every service over it keeps;
  \<open>Runtime_Sessions\<close> interprets it on the executor. \<open>Runtime_Props\<close>: active records follow the
  live requests, and, through the locale \<open>isolated_steps\<close>, requests do not see each other.

  \<^bold>\<open>Service memory policy\<close> (\<open>crates/leone-cli/src/service_memory.rs\<close>). \<open>Service_Memory\<close> parses
  the requested budgets, resolves them against what the host and the device report, and proves
  the limits of the resulting policy; the ledger it starts is a tracker of \<open>Memory_Tracker\<close>.

  \<^bold>\<open>Memory accounting\<close> (\<open>backend.rs\<close>, \<open>MemoryBudget\<close> to \<open>move_live\<close>). \<open>Memory_Tracker\<close>
  has every operation on an explicit heap of tracker and root states; a method holds its
  locks throughout, so it is one step. \<open>Memory_System\<close> relates counters to the handles
  alive, \<open>Memory_Props\<close> is the machine of all trackers of a process with its ledger,
  budgets, absence of panics and exact acceptance.

  \<^bold>\<open>KV cache\<close> (\<open>kv.rs\<close>, \<open>backend/kv.rs\<close>, shapes of \<open>backend.rs\<close>). \<open>Backend_Shapes\<close> has the
  buffer layouts and the checked shapes, \<open>Kv_Spans\<close> the read and write spans, \<open>Kv_Store\<close>
  the segmented cache with every operation: append preparation with its rollback, commit,
  truncation, shape growth, forks, spans, snapshots. The backend, the host allocator and
  the identities of \<open>Rc\<close> are a \<open>KvBackend\<close>, functions on a world; whether a storage is
  shared is a predicate on its identity. \<open>Kv_Inv\<close> defines the invariant \<open>kv_ok\<close> and the
  rows a cache stands for; \<open>Kv_Append\<close>, \<open>Kv_Prepare\<close>, \<open>Kv_Steps\<close>, \<open>Kv_Moves\<close> and
  \<open>Kv_Commit\<close> say what each operation does to them; \<open>Kv_System\<close> is the machine of all the
  caches of a model (interpretation \<open>kv\<close>), where uniqueness is counted over the caches
  alive; \<open>Kv_Snapshots\<close> follows a snapshot to its restoration; \<open>Kv_Demo\<close> is a concrete run.
  \<open>Kv_Props\<close> states well-formedness, that writes reach no other cache, that errors change
  nothing, which rows each move keeps, that reads find every row, that the layout revision
  tells layouts apart, and the snapshot round trip; \<open>Kv_Sizes\<close> bounds the host metadata.

  \<^bold>\<open>GGUF container\<close> (\<open>crates/leone-gguf/src\<close>: \<open>container.rs\<close>, \<open>error.rs\<close>, \<open>alloc.rs\<close>,
  \<open>pread.rs\<close>). \<open>Gguf_Types\<close> has the data and the checked arithmetic, \<open>Gguf_Input\<close> the
  parser's input with its guards and reservations against a budget, \<open>Gguf_Parse\<close> the parse
  and the reads of an open file. The budget, the allocator and the element sizes are a
  \<open>GgufHost\<close>. \<open>Gguf_Steps\<close> gives the primitive steps (what they read, how many guards they
  add), \<open>Gguf_Codec\<close> the locale \<open>field\<close>, a reader that accepts exactly the encodings of its
  values, with \<open>item\<close> for the ones that can be repeated, interpreted for integers, booleans,
  strings, arrays and metadata values; \<open>Gguf_Format\<close> composes them to metadata and tensor
  table and relates the overlap check to disjoint extents. \<open>Gguf_Props\<close>: no panic, an open
  succeeds exactly on the encodings of well-formed contents (for files below \<open>2 ^ 47\<close> bytes,
  so that no counter of the parser overflows), tensors lie apart in the file, reads stay in
  their tensor, guards are bounded. What a failing parse drops is not followed.

  \<^bold>\<open>Quantised weights.\<close> \<open>Gguf_Dequant\<close> has the scalar dequantizers of \<open>ref_dequant.rs\<close> over abstract
  operations on floats, with the locale \<open>quant_format\<close> that \<open>Dequant_Formats\<close> interprets for each
  format and \<open>Dequant_Props\<close> summarises. \<open>Q4k_Repack\<close> has the striped layout of
  \<open>crates/leone-cuda/src/repack.rs\<close> and proves that repacking changes no value.

  \<^bold>\<open>Choosing a token.\<close> \<open>Penalties\<close> (\<open>penalty.rs\<close>) compares the loops with a definition by the history
  alone. \<open>Json_Constraint\<close> (\<open>constraint.rs\<close>) takes the JSON parser and the tokenizer as parameters.
  \<open>Sampler\<close> and \<open>Sampler_Pipeline\<close> (\<open>sampler.rs\<close>) are over a record of floating-point operations;
  \<open>Sampler_Exact\<close> instantiates it with the reals and proves that draws for different positions or
  purposes never share a word of the stream and that speculative verification emits the target
  distribution; \<open>Sampler_Softmax\<close> says which distribution the truncation pipeline gives.
  \<open>Correctable\<close> has the drafter and the controller of \<open>correctable.rs\<close>; \<open>Correctable_Props\<close> shows that
  its proposals are relative frequencies. \<open>Session_Archive\<close> (\<open>session_archive.rs\<close>) takes the JSON
  library as a parameter and proves the round trip and the length bound.

  \<^bold>\<open>State allocator\<close> (\<open>state.rs\<close>): \<open>State_Allocator\<close>, \<open>State_Props\<close> (ledger, transactions,
  rollback). \<^bold>\<open>Drafters\<close> (\<open>drafter.rs\<close>, \<open>adaptive_draft.rs\<close>): \<open>Drafter\<close>,
  \<open>Adaptive_Draft\<close> and \<open>Adaptive_Controller\<close>, each scan against its specification by the
  positions of the context; floating-point operations of the controller are parameters.
  \<^bold>\<open>Progressive codes\<close> (\<open>progressive.rs\<close>): \<open>Progressive\<close>, round trip, rejection and the
  crate's own exhaustive self-test.

  \<^bold>\<open>What the modelling showed.\<close> Exhausting the sequence counter strands a request whose
  bytes were never reserved (\<open>sequence_exhaustion_strands_request\<close>); a trace with a
  request cancelled or expired before its first quantum fails the run's own verification
  (\<open>unserved_requests_fail_verification\<close>); the replay checks a dispatch against the KV
  capacity instead of the quantum (\<open>replay_accepts_oversized_quantum\<close>); a proposal length
  near the largest \<open>usize\<close> makes the drafter panic (\<open>draft_overflow_panics\<close>); the JSON constraint accepts a form feed before
  the object, after which no output can complete it (\<open>form_feed_is_a_trap\<close>).

  \<^bold>\<open>Not modelled.\<close> The numerics (\<open>runtime.rs\<close>, \<open>cpu.rs\<close>, \<open>model.rs\<close>): they are floating point over
  device buffers. The CUDA and Metal crates beyond the repack: kernels and driver calls. The
  HTTP server, the command line, the registry, the receipts and the tokenizer: I/O, processes,
  serialisation and vendored code. Rounding is outside every theorem: the models are over abstract
  floating-point operations and the samplers are proved over the reals. Of file reads only the
  end of the file is an error, and a device buffer is identified with its contents.
\<close>

end
